(* ===== verification/Prelude.thy ===== *)
theory Prelude
  imports Complex_Main "HOL-Library.Char_ord" "HOL-Library.List_Lexorder"
begin

text \<open>
  What every component of the development shares.

  \<^item> Fallible code. A Go function that returns \<open>(T, error)\<close> is a HOL function into the sum
    \<open>'e + 'a\<close>: \<open>Inl\<close> is the error, and \<open>rbind\<close> is the \<open>if err != nil { return err }\<close> that follows
    each call. Inside a write transaction an error rolls everything back, so an operation that
    changes state returns the new state only in \<open>Inr\<close>.
  \<^item> SQL. A table is the list of its rows in insertion order. \<open>List.find\<close> is a SELECT of one
    row, \<open>filter\<close> a SELECT or a DELETE, \<open>update_where\<close> an UPDATE, \<open>insert_row\<close> an INSERT with
    the table's PRIMARY KEY, UNIQUE and CHECK constraints.
  \<^item> Runs. \<open>run_log\<close> executes a log of requests, each at its own clock reading; a refused
    request leaves the state as it was. The locale \<open>timed_machine\<close> carries an invariant of one
    request to every run.
  \<^item> Go strings. A Go string is a sequence of bytes, here a \<open>char list\<close>; the functions of
    \<^verbatim>\<open>unicode/utf8\<close>, \<^verbatim>\<open>unicode\<close> and \<^verbatim>\<open>strings\<close> that the sources call are defined on it.
\<close>

named_theorems table_simps \<open>rewriting of table operations\<close>

type_synonym 'a row_pred = "'a \<Rightarrow> bool"
type_synonym time = rat

section \<open>Results\<close>

definition rbind :: "'e + 'a \<Rightarrow> ('a \<Rightarrow> 'e + 'b) \<Rightarrow> 'e + 'b" where
  "rbind m f = (case m of Inl e \<Rightarrow> Inl e | Inr a \<Rightarrow> f a)"

lemma rbind_simps [simp]:
  "rbind (Inl e) f = Inl e"
  "rbind (Inr a) f = f a"
  by (simp_all add: rbind_def)

lemma rbind_Inr_iff [simp]:
  "rbind m f = Inr b \<longleftrightarrow> (\<exists>a. m = Inr a \<and> f a = Inr b)"
  by (cases m) auto

lemma rbind_Inl_iff:
  "rbind m f = Inl e \<longleftrightarrow> m = Inl e \<or> (\<exists>a. m = Inr a \<and> f a = Inl e)"
  by (cases m) auto

lemma rbind_cong [fundef_cong]:
  "m = m' \<Longrightarrow> (\<And>a. m' = Inr a \<Longrightarrow> f a = f' a) \<Longrightarrow> rbind m f = rbind m' f'"
  by (cases m') auto

definition guard :: "bool \<Rightarrow> 'e \<Rightarrow> 'e + unit" where
  "guard b e = (if b then Inr () else Inl e)"

lemma guard_iff [simp]:
  "guard b e = Inr u \<longleftrightarrow> b"
  "guard b e = Inl e' \<longleftrightarrow> \<not> b \<and> e = e'"
  by (auto simp: guard_def)

lemma guard_bool [simp]: "guard True e = Inr ()" "guard False e = Inl e"
  by (simp_all add: guard_def)

fun opt_err :: "'e \<Rightarrow> 'a option \<Rightarrow> 'e + 'a" where
  "opt_err e None = Inl e"
| "opt_err e (Some a) = Inr a"

lemma opt_err_iff [simp]:
  "opt_err e x = Inr a \<longleftrightarrow> x = Some a"
  "opt_err e x = Inl e' \<longleftrightarrow> x = None \<and> e = e'"
  by (cases x; auto)+

text \<open>A check of every element, in order.\<close>

fun each :: "('a \<Rightarrow> 'e + unit) \<Rightarrow> 'a list \<Rightarrow> 'e + unit" where
  "each f [] = Inr ()"
| "each f (x # xs) = rbind (f x) (\<lambda>_. each f xs)"

section \<open>Tables\<close>

definition update_where :: "'r row_pred \<Rightarrow> ('r \<Rightarrow> 'r) \<Rightarrow> 'r list \<Rightarrow> 'r list" where
  "update_where P f t = map (\<lambda>r. if P r then f r else r) t"

definition insert_row :: "'e \<Rightarrow> ('r \<Rightarrow> 'r list \<Rightarrow> bool) \<Rightarrow> 'r \<Rightarrow> 'r list \<Rightarrow> 'e + 'r list" where
  "insert_row e ok r t = (if ok r t then Inr (t @ [r]) else Inl e)"

lemma insert_row_iff [simp]:
  "insert_row e ok r t = Inr t' \<longleftrightarrow> ok r t \<and> t' = t @ [r]"
  by (auto simp: insert_row_def)

definition fresh_key :: "('r \<Rightarrow> 'k) \<Rightarrow> 'r \<Rightarrow> 'r list \<Rightarrow> bool" where
  "fresh_key k r t \<longleftrightarrow> (\<forall>q\<in>set t. k q \<noteq> k r)"

definition sum_flags :: "('r \<Rightarrow> bool) \<Rightarrow> 'r list \<Rightarrow> int" where
  "sum_flags P t = int (length (filter P t))"

lemma length_update_where [simp, table_simps]: "length (update_where P f t) = length t"
  by (simp add: update_where_def)

lemma update_where_append [table_simps]:
  "update_where P f (s @ t) = update_where P f s @ update_where P f t"
  by (simp add: update_where_def)

lemma set_update_where: "set (update_where P f t) = (\<lambda>r. if P r then f r else r) ` set t"
  by (simp add: update_where_def)

lemma in_update_where:
  "r \<in> set (update_where P f t) \<longleftrightarrow> (\<exists>q\<in>set t. r = (if P q then f q else q))"
  by (auto simp: update_where_def)

lemma map_update_where:
  assumes "\<And>r. g (f r) = g r"
  shows "map g (update_where P f t) = map g t"
  using assms by (auto simp: update_where_def)

lemma filter_update_where:
  assumes "\<And>r. Q (f r) = Q r"
  shows "filter Q (update_where P f t) = update_where P f (filter Q t)"
  using assms by (induction t) (auto simp: update_where_def)

lemma find_update_where:
  assumes "\<And>r. Q (f r) = Q r"
  shows "List.find Q (update_where P f t)
       = map_option (\<lambda>r. if P r then f r else r) (List.find Q t)"
  using assms by (induction t) (auto simp: update_where_def)

lemma find_Some_mem: "List.find P t = Some r \<Longrightarrow> r \<in> set t \<and> P r"
  by (auto simp: find_Some_iff)

lemma find_None_all: "List.find P t = None \<longleftrightarrow> (\<forall>r\<in>set t. \<not> P r)"
  by (auto simp: find_None_iff)

lemma find_append: "List.find P (s @ t) = (case List.find P s of None \<Rightarrow> List.find P t | Some r \<Rightarrow> Some r)"
  by (induction s) auto

lemma find_key_unique:
  assumes "distinct (map k t)" "r \<in> set t"
  shows "List.find (\<lambda>q. k q = k r) t = Some r"
  using assms by (induction t) (auto simp: image_iff)

lemma distinct_key_eq:
  assumes "distinct (map k t)" "r \<in> set t" "q \<in> set t" "k r = k q"
  shows "r = q"
  using assms by (metis distinct_map inj_onD)

lemma distinct_append_fresh:
  "distinct (map k (t @ [r])) \<longleftrightarrow> distinct (map k t) \<and> fresh_key k r t"
  by (force simp: fresh_key_def image_iff)

lemma distinct_map_filter_key: "distinct (map k t) \<Longrightarrow> distinct (map k (filter P t))"
  by (rule distinct_map_filter)

section \<open>Runs of a machine over a log of timed requests\<close>

fun run_log :: "('ev \<Rightarrow> 't \<Rightarrow> 's \<Rightarrow> 'e + 's) \<Rightarrow> ('ev \<times> 't) list \<Rightarrow> 's \<Rightarrow> 's" where
  "run_log step [] s = s"
| "run_log step ((e, now) # reqs) s =
     run_log step reqs (case step e now s of Inl _ \<Rightarrow> s | Inr s' \<Rightarrow> s')"

definition last_time :: "'t \<Rightarrow> ('ev \<times> 't) list \<Rightarrow> 't" where
  "last_time t reqs = last (t # map snd reqs)"

text \<open>
  A machine whose invariant holds while every served request is of the kind \<open>ok\<close>, whatever the
  clock says.
\<close>

locale guarded_machine =
  fixes step :: "'ev \<Rightarrow> 't \<Rightarrow> 's \<Rightarrow> 'e + 's"
    and inv :: "'s \<Rightarrow> bool"
    and ok :: "'ev \<Rightarrow> bool"
  assumes guarded_step: "inv s \<Longrightarrow> ok e \<Longrightarrow> step e now s = Inr s' \<Longrightarrow> inv s'"
begin

lemma run_guarded: "inv s \<Longrightarrow> (\<forall>x\<in>set reqs. ok (fst x)) \<Longrightarrow> inv (run_log step reqs s)"
proof (induction reqs arbitrary: s)
  case (Cons x reqs)
  obtain e now where x: "x = (e, now)" by (cases x)
  have "inv (case step e now s of Inl _ \<Rightarrow> s | Inr s' \<Rightarrow> s')"
    using Cons.prems x by (auto split: sum.splits intro: guarded_step)
  then show ?case using Cons.IH Cons.prems(2) x by simp
qed simp

end

text \<open>A machine whose invariant depends on the time and outlives a monotone clock.\<close>

locale timed_machine =
  fixes step :: "'ev \<Rightarrow> 't::linorder \<Rightarrow> 's \<Rightarrow> 'e + 's"
    and inv :: "'t \<Rightarrow> 's \<Rightarrow> bool"
  assumes inv_step: "inv t s \<Longrightarrow> t \<le> now \<Longrightarrow> step e now s = Inr s' \<Longrightarrow> inv now s'"
    and inv_later: "inv t s \<Longrightarrow> t \<le> now \<Longrightarrow> inv now s"
begin

lemma run_inv:
  "inv t s \<Longrightarrow> sorted (t # map snd reqs) \<Longrightarrow> inv (last_time t reqs) (run_log step reqs s)"
proof (induction reqs arbitrary: t s)
  case Nil
  then show ?case by (simp add: last_time_def)
next
  case (Cons x reqs)
  obtain e now where x: "x = (e, now)" by (cases x)
  have le: "t \<le> now" using Cons.prems(2) x by simp
  have "inv now (case step e now s of Inl _ \<Rightarrow> s | Inr s' \<Rightarrow> s')"
    using Cons.prems(1) le by (auto split: sum.splits intro: inv_step inv_later)
  moreover have "sorted (now # map snd reqs)" using Cons.prems(2) x by simp
  ultimately have "inv (last_time now reqs)
      (run_log step reqs (case step e now s of Inl _ \<Rightarrow> s | Inr s' \<Rightarrow> s'))"
    by (rule Cons.IH)
  then show ?case using x by (simp add: last_time_def)
qed

end

text \<open>A relation between the states around a request that composes over a run.\<close>

locale monotone_machine =
  fixes step :: "'ev \<Rightarrow> 't \<Rightarrow> 's \<Rightarrow> 'e + 's"
    and le :: "'s \<Rightarrow> 's \<Rightarrow> bool"
  assumes le_refl: "le s s"
    and le_trans: "le a b \<Longrightarrow> le b c \<Longrightarrow> le a c"
    and le_step: "step e now s = Inr s' \<Longrightarrow> le s s'"
begin

lemma run_le: "le s (run_log step reqs s)"
proof (induction reqs arbitrary: s)
  case Nil
  show ?case by (simp add: le_refl)
next
  case (Cons x reqs)
  obtain e now where x: "x = (e, now)" by (cases x)
  have "le s (case step e now s of Inl _ \<Rightarrow> s | Inr s' \<Rightarrow> s')"
    by (auto split: sum.splits intro: le_refl le_step)
  then show ?case using Cons.IH x le_trans by auto
qed

end

text \<open>A machine that refines an abstract one: each served request is one abstract step.\<close>

locale refining_machine =
  fixes step :: "'ev \<Rightarrow> 't \<Rightarrow> 's \<Rightarrow> 'e + 's"
    and inv :: "'s \<Rightarrow> bool"
    and abstr :: "'s \<Rightarrow> 'a"
    and astep :: "'a \<Rightarrow> 'a \<Rightarrow> bool"
  assumes refines_inv: "inv s \<Longrightarrow> step e now s = Inr s' \<Longrightarrow> inv s'"
    and refines_step: "inv s \<Longrightarrow> step e now s = Inr s' \<Longrightarrow> astep (abstr s) (abstr s')"
begin

lemma run_refines: "inv s \<Longrightarrow> astep\<^sup>*\<^sup>* (abstr s) (abstr (run_log step reqs s))"
proof (induction reqs arbitrary: s)
  case (Cons x reqs)
  obtain e now where x: "x = (e, now)" by (cases x)
  show ?case
  proof (cases "step e now s")
    case (Inr s')
    then have "astep\<^sup>*\<^sup>* (abstr s') (abstr (run_log step reqs s'))" using Cons refines_inv by blast
    then show ?thesis using refines_step[OF Cons.prems Inr] x Inr by (simp add: converse_rtranclp_into_rtranclp)
  qed (use Cons x in simp)
qed simp

end

sublocale refining_machine \<subseteq> kept: guarded_machine step inv "\<lambda>_. True"
  by unfold_locales (rule refines_inv)

end
