(* ===== verification/Go_Strings.thy ===== *)
theory Go_Strings
  imports Prelude
begin

text \<open>
  The part of Go's \<^verbatim>\<open>strings\<close>, \<^verbatim>\<open>unicode\<close>, \<^verbatim>\<open>unicode/utf8\<close>, \<^verbatim>\<open>strconv\<close> and
  \<^verbatim>\<open>encoding/hex\<close> that the modelled sources call, on strings as byte sequences
  (a \<open>char\<close> is one byte). UTF-8 decoding follows Go's table of accepted ranges: overlong forms,
  surrogates and code points above U+10FFFF are invalid, and an invalid byte decodes as
  U+FFFD of width one.
\<close>

abbreviation byte :: "char \<Rightarrow> nat" where
  "byte c \<equiv> of_char c"

section \<open>Prefixes, suffixes and splitting\<close>

fun has_prefix :: "string \<Rightarrow> string \<Rightarrow> bool" where
  "has_prefix s [] = True"
| "has_prefix [] (p # ps) = False"
| "has_prefix (c # s) (p # ps) = (c = p \<and> has_prefix s ps)"

lemma has_prefix_iff: "has_prefix s p \<longleftrightarrow> (\<exists>r. s = p @ r)"
  by (induction s p rule: has_prefix.induct) auto

definition trim_prefix :: "string \<Rightarrow> string \<Rightarrow> string" where
  "trim_prefix s p = (if has_prefix s p then drop (length p) s else s)"

definition has_suffix :: "string \<Rightarrow> string \<Rightarrow> bool" where
  "has_suffix s p = has_prefix (rev s) (rev p)"

definition trim_suffix :: "string \<Rightarrow> string \<Rightarrow> string" where
  "trim_suffix s p = (if has_suffix s p then take (length s - length p) s else s)"

lemma trim_prefix_append [simp]: "trim_prefix (p @ s) p = s"
  by (auto simp: trim_prefix_def has_prefix_iff)

text \<open>\<open>strings.Split(s, sep)\<close> for a one-byte separator: never empty, one part more than separators.\<close>

fun split_byte :: "char \<Rightarrow> string \<Rightarrow> string list" where
  "split_byte sep [] = [[]]"
| "split_byte sep (c # s) =
     (if c = sep then [] # split_byte sep s
      else (case split_byte sep s of [] \<Rightarrow> [[c]] | p # ps \<Rightarrow> (c # p) # ps))"

lemma split_byte_nonempty [simp]: "split_byte sep s \<noteq> []"
  by (cases s) (auto split: list.splits)

fun join_byte :: "char \<Rightarrow> string list \<Rightarrow> string" where
  "join_byte sep [] = []"
| "join_byte sep [p] = p"
| "join_byte sep (p # ps) = p @ sep # join_byte sep ps"

lemma join_split_byte: "join_byte sep (split_byte sep s) = s"
proof (induction s)
  case Nil
  show ?case by simp
next
  case (Cons c s)
  show ?case
  proof (cases "split_byte sep s")
    case Nil
    then show ?thesis by simp
  next
    case (Cons p ps)
    with Cons.IH show ?thesis by (cases ps) auto
  qed
qed

lemma split_byte_no_sep: "p \<in> set (split_byte sep s) \<Longrightarrow> sep \<notin> set p"
  by (induction s arbitrary: p) (auto split: if_splits list.splits)

fun join_with :: "string \<Rightarrow> string list \<Rightarrow> string" where
  "join_with sep [] = []"
| "join_with sep [p] = p"
| "join_with sep (p # ps) = p @ sep @ join_with sep ps"

section \<open>UTF-8\<close>

definition cont :: "nat \<Rightarrow> bool" where
  "cont b \<longleftrightarrow> 128 \<le> b \<and> b \<le> 191"

text \<open>One decoded rune: its code point, its width and whether the bytes were valid.\<close>

fun decode_rune :: "string \<Rightarrow> nat \<times> nat \<times> bool" where
  "decode_rune [] = (65533, 0, False)"
| "decode_rune (c # s) =
     (let a = byte c; bs = map byte s in
      if a < 128 then (a, 1, True)
      else if 194 \<le> a \<and> a \<le> 223 then
        (case bs of b # _ \<Rightarrow> if cont b then ((a - 192) * 64 + (b - 128), 2, True)
                            else (65533, 1, False)
         | _ \<Rightarrow> (65533, 1, False))
      else if 224 \<le> a \<and> a \<le> 239 then
        (case bs of b # d # _ \<Rightarrow>
           if (if a = 224 then 160 \<le> b \<and> b \<le> 191
               else if a = 237 then 128 \<le> b \<and> b \<le> 159 else cont b) \<and> cont d
           then ((a - 224) * 4096 + (b - 128) * 64 + (d - 128), 3, True)
           else (65533, 1, False)
         | _ \<Rightarrow> (65533, 1, False))
      else if 240 \<le> a \<and> a \<le> 244 then
        (case bs of b # d # e # _ \<Rightarrow>
           if (if a = 240 then 144 \<le> b \<and> b \<le> 191
               else if a = 244 then 128 \<le> b \<and> b \<le> 143 else cont b) \<and> cont d \<and> cont e
           then ((a - 240) * 262144 + (b - 128) * 4096 + (d - 128) * 64 + (e - 128), 4, True)
           else (65533, 1, False)
         | _ \<Rightarrow> (65533, 1, False))
      else (65533, 1, False))"

lemma decode_rune_width: "s \<noteq> [] \<Longrightarrow> 1 \<le> fst (snd (decode_rune s))"
  by (cases s) (auto simp: Let_def split: list.splits)

function decode_runes :: "string \<Rightarrow> (nat \<times> bool) list" where
  "decode_runes s =
     (if s = [] then []
      else case decode_rune s of (r, w, ok) \<Rightarrow> (r, ok) # decode_runes (drop (max 1 w) s))"
  by pat_completeness auto
termination
  by (relation "measure length") auto

declare decode_runes.simps [simp del]

lemma decode_runes_Nil [simp]: "decode_runes [] = []"
  by (simp add: decode_runes.simps)

definition valid_utf8 :: "string \<Rightarrow> bool" where
  "valid_utf8 s \<longleftrightarrow> (\<forall>x\<in>set (decode_runes s). snd x)"

definition rune_count :: "string \<Rightarrow> nat" where
  "rune_count s = length (decode_runes s)"

lemma rune_count_le_length: "rune_count s \<le> length s"
proof (induction s rule: decode_runes.induct)
  case (1 s)
  show ?case
  proof (cases "s = []")
    case True
    then show ?thesis by (simp add: rune_count_def)
  next
    case False
    obtain r w ok where d: "decode_rune s = (r, w, ok)" by (cases "decode_rune s")
    have IH: "rune_count (drop (max 1 w) s) \<le> length (drop (max 1 w) s)"
      using "1"[OF False d[symmetric] refl] .
    have "rune_count s = Suc (rune_count (drop (max 1 w) s))"
      using False d by (simp add: rune_count_def decode_runes.simps[of s])
    moreover have "Suc (length (drop (max 1 w) s)) \<le> length s"
      using False by (cases s) auto
    ultimately show ?thesis using IH by linarith
  qed
qed

lemma decode_runes_ascii:
  "\<forall>c\<in>set s. byte c < 128 \<Longrightarrow> decode_runes s = map (\<lambda>c. (byte c, True)) s"
proof (induction s)
  case Nil
  show ?case by simp
next
  case (Cons c s)
  then have "decode_rune (c # s) = (byte c, 1, True)" by (simp add: Let_def)
  with Cons show ?case by (simp add: decode_runes.simps[of "c # s"])
qed

lemma valid_utf8_ascii: "\<forall>c\<in>set s. byte c < 128 \<Longrightarrow> valid_utf8 s"
  by (auto simp: valid_utf8_def decode_runes_ascii)

text \<open>\<open>unicode.IsControl\<close> and \<open>unicode.IsSpace\<close> on a code point.\<close>

definition is_control :: "nat \<Rightarrow> bool" where
  "is_control r \<longleftrightarrow> r < 32 \<or> (127 \<le> r \<and> r < 160)"

definition is_space :: "nat \<Rightarrow> bool" where
  "is_space r \<longleftrightarrow> (9 \<le> r \<and> r \<le> 13) \<or> r = 32 \<or> r = 133 \<or> r = 160 \<or> r = 5760
     \<or> (8192 \<le> r \<and> r \<le> 8202) \<or> r = 8232 \<or> r = 8233 \<or> r = 8239 \<or> r = 8287 \<or> r = 12288"

text \<open>\<open>strings.TrimSpace(s) == ""\<close>: every rune is white space.\<close>

definition blank :: "string \<Rightarrow> bool" where
  "blank s \<longleftrightarrow> (\<forall>x\<in>set (decode_runes s). is_space (fst x))"

text \<open>\<open>strings.TrimSpace\<close>: the leading runes that are white space go, then the longest blank end.\<close>

function skip_space :: "string \<Rightarrow> string" where
  "skip_space s = (if s = [] then [] else
     (case decode_rune s of (r, w, ok) \<Rightarrow> if is_space r then skip_space (drop (max 1 w) s) else s))"
  by pat_completeness auto
termination
  by (relation "measure length") auto

declare skip_space.simps [simp del]

definition trim_space :: "string \<Rightarrow> string" where
  "trim_space s = (let t = skip_space s in
     case List.find (\<lambda>n. blank (drop n t)) [0..<length t] of None \<Rightarrow> t | Some n \<Rightarrow> take n t)"

text \<open>\<open>strings.IndexFunc(s, unicode.IsControl) >= 0\<close>.\<close>

definition has_control :: "string \<Rightarrow> bool" where
  "has_control s \<longleftrightarrow> (\<exists>x\<in>set (decode_runes s). is_control (fst x))"

text \<open>\<open>strings.Trim(s, cutset) == ""\<close> for an ASCII cutset: no byte outside the cutset.\<close>

definition only_bytes :: "string \<Rightarrow> string \<Rightarrow> bool" where
  "only_bytes cutset s \<longleftrightarrow> (\<forall>c\<in>set s. c \<in> set cutset)"

section \<open>Numbers as text\<close>

definition digit :: "nat \<Rightarrow> char" where
  "digit n = (if n < 10 then char_of (48 + n) else char_of (87 + n))"

fun show_base :: "nat \<Rightarrow> nat \<Rightarrow> string" where
  "show_base b n = (if b < 2 \<or> n < b then [digit n] else show_base b (n div b) @ [digit (n mod b)])"

declare show_base.simps [simp del]

definition show_nat :: "nat \<Rightarrow> string" where
  "show_nat n = show_base 10 n"

definition show_int :: "int \<Rightarrow> string" where
  "show_int i = (if i < 0 then CHR ''-'' # show_nat (nat (- i)) else show_nat (nat i))"

text \<open>\<open>fmt.Sprintf("%0Nx", n)\<close> for a nonnegative \<open>n\<close>.\<close>

definition hex_padded :: "nat \<Rightarrow> nat \<Rightarrow> string" where
  "hex_padded width n = (let h = show_base 16 n in replicate (width - length h) CHR ''0'' @ h)"

text \<open>\<open>hex.EncodeToString\<close>.\<close>

definition hex_encode :: "nat list \<Rightarrow> string" where
  "hex_encode bs = concat (map (\<lambda>b. [digit (b div 16), digit (b mod 16)]) bs)"

lemma length_hex_encode [simp]: "length (hex_encode bs) = 2 * length bs"
  by (induction bs) (auto simp: hex_encode_def)

end
