(* ===== verification/Database.thy ===== *)
theory Database
  imports Go_Strings
begin

text \<open>
  The data the components share: error values, the keys of sessions, and the state database as
  one record of tables.

  The daemon keeps all durable state in one SQLite database (\<^verbatim>\<open>internal/core/store.go\<close>); each
  table is a list of row records here, with the columns the modelled statements read or write.
  Columns that hold JSON text written by the daemon itself (\<open>references_json\<close>, \<open>proposed_role\<close>,
  \<open>conflict\<close>, \<open>succession\<close>, event payloads) hold the decoded value, and a column whose empty
  text means "none" is an \<open>option\<close>. Sequence numbers, revisions and millisecond times are
  \<open>int64\<close> in the code and \<open>int\<close> here, with the guards against \<open>math.MaxInt64\<close> written out. Work times
  are \<open>float64\<close> Unix seconds: they are rationals here, exact where the code's sums are exact
  (a clock reading below \<open>2^31\<close> seconds is a multiple of \<open>2^-22\<close>, so adding whole seconds does not
  round).
\<close>

section \<open>Errors\<close>

text \<open>The value of one entry of a refusal's \<open>Details\<close> map.\<close>

datatype detail =
    DText string
  | DInt int
  | DOptInt "int option"
  | DTime time
  | DTexts "string list"

datatype kerror =
    WorkRefusal string string "(string \<times> detail) list"
  | Refusal string string
  | ErrInvalid
  | ErrMissing
  | ErrConflict
  | SessionConflict string bool
  | ErrPeerNotFound
  | ErrAliasUnheld
  | ErrRecipientInactive
  | InactiveRecipient string
  | ErrCallerInactive
  | ErrAckBeyondLast
  | ErrMessageNotFound
  | HolderWait string string int
  | ErrCycleEventLimit
  | ErrText string
  | NoFreeName
  | ErrNoRows
  | ErrConstraint

definition workError :: "string \<Rightarrow> string \<Rightarrow> kerror" where
  "workError code message = WorkRefusal code message []"

definition invalid :: "string \<Rightarrow> kerror" where
  "invalid message = workError ''invalid_request'' message"

definition ErrCapacity :: kerror where
  "ErrCapacity = Refusal ''capacity'' ''storage capacity reached; nothing was written and stored data is intact''"

definition ErrStorageBlocked :: kerror where
  "ErrStorageBlocked = Refusal ''storage_blocked'' ''the write-ahead log could not be proven empty; writes wait for koinon recover''"

definition ErrStaleHolder :: kerror where
  "ErrStaleHolder = Refusal ''stale_holder'' ''this session does not hold that participant; another session holds it now''"

definition ErrNotParticipant :: kerror where
  "ErrNotParticipant = Refusal ''not_participant'' ''the session does not belong to that participant''"

definition maxInt64 :: int where
  "maxInt64 = 9223372036854775807"

section \<open>JSON\<close>

text \<open>
  A decoded JSON value. \<open>JInt\<close> is a number written without fraction or exponent, \<open>JFloat\<close> any
  other finite number. An object keeps its members in order.
\<close>

datatype json =
    JNull
  | JBool bool
  | JInt int
  | JFloat rat
  | JStr string
  | JArr "json list"
  | JObj "(string \<times> json) list"

section \<open>Keys and callers\<close>

record Key =
  k_family :: string
  k_id :: string

abbreviation key :: "string \<Rightarrow> string \<Rightarrow> Key" where
  "key f i \<equiv> \<lparr>k_family = f, k_id = i\<rparr>"

definition maintainerKey :: Key where
  "maintainerKey = key ''maintainer'' ''maintainer''"

record MemoryCaller =
  m_repository :: string
  m_family :: string
  m_name :: string
  m_consumer :: string
  m_native :: Key
  m_consumer_explicit :: bool

section \<open>Sessions, names and participants\<close>

record Succession =
  su_result :: string
  su_reason :: string
  su_address :: string
  su_holder :: string
  su_at :: int
  su_retry_after_ms :: int

record sessionRow =
  s_family :: string
  s_id :: string
  s_repository :: string
  s_directory :: string
  s_wake_target :: json
  s_registered_at :: int
  s_renewed_at :: int
  s_expires_at :: int
  s_retired_at :: int
  s_revision :: int
  s_last_seq :: int
  s_acked_through :: int
  s_read_through :: int
  s_acked_by :: string
  s_subagent :: bool
  s_role :: string
  s_host_pid :: int
  s_host_start :: int
  s_tmux_socket :: string
  s_tmux_pane :: string
  s_tmux_path :: string
  s_purge_at :: int
  s_succession :: "Succession option"

record nameRow =
  n_name :: string
  n_kind :: string
  n_family :: string
  n_session_id :: string
  n_repository :: string
  n_holder_id :: string
  n_role :: string
  n_conflict :: "string list option"

record eventRow =
  pe_at :: int
  pe_address :: string
  pe_former :: string
  pe_holder :: string
  pe_reason :: string
  pe_actor :: string
  pe_details :: string

record fenceRow =
  f_address :: string
  f_family :: string
  f_session_id :: string
  f_at :: int
  f_reason :: string

record messageRow =
  g_id :: int
  g_recipient_family :: string
  g_recipient_id :: string
  g_seq :: int
  g_sender_family :: string
  g_sender_id :: string
  g_sender_name :: string
  g_body :: string
  g_created_at :: int
  g_delivery_state :: string
  g_delivery_reason :: string
  g_delivery_updated_at :: int
  g_wake_attempts :: int
  g_wake_next_at :: int
  g_wake_reason :: string
  g_wake_notices :: int
  g_maintainer_ack :: bool
  g_ack_session :: string
  g_ack_via :: string
  g_room_id :: string
  g_room_revision :: int
  g_room_event :: string
  g_room_seq :: int
  g_room_origin :: string
  g_system_kind :: string
  g_cycle_id :: string
  g_cycle_enable_revision :: int
  g_decision_verdict :: int

section \<open>Launches\<close>

record LaunchTarget =
  lt_family :: string
  lt_directory :: string
  lt_cli :: string
  lt_host_pid :: int
  lt_address :: string
  lt_password :: string
  lt_nested :: "(string \<times> string) list"
  lt_nested_incomplete :: bool
  lt_background :: bool
  lt_job_id :: string
  lt_role :: string
  lt_session_id :: string

record launchRow =
  la_id :: string
  la_family :: string
  la_directory :: string
  la_target :: LaunchTarget
  la_created_at :: int

section \<open>Managed context cycles\<close>

text \<open>
  A row of \<open>context_cycles\<close>: \<open>cycleRow\<close> with the columns \<open>adapter_pin\<close> (the \<open>Target\<close> of the decoded
  \<open>deepSeekPin\<close>, empty for none) and \<open>ready_refusal\<close>.
\<close>

record cycleRow =
  c_id :: string
  c_credit :: int
  c_held :: bool
  c_revision :: int
  c_state :: string
  c_prompt_from :: string
  c_reason :: string
  c_family :: string
  c_session_id :: string
  c_peer :: string
  c_address :: string
  c_host_pid :: int
  c_host_start :: int
  c_socket :: string
  c_pane :: string
  c_enable_revision :: int
  c_epoch :: string
  c_mode :: string
  c_threshold :: int
  c_used :: int
  c_limit :: int
  c_source_at :: int
  c_confirmed_at :: int
  c_message_seq :: int
  c_created_at :: int
  c_updated_at :: int
  c_stage_deadline :: int
  c_cycle_deadline :: int
  c_artifact :: string
  c_artifact_dev :: int
  c_artifact_ino :: int
  c_artifact_size :: int
  c_artifact_mtime :: int
  c_adapter :: string
  c_catalog_digest :: string
  c_successor_id :: string
  c_successor_epoch :: string
  c_outcome :: string
  c_report :: string
  c_events :: int
  c_finished_at :: int
  c_adapter_pin :: string
  c_ready_refusal :: string

record cycleEventRow =
  ce_cycle_id :: string
  ce_ordinal :: int
  ce_at :: int
  ce_stage :: string
  ce_result :: string
  ce_reason :: string

record enableRow =
  en_family :: string
  en_session_id :: string
  en_enabled :: bool
  en_revision :: int
  en_session_revision :: int
  en_address :: string
  en_host_pid :: int
  en_host_start :: int
  en_socket :: string
  en_pane :: string
  en_updated_at :: int
  en_threshold :: int
  en_kept_epoch :: string
  en_kept_revision :: int
  en_kept_read :: bool

record auditRow =
  au_at :: int
  au_action :: string
  au_target :: string
  au_result :: string
  au_reason :: string

section \<open>Claims\<close>

record claimResource =
  r_kind :: string
  r_key :: string

abbreviation res :: "string \<Rightarrow> string \<Rightarrow> claimResource" where
  "res kind k \<equiv> \<lparr>r_kind = kind, r_key = k\<rparr>"

text \<open>A row of \<open>claim_bundles\<close>: \<open>heldBundle\<close> with the store column.\<close>

record heldBundle =
  b_store :: string
  b_generation :: int
  b_work_id :: string
  b_consumer :: string
  b_revision :: int
  b_issued_at :: time
  b_renewed_at :: time
  b_expires_at :: time
  b_progress_epoch :: int
  b_overdue_recorded :: bool
  b_active :: bool
  b_overdue_credit :: bool
  b_end_credit :: bool
  b_native_actor :: string

record resourceRow =
  cr_store :: string
  cr_generation :: int
  cr_ordinal :: int
  cr_res :: claimResource

record lease =
  l_generation :: int
  l_revision :: int
  l_expires_at :: time

section \<open>Memory stores and work items\<close>

record storeRow =
  ms_repository :: string
  ms_store_id :: string
  ms_head :: int
  ms_floor :: int
  ms_work_counter :: int
  ms_claim_counter :: int
  ms_library_floor :: int

record WorkRole =
  wr_family :: string
  wr_role :: string

record workReport =
  rp_summary :: string
  rp_references :: "string list"
  rp_scope_revision :: int
  rp_claim_generation :: int
  rp_participant_role :: "WorkRole option"

text \<open>
  A row of \<open>work_items\<close> is a \<open>workItem\<close> with the store column. \<open>w_report\<close> and \<open>w_evidence\<close> are the
  struct's private fields \<open>report\<close> and \<open>evidence\<close>, which no column stores; \<open>evidence\<close> is the
  \<open>ReportSeq\<close> of \<open>workVerdictEvidence\<close>.
\<close>

record workItem =
  w_store :: string
  w_work_id :: string
  w_revision :: int
  w_lifecycle :: string
  w_title :: string
  w_criteria :: string
  w_non_goals :: string
  w_proposed_assignee :: "string option"
  w_proposed_role :: "WorkRole option"
  w_created_at :: time
  w_created_consumer :: string
  w_first_start_revision :: "int option"
  w_scope_revision :: int
  w_progress_epoch :: int
  w_last_progress_at :: "time option"
  w_progress_deadline :: "time option"
  w_progress :: string
  w_checkpoint :: string
  w_next_artifact :: string
  w_blocker :: string
  w_last_writer :: "string option"
  w_last_generation :: "int option"
  w_last_lease_expires :: "time option"
  w_lease_expired :: bool
  w_outcome :: "string option"
  w_reason :: string
  w_references :: "string list"
  w_finished_at :: "time option"
  w_expires_at :: "time option"
  w_latest_seq :: int
  w_report_seq :: "int option"
  w_report_consumer :: "string option"
  w_verdict :: "string option"
  w_verdict_seq :: "int option"
  w_report_actor :: string
  w_verdict_credit :: bool
  w_report :: "workReport option"
  w_evidence :: "int option"

record WorkRoleResolution =
  rr_state :: string
  rr_address :: string
  rr_holder :: string

record workClaimView =
  cv_consumer :: string
  cv_generation :: int
  cv_revision :: int
  cv_expires_at :: time
  cv_resources :: "claimResource list"
  cv_ownership :: string

record WorkView =
  v_item :: workItem
  v_seq :: int
  v_observed_at :: time
  v_observed_lease_expires :: "time option"
  v_current_claim :: "workClaimView option"
  v_lease_valid :: bool
  v_progress_overdue :: bool
  v_progress_unverified :: bool
  v_progress_unverified_reasons :: "string list"
  v_scope_revisions :: "int list"
  v_criteria_changed_after_start :: bool
  v_role_resolution :: "WorkRoleResolution option"
  v_report :: "workReport option"
  v_verdict_evidence :: "int option"

record scopeRow =
  sc_store :: string
  sc_work_id :: string
  sc_revision :: int
  sc_ts :: time
  sc_consumer :: string
  sc_author :: "string option"
  sc_title :: string
  sc_criteria :: string
  sc_non_goals :: string

record workEventRow =
  we_store :: string
  we_seq :: int
  we_work_id :: string
  we_revision :: int
  we_kind :: string
  we_payload :: WorkView
  we_actor :: string

record entryRow =
  e_repository :: string
  e_seq :: int
  e_ts :: time
  e_type :: string
  e_scope :: string
  e_scope_target :: "string option"
  e_path :: "string option"
  e_body :: string
  e_author :: "string option"
  e_writer_family :: string
  e_writer_name :: string
  e_consumer :: string
  e_revision :: int
  e_supersedes :: "int option"
  e_revokes :: "int option"
  e_superseded_by :: "int option"
  e_revoked_by :: "int option"
  e_conflicts_with :: "int option"
  e_expires :: "time option"

record Outcome =
  o_id :: int
  o_recipient :: string
  o_seq :: int
  o_delivery_state :: string
  o_delivery_reason :: string
  o_wake_reason :: string
  o_notices :: int
  o_updated_at :: int
  o_acknowledged :: bool
  o_acknowledged_by :: string
  o_acknowledged_session :: string
  o_acknowledged_via :: string

text \<open>The result of a work mutation: the entries of the \<open>result\<close> map.\<close>

record workResult =
  x_work_id :: string
  x_revision :: int
  x_seq :: "int option"
  x_claim :: "lease option"
  x_message :: "Outcome option"
  x_role_released :: bool
  x_duplicate :: bool

record replayRow =
  wp_store :: string
  wp_consumer :: string
  wp_key :: string
  wp_operation :: string
  wp_scheme :: string
  wp_fingerprint :: string
  wp_seq :: "int option"
  wp_ts :: time
  wp_deadline :: time
  wp_result :: workResult
  wp_native_actor :: string

text \<open>The replay rows of notes, and the cursors and snapshots of memory readers.\<close>

record idemRow =
  id_repository :: string
  id_consumer :: string
  id_key :: string
  id_scheme :: string
  id_fingerprint :: string
  id_seq :: int
  id_ts :: time
  id_deadline :: time

record cursorRow =
  cu_repository :: string
  cu_consumer :: string
  cu_seq :: int
  cu_issued :: int
  cu_snapshot :: "string option"
  cu_bootstrapped :: bool
  cu_resnapshot :: bool
  cu_updated :: time
  cu_actor :: string

record retiredRow =
  rt_repository :: string
  rt_consumer :: string
  rt_seq :: int
  rt_at :: time

record snapshotRow =
  sn_id :: string
  sn_repository :: string
  sn_consumer :: string
  sn_head :: int
  sn_created :: time
  sn_items :: int
  sn_issued :: int
  sn_acked :: bool
  sn_acked_at :: "time option"

record snapshotItemRow =
  si_id :: string
  si_position :: int
  si_seq :: int
  si_payload :: string
  si_bytes :: int

record audienceRow =
  wa_store :: string
  wa_audience :: string
  wa_data :: string
  wa_head :: int
  wa_notice_head :: int
  wa_message_id :: "int option"
  wa_reason :: string

section \<open>Rooms\<close>

record roomRow =
  ro_id :: string
  ro_name :: string
  ro_revision :: int
  ro_post_head :: int
  ro_created_at :: int
  ro_create_key :: string

record roomMemberRow =
  rm_room_id :: string
  rm_ordinal :: int
  rm_family :: string
  rm_member_id :: string
  rm_label :: string
  rm_active :: bool
  rm_revision :: int
  rm_start_seq :: int
  rm_changed_at :: int

record roomPostRow =
  po_post_id :: int
  po_room_id :: string
  po_seq :: int
  po_sender_family :: string
  po_sender_id :: string
  po_sender_name :: string
  po_origin :: string
  po_body :: string
  po_created_at :: int

record roomDeliveryRow =
  dl_post_id :: int
  dl_ordinal :: int
  dl_family :: string
  dl_member_id :: string
  dl_label :: string
  dl_outcome :: string
  dl_reason :: string
  dl_message_id :: "int option"

record RoomPostResult =
  pr_room_id :: string
  pr_seq :: int
  pr_queued :: int
  pr_skipped :: int
  pr_duplicate :: bool

record roomReplayRow =
  rx_family :: string
  rx_caller_id :: string
  rx_key :: string
  rx_fingerprint :: string
  rx_deadline :: time
  rx_result :: RoomPostResult

section \<open>Library\<close>

record libraryRow =
  ld_family :: string
  ld_root_digest :: string
  ld_item_id :: string
  ld_revision :: int
  ld_body :: string
  ld_writer :: string
  ld_updated_at :: time

section \<open>The database\<close>

text \<open>
  \<open>message_ids\<close> and \<open>room_post_ids\<close> are the AUTOINCREMENT counters of \<open>messages\<close> and \<open>room_posts\<close> in
  \<open>sqlite_sequence\<close>; \<open>inbox_changes\<close> is the version of the topic \<open>inbox\<close> in \<open>change_versions\<close> and
  \<open>room_changes\<close> lists its topics that are rooms.
\<close>

record db =
  sessions :: "sessionRow list"
  names :: "nameRow list"
  participant_events :: "eventRow list"
  participant_fences :: "fenceRow list"
  messages :: "messageRow list"
  message_ids :: int
  inbox_changes :: int
  launches :: "launchRow list"
  context_cycles :: "cycleRow list"
  context_cycle_events :: "cycleEventRow list"
  context_enables :: "enableRow list"
  audit :: "auditRow list"
  memory_stores :: "storeRow list"
  memory_entries :: "entryRow list"
  claim_bundles :: "heldBundle list"
  claim_resources :: "resourceRow list"
  work_items :: "workItem list"
  work_scope_revisions :: "scopeRow list"
  work_events :: "workEventRow list"
  work_replays :: "replayRow list"
  memory_idem :: "idemRow list"
  memory_cursors :: "cursorRow list"
  memory_retired :: "retiredRow list"
  memory_snapshots :: "snapshotRow list"
  memory_snapshot_items :: "snapshotItemRow list"
  work_audiences :: "audienceRow list"
  rooms :: "roomRow list"
  room_members :: "roomMemberRow list"
  room_posts :: "roomPostRow list"
  room_post_ids :: int
  room_deliveries :: "roomDeliveryRow list"
  room_replays :: "roomReplayRow list"
  room_changes :: "(string \<times> int) list"
  library_decisions :: "libraryRow list"

definition empty_db :: db where
  "empty_db = \<lparr>sessions = [], names = [], participant_events = [], participant_fences = [],
     messages = [], message_ids = 0, inbox_changes = 1, launches = [], context_cycles = [], context_cycle_events = [],
     context_enables = [], audit = [], memory_stores = [],
     memory_entries = [], claim_bundles = [], claim_resources = [], work_items = [],
     work_scope_revisions = [], work_events = [], work_replays = [],
     memory_idem = [], memory_cursors = [], memory_retired = [], memory_snapshots = [], memory_snapshot_items = [],
     work_audiences = [], rooms = [], room_members = [], room_posts = [], room_post_ids = 0, room_deliveries = [],
     room_replays = [], room_changes = [], library_decisions = []\<rparr>"

text \<open>
  Functions outside the repository's sources that the components call. \<open>sha256\<close> is
  \<^verbatim>\<open>crypto/sha256.Sum256\<close> as a list of byte values; \<open>json_text\<close> and \<open>json_encode\<close> are
  \<^verbatim>\<open>encoding/json.Marshal\<close> of a list of texts and of a value, \<open>json_decode\<close> is its
  \<^verbatim>\<open>Unmarshal\<close>. \<open>json_bytes_view\<close>, \<open>json_bytes_scope\<close>, \<open>json_bytes_result\<close>, \<open>json_bytes_summary\<close> and
  \<open>json_bytes_listing\<close> are the lengths of the texts of a work view, a scope row, a work result, one
  summary of a list and the empty list observed at a time, which the code compares with its bounds.
\<close>

record workSummary =
  y_work_id :: string
  y_revision :: int
  y_title :: string
  y_lifecycle :: string
  y_proposed_assignee :: "string option"
  y_proposed_role :: "WorkRole option"
  y_progress_unverified :: bool
  y_progress_deadline :: "time option"
  y_lease_valid :: bool
  y_owner :: "string option"
  y_observed_at :: time
  y_checkpoint :: string
  y_report_seq :: "int option"
  y_verdict :: "string option"
  y_verdict_seq :: "int option"
  y_role_resolution :: "WorkRoleResolution option"

record ext =
  sha256 :: "string \<Rightarrow> nat list"
  json_text :: "string list \<Rightarrow> string"
  json_encode :: "json \<Rightarrow> string"
  json_decode :: "string \<Rightarrow> json option"
  json_bytes_view :: "WorkView \<Rightarrow> nat"
  json_bytes_scope :: "scopeRow \<Rightarrow> nat"
  json_bytes_result :: "workResult \<Rightarrow> nat"
  json_bytes_summary :: "workSummary \<Rightarrow> nat"
  json_bytes_listing :: "time \<Rightarrow> nat"

definition sha256_sound :: "ext \<Rightarrow> bool" where
  "sha256_sound x \<longleftrightarrow> (\<forall>s. length (sha256 x s) = 32 \<and> (\<forall>b\<in>set (sha256 x s). b < 256))"

end
