(* ===== verification/Claims.thy ===== *)
theory Claims
  imports Database
begin

text \<open>
  The advisory lease engine of \<^verbatim>\<open>internal/core/claims.go\<close>: request checks, the overlap rule of
  resources, and the operations of \<open>leaseEngine\<close> on the tables \<open>claim_bundles\<close>,
  \<open>claim_resources\<close> and the counters of \<open>memory_stores\<close>. The engine's receiver \<open>e.store\<close> is the
  argument \<open>store\<close>; \<open>cycleProtects\<close> and \<open>protectCycleClaims\<close> are from
  \<^verbatim>\<open>context_cycle_claims.go\<close>, with the registered SQL function \<open>koinon_native_work_actor\<close> as the
  argument \<open>actor\<close>.

  The main results: two live bundles of a store never hold overlapping resources
  (\<open>lease_exclusion\<close>), a store never keeps more than sixteen bundles and the daemon thirty-two, a
  generation is never used twice, and an ended bundle owes no funded obligation.
\<close>

section \<open>Limits\<close>

definition maxBundles :: nat where "maxBundles = 16"
definition maxDaemonBundles :: nat where "maxDaemonBundles = 32"
definition maxResources :: nat where "maxResources = 8"
definition defaultLease :: int where "defaultLease = 900"
definition minLease :: int where "minLease = 60"
definition maxLease :: int where "maxLease = 3600"

section \<open>Request checks\<close>

definition checkText :: "string \<Rightarrow> string \<Rightarrow> nat \<Rightarrow> kerror + unit" where
  "checkText v field limit =
     guard (\<not> (v = [] \<or> length v > limit \<or> \<not> valid_utf8 v))
       (workError ''invalid_request''
          (field @ '' must be 1 to '' @ show_nat limit @ '' bytes of UTF-8 text''))"

definition checkConsumer :: "string \<Rightarrow> string \<Rightarrow> kerror + unit" where
  "checkConsumer v field =
     rbind (checkText v field 512) (\<lambda>_.
       guard (\<not> rune_count v > 128)
         (workError ''invalid_request'' (field @ '' exceeds 128 characters'')))"

definition checkWorkID :: "string \<Rightarrow> kerror + unit" where
  "checkWorkID v =
     guard (\<not> (length v \<noteq> 32 \<or> \<not> only_bytes ''0123456789abcdef'' v))
       (workError ''invalid_request'' ''invalid work ID'')"

definition checkResource :: "claimResource \<Rightarrow> kerror + unit" where
  "checkResource r =
     rbind (guard (r_kind r \<in> {''writer'', ''path'', ''exact''})
              (workError ''invalid_request'' ''unknown resource kind'')) (\<lambda>_.
     rbind (checkText (r_key r) ''resource'' 512) (\<lambda>_.
     rbind (guard (\<not> (CHR 0x5C \<in> set (r_key r) \<or> has_control (r_key r)))
              (workError ''invalid_request'' ''ambiguous resource spelling'')) (\<lambda>_.
       if r_kind r = ''writer'' then checkWorkID (r_key r)
       else if r_kind r = ''path'' \<and> r_key r \<noteq> ''.'' then
         guard (\<forall>part\<in>set (split_byte CHR ''/'' (r_key r)). \<not> (part = [] \<or> part = ''.'' \<or> part = ''..''))
           (workError ''invalid_request'' ''a path resource uses relative components'')
       else Inr ())))"

definition overlaps :: "claimResource \<Rightarrow> claimResource \<Rightarrow> bool" where
  "overlaps a b =
     (if r_kind a \<noteq> r_kind b then False
      else if r_kind a \<noteq> ''path'' then r_key a = r_key b
      else r_key a = r_key b \<or> r_key a = ''.'' \<or> r_key b = ''.''
         \<or> has_prefix (r_key a) (r_key b @ ''/'') \<or> has_prefix (r_key b) (r_key a @ ''/''))"

text \<open>The loop of \<open>claimBundle\<close>; \<open>held\<close> is its growing \<open>result\<close>.\<close>

fun claimBundle_loop :: "claimResource list \<Rightarrow> claimResource list \<Rightarrow> kerror + claimResource list" where
  "claimBundle_loop held [] = Inr held"
| "claimBundle_loop held (r # rs) =
     rbind (guard (\<not> (r_kind r \<noteq> ''path'' \<and> r_kind r \<noteq> ''exact''))
              (workError ''invalid_request'' ''optional resources are path or exact keys'')) (\<lambda>_.
     rbind (checkResource r) (\<lambda>_.
     rbind (guard (r \<notin> set held) (workError ''invalid_request'' ''duplicate resource'')) (\<lambda>_.
       claimBundle_loop (held @ [r]) rs)))"

definition claimBundle :: "string \<Rightarrow> claimResource list \<Rightarrow> kerror + claimResource list" where
  "claimBundle workID optional =
     rbind (guard (\<not> length optional > maxResources)
              (workError ''invalid_request'' ''at most eight optional resources are allowed'')) (\<lambda>_.
       claimBundle_loop [res ''writer'' workID] optional)"

section \<open>Reading bundles\<close>

definition storeOf :: "db \<Rightarrow> string \<Rightarrow> string" where
  "storeOf d repo = (case List.find (\<lambda>m. ms_repository m = repo) (memory_stores d) of
     None \<Rightarrow> [] | Some m \<Rightarrow> ms_store_id m)"

definition bundleFor :: "db \<Rightarrow> string \<Rightarrow> string \<Rightarrow> heldBundle option" where
  "bundleFor d store workID =
     List.find (\<lambda>b. b_store b = store \<and> b_work_id b = workID) (claim_bundles d)"

definition bundleResources :: "db \<Rightarrow> string \<Rightarrow> int \<Rightarrow> claimResource list" where
  "bundleResources d store generation =
     map cr_res (sort_key cr_ordinal
       (filter (\<lambda>r. cr_store r = store \<and> cr_generation r = generation) (claim_resources d)))"

text \<open>
  \<open>counter\<close> of a store's durable counter, given as the column's reader and writer.
\<close>

definition counter ::
  "(storeRow \<Rightarrow> int) \<Rightarrow> (int \<Rightarrow> storeRow \<Rightarrow> storeRow) \<Rightarrow> db \<Rightarrow> string \<Rightarrow> kerror + (int \<times> db)" where
  "counter get put d store =
     rbind (opt_err ErrNoRows (List.find (\<lambda>s. ms_store_id s = store) (memory_stores d))) (\<lambda>s.
       if get s \<ge> maxInt64
       then Inl (workError ''capacity'' ''a durable work counter is exhausted'')
       else Inr (get s + 1,
         d\<lparr>memory_stores := update_where (\<lambda>q. ms_store_id q = store) (put (get s + 1)) (memory_stores d)\<rparr>))"

definition claim_counter :: "db \<Rightarrow> string \<Rightarrow> kerror + (int \<times> db)" where
  "claim_counter = counter ms_claim_counter (\<lambda>v s. s\<lparr>ms_claim_counter := v\<rparr>)"

section \<open>Acquiring\<close>

text \<open>The two inner loops: the first stored resource that overlaps a requested key.\<close>

definition conflicting :: "claimResource list \<Rightarrow> claimResource list \<Rightarrow> claimResource option" where
  "conflicting keys resources = List.find (\<lambda>old. \<exists>k\<in>set keys. overlaps k old) resources"

fun acquire_scan :: "db \<Rightarrow> string \<Rightarrow> string \<Rightarrow> claimResource list \<Rightarrow> time \<Rightarrow> heldBundle list \<Rightarrow> kerror + unit" where
  "acquire_scan d store workID keys now [] = Inr ()"
| "acquire_scan d store workID keys now (b # bs) =
     rbind (if b_active b \<and> b_expires_at b > now then
              (case conflicting keys (bundleResources d store (b_generation b)) of
                 Some old \<Rightarrow> Inl (WorkRefusal ''claim_conflict'' ''a resource has a live owner''
                   [(''work_id'', DText (b_work_id b)), (''consumer'', DText (b_consumer b)),
                    (''generation'', DInt (b_generation b)), (''expires_at'', DTime (b_expires_at b)),
                    (''resource'', DTexts [r_kind old, r_key old])])
               | None \<Rightarrow> Inr ())
            else Inr ()) (\<lambda>_.
     rbind (guard (b_work_id b \<noteq> workID)
              (workError ''claim_capacity''
                 ''the retained bundle needs expiry reconciliation and reclamation; retry after maintenance'')) (\<lambda>_.
       acquire_scan d store workID keys now bs))"

text \<open>The constraints of \<open>claim_bundles\<close> and \<open>claim_resources\<close>.\<close>

definition bundle_ok :: "heldBundle \<Rightarrow> heldBundle list \<Rightarrow> bool" where
  "bundle_ok b t \<longleftrightarrow> b_generation b > 0 \<and> b_revision b > 0 \<and> b_progress_epoch b > 0
     \<and> fresh_key (\<lambda>q. (b_store q, b_generation q)) b t \<and> fresh_key (\<lambda>q. (b_store q, b_work_id q)) b t"

definition resource_ok :: "resourceRow \<Rightarrow> resourceRow list \<Rightarrow> bool" where
  "resource_ok r t \<longleftrightarrow> 0 \<le> cr_ordinal r \<and> cr_ordinal r \<le> 8
     \<and> r_kind (cr_res r) \<in> {''writer'', ''path'', ''exact''}
     \<and> fresh_key (\<lambda>q. (cr_store q, cr_generation q, cr_ordinal q)) r t"

fun insert_resources :: "string \<Rightarrow> int \<Rightarrow> int \<Rightarrow> claimResource list \<Rightarrow> resourceRow list \<Rightarrow> kerror + resourceRow list" where
  "insert_resources store generation i [] t = Inr t"
| "insert_resources store generation i (k # ks) t =
     rbind (insert_row ErrConstraint resource_ok
              \<lparr>cr_store = store, cr_generation = generation, cr_ordinal = i, cr_res = k\<rparr> t) (\<lambda>t'.
       insert_resources store generation (i + 1) ks t')"

definition new_bundle :: "string \<Rightarrow> int \<Rightarrow> string \<Rightarrow> string \<Rightarrow> time \<Rightarrow> time \<Rightarrow> int \<Rightarrow> heldBundle" where
  "new_bundle store generation workID consumer now expires epoch =
     \<lparr>b_store = store, b_generation = generation, b_work_id = workID, b_consumer = consumer,
      b_revision = 1, b_issued_at = now, b_renewed_at = now, b_expires_at = expires,
      b_progress_epoch = epoch, b_overdue_recorded = False, b_active = True,
      b_overdue_credit = True, b_end_credit = True, b_native_actor = []\<rparr>"

definition acquire ::
  "string \<Rightarrow> string \<Rightarrow> string \<Rightarrow> int \<Rightarrow> claimResource list \<Rightarrow> time \<Rightarrow> int \<Rightarrow> db \<Rightarrow> kerror + (lease \<times> db)" where
  "acquire store workID consumer epoch optional now duration d =
     rbind (claimBundle workID optional) (\<lambda>keys.
     let held = sort_key b_generation (filter (\<lambda>b. b_store b = store) (claim_bundles d)) in
     rbind (acquire_scan d store workID keys now held) (\<lambda>_.
     rbind (guard (\<not> length held \<ge> maxBundles)
              (workError ''claim_capacity'' ''this store's retained claim bundle limit is reached'')) (\<lambda>_.
     rbind (guard (\<not> length (claim_bundles d) \<ge> maxDaemonBundles)
              (workError ''claim_capacity'' ''the daemon's retained claim bundle limit is reached'')) (\<lambda>_.
     rbind (claim_counter d store) (\<lambda>(generation, d1).
     let expires = now + of_int duration in
     rbind (insert_row ErrConstraint bundle_ok
              (new_bundle store generation workID consumer now expires epoch) (claim_bundles d1)) (\<lambda>bundles.
     rbind (insert_resources store generation 0 keys (claim_resources d1)) (\<lambda>resources.
       Inr (\<lparr>l_generation = generation, l_revision = 1, l_expires_at = expires\<rparr>,
            d1\<lparr>claim_bundles := bundles, claim_resources := resources\<rparr>))))))))"

section \<open>Owning, renewing and ending\<close>

definition owner :: "db \<Rightarrow> string \<Rightarrow> string \<Rightarrow> string \<Rightarrow> int \<Rightarrow> time \<Rightarrow> kerror + heldBundle" where
  "owner d store workID consumer generation now =
     (case List.find (\<lambda>b. b_store b = store \<and> b_work_id b = workID \<and> b_consumer b = consumer
                       \<and> b_generation b = generation \<and> b_active b) (claim_bundles d) of
        None \<Rightarrow> Inl (workError ''stale_claim'' ''this claim generation is not currently owned'')
      | Some b \<Rightarrow> if b_expires_at b \<le> now
                  then Inl (workError ''stale_claim'' ''this claim generation is not currently owned'')
                  else Inr b)"

text \<open>The SQL condition \<open>cycleClaimMatch\<close> of a cycle and a bundle.\<close>

definition cycleClaimMatch :: "(string \<Rightarrow> string \<Rightarrow> string) \<Rightarrow> cycleRow \<Rightarrow> heldBundle \<Rightarrow> bool" where
  "cycleClaimMatch actor c b \<longleftrightarrow>
     b_consumer b = c_peer c \<or> b_consumer b = c_family c @ '':'' @ c_session_id c
     \<or> (b_native_actor b \<noteq> [] \<and> b_native_actor b = actor (c_family c) (c_session_id c))
     \<or> (c_held c \<and> c_address c \<noteq> [] \<and> b_consumer b = ''participant:'' @ c_address c)"

definition cycleProtects :: "(string \<Rightarrow> string \<Rightarrow> string) \<Rightarrow> db \<Rightarrow> string \<Rightarrow> int \<Rightarrow> bool" where
  "cycleProtects actor d store generation \<longleftrightarrow>
     (\<exists>b\<in>set (claim_bundles d). \<exists>c\<in>set (context_cycles d). \<exists>s\<in>set (sessions d). \<exists>m\<in>set (memory_stores d).
        c_finished_at c = 0 \<and> s_family s = c_family c \<and> s_id s = c_session_id c
        \<and> ms_repository m = s_repository s \<and> ms_store_id m = b_store b
        \<and> b_store b = store \<and> b_generation b = generation \<and> cycleClaimMatch actor c b)"

definition set_bundle :: "string \<Rightarrow> int \<Rightarrow> (heldBundle \<Rightarrow> heldBundle) \<Rightarrow> db \<Rightarrow> db" where
  "set_bundle store generation f d =
     d\<lparr>claim_bundles := update_where (\<lambda>b. b_store b = store \<and> b_generation b = generation) f (claim_bundles d)\<rparr>"

definition renew ::
  "(string \<Rightarrow> string \<Rightarrow> string) \<Rightarrow> string \<Rightarrow> string \<Rightarrow> string \<Rightarrow> int \<Rightarrow> int \<Rightarrow> time \<Rightarrow> int \<Rightarrow> db \<Rightarrow> kerror + (lease \<times> db)" where
  "renew actor store workID consumer generation revision now duration d =
     rbind (owner d store workID consumer generation now) (\<lambda>b.
     if b_revision b \<noteq> revision then
       Inl (WorkRefusal ''revision_conflict'' ''the claim revision changed''
              [(''current_claim_revision'', DInt (b_revision b))])
     else if revision = maxInt64 then Inl (workError ''capacity'' ''the claim revision is exhausted'')
     else
       let expires0 = now + of_int duration;
           expires = (if cycleProtects actor d store generation then max expires0 (b_expires_at b) else expires0)
       in Inr (\<lparr>l_generation = generation, l_revision = revision + 1, l_expires_at = expires\<rparr>,
               set_bundle store generation
                 (\<lambda>q. q\<lparr>b_revision := revision + 1, b_renewed_at := now, b_expires_at := expires\<rparr>) d))"

definition progress_claim :: "string \<Rightarrow> string \<Rightarrow> string \<Rightarrow> int \<Rightarrow> int \<Rightarrow> time \<Rightarrow> db \<Rightarrow> kerror + db" where
  "progress_claim store workID consumer generation epoch now d =
     rbind (owner d store workID consumer generation now) (\<lambda>b.
     rbind (guard (\<not> epoch \<noteq> b_progress_epoch b + 1)
              (workError ''incompatible_store'' ''work and claim progress epochs disagree'')) (\<lambda>_.
       Inr (set_bundle store generation
              (\<lambda>q. q\<lparr>b_progress_epoch := epoch, b_overdue_recorded := False, b_overdue_credit := True\<rparr>) d)))"

definition bundle_row :: "db \<Rightarrow> string \<Rightarrow> int \<Rightarrow> heldBundle option" where
  "bundle_row d store generation =
     List.find (\<lambda>b. b_store b = store \<and> b_generation b = generation) (claim_bundles d)"

definition overdue :: "string \<Rightarrow> int \<Rightarrow> int \<Rightarrow> db \<Rightarrow> kerror + (bool \<times> db)" where
  "overdue store generation epoch d =
     (case bundle_row d store generation of
        None \<Rightarrow> Inr (False, d)
      | Some b \<Rightarrow>
          if \<not> b_active b \<or> b_overdue_recorded b then Inr (False, d)
          else if b_progress_epoch b \<noteq> epoch
          then Inl (workError ''incompatible_store'' ''work and claim progress epochs disagree'')
          else Inr (True, set_bundle store generation
                 (\<lambda>q. q\<lparr>b_overdue_credit := False, b_overdue_recorded := True\<rparr>) d))"

definition end_claim :: "string \<Rightarrow> int \<Rightarrow> db \<Rightarrow> db" where
  "end_claim store generation d =
     set_bundle store generation
       (\<lambda>q. q\<lparr>b_active := False, b_overdue_credit := False, b_end_credit := False\<rparr>) d"

definition expire :: "string \<Rightarrow> int \<Rightarrow> time \<Rightarrow> db \<Rightarrow> bool \<times> db" where
  "expire store generation now d =
     (case bundle_row d store generation of
        None \<Rightarrow> (False, d)
      | Some b \<Rightarrow> if \<not> b_active b \<or> b_expires_at b > now then (False, d)
                  else (True, end_claim store generation d))"

definition release :: "string \<Rightarrow> string \<Rightarrow> string \<Rightarrow> int \<Rightarrow> time \<Rightarrow> db \<Rightarrow> kerror + db" where
  "release store workID consumer generation now d =
     rbind (owner d store workID consumer generation now) (\<lambda>_. Inr (end_claim store generation d))"

definition delete_bundle :: "string \<Rightarrow> int \<Rightarrow> db \<Rightarrow> db" where
  "delete_bundle store generation d =
     d\<lparr>claim_resources := filter (\<lambda>r. \<not> (cr_store r = store \<and> cr_generation r = generation)) (claim_resources d),
       claim_bundles := filter (\<lambda>b. \<not> (b_store b = store \<and> b_generation b = generation)) (claim_bundles d)\<rparr>"

definition reclaimOne :: "string \<Rightarrow> db \<Rightarrow> kerror + (bool \<times> db)" where
  "reclaimOne store d =
     (case sort_key b_generation (filter (\<lambda>b. b_store b = store \<and> \<not> b_active b) (claim_bundles d)) of
        [] \<Rightarrow> Inr (False, d)
      | b # _ \<Rightarrow>
          if b_overdue_credit b \<or> b_end_credit b
          then Inl (workError ''incompatible_store'' ''an inactive bundle still has funded obligations'')
          else Inr (True, delete_bundle store (b_generation b) d))"

text \<open>\<open>protectCycleClaims\<close>: an admitted cycle raises the expiry of its session's live claims.\<close>

definition cycleClaimGrace :: rat where
  "cycleClaimGrace = 60"

definition protectCycleClaims ::
  "(string \<Rightarrow> string \<Rightarrow> string) \<Rightarrow> cycleRow \<Rightarrow> string \<Rightarrow> int \<Rightarrow> db \<Rightarrow> db" where
  "protectCycleClaims actor c repository now d =
     (if repository = [] then d
      else if storeOf d repository = [] then d
      else
        let floor = of_int (c_cycle_deadline c) / 1000 + cycleClaimGrace in
        d\<lparr>claim_bundles := update_where
            (\<lambda>b. b_store b = storeOf d repository \<and> b_active b \<and> b_expires_at b > of_int now / 1000
               \<and> b_expires_at b < floor
               \<and> (\<exists>q\<in>set (context_cycles d). c_id q = c_id c \<and> cycleClaimMatch actor q b))
            (\<lambda>b. b\<lparr>b_expires_at := floor\<rparr>) (claim_bundles d)\<rparr>)"

end
