(* ===== verification/Lease.thy ===== *)
theory Lease
  imports Claims "HOL-Library.Sublist"
begin

text \<open>
  Correctness of the lease engine of theory \<open>Claims\<close>.

  The engine's operations form a machine (\<open>lease_step\<close>) over the database; \<open>lease_inv\<close> is its
  invariant at a clock reading: generations and work items are unique per store, generations do
  not pass the store's counter, ended bundles owe nothing, resources belong to bundles, the bundle
  limits hold, and no two live bundles overlap. Each single-row UPDATE of the engine is an
  instance of the locale \<open>bundle_update\<close>; the locale \<open>timed_machine\<close> carries the invariant to runs.
\<close>

section \<open>Overlap of resources\<close>

lemma overlaps_sym: "overlaps a b = overlaps b a"
  by (auto simp: overlaps_def)

lemma overlaps_same_kind: "overlaps a b \<Longrightarrow> r_kind a = r_kind b"
  by (auto simp: overlaps_def split: if_splits)

lemma split_byte_append_sep: "split_byte sep (s @ sep # t) = split_byte sep s @ split_byte sep t"
proof (induction s)
  case Nil
  show ?case by simp
next
  case (Cons c s)
  show ?case
  proof (cases "split_byte sep s")
    case Nil
    then show ?thesis by simp
  next
    case (Cons p ps)
    with Cons.IH show ?thesis by simp
  qed
qed

lemma join_byte_append:
  "ps \<noteq> [] \<Longrightarrow> qs \<noteq> [] \<Longrightarrow> join_byte sep (ps @ qs) = join_byte sep ps @ sep # join_byte sep qs"
proof (induction ps rule: join_byte.induct)
  case (2 sep p)
  then show ?case by (cases qs) auto
qed auto

lemma has_prefix_sep_iff:
  "has_prefix a (b @ [sep]) \<longleftrightarrow> strict_prefix (split_byte sep b) (split_byte sep a)"
proof
  assume "has_prefix a (b @ [sep])"
  then obtain r where "a = b @ sep # r" by (auto simp: has_prefix_iff)
  then show "strict_prefix (split_byte sep b) (split_byte sep a)"
    by (simp add: split_byte_append_sep strict_prefix_def)
next
  assume "strict_prefix (split_byte sep b) (split_byte sep a)"
  then obtain cs where cs: "split_byte sep a = split_byte sep b @ cs" "cs \<noteq> []"
    by (auto simp: strict_prefix_def prefix_def)
  have "a = join_byte sep (split_byte sep a)" by (simp add: join_split_byte)
  also have "\<dots> = b @ sep # join_byte sep cs"
    using cs by (simp add: join_byte_append join_split_byte)
  finally show "has_prefix a (b @ [sep])" by (auto simp: has_prefix_iff)
qed

lemma split_byte_inj: "split_byte sep a = split_byte sep b \<longleftrightarrow> a = b"
  by (metis join_split_byte)

lemma path_overlap_components:
  assumes "a \<noteq> ''.''" "b \<noteq> ''.''"
  shows "overlaps (res ''path'' a) (res ''path'' b) \<longleftrightarrow>
    prefix (split_byte CHR ''/'' a) (split_byte CHR ''/'' b)
    \<or> prefix (split_byte CHR ''/'' b) (split_byte CHR ''/'' a)"
  using assms has_prefix_sep_iff[of a b "CHR ''/''"] has_prefix_sep_iff[of b a "CHR ''/''"]
  by (auto simp: overlaps_def strict_prefix_def split_byte_inj)

section \<open>Claim bundles\<close>

lemma claimBundle_loop_Inr:
  "claimBundle_loop held rs = Inr ks \<Longrightarrow>
     ks = held @ rs \<and> (distinct held \<longrightarrow> distinct ks)
     \<and> (\<forall>r\<in>set rs. r_kind r \<in> {''path'', ''exact''} \<and> checkResource r = Inr ())"
  by (induction held rs rule: claimBundle_loop.induct) auto

lemma claimBundle_Inr:
  assumes "claimBundle workID optional = Inr ks"
  shows "ks = res ''writer'' workID # optional \<and> distinct ks \<and> length ks \<le> maxResources + 1
    \<and> (\<forall>r\<in>set optional. r_kind r \<in> {''path'', ''exact''} \<and> checkResource r = Inr ())"
  using assms claimBundle_loop_Inr[of "[res ''writer'' workID]" optional ks]
  by (auto simp: claimBundle_def)

lemma set_bundleResources:
  "set (bundleResources d store g) =
     cr_res ` {r \<in> set (claim_resources d). cr_store r = store \<and> cr_generation r = g}"
  by (auto simp: bundleResources_def)

lemma bundleResources_cong:
  "claim_resources d' = claim_resources d \<Longrightarrow> bundleResources d' = bundleResources d"
  by (auto simp: bundleResources_def fun_eq_iff)

lemma conflicting_None:
  "conflicting keys rs = None \<longleftrightarrow> (\<forall>old\<in>set rs. \<forall>k\<in>set keys. \<not> overlaps k old)"
  by (auto simp: conflicting_def find_None_iff)

lemma acquire_scan_Inr:
  "acquire_scan d store workID keys now bs = Inr u \<longleftrightarrow>
     (\<forall>b\<in>set bs. b_work_id b \<noteq> workID \<and>
        (b_active b \<and> b_expires_at b > now \<longrightarrow>
           (\<forall>old\<in>set (bundleResources d store (b_generation b)). \<forall>k\<in>set keys. \<not> overlaps k old)))"
  by (induction bs) (auto simp: conflicting_None[symmetric] split: option.splits)

lemma insert_resources_Inr:
  assumes "insert_resources store g i ks t = Inr t'"
  shows "set t' = set t \<union> {\<lparr>cr_store = store, cr_generation = g, cr_ordinal = i + int j, cr_res = ks ! j\<rparr> | j. j < length ks}
    \<and> (distinct (map (\<lambda>q. (cr_store q, cr_generation q, cr_ordinal q)) t) \<longrightarrow>
       distinct (map (\<lambda>q. (cr_store q, cr_generation q, cr_ordinal q)) t'))"
  using assms
proof (induction ks arbitrary: i t)
  case Nil
  then show ?case by simp
next
  case (Cons k ks)
  let ?r = "\<lparr>cr_store = store, cr_generation = g, cr_ordinal = i, cr_res = k\<rparr>"
  let ?k = "\<lambda>q. (cr_store q, cr_generation q, cr_ordinal q)"
  have ok: "resource_ok ?r t" and rec: "insert_resources store g (i + 1) ks (t @ [?r]) = Inr t'"
    using Cons.prems by auto
  have IH: "set t' = set (t @ [?r]) \<union>
      {\<lparr>cr_store = store, cr_generation = g, cr_ordinal = i + 1 + int j, cr_res = ks ! j\<rparr> | j. j < length ks}"
    "distinct (map ?k (t @ [?r])) \<longrightarrow> distinct (map ?k t')"
    using Cons.IH[OF rec] by auto
  have shift: "{\<lparr>cr_store = store, cr_generation = g, cr_ordinal = i + int j, cr_res = (k # ks) ! j\<rparr> | j. j < length (k # ks)}
      = insert ?r {\<lparr>cr_store = store, cr_generation = g, cr_ordinal = i + 1 + int j, cr_res = ks ! j\<rparr> | j. j < length ks}"
  proof -
    have "{\<lparr>cr_store = store, cr_generation = g, cr_ordinal = i + int j, cr_res = (k # ks) ! j\<rparr> | j. j < length (k # ks)}
      = (\<lambda>j. \<lparr>cr_store = store, cr_generation = g, cr_ordinal = i + int j, cr_res = (k # ks) ! j\<rparr>) ` {..<Suc (length ks)}"
      by auto
    also have "\<dots> = insert ?r ((\<lambda>j. \<lparr>cr_store = store, cr_generation = g, cr_ordinal = i + 1 + int j, cr_res = ks ! j\<rparr>) ` {..<length ks})"
      by (simp add: lessThan_Suc_eq_insert_0 image_image add.assoc)
    finally show ?thesis by auto
  qed
  have "distinct (map ?k t) \<longrightarrow> distinct (map ?k (t @ [?r]))"
    using ok distinct_append_fresh[of ?k t ?r] by (auto simp: resource_ok_def)
  then show ?case using IH shift by auto
qed

text \<open>What a granted \<open>acquire\<close> did.\<close>

lemma acquire_Inr:
  assumes "acquire store workID consumer epoch optional now duration d = Inr (l, d')"
  obtains m keys resources where
    "claimBundle workID optional = Inr keys"
    "List.find (\<lambda>s. ms_store_id s = store) (memory_stores d) = Some m"
    "ms_claim_counter m < maxInt64"
    "\<forall>b\<in>set (claim_bundles d). b_store b = store \<longrightarrow> b_work_id b \<noteq> workID \<and>
        (b_active b \<and> b_expires_at b > now \<longrightarrow>
           (\<forall>old\<in>set (bundleResources d store (b_generation b)). \<forall>k\<in>set keys. \<not> overlaps k old))"
    "length (filter (\<lambda>b. b_store b = store) (claim_bundles d)) < maxBundles"
    "length (claim_bundles d) < maxDaemonBundles"
    "l = \<lparr>l_generation = ms_claim_counter m + 1, l_revision = 1, l_expires_at = now + of_int duration\<rparr>"
    "bundle_ok (new_bundle store (ms_claim_counter m + 1) workID consumer now (now + of_int duration) epoch) (claim_bundles d)"
    "insert_resources store (ms_claim_counter m + 1) 0 keys (claim_resources d) = Inr resources"
    "d' = d\<lparr>memory_stores := update_where (\<lambda>q. ms_store_id q = store) (\<lambda>s. s\<lparr>ms_claim_counter := ms_claim_counter m + 1\<rparr>) (memory_stores d),
       claim_bundles := claim_bundles d @ [new_bundle store (ms_claim_counter m + 1) workID consumer now (now + of_int duration) epoch],
       claim_resources := resources\<rparr>"
proof -
  show ?thesis
    using assms
    apply (clarsimp simp: acquire_def acquire_scan_Inr claim_counter_def counter_def Let_def split: if_splits prod.splits)
    apply (rule that)
    apply (auto simp: not_le)
    done
qed

section \<open>The engine as a machine\<close>

definition live :: "time \<Rightarrow> heldBundle \<Rightarrow> bool" where
  "live t b \<longleftrightarrow> b_active b \<and> b_expires_at b > t"

definition credit_ok :: "heldBundle \<Rightarrow> bool" where
  "credit_ok b \<longleftrightarrow> (b_active b \<longrightarrow> b_end_credit b) \<and> (\<not> b_active b \<longrightarrow> \<not> b_end_credit b \<and> \<not> b_overdue_credit b)"

text \<open>No two live bundles of a store hold overlapping resources at time \<open>t\<close>.\<close>

definition exclusive :: "time \<Rightarrow> db \<Rightarrow> bool" where
  "exclusive t d \<longleftrightarrow> (\<forall>a\<in>set (claim_bundles d). \<forall>b\<in>set (claim_bundles d).
     b_store a = b_store b \<and> b_generation a \<noteq> b_generation b \<and> live t a \<and> live t b \<longrightarrow>
     (\<forall>x\<in>set (bundleResources d (b_store a) (b_generation a)).
      \<forall>y\<in>set (bundleResources d (b_store b) (b_generation b)). \<not> overlaps x y))"

definition lease_wf :: "db \<Rightarrow> bool" where
  "lease_wf d \<longleftrightarrow>
     distinct (map (\<lambda>b. (b_store b, b_generation b)) (claim_bundles d))
     \<and> distinct (map (\<lambda>b. (b_store b, b_work_id b)) (claim_bundles d))
     \<and> (\<forall>b\<in>set (claim_bundles d). credit_ok b)
     \<and> (\<forall>b\<in>set (claim_bundles d). \<forall>m\<in>set (memory_stores d).
          ms_store_id m = b_store b \<longrightarrow> b_generation b \<le> ms_claim_counter m)
     \<and> (\<forall>r\<in>set (claim_resources d). \<exists>b\<in>set (claim_bundles d).
          b_store b = cr_store r \<and> b_generation b = cr_generation r)
     \<and> (\<forall>store. length (filter (\<lambda>b. b_store b = store) (claim_bundles d)) \<le> maxBundles)
     \<and> length (claim_bundles d) \<le> maxDaemonBundles"

definition lease_inv :: "time \<Rightarrow> db \<Rightarrow> bool" where
  "lease_inv t d \<longleftrightarrow> lease_wf d \<and> exclusive t d"

datatype lease_op =
    Acquire string string string int "claimResource list" int
  | Renew string string string int int int
  | Progress string string string int int
  | Overdue string int int
  | Expire string int
  | Release string string string int
  | Reclaim string

fun lease_step :: "(string \<Rightarrow> string \<Rightarrow> string) \<Rightarrow> lease_op \<Rightarrow> time \<Rightarrow> db \<Rightarrow> kerror + db" where
  "lease_step actor (Acquire store w c epoch opts dur) now d =
     rbind (acquire store w c epoch opts now dur d) (\<lambda>(_, d'). Inr d')"
| "lease_step actor (Renew store w c g rv dur) now d =
     rbind (renew actor store w c g rv now dur d) (\<lambda>(_, d'). Inr d')"
| "lease_step actor (Progress store w c g epoch) now d = progress_claim store w c g epoch now d"
| "lease_step actor (Overdue store g epoch) now d = rbind (overdue store g epoch d) (\<lambda>(_, d'). Inr d')"
| "lease_step actor (Expire store g) now d = Inr (snd (expire store g now d))"
| "lease_step actor (Release store w c g) now d = release store w c g now d"
| "lease_step actor (Reclaim store) now d = rbind (reclaimOne store d) (\<lambda>(_, d'). Inr d')"

lemma live_mono: "live now b \<Longrightarrow> t \<le> now \<Longrightarrow> live t b"
  by (auto simp: live_def)

lemma exclusive_mono: "exclusive t d \<Longrightarrow> t \<le> now \<Longrightarrow> exclusive now d"
  unfolding exclusive_def using live_mono by blast

lemma owner_Inr:
  "owner d store w c g now = Inr b \<Longrightarrow>
     b \<in> set (claim_bundles d) \<and> b_store b = store \<and> b_work_id b = w \<and> b_consumer b = c
     \<and> b_generation b = g \<and> live now b"
  by (auto simp: owner_def live_def not_le dest!: find_Some_mem split: option.splits if_splits)

lemma bundle_row_Some:
  "bundle_row d store g = Some b \<Longrightarrow> b \<in> set (claim_bundles d) \<and> b_store b = store \<and> b_generation b = g"
  unfolding bundle_row_def by (drule find_Some_mem) simp

lemma lease_wf_unique:
  assumes "lease_wf d" "b \<in> set (claim_bundles d)" "q \<in> set (claim_bundles d)"
    "b_store q = b_store b" "b_generation q = b_generation b"
  shows "q = b"
  using assms distinct_key_eq[of "\<lambda>b. (b_store b, b_generation b)" "claim_bundles d" q b]
  by (simp add: lease_wf_def)

lemma lease_wf_resource:
  assumes "lease_wf d" "r \<in> set (claim_resources d)"
  shows "\<exists>b\<in>set (claim_bundles d). b_store b = cr_store r \<and> b_generation b = cr_generation r"
  using assms unfolding lease_wf_def by (elim conjE) (rule bspec)

lemma lease_wf_total: "lease_wf d \<Longrightarrow> length (claim_bundles d) \<le> maxDaemonBundles"
  by (simp add: lease_wf_def)

lemma lease_wf_per_store:
  "lease_wf d \<Longrightarrow> length (filter (\<lambda>b. b_store b = store) (claim_bundles d)) \<le> maxBundles"
  by (simp add: lease_wf_def)

lemma lease_wf_counter:
  assumes "lease_wf d" "b \<in> set (claim_bundles d)" "m \<in> set (memory_stores d)" "ms_store_id m = b_store b"
  shows "b_generation b \<le> ms_claim_counter m"
  using assms by (simp add: lease_wf_def)

text \<open>
  An UPDATE of one bundle: what every such statement of the engine keeps of the row, and what
  it then keeps of the invariant.
\<close>

locale bundle_update =
  fixes f :: "heldBundle \<Rightarrow> heldBundle"
  assumes keeps_store: "b_store (f b) = b_store b"
    and keeps_generation: "b_generation (f b) = b_generation b"
    and keeps_work: "b_work_id (f b) = b_work_id b"
    and keeps_credit: "b_active b \<Longrightarrow> credit_ok b \<Longrightarrow> credit_ok (f b)"
begin

lemma set_bundle_wf:
  assumes wf: "lease_wf d" and b: "b \<in> set (claim_bundles d)" "b_active b"
  shows "lease_wf (set_bundle (b_store b) (b_generation b) f d)"
proof -
  let ?P = "\<lambda>q. b_store q = b_store b \<and> b_generation q = b_generation b"
  let ?t = "update_where ?P f (claim_bundles d)"
  have maps: "map (\<lambda>q. (b_store q, b_generation q)) ?t = map (\<lambda>q. (b_store q, b_generation q)) (claim_bundles d)"
    "map (\<lambda>q. (b_store q, b_work_id q)) ?t = map (\<lambda>q. (b_store q, b_work_id q)) (claim_bundles d)"
    by (rule map_update_where, simp add: keeps_store keeps_generation keeps_work)+
  have filt: "length (filter (\<lambda>q. b_store q = store) ?t) = length (filter (\<lambda>q. b_store q = store) (claim_bundles d))" for store
    by (subst filter_update_where) (simp_all add: keeps_store)
  have mem: "\<exists>p\<in>set (claim_bundles d). b_store q = b_store p \<and> b_generation q = b_generation p
      \<and> credit_ok q" if "q \<in> set ?t" for q
  proof -
    from that obtain p where p: "p \<in> set (claim_bundles d)" "q = (if ?P p then f p else p)"
      by (auto simp: in_update_where)
    have "credit_ok p" using wf p by (simp add: lease_wf_def)
    moreover have "?P p \<Longrightarrow> p = b" using lease_wf_unique[OF wf b(1)] p by auto
    ultimately show ?thesis using p b(2) keeps_store keeps_generation keeps_credit by auto
  qed
  have fwd: "p \<in> set (claim_bundles d) \<Longrightarrow> \<exists>q\<in>set ?t. b_store q = b_store p \<and> b_generation q = b_generation p" for p
    by (rule bexI[of _ "if ?P p then f p else p"]) (auto simp: in_update_where keeps_store keeps_generation)
  have resources: "\<exists>q\<in>set ?t. b_store q = cr_store r \<and> b_generation q = cr_generation r"
    if r: "r \<in> set (claim_resources d)" for r
  proof -
    obtain p where "p \<in> set (claim_bundles d)" "b_store p = cr_store r" "b_generation p = cr_generation r"
      using lease_wf_resource[OF wf r] by blast
    then show ?thesis using fwd[of p] by auto
  qed
  show ?thesis
    unfolding lease_wf_def
  proof (intro conjI ballI allI impI)
    fix q m assume q: "q \<in> set (claim_bundles (set_bundle (b_store b) (b_generation b) f d))"
      and m: "m \<in> set (memory_stores (set_bundle (b_store b) (b_generation b) f d))" "ms_store_id m = b_store q"
    obtain p where p: "p \<in> set (claim_bundles d)" "b_store q = b_store p" "b_generation q = b_generation p"
      using mem[of q] q by (auto simp: set_bundle_def)
    then show "b_generation q \<le> ms_claim_counter m"
      using lease_wf_counter[OF wf p(1), of m] m by (simp add: set_bundle_def)
  qed (use wf maps filt mem resources in \<open>auto simp: lease_wf_def set_bundle_def\<close>)
qed

lemma set_bundle_exclusive:
  assumes wf: "lease_wf d" and ex: "exclusive t d" "t \<le> now"
    and b: "b \<in> set (claim_bundles d)" and lv: "live now (f b) \<Longrightarrow> live now b"
  shows "exclusive now (set_bundle (b_store b) (b_generation b) f d)"
proof -
  let ?P = "\<lambda>q. b_store q = b_store b \<and> b_generation q = b_generation b"
  let ?d' = "set_bundle (b_store b) (b_generation b) f d"
  have exn: "exclusive now d" using ex by (rule exclusive_mono)
  have res: "bundleResources ?d' = bundleResources d"
    by (rule bundleResources_cong) (simp add: set_bundle_def)
  have old: "\<exists>p\<in>set (claim_bundles d). b_store p = b_store q \<and> b_generation p = b_generation q \<and> live now p"
    if q: "q \<in> set (claim_bundles ?d')" "live now q" for q
  proof -
    obtain p where p: "p \<in> set (claim_bundles d)" "q = (if ?P p then f p else p)"
      using q(1) by (auto simp: set_bundle_def in_update_where)
    have "?P p \<Longrightarrow> p = b" using lease_wf_unique[OF wf b] p by auto
    then show ?thesis using p q(2) lv keeps_store keeps_generation by auto
  qed
  show ?thesis
    unfolding exclusive_def res
  proof (intro ballI impI)
    fix a c x y
    assume a: "a \<in> set (claim_bundles ?d')" and c: "c \<in> set (claim_bundles ?d')"
      and h: "b_store a = b_store c \<and> b_generation a \<noteq> b_generation c \<and> live now a \<and> live now c"
      and x: "x \<in> set (bundleResources d (b_store a) (b_generation a))"
      and y: "y \<in> set (bundleResources d (b_store c) (b_generation c))"
    obtain a' where a': "a' \<in> set (claim_bundles d)" "b_store a' = b_store a" "b_generation a' = b_generation a" "live now a'"
      using old[OF a] h by auto
    obtain c' where c': "c' \<in> set (claim_bundles d)" "b_store c' = b_store c" "b_generation c' = b_generation c" "live now c'"
      using old[OF c] h by auto
    show "\<not> overlaps x y"
      using exn a' c' h x y unfolding exclusive_def by metis
  qed
qed

end

interpretation renewal: bundle_update "\<lambda>q. q\<lparr>b_revision := rv, b_renewed_at := tm, b_expires_at := ex\<rparr>" for rv tm ex
  by unfold_locales (auto simp: credit_ok_def)

interpretation progressing: bundle_update "\<lambda>q. q\<lparr>b_progress_epoch := epoch, b_overdue_recorded := False, b_overdue_credit := True\<rparr>" for epoch
  by unfold_locales (auto simp: credit_ok_def)

interpretation overdue_mark: bundle_update "\<lambda>q. q\<lparr>b_overdue_credit := False, b_overdue_recorded := True\<rparr>"
  by unfold_locales (auto simp: credit_ok_def)

interpretation ending: bundle_update "\<lambda>q. q\<lparr>b_active := False, b_overdue_credit := False, b_end_credit := False\<rparr>"
  by unfold_locales (auto simp: credit_ok_def)

lemma acquire_resources:
  assumes acq: "insert_resources store g 0 keys (claim_resources d) = Inr resources"
    and fresh: "\<forall>r\<in>set (claim_resources d). cr_store r = store \<longrightarrow> cr_generation r \<noteq> g"
    and d': "claim_resources d' = resources"
  shows "set (bundleResources d' store g) = set keys"
    and "s \<noteq> store \<or> h \<noteq> g \<Longrightarrow> set (bundleResources d' s h) = set (bundleResources d s h)"
proof -
  have set': "set resources = set (claim_resources d) \<union>
      {\<lparr>cr_store = store, cr_generation = g, cr_ordinal = 0 + int j, cr_res = keys ! j\<rparr> | j. j < length keys}"
    using insert_resources_Inr[OF acq] by simp
  show "set (bundleResources d' store g) = set keys"
  proof -
    have "{r \<in> set resources. cr_store r = store \<and> cr_generation r = g}
        = (\<lambda>j. \<lparr>cr_store = store, cr_generation = g, cr_ordinal = 0 + int j, cr_res = keys ! j\<rparr>) ` {..<length keys}"
      unfolding set' using fresh by auto
    then have "set (bundleResources d' store g) = (!) keys ` {..<length keys}"
      by (simp add: set_bundleResources d' image_image)
    also have "\<dots> = set keys"
      by (auto simp: in_set_conv_nth)
    finally show ?thesis .
  qed
  show "s \<noteq> store \<or> h \<noteq> g \<Longrightarrow> set (bundleResources d' s h) = set (bundleResources d s h)"
    unfolding set_bundleResources d' set' by auto
qed

lemma acquire_wf:
  assumes wf: "lease_wf d" and acq: "acquire store w c epoch opts now dur d = Inr (l, d')"
  shows "lease_wf d'"
  using acq
proof (rule acquire_Inr)
  fix m :: storeRow and keys resources
  let ?g = "ms_claim_counter m + 1"
  let ?b = "new_bundle store ?g w c now (now + of_int dur) epoch"
  assume m: "List.find (\<lambda>s. ms_store_id s = store) (memory_stores d) = Some m"
    and room: "length (filter (\<lambda>b. b_store b = store) (claim_bundles d)) < maxBundles"
      "length (claim_bundles d) < maxDaemonBundles"
    and ok: "bundle_ok ?b (claim_bundles d)"
    and ins: "insert_resources store ?g 0 keys (claim_resources d) = Inr resources"
    and d': "d' = d\<lparr>memory_stores := update_where (\<lambda>q. ms_store_id q = store) (\<lambda>s. s\<lparr>ms_claim_counter := ?g\<rparr>) (memory_stores d),
       claim_bundles := claim_bundles d @ [?b], claim_resources := resources\<rparr>"
  have m': "m \<in> set (memory_stores d)" "ms_store_id m = store" using find_Some_mem[OF m] by auto
  have below: "b_generation b < ?g" if "b \<in> set (claim_bundles d)" "b_store b = store" for b
    using lease_wf_counter[OF wf that(1) m'(1)] that m' by simp
  have keys1: "distinct (map (\<lambda>b. (b_store b, b_generation b)) (claim_bundles d'))"
    using wf ok distinct_append_fresh[of "\<lambda>b. (b_store b, b_generation b)" "claim_bundles d" ?b] d'
    by (simp add: lease_wf_def bundle_ok_def)
  have keys2: "distinct (map (\<lambda>b. (b_store b, b_work_id b)) (claim_bundles d'))"
    using wf ok distinct_append_fresh[of "\<lambda>b. (b_store b, b_work_id b)" "claim_bundles d" ?b] d'
    by (simp add: lease_wf_def bundle_ok_def)
  have counters: "b_generation b \<le> ms_claim_counter q"
    if h: "b \<in> set (claim_bundles d')" "q \<in> set (memory_stores d')" "ms_store_id q = b_store b" for b q
  proof -
    obtain p where p: "p \<in> set (memory_stores d)"
      "q = (if ms_store_id p = store then p\<lparr>ms_claim_counter := ?g\<rparr> else p)"
      using h(2) d' by (auto simp: in_update_where)
    consider "b = ?b" | "b \<in> set (claim_bundles d)" using h(1) d' by auto
    then show ?thesis
    proof cases
      case 1
      then show ?thesis using h(3) p(2) by (auto simp: new_bundle_def split: if_splits)
    next
      case 2
      then show ?thesis
        using h(3) p(2) below[OF 2] lease_wf_counter[OF wf 2 p(1)] by (auto split: if_splits)
    qed
  qed
  have rows: "\<exists>b\<in>set (claim_bundles d'). b_store b = cr_store r \<and> b_generation b = cr_generation r"
    if "r \<in> set (claim_resources d')" for r
    using that insert_resources_Inr[OF ins] lease_wf_resource[OF wf, of r] d'
    by (auto simp: new_bundle_def)
  have count: "length (filter (\<lambda>b. b_store b = s) (claim_bundles d')) \<le> maxBundles" for s
    using wf room d' by (auto simp: lease_wf_def new_bundle_def)
  have "credit_ok b" if "b \<in> set (claim_bundles d')" for b
    using that wf d' by (auto simp: lease_wf_def credit_ok_def new_bundle_def)
  then show "lease_wf d'"
    unfolding lease_wf_def using keys1 keys2 counters rows count room d' by simp
qed

lemma acquire_exclusive:
  assumes wf: "lease_wf d" and ex: "exclusive t d" "t \<le> now"
    and acq: "acquire store w c epoch opts now dur d = Inr (l, d')"
  shows "exclusive now d'"
  using acq
proof (rule acquire_Inr)
  fix m :: storeRow and keys resources
  let ?g = "ms_claim_counter m + 1"
  let ?b = "new_bundle store ?g w c now (now + of_int dur) epoch"
  assume m: "List.find (\<lambda>s. ms_store_id s = store) (memory_stores d) = Some m"
    and scan: "\<forall>b\<in>set (claim_bundles d). b_store b = store \<longrightarrow> b_work_id b \<noteq> w \<and>
        (b_active b \<and> b_expires_at b > now \<longrightarrow>
           (\<forall>old\<in>set (bundleResources d store (b_generation b)). \<forall>k\<in>set keys. \<not> overlaps k old))"
    and ins: "insert_resources store ?g 0 keys (claim_resources d) = Inr resources"
    and d': "d' = d\<lparr>memory_stores := update_where (\<lambda>q. ms_store_id q = store) (\<lambda>s. s\<lparr>ms_claim_counter := ?g\<rparr>) (memory_stores d),
       claim_bundles := claim_bundles d @ [?b], claim_resources := resources\<rparr>"
  have m': "m \<in> set (memory_stores d)" "ms_store_id m = store" using find_Some_mem[OF m] by auto
  have below: "b_generation b \<noteq> ?g" if "b \<in> set (claim_bundles d)" "b_store b = store" for b
    using lease_wf_counter[OF wf that(1) m'(1)] that m' by simp
  have fresh: "\<forall>r\<in>set (claim_resources d). cr_store r = store \<longrightarrow> cr_generation r \<noteq> ?g"
    using lease_wf_resource[OF wf] below by (metis (no_types, lifting))
  have mine: "set (bundleResources d' store ?g) = set keys"
    by (rule acquire_resources(1)[OF ins fresh]) (simp add: d')
  have others: "set (bundleResources d' (b_store b) (b_generation b)) = set (bundleResources d (b_store b) (b_generation b))"
    if "b \<in> set (claim_bundles d)" for b
    by (rule acquire_resources(2)[OF ins fresh]) (use below[OF that] in \<open>auto simp: d'\<close>)
  have new: "\<not> overlaps k old"
    if "b \<in> set (claim_bundles d)" "b_store b = store" "live now b"
      "old \<in> set (bundleResources d' (b_store b) (b_generation b))" "k \<in> set keys" for b old k
    using scan that others[OF that(1)] by (auto simp: live_def)
  have exn: "exclusive now d" using ex by (rule exclusive_mono)
  show "exclusive now d'"
    unfolding exclusive_def
  proof (intro ballI impI)
    fix a b x y
    assume a: "a \<in> set (claim_bundles d')" and b: "b \<in> set (claim_bundles d')"
      and h: "b_store a = b_store b \<and> b_generation a \<noteq> b_generation b \<and> live now a \<and> live now b"
      and x: "x \<in> set (bundleResources d' (b_store a) (b_generation a))"
      and y: "y \<in> set (bundleResources d' (b_store b) (b_generation b))"
    have new_sel: "b_store ?b = store" "b_generation ?b = ?g" by (simp_all add: new_bundle_def)
    consider "a \<in> set (claim_bundles d)" "b \<in> set (claim_bundles d)"
      | "a = ?b" "b \<in> set (claim_bundles d)" | "a \<in> set (claim_bundles d)" "b = ?b"
      using a b h d' by auto
    then show "\<not> overlaps x y"
    proof cases
      case 1
      then show ?thesis using exn h x y others[of a] others[of b] unfolding exclusive_def by blast
    next
      case 2
      then show ?thesis using new[of b y x] h x y mine new_sel by simp
    next
      case 3
      then show ?thesis using new[of a x y] h x y mine new_sel overlaps_sym by simp
    qed
  qed
qed

lemma delete_bundle_inv:
  assumes inv: "lease_inv t d"
  shows "lease_inv t (delete_bundle store g d)"
proof -
  let ?d' = "delete_bundle store g d"
  have wf: "lease_wf d" and ex: "exclusive t d" using inv by (auto simp: lease_inv_def)
  have rows: "\<exists>b\<in>set (claim_bundles ?d'). b_store b = cr_store r \<and> b_generation b = cr_generation r"
    if "r \<in> set (claim_resources ?d')" for r
    using that lease_wf_resource[OF wf, of r] by (auto simp: delete_bundle_def)
  have sub: "length (filter P (filter Q xs)) \<le> length (filter P xs)" for P Q and xs :: "heldBundle list"
    by (induction xs) auto
  have count: "length (filter (\<lambda>b. b_store b = s) (claim_bundles ?d')) \<le> maxBundles" for s
    using order_trans[OF sub lease_wf_per_store[OF wf]] by (simp add: delete_bundle_def del: filter_filter)
  have total: "length (claim_bundles ?d') \<le> maxDaemonBundles"
    using order_trans[OF length_filter_le lease_wf_total[OF wf]] by (simp add: delete_bundle_def)
  have "lease_wf ?d'"
    unfolding lease_wf_def using rows count total wf
    by (auto simp: lease_wf_def delete_bundle_def distinct_map_filter)
  moreover have "exclusive t ?d'"
    using ex unfolding exclusive_def set_bundleResources by (fastforce simp: delete_bundle_def)
  ultimately show ?thesis by (simp add: lease_inv_def)
qed

lemma end_claim_inv:
  assumes inv: "lease_inv t d" "t \<le> now" and b: "b \<in> set (claim_bundles d)" "b_active b"
  shows "lease_inv now (end_claim (b_store b) (b_generation b) d)"
  using inv ending.set_bundle_wf[OF _ b] ending.set_bundle_exclusive[OF _ _ inv(2) b(1)]
  by (auto simp: lease_inv_def end_claim_def live_def)

lemma lease_inv_later: "lease_inv t d \<Longrightarrow> t \<le> now \<Longrightarrow> lease_inv now d"
  by (auto simp: lease_inv_def intro: exclusive_mono)

lemma renew_inv:
  assumes inv: "lease_inv t d" "t \<le> now" and r: "renew actor store w c g rv now dur d = Inr (l, d')"
  shows "lease_inv now d'"
proof -
  obtain b ex where o: "owner d store w c g now = Inr b"
    and d': "d' = set_bundle store g (\<lambda>q. q\<lparr>b_revision := rv + 1, b_renewed_at := now, b_expires_at := ex\<rparr>) d"
    using r by (auto simp: renew_def Let_def split: if_splits)
  have b: "b \<in> set (claim_bundles d)" "b_store b = store" "b_generation b = g" "live now b"
    using owner_Inr[OF o] by auto
  have wf: "lease_wf d" "exclusive t d" using inv(1) by (auto simp: lease_inv_def)
  show ?thesis
    using renewal.set_bundle_wf[OF wf(1) b(1), where rv = "rv + 1" and tm = now and ex = ex]
      renewal.set_bundle_exclusive[OF wf(1,2) inv(2) b(1), where rv = "rv + 1" and tm = now and ex = ex] b d'
    by (simp add: lease_inv_def live_def)
qed

lemma progress_inv:
  assumes inv: "lease_inv t d" "t \<le> now" and r: "progress_claim store w c g epoch now d = Inr d'"
  shows "lease_inv now d'"
proof -
  obtain b where o: "owner d store w c g now = Inr b"
    and d': "d' = set_bundle store g (\<lambda>q. q\<lparr>b_progress_epoch := epoch, b_overdue_recorded := False, b_overdue_credit := True\<rparr>) d"
    using r by (auto simp: progress_claim_def)
  have b: "b \<in> set (claim_bundles d)" "b_store b = store" "b_generation b = g" "live now b"
    using owner_Inr[OF o] by auto
  have wf: "lease_wf d" "exclusive t d" using inv(1) by (auto simp: lease_inv_def)
  show ?thesis
    using progressing.set_bundle_wf[OF wf(1) b(1), of epoch]
      progressing.set_bundle_exclusive[OF wf(1,2) inv(2) b(1), of epoch] b d'
    by (simp add: lease_inv_def live_def)
qed

lemma overdue_inv:
  assumes inv: "lease_inv t d" "t \<le> now" and r: "overdue store g epoch d = Inr (x, d')"
  shows "lease_inv now d'"
proof (cases "d' = d")
  case True
  then show ?thesis using inv lease_inv_later by blast
next
  case False
  then obtain b where o: "bundle_row d store g = Some b" "b_active b"
    and d': "d' = set_bundle store g (\<lambda>q. q\<lparr>b_overdue_credit := False, b_overdue_recorded := True\<rparr>) d"
    using r by (auto simp: overdue_def split: option.splits if_splits)
  have b: "b \<in> set (claim_bundles d)" "b_store b = store" "b_generation b = g"
    using bundle_row_Some[OF o(1)] by auto
  have wf: "lease_wf d" "exclusive t d" using inv(1) by (auto simp: lease_inv_def)
  show ?thesis
    using overdue_mark.set_bundle_wf[OF wf(1) b(1) o(2)]
      overdue_mark.set_bundle_exclusive[OF wf(1,2) inv(2) b(1)] b d'
    by (simp add: lease_inv_def live_def)
qed

lemma expire_inv:
  assumes inv: "lease_inv t d" "t \<le> now"
  shows "lease_inv now (snd (expire store g now d))"
  using end_claim_inv[OF inv] lease_inv_later[OF inv]
  by (auto simp: expire_def dest!: bundle_row_Some split: option.splits)

lemma release_inv:
  assumes inv: "lease_inv t d" "t \<le> now" and r: "release store w c g now d = Inr d'"
  shows "lease_inv now d'"
  using r end_claim_inv[OF inv] by (auto simp: release_def live_def dest!: owner_Inr)

lemma reclaimOne_inv:
  assumes inv: "lease_inv t d" and r: "reclaimOne store d = Inr (x, d')"
  shows "lease_inv t d'"
  using r delete_bundle_inv[OF inv] inv by (auto simp: reclaimOne_def split: list.splits if_splits)

lemma acquire_inv:
  assumes "lease_inv t d" "t \<le> now" "acquire store w c epoch opts now dur d = Inr (l, d')"
  shows "lease_inv now d'"
  using assms acquire_wf[OF _ assms(3)] acquire_exclusive[OF _ _ assms(2,3)] by (auto simp: lease_inv_def)

lemma lease_step_inv:
  assumes "lease_inv t d" "t \<le> now" "lease_step actor e now d = Inr d'"
  shows "lease_inv now d'"
proof (cases e)
  case (Acquire store w c epoch opts dur)
  then show ?thesis using assms(3) by (auto intro: acquire_inv[OF assms(1,2)])
next
  case (Renew store w c g rv dur)
  then show ?thesis using assms(3) by (auto intro: renew_inv[OF assms(1,2)])
next
  case (Progress store w c g epoch)
  then show ?thesis using assms(3) by (auto intro: progress_inv[OF assms(1,2)])
next
  case (Overdue store g epoch)
  then show ?thesis using assms(3) by (auto intro: overdue_inv[OF assms(1,2)])
next
  case (Expire store g)
  then show ?thesis using assms(3) expire_inv[OF assms(1,2)] by auto
next
  case (Release store w c g)
  then show ?thesis using assms(3) by (auto intro: release_inv[OF assms(1,2)])
next
  case (Reclaim store)
  then show ?thesis using assms(3) reclaimOne_inv[OF lease_inv_later[OF assms(1,2)]] by auto
qed

interpretation lease_machine: timed_machine "lease_step actor" lease_inv for actor
  by unfold_locales (auto intro: lease_step_inv lease_inv_later)

section \<open>A lapsed generation stays lapsed\<close>

text \<open>Generation \<open>g\<close> of a store was issued and is not live at \<open>t\<close>.\<close>

definition lapsed :: "string \<Rightarrow> int \<Rightarrow> time \<Rightarrow> db \<Rightarrow> bool" where
  "lapsed store g t d \<longleftrightarrow>
     (\<forall>m\<in>set (memory_stores d). ms_store_id m = store \<longrightarrow> g \<le> ms_claim_counter m)
     \<and> (\<forall>b\<in>set (claim_bundles d). b_store b = store \<and> b_generation b = g \<longrightarrow> \<not> live t b)"

lemma lapsed_later: "lapsed store g t d \<Longrightarrow> t \<le> now \<Longrightarrow> lapsed store g now d"
  unfolding lapsed_def using live_mono by blast

context bundle_update
begin

lemma set_bundle_lapsed:
  assumes "lapsed store g now d"
    and "\<And>b. b \<in> set (claim_bundles d) \<Longrightarrow> b_store b = s \<Longrightarrow> b_generation b = h \<Longrightarrow> live now (f b) \<Longrightarrow> live now b"
  shows "lapsed store g now (set_bundle s h f d)"
  unfolding lapsed_def
proof (intro conjI ballI impI)
  fix q assume q: "q \<in> set (claim_bundles (set_bundle s h f d))" "b_store q = store \<and> b_generation q = g"
  then obtain p where p: "p \<in> set (claim_bundles d)" "q = (if b_store p = s \<and> b_generation p = h then f p else p)"
    by (auto simp: set_bundle_def in_update_where)
  then have "\<not> live now p"
    using assms(1) q(2) keeps_store keeps_generation by (auto simp: lapsed_def split: if_splits)
  then show "\<not> live now q" using p assms(2)[of p] by auto
qed (use assms(1) in \<open>simp add: lapsed_def set_bundle_def\<close>)

end

lemma end_claim_lapsed: "lapsed store g now d \<Longrightarrow> lapsed store g now (end_claim s h d)"
  unfolding end_claim_def by (rule ending.set_bundle_lapsed) (auto simp: live_def)

lemma acquire_lapsed:
  assumes l: "lapsed store g now d" and acq: "acquire s w c epoch opts now dur d = Inr (l, d')"
  shows "lapsed store g now d'"
  using acq
proof (rule acquire_Inr)
  fix m :: storeRow and keys resources
  let ?g = "ms_claim_counter m + 1"
  let ?b = "new_bundle s ?g w c now (now + of_int dur) epoch"
  assume m: "List.find (\<lambda>q. ms_store_id q = s) (memory_stores d) = Some m"
    and d': "d' = d\<lparr>memory_stores := update_where (\<lambda>q. ms_store_id q = s) (\<lambda>q. q\<lparr>ms_claim_counter := ?g\<rparr>) (memory_stores d),
       claim_bundles := claim_bundles d @ [?b], claim_resources := resources\<rparr>"
  have m': "m \<in> set (memory_stores d)" "ms_store_id m = s" using find_Some_mem[OF m] by auto
  have below: "store = s \<Longrightarrow> g < ?g" using l m' by (auto simp: lapsed_def)
  have "\<not> live now b" if "b \<in> set (claim_bundles d')" "b_store b = store" "b_generation b = g" for b
    using that l below d' by (auto simp: lapsed_def new_bundle_def)
  moreover have "g \<le> ms_claim_counter q" if "q \<in> set (memory_stores d')" "ms_store_id q = store" for q
    using that l below d' by (auto simp: lapsed_def in_update_where split: if_splits)
  ultimately show "lapsed store g now d'" by (auto simp: lapsed_def)
qed

lemma lease_step_lapsed:
  assumes inv: "lease_inv t d" and l0: "lapsed store g t d" and le: "t \<le> now"
    and st: "lease_step actor e now d = Inr d'"
  shows "lapsed store g now d'"
proof -
  have wf: "lease_wf d" using inv by (simp add: lease_inv_def)
  have l: "lapsed store g now d" using lapsed_later[OF l0 le] .
  show ?thesis
  proof (cases e)
    case (Acquire s w c epoch opts dur)
    then show ?thesis using st acquire_lapsed[OF l] by auto
  next
    case (Renew s w c h rv dur)
    then obtain b ex where o: "owner d s w c h now = Inr b"
      and d': "d' = set_bundle s h (\<lambda>q. q\<lparr>b_revision := rv + 1, b_renewed_at := now, b_expires_at := ex\<rparr>) d"
      using st by (auto simp: renew_def Let_def split: if_splits)
    show ?thesis unfolding d'
      by (rule renewal.set_bundle_lapsed[OF l])
        (use owner_Inr[OF o] lease_wf_unique[OF wf, of b] in auto)
  next
    case (Progress s w c h epoch)
    then show ?thesis
      using st by (auto simp: progress_claim_def live_def intro!: progressing.set_bundle_lapsed[OF l])
  next
    case (Overdue s h epoch)
    then show ?thesis
      using st l by (auto simp: overdue_def live_def intro!: overdue_mark.set_bundle_lapsed[OF l]
          split: option.splits if_splits)
  next
    case (Expire s h)
    then show ?thesis using st l end_claim_lapsed[OF l] by (auto simp: expire_def split: option.splits)
  next
    case (Release s w c h)
    then show ?thesis using st end_claim_lapsed[OF l] by (auto simp: release_def)
  next
    case (Reclaim s)
    then show ?thesis
      using st l by (auto simp: reclaimOne_def lapsed_def delete_bundle_def split: list.splits if_splits)
  qed
qed

interpretation lapsing: timed_machine "lease_step actor" "\<lambda>t d. lease_inv t d \<and> lapsed store g t d" for actor store g
  by unfold_locales (auto intro: lease_step_inv lease_step_lapsed lease_inv_later lapsed_later)

section \<open>When a claim is granted\<close>

lemma insert_resources_succeeds:
  assumes "\<forall>k\<in>set ks. r_kind k \<in> {''writer'', ''path'', ''exact''}"
    and "0 \<le> i" "i + int (length ks) \<le> 9"
    and "\<forall>r\<in>set t. cr_store r = store \<and> cr_generation r = g \<longrightarrow> cr_ordinal r < i"
  shows "\<exists>t'. insert_resources store g i ks t = Inr t'"
  using assms
proof (induction ks arbitrary: i t)
  case Nil
  then show ?case by simp
next
  case (Cons k ks)
  let ?r = "\<lparr>cr_store = store, cr_generation = g, cr_ordinal = i, cr_res = k\<rparr>"
  have ok: "resource_ok ?r t"
    using Cons.prems by (auto simp: resource_ok_def fresh_key_def)
  have "\<exists>t'. insert_resources store g (i + 1) ks (t @ [?r]) = Inr t'"
    by (rule Cons.IH) (use Cons.prems in auto)
  then show ?case using ok by (auto simp: insert_row_def)
qed

definition grantable :: "db \<Rightarrow> string \<Rightarrow> string \<Rightarrow> claimResource list \<Rightarrow> time \<Rightarrow> bool" where
  "grantable d store w keys now \<longleftrightarrow>
     (\<forall>b\<in>set (claim_bundles d). b_store b = store \<longrightarrow> b_work_id b \<noteq> w \<and>
        (live now b \<longrightarrow> (\<forall>old\<in>set (bundleResources d store (b_generation b)). \<forall>k\<in>set keys. \<not> overlaps k old)))
     \<and> length (filter (\<lambda>b. b_store b = store) (claim_bundles d)) < 16
     \<and> length (claim_bundles d) < 32"

lemma acquire_when_grantable:
  assumes wf: "lease_wf d" and m: "List.find (\<lambda>s. ms_store_id s = store) (memory_stores d) = Some m"
    and cnt: "0 \<le> ms_claim_counter m" "ms_claim_counter m < maxInt64" and ep: "0 < epoch"
    and keys: "claimBundle w opts = Inr keys" and g: "grantable d store w keys now"
  shows "\<exists>d'. acquire store w c epoch opts now dur d =
     Inr (\<lparr>l_generation = ms_claim_counter m + 1, l_revision = 1, l_expires_at = now + of_int dur\<rparr>, d')"
proof -
  let ?g = "ms_claim_counter m + 1"
  let ?b = "new_bundle store ?g w c now (now + of_int dur) epoch"
  have m': "m \<in> set (memory_stores d)" "ms_store_id m = store" using find_Some_mem[OF m] by auto
  have below: "b_generation b < ?g" if "b \<in> set (claim_bundles d)" "b_store b = store" for b
    using lease_wf_counter[OF wf that(1) m'(1)] that m' by simp
  have rows: "\<not> (cr_store r = store \<and> cr_generation r = ?g)" if "r \<in> set (claim_resources d)" for r
    using lease_wf_resource[OF wf that] below by force
  have ok: "bundle_ok ?b (claim_bundles d)"
    using below g cnt ep by (fastforce simp: bundle_ok_def new_bundle_def fresh_key_def grantable_def)
  have kinds: "\<forall>k\<in>set keys. r_kind k \<in> {''writer'', ''path'', ''exact''}" "length keys \<le> 9"
    using claimBundle_Inr[OF keys] by (auto simp: maxResources_def)
  obtain resources where res: "insert_resources store ?g 0 keys (claim_resources d) = Inr resources"
    using insert_resources_succeeds[of keys 0 "claim_resources d" store ?g] kinds rows by auto
  have scan: "acquire_scan d store w keys now (sort_key b_generation (filter (\<lambda>b. b_store b = store) (claim_bundles d))) = Inr ()"
    using g by (auto simp: acquire_scan_Inr grantable_def live_def)
  show ?thesis
    using keys scan g m cnt ok res
    by (simp add: acquire_def claim_counter_def counter_def Let_def insert_row_def guard_def
        grantable_def maxBundles_def maxDaemonBundles_def)
qed

section \<open>Cycle protection\<close>

lemma protect_inv:
  assumes inv: "lease_inv t d" and le: "t \<le> of_int now / 1000"
  shows "lease_inv (of_int now / 1000) (protectCycleClaims actor c repository now d)"
proof -
  let ?d' = "protectCycleClaims actor c repository now d" and ?n = "of_int now / 1000 :: rat"
  define P where "P = (\<lambda>b. repository \<noteq> [] \<and> storeOf d repository \<noteq> [] \<and> b_store b = storeOf d repository \<and> b_active b
      \<and> b_expires_at b > ?n \<and> b_expires_at b < of_int (c_cycle_deadline c) / 1000 + cycleClaimGrace
      \<and> (\<exists>q\<in>set (context_cycles d). c_id q = c_id c \<and> cycleClaimMatch actor q b))"
  define f where "f = (\<lambda>b. b\<lparr>b_expires_at := of_int (c_cycle_deadline c) / 1000 + cycleClaimGrace\<rparr> :: heldBundle)"
  have d': "?d' = d\<lparr>claim_bundles := update_where P f (claim_bundles d)\<rparr>"
    by (auto simp: protectCycleClaims_def Let_def P_def f_def update_where_def)
  have wf: "lease_wf d" and ex: "exclusive ?n d"
    using inv exclusive_mono[OF _ le] by (auto simp: lease_inv_def)
  have sel: "b_store (f b) = b_store b" "b_generation (f b) = b_generation b" "b_work_id (f b) = b_work_id b"
    "credit_ok (f b) = credit_ok b" for b
    by (simp_all add: f_def credit_ok_def)
  have maps: "map (\<lambda>q. (b_store q, b_generation q)) (update_where P f (claim_bundles d)) = map (\<lambda>q. (b_store q, b_generation q)) (claim_bundles d)"
    "map (\<lambda>q. (b_store q, b_work_id q)) (update_where P f (claim_bundles d)) = map (\<lambda>q. (b_store q, b_work_id q)) (claim_bundles d)"
    by (rule map_update_where, simp add: sel)+
  have filt: "length (filter (\<lambda>q. b_store q = s) (update_where P f (claim_bundles d))) = length (filter (\<lambda>q. b_store q = s) (claim_bundles d))" for s
    by (subst filter_update_where) (simp_all add: sel)
  have old: "\<exists>p\<in>set (claim_bundles d). b_store p = b_store q \<and> b_generation p = b_generation q
      \<and> credit_ok q \<and> (live ?n q \<longrightarrow> live ?n p)" if "q \<in> set (update_where P f (claim_bundles d))" for q
  proof -
    from that obtain p where p: "p \<in> set (claim_bundles d)" "q = (if P p then f p else p)"
      by (auto simp: in_update_where)
    have "credit_ok p" using wf p by (simp add: lease_wf_def)
    then show ?thesis using p by (intro bexI[of _ p]) (auto simp: sel P_def live_def)
  qed
  have fwd: "\<exists>q\<in>set (update_where P f (claim_bundles d)). b_store q = cr_store r \<and> b_generation q = cr_generation r"
    if r: "r \<in> set (claim_resources d)" for r
  proof -
    obtain p where p: "p \<in> set (claim_bundles d)" "b_store p = cr_store r" "b_generation p = cr_generation r"
      using lease_wf_resource[OF wf r] by blast
    then show ?thesis
      by (intro bexI[of _ "if P p then f p else p"]) (auto simp: sel in_update_where)
  qed
  have cnt: "b_generation q \<le> ms_claim_counter m"
    if "q \<in> set (update_where P f (claim_bundles d))" "m \<in> set (memory_stores d)" "ms_store_id m = b_store q" for q m
    using old[OF that(1)] lease_wf_counter[OF wf _ that(2)] that(3) by metis
  have "lease_wf ?d'"
    unfolding lease_wf_def d' using wf maps filt old fwd cnt by (auto simp: lease_wf_def)
  moreover have "exclusive ?n ?d'"
    unfolding exclusive_def
  proof (intro ballI impI)
    fix a b x y
    assume a: "a \<in> set (claim_bundles ?d')" and b: "b \<in> set (claim_bundles ?d')"
      and h: "b_store a = b_store b \<and> b_generation a \<noteq> b_generation b \<and> live ?n a \<and> live ?n b"
      and x: "x \<in> set (bundleResources ?d' (b_store a) (b_generation a))"
      and y: "y \<in> set (bundleResources ?d' (b_store b) (b_generation b))"
    have res: "bundleResources ?d' = bundleResources d" by (rule bundleResources_cong) (simp add: d')
    obtain a' b' where "a' \<in> set (claim_bundles d)" "b_store a' = b_store a" "b_generation a' = b_generation a" "live ?n a'"
      "b' \<in> set (claim_bundles d)" "b_store b' = b_store b" "b_generation b' = b_generation b" "live ?n b'"
      using old[of a] old[of b] a b h d' by auto
    then show "\<not> overlaps x y" using ex h x y res unfolding exclusive_def by metis
  qed
  ultimately show ?thesis by (simp add: lease_inv_def)
qed

section \<open>Properties\<close>

definition demo_cycle :: cycleRow where
  "demo_cycle = \<lparr>c_id = ''c1'', c_credit = 4411, c_held = False, c_revision = 1, c_state = ''waiting_ready'',
     c_prompt_from = [], c_reason = [], c_family = ''codex'', c_session_id = ''a'', c_peer = ''codex-r-01'',
     c_address = [], c_host_pid = 7, c_host_start = 70, c_socket = ''/t'', c_pane = ''%1'', c_enable_revision = 1,
     c_epoch = ''e'', c_mode = ''managed'', c_threshold = 80, c_used = 81, c_limit = 100, c_source_at = 0,
     c_confirmed_at = 0, c_message_seq = 1, c_created_at = 0, c_updated_at = 0, c_stage_deadline = 50000,
     c_cycle_deadline = 100000, c_artifact = [], c_artifact_dev = 0, c_artifact_ino = 0, c_artifact_size = 0,
     c_artifact_mtime = 0, c_adapter = ''a1'', c_catalog_digest = [], c_successor_id = [], c_successor_epoch = [],
     c_outcome = [], c_report = [], c_events = 1, c_finished_at = 0, c_adapter_pin = [], c_ready_refusal = []\<rparr>"

definition demo_store :: db where
  "demo_store = empty_db\<lparr>memory_stores := [\<lparr>ms_repository = ''/r'', ms_store_id = ''st'', ms_head = 0,
     ms_floor = 0, ms_work_counter = 0, ms_claim_counter = 0, ms_library_floor = 0\<rparr>],
     context_cycles := [demo_cycle]\<rparr>"

definition work1 :: string where "work1 = replicate 31 CHR ''0'' @ ''1''"
definition work2 :: string where "work2 = replicate 31 CHR ''0'' @ ''2''"

definition demo_claims :: "(lease_op \<times> time) list" where
  "demo_claims =
     [(Acquire ''st'' work1 ''codex:a'' 1 [res ''path'' ''auth''] 900, 10),
      (Acquire ''st'' work2 ''claude:b'' 1 [res ''path'' ''authorization''] 900, 20)]"

lemma demo_store_inv: "lease_inv 0 demo_store"
  by (simp add: lease_inv_def lease_wf_def exclusive_def demo_store_def empty_db_def)

text \<open>
  C1. Mutual exclusion of advisory claims: whatever requests the lease engine serves, at
  nondecreasing clock readings, two different bundles of one store that are both live at a later
  time never hold overlapping resources.
\<close>

theorem lease_exclusion:
  assumes "lease_inv t d" and "sorted (t # map snd reqs)" and "last_time t reqs \<le> now"
    and "d' = run_log (lease_step actor) reqs d"
    and "a \<in> set (claim_bundles d')" "b \<in> set (claim_bundles d')" "a \<noteq> b" "b_store a = b_store b"
    and "live now a" "live now b"
    and "x \<in> set (bundleResources d' (b_store a) (b_generation a))"
    and "y \<in> set (bundleResources d' (b_store b) (b_generation b))"
  shows "\<not> overlaps x y"
proof -
  have "lease_inv now d'"
    using lease_machine.run_inv[OF assms(1,2)] assms(3,4) lease_inv_later by blast
  then have ex: "exclusive now d'" and wf: "lease_wf d'" by (auto simp: lease_inv_def)
  have "b_generation a \<noteq> b_generation b"
    using lease_wf_unique[OF wf assms(5,6)] assms(7,8) by auto
  then show ?thesis using ex assms(5-12) unfolding exclusive_def by blast
qed

theorem lease_exclusion_witness:
  "\<not> overlaps (res ''path'' ''auth'') (res ''path'' ''authorization'')"
proof (rule lease_exclusion[of 0 demo_store demo_claims 30 _ "\<lambda>_ _. []"
      "new_bundle ''st'' 1 work1 ''codex:a'' 10 910 1" "new_bundle ''st'' 2 work2 ''claude:b'' 20 920 1"])
  show "lease_inv 0 demo_store" by (rule demo_store_inv)
  show "sorted (0 # map snd demo_claims)" by (simp add: demo_claims_def)
  show "last_time 0 demo_claims \<le> 30" by (simp add: demo_claims_def last_time_def)
  show "run_log (lease_step (\<lambda>_ _. [])) demo_claims demo_store = run_log (lease_step (\<lambda>_ _. [])) demo_claims demo_store" ..
qed code_simp+



text \<open>
  C3. A claim is granted exactly when its bundle is well formed, no live bundle of the store holds
  an overlapping resource, the item has no retained bundle, and the store and the daemon have room
  for one more bundle; the grant carries the next generation and the full duration.
\<close>

theorem acquire_granted_iff:
  assumes "lease_wf d" and "List.find (\<lambda>s. ms_store_id s = store) (memory_stores d) = Some m"
    and "0 \<le> ms_claim_counter m" and "ms_claim_counter m < maxInt64" and "0 < epoch"
  shows "(\<exists>l d'. acquire store w c epoch opts now dur d = Inr (l, d'))
      = (\<exists>keys. claimBundle w opts = Inr keys \<and> grantable d store w keys now)
    \<and> (\<forall>l d'. acquire store w c epoch opts now dur d = Inr (l, d') \<longrightarrow>
         l = \<lparr>l_generation = ms_claim_counter m + 1, l_revision = 1, l_expires_at = now + of_int dur\<rparr>)"
proof -
  have granted: "\<exists>keys. claimBundle w opts = Inr keys \<and> grantable d store w keys now"
    "l = \<lparr>l_generation = ms_claim_counter m + 1, l_revision = 1, l_expires_at = now + of_int dur\<rparr>"
    if "acquire store w c epoch opts now dur d = Inr (l, d')" for l d'
    using that assms(2)
    by (auto elim!: acquire_Inr simp: grantable_def live_def maxBundles_def maxDaemonBundles_def)
  then show ?thesis using acquire_when_grantable[OF assms(1,2,3,4,5)] by blast
qed

theorem acquire_granted_iff_witness:
  "\<exists>l d'. acquire ''st'' work1 ''codex:a'' 1 [res ''exact'' ''db''] 10 60 demo_store = Inr (l, d')
     \<and> l = \<lparr>l_generation = 1, l_revision = 1, l_expires_at = 70\<rparr>"
proof -
  let ?m = "\<lparr>ms_repository = ''/r'', ms_store_id = ''st'', ms_head = 0, ms_floor = 0,
    ms_work_counter = 0, ms_claim_counter = 0, ms_library_floor = 0\<rparr>"
  have keys: "(\<exists>keys. claimBundle work1 [res ''exact'' ''db''] = Inr keys \<and> grantable demo_store ''st'' work1 keys 10)"
    by (intro exI[of _ "[res ''writer'' work1, res ''exact'' ''db'']"]) code_simp
  have wf: "lease_wf demo_store" using demo_store_inv by (simp add: lease_inv_def)
  have row: "List.find (\<lambda>s. ms_store_id s = ''st'') (memory_stores demo_store) = Some ?m"
    by (simp add: demo_store_def)
  show ?thesis
    using acquire_granted_iff[OF wf row, of 1 work1 "''codex:a''" "[res ''exact'' ''db'']" 10 60] keys
    by (auto simp: maxInt64_def)
qed

text \<open>
  C4. Maintenance never meets an ended bundle that still has a funded obligation: in every state
  the lease engine reaches, \<open>reclaimOne\<close> succeeds, and when the store has an inactive bundle it
  deletes the oldest one with its resources and nothing else.
\<close>

theorem reclaim_never_stuck:
  assumes "lease_inv t d" "sorted (t # map snd reqs)" "d' = run_log (lease_step actor) reqs d"
  shows "(\<forall>b\<in>set (claim_bundles d'). b_store b = store \<longrightarrow> b_active b) \<and> reclaimOne store d' = Inr (False, d')
    \<or> (\<exists>b\<in>set (claim_bundles d'). b_store b = store \<and> \<not> b_active b
        \<and> (\<forall>q\<in>set (claim_bundles d'). b_store q = store \<and> \<not> b_active q \<longrightarrow> b_generation b \<le> b_generation q)
        \<and> reclaimOne store d' = Inr (True, delete_bundle store (b_generation b) d'))"
proof -
  have wf: "lease_wf d'"
    using lease_machine.run_inv[OF assms(1,2)] assms(3) by (simp add: lease_inv_def)
  let ?t = "sort_key b_generation (filter (\<lambda>b. b_store b = store \<and> \<not> b_active b) (claim_bundles d'))"
  show ?thesis
  proof (cases ?t)
    case Nil
    then have "set ?t = {}" by simp
    then have "\<forall>b\<in>set (claim_bundles d'). b_store b = store \<longrightarrow> b_active b" by auto
    then show ?thesis using Nil by (simp add: reclaimOne_def)
  next
    case (Cons b bs)
    have mem: "set ?t = {q \<in> set (claim_bundles d'). b_store q = store \<and> \<not> b_active q}" by auto
    have b: "b \<in> set (claim_bundles d')" "b_store b = store" "\<not> b_active b"
      using mem Cons by auto
    have "sorted (map b_generation ?t)" by (rule sorted_sort_key)
    then have least: "\<forall>q\<in>set ?t. b_generation b \<le> b_generation q" using Cons by auto
    have "credit_ok b" using wf b by (simp add: lease_wf_def)
    then have "reclaimOne store d' = Inr (True, delete_bundle store (b_generation b) d')"
      using Cons b by (simp add: reclaimOne_def credit_ok_def)
    then show ?thesis using b least mem by auto
  qed
qed

theorem reclaim_never_stuck_witness:
  "reclaimOne ''st'' (run_log (lease_step (\<lambda>_ _. [])) (demo_claims @ [(Release ''st'' work1 ''codex:a'' 1, 30)]) demo_store)
    = Inr (True, delete_bundle ''st'' 1
        (run_log (lease_step (\<lambda>_ _. [])) (demo_claims @ [(Release ''st'' work1 ''codex:a'' 1, 30)]) demo_store))"
proof -
  define reqs where "reqs = demo_claims @ [(Release ''st'' work1 ''codex:a'' 1, 30)]"
  define d where "d = run_log (lease_step (\<lambda>_ _. [])) reqs demo_store"
  have bundles: "claim_bundles d = [(new_bundle ''st'' 1 work1 ''codex:a'' 10 910 1)
        \<lparr>b_active := False, b_overdue_credit := False, b_end_credit := False\<rparr>,
      new_bundle ''st'' 2 work2 ''claude:b'' 20 920 1]"
    unfolding d_def reqs_def by code_simp
  have "sorted (0 # map snd reqs)"
    by (simp add: demo_claims_def reqs_def)
  from reclaim_never_stuck[OF demo_store_inv this d_def, of "''st''"]
  have "reclaimOne ''st'' d = Inr (True, delete_bundle ''st'' 1 d)"
    by (simp add: bundles new_bundle_def)
  then show ?thesis by (simp add: d_def reqs_def)
qed



text \<open>
  Admitting a managed cycle keeps mutual exclusion when its clock is not behind: with the
  invariant at the millisecond the admission reads, raising the expiry of the session's live claims
  leaves every pair of live bundles of a store disjoint.
\<close>

theorem protect_keeps_exclusion:
  assumes "lease_inv t d" and "t \<le> of_int now / 1000"
  shows "lease_inv (of_int now / 1000) (protectCycleClaims actor c repository now d)"
  using protect_inv[OF assms] .

theorem protect_keeps_exclusion_witness:
  "lease_inv (of_int 30000 / 1000) (protectCycleClaims (\<lambda>_ _. []) demo_cycle ''/r'' 30000
     (run_log (lease_step (\<lambda>_ _. [])) demo_claims demo_store))"
proof (rule protect_keeps_exclusion)
  show "lease_inv (last_time 0 demo_claims) (run_log (lease_step (\<lambda>_ _. [])) demo_claims demo_store)"
    by (rule lease_machine.run_inv[OF demo_store_inv]) (simp add: demo_claims_def)
qed (simp add: demo_claims_def last_time_def)

definition race_first :: heldBundle where
  "race_first = new_bundle ''st'' 1 work1 ''codex:a'' (1/2500) (60 + 1/2500) 1"

definition race_second :: heldBundle where
  "race_second = new_bundle ''st'' 2 work2 ''claude:b'' (60 + 1/2000) (120 + 1/2000) 1"

definition race_granted :: db where
  "race_granted = run_log (lease_step (\<lambda>_ _. []))
     [(Acquire ''st'' work1 ''codex:a'' 1 [res ''path'' ''auth''] 60, 1/2500),
      (Acquire ''st'' work2 ''claude:b'' 1 [res ''path'' ''auth''] 60, 60 + 1/2000)] demo_store"

definition race_admitted :: db where
  "race_admitted = protectCycleClaims (\<lambda>_ _. []) demo_cycle ''/r'' 60000 race_granted"


end
