(* ===== verification/Storage.thy ===== *)
theory Storage
  imports Lease
begin

text \<open>
  The storage boundary of \<^verbatim>\<open>internal/core/storage.go\<close>: the page ceilings of the two write classes,
  the page debt of funded obligations, the admission of a write (\<open>begin\<close> and \<open>enter\<close>), the ceiling
  check of \<open>Commit\<close>, the classification of an engine-full error and \<open>Recover\<close>.

  SQLite and the file system are not part of the repository: what they report is an argument.
  \<open>walReport\<close> is the result of one truncating checkpoint with the stat of the log file, page counts
  are integers the engine returned, and \<open>ended\<close> says whether the request's context has ended.
\<close>

section \<open>The physical bound\<close>

definition pageSize :: int where "pageSize = 4096"
definition frameBytes :: int where "frameBytes = 24 + pageSize"
definition maxSectorSize :: int where "maxSectorSize = 65536"
definition padFrames :: int where "padFrames = (maxSectorSize - 1 + frameBytes - 1) div frameBytes"
definition maxPhysicalBytes :: int where "maxPhysicalBytes = 2 ^ 30"
definition defaultMaxPages :: int where
  "defaultMaxPages = (maxPhysicalBytes - 32 - padFrames * frameBytes) div (pageSize + frameBytes)"
definition reservePages :: int where "reservePages = 2048"
definition commitSlack :: int where "commitSlack = 2"
definition appendAllowance :: int where "appendAllowance = 8"
definition overdueCreditPages :: int where "overdueCreditPages = 576"
definition endCreditPages :: int where "endCreditPages = 768"
definition verdictCreditPages :: int where "verdictCreditPages = 1024"

datatype writeClass = ordinary | control

record storage =
  st_max_pages :: int
  st_blocked :: string

definition page_ceiling :: "storage \<Rightarrow> writeClass \<Rightarrow> int" where
  "page_ceiling s cls =
     (if cls = control then st_max_pages s - commitSlack
      else st_max_pages s - reservePages - commitSlack)"

text \<open>\<open>debtPages\<close>: the pages that every funded obligation of every store keeps free.\<close>

definition debtPages :: "db \<Rightarrow> int" where
  "debtPages d =
     sum_flags b_overdue_credit (claim_bundles d) * overdueCreditPages
     + sum_flags b_end_credit (claim_bundles d) * endCreditPages
     + sum_flags w_verdict_credit (work_items d) * verdictCreditPages
     + sum_list (map c_credit (context_cycles d))"

section \<open>The write-ahead log proof\<close>

datatype stat = StatMissing | StatFailed string | StatBytes int

datatype walReport = CheckpointFailed string | Checkpoint int int stat

definition resetLog :: "walReport \<Rightarrow> string + unit" where
  "resetLog r = (case r of
      CheckpointFailed e \<Rightarrow> Inl e
    | Checkpoint busy logged st \<Rightarrow>
        if busy \<noteq> 0 \<or> logged > 0
        then Inl (''checkpoint left busy='' @ show_int busy @ '' log='' @ show_int logged)
        else (case st of StatMissing \<Rightarrow> Inr ()
              | StatFailed e \<Rightarrow> Inl e
              | StatBytes n \<Rightarrow> if n \<noteq> 0 then Inl (''log holds '' @ show_int n @ '' bytes'') else Inr ()))"

text \<open>An error of the boundary: a refusal, the context's own error, or an error of the engine.\<close>

datatype storeError = Refused kerror | ContextEnded | EngineError string

definition proofFailed :: "bool \<Rightarrow> string \<Rightarrow> storage \<Rightarrow> storeError \<times> storage" where
  "proofFailed ended e s =
     (if ended then (ContextEnded, s) else (Refused ErrStorageBlocked, s\<lparr>st_blocked := e\<rparr>))"

text \<open>
  What the engine reports to one \<open>enter\<close>: the first log proof, the page count, then, when the write
  is refused for space, the result of \<open>incremental_vacuum\<close>, the second log proof and the page count
  after it.
\<close>

record entry =
  ad_wal :: walReport
  ad_pages :: "string + int"
  ad_debt :: "string + int"
  ad_vacuum :: "string + unit"
  ad_wal2 :: walReport
  ad_pages2 :: "string + int"

definition reclaim :: "bool \<Rightarrow> entry \<Rightarrow> storage \<Rightarrow> (storeError + unit) \<times> storage" where
  "reclaim ended en s =
     (case ad_vacuum en of
        Inl e \<Rightarrow> (Inl (EngineError e), s)
      | Inr _ \<Rightarrow> (case resetLog (ad_wal2 en) of
            Inl e \<Rightarrow> (case proofFailed ended e s of (err, s') \<Rightarrow> (Inl err, s'))
          | Inr _ \<Rightarrow> (Inr (), s)))"

definition enter :: "bool \<Rightarrow> writeClass \<Rightarrow> entry \<Rightarrow> storage \<Rightarrow> (storeError + unit) \<times> storage" where
  "enter ended cls en s =
     (if st_blocked s \<noteq> [] then (Inl (Refused ErrStorageBlocked), s)
      else case resetLog (ad_wal en) of
        Inl e \<Rightarrow> (case proofFailed ended e s of (err, s') \<Rightarrow> (Inl err, s'))
      | Inr _ \<Rightarrow>
          if cls = ordinary then
            (case ad_pages en of
               Inl e \<Rightarrow> (Inl (EngineError e), s)
             | Inr pages \<Rightarrow> (case ad_debt en of
                 Inl e \<Rightarrow> (Inl (EngineError e), s)
               | Inr debt \<Rightarrow>
                   if pages > page_ceiling s ordinary - debt - appendAllowance then
                     (case reclaim ended en s of
                        (Inl err, s') \<Rightarrow> (Inl err, s')
                      | (Inr _, s') \<Rightarrow> (case ad_pages2 en of
                            Inl e \<Rightarrow> (Inl (EngineError e), s')
                          | Inr pages2 \<Rightarrow>
                              if pages2 > page_ceiling s' ordinary - debt - appendAllowance
                              then (Inl (Refused ErrCapacity), s') else (Inr (), s')))
                   else (Inr (), s)))
          else (Inr (), s))"

section \<open>Commit, full and recovery\<close>

text \<open>
  \<open>full\<close>: \<open>code\<close> is the SQLite result code of the error, if it carries one; 13 is \<open>SQLITE_FULL\<close>.
\<close>

definition full :: "int option \<Rightarrow> string \<Rightarrow> writeClass \<Rightarrow> storage \<Rightarrow> storeError \<times> storage" where
  "full code e cls s =
     (case code of
        Some c \<Rightarrow> if c mod 256 \<noteq> 13 then (EngineError e, s)
          else if cls = control
          then (Refused ErrStorageBlocked, s\<lparr>st_blocked := ''the engine ceiling refused a reserved write''\<rparr>)
          else (Refused ErrCapacity, s)
      | None \<Rightarrow> (EngineError e, s))"

text \<open>
  \<open>commit_tx\<close>: the part of \<open>writeTx.Commit\<close> after the audit record, with the database the
  transaction would install. The page count is read inside the transaction, the debt from the
  mutated tables. \<open>engine\<close> is the result of the engine's own commit: \<open>None\<close> for success, or an
  error with its code.
\<close>

definition commit_tx ::
  "writeClass \<Rightarrow> int \<Rightarrow> (string \<times> int option) option \<Rightarrow> db \<Rightarrow> storage \<Rightarrow> (storeError + db) \<times> storage" where
  "commit_tx cls pages engine d' s =
     (if pages > page_ceiling s cls - debtPages d' then (Inl (Refused ErrCapacity), s)
      else case engine of
        None \<Rightarrow> (Inr d', s)
      | Some (e, code) \<Rightarrow> (case full code e cls s of (err, s') \<Rightarrow> (Inl err, s')))"

record recovery =
  rc_before :: "string + int"
  rc_wal :: walReport
  rc_vacuum :: "string + unit"
  rc_wal2 :: walReport
  rc_after :: "string + int"

definition recoverLocked :: "bool \<Rightarrow> recovery \<Rightarrow> storage \<Rightarrow> (storeError + unit) \<times> storage" where
  "recoverLocked ended rc s =
     (case rc_before rc of
        Inl e \<Rightarrow> (Inl (EngineError e), s)
      | Inr before \<Rightarrow> (case resetLog (rc_wal rc) of
          Inl e \<Rightarrow> (case proofFailed ended e s of (err, s') \<Rightarrow> (Inl err, s'))
        | Inr _ \<Rightarrow> (case rc_vacuum rc of
            Inl e \<Rightarrow> (Inl (EngineError e), s)
          | Inr _ \<Rightarrow> (case resetLog (rc_wal2 rc) of
              Inl e \<Rightarrow> (case proofFailed ended e s of (err, s') \<Rightarrow> (Inl err, s'))
            | Inr _ \<Rightarrow> (case rc_after rc of
                Inl e \<Rightarrow> (Inl (EngineError e), s)
              | Inr after \<Rightarrow>
                  if after > before
                  then (Inl (Refused ErrStorageBlocked), s\<lparr>st_blocked := ''reclamation grew the database''\<rparr>)
                  else (Inr (), s\<lparr>st_blocked := []\<rparr>))))))"

section \<open>Lemmas\<close>

lemma sum_flags_append [simp]: "sum_flags P (s @ t) = sum_flags P s + sum_flags P t"
  by (simp add: sum_flags_def)

lemma sum_flags_Cons [simp]: "sum_flags P (r # t) = (if P r then 1 else 0) + sum_flags P t"
  by (simp add: sum_flags_def)

lemma sum_flags_Nil [simp]: "sum_flags P [] = 0"
  by (simp add: sum_flags_def)

lemma sum_flags_nonneg: "0 \<le> sum_flags P t"
  by (simp add: sum_flags_def)

lemma update_where_Nil [simp]: "update_where P f [] = []"
  by (simp add: update_where_def)

lemma update_where_Cons [simp]: "update_where P f (r # t) = (if P r then f r else r) # update_where P f t"
  by (simp add: update_where_def)

lemma sum_flags_update_le:
  assumes "\<And>r. Q (f r) \<Longrightarrow> Q r"
  shows "sum_flags Q (update_where P f t) \<le> sum_flags Q t"
  using assms by (induction t) auto

lemma sum_flags_update_less:
  assumes "\<And>r. Q (f r) \<Longrightarrow> Q r" "r \<in> set t" "P r" "Q r" "\<not> Q (f r)"
  shows "sum_flags Q (update_where P f t) + 1 \<le> sum_flags Q t"
  using assms(2)
proof (induction t)
  case Nil
  then show ?case by simp
next
  case (Cons x t)
  then show ?case
    using assms(1,3,4,5) sum_flags_update_le[of Q f P t, OF assms(1)] by (cases "x = r") auto
qed

text \<open>Ending an active bundle gives back the pages of its end credit.\<close>

lemma end_claim_debt:
  assumes "b \<in> set (claim_bundles d)" "b_active b" "credit_ok b"
  shows "debtPages (end_claim (b_store b) (b_generation b) d) + endCreditPages \<le> debtPages d"
proof -
  let ?P = "\<lambda>q. b_store q = b_store b \<and> b_generation q = b_generation b"
  let ?f = "\<lambda>q. q\<lparr>b_active := False, b_overdue_credit := False, b_end_credit := False\<rparr>"
  have "sum_flags b_end_credit (update_where ?P ?f (claim_bundles d)) + 1 \<le> sum_flags b_end_credit (claim_bundles d)"
    by (rule sum_flags_update_less[of _ _ b]) (use assms in \<open>auto simp: credit_ok_def\<close>)
  moreover have "sum_flags b_overdue_credit (update_where ?P ?f (claim_bundles d)) \<le> sum_flags b_overdue_credit (claim_bundles d)"
    by (rule sum_flags_update_le) simp
  ultimately show ?thesis
    by (simp add: debtPages_def end_claim_def set_bundle_def overdueCreditPages_def endCreditPages_def)
qed

lemma commit_tx_Inr: "fst (commit_tx cls pages engine d' s) = Inr d \<Longrightarrow>
    d = d' \<and> pages + debtPages d' + commitSlack \<le> st_max_pages s
    \<and> (cls = ordinary \<longrightarrow> pages + debtPages d' + commitSlack + reservePages \<le> st_max_pages s)"
  by (cases cls) (auto simp: commit_tx_def page_ceiling_def commitSlack_def reservePages_def
      split: if_splits option.splits prod.splits)

section \<open>Properties\<close>

text \<open>
  The default page limit keeps the database file and a write-ahead log of one transaction
  within one gibibyte, and it is the largest such limit: every page count up to it fits, with the
  log header, one frame for each page and the sector padding, and one page more does not.
\<close>

theorem default_pages_fit_physical_bound:
  "(\<forall>pages. pages \<le> defaultMaxPages \<longleftrightarrow>
      pages * pageSize + (32 + (pages + padFrames) * frameBytes) \<le> maxPhysicalBytes)
   \<and> 0 < defaultMaxPages - reservePages - commitSlack - appendAllowance"
  by (auto simp: defaultMaxPages_def maxPhysicalBytes_def padFrames_def frameBytes_def pageSize_def
      maxSectorSize_def reservePages_def commitSlack_def appendAllowance_def)

text \<open>
  C9. A promised control can always end. After any committed write, a control that ends an active
  claim and allocates at most the pages of one end credit passes the ceiling of its own commit,
  whatever else the store holds and however full the ordinary range is.
\<close>

theorem funded_end_always_commits:
  assumes "fst (commit_tx cls pages engine d s) = Inr d"
    and "lease_wf d" and "b \<in> set (claim_bundles d)" and "b_active b"
    and "pages' \<le> pages + endCreditPages"
  shows "fst (commit_tx control pages' None (end_claim (b_store b) (b_generation b) d) s)
    = Inr (end_claim (b_store b) (b_generation b) d)"
proof -
  have "credit_ok b" using assms(2,3) by (simp add: lease_wf_def)
  then have "debtPages (end_claim (b_store b) (b_generation b) d) + endCreditPages \<le> debtPages d"
    using end_claim_debt[OF assms(3,4)] by simp
  moreover have "pages + debtPages d + commitSlack \<le> st_max_pages s"
    using commit_tx_Inr[OF assms(1)] by simp
  ultimately show ?thesis
    using assms(5) by (simp add: commit_tx_def page_ceiling_def)
qed

definition demo_storage :: storage where
  "demo_storage = \<lparr>st_max_pages = defaultMaxPages, st_blocked = []\<rparr>"

theorem funded_end_always_commits_witness:
  "fst (commit_tx control 120700 None (end_claim ''st'' 1 race_granted) demo_storage) = Inr (end_claim ''st'' 1 race_granted)"
proof -
  have bundles: "claim_bundles race_granted = [race_first, race_second]" by code_simp
  have debt: "fst (commit_tx ordinary 120000 None race_granted demo_storage) = Inr race_granted"
    by code_simp
  have wf: "lease_wf race_granted"
  proof -
    let ?log = "[(Acquire ''st'' work1 ''codex:a'' 1 [res ''path'' ''auth''] 60, 1/2500),
      (Acquire ''st'' work2 ''claude:b'' 1 [res ''path'' ''auth''] 60, 60 + 1/2000)]"
    have "lease_inv (last_time 0 ?log) race_granted"
      unfolding race_granted_def by (rule lease_machine.run_inv[OF demo_store_inv]) simp
    then show ?thesis by (simp add: lease_inv_def)
  qed
  show ?thesis
    using funded_end_always_commits[OF debt wf, of race_first 120700] bundles
    by (simp add: race_first_def new_bundle_def endCreditPages_def)
qed

definition proved :: "recovery \<Rightarrow> bool" where
  "proved rc \<longleftrightarrow> resetLog (rc_wal rc) = Inr () \<and> rc_vacuum rc = Inr () \<and> resetLog (rc_wal2 rc) = Inr ()
     \<and> (case (rc_before rc, rc_after rc) of (Inr before, Inr after) \<Rightarrow> after \<le> before | _ \<Rightarrow> False)"

text \<open>
  Blocked storage admits nothing, and only a proof unblocks it: a blocked boundary refuses
  every class of write with \<open>storage_blocked\<close> and stays as it is; an entry whose context ended never
  changes the boundary; a recovery succeeds, and clears the block, exactly when the log was proved
  empty before and after the vacuum and the database has not grown. (The errors of the engine are
  taken to carry a non-empty text: \<open>proofFailed\<close> records the text itself as the block.)
\<close>

theorem blocked_until_recovered:
  assumes "st_blocked s \<noteq> []"
    and "resetLog (rc_wal rc) \<noteq> Inl []" and "resetLog (rc_wal2 rc) \<noteq> Inl []"
  shows "enter ended cls en s = (Inl (Refused ErrStorageBlocked), s)
    \<and> snd (enter True cls en t) = t
    \<and> (fst (recoverLocked ended rc s) = Inr () \<longleftrightarrow> proved rc)
    \<and> (st_blocked (snd (recoverLocked ended rc s)) = [] \<longleftrightarrow> proved rc)"
proof (intro conjI)
  show "enter ended cls en s = (Inl (Refused ErrStorageBlocked), s)"
    using assms(1) by (simp add: enter_def)
  show "snd (enter True cls en t) = t"
    by (simp add: enter_def proofFailed_def reclaim_def split: sum.splits prod.splits)
  show "fst (recoverLocked ended rc s) = Inr () \<longleftrightarrow> proved rc"
    by (auto simp: proved_def recoverLocked_def proofFailed_def split: sum.splits prod.splits)
  show "st_blocked (snd (recoverLocked ended rc s)) = [] \<longleftrightarrow> proved rc"
    using assms by (auto simp: proved_def recoverLocked_def proofFailed_def split: sum.splits prod.splits)
qed

definition demo_recovery :: recovery where
  "demo_recovery = \<lparr>rc_before = Inr 900, rc_wal = Checkpoint 0 0 StatMissing, rc_vacuum = Inr (),
     rc_wal2 = Checkpoint 0 0 (StatBytes 0), rc_after = Inr 870\<rparr>"

theorem blocked_until_recovered_witness:
  "st_blocked (snd (recoverLocked False demo_recovery (demo_storage\<lparr>st_blocked := ''log holds 32 bytes''\<rparr>))) = []"
proof -
  have "proved demo_recovery" by code_simp
  moreover have "resetLog (rc_wal demo_recovery) \<noteq> Inl []" "resetLog (rc_wal2 demo_recovery) \<noteq> Inl []" by code_simp+
  ultimately show ?thesis
    using blocked_until_recovered[of "demo_storage\<lparr>st_blocked := ''log holds 32 bytes''\<rparr>" demo_recovery False]
    by simp
qed

end
