(* ===== verification/Sessions.thy ===== *)
theory Sessions
  imports Storage
begin

text \<open>
  The read side of the session registry: keys and lifetimes (\<^verbatim>\<open>store.go\<close>), the view of a session
  with its participant (\<open>sessionQuery\<close> and \<open>scanSession\<close>), who holds an address now (\<^verbatim>\<open>names.go\<close>,
  \<^verbatim>\<open>participants.go\<close>), host records (\<^verbatim>\<open>succession.go\<close>) and the check that a caller is active
  (\<^verbatim>\<open>messages.go\<close>). Times are Unix milliseconds. A wake target is the decoded JSON value; its
  members are compared by their exact names.
\<close>

section \<open>Keys, lifetimes and wake targets\<close>

definition participantPrefix :: string where
  "participantPrefix = ''participant:''"

definition participantKey :: "string \<Rightarrow> string" where
  "participantKey address = participantPrefix @ address"

definition isParticipantID :: "string \<Rightarrow> bool" where
  "isParticipantID i \<longleftrightarrow> has_prefix i participantPrefix"

definition SupportedFamilies :: "string list" where
  "SupportedFamilies = [''agy'', ''claude'', ''codex'', ''deepseek'', ''grok'', ''opencode'']"

definition validKey :: "string \<Rightarrow> string \<Rightarrow> bool" where
  "validKey family i \<longleftrightarrow> family \<in> set SupportedFamilies \<and> i \<noteq> [] \<and> length i \<le> 256
     \<and> (\<forall>c\<in>set i. c \<noteq> char_of (0::nat) \<and> c \<noteq> char_of (13::nat) \<and> c \<noteq> char_of (10::nat))
     \<and> \<not> has_prefix i participantPrefix"

definition ttl :: "int \<Rightarrow> int \<Rightarrow> kerror + int" where
  "ttl lifetime seconds =
     (let n = (if seconds = 0 then lifetime else seconds)
      in if n < 60 \<or> n > 3600 then Inl ErrInvalid else Inr (n * 1000))"

fun json_member :: "json \<Rightarrow> string \<Rightarrow> json option" where
  "json_member (JObj ms) k = map_of ms k"
| "json_member _ k = None"

text \<open>A string member decoded by \<open>json.Unmarshal\<close>: absent or null is empty, another type fails.\<close>

definition json_text_member :: "json \<Rightarrow> string \<Rightarrow> string option" where
  "json_text_member j k =
     (case j of
        JObj ms \<Rightarrow> (case map_of ms k of None \<Rightarrow> Some [] | Some JNull \<Rightarrow> Some [] | Some (JStr s) \<Rightarrow> Some s | Some _ \<Rightarrow> None)
      | JNull \<Rightarrow> Some []
      | _ \<Rightarrow> None)"

definition launched :: "json \<Rightarrow> bool" where
  "launched target \<longleftrightarrow> (\<exists>i\<in>set_option (json_text_member target ''launch_id''). i \<noteq> [])"

text \<open>The SQL conditions \<open>participantQualifier\<close> and \<open>notParticipantRow\<close> on a session row.\<close>

definition participantQualifier :: "sessionRow \<Rightarrow> bool" where
  "participantQualifier s \<longleftrightarrow> s_family s = ''deepseek''
     \<or> (case json_member (s_wake_target s) ''launch_id'' of
          None \<Rightarrow> False | Some JNull \<Rightarrow> False | Some (JStr i) \<Rightarrow> i \<noteq> [] | Some _ \<Rightarrow> True)"

definition notParticipantRow :: "sessionRow \<Rightarrow> bool" where
  "notParticipantRow s \<longleftrightarrow> take 12 (s_id s) \<noteq> ''participant:''"

section \<open>Rows\<close>

definition session_row :: "db \<Rightarrow> string \<Rightarrow> string \<Rightarrow> sessionRow option" where
  "session_row d family i = List.find (\<lambda>s. s_family s = family \<and> s_id s = i) (sessions d)"

definition row_active :: "int \<Rightarrow> sessionRow \<Rightarrow> bool" where
  "row_active now s \<longleftrightarrow> s_retired_at s = 0 \<and> s_expires_at s > now"

definition peer_row :: "db \<Rightarrow> string \<Rightarrow> string \<Rightarrow> nameRow option" where
  "peer_row d family i =
     List.find (\<lambda>n. n_kind n = ''peer'' \<and> n_family n = family \<and> n_session_id n = i) (names d)"

definition peerOf :: "db \<Rightarrow> string \<Rightarrow> string \<Rightarrow> string" where
  "peerOf d family i = (if i = [] then [] else case peer_row d family i of None \<Rightarrow> [] | Some n \<Rightarrow> n_name n)"

definition alias_row :: "db \<Rightarrow> string \<Rightarrow> string \<Rightarrow> string \<Rightarrow> nameRow option" where
  "alias_row d family repository role =
     List.find (\<lambda>n. n_kind n = ''alias'' \<and> n_family n = family \<and> n_repository n = repository \<and> n_role n = role) (names d)"

definition is_fenced :: "db \<Rightarrow> string \<Rightarrow> string \<Rightarrow> string \<Rightarrow> bool" where
  "is_fenced d address family i \<longleftrightarrow>
     (\<exists>f\<in>set (participant_fences d). f_address f = address \<and> f_family f = family \<and> f_session_id f = i)"

section \<open>The session view\<close>

record Session =
  sv_row :: sessionRow
  sv_state :: string
  sv_name :: string
  sv_alias :: string
  sv_address :: string
  sv_holds_address :: bool
  sv_conflict :: "string list"
  sv_fenced :: bool
  sv_liveness :: string

text \<open>\<open>participant_of\<close>: the LEFT JOIN of \<open>sessionQuery\<close> with the session's participant.\<close>

definition participant_of :: "db \<Rightarrow> sessionRow \<Rightarrow> nameRow option" where
  "participant_of d s =
     (if s_repository s \<noteq> [] \<and> \<not> s_subagent s \<and> participantQualifier s
      then alias_row d (s_family s) (s_repository s) (s_role s) else None)"

definition session_state :: "int \<Rightarrow> sessionRow \<Rightarrow> string" where
  "session_state now s =
     (if s_retired_at s \<noteq> 0 then ''retired'' else if s_expires_at s \<le> now then ''expired'' else ''active'')"

definition scanSession :: "db \<Rightarrow> int \<Rightarrow> Key \<Rightarrow> kerror + Session" where
  "scanSession d now k =
     (case session_row d (k_family k) (k_id k) of
        None \<Rightarrow> Inl ErrMissing
      | Some s \<Rightarrow>
          let p = participant_of d s;
              address = (case p of None \<Rightarrow> [] | Some n \<Rightarrow> n_name n);
              held = session_state now s = ''active'' \<and> address \<noteq> []
                \<and> (case p of None \<Rightarrow> [] | Some n \<Rightarrow> n_holder_id n) = s_id s
          in Inr \<lparr>sv_row = s, sv_state = session_state now s,
               sv_name = (case peer_row d (s_family s) (s_id s) of None \<Rightarrow> [] | Some n \<Rightarrow> n_name n),
               sv_alias = (if held then address else []), sv_address = address, sv_holds_address = held,
               sv_conflict = (case p of None \<Rightarrow> [] | Some n \<Rightarrow> (case n_conflict n of None \<Rightarrow> [] | Some c \<Rightarrow> c)),
               sv_fenced = (case p of None \<Rightarrow> False | Some n \<Rightarrow> is_fenced d (n_name n) (s_family s) (s_id s)),
               sv_liveness = (if s_host_pid s > 0 \<and> s_host_start s > 0 \<and> \<not> s_subagent s \<and> launched (s_wake_target s)
                              then ''host'' else ''none'')\<rparr>)"

section \<open>Holders\<close>

definition holds :: "db \<Rightarrow> int \<Rightarrow> string \<Rightarrow> string \<Rightarrow> string \<Rightarrow> string \<Rightarrow> bool" where
  "holds d now family i repository role \<longleftrightarrow>
     (\<exists>s\<in>set (sessions d). s_family s = family \<and> s_id s = i \<and> s_repository s = repository \<and> s_role s = role
        \<and> \<not> s_subagent s \<and> row_active now s \<and> participantQualifier s)"

text \<open>\<open>heldAddress\<close>: the addresses joined with the caller's row, the first in name order, or none.\<close>

definition held_names :: "db \<Rightarrow> int \<Rightarrow> Key \<Rightarrow> string list" where
  "held_names d now caller = sort (map n_name (filter (\<lambda>n. n_kind n = ''alias'' \<and> n_family n = k_family caller
     \<and> n_holder_id n = k_id caller \<and> holds d now (n_family n) (n_holder_id n) (n_repository n) (n_role n)) (names d)))"

definition heldAddress :: "db \<Rightarrow> int \<Rightarrow> Key \<Rightarrow> string" where
  "heldAddress d now caller = (case held_names d now caller of [] \<Rightarrow> [] | a # _ \<Rightarrow> a)"

definition staleHolder :: "db \<Rightarrow> int \<Rightarrow> Key \<Rightarrow> kerror" where
  "staleHolder d now caller =
     (case session_row d (k_family caller) (k_id caller) of
        None \<Rightarrow> ErrStaleHolder
      | Some s \<Rightarrow> (case s_succession s of
          None \<Rightarrow> ErrStaleHolder
        | Some l \<Rightarrow>
            if su_result l \<noteq> ''refused'' \<or> su_retry_after_ms l \<le> 0 then ErrStaleHolder
            else let left = su_at l + su_retry_after_ms l - now
                 in if left > 0 then HolderWait (su_reason l) (su_holder l) left else ErrStaleHolder))"

definition requireHolder :: "db \<Rightarrow> int \<Rightarrow> Key \<Rightarrow> string \<Rightarrow> kerror + unit" where
  "requireHolder d now caller address =
     (let held = heldAddress d now caller
      in if held = [] then Inl (staleHolder d now caller)
         else if held \<noteq> address then Inl ErrStaleHolder else Inr ())"

definition requireParticipantCaller :: "db \<Rightarrow> int \<Rightarrow> MemoryCaller \<Rightarrow> kerror + unit" where
  "requireParticipantCaller d now m =
     (if \<not> isParticipantID (m_consumer m) \<or> m_family m = k_family maintainerKey then Inr ()
      else if \<not> validKey (k_family (m_native m)) (k_id (m_native m)) \<or> k_family (m_native m) \<noteq> m_family m
      then Inl ErrStaleHolder
      else let address = trim_prefix (m_consumer m) participantPrefix in
        rbind (requireHolder d now (m_native m) address) (\<lambda>_.
        rbind (opt_err ErrNoRows (List.find (\<lambda>n. n_kind n = ''alias'' \<and> n_name n = address) (names d))) (\<lambda>n.
        guard (n_repository n = m_repository m) ErrStaleHolder)))"

definition nativeActor :: "MemoryCaller \<Rightarrow> string" where
  "nativeActor m = (if k_id (m_native m) \<noteq> [] then k_family (m_native m) @ '':'' @ k_id (m_native m) else [])"

definition activeCaller :: "db \<Rightarrow> int \<Rightarrow> Key \<Rightarrow> bool \<Rightarrow> kerror + unit" where
  "activeCaller d now caller dashboard =
     (if \<not> validKey (k_family caller) (k_id caller) \<and> \<not> (dashboard \<and> caller = maintainerKey) then Inl ErrInvalid
      else guard (\<exists>s\<in>set (sessions d). s_family s = k_family caller \<and> s_id s = k_id caller \<and> row_active now s)
             ErrCallerInactive)"

definition inactiveReason :: "(int \<Rightarrow> int option option) \<Rightarrow> db \<Rightarrow> string \<Rightarrow> string \<Rightarrow> kerror + string" where
  "inactiveReason processStart d family i =
     (case session_row d family i of
        None \<Rightarrow> Inl ErrRecipientInactive
      | Some s \<Rightarrow> Inr (
          if s_retired_at s \<noteq> 0 then ''retired''
          else if s_subagent s \<or> s_host_pid s \<le> 0 \<or> s_host_start s \<le> 0 then ''no_liveness_evidence''
          else case processStart (s_host_pid s) of
              Some None \<Rightarrow> ''ended''
            | Some (Some current) \<Rightarrow> if current \<noteq> s_host_start s then ''ended'' else ''lapsed''
            | None \<Rightarrow> ''no_liveness_evidence''))"

end
