(* ===== verification/Cycle.thy ===== *)
theory Cycle
  imports Sessions
begin

text \<open>
  The managed context cycle of \<^verbatim>\<open>context_cycle.go\<close> and \<^verbatim>\<open>context_cycle_retry.go\<close>: its states, its
  event history and page credit, the compare-and-set step \<open>advanceCycle\<close>, the one terminal
  outcome \<open>endCycleTx\<close>, the fence of a maintainer's action, the repeated request and the refusal
  slot. An operation returns the cycle it leaves with the database; the transaction's own
  error rolls the database back. Adapters are outside this theory: a check that an adapter or a
  caller adds to a step is the argument \<open>check\<close> of \<open>advanceCycle\<close>, as in the code.
\<close>

section \<open>States and bounds\<close>

abbreviation cycleRequested :: string where "cycleRequested \<equiv> ''requested''"
abbreviation cycleWaitingReady :: string where "cycleWaitingReady \<equiv> ''waiting_ready''"
abbreviation cycleReady :: string where "cycleReady \<equiv> ''ready''"
abbreviation cycleClearIntent :: string where "cycleClearIntent \<equiv> ''clear_intent''"
abbreviation cycleClearReceived :: string where "cycleClearReceived \<equiv> ''clear_received''"
abbreviation cycleResetVerified :: string where "cycleResetVerified \<equiv> ''reset_verified''"
abbreviation cyclePickupIntent :: string where "cyclePickupIntent \<equiv> ''pickup_intent''"
abbreviation cycleWaitingPickup :: string where "cycleWaitingPickup \<equiv> ''waiting_pickup''"
abbreviation cycleWaitingPrompt :: string where "cycleWaitingPrompt \<equiv> ''waiting_prompt''"
abbreviation cyclePromptIntent :: string where "cyclePromptIntent \<equiv> ''prompt_intent''"
abbreviation cycleBootstrapIntent :: string where "cycleBootstrapIntent \<equiv> ''bootstrap_intent''"
abbreviation cycleBootstrapVerified :: string where "cycleBootstrapVerified \<equiv> ''bootstrap_verified''"
abbreviation cycleCompactWaiting :: string where "cycleCompactWaiting \<equiv> ''compact_waiting''"
abbreviation cycleCompactIntent :: string where "cycleCompactIntent \<equiv> ''compact_intent''"
abbreviation cycleCompactSent :: string where "cycleCompactSent \<equiv> ''compact_sent''"
abbreviation cycleComplete :: string where "cycleComplete \<equiv> ''complete''"
abbreviation cycleCancelled :: string where "cycleCancelled \<equiv> ''cancelled''"
abbreviation cycleFailed :: string where "cycleFailed \<equiv> ''failed''"
abbreviation cycleUncertain :: string where "cycleUncertain \<equiv> ''uncertain''"
abbreviation ContextNativeCompaction :: string where "ContextNativeCompaction \<equiv> ''native_compaction''"

definition maxActiveCycles :: nat where "maxActiveCycles = 16"
definition maxCycleEvents :: int where "maxCycleEvents = 16"
definition cycleStagePages :: int where "cycleStagePages = 280"
definition cycleTerminalPages :: int where "cycleTerminalPages = 491"
definition cycleFundedStages :: int where "cycleFundedStages = maxCycleEvents - 2"
definition cycleCreditPages :: int where "cycleCreditPages = cycleFundedStages * cycleStagePages + cycleTerminalPages"

definition cycleReadyWait :: int where "cycleReadyWait = 15 * 60000"
definition cycleReceiptWait :: int where "cycleReceiptWait = 2 * 60000"
definition cyclePickupWait :: int where "cyclePickupWait = 5 * 60000"
definition cyclePromptWait :: int where "cyclePromptWait = 10 * 60000"
definition cycleCompactConfirm :: int where "cycleCompactConfirm = 10 * 60000"
definition cycleLifetime :: int where "cycleLifetime = 30 * 60000"

definition ErrCycleNotFound :: kerror where
  "ErrCycleNotFound = Refusal ''cycle_not_found'' ''this session has no managed cycle with that ID''"
definition ErrCycleChanged :: kerror where
  "ErrCycleChanged = Refusal ''cycle_changed'' ''the cycle is not at that revision or stage; read its current state''"

definition cycleTerminal :: "string \<Rightarrow> bool" where
  "cycleTerminal st \<longleftrightarrow> st = cycleComplete \<or> st = cycleCancelled \<or> st = cycleFailed \<or> st = cycleUncertain"

definition cycleHoldsPane :: "string \<Rightarrow> bool" where
  "cycleHoldsPane st \<longleftrightarrow> st \<in> {cycleReady, cycleBootstrapIntent, cycleBootstrapVerified, cycleClearIntent,
     cycleClearReceived, cycleResetVerified, cyclePickupIntent, cycleWaitingPickup, cycleWaitingPrompt,
     cyclePromptIntent, cycleCompactIntent, cycleCompactSent}"

definition cycleIntent :: "string \<Rightarrow> bool" where
  "cycleIntent st \<longleftrightarrow> st = cycleBootstrapIntent \<or> st = cycleClearIntent \<or> st = cyclePickupIntent
     \<or> st = cyclePromptIntent \<or> st = cycleCompactIntent"

definition cycleInputUnproven :: "string \<Rightarrow> bool" where
  "cycleInputUnproven st \<longleftrightarrow> cycleIntent st \<or> st = cycleClearReceived"

definition activeCycle :: "cycleRow \<Rightarrow> bool" where
  "activeCycle c \<longleftrightarrow> \<not> cycleTerminal (c_state c)"

definition awaitingPickup :: "cycleRow \<Rightarrow> bool" where
  "awaitingPickup c \<longleftrightarrow> c_state c = cycleWaitingPickup
     \<or> ((c_state c = cycleWaitingPrompt \<or> c_state c = cyclePromptIntent) \<and> c_prompt_from c = cycleWaitingPickup)"

definition acceptsPickupReport :: "cycleRow \<Rightarrow> bool" where
  "acceptsPickupReport c \<longleftrightarrow> awaitingPickup c \<or> c_state c = cycleResetVerified
     \<or> ((c_state c = cycleWaitingPrompt \<or> c_state c = cyclePromptIntent) \<and> c_prompt_from c = cycleResetVerified)"

definition pickupNotReady :: "cycleRow \<Rightarrow> kerror" where
  "pickupNotReady c =
     (let dialog = c_state c = cycleWaitingPrompt \<or> c_state c = cyclePromptIntent;
          stage = (if dialog then c_state c @ '' (from '' @ c_prompt_from c @ '')'' else c_state c);
          from = (if dialog then c_prompt_from c else c_state c);
          why = (if from = cyclePickupIntent then ''Koinon is entering the pickup; ''
                 else if from \<in> {cycleRequested, cycleWaitingReady, cycleReady, cycleBootstrapIntent,
                        cycleBootstrapVerified, cycleClearIntent, cycleClearReceived}
                 then ''the reset is not verified yet; '' else [])
      in Refusal ''cycle_pickup_not_ready'' (''the cycle is at '' @ stage @ ''; '' @ why @
           ''a pickup report is accepted at reset_verified or waiting_pickup; read the cycle again''))"

section \<open>Rows and events\<close>

definition scanCycle :: "db \<Rightarrow> string \<Rightarrow> kerror + cycleRow" where
  "scanCycle d i = opt_err ErrNoRows (List.find (\<lambda>c. c_id c = i) (context_cycles d))"

definition pickupDisplayed :: "db \<Rightarrow> string \<Rightarrow> bool" where
  "pickupDisplayed d i \<longleftrightarrow> (\<exists>e\<in>set (context_cycle_events d). ce_cycle_id e = i
     \<and> ce_stage e = cycleWaitingPickup \<and> ce_reason e = ''pickup_displayed'')"

text \<open>The only \<open>DisplayAdapter\<close> among the registered adapters is OpenCode's.\<close>

definition cycleUnproven :: "db \<Rightarrow> cycleRow \<Rightarrow> bool" where
  "cycleUnproven d c \<longleftrightarrow> cycleInputUnproven (c_state c)
     \<or> (c_family c = ''opencode'' \<and> awaitingPickup c \<and> \<not> pickupDisplayed d (c_id c))"

definition event_row :: "cycleRow \<Rightarrow> int \<Rightarrow> int \<Rightarrow> string \<Rightarrow> string \<Rightarrow> string \<Rightarrow> cycleEventRow" where
  "event_row c ordinal now stage result reason =
     \<lparr>ce_cycle_id = c_id c, ce_ordinal = ordinal, ce_at = now, ce_stage = stage, ce_result = result, ce_reason = reason\<rparr>"

definition insert_event :: "cycleEventRow \<Rightarrow> db \<Rightarrow> kerror + db" where
  "insert_event e d = rbind (insert_row ErrConstraint (fresh_key (\<lambda>q. (ce_cycle_id q, ce_ordinal q))) e (context_cycle_events d))
     (\<lambda>t. Inr (d\<lparr>context_cycle_events := t\<rparr>))"

definition cycleEvent :: "cycleRow \<Rightarrow> int \<Rightarrow> string \<Rightarrow> string \<Rightarrow> string \<Rightarrow> db \<Rightarrow> kerror + (cycleRow \<times> db)" where
  "cycleEvent c now stage result reason d =
     (if \<not> cycleTerminal stage \<and> c_events c \<ge> maxCycleEvents - 1 then Inl ErrCycleEventLimit
      else let c' = c\<lparr>c_events := c_events c + 1\<rparr> in
        rbind (insert_event (event_row c' (c_events c') now stage result reason) d) (\<lambda>d'. Inr (c', d')))"

text \<open>The columns that \<open>updateCycle\<close> writes from the row in memory.\<close>

definition set_columns :: "cycleRow \<Rightarrow> cycleRow \<Rightarrow> cycleRow" where
  "set_columns c q = q\<lparr>c_credit := c_credit c, c_revision := c_revision c, c_state := c_state c, c_prompt_from := c_prompt_from c,
     c_reason := c_reason c, c_updated_at := c_updated_at c, c_stage_deadline := c_stage_deadline c,
     c_artifact := c_artifact c, c_artifact_dev := c_artifact_dev c, c_artifact_ino := c_artifact_ino c,
     c_artifact_size := c_artifact_size c, c_artifact_mtime := c_artifact_mtime c,
     c_successor_id := c_successor_id c, c_successor_epoch := c_successor_epoch c, c_outcome := c_outcome c,
     c_report := c_report c, c_events := c_events c, c_finished_at := c_finished_at c\<rparr>"

definition updateCycle :: "cycleRow \<Rightarrow> db \<Rightarrow> db" where
  "updateCycle c d = d\<lparr>context_cycles := update_where (\<lambda>q. c_id q = c_id c) (set_columns c) (context_cycles d)\<rparr>"

definition cycleAudit :: "int \<Rightarrow> cycleRow \<Rightarrow> string \<Rightarrow> string \<Rightarrow> db \<Rightarrow> db" where
  "cycleAudit now c result reason d =
     d\<lparr>audit := audit d @ [\<lparr>au_at = now, au_action = ''context-cycle'',
        au_target = ''cycle '' @ c_id c @ '' peer '' @ c_peer c, au_result = result, au_reason = reason\<rparr>]\<rparr>"

section \<open>Enables\<close>

definition enable_row :: "db \<Rightarrow> string \<Rightarrow> string \<Rightarrow> enableRow option" where
  "enable_row d family i = List.find (\<lambda>e. en_family e = family \<and> en_session_id e = i) (context_enables d)"

definition cycleEnabled :: "db \<Rightarrow> cycleRow \<Rightarrow> bool" where
  "cycleEnabled d c = (case enable_row d (c_family c) (c_session_id c) of
      None \<Rightarrow> False | Some e \<Rightarrow> en_enabled e \<and> en_revision e = c_enable_revision c)"

definition disable :: "int \<Rightarrow> string \<Rightarrow> string \<Rightarrow> db \<Rightarrow> db" where
  "disable now family i d = d\<lparr>context_enables := update_where
     (\<lambda>e. en_family e = family \<and> en_session_id e = i \<and> en_enabled e)
     (\<lambda>e. e\<lparr>en_enabled := False, en_revision := en_revision e + 1, en_updated_at := now\<rparr>) (context_enables d)\<rparr>"

definition compactionKeepsEnable :: "cycleRow \<Rightarrow> string \<Rightarrow> bool" where
  "compactionKeepsEnable c reason \<longleftrightarrow>
     c_mode c = ContextNativeCompaction \<and> (c_state c = cycleCompactWaiting \<or> reason = ''epoch_changed'')"

definition readyTimeoutKeepsEnable :: "db \<Rightarrow> cycleRow \<Rightarrow> string \<Rightarrow> string \<Rightarrow> bool" where
  "readyTimeoutKeepsEnable d c outcome reason \<longleftrightarrow>
     outcome = cycleFailed \<and> c_state c = cycleWaitingReady \<and> has_prefix reason (cycleWaitingReady @ ''_timeout'')
     \<and> (\<forall>e\<in>set (context_cycle_events d). ce_cycle_id e = c_id c \<longrightarrow> \<not> cycleIntent (ce_stage e))
     \<and> length (filter (\<lambda>e. en_family e = c_family c \<and> en_session_id e = c_session_id c \<and> en_enabled e
           \<and> en_revision e = c_enable_revision c
           \<and> \<not> (en_kept_revision e = en_revision e \<and> en_kept_epoch e = c_epoch c)) (context_enables d)) = 1"

definition keepEnableTx :: "cycleRow \<Rightarrow> db \<Rightarrow> db" where
  "keepEnableTx c d = d\<lparr>context_enables := update_where
     (\<lambda>e. en_family e = c_family c \<and> en_session_id e = c_session_id c \<and> en_revision e = c_enable_revision c)
     (\<lambda>e. e\<lparr>en_kept_epoch := c_epoch c, en_kept_revision := en_revision e, en_kept_read := False\<rparr>) (context_enables d)\<rparr>"

definition awaitingRead :: "db \<Rightarrow> Key \<Rightarrow> int \<Rightarrow> string \<Rightarrow> bool" where
  "awaitingRead d k enableRevision epoch \<longleftrightarrow>
     length (filter (\<lambda>e. en_family e = k_family k \<and> en_session_id e = k_id k \<and> en_enabled e
        \<and> en_revision e = enableRevision \<and> en_kept_revision e = en_revision e \<and> \<not> en_kept_read e
        \<and> (epoch = [] \<or> en_kept_epoch e = epoch)) (context_enables d)) = 1"

section \<open>The terminal outcome\<close>

text \<open>The mark of a kept Enable, which follows the terminal event beyond the bound.\<close>

definition kept_event :: "int \<Rightarrow> string \<Rightarrow> cycleRow \<times> db \<Rightarrow> kerror + (cycleRow \<times> db)" where
  "kept_event now reason cd = (case cd of (c, d) \<Rightarrow>
     let c' = c\<lparr>c_events := c_events c + 1\<rparr> in
     rbind (insert_event (event_row c' (c_events c') now ''enable_kept'' ''enable_kept'' reason) d) (\<lambda>d'. Inr (c', d')))"

definition finished :: "int \<Rightarrow> string \<Rightarrow> string \<Rightarrow> cycleRow \<Rightarrow> cycleRow" where
  "finished now outcome reason c = c\<lparr>c_revision := c_revision c + 1, c_state := outcome, c_reason := reason,
     c_outcome := outcome, c_updated_at := now, c_finished_at := now, c_credit := 0\<rparr>"

definition end_enable ::
  "int \<Rightarrow> string \<Rightarrow> bool \<Rightarrow> bool \<Rightarrow> (db \<Rightarrow> kerror + db) \<Rightarrow> cycleRow \<Rightarrow> db \<Rightarrow> kerror + db" where
  "end_enable now outcome keep keepTimeout carry c d =
     (if outcome = cycleComplete then carry d
      else if keep then Inr d
      else if keepTimeout then Inr (keepEnableTx c d)
      else Inr (disable now (c_family c) (c_session_id c) d))"

definition end_outcome :: "db \<Rightarrow> cycleRow \<Rightarrow> string \<Rightarrow> string" where
  "end_outcome d c outcome = (if outcome \<noteq> cycleComplete \<and> cycleUnproven d c then cycleUncertain else outcome)"

definition endCycleTx ::
  "int \<Rightarrow> cycleRow \<Rightarrow> string \<Rightarrow> string \<Rightarrow> (db \<Rightarrow> kerror + db) \<Rightarrow> db \<Rightarrow> kerror + (cycleRow \<times> db)" where
  "endCycleTx now c outcome0 reason carry d =
     (let outcome = end_outcome d c outcome0;
          keep = compactionKeepsEnable c reason;
          keepTimeout = readyTimeoutKeepsEnable d c outcome reason
      in rbind (cycleEvent c now outcome outcome reason d) (\<lambda>cd1.
         rbind (if keepTimeout then kept_event now reason cd1 else Inr cd1) (\<lambda>(c2, d2).
         let c3 = finished now outcome reason c2 in
         rbind (end_enable now outcome keep keepTimeout carry c3 (updateCycle c3 d2)) (\<lambda>d4.
         Inr (c3, cycleAudit now c3 outcome reason d4)))))"

definition endCycle :: "int \<Rightarrow> string \<Rightarrow> int \<Rightarrow> string \<Rightarrow> string \<Rightarrow> db \<Rightarrow> kerror + (cycleRow \<times> db)" where
  "endCycle now i revision outcome reason d =
     rbind (scanCycle d i) (\<lambda>c.
     if cycleTerminal (c_state c) \<or> (revision \<noteq> 0 \<and> c_revision c \<noteq> revision) then Inl ErrCycleChanged
     else endCycleTx now c outcome reason Inr d)"

fun end_cycles :: "int \<Rightarrow> string \<Rightarrow> cycleRow list \<Rightarrow> db \<Rightarrow> kerror + db" where
  "end_cycles now reason [] d = Inr d"
| "end_cycles now reason (c # cs) d =
     rbind (endCycleTx now c cycleCancelled reason Inr d) (\<lambda>(_, d'). end_cycles now reason cs d')"

definition fenceCyclesTx :: "int \<Rightarrow> string \<Rightarrow> (cycleRow \<Rightarrow> bool) \<Rightarrow> db \<Rightarrow> kerror + db" where
  "fenceCyclesTx now reason wher d =
     end_cycles now reason (filter (\<lambda>c. activeCycle c \<and> wher c) (context_cycles d)) d"

section \<open>Steps\<close>

definition cycleRequestedAt :: "db \<Rightarrow> cycleRow \<Rightarrow> int" where
  "cycleRequestedAt d c =
     (case map ce_at (filter (\<lambda>e. ce_cycle_id e = c_id c \<and> ce_stage e = cycleWaitingReady
             \<and> has_prefix (ce_reason e) ''not_idle.'') (context_cycle_events d)) of
        [] \<Rightarrow> c_created_at c
      | t # ts \<Rightarrow> fold max ts t)"

definition pickupPromptDeadline :: "db \<Rightarrow> cycleRow \<Rightarrow> kerror + int" where
  "pickupPromptDeadline d c =
     (let own = filter (\<lambda>e. ce_cycle_id e = c_id c) (context_cycle_events d);
          pickups = map ce_ordinal (filter (\<lambda>e. ce_stage e = cycleWaitingPickup) own)
      in case pickups of
           [] \<Rightarrow> Inl (ErrText ''pickup prompt wait without its first dialog'')
         | p # ps \<Rightarrow>
             (case map ce_at (filter (\<lambda>e. ce_stage e = cycleWaitingPrompt \<and> ce_ordinal e > fold min ps p) own) of
                [] \<Rightarrow> Inl (ErrText ''pickup prompt wait without its first dialog'')
              | t # ts \<Rightarrow> Inr (fold min ts t + cyclePromptWait)))"

definition stage_deadline :: "db \<Rightarrow> cycleRow \<Rightarrow> int \<Rightarrow> string \<Rightarrow> string \<Rightarrow> kerror + int" where
  "stage_deadline d c now from to =
     (if from = to then Inr (c_stage_deadline c)
      else if c_prompt_from c = cycleWaitingPickup \<and> (to = cycleWaitingPrompt \<or> to = cyclePromptIntent)
      then rbind (pickupPromptDeadline d c) (\<lambda>wait.
             Inr (if to = cyclePromptIntent then min (now + cycleReceiptWait) wait else wait))
      else Inr (
        if to = cycleWaitingReady then cycleRequestedAt d c + cycleReadyWait
        else if to = cycleWaitingPrompt then now + cyclePromptWait
        else if to = cycleCompactWaiting then c_created_at c + cycleReadyWait
        else if to = cycleCompactSent then now + cycleCompactConfirm
        else if to = cycleWaitingPickup then now + cyclePickupWait
        else now + cycleReceiptWait))"

definition advanceCycle ::
  "int \<Rightarrow> string \<Rightarrow> int \<Rightarrow> string \<Rightarrow> string \<Rightarrow> string \<Rightarrow> (db \<Rightarrow> cycleRow \<Rightarrow> int \<Rightarrow> kerror + unit)
    \<Rightarrow> (cycleRow \<Rightarrow> cycleRow) \<Rightarrow> db \<Rightarrow> kerror + (cycleRow \<times> db)" where
  "advanceCycle now i revision from to reason check change d =
     rbind (scanCycle d i) (\<lambda>c.
     if c_revision c \<noteq> revision \<or> c_state c \<noteq> from \<or> now \<ge> c_stage_deadline c \<or> now \<ge> c_cycle_deadline c
     then Inl ErrCycleChanged
     else if \<not> cycleEnabled d c then Inl ErrCycleChanged
     else rbind (check d c now) (\<lambda>_.
     if c_credit c < cycleStagePages + cycleTerminalPages then endCycle now i revision cycleFailed ''event_limit'' d
     else case cycleEvent c now to ''entered'' reason d of
         Inl e \<Rightarrow> if e = ErrCycleEventLimit then endCycle now i revision cycleFailed ''event_limit'' d else Inl e
       | Inr (c1, d1) \<Rightarrow>
           let c2 = c1\<lparr>c_revision := c_revision c1 + 1, c_credit := c_credit c1 - cycleStagePages,
                       c_state := to, c_reason := reason, c_updated_at := now\<rparr>
           in rbind (stage_deadline d1 c2 now from to) (\<lambda>dl.
              let c3 = change (c2\<lparr>c_stage_deadline := min dl (c_cycle_deadline c2)\<rparr>)
              in Inr (c3, cycleAudit now c3 to reason (updateCycle c3 d1)))))"

section \<open>Admission and the refusal slot\<close>

definition left_pad :: "nat \<Rightarrow> char \<Rightarrow> string \<Rightarrow> string" where
  "left_pad n c s = replicate (n - length s) c @ s"

definition refusalSlotWidth :: nat where "refusalSlotWidth = 96"

definition refusalSlot :: "int \<Rightarrow> string \<Rightarrow> string" where
  "refusalSlot revision code =
     left_pad 20 CHR ''0'' (show_int revision) @ '' '' @ code @ replicate (75 - length code) CHR '' ''"

definition writeRefusalSlot :: "cycleRow \<Rightarrow> string \<Rightarrow> db \<Rightarrow> db" where
  "writeRefusalSlot c code d =
     (if length code > 75 \<or> (\<exists>x\<in>set code. x \<in> {CHR '' '', char_of (9::nat), char_of (13::nat), char_of (10::nat)}) then d
      else d\<lparr>context_cycles := update_where
        (\<lambda>q. c_id q = c_id c \<and> c_state q = cycleWaitingReady \<and> c_revision q = c_revision c
           \<and> length (c_ready_refusal q) = refusalSlotWidth)
        (\<lambda>q. q\<lparr>c_ready_refusal := refusalSlot (c_revision c) code\<rparr>) (context_cycles d)\<rparr>)"

definition insertCycle :: "cycleRow \<Rightarrow> db \<Rightarrow> kerror + db" where
  "insertCycle c d = rbind (insert_row ErrConstraint (fresh_key c_id) (c\<lparr>c_ready_refusal := refusalSlot 0 []\<rparr>) (context_cycles d))
     (\<lambda>t. Inr (d\<lparr>context_cycles := t\<rparr>))"

text \<open>
  The end of \<open>admitContextCycle\<close>: the first event, the update of \<open>events\<close> and \<open>adapter_pin\<close>, and the
  audit record.
\<close>

definition admit_event :: "int \<Rightarrow> cycleRow \<Rightarrow> string \<Rightarrow> db \<Rightarrow> kerror + (cycleRow \<times> db)" where
  "admit_event now c pin d =
     rbind (cycleEvent c now cycleRequested ''admitted'' [] d) (\<lambda>(c1, d1).
       Inr (c1, cycleAudit now c1 ''requested'' [] (d1\<lparr>context_cycles := update_where (\<lambda>q. c_id q = c_id c1)
         (\<lambda>q. q\<lparr>c_events := c_events c1, c_adapter_pin := pin\<rparr>) (context_cycles d1)\<rparr>)))"

text \<open>The row that \<open>admitContextCycle\<close> inserts, from what the admission selected.\<close>

record admission =
  am_id :: string
  am_session :: Key
  am_peer :: string
  am_address :: string
  am_held :: bool
  am_host :: "int \<times> int \<times> string \<times> string"
  am_enable_revision :: int
  am_epoch :: string
  am_mode :: string
  am_threshold :: int
  am_used :: int
  am_limit :: int
  am_source_at :: int
  am_confirmed_at :: int
  am_message_seq :: int
  am_adapter :: string
  am_digest :: string

definition admitted_row :: "int \<Rightarrow> admission \<Rightarrow> cycleRow" where
  "admitted_row now a =
     (let (pid, start, socket, pane) = am_host a;
          compaction = am_mode a = ContextNativeCompaction
      in \<lparr>c_id = am_id a, c_credit = cycleCreditPages, c_held = am_held a, c_revision = 1,
          c_state = (if compaction then cycleCompactWaiting else cycleWaitingReady), c_prompt_from = [], c_reason = [],
          c_family = k_family (am_session a), c_session_id = k_id (am_session a), c_peer = am_peer a,
          c_address = am_address a, c_host_pid = pid, c_host_start = start, c_socket = socket, c_pane = pane,
          c_enable_revision = am_enable_revision a, c_epoch = am_epoch a, c_mode = am_mode a,
          c_threshold = am_threshold a, c_used = am_used a, c_limit = am_limit a, c_source_at = am_source_at a,
          c_confirmed_at = am_confirmed_at a, c_message_seq = (if compaction then 0 else am_message_seq a),
          c_created_at = now, c_updated_at = now, c_stage_deadline = now + cycleReadyWait,
          c_cycle_deadline = now + cycleLifetime, c_artifact = [], c_artifact_dev = 0, c_artifact_ino = 0,
          c_artifact_size = 0, c_artifact_mtime = 0, c_adapter = am_adapter a,
          c_catalog_digest = (if compaction then [] else am_digest a), c_successor_id = [], c_successor_epoch = [],
          c_outcome = [], c_report = [], c_events = 0, c_finished_at = 0, c_adapter_pin = [], c_ready_refusal = []\<rparr>)"

section \<open>The cycle machine\<close>

text \<open>
  Every write of a cycle: the stages that \<open>advanceCycle\<close> is called with, the changes that its callers
  make to the row, and the outcomes of \<open>endCycle\<close>.
\<close>

datatype stage = Waiting_Ready | Ready | Clear_Intent | Clear_Received | Reset_Verified | Pickup_Intent
  | Waiting_Pickup | Waiting_Prompt | Prompt_Intent | Bootstrap_Verified | Compact_Waiting | Compact_Intent | Compact_Sent

fun stage_name :: "stage \<Rightarrow> string" where
  "stage_name Waiting_Ready = cycleWaitingReady"
| "stage_name Ready = cycleReady"
| "stage_name Clear_Intent = cycleClearIntent"
| "stage_name Clear_Received = cycleClearReceived"
| "stage_name Reset_Verified = cycleResetVerified"
| "stage_name Pickup_Intent = cyclePickupIntent"
| "stage_name Waiting_Pickup = cycleWaitingPickup"
| "stage_name Waiting_Prompt = cycleWaitingPrompt"
| "stage_name Prompt_Intent = cyclePromptIntent"
| "stage_name Bootstrap_Verified = cycleBootstrapVerified"
| "stage_name Compact_Waiting = cycleCompactWaiting"
| "stage_name Compact_Intent = cycleCompactIntent"
| "stage_name Compact_Sent = cycleCompactSent"

datatype row_change = KeepRow | SetPromptFrom string | SetSuccessorEpoch string | SetArtifact string int int int int

fun apply_change :: "row_change \<Rightarrow> cycleRow \<Rightarrow> cycleRow" where
  "apply_change KeepRow c = c"
| "apply_change (SetPromptFrom p) c = c\<lparr>c_prompt_from := p\<rparr>"
| "apply_change (SetSuccessorEpoch e) c = c\<lparr>c_successor_epoch := e\<rparr>"
| "apply_change (SetArtifact name dev ino bytes mtime) c =
     c\<lparr>c_artifact := name, c_artifact_dev := dev, c_artifact_ino := ino, c_artifact_size := bytes, c_artifact_mtime := mtime\<rparr>"

datatype outcome = Complete | Cancelled | Failed | Uncertain

fun outcome_name :: "outcome \<Rightarrow> string" where
  "outcome_name Complete = cycleComplete"
| "outcome_name Cancelled = cycleCancelled"
| "outcome_name Failed = cycleFailed"
| "outcome_name Uncertain = cycleUncertain"

datatype cycle_op =
    AdmitCycle admission string
  | AdvanceCycle string int string stage string "db \<Rightarrow> cycleRow \<Rightarrow> int \<Rightarrow> kerror + unit" row_change
  | EndCycle string int outcome string
  | FenceCycles string "cycleRow \<Rightarrow> bool"
  | RefuseReady cycleRow string

definition admit_op :: "int \<Rightarrow> admission \<Rightarrow> string \<Rightarrow> db \<Rightarrow> kerror + db" where
  "admit_op now a pin d =
     rbind (insertCycle (admitted_row now a) d) (\<lambda>d1.
     rbind (admit_event now (admitted_row now a) pin d1) (\<lambda>(_, d2). Inr d2))"

fun cycle_step :: "cycle_op \<Rightarrow> int \<Rightarrow> db \<Rightarrow> kerror + db" where
  "cycle_step (AdmitCycle a pin) now d = admit_op now a pin d"
| "cycle_step (AdvanceCycle i revision from to reason check change) now d =
     rbind (advanceCycle now i revision from (stage_name to) reason check (apply_change change) d) (\<lambda>(_, d'). Inr d')"
| "cycle_step (EndCycle i revision outcome reason) now d =
     rbind (endCycle now i revision (outcome_name outcome) reason d) (\<lambda>(_, d'). Inr d')"
| "cycle_step (FenceCycles reason wher) now d = fenceCyclesTx now reason wher d"
| "cycle_step (RefuseReady c code) now d = Inr (writeRefusalSlot c code d)"

end
