(* ===== verification/Cycle_Safety.thy ===== *)
theory Cycle_Safety
  imports Cycle
begin

text \<open>
  What the cycle machine guarantees: exact credit and event accounting, a terminal outcome that is
  always possible and always funded, final outcomes, and uncertain ends for unproven inputs.
\<close>

section \<open>The invariant\<close>

definition row_ok :: "cycleRow \<Rightarrow> bool" where
  "row_ok c \<longleftrightarrow> 1 \<le> c_events c \<and> (if cycleTerminal (c_state c)
     then c_credit c = 0 \<and> c_events c \<le> maxCycleEvents + 1
     else c_events c < maxCycleEvents \<and> c_revision c = c_events c
       \<and> c_credit c = (maxCycleEvents - 1 - c_events c) * cycleStagePages + cycleTerminalPages
       \<and> c_stage_deadline c \<le> c_cycle_deadline c)"

definition ordinals :: "db \<Rightarrow> string \<Rightarrow> int set" where
  "ordinals d i = ce_ordinal ` {e \<in> set (context_cycle_events d). ce_cycle_id e = i}"

definition cycles_inv :: "db \<Rightarrow> bool" where
  "cycles_inv d \<longleftrightarrow> distinct (map c_id (context_cycles d))
     \<and> (\<forall>c\<in>set (context_cycles d). row_ok c \<and> ordinals d (c_id c) = {1..c_events c})
     \<and> (\<forall>e\<in>set (context_cycle_events d). \<exists>c\<in>set (context_cycles d). c_id c = ce_cycle_id e)"

lemma cycles_inv_row: "cycles_inv d \<Longrightarrow> c \<in> set (context_cycles d) \<Longrightarrow> row_ok c"
  by (simp add: cycles_inv_def)

lemma cycles_inv_ordinals: "cycles_inv d \<Longrightarrow> c \<in> set (context_cycles d) \<Longrightarrow> ordinals d (c_id c) = {1..c_events c}"
  by (simp add: cycles_inv_def)

lemma cycles_inv_key:
  "cycles_inv d \<Longrightarrow> c \<in> set (context_cycles d) \<Longrightarrow> q \<in> set (context_cycles d) \<Longrightarrow> c_id q = c_id c \<Longrightarrow> q = c"
  by (rule distinct_key_eq[where k = c_id]) (auto simp: cycles_inv_def)

lemma cycles_inv_cong:
  assumes "context_cycles d' = context_cycles d" "context_cycle_events d' = context_cycle_events d"
  shows "cycles_inv d' = cycles_inv d"
  using assms by (simp add: cycles_inv_def ordinals_def)

lemma ordinals_append:
  "context_cycle_events d' = context_cycle_events d @ es \<Longrightarrow>
    ordinals d' i = ordinals d i \<union> ce_ordinal ` {e \<in> set es. ce_cycle_id e = i}"
  by (auto simp: ordinals_def)

text \<open>One write of a cycle: its row replaced and the next events appended.\<close>

lemma cycles_inv_write:
  assumes inv: "cycles_inv d" and c: "c \<in> set (context_cycles d)"
    and cyc: "context_cycles d' = update_where (\<lambda>q. c_id q = c_id c) f (context_cycles d)"
    and f: "c_id (f c) = c_id c" "row_ok (f c)"
    and ev: "context_cycle_events d' = context_cycle_events d @ es"
    and es: "\<And>e. e \<in> set es \<Longrightarrow> ce_cycle_id e = c_id c" "ce_ordinal ` set es = {c_events c + 1..c_events (f c)}"
    and le: "c_events c \<le> c_events (f c)"
  shows "cycles_inv d'"
proof -
  have rows: "set (context_cycles d') = (\<lambda>q. if q = c then f c else q) ` set (context_cycles d)"
    unfolding cyc set_update_where using cycles_inv_key[OF inv c] by (intro image_cong refl) auto
  have ids: "map c_id (context_cycles d') = map c_id (context_cycles d)"
    unfolding cyc update_where_def using cycles_inv_key[OF inv c] f by auto
  have one: "1 \<le> c_events c" using cycles_inv_row[OF inv c] by (simp add: row_ok_def)
  have row: "row_ok q \<and> ordinals d' (c_id q) = {1..c_events q}" if q: "q \<in> set (context_cycles d')" for q
  proof -
    from q obtain p where p: "p \<in> set (context_cycles d)" "q = (if p = c then f c else p)" by (auto simp: rows)
    show ?thesis
    proof (cases "p = c")
      case True
      have "{e \<in> set es. ce_cycle_id e = c_id c} = set es" using es(1) by auto
      then have "ordinals d' (c_id c) = {1..c_events c} \<union> {c_events c + 1..c_events (f c)}"
        using es(2) cycles_inv_ordinals[OF inv c] by (simp add: ordinals_append[OF ev])
      also have "\<dots> = {1..c_events (f c)}" using le one by auto
      finally show ?thesis using True p f by simp
    next
      case False
      then have "{e \<in> set es. ce_cycle_id e = c_id p} = {}" using es(1) cycles_inv_key[OF inv c p(1)] by auto
      then have "ordinals d' (c_id p) = ordinals d (c_id p)" unfolding ordinals_append[OF ev] by auto
      then show ?thesis
        using False p cycles_inv_ordinals[OF inv p(1)] cycles_inv_row[OF inv p(1)] by simp
    qed
  qed
  have "\<exists>q\<in>set (context_cycles d'). c_id q = ce_cycle_id e" if "e \<in> set (context_cycle_events d')" for e
  proof -
    obtain p where "p \<in> set (context_cycles d)" "c_id p = ce_cycle_id e"
      using \<open>e \<in> set (context_cycle_events d')\<close> ev es(1) c inv by (auto simp: cycles_inv_def)
    then show ?thesis using f(1) by (intro bexI[of _ "if p = c then f c else p"]) (auto simp: rows)
  qed
  then show ?thesis
    using row ids inv by (simp add: cycles_inv_def)
qed

section \<open>What one operation writes\<close>

lemma set_columns_simps [simp]:
  "c_id (set_columns c q) = c_id q" "c_events (set_columns c q) = c_events c" "c_state (set_columns c q) = c_state c"
  "c_credit (set_columns c q) = c_credit c" "c_revision (set_columns c q) = c_revision c"
  "c_cycle_deadline (set_columns c q) = c_cycle_deadline q" "c_stage_deadline (set_columns c q) = c_stage_deadline c"
  by (simp_all add: set_columns_def)

lemma event_row_simps [simp]:
  "ce_cycle_id (event_row c n now st rs r) = c_id c" "ce_ordinal (event_row c n now st rs r) = n"
  by (simp_all add: event_row_def)

lemma insert_event_Inr: "insert_event e d = Inr d' \<Longrightarrow> d' = d\<lparr>context_cycle_events := context_cycle_events d @ [e]\<rparr>"
  by (auto simp: insert_event_def)

lemma cycleEvent_Inr:
  assumes "cycleEvent c now stage result reason d = Inr (c', d')"
  shows "c' = c\<lparr>c_events := c_events c + 1\<rparr>
    \<and> d' = d\<lparr>context_cycle_events := context_cycle_events d @ [event_row c (c_events c + 1) now stage result reason]\<rparr>
    \<and> (cycleTerminal stage \<or> c_events c < maxCycleEvents - 1)"
  using assms by (auto simp: cycleEvent_def Let_def event_row_def dest!: insert_event_Inr split: if_splits)

lemma table_simps_cycle [simp]:
  "context_cycles (cycleAudit now c r s d) = context_cycles d"
  "context_cycle_events (cycleAudit now c r s d) = context_cycle_events d"
  "context_cycles (disable now f i d) = context_cycles d"
  "context_cycle_events (disable now f i d) = context_cycle_events d"
  "context_cycles (keepEnableTx c d) = context_cycles d"
  "context_cycle_events (keepEnableTx c d) = context_cycle_events d"
  "context_cycle_events (updateCycle c d) = context_cycle_events d"
  by (simp_all add: cycleAudit_def disable_def keepEnableTx_def updateCycle_def)

definition keeps_cycles :: "(db \<Rightarrow> 'e + db) \<Rightarrow> bool" where
  "keeps_cycles carry \<longleftrightarrow> (\<forall>d d'. carry d = Inr d' \<longrightarrow> context_cycles d' = context_cycles d
     \<and> context_cycle_events d' = context_cycle_events d)"

lemma keeps_cycles_Inr [simp]: "keeps_cycles Inr"
  by (simp add: keeps_cycles_def)

lemma kept_event_Inr:
  assumes "kept_event now reason (c, d) = Inr (c', d')"
  shows "c' = c\<lparr>c_events := c_events c + 1\<rparr> \<and> d' = d\<lparr>context_cycle_events := context_cycle_events d
    @ [event_row c (c_events c + 1) now ''enable_kept'' ''enable_kept'' reason]\<rparr>"
  using assms by (auto simp: kept_event_def Let_def event_row_def dest!: insert_event_Inr)

lemma end_enable_cycles:
  assumes "end_enable now oc keep keepTimeout carry c d = Inr d'" "keeps_cycles carry"
  shows "context_cycles d' = context_cycles d \<and> context_cycle_events d' = context_cycle_events d"
  using assms by (auto simp: end_enable_def keeps_cycles_def split: if_splits)

lemma finished_simps [simp]:
  "c_id (finished now oc reason c) = c_id c" "c_events (finished now oc reason c) = c_events c"
  "c_credit (finished now oc reason c) = 0" "c_state (finished now oc reason c) = oc"
  "c_outcome (finished now oc reason c) = oc" "c_finished_at (finished now oc reason c) = now"
  "c_cycle_deadline (finished now oc reason c) = c_cycle_deadline c"
  "c_revision (finished now oc reason c) = c_revision c + 1"
  by (simp_all add: finished_def)

text \<open>Appended events of a cycle: the next ordinals, without a gap.\<close>

definition next_events :: "cycleRow \<Rightarrow> int \<Rightarrow> cycleEventRow list \<Rightarrow> bool" where
  "next_events c n es \<longleftrightarrow> (\<forall>e\<in>set es. ce_cycle_id e = c_id c) \<and> ce_ordinal ` set es = {c_events c + 1..n}"

lemma next_events_one: "next_events c (c_events c + 1) [event_row c (c_events c + 1) now st rs r]"
  by (auto simp: next_events_def event_row_def)

lemma next_events_two:
  "next_events c (c_events c + 2) [event_row c (c_events c + 1) now st rs r,
     event_row (c\<lparr>c_events := c_events c + 1\<rparr>) (c_events c + 2) now' st' rs' r']"
  by (auto simp: next_events_def event_row_def)

lemma endCycleTx_writes:
  assumes r: "endCycleTx now c oc reason carry d = Inr (c', d')" and k: "keeps_cycles carry"
  shows "c_id c' = c_id c \<and> c_credit c' = 0 \<and> c_outcome c' = c_state c' \<and> c_finished_at c' = now
      \<and> c_state c' = end_outcome d c oc \<and> c_revision c' = c_revision c + 1"
    and "context_cycles d' = update_where (\<lambda>q. c_id q = c_id c) (set_columns c') (context_cycles d)"
    and "\<exists>es. context_cycle_events d' = context_cycle_events d @ es \<and> next_events c (c_events c') es
        \<and> c_events c < c_events c' \<and> c_events c' \<le> c_events c + 2"
proof -
  obtain c1 d1 c2 d2 d4 where ev: "cycleEvent c now (end_outcome d c oc) (end_outcome d c oc) reason d = Inr (c1, d1)"
    and kt: "(if readyTimeoutKeepsEnable d c (end_outcome d c oc) reason then kept_event now reason (c1, d1) else Inr (c1, d1)) = Inr (c2, d2)"
    and c': "c' = finished now (end_outcome d c oc) reason c2"
    and d4: "end_enable now (end_outcome d c oc) (compactionKeepsEnable c reason)
       (readyTimeoutKeepsEnable d c (end_outcome d c oc) reason) carry c' (updateCycle c' d2) = Inr d4"
    and d': "d' = cycleAudit now c' (end_outcome d c oc) reason d4"
    using r unfolding endCycleTx_def Let_def by auto
  note e1 = cycleEvent_Inr[OF ev]
  have es: "c_id c2 = c_id c \<and> c_revision c2 = c_revision c \<and> context_cycles d2 = context_cycles d \<and> (\<exists>es. context_cycle_events d2 = context_cycle_events d @ es
      \<and> next_events c (c_events c2) es \<and> c_events c < c_events c2 \<and> c_events c2 \<le> c_events c + 2)"
  proof (cases "readyTimeoutKeepsEnable d c (end_outcome d c oc) reason")
    case True
    then have "kept_event now reason (c1, d1) = Inr (c2, d2)" using kt by simp
    from kept_event_Inr[OF this] e1 show ?thesis
      using next_events_two[of c now] by (auto simp: algebra_simps)
  next
    case False
    then show ?thesis using kt e1 next_events_one[of c now] by auto
  qed
  note t = end_enable_cycles[OF d4 k]
  show "c_id c' = c_id c \<and> c_credit c' = 0 \<and> c_outcome c' = c_state c' \<and> c_finished_at c' = now
      \<and> c_state c' = end_outcome d c oc \<and> c_revision c' = c_revision c + 1"
    using es by (simp add: c')
  show "context_cycles d' = update_where (\<lambda>q. c_id q = c_id c) (set_columns c') (context_cycles d)"
    using es t by (simp add: d' c' updateCycle_def)
  show "\<exists>es. context_cycle_events d' = context_cycle_events d @ es \<and> next_events c (c_events c') es
        \<and> c_events c < c_events c' \<and> c_events c' \<le> c_events c + 2"
    using es t by (simp add: d' c')
qed

section \<open>The machine keeps the invariant\<close>

lemma stage_name_active [simp]: "\<not> cycleTerminal (stage_name st)"
  by (cases st) (simp_all add: cycleTerminal_def)

lemma outcome_name_terminal: "cycleTerminal (outcome_name oc)"
  by (cases oc) (simp_all add: cycleTerminal_def)

lemma end_outcome_terminal: "cycleTerminal oc \<Longrightarrow> cycleTerminal (end_outcome d c oc)"
  by (simp add: end_outcome_def cycleTerminal_def)

lemma scanCycle_Inr: "scanCycle d i = Inr c \<Longrightarrow> c \<in> set (context_cycles d) \<and> c_id c = i"
  by (auto simp: scanCycle_def dest: find_Some_mem)

lemma endCycleTx_inv:
  assumes inv: "cycles_inv d" and c: "c \<in> set (context_cycles d)" and act: "\<not> cycleTerminal (c_state c)"
    and oc: "cycleTerminal oc" and r: "endCycleTx now c oc reason carry d = Inr (c', d')" and k: "keeps_cycles carry"
  shows "cycles_inv d'"
proof -
  note w = endCycleTx_writes[OF r k]
  obtain es where es: "context_cycle_events d' = context_cycle_events d @ es" "next_events c (c_events c') es"
    "c_events c < c_events c'" "c_events c' \<le> c_events c + 2" using w(3) by blast
  have ok: "row_ok c" by (rule cycles_inv_row[OF inv c])
  show ?thesis
  proof (rule cycles_inv_write[OF inv c w(2) _ _ es(1)])
    show "row_ok (set_columns c' c)"
      using w(1) es(3,4) ok act end_outcome_terminal[OF oc] by (auto simp: row_ok_def)
    show "ce_ordinal ` set es = {c_events c + 1..c_events (set_columns c' c)}"
      using es(2) by (simp add: next_events_def)
  qed (use es in \<open>auto simp: next_events_def\<close>)
qed

lemma endCycle_inv:
  assumes "cycles_inv d" "cycleTerminal oc" "endCycle now i revision oc reason d = Inr (c', d')"
  shows "cycles_inv d'"
proof -
  obtain c where c: "scanCycle d i = Inr c" "\<not> cycleTerminal (c_state c)" "endCycleTx now c oc reason Inr d = Inr (c', d')"
    using assms(3) by (cases "scanCycle d i") (simp_all add: endCycle_def split: if_splits)
  then show ?thesis using endCycleTx_inv[OF assms(1) _ c(2) assms(2) c(3)] scanCycle_Inr by simp
qed

lemma advanceCycle_cases:
  assumes "advanceCycle now i revision from to reason check change d = Inr (c', d')"
  obtains (ended) "endCycle now i revision cycleFailed ''event_limit'' d = Inr (c', d')"
  | (moved) c c1 d1 dl where "scanCycle d i = Inr c" "c_state c = from" "c_revision c = revision"
      "now < c_stage_deadline c" "now < c_cycle_deadline c" "cycleEnabled d c" "check d c now = Inr ()"
      "c_credit c \<ge> cycleStagePages + cycleTerminalPages"
      "cycleEvent c now to ''entered'' reason d = Inr (c1, d1)"
      "c' = change (c1\<lparr>c_revision := c_revision c1 + 1, c_credit := c_credit c1 - cycleStagePages,
         c_state := to, c_reason := reason, c_updated_at := now, c_stage_deadline := min dl (c_cycle_deadline c1)\<rparr>)"
      "d' = cycleAudit now c' to reason (updateCycle c' d1)"
proof -
  obtain c where c: "scanCycle d i = Inr c"
    using assms by (cases "scanCycle d i") (simp_all add: advanceCycle_def)
  note a = assms[unfolded advanceCycle_def c rbind_simps]
  have g: "c_revision c = revision" "c_state c = from" "now < c_stage_deadline c" "now < c_cycle_deadline c" "cycleEnabled d c"
    using a by (simp_all split: if_splits)
  have k: "check d c now = Inr ()"
    using a g by (cases "check d c now") simp_all
  note a' = a[simplified g k, simplified]
  show ?thesis
  proof (cases "c_credit c < cycleStagePages + cycleTerminalPages")
    case True
    then show ?thesis using a' g by (intro ended) simp
  next
    case False
    show ?thesis
    proof (cases "cycleEvent c now to ''entered'' reason d")
      case (Inl e)
      then show ?thesis using a' False g by (intro ended) (simp split: if_splits)
    next
      case (Inr x)
      obtain c1 d1 where x: "x = (c1, d1)" by (cases x)
      show ?thesis
        using a' False g Inr x by (auto simp: Let_def c k intro!: moved)
    qed
  qed
qed

lemma apply_change_simps [simp]:
  "c_id (apply_change ch c) = c_id c" "c_events (apply_change ch c) = c_events c" "c_state (apply_change ch c) = c_state c"
  "c_credit (apply_change ch c) = c_credit c" "c_revision (apply_change ch c) = c_revision c"
  "c_stage_deadline (apply_change ch c) = c_stage_deadline c" "c_cycle_deadline (apply_change ch c) = c_cycle_deadline c"
  by (cases ch; simp)+

lemma advanceCycle_inv:
  assumes inv: "cycles_inv d"
    and r: "advanceCycle now i revision from (stage_name to) reason check (apply_change ch) d = Inr (c', d')"
  shows "cycles_inv d'"
  using r
proof (cases rule: advanceCycle_cases)
  case ended
  show ?thesis using endCycle_inv[OF inv _ ended] by (simp add: cycleTerminal_def)
next
  case (moved c c1 d1 dl)
  note e = cycleEvent_Inr[OF moved(9)]
  have c: "c \<in> set (context_cycles d)" using scanCycle_Inr[OF moved(1)] by simp
  have ok: "row_ok c" "\<not> cycleTerminal (c_state c)"
    using cycles_inv_row[OF inv c] moved(8) by (auto simp: row_ok_def cycleStagePages_def cycleTerminalPages_def)
  have c': "c_id c' = c_id c" "c_events c' = c_events c + 1" using moved(10) e by simp_all
  have d': "context_cycles d' = update_where (\<lambda>q. c_id q = c_id c) (set_columns c') (context_cycles d)"
    using moved(11) e c' by (simp add: updateCycle_def)
  show ?thesis
  proof (rule cycles_inv_write[OF inv c d', where es = "[event_row c (c_events c + 1) now (stage_name to) ''entered'' reason]"])
    show "row_ok (set_columns c' c)"
      using ok moved(10) e by (auto simp: row_ok_def maxCycleEvents_def cycleStagePages_def cycleTerminalPages_def)
    show "context_cycle_events d' = context_cycle_events d @ [event_row c (c_events c + 1) now (stage_name to) ''entered'' reason]"
      using moved(11) e by simp
  qed (auto simp: event_row_def c')
qed

lemma end_cycles_inv:
  assumes "cycles_inv d" "set cs \<subseteq> set (context_cycles d)" "distinct (map c_id cs)" "\<forall>c\<in>set cs. activeCycle c"
    "end_cycles now reason cs d = Inr d'"
  shows "cycles_inv d'"
  using assms
proof (induction cs arbitrary: d)
  case Nil
  then show ?case by simp
next
  case (Cons c cs)
  from Cons.prems(5) obtain c1 d1 where r: "endCycleTx now c cycleCancelled reason Inr d = Inr (c1, d1)"
    and rest: "end_cycles now reason cs d1 = Inr d'" by auto
  have inv: "cycles_inv d1"
    using endCycleTx_inv[OF Cons.prems(1) _ _ _ r] Cons.prems(2,4) by (auto simp: activeCycle_def cycleTerminal_def)
  have "q \<in> set (context_cycles d1)" if "q \<in> set cs" for q
  proof -
    have "c_id q \<noteq> c_id c" "q \<in> set (context_cycles d)" using that Cons.prems(2,3) by (auto simp: image_iff)
    then show ?thesis using endCycleTx_writes(2)[OF r] by (force simp: in_update_where)
  qed
  then show ?case using Cons.IH[OF inv _ _ _ rest] Cons.prems(3,4) by auto
qed

lemma fenceCyclesTx_inv: "cycles_inv d \<Longrightarrow> fenceCyclesTx now reason wher d = Inr d' \<Longrightarrow> cycles_inv d'"
  unfolding fenceCyclesTx_def by (erule (1) end_cycles_inv[rotated 4]) (auto simp: cycles_inv_def distinct_map_filter)

lemma row_ok_refusal [simp]: "row_ok (c\<lparr>c_ready_refusal := x\<rparr>) = row_ok c"
  by (simp add: row_ok_def)

lemma writeRefusalSlot_inv: "cycles_inv d \<Longrightarrow> cycles_inv (writeRefusalSlot c code d)"
proof (cases "length code > 75 \<or> (\<exists>x\<in>set code. x \<in> {CHR '' '', char_of (9::nat), char_of (13::nat), char_of (10::nat)})")
  case False
  assume inv: "cycles_inv d"
  let ?f = "\<lambda>q. q\<lparr>c_ready_refusal := refusalSlot (c_revision c) code\<rparr>"
  have maps: "map c_id (update_where P ?f t) = map c_id t" for P t by (rule map_update_where) simp
  have rows: "\<exists>p\<in>set t. c_id q = c_id p \<and> c_events q = c_events p \<and> row_ok q = row_ok p" if "q \<in> set (update_where P ?f t)" for P t q
  proof -
    from that obtain p where "p \<in> set t" "q = (if P p then ?f p else p)" by (auto simp: in_update_where)
    then show ?thesis by (intro bexI[of _ p]) auto
  qed
  have ids: "\<exists>q\<in>set (update_where P ?f t). c_id q = c_id p" if "p \<in> set t" for P t p
    using that by (intro bexI[of _ "if P p then ?f p else p"]) (auto simp: in_update_where)
  define d' where "d' = writeRefusalSlot c code d"
  obtain P where d': "context_cycles d' = update_where P ?f (context_cycles d)" "context_cycle_events d' = context_cycle_events d"
    using False by (auto simp: d'_def writeRefusalSlot_def)
  have "row_ok q \<and> ordinals d' (c_id q) = {1..c_events q}" if "q \<in> set (context_cycles d')" for q
  proof -
    obtain p where "p \<in> set (context_cycles d)" "c_id q = c_id p" "c_events q = c_events p" "row_ok q = row_ok p"
      using rows \<open>q \<in> set (context_cycles d')\<close> d'(1) by metis
    then show ?thesis using cycles_inv_row[OF inv] cycles_inv_ordinals[OF inv] d'(2) by (simp add: ordinals_def)
  qed
  moreover have "\<exists>q\<in>set (context_cycles d'). c_id q = ce_cycle_id e" if e: "e \<in> set (context_cycle_events d')" for e
  proof -
    obtain p where "p \<in> set (context_cycles d)" "c_id p = ce_cycle_id e"
      using inv e d'(2) by (auto simp: cycles_inv_def)
    then show ?thesis using ids[of p "context_cycles d" P] d'(1) by simp
  qed
  ultimately show "cycles_inv (writeRefusalSlot c code d)"
    using inv unfolding d'_def[symmetric] by (simp add: cycles_inv_def d'(1) maps)
qed (auto simp: writeRefusalSlot_def)

lemma admit_op_inv:
  assumes inv: "cycles_inv d" and r: "admit_op now a pin d = Inr d'"
  shows "cycles_inv d'"
proof -
  define c where "c = admitted_row now a"
  have c: "c_events c = 0" "c_revision c = 1" "c_credit c = cycleCreditPages" "\<not> cycleTerminal (c_state c)"
    "c_stage_deadline c \<le> c_cycle_deadline c" "c_id c = am_id a"
    by (auto simp: c_def admitted_row_def Let_def cycleTerminal_def cycleReadyWait_def cycleLifetime_def split: prod.splits)
  obtain c1 d1 d2 where ins: "insertCycle c d = Inr d1" and ev: "cycleEvent c now cycleRequested ''admitted'' [] d1 = Inr (c1, d2)"
    and d': "d' = cycleAudit now c1 ''requested'' [] (d2\<lparr>context_cycles := update_where (\<lambda>q. c_id q = c_id c1)
         (\<lambda>q. q\<lparr>c_events := c_events c1, c_adapter_pin := pin\<rparr>) (context_cycles d2)\<rparr>)"
    using r by (auto simp: admit_op_def admit_event_def c_def)
  have d1: "d1 = d\<lparr>context_cycles := context_cycles d @ [c\<lparr>c_ready_refusal := refusalSlot 0 []\<rparr>]\<rparr>"
    and fresh: "\<forall>q\<in>set (context_cycles d). c_id q \<noteq> c_id c"
    using ins by (auto simp: insertCycle_def fresh_key_def)
  note e = cycleEvent_Inr[OF ev]
  let ?n = "c\<lparr>c_ready_refusal := refusalSlot 0 [], c_events := 1, c_adapter_pin := pin\<rparr>"
  have rows: "context_cycles d' = context_cycles d @ [?n]"
    using e d1 fresh c by (auto simp: d' update_where_def intro!: map_idI)
  have evs: "context_cycle_events d' = context_cycle_events d @ [event_row c 1 now cycleRequested ''admitted'' []]"
    using e d1 c by (simp add: d')
  have none: "ordinals d (c_id c) = {}" using fresh inv by (auto simp: ordinals_def cycles_inv_def)
  have row: "row_ok q \<and> ordinals d' (c_id q) = {1..c_events q}" if "q \<in> set (context_cycles d')" for q
  proof (cases "q = ?n")
    case True
    have "row_ok ?n"
      using c by (simp add: row_ok_def maxCycleEvents_def cycleCreditPages_def cycleFundedStages_def)
    moreover have "ordinals d' (c_id c) = {1}"
      unfolding ordinals_append[OF evs] none by auto
    ultimately show ?thesis using True by simp
  next
    case False
    then have q: "q \<in> set (context_cycles d)" "c_id q \<noteq> c_id c" using that rows fresh by auto
    then have "ordinals d' (c_id q) = ordinals d (c_id q)" by (auto simp: ordinals_append[OF evs])
    then show ?thesis using cycles_inv_row[OF inv q(1)] cycles_inv_ordinals[OF inv q(1)] by simp
  qed
  have "\<exists>q\<in>set (context_cycles d'). c_id q = ce_cycle_id e" if "e \<in> set (context_cycle_events d')" for e
    using that inv by (auto simp: evs rows cycles_inv_def)
  moreover have "distinct (map c_id (context_cycles d'))" using inv fresh by (auto simp: rows cycles_inv_def image_iff)
  ultimately show ?thesis using row by (simp add: cycles_inv_def)
qed

section \<open>Rows only grow\<close>

text \<open>The row without the refusal slot, which a refused report overwrites in place.\<close>

definition core_row :: "cycleRow \<Rightarrow> cycleRow" where
  "core_row c = c\<lparr>c_ready_refusal := []\<rparr>"

definition grows :: "cycleRow \<Rightarrow> cycleRow \<Rightarrow> bool" where
  "grows c c' \<longleftrightarrow> c_id c' = c_id c \<and> c_cycle_deadline c' = c_cycle_deadline c
     \<and> (cycleTerminal (c_state c) \<longrightarrow> c' = c)
     \<and> (c_revision c < c_revision c' \<and> c_events c < c_events c' \<or> core_row c' = core_row c)"

definition cycles_le :: "db \<Rightarrow> db \<Rightarrow> bool" where
  "cycles_le d d' \<longleftrightarrow> (cycles_inv d \<longrightarrow> cycles_inv d' \<and> (\<forall>c\<in>set (context_cycles d). \<exists>c'\<in>set (context_cycles d'). grows c c'))"

lemma grows_refl [simp]: "grows c c"
  by (simp add: grows_def)

lemma core_row_simps: "c_revision (core_row c) = c_revision c" "c_events (core_row c) = c_events c"
  by (simp_all add: core_row_def)

lemma core_row_eq: "core_row c' = core_row c \<Longrightarrow> c_revision c' = c_revision c \<and> c_events c' = c_events c"
  by (metis core_row_simps)

lemma grows_trans: "grows a b \<Longrightarrow> grows b c \<Longrightarrow> grows a c"
  using core_row_eq[of b a] core_row_eq[of c b] unfolding grows_def by (metis dual_order.strict_trans)

lemma cycles_le_write:
  assumes inv: "cycles_inv d" and c: "c \<in> set (context_cycles d)"
    and cyc: "context_cycles d' = update_where (\<lambda>q. c_id q = c_id c) f (context_cycles d)"
    and g: "grows c (f c)" and inv': "cycles_inv d'"
  shows "cycles_le d d'"
proof -
  have "\<exists>q'\<in>set (context_cycles d'). grows q q'" if q: "q \<in> set (context_cycles d)" for q
  proof (cases "c_id q = c_id c")
    case True
    then have "q = c" using cycles_inv_key[OF inv c q] by simp
    then show ?thesis using g c by (intro bexI[of _ "f c"]) (auto simp: cyc in_update_where)
  next
    case False
    then show ?thesis using q by (intro bexI[of _ q]) (auto simp: cyc in_update_where)
  qed
  then show ?thesis using inv' by (simp add: cycles_le_def)
qed

lemma cycles_le_refl: "cycles_le d d"
  unfolding cycles_le_def using grows_refl by blast

lemma cycles_le_trans: "cycles_le a b \<Longrightarrow> cycles_le b c \<Longrightarrow> cycles_le a c"
  unfolding cycles_le_def using grows_trans by metis

lemma cycles_leI: "(cycles_inv d \<Longrightarrow> cycles_le d d') \<Longrightarrow> cycles_le d d'"
  by (auto simp: cycles_le_def)

lemma endCycleTx_le:
  assumes c: "c \<in> set (context_cycles d)" "\<not> cycleTerminal (c_state c)" and oc: "cycleTerminal oc"
    and r: "endCycleTx now c oc reason carry d = Inr (c', d')" and k: "keeps_cycles carry"
  shows "cycles_le d d'"
proof (rule cycles_leI)
  assume inv: "cycles_inv d"
  note w = endCycleTx_writes[OF r k]
  have "grows c (set_columns c' c)" using w(1,3) c(2) by (auto simp: grows_def)
  then show ?thesis
    by (rule cycles_le_write[OF inv c(1) w(2)]) (rule endCycleTx_inv[OF inv c oc r k])
qed

lemma endCycle_le:
  assumes "cycleTerminal oc" "endCycle now i revision oc reason d = Inr (c', d')"
  shows "cycles_le d d'"
proof -
  obtain c where c: "scanCycle d i = Inr c" "\<not> cycleTerminal (c_state c)" "endCycleTx now c oc reason Inr d = Inr (c', d')"
    using assms(2) by (cases "scanCycle d i") (simp_all add: endCycle_def split: if_splits)
  then show ?thesis using endCycleTx_le[OF _ c(2) assms(1) c(3)] scanCycle_Inr by simp
qed

lemma advanceCycle_le:
  assumes r: "advanceCycle now i revision from (stage_name to) reason check (apply_change ch) d = Inr (c', d')"
  shows "cycles_le d d'"
proof (rule cycles_leI)
  assume inv: "cycles_inv d"
  show ?thesis
    using r
  proof (cases rule: advanceCycle_cases)
    case ended
    show ?thesis using endCycle_le[OF _ ended] by (simp add: cycleTerminal_def)
  next
    case (moved c c1 d1 dl)
    note e = cycleEvent_Inr[OF moved(9)]
    have c: "c \<in> set (context_cycles d)" using scanCycle_Inr[OF moved(1)] by simp
    have act: "\<not> cycleTerminal (c_state c)"
      using cycles_inv_row[OF inv c] moved(8) by (auto simp: row_ok_def cycleStagePages_def cycleTerminalPages_def)
    have c': "c_id c' = c_id c" "c_events c' = c_events c + 1" "c_revision c' = c_revision c + 1" using moved(10) e by simp_all
    have d': "context_cycles d' = update_where (\<lambda>q. c_id q = c_id c) (set_columns c') (context_cycles d)"
      using moved(11) e c' by (simp add: updateCycle_def)
    have "grows c (set_columns c' c)" using act c' by (simp add: grows_def)
    then show ?thesis by (rule cycles_le_write[OF inv c d']) (rule advanceCycle_inv[OF inv r])
  qed
qed

lemma end_cycles_le:
  assumes "cycles_inv d" "set cs \<subseteq> set (context_cycles d)" "distinct (map c_id cs)" "\<forall>c\<in>set cs. activeCycle c"
    "end_cycles now reason cs d = Inr d'"
  shows "cycles_le d d'"
  using assms
proof (induction cs arbitrary: d)
  case Nil
  then show ?case by (simp add: cycles_le_refl)
next
  case (Cons c cs)
  from Cons.prems(5) obtain c1 d1 where r: "endCycleTx now c cycleCancelled reason Inr d = Inr (c1, d1)"
    and rest: "end_cycles now reason cs d1 = Inr d'" by auto
  have le: "cycles_le d d1"
    using endCycleTx_le[OF _ _ _ r] Cons.prems(2,4) by (auto simp: activeCycle_def cycleTerminal_def)
  then have inv: "cycles_inv d1" using Cons.prems(1) by (simp add: cycles_le_def)
  have "q \<in> set (context_cycles d1)" if "q \<in> set cs" for q
  proof -
    have "c_id q \<noteq> c_id c" "q \<in> set (context_cycles d)" using that Cons.prems(2,3) by (auto simp: image_iff)
    then show ?thesis using endCycleTx_writes(2)[OF r] by (force simp: in_update_where)
  qed
  then show ?case using Cons.IH[OF inv _ _ _ rest] Cons.prems(3,4) cycles_le_trans[OF le] by auto
qed

lemma fenceCyclesTx_le: "fenceCyclesTx now reason wher d = Inr d' \<Longrightarrow> cycles_le d d'"
  unfolding fenceCyclesTx_def
  by (rule cycles_leI, erule end_cycles_le[rotated 4]) (auto simp: cycles_inv_def distinct_map_filter activeCycle_def)

lemma writeRefusalSlot_le: "cycles_le d (writeRefusalSlot c code d)"
proof -
  have "\<exists>q'\<in>set (context_cycles (writeRefusalSlot c code d)). grows q q'" if "q \<in> set (context_cycles d)" for q
  proof (cases "q \<in> set (context_cycles (writeRefusalSlot c code d))")
    case True
    then show ?thesis by (intro bexI[of _ q]) simp
  next
    case False
    let ?q = "q\<lparr>c_ready_refusal := refusalSlot (c_revision c) code\<rparr>"
    have "?q \<in> set (context_cycles (writeRefusalSlot c code d))" "c_state q = cycleWaitingReady"
      using False that by (auto simp: writeRefusalSlot_def in_update_where split: if_splits)
    then show ?thesis by (intro bexI[of _ ?q]) (auto simp: grows_def core_row_def cycleTerminal_def)
  qed
  then show ?thesis using writeRefusalSlot_inv by (auto simp: cycles_le_def)
qed

lemma admit_op_rows:
  assumes "admit_op now a pin d = Inr d'" shows "\<exists>n. context_cycles d' = context_cycles d @ [n]"
proof -
  define c where "c = admitted_row now a"
  obtain c1 d1 d2 where ins: "insertCycle c d = Inr d1" and ev: "cycleEvent c now cycleRequested ''admitted'' [] d1 = Inr (c1, d2)"
    and d': "context_cycles d' = update_where (\<lambda>q. c_id q = c_id c1)
         (\<lambda>q. q\<lparr>c_events := c_events c1, c_adapter_pin := pin\<rparr>) (context_cycles d2)"
    using assms by (auto simp: admit_op_def admit_event_def c_def)
  have d1: "d1 = d\<lparr>context_cycles := context_cycles d @ [c\<lparr>c_ready_refusal := refusalSlot 0 []\<rparr>]\<rparr>"
    and fresh: "\<forall>q\<in>set (context_cycles d). c_id q \<noteq> c_id c"
    using ins by (auto simp: insertCycle_def fresh_key_def)
  have "context_cycles d' = context_cycles d @ [(\<lambda>q. q\<lparr>c_events := c_events c1, c_adapter_pin := pin\<rparr>) (c\<lparr>c_ready_refusal := refusalSlot 0 []\<rparr>)]"
    using cycleEvent_Inr[OF ev] d1 fresh unfolding d' by (auto simp: update_where_def intro!: map_idI)
  then show ?thesis by blast
qed

lemma admit_op_le: "admit_op now a pin d = Inr d' \<Longrightarrow> cycles_le d d'"
  unfolding cycles_le_def using admit_op_inv[of d now a pin d'] admit_op_rows[of now a pin d d'] grows_refl by fastforce

lemma cycle_step_le: "cycle_step op now d = Inr d' \<Longrightarrow> cycles_le d d'"
  by (cases op) (auto intro: admit_op_le advanceCycle_le endCycle_le[OF outcome_name_terminal] fenceCyclesTx_le writeRefusalSlot_le)

interpretation cycle_machine: monotone_machine cycle_step cycles_le
  by unfold_locales (auto intro: cycles_le_refl cycles_le_trans cycle_step_le)

section \<open>The terminal outcome is always possible and funded\<close>

lemma insert_event_fresh:
  assumes "n \<notin> ordinals d (c_id c)"
  shows "insert_event (event_row c n now st rs r) d = Inr (d\<lparr>context_cycle_events := context_cycle_events d @ [event_row c n now st rs r]\<rparr>)"
  using assms by (auto simp: insert_event_def insert_row_def fresh_key_def ordinals_def event_row_def)

lemma event_row_events [simp]: "event_row (c\<lparr>c_events := n\<rparr>) = event_row c"
  by (simp add: event_row_def fun_eq_iff)

lemma endCycleTx_ok:
  assumes inv: "cycles_inv d" and c: "c \<in> set (context_cycles d)" and oc: "cycleTerminal oc"
  shows "\<exists>c' d'. endCycleTx now c oc reason Inr d = Inr (c', d')"
proof -
  let ?o = "end_outcome d c oc" and ?n = "c_events c"
  let ?c1 = "c\<lparr>c_events := ?n + 1\<rparr>"
  let ?d1 = "d\<lparr>context_cycle_events := context_cycle_events d @ [event_row c (?n + 1) now ?o ?o reason]\<rparr>"
  have "?n + 1 \<notin> ordinals d (c_id c)" using cycles_inv_ordinals[OF inv c] by simp
  then have ev: "cycleEvent c now ?o ?o reason d = Inr (?c1, ?d1)"
    using end_outcome_terminal[OF oc] by (simp add: cycleEvent_def insert_event_fresh)
  have "?n + 1 + 1 \<notin> ordinals ?d1 (c_id c)"
    using cycles_inv_ordinals[OF inv c] ordinals_append[of ?d1 d "[event_row c (?n + 1) now ?o ?o reason]" "c_id c"] by auto
  then have "\<exists>c2 d2. kept_event now reason (?c1, ?d1) = Inr (c2, d2)"
    by (simp add: kept_event_def insert_event_fresh)
  then obtain c2 d2 where k: "(if readyTimeoutKeepsEnable d c ?o reason then kept_event now reason (?c1, ?d1) else Inr (?c1, ?d1)) = Inr (c2, d2)"
    by (cases "readyTimeoutKeepsEnable d c ?o reason") auto
  have "\<exists>d4. end_enable now ?o (compactionKeepsEnable c reason) (readyTimeoutKeepsEnable d c ?o reason) Inr
      (finished now ?o reason c2) (updateCycle (finished now ?o reason c2) d2) = Inr d4"
    by (simp add: end_enable_def)
  then show ?thesis by (auto simp: endCycleTx_def Let_def ev k)
qed

lemma endCycle_ok:
  assumes "cycles_inv d" "c \<in> set (context_cycles d)" "\<not> cycleTerminal (c_state c)" "cycleTerminal oc"
  shows "\<exists>c' d'. endCycle now (c_id c) (c_revision c) oc reason d = Inr (c', d') \<and> endCycleTx now c oc reason Inr d = Inr (c', d')"
proof -
  have "List.find (\<lambda>q. c_id q = c_id c) (context_cycles d) = Some c"
    using assms(1,2) by (intro find_key_unique) (auto simp: cycles_inv_def)
  then show ?thesis using endCycleTx_ok[OF assms(1,2,4)] assms(3) by (simp add: endCycle_def scanCycle_def)
qed

lemma sum_update_key:
  assumes "distinct (map k t)" "c \<in> set t"
  shows "sum_list (map g (update_where (\<lambda>q. k q = k c) f t)) = sum_list (map g t) - g c + (g (f c) :: int)"
  using assms
proof (induction t)
  case Nil
  then show ?case by simp
next
  case (Cons x t)
  show ?case
  proof (cases "x = c")
    case True
    then have "update_where (\<lambda>q. k q = k c) f t = t"
      using Cons.prems by (auto simp: update_where_def image_iff intro!: map_idI)
    then show ?thesis using True by simp
  next
    case False
    then have "k x \<noteq> k c" using Cons.prems by auto
    then show ?thesis using Cons False by simp
  qed
qed

lemma end_enable_debt:
  assumes "end_enable now oc keep keepTimeout Inr c d = Inr d'"
  shows "claim_bundles d' = claim_bundles d \<and> work_items d' = work_items d"
  using assms by (auto simp: end_enable_def keepEnableTx_def disable_def split: if_splits)

lemma endCycleTx_debt:
  assumes inv: "cycles_inv d" and c: "c \<in> set (context_cycles d)"
    and r: "endCycleTx now c oc reason Inr d = Inr (c', d')"
  shows "debtPages d' = debtPages d - c_credit c"
proof -
  have "claim_bundles d' = claim_bundles d \<and> work_items d' = work_items d"
    using r by (auto simp: endCycleTx_def Let_def updateCycle_def cycleAudit_def dest!: cycleEvent_Inr kept_event_Inr end_enable_debt split: if_splits)
  moreover have "sum_list (map c_credit (context_cycles d')) = sum_list (map c_credit (context_cycles d)) - c_credit c"
    using sum_update_key[of c_id "context_cycles d" c c_credit "set_columns c'"] inv c endCycleTx_writes(1,2)[OF r]
    by (simp add: cycles_inv_def)
  ultimately show ?thesis by (simp add: debtPages_def)
qed

section \<open>Event histories\<close>

definition own :: "db \<Rightarrow> string \<Rightarrow> cycleEventRow set" where
  "own d i = {e \<in> set (context_cycle_events d). ce_cycle_id e = i}"

definition history_ok :: "db \<Rightarrow> cycleRow \<Rightarrow> bool" where
  "history_ok d c \<longleftrightarrow> inj_on ce_ordinal (own d (c_id c))
     \<and> (\<not> cycleTerminal (c_state c) \<longrightarrow>
          (\<exists>e\<in>own d (c_id c). ce_ordinal e = c_events c
             \<and> (ce_stage e = c_state c \<or> ce_stage e = cycleRequested)))
     \<and> (c_state c = cycleFailed \<or> c_state c = cycleCancelled \<longrightarrow>
          (\<exists>e\<in>own d (c_id c). ce_stage e = c_state c
             \<and> (\<exists>p\<in>own d (c_id c). ce_ordinal p = ce_ordinal e - 1 \<and> \<not> cycleInputUnproven (ce_stage p))))"

definition histories_inv :: "db \<Rightarrow> bool" where
  "histories_inv d \<longleftrightarrow> cycles_inv d \<and> (\<forall>c\<in>set (context_cycles d). history_ok d c)"

lemma own_append: "context_cycle_events d' = context_cycle_events d @ es \<Longrightarrow> own d' i = own d i \<union> {e \<in> set es. ce_cycle_id e = i}"
  by (auto simp: own_def)

lemma ordinals_own: "ordinals d i = ce_ordinal ` own d i"
  by (simp add: ordinals_def own_def)

lemma histories_write:
  assumes hist: "histories_inv d" and c: "c \<in> set (context_cycles d)"
    and cyc: "context_cycles d' = update_where (\<lambda>q. c_id q = c_id c) f (context_cycles d)"
    and ev: "context_cycle_events d' = context_cycle_events d @ es" and es: "\<And>e. e \<in> set es \<Longrightarrow> ce_cycle_id e = c_id c"
    and inv': "cycles_inv d'" and ok: "history_ok d' (f c)"
  shows "histories_inv d'"
proof -
  have inv: "cycles_inv d" using hist by (simp add: histories_inv_def)
  have "history_ok d' q" if q: "q \<in> set (context_cycles d')" for q
  proof -
    from q obtain p where p: "p \<in> set (context_cycles d)" "q = (if c_id p = c_id c then f p else p)"
      by (auto simp: cyc in_update_where)
    show ?thesis
    proof (cases "c_id p = c_id c")
      case True
      then show ?thesis using cycles_inv_key[OF inv c p(1)] p(2) ok by simp
    next
      case False
      then have "own d' (c_id p) = own d (c_id p)" using es by (auto simp: own_append[OF ev])
      then show ?thesis using False p hist by (simp add: histories_inv_def history_ok_def)
    qed
  qed
  then show ?thesis using inv' by (simp add: histories_inv_def)
qed

lemma next_inj:
  assumes "inj_on ce_ordinal (own d (c_id c))" "cycles_inv d" "c \<in> set (context_cycles d)" "ce_ordinal e > c_events c"
  shows "inj_on ce_ordinal (insert e (own d (c_id c)))"
  using assms cycles_inv_ordinals[OF assms(2,3)] by (force simp: ordinals_own)

lemma endCycleTx_events:
  assumes "endCycleTx now c oc reason carry d = Inr (c', d')" "keeps_cycles carry"
  obtains e where "ce_cycle_id e = c_id c" "ce_ordinal e = c_events c + 1" "ce_stage e = end_outcome d c oc"
      "context_cycle_events d' = context_cycle_events d @ [e]"
  | e k where "ce_cycle_id e = c_id c" "ce_ordinal e = c_events c + 1" "ce_stage e = end_outcome d c oc"
      "ce_cycle_id k = c_id c" "ce_ordinal k = c_events c + 2" "context_cycle_events d' = context_cycle_events d @ [e, k]"
proof -
  let ?e = "event_row c (c_events c + 1) now (end_outcome d c oc) (end_outcome d c oc) reason"
  have st: "ce_stage ?e = end_outcome d c oc" by (simp add: event_row_def)
  obtain c1 d1 c2 d2 d4 where ev: "cycleEvent c now (end_outcome d c oc) (end_outcome d c oc) reason d = Inr (c1, d1)"
    and kt: "(if readyTimeoutKeepsEnable d c (end_outcome d c oc) reason then kept_event now reason (c1, d1) else Inr (c1, d1)) = Inr (c2, d2)"
    and d4: "end_enable now (end_outcome d c oc) (compactionKeepsEnable c reason)
       (readyTimeoutKeepsEnable d c (end_outcome d c oc) reason) carry c' (updateCycle c' d2) = Inr d4"
    and d': "d' = cycleAudit now c' (end_outcome d c oc) reason d4"
    using assms(1) unfolding endCycleTx_def Let_def by auto
  note e1 = cycleEvent_Inr[OF ev]
  have t: "context_cycle_events d' = context_cycle_events d2" using end_enable_cycles[OF d4 assms(2)] by (simp add: d')
  show ?thesis
  proof (cases "readyTimeoutKeepsEnable d c (end_outcome d c oc) reason")
    case True
    then have "kept_event now reason (c1, d1) = Inr (c2, d2)" using kt by simp
    from kept_event_Inr[OF this] show ?thesis using e1 t st by (intro that(2)[of ?e "event_row c (2 + c_events c) now ''enable_kept'' ''enable_kept'' reason"]) auto
  next
    case False
    then show ?thesis using kt e1 t st by (intro that(1)[of ?e]) auto
  qed
qed

lemma unproven_stage: "\<not> cycleUnproven d c \<Longrightarrow> ce_stage e = c_state c \<or> ce_stage e = cycleRequested \<Longrightarrow> \<not> cycleInputUnproven (ce_stage e)"
  by (auto simp: cycleUnproven_def cycleInputUnproven_def cycleIntent_def)

lemma endCycleTx_history:
  assumes hist: "histories_inv d" and c: "c \<in> set (context_cycles d)" and act: "\<not> cycleTerminal (c_state c)"
    and oc: "cycleTerminal oc" and r: "endCycleTx now c oc reason carry d = Inr (c', d')" and k: "keeps_cycles carry"
  shows "histories_inv d'"
proof -
  have inv: "cycles_inv d" and ok: "history_ok d c" using hist c by (auto simp: histories_inv_def)
  note w = endCycleTx_writes[OF r k]
  have fin: "cycleTerminal (c_state c')" using w(1) end_outcome_terminal[OF oc] by simp
  obtain p where p: "p \<in> own d (c_id c)" "ce_ordinal p = c_events c" "ce_stage p = c_state c \<or> ce_stage p = cycleRequested"
    using ok act by (auto simp: history_ok_def)
  have inj: "inj_on ce_ordinal (own d (c_id c))" using ok by (simp add: history_ok_def)
  have proven: "\<not> cycleInputUnproven (ce_stage p)" if "c_state c' = cycleFailed \<or> c_state c' = cycleCancelled"
    using that w(1) p(3) by (intro unproven_stage[of d c]) (auto simp: end_outcome_def cycleTerminal_def split: if_splits)
  have build: "histories_inv d'" if "context_cycle_events d' = context_cycle_events d @ es" "\<And>e. e \<in> set es \<Longrightarrow> ce_cycle_id e = c_id c"
    "e \<in> set es" "ce_ordinal e = c_events c + 1" "ce_stage e = end_outcome d c oc" "inj_on ce_ordinal (own d' (c_id c))" for es e
  proof (rule histories_write[OF hist c w(2) that(1,2) endCycleTx_inv[OF inv c act oc r k]])
    have o: "own d' (c_id c) = own d (c_id c) \<union> set es" using that(2) by (auto simp: own_append[OF that(1)])
    have "\<exists>e\<in>own d' (c_id c). ce_stage e = c_state c' \<and> (\<exists>q\<in>own d' (c_id c). ce_ordinal q = ce_ordinal e - 1 \<and> \<not> cycleInputUnproven (ce_stage q))"
      if "c_state c' = cycleFailed \<or> c_state c' = cycleCancelled"
      using proven[OF that] p o \<open>e \<in> set es\<close> \<open>ce_ordinal e = c_events c + 1\<close> \<open>ce_stage e = end_outcome d c oc\<close> w(1)
      by (intro bexI[of _ e] conjI bexI[of _ p]) auto
    then show "history_ok d' (set_columns c' c)" using that(6) fin by (auto simp: history_ok_def)
  qed
  show ?thesis
    using r k
  proof (cases rule: endCycleTx_events)
    case (1 e)
    have "own d' (c_id c) = insert e (own d (c_id c))" using 1(1) by (auto simp: own_append[OF 1(4)])
    then have "inj_on ce_ordinal (own d' (c_id c))" using next_inj[OF inj inv c, of e] 1(2) by simp
    then show ?thesis using 1 by (intro build[of "[e]" e]) auto
  next
    case (2 e m)
    have "own d' (c_id c) = insert m (insert e (own d (c_id c)))" using 2 by (auto simp: own_append[OF 2(6)])
    moreover have "inj_on ce_ordinal (insert e (own d (c_id c)))" using next_inj[OF inj inv c, of e] 2 by auto
    moreover have "ce_ordinal m \<notin> ce_ordinal ` (insert e (own d (c_id c)))"
      using 2 cycles_inv_ordinals[OF inv c] by (auto simp: ordinals_own)
    ultimately have "inj_on ce_ordinal (own d' (c_id c))" by auto
    then show ?thesis using 2 by (intro build[of "[e, m]" e]) auto
  qed
qed

lemma endCycle_history:
  assumes "histories_inv d" "cycleTerminal oc" "endCycle now i revision oc reason d = Inr (c', d')"
  shows "histories_inv d'"
proof -
  obtain c where c: "scanCycle d i = Inr c" "\<not> cycleTerminal (c_state c)" "endCycleTx now c oc reason Inr d = Inr (c', d')"
    using assms(3) by (cases "scanCycle d i") (simp_all add: endCycle_def split: if_splits)
  then show ?thesis using endCycleTx_history[OF assms(1) _ c(2) assms(2) c(3)] scanCycle_Inr by simp
qed

lemma advanceCycle_history:
  assumes hist: "histories_inv d"
    and r: "advanceCycle now i revision from (stage_name to) reason check (apply_change ch) d = Inr (c', d')"
  shows "histories_inv d'"
  using r
proof (cases rule: advanceCycle_cases)
  case ended
  show ?thesis using endCycle_history[OF hist _ ended] by (simp add: cycleTerminal_def)
next
  case (moved c c1 d1 dl)
  note e = cycleEvent_Inr[OF moved(9)]
  let ?e = "event_row c (c_events c + 1) now (stage_name to) ''entered'' reason"
  have inv: "cycles_inv d" using hist by (simp add: histories_inv_def)
  have c: "c \<in> set (context_cycles d)" using scanCycle_Inr[OF moved(1)] by simp
  have c': "c_id c' = c_id c" "c_events c' = c_events c + 1" "c_state c' = stage_name to" using moved(10) e by simp_all
  have d': "context_cycles d' = update_where (\<lambda>q. c_id q = c_id c) (set_columns c') (context_cycles d)"
    "context_cycle_events d' = context_cycle_events d @ [?e]"
    using moved(11) e c' by (simp_all add: updateCycle_def)
  have own': "own d' (c_id c) = insert ?e (own d (c_id c))" by (auto simp: own_append[OF d'(2)])
  have "inj_on ce_ordinal (own d (c_id c))" using hist c by (simp add: histories_inv_def history_ok_def)
  then have inj: "inj_on ce_ordinal (own d' (c_id c))" using next_inj[OF _ inv c, of ?e] by (simp add: own')
  have stage: "ce_stage ?e = stage_name to" by (simp add: event_row_def)
  show ?thesis
  proof (rule histories_write[OF hist c d'])
    have "stage_name to \<noteq> cycleFailed" "stage_name to \<noteq> cycleCancelled" by (cases to; simp)+
    then show "history_ok d' (set_columns c' c)"
      using inj c' stage by (auto simp: history_ok_def own')
    show "cycles_inv d'" by (rule advanceCycle_inv[OF inv r])
  qed simp
qed

lemma end_cycles_history:
  assumes "histories_inv d" "set cs \<subseteq> set (context_cycles d)" "distinct (map c_id cs)" "\<forall>c\<in>set cs. activeCycle c"
    "end_cycles now reason cs d = Inr d'"
  shows "histories_inv d'"
  using assms
proof (induction cs arbitrary: d)
  case Nil
  then show ?case by simp
next
  case (Cons c cs)
  from Cons.prems(5) obtain c1 d1 where r: "endCycleTx now c cycleCancelled reason Inr d = Inr (c1, d1)"
    and rest: "end_cycles now reason cs d1 = Inr d'" by auto
  have hist: "histories_inv d1"
    using endCycleTx_history[OF Cons.prems(1) _ _ _ r] Cons.prems(2,4) by (auto simp: activeCycle_def cycleTerminal_def)
  have "q \<in> set (context_cycles d1)" if "q \<in> set cs" for q
  proof -
    have "c_id q \<noteq> c_id c" "q \<in> set (context_cycles d)" using that Cons.prems(2,3) by (auto simp: image_iff)
    then show ?thesis using endCycleTx_writes(2)[OF r] by (force simp: in_update_where)
  qed
  then show ?case using Cons.IH[OF hist _ _ _ rest] Cons.prems(3,4) by auto
qed

lemma fenceCyclesTx_history: "histories_inv d \<Longrightarrow> fenceCyclesTx now reason wher d = Inr d' \<Longrightarrow> histories_inv d'"
  unfolding fenceCyclesTx_def
  by (erule end_cycles_history[rotated 4]) (auto simp: histories_inv_def cycles_inv_def distinct_map_filter activeCycle_def)

lemma history_ok_refusal [simp]: "history_ok d (c\<lparr>c_ready_refusal := x\<rparr>) = history_ok d c"
  by (simp add: history_ok_def)

lemma history_ok_events: "context_cycle_events d' = context_cycle_events d \<Longrightarrow> history_ok d' = history_ok d"
  by (simp add: history_ok_def own_def fun_eq_iff)

lemma writeRefusalSlot_rows:
  assumes "q \<in> set (context_cycles (writeRefusalSlot c code d))"
  obtains p where "p \<in> set (context_cycles d)" "q = p"
  | p x where "p \<in> set (context_cycles d)" "q = p\<lparr>c_ready_refusal := x\<rparr>"
proof (cases "context_cycles (writeRefusalSlot c code d) = context_cycles d")
  case True
  then show ?thesis using assms that(1) by simp
next
  case False
  then obtain P x where "context_cycles (writeRefusalSlot c code d) = update_where P (\<lambda>q. q\<lparr>c_ready_refusal := x\<rparr>) (context_cycles d)"
    by (simp add: writeRefusalSlot_def split: if_splits)
  then obtain p where "p \<in> set (context_cycles d)" "q = (if P p then p\<lparr>c_ready_refusal := x\<rparr> else p)"
    using assms by (auto simp: set_update_where)
  then show ?thesis using that by (cases "P p") simp_all
qed

lemma writeRefusalSlot_history:
  assumes "histories_inv d" shows "histories_inv (writeRefusalSlot c code d)"
proof -
  have "context_cycle_events (writeRefusalSlot c code d) = context_cycle_events d" by (simp add: writeRefusalSlot_def)
  then have h: "history_ok (writeRefusalSlot c code d) = history_ok d" by (rule history_ok_events)
  have "history_ok (writeRefusalSlot c code d) q" if "q \<in> set (context_cycles (writeRefusalSlot c code d))" for q
    using that assms by (cases rule: writeRefusalSlot_rows) (simp_all add: h histories_inv_def)
  then show ?thesis using assms writeRefusalSlot_inv by (simp add: histories_inv_def)
qed

lemma admit_op_events:
  assumes "admit_op now a pin d = Inr d'"
  shows "\<exists>n. context_cycles d' = context_cycles d @ [n] \<and> c_id n = am_id a \<and> c_events n = 1 \<and> \<not> cycleTerminal (c_state n)
    \<and> (\<forall>q\<in>set (context_cycles d). c_id q \<noteq> am_id a)
    \<and> (\<exists>e. context_cycle_events d' = context_cycle_events d @ [e] \<and> ce_cycle_id e = am_id a \<and> ce_ordinal e = 1 \<and> ce_stage e = cycleRequested)"
proof -
  define c where "c = admitted_row now a"
  have c: "c_events c = 0" "c_id c = am_id a" "\<not> cycleTerminal (c_state c)"
    by (auto simp: c_def admitted_row_def Let_def cycleTerminal_def split: prod.splits)
  obtain c1 d1 d2 where ins: "insertCycle c d = Inr d1" and ev: "cycleEvent c now cycleRequested ''admitted'' [] d1 = Inr (c1, d2)"
    and d': "context_cycles d' = update_where (\<lambda>q. c_id q = c_id c1)
         (\<lambda>q. q\<lparr>c_events := c_events c1, c_adapter_pin := pin\<rparr>) (context_cycles d2)"
      "context_cycle_events d' = context_cycle_events d2"
    using assms by (auto simp: admit_op_def admit_event_def c_def)
  have d1: "d1 = d\<lparr>context_cycles := context_cycles d @ [c\<lparr>c_ready_refusal := refusalSlot 0 []\<rparr>]\<rparr>"
    and fresh: "\<forall>q\<in>set (context_cycles d). c_id q \<noteq> c_id c"
    using ins by (auto simp: insertCycle_def fresh_key_def)
  note e = cycleEvent_Inr[OF ev]
  let ?n = "c\<lparr>c_ready_refusal := refusalSlot 0 [], c_events := 1, c_adapter_pin := pin\<rparr>"
  have "context_cycles d' = context_cycles d @ [?n]"
    using e d1 fresh c unfolding d' by (auto simp: update_where_def intro!: map_idI)
  moreover have "context_cycle_events d' = context_cycle_events d @ [event_row c 1 now cycleRequested ''admitted'' []]"
    using e d1 c d' by simp
  ultimately show ?thesis using c fresh by (intro exI[of _ ?n]) (auto simp: event_row_def)
qed

lemma admit_op_history:
  assumes hist: "histories_inv d" and r: "admit_op now a pin d = Inr d'"
  shows "histories_inv d'"
proof -
  have inv: "cycles_inv d" using hist by (simp add: histories_inv_def)
  obtain n e where n: "context_cycles d' = context_cycles d @ [n]" "c_id n = am_id a" "c_events n = 1" "\<not> cycleTerminal (c_state n)"
    "\<forall>q\<in>set (context_cycles d). c_id q \<noteq> am_id a"
    and e: "context_cycle_events d' = context_cycle_events d @ [e]" "ce_cycle_id e = am_id a" "ce_ordinal e = 1" "ce_stage e = cycleRequested"
    using admit_op_events[OF r] by blast
  have "own d (am_id a) = {}" using inv n(5) by (auto simp: own_def cycles_inv_def)
  then have "own d' (am_id a) = {e}" using e by (auto simp: own_append[OF e(1)])
  then have "history_ok d' n" using n e by (auto simp: history_ok_def cycleTerminal_def)
  moreover have "history_ok d' q" if "q \<in> set (context_cycles d)" for q
  proof -
    have "own d' (c_id q) = own d (c_id q)" using that n(5) e(2) by (auto simp: own_append[OF e(1)])
    then show ?thesis using hist that by (simp add: histories_inv_def history_ok_def)
  qed
  ultimately show ?thesis using admit_op_inv[OF inv r] n(1) by (auto simp: histories_inv_def)
qed

lemma cycle_step_history: "histories_inv d \<Longrightarrow> cycle_step op now d = Inr d' \<Longrightarrow> histories_inv d'"
  by (cases op) (auto intro: admit_op_history advanceCycle_history endCycle_history[OF _ outcome_name_terminal]
      fenceCyclesTx_history writeRefusalSlot_history)

interpretation cycle_history: timed_machine cycle_step "\<lambda>_ :: int. histories_inv"
  by unfold_locales (auto intro: cycle_step_history)

section \<open>Properties\<close>

definition demo_enabled :: db where
  "demo_enabled = empty_db\<lparr>context_enables := [\<lparr>en_family = ''codex'', en_session_id = ''a'', en_enabled = True, en_revision = 1,
     en_session_revision = 1, en_address = [], en_host_pid = 7, en_host_start = 70, en_socket = ''/t'', en_pane = ''%1'',
     en_updated_at = 0, en_threshold = 80, en_kept_epoch = [], en_kept_revision = 0, en_kept_read = False\<rparr>]\<rparr>"

definition demo_admission :: admission where
  "demo_admission = \<lparr>am_id = ''c1'', am_session = key ''codex'' ''a'', am_peer = ''codex-r-01'', am_address = [], am_held = False,
     am_host = (7, 70, ''/t'', ''%1''), am_enable_revision = 1, am_epoch = ''e1'', am_mode = ''handoff_cycle'', am_threshold = 80,
     am_used = 81, am_limit = 100, am_source_at = 5, am_confirmed_at = 5, am_message_seq = 1, am_adapter = ''a1'', am_digest = ''g''\<rparr>"

definition demo_cycle_log :: "(cycle_op \<times> int) list" where
  "demo_cycle_log =
     [(AdmitCycle demo_admission [], 10),
      (AdvanceCycle ''c1'' 1 ''waiting_ready'' Ready [] (\<lambda>_ _ _. Inr ()) (SetArtifact ''h.md'' 1 2 3 4), 20),
      (AdvanceCycle ''c1'' 2 ''ready'' Clear_Intent [] (\<lambda>_ _ _. Inr ()) KeepRow, 30)]"

lemma demo_enabled_inv: "histories_inv demo_enabled" "cycles_inv demo_enabled"
  by (simp_all add: demo_enabled_def empty_db_def histories_inv_def cycles_inv_def)

text \<open>
  C11. Exact accounting of a managed cycle: whatever admissions, stages, ends, fences and refused
  reports are served, an unfinished cycle has one event for each revision, numbered from 1 without a
  gap and below the last slot, keeps exactly the page credit of its remaining stages and of its
  terminal outcome, and never waits past its own deadline; a finished cycle keeps no credit.
\<close>

theorem cycle_accounting:
  assumes "cycles_inv d" and "c \<in> set (context_cycles (run_log cycle_step reqs d))"
  shows "(if cycleTerminal (c_state c) then c_credit c = 0
    else 1 \<le> c_events c \<and> c_events c \<le> maxCycleEvents - 1 \<and> c_revision c = c_events c
      \<and> c_credit c = (maxCycleEvents - 1 - c_events c) * cycleStagePages + cycleTerminalPages
      \<and> c_stage_deadline c \<le> c_cycle_deadline c)
    \<and> ordinals (run_log cycle_step reqs d) (c_id c) = {1..c_events c}"
proof -
  have "cycles_inv (run_log cycle_step reqs d)"
    using cycle_machine.run_le[of d reqs] assms(1) by (simp add: cycles_le_def)
  then show ?thesis
    using cycles_inv_row[OF _ assms(2)] cycles_inv_ordinals[OF _ assms(2)] by (auto simp: row_ok_def)
qed

theorem cycle_accounting_witness:
  "let c = hd (context_cycles (run_log cycle_step demo_cycle_log demo_enabled))
   in c_state c = ''clear_intent'' \<and> c_revision c = 3 \<and> c_credit c = 12 * 280 + 491"
proof -
  define d where "d = run_log cycle_step demo_cycle_log demo_enabled"
  define c where "c = hd (context_cycles d)"
  have ne: "length (context_cycles d) = 1" and st: "c_state c = ''clear_intent''" "c_events c = 3"
    unfolding c_def d_def by code_simp+
  have mem: "c \<in> set (context_cycles d)" using ne unfolding c_def by (cases "context_cycles d") auto
  show ?thesis
    using cycle_accounting[OF demo_enabled_inv(2) mem[unfolded d_def]] st
    by (simp add: c_def[symmetric] d_def[symmetric] Let_def cycleTerminal_def maxCycleEvents_def cycleStagePages_def cycleTerminalPages_def)
qed

text \<open>
  C12. The terminal outcome of a cycle is always possible and always funded: after any committed
  write, ending an unfinished cycle at its revision succeeds with any outcome, and a control write
  that allocates at most the terminal pages passes the ceiling of its own commit.
\<close>

theorem cycle_end_always_commits:
  assumes "fst (commit_tx cls pages engine d s) = Inr d" and "cycles_inv d"
    and "c \<in> set (context_cycles d)" and "\<not> cycleTerminal (c_state c)"
    and "pages' \<le> pages + cycleTerminalPages"
  shows "\<exists>c' d'. endCycle now (c_id c) (c_revision c) (outcome_name oc) reason d = Inr (c', d')
    \<and> cycleTerminal (c_state c') \<and> fst (commit_tx control pages' None d' s) = Inr d'"
proof -
  obtain c' d' where r: "endCycle now (c_id c) (c_revision c) (outcome_name oc) reason d = Inr (c', d')"
    and r': "endCycleTx now c (outcome_name oc) reason Inr d = Inr (c', d')"
    using endCycle_ok[OF assms(2-4) outcome_name_terminal] by blast
  have "cycleTerminal (c_state c')"
    using endCycleTx_writes(1)[OF r'] end_outcome_terminal[OF outcome_name_terminal] by simp
  moreover have "cycleTerminalPages \<le> c_credit c"
    using cycles_inv_row[OF assms(2,3)] assms(4) by (simp add: row_ok_def maxCycleEvents_def cycleStagePages_def)
  moreover have "pages + debtPages d + commitSlack \<le> st_max_pages s"
    using commit_tx_Inr[OF assms(1)] by simp
  ultimately show ?thesis
    using r endCycleTx_debt[OF assms(2,3) r'] assms(5) by (simp add: commit_tx_def page_ceiling_def)
qed

theorem cycle_end_always_commits_witness:
  "\<exists>c' d'. endCycle 40 ''c1'' 3 cycleFailed ''cycle_timeout'' (run_log cycle_step demo_cycle_log demo_enabled) = Inr (c', d')
    \<and> cycleTerminal (c_state c') \<and> fst (commit_tx control 120400 None d' demo_storage) = Inr d'"
proof -
  define d where "d = run_log cycle_step demo_cycle_log demo_enabled"
  define c where "c = hd (context_cycles d)"
  have "fst (commit_tx ordinary 120000 None d demo_storage) = Inr (snd (Some (0::nat), d))"
    unfolding d_def by code_simp
  then have cm: "fst (commit_tx ordinary 120000 None d demo_storage) = Inr d" by simp
  have ne: "length (context_cycles d) = 1" and st: "c_state c = ''clear_intent''" "c_id c = ''c1''" "c_revision c = 3"
    unfolding c_def d_def by code_simp+
  have mem: "c \<in> set (context_cycles d)" using ne unfolding c_def by (cases "context_cycles d") auto
  have inv: "cycles_inv d"
    using cycle_machine.run_le[of demo_enabled demo_cycle_log] demo_enabled_inv by (simp add: cycles_le_def d_def)
  show ?thesis
    using cycle_end_always_commits[OF cm inv mem, of 120400 40 Failed "''cycle_timeout''"] st
    by (simp add: d_def cycleTerminal_def cycleTerminalPages_def)
qed

text \<open>
  C13. Revisions identify rows: over any run a cycle keeps its identity and its deadline, a
  terminal row never changes again, and a row that a caller read at some revision is either still the
  same (apart from the refusal slot) or has a larger revision, so that a write that compares the
  revision never acts on a stage it has not read.
\<close>

theorem cycle_revision_identifies_row:
  assumes "cycles_inv d" and "c \<in> set (context_cycles d)"
  shows "\<exists>c'\<in>set (context_cycles (run_log cycle_step reqs d)).
    c_id c' = c_id c \<and> c_cycle_deadline c' = c_cycle_deadline c \<and> (cycleTerminal (c_state c) \<longrightarrow> c' = c)
    \<and> (c_revision c < c_revision c' \<or> core_row c' = core_row c)"
  using cycle_machine.run_le[of d reqs] assms unfolding cycles_le_def grows_def by blast

theorem cycle_revision_identifies_row_witness:
  "\<exists>c'\<in>set (context_cycles (run_log cycle_step [(EndCycle ''c1'' 3 Failed ''cycle_timeout'', 40)]
      (run_log cycle_step demo_cycle_log demo_enabled))). c_id c' = ''c1'' \<and> 3 \<le> c_revision c'"
proof -
  define d where "d = run_log cycle_step demo_cycle_log demo_enabled"
  define c where "c = hd (context_cycles d)"
  have ne: "length (context_cycles d) = 1" and st: "c_id c = ''c1''" "c_revision c = 3"
    unfolding c_def d_def by code_simp+
  have mem: "c \<in> set (context_cycles d)" using ne unfolding c_def by (cases "context_cycles d") auto
  have inv: "cycles_inv d"
    using cycle_machine.run_le[of demo_enabled demo_cycle_log] demo_enabled_inv by (simp add: cycles_le_def d_def)
  obtain c' where "c' \<in> set (context_cycles (run_log cycle_step [(EndCycle ''c1'' 3 Failed ''cycle_timeout'', 40)] d))"
    "c_id c' = c_id c" "c_revision c < c_revision c' \<or> core_row c' = core_row c"
    using cycle_revision_identifies_row[OF inv mem, of "[(EndCycle ''c1'' 3 Failed ''cycle_timeout'', 40)]"] by blast
  then show ?thesis using st core_row_eq[of c' c] unfolding d_def[symmetric] by (intro bexI[of _ c']) auto
qed

text \<open>
  C14. An entered input whose effect is not proven is never reported as failed or cancelled: in every
  reachable state, the event before the terminal event of a failed or cancelled cycle is not an input
  intent and not an unverified clear.
\<close>

theorem unproven_input_never_failed:
  assumes "histories_inv d" and "sorted (t # map snd reqs)"
    and "c \<in> set (context_cycles (run_log cycle_step reqs d))"
    and "c_state c = cycleFailed \<or> c_state c = cycleCancelled"
  shows "\<exists>e\<in>own (run_log cycle_step reqs d) (c_id c). ce_stage e = c_state c
    \<and> (\<exists>p\<in>own (run_log cycle_step reqs d) (c_id c). ce_ordinal p = ce_ordinal e - 1 \<and> \<not> cycleInputUnproven (ce_stage p))"
  using cycle_history.run_inv[OF assms(1,2)] assms(3,4) by (auto simp: histories_inv_def history_ok_def)

theorem unproven_input_never_failed_witness:
  "\<exists>e\<in>own (run_log cycle_step (take 2 demo_cycle_log @ [(EndCycle ''c1'' 2 Failed ''ready_timeout'', 40)]) demo_enabled) ''c1''.
     ce_stage e = cycleFailed"
proof -
  define reqs where "reqs = take 2 demo_cycle_log @ [(EndCycle ''c1'' 2 Failed ''ready_timeout'', 40)]"
  define d where "d = run_log cycle_step reqs demo_enabled"
  define c where "c = hd (context_cycles d)"
  have ne: "length (context_cycles d) = 1" and st: "c_id c = ''c1''" "c_state c = cycleFailed"
    unfolding c_def d_def reqs_def by code_simp+
  have mem: "c \<in> set (context_cycles d)" using ne unfolding c_def by (cases "context_cycles d") auto
  have "sorted (0 # map snd reqs)" unfolding reqs_def demo_cycle_log_def by simp
  then have "\<exists>e\<in>own d (c_id c). ce_stage e = c_state c \<and> (\<exists>p\<in>own d (c_id c). ce_ordinal p = ce_ordinal e - 1 \<and> \<not> cycleInputUnproven (ce_stage p))"
    using unproven_input_never_failed[OF demo_enabled_inv(1), of 0 reqs c] mem st unfolding d_def by blast
  then show ?thesis using st unfolding d_def reqs_def by auto
qed

end
