(* ===== verification/Launch.thy ===== *)
theory Launch
  imports Cycle_Safety
begin

text \<open>
  Launch records (\<^verbatim>\<open>launch.go\<close>) and the path functions of \<^verbatim>\<open>path/filepath\<close> that names and launches
  use. A launch admits a registration only of its family, directory and host (or job), and gives the
  session its role.
\<close>

section \<open>Paths\<close>

fun clean_parts :: "bool \<Rightarrow> string list \<Rightarrow> string list \<Rightarrow> string list" where
  "clean_parts rooted [] st = rev st"
| "clean_parts rooted (p # ps) st =
     (if p = [] \<or> p = ''.'' then clean_parts rooted ps st
      else if p = ''..'' then
        (case st of
           [] \<Rightarrow> clean_parts rooted ps (if rooted then [] else [''..''])
         | q # qs \<Rightarrow> if q = ''..'' then clean_parts rooted ps (''..'' # st) else clean_parts rooted ps qs)
      else clean_parts rooted ps (p # st))"

definition is_abs :: "string \<Rightarrow> bool" where
  "is_abs path \<longleftrightarrow> has_prefix path ''/''"

definition path_clean :: "string \<Rightarrow> string" where
  "path_clean path =
     (let body = join_byte CHR ''/'' (clean_parts (is_abs path) (split_byte CHR ''/'' path) [])
      in if is_abs path then CHR ''/'' # body else if body = [] then ''.'' else body)"

definition path_base :: "string \<Rightarrow> string" where
  "path_base path =
     (if path = [] then ''.''
      else let trimmed = rev (dropWhile (\<lambda>c. c = CHR ''/'') (rev path))
           in if trimmed = [] then ''/'' else last (split_byte CHR ''/'' trimmed))"

definition path_dir :: "string \<Rightarrow> string" where
  "path_dir path = path_clean (rev (dropWhile (\<lambda>c. c \<noteq> CHR ''/'') (rev path)))"

definition has_rune_below_space :: "string \<Rightarrow> bool" where
  "has_rune_below_space s \<longleftrightarrow> (\<exists>x\<in>set (decode_runes s). fst x < 32 \<or> fst x = 127)"

definition CleanAbsolutePath :: "string \<Rightarrow> bool" where
  "CleanAbsolutePath path \<longleftrightarrow> is_abs path \<and> path_clean path = path \<and> length path \<le> 4096 \<and> \<not> has_rune_below_space path"

section \<open>Identifiers\<close>

definition lower_hex :: "char \<Rightarrow> bool" where
  "lower_hex c \<longleftrightarrow> c \<in> set ''0123456789abcdef''"

definition role_byte :: "char \<Rightarrow> bool" where
  "role_byte c \<longleftrightarrow> c \<in> set ''abcdefghijklmnopqrstuvwxyz0123456789-''"

definition ValidRole :: "string \<Rightarrow> bool" where
  "ValidRole role \<longleftrightarrow> (case role of [] \<Rightarrow> False | c # cs \<Rightarrow>
       c \<in> set ''abcdefghijklmnopqrstuvwxyz'' \<and> length cs \<le> 23 \<and> (\<forall>x\<in>set cs. role_byte x))
     \<and> \<not> (\<forall>x\<in>set role. lower_hex x \<or> x = CHR ''-'')"

definition ShortJobID :: "string \<Rightarrow> bool" where
  "ShortJobID s \<longleftrightarrow> length s = 8 \<and> (\<forall>c\<in>set s. lower_hex c)"

definition FullJobID :: "string \<Rightarrow> bool" where
  "FullJobID s \<longleftrightarrow> map length (split_byte CHR ''-'' s) = [8, 4, 4, 4, 12]
     \<and> (\<forall>p\<in>set (split_byte CHR ''-'' s). \<forall>c\<in>set p. lower_hex c)"

definition MaxNested :: nat where "MaxNested = 64"
definition MaxNestedPath :: nat where "MaxNestedPath = 256"

definition ValidNestedPath :: "string \<Rightarrow> bool" where
  "ValidNestedPath p \<longleftrightarrow> p \<noteq> [] \<and> length p \<le> MaxNestedPath \<and> valid_utf8 p \<and> \<not> has_rune_below_space p
     \<and> \<not> is_abs p \<and> path_clean p = p \<and> p \<noteq> ''.'' \<and> p \<noteq> ''..'' \<and> \<not> has_prefix p ''../''"

definition validNested :: "(string \<times> string) list \<Rightarrow> bool" where
  "validNested xs \<longleftrightarrow> length xs \<le> MaxNested
     \<and> (\<forall>(p, kind)\<in>set xs. ValidNestedPath p \<and> kind \<in> {''submodule'', ''worktree'', ''repository''})"

section \<open>Creating and ending launches\<close>

definition ErrNotLaunched :: kerror where
  "ErrNotLaunched = Refusal ''not_launched'' ''the supplied launch does not match this session''"
definition ErrLaunchPending :: kerror where
  "ErrLaunchPending = Refusal ''launch_pending'' ''the background launch has not recorded its job yet; call again''"
definition ErrIdentityUnavailable :: kerror where
  "ErrIdentityUnavailable = Refusal ''identity_unavailable'' (''the session ID does not match the launch'' @ [char_of (39::nat)] @ ''s first session'')"

definition launch_row :: "db \<Rightarrow> string \<Rightarrow> launchRow option" where
  "launch_row d i = List.find (\<lambda>l. la_id l = i) (launches d)"

text \<open>
  \<open>CreateLaunch\<close>. \<open>resolved\<close> is the directory after \<open>EvalSymlinks\<close> when it is a readable directory;
  \<open>port\<close> is the port that \<open>net.SplitHostPort\<close> and \<open>strconv.Atoi\<close> read, \<open>loopback\<close> is
  \<open>validAddress\<close>, \<open>hex\<close> whether \<open>hex.DecodeString\<close> accepts the password, and \<open>nonce\<close> the 64 hex
  digits of the random launch ID.
\<close>

definition CreateLaunch ::
  "string option \<Rightarrow> int option \<Rightarrow> bool \<Rightarrow> bool \<Rightarrow> string \<Rightarrow> string \<Rightarrow> int \<Rightarrow> LaunchTarget \<Rightarrow> db \<Rightarrow> kerror + (string \<times> db)" where
  "CreateLaunch resolved port loopback hex nonce launchID now t d =
     rbind (guard (\<not> (launchID \<noteq> [] \<or> lt_job_id t \<noteq> [] \<or> (lt_background t \<and> lt_family t \<noteq> ''claude''))) ErrInvalid) (\<lambda>_.
     rbind (guard (lt_family t \<in> {''claude'', ''codex'', ''agy'', ''opencode'', ''grok''}) ErrInvalid) (\<lambda>_.
     rbind (guard (\<not> (lt_session_id t \<noteq> [] \<and> (lt_family t \<noteq> ''grok'' \<or> \<not> FullJobID (lt_session_id t)))) ErrInvalid) (\<lambda>_.
     rbind (guard (\<not> (lt_host_pid t \<le> 0 \<or> \<not> is_abs (lt_cli t) \<or> length (lt_cli t) > 4096 \<or> \<not> validNested (lt_nested t)
              \<or> (lt_role t \<noteq> [] \<and> \<not> ValidRole (lt_role t)))) ErrInvalid) (\<lambda>_.
     rbind (opt_err ErrInvalid resolved) (\<lambda>dir.
     rbind (guard (is_abs (lt_directory t) \<and> length dir \<le> 4096) ErrInvalid) (\<lambda>_.
     rbind (guard (if lt_family t = ''opencode''
                   then (case port of None \<Rightarrow> False | Some n \<Rightarrow> 1 \<le> n \<and> n \<le> 65535) \<and> loopback
                     \<and> length (lt_password t) = 64 \<and> hex
                   else lt_address t = [] \<and> lt_password t = []) ErrInvalid) (\<lambda>_.
     rbind (insert_row ErrConstraint (fresh_key la_id)
              \<lparr>la_id = nonce, la_family = lt_family t, la_directory = dir, la_target = t\<lparr>lt_directory := dir\<rparr>, la_created_at = now\<rparr>
              (launches d)) (\<lambda>rows.
     Inr (nonce, d\<lparr>launches := rows\<rparr>)))))))))"

definition backgroundLaunch :: "db \<Rightarrow> string \<Rightarrow> kerror + LaunchTarget" where
  "backgroundLaunch d i =
     rbind (opt_err ErrMissing (launch_row d i)) (\<lambda>l.
     rbind (guard (lt_background (la_target l)) ErrInvalid) (\<lambda>_. Inr (la_target l)))"

definition SetLaunchJob :: "string \<Rightarrow> string \<Rightarrow> db \<Rightarrow> kerror + db" where
  "SetLaunchJob i job d =
     (if length i \<noteq> 64 \<or> (\<not> ShortJobID job \<and> \<not> FullJobID job) then Inl ErrInvalid
      else rbind (backgroundLaunch d i) (\<lambda>t.
        if lt_job_id t = job then Inr d
        else if lt_job_id t \<noteq> [] then Inl ErrConflict
        else Inr (d\<lparr>launches := update_where (\<lambda>l. la_id l = i) (\<lambda>l. l\<lparr>la_target := t\<lparr>lt_job_id := job\<rparr>\<rparr>) (launches d)\<rparr>)))"

definition RetireLaunch :: "string \<Rightarrow> db \<Rightarrow> kerror + db" where
  "RetireLaunch i d =
     (if length i \<noteq> 64 then Inl ErrInvalid
      else rbind (backgroundLaunch d i) (\<lambda>t.
        if lt_job_id t \<noteq> [] then Inl ErrConflict
        else Inr (d\<lparr>launches := filter (\<lambda>l. la_id l \<noteq> i) (launches d)\<rparr>)))"

section \<open>Admitting a registration\<close>

record Registration =
  rg_family :: string
  rg_id :: string
  rg_repository :: string
  rg_directory :: string
  rg_wake_bytes :: nat
  rg_wake :: "json option"
  rg_ttl_seconds :: int
  rg_launch_id :: string
  rg_ancestors :: "int list"
  rg_subagent :: bool
  rg_tmux :: "(string \<times> string \<times> string) option"
  rg_tool_call :: bool
  rg_clear :: bool

text \<open>The wake target of a request: the decoded JSON, and \<open>{}\<close> when it has no bytes.\<close>

definition omit :: "bool \<Rightarrow> string \<Rightarrow> json \<Rightarrow> (string \<times> json) list" where
  "omit none k v = (if none then [] else [(k, v)])"

text \<open>The JSON of a \<open>LaunchTarget\<close> without its password, with its launch ID.\<close>

definition public_target :: "string \<Rightarrow> LaunchTarget \<Rightarrow> (string \<times> json) list" where
  "public_target i t =
     omit (i = []) ''launch_id'' (JStr i)
     @ [(''family'', JStr (lt_family t)), (''directory'', JStr (lt_directory t)), (''cli'', JStr (lt_cli t)),
        (''host_pid'', JInt (lt_host_pid t))]
     @ omit (lt_address t = []) ''address'' (JStr (lt_address t))
     @ omit (lt_nested t = []) ''nested''
         (JArr (map (\<lambda>(p, kind). JObj [(''path'', JStr p), (''kind'', JStr kind)]) (lt_nested t)))
     @ omit (\<not> lt_nested_incomplete t) ''nested_incomplete'' (JBool True)
     @ omit (\<not> lt_background t) ''background'' (JBool True)
     @ omit (lt_job_id t = []) ''job_id'' (JStr (lt_job_id t))
     @ omit (lt_role t = []) ''role'' (JStr (lt_role t))
     @ omit (lt_session_id t = []) ''session_id'' (JStr (lt_session_id t))"

text \<open>
  The strict decoding of Claude's own target, whose only member is \<open>claude_pid\<close>: the last number wins,
  a null keeps what was read before, and another member or type fails.
\<close>

fun claude_pid_members :: "(string \<times> json) list \<Rightarrow> int \<Rightarrow> int option" where
  "claude_pid_members [] p = Some p"
| "claude_pid_members ((k, v) # ms) p =
     (if k \<noteq> ''claude_pid'' then None
      else case v of JInt n \<Rightarrow> claude_pid_members ms n | JNull \<Rightarrow> claude_pid_members ms p | _ \<Rightarrow> None)"

definition own_claude_pid :: "json option \<Rightarrow> int option" where
  "own_claude_pid j = (case j of Some (JObj ms) \<Rightarrow> claude_pid_members ms 0 | Some JNull \<Rightarrow> Some 0 | _ \<Rightarrow> None)"

definition maxAncestors :: nat where "maxAncestors = 256"

definition job_admits :: "string \<Rightarrow> string \<Rightarrow> bool" where
  "job_admits job i \<longleftrightarrow> (FullJobID job \<and> i = job) \<or> (ShortJobID job \<and> FullJobID i \<and> has_prefix i (job @ ''-''))"

definition launch_registered :: "db \<Rightarrow> string \<Rightarrow> string \<Rightarrow> bool" where
  "launch_registered d family i \<longleftrightarrow>
     (\<exists>s\<in>set (sessions d). s_family s = family \<and> json_member (s_wake_target s) ''launch_id'' = Some (JStr i))"

definition admitLaunch :: "db \<Rightarrow> Registration \<Rightarrow> string \<Rightarrow> kerror + (json \<times> string)" where
  "admitLaunch d r directory =
     (if (rg_launch_id r \<noteq> [] \<and> length (rg_launch_id r) \<noteq> 64) \<or> length (rg_ancestors r) > maxAncestors then Inl ErrNotLaunched
      else let claudePID = (if rg_family r = ''claude'' then own_claude_pid (rg_wake r) else Some 0)
      in if (rg_family r = ''claude'' \<and> (case claudePID of None \<Rightarrow> True | Some p \<Rightarrow> p \<le> 0))
           \<or> (rg_family r \<noteq> ''claude'' \<and> \<not> (rg_wake_bytes r = 0 \<or> (rg_wake_bytes r = 2 \<and> rg_wake r = Some (JObj []))))
      then Inl ErrInvalid
      else if rg_launch_id r = [] then Inr (case rg_wake r of None \<Rightarrow> JObj [] | Some j \<Rightarrow> j, [])
      else rbind (opt_err ErrNotLaunched (launch_row d (rg_launch_id r))) (\<lambda>l.
        let t = la_target l; pid = the claudePID in
        if la_family l \<noteq> rg_family r \<or> la_directory l \<noteq> directory then Inl ErrNotLaunched
        else if lt_session_id t \<noteq> [] \<and> rg_id r \<noteq> lt_session_id t \<and> \<not> launch_registered d (rg_family r) (rg_launch_id r)
        then Inl ErrIdentityUnavailable
        else if lt_background t \<and> lt_job_id t = [] then Inl ErrLaunchPending
        else if lt_background t \<and> \<not> job_admits (lt_job_id t) (rg_id r) then Inl ErrNotLaunched
        else if \<not> lt_background t \<and> (lt_host_pid t \<notin> set (rg_ancestors r) \<or> (rg_family r = ''claude'' \<and> pid \<noteq> lt_host_pid t))
        then Inl ErrNotLaunched
        else Inr (JObj (public_target (rg_launch_id r) t @ (if pid = 0 then [] else [(''claude_pid'', JInt pid)])), lt_role t)))"

end
