(* ===== verification/Registry.thy ===== *)
theory Registry
  imports Launch
begin

text \<open>
  The write side of the session registry: peer names and participant addresses (\<^verbatim>\<open>names.go\<close>), holder
  changes and fences (\<^verbatim>\<open>names.go\<close>, \<^verbatim>\<open>participants.go\<close>), succession on host evidence
  (\<^verbatim>\<open>succession.go\<close>), and registration, renewal and retirement (\<^verbatim>\<open>store.go\<close>).

  \<open>x\<close> carries the functions outside the repository (\<open>sha256\<close> and the JSON text of a name list). The
  file system and Git answers of a registration are the record \<open>reg_env\<close>; \<open>processStart\<close> is the
  platform's answer to a process ID, \<open>Some None\<close> for a process that is gone, \<open>None\<close> for one that
  cannot be read. Every operation takes the one clock reading of its transaction.
\<close>

section \<open>Labels and names\<close>

text \<open>
  \<open>strings.ToLower\<close> followed by the replacement of \<open>[^a-z0-9-]+\<close>: a rune whose lower case is in the set
  is kept (the Kelvin sign and the dotted capital I have ASCII lower cases), every other one is
  replaced, a run of replaced runes by one hyphen.
\<close>

definition label_rune :: "nat \<Rightarrow> char option" where
  "label_rune r =
     (if 65 \<le> r \<and> r \<le> 90 then Some (char_of (r + 32))
      else if r = 8490 then Some CHR ''k''
      else if r = 304 then Some CHR ''i''
      else if (97 \<le> r \<and> r \<le> 122) \<or> (48 \<le> r \<and> r \<le> 57) \<or> r = 45 then Some (char_of r)
      else None)"

fun label_bytes :: "char option list \<Rightarrow> string" where
  "label_bytes [] = []"
| "label_bytes (Some c # cs) = c # label_bytes cs"
| "label_bytes (None # None # cs) = label_bytes (None # cs)"
| "label_bytes (None # cs) = CHR ''-'' # label_bytes cs"

definition trim_right :: "char \<Rightarrow> string \<Rightarrow> string" where
  "trim_right c s = rev (dropWhile (\<lambda>x. x = c) (rev s))"

definition label :: "string \<Rightarrow> string \<Rightarrow> string" where
  "label repository directory =
     (let base = (if repository = [] then path_base directory
                  else if path_base repository = ''.git'' then path_base (path_dir repository)
                  else trim_suffix (path_base repository) ''.git'');
          result = trim_right CHR ''-'' (dropWhile (\<lambda>x. x = CHR ''-'')
                     (label_bytes (map (\<lambda>x. label_rune (fst x)) (decode_runes base))));
          short = (if length result > 32 then trim_right CHR ''-'' (take 32 result) else result)
      in if short = [] then ''session'' else short)"

definition overwatchName :: string where "overwatchName = ''overwatch''"

definition nameTaken :: "db \<Rightarrow> string \<Rightarrow> bool" where
  "nameTaken d name \<longleftrightarrow> name = overwatchName \<or> (\<exists>n\<in>set (names d). n_name n = name)"

text \<open>The table constraints of \<open>names\<close>: its primary key and its two partial unique indexes.\<close>

definition name_ok :: "nameRow \<Rightarrow> nameRow list \<Rightarrow> bool" where
  "name_ok n t \<longleftrightarrow> (\<forall>q\<in>set t. n_name q \<noteq> n_name n)
     \<and> (n_kind n = ''peer'' \<longrightarrow> (\<forall>q\<in>set t. n_kind q = ''peer'' \<longrightarrow> (n_family q, n_session_id q) \<noteq> (n_family n, n_session_id n)))
     \<and> (n_kind n = ''alias'' \<longrightarrow> (\<forall>q\<in>set t. n_kind q = ''alias'' \<longrightarrow>
          (n_family q, n_repository q, n_role q) \<noteq> (n_family n, n_repository n, n_role n)))"

definition insert_name :: "nameRow \<Rightarrow> db \<Rightarrow> kerror + db" where
  "insert_name n d = rbind (insert_row ErrConstraint name_ok n (names d)) (\<lambda>t. Inr (d\<lparr>names := t\<rparr>))"

definition firstFree :: "string list \<Rightarrow> (string \<Rightarrow> db \<Rightarrow> kerror + db) \<Rightarrow> db \<Rightarrow> kerror + db" where
  "firstFree candidates ins d =
     (case List.find (\<lambda>c. \<not> nameTaken d c) candidates of None \<Rightarrow> Inl NoFreeName | Some c \<Rightarrow> ins c d)"

definition lengths :: "string \<Rightarrow> string \<Rightarrow> string list" where
  "lengths base digest = map (\<lambda>n. base @ ''-'' @ take n digest) (filter (\<lambda>n. even n) [4..<Suc (length digest)])"

definition peer_candidates :: "ext \<Rightarrow> string \<Rightarrow> string \<Rightarrow> string \<Rightarrow> string list" where
  "peer_candidates x base family i =
     (let sum = sha256 x (family @ [char_of (0::nat)] @ i)
      in map (\<lambda>offset. base @ ''-'' @ hex_padded 2 ((hd sum + offset) mod 256)) [0..<256]
         @ lengths base (hex_encode sum))"

definition peerName :: "ext \<Rightarrow> string \<Rightarrow> string \<Rightarrow> string \<Rightarrow> string \<Rightarrow> db \<Rightarrow> kerror + db" where
  "peerName x family i repository directory d =
     (case peer_row d family i of
        Some _ \<Rightarrow> Inr d
      | None \<Rightarrow>
          firstFree (peer_candidates x (family @ ''-'' @ label repository directory) family i)
            (\<lambda>name. insert_name \<lparr>n_name = name, n_kind = ''peer'', n_family = family, n_session_id = i,
               n_repository = repository, n_holder_id = [], n_role = [], n_conflict = None\<rparr>) d)"

definition AddressBase :: "string \<Rightarrow> string \<Rightarrow> string \<Rightarrow> string \<Rightarrow> string" where
  "AddressBase family repository directory role =
     (let base = family @ ''-'' @ label repository directory
      in if role \<noteq> [] then base @ ''-'' @ role else base)"

record participant =
  p_family :: string
  p_id :: string
  p_repository :: string
  p_directory :: string
  p_role :: string
  p_subagent :: bool
  p_was_active :: bool

definition createAddress :: "ext \<Rightarrow> participant \<Rightarrow> db \<Rightarrow> kerror + (string \<times> db)" where
  "createAddress x p d =
     (let base = AddressBase (p_family p) (p_repository p) (p_directory p) (p_role p);
          seed = (if p_role p \<noteq> [] then p_repository p @ [char_of (0::nat)] @ p_role p else p_repository p);
          candidates = base # lengths base (hex_encode (sha256 x seed))
      in case List.find (\<lambda>c. \<not> nameTaken d c) candidates of
           None \<Rightarrow> Inl NoFreeName
         | Some name \<Rightarrow>
             rbind (insert_name \<lparr>n_name = name, n_kind = ''alias'', n_family = p_family p, n_session_id = [],
                n_repository = p_repository p, n_holder_id = [], n_role = p_role p, n_conflict = None\<rparr> d) (\<lambda>d'.
             Inr (name, d')))"

section \<open>Events, fences and holders\<close>

definition participantEvent ::
  "int \<Rightarrow> string \<Rightarrow> string \<Rightarrow> string \<Rightarrow> string \<Rightarrow> string \<Rightarrow> string \<Rightarrow> db \<Rightarrow> db" where
  "participantEvent now address former holder reason actor details d =
     d\<lparr>participant_events := participant_events d @ [\<lparr>pe_at = now, pe_address = address, pe_former = former,
        pe_holder = holder, pe_reason = reason, pe_actor = actor, pe_details = details\<rparr>]\<rparr>"

definition fence :: "int \<Rightarrow> string \<Rightarrow> string \<Rightarrow> string \<Rightarrow> string \<Rightarrow> db \<Rightarrow> db" where
  "fence now address family i reason d =
     (let row = \<lparr>f_address = address, f_family = family, f_session_id = i, f_at = now, f_reason = reason\<rparr>;
          same = (\<lambda>f. f_address f = address \<and> f_family f = family \<and> f_session_id f = i)
      in d\<lparr>participant_fences := (if is_fenced d address family i
             then update_where same (\<lambda>f. f\<lparr>f_at := now, f_reason := reason\<rparr>) (participant_fences d)
             else participant_fences d @ [row])\<rparr>)"

definition retire_active :: "int \<Rightarrow> string \<Rightarrow> string \<Rightarrow> db \<Rightarrow> db" where
  "retire_active now family i d = d\<lparr>sessions := update_where
     (\<lambda>s. s_family s = family \<and> s_id s = i \<and> row_active now s)
     (\<lambda>s. s\<lparr>s_retired_at := now, s_revision := s_revision s + 1\<rparr>) (sessions d)\<rparr>"

text \<open>The read mark and the notices of the participant's inbox start again for a new holder.\<close>

definition reset_inbox :: "int \<Rightarrow> string \<Rightarrow> string \<Rightarrow> db \<Rightarrow> db" where
  "reset_inbox now family i d =
     (let acked = map_option s_acked_through (session_row d family i)
      in d\<lparr>sessions := update_where (\<lambda>s. s_family s = family \<and> s_id s = i)
             (\<lambda>s. s\<lparr>s_read_through := s_acked_through s\<rparr>) (sessions d),
           messages := update_where (\<lambda>g. g_recipient_family g = family \<and> g_recipient_id g = i
               \<and> g_delivery_state g \<in> {''notified'', ''uncertain'', ''failed''}
               \<and> (case acked of None \<Rightarrow> False | Some a \<Rightarrow> g_seq g > a))
             (\<lambda>g. g\<lparr>g_delivery_state := ''waiting'', g_delivery_reason := [], g_delivery_updated_at := now,
                g_wake_reason := [], g_wake_attempts := 0, g_wake_next_at := 0, g_wake_notices := 0\<rparr>) (messages d)\<rparr>)"

definition set_alias :: "string \<Rightarrow> (nameRow \<Rightarrow> nameRow) \<Rightarrow> db \<Rightarrow> db" where
  "set_alias address f d = d\<lparr>names := update_where (\<lambda>n. n_name n = address) f (names d)\<rparr>"

definition setHolder ::
  "int \<Rightarrow> string \<Rightarrow> string \<Rightarrow> string \<Rightarrow> string \<Rightarrow> string \<Rightarrow> string \<Rightarrow> db \<Rightarrow> kerror + db" where
  "setHolder now address former i reason actor details d =
     (let d1 = set_alias address (\<lambda>n. n\<lparr>n_holder_id := i, n_conflict := None\<rparr>) d
      in rbind (opt_err ErrNoRows (List.find (\<lambda>n. n_name n = address) (names d1))) (\<lambda>n.
         let family = n_family n;
             d2 = (if former \<noteq> [] \<and> former \<noteq> i
                   then fence now address family former reason (retire_active now family former d1) else d1);
             d3 = (if former \<noteq> i then reset_inbox now family (participantKey address) d2 else d2)
         in Inr (participantEvent now address (peerOf d3 family former) (peerOf d3 family i) reason actor details d3)))"

definition releaseAddress :: "int \<Rightarrow> string \<Rightarrow> string \<Rightarrow> string \<Rightarrow> string \<Rightarrow> db \<Rightarrow> db" where
  "releaseAddress now family i reason actor d =
     (let held = (\<lambda>n. n_kind n = ''alias'' \<and> n_family n = family \<and> n_holder_id n = i);
          addresses = sort (map n_name (filter held (names d)));
          d1 = d\<lparr>names := update_where held (\<lambda>n. n\<lparr>n_holder_id := []\<rparr>) (names d)\<rparr>;
          former = peerOf d1 family i
      in if addresses = [] then d
         else fold (\<lambda>address. participantEvent now address former [] reason actor []) addresses d1)"

definition qualifiers :: "db \<Rightarrow> int \<Rightarrow> participant \<Rightarrow> string \<Rightarrow> (string \<times> string) list" where
  "qualifiers d now p address =
     take 33 (sort_key snd (map (\<lambda>s. (s_id s, case peer_row d (s_family s) (s_id s) of None \<Rightarrow> [] | Some n \<Rightarrow> n_name n))
       (filter (\<lambda>s. s_family s = p_family p \<and> s_repository s = p_repository p \<and> s_role s = p_role p \<and> \<not> s_subagent s
          \<and> row_active now s \<and> notParticipantRow s \<and> participantQualifier s
          \<and> \<not> is_fenced d address (s_family s) (s_id s)) (sessions d))))"

definition record_conflict :: "ext \<Rightarrow> int \<Rightarrow> string \<Rightarrow> string \<Rightarrow> string \<Rightarrow> string list option \<Rightarrow> string list \<Rightarrow> db \<Rightarrow> db" where
  "record_conflict x now family address holder conflict peers d =
     (if conflict = Some peers \<and> holder = [] then d
      else
        let d1 = set_alias address (\<lambda>n. n\<lparr>n_conflict := Some peers, n_holder_id := []\<rparr>) d;
            d2 = (if holder \<noteq> [] then fence now address family holder ''conflict'' (retire_active now family holder d1) else d1)
        in participantEvent now address (peerOf d2 family holder) [] ''conflict'' ''session'' (json_text x peers) d2)"

definition takeAddress :: "ext \<Rightarrow> int \<Rightarrow> participant \<Rightarrow> string \<Rightarrow> string \<Rightarrow> string list option \<Rightarrow> db \<Rightarrow> kerror + db" where
  "takeAddress x now p address holder conflict d =
     (if holder = p_id p \<and> p_was_active p then Inr d
      else if holder \<noteq> [] \<and> holder \<noteq> p_id p \<and> holds d now (p_family p) holder (p_repository p) (p_role p) then Inr d
      else let qs = qualifiers d now p address in
        if length qs = 1 \<and> fst (hd qs) = p_id p then
          (if holder = p_id p then Inr d
           else setHolder now address holder (p_id p) ''only_qualifier'' ''session'' [] d)
        else if length qs > 1 then Inr (record_conflict x now (p_family p) address holder conflict (map snd qs) d)
        else Inr d)"

definition assignNames :: "ext \<Rightarrow> int \<Rightarrow> participant \<Rightarrow> db \<Rightarrow> kerror + db" where
  "assignNames x now p d =
     rbind (peerName x (p_family p) (p_id p) (p_repository p) (p_directory p) d) (\<lambda>d1.
     if p_subagent p then Inr (releaseAddress now (p_family p) (p_id p) ''subagent'' ''daemon'' d1)
     else rbind (opt_err ErrNoRows (session_row d1 (p_family p) (p_id p))) (\<lambda>s.
       if \<not> participantQualifier s then Inr (releaseAddress now (p_family p) (p_id p) ''plain_peer'' ''daemon'' d1)
       else if p_repository p = [] then Inr d1
       else case alias_row d1 (p_family p) (p_repository p) (p_role p) of
           Some n \<Rightarrow> takeAddress x now p (n_name n) (n_holder_id n) (n_conflict n) d1
         | None \<Rightarrow> rbind (createAddress x p d1) (\<lambda>(address, d2). takeAddress x now p address [] None d2)))"

definition ensureParticipantInbox :: "int \<Rightarrow> string \<Rightarrow> db \<Rightarrow> kerror + db" where
  "ensureParticipantInbox now address d =
     rbind (opt_err ErrNoRows (List.find (\<lambda>n. n_name n = address \<and> n_kind n = ''alias'') (names d))) (\<lambda>n.
     Inr (case session_row d (n_family n) (participantKey address) of
            Some _ \<Rightarrow> d
          | None \<Rightarrow> d\<lparr>sessions := sessions d @ [\<lparr>s_family = n_family n, s_id = participantKey address,
              s_repository = n_repository n, s_directory = [], s_wake_target = JObj [], s_registered_at = now,
              s_renewed_at = now, s_expires_at = 9007199254740991, s_retired_at = 0, s_revision = 1, s_last_seq = 0,
              s_acked_through = 0, s_read_through = 0, s_acked_by = [], s_subagent = False, s_role = n_role n,
              s_host_pid = 0, s_host_start = 0, s_tmux_socket = [], s_tmux_pane = [], s_tmux_path = [], s_purge_at = 0,
              s_succession = None\<rparr>]\<rparr>))"

section \<open>The maintainer's choice\<close>

definition chooseHolder :: "int \<Rightarrow> string \<Rightarrow> Key \<Rightarrow> int \<Rightarrow> string \<Rightarrow> db \<Rightarrow> kerror + (string \<times> db)" where
  "chooseHolder now address k revision details d =
     (if address = [] \<or> length address > 256 \<or> \<not> validKey (k_family k) (k_id k) \<or> revision \<le> 0 then Inl ErrInvalid
      else rbind (scanSession d now k) (\<lambda>s.
        if s_revision (sv_row s) \<noteq> revision \<or> sv_state s \<noteq> ''active'' then Inl ErrConflict
        else if sv_address s \<noteq> address then Inl ErrNotParticipant
        else rbind (opt_err ErrNoRows (List.find (\<lambda>n. n_name n = address \<and> n_kind n = ''alias'') (names d))) (\<lambda>n.
          let holder = n_holder_id n;
              d1 = d\<lparr>participant_fences := filter (\<lambda>f. \<not> (f_address f = address \<and> f_family f = k_family k \<and> f_session_id f = k_id k))
                        (participant_fences d)\<rparr>;
              former = (if holder \<noteq> [] \<and> holder \<noteq> k_id k then peerOf d1 (k_family k) holder else [])
          in if holder = k_id k then Inr (former, d1)
             else rbind (fenceCyclesTx now ''holder_changed'' (\<lambda>c. c_address c = address) d1) (\<lambda>d2.
               rbind (setHolder now address holder (k_id k) ''maintainer_choice'' ''maintainer'' details d2) (\<lambda>d3.
               Inr (former, d3))))))"

definition ErrHolderNotActive :: kerror where
  "ErrHolderNotActive = Refusal ''session_not_active'' ''the session is not active''"
definition ErrHolderRevisionChanged :: kerror where
  "ErrHolderRevisionChanged = Refusal ''revision_changed'' ''the session changed since its revision was read''"

definition ChooseHolderByPeer :: "int \<Rightarrow> string \<Rightarrow> string \<Rightarrow> int \<Rightarrow> db \<Rightarrow> kerror + (string \<times> db)" where
  "ChooseHolderByPeer now address peer revision d =
     (if address = [] \<or> length address > 256 \<or> peer = [] \<or> length peer > 256 \<or> revision < 0 then Inl ErrInvalid
      else rbind (opt_err ErrPeerNotFound (List.find (\<lambda>n. n_kind n = ''peer'' \<and> n_name n = peer \<and> n_family n \<noteq> ''maintainer'') (names d))) (\<lambda>n.
        let k = key (n_family n) (n_session_id n) in
        rbind (scanSession d now k) (\<lambda>s.
          case chooseHolder now address k (if revision = 0 then s_revision (sv_row s) else revision)
                 (CHR ''{'' # CHR 0x22 # ''origin'' @ [CHR 0x22] @ '':'' @ [CHR 0x22] @ ''cli'' @ [CHR 0x22] @ ''}'') d of
            Inl ErrConflict \<Rightarrow> Inl (if sv_state s \<noteq> ''active'' then ErrHolderNotActive else ErrHolderRevisionChanged)
          | r \<Rightarrow> r)))"

end
