(* ===== verification/Participants.thy ===== *)
theory Participants
  imports Registry
begin

text \<open>
  Succession of a participant on host evidence (\<^verbatim>\<open>succession.go\<close>) and the two writes of a session,
  \<open>Register\<close> and \<open>Mutate\<close> (\<^verbatim>\<open>store.go\<close>).
\<close>

section \<open>Tool calls and hosts\<close>

record toolCalls =
  tc_at :: "(Key \<times> int) list"
  tc_since :: int

definition ToolCall :: "int \<Rightarrow> int \<Rightarrow> Key \<Rightarrow> toolCalls \<Rightarrow> toolCalls" where
  "ToolCall now guard_ms caller t =
     (let kept = (if length (tc_at t) \<ge> 4096 then filter (\<lambda>(_, when). now - when < guard_ms) (tc_at t) else tc_at t)
      in t\<lparr>tc_at := (caller, now) # filter (\<lambda>(k, _). k \<noteq> caller) kept\<rparr>)"

definition guardLeft :: "int \<Rightarrow> toolCalls \<Rightarrow> Key \<Rightarrow> int \<Rightarrow> int" where
  "guardLeft guard_ms t k now =
     fold (\<lambda>when left. if when \<noteq> 0 \<and> guard_ms - (now - when) > left then guard_ms - (now - when) else left)
       [case map_of (tc_at t) k of None \<Rightarrow> 0 | Some when \<Rightarrow> when, tc_since t] 0"

record host =
  h_pid :: int
  h_start :: int
  h_socket :: string
  h_pane :: string
  h_executable :: string

definition hostOf :: "db \<Rightarrow> string \<Rightarrow> string \<Rightarrow> kerror + host" where
  "hostOf d family i = rbind (opt_err ErrNoRows (session_row d family i)) (\<lambda>s.
     Inr \<lparr>h_pid = s_host_pid s, h_start = s_host_start s, h_socket = s_tmux_socket s, h_pane = s_tmux_pane s,
          h_executable = s_tmux_path s\<rparr>)"

definition json_int_member :: "json \<Rightarrow> string \<Rightarrow> int option" where
  "json_int_member j k =
     (case j of
        JObj ms \<Rightarrow> (case map_of ms k of None \<Rightarrow> Some 0 | Some JNull \<Rightarrow> Some 0 | Some (JInt n) \<Rightarrow> Some n | Some _ \<Rightarrow> None)
      | JNull \<Rightarrow> Some 0 | _ \<Rightarrow> None)"

definition hostPID :: "json \<Rightarrow> int" where
  "hostPID target =
     (case (json_int_member target ''host_pid'', json_int_member target ''claude_pid'') of
        (Some h, Some c) \<Rightarrow> if c > 0 then c else h
      | _ \<Rightarrow> 0)"

definition recordHost :: "(int \<Rightarrow> int option option) \<Rightarrow> int \<Rightarrow> (string \<times> string \<times> string) option \<Rightarrow> host" where
  "recordHost processStart pid pane =
     (let proven = pid > 0 \<and> (case processStart pid of Some (Some start) \<Rightarrow> start > 0 | _ \<Rightarrow> False);
          (socket, p, path) = (case pane of None \<Rightarrow> ([], [], []) | Some t \<Rightarrow> t)
      in \<lparr>h_pid = (if proven then pid else 0), h_start = (if proven then the (the (processStart pid)) else 0),
          h_socket = socket, h_pane = p, h_executable = path\<rparr>)"

definition hostEnded :: "(int \<Rightarrow> int option option) \<Rightarrow> host \<Rightarrow> bool" where
  "hostEnded processStart h = (case processStart (h_pid h) of
      Some None \<Rightarrow> True | Some (Some start) \<Rightarrow> start \<noteq> h_start h | None \<Rightarrow> False)"

definition holdsElsewhere :: "db \<Rightarrow> int \<Rightarrow> Key \<Rightarrow> host \<Rightarrow> string \<Rightarrow> bool" where
  "holdsElsewhere d now k h address \<longleftrightarrow> h_start h \<noteq> 0
     \<and> (\<exists>s\<in>set (sessions d). \<exists>n\<in>set (names d). n_kind n = ''alias'' \<and> n_family n = s_family s \<and> n_holder_id n = s_id s
          \<and> s_family s = k_family k \<and> s_id s \<noteq> k_id k \<and> s_host_pid s = h_pid h \<and> s_host_start s = h_start h
          \<and> row_active now s \<and> n_name n \<noteq> address)"

section \<open>Evidence of a managed cycle\<close>

record wakeTarget =
  wt_dsh_url :: string
  wt_dsh_credentials :: string

definition decodeWakeTarget :: "json \<Rightarrow> wakeTarget option" where
  "decodeWakeTarget j =
     (case (json_text_member j ''launch_id'', json_text_member j ''cli'', json_int_member j ''claude_pid'',
            json_text_member j ''dsh_url'', json_text_member j ''dsh_credentials'') of
        (Some _, Some _, Some _, Some url, Some cred) \<Rightarrow> Some \<lparr>wt_dsh_url = url, wt_dsh_credentials = cred\<rparr>
      | _ \<Rightarrow> None)"

definition deepSeekPrint :: "ext \<Rightarrow> string list \<Rightarrow> string" where
  "deepSeekPrint x parts = hex_encode (sha256 x (join_with [char_of (0::nat)] parts))"

definition deepSeekTargetPrint :: "ext \<Rightarrow> wakeTarget \<Rightarrow> string" where
  "deepSeekTargetPrint x t = deepSeekPrint x [''dsh'', wt_dsh_url t, wt_dsh_credentials t]"

definition deepSeekPinTarget :: "ext \<Rightarrow> string \<Rightarrow> wakeTarget \<Rightarrow> bool" where
  "deepSeekPinTarget x pin t \<longleftrightarrow> pin \<noteq> [] \<and> pin = deepSeekTargetPrint x t"

definition pinned_target :: "ext \<Rightarrow> db \<Rightarrow> string \<Rightarrow> string \<Rightarrow> string \<Rightarrow> bool" where
  "pinned_target x d pin family i =
     (case session_row d family i of
        None \<Rightarrow> False
      | Some s \<Rightarrow> (case decodeWakeTarget (s_wake_target s) of None \<Rightarrow> False | Some t \<Rightarrow> deepSeekPinTarget x pin t))"

definition deepSeekCycleVersion :: string where "deepSeekCycleVersion = ''dsh-session-1''"
definition cycleReceiptRetry :: int where "cycleReceiptRetry = 1000"

definition hostlessCycleLink :: "ext \<Rightarrow> db \<Rightarrow> int \<Rightarrow> Key \<Rightarrow> string \<Rightarrow> string \<Rightarrow> string" where
  "hostlessCycleLink x d now k address holder =
     (case List.find (\<lambda>c. c_finished_at c = 0 \<and> c_family c = k_family k \<and> c_address c = address \<and> c_session_id c = holder
              \<and> c_successor_epoch c = k_id k \<and> c_adapter c = deepSeekCycleVersion
              \<and> c_host_pid c = 0 \<and> c_host_start c = 0 \<and> c_socket c = [] \<and> c_pane c = []
              \<and> cycleEnabled d c \<and> c_stage_deadline c > now \<and> c_cycle_deadline c > now) (context_cycles d) of
        None \<Rightarrow> []
      | Some c \<Rightarrow>
          if \<not> pinned_target x d (c_adapter_pin c) (k_family k) (k_id k) then []
          else if \<not> pinned_target x d (c_adapter_pin c) (k_family k) holder then []
          else if \<exists>n\<in>set (names d). n_kind n = ''alias'' \<and> n_family n = k_family k \<and> n_holder_id n = k_id k \<and> n_name n \<noteq> address
          then []
          else if c_state c = cyclePickupIntent then ''pending''
          else if awaitingPickup c then ''linked''
          else [])"

definition cycleResetLink :: "db \<Rightarrow> int \<Rightarrow> Key \<Rightarrow> string \<Rightarrow> string \<Rightarrow> host \<Rightarrow> bool" where
  "cycleResetLink d now k address holder sh \<longleftrightarrow>
     (\<exists>c\<in>set (context_cycles d). c_finished_at c = 0 \<and> c_family c = k_family k \<and> c_address c = address
        \<and> c_session_id c = holder \<and> c_successor_epoch c = k_id k \<and> c_host_pid c = h_pid sh \<and> c_host_start c = h_start sh
        \<and> c_socket c = h_socket sh \<and> c_pane c = h_pane sh
        \<and> (c_state c \<in> {cycleResetVerified, cyclePickupIntent, cycleWaitingPickup}
           \<or> (c_state c \<in> {cycleWaitingPrompt, cyclePromptIntent}
              \<and> c_prompt_from c \<in> {cycleResetVerified, cyclePickupIntent, cycleWaitingPickup}))
        \<and> cycleEnabled d c \<and> c_stage_deadline c > now \<and> c_cycle_deadline c > now)"

definition carrySameHostEnable :: "int \<Rightarrow> Key \<Rightarrow> string \<Rightarrow> string \<Rightarrow> db \<Rightarrow> db" where
  "carrySameHostEnable now k address former d =
     (case (session_row d (k_family k) (k_id k), session_row d (k_family k) former, enable_row d (k_family k) former) of
        (Some s, Some old, Some e) \<Rightarrow>
          if en_enabled e \<and> en_address e = address \<and> en_host_pid e = s_host_pid old \<and> en_host_start e = s_host_start old
             \<and> en_socket e = s_tmux_socket old \<and> en_pane e = s_tmux_pane old
          then
            let kept = en_kept_revision e = en_revision e;
                fresh = \<lparr>en_family = s_family s, en_session_id = s_id s, en_enabled = True, en_revision = 1,
                  en_session_revision = s_revision s, en_address = address, en_host_pid = s_host_pid s,
                  en_host_start = s_host_start s, en_socket = s_tmux_socket s, en_pane = s_tmux_pane s,
                  en_updated_at = now, en_threshold = en_threshold e, en_kept_epoch = en_kept_epoch e,
                  en_kept_revision = (if kept then 1 else 0), en_kept_read = en_kept_read e\<rparr>;
                d1 = (case enable_row d (s_family s) (s_id s) of
                        None \<Rightarrow> d\<lparr>context_enables := context_enables d @ [fresh]\<rparr>
                      | Some q \<Rightarrow> d\<lparr>context_enables := update_where
                          (\<lambda>q. en_family q = s_family s \<and> en_session_id q = s_id s)
                          (\<lambda>q. fresh\<lparr>en_revision := en_revision q + 1,
                             en_kept_revision := (if kept then en_revision q + 1 else 0)\<rparr>) (context_enables d)\<rparr>)
            in disable now (k_family k) former d1
          else d
      | _ \<Rightarrow> d)"

section \<open>Succession\<close>

definition refused :: "string \<Rightarrow> int \<Rightarrow> string \<Rightarrow> int \<Rightarrow> Succession" where
  "refused address now reason retry =
     \<lparr>su_result = ''refused'', su_reason = reason, su_address = address, su_holder = [], su_at = now, su_retry_after_ms = retry\<rparr>"

text \<open>
  The decision of \<open>succeed\<close>: \<open>Inr\<close> the evidence, or \<open>Inl\<close> the refusal with its retry time.
\<close>

definition evidence_of ::
  "ext \<Rightarrow> (int \<Rightarrow> int option option) \<Rightarrow> int \<Rightarrow> toolCalls \<Rightarrow> db \<Rightarrow> int \<Rightarrow> Key \<Rightarrow> string \<Rightarrow> string \<Rightarrow> bool \<Rightarrow> bool \<Rightarrow> host \<Rightarrow> host
    \<Rightarrow> (string \<times> int) + string" where
  "evidence_of x processStart guard_ms calls d now k address holder subagent clear sh hh =
     (let fenced = is_fenced d address (k_family k) (k_id k);
          sameHost = h_start sh \<noteq> 0 \<and> h_pid sh = h_pid hh \<and> h_start sh = h_start hh;
          samePane = h_pane sh \<noteq> [] \<and> h_socket sh = h_socket hh \<and> h_pane sh = h_pane hh;
          other = holdsElsewhere d now k sh address;
          link = \<not> fenced \<and> \<not> subagent \<and> h_start sh \<noteq> 0 \<and> h_start hh \<noteq> 0 \<and> \<not> other \<and> sameHost \<and> samePane
            \<and> cycleResetLink d now k address holder sh;
          session = (if k_family k = ''deepseek'' \<and> \<not> fenced \<and> \<not> subagent \<and> h_start sh = 0 \<and> h_start hh = 0
                     then hostlessCycleLink x d now k address holder else [])
      in if fenced then Inl (''fenced'', 0)
         else if subagent then Inl (''subagent'', 0)
         else if session = ''linked'' then Inr ''cycle_session''
         else if session = ''pending'' then Inl (''cycle_receipt_pending'', cycleReceiptRetry)
         else if h_start sh = 0 \<or> h_start hh = 0 then Inl (''no_host'', 0)
         else if other then Inl (''other_participant'', 0)
         else if link then Inr ''cycle_reset''
         else if sameHost \<and> clear then Inr ''host_cleared''
         else if sameHost then
           (let left = guardLeft guard_ms calls (key (k_family k) holder) now
            in if left > 0 then Inl (''holder_active'', left) else Inr ''same_host'')
         else if samePane then (if hostEnded processStart hh then Inr ''same_pane'' else Inl (''host_running'', 0))
         else Inl (''other_pane'', 0))"

definition adopt_pane :: "Key \<Rightarrow> host \<Rightarrow> db \<Rightarrow> db" where
  "adopt_pane k hh d = d\<lparr>sessions := update_where (\<lambda>s. s_family s = k_family k \<and> s_id s = k_id k)
     (\<lambda>s. s\<lparr>s_tmux_socket := h_socket hh, s_tmux_pane := h_pane hh, s_tmux_path := h_executable hh\<rparr>) (sessions d)\<rparr>"

text \<open>\<open>details\<close> stands for the JSON of the evidence, which the event records and nothing reads.\<close>

definition succeed ::
  "ext \<Rightarrow> (int \<Rightarrow> int option option) \<Rightarrow> int \<Rightarrow> toolCalls \<Rightarrow> string \<Rightarrow> int \<Rightarrow> Key \<Rightarrow> string \<Rightarrow> string \<Rightarrow> bool \<Rightarrow> bool \<Rightarrow> db
    \<Rightarrow> kerror + (Succession option \<times> db)" where
  "succeed x processStart guard_ms calls details now k repository role subagent clear d =
     (if repository = [] then Inr (None, d)
      else case alias_row d (k_family k) repository role of
        None \<Rightarrow> Inr (None, d)
      | Some n \<Rightarrow>
          if n_holder_id n = [] \<or> n_holder_id n = k_id k then Inr (None, d)
          else if \<not> holds d now (k_family k) (n_holder_id n) repository role then Inr (None, d)
          else
            rbind (hostOf d (k_family k) (k_id k)) (\<lambda>sh.
            rbind (hostOf d (k_family k) (n_holder_id n)) (\<lambda>hh.
            let address = n_name n; holder = n_holder_id n; hname = peerOf d (k_family k) holder in
            case evidence_of x processStart guard_ms calls d now k address holder subagent clear sh hh of
              Inr evidence \<Rightarrow>
                let d1 = (if evidence = ''host_cleared'' \<and> h_pane sh = [] \<and> h_pane hh \<noteq> [] then adopt_pane k hh d else d);
                    samePane = h_pane sh \<noteq> [] \<and> h_socket sh = h_socket hh \<and> h_pane sh = h_pane hh;
                    d2 = (if evidence = ''same_host'' \<and> samePane \<and> h_socket sh \<noteq> [] then carrySameHostEnable now k address holder d1 else d1)
                in rbind (setHolder now address holder (k_id k) evidence ''session'' details d2) (\<lambda>d3.
                   Inr (Some \<lparr>su_result = ''succeeded'', su_reason = evidence, su_address = address, su_holder = hname,
                              su_at = now, su_retry_after_ms = 0\<rparr>, d3))
            | Inl (reason, retry) \<Rightarrow>
                let result = (refused address now reason retry)\<lparr>su_holder := hname\<rparr> in
                rbind (opt_err ErrNoRows (session_row d (k_family k) (k_id k))) (\<lambda>s.
                Inr (Some result,
                  if (case s_succession s of None \<Rightarrow> False
                      | Some l \<Rightarrow> su_result l = su_result result \<and> su_reason l = su_reason result
                          \<and> su_address l = su_address result \<and> su_holder l = su_holder result)
                  then d
                  else participantEvent now address [] hname ''succession_refused'' ''session'' details d)))))"

section \<open>Registration\<close>

record reg_env =
  re_directory :: "string option"
  re_common :: "kerror + string"
  re_dir_common :: "kerror + string"

definition validPane :: "(string \<times> string \<times> string) option \<Rightarrow> bool" where
  "validPane t = (case t of None \<Rightarrow> True | Some (socket, pane, path) \<Rightarrow>
     (case pane of c # ds \<Rightarrow> c = CHR ''%'' \<and> 1 \<le> length ds \<and> length ds \<le> 9 \<and> (\<forall>x\<in>set ds. x \<in> set ''0123456789'') | [] \<Rightarrow> False)
     \<and> CleanAbsolutePath socket \<and> (path = [] \<or> CleanAbsolutePath path))"

definition has_line_byte :: "string \<Rightarrow> bool" where
  "has_line_byte s \<longleftrightarrow> (\<exists>c\<in>set s. c = char_of (0::nat) \<or> c = char_of (13::nat) \<or> c = char_of (10::nat))"

definition upsert_session :: "int \<Rightarrow> int \<Rightarrow> Registration \<Rightarrow> string \<Rightarrow> string \<Rightarrow> json \<Rightarrow> string \<Rightarrow> host \<Rightarrow> db \<Rightarrow> db" where
  "upsert_session now duration r common directory target role h d =
     (case session_row d (rg_family r) (rg_id r) of
        None \<Rightarrow> d\<lparr>sessions := sessions d @ [\<lparr>s_family = rg_family r, s_id = rg_id r, s_repository = common,
            s_directory = directory, s_wake_target = target, s_registered_at = now, s_renewed_at = now,
            s_expires_at = now + duration, s_retired_at = 0, s_revision = 1, s_last_seq = 0, s_acked_through = 0,
            s_read_through = 0, s_acked_by = [], s_subagent = rg_subagent r, s_role = role, s_host_pid = h_pid h,
            s_host_start = h_start h, s_tmux_socket = h_socket h, s_tmux_pane = h_pane h, s_tmux_path = h_executable h,
            s_purge_at = 0, s_succession = None\<rparr>]\<rparr>
      | Some _ \<Rightarrow> d\<lparr>sessions := update_where (\<lambda>s. s_family s = rg_family r \<and> s_id s = rg_id r)
            (\<lambda>s. s\<lparr>s_repository := common, s_directory := directory, s_wake_target := target, s_renewed_at := now,
               s_expires_at := now + duration, s_retired_at := 0, s_revision := s_revision s + 1,
               s_subagent := s_subagent s \<or> rg_subagent r, s_role := role, s_host_pid := h_pid h, s_host_start := h_start h,
               s_tmux_socket := h_socket h, s_tmux_pane := h_pane h, s_tmux_path := h_executable h\<rparr>) (sessions d)\<rparr>)"

definition set_succession :: "string \<Rightarrow> string \<Rightarrow> Succession option \<Rightarrow> db \<Rightarrow> db" where
  "set_succession family i v d = d\<lparr>sessions := update_where (\<lambda>s. s_family s = family \<and> s_id s = i)
     (\<lambda>s. s\<lparr>s_succession := v\<rparr>) (sessions d)\<rparr>"

text \<open>The checks of \<open>Register\<close> before its transaction: the resolved directory and the repository.\<close>

definition register_checks :: "int \<Rightarrow> reg_env \<Rightarrow> Registration \<Rightarrow> kerror + (int \<times> string \<times> string)" where
  "register_checks lifetime env r =
     rbind (guard (validKey (rg_family r) (rg_id r) \<and> rg_wake_bytes r \<le> 8192 \<and> validPane (rg_tmux r)
              \<and> \<not> (rg_clear r \<and> (\<not> rg_tool_call r \<or> rg_family r \<noteq> ''codex''))) ErrInvalid) (\<lambda>_.
     rbind (ttl lifetime (rg_ttl_seconds r)) (\<lambda>duration.
     rbind (opt_err ErrInvalid (re_directory env)) (\<lambda>directory.
     rbind (guard (is_abs (rg_directory r) \<and> length directory \<le> 4096 \<and> \<not> has_line_byte directory) ErrInvalid) (\<lambda>_.
     rbind (if rg_repository r = [] then Inr []
            else rbind (re_common env) (\<lambda>common. rbind (re_dir_common env) (\<lambda>dirCommon.
                   if common \<noteq> dirCommon then Inl ErrInvalid else Inr common))) (\<lambda>common.
     rbind (guard (rg_wake_bytes r = 0 \<or> rg_wake r \<noteq> None) ErrInvalid) (\<lambda>_.
     Inr (duration, directory, common)))))))"

text \<open>What a registration records of a succession: a tool call may succeed; a plain peer has none.\<close>

definition register_succession ::
  "ext \<Rightarrow> (int \<Rightarrow> int option option) \<Rightarrow> int \<Rightarrow> toolCalls \<Rightarrow> string \<Rightarrow> int \<Rightarrow> Registration \<Rightarrow> string \<Rightarrow> string \<Rightarrow> bool \<Rightarrow> db
    \<Rightarrow> kerror + db" where
  "register_succession x processStart guard_ms calls details now r common role subagent d =
     (if rg_tool_call r \<and> (rg_family r = ''deepseek'' \<or> rg_launch_id r \<noteq> []) then
        rbind (succeed x processStart guard_ms calls details now (key (rg_family r) (rg_id r)) common role subagent (rg_clear r) d)
          (\<lambda>(result, d'). Inr (case result of None \<Rightarrow> d' | Some v \<Rightarrow> set_succession (rg_family r) (rg_id r) (Some v) d'))
      else if rg_launch_id r = [] \<and> rg_family r \<noteq> ''deepseek'' then Inr (set_succession (rg_family r) (rg_id r) None d)
      else Inr d)"

definition Register ::
  "ext \<Rightarrow> (int \<Rightarrow> int option option) \<Rightarrow> int \<Rightarrow> int \<Rightarrow> toolCalls \<Rightarrow> string \<Rightarrow> reg_env \<Rightarrow> int \<Rightarrow> Registration \<Rightarrow> db
    \<Rightarrow> kerror + (Session \<times> bool \<times> toolCalls \<times> db)" where
  "Register x processStart lifetime guard_ms calls details env now r0 d =
     rbind (register_checks lifetime env r0) (\<lambda>(duration, directory, common).
     let r = (if rg_wake_bytes r0 = 0 then r0\<lparr>rg_wake_bytes := 2, rg_wake := Some (JObj [])\<rparr> else r0) in
     rbind (if rg_family r = ''deepseek''
            then (if rg_launch_id r \<noteq> [] \<or> rg_subagent r then Inl ErrInvalid else Inr (the (rg_wake r), []))
            else admitLaunch d r directory) (\<lambda>(target, role).
     let wasActive = (case session_row d (rg_family r) (rg_id r) of None \<Rightarrow> False | Some s \<Rightarrow> row_active now s);
         k = key (rg_family r) (rg_id r);
         calls' = (if rg_tool_call r then ToolCall now guard_ms k calls else calls);
         h = (if rg_launch_id r \<noteq> [] then recordHost processStart (hostPID target) (rg_tmux r)
              else \<lparr>h_pid = 0, h_start = 0, h_socket = [], h_pane = [], h_executable = []\<rparr>);
         d1 = upsert_session now duration r common directory target role h d
     in rbind (opt_err ErrNoRows (session_row d1 (rg_family r) (rg_id r))) (\<lambda>s.
        rbind (assignNames x now \<lparr>p_family = rg_family r, p_id = rg_id r, p_repository = common, p_directory = directory,
                 p_role = role, p_subagent = s_subagent s, p_was_active = wasActive\<rparr> d1) (\<lambda>d2.
        rbind (register_succession x processStart guard_ms calls' details now r common role (s_subagent s) d2) (\<lambda>d3.
        rbind (scanSession d3 now k) (\<lambda>view.
        rbind (hostOf d3 (rg_family r) (rg_id r)) (\<lambda>own.
        Inr (view, holdsElsewhere d3 now k own [], calls', d3))))))))"

text \<open>The two branches of \<open>Mutate\<close>; \<open>s\<close> is the row that was read.\<close>

definition retire_session :: "int \<Rightarrow> string \<Rightarrow> string \<Rightarrow> db \<Rightarrow> kerror + db" where
  "retire_session now family i d =
     fenceCyclesTx now ''retired'' (\<lambda>c. c_family c = family \<and> (c_session_id c = i \<or> c_successor_id c = i))
       (d\<lparr>sessions := update_where (\<lambda>s. s_family s = family \<and> s_id s = i)
            (\<lambda>s. s\<lparr>s_retired_at := now, s_revision := s_revision s + 1\<rparr>) (sessions d)\<rparr>)"

definition renew_session :: "ext \<Rightarrow> int \<Rightarrow> int \<Rightarrow> string \<Rightarrow> string \<Rightarrow> sessionRow \<Rightarrow> db \<Rightarrow> kerror + db" where
  "renew_session x now duration family i s d =
     (let own = (\<lambda>s. s_family s = family \<and> s_id s = i);
          plain = family \<noteq> ''deepseek'' \<and> \<not> launched (s_wake_target s);
          d1 = (if plain then d\<lparr>sessions := update_where own (\<lambda>s. s\<lparr>s_role := [], s_host_pid := 0, s_host_start := 0,
                  s_tmux_socket := [], s_tmux_pane := [], s_tmux_path := [], s_succession := None\<rparr>) (sessions d)\<rparr> else d);
          d2 = d1\<lparr>sessions := update_where own (\<lambda>s. s\<lparr>s_renewed_at := now, s_expires_at := now + duration,
                  s_revision := s_revision s + 1\<rparr>) (sessions d1)\<rparr>
      in assignNames x now \<lparr>p_family = family, p_id = i, p_repository = s_repository s, p_directory = s_directory s,
           p_role = (if plain then [] else s_role s), p_subagent = s_subagent s, p_was_active = True\<rparr> d2)"

definition Mutate ::
  "ext \<Rightarrow> int \<Rightarrow> int \<Rightarrow> string \<Rightarrow> string \<Rightarrow> int \<Rightarrow> int \<Rightarrow> bool \<Rightarrow> db \<Rightarrow> kerror + (Session \<times> bool \<times> db)" where
  "Mutate x lifetime now family i ifRevision ttlSeconds retire d =
     rbind (guard (validKey family i \<and> ifRevision \<ge> 1) ErrInvalid) (\<lambda>_.
     rbind (ttl lifetime ttlSeconds) (\<lambda>duration.
     rbind (scanSession d now (key family i)) (\<lambda>current.
     if sv_state current \<noteq> ''active'' \<and> \<not> retire then Inl (SessionConflict (sv_state current) (sv_fenced current))
     else if s_revision (sv_row current) \<noteq> ifRevision \<or> sv_state current \<noteq> ''active'' then Inl ErrConflict
     else
       rbind (if retire then retire_session now family i d else renew_session x now duration family i (sv_row current) d) (\<lambda>d'.
       rbind (scanSession d' now (key family i)) (\<lambda>view.
       if retire then Inr (view, False, d')
       else rbind (hostOf d' family i) (\<lambda>h. Inr (view, holdsElsewhere d' now (key family i) h [], d')))))))"

end
