(* ===== verification/Messaging.thy ===== *)
theory Messaging
  imports Participants
begin

text \<open>
  Messages between sessions (\<^verbatim>\<open>messages.go\<close>): sending to a peer name or a held address, reading an
  inbox in bounded pages, the read mark, acknowledgement, delivery state and the sender's view of a
  message. \<open>message_ids\<close> is the AUTOINCREMENT counter of the table, \<open>inbox_changes\<close> the maintainer's
  inbox counter (\<^verbatim>\<open>maintainer_changes.go\<close>). The audit text of a dashboard send is not modelled.
\<close>

section \<open>Sending\<close>

definition maxBody :: int where "maxBody = 65536"

text \<open>The table constraints of \<open>messages\<close>; the identifier is the next of the AUTOINCREMENT counter.\<close>

definition message_ok :: "messageRow \<Rightarrow> messageRow list \<Rightarrow> bool" where
  "message_ok g t \<longleftrightarrow> (\<forall>q\<in>set t. g_id q \<noteq> g_id g)
     \<and> (\<forall>q\<in>set t. (g_recipient_family q, g_recipient_id q, g_seq q) \<noteq> (g_recipient_family g, g_recipient_id g, g_seq g))
     \<and> g_delivery_state g \<in> {''waiting'', ''notified'', ''uncertain'', ''failed''}"

definition plain_message :: "int \<Rightarrow> int \<Rightarrow> Key \<Rightarrow> int \<Rightarrow> Key \<Rightarrow> string \<Rightarrow> string \<Rightarrow> messageRow" where
  "plain_message i now recipient seq sender name body =
     \<lparr>g_id = i, g_recipient_family = k_family recipient, g_recipient_id = k_id recipient, g_seq = seq,
      g_sender_family = k_family sender, g_sender_id = k_id sender, g_sender_name = name, g_body = body, g_created_at = now,
      g_delivery_state = ''waiting'', g_delivery_reason = [], g_delivery_updated_at = now, g_wake_attempts = 0,
      g_wake_next_at = 0, g_wake_reason = [], g_wake_notices = 0, g_maintainer_ack = False, g_ack_session = [], g_ack_via = [],
      g_room_id = [], g_room_revision = 0, g_room_event = [], g_room_seq = 0, g_room_origin = [], g_system_kind = [],
      g_cycle_id = [], g_cycle_enable_revision = 0, g_decision_verdict = 0\<rparr>"

definition insert_message :: "messageRow \<Rightarrow> db \<Rightarrow> kerror + db" where
  "insert_message g d = rbind (insert_row ErrConstraint message_ok g (messages d))
     (\<lambda>t. Inr (d\<lparr>messages := t, message_ids := g_id g\<rparr>))"

definition bumpInbox :: "Key \<Rightarrow> db \<Rightarrow> db" where
  "bumpInbox inbox d = (if inbox \<noteq> maintainerKey then d else d\<lparr>inbox_changes := inbox_changes d + 1\<rparr>)"

definition peer_name_of :: "db \<Rightarrow> string \<Rightarrow> string \<Rightarrow> kerror + string" where
  "peer_name_of d family i = rbind (opt_err ErrNoRows (peer_row d family i)) (\<lambda>n. Inr (n_name n))"

text \<open>The inbox that a name addresses: a peer's own, or the participant's while a session holds it.\<close>

definition resolve_recipient :: "int \<Rightarrow> string \<Rightarrow> db \<Rightarrow> kerror + (Key \<times> db)" where
  "resolve_recipient now to d =
     rbind (opt_err ErrPeerNotFound (List.find (\<lambda>n. n_name n = to) (names d))) (\<lambda>n.
     if n_kind n = ''alias'' then
       (if n_holder_id n \<noteq> [] \<and> holds d now (n_family n) (n_holder_id n) (n_repository n) (n_role n)
        then rbind (ensureParticipantInbox now to d) (\<lambda>d'. Inr (key (n_family n) (participantKey to), d'))
        else Inl ErrAliasUnheld)
     else Inr (key (n_family n) (n_session_id n), d))"

definition sender_name :: "db \<Rightarrow> int \<Rightarrow> Key \<Rightarrow> kerror + string" where
  "sender_name d now caller =
     (let held = heldAddress d now caller
      in if held = [] then peer_name_of d (k_family caller) (k_id caller) else Inr held)"

definition next_seq :: "int \<Rightarrow> Key \<Rightarrow> db \<Rightarrow> (int \<times> db) option" where
  "next_seq now k d =
     (let own = (\<lambda>s. s_family s = k_family k \<and> s_id s = k_id k \<and> row_active now s)
      in map_option (\<lambda>s. (s_last_seq s + 1, d\<lparr>sessions := update_where own (\<lambda>s. s\<lparr>s_last_seq := s_last_seq s + 1\<rparr>) (sessions d)\<rparr>))
           (List.find own (sessions d)))"

definition sendTx :: "(int \<Rightarrow> int option option) \<Rightarrow> int \<Rightarrow> Key \<Rightarrow> string \<Rightarrow> string \<Rightarrow> bool \<Rightarrow> db \<Rightarrow> kerror + (Outcome \<times> db)" where
  "sendTx processStart now caller to body dashboard d =
     rbind (activeCaller d now caller dashboard) (\<lambda>_.
     rbind (resolve_recipient now to d) (\<lambda>(k, d1).
     rbind (sender_name d1 now caller) (\<lambda>sender.
     case next_seq now k d1 of
       None \<Rightarrow> rbind (inactiveReason processStart d1 (k_family k) (k_id k)) (\<lambda>reason. Inl (InactiveRecipient reason))
     | Some (seq, d2) \<Rightarrow>
         let i = message_ids d2 + 1 in
         rbind (insert_message (plain_message i now k seq caller sender body) d2) (\<lambda>d3.
         let d4 = bumpInbox k d3 in
         rbind (if \<not> isParticipantID (k_id k) then peer_name_of d4 (k_family k) (k_id k) else Inr to) (\<lambda>recipient.
         Inr (\<lparr>o_id = i, o_recipient = recipient, o_seq = seq, o_delivery_state = ''waiting'', o_delivery_reason = [],
               o_wake_reason = [], o_notices = 0, o_updated_at = now, o_acknowledged = False, o_acknowledged_by = [],
               o_acknowledged_session = [], o_acknowledged_via = []\<rparr>, d4))))))"

definition send :: "(int \<Rightarrow> int option option) \<Rightarrow> int \<Rightarrow> Key \<Rightarrow> string \<Rightarrow> string \<Rightarrow> bool \<Rightarrow> db \<Rightarrow> kerror + (Outcome \<times> db)" where
  "send processStart now caller to body dashboard d =
     (if to = [] \<or> length to > 256 \<or> body = [] \<or> int (length body) > maxBody \<or> \<not> valid_utf8 body then Inl ErrInvalid
      else sendTx processStart now caller to body dashboard d)"

section \<open>Reading\<close>

definition acknowledgedBy :: "bool \<Rightarrow> bool \<Rightarrow> string" where
  "acknowledgedBy acknowledged maintainer =
     (if \<not> acknowledged then [] else if maintainer then ''maintainer'' else ''recipient'')"

definition agentAckVia :: "string \<Rightarrow> string" where
  "agentAckVia via = (if via = ''dashboard'' \<or> has_prefix via ''mcp:'' then ''maintainer'' else via)"

record Message =
  mg_row :: messageRow
  mg_acknowledged :: bool
  mg_acknowledged_by :: string
  mg_acknowledged_session :: string
  mg_acknowledged_via :: string
  mg_inbox :: string

record ParticipantInbox =
  pi_address :: string
  pi_last_seq :: int
  pi_acked_through :: int
  pi_more :: bool

record Inbox =
  ib_messages :: "Message list"
  ib_last_seq :: int
  ib_acked_through :: int
  ib_more :: bool
  ib_participant :: "ParticipantInbox option"

definition message_size :: "messageRow \<Rightarrow> nat" where
  "message_size g = length (g_body g) + (length (g_room_id g) + length (g_room_event g) + length (g_system_kind g) + length (g_cycle_id g))"

definition page_bytes :: nat where "page_bytes = 1048576"

text \<open>The loop of \<open>readMessages\<close> over the fetched rows.\<close>

fun page_loop :: "nat \<Rightarrow> nat \<Rightarrow> nat \<Rightarrow> messageRow list \<Rightarrow> messageRow list \<times> bool" where
  "page_loop limit count bytes [] = ([], False)"
| "page_loop limit count bytes (g # gs) =
     (if count = limit \<or> (count > 0 \<and> bytes + message_size g > page_bytes) then ([], True)
      else case page_loop limit (count + 1) (bytes + message_size g) gs of (page, remain) \<Rightarrow> (g # page, remain))"

definition inbox_rows :: "db \<Rightarrow> Key \<Rightarrow> int \<Rightarrow> messageRow list" where
  "inbox_rows d k after = sort_key g_seq (filter (\<lambda>g. g_recipient_family g = k_family k \<and> g_recipient_id g = k_id k \<and> g_seq g > after) (messages d))"

definition message_view :: "int \<Rightarrow> string \<Rightarrow> messageRow \<Rightarrow> Message" where
  "message_view acked kind g =
     (let a = g_seq g \<le> acked
      in \<lparr>mg_row = g, mg_acknowledged = a, mg_acknowledged_by = acknowledgedBy a (g_maintainer_ack g),
          mg_acknowledged_session = (if a then g_ack_session g else []), mg_acknowledged_via = (if a then g_ack_via g else []),
          mg_inbox = kind\<rparr>)"

definition readMessages :: "db \<Rightarrow> Key \<Rightarrow> int \<Rightarrow> nat \<Rightarrow> string \<Rightarrow> kerror + (int \<times> int \<times> bool \<times> Message list)" where
  "readMessages d k after limit kind =
     rbind (opt_err ErrNoRows (session_row d (k_family k) (k_id k))) (\<lambda>s.
     case page_loop limit 0 0 (take (limit + 1) (inbox_rows d k after)) of (page, remain) \<Rightarrow>
       Inr (s_last_seq s, s_acked_through s, remain, map (message_view (s_acked_through s) kind) page))"

definition agent_view :: "Message \<Rightarrow> Message" where
  "agent_view m = m\<lparr>mg_acknowledged_via := agentAckVia (mg_acknowledged_via m)\<rparr>"

text \<open>The read transaction of \<open>ReadInboxes\<close>; it returns the page and the held address.\<close>

definition read_page :: "db \<Rightarrow> int \<Rightarrow> Key \<Rightarrow> int \<Rightarrow> int option \<Rightarrow> int \<Rightarrow> kerror + (Inbox \<times> string)" where
  "read_page d now caller after participantAfter limit0 =
     (let limit = (if limit0 = 0 then 50 else limit0) in
      if after < 0 \<or> limit < 1 \<or> limit > 100 \<or> (\<exists>p\<in>set_option participantAfter. p < 0) then Inl ErrInvalid
      else rbind (activeCaller d now caller False) (\<lambda>_.
        let address = heldAddress d now caller in
        if participantAfter \<noteq> None \<and> address = [] then Inl (staleHolder d now caller)
        else rbind (readMessages d caller after (nat limit) ''session'') (\<lambda>(last_seq, acked, remain, own).
          if address = [] then
            Inr (\<lparr>ib_messages = map agent_view own, ib_last_seq = last_seq, ib_acked_through = acked, ib_more = remain, ib_participant = None\<rparr>, address)
          else
            let k = key (k_family caller) (participantKey address);
                from = (case participantAfter of None \<Rightarrow> 0 | Some p \<Rightarrow> p)
            in rbind (if session_row d (k_family k) (k_id k) = None then Inr (0, 0, False, [])
                      else readMessages d k from (nat limit) ''participant'') (\<lambda>(plast, packed, pmore, part).
               Inr (\<lparr>ib_messages = map agent_view (own @ part), ib_last_seq = last_seq, ib_acked_through = acked, ib_more = remain,
                     ib_participant = Some \<lparr>pi_address = address, pi_last_seq = plast, pi_acked_through = packed, pi_more = pmore\<rparr>\<rparr>, address)))))"

definition highest :: "Message list \<Rightarrow> int" where
  "highest ms = fold (\<lambda>m. max (g_seq (mg_row m))) ms 0"

definition set_read :: "Key \<Rightarrow> int \<Rightarrow> int \<Rightarrow> db \<Rightarrow> db" where
  "set_read k after through d = d\<lparr>sessions := update_where
     (\<lambda>s. s_family s = k_family k \<and> s_id s = k_id k \<and> s_read_through s < through
        \<and> max (s_read_through s) (s_acked_through s) \<ge> after)
     (\<lambda>s. s\<lparr>s_read_through := through\<rparr>) (sessions d)\<rparr>"

definition markRead :: "int \<Rightarrow> Key \<Rightarrow> string \<Rightarrow> int \<Rightarrow> int option \<Rightarrow> Message list \<Rightarrow> db \<Rightarrow> db" where
  "markRead now caller address after participantAfter ms d =
     (let own = filter (\<lambda>m. mg_inbox m \<noteq> ''participant'') ms;
          part = filter (\<lambda>m. mg_inbox m = ''participant'') ms;
          from = (case participantAfter of None \<Rightarrow> 0 | Some p \<Rightarrow> p);
          d1 = (if own = [] then d else set_read caller after (highest own) d)
      in if part = [] \<or> (address \<noteq> [] \<and> heldAddress d now caller \<noteq> address) then d1
         else set_read (key (k_family caller) (participantKey address)) from (highest part) d1)"

definition noteCycleInboxRead :: "Key \<Rightarrow> db \<Rightarrow> db" where
  "noteCycleInboxRead caller d = d\<lparr>context_enables := update_where
     (\<lambda>e. en_family e = k_family caller \<and> en_session_id e = k_id caller \<and> en_enabled e
        \<and> en_kept_revision e = en_revision e \<and> \<not> en_kept_read e)
     (\<lambda>e. e\<lparr>en_kept_read := True\<rparr>) (context_enables d)\<rparr>"

text \<open>
  A read with its two writes. Each write is a transaction of its own and is given up when storage
  refuses it: \<open>marked\<close> and \<open>noted\<close> say which were admitted, and \<open>later\<close> is the clock of the first.
\<close>

definition ReadInboxes :: "int \<Rightarrow> int \<Rightarrow> bool \<Rightarrow> bool \<Rightarrow> Key \<Rightarrow> int \<Rightarrow> int option \<Rightarrow> int \<Rightarrow> db \<Rightarrow> kerror + (Inbox \<times> db)" where
  "ReadInboxes now later marked noted caller after participantAfter limit d =
     rbind (read_page d now caller after participantAfter limit) (\<lambda>(inbox, address).
     let d1 = (if marked then markRead later caller address after participantAfter (ib_messages inbox) d else d);
         d2 = (if noted then noteCycleInboxRead caller d1 else d1)
     in Inr (inbox, d2))"

section \<open>Acknowledgement\<close>

definition ackedBy :: "db \<Rightarrow> Key \<Rightarrow> string" where
  "ackedBy d caller = (if caller = maintainerKey then ''maintainer''
     else case peer_row d (k_family caller) (k_id caller) of None \<Rightarrow> k_family caller | Some n \<Rightarrow> n_name n)"

definition set_acked :: "Key \<Rightarrow> (sessionRow \<Rightarrow> sessionRow) \<Rightarrow> int \<Rightarrow> int \<Rightarrow> (messageRow \<Rightarrow> messageRow) \<Rightarrow> db \<Rightarrow> db" where
  "set_acked k f acked through h d = d\<lparr>sessions := update_where (\<lambda>s. s_family s = k_family k \<and> s_id s = k_id k) f (sessions d),
     messages := update_where (\<lambda>g. g_recipient_family g = k_family k \<and> g_recipient_id g = k_id k \<and> g_seq g > acked \<and> g_seq g \<le> through)
       h (messages d)\<rparr>"

definition AckParticipant :: "int \<Rightarrow> Key \<Rightarrow> int \<Rightarrow> db \<Rightarrow> kerror + (string \<times> int \<times> db)" where
  "AckParticipant now caller through d =
     (if through < 0 then Inl ErrInvalid
      else rbind (activeCaller d now caller False) (\<lambda>_.
        let address = heldAddress d now caller in
        if address = [] then Inl (staleHolder d now caller)
        else rbind (ensureParticipantInbox now address d) (\<lambda>d1.
          let inbox = key (k_family caller) (participantKey address) in
          rbind (opt_err ErrNoRows (session_row d1 (k_family inbox) (k_id inbox))) (\<lambda>s.
          if through > s_last_seq s then Inl ErrAckBeyondLast
          else if through > s_acked_through s then
            Inr (address, through, set_acked inbox
              (\<lambda>s. s\<lparr>s_acked_through := through, s_acked_by := k_family caller @ '':'' @ k_id caller\<rparr>) (s_acked_through s) through
              (\<lambda>g. g\<lparr>g_ack_session := ackedBy d1 caller, g_ack_via := ''participant_ack''\<rparr>) d1)
          else Inr (address, s_acked_through s, d1)))))"

text \<open>\<open>origin\<close> is the maintainer client that the context names, empty for the dashboard itself.\<close>

definition ackIf :: "int \<Rightarrow> Key \<Rightarrow> int \<Rightarrow> bool \<Rightarrow> int \<Rightarrow> string \<Rightarrow> db \<Rightarrow> kerror + (int \<times> db)" where
  "ackIf now caller through0 dashboard revision origin d =
     (if through0 < 0 \<and> \<not> dashboard then Inl ErrInvalid
      else rbind (if dashboard then Inr () else activeCaller d now caller False) (\<lambda>_.
        rbind (opt_err (if dashboard then ErrMissing else ErrNoRows) (session_row d (k_family caller) (k_id caller))) (\<lambda>s.
        if revision > 0 \<and> s_revision s \<noteq> revision then Inl ErrConflict
        else let through = (if through0 < 0 then s_last_seq s else through0) in
          if through > s_last_seq s then Inl ErrAckBeyondLast
          else if through > s_acked_through s then
            (let name = (if dashboard then ''maintainer'' else ackedBy d caller);
                 via = (if dashboard then (if origin \<noteq> [] then origin else ''dashboard'') else ''ack'')
             in Inr (through, bumpInbox caller (set_acked caller (\<lambda>s. s\<lparr>s_acked_through := through\<rparr>) (s_acked_through s) through
               (\<lambda>g. g\<lparr>g_maintainer_ack := g_maintainer_ack g \<or> dashboard, g_ack_session := name, g_ack_via := via\<rparr>) d)))
          else Inr (s_acked_through s, d))))"

definition ackAt :: "int \<Rightarrow> Key \<Rightarrow> int \<Rightarrow> string \<Rightarrow> db \<Rightarrow> kerror + (int \<times> db)" where
  "ackAt now k revision origin d = (if revision < 1 then Inl ErrInvalid else ackIf now k (-1) True revision origin d)"

section \<open>Outcomes and delivery\<close>

definition MessageOutcome :: "db \<Rightarrow> int \<Rightarrow> Key \<Rightarrow> int \<Rightarrow> kerror + Outcome" where
  "MessageOutcome d now caller i =
     rbind (activeCaller d now caller False) (\<lambda>_.
     case List.find (\<lambda>g. g_id g = i \<and> g_sender_family g = k_family caller \<and> g_sender_id g = k_id caller
            \<and> session_row d (g_recipient_family g) (g_recipient_id g) \<noteq> None) (messages d) of
       Some g \<Rightarrow>
         let s = the (session_row d (g_recipient_family g) (g_recipient_id g)); a = g_seq g \<le> s_acked_through s in
         Inr \<lparr>o_id = i,
           o_recipient = (if take 12 (g_recipient_id g) = ''participant:'' then drop 12 (g_recipient_id g)
             else case peer_row d (g_recipient_family g) (g_recipient_id g) of None \<Rightarrow> [] | Some n \<Rightarrow> n_name n),
           o_seq = g_seq g, o_delivery_state = g_delivery_state g, o_delivery_reason = g_delivery_reason g,
           o_wake_reason = g_wake_reason g, o_notices = g_wake_notices g, o_updated_at = g_delivery_updated_at g,
           o_acknowledged = a, o_acknowledged_by = acknowledgedBy a (g_maintainer_ack g),
           o_acknowledged_session = (if a then g_ack_session g else []),
           o_acknowledged_via = (if a then agentAckVia (g_ack_via g) else [])\<rparr>
     | None \<Rightarrow>
         if i > 0 \<and> i \<le> message_ids d \<and> (\<forall>g\<in>set (messages d). g_id g \<noteq> i)
         then Inr \<lparr>o_id = i, o_recipient = [], o_seq = 0, o_delivery_state = ''deleted'', o_delivery_reason = [], o_wake_reason = [],
                o_notices = 0, o_updated_at = 0, o_acknowledged = False, o_acknowledged_by = [], o_acknowledged_session = [],
                o_acknowledged_via = []\<rparr>
         else Inl ErrMessageNotFound)"

definition SetDelivery :: "int \<Rightarrow> int \<Rightarrow> string \<Rightarrow> string \<Rightarrow> db \<Rightarrow> kerror + db" where
  "SetDelivery now i state reason d =
     (if (state = ''failed'' \<and> reason \<noteq> [] \<and> length reason \<le> 256)
         \<or> (state \<in> {''waiting'', ''notified'', ''uncertain''} \<and> reason = []) then
        (if length (filter (\<lambda>g. g_id g = i) (messages d)) = 1
         then Inr (d\<lparr>messages := update_where (\<lambda>g. g_id g = i)
                (\<lambda>g. g\<lparr>g_delivery_state := state, g_delivery_reason := reason, g_delivery_updated_at := now\<rparr>) (messages d)\<rparr>)
         else Inl ErrMessageNotFound)
      else Inl ErrInvalid)"

end
