(* ===== verification/Registry_Interface.thy ===== *)
theory Registry_Interface
  imports Participants
begin

text \<open>
  The writes of the registry as an interface: the locale \<open>registry_relation\<close> fixes a relation between
  the states around a write and assumes it of the primitive writes that the registry is made of
  (insert a name, set a holder, record a conflict, release addresses, write session columns, end
  cycles); its lemmas carry the relation through naming, succession, registration, renewal and
  retirement. \<^verbatim>\<open>Registry_Safety\<close> interprets it for names, holders and fences, \<^verbatim>\<open>Mail_Safety\<close> for inboxes.
\<close>

section \<open>The constant part of a name\<close>

text \<open>Everything of a name but its holder and its recorded conflict.\<close>

definition static :: "nameRow \<Rightarrow> nameRow" where
  "static n = n\<lparr>n_holder_id := [], n_conflict := None\<rparr>"

text \<open>The primary key, the two partial unique indexes of \<open>names\<close>, and the reserved name.\<close>

definition names_ok :: "nameRow list \<Rightarrow> bool" where
  "names_ok t \<longleftrightarrow> distinct (map n_name t) \<and> overwatchName \<notin> set (map n_name t)
     \<and> distinct (map (\<lambda>n. (n_family n, n_session_id n)) (filter (\<lambda>n. n_kind n = ''peer'') t))
     \<and> distinct (map (\<lambda>n. (n_family n, n_repository n, n_role n)) (filter (\<lambda>n. n_kind n = ''alias'') t))"

definition names_wf :: "db \<Rightarrow> bool" where
  "names_wf d \<longleftrightarrow> names_ok (names d)"

definition holders_ok :: "db \<Rightarrow> bool" where
  "holders_ok d \<longleftrightarrow> (\<forall>n\<in>set (names d). n_holder_id n \<noteq> [] \<longrightarrow> \<not> is_fenced d (n_name n) (n_family n) (n_holder_id n))"

lemma static_sel [simp]:
  "n_name (static n) = n_name n" "n_kind (static n) = n_kind n" "n_family (static n) = n_family n"
  "n_session_id (static n) = n_session_id n" "n_repository (static n) = n_repository n" "n_role (static n) = n_role n"
  by (simp_all add: static_def)

lemma static_holder [simp]:
  "static (n\<lparr>n_holder_id := h\<rparr>) = static n" "static (n\<lparr>n_holder_id := h, n_conflict := c\<rparr>) = static n"
  "static (n\<lparr>n_conflict := c\<rparr>) = static n" "static (n\<lparr>n_conflict := c, n_holder_id := h\<rparr>) = static n"
  by (simp_all add: static_def)

lemma names_ok_static: "names_ok (map static t) = names_ok t"
  by (simp add: names_ok_def comp_def filter_map)

lemma names_ok_cong: "map static t = map static u \<Longrightarrow> names_ok t = names_ok u"
  using names_ok_static[of t] names_ok_static[of u] by simp

lemma names_wf_distinct: "names_wf d \<Longrightarrow> distinct (map n_name (names d))"
  by (simp add: names_wf_def names_ok_def)

lemma names_wf_name: "names_wf d \<Longrightarrow> n \<in> set (names d) \<Longrightarrow> m \<in> set (names d) \<Longrightarrow> n_name n = n_name m \<Longrightarrow> n = m"
  by (rule distinct_key_eq[where k = n_name]) (simp_all add: names_wf_distinct)

lemma names_wf_alias:
  assumes "names_wf d" "n \<in> set (names d)" "m \<in> set (names d)" "n_kind n = ''alias''" "n_kind m = ''alias''"
    "n_family n = n_family m" "n_repository n = n_repository m" "n_role n = n_role m"
  shows "n = m"
  by (rule distinct_key_eq[where k = "\<lambda>n. (n_family n, n_repository n, n_role n)" and t = "filter (\<lambda>n. n_kind n = ''alias'') (names d)"])
    (use assms in \<open>simp_all add: names_wf_def names_ok_def\<close>)

lemma names_wf_peer:
  assumes "names_wf d" "n \<in> set (names d)" "m \<in> set (names d)" "n_kind n = ''peer''" "n_kind m = ''peer''"
    "n_family n = n_family m" "n_session_id n = n_session_id m"
  shows "n = m"
  by (rule distinct_key_eq[where k = "\<lambda>n. (n_family n, n_session_id n)" and t = "filter (\<lambda>n. n_kind n = ''peer'') (names d)"])
    (use assms in \<open>simp_all add: names_wf_def names_ok_def\<close>)

section \<open>Rows that a write names\<close>

lemma createAddress_row:
  assumes "createAddress x p d = Inr (a, d')"
  shows "\<exists>n\<in>set (names d'). n_name n = a \<and> n_family n = p_family p"
  using assms by (auto simp: createAddress_def Let_def insert_name_def simp del: find.simps split: option.splits)

lemma alias_rowD:
  "alias_row d f r o' = Some n \<Longrightarrow> n \<in> set (names d) \<and> n_kind n = ''alias'' \<and> n_family n = f \<and> n_repository n = r \<and> n_role n = o'"
  unfolding alias_row_def by (drule find_Some_mem) simp

lemma evidence_unfenced:
  "evidence_of x ps g calls d now k a holder sub clear sh hh = Inr e \<Longrightarrow> \<not> is_fenced d a (k_family k) (k_id k)"
  unfolding evidence_of_def Let_def by (cases "is_fenced d a (k_family k) (k_id k)") simp_all

lemma carry_frame:
  "names (carrySameHostEnable now k a former d) = names d"
  "participant_fences (carrySameHostEnable now k a former d) = participant_fences d"
  by (simp_all add: carrySameHostEnable_def Let_def disable_def split: option.split)

text \<open>The writes of the maintainer's choice: the chosen session's fence, the cycles, the holder.\<close>

definition unfenced :: "string \<Rightarrow> Key \<Rightarrow> db \<Rightarrow> db" where
  "unfenced address k d = d\<lparr>participant_fences := filter (\<lambda>f. \<not> (f_address f = address \<and> f_family f = k_family k \<and> f_session_id f = k_id k))
      (participant_fences d)\<rparr>"

lemma chooseHolder_writes:
  assumes "chooseHolder now address k revision details d = Inr (former, d')"
  shows "\<exists>s (n :: nameRow). scanSession d now k = Inr s \<and> sv_address s = address \<and> address \<noteq> []
    \<and> (d' = unfenced address k d \<or> (\<exists>d2. fenceCyclesTx now ''holder_changed'' (\<lambda>c. c_address c = address) (unfenced address k d) = Inr d2
        \<and> setHolder now address (n_holder_id n) (k_id k) ''maintainer_choice'' ''maintainer'' details d2 = Inr d'))"
proof -
  obtain s n where "scanSession d now k = Inr s" "sv_address s = address" "address \<noteq> []"
    and "List.find (\<lambda>n. n_name n = address \<and> n_kind n = ''alias'') (names d) = Some n"
    and "d' = unfenced address k d \<or> (\<exists>d2. fenceCyclesTx now ''holder_changed'' (\<lambda>c. c_address c = address) (unfenced address k d) = Inr d2
        \<and> setHolder now address (n_holder_id n) (k_id k) ''maintainer_choice'' ''maintainer'' details d2 = Inr d')"
    using assms unfolding chooseHolder_def Let_def unfenced_def[symmetric] by (auto split: if_split_asm)
  then show ?thesis by (intro exI[of _ s] exI[of _ n] conjI)
qed

section \<open>What the end of a cycle leaves alone\<close>

definition room_part :: "db \<Rightarrow> roomRow list \<times> roomMemberRow list \<times> roomPostRow list \<times> int \<times> roomDeliveryRow list
    \<times> roomReplayRow list \<times> (string \<times> int) list" where
  "room_part d = (rooms d, room_members d, room_posts d, room_post_ids d, room_deliveries d, room_replays d, room_changes d)"

definition cycle_frame :: "db \<Rightarrow> db \<Rightarrow> bool" where
  "cycle_frame d d' \<longleftrightarrow> names d' = names d \<and> participant_fences d' = participant_fences d \<and> sessions d' = sessions d
     \<and> messages d' = messages d \<and> message_ids d' = message_ids d \<and> room_part d' = room_part d"

lemma cycleEvent_frame:
  "cycleEvent c now st re rs d = Inr (c', d') \<Longrightarrow> cycle_frame d d'"
  by (auto simp: cycle_frame_def room_part_def cycleEvent_def insert_event_def Let_def split: if_split_asm)

lemma endCycleTx_frame:
  assumes "endCycleTx now c o' reason Inr d = Inr (c', d')"
  shows "cycle_frame d d'"
proof -
  obtain c1 d1 c2 d2 keep to d4 where e: "cycleEvent c now (end_outcome d c o') (end_outcome d c o') reason d = Inr (c1, d1)"
    "(if to then kept_event now reason (c1, d1) else Inr (c1, d1)) = Inr (c2, d2)"
    "end_enable now (end_outcome d c o') keep to Inr (finished now (end_outcome d c o') reason c2)
        (updateCycle (finished now (end_outcome d c o') reason c2) d2) = Inr d4"
    "d' = cycleAudit now (finished now (end_outcome d c o') reason c2) (end_outcome d c o') reason d4"
    using assms unfolding endCycleTx_def Let_def rbind_Inr_iff by (auto split: prod.splits)
  have "cycle_frame d d1" by (rule cycleEvent_frame[OF e(1)])
  moreover have "cycle_frame d1 d2"
    using e(2) by (auto simp: cycle_frame_def room_part_def kept_event_def insert_event_def Let_def split: if_split_asm)
  moreover have "cycle_frame d2 d4"
    using e(3) by (auto simp: cycle_frame_def room_part_def end_enable_def updateCycle_def keepEnableTx_def disable_def split: if_split_asm)
  ultimately show ?thesis by (simp add: cycle_frame_def room_part_def e(4) cycleAudit_def)
qed

lemma end_cycles_frame:
  "end_cycles now reason cs d = Inr d' \<Longrightarrow> cycle_frame d d'"
  by (induction cs arbitrary: d) (auto simp: cycle_frame_def dest!: endCycleTx_frame)

lemma fenceCyclesTx_frame:
  "fenceCyclesTx now reason w d = Inr d' \<Longrightarrow> cycle_frame d d'"
  unfolding fenceCyclesTx_def by (rule end_cycles_frame)

section \<open>The relation\<close>

text \<open>The columns of a session row that belong to its inbox.\<close>

definition inbox_part :: "sessionRow \<Rightarrow> string \<times> string \<times> int \<times> int" where
  "inbox_part s = (s_family s, s_id s, s_last_seq s, s_acked_through s)"

locale registry_relation =
  fixes R :: "db \<Rightarrow> db \<Rightarrow> bool"
  assumes R_refl: "R d d"
    and R_trans: "R d d1 \<Longrightarrow> R d1 d2 \<Longrightarrow> R d d2"
    and R_insert_name: "insert_name n d = Inr d' \<Longrightarrow> \<not> nameTaken d (n_name n) \<Longrightarrow> n_holder_id n = [] \<Longrightarrow> R d d'"
    and R_setHolder: "setHolder now a former i reason actor details d = Inr d' \<Longrightarrow>
      (\<And>n. names_wf d \<Longrightarrow> n \<in> set (names d) \<Longrightarrow> n_name n = a \<Longrightarrow> \<not> is_fenced d a (n_family n) i) \<Longrightarrow> R d d'"
    and R_conflict: "R d (record_conflict x now f a holder conflict peers d)"
    and R_release: "R d (releaseAddress now f i r ac d)"
    and R_event: "R d (participantEvent now a fo ho r ac de d)"
    and R_update: "(\<And>s. inbox_part (g s) = inbox_part s) \<Longrightarrow> R d (d\<lparr>sessions := update_where P g (sessions d)\<rparr>)"
    and R_upsert: "R d (upsert_session now dur reg com dir target role h d)"
    and R_enables: "R d (d\<lparr>context_enables := t\<rparr>)"
    and R_fenceCycles: "fenceCyclesTx now reason w d = Inr d' \<Longrightarrow> R d d'"
begin

lemma R_firstFree:
  assumes "firstFree cs ins d = Inr d'" "\<And>c d d'. \<not> nameTaken d c \<Longrightarrow> ins c d = Inr d' \<Longrightarrow> R d d'"
  shows "R d d'"
  using assms by (auto simp: firstFree_def dest: find_Some_mem split: option.splits)

lemma R_peerName:
  assumes "peerName x f i r dir d = Inr d'"
  shows "R d d'"
proof (cases "peer_row d f i")
  case (Some n)
  then show ?thesis using assms by (simp add: peerName_def R_refl)
next
  case None
  then have "firstFree (peer_candidates x (f @ ''-'' @ label r dir) f i)
      (\<lambda>name. insert_name \<lparr>n_name = name, n_kind = ''peer'', n_family = f, n_session_id = i,
         n_repository = r, n_holder_id = [], n_role = [], n_conflict = None\<rparr>) d = Inr d'"
    using assms by (simp add: peerName_def)
  then show ?thesis
    by (rule R_firstFree) (erule R_insert_name, simp_all)
qed

lemma R_createAddress:
  assumes "createAddress x p d = Inr (a, d')"
  shows "R d d'"
proof -
  obtain cs name n where "List.find (\<lambda>c. \<not> nameTaken d c) cs = Some name" "insert_name n d = Inr d'"
    "n_name n = name" "n_holder_id n = []"
    using assms by (auto simp: createAddress_def Let_def simp del: find.simps split: option.splits)
  then show ?thesis using find_Some_mem[of "\<lambda>c. \<not> nameTaken d c" cs name] by (intro R_insert_name) auto
qed

lemma R_takeAddress:
  assumes r: "takeAddress x now p a holder c d = Inr d'"
    and n: "n \<in> set (names d)" "n_name n = a" "n_family n = p_family p"
  shows "R d d'"
proof -
  let ?qs = "qualifiers d now p a"
  have "d' = d \<or> setHolder now a holder (p_id p) ''only_qualifier'' ''session'' [] d = Inr d' \<and> length ?qs = 1 \<and> fst (hd ?qs) = p_id p
      \<or> d' = record_conflict x now (p_family p) a holder c (map snd ?qs) d"
    using r unfolding takeAddress_def Let_def
    by (cases "length ?qs = 1 \<and> fst (hd ?qs) = p_id p"; cases "length ?qs > 1") (simp_all split: if_split_asm)
  then consider (same) "d' = d" | (take) "setHolder now a holder (p_id p) ''only_qualifier'' ''session'' [] d = Inr d'"
      "fst (hd ?qs) = p_id p" "length ?qs = 1" | (conflict) "d' = record_conflict x now (p_family p) a holder c (map snd ?qs) d"
    by blast
  then show ?thesis
  proof cases
    case take
    obtain q where q: "q \<in> set (qualifiers d now p a)" "fst q = p_id p"
      using take(2,3) by (metis hd_in_set length_0_conv zero_neq_one)
    then have "\<not> is_fenced d a (p_family p) (p_id p)"
      by (auto simp: qualifiers_def dest!: in_set_takeD)
    then show ?thesis
      by (intro R_setHolder[OF take(1)]) (metis names_wf_name n)
  qed (simp_all add: R_refl R_conflict)
qed

lemma R_assignNames:
  assumes "assignNames x now p d = Inr d'"
  shows "R d d'"
proof -
  obtain d1 where d1: "peerName x (p_family p) (p_id p) (p_repository p) (p_directory p) d = Inr d1"
    using assms unfolding assignNames_def rbind_Inr_iff by blast
  have "R d1 d'"
  proof (cases "alias_row d1 (p_family p) (p_repository p) (p_role p)")
    case None
    then consider (release) w where "d' = releaseAddress now (p_family p) (p_id p) w ''daemon'' d1" | (same) "d' = d1"
      | (made) a d2 where "createAddress x p d1 = Inr (a, d2)" "takeAddress x now p a [] None d2 = Inr d'"
      using assms d1 by (auto simp: assignNames_def split: if_split_asm)
    then show ?thesis
    proof cases
      case made
      obtain n where "n \<in> set (names d2)" "n_name n = a" "n_family n = p_family p"
        using createAddress_row[OF made(1)] by blast
      then show ?thesis
        by (rule R_trans[OF R_createAddress[OF made(1)] R_takeAddress[OF made(2)]])
    qed (simp_all add: R_refl R_release)
  next
    case (Some n)
    then consider (release) w where "d' = releaseAddress now (p_family p) (p_id p) w ''daemon'' d1" | (same) "d' = d1"
      | (take) "takeAddress x now p (n_name n) (n_holder_id n) (n_conflict n) d1 = Inr d'"
      using assms d1 by (auto simp: assignNames_def split: if_split_asm)
    then show ?thesis
      by cases (use alias_rowD[OF Some] in \<open>auto simp: R_refl R_release intro: R_takeAddress\<close>)
  qed
  then show ?thesis using R_peerName[OF d1] by (rule R_trans[rotated])
qed

lemma R_carry: "R d (carrySameHostEnable now k a former d)"
  by (auto simp: carrySameHostEnable_def Let_def disable_def split: option.split intro: R_refl R_enables R_trans[OF R_enables])

lemma R_succeed:
  assumes "succeed x ps g calls details now k repository role subagent clear d = Inr (su, d')"
  shows "R d d'"
proof (cases "d' = d \<or> (\<exists>a fo h r ac de. d' = participantEvent now a fo h r ac de d)")
  case False
  then have diff: "d' \<noteq> d" and noevent: "\<And>a fo h r ac de. d' \<noteq> participantEvent now a fo h r ac de d" by blast+
  obtain n where n: "alias_row d (k_family k) repository role = Some n"
    using assms diff by (auto simp: succeed_def split: if_split_asm option.split_asm)
  let ?busy = "n_holder_id n = [] \<or> n_holder_id n = k_id k"
  note r0 = assms[unfolded succeed_def n option.case Let_def]
  have set1: "(repository = []) = False" using r0 diff by (cases "repository = []") simp_all
  have set2: "?busy = False" using r0 diff by (cases ?busy) (simp_all add: set1)
  have set3: "(\<not> holds d now (k_family k) (n_holder_id n) repository role) = False"
    using r0 diff by (cases "holds d now (k_family k) (n_holder_id n) repository role")
      (simp_all only: set1 set2 if_False if_True simp_thms sum.inject prod.inject)
  note body = r0[unfolded set1 set2 set3 if_False]
  obtain sh where sh: "hostOf d (k_family k) (k_id k) = Inr sh"
    using body by (cases "hostOf d (k_family k) (k_id k)") simp_all
  obtain hh where hh: "hostOf d (k_family k) (n_holder_id n) = Inr hh"
    using body by (cases "hostOf d (k_family k) (n_holder_id n)") (simp_all add: sh)
  note h = sh hh
  obtain e where e: "evidence_of x ps g calls d now k (n_name n) (n_holder_id n) subagent clear sh hh = Inr e"
  proof (cases "evidence_of x ps g calls d now k (n_name n) (n_holder_id n) subagent clear sh hh")
    case (Inl why)
    then have "d' = d \<or> d' = participantEvent now (n_name n) [] (peerOf d (k_family k) (n_holder_id n)) ''succession_refused'' ''session'' details d"
      using body by (cases why) (auto simp: h)
    then show thesis using diff noevent by blast
  qed (rule that)
  obtain d2 where d2: "names d2 = names d" "participant_fences d2 = participant_fences d" "R d d2"
      "setHolder now (n_name n) (n_holder_id n) (k_id k) e ''session'' details d2 = Inr d'"
  proof -
    define d1 where "d1 = (if e = ''host_cleared'' \<and> h_pane sh = [] \<and> h_pane hh \<noteq> [] then adopt_pane k hh d else d)"
    define d2 where "d2 = (if e = ''same_host'' \<and> (h_pane sh \<noteq> [] \<and> h_socket sh = h_socket hh \<and> h_pane sh = h_pane hh) \<and> h_socket sh \<noteq> []
      then carrySameHostEnable now k (n_name n) (n_holder_id n) d1 else d1)"
    have d1: "names d1 = names d" "participant_fences d1 = participant_fences d" by (simp_all add: d1_def adopt_pane_def)
    have Rd1: "R d d1" by (simp add: d1_def adopt_pane_def R_refl R_update inbox_part_def)
    have "R d d2" unfolding d2_def using R_trans[OF Rd1 R_carry] Rd1 by (simp split: if_split)
    moreover
    have "setHolder now (n_name n) (n_holder_id n) (k_id k) e ''session'' details d2 = Inr d'"
      using body[unfolded h e rbind_simps sum.case, folded d1_def, folded d2_def] by simp
    ultimately show thesis using d1 by (intro that[of d2]) (simp_all add: d2_def carry_frame)
  qed
  have free: "names_wf d2 \<Longrightarrow> m \<in> set (names d2) \<Longrightarrow> n_name m = n_name n \<Longrightarrow> \<not> is_fenced d2 (n_name n) (n_family m) (k_id k)" for m
    using evidence_unfenced[OF e] alias_rowD[OF n] names_wf_name[of d2 m n] d2 by (simp add: is_fenced_def)
  show ?thesis by (rule R_trans[OF d2(3) R_setHolder[OF d2(4) free]])
next
  case True
  then show ?thesis by (auto intro: R_refl R_event)
qed

lemma R_set_succession: "R d (set_succession f i v d)"
  unfolding set_succession_def by (rule R_update) (simp add: inbox_part_def)

lemma R_register_succession:
  assumes "register_succession x ps g calls details now r com role sub d = Inr d'"
  shows "R d d'"
proof (cases "rg_tool_call r \<and> (rg_family r = ''deepseek'' \<or> rg_launch_id r \<noteq> [])")
  case True
  then obtain su e where e: "succeed x ps g calls details now (key (rg_family r) (rg_id r)) com role sub (rg_clear r) d = Inr (su, e)"
    "d' = (case su of None \<Rightarrow> e | Some v \<Rightarrow> set_succession (rg_family r) (rg_id r) (Some v) e)"
    using assms by (auto simp: register_succession_def)
  have "R e d'" by (simp add: e(2) R_refl R_set_succession split: option.split)
  then show ?thesis using R_succeed[OF e(1)] by (rule R_trans[rotated])
next
  case False
  then show ?thesis using assms by (auto simp: register_succession_def R_refl R_set_succession split: if_split_asm)
qed

lemma R_Register:
  assumes "Register x ps lifetime g calls details env now r d = Inr (view, b, calls', d')"
  shows "R d d'"
proof -
  obtain dur dir com where chk: "register_checks lifetime env r = Inr (dur, dir, com)"
    using assms unfolding Register_def by (cases "register_checks lifetime env r") (auto split: prod.splits)
  define r1 where "r1 = (if rg_wake_bytes r = 0 then r\<lparr>rg_wake_bytes := 2, rg_wake := Some (JObj [])\<rparr> else r)"
  have "\<exists>target role h p calls sub d1 d2 d3. d1 = upsert_session now dur r1 com dir target role h d
      \<and> assignNames x now p d1 = Inr d2 \<and> register_succession x ps g calls details now r1 com role sub d2 = Inr d3 \<and> d3 = d'"
    using assms unfolding Register_def chk rbind_simps prod.case Let_def r1_def[symmetric] rbind_Inr_iff case_prod_beta
    unfolding fst_conv snd_conv sum.inject prod.inject
    by (elim exE conjE) (intro exI conjI, rule refl, assumption, assumption, assumption)
  then obtain target role h p calls sub d1 d2 where d1: "d1 = upsert_session now dur r1 com dir target role h d"
    and d2: "assignNames x now p d1 = Inr d2" and d3: "register_succession x ps g calls details now r1 com role sub d2 = Inr d'"
    by auto
  have "R d d1" unfolding d1 by (rule R_upsert)
  then show ?thesis
    using R_assignNames[OF d2] R_register_succession[OF d3] by (blast intro: R_trans)
qed

lemma R_retire:
  assumes "retire_session now f i d = Inr d'"
  shows "R d d'"
  by (rule R_trans[OF R_update R_fenceCycles[OF assms[unfolded retire_session_def]]]) (simp add: inbox_part_def)

lemma R_renew:
  assumes "renew_session x now dur f i s d = Inr d'"
  shows "R d d'"
proof -
  define own :: "sessionRow \<Rightarrow> bool" where "own = (\<lambda>s. s_family s = f \<and> s_id s = i)"
  define plain where "plain = (f \<noteq> ''deepseek'' \<and> \<not> launched (s_wake_target s))"
  define d1 where "d1 = (if plain then d\<lparr>sessions := update_where own (\<lambda>s. s\<lparr>s_role := [], s_host_pid := 0, s_host_start := 0,
    s_tmux_socket := [], s_tmux_pane := [], s_tmux_path := [], s_succession := None\<rparr>) (sessions d)\<rparr> else d)"
  have "R d d1" by (simp add: d1_def R_refl R_update inbox_part_def)
  moreover have "R d1 (d1\<lparr>sessions := update_where own (\<lambda>s. s\<lparr>s_renewed_at := now, s_expires_at := now + dur,
      s_revision := s_revision s + 1\<rparr>) (sessions d1)\<rparr>)" (is "R d1 ?d2")
    by (rule R_update) (simp add: inbox_part_def)
  moreover have "R ?d2 d'"
    using assms unfolding renew_session_def Let_def own_def[symmetric] plain_def[symmetric] d1_def[symmetric] by (rule R_assignNames)
  ultimately show ?thesis by (blast intro: R_trans)
qed

lemma R_Mutate:
  assumes "Mutate x lifetime now f i r secs retire d = Inr (view, b, d')"
  shows "R d d'"
proof -
  show ?thesis
    using assms unfolding Mutate_def
    by (cases retire) (auto split: if_split_asm dest: R_retire R_renew)
qed

end

end
