(* ===== verification/Registry_Safety.thy ===== *)
theory Registry_Safety
  imports Registry_Interface
begin

text \<open>
  What the registry guarantees: names are unique and permanent, an address has at most one holder and
  a session at most one address, and a fenced former holder stays out until the maintainer chooses it.
\<close>

section \<open>The registry machine\<close>

text \<open>The writes of the registry, with the answers of the system that each one got.\<close>

datatype registry_op =
    RegisterOp "int \<Rightarrow> int option option" int int toolCalls string reg_env Registration
  | MutateOp int string string int int bool
  | ChooseOp string Key int string

fun registry_step :: "ext \<Rightarrow> registry_op \<Rightarrow> int \<Rightarrow> db \<Rightarrow> kerror + db" where
  "registry_step x (RegisterOp ps lifetime guard_ms calls details env r) now d =
     rbind (Register x ps lifetime guard_ms calls details env now r d) (\<lambda>(_, _, _, d'). Inr d')"
| "registry_step x (MutateOp lifetime family i revision seconds retire) now d =
     rbind (Mutate x lifetime now family i revision seconds retire d) (\<lambda>(_, _, d'). Inr d')"
| "registry_step x (ChooseOp address k revision details) now d =
     rbind (chooseHolder now address k revision details d) (\<lambda>(_, d'). Inr d')"

text \<open>One insertion keeps the table's constraints.\<close>

lemma names_ok_insert:
  assumes wf: "names_ok t" and ok: "name_ok n t" and res: "n_name n \<noteq> overwatchName"
  shows "names_ok (t @ [n])"
proof -
  have "n_name n \<notin> n_name ` set t" using ok by (auto simp: name_ok_def)
  moreover have "n_kind n = ''peer'' \<Longrightarrow> (n_family n, n_session_id n) \<notin> (\<lambda>n. (n_family n, n_session_id n)) ` {q \<in> set t. n_kind q = ''peer''}"
    using ok unfolding name_ok_def by force
  moreover have "n_kind n = ''alias'' \<Longrightarrow>
      (n_family n, n_repository n, n_role n) \<notin> (\<lambda>n. (n_family n, n_repository n, n_role n)) ` {q \<in> set t. n_kind q = ''alias''}"
    using ok unfolding name_ok_def by force
  ultimately show ?thesis using wf res unfolding names_ok_def by simp
qed

section \<open>What an operation may change\<close>

text \<open>
  \<open>evolves\<close>: names are only added, unique as before, holders stay unfenced, and no fence outside \<open>X\<close>
  is removed.
\<close>

definition evolves :: "(string \<times> string \<times> string) set \<Rightarrow> db \<Rightarrow> db \<Rightarrow> bool" where
  "evolves X d d' \<longleftrightarrow> (\<exists>new. map static (names d') = map static (names d) @ new)
     \<and> (names_wf d \<longrightarrow> names_wf d') \<and> (names_wf d \<and> holders_ok d \<longrightarrow> holders_ok d')
     \<and> (\<forall>a f i. (a, f, i) \<notin> X \<longrightarrow> is_fenced d a f i \<longrightarrow> is_fenced d' a f i)"

lemma evolves_refl [simp]: "evolves X d d"
  by (simp add: evolves_def)

lemma evolves_trans: "evolves X a b \<Longrightarrow> evolves X b c \<Longrightarrow> evolves X a c"
  unfolding evolves_def by (metis append.assoc)

lemma evolves_same:
  assumes "names d' = names d" "participant_fences d' = participant_fences d"
  shows "evolves X d d'"
  using assms by (simp add: evolves_def names_wf_def holders_ok_def is_fenced_def)

text \<open>A write of the holder and conflict columns, with the fences it adds.\<close>

lemma evolves_holders:
  assumes names: "names d' = update_where P f (names d)" and st: "\<And>n. static (f n) = static n"
    and fences: "\<And>a g i. is_fenced d a g i \<Longrightarrow> is_fenced d' a g i"
    and ok: "\<And>n. names_wf d \<Longrightarrow> holders_ok d \<Longrightarrow> n \<in> set (names d') \<Longrightarrow> n_holder_id n \<noteq> [] \<Longrightarrow>
        \<not> is_fenced d' (n_name n) (n_family n) (n_holder_id n)"
  shows "evolves X d d'"
proof -
  have "map static (names d') = map static (names d)" unfolding names by (rule map_update_where) (rule st)
  then show ?thesis using fences ok names_ok_cong[of "names d'" "names d"] by (simp add: evolves_def names_wf_def holders_ok_def)
qed

lemma is_fenced_names [simp]:
  "is_fenced (d\<lparr>names := t\<rparr>) = is_fenced d" "is_fenced (d\<lparr>sessions := u\<rparr>) = is_fenced d"
  "is_fenced (participantEvent now a fo h r ac de d) = is_fenced d"
  "is_fenced (retire_active now f i d) = is_fenced d" "is_fenced (reset_inbox now f i d) = is_fenced d"
  "is_fenced (set_alias a g d) = is_fenced d"
  by (simp_all add: is_fenced_def fun_eq_iff participantEvent_def retire_active_def reset_inbox_def set_alias_def Let_def)

definition fence_key :: "fenceRow \<Rightarrow> string \<times> string \<times> string" where
  "fence_key f = (f_address f, f_family f, f_session_id f)"

lemma is_fenced_key: "is_fenced d a f i \<longleftrightarrow> (a, f, i) \<in> set (map fence_key (participant_fences d))"
  by (auto simp: is_fenced_def fence_key_def)

lemma is_fenced_fence:
  "is_fenced (fence now a f i r d) b g j \<longleftrightarrow> is_fenced d b g j \<or> (b = a \<and> g = f \<and> j = i)"
proof (cases "is_fenced d a f i")
  case True
  have "map fence_key (update_where P (\<lambda>f. f\<lparr>f_at := now, f_reason := r\<rparr>) t) = map fence_key t" for P t
    by (rule map_update_where) (simp add: fence_key_def)
  then have "is_fenced (fence now a f i r d) b g j = is_fenced d b g j"
    using True by (simp add: is_fenced_key fence_def Let_def del: set_map)
  then show ?thesis using True by auto
next
  case False
  then show ?thesis by (auto simp: fence_def Let_def is_fenced_def)
qed

lemma table_names [simp]:
  "names (participantEvent now a fo h r ac de d) = names d"
  "names (retire_active now f i d) = names d" "names (reset_inbox now f i d) = names d"
  "names (fence now a f i r d) = names d" "names (set_alias a g d) = update_where (\<lambda>n. n_name n = a) g (names d)"
  by (simp_all add: participantEvent_def retire_active_def reset_inbox_def fence_def set_alias_def Let_def)

lemma evolves_insert_name:
  assumes "insert_name n d = Inr d'" "\<not> nameTaken d (n_name n)" "n_holder_id n = []"
  shows "evolves X d d'"
proof -
  have d': "d' = d\<lparr>names := names d @ [n]\<rparr>" "name_ok n (names d)" using assms(1) by (auto simp: insert_name_def)
  then show ?thesis
    using assms(2,3) names_ok_insert[of "names d" n]
    by (simp add: evolves_def names_wf_def holders_ok_def nameTaken_def)
qed

lemma names_fold_event:
  "names (fold (\<lambda>a. participantEvent now a fo [] r ac []) as d) = names d
   \<and> participant_fences (fold (\<lambda>a. participantEvent now a fo [] r ac []) as d) = participant_fences d"
  by (induction as arbitrary: d) (auto simp: participantEvent_def)

lemma evolves_releaseAddress: "evolves X d (releaseAddress now f i r ac d)"
proof (cases "releaseAddress now f i r ac d = d")
  case False
  let ?held = "\<lambda>n. n_kind n = ''alias'' \<and> n_family n = f \<and> n_holder_id n = i"
  let ?d' = "releaseAddress now f i r ac d"
  have names: "names ?d' = update_where ?held (\<lambda>n. n\<lparr>n_holder_id := []\<rparr>) (names d)"
    and fences: "participant_fences ?d' = participant_fences d"
    using False by (auto simp: releaseAddress_def Let_def names_fold_event split: if_splits)
  have same: "is_fenced ?d' = is_fenced d" using fences by (simp add: is_fenced_def fun_eq_iff)
  show ?thesis
  proof (rule evolves_holders[OF names])
    fix n assume ok: "holders_ok d" and n: "n \<in> set (names ?d')" "n_holder_id n \<noteq> []"
    from n obtain p where p: "p \<in> set (names d)" "n = (if ?held p then p\<lparr>n_holder_id := []\<rparr> else p)"
      unfolding names by (auto simp: in_update_where)
    then have "n = p" using n(2) by (cases "?held p") simp_all
    then show "\<not> is_fenced ?d' (n_name n) (n_family n) (n_holder_id n)"
      using p(1) ok n(2) by (simp add: same holders_ok_def)
  qed (simp_all add: same)
qed simp

lemma setHolder_writes:
  assumes "setHolder now a former i reason actor details d = Inr d'"
  shows "names d' = update_where (\<lambda>n. n_name n = a) (\<lambda>n. n\<lparr>n_holder_id := i, n_conflict := None\<rparr>) (names d)"
    and "\<exists>n\<in>set (names d). n_name n = a \<and> (\<forall>b g j. is_fenced d' b g j \<longleftrightarrow>
          is_fenced d b g j \<or> (former \<noteq> [] \<and> former \<noteq> i \<and> b = a \<and> g = n_family n \<and> j = former))"
proof -
  define d1 where "d1 = set_alias a (\<lambda>n. n\<lparr>n_holder_id := i, n_conflict := None\<rparr>) d"
  obtain n where n: "List.find (\<lambda>n. n_name n = a) (names d1) = Some n"
    using assms by (cases "List.find (\<lambda>n. n_name n = a) (names d1)") (simp_all add: setHolder_def Let_def d1_def)
  define d2 where "d2 = (if former \<noteq> [] \<and> former \<noteq> i
    then fence now a (n_family n) former reason (retire_active now (n_family n) former d1) else d1)"
  define d3 where "d3 = (if former \<noteq> i then reset_inbox now (n_family n) (participantKey a) d2 else d2)"
  have "Inr (participantEvent now a (peerOf d3 (n_family n) former) (peerOf d3 (n_family n) i) reason actor details d3) = (Inr d' :: kerror + db)"
    using assms unfolding setHolder_def Let_def d1_def[symmetric] n opt_err.simps rbind_simps d2_def[symmetric] d3_def[symmetric] .
  then have r: "d' = participantEvent now a (peerOf d3 (n_family n) former) (peerOf d3 (n_family n) i) reason actor details d3"
    by simp
  show "names d' = update_where (\<lambda>n. n_name n = a) (\<lambda>n. n\<lparr>n_holder_id := i, n_conflict := None\<rparr>) (names d)"
    by (simp add: r d3_def d2_def d1_def)
  have "is_fenced d' b g j \<longleftrightarrow> is_fenced d b g j \<or> (former \<noteq> [] \<and> former \<noteq> i \<and> b = a \<and> g = n_family n \<and> j = former)" for b g j
    by (simp add: r d3_def d2_def d1_def is_fenced_fence)
  moreover obtain m where "m \<in> set (names d)" "n_name m = a" "n_family m = n_family n"
  proof -
    have "n \<in> set (names d1)" "n_name n = a" using find_Some_mem[OF n] by simp_all
    then obtain m where m: "m \<in> set (names d)" "n = (if n_name m = a then m\<lparr>n_holder_id := i, n_conflict := None\<rparr> else m)"
      unfolding d1_def table_names in_update_where by (elim bexE)
    then have "static n = static m" by simp
    then have "n_name m = n_name n" "n_family m = n_family n" by (metis static_sel)+
    with m(1) that \<open>n_name n = a\<close> show thesis by simp
  qed
  ultimately show "\<exists>n\<in>set (names d). n_name n = a \<and> (\<forall>b g j. is_fenced d' b g j \<longleftrightarrow>
          is_fenced d b g j \<or> (former \<noteq> [] \<and> former \<noteq> i \<and> b = a \<and> g = n_family n \<and> j = former))"
    by (intro bexI[of _ m]) simp_all
qed

lemma evolves_setHolder:
  assumes r: "setHolder now a former i reason actor details d = Inr d'"
    and free: "\<And>n. names_wf d \<Longrightarrow> n \<in> set (names d) \<Longrightarrow> n_name n = a \<Longrightarrow> \<not> is_fenced d a (n_family n) i"
  shows "evolves X d d'"
proof -
  note w = setHolder_writes[OF r]
  obtain m where m: "m \<in> set (names d)" "n_name m = a"
    "\<And>b g j. is_fenced d' b g j \<longleftrightarrow> is_fenced d b g j \<or> (former \<noteq> [] \<and> former \<noteq> i \<and> b = a \<and> g = n_family m \<and> j = former)"
    using w(2) by blast
  show ?thesis
  proof (rule evolves_holders[OF w(1)])
    fix n assume wf: "names_wf d" and ok: "holders_ok d" and n: "n \<in> set (names d')" "n_holder_id n \<noteq> []"
    from n obtain p where p: "p \<in> set (names d)" "n = (if n_name p = a then p\<lparr>n_holder_id := i, n_conflict := None\<rparr> else p)"
      unfolding w(1) by (auto simp: in_update_where)
    show "\<not> is_fenced d' (n_name n) (n_family n) (n_holder_id n)"
      using p n free wf ok by (cases "n_name p = a") (auto simp: m(3) holders_ok_def)
  qed (auto simp: m(3))
qed

lemma evolves_record_conflict: "evolves X d (record_conflict x now f a holder c peers d)"
proof (cases "record_conflict x now f a holder c peers d = d")
  case False
  let ?d' = "record_conflict x now f a holder c peers d"
  have names: "names ?d' = update_where (\<lambda>n. n_name n = a) (\<lambda>n. n\<lparr>n_conflict := Some peers, n_holder_id := []\<rparr>) (names d)"
    using False by (auto simp: record_conflict_def Let_def split: if_splits)
  have fenced: "is_fenced ?d' b g j \<longleftrightarrow> is_fenced d b g j \<or> (holder \<noteq> [] \<and> b = a \<and> g = f \<and> j = holder)" for b g j
    using False by (auto simp: record_conflict_def Let_def is_fenced_fence split: if_splits)
  show ?thesis
  proof (rule evolves_holders[OF names])
    fix n assume ok: "holders_ok d" and n: "n \<in> set (names ?d')" "n_holder_id n \<noteq> []"
    from n obtain p where p: "p \<in> set (names d)"
      "n = (if n_name p = a then p\<lparr>n_conflict := Some peers, n_holder_id := []\<rparr> else p)"
      unfolding names by (auto simp: in_update_where)
    then have "n = p" "n_name p \<noteq> a" using n(2) by (cases "n_name p = a"; simp)+
    then show "\<not> is_fenced ?d' (n_name n) (n_family n) (n_holder_id n)"
      using p(1) ok n(2) by (simp add: fenced holders_ok_def)
  qed (simp_all add: fenced)
qed simp

section \<open>Every write of the registry\<close>

lemma evolves_sessions [simp]: "evolves X d (d\<lparr>sessions := t\<rparr>)"
  by (rule evolves_same) simp_all

lemma evolves_fenceCycles:
  "fenceCyclesTx now reason w d = Inr d' \<Longrightarrow> evolves X d d'"
  by (rule evolves_same) (auto dest: fenceCyclesTx_frame simp: cycle_frame_def)

interpretation evolution: registry_relation "evolves X" for X
proof
  show "evolves X d (participantEvent now a fo ho r ac de d)" for now a fo ho r ac de d
    by (rule evolves_same) (simp_all add: participantEvent_def)
  show "evolves X d (upsert_session now dur reg com dir target role h d)" for now dur reg com dir target role h d
    by (rule evolves_same) (simp_all add: upsert_session_def split: option.split)
  show "evolves X d (d\<lparr>context_enables := t\<rparr>)" for d t
    by (rule evolves_same) simp_all
qed (simp_all add: evolves_insert_name evolves_setHolder evolves_record_conflict evolves_releaseAddress evolves_fenceCycles,
     rule evolves_trans)

lemma unfence_keeps:
  assumes "\<And>a f i. is_fenced d' a f i \<longleftrightarrow> is_fenced d a f i \<and> (a, f, i) \<notin> X" "names d' = names d"
  shows "evolves X d d'"
  using assms by (simp add: evolves_def names_wf_def holders_ok_def)

lemma evolves_choose:
  assumes "chooseHolder now address k revision details d = Inr (former, d')"
  shows "evolves {(address, k_family k, k_id k)} d d'"
proof -
  let ?X = "{(address, k_family k, k_id k)}"
  define d1 where "d1 = unfenced address k d"
  have d1: "evolves ?X d d1"
    by (rule unfence_keeps) (auto simp: d1_def unfenced_def is_fenced_def)
  obtain s and n :: nameRow where s: "scanSession d now k = Inr s" "sv_address s = address" "address \<noteq> []"
    and w: "d' = d1 \<or> (\<exists>d2. fenceCyclesTx now ''holder_changed'' (\<lambda>c. c_address c = address) d1 = Inr d2
        \<and> setHolder now address (n_holder_id n) (k_id k) ''maintainer_choice'' ''maintainer'' details d2 = Inr d')"
    using chooseHolder_writes[OF assms] unfolding d1_def by blast
  obtain m where m: "m \<in> set (names d)" "n_name m = address" "n_family m = k_family k"
    using s by (auto simp: scanSession_def Let_def participant_of_def session_row_def split: option.split_asm if_split_asm
        dest!: alias_rowD find_Some_mem)
  show ?thesis
  proof (cases "d' = d1")
    case False
    then obtain d2 where d2: "fenceCyclesTx now ''holder_changed'' (\<lambda>c. c_address c = address) d1 = Inr d2"
      "setHolder now address (n_holder_id n) (k_id k) ''maintainer_choice'' ''maintainer'' details d2 = Inr d'"
      using w by blast
    have frame: "names d2 = names d" "participant_fences d2 = participant_fences d1"
      using fenceCyclesTx_frame[OF d2(1)] by (simp_all add: d1_def unfenced_def cycle_frame_def)
    have free: "names_wf d2 \<Longrightarrow> p \<in> set (names d2) \<Longrightarrow> n_name p = address \<Longrightarrow> \<not> is_fenced d2 address (n_family p) (k_id k)" for p
      using names_wf_name[of d2 p m] m by (simp add: frame is_fenced_def) (simp add: d1_def unfenced_def)
    show ?thesis
      by (rule evolves_trans[OF d1 evolves_trans[OF evolves_fenceCycles[OF d2(1)] evolves_setHolder[OF d2(2) free]]])
  qed (simp add: d1)
qed

end
