(* ===== verification/Registry_Runs.thy ===== *)
theory Registry_Runs
  imports Registry_Safety
begin

text \<open>
  The registry's guarantees over every run of registrations, renewals, retirements and holder choices:
  fences outlive everything but the maintainer's choice, names are permanent and unique, an address has
  one holder, registration order decides nothing, a live host keeps its address, labels are well
  formed.
\<close>


section \<open>Runs of the registry\<close>

definition not_chosen :: "string \<Rightarrow> string \<Rightarrow> string \<Rightarrow> registry_op \<Rightarrow> bool" where
  "not_chosen a f i q = (case q of ChooseOp address k _ _ \<Rightarrow> \<not> (address = a \<and> k_family k = f \<and> k_id k = i) | _ \<Rightarrow> True)"

lemma registry_step_evolves:
  assumes "registry_step x q now d = Inr d'"
  shows "\<exists>X. evolves X d d' \<and> (\<forall>a f i. not_chosen a f i q \<longrightarrow> (a, f, i) \<notin> X)"
proof (cases q)
  case (RegisterOp ps lifetime g calls details env r)
  then have "evolves {} d d'" using assms by (auto dest: evolution.R_Register[where X = "{}"])
  then show ?thesis by auto
next
  case (MutateOp lifetime f i r s b)
  then have "evolves {} d d'" using assms by (auto dest: evolution.R_Mutate[where X = "{}"])
  then show ?thesis by auto
next
  case (ChooseOp address k r details)
  then have "evolves {(address, k_family k, k_id k)} d d'" using assms by (auto dest: evolves_choose)
  then show ?thesis using ChooseOp by (auto simp: not_chosen_def)
qed

definition registry_ok :: "db \<Rightarrow> bool" where
  "registry_ok d \<longleftrightarrow> names_wf d \<and> holders_ok d"

interpretation fences: guarded_machine "registry_step x" "\<lambda>d. registry_ok d \<and> is_fenced d a f i" "not_chosen a f i" for x a f i
  by unfold_locales (auto simp: registry_ok_def evolves_def dest!: registry_step_evolves)

definition names_grow :: "db \<Rightarrow> db \<Rightarrow> bool" where
  "names_grow d d' \<longleftrightarrow> (\<exists>new. map static (names d') = map static (names d) @ new) \<and> (names_wf d \<longrightarrow> names_wf d')"

lemma evolves_names_grow: "evolves X d d' \<Longrightarrow> names_grow d d'"
  by (simp add: evolves_def names_grow_def)

interpretation naming: monotone_machine "registry_step x" names_grow for x
proof
  show "names_grow a b \<Longrightarrow> names_grow b c \<Longrightarrow> names_grow a c" for a b c
    unfolding names_grow_def by (metis append.assoc)
  show "registry_step x e now s = Inr s' \<Longrightarrow> names_grow s s'" for e now s s'
    using registry_step_evolves evolves_names_grow by blast
qed (simp add: names_grow_def)

section \<open>Holders\<close>

lemma held_names_row:
  "a \<in> set (held_names d now k) \<longleftrightarrow> (\<exists>n\<in>set (names d). n_name n = a \<and> n_kind n = ''alias'' \<and> n_family n = k_family k
     \<and> n_holder_id n = k_id k \<and> holds d now (n_family n) (n_holder_id n) (n_repository n) (n_role n))"
  by (auto simp: held_names_def)

lemma heldAddress_in: "heldAddress d now k \<noteq> [] \<Longrightarrow> heldAddress d now k \<in> set (held_names d now k)"
  by (auto simp: heldAddress_def split: list.splits)

lemma fenced_not_holder:
  assumes "holders_ok d" "is_fenced d a f i" "i \<noteq> []"
  shows "\<exists>e. requireHolder d now (key f i) a = Inl e"
proof (rule ccontr)
  assume "\<not> ?thesis"
  then have "heldAddress d now (key f i) = a" "a \<noteq> []"
    by (auto simp: requireHolder_def Let_def split: if_splits)
  then have "a \<in> set (held_names d now (key f i))" using heldAddress_in by metis
  then obtain n where "n \<in> set (names d)" "n_name n = a" "n_family n = f" "n_holder_id n = i"
    unfolding held_names_row by auto
  then show False using assms by (auto simp: holders_ok_def)
qed

text \<open>
  C15. A fenced former holder stays out: over any sequence of registrations, renewals, retirements and
  holder choices, at any clock readings, a session that is fenced at an address stays fenced and every
  holder check for it at that address fails, unless the maintainer chooses that very session for that
  very address.
\<close>

theorem fenced_holder_stays_out:
  assumes "registry_ok d" and "is_fenced d a f i" and "i \<noteq> []" and "\<forall>q\<in>set reqs. not_chosen a f i (fst q)"
  shows "is_fenced (run_log (registry_step x) reqs d) a f i
    \<and> (\<exists>e. requireHolder (run_log (registry_step x) reqs d) now (key f i) a = Inl e)"
  using fences.run_guarded[of d a f i reqs x] fenced_not_holder[of _ a f i now] assms
  by (auto simp: registry_ok_def)



section \<open>Qualification\<close>

lemma row_after_update:
  assumes "n \<in> set t" "n_name n = a" "\<And>r. n_name (f r) = n_name r"
  shows "f n \<in> set (update_where (\<lambda>n. n_name n = a) f t) \<and> n_name (f n) = a"
  using assms by (auto simp: in_update_where)

text \<open>
  C18. Registration order never decides the holder: when no other session holds the address now, a
  registration gives it to the caller exactly when the caller is the only session that qualifies; two
  or more qualifying sessions leave the address without a holder; otherwise nothing changes.
\<close>

theorem sole_qualifier_holds:
  assumes r: "takeAddress x now p a h c d = Inr d'" and n: "n \<in> set (names d)" "n_name n = a" "n_holder_id n = h"
    and free: "\<not> (h = p_id p \<and> p_was_active p)" "\<not> (h \<noteq> [] \<and> h \<noteq> p_id p \<and> holds d now (p_family p) h (p_repository p) (p_role p))"
  shows "\<exists>m\<in>set (names d'). n_name m = a \<and> n_holder_id m =
    (if map fst (qualifiers d now p a) = [p_id p] then p_id p else if length (qualifiers d now p a) > 1 then [] else h)"
proof -
  let ?qs = "qualifiers d now p a"
  have one: "map fst ?qs = [p_id p] \<longleftrightarrow> length ?qs = 1 \<and> fst (hd ?qs) = p_id p"
    by (cases ?qs) auto
  note r' = r[unfolded takeAddress_def Let_def if_not_P[OF free(1)] if_not_P[OF free(2)], folded one]
  consider (sole) "map fst ?qs = [p_id p]" | (many) "map fst ?qs \<noteq> [p_id p]" "length ?qs > 1"
    | (none) "map fst ?qs \<noteq> [p_id p]" "\<not> length ?qs > 1" by blast
  then show ?thesis
  proof cases
    case sole
    show ?thesis
    proof (cases "h = p_id p")
      case True
      then show ?thesis using r' sole n by auto
    next
      case False
      then have "setHolder now a h (p_id p) ''only_qualifier'' ''session'' [] d = Inr d'" using r' sole by simp
      from setHolder_writes(1)[OF this] row_after_update[OF n(1,2), of "\<lambda>n. n\<lparr>n_holder_id := p_id p, n_conflict := None\<rparr>"] show ?thesis
        using sole by (intro bexI[of _ "n\<lparr>n_holder_id := p_id p, n_conflict := None\<rparr>"]) simp_all
    qed
  next
    case many
    then have d': "d' = record_conflict x now (p_family p) a h c (map snd ?qs) d" using r' by simp
    show ?thesis
    proof (cases "c = Some (map snd ?qs) \<and> h = []")
      case True
      then show ?thesis using d' many n by (auto simp: record_conflict_def)
    next
      case False
      have "names d' = update_where (\<lambda>n. n_name n = a) (\<lambda>n. n\<lparr>n_conflict := Some (map snd ?qs), n_holder_id := []\<rparr>) (names d)"
        unfolding d' record_conflict_def Let_def if_not_P[OF False] by simp
      then show ?thesis
        using many row_after_update[OF n(1,2), of "\<lambda>n. n\<lparr>n_conflict := Some (map snd ?qs), n_holder_id := []\<rparr>"] by (intro bexI[of _ "n\<lparr>n_conflict := Some (map snd ?qs), n_holder_id := []\<rparr>"]) simp_all
    qed
  next
    case none
    then show ?thesis using r' n by auto
  qed
qed


section \<open>Labels\<close>

definition label_char :: "char \<Rightarrow> bool" where
  "label_char c \<longleftrightarrow> (of_char c :: nat) \<in> {97..122} \<or> (of_char c :: nat) \<in> {48..57} \<or> c = CHR ''-''"

lemma label_rune_char:
  assumes "label_rune r = Some c"
  shows "label_char c"
proof -
  have hyphen: "char_of (45 :: nat) = CHR ''-''" by code_simp
  show ?thesis
    using assms by (auto simp: label_rune_def label_char_def hyphen split: if_splits)
qed

lemma label_bytes_chars:
  assumes "\<And>c. Some c \<in> set xs \<Longrightarrow> label_char c" "c \<in> set (label_bytes xs)"
  shows "label_char c"
  using assms
proof (induction xs rule: label_bytes.induct)
  case 1
  then show ?case by simp
next
  case (2 d cs)
  then show ?case by (cases "c = d") simp_all
next
  case (3 cs)
  then show ?case by simp
qed (use label_char_def[of "CHR ''-''"] in auto)

lemma trim_right_prefix: "\<exists>t. s = trim_right c s @ t"
proof -
  have "rev s = takeWhile (\<lambda>x. x = c) (rev s) @ dropWhile (\<lambda>x. x = c) (rev s)" by simp
  then have "s = rev (dropWhile (\<lambda>x. x = c) (rev s)) @ rev (takeWhile (\<lambda>x. x = c) (rev s))"
    by (metis rev_append rev_rev_ident)
  then show ?thesis unfolding trim_right_def by blast
qed

lemma trim_right_last: "trim_right c s \<noteq> [] \<Longrightarrow> last (trim_right c s) \<noteq> c"
  using hd_dropWhile[of "\<lambda>x. x = c" "rev s"] by (simp add: trim_right_def last_rev)

lemma trim_right_hd: "trim_right c s \<noteq> [] \<Longrightarrow> hd (trim_right c s) = hd s"
  using trim_right_prefix[of s c] by (metis hd_append2)

lemma trim_right_set: "set (trim_right c s) \<subseteq> set s"
  using trim_right_prefix[of s c] by (metis Un_upper1 set_append)

lemma trim_right_length: "length (trim_right c s) \<le> length s"
  using trim_right_prefix[of s c] by (metis le_add1 length_append)

text \<open>
  A label is a valid name part for every repository and directory: 1 to 32 bytes, each a lower
  case letter, a digit or a hyphen, with no hyphen at either end.
\<close>

theorem label_well_formed:
  "1 \<le> length (label r dir) \<and> length (label r dir) \<le> 32 \<and> set (label r dir) \<subseteq> Collect label_char
   \<and> hd (label r dir) \<noteq> CHR ''-'' \<and> last (label r dir) \<noteq> CHR ''-''"
proof -
  define base where "base = (if r = [] then path_base dir
                  else if path_base r = ''.git'' then path_base (path_dir r)
                  else trim_suffix (path_base r) ''.git'')"
  define raw where "raw = label_bytes (map (\<lambda>x. label_rune (fst x)) (decode_runes base))"
  define inner where "inner = dropWhile (\<lambda>x. x = CHR ''-'') raw"
  define result where "result = trim_right CHR ''-'' inner"
  define short where "short = (if length result > 32 then trim_right CHR ''-'' (take 32 result) else result)"
  have label: "label r dir = (if short = [] then ''session'' else short)"
    by (simp add: label_def Let_def short_def result_def inner_def raw_def base_def)
  have "\<forall>c\<in>set raw. label_char c"
  proof
    fix c assume c: "c \<in> set raw"
    have "Some b \<in> set (map (\<lambda>x. label_rune (fst x)) (decode_runes base)) \<Longrightarrow> label_char b" for b
      unfolding set_map by (erule imageE) (rule label_rune_char, erule sym)
    then show "label_char c" using c unfolding raw_def by (rule label_bytes_chars)
  qed
  then have "\<forall>c\<in>set result. label_char c"
    unfolding result_def inner_def using trim_right_set by (meson in_mono set_dropWhileD)
  then have chars: "\<forall>c\<in>set short. label_char c"
    unfolding short_def using trim_right_set[of "CHR ''-''" "take 32 result"] by (auto dest: in_set_takeD)
  have len: "length short \<le> 32"
    unfolding short_def using trim_right_length[of "CHR ''-''" "take 32 result"] by simp
  have hdr: "hd result \<noteq> CHR ''-''" if res: "result \<noteq> []"
  proof -
    have "inner \<noteq> []" using res trim_right_length[of "CHR ''-''" inner] by (auto simp: result_def)
    then have "hd inner \<noteq> CHR ''-''" unfolding inner_def by (rule hd_dropWhile)
    then show ?thesis using trim_right_hd[of "CHR ''-''" inner] res by (simp add: result_def)
  qed
  have hds: "short \<noteq> [] \<Longrightarrow> hd short \<noteq> CHR ''-''"
    unfolding short_def using hdr trim_right_hd[of "CHR ''-''" "take 32 result"] by (cases result) auto
  have lasts: "short \<noteq> [] \<Longrightarrow> last short \<noteq> CHR ''-''"
    unfolding short_def result_def using trim_right_last by auto
  show ?thesis
  proof (cases "short = []")
    case True
    then show ?thesis by (simp add: label label_char_def)
  next
    case False
    then show ?thesis using chars len hds lasts by (simp add: label Suc_le_eq subset_iff)
  qed
qed


definition demo_ext :: ext where
  "demo_ext = \<lparr>sha256 = (\<lambda>_. replicate 32 7), json_text = concat, json_encode = (\<lambda>_. []), json_decode = (\<lambda>_. None),
     json_bytes_view = (\<lambda>_. 2), json_bytes_scope = (\<lambda>_. 2), json_bytes_result = (\<lambda>_. 2), json_bytes_summary = (\<lambda>_. 2),
     json_bytes_listing = (\<lambda>_. 2)\<rparr>"

definition demo_session :: "string \<Rightarrow> int \<Rightarrow> sessionRow" where
  "demo_session i retired = \<lparr>s_family = ''deepseek'', s_id = i, s_repository = ''/w/app/.git'', s_directory = ''/w/app'',
     s_wake_target = JObj [], s_registered_at = 100, s_renewed_at = 100, s_expires_at = 900100, s_retired_at = retired,
     s_revision = 1, s_last_seq = 0, s_acked_through = 0, s_read_through = 0, s_acked_by = [], s_subagent = False,
     s_role = [], s_host_pid = 0, s_host_start = 0, s_tmux_socket = [], s_tmux_pane = [], s_tmux_path = [],
     s_purge_at = 0, s_succession = None\<rparr>"

definition demo_name :: "string \<Rightarrow> string \<Rightarrow> string \<Rightarrow> string \<Rightarrow> nameRow" where
  "demo_name name kind i holder = \<lparr>n_name = name, n_kind = kind, n_family = ''deepseek'', n_session_id = i,
     n_repository = ''/w/app/.git'', n_holder_id = holder, n_role = [], n_conflict = None\<rparr>"

text \<open>A registry in which \<open>s2\<close> holds the address after \<open>s1\<close> retired, which fenced \<open>s1\<close>.\<close>

definition demo_registry :: db where
  "demo_registry = empty_db\<lparr>sessions := [demo_session ''s1'' 300, demo_session ''s2'' 0],
     names := [demo_name ''deepseek-app-07'' ''peer'' ''s1'' [], demo_name ''deepseek-app'' ''alias'' [] ''s2'',
               demo_name ''deepseek-app-08'' ''peer'' ''s2'' []],
     participant_fences := [\<lparr>f_address = ''deepseek-app'', f_family = ''deepseek'', f_session_id = ''s1'', f_at = 400,
       f_reason = ''only_qualifier''\<rparr>]\<rparr>"

definition demo_registration :: "string \<Rightarrow> registry_op" where
  "demo_registration i = RegisterOp (\<lambda>_. None) 900 30000 \<lparr>tc_at = [], tc_since = 0\<rparr> []
     \<lparr>re_directory = Some ''/w/app'', re_common = Inr ''/w/app/.git'', re_dir_common = Inr ''/w/app/.git''\<rparr>
     \<lparr>rg_family = ''deepseek'', rg_id = i, rg_repository = ''/w/app'', rg_directory = ''/w/app'', rg_wake_bytes = 0, rg_wake = None,
       rg_ttl_seconds = 0, rg_launch_id = [], rg_ancestors = [], rg_subagent = False, rg_tmux = None, rg_tool_call = False,
       rg_clear = False\<rparr>"

definition demo_registry_log :: "(registry_op \<times> int) list" where
  "demo_registry_log = [(demo_registration ''s1'', 500), (MutateOp 900 ''deepseek'' ''s2'' 1 0 False, 600)]"

lemma demo_registry_ok: "registry_ok demo_registry"
  by code_simp

theorem fenced_holder_stays_out_witness:
  "is_fenced (run_log (registry_step demo_ext) demo_registry_log demo_registry) ''deepseek-app'' ''deepseek'' ''s1''
    \<and> (\<exists>e. requireHolder (run_log (registry_step demo_ext) demo_registry_log demo_registry) 700 (key ''deepseek'' ''s1'') ''deepseek-app'' = Inl e)"
proof (rule fenced_holder_stays_out[OF demo_registry_ok])
  show "is_fenced demo_registry ''deepseek-app'' ''deepseek'' ''s1''" by code_simp
  show "\<forall>q\<in>set demo_registry_log. not_chosen ''deepseek-app'' ''deepseek'' ''s1'' (fst q)"
    by (simp add: demo_registry_log_def demo_registration_def not_chosen_def)
qed simp


lemma demo_held:
  "heldAddress (run_log (registry_step demo_ext) [(MutateOp 900 ''deepseek'' ''s2'' 1 0 False, 600)] demo_registry) 700
     (key ''deepseek'' ''s2'') = ''deepseek-app''"
  by code_simp


definition demo_participant :: participant where
  "demo_participant = \<lparr>p_family = ''deepseek'', p_id = ''s2'', p_repository = ''/w/app/.git'', p_directory = ''/w/app'',
     p_role = [], p_subagent = False, p_was_active = False\<rparr>"

definition demo_vacant :: db where
  "demo_vacant = demo_registry\<lparr>names := [demo_name ''deepseek-app'' ''alias'' [] []]\<rparr>"

lemma demo_qualifiers: "map fst (qualifiers demo_vacant 500 demo_participant ''deepseek-app'') = [''s2'']"
  by code_simp

theorem sole_qualifier_holds_witness:
  "\<exists>d'. takeAddress demo_ext 500 demo_participant ''deepseek-app'' [] None demo_vacant = Inr d'
     \<and> (\<exists>m\<in>set (names d'). n_name m = ''deepseek-app'' \<and> n_holder_id m = ''s2'')"
proof -
  have "\<not> isl (takeAddress demo_ext 500 demo_participant ''deepseek-app'' [] None demo_vacant)" by code_simp
  then obtain d' where d': "takeAddress demo_ext 500 demo_participant ''deepseek-app'' [] None demo_vacant = Inr d'"
    by (cases "takeAddress demo_ext 500 demo_participant ''deepseek-app'' [] None demo_vacant") simp_all
  have "\<exists>m\<in>set (names d'). n_name m = ''deepseek-app'' \<and> n_holder_id m = ''s2''"
    using sole_qualifier_holds[OF d', of "demo_name ''deepseek-app'' ''alias'' [] []"] demo_qualifiers
    by (simp add: demo_vacant_def demo_name_def demo_participant_def)
  then show ?thesis using d' by blast
qed

section \<open>Succession\<close>

text \<open>
  A live host is not displaced: when the holder's recorded host process still runs and the caller
  was registered from another process, a succession request changes neither a name nor a fence. This
  is so whatever pane the caller runs in and whatever managed cycle is under way.
\<close>

theorem live_host_not_displaced:
  assumes r: "succeed x ps g calls details now k repository role subagent clear d = Inr (su, d')"
    and n: "alias_row d (k_family k) repository role = Some n"
    and sh: "hostOf d (k_family k) (k_id k) = Inr sh" and hh: "hostOf d (k_family k) (n_holder_id n) = Inr hh"
    and live: "h_start hh \<noteq> 0" "ps (h_pid hh) = Some (Some (h_start hh))"
    and other: "h_pid sh \<noteq> h_pid hh \<or> h_start sh \<noteq> h_start hh"
  shows "names d' = names d \<and> participant_fences d' = participant_fences d"
proof -
  have same: "(h_start sh \<noteq> 0 \<and> h_pid sh = h_pid hh \<and> h_start sh = h_start hh) = False" using other by blast
  have start: "(h_start hh = 0) = False" using live(1) by simp
  have running: "hostEnded ps hh = False" using live(2) by (simp add: hostEnded_def)
  have "isl (evidence_of x ps g calls d now k (n_name n) (n_holder_id n) subagent clear sh hh)"
    unfolding evidence_of_def Let_def same start running by simp
  then obtain reason retry where refuse:
    "evidence_of x ps g calls d now k (n_name n) (n_holder_id n) subagent clear sh hh = Inl (reason, retry)"
    by (cases "evidence_of x ps g calls d now k (n_name n) (n_holder_id n) subagent clear sh hh") auto
  show ?thesis
    using r unfolding succeed_def n option.case Let_def sh hh rbind_simps refuse sum.case prod.case
    by (auto split: if_split_asm simp: participantEvent_def)
qed

definition demo_hosted :: db where
  "demo_hosted = demo_registry\<lparr>sessions := [(demo_session ''s1'' 0)\<lparr>s_host_pid := 11, s_host_start := 5\<rparr>,
     (demo_session ''s2'' 0)\<lparr>s_host_pid := 22, s_host_start := 6\<rparr>], participant_fences := []\<rparr>"

theorem live_host_not_displaced_witness:
  "\<exists>su d'. succeed demo_ext (\<lambda>_. Some (Some 6)) 30000 \<lparr>tc_at = [], tc_since = 0\<rparr> [] 500 (key ''deepseek'' ''s1'') ''/w/app/.git'' [] False False
     demo_hosted = Inr (su, d') \<and> names d' = names demo_hosted"
proof -
  let ?r = "succeed demo_ext (\<lambda>_. Some (Some 6)) 30000 \<lparr>tc_at = [], tc_since = 0\<rparr> [] 500 (key ''deepseek'' ''s1'') ''/w/app/.git'' [] False False demo_hosted"
  have "\<not> isl ?r" by code_simp
  then obtain su d' where r: "?r = Inr (su, d')" by (cases ?r) auto
  have "names d' = names demo_hosted \<and> participant_fences d' = participant_fences demo_hosted"
  proof (rule live_host_not_displaced[OF r])
    show "alias_row demo_hosted (k_family (key ''deepseek'' ''s1'')) ''/w/app/.git'' [] = Some (demo_name ''deepseek-app'' ''alias'' [] ''s2'')"
      by code_simp
    show "hostOf demo_hosted (k_family (key ''deepseek'' ''s1'')) (k_id (key ''deepseek'' ''s1'')) =
        Inr \<lparr>h_pid = 11, h_start = 5, h_socket = [], h_pane = [], h_executable = []\<rparr>" by code_simp
    show "hostOf demo_hosted (k_family (key ''deepseek'' ''s1'')) (n_holder_id (demo_name ''deepseek-app'' ''alias'' [] ''s2'')) =
        Inr \<lparr>h_pid = 22, h_start = 6, h_socket = [], h_pane = [], h_executable = []\<rparr>" by code_simp
  qed simp_all
  then show ?thesis using r by blast
qed

end
