(* ===== verification/Mail_Safety.thy ===== *)
theory Mail_Safety
  imports Messaging Registry_Runs
begin

text \<open>
  What messaging guarantees over every run of sends, reads, acknowledgements and delivery reports,
  mixed with every write of the session registry: sequence numbers are gapless, a message is never
  lost or changed, and an acknowledgement only moves forward.
\<close>

section \<open>Letters and inboxes\<close>

text \<open>Everything of a message but its delivery and acknowledgement state.\<close>

definition letter :: "messageRow \<Rightarrow> messageRow" where
  "letter g = g\<lparr>g_delivery_state := [], g_delivery_reason := [], g_delivery_updated_at := 0, g_wake_attempts := 0,
     g_wake_next_at := 0, g_wake_reason := [], g_wake_notices := 0, g_maintainer_ack := False, g_ack_session := [], g_ack_via := []\<rparr>"

lemma letter_sel [simp]:
  "g_id (letter g) = g_id g" "g_recipient_family (letter g) = g_recipient_family g" "g_recipient_id (letter g) = g_recipient_id g"
  "g_seq (letter g) = g_seq g" "g_body (letter g) = g_body g"
  by (simp_all add: letter_def)

definition skey :: "sessionRow \<Rightarrow> string \<times> string" where
  "skey s = (s_family s, s_id s)"

definition inbox_seqs :: "db \<Rightarrow> string \<times> string \<Rightarrow> int list" where
  "inbox_seqs d k = map g_seq (filter (\<lambda>g. (g_recipient_family g, g_recipient_id g) = k) (messages d))"

definition mail_inv :: "db \<Rightarrow> bool" where
  "mail_inv d \<longleftrightarrow> distinct (map skey (sessions d))
     \<and> (\<forall>s\<in>set (sessions d). 0 \<le> s_acked_through s \<and> s_acked_through s \<le> s_last_seq s \<and> inbox_seqs d (skey s) = [1..s_last_seq s])
     \<and> (\<forall>g\<in>set (messages d). (g_recipient_family g, g_recipient_id g) \<in> set (map skey (sessions d)))
     \<and> distinct (map g_id (messages d)) \<and> (\<forall>g\<in>set (messages d). g_id g \<le> message_ids d)"

lemma mail_invD:
  assumes "mail_inv d"
  shows "distinct (map skey (sessions d))"
    and "s \<in> set (sessions d) \<Longrightarrow> 0 \<le> s_acked_through s"
    and "s \<in> set (sessions d) \<Longrightarrow> s_acked_through s \<le> s_last_seq s"
    and "s \<in> set (sessions d) \<Longrightarrow> inbox_seqs d (skey s) = [1..s_last_seq s]"
    and "g \<in> set (messages d) \<Longrightarrow> (g_recipient_family g, g_recipient_id g) \<in> set (map skey (sessions d))"
    and "distinct (map g_id (messages d))"
    and "g \<in> set (messages d) \<Longrightarrow> g_id g \<le> message_ids d"
  using assms unfolding mail_inv_def by blast+

lemma inbox_seqs_letters:
  assumes "map letter (messages d') = map letter (messages d)"
  shows "inbox_seqs d' k = inbox_seqs d k"
proof -
  have "inbox_seqs d k = map g_seq (filter (\<lambda>g. (g_recipient_family g, g_recipient_id g) = k) (map letter (messages d)))" for d
    by (simp add: inbox_seqs_def filter_map comp_def)
  then show ?thesis using assms by simp
qed

section \<open>Writes that leave the mail alone\<close>

definition quiet :: "db \<Rightarrow> db \<Rightarrow> bool" where
  "quiet d d' \<longleftrightarrow> map letter (messages d') = map letter (messages d) \<and> message_ids d' = message_ids d
     \<and> (\<exists>new. map inbox_part (sessions d') = map inbox_part (sessions d) @ new \<and> (\<forall>p\<in>set new. snd (snd p) = (0, 0)))
     \<and> (distinct (map skey (sessions d)) \<longrightarrow> distinct (map skey (sessions d')))"

lemma skey_map: "map skey t = map (\<lambda>p. (fst p, fst (snd p))) (map inbox_part t)"
  by (simp add: skey_def inbox_part_def)

lemma skeys_eq:
  assumes "map inbox_part t = map inbox_part u"
  shows "map skey t = map skey u"
  by (simp only: skey_map assms)

lemma quietI:
  assumes "map letter (messages d') = map letter (messages d)" "message_ids d' = message_ids d"
    "map inbox_part (sessions d') = map inbox_part (sessions d)"
  shows "quiet d d'"
  using assms skeys_eq[OF assms(3)] by (simp add: quiet_def)

lemma quiet_same:
  "messages d' = messages d \<Longrightarrow> message_ids d' = message_ids d \<Longrightarrow> sessions d' = sessions d \<Longrightarrow> quiet d d'"
  by (rule quietI) simp_all

lemma quiet_append:
  assumes "skey s \<notin> set (map skey (sessions d))" "s_last_seq s = 0" "s_acked_through s = 0"
  shows "quiet d (d\<lparr>sessions := sessions d @ [s]\<rparr>)"
  using assms by (simp add: quiet_def inbox_part_def)

lemma quiet_trans:
  assumes "quiet d d1" "quiet d1 d2"
  shows "quiet d d2"
proof -
  obtain new1 where 1: "map inbox_part (sessions d1) = map inbox_part (sessions d) @ new1" "\<forall>p\<in>set new1. snd (snd p) = (0, 0)"
    using assms(1) by (auto simp: quiet_def)
  obtain new2 where 2: "map inbox_part (sessions d2) = map inbox_part (sessions d1) @ new2" "\<forall>p\<in>set new2. snd (snd p) = (0, 0)"
    using assms(2) by (auto simp: quiet_def)
  have "map inbox_part (sessions d2) = map inbox_part (sessions d) @ (new1 @ new2)" using 1(1) 2(1) by simp
  moreover have "\<forall>p\<in>set (new1 @ new2). snd (snd p) = (0, 0)" using 1(2) 2(2) by (simp add: ball_Un)
  ultimately show ?thesis using assms unfolding quiet_def by metis
qed

lemma session_row_None: "session_row d f i = None \<longleftrightarrow> (f, i) \<notin> set (map skey (sessions d))"
  by (auto simp: session_row_def find_None_all skey_def)

lemma session_rowD: "session_row d f i = Some s \<Longrightarrow> s \<in> set (sessions d) \<and> skey s = (f, i)"
  unfolding session_row_def by (drule find_Some_mem) (simp add: skey_def)

lemma inbox_part_update [simp]:
  "(\<And>s. inbox_part (f s) = inbox_part s) \<Longrightarrow> map inbox_part (update_where P f t) = map inbox_part t"
  by (rule map_update_where)

lemma letter_update [simp]:
  "(\<And>g. letter (f g) = letter g) \<Longrightarrow> map letter (update_where P f t) = map letter t"
  by (rule map_update_where)

lemma quiet_upsert: "quiet d (upsert_session now dur reg com dir target role h d)"
proof (cases "session_row d (rg_family reg) (rg_id reg)")
  case None
  then have new: "(rg_family reg, rg_id reg) \<notin> set (map skey (sessions d))" by (simp only: session_row_None not_False_eq_True)
  show ?thesis
    unfolding upsert_session_def None option.case by (rule quiet_append) (use new in \<open>simp_all add: skey_def\<close>)
next
  case (Some s)
  then show ?thesis by (intro quietI) (simp_all add: upsert_session_def inbox_part_def)
qed

lemma quiet_fence_retire: "quiet d (fence now a f i r (retire_active now f i d))"
  by (rule quietI) (simp_all add: fence_def retire_active_def Let_def inbox_part_def)

lemma quiet_set_alias: "quiet d (set_alias a g d)"
  by (rule quiet_same) (simp_all add: set_alias_def)

lemma quiet_event: "quiet d (participantEvent now a fo ho r ac de d)"
  by (rule quiet_same) (simp_all add: participantEvent_def)

lemma quiet_reset: "quiet d (reset_inbox now f i d)"
  by (rule quietI) (simp_all add: reset_inbox_def Let_def inbox_part_def letter_def)

lemma quiet_setHolder:
  assumes "setHolder now a former i reason actor details d = Inr d'"
  shows "quiet d d'"
proof -
  define d1 where "d1 = set_alias a (\<lambda>n. n\<lparr>n_holder_id := i, n_conflict := None\<rparr>) d"
  obtain n where n: "List.find (\<lambda>n. n_name n = a) (names d1) = Some n"
    using assms by (cases "List.find (\<lambda>n. n_name n = a) (names d1)") (simp_all add: setHolder_def Let_def d1_def)
  define d2 where "d2 = (if former \<noteq> [] \<and> former \<noteq> i
    then fence now a (n_family n) former reason (retire_active now (n_family n) former d1) else d1)"
  define d3 where "d3 = (if former \<noteq> i then reset_inbox now (n_family n) (participantKey a) d2 else d2)"
  have "Inr (participantEvent now a (peerOf d3 (n_family n) former) (peerOf d3 (n_family n) i) reason actor details d3) = (Inr d' :: kerror + db)"
    using assms unfolding setHolder_def Let_def d1_def[symmetric] n opt_err.simps rbind_simps d2_def[symmetric] d3_def[symmetric] .
  moreover have "quiet d d1" unfolding d1_def by (rule quiet_set_alias)
  moreover have "quiet d1 d2" unfolding d2_def by (simp add: quiet_fence_retire quiet_same)
  moreover have "quiet d2 d3" unfolding d3_def by (simp add: quiet_reset quiet_same)
  ultimately show ?thesis using quiet_event quiet_trans by (metis sum.inject(2))
qed

lemma quiet_conflict: "quiet d (record_conflict x now f a holder conflict peers d)"
proof (cases "conflict = Some peers \<and> holder = []")
  case True
  then show ?thesis by (simp add: record_conflict_def quiet_same)
next
  case False
  define d1 where "d1 = set_alias a (\<lambda>n. n\<lparr>n_conflict := Some peers, n_holder_id := []\<rparr>) d"
  define d2 where "d2 = (if holder \<noteq> [] then fence now a f holder ''conflict'' (retire_active now f holder d1) else d1)"
  have "quiet d d1" unfolding d1_def by (rule quiet_set_alias)
  moreover have "quiet d1 d2" unfolding d2_def by (simp add: quiet_fence_retire quiet_same)
  ultimately have "quiet d d2" by (rule quiet_trans)
  then show ?thesis
    unfolding record_conflict_def Let_def if_not_P[OF False] d1_def[symmetric] d2_def[symmetric] by (rule quiet_trans) (rule quiet_event)
qed

lemma quiet_fold_event: "quiet d (fold (\<lambda>a. participantEvent now a fo [] r ac []) as d)"
  by (induction as arbitrary: d) (auto simp: quiet_same intro: quiet_trans[OF quiet_event])

lemma quiet_release: "quiet d (releaseAddress now f i r ac d)"
proof (cases "filter (\<lambda>n. n_kind n = ''alias'' \<and> n_family n = f \<and> n_holder_id n = i) (names d) = []")
  case True
  then show ?thesis by (simp add: releaseAddress_def quiet_same)
next
  case False
  have "quiet d (d\<lparr>names := t\<rparr>)" for t by (rule quiet_same) simp_all
  then show ?thesis unfolding releaseAddress_def Let_def using False by (auto simp: quiet_same intro: quiet_trans[OF _ quiet_fold_event])
qed

interpretation quiet_registry: registry_relation quiet
proof
  show "quiet d d" for d by (rule quiet_same) simp_all
  show "insert_name n d = Inr d' \<Longrightarrow> quiet d d'" for n d d'
    by (rule quiet_same) (auto simp: insert_name_def)
  show "quiet d (d\<lparr>sessions := update_where P g (sessions d)\<rparr>)" if "\<And>s. inbox_part (g s) = inbox_part s" for g d P
    by (rule quietI) (simp_all add: that)
  show "fenceCyclesTx now reason w d = Inr d' \<Longrightarrow> quiet d d'" for now reason w d d'
    by (drule fenceCyclesTx_frame) (simp add: cycle_frame_def quiet_same)
  show "quiet d (d\<lparr>context_enables := t\<rparr>)" for d t by (rule quiet_same) simp_all
qed (simp_all add: quiet_setHolder quiet_conflict quiet_release quiet_event quiet_upsert, rule quiet_trans)

lemma quiet_choose:
  assumes "chooseHolder now address k revision details d = Inr (former, d')"
  shows "quiet d d'"
proof -
  have d1: "quiet d (unfenced address k d)" by (rule quiet_same) (simp_all add: unfenced_def)
  obtain n :: nameRow where "d' = unfenced address k d \<or> (\<exists>d2. fenceCyclesTx now ''holder_changed'' (\<lambda>c. c_address c = address) (unfenced address k d) = Inr d2
        \<and> setHolder now address (n_holder_id n) (k_id k) ''maintainer_choice'' ''maintainer'' details d2 = Inr d')"
    using chooseHolder_writes[OF assms] by blast
  then show ?thesis
    using d1 quiet_trans[OF d1 quiet_trans[OF quiet_registry.R_fenceCycles quiet_setHolder]] by auto
qed

lemma quiet_registry_step: "registry_step x q now d = Inr d' \<Longrightarrow> quiet d d'"
  by (cases q) (auto dest: quiet_registry.R_Register quiet_registry.R_Mutate quiet_choose)


section \<open>The mail invariant\<close>

lemma quiet_row:
  assumes "quiet d d'" "s' \<in> set (sessions d')"
  shows "(\<exists>s\<in>set (sessions d). inbox_part s = inbox_part s') \<or>
    (s_last_seq s' = 0 \<and> s_acked_through s' = 0 \<and> (distinct (map skey (sessions d)) \<longrightarrow> skey s' \<notin> set (map skey (sessions d))))"
proof -
  obtain new where new: "map inbox_part (sessions d') = map inbox_part (sessions d) @ new" "\<forall>p\<in>set new. snd (snd p) = (0, 0)"
    using assms(1) unfolding quiet_def by blast
  have keys: "map skey (sessions d') = map skey (sessions d) @ map (\<lambda>p. (fst p, fst (snd p))) new"
    by (simp only: skey_map new(1) map_append)
  have "inbox_part s' \<in> set (map inbox_part (sessions d) @ new)" using assms(2) new(1) by (metis image_eqI set_map)
  then consider "inbox_part s' \<in> set (map inbox_part (sessions d))" | "inbox_part s' \<in> set new" by auto
  then show ?thesis
  proof cases
    case 1
    then show ?thesis by auto
  next
    case 2
    let ?k = "\<lambda>p :: string \<times> string \<times> int \<times> int. (fst p, fst (snd p))"
    have "?k (inbox_part s') \<in> set (map ?k new)" unfolding set_map using 2 by (rule imageI)
    then have "skey s' \<in> set (map ?k new)" by (simp only: inbox_part_def skey_def fst_conv snd_conv)
    moreover have "distinct (map skey (sessions d)) \<Longrightarrow> distinct (map skey (sessions d) @ map ?k new)"
      using assms(1) unfolding quiet_def keys by (elim conjE mp)
    ultimately have "distinct (map skey (sessions d)) \<longrightarrow> skey s' \<notin> set (map skey (sessions d))"
      unfolding distinct_append by blast
    moreover have "snd (snd (inbox_part s')) = (0, 0)" using 2 new(2) by blast
    ultimately show ?thesis by (simp add: inbox_part_def)
  qed
qed

lemma quiet_mail_inv:
  assumes q: "quiet d d'" and inv: "mail_inv d"
  shows "mail_inv d'"
proof -
  note i = mail_invD[OF inv]
  have letters: "map letter (messages d') = map letter (messages d)" and ids: "message_ids d' = message_ids d"
    and dist: "distinct (map skey (sessions d'))"
    using q i(1) unfolding quiet_def by auto
  have seqs: "inbox_seqs d' k = inbox_seqs d k" for k by (rule inbox_seqs_letters[OF letters])
  have mem: "\<exists>h\<in>set (messages d). letter h = letter g" if "g \<in> set (messages d')" for g
    using that letters by (metis (no_types, lifting) image_iff set_map)
  have keep: "set (map skey (sessions d)) \<subseteq> set (map skey (sessions d'))"
  proof
    fix k assume "k \<in> set (map skey (sessions d))"
    then obtain s where s: "s \<in> set (sessions d)" "k = skey s" by auto
    obtain new where "map inbox_part (sessions d') = map inbox_part (sessions d) @ new"
      using q unfolding quiet_def by blast
    then have "inbox_part s \<in> set (map inbox_part (sessions d'))" using s(1) by auto
    then obtain s' where "s' \<in> set (sessions d')" "inbox_part s = inbox_part s'" by auto
    then show "k \<in> set (map skey (sessions d'))" using s(2) by (auto simp: inbox_part_def skey_def)
  qed
  have row: "0 \<le> s_acked_through s \<and> s_acked_through s \<le> s_last_seq s \<and> inbox_seqs d' (skey s) = [1..s_last_seq s]"
    if s: "s \<in> set (sessions d')" for s
    using quiet_row[OF q s]
  proof
    assume "\<exists>t\<in>set (sessions d). inbox_part t = inbox_part s"
    then obtain t where t: "t \<in> set (sessions d)" "inbox_part t = inbox_part s" by blast
    then have "skey s = skey t" "s_acked_through s = s_acked_through t" "s_last_seq s = s_last_seq t"
      by (simp_all add: inbox_part_def skey_def)
    then show ?thesis using i(2-4)[OF t(1)] by (simp add: seqs)
  next
    assume n: "s_last_seq s = 0 \<and> s_acked_through s = 0 \<and> (distinct (map skey (sessions d)) \<longrightarrow> skey s \<notin> set (map skey (sessions d)))"
    then have "skey s \<notin> set (map skey (sessions d))" using i(1) by blast
    then have "inbox_seqs d (skey s) = []" using i(5) unfolding inbox_seqs_def map_is_Nil_conv filter_empty_conv by metis
    then show ?thesis using n by (simp add: seqs)
  qed
  have rec: "(g_recipient_family g, g_recipient_id g) \<in> set (map skey (sessions d'))" if gin: "g \<in> set (messages d')" for g
  proof -
    obtain h where h: "h \<in> set (messages d)" "letter h = letter g" using mem[OF gin] by blast
    then have "(g_recipient_family g, g_recipient_id g) = (g_recipient_family h, g_recipient_id h)" by (metis letter_sel(2,3))
    then show ?thesis using i(5)[OF h(1)] keep by auto
  qed
  have "map g_id (map letter (messages d')) = map g_id (map letter (messages d))" using letters by simp
  then have idl: "map g_id (messages d') = map g_id (messages d)" by (simp add: comp_def)
  have "g_id g \<le> message_ids d'" if "g \<in> set (messages d')" for g
    using mem[OF that] i(7) ids letter_sel(1) by metis
  then show ?thesis using dist row rec idl i(6) unfolding mail_inv_def by simp
qed

lemma quiet_ensure: "ensureParticipantInbox now a d = Inr d' \<Longrightarrow> quiet d d'"
proof -
  assume r: "ensureParticipantInbox now a d = Inr d'"
  then obtain n where n: "List.find (\<lambda>n. n_name n = a \<and> n_kind n = ''alias'') (names d) = Some n"
    by (auto simp: ensureParticipantInbox_def)
  show "quiet d d'"
  proof (cases "session_row d (n_family n) (participantKey a)")
    case None
    then have new: "(n_family n, participantKey a) \<notin> set (map skey (sessions d))" by (simp only: session_row_None not_False_eq_True)
    show ?thesis
      using r unfolding ensureParticipantInbox_def n None opt_err.simps rbind_simps option.case sum.inject
      by (elim subst) (rule quiet_append, use new in \<open>simp_all add: skey_def\<close>)
  next
    case (Some s)
    then show ?thesis using r n by (simp add: ensureParticipantInbox_def quiet_same)
  qed
qed

lemma quiet_set_read: "quiet d (set_read k after through d)"
  unfolding set_read_def by (rule quietI) (simp_all add: inbox_part_def)

lemma quiet_markRead: "quiet d (markRead now caller a after pa ms d)"
  unfolding markRead_def Let_def by (auto simp: quiet_same intro: quiet_set_read quiet_trans[OF quiet_set_read quiet_set_read])

lemma quiet_read: "ReadInboxes now later marked noted caller after pa limit d = Inr (inbox, d') \<Longrightarrow> quiet d d'"
proof -
  have note_quiet: "quiet e (noteCycleInboxRead caller e)" for e by (rule quiet_same) (simp_all add: noteCycleInboxRead_def)
  assume "ReadInboxes now later marked noted caller after pa limit d = Inr (inbox, d')"
  then obtain a where "d' = (if noted then noteCycleInboxRead caller (if marked then markRead later caller a after pa (ib_messages inbox) d else d)
      else (if marked then markRead later caller a after pa (ib_messages inbox) d else d))"
    by (auto simp: ReadInboxes_def Let_def)
  then show "quiet d d'"
    by (cases noted; cases marked) (simp_all add: note_quiet quiet_markRead quiet_same quiet_trans[OF quiet_markRead note_quiet])
qed

lemma quiet_delivery: "SetDelivery now i st r d = Inr d' \<Longrightarrow> quiet d d'"
  by (auto simp: SetDelivery_def letter_def intro!: quietI split: if_split_asm)


section \<open>What a message operation may change\<close>

text \<open>The invariant is kept, letters are only added, and sequences and acknowledgements only grow.\<close>

definition mail_le :: "db \<Rightarrow> db \<Rightarrow> bool" where
  "mail_le d d' \<longleftrightarrow> (mail_inv d \<longrightarrow> mail_inv d' \<and> (\<exists>new. map letter (messages d') = map letter (messages d) @ new)
     \<and> (\<forall>s\<in>set (sessions d). \<exists>s'\<in>set (sessions d'). skey s' = skey s \<and> s_last_seq s \<le> s_last_seq s'
          \<and> s_acked_through s \<le> s_acked_through s'))"

lemma mail_le_trans:
  assumes ab: "mail_le a b" and bc: "mail_le b c"
  shows "mail_le a c"
  unfolding mail_le_def
proof (intro impI conjI ballI)
  assume inv: "mail_inv a"
  then have invb: "mail_inv b" using ab by (simp add: mail_le_def)
  then show "mail_inv c" using bc by (simp add: mail_le_def)
  show "\<exists>new. map letter (messages c) = map letter (messages a) @ new"
    using ab bc inv invb unfolding mail_le_def by (metis append.assoc)
  fix s assume "s \<in> set (sessions a)"
  then obtain t where t: "t \<in> set (sessions b)" "skey t = skey s" "s_last_seq s \<le> s_last_seq t" "s_acked_through s \<le> s_acked_through t"
    using ab inv unfolding mail_le_def by blast
  then obtain u where "u \<in> set (sessions c)" "skey u = skey t" "s_last_seq t \<le> s_last_seq u" "s_acked_through t \<le> s_acked_through u"
    using bc invb unfolding mail_le_def by blast
  then show "\<exists>s'\<in>set (sessions c). skey s' = skey s \<and> s_last_seq s \<le> s_last_seq s' \<and> s_acked_through s \<le> s_acked_through s'"
    using t by (intro bexI[of _ u]) simp_all
qed

lemma quiet_mail_le:
  assumes q: "quiet d d'"
  shows "mail_le d d'"
  unfolding mail_le_def
proof (intro impI conjI ballI)
  assume "mail_inv d"
  then show "mail_inv d'" by (rule quiet_mail_inv[OF q])
  show "\<exists>new. map letter (messages d') = map letter (messages d) @ new" using q by (simp add: quiet_def)
  fix s assume s: "s \<in> set (sessions d)"
  obtain new where "map inbox_part (sessions d') = map inbox_part (sessions d) @ new" using q unfolding quiet_def by blast
  then have "inbox_part s \<in> set (map inbox_part (sessions d'))" using s by simp
  then obtain s' where "s' \<in> set (sessions d')" "inbox_part s = inbox_part s'" unfolding set_map by (elim imageE)
  then show "\<exists>s'\<in>set (sessions d'). skey s' = skey s \<and> s_last_seq s \<le> s_last_seq s' \<and> s_acked_through s \<le> s_acked_through s'"
    by (intro bexI[of _ s']) (simp_all add: inbox_part_def skey_def)
qed

lemma mail_inv_row:
  assumes "mail_inv d" "s \<in> set (sessions d)" "t \<in> set (sessions d)" "skey s = skey t"
  shows "s = t"
  using distinct_key_eq[OF mail_invD(1)[OF assms(1)] assms(2-4)] .

lemma set_acked_le:
  assumes row: "session_row d (k_family k) (k_id k) = Some s" and through: "s_acked_through s < through" "through \<le> s_last_seq s"
    and f: "\<And>s. skey (f s) = skey s" "\<And>s. s_last_seq (f s) = s_last_seq s" "\<And>s. s_acked_through (f s) = through"
    and h: "\<And>g. letter (h g) = letter g"
  shows "mail_le d (set_acked k f acked through h d)"
  unfolding mail_le_def
proof (intro impI)
  assume inv: "mail_inv d"
  note i = mail_invD[OF inv]
  let ?d' = "set_acked k f acked through h d" and ?own = "\<lambda>s. s_family s = k_family k \<and> s_id s = k_id k"
  have s: "s \<in> set (sessions d)" "?own s" using session_rowD[OF row] by (simp_all add: skey_def)
  have own: "?own q \<longleftrightarrow> q = s" if "q \<in> set (sessions d)" for q
    using mail_inv_row[OF inv that s(1)] s(2) by (auto simp: skey_def)
  have letters: "map letter (messages ?d') = map letter (messages d)" by (simp add: set_acked_def h)
  have seqs: "inbox_seqs ?d' k' = inbox_seqs d k'" for k' by (rule inbox_seqs_letters[OF letters])
  have sess: "sessions ?d' = update_where ?own f (sessions d)" and ids: "message_ids ?d' = message_ids d" by (simp_all add: set_acked_def)
  have keys: "map skey (sessions ?d') = map skey (sessions d)" unfolding sess by (rule map_update_where) (rule f)
  have row: "0 \<le> s_acked_through r \<and> s_acked_through r \<le> s_last_seq r \<and> inbox_seqs ?d' (skey r) = [1..s_last_seq r]"
    if r: "r \<in> set (sessions ?d')" for r
  proof -
    from r obtain q where q: "q \<in> set (sessions d)" "r = (if ?own q then f q else q)" unfolding sess in_update_where by blast
    show ?thesis
    proof (cases "?own q")
      case True
      then have "q = s" using own[OF q(1)] by simp
      then show ?thesis using q through i(2-4)[OF s(1)] True by (simp add: f seqs)
    next
      case False
      then have "r = q" unfolding q(2) by (rule if_not_P)
      then show ?thesis using i(2-4)[OF q(1)] by (simp add: seqs)
    qed
  qed
  have mem: "\<exists>g'\<in>set (messages d). letter g' = letter g" if "g \<in> set (messages ?d')" for g
    using that letters by (metis (no_types, lifting) image_iff set_map)
  have rec: "(g_recipient_family g, g_recipient_id g) \<in> set (map skey (sessions ?d')) \<and> g_id g \<le> message_ids ?d'"
    if "g \<in> set (messages ?d')" for g
    using mem[OF that] i(5,7) unfolding keys ids by (metis letter_sel(1-3))
  have "map g_id (map letter (messages ?d')) = map g_id (map letter (messages d))" using letters by simp
  then have "map g_id (messages ?d') = map g_id (messages d)" by (simp add: comp_def)
  then have "mail_inv ?d'" unfolding mail_inv_def using keys i(1,6) row rec by simp
  moreover have "\<exists>s'\<in>set (sessions ?d'). skey s' = skey q \<and> s_last_seq q \<le> s_last_seq s' \<and> s_acked_through q \<le> s_acked_through s'"
    if q: "q \<in> set (sessions d)" for q
  proof -
    have "(if ?own q then f q else q) \<in> set (sessions ?d')" unfolding sess in_update_where using q by blast
    then show ?thesis
      by (rule bexI[rotated]) (use own[OF q] through in \<open>auto simp: f\<close>)
  qed
  ultimately show "mail_inv ?d' \<and> (\<exists>new. map letter (messages ?d') = map letter (messages d) @ new)
    \<and> (\<forall>s\<in>set (sessions d). \<exists>s'\<in>set (sessions ?d'). skey s' = skey s \<and> s_last_seq s \<le> s_last_seq s'
          \<and> s_acked_through s \<le> s_acked_through s')" using letters by simp
qed


text \<open>The write of an acknowledgement: the sequence of the inbox and the marks of its messages.\<close>

definition acknowledges :: "db \<Rightarrow> Key \<Rightarrow> db \<Rightarrow> bool" where
  "acknowledges d k d' \<longleftrightarrow> (\<exists>s t f h. session_row d (k_family k) (k_id k) = Some s \<and> s_acked_through s < t \<and> t \<le> s_last_seq s
     \<and> (\<forall>s. skey (f s) = skey s \<and> s_last_seq (f s) = s_last_seq s \<and> s_acked_through (f s) = t)
     \<and> (\<forall>g. letter (h g) = letter g) \<and> d' = set_acked k f (s_acked_through s) t h d)"

lemma acknowledgesI:
  assumes "session_row d (k_family k) (k_id k) = Some s" "s_acked_through s < t" "t \<le> s_last_seq s"
    "\<And>s. skey (f s) = skey s" "\<And>s. s_last_seq (f s) = s_last_seq s" "\<And>s. s_acked_through (f s) = t"
    "\<And>g. letter (h g) = letter g"
  shows "acknowledges d k (set_acked k f (s_acked_through s) t h d)"
  unfolding acknowledges_def using assms by (intro exI[of _ s] exI[of _ t] exI[of _ f] exI[of _ h]) simp

lemma acknowledges_le: "acknowledges d k d' \<Longrightarrow> mail_le d d'"
  unfolding acknowledges_def by (elim exE conjE) (simp only: set_acked_le)

lemma ackIf_writes:
  assumes "ackIf now caller through dashboard revision origin d = Inr (n, d')"
  shows "d' = d \<or> (\<exists>e. acknowledges d caller e \<and> quiet e d')"
proof -
  have bump: "quiet e (bumpInbox k e)" for e k by (rule quiet_same) (simp_all add: bumpInbox_def)
  obtain s where s: "session_row d (k_family caller) (k_id caller) = Some s"
    using assms by (auto simp: ackIf_def split: if_split_asm)
  define t where "t = (if through < 0 then s_last_seq s else through)"
  define e where "e name via = set_acked caller (\<lambda>s. s\<lparr>s_acked_through := t\<rparr>) (s_acked_through s) t
      (\<lambda>g. g\<lparr>g_maintainer_ack := g_maintainer_ack g \<or> dashboard, g_ack_session := name, g_ack_via := via\<rparr>) d" for name via
  have "d' = d \<or> s_acked_through s < t \<and> t \<le> s_last_seq s \<and> (\<exists>name via. d' = bumpInbox caller (e name via))"
    using assms s unfolding ackIf_def Let_def s opt_err.simps rbind_simps t_def[symmetric] e_def[symmetric] by (auto split: if_split_asm)
  moreover have "acknowledges d caller (e name via)" if "s_acked_through s < t" "t \<le> s_last_seq s" for name via
    unfolding e_def by (rule acknowledgesI[OF s that]) (simp_all add: skey_def letter_def)
  ultimately show ?thesis using bump by blast
qed

lemma ackIf_le: "ackIf now caller through dashboard revision origin d = Inr (n, d') \<Longrightarrow> mail_le d d'"
  by (drule ackIf_writes) (auto simp: quiet_mail_le quiet_same intro: mail_le_trans[OF acknowledges_le quiet_mail_le])

lemma AckParticipant_writes:
  assumes "AckParticipant now caller through d = Inr (a, n, d')"
  shows "\<exists>d1 k. quiet d d1 \<and> (d' = d1 \<or> acknowledges d1 k d')"
proof -
  obtain d1 where d1: "ensureParticipantInbox now (heldAddress d now caller) d = Inr d1"
    using assms by (auto simp: AckParticipant_def Let_def split: if_split_asm)
  define k where "k = key (k_family caller) (participantKey (heldAddress d now caller))"
  obtain s where s: "session_row d1 (k_family k) (k_id k) = Some s"
    using assms d1 by (auto simp: AckParticipant_def Let_def k_def split: if_split_asm)
  have "d' = d1 \<or> s_acked_through s < through \<and> through \<le> s_last_seq s \<and> d' = set_acked k
      (\<lambda>s. s\<lparr>s_acked_through := through, s_acked_by := k_family caller @ '':'' @ k_id caller\<rparr>) (s_acked_through s) through
      (\<lambda>g. g\<lparr>g_ack_session := ackedBy d1 caller, g_ack_via := ''participant_ack''\<rparr>) d1"
    using assms unfolding AckParticipant_def Let_def d1 rbind_simps k_def[symmetric] s opt_err.simps by (auto split: if_split_asm)
  moreover have "acknowledges d1 k (set_acked k
      (\<lambda>s. s\<lparr>s_acked_through := through, s_acked_by := k_family caller @ '':'' @ k_id caller\<rparr>) (s_acked_through s) through
      (\<lambda>g. g\<lparr>g_ack_session := ackedBy d1 caller, g_ack_via := ''participant_ack''\<rparr>) d1)"
    if "s_acked_through s < through" "through \<le> s_last_seq s"
    by (rule acknowledgesI[OF s that]) (simp_all add: skey_def letter_def)
  ultimately show ?thesis using quiet_ensure[OF d1] by auto
qed

lemma AckParticipant_le: "AckParticipant now caller through d = Inr (a, n, d') \<Longrightarrow> mail_le d d'"
  by (drule AckParticipant_writes) (auto simp: quiet_mail_le intro: mail_le_trans[OF quiet_mail_le acknowledges_le])

text \<open>The two writes of a send: the next sequence number of the inbox and the message.\<close>

definition deposit :: "sessionRow \<Rightarrow> messageRow \<Rightarrow> db \<Rightarrow> db" where
  "deposit s g d = d\<lparr>sessions := update_where (\<lambda>q. skey q = skey s) (\<lambda>q. q\<lparr>s_last_seq := s_last_seq q + 1\<rparr>) (sessions d),
     messages := messages d @ [g], message_ids := g_id g\<rparr>"

lemma deposit_le:
  assumes s: "s \<in> set (sessions d)" and g: "(g_recipient_family g, g_recipient_id g) = skey s" "g_seq g = s_last_seq s + 1"
    "g_id g = message_ids d + 1"
  shows "mail_le d (deposit s g d)"
  unfolding mail_le_def
proof (intro impI)
  assume inv: "mail_inv d"
  note i = mail_invD[OF inv]
  let ?d' = "deposit s g d" and ?f = "\<lambda>q :: sessionRow. q\<lparr>s_last_seq := s_last_seq q + 1\<rparr>"
  have sess: "sessions ?d' = update_where (\<lambda>q. skey q = skey s) ?f (sessions d)" by (simp add: deposit_def)
  have keys: "map skey (sessions ?d') = map skey (sessions d)" unfolding sess by (rule map_update_where) (simp add: skey_def)
  have seqs: "inbox_seqs ?d' k = inbox_seqs d k @ (if k = skey s then [s_last_seq s + 1] else [])" for k
    using g by (simp add: inbox_seqs_def deposit_def)
  have own: "skey q = skey s \<longleftrightarrow> q = s" if "q \<in> set (sessions d)" for q
    using mail_inv_row[OF inv that s] by auto
  have row: "0 \<le> s_acked_through r \<and> s_acked_through r \<le> s_last_seq r \<and> inbox_seqs ?d' (skey r) = [1..s_last_seq r]"
    if r: "r \<in> set (sessions ?d')" for r
  proof -
    from r obtain q where q: "q \<in> set (sessions d)" "r = (if skey q = skey s then ?f q else q)" unfolding sess in_update_where by blast
    show ?thesis
    proof (cases "q = s")
      case True
      have "[1..s_last_seq s + 1] = [1..s_last_seq s] @ [s_last_seq s + 1]"
        using i(2,3)[OF s] by (simp add: upto_rec2)
      moreover have "skey (?f s) = skey s" by (simp add: skey_def)
      ultimately show ?thesis using q True i(2-4)[OF s] by (simp add: seqs)
    next
      case False
      then have "skey q \<noteq> skey s" using own[OF q(1)] by simp
      then show ?thesis using q(2) i(2-4)[OF q(1)] by (simp add: seqs)
    qed
  qed
  have msgs: "messages ?d' = messages d @ [g]" "message_ids ?d' = message_ids d + 1" using g(3) by (simp_all add: deposit_def)
  have "(g_recipient_family g, g_recipient_id g) \<in> set (map skey (sessions d))" using g(1) s by (metis image_eqI set_map)
  then have rec: "\<forall>h\<in>set (messages ?d'). (g_recipient_family h, g_recipient_id h) \<in> set (map skey (sessions ?d'))"
    unfolding keys msgs set_append ball_Un using i(5) by (simp del: set_map)
  have ids: "distinct (map g_id (messages ?d'))" "\<forall>h\<in>set (messages ?d'). g_id h \<le> message_ids ?d'"
    using i(6,7) g(3) by (force simp: msgs)+
  have "mail_inv ?d'" unfolding mail_inv_def keys using i(1) row rec ids by (simp add: keys del: set_map)
  moreover have "\<exists>s'\<in>set (sessions ?d'). skey s' = skey q \<and> s_last_seq q \<le> s_last_seq s' \<and> s_acked_through q \<le> s_acked_through s'"
    if q: "q \<in> set (sessions d)" for q
  proof -
    have "(if skey q = skey s then ?f q else q) \<in> set (sessions ?d')" unfolding sess in_update_where using q by blast
    then show ?thesis by (rule bexI[rotated]) (simp add: skey_def)
  qed
  ultimately show "mail_inv ?d' \<and> (\<exists>new. map letter (messages ?d') = map letter (messages d) @ new)
    \<and> (\<forall>s\<in>set (sessions d). \<exists>s'\<in>set (sessions ?d'). skey s' = skey s \<and> s_last_seq s \<le> s_last_seq s'
          \<and> s_acked_through s \<le> s_acked_through s')" by (simp add: msgs)
qed


lemma resolve_quiet: "resolve_recipient now to d = Inr (k, d') \<Longrightarrow> quiet d d'"
  by (auto simp: resolve_recipient_def quiet_same split: if_split_asm dest: quiet_ensure)

lemma update_where_cong: "(\<And>r. r \<in> set t \<Longrightarrow> P r = Q r) \<Longrightarrow> update_where P f t = update_where Q f t"
  by (simp add: update_where_def)

text \<open>Taking the next sequence of an inbox and inserting the message under it is one deposit.\<close>

lemma next_seq_deposit:
  assumes inv: "mail_inv d" and n: "next_seq now k d = Some (seq, d1)" and g: "insert_message g d1 = Inr d2"
  shows "\<exists>s. s \<in> set (sessions d) \<and> skey s = (k_family k, k_id k) \<and> seq = s_last_seq s + 1 \<and> d2 = deposit s g d"
proof -
  define own where "own = (\<lambda>s. s_family s = k_family k \<and> s_id s = k_id k \<and> row_active now s)"
  obtain s where s: "List.find own (sessions d) = Some s" "seq = s_last_seq s + 1"
    "d1 = d\<lparr>sessions := update_where own (\<lambda>s. s\<lparr>s_last_seq := s_last_seq s + 1\<rparr>) (sessions d)\<rparr>"
    using n unfolding next_seq_def Let_def own_def[symmetric] by (auto simp del: find.simps)
  have sin: "s \<in> set (sessions d)" "own s" using find_Some_mem[OF s(1)] by simp_all
  have key: "skey s = (k_family k, k_id k)" using sin(2) by (simp add: own_def skey_def)
  have own_key: "own t = (skey t = skey s)" if "t \<in> set (sessions d)" for t
    using mail_inv_row[OF inv that sin(1)] sin(2) key by (auto simp: own_def skey_def)
  have "d2 = deposit s g d"
    using g update_where_cong[of "sessions d" own "\<lambda>t. skey t = skey s"] own_key
    by (auto simp: insert_message_def deposit_def s(3))
  then show ?thesis using sin(1) key s(2) by blast
qed

lemma next_seq_ids: "next_seq now k d = Some (seq, d1) \<Longrightarrow> message_ids d1 = message_ids d"
  by (auto simp: next_seq_def Let_def)

lemma sendTx_writes:
  assumes r: "sendTx ps now caller to body dashboard d = Inr (out, d')" and inv: "mail_inv d"
  shows "\<exists>k d1 s sender. resolve_recipient now to d = Inr (k, d1) \<and> quiet d d1 \<and> s \<in> set (sessions d1) \<and> skey s = (k_family k, k_id k)
    \<and> o_id out = message_ids d1 + 1 \<and> o_seq out = s_last_seq s + 1
    \<and> quiet (deposit s (plain_message (message_ids d1 + 1) now k (s_last_seq s + 1) caller sender body) d1) d'
    \<and> messages d' = messages d1 @ [plain_message (message_ids d1 + 1) now k (s_last_seq s + 1) caller sender body]"
proof -
  obtain k d1 where k: "resolve_recipient now to d = Inr (k, d1)"
    using r unfolding sendTx_def rbind_Inr_iff by (auto split: prod.splits)
  have q: "quiet d d1" by (rule resolve_quiet[OF k])
  have inv1: "mail_inv d1" by (rule quiet_mail_inv[OF q inv])
  obtain sender where sender: "sender_name d1 now caller = Inr sender"
    using r k unfolding sendTx_def rbind_Inr_iff by auto
  obtain seq d2 where nxt: "next_seq now k d1 = Some (seq, d2)"
    using r by (cases "next_seq now k d1") (auto simp: sendTx_def k sender)
  define g where "g = plain_message (message_ids d1 + 1) now k seq caller sender body"
  note ids = next_seq_ids[OF nxt]
  obtain d3 where d3: "insert_message g d2 = Inr d3" "d' = bumpInbox k d3" "o_id out = message_ids d1 + 1" "o_seq out = seq"
    using r unfolding sendTx_def k rbind_Inr_iff sum.inject
    by (auto simp: sender nxt ids g_def Let_def)
  obtain s where s: "s \<in> set (sessions d1)" "skey s = (k_family k, k_id k)" "seq = s_last_seq s + 1" "d3 = deposit s g d1"
    using next_seq_deposit[OF inv1 nxt d3(1)] by blast
  have "quiet d3 d'" unfolding d3(2) by (rule quiet_same) (simp_all add: bumpInbox_def)
  moreover have "messages d' = messages d3" by (simp add: d3(2) bumpInbox_def)
  moreover have "messages d3 = messages d1 @ [g]" using s(4) by (simp add: deposit_def)
  ultimately show ?thesis using k q s d3(3,4) unfolding g_def by metis
qed

lemma sendTx_le:
  assumes "sendTx ps now caller to body dashboard d = Inr (out, d')"
  shows "mail_le d d'"
proof (cases "mail_inv d")
  case True
  obtain k d1 s sender where w: "quiet d d1" "s \<in> set (sessions d1)" "skey s = (k_family k, k_id k)"
    "quiet (deposit s (plain_message (message_ids d1 + 1) now k (s_last_seq s + 1) caller sender body) d1) d'"
    using sendTx_writes[OF assms True] by metis
  have "mail_le d1 (deposit s (plain_message (message_ids d1 + 1) now k (s_last_seq s + 1) caller sender body) d1)"
    by (rule deposit_le[OF w(2)]) (simp_all add: plain_message_def w(3))
  then show ?thesis using quiet_mail_le[OF w(1)] quiet_mail_le[OF w(4)] mail_le_trans by metis
qed (simp add: mail_le_def)

end
