(* ===== verification/Memory.thy ===== *)
theory Memory
  imports Messaging
begin

text \<open>
  The memory store of \<^verbatim>\<open>internal/core/memory.go\<close> as the work items use it: the limits, the usage of a
  repository's store and its funded debt, the ceilings a write must keep (\<open>enforce\<close>), the write
  transactions (\<open>memoryWrite\<close> of notes is not part of it, \<open>workWrite\<close> is) and the expiry of what has
  outlived its window.

  A request runs several transactions. Each one commits or leaves the database as it was, and a later
  refusal keeps what an earlier one committed, so an operation returns its answer or its error together
  with the database (\<open>answer\<close>). SQLite's page counts are outside the sources: \<open>wk_admit\<close> and
  \<open>wk_commit\<close> are the verdicts of the storage boundary (\<open>enter\<close> before the body, \<open>commit_tx\<close> after it) on
  a write, for a database as the engine stores it.
\<close>

section \<open>Limits\<close>

record memoryLimits =
  lm_body :: int
  lm_entries :: int
  lm_reserved_entries :: int
  lm_idem :: int
  lm_consumers :: int
  lm_retired :: int
  lm_snapshots_per_consumer :: int
  lm_logical :: int
  lm_reserved_bytes :: int
  lm_frame_budget :: int
  lm_row_window :: int
  lm_snapshot_ttl :: time
  lm_ack_retention :: time
  lm_idem_ttl :: time
  lm_consumer_ttl :: time
  lm_retired_ttl :: time
  lm_expiry_interval :: time
  lm_work_logical :: int
  lm_work_events :: int
  lm_work_items :: int
  lm_work_scopes :: int
  lm_work_scopes_per_item :: int
  lm_credit_bytes :: int
  lm_verdict_bytes :: int

definition defaultMemoryLimits :: memoryLimits where
  "defaultMemoryLimits = \<lparr>lm_body = 8192, lm_entries = 5000, lm_reserved_entries = 64, lm_idem = 20000,
     lm_consumers = 256, lm_retired = 1024, lm_snapshots_per_consumer = 4, lm_logical = 32 * 2 ^ 20,
     lm_reserved_bytes = 64 * 8192, lm_frame_budget = 262144 - 8192, lm_row_window = 500, lm_snapshot_ttl = 3600,
     lm_ack_retention = 86400, lm_idem_ttl = 86400, lm_consumer_ttl = 30 * 86400, lm_retired_ttl = 90 * 86400,
     lm_expiry_interval = 30, lm_work_logical = 12 * 2 ^ 20, lm_work_events = 2048, lm_work_items = 128,
     lm_work_scopes = 1024, lm_work_scopes_per_item = 64, lm_credit_bytes = 48 * 2 ^ 10, lm_verdict_bytes = 64 * 2 ^ 10\<rparr>"

definition entryOverhead :: int where "entryOverhead = 512"
definition workRowOverhead :: int where "workRowOverhead = 512"
definition workReplayOverhead :: int where "workReplayOverhead = 192"
definition fingerprintScheme :: string where "fingerprintScheme = ''go1''"
definition maxWorkAudiences :: int where "maxWorkAudiences = 256"

definition memoryError :: "string \<Rightarrow> string \<Rightarrow> kerror" where
  "memoryError code message = Refusal code message"

section \<open>Callers\<close>

definition ResolveMemoryCaller :: "int \<Rightarrow> Key \<Rightarrow> string option \<Rightarrow> db \<Rightarrow> kerror + MemoryCaller" where
  "ResolveMemoryCaller now caller consumer d =
     rbind (if consumer = None \<or> \<not> isParticipantID (trim_space (the consumer)) then activeCaller d now caller False else Inr ()) (\<lambda>_.
     rbind (opt_err ErrNoRows (session_row d (k_family caller) (k_id caller))) (\<lambda>s.
     let name = (case peer_row d (k_family caller) (k_id caller) of None \<Rightarrow> [] | Some n \<Rightarrow> n_name n) in
     rbind (guard (s_repository s \<noteq> [])
              (memoryError ''repo_unresolved'' ''this session has no Git repository, so it has no memory store'')) (\<lambda>_.
     rbind (case consumer of
              None \<Rightarrow> Inr (let address = heldAddress d now caller in if address \<noteq> [] then participantKey address else name)
            | Some c \<Rightarrow> if rune_count c > 128 \<or> trim_space c = []
                then Inl (memoryError ''invalid_request'' ''a consumer key is 1 to 128 characters and not blank'')
                else Inr (trim_space c)) (\<lambda>named.
     let m = \<lparr>m_repository = s_repository s, m_family = k_family caller, m_name = name, m_consumer = named,
              m_native = caller, m_consumer_explicit = False\<rparr> in
     rbind (requireParticipantCaller d now m) (\<lambda>_.
     rbind (activeCaller d now caller False) (\<lambda>_. Inr m))))))"

section \<open>Usage\<close>

record memoryUsage =
  u_entries :: int
  u_logical :: int
  u_idem :: int
  u_retired :: int
  u_snapshots :: int
  u_consumers :: int
  u_work_logical :: int
  u_work_items :: int
  u_work_scopes :: int
  u_work_scopes_per_item :: int
  u_claim_bundles :: int
  u_claim_resources :: int
  u_work_events :: int
  u_work_replays :: int
  u_work_audiences :: int

text \<open>\<open>textBytes\<close>: the charge of text columns, NULL as nothing.\<close>

definition textBytes :: "string option list \<Rightarrow> int" where
  "textBytes columns = sum_list (map (\<lambda>c. case c of None \<Rightarrow> 0 | Some v \<Rightarrow> int (length v)) columns)"

definition total :: "('r \<Rightarrow> int) \<Rightarrow> 'r list \<Rightarrow> int" where
  "total f t = sum_list (map f t)"

definition role_json :: "WorkRole \<Rightarrow> json" where
  "role_json r = JObj [(''family'', JStr (wr_family r)), (''role'', JStr (wr_role r))]"

definition encoded :: "ext \<Rightarrow> WorkRole option \<Rightarrow> string" where
  "encoded x r = (case r of None \<Rightarrow> [] | Some r \<Rightarrow> json_encode x (role_json r))"

definition item_charge :: "ext \<Rightarrow> workItem \<Rightarrow> int" where
  "item_charge x w = workRowOverhead + textBytes [Some (w_store w), Some (w_work_id w), Some (w_lifecycle w), Some (w_title w),
     Some (w_criteria w), Some (w_non_goals w), w_proposed_assignee w, Some (w_created_consumer w), Some (encoded x (w_proposed_role w)),
     Some (w_progress w), Some (w_checkpoint w), Some (w_next_artifact w), Some (w_blocker w), w_last_writer w, w_outcome w,
     Some (w_reason w), Some (json_text x (w_references w)), w_report_consumer w, Some (w_report_actor w), w_verdict w]"

definition scope_charge :: "scopeRow \<Rightarrow> int" where
  "scope_charge r = workRowOverhead + textBytes [Some (sc_store r), Some (sc_work_id r), Some (sc_consumer r), sc_author r,
     Some (sc_title r), Some (sc_criteria r), Some (sc_non_goals r)]"

definition bundle_charge :: "heldBundle \<Rightarrow> int" where
  "bundle_charge b = workRowOverhead + textBytes [Some (b_store b), Some (b_work_id b), Some (b_consumer b), Some (b_native_actor b)]"

definition resource_charge :: "resourceRow \<Rightarrow> int" where
  "resource_charge r = workRowOverhead + textBytes [Some (cr_store r), Some (r_kind (cr_res r)), Some (r_key (cr_res r))]"

definition event_charge :: "ext \<Rightarrow> workEventRow \<Rightarrow> int" where
  "event_charge x v = workRowOverhead + textBytes [Some (we_store v), Some (we_work_id v), Some (we_kind v), Some (we_actor v)]
     + int (json_bytes_view x (we_payload v))"

definition replay_charge :: "ext \<Rightarrow> replayRow \<Rightarrow> int" where
  "replay_charge x p = workReplayOverhead + textBytes [Some (wp_key p), Some (wp_consumer p), Some (wp_operation p),
     Some (wp_native_actor p)] + int (json_bytes_result x (wp_result p))"

definition entry_charge :: "entryRow \<Rightarrow> int" where
  "entry_charge n = entryOverhead + textBytes [Some (e_body n), e_path n, e_author n, e_scope_target n, Some (e_consumer n)]"

definition audience_charge :: "audienceRow \<Rightarrow> int" where
  "audience_charge a = workRowOverhead + textBytes [Some (wa_store a), Some (wa_audience a), Some (wa_data a), Some (wa_reason a)]"

text \<open>The largest number of scope revisions one item of a store has.\<close>

definition most_scopes :: "db \<Rightarrow> string \<Rightarrow> int" where
  "most_scopes d store = (let t = filter (\<lambda>r. sc_store r = store) (work_scope_revisions d)
     in foldr max (map (\<lambda>r. int (length (filter (\<lambda>q. sc_work_id q = sc_work_id r) t))) t) 0)"

definition note_usage :: "db \<Rightarrow> string \<Rightarrow> memoryUsage" where
  "note_usage d repo =
     (let entries = filter (\<lambda>n. e_repository n = repo) (memory_entries d);
          snapshots = filter (\<lambda>s. sn_repository s = repo) (memory_snapshots d);
          item_bytes = total (\<lambda>s. total si_bytes (filter (\<lambda>i. si_id i = sn_id s) (memory_snapshot_items d))) snapshots;
          idem = filter (\<lambda>i. id_repository i = repo) (memory_idem d);
          cursors = filter (\<lambda>c. cu_repository c = repo) (memory_cursors d);
          retired = filter (\<lambda>r. rt_repository r = repo) (memory_retired d)
      in \<lparr>u_entries = int (length entries),
          u_logical = total entry_charge entries + item_bytes
            + total (\<lambda>i. textBytes [Some (id_key i), Some (id_consumer i)] + 64) idem
            + total (\<lambda>c. textBytes [Some (cu_consumer c), Some (cu_actor c)] + 64) cursors
            + total (\<lambda>r. textBytes [Some (rt_consumer r)] + 64) retired
            + total (\<lambda>s. textBytes [Some (sn_id s), Some (sn_consumer s)] + 96) snapshots,
          u_idem = int (length idem), u_retired = int (length retired), u_snapshots = int (length snapshots),
          u_consumers = int (length cursors), u_work_logical = 0, u_work_items = 0, u_work_scopes = 0,
          u_work_scopes_per_item = 0, u_claim_bundles = 0, u_claim_resources = 0, u_work_events = 0,
          u_work_replays = 0, u_work_audiences = 0\<rparr>)"

definition usage :: "ext \<Rightarrow> db \<Rightarrow> string \<Rightarrow> memoryUsage" where
  "usage x d repo =
     (let u = note_usage d repo in
      case List.find (\<lambda>m. ms_repository m = repo) (memory_stores d) of
        None \<Rightarrow> u
      | Some m \<Rightarrow>
          let store = ms_store_id m;
              items = filter (\<lambda>w. w_store w = store) (work_items d);
              scopes = filter (\<lambda>r. sc_store r = store) (work_scope_revisions d);
              bundles = filter (\<lambda>b. b_store b = store) (claim_bundles d);
              resources = filter (\<lambda>r. cr_store r = store) (claim_resources d);
              events = filter (\<lambda>v. we_store v = store) (work_events d);
              replays = filter (\<lambda>p. wp_store p = store) (work_replays d);
              audiences = filter (\<lambda>a. wa_store a = store) (work_audiences d);
              table_bytes = total (item_charge x) items + total scope_charge scopes + total bundle_charge bundles
                + total resource_charge resources + total (event_charge x) events;
              replay_bytes = total (replay_charge x) replays;
              event_entry_bytes = total entry_charge
                (filter (\<lambda>n. e_repository n = repo \<and> e_type n = ''work-event'') (memory_entries d));
              audience_bytes = total audience_charge audiences
          in u\<lparr>u_logical := u_logical u + table_bytes + replay_bytes + audience_bytes,
               u_idem := u_idem u + int (length replays),
               u_work_logical := table_bytes + replay_bytes + event_entry_bytes + audience_bytes,
               u_work_items := int (length items), u_work_scopes := int (length scopes),
               u_work_scopes_per_item := most_scopes d store, u_claim_bundles := int (length bundles),
               u_claim_resources := int (length resources), u_work_events := int (length events),
               u_work_replays := int (length replays), u_work_audiences := int (length audiences)\<rparr>)"

section \<open>Ceilings\<close>

record workDebt =
  wd_overdue :: int
  wd_end :: int
  wd_verdict :: int

definition of_repository :: "db \<Rightarrow> string \<Rightarrow> string \<Rightarrow> bool" where
  "of_repository d repo store \<longleftrightarrow> (\<exists>m\<in>set (memory_stores d). ms_store_id m = store \<and> ms_repository m = repo)"

definition storeDebt :: "db \<Rightarrow> string \<Rightarrow> workDebt" where
  "storeDebt d repo =
     (let bundles = filter (\<lambda>b. of_repository d repo (b_store b)) (claim_bundles d);
          items = filter (\<lambda>w. of_repository d repo (w_store w)) (work_items d)
      in \<lparr>wd_overdue = sum_flags b_overdue_credit bundles, wd_end = sum_flags b_end_credit bundles,
          wd_verdict = sum_flags w_verdict_credit items\<rparr>)"

record storeCaps =
  sp_entries :: int
  sp_logical :: int
  sp_idem :: int
  sp_work_logical :: int
  sp_work_events :: int
  sp_work_scopes :: int

definition caps :: "memoryLimits \<Rightarrow> writeClass \<Rightarrow> workDebt \<Rightarrow> storeCaps" where
  "caps l cls w =
     (let slots = wd_overdue w + wd_end w + wd_verdict w;
          bytes = (wd_overdue w + wd_end w) * lm_credit_bytes l + wd_verdict w * lm_verdict_bytes l;
          c = \<lparr>sp_entries = lm_entries l - slots, sp_logical = lm_logical l - bytes, sp_idem = lm_idem l - wd_end w - wd_verdict w,
               sp_work_logical = lm_work_logical l - bytes, sp_work_events = lm_work_events l - slots,
               sp_work_scopes = lm_work_scopes l - wd_verdict w\<rparr>
      in if cls \<noteq> control
         then c\<lparr>sp_entries := sp_entries c - lm_reserved_entries l, sp_logical := sp_logical c - lm_reserved_bytes l\<rparr>
         else c)"

definition exceeded :: "memoryLimits \<Rightarrow> memoryUsage \<Rightarrow> storeCaps \<Rightarrow> int \<Rightarrow> int \<Rightarrow> kerror + unit" where
  "exceeded l u c need slots =
     (if u_entries u + slots > sp_entries c \<or> u_logical u + need > sp_logical c \<or> u_work_logical u > sp_work_logical c
         \<or> u_work_events u > sp_work_events c
      then Inl (memoryError ''capacity'' ''this store's capacity is reached after keeping promised work controls; nothing was written and stored data is intact'')
      else if u_idem u > sp_idem c
      then Inl (memoryError ''idem_capacity'' ''the idempotency window is full; nothing was written'')
      else if u_work_items u > lm_work_items l \<or> u_work_scopes u > sp_work_scopes c
         \<or> u_work_scopes_per_item u > lm_work_scopes_per_item l \<or> u_work_audiences u > maxWorkAudiences
         \<or> u_claim_bundles u > int maxBundles \<or> u_claim_resources u > int maxBundles * (int maxResources + 1)
      then Inl (memoryError ''capacity'' ''a work row limit is reached; nothing was written and stored data is intact'')
      else Inr ())"

definition enforce :: "ext \<Rightarrow> memoryLimits \<Rightarrow> writeClass \<Rightarrow> string \<Rightarrow> db \<Rightarrow> kerror + unit" where
  "enforce x l cls repo d = exceeded l (usage x d repo) (caps l cls (storeDebt d repo)) 0 0"

section \<open>Transactions\<close>

type_synonym 'a answer = "(kerror + 'a) \<times> db"

text \<open>
  What a request's transactions read beside the database: the limits, the storage boundary's
  verdicts, the clock as \<open>s.now().UnixMilli()\<close> and as the \<open>s.clock()\<close> of the expiry, the drawn
  \<open>randomID\<close> of a new store, and the processes of the host (for \<open>sendTx\<close>).
\<close>

record wenv =
  wk_ext :: ext
  wk_limits :: memoryLimits
  wk_admit :: "writeClass \<Rightarrow> db \<Rightarrow> kerror + unit"
  wk_commit :: "writeClass \<Rightarrow> db \<Rightarrow> kerror + unit"
  wk_now_ms :: int
  wk_expiry_now :: time
  wk_store_id :: "db \<Rightarrow> string"
  wk_process_start :: "int \<Rightarrow> int option option"

definition and_then :: "'a answer \<Rightarrow> ('a \<Rightarrow> db \<Rightarrow> 'b answer) \<Rightarrow> 'b answer" where
  "and_then r f = (case r of (Inl e, d) \<Rightarrow> (Inl e, d) | (Inr a, d) \<Rightarrow> f a d)"

text \<open>
  \<open>write_tx\<close>: \<open>begin\<close> with the participant guard of the request's context, the body, and \<open>Commit\<close>;
  a refusal anywhere rolls back.
\<close>

definition write_tx ::
  "wenv \<Rightarrow> MemoryCaller option \<Rightarrow> writeClass \<Rightarrow> (db \<Rightarrow> kerror + ('a \<times> db)) \<Rightarrow> db \<Rightarrow> 'a answer" where
  "write_tx e g cls body d =
     (case rbind (case g of None \<Rightarrow> Inr () | Some m \<Rightarrow> requireParticipantCaller d (wk_now_ms e) m) (\<lambda>_.
           rbind (wk_admit e cls d) (\<lambda>_.
           rbind (body d) (\<lambda>(a, d').
           rbind (wk_commit e cls d') (\<lambda>_. Inr (a, d'))))) of
        Inl err \<Rightarrow> (Inl err, d)
      | Inr (a, d') \<Rightarrow> (Inr a, d'))"

definition ensure_store :: "string \<Rightarrow> string \<Rightarrow> db \<Rightarrow> db" where
  "ensure_store repo fresh d =
     (if \<exists>m\<in>set (memory_stores d). ms_repository m = repo then d
      else d\<lparr>memory_stores := memory_stores d @ [\<lparr>ms_repository = repo, ms_store_id = fresh, ms_head = 0, ms_floor = 0,
               ms_work_counter = 0, ms_claim_counter = 0, ms_library_floor = 0\<rparr>]\<rparr>)"

definition workWrite ::
  "wenv \<Rightarrow> MemoryCaller option \<Rightarrow> string \<Rightarrow> writeClass \<Rightarrow> (string \<Rightarrow> db \<Rightarrow> kerror + ('a \<times> db)) \<Rightarrow> db \<Rightarrow> 'a answer" where
  "workWrite e g repo cls body d =
     write_tx e g cls (\<lambda>d0.
       let d1 = ensure_store repo (wk_store_id e d0) d0 in
       rbind (body (storeOf d1 repo) d1) (\<lambda>(a, d2).
       rbind (enforce (wk_ext e) (wk_limits e) cls repo d2) (\<lambda>_. Inr (a, d2)))) d"

section \<open>Expiry\<close>

definition libraryDecisionMarked :: "ext \<Rightarrow> string \<Rightarrow> bool" where
  "libraryDecisionMarked x body \<longleftrightarrow> (case json_decode x body of None \<Rightarrow> False
     | Some j \<Rightarrow> json_text_member j ''library'' = Some ''koinon-library-decision'')"

definition expiry_batch :: int where "expiry_batch = 200"

definition expired_entries :: "string \<Rightarrow> time \<Rightarrow> db \<Rightarrow> entryRow list" where
  "expired_entries repo now d = take (nat expiry_batch) (sort_key e_seq
     (filter (\<lambda>n. e_repository n = repo \<and> (case e_expires n of None \<Rightarrow> False | Some t \<Rightarrow> t < now)) (memory_entries d)))"

definition raise_floor :: "(storeRow \<Rightarrow> bool) \<Rightarrow> int \<Rightarrow> int \<Rightarrow> db \<Rightarrow> db" where
  "raise_floor P seq library d = d\<lparr>memory_stores := update_where P
     (\<lambda>m. m\<lparr>ms_floor := max (ms_floor m) seq, ms_library_floor := max (ms_library_floor m) library\<rparr>) (memory_stores d)\<rparr>"

definition expire_entries :: "ext \<Rightarrow> string \<Rightarrow> time \<Rightarrow> db \<Rightarrow> kerror + (int \<times> db)" where
  "expire_entries x repo now d =
     (let gone = expired_entries repo now d; seqs = map e_seq gone;
          library = foldr max (map e_seq (filter (\<lambda>n. e_type n = ''decision'' \<and> libraryDecisionMarked x (e_body n)) gone)) 0
      in if gone = [] then Inr (0, d)
         else Inr (int (length gone), raise_floor (\<lambda>m. ms_repository m = repo) (last seqs) library
           (d\<lparr>memory_entries := filter (\<lambda>n. \<not> (e_repository n = repo \<and> e_seq n \<in> set seqs)) (memory_entries d)\<rparr>)))"

lemma write_tx_cases:
  "write_tx e g cls body d = (Inr a, d') \<Longrightarrow> body d = Inr (a, d') \<and> wk_commit e cls d' = Inr ()"
  "write_tx e g cls body d = (Inl err, d') \<Longrightarrow> d' = d"
  by (auto simp: write_tx_def split: sum.splits prod.splits)

lemma expire_entries_shrinks:
  assumes "expire_entries x repo now d = Inr (n, d')" "n \<noteq> 0"
  shows "length (memory_entries d') < length (memory_entries d)"
proof -
  let ?gone = "expired_entries repo now d"
  have ne: "?gone \<noteq> []" and d': "memory_entries d' = filter (\<lambda>n. \<not> (e_repository n = repo \<and> e_seq n \<in> set (map e_seq ?gone))) (memory_entries d)"
    using assms by (auto simp: expire_entries_def Let_def raise_floor_def split: if_splits)
  obtain g where g: "g \<in> set ?gone" using ne by (cases ?gone) auto
  then have "g \<in> set (memory_entries d)" "e_repository g = repo"
    by (auto simp: expired_entries_def dest!: in_set_takeD)
  then show ?thesis unfolding d' using g by (intro length_filter_less[of g]) auto
qed

text \<open>The loop of \<open>expireMemory\<close>: batches of 200 entries, each in its own transaction.\<close>

function expire_loop :: "wenv \<Rightarrow> MemoryCaller option \<Rightarrow> string \<Rightarrow> time \<Rightarrow> db \<Rightarrow> unit answer" where
  "expire_loop e g repo now d =
     (case write_tx e g control (expire_entries (wk_ext e) repo now) d of
        (Inl err, d') \<Rightarrow> (Inl err, d')
      | (Inr removed, d') \<Rightarrow> if removed < expiry_batch then (Inr (), d') else expire_loop e g repo now d')"
  by pat_completeness auto
termination
proof (relation "measure (\<lambda>(e, g, repo, now, d). length (memory_entries d))", simp, goal_cases)
  case (1 e g repo now d r d' removed)
  then have "expire_entries (wk_ext e) repo now d = Inr (removed, d')"
    using write_tx_cases(1)[of e g control _ d removed d'] by simp
  then show ?case using expire_entries_shrinks[of "wk_ext e" repo now d removed d'] 1 by (simp add: expiry_batch_def)
qed

declare expire_loop.simps [simp del]

definition expire_windows :: "memoryLimits \<Rightarrow> string \<Rightarrow> time \<Rightarrow> db \<Rightarrow> kerror + (unit \<times> db)" where
  "expire_windows l repo now d =
     (let old = (\<lambda>s. sn_repository s = repo \<and> (if sn_acked s then (case sn_acked_at s of None \<Rightarrow> False | Some t \<Rightarrow> t < now - lm_ack_retention l)
                   else sn_created s < now - lm_snapshot_ttl l));
          idle = (\<lambda>c. cu_repository c = repo \<and> cu_updated c < now - lm_consumer_ttl l);
          stones = filter idle (memory_cursors d)
      in Inr ((), d\<lparr>
           memory_snapshot_items := filter (\<lambda>i. \<not> (\<exists>s\<in>set (memory_snapshots d). old s \<and> sn_id s = si_id i)) (memory_snapshot_items d),
           memory_snapshots := filter (\<lambda>s. \<not> old s) (memory_snapshots d),
           memory_idem := filter (\<lambda>i. \<not> (id_repository i = repo \<and> id_deadline i < now)) (memory_idem d),
           work_replays := filter (\<lambda>p. \<not> ((\<exists>m\<in>set (memory_stores d). ms_repository m = repo \<and> ms_store_id m = wp_store p)
                              \<and> wp_deadline p < now)) (work_replays d),
           memory_retired := filter (\<lambda>r. \<not> (rt_repository r = repo \<and> rt_at r < now - lm_retired_ttl l)
                                \<and> \<not> (\<exists>c\<in>set stones. cu_repository c = rt_repository r \<and> cu_consumer c = rt_consumer r)) (memory_retired d)
             @ map (\<lambda>c. \<lparr>rt_repository = cu_repository c, rt_consumer = cu_consumer c, rt_seq = cu_seq c, rt_at = now\<rparr>) stones,
           memory_cursors := filter (\<lambda>c. \<not> idle c) (memory_cursors d)\<rparr>))"

text \<open>\<open>expireMemory\<close> without its last step, the vacuum that a refused note asks for.\<close>

definition expireMemory :: "wenv \<Rightarrow> MemoryCaller option \<Rightarrow> string \<Rightarrow> db \<Rightarrow> unit answer" where
  "expireMemory e g repo d =
     and_then (expire_loop e g repo (wk_expiry_now e) d) (\<lambda>_ d1.
       write_tx e g control (expire_windows (wk_limits e) repo (wk_expiry_now e)) d1)"

text \<open>\<open>maybeExpire\<close>: the time of a repository's last expiry is daemon memory, zero at the start.\<close>

definition maybeExpire :: "wenv \<Rightarrow> MemoryCaller option \<Rightarrow> string \<Rightarrow> (string \<Rightarrow> time) \<Rightarrow> db \<Rightarrow> (string \<Rightarrow> time) \<times> unit answer" where
  "maybeExpire e g repo expired_at d =
     (if wk_expiry_now e - expired_at repo \<ge> lm_expiry_interval (wk_limits e)
      then (expired_at(repo := wk_expiry_now e), expireMemory e g repo d)
      else (expired_at, (Inr (), d)))"

end
