(* ===== verification/Rooms.thy ===== *)
theory Rooms
  imports Memory
begin

text \<open>
  Dashboard rooms (\<^verbatim>\<open>internal/core/rooms.go\<close>, \<^verbatim>\<open>internal/core/room_posts.go\<close>): creation, the roster and its
  notices, posts with their copies in the members' inboxes, the retry records of posters, transcripts
  and the retention of posts.

  A member is the participant whose address a session holds, otherwise that session. A post is one row
  with the next sequence of its room, a delivery row for every other current member (queued with its
  inbox copy, or skipped with a reason) and a retry record. The room's entry in \<open>room_changes\<close> is the
  counter of \<^verbatim>\<open>maintainer_changes.go\<close>. The columns \<open>refill\<close>, \<open>allowance\<close> and \<open>create_refill\<close> are always 0 and
  left out, as is the audit text. \<open>rv_quote\<close> and \<open>rv_float_text\<close> are \<^verbatim>\<open>strconv.Quote\<close> and
  \<^verbatim>\<open>strconv.FormatFloat\<close>, \<open>rv_room_id\<close> is the drawn identifier of a new room in hexadecimal, and the clock
  is read once per request.
\<close>

section \<open>Rows\<close>

definition maxRooms :: nat where "maxRooms = 64"
definition maxRoomMembers :: nat where "maxRoomMembers = 32"
definition maxRoomMemberRows :: nat where "maxRoomMemberRows = 128"
definition maxRoomNameBytes :: nat where "maxRoomNameBytes = 128"
definition maxRoomPage :: nat where "maxRoomPage = 100"
definition maxRoomPosts :: nat where "maxRoomPosts = 10000"
definition maxRoomReplays :: nat where "maxRoomReplays = 10000"
definition maxRoomReadPosts :: nat where "maxRoomReadPosts = 100"
definition cullBatch :: nat where "cullBatch = 500"

definition ErrRoomNotFound :: kerror where "ErrRoomNotFound = Refusal ''room_not_found'' ''no room has that ID''"
definition ErrRoomLimit :: kerror where "ErrRoomLimit = Refusal ''room_limit'' ''the daemon already has 64 rooms''"
definition ErrRoomMemberLimit :: kerror where "ErrRoomMemberLimit = Refusal ''room_member_limit'' ''the room already has 32 active members''"
definition ErrRoomHistoryLimit :: kerror where
  "ErrRoomHistoryLimit = Refusal ''room_history_limit'' ''the room already has 128 current and former memberships''"
definition ErrRoomKeyConflict :: kerror where
  "ErrRoomKeyConflict = Refusal ''idempotency_conflict'' ''that form key created a room with another name''"
definition ErrRoomMemberAbsent :: kerror where "ErrRoomMemberAbsent = Refusal ''room_member_not_found'' ''the room has no such current member''"
definition ErrNotRoomMember :: kerror where "ErrNotRoomMember = Refusal ''not_room_member'' ''this session is not a current member of that room''"
definition ErrRoomPostLimit :: kerror where "ErrRoomPostLimit = Refusal ''room_post_limit'' ''the daemon already retains 10000 room posts''"
definition ErrRoomRetryLimit :: kerror where "ErrRoomRetryLimit = Refusal ''room_replay_limit'' ''the daemon already retains 10000 room post retry records''"
definition ErrRoomPostRepeat :: kerror where "ErrRoomPostRepeat = Refusal ''idempotency_conflict'' ''this room post key is bound to a different request''"
definition ErrRoomPostLate :: kerror where "ErrRoomPostLate = Refusal ''retry_deadline_expired'' ''the retry deadline has passed; read the room to reconcile''"

record room_env =
  rv_wenv :: wenv
  rv_clock :: time
  rv_room_id :: string
  rv_quote :: "string \<Rightarrow> string"
  rv_float_text :: "time \<Rightarrow> string"
  rv_retention_ms :: int

abbreviation rv_now :: "room_env \<Rightarrow> int" where
  "rv_now e \<equiv> wk_now_ms (rv_wenv e)"

abbreviation room_tx :: "room_env \<Rightarrow> (db \<Rightarrow> kerror + ('a \<times> db)) \<Rightarrow> db \<Rightarrow> 'a answer" where
  "room_tx e \<equiv> write_tx (rv_wenv e) None ordinary"

definition validRoomName :: "string \<Rightarrow> bool" where
  "validRoomName name \<longleftrightarrow> name \<noteq> [] \<and> length name \<le> maxRoomNameBytes \<and> valid_utf8 name"

definition validRoomID :: "string \<Rightarrow> bool" where
  "validRoomID i \<longleftrightarrow> length i = 32 \<and> list_all (\<lambda>c. (48 \<le> byte c \<and> byte c \<le> 57) \<or> (97 \<le> byte c \<and> byte c \<le> 102) \<or> (65 \<le> byte c \<and> byte c \<le> 70)) i"

text \<open>SQLite's \<open>length\<close> of a text: the characters before the first zero byte.\<close>

function sql_length :: "string \<Rightarrow> nat" where
  "sql_length [] = 0"
| "sql_length (c # cs) = (if c = CHR 0x00 then 0
     else Suc (sql_length (if byte c \<ge> 192 then dropWhile (\<lambda>b. 128 \<le> byte b \<and> byte b < 192) cs else cs)))"
  by pat_completeness auto
termination
  by (relation "measure length") (auto simp: length_dropWhile_le less_Suc_eq_le)

definition room_ok :: "roomRow \<Rightarrow> roomRow list \<Rightarrow> bool" where
  "room_ok r t \<longleftrightarrow> fresh_key ro_id r t \<and> fresh_key ro_create_key r t \<and> sql_length (ro_id r) = 32
     \<and> 1 \<le> length (ro_name r) \<and> length (ro_name r) \<le> 128 \<and> ro_revision r > 0 \<and> ro_post_head r \<ge> 0
     \<and> 1 \<le> sql_length (ro_create_key r) \<and> sql_length (ro_create_key r) \<le> 64"

definition member_ok :: "roomMemberRow \<Rightarrow> roomMemberRow list \<Rightarrow> bool" where
  "member_ok m t \<longleftrightarrow> fresh_key (\<lambda>q. (rm_room_id q, rm_ordinal q)) m t
     \<and> fresh_key (\<lambda>q. (rm_room_id q, rm_family q, rm_member_id q)) m t \<and> rm_ordinal m > 0 \<and> rm_revision m > 0 \<and> rm_start_seq m \<ge> 0"

definition post_ok :: "roomPostRow \<Rightarrow> roomPostRow list \<Rightarrow> bool" where
  "post_ok p t \<longleftrightarrow> fresh_key po_post_id p t \<and> fresh_key (\<lambda>q. (po_room_id q, po_seq q)) p t \<and> po_seq p > 0
     \<and> po_origin p \<in> {''maintainer'', ''member''}"

definition delivery_ok :: "roomDeliveryRow \<Rightarrow> roomDeliveryRow list \<Rightarrow> bool" where
  "delivery_ok r t \<longleftrightarrow> fresh_key (\<lambda>q. (dl_post_id q, dl_ordinal q)) r t \<and> dl_outcome r \<in> {''queued'', ''skipped''}"

definition room_replay_ok :: "roomReplayRow \<Rightarrow> roomReplayRow list \<Rightarrow> bool" where
  "room_replay_ok r t \<longleftrightarrow> fresh_key (\<lambda>q. (rx_family q, rx_caller_id q, rx_key q)) r t"

definition bumpChange :: "string \<Rightarrow> db \<Rightarrow> db" where
  "bumpChange topic d = d\<lparr>room_changes := update_where (\<lambda>(t, _). t = topic) (\<lambda>(t, v). (t, v + 1)) (room_changes d)\<rparr>"

section \<open>Rooms and their roster\<close>

definition create_room :: "room_env \<Rightarrow> string \<Rightarrow> string \<Rightarrow> db \<Rightarrow> kerror + (string \<times> db)" where
  "create_room e k name d =
     (case List.find (\<lambda>r. ro_create_key r = k) (rooms d) of
        Some r \<Rightarrow> if ro_name r \<noteq> name then Inl ErrRoomKeyConflict else Inr (ro_id r, d)
      | None \<Rightarrow>
          rbind (guard (length (rooms d) < maxRooms) ErrRoomLimit) (\<lambda>_.
          let i = rv_room_id e in
          rbind (insert_row ErrConstraint room_ok \<lparr>ro_id = i, ro_name = name, ro_revision = 1, ro_post_head = 0,
                   ro_created_at = rv_now e, ro_create_key = k\<rparr> (rooms d)) (\<lambda>t.
          rbind (insert_row ErrConstraint (\<lambda>c u. fresh_key fst c u) (i, 1) (room_changes d)) (\<lambda>u.
          Inr (i, d\<lparr>rooms := t, room_changes := u\<rparr>)))))"

definition CreateRoom :: "room_env \<Rightarrow> string \<Rightarrow> string \<Rightarrow> db \<Rightarrow> string answer" where
  "CreateRoom e k name d =
     (if \<not> validRoomName name \<or> k = [] \<or> length k > 64 then (Inl ErrInvalid, d) else room_tx e (create_room e k name) d)"

definition room_row :: "db \<Rightarrow> string \<Rightarrow> kerror + roomRow" where
  "room_row d i = opt_err ErrRoomNotFound (List.find (\<lambda>r. ro_id r = i) (rooms d))"

definition participantState :: "db \<Rightarrow> int \<Rightarrow> string \<Rightarrow> string" where
  "participantState d now address =
     (case List.find (\<lambda>n. n_kind n = ''alias'' \<and> n_name n = address) (names d) of
        None \<Rightarrow> ''unheld''
      | Some n \<Rightarrow>
          if n_conflict n \<noteq> None then ''conflicting''
          else if n_holder_id n = [] then ''unheld''
          else if \<not> holds d now (n_family n) (n_holder_id n) (n_repository n) (n_role n) then ''unheld''
          else ''active'')"

definition address_of :: "string \<Rightarrow> string" where
  "address_of i = drop (length participantPrefix) i"

text \<open>A message to a member's inbox, with its room columns; None when the recipient is not active.\<close>

definition room_copy :: "int \<Rightarrow> Key \<Rightarrow> (int \<Rightarrow> int \<Rightarrow> messageRow) \<Rightarrow> db \<Rightarrow> kerror + (int option \<times> db)" where
  "room_copy now member message d =
     (case next_seq now member d of
        None \<Rightarrow> Inr (None, d)
      | Some (seq, d1) \<Rightarrow>
          let i = message_ids d1 + 1 in
          rbind (insert_message (message i seq) d1) (\<lambda>d2. Inr (Some i, d2)))"

definition notice_body :: "room_env \<Rightarrow> roomRow \<Rightarrow> int \<Rightarrow> string \<Rightarrow> string" where
  "notice_body e r revision ev =
     (if ev = ''removed''
      then ''The maintainer removed this session from the Koinon room '' @ rv_quote e (ro_name r) @ '' ('' @ ro_id r
             @ '', revision '' @ show_int revision @ '').''
      else ''The maintainer added this session to the Koinon room '' @ rv_quote e (ro_name r) @ '' ('' @ ro_id r
             @ '', revision '' @ show_int revision @ ''). Read its roster with room_members.'')"

definition notice_message :: "room_env \<Rightarrow> roomRow \<Rightarrow> Key \<Rightarrow> int \<Rightarrow> string \<Rightarrow> int \<Rightarrow> int \<Rightarrow> messageRow" where
  "notice_message e r member revision ev i seq =
     (plain_message i (rv_now e) member seq maintainerKey ''maintainer'' (notice_body e r revision ev))
       \<lparr>g_room_id := ro_id r, g_room_revision := revision, g_room_event := ev\<rparr>"

text \<open>The inbox of an active participant is created before a copy goes to it.\<close>

definition member_inbox :: "int \<Rightarrow> Key \<Rightarrow> db \<Rightarrow> kerror + db" where
  "member_inbox now member d =
     (if isParticipantID (k_id member) then ensureParticipantInbox now (address_of (k_id member)) d else Inr d)"

definition roomNotice :: "room_env \<Rightarrow> roomRow \<Rightarrow> Key \<Rightarrow> int \<Rightarrow> string \<Rightarrow> db \<Rightarrow> kerror + db" where
  "roomNotice e r member revision ev d =
     (if isParticipantID (k_id member) \<and> participantState d (rv_now e) (address_of (k_id member)) \<noteq> ''active'' then Inr d
      else rbind (member_inbox (rv_now e) member d) (\<lambda>d1.
        rbind (room_copy (rv_now e) member (notice_message e r member revision ev) d1) (\<lambda>(_, d2). Inr d2)))"

definition member_row :: "db \<Rightarrow> string \<Rightarrow> Key \<Rightarrow> roomMemberRow option" where
  "member_row d room k = List.find (\<lambda>m. rm_room_id m = room \<and> rm_family m = k_family k \<and> rm_member_id m = k_id k) (room_members d)"

definition room_rows :: "db \<Rightarrow> string \<Rightarrow> roomMemberRow list" where
  "room_rows d room = filter (\<lambda>m. rm_room_id m = room) (room_members d)"

definition set_room :: "string \<Rightarrow> (roomRow \<Rightarrow> roomRow) \<Rightarrow> db \<Rightarrow> db" where
  "set_room i f d = bumpChange i (d\<lparr>rooms := update_where (\<lambda>r. ro_id r = i) f (rooms d)\<rparr>)"

definition set_member :: "string \<Rightarrow> int \<Rightarrow> (roomMemberRow \<Rightarrow> roomMemberRow) \<Rightarrow> db \<Rightarrow> db" where
  "set_member room ordinal f d =
     d\<lparr>room_members := update_where (\<lambda>m. rm_room_id m = room \<and> rm_ordinal m = ordinal) f (room_members d)\<rparr>"

text \<open>The member that a peer name stands for: the address its session holds, else the session.\<close>

definition room_member_of :: "db \<Rightarrow> int \<Rightarrow> string \<Rightarrow> kerror + (Key \<times> string)" where
  "room_member_of d now peer =
     rbind (opt_err ErrPeerNotFound (List.find (\<lambda>n. n_kind n = ''peer'' \<and> n_name n = peer) (names d))) (\<lambda>n.
     let session = key (n_family n) (n_session_id n) in
     rbind (guard (\<not> (session = maintainerKey \<or> isParticipantID (k_id session))) ErrPeerNotFound) (\<lambda>_.
     rbind (case activeCaller d now session False of Inl err \<Rightarrow> Inl (if err = ErrCallerInactive then ErrRecipientInactive else err)
            | Inr u \<Rightarrow> Inr u) (\<lambda>_.
     let address = heldAddress d now session in
     Inr (if address \<noteq> [] then (key (k_family session) (participantKey address), address) else (session, peer)))))"

definition place_member :: "room_env \<Rightarrow> roomRow \<Rightarrow> Key \<Rightarrow> string \<Rightarrow> int \<Rightarrow> roomMemberRow option \<Rightarrow> db \<Rightarrow> kerror + db" where
  "place_member e r member lab revision held d =
     (case held of
        Some m \<Rightarrow> Inr (set_member (ro_id r) (rm_ordinal m) (\<lambda>m. m\<lparr>rm_active := True, rm_revision := revision,
            rm_start_seq := ro_post_head r, rm_label := lab, rm_changed_at := rv_now e\<rparr>) d)
      | None \<Rightarrow>
          rbind (insert_row ErrConstraint member_ok \<lparr>rm_room_id = ro_id r,
              rm_ordinal = fold max (map rm_ordinal (room_rows d (ro_id r))) 0 + 1, rm_family = k_family member, rm_member_id = k_id member,
              rm_label = lab, rm_active = True, rm_revision = revision, rm_start_seq = ro_post_head r, rm_changed_at = rv_now e\<rparr>
              (room_members d)) (\<lambda>t. Inr (d\<lparr>room_members := t\<rparr>)))"

definition add_member :: "room_env \<Rightarrow> string \<Rightarrow> string \<Rightarrow> db \<Rightarrow> kerror + (bool \<times> db)" where
  "add_member e room peer d =
     rbind (room_row d room) (\<lambda>r.
     rbind (room_member_of d (rv_now e) peer) (\<lambda>(member, lab).
     let held = member_row d room member; rows = room_rows d room; revision = ro_revision r + 1 in
     if (case held of None \<Rightarrow> False | Some m \<Rightarrow> rm_active m) then Inr (False, d)
     else rbind (guard (length (filter rm_active rows) < maxRoomMembers) ErrRoomMemberLimit) (\<lambda>_.
       rbind (guard (\<not> (held = None \<and> length rows \<ge> maxRoomMemberRows)) ErrRoomHistoryLimit) (\<lambda>_.
       rbind (place_member e r member lab revision held (set_room room (\<lambda>q. q\<lparr>ro_revision := revision\<rparr>) d)) (\<lambda>d1.
       rbind (roomNotice e r member revision ''added'' d1) (\<lambda>d2. Inr (True, d2)))))))"

definition AddRoomMember :: "room_env \<Rightarrow> string \<Rightarrow> string \<Rightarrow> db \<Rightarrow> bool answer" where
  "AddRoomMember e room peer d =
     (if \<not> validRoomID room \<or> peer = [] \<or> length peer > 256 then (Inl ErrInvalid, d) else room_tx e (add_member e room peer) d)"

definition remove_member :: "room_env \<Rightarrow> string \<Rightarrow> int \<Rightarrow> db \<Rightarrow> kerror + (unit \<times> db)" where
  "remove_member e room ordinal d =
     rbind (room_row d room) (\<lambda>r.
     rbind (opt_err ErrRoomMemberAbsent (List.find (\<lambda>m. rm_room_id m = room \<and> rm_ordinal m = ordinal \<and> rm_active m) (room_members d))) (\<lambda>m.
     let revision = ro_revision r + 1 in
     rbind (roomNotice e r (key (rm_family m) (rm_member_id m)) revision ''removed''
              (set_member room ordinal (\<lambda>m. m\<lparr>rm_active := False, rm_revision := revision, rm_changed_at := rv_now e\<rparr>)
                (set_room room (\<lambda>q. q\<lparr>ro_revision := revision\<rparr>) d))) (\<lambda>d1. Inr ((), d1))))"

definition RemoveRoomMember :: "room_env \<Rightarrow> string \<Rightarrow> int \<Rightarrow> db \<Rightarrow> unit answer" where
  "RemoveRoomMember e room ordinal d =
     (if \<not> validRoomID room \<or> ordinal \<le> 0 then (Inl ErrInvalid, d) else room_tx e (remove_member e room ordinal) d)"

section \<open>Room queries\<close>

record RoomMember =
  rb_ordinal :: int
  rb_kind :: string
  rb_family :: string
  rb_address :: string
  rb_peer_name :: string
  rb_state :: string
  rb_current :: bool
  rb_revision :: int

record Room =
  rr_id :: string
  rr_name :: string
  rr_revision :: int
  rr_created_at :: int
  rr_members :: "RoomMember list"

record RoomMembership =
  rs_room_id :: string
  rs_name :: string
  rs_revision :: int
  rs_status :: string
  rs_via :: string
  rs_address :: string
  rs_membership_revision :: int

definition holder_peer :: "db \<Rightarrow> string \<Rightarrow> string" where
  "holder_peer d address =
     (case List.find (\<lambda>n. n_kind n = ''alias'' \<and> n_name n = address) (names d) of None \<Rightarrow> []
      | Some a \<Rightarrow> (case peer_row d (n_family a) (n_holder_id a) of None \<Rightarrow> [] | Some p \<Rightarrow> n_name p))"

definition memberView :: "db \<Rightarrow> int \<Rightarrow> string \<Rightarrow> string \<Rightarrow> string \<Rightarrow> kerror + RoomMember" where
  "memberView d now family memberID lab =
     (let blank = \<lparr>rb_ordinal = 0, rb_kind = [], rb_family = family, rb_address = [], rb_peer_name = [], rb_state = [],
                    rb_current = False, rb_revision = 0\<rparr> in
      if isParticipantID memberID then
        (let address = address_of memberID; state = participantState d now address in
         Inr (blank\<lparr>rb_kind := ''participant'', rb_address := address, rb_state := state,
                     rb_peer_name := (if state = ''active'' then holder_peer d address else [])\<rparr>))
      else
        (let m = blank\<lparr>rb_kind := ''session'', rb_peer_name := lab, rb_state := ''inactive''\<rparr> in
         case activeCaller d now (key family memberID) False of
           Inr _ \<Rightarrow> Inr (m\<lparr>rb_state := ''active''\<rparr>)
         | Inl err \<Rightarrow> if err = ErrCallerInactive \<or> err = ErrInvalid then Inr m else Inl err))"

definition callerMemberships :: "db \<Rightarrow> int \<Rightarrow> Key \<Rightarrow> Key list" where
  "callerMemberships d now caller =
     (let address = heldAddress d now caller in
      caller # (if address \<noteq> [] then [key (k_family caller) (participantKey address)] else []))"

definition roomPageLimit :: "int \<Rightarrow> kerror + nat" where
  "roomPageLimit limit =
     (if limit < 0 \<or> limit > int maxRoomPage then Inl ErrInvalid else Inr (if limit = 0 then maxRoomPage else nat limit))"

definition membership_view :: "roomRow \<Rightarrow> roomMemberRow \<Rightarrow> RoomMembership" where
  "membership_view r m =
     \<lparr>rs_room_id = ro_id r, rs_name = ro_name r, rs_revision = ro_revision r,
      rs_status = (if rm_active m then ''member'' else ''removed''),
      rs_via = (if isParticipantID (rm_member_id m) then ''participant'' else ''session''),
      rs_address = (if isParticipantID (rm_member_id m) then address_of (rm_member_id m) else []),
      rs_membership_revision = rm_revision m\<rparr>"

text \<open>The rows of \<open>RoomList\<close>, by room, current memberships first, then by member.\<close>

definition membership_rows :: "db \<Rightarrow> Key list \<Rightarrow> string \<Rightarrow> (roomRow \<times> roomMemberRow) list" where
  "membership_rows d keys after =
     sort_key (\<lambda>(r, _). ro_id r) (sort_key (\<lambda>(_, m). \<not> rm_active m) (sort_key (\<lambda>(_, m). rm_member_id m)
       (concat (map (\<lambda>m. map (\<lambda>r. (r, m)) (filter (\<lambda>r. ro_id r = rm_room_id m \<and> ro_id r > after) (rooms d)))
         (filter (\<lambda>m. key (rm_family m) (rm_member_id m) \<in> set keys) (room_members d))))))"

fun list_rooms :: "nat \<Rightarrow> RoomMembership list \<Rightarrow> (roomRow \<times> roomMemberRow) list \<Rightarrow> RoomMembership list \<times> bool" where
  "list_rooms limit acc [] = (acc, False)"
| "list_rooms limit acc ((r, m) # rest) =
     (if acc \<noteq> [] \<and> rs_room_id (last acc) = ro_id r then list_rooms limit acc rest
      else if length acc = limit then (acc, True)
      else list_rooms limit (acc @ [membership_view r m]) rest)"

definition RoomList :: "int \<Rightarrow> Key \<Rightarrow> string \<Rightarrow> int \<Rightarrow> db \<Rightarrow> kerror + (RoomMembership list \<times> bool)" where
  "RoomList now caller after limit d =
     (case roomPageLimit limit of
        Inl _ \<Rightarrow> Inl ErrInvalid
      | Inr n \<Rightarrow>
          if length after > 32 then Inl ErrInvalid
          else rbind (activeCaller d now caller False) (\<lambda>_.
            let keys = callerMemberships d now caller in
            Inr (list_rooms n [] (membership_rows d (if length keys > 1 then keys else keys @ [key [] []]) after))))"

fun views :: "db \<Rightarrow> int \<Rightarrow> roomMemberRow list \<Rightarrow> kerror + RoomMember list" where
  "views d now [] = Inr []"
| "views d now (m # ms) =
     rbind (memberView d now (rm_family m) (rm_member_id m) (rm_label m)) (\<lambda>v.
     rbind (views d now ms) (\<lambda>vs.
     Inr (v\<lparr>rb_ordinal := rm_ordinal m, rb_current := rm_active m, rb_revision := rm_revision m,
            rb_state := (if rm_active m then rb_state v else ''removed'')\<rparr> # vs)))"

definition roomMemberRows :: "db \<Rightarrow> int \<Rightarrow> string \<Rightarrow> bool \<Rightarrow> int \<Rightarrow> nat \<Rightarrow> kerror + (RoomMember list \<times> bool)" where
  "roomMemberRows d now room only_active after limit =
     (let scanned = take (limit + 1) (sort_key rm_ordinal (filter (\<lambda>m. (only_active \<longrightarrow> rm_active m) \<and> rm_ordinal m > after) (room_rows d room)))
      in rbind (views d now (take limit scanned)) (\<lambda>vs. Inr (vs, length scanned > limit)))"

definition RoomMembers :: "int \<Rightarrow> Key \<Rightarrow> string \<Rightarrow> int \<Rightarrow> int \<Rightarrow> db \<Rightarrow> kerror + (Room \<times> bool)" where
  "RoomMembers now caller room after limit d =
     (case roomPageLimit limit of
        Inl _ \<Rightarrow> Inl ErrInvalid
      | Inr n \<Rightarrow>
          if after < 0 \<or> \<not> validRoomID room then Inl ErrInvalid
          else rbind (activeCaller d now caller False) (\<lambda>_.
            rbind (guard (\<exists>k\<in>set (callerMemberships d now caller). \<exists>m\<in>set_option (member_row d room k). rm_active m) ErrNotRoomMember) (\<lambda>_.
            rbind (opt_err ErrNoRows (List.find (\<lambda>r. ro_id r = room) (rooms d))) (\<lambda>r.
            rbind (roomMemberRows d now room True after n) (\<lambda>(vs, rest).
            Inr (\<lparr>rr_id = room, rr_name = ro_name r, rr_revision = ro_revision r, rr_created_at = ro_created_at r, rr_members = vs\<rparr>, rest))))))"

fun dashboard_rows :: "db \<Rightarrow> int \<Rightarrow> roomRow list \<Rightarrow> kerror + Room list" where
  "dashboard_rows d now [] = Inr []"
| "dashboard_rows d now (r # rs) =
     rbind (roomMemberRows d now (ro_id r) False 0 maxRoomMemberRows) (\<lambda>(vs, _).
     rbind (dashboard_rows d now rs) (\<lambda>rest.
     Inr (\<lparr>rr_id = ro_id r, rr_name = ro_name r, rr_revision = ro_revision r, rr_created_at = ro_created_at r, rr_members = vs\<rparr> # rest)))"

definition dashboardRooms :: "int \<Rightarrow> db \<Rightarrow> kerror + Room list" where
  "dashboardRooms now d = dashboard_rows d now (sort_key ro_created_at (sort_key ro_id (rooms d)))"

section \<open>Posts\<close>

definition roomPostFingerprint :: "room_env \<Rightarrow> string \<Rightarrow> string \<Rightarrow> time \<Rightarrow> string" where
  "roomPostFingerprint e room body deadline =
     hex_encode (sha256 (wk_ext (rv_wenv e)) (room @ [CHR 0x00] @ rv_float_text e deadline @ [CHR 0x00] @ body))"

text \<open>The lowest start of the caller's current memberships.\<close>

definition currentMembershipStart :: "db \<Rightarrow> string \<Rightarrow> Key list \<Rightarrow> kerror + int" where
  "currentMembershipStart d room keys =
     (let starts = map rm_start_seq (filter rm_active (concat (map (\<lambda>k. case member_row d room k of None \<Rightarrow> [] | Some m \<Rightarrow> [m]) keys)))
      in case starts of [] \<Rightarrow> Inl ErrNotRoomMember | s # ss \<Rightarrow> Inr (fold min ss s))"

definition replay_of_key :: "db \<Rightarrow> Key \<Rightarrow> string \<Rightarrow> roomReplayRow option" where
  "replay_of_key d caller k = List.find (\<lambda>x. rx_family x = k_family caller \<and> rx_caller_id x = k_id caller \<and> rx_key x = k) (room_replays d)"

definition roomPostRepeat ::
  "db \<Rightarrow> int \<Rightarrow> Key \<Rightarrow> bool \<Rightarrow> string \<Rightarrow> string \<Rightarrow> string \<Rightarrow> kerror + (Key list \<times> RoomPostResult option)" where
  "roomPostRepeat d now caller maintainer room k print =
     rbind (if maintainer then Inr []
            else rbind (activeCaller d now caller False) (\<lambda>_.
              let keys = callerMemberships d now caller in
              rbind (currentMembershipStart d room keys) (\<lambda>_. Inr keys))) (\<lambda>senders.
     case replay_of_key d caller k of
       None \<Rightarrow> Inr (senders, None)
     | Some x \<Rightarrow> if rx_fingerprint x \<noteq> print then Inl ErrRoomPostRepeat
                 else Inr (senders, Some ((rx_result x)\<lparr>pr_duplicate := True\<rparr>)))"

definition post_message :: "int \<Rightarrow> Key \<Rightarrow> roomPostRow \<Rightarrow> int \<Rightarrow> int \<Rightarrow> messageRow" where
  "post_message now member p i seq =
     (plain_message i now member seq (key (po_sender_family p) (po_sender_id p)) (po_sender_name p) (po_body p))
       \<lparr>g_room_id := po_room_id p, g_room_event := ''post'', g_room_seq := po_seq p, g_room_origin := po_origin p\<rparr>"

text \<open>One recipient: the reason it is skipped, or the message it was given.\<close>

definition deliver_post :: "int \<Rightarrow> roomPostRow \<Rightarrow> roomMemberRow \<Rightarrow> db \<Rightarrow> kerror + (string \<times> int option \<times> db)" where
  "deliver_post now p m d =
     (let k = key (rm_family m) (rm_member_id m);
          state = (if isParticipantID (rm_member_id m) then participantState d now (address_of (rm_member_id m)) else ''active'') in
      if state \<noteq> ''active'' then Inr (state, None, d)
      else rbind (member_inbox now k d) (\<lambda>d1.
        rbind (room_copy now k (post_message now k p) d1) (\<lambda>(i, d2).
        Inr (if i = None then (''inactive'', None, d2) else ([], i, d2)))))"

definition delivery_row :: "roomPostRow \<Rightarrow> roomMemberRow \<Rightarrow> string \<Rightarrow> int option \<Rightarrow> roomDeliveryRow" where
  "delivery_row p m reason i =
     \<lparr>dl_post_id = po_post_id p, dl_ordinal = rm_ordinal m, dl_family = rm_family m, dl_member_id = rm_member_id m,
      dl_label = rm_label m, dl_outcome = (if reason = [] then ''queued'' else ''skipped''), dl_reason = reason, dl_message_id = i\<rparr>"

definition count_delivery :: "string \<Rightarrow> RoomPostResult \<Rightarrow> RoomPostResult" where
  "count_delivery reason r =
     (if reason \<noteq> [] then r\<lparr>pr_skipped := pr_skipped r + 1\<rparr> else r\<lparr>pr_queued := pr_queued r + 1\<rparr>)"

fun fan_out :: "int \<Rightarrow> roomPostRow \<Rightarrow> roomMemberRow list \<Rightarrow> RoomPostResult \<Rightarrow> db \<Rightarrow> kerror + (RoomPostResult \<times> db)" where
  "fan_out now p [] r d = Inr (r, d)"
| "fan_out now p (m # ms) r d =
     rbind (deliver_post now p m d) (\<lambda>(reason, i, d1).
     rbind (insert_row ErrConstraint delivery_ok (delivery_row p m reason i) (room_deliveries d1)) (\<lambda>t.
     fan_out now p ms (count_delivery reason r) (d1\<lparr>room_deliveries := t\<rparr>)))"

text \<open>The roster snapshot of a post: the current members but the poster's own memberships.\<close>

definition post_members :: "db \<Rightarrow> string \<Rightarrow> Key list \<Rightarrow> roomMemberRow list" where
  "post_members d room exclude =
     filter (\<lambda>m. key (rm_family m) (rm_member_id m) \<notin> set exclude) (sort_key rm_ordinal (filter rm_active (room_rows d room)))"

definition fanOut :: "int \<Rightarrow> roomPostRow \<Rightarrow> Key list \<Rightarrow> RoomPostResult \<Rightarrow> db \<Rightarrow> kerror + (RoomPostResult \<times> db)" where
  "fanOut now p exclude r d = fan_out now p (post_members d (po_room_id p) exclude) r d"

definition new_post :: "room_env \<Rightarrow> Key \<Rightarrow> bool \<Rightarrow> string \<Rightarrow> roomRow \<Rightarrow> string \<Rightarrow> db \<Rightarrow> roomPostRow" where
  "new_post e caller maintainer sender r body d =
     \<lparr>po_post_id = room_post_ids d + 1, po_room_id = ro_id r, po_seq = ro_post_head r + 1, po_sender_family = k_family caller,
      po_sender_id = k_id caller, po_sender_name = sender, po_origin = (if maintainer then ''maintainer'' else ''member''),
      po_body = body, po_created_at = rv_now e\<rparr>"

definition store_post :: "roomPostRow \<Rightarrow> db \<Rightarrow> kerror + db" where
  "store_post p d =
     (let d1 = set_room (po_room_id p) (\<lambda>r. r\<lparr>ro_post_head := po_seq p\<rparr>) d in
      rbind (insert_row ErrConstraint post_ok p (room_posts d1)) (\<lambda>t. Inr (d1\<lparr>room_posts := t, room_post_ids := po_post_id p\<rparr>)))"

definition record_post ::
  "room_env \<Rightarrow> Key \<Rightarrow> bool \<Rightarrow> string \<Rightarrow> string \<Rightarrow> string \<Rightarrow> time \<Rightarrow> string \<Rightarrow> Key list \<Rightarrow> db \<Rightarrow> kerror + (RoomPostResult \<times> db)" where
  "record_post e caller maintainer room body k deadline print senders d =
     rbind (room_row d room) (\<lambda>r.
     rbind (if maintainer then Inr ''maintainer'' else sender_name d (rv_now e) caller) (\<lambda>sender.
     rbind (guard (length (room_posts d) < maxRoomPosts) ErrRoomPostLimit) (\<lambda>_.
     rbind (guard (length (room_replays d) < maxRoomReplays) ErrRoomRetryLimit) (\<lambda>_.
     let p = new_post e caller maintainer sender r body d in
     rbind (store_post p d) (\<lambda>d1.
     rbind (fanOut (rv_now e) p senders \<lparr>pr_room_id = room, pr_seq = po_seq p, pr_queued = 0, pr_skipped = 0, pr_duplicate = False\<rparr> d1)
       (\<lambda>(receipt, d2).
     rbind (insert_row ErrConstraint room_replay_ok \<lparr>rx_family = k_family caller, rx_caller_id = k_id caller, rx_key = k,
              rx_fingerprint = print, rx_deadline = deadline, rx_result = receipt\<rparr> (room_replays d2)) (\<lambda>t.
     Inr (receipt, d2\<lparr>room_replays := t\<rparr>))))))))"

definition post_body :: "room_env \<Rightarrow> Key \<Rightarrow> bool \<Rightarrow> string \<Rightarrow> string \<Rightarrow> string \<Rightarrow> time \<Rightarrow> string \<Rightarrow> db \<Rightarrow> kerror + (RoomPostResult \<times> db)" where
  "post_body e caller maintainer room body k deadline print d =
     rbind (roomPostRepeat d (rv_now e) caller maintainer room k print) (\<lambda>(senders, original).
     case original of Some r \<Rightarrow> Inr (r, d)
     | None \<Rightarrow> record_post e caller maintainer room body k deadline print senders d)"

definition check_post :: "room_env \<Rightarrow> Key \<Rightarrow> bool \<Rightarrow> string \<Rightarrow> string \<Rightarrow> string \<Rightarrow> time \<Rightarrow> kerror + unit" where
  "check_post e caller maintainer room body k deadline =
     (let l = wk_limits (rv_wenv e) in
      if \<not> maintainer \<and> \<not> validKey (k_family caller) (k_id caller) then Inl ErrInvalid
      else if \<not> validRoomID room \<or> body = [] \<or> int (length body) > maxBody \<or> \<not> valid_utf8 body \<or> k = [] \<or> length k > 256 then Inl ErrInvalid
      else if deadline \<le> rv_clock e then Inl ErrRoomPostLate
      else if deadline > rv_clock e + lm_idem_ttl l
      then Inl (Refusal ''invalid_request'' (''the retry deadline must be a Unix time in seconds at most '' @ show_int \<lfloor>lm_idem_ttl l\<rfloor> @ '' s ahead''))
      else Inr ())"

text \<open>
  A repeat is answered from a read before the write is admitted. The check is made again in the write;
  between the two no other request commits here, so the second one finds no record.
\<close>

definition roomPost :: "room_env \<Rightarrow> Key \<Rightarrow> bool \<Rightarrow> string \<Rightarrow> string \<Rightarrow> string \<Rightarrow> time \<Rightarrow> db \<Rightarrow> RoomPostResult answer" where
  "roomPost e caller maintainer room body k deadline d =
     (let print = roomPostFingerprint e room body deadline in
      case rbind (check_post e caller maintainer room body k deadline) (\<lambda>_.
           roomPostRepeat d (rv_now e) caller maintainer room k print) of
        Inl err \<Rightarrow> (Inl err, d)
      | Inr (_, Some r) \<Rightarrow> (Inr r, d)
      | Inr (_, None) \<Rightarrow> room_tx e (post_body e caller maintainer room body k deadline print) d)"

definition RoomPost :: "room_env \<Rightarrow> Key \<Rightarrow> string \<Rightarrow> string \<Rightarrow> string \<Rightarrow> time \<Rightarrow> db \<Rightarrow> RoomPostResult answer" where
  "RoomPost e caller = roomPost e caller False"

definition DashboardRoomPost :: "room_env \<Rightarrow> string \<Rightarrow> string \<Rightarrow> string \<Rightarrow> time \<Rightarrow> db \<Rightarrow> RoomPostResult answer" where
  "DashboardRoomPost e = roomPost e maintainerKey True"

section \<open>Transcripts\<close>

record RoomTranscript =
  rt_room_id :: string
  rt_start :: int
  rt_floor :: int
  rt_head :: int
  rt_posts :: "roomPostRow list"
  rt_gaps :: "(int \<times> int) list"
  rt_more :: bool
  rt_next_after :: "int option"

text \<open>The posts of a page: at most \<open>limit\<close>, and one MiB of bodies unless it is one post.\<close>

fun post_page :: "nat \<Rightarrow> nat \<Rightarrow> nat \<Rightarrow> roomPostRow list \<Rightarrow> roomPostRow list \<times> bool" where
  "post_page limit count bytes [] = ([], False)"
| "post_page limit count bytes (p # ps) =
     (if count = limit \<or> (count > 0 \<and> bytes + length (po_body p) > page_bytes) then ([], True)
      else case post_page limit (count + 1) (bytes + length (po_body p)) ps of (page, more_posts) \<Rightarrow> (p # page, more_posts))"

fun post_gaps :: "int \<Rightarrow> int \<Rightarrow> roomPostRow list \<Rightarrow> (int \<times> int) list" where
  "post_gaps previous end_at [] = (if end_at > previous then [(previous + 1, end_at)] else [])"
| "post_gaps previous end_at (p # ps) =
     (if po_seq p > previous + 1 then [(previous + 1, po_seq p - 1)] else []) @ post_gaps (po_seq p) end_at ps"

definition posts_after :: "db \<Rightarrow> string \<Rightarrow> int \<Rightarrow> roomPostRow list" where
  "posts_after d room from_seq = sort_key po_seq (filter (\<lambda>p. po_room_id p = room \<and> po_seq p > from_seq) (room_posts d))"

definition room_floor :: "db \<Rightarrow> string \<Rightarrow> int \<Rightarrow> int" where
  "room_floor d room head =
     (case map po_seq (filter (\<lambda>p. po_room_id p = room) (room_posts d)) of [] \<Rightarrow> head | s # ss \<Rightarrow> fold min ss s - 1)"

definition roomTranscript :: "db \<Rightarrow> string \<Rightarrow> int \<Rightarrow> int \<Rightarrow> nat \<Rightarrow> kerror + RoomTranscript" where
  "roomTranscript d room start from_seq limit =
     rbind (room_row d room) (\<lambda>r.
     case post_page limit 0 0 (take (limit + 1) (posts_after d room from_seq)) of (page, more_posts) \<Rightarrow>
       let end_at = (if more_posts then po_seq (last page) else ro_post_head r) in
       Inr \<lparr>rt_room_id = room, rt_start = start, rt_floor = room_floor d room (ro_post_head r), rt_head = ro_post_head r, rt_posts = page,
            rt_gaps = post_gaps from_seq end_at page, rt_more = more_posts, rt_next_after = (if more_posts then Some (po_seq (last page)) else None)\<rparr>)"

definition RoomRead :: "int \<Rightarrow> Key \<Rightarrow> string \<Rightarrow> int \<Rightarrow> int \<Rightarrow> db \<Rightarrow> kerror + RoomTranscript" where
  "RoomRead now caller room after limit0 d =
     (let limit = (if limit0 = 0 then int maxRoomReadPosts else limit0) in
      if limit < 0 \<or> limit > int maxRoomReadPosts \<or> after < 0 \<or> \<not> validRoomID room then Inl ErrInvalid
      else rbind (activeCaller d now caller False) (\<lambda>_.
        rbind (currentMembershipStart d room (callerMemberships d now caller)) (\<lambda>start.
        roomTranscript d room start (max after start) (nat limit))))"

record RoomDelivery =
  rd_ordinal :: int
  rd_label :: string
  rd_family :: string
  rd_outcome :: string
  rd_reason :: string
  rd_delivery_state :: string
  rd_acknowledged :: bool
  rd_acknowledged_by :: string

text \<open>A delivery row joined with its inbox message and that inbox's acknowledgement.\<close>

definition delivery_view :: "db \<Rightarrow> roomDeliveryRow \<Rightarrow> RoomDelivery" where
  "delivery_view d r =
     (let g = (case dl_message_id r of None \<Rightarrow> None | Some i \<Rightarrow> List.find (\<lambda>g. g_id g = i) (messages d));
          gone = dl_message_id r \<noteq> None \<and> g = None;
          acked = (case g of None \<Rightarrow> False
                   | Some m \<Rightarrow> (case session_row d (g_recipient_family m) (g_recipient_id m) of None \<Rightarrow> False
                                | Some s \<Rightarrow> g_seq m \<le> s_acked_through s))
      in \<lparr>rd_ordinal = dl_ordinal r, rd_label = dl_label r, rd_family = dl_family r,
          rd_outcome = (if gone then ''not_retained'' else dl_outcome r), rd_reason = dl_reason r,
          rd_delivery_state = (case g of None \<Rightarrow> [] | Some m \<Rightarrow> g_delivery_state m),
          rd_acknowledged = acked,
          rd_acknowledged_by = acknowledgedBy acked (case g of None \<Rightarrow> False | Some m \<Rightarrow> g_maintainer_ack m)\<rparr>)"

definition roomDeliveries :: "db \<Rightarrow> string \<Rightarrow> int \<Rightarrow> int \<Rightarrow> int \<Rightarrow> RoomDelivery list" where
  "roomDeliveries d room first_seq last_seq seq =
     (if seq < first_seq \<or> seq > last_seq then []
      else case List.find (\<lambda>p. po_room_id p = room \<and> po_seq p = seq) (room_posts d) of None \<Rightarrow> []
      | Some p \<Rightarrow> map (delivery_view d) (sort_key dl_ordinal (filter (\<lambda>r. dl_post_id r = po_post_id p) (room_deliveries d))))"

section \<open>Retention\<close>

definition copied :: "db \<Rightarrow> roomPostRow \<Rightarrow> bool" where
  "copied d p \<longleftrightarrow> (\<exists>r\<in>set (room_deliveries d). dl_post_id r = po_post_id p
     \<and> (\<exists>i\<in>set_option (dl_message_id r). \<exists>g\<in>set (messages d). g_id g = i))"

definition was_queued :: "db \<Rightarrow> roomPostRow \<Rightarrow> bool" where
  "was_queued d p \<longleftrightarrow> (\<exists>r\<in>set (room_deliveries d). dl_post_id r = po_post_id p \<and> dl_message_id r \<noteq> None)"

definition culled_posts :: "int \<Rightarrow> nat \<Rightarrow> db \<Rightarrow> roomPostRow list" where
  "culled_posts cutoff batch d = take batch (sort_key po_post_id
     (filter (\<lambda>p. \<not> copied d p \<and> (po_created_at p < cutoff \<or> was_queued d p)) (room_posts d)))"

definition cull_batch :: "int \<Rightarrow> nat \<Rightarrow> db \<Rightarrow> kerror + (nat \<times> db)" where
  "cull_batch cutoff batch d =
     (let gone = culled_posts cutoff batch d; ids = map po_post_id gone in
      Inr (length gone, fold bumpChange (remdups (map po_room_id gone))
        (d\<lparr>room_deliveries := filter (\<lambda>r. dl_post_id r \<notin> set ids) (room_deliveries d),
           room_posts := filter (\<lambda>p. po_post_id p \<notin> set ids) (room_posts d)\<rparr>)))"

definition cull_cutoff :: "room_env \<Rightarrow> int" where
  "cull_cutoff e = rv_now e - rv_retention_ms e"

function cull_posts :: "room_env \<Rightarrow> int \<Rightarrow> db \<Rightarrow> (kerror + int) \<times> db" where
  "cull_posts e budget d =
     (if budget \<le> 0 then (Inr budget, d)
      else let batch = min cullBatch (nat budget) in
        case write_tx (rv_wenv e) None control (cull_batch (cull_cutoff e) batch) d of
          (Inl err, d1) \<Rightarrow> (Inl err, d1)
        | (Inr n, d1) \<Rightarrow> if n < batch then (Inr (budget - int n), d1) else cull_posts e (budget - int n) d1)"
  by pat_completeness auto
termination
  by (relation "measure (\<lambda>(_, budget, _). nat budget)") (auto simp: cullBatch_def)

definition replays_due :: "time \<Rightarrow> db \<Rightarrow> roomReplayRow list" where
  "replays_due now d = take cullBatch (filter (\<lambda>x. rx_deadline x < now) (room_replays d))"

definition cull_replays :: "time \<Rightarrow> db \<Rightarrow> kerror + (unit \<times> db)" where
  "cull_replays now d =
     (let due = map (\<lambda>x. (rx_family x, rx_caller_id x, rx_key x)) (replays_due now d) in
      Inr ((), d\<lparr>room_replays := filter (\<lambda>x. (rx_family x, rx_caller_id x, rx_key x) \<notin> set due) (room_replays d)\<rparr>))"

definition cullRoomPosts :: "room_env \<Rightarrow> int \<Rightarrow> db \<Rightarrow> int answer" where
  "cullRoomPosts e budget d =
     and_then (cull_posts e budget d) (\<lambda>left_over d1.
     and_then (write_tx (rv_wenv e) None control (cull_replays (rv_clock e)) d1) (\<lambda>_ d2. (Inr left_over, d2)))"

end
