(* ===== verification/Room_Mail.thy ===== *)
theory Room_Mail
  imports Mail_Safety Rooms
begin

text \<open>
  What rooms do to the inboxes: every room request either leaves them alone or deposits copies at their
  ends, so that the guarantees of \<^verbatim>\<open>Mail_Safety\<close> hold over runs that mix messages, registry writes and
  rooms. The requests of such a run are \<open>mail_op\<close>.
\<close>

section \<open>Deposits\<close>

inductive mail_grows :: "db \<Rightarrow> db \<Rightarrow> bool" where
  grows_quiet: "quiet d d' \<Longrightarrow> mail_grows d d'"
| grows_deposit: "s \<in> set (sessions d) \<Longrightarrow> (g_recipient_family g, g_recipient_id g) = skey s \<Longrightarrow> g_seq g = s_last_seq s + 1
    \<Longrightarrow> g_id g = message_ids d + 1 \<Longrightarrow> mail_grows d (deposit s g d)"
| grows_trans: "mail_grows d d1 \<Longrightarrow> mail_grows d1 d2 \<Longrightarrow> mail_grows d d2"

lemma mail_grows_le: "mail_grows d d' \<Longrightarrow> mail_le d d'"
  by (induction rule: mail_grows.induct) (auto intro: quiet_mail_le deposit_le mail_le_trans)

lemma mail_grows_inv: "mail_grows d d' \<Longrightarrow> mail_inv d \<Longrightarrow> mail_inv d'"
  using mail_grows_le by (auto simp: mail_le_def)

text \<open>Writes of the room tables alone.\<close>

definition mail_same :: "db \<Rightarrow> db \<Rightarrow> bool" where
  "mail_same d d' \<longleftrightarrow> messages d' = messages d \<and> message_ids d' = message_ids d \<and> sessions d' = sessions d"

lemma mail_same_grows [intro]: "mail_same d d' \<Longrightarrow> mail_grows d d'"
  by (rule grows_quiet, rule quiet_same) (simp_all add: mail_same_def)

lemma mail_same_tables [simp]:
  "mail_same d d" "mail_same d (set_room i f d)" "mail_same d (set_member room o1 g d)"
  "mail_same d (d\<lparr>room_deliveries := t1\<rparr>)" "mail_same d (d\<lparr>room_replays := t2\<rparr>)" "mail_same d (d\<lparr>room_members := t3\<rparr>)"
  "mail_same d (d\<lparr>rooms := t4, room_changes := t5\<rparr>)"
  by (simp_all add: mail_same_def set_room_def set_member_def bumpChange_def)

lemma mail_grows_refl [simp]: "mail_grows d d"
  by (rule mail_same_grows) simp

section \<open>Copies\<close>

definition addressed :: "Key \<Rightarrow> (int \<Rightarrow> int \<Rightarrow> messageRow) \<Rightarrow> bool" where
  "addressed k f \<longleftrightarrow> (\<forall>i seq. g_id (f i seq) = i \<and> g_seq (f i seq) = seq \<and> g_recipient_family (f i seq) = k_family k
     \<and> g_recipient_id (f i seq) = k_id k)"

lemma room_copy_grows:
  assumes "room_copy now k f d = Inr (i, d')" and "addressed k f" and inv: "mail_inv d"
  shows "mail_grows d d'"
proof (cases "next_seq now k d")
  case None
  then show ?thesis using assms(1) by (simp add: room_copy_def)
next
  case (Some a)
  obtain seq d1 where n: "next_seq now k d = Some (seq, d1)" using Some by (cases a) simp
  then have g: "insert_message (f (message_ids d1 + 1) seq) d1 = Inr d'" using assms(1) by (simp add: room_copy_def Let_def)
  obtain s where s: "s \<in> set (sessions d)" "skey s = (k_family k, k_id k)" "seq = s_last_seq s + 1"
    "d' = deposit s (f (message_ids d1 + 1) seq) d"
    using next_seq_deposit[OF inv n g] by blast
  show ?thesis
    unfolding s(4) by (rule grows_deposit[OF s(1)]) (use assms(2) s(2,3) next_seq_ids[OF n] in \<open>simp_all add: addressed_def\<close>)
qed

lemma addressed_messages [simp]:
  "addressed k (notice_message e r k revision ev)" "addressed k (post_message now k p)"
  by (simp_all add: addressed_def notice_message_def post_message_def plain_message_def)

lemma member_inbox_grows: "member_inbox now k d = Inr d' \<Longrightarrow> mail_grows d d'"
  by (auto simp: member_inbox_def split: if_split_asm dest: quiet_ensure intro: grows_quiet)

lemma roomNotice_grows:
  assumes "roomNotice e r k revision ev d = Inr d'" and "mail_inv d"
  shows "mail_grows d d'"
proof (cases "isParticipantID (k_id k) \<and> participantState d (rv_now e) (address_of (k_id k)) \<noteq> ''active''")
  case True
  then show ?thesis using assms(1) unfolding roomNotice_def by simp
next
  case False
  then obtain d1 i where d1: "member_inbox (rv_now e) k d = Inr d1" "room_copy (rv_now e) k (notice_message e r k revision ev) d1 = Inr (i, d')"
    using assms(1) unfolding roomNotice_def if_not_P[OF False] rbind_Inr_iff by (auto split: prod.splits)
  note g = member_inbox_grows[OF d1(1)]
  show ?thesis by (rule grows_trans[OF g room_copy_grows[OF d1(2)]]) (use mail_grows_inv[OF g assms(2)] in simp_all)
qed

lemma deliver_post_grows:
  assumes "deliver_post now p m d = Inr (reason, i, d')" and "mail_inv d"
  shows "mail_grows d d'"
proof -
  let ?k = "key (rm_family m) (rm_member_id m)"
  consider "d' = d" | d1 j where "member_inbox now ?k d = Inr d1" "room_copy now ?k (post_message now ?k p) d1 = Inr (j, d')"
    using assms(1) unfolding deliver_post_def Let_def by (auto split: if_split_asm)
  then show ?thesis
  proof cases
    case 2
    note g = member_inbox_grows[OF 2(1)]
    show ?thesis by (rule grows_trans[OF g room_copy_grows[OF 2(2)]]) (use mail_grows_inv[OF g assms(2)] in simp_all)
  qed simp
qed

lemma fan_out_grows:
  "fan_out now p ms r d = Inr (r', d') \<Longrightarrow> mail_inv d \<Longrightarrow> mail_grows d d'"
proof (induction ms arbitrary: r d)
  case (Cons m ms)
  obtain reason i d1 t where d1: "deliver_post now p m d = Inr (reason, i, d1)"
    "fan_out now p ms (count_delivery reason r) (d1\<lparr>room_deliveries := t\<rparr>) = Inr (r', d')"
    using Cons.prems(1) by auto
  have g: "mail_grows d (d1\<lparr>room_deliveries := t\<rparr>)"
    by (rule grows_trans[OF deliver_post_grows[OF d1(1) Cons.prems(2)]]) (rule mail_same_grows, simp)
  show ?case by (rule grows_trans[OF g Cons.IH[OF d1(2) mail_grows_inv[OF g Cons.prems(2)]]])
qed simp

section \<open>Room requests\<close>

lemma store_post_same: "store_post p d = Inr d' \<Longrightarrow> mail_same d d'"
  by (auto simp: store_post_def mail_same_def set_room_def bumpChange_def)

definition fresh_receipt :: "string \<Rightarrow> roomPostRow \<Rightarrow> RoomPostResult" where
  "fresh_receipt room p = \<lparr>pr_room_id = room, pr_seq = po_seq p, pr_queued = 0, pr_skipped = 0, pr_duplicate = False\<rparr>"

definition replay_row_of :: "Key \<Rightarrow> string \<Rightarrow> string \<Rightarrow> time \<Rightarrow> RoomPostResult \<Rightarrow> roomReplayRow" where
  "replay_row_of caller k print deadline receipt = \<lparr>rx_family = k_family caller, rx_caller_id = k_id caller, rx_key = k,
     rx_fingerprint = print, rx_deadline = deadline, rx_result = receipt\<rparr>"

lemma record_post_Inr:
  assumes "record_post e caller maintainer room body k deadline print senders d = Inr (receipt, d')"
  obtains r sender p d1 d2 where "room_row d room = Inr r" "p = new_post e caller maintainer sender r body d"
    "store_post p d = Inr d1" "length (room_posts d) < maxRoomPosts" "length (room_replays d) < maxRoomReplays"
    "fanOut (rv_now e) p senders (fresh_receipt room p) d1 = Inr (receipt, d2)"
    "room_replay_ok (replay_row_of caller k print deadline receipt) (room_replays d2)"
    "d' = d2\<lparr>room_replays := room_replays d2 @ [replay_row_of caller k print deadline receipt]\<rparr>"
proof -
  from assms obtain r sender d1 y where y: "room_row d room = Inr r" "length (room_posts d) < maxRoomPosts"
    "length (room_replays d) < maxRoomReplays"
    "store_post (new_post e caller maintainer sender r body d) d = Inr d1"
    "fanOut (rv_now e) (new_post e caller maintainer sender r body d) senders
       (fresh_receipt room (new_post e caller maintainer sender r body d)) d1 = Inr y"
    "(case y of (receipt, d2) \<Rightarrow> rbind (insert_row ErrConstraint room_replay_ok (replay_row_of caller k print deadline receipt)
       (room_replays d2)) (\<lambda>t. Inr (receipt, d2\<lparr>room_replays := t\<rparr>))) = Inr (receipt, d')"
    unfolding record_post_def Let_def rbind_Inr_iff guard_iff fresh_receipt_def[symmetric] replay_row_of_def[symmetric] by blast
  obtain d2 where y2: "y = (receipt, d2)" "room_replay_ok (replay_row_of caller k print deadline receipt) (room_replays d2)"
    "d' = d2\<lparr>room_replays := room_replays d2 @ [replay_row_of caller k print deadline receipt]\<rparr>"
    using y(6) by (cases y) auto
  show thesis by (rule that[OF y(1) refl y(4,2,3) y(5)[unfolded y2(1)] y2(2,3)])
qed

lemma record_post_grows:
  assumes "record_post e caller maintainer room body k deadline print senders d = Inr (receipt, d')" and inv: "mail_inv d"
  shows "mail_grows d d'"
proof -
  obtain r sender p d1 d2 where s: "store_post p d = Inr d1" and f: "fanOut (rv_now e) p senders (fresh_receipt room p) d1 = Inr (receipt, d2)"
    and d': "d' = d2\<lparr>room_replays := room_replays d2 @ [replay_row_of caller k print deadline receipt]\<rparr>"
    by (rule record_post_Inr[OF assms(1)])
  have g: "mail_grows d d1" by (rule mail_same_grows[OF store_post_same[OF s]])
  have "mail_grows d1 d2" using f mail_grows_inv[OF g inv] unfolding fanOut_def by (rule fan_out_grows)
  then have "mail_grows d d2" by (rule grows_trans[OF g])
  then show ?thesis unfolding d' by (rule grows_trans) (rule mail_same_grows, simp)
qed

lemma create_room_same: "create_room e k name d = Inr (i, d') \<Longrightarrow> mail_same d d'"
  by (auto simp: create_room_def Let_def split: option.splits if_split_asm)

lemma place_member_same: "place_member e r member lab revision held d = Inr d' \<Longrightarrow> mail_same d d'"
  by (auto simp: place_member_def split: option.splits)

lemma mail_same_trans: "mail_same a b \<Longrightarrow> mail_same b c \<Longrightarrow> mail_same a c"
  by (simp add: mail_same_def)

lemma add_member_grows:
  assumes "add_member e room peer d = Inr (b, d')" and inv: "mail_inv d"
  shows "mail_grows d d'"
proof -
  obtain r member lab where m: "room_row d room = Inr r" "room_member_of d (rv_now e) peer = Inr (member, lab)"
    using assms(1) unfolding add_member_def rbind_Inr_iff by (auto split: prod.splits)
  let ?d0 = "set_room room (\<lambda>q. q\<lparr>ro_revision := ro_revision r + 1\<rparr>) d"
  show ?thesis
  proof (cases "d' = d")
    case False
    obtain d1 where d1: "place_member e r member lab (ro_revision r + 1) (member_row d room member) ?d0 = Inr d1"
      "roomNotice e r member (ro_revision r + 1) ''added'' d1 = Inr d'"
      using assms(1) False unfolding add_member_def m rbind_simps prod.case Let_def by (auto split: if_split_asm)
    have g: "mail_grows d d1" by (rule mail_same_grows[OF mail_same_trans[OF _ place_member_same[OF d1(1)]]]) simp
    show ?thesis by (rule grows_trans[OF g roomNotice_grows[OF d1(2) mail_grows_inv[OF g inv]]])
  qed simp
qed

lemma remove_member_grows:
  assumes "remove_member e room ordinal d = Inr (u, d')" and inv: "mail_inv d"
  shows "mail_grows d d'"
proof -
  obtain r k rev g f where n: "roomNotice e r k rev ''removed'' (set_member room ordinal g (set_room room f d)) = Inr d'"
    using assms(1) unfolding remove_member_def Let_def by auto
  have w: "mail_grows d (set_member room ordinal g (set_room room f d))"
    by (rule mail_same_grows) (simp add: mail_same_def set_member_def set_room_def bumpChange_def)
  show ?thesis by (rule grows_trans[OF w roomNotice_grows[OF n mail_grows_inv[OF w inv]]])
qed

lemma post_body_grows:
  "post_body e caller maintainer room body k deadline print d = Inr (r, d') \<Longrightarrow> mail_inv d \<Longrightarrow> mail_grows d d'"
  unfolding post_body_def rbind_Inr_iff by (auto split: prod.splits option.splits dest: record_post_grows)

lemma fold_bump_same: "mail_same d (fold bumpChange ts d)"
proof (induction ts arbitrary: d)
  case (Cons t ts)
  have "mail_same d (bumpChange t d)" by (simp add: mail_same_def bumpChange_def)
  then show ?case using Cons mail_same_trans by simp
qed simp

lemma cull_batch_same:
  assumes "cull_batch cutoff batch d = Inr (n, d')"
  shows "mail_same d d'"
proof -
  let ?d1 = "d\<lparr>room_deliveries := filter (\<lambda>r. dl_post_id r \<notin> set (map po_post_id (culled_posts cutoff batch d))) (room_deliveries d),
      room_posts := filter (\<lambda>p. po_post_id p \<notin> set (map po_post_id (culled_posts cutoff batch d))) (room_posts d)\<rparr>"
  have "d' = fold bumpChange (remdups (map po_room_id (culled_posts cutoff batch d))) ?d1"
    using assms unfolding cull_batch_def Let_def by (elim Inr_inject[THEN Pair_inject]) simp
  moreover have "mail_same d ?d1" by (simp add: mail_same_def)
  ultimately show ?thesis using mail_same_trans[OF _ fold_bump_same] by simp
qed

lemma write_tx_keeps:
  assumes "write_tx e g cls body d = (y, d')" and "P d" and "\<And>a d1. body d = Inr (a, d1) \<Longrightarrow> P d1"
  shows "P d'"
  using assms(1,2) assms(3) by (cases y) (auto dest: write_tx_cases)

text \<open>What every batch keeps, the sweep of posts keeps.\<close>

lemma cull_posts_kept:
  assumes "cull_posts e budget d = (y, d')" and "P d"
    and batch: "\<And>n k d d1. P d \<Longrightarrow> cull_batch (cull_cutoff e) n d = Inr (k, d1) \<Longrightarrow> P d1"
  shows "P d'"
  using assms(1,2)
proof (induction "nat budget" arbitrary: budget d rule: less_induct)
  case less
  show ?case
  proof (cases "budget \<le> 0")
    case True
    then show ?thesis using less.prems by (subst (asm) cull_posts.simps) simp
  next
    case False
    let ?b = "min cullBatch (nat budget)"
    obtain z d1 where w: "write_tx (rv_wenv e) None control (cull_batch (cull_cutoff e) ?b) d = (z, d1)" by fastforce
    have s: "P d1" by (rule write_tx_keeps[where P = P, OF w less.prems(2)]) (rule batch[OF less.prems(2)])
    note step = less.prems(1)[unfolded cull_posts.simps[of e budget d] if_not_P[OF False] Let_def w prod.case]
    show ?thesis
    proof (cases z)
      case (Inr n)
      show ?thesis
      proof (cases "n < ?b")
        case False
        have rec: "cull_posts e (budget - int n) d1 = (y, d')" using step unfolding Inr sum.case if_not_P[OF False] .
        have "nat (budget - int n) < nat budget" using False \<open>\<not> budget \<le> 0\<close> by (auto simp: cullBatch_def)
        then show ?thesis using rec s by (rule less.hyps)
      qed (use step s Inr in simp)
    qed (use step s in simp)
  qed
qed

lemma cullRoomPosts_kept:
  assumes r: "cullRoomPosts e budget d = (y, d')" and "P d"
    and batch: "\<And>n k d d1. P d \<Longrightarrow> cull_batch (cull_cutoff e) n d = Inr (k, d1) \<Longrightarrow> P d1"
    and replays: "\<And>u d d1. P d \<Longrightarrow> cull_replays (rv_clock e) d = Inr (u, d1) \<Longrightarrow> P d1"
  shows "P d'"
proof -
  obtain z d1 where c: "cull_posts e budget d = (z, d1)" by fastforce
  have s: "P d1" by (rule cull_posts_kept[where P = P, OF c assms(2)]) (rule batch)
  show ?thesis
  proof (cases z)
    case (Inr n)
    obtain v d2 where w: "write_tx (rv_wenv e) None control (cull_replays (rv_clock e)) d1 = (v, d2)" by fastforce
    have "P d2" by (rule write_tx_keeps[where P = P, OF w s]) (rule replays[OF s])
    then show ?thesis using r c w Inr by (cases v) (auto simp: cullRoomPosts_def and_then_def simp del: cull_posts.simps)
  qed (use r c s in \<open>simp add: cullRoomPosts_def and_then_def del: cull_posts.simps\<close>)
qed

lemma cullRoomPosts_same:
  assumes "cullRoomPosts e budget d = (y, d')"
  shows "mail_same d d'"
proof (rule cullRoomPosts_kept[where P = "mail_same d", OF assms])
  fix n k d0 d1 assume "mail_same d d0" "cull_batch (cull_cutoff e) n d0 = Inr (k, d1)"
  then show "mail_same d d1" using cull_batch_same mail_same_trans by blast
next
  fix u d0 d1 assume "mail_same d d0" "cull_replays (rv_clock e) d0 = Inr (u, d1)"
  then show "mail_same d d1" by (auto simp: cull_replays_def Let_def mail_same_def)
qed simp

section \<open>Runs\<close>

datatype room_op =
    CreateRoomOp string string
  | AddMemberOp string string
  | RemoveMemberOp string int
  | PostOp Key bool string string string time
  | CullOp int

definition changed :: "'a answer \<Rightarrow> kerror + db" where
  "changed r = Inr (snd r)"

text \<open>A refused request changes nothing; a sweep that is refused keeps the batches it has committed.\<close>

fun room_step :: "room_env \<Rightarrow> room_op \<Rightarrow> db \<Rightarrow> kerror + db" where
  "room_step e (CreateRoomOp k name) d = changed (CreateRoom e k name d)"
| "room_step e (AddMemberOp room peer) d = changed (AddRoomMember e room peer d)"
| "room_step e (RemoveMemberOp room ordinal) d = changed (RemoveRoomMember e room ordinal d)"
| "room_step e (PostOp caller maintainer room body k deadline) d =
     changed (if maintainer then DashboardRoomPost e room body k deadline d else RoomPost e caller room body k deadline d)"
| "room_step e (CullOp budget) d = changed (cullRoomPosts e budget d)"

lemma roomPost_grows: "roomPost e caller maintainer room body k deadline d = (y, d') \<Longrightarrow> mail_inv d \<Longrightarrow> mail_grows d d'"
  unfolding roomPost_def Let_def
  by (auto split: sum.splits prod.splits option.splits elim!: write_tx_keeps intro: post_body_grows)

lemma room_step_grows:
  assumes "room_step e q d = Inr d'" and "mail_inv d"
  shows "mail_grows d d'"
proof (cases q)
  case (CreateRoomOp k name)
  then have "(\<exists>y. write_tx (rv_wenv e) None ordinary (create_room e k name) d = (y, d')) \<or> d' = d"
    using assms(1) by (cases "CreateRoom e k name d") (auto simp: changed_def CreateRoom_def split: if_split_asm)
  then show ?thesis by (auto elim!: write_tx_keeps intro: mail_same_grows create_room_same)
next
  case (AddMemberOp room peer)
  then have "(\<exists>y. write_tx (rv_wenv e) None ordinary (add_member e room peer) d = (y, d')) \<or> d' = d"
    using assms(1) by (cases "AddRoomMember e room peer d") (auto simp: changed_def AddRoomMember_def split: if_split_asm)
  then show ?thesis by (auto elim!: write_tx_keeps intro: add_member_grows[OF _ assms(2)])
next
  case (RemoveMemberOp room ordinal)
  then have "(\<exists>y. write_tx (rv_wenv e) None ordinary (remove_member e room ordinal) d = (y, d')) \<or> d' = d"
    using assms(1) by (cases "RemoveRoomMember e room ordinal d") (auto simp: changed_def RemoveRoomMember_def split: if_split_asm)
  then show ?thesis by (auto elim!: write_tx_keeps intro: remove_member_grows[OF _ assms(2)])
next
  case (PostOp caller maintainer room body k deadline)
  then obtain y where "roomPost e (if maintainer then maintainerKey else caller) maintainer room body k deadline d = (y, d')"
    using assms(1) by (auto simp: changed_def DashboardRoomPost_def RoomPost_def prod_eq_iff split: if_split_asm)
  then show ?thesis using assms(2) by (rule roomPost_grows)
next
  case (CullOp budget)
  then obtain y where "cullRoomPosts e budget d = (y, d')" using assms(1) by (auto simp: changed_def prod_eq_iff)
  then show ?thesis by (rule mail_same_grows[OF cullRoomPosts_same])
qed


datatype mail_op =
    SendOp "int \<Rightarrow> int option option" Key string string bool
  | ReadOp int bool bool Key int "int option" int
  | AckOp Key int bool int string
  | AckParticipantOp Key int
  | DeliveryOp int string string
  | RegistryOp registry_op
  | RoomOp room_env room_op

fun mail_step :: "ext \<Rightarrow> mail_op \<Rightarrow> int \<Rightarrow> db \<Rightarrow> kerror + db" where
  "mail_step x (SendOp ps caller to body dashboard) now d = rbind (send ps now caller to body dashboard d) (\<lambda>(_, d'). Inr d')"
| "mail_step x (ReadOp later marked noted caller after pa limit) now d =
     rbind (ReadInboxes now later marked noted caller after pa limit d) (\<lambda>(_, d'). Inr d')"
| "mail_step x (AckOp caller through dashboard revision origin) now d =
     rbind (ackIf now caller through dashboard revision origin d) (\<lambda>(_, d'). Inr d')"
| "mail_step x (AckParticipantOp caller through) now d = rbind (AckParticipant now caller through d) (\<lambda>(_, _, d'). Inr d')"
| "mail_step x (DeliveryOp i state reason) now d = SetDelivery now i state reason d"
| "mail_step x (RegistryOp q) now d = registry_step x q now d"
| "mail_step x (RoomOp e q) now d = room_step e q d"

lemma room_step_le: "room_step e q d = Inr d' \<Longrightarrow> mail_le d d'"
  using mail_grows_le[OF room_step_grows] unfolding mail_le_def by blast

lemma mail_step_le: "mail_step x q now d = Inr d' \<Longrightarrow> mail_le d d'"
  by (cases q) (auto simp: send_def split: if_split_asm
      intro: sendTx_le ackIf_le AckParticipant_le quiet_mail_le quiet_read quiet_delivery quiet_registry_step room_step_le)

interpretation mailing: monotone_machine "mail_step x" mail_le for x
proof
  show "mail_le s s" for s by (simp add: quiet_mail_le quiet_same)
qed (fact mail_le_trans, fact mail_step_le)

end
