(* ===== verification/Mail_Runs.thy ===== *)
theory Mail_Runs
  imports Room_Mail
begin

text \<open>
  The properties of messaging: order and bounds of an inbox, nothing lost over a run, a sent message is
  read back, and a client that reads page after page receives the whole inbox.
\<close>

section \<open>Pages\<close>

lemma page_loop_split:
  assumes "page_loop limit count bytes gs = (p, remain)"
  shows "\<exists>q. gs = p @ q \<and> (remain \<longleftrightarrow> q \<noteq> []) \<and> (count \<le> limit \<longrightarrow> count + length p \<le> limit)
    \<and> (count < limit \<and> count = 0 \<and> gs \<noteq> [] \<longrightarrow> p \<noteq> [])"
  using assms
proof (induction gs arbitrary: count bytes p remain)
  case (Cons g gs)
  show ?case
  proof (cases "count = limit \<or> (count > 0 \<and> bytes + message_size g > page_bytes)")
    case True
    then have "p = []" "remain" using Cons.prems by simp_all
    then show ?thesis using True by auto
  next
    case False
    obtain p' r where rec: "page_loop limit (count + 1) (bytes + message_size g) gs = (p', r)" by fastforce
    then have p: "p = g # p'" "remain = r" using Cons.prems False by simp_all
    obtain q where "gs = p' @ q" "r \<longleftrightarrow> q \<noteq> []" "count + 1 \<le> limit \<longrightarrow> count + 1 + length p' \<le> limit"
      using Cons.IH[OF rec] by blast
    then show ?thesis using p False by (intro exI[of _ q]) auto
  qed
qed simp

lemma page_loop_bytes:
  assumes "page_loop limit count bytes gs = (p, remain)" "count > 0" "bytes \<le> page_bytes"
  shows "bytes + sum_list (map message_size p) \<le> page_bytes"
  using assms
proof (induction gs arbitrary: count bytes p remain)
  case (Cons g gs)
  show ?case
  proof (cases "count = limit \<or> bytes + message_size g > page_bytes")
    case True
    then show ?thesis using Cons.prems by auto
  next
    case False
    obtain p' r where rec: "page_loop limit (count + 1) (bytes + message_size g) gs = (p', r)" by fastforce
    then have "p = g # p'" using Cons.prems False by auto
    then show ?thesis using Cons.IH[OF rec] False by simp
  qed
qed simp

lemma page_bytes_bound:
  assumes "page_loop limit 0 0 gs = (p, remain)"
  shows "length p \<le> 1 \<or> sum_list (map message_size p) \<le> page_bytes"
proof (cases gs)
  case (Cons g gs')
  show ?thesis
  proof (cases "limit = 0 \<or> message_size g > page_bytes")
    case True
    then show ?thesis using assms Cons by (cases gs') (auto split: prod.splits if_split_asm)
  next
    case False
    obtain p' r where rec: "page_loop limit 1 (message_size g) gs' = (p', r)" by fastforce
    then have "p = g # p'" using assms Cons False by auto
    then show ?thesis using page_loop_bytes[OF rec] False by simp
  qed
qed (use assms in simp)


section \<open>The rows of an inbox\<close>

lemma mail_inv_seqs:
  assumes "mail_inv d"
  shows "sorted (inbox_seqs d k) \<and> distinct (inbox_seqs d k)"
proof (cases "k \<in> set (map skey (sessions d))")
  case True
  then obtain s where "s \<in> set (sessions d)" "k = skey s" by auto
  then have "inbox_seqs d k = [1..s_last_seq s]" using mail_invD(4)[OF assms] by simp
  then show ?thesis by simp
next
  case False
  then have "inbox_seqs d k = []"
    using mail_invD(5)[OF assms] unfolding inbox_seqs_def map_is_Nil_conv filter_empty_conv by metis
  then show ?thesis by simp
qed

abbreviation sent_to :: "Key \<Rightarrow> messageRow \<Rightarrow> bool" where
  "sent_to k g \<equiv> g_recipient_family g = k_family k \<and> g_recipient_id g = k_id k"

lemma inbox_rows_filter:
  assumes "mail_inv d"
  shows "inbox_rows d k after = filter (\<lambda>g. g_seq g > after) (filter (sent_to k) (messages d))"
    and "sorted (map g_seq (inbox_rows d k after))" and "distinct (map g_seq (inbox_rows d k after))"
proof -
  let ?own = "filter (sent_to k) (messages d)"
  have seqs: "map g_seq ?own = inbox_seqs d (k_family k, k_id k)" by (simp add: inbox_seqs_def)
  have sd: "sorted (map g_seq ?own)" "distinct (map g_seq ?own)" using mail_inv_seqs[OF assms] unfolding seqs by simp_all
  have f: "filter (\<lambda>g. sent_to k g \<and> g_seq g > after) (messages d) = filter (\<lambda>g. g_seq g > after) ?own"
    by (simp add: conj_commute conj_left_commute)
  have sf: "sorted (map g_seq (filter (\<lambda>g. g_seq g > after) ?own))" using sd(1) by (rule sorted_filter)
  show r: "inbox_rows d k after = filter (\<lambda>g. g_seq g > after) ?own"
    unfolding inbox_rows_def using sf f by (simp add: sort_key_id_if_sorted conj_assoc)
  show "sorted (map g_seq (inbox_rows d k after))" unfolding r by (rule sf)
  show "distinct (map g_seq (inbox_rows d k after))" unfolding r using sd(2) by (rule distinct_map_filter)
qed

lemma inbox_rows_later:
  assumes "mail_inv d" "after \<le> b"
  shows "inbox_rows d k b = filter (\<lambda>g. g_seq g > b) (inbox_rows d k after)"
  using assms(2) unfolding inbox_rows_filter(1)[OF assms(1)] filter_filter by (intro filter_cong) auto

lemma rest_after_page:
  assumes "sorted (map g_seq (p @ q))" "distinct (map g_seq (p @ q))" "p \<noteq> []"
  shows "filter (\<lambda>g. g_seq g > g_seq (last p)) (p @ q) = q"
proof -
  have "\<forall>g\<in>set p. g_seq g \<le> g_seq (last p)"
  proof -
    have p: "p = butlast p @ [last p]" using assms(3) by simp
    have "sorted (map g_seq (butlast p @ [last p]))" using assms(1) p by (simp add: sorted_append)
    then have "\<forall>g\<in>set (butlast p). g_seq g \<le> g_seq (last p)" by (auto simp: sorted_append)
    moreover have "set p = insert (last p) (set (butlast p))" using arg_cong[OF p, of set] by simp
    ultimately show ?thesis by simp
  qed
  moreover have "\<forall>g\<in>set q. g_seq (last p) < g_seq g"
  proof
    fix g assume g: "g \<in> set q"
    have l: "last p \<in> set p" using assms(3) by simp
    have "g_seq (last p) \<le> g_seq g" using assms(1) l g by (auto simp: sorted_append)
    moreover have "g_seq (last p) \<noteq> g_seq g" using assms(2) l g by (force simp: image_iff)
    ultimately show "g_seq (last p) < g_seq g" by simp
  qed
  ultimately have "filter (\<lambda>g. g_seq g > g_seq (last p)) p = []" "filter (\<lambda>g. g_seq g > g_seq (last p)) q = q"
    by (auto simp: filter_empty_conv filter_id_conv)
  then show ?thesis by simp
qed

text \<open>
  A client that reads from a sequence and repeats from the last message of each page while more remain;
  \<open>n\<close> bounds the number of its calls.
\<close>

fun drain :: "nat \<Rightarrow> db \<Rightarrow> Key \<Rightarrow> int \<Rightarrow> nat \<Rightarrow> messageRow list" where
  "drain 0 d k after limit = []"
| "drain (Suc n) d k after limit =
     (case readMessages d k after limit ''session'' of
        Inl _ \<Rightarrow> []
      | Inr (_, _, remain, page) \<Rightarrow>
          map mg_row page @ (if remain then drain n d k (g_seq (mg_row (last page))) limit else []))"

lemma readMessages_page:
  assumes "session_row d (k_family k) (k_id k) = Some s" "1 \<le> limit"
  shows "\<exists>p q. inbox_rows d k after = p @ q \<and> readMessages d k after limit kind =
      Inr (s_last_seq s, s_acked_through s, q \<noteq> [], map (message_view (s_acked_through s) kind) p)
    \<and> length p \<le> limit \<and> (inbox_rows d k after \<noteq> [] \<longrightarrow> p \<noteq> [])
    \<and> (length p \<le> 1 \<or> sum_list (map message_size p) \<le> page_bytes)"
proof -
  let ?rows = "inbox_rows d k after"
  obtain p remain where page: "page_loop limit 0 0 (take (limit + 1) ?rows) = (p, remain)" by fastforce
  obtain q where q: "take (limit + 1) ?rows = p @ q" "remain \<longleftrightarrow> q \<noteq> []" "length p \<le> limit"
    "take (limit + 1) ?rows \<noteq> [] \<longrightarrow> p \<noteq> []"
    using page_loop_split[OF page] assms(2) by auto
  have rows: "?rows = p @ (q @ drop (limit + 1) ?rows)" using q(1) by (metis append.assoc append_take_drop_id)
  have "q @ drop (limit + 1) ?rows = [] \<longleftrightarrow> q = []"
  proof
    assume "q = []"
    then have "length (take (limit + 1) ?rows) \<le> limit" using q(1,3) by simp
    then have "length ?rows \<le> limit" by (simp add: min_def split: if_split_asm)
    then show "q @ drop (limit + 1) ?rows = []" using \<open>q = []\<close> by simp
  qed simp
  moreover have "readMessages d k after limit kind =
      Inr (s_last_seq s, s_acked_through s, remain, map (message_view (s_acked_through s) kind) p)"
    unfolding readMessages_def assms(1) opt_err.simps rbind_simps page by simp
  ultimately show ?thesis
    using rows q(2-4) page_bytes_bound[OF page]
    by (intro exI[of _ p] exI[of _ "q @ drop (limit + 1) ?rows"]) auto
qed

lemma drain_all:
  assumes inv: "mail_inv d" and row: "session_row d (k_family k) (k_id k) = Some s" and limit: "1 \<le> limit"
    and fuel: "length (inbox_rows d k after) < n"
  shows "drain n d k after limit = inbox_rows d k after"
  using fuel
proof (induction n arbitrary: after)
  case (Suc n)
  obtain p q where pq: "inbox_rows d k after = p @ q" "readMessages d k after limit ''session'' =
      Inr (s_last_seq s, s_acked_through s, q \<noteq> [], map (message_view (s_acked_through s) ''session'') p)"
    "inbox_rows d k after \<noteq> [] \<longrightarrow> p \<noteq> []"
    using readMessages_page[OF row limit] by blast
  have rows: "map mg_row (map (message_view (s_acked_through s) ''session'') p) = p"
    by (simp add: message_view_def Let_def comp_def)
  show ?case
  proof (cases "q = []")
    case True
    then show ?thesis using pq rows by (simp del: map_map)
  next
    case False
    then have p: "p \<noteq> []" using pq by simp
    let ?b = "g_seq (last p)"
    have srt: "sorted (map g_seq (p @ q))" "distinct (map g_seq (p @ q))"
      using inbox_rows_filter(2,3)[OF inv, of k after] unfolding pq(1) by simp_all
    have "after < ?b"
    proof -
      have "last p \<in> set (inbox_rows d k after)" using p pq(1) by simp
      then show ?thesis unfolding inbox_rows_filter(1)[OF inv] by simp
    qed
    then have rest: "inbox_rows d k ?b = q"
      using inbox_rows_later[OF inv, of after ?b k] rest_after_page[OF srt p] pq(1) by simp
    then have "drain n d k ?b limit = q" using Suc p pq(1) by (cases p) auto
    moreover have "mg_row (last (map (message_view (s_acked_through s) ''session'') p)) = last p"
      using p by (simp add: last_map message_view_def Let_def)
    ultimately show ?thesis using pq rows False by (simp del: map_map)
  qed
qed simp


section \<open>Abstract mailboxes\<close>

text \<open>
  What messaging promises, without rows and sequence numbers: each inbox is a list of bodies and the
  number of them that are acknowledged; a step appends one body, acknowledges more of them, or
  changes nothing.
\<close>

type_synonym mailbox = "string list \<times> int"

inductive mailbox_step :: "(Key \<Rightarrow> mailbox) \<Rightarrow> (Key \<Rightarrow> mailbox) \<Rightarrow> bool" where
  stutter: "mailbox_step m m"
| post: "mailbox_step m (m(k := (fst (m k) @ [body], snd (m k))))"
| acknowledge: "snd (m k) < n \<Longrightarrow> n \<le> int (length (fst (m k))) \<Longrightarrow> mailbox_step m (m(k := (fst (m k), n)))"

definition acked_of :: "db \<Rightarrow> Key \<Rightarrow> int" where
  "acked_of d k = (case session_row d (k_family k) (k_id k) of None \<Rightarrow> 0 | Some s \<Rightarrow> s_acked_through s)"

definition mailbox_of :: "db \<Rightarrow> Key \<Rightarrow> mailbox" where
  "mailbox_of d k = (map g_body (filter (sent_to k) (messages d)), acked_of d k)"

lemma session_row_in:
  assumes "mail_inv d" "s \<in> set (sessions d)" "skey s = (f, i)"
  shows "session_row d f i = Some s"
proof (cases "session_row d f i")
  case None
  then show ?thesis using assms(2,3) session_row_None by (metis image_eqI set_map)
next
  case (Some t)
  then show ?thesis using session_rowD[OF Some] mail_inv_row[OF assms(1,2)] assms(3) by auto
qed

lemma quiet_mailbox:
  assumes q: "quiet d d'" and inv: "mail_inv d"
  shows "mailbox_of d' = mailbox_of d"
proof
  fix k
  have inv': "mail_inv d'" by (rule quiet_mail_inv[OF q inv])
  have bodies: "map g_body (filter (sent_to k) (messages d)) = map g_body (filter (sent_to k) (map letter (messages d)))" for d
    by (simp add: filter_map comp_def)
  have "map letter (messages d') = map letter (messages d)" using q by (simp add: quiet_def)
  then have b: "map g_body (filter (sent_to k) (messages d')) = map g_body (filter (sent_to k) (messages d))"
    using bodies[of d] bodies[of d'] by simp
  have "acked_of d' k = acked_of d k"
  proof (cases "session_row d' (k_family k) (k_id k)")
    case None
    then have "session_row d (k_family k) (k_id k) = None"
      using quiet_mail_le[OF q] inv session_rowD session_row_in[OF inv'] unfolding mail_le_def
      by (metis not_None_eq option.distinct(1))
    then show ?thesis using None by (simp add: acked_of_def)
  next
    case (Some s')
    note row = session_rowD[OF Some]
    from quiet_row[OF q conjunct1[OF row]] show ?thesis
    proof
      assume "\<exists>s\<in>set (sessions d). inbox_part s = inbox_part s'"
      then obtain s where s: "s \<in> set (sessions d)" "inbox_part s = inbox_part s'" by blast
      then have "skey s = (k_family k, k_id k)" "s_acked_through s = s_acked_through s'"
        using row by (simp_all add: inbox_part_def skey_def)
      then show ?thesis using session_row_in[OF inv s(1)] Some by (simp add: acked_of_def)
    next
      assume n: "s_last_seq s' = 0 \<and> s_acked_through s' = 0 \<and> (distinct (map skey (sessions d)) \<longrightarrow> skey s' \<notin> set (map skey (sessions d)))"
      then have "session_row d (k_family k) (k_id k) = None"
        using mail_invD(1)[OF inv] row session_row_None by metis
      then show ?thesis using Some n by (simp add: acked_of_def)
    qed
  qed
  then show "mailbox_of d' k = mailbox_of d k" using b by (simp add: mailbox_of_def)
qed

lemma mailbox_length:
  assumes "mail_inv d" "session_row d (k_family k) (k_id k) = Some s"
  shows "int (length (fst (mailbox_of d k))) = s_last_seq s"
proof -
  note row = session_rowD[OF assms(2)]
  have s: "s \<in> set (sessions d)" and key: "skey s = (k_family k, k_id k)" using row by simp_all
  have len: "length (fst (mailbox_of d k)) = length (inbox_seqs d (skey s))" by (simp add: mailbox_of_def inbox_seqs_def key)
  show ?thesis
    unfolding len mail_invD(4)[OF assms(1) s] using mail_invD(2,3)[OF assms(1) s] by simp
qed

lemma deposit_mailbox:
  assumes inv: "mail_inv d" and s: "s \<in> set (sessions d)" "skey s = (k_family k, k_id k)" and g: "sent_to k g"
    "g_seq g = s_last_seq s + 1" "g_id g = message_ids d + 1"
  shows "mailbox_of (deposit s g d) = (mailbox_of d)(k := (fst (mailbox_of d k) @ [g_body g], snd (mailbox_of d k)))"
proof
  fix j
  let ?d' = "deposit s g d"
  have sess: "sessions ?d' = update_where (\<lambda>q. skey q = skey s) (\<lambda>q. q\<lparr>s_last_seq := s_last_seq q + 1\<rparr>) (sessions d)"
    and msgs: "messages ?d' = messages d @ [g]" by (simp_all add: deposit_def)
  have acked: "acked_of ?d' j = acked_of d j"
    unfolding acked_of_def session_row_def sess by (subst find_update_where) (auto split: option.split)
  have key: "sent_to j g \<longleftrightarrow> j = k" using g(1) by (cases j; cases k) auto
  show "mailbox_of ?d' j = ((mailbox_of d)(k := (fst (mailbox_of d k) @ [g_body g], snd (mailbox_of d k)))) j"
    using key acked by (simp add: mailbox_of_def msgs)
qed

lemma set_acked_mailbox:
  assumes inv: "mail_inv d" and row: "session_row d (k_family k) (k_id k) = Some s"
    and f: "\<And>s. skey (f s) = skey s" "\<And>s. s_acked_through (f s) = through" and h: "\<And>g. letter (h g) = letter g"
  shows "mailbox_of (set_acked k f acked through h d) = (mailbox_of d)(k := (fst (mailbox_of d k), through))"
proof
  fix j
  let ?d' = "set_acked k f acked through h d" and ?own = "\<lambda>s. s_family s = k_family k \<and> s_id s = k_id k"
  have letters: "map letter (messages ?d') = map letter (messages d)" by (simp add: set_acked_def h)
  have bodies: "map g_body (filter (sent_to j) (messages d)) = map g_body (filter (sent_to j) (map letter (messages d)))" for d
    by (simp add: filter_map comp_def)
  have b: "map g_body (filter (sent_to j) (messages ?d')) = map g_body (filter (sent_to j) (messages d))"
    using bodies[of d] bodies[of ?d'] letters by simp
  have same: "s_family (f s) = s_family s" "s_id (f s) = s_id s" for s using f(1)[of s] by (simp_all add: skey_def)
  have "session_row ?d' (k_family j) (k_id j) = map_option (\<lambda>s. if ?own s then f s else s) (session_row d (k_family j) (k_id j))"
    unfolding session_row_def set_acked_def by (simp add: find_update_where same)
  then have "acked_of ?d' j = (if j = k then through else acked_of d j)"
    using row session_rowD[of d "k_family j" "k_id j"]
    by (auto simp: acked_of_def f(2) skey_def split: option.split)
  then show "mailbox_of ?d' j = ((mailbox_of d)(k := (fst (mailbox_of d k), through))) j"
    using b by (simp add: mailbox_of_def)
qed


lemma acknowledges_step:
  assumes "mail_inv d" "acknowledges d k d'"
  shows "mailbox_step (mailbox_of d) (mailbox_of d')"
proof -
  obtain s t f h where a: "session_row d (k_family k) (k_id k) = Some s" "s_acked_through s < t" "t \<le> s_last_seq s"
    "\<And>s. skey (f s) = skey s" "\<And>s. s_acked_through (f s) = t" "\<And>g. letter (h g) = letter g"
    "d' = set_acked k f (s_acked_through s) t h d"
    using assms(2) unfolding acknowledges_def by blast
  have "mailbox_of d' = (mailbox_of d)(k := (fst (mailbox_of d k), t))"
    unfolding a(7) by (rule set_acked_mailbox[OF assms(1) a(1)]) (rule a)+
  moreover have "snd (mailbox_of d k) < t" using a(1,2) by (simp add: mailbox_of_def acked_of_def)
  moreover have "t \<le> int (length (fst (mailbox_of d k)))" unfolding mailbox_length[OF assms(1) a(1)] by (rule a(3))
  ultimately show ?thesis by (simp add: mailbox_step.acknowledge)
qed

lemma quiet_step: "quiet d d' \<Longrightarrow> mail_inv d \<Longrightarrow> mailbox_step (mailbox_of d) (mailbox_of d')"
  by (simp add: quiet_mailbox mailbox_step.stutter)

text \<open>A growth of the mail appends bodies, one inbox at a time.\<close>

lemma mail_grows_steps: "mail_grows d d' \<Longrightarrow> mail_inv d \<Longrightarrow> mailbox_step\<^sup>*\<^sup>* (mailbox_of d) (mailbox_of d')"
proof (induction rule: mail_grows.induct)
  case (grows_deposit s d g)
  let ?k = "\<lparr>k_family = s_family s, k_id = s_id s\<rparr>"
  have "mailbox_of (deposit s g d) = (mailbox_of d)(?k := (fst (mailbox_of d ?k) @ [g_body g], snd (mailbox_of d ?k)))"
    by (rule deposit_mailbox) (use grows_deposit in \<open>simp_all add: skey_def\<close>)
  then show ?case using mailbox_step.post[of "mailbox_of d" ?k "g_body g"] by (metis r_into_rtranclp)
next
  case (grows_trans d d1 d2)
  then show ?case using mail_grows_inv by (meson rtranclp_trans)
qed (simp add: quiet_mailbox)

lemma sendTx_mailbox:
  assumes "sendTx ps now caller to body dashboard d = Inr (out, d')" "mail_inv d"
  shows "\<exists>k d1. resolve_recipient now to d = Inr (k, d1)
    \<and> mailbox_of d' = (mailbox_of d)(k := (fst (mailbox_of d k) @ [body], snd (mailbox_of d k)))
    \<and> o_seq out = int (length (fst (mailbox_of d k))) + 1"
proof -
  obtain k d1 s sender where w: "resolve_recipient now to d = Inr (k, d1)" "quiet d d1" "s \<in> set (sessions d1)" "skey s = (k_family k, k_id k)"
    "o_seq out = s_last_seq s + 1"
    "quiet (deposit s (plain_message (message_ids d1 + 1) now k (s_last_seq s + 1) caller sender body) d1) d'"
    using sendTx_writes[OF assms] by metis
  let ?g = "plain_message (message_ids d1 + 1) now k (s_last_seq s + 1) caller sender body"
  have inv1: "mail_inv d1" by (rule quiet_mail_inv[OF w(2) assms(2)])
  have m1: "mailbox_of d1 = mailbox_of d" by (rule quiet_mailbox[OF w(2) assms(2)])
  have "mail_le d1 (deposit s ?g d1)" by (rule deposit_le[OF w(3)]) (simp_all add: plain_message_def w(4))
  then have inv2: "mail_inv (deposit s ?g d1)" using inv1 by (simp add: mail_le_def)
  have "mailbox_of (deposit s ?g d1) = (mailbox_of d1)(k := (fst (mailbox_of d1 k) @ [g_body ?g], snd (mailbox_of d1 k)))"
    by (rule deposit_mailbox[OF inv1 w(3,4)]) (simp_all add: plain_message_def)
  then have "mailbox_of d' = (mailbox_of d)(k := (fst (mailbox_of d k) @ [body], snd (mailbox_of d k)))"
    unfolding quiet_mailbox[OF w(6) inv2] m1 by (simp add: plain_message_def)
  moreover have "o_seq out = int (length (fst (mailbox_of d k))) + 1"
    using mailbox_length[OF inv1 session_row_in[OF inv1 w(3,4)]] m1 w(5) by simp
  ultimately show ?thesis using w(1) by blast
qed

lemma message_step_refines:
  assumes inv: "mail_inv d" and st: "mail_step x q now d = Inr d'" and other: "\<And>e r. q \<noteq> RoomOp e r"
  shows "mailbox_step (mailbox_of d) (mailbox_of d')"
proof (cases q)
  case (SendOp ps caller to body dashboard)
  then obtain out where "sendTx ps now caller to body dashboard d = Inr (out, d')"
    using st by (auto simp: send_def split: if_split_asm)
  from sendTx_mailbox[OF this inv] show ?thesis by (auto simp: mailbox_step.post)
next
  case (ReadOp later marked noted caller after pa limit)
  then have "quiet d d'" using st by (auto dest: quiet_read)
  then show ?thesis using inv by (rule quiet_step)
next
  case (AckOp caller through dashboard revision origin)
  then obtain n where "ackIf now caller through dashboard revision origin d = Inr (n, d')" using st by auto
  from ackIf_writes[OF this] show ?thesis
  proof
    assume "d' = d"
    then show ?thesis by (simp add: mailbox_step.stutter)
  next
    assume "\<exists>e. acknowledges d caller e \<and> quiet e d'"
    then obtain e where e: "acknowledges d caller e" "quiet e d'" by blast
    have "mail_inv e" using acknowledges_le[OF e(1)] inv by (simp add: mail_le_def)
    then show ?thesis using acknowledges_step[OF inv e(1)] quiet_mailbox[OF e(2)] by simp
  qed
next
  case (AckParticipantOp caller through)
  then obtain a n where "AckParticipant now caller through d = Inr (a, n, d')" using st by auto
  from AckParticipant_writes[OF this] obtain d1 k where d1: "quiet d d1" "d' = d1 \<or> acknowledges d1 k d'" by blast
  have "mail_inv d1" by (rule quiet_mail_inv[OF d1(1) inv])
  then have "d' = d1 \<or> mailbox_step (mailbox_of d1) (mailbox_of d')" using d1(2) acknowledges_step by blast
  then show ?thesis unfolding quiet_mailbox[OF d1(1) inv] using mailbox_step.stutter quiet_mailbox[OF d1(1) inv] by auto
next
  case (DeliveryOp i state reason)
  then have "quiet d d'" using st by (auto dest: quiet_delivery)
  then show ?thesis using inv by (rule quiet_step)
next
  case (RegistryOp r)
  then have "quiet d d'" using st by (auto dest: quiet_registry_step)
  then show ?thesis using inv by (rule quiet_step)
qed (use other in simp)

lemma mail_step_refines:
  assumes inv: "mail_inv d" and st: "mail_step x q now d = Inr d'"
  shows "mailbox_step\<^sup>*\<^sup>* (mailbox_of d) (mailbox_of d')"
proof (cases q)
  case (RoomOp e r)
  then show ?thesis using st mail_grows_steps[OF room_step_grows inv] inv by auto
qed (use message_step_refines[OF inv st] in \<open>auto intro: r_into_rtranclp\<close>)

section \<open>Properties\<close>

lemma mail_step_inv: "mail_inv d \<Longrightarrow> mail_step x q now d = Inr d' \<Longrightarrow> mail_inv d'"
  using mail_step_le by (auto simp: mail_le_def)

interpretation mailboxes: refining_machine "mail_step x" mail_inv mailbox_of "mailbox_step\<^sup>*\<^sup>*" for x
  by unfold_locales (fact mail_step_inv, fact mail_step_refines)

lemma demo_mail_inv: "mail_inv demo_registry"
  by code_simp

definition demo_mail_log :: "(mail_op \<times> int) list" where
  "demo_mail_log = [(SendOp (\<lambda>_. None) (key ''deepseek'' ''s2'') ''deepseek-app'' ''hello'' False, 500),
     (RegistryOp (demo_registration ''s1''), 600), (ReadOp 700 True True (key ''deepseek'' ''s2'') 0 None 0, 700),
     (AckParticipantOp (key ''deepseek'' ''s2'') 1, 800)]"

text \<open>
  C21. Messaging refines abstract mailboxes: over any run of sends, reads, acknowledgements, delivery
  reports, registry writes and room requests, the inboxes evolve only by appending a body to one of them, by
  acknowledging more of one, never beyond its end, or not at all.
\<close>

theorem mailboxes_refine:
  assumes "mail_inv d"
  shows "mailbox_step\<^sup>*\<^sup>* (mailbox_of d) (mailbox_of (run_log (mail_step x) reqs d))"
  using mailboxes.run_refines[OF assms] by simp

theorem mailboxes_refine_witness:
  "mailbox_step\<^sup>*\<^sup>* (mailbox_of demo_registry) (mailbox_of (run_log (mail_step demo_ext) demo_mail_log demo_registry))"
  by (rule mailboxes_refine[OF demo_mail_inv])

text \<open>
  C22. Sequence numbers are gapless: after any run the messages of an inbox carry the numbers 1, 2, up
  to its last sequence in the order of the table, and the acknowledged sequence lies between 0 and
  the last.
\<close>

theorem inbox_gapless:
  assumes "mail_inv d" and "session_row (run_log (mail_step x) reqs d) f i = Some s"
  shows "inbox_seqs (run_log (mail_step x) reqs d) (f, i) = [1..s_last_seq s] \<and> 0 \<le> s_acked_through s
    \<and> s_acked_through s \<le> s_last_seq s"
proof -
  have inv: "mail_inv (run_log (mail_step x) reqs d)" by (rule mailboxes.kept.run_guarded[OF assms(1)]) simp
  then show ?thesis using session_rowD[OF assms(2)] mail_invD(2-4)[OF inv, of s] by simp
qed

theorem inbox_gapless_witness:
  "\<exists>s. session_row (run_log (mail_step demo_ext) [] demo_registry) ''deepseek'' ''s2'' = Some s
    \<and> inbox_seqs (run_log (mail_step demo_ext) [] demo_registry) (''deepseek'', ''s2'') = [1..s_last_seq s]"
proof -
  have "session_row (run_log (mail_step demo_ext) [] demo_registry) ''deepseek'' ''s2'' = Some (demo_session ''s2'' 0)" by code_simp
  then show ?thesis using inbox_gapless[OF demo_mail_inv] by blast
qed

text \<open>
  No message is lost or changed and no acknowledgement is taken back: over any run the letters of
  the table only grow at its end, and every inbox keeps or raises its last and its acknowledged
  sequence.
\<close>

theorem mail_never_lost:
  assumes "mail_inv d"
  shows "(\<exists>new. map letter (messages (run_log (mail_step x) reqs d)) = map letter (messages d) @ new)
    \<and> (\<forall>s\<in>set (sessions d). \<exists>s'\<in>set (sessions (run_log (mail_step x) reqs d)). skey s' = skey s
        \<and> s_last_seq s \<le> s_last_seq s' \<and> s_acked_through s \<le> s_acked_through s')"
  using mailing.run_le[of d x reqs] assms unfolding mail_le_def by blast

theorem mail_never_lost_witness:
  "\<exists>s'\<in>set (sessions (run_log (mail_step demo_ext) demo_mail_log demo_registry)). skey s' = (''deepseek'', ''s2'')"
proof -
  have "demo_session ''s2'' 0 \<in> set (sessions demo_registry)" by code_simp
  moreover have "skey (demo_session ''s2'' 0) = (''deepseek'', ''s2'')" by code_simp
  ultimately show ?thesis using mail_never_lost[OF demo_mail_inv, of demo_ext demo_mail_log] by metis
qed

text \<open>
  C24. A sent message is read back: when a send succeeds, a read of the addressed inbox from the
  sequence before the one it returned yields exactly that body under that sequence, which is one more
  than the number of messages the inbox had.
\<close>

theorem sent_message_is_read:
  assumes "mail_inv d" and "send ps now caller to body dashboard d = Inr (out, d')" and "resolve_recipient now to d = Inr (k, d1)"
  shows "map (\<lambda>g. (g_seq g, g_body g)) (inbox_rows d' k (o_seq out - 1)) = [(o_seq out, body)]
    \<and> o_seq out = int (length (fst (mailbox_of d k))) + 1"
proof -
  have tx: "sendTx ps now caller to body dashboard d = Inr (out, d')"
    using assms(2) by (auto simp: send_def split: if_split_asm)
  obtain s sender where w: "quiet d d1" "s \<in> set (sessions d1)" "skey s = (k_family k, k_id k)" "o_seq out = s_last_seq s + 1"
    "messages d' = messages d1 @ [plain_message (message_ids d1 + 1) now k (s_last_seq s + 1) caller sender body]"
    using sendTx_writes[OF tx assms(1)] assms(3) by auto
  let ?g = "plain_message (message_ids d1 + 1) now k (s_last_seq s + 1) caller sender body"
  have inv1: "mail_inv d1" by (rule quiet_mail_inv[OF w(1) assms(1)])
  have inv': "mail_inv d'" using sendTx_le[OF tx] assms(1) by (simp add: mail_le_def)
  have "map g_seq (filter (sent_to k) (messages d1)) = [1..s_last_seq s]"
    using mail_invD(4)[OF inv1 w(2)] by (simp add: inbox_seqs_def w(3))
  then have "g_seq ` set (filter (sent_to k) (messages d1)) = {1..s_last_seq s}" by (metis set_map set_upto)
  then have "filter (\<lambda>g. g_seq g > s_last_seq s) (filter (sent_to k) (messages d1)) = []"
    unfolding filter_empty_conv by force
  moreover have "sent_to k ?g" "g_seq ?g = s_last_seq s + 1" "g_body ?g = body" by (simp_all add: plain_message_def)
  ultimately have "inbox_rows d' k (s_last_seq s) = [?g]"
    unfolding inbox_rows_filter(1)[OF inv'] w(5) by simp
  moreover have "int (length (fst (mailbox_of d k))) = s_last_seq s"
    using mailbox_length[OF inv1 session_row_in[OF inv1 w(2,3)]] quiet_mailbox[OF w(1) assms(1)] by simp
  ultimately show ?thesis using w(4) by (simp add: plain_message_def)
qed

theorem sent_message_is_read_witness:
  "\<exists>out d'. send (\<lambda>_. None) 500 (key ''deepseek'' ''s2'') ''deepseek-app-08'' ''hello'' False demo_registry = Inr (out, d')
     \<and> map (\<lambda>g. (g_seq g, g_body g)) (inbox_rows d' (key ''deepseek'' ''s2'') (o_seq out - 1)) = [(o_seq out, ''hello'')]"
proof -
  let ?r = "send (\<lambda>_. None) 500 (key ''deepseek'' ''s2'') ''deepseek-app-08'' ''hello'' False demo_registry"
  have "\<not> isl ?r" by code_simp
  then obtain out d' where r: "?r = Inr (out, d')" by (cases ?r) auto
  have "resolve_recipient 500 ''deepseek-app-08'' demo_registry = Inr (key ''deepseek'' ''s2'', demo_registry)" by code_simp
  from sent_message_is_read[OF demo_mail_inv r this] show ?thesis
    by (intro exI[of _ out] exI[of _ d'] conjI r) (rule conjunct1)
qed

text \<open>
  C25. Reading page after page ends and returns the whole inbox: a client that repeats from the last
  message of each page while more remain needs at most one call more than the inbox has messages
  after its start, and receives all of them, in order and once.
\<close>

theorem drain_reads_everything:
  assumes "mail_inv d" and "session_row d (k_family k) (k_id k) = Some s" and "1 \<le> limit"
    and "length (inbox_rows d k after) < n"
  shows "drain n d k after limit = inbox_rows d k after"
  using assms by (rule drain_all)

theorem drain_reads_everything_witness:
  "drain 1 demo_registry (key ''deepseek'' ''s2'') 0 50 = inbox_rows demo_registry (key ''deepseek'' ''s2'') 0"
proof (rule drain_reads_everything[OF demo_mail_inv])
  show "session_row demo_registry (k_family (key ''deepseek'' ''s2'')) (k_id (key ''deepseek'' ''s2'')) = Some (demo_session ''s2'' 0)"
    by code_simp
  show "length (inbox_rows demo_registry (key ''deepseek'' ''s2'') 0) < 1" by code_simp
qed simp

text \<open>
  A page is bounded and makes progress: it holds at most the requested number of messages, at most
  one MiB of bodies and metadata unless it is a single message, the messages follow the start without
  a gap, and it is empty only when nothing follows the start.
\<close>

theorem page_bounded:
  assumes "readMessages d k after limit kind = Inr (latest, acked, remain, page)" and "1 \<le> limit"
  shows "length page \<le> limit \<and> (length page \<le> 1 \<or> sum_list (map (\<lambda>m. message_size (mg_row m)) page) \<le> page_bytes)
    \<and> (\<exists>rest. inbox_rows d k after = map mg_row page @ rest \<and> remain = (rest \<noteq> []))
    \<and> (page = [] \<longleftrightarrow> inbox_rows d k after = [])"
proof -
  obtain s where s: "session_row d (k_family k) (k_id k) = Some s"
    using assms(1) unfolding readMessages_def rbind_Inr_iff opt_err_iff by blast
  obtain p q where pq: "inbox_rows d k after = p @ q" "readMessages d k after limit kind =
      Inr (s_last_seq s, s_acked_through s, q \<noteq> [], map (message_view (s_acked_through s) kind) p)"
    "length p \<le> limit" "inbox_rows d k after \<noteq> [] \<longrightarrow> p \<noteq> []" "length p \<le> 1 \<or> sum_list (map message_size p) \<le> page_bytes"
    using readMessages_page[OF s assms(2)] by blast
  have page: "page = map (message_view (s_acked_through s) kind) p" "remain = (q \<noteq> [])" using assms(1) pq(2) by auto
  have rows: "map mg_row page = p" "map (\<lambda>m. message_size (mg_row m)) page = map message_size p"
    unfolding page(1) by (simp_all add: message_view_def Let_def comp_def)
  have none: "page = [] \<longleftrightarrow> inbox_rows d k after = []" using pq(1,4) page(1) by auto
  have "length page = length p" by (simp add: page(1))
  moreover have "\<exists>rest. inbox_rows d k after = map mg_row page @ rest \<and> remain = (rest \<noteq> [])"
    unfolding rows(1) pq(1) page(2) by blast
  ultimately show ?thesis using pq(3,5) none unfolding rows(2) by simp
qed

theorem page_bounded_witness:
  "\<exists>latest acked remain page. readMessages demo_registry (key ''deepseek'' ''s2'') 0 50 ''session'' = Inr (latest, acked, remain, page)
     \<and> length page \<le> 50"
proof -
  let ?r = "readMessages demo_registry (key ''deepseek'' ''s2'') 0 50 ''session''"
  have "\<not> isl ?r" by code_simp
  then obtain latest acked remain page where r: "?r = Inr (latest, acked, remain, page)" by (cases ?r) auto
  show ?thesis using page_bounded[OF r] r by auto
qed

end
