(* ===== verification/Room_Safety.thy ===== *)
theory Room_Safety
  imports Mail_Runs
begin

text \<open>
  The invariant of rooms over every run of room requests, messages and registry writes: the bounds of
  rooms, rosters, posts and retry records, the unique sequence of a room's posts, and that every
  delivery row of a retained post names its copy in the member's inbox or the reason there is none.
\<close>

section \<open>The room tables\<close>

definition room_same :: "db \<Rightarrow> db \<Rightarrow> bool" where
  "room_same d d' \<longleftrightarrow> room_part d' = room_part d"

lemma room_same_refl [simp]: "room_same d d"
  by (simp add: room_same_def)

lemma room_same_trans: "room_same a b \<Longrightarrow> room_same b c \<Longrightarrow> room_same a c"
  by (simp add: room_same_def)

lemma room_sameI:
  "rooms d' = rooms d \<Longrightarrow> room_members d' = room_members d \<Longrightarrow> room_posts d' = room_posts d \<Longrightarrow> room_post_ids d' = room_post_ids d
    \<Longrightarrow> room_deliveries d' = room_deliveries d \<Longrightarrow> room_replays d' = room_replays d \<Longrightarrow> room_changes d' = room_changes d \<Longrightarrow> room_same d d'"
  by (simp add: room_same_def room_part_def)

lemma room_sameD:
  assumes "room_same d d'"
  shows "rooms d' = rooms d" "room_members d' = room_members d" "room_posts d' = room_posts d" "room_post_ids d' = room_post_ids d"
    "room_deliveries d' = room_deliveries d" "room_replays d' = room_replays d" "room_changes d' = room_changes d"
  using assms by (simp_all add: room_same_def room_part_def)

lemma same_fence: "room_same d (fence now a f i r (retire_active now f i d))"
  by (rule room_sameI) (simp_all add: fence_def retire_active_def Let_def)

lemma same_event: "room_same d (participantEvent now a fo ho r ac de d)"
  by (rule room_sameI) (simp_all add: participantEvent_def)

lemma same_alias: "room_same d (set_alias a g d)"
  by (rule room_sameI) (simp_all add: set_alias_def)

lemma same_reset: "room_same d (reset_inbox now f i d)"
  by (rule room_sameI) (simp_all add: reset_inbox_def Let_def)

lemma same_setHolder:
  assumes "setHolder now a former i reason actor details d = Inr d'"
  shows "room_same d d'"
proof -
  define d1 where "d1 = set_alias a (\<lambda>n. n\<lparr>n_holder_id := i, n_conflict := None\<rparr>) d"
  obtain n where n: "List.find (\<lambda>n. n_name n = a) (names d1) = Some n"
    using assms by (cases "List.find (\<lambda>n. n_name n = a) (names d1)") (simp_all add: setHolder_def Let_def d1_def)
  define d2 where "d2 = (if former \<noteq> [] \<and> former \<noteq> i
    then fence now a (n_family n) former reason (retire_active now (n_family n) former d1) else d1)"
  define d3 where "d3 = (if former \<noteq> i then reset_inbox now (n_family n) (participantKey a) d2 else d2)"
  have "Inr (participantEvent now a (peerOf d3 (n_family n) former) (peerOf d3 (n_family n) i) reason actor details d3) = (Inr d' :: kerror + db)"
    using assms unfolding setHolder_def Let_def d1_def[symmetric] n opt_err.simps rbind_simps d2_def[symmetric] d3_def[symmetric] .
  moreover have "room_same d d1" unfolding d1_def by (rule same_alias)
  moreover have "room_same d1 d2" unfolding d2_def by (simp add: same_fence)
  moreover have "room_same d2 d3" unfolding d3_def by (simp add: same_reset)
  ultimately show ?thesis using same_event room_same_trans by (metis sum.inject(2))
qed

lemma same_conflict: "room_same d (record_conflict x now f a holder conflict peers d)"
proof (cases "conflict = Some peers \<and> holder = []")
  case True
  then show ?thesis by (simp add: record_conflict_def)
next
  case False
  define d1 where "d1 = set_alias a (\<lambda>n. n\<lparr>n_conflict := Some peers, n_holder_id := []\<rparr>) d"
  define d2 where "d2 = (if holder \<noteq> [] then fence now a f holder ''conflict'' (retire_active now f holder d1) else d1)"
  have "room_same d d1" unfolding d1_def by (rule same_alias)
  moreover have "room_same d1 d2" unfolding d2_def by (simp add: same_fence)
  ultimately have "room_same d d2" by (rule room_same_trans)
  then show ?thesis
    unfolding record_conflict_def Let_def if_not_P[OF False] d1_def[symmetric] d2_def[symmetric] by (rule room_same_trans) (rule same_event)
qed

lemma same_fold_event: "room_same d (fold (\<lambda>a. participantEvent now a fo [] r ac []) as d)"
  by (induction as arbitrary: d) (auto intro: room_same_trans[OF same_event])

lemma same_release: "room_same d (releaseAddress now f i r ac d)"
proof (cases "filter (\<lambda>n. n_kind n = ''alias'' \<and> n_family n = f \<and> n_holder_id n = i) (names d) = []")
  case False
  have "room_same d (d\<lparr>names := t\<rparr>)" for t by (rule room_sameI) simp_all
  then show ?thesis unfolding releaseAddress_def Let_def using False by (auto intro: room_same_trans[OF _ same_fold_event])
qed (simp add: releaseAddress_def)

interpretation room_registry: registry_relation room_same
proof
  show "insert_name n d = Inr d' \<Longrightarrow> room_same d d'" for n d d'
    by (auto simp: insert_name_def intro: room_sameI)
  show "room_same d (d\<lparr>sessions := t\<rparr>)" for d t by (rule room_sameI) simp_all
  show "room_same d (upsert_session now dur reg com dir target role h d)" for now dur reg com dir target role h d
    by (rule room_sameI) (simp_all add: upsert_session_def split: option.split)
  show "fenceCyclesTx now reason w d = Inr d' \<Longrightarrow> room_same d d'" for now reason w d d'
    by (drule fenceCyclesTx_frame) (simp add: cycle_frame_def room_same_def)
  show "room_same d (d\<lparr>context_enables := t\<rparr>)" for d t by (rule room_sameI) simp_all
qed (simp_all add: same_setHolder same_conflict same_release same_event, rule room_same_trans)

lemma same_registry_step:
  assumes "registry_step x q now d = Inr d'"
  shows "room_same d d'"
proof (cases q)
  case (ChooseOp address k revision details)
  then obtain former where c: "chooseHolder now address k revision details d = Inr (former, d')" using assms by auto
  have d1: "room_same d (unfenced address k d)" by (rule room_sameI) (simp_all add: unfenced_def)
  obtain n :: nameRow where "d' = unfenced address k d \<or> (\<exists>d2. fenceCyclesTx now ''holder_changed'' (\<lambda>c. c_address c = address) (unfenced address k d) = Inr d2
        \<and> setHolder now address (n_holder_id n) (k_id k) ''maintainer_choice'' ''maintainer'' details d2 = Inr d')"
    using chooseHolder_writes[OF c] by blast
  then show ?thesis
    using d1 room_same_trans[OF d1 room_same_trans[OF room_registry.R_fenceCycles same_setHolder]] by auto
qed (use assms in \<open>auto dest: room_registry.R_Register room_registry.R_Mutate\<close>)


lemma same_ensure: "ensureParticipantInbox now a d = Inr d' \<Longrightarrow> room_same d d'"
  by (auto simp: ensureParticipantInbox_def split: option.splits intro: room_sameI)

lemma same_next_seq: "next_seq now k d = Some (seq, d') \<Longrightarrow> room_same d d'"
  by (auto simp: next_seq_def Let_def intro: room_sameI simp del: find.simps)

lemma same_insert_message: "insert_message g d = Inr d' \<Longrightarrow> room_same d d'"
  by (auto simp: insert_message_def intro: room_sameI)

lemma same_resolve: "resolve_recipient now to d = Inr (k, d') \<Longrightarrow> room_same d d'"
  by (auto simp: resolve_recipient_def split: if_split_asm dest: same_ensure)

lemma same_sendTx:
  assumes "sendTx ps now caller to body dashboard d = Inr (out, d')"
  shows "room_same d d'"
proof -
  obtain k d1 where k: "resolve_recipient now to d = Inr (k, d1)"
    using assms unfolding sendTx_def rbind_Inr_iff by (auto split: prod.splits)
  obtain sender where sender: "sender_name d1 now caller = Inr sender"
    using assms k unfolding sendTx_def rbind_Inr_iff by auto
  obtain seq d2 where n: "next_seq now k d1 = Some (seq, d2)"
    using assms by (cases "next_seq now k d1") (auto simp: sendTx_def k sender)
  obtain g d3 where d3: "insert_message g d2 = Inr d3" "d' = bumpInbox k d3"
    using assms unfolding sendTx_def k rbind_Inr_iff sum.inject by (auto simp: sender n Let_def)
  have "room_same d3 d'" unfolding d3(2) by (rule room_sameI) (simp_all add: bumpInbox_def)
  then show ?thesis using same_resolve[OF k] same_next_seq[OF n] same_insert_message[OF d3(1)] room_same_trans by blast
qed

lemma same_set_acked: "room_same d (set_acked k f acked through h d)"
  by (rule room_sameI) (simp_all add: set_acked_def)

lemma same_message_step:
  assumes "mail_step x q now d = Inr d'" and "\<And>e r. q \<noteq> RoomOp e r"
  shows "room_same d d'"
proof (cases q)
  case (SendOp ps caller to body dashboard)
  then show ?thesis using assms(1) by (auto simp: send_def split: if_split_asm dest: same_sendTx)
next
  case (ReadOp later marked noted caller after pa limit)
  then show ?thesis
    using assms(1) by (auto simp: ReadInboxes_def markRead_def set_read_def noteCycleInboxRead_def Let_def intro!: room_sameI)
next
  case (AckOp caller through dashboard revision origin)
  then obtain n where "ackIf now caller through dashboard revision origin d = Inr (n, d')" using assms(1) by auto
  then show ?thesis
    by (auto simp: ackIf_def bumpInbox_def set_acked_def Let_def split: if_split_asm intro!: room_sameI)
next
  case (AckParticipantOp caller through)
  then obtain a n where r: "AckParticipant now caller through d = Inr (a, n, d')" using assms(1) by auto
  obtain d1 where d1: "ensureParticipantInbox now (heldAddress d now caller) d = Inr d1"
    using r by (auto simp: AckParticipant_def Let_def split: if_split_asm)
  have "d' = d1 \<or> (\<exists>k f acked h. d' = set_acked k f acked through h d1)"
    using r d1 by (auto simp: AckParticipant_def Let_def split: if_split_asm)
  then show ?thesis using same_ensure[OF d1] same_set_acked room_same_trans by blast
next
  case (DeliveryOp i state reason)
  then show ?thesis using assms(1) by (auto simp: SetDelivery_def split: if_split_asm intro!: room_sameI)
next
  case (RegistryOp r)
  then show ?thesis using assms(1) same_registry_step by simp
qed (use assms(2) in blast)

section \<open>The invariant\<close>

definition room_known :: "db \<Rightarrow> string \<Rightarrow> int \<Rightarrow> bool" where
  "room_known d i n \<longleftrightarrow> (\<exists>r\<in>set (rooms d). ro_id r = i \<and> n \<le> ro_post_head r)"

definition rooms_wf :: "db \<Rightarrow> bool" where
  "rooms_wf d \<longleftrightarrow> distinct (map ro_id (rooms d)) \<and> length (rooms d) \<le> maxRooms \<and> (\<forall>r\<in>set (rooms d). 0 \<le> ro_post_head r)"

abbreviation member_place :: "roomMemberRow \<Rightarrow> string \<times> int" where
  "member_place m \<equiv> (rm_room_id m, rm_ordinal m)"

definition roster_wf :: "db \<Rightarrow> bool" where
  "roster_wf d \<longleftrightarrow> distinct (map member_place (room_members d))
     \<and> distinct (map (\<lambda>m. (rm_room_id m, rm_family m, rm_member_id m)) (room_members d))
     \<and> (\<forall>i. length (filter rm_active (room_rows d i)) \<le> maxRoomMembers \<and> length (room_rows d i) \<le> maxRoomMemberRows)
     \<and> (\<forall>m\<in>set (room_members d). 0 \<le> rm_start_seq m \<and> room_known d (rm_room_id m) (rm_start_seq m))"

definition posts_wf :: "db \<Rightarrow> bool" where
  "posts_wf d \<longleftrightarrow> distinct (map po_post_id (room_posts d)) \<and> distinct (map (\<lambda>p. (po_room_id p, po_seq p)) (room_posts d))
     \<and> (\<forall>p\<in>set (room_posts d). po_post_id p \<le> room_post_ids d \<and> 0 < po_seq p \<and> room_known d (po_room_id p) (po_seq p))
     \<and> length (room_posts d) \<le> maxRoomPosts"

text \<open>The copy of a post in the inbox of a member, and what a delivery row of the post says.\<close>

definition copy_of :: "roomPostRow \<Rightarrow> Key \<Rightarrow> int \<Rightarrow> messageRow \<Rightarrow> bool" where
  "copy_of p k i g \<longleftrightarrow> g_id g = i \<and> g_recipient_family g = k_family k \<and> g_recipient_id g = k_id k
     \<and> g_sender_family g = po_sender_family p \<and> g_sender_id g = po_sender_id p \<and> g_sender_name g = po_sender_name p
     \<and> g_body g = po_body p \<and> g_room_id g = po_room_id p \<and> g_room_event g = ''post'' \<and> g_room_seq g = po_seq p
     \<and> g_room_origin g = po_origin p"

definition delivered :: "db \<Rightarrow> roomPostRow \<Rightarrow> roomDeliveryRow \<Rightarrow> bool" where
  "delivered d p r \<longleftrightarrow> (case dl_message_id r of
       None \<Rightarrow> dl_outcome r = ''skipped'' \<and> dl_reason r \<noteq> []
     | Some i \<Rightarrow> dl_outcome r = ''queued'' \<and> dl_reason r = []
         \<and> (\<exists>g\<in>set (messages d). copy_of p (key (dl_family r) (dl_member_id r)) i g))"

definition copies_wf :: "db \<Rightarrow> bool" where
  "copies_wf d \<longleftrightarrow> distinct (map (\<lambda>r. (dl_post_id r, dl_ordinal r)) (room_deliveries d))
     \<and> (\<forall>r\<in>set (room_deliveries d). dl_post_id r \<le> room_post_ids d
          \<and> (\<forall>p\<in>set (room_posts d). dl_post_id r = po_post_id p \<longrightarrow> delivered d p r))"

definition replays_wf :: "db \<Rightarrow> bool" where
  "replays_wf d \<longleftrightarrow> distinct (map (\<lambda>x. (rx_family x, rx_caller_id x, rx_key x)) (room_replays d)) \<and> length (room_replays d) \<le> maxRoomReplays"

definition room_inv :: "db \<Rightarrow> bool" where
  "room_inv d \<longleftrightarrow> mail_inv d \<and> rooms_wf d \<and> roster_wf d \<and> posts_wf d \<and> copies_wf d \<and> replays_wf d"

lemma room_invD:
  assumes "room_inv d"
  shows "mail_inv d" "rooms_wf d" "roster_wf d" "posts_wf d" "copies_wf d" "replays_wf d"
  using assms by (simp_all add: room_inv_def)

section \<open>Writes beside the room tables\<close>

lemma copy_of_letter [simp]: "copy_of p k i (letter g) = copy_of p k i g"
  by (simp add: copy_of_def letter_def)

definition letters_stay :: "db \<Rightarrow> db \<Rightarrow> bool" where
  "letters_stay d d' \<longleftrightarrow> letter ` set (messages d) \<subseteq> letter ` set (messages d')"

lemma letters_stay_same: "messages d' = messages d \<Longrightarrow> letters_stay d d'"
  by (simp add: letters_stay_def)

lemma letters_stay_trans: "letters_stay a b \<Longrightarrow> letters_stay b c \<Longrightarrow> letters_stay a c"
  by (auto simp: letters_stay_def)

lemma mail_le_letters:
  assumes "mail_le d d'" "mail_inv d"
  shows "letters_stay d d'"
proof -
  obtain new where "map letter (messages d') = map letter (messages d) @ new" using assms unfolding mail_le_def by blast
  then have "set (map letter (messages d)) \<subseteq> set (map letter (messages d'))" by simp
  then show ?thesis by (simp add: letters_stay_def)
qed

lemma delivered_stay:
  assumes "delivered d p r" "letters_stay d d'"
  shows "delivered d' p r"
proof (cases "dl_message_id r")
  case (Some i)
  let ?k = "key (dl_family r) (dl_member_id r)"
  obtain g where g: "g \<in> set (messages d)" "copy_of p ?k i g" using assms(1) Some by (auto simp: delivered_def)
  then obtain g' where g': "g' \<in> set (messages d')" "letter g = letter g'" using assms(2) by (auto simp: letters_stay_def)
  have "copy_of p ?k i g'" using g(2) copy_of_letter[of p ?k i g] copy_of_letter[of p ?k i g'] g'(2) by simp
  then show ?thesis using assms(1) Some g'(1) by (auto simp: delivered_def)
qed (use assms(1) in \<open>simp add: delivered_def\<close>)

lemma rooms_wf_cong: "rooms d' = rooms d \<Longrightarrow> rooms_wf d' = rooms_wf d"
  by (simp add: rooms_wf_def)

lemma roster_wf_cong: "rooms d' = rooms d \<Longrightarrow> room_members d' = room_members d \<Longrightarrow> roster_wf d' = roster_wf d"
  by (simp add: roster_wf_def room_rows_def room_known_def)

lemma posts_wf_cong: "rooms d' = rooms d \<Longrightarrow> room_posts d' = room_posts d \<Longrightarrow> room_post_ids d' = room_post_ids d \<Longrightarrow> posts_wf d' = posts_wf d"
  by (simp add: posts_wf_def room_known_def)

lemma replays_wf_cong: "room_replays d' = room_replays d \<Longrightarrow> replays_wf d' = replays_wf d"
  by (simp add: replays_wf_def)

lemma copies_wf_stay:
  assumes "copies_wf d" "room_deliveries d' = room_deliveries d" "room_posts d' = room_posts d" "room_post_ids d' = room_post_ids d"
    "letters_stay d d'"
  shows "copies_wf d'"
  using assms(1) delivered_stay[OF _ assms(5)] unfolding copies_wf_def assms(2-4) by blast

lemma room_inv_same:
  assumes "room_inv d" "room_same d d'" "mail_le d d'"
  shows "room_inv d'"
proof -
  note s = room_sameD[OF assms(2)] and i = room_invD[OF assms(1)]
  have "mail_inv d'" using assms(3) i(1) by (simp add: mail_le_def)
  moreover have "copies_wf d'" using copies_wf_stay[OF i(5) s(5,3,4) mail_le_letters[OF assms(3) i(1)]] .
  ultimately show ?thesis
    using i rooms_wf_cong[OF s(1)] roster_wf_cong[OF s(1,2)] posts_wf_cong[OF s(1,3,4)] replays_wf_cong[OF s(6)] by (simp add: room_inv_def)
qed


end
