(* ===== verification/Room_Ops.thy ===== *)
theory Room_Ops
  imports Room_Safety
begin

text \<open>Every room request keeps the invariant of \<^verbatim>\<open>Room_Safety\<close>.\<close>

section \<open>Room rows\<close>

lemma set_room_sel [simp]:
  "rooms (set_room i f d) = update_where (\<lambda>r. ro_id r = i) f (rooms d)" "room_members (set_room i f d) = room_members d"
  "room_posts (set_room i f d) = room_posts d" "room_post_ids (set_room i f d) = room_post_ids d"
  "room_deliveries (set_room i f d) = room_deliveries d" "room_replays (set_room i f d) = room_replays d"
  "messages (set_room i f d) = messages d" "sessions (set_room i f d) = sessions d" "names (set_room i f d) = names d"
  "message_ids (set_room i f d) = message_ids d"
  by (simp_all add: set_room_def bumpChange_def)

text \<open>The heads of rooms only grow.\<close>

definition heads_stay :: "db \<Rightarrow> db \<Rightarrow> bool" where
  "heads_stay d d' \<longleftrightarrow> (\<forall>i n. room_known d i n \<longrightarrow> room_known d' i n)"

lemma heads_stayD: "heads_stay d d' \<Longrightarrow> room_known d i n \<Longrightarrow> room_known d' i n"
  by (simp add: heads_stay_def)

lemma roster_wf_stay:
  "roster_wf d \<Longrightarrow> heads_stay d d' \<Longrightarrow> room_members d' = room_members d \<Longrightarrow> roster_wf d'"
  unfolding roster_wf_def room_rows_def by (simp add: heads_stayD)

lemma posts_wf_stay:
  "posts_wf d \<Longrightarrow> heads_stay d d' \<Longrightarrow> room_posts d' = room_posts d \<Longrightarrow> room_post_ids d' = room_post_ids d \<Longrightarrow> posts_wf d'"
  unfolding posts_wf_def by (simp add: heads_stayD)

lemma set_room_wf:
  assumes "\<And>r. ro_id (f r) = ro_id r" and up: "\<And>r. r \<in> set (rooms d) \<Longrightarrow> ro_id r = i \<Longrightarrow> ro_post_head r \<le> ro_post_head (f r)"
  shows "heads_stay d (set_room i f d)" and "rooms_wf d \<Longrightarrow> rooms_wf (set_room i f d)"
proof -
  show "heads_stay d (set_room i f d)"
    unfolding heads_stay_def room_known_def set_room_sel
  proof (intro allI impI)
    fix j n assume "\<exists>r\<in>set (rooms d). ro_id r = j \<and> n \<le> ro_post_head r"
    then obtain r where r: "r \<in> set (rooms d)" "ro_id r = j" "n \<le> ro_post_head r" by blast
    let ?r = "if ro_id r = i then f r else r"
    have "?r \<in> set (update_where (\<lambda>r. ro_id r = i) f (rooms d))" unfolding in_update_where using r(1) by blast
    moreover have "ro_id ?r = j" "n \<le> ro_post_head ?r" using r assms(1)[of r] up[OF r(1)] by auto
    ultimately show "\<exists>r\<in>set (update_where (\<lambda>r. ro_id r = i) f (rooms d)). ro_id r = j \<and> n \<le> ro_post_head r" by blast
  qed
  assume wf: "rooms_wf d"
  have "0 \<le> ro_post_head r" if "r \<in> set (update_where (\<lambda>r. ro_id r = i) f (rooms d))" for r
    using that wf up unfolding in_update_where rooms_wf_def by fastforce
  moreover have "map ro_id (update_where (\<lambda>r. ro_id r = i) f (rooms d)) = map ro_id (rooms d)"
    by (rule map_update_where) (rule assms(1))
  ultimately show "rooms_wf (set_room i f d)" using wf by (simp add: rooms_wf_def del: map_update_where)
qed

lemma create_room_inv:
  assumes "create_room e k name d = Inr (i, d')" and inv: "room_inv d"
  shows "room_inv d'"
proof (cases "d' = d")
  case False
  note w = room_invD[OF inv]
  obtain r t where r: "room_ok r (rooms d)" "d' = d\<lparr>rooms := rooms d @ [r], room_changes := t\<rparr>" "length (rooms d) < maxRooms"
    "ro_post_head r = 0"
    using assms(1) False by (auto simp: create_room_def Let_def split: option.splits if_split_asm)
  have h: "heads_stay d d'" by (auto simp: heads_stay_def room_known_def r(2))
  have "rooms_wf d'" using w(2) r by (auto simp: rooms_wf_def room_ok_def distinct_append_fresh fresh_key_def)
  moreover have "roster_wf d'" by (rule roster_wf_stay[OF w(3) h]) (simp add: r(2))
  moreover have "posts_wf d'" by (rule posts_wf_stay[OF w(4) h]) (simp_all add: r(2))
  moreover have "copies_wf d'" by (rule copies_wf_stay[OF w(5)]) (simp_all add: r(2) letters_stay_same)
  moreover have "replays_wf d'" using w(6) by (simp add: replays_wf_def r(2))
  moreover have "mail_inv d'" by (rule mail_grows_inv[OF mail_same_grows[OF create_room_same[OF assms(1)]] w(1)])
  ultimately show ?thesis by (simp add: room_inv_def)
qed (use inv in simp)

section \<open>The roster\<close>

text \<open>An update of at most one row adds at most one to a count.\<close>

lemma update_where_none: "(\<And>x. x \<in> set t \<Longrightarrow> \<not> P x) \<Longrightarrow> update_where P f t = t"
  unfolding update_where_def by (rule map_idI) simp

lemma filter_update_le:
  assumes "distinct (map k t)" and "\<And>x. x \<in> set t \<Longrightarrow> P x \<Longrightarrow> k x = c"
  shows "length (filter Q (update_where P f t)) \<le> Suc (length (filter Q t))"
  using assms
proof (induction t)
  case (Cons x t)
  show ?case
  proof (cases "P x")
    case True
    have "\<not> P y" if "y \<in> set t" for y using Cons.prems that True by (metis image_eqI list.set_intros distinct.simps(2) list.simps(9) list.set_map)
    then have "update_where P f t = t" by (rule update_where_none)
    then show ?thesis using True by (simp add: update_where_Cons)
  next
    case False
    then show ?thesis using Cons by (simp add: update_where_Cons)
  qed
qed (simp add: update_where_def)

lemma filter_update_drop:
  assumes "\<And>x. \<not> Q (f x)"
  shows "length (filter Q (update_where P f t)) \<le> length (filter Q t)"
  by (induction t) (use assms in \<open>auto simp: update_where_def\<close>)

lemma room_row_Inr: "room_row d i = Inr r \<Longrightarrow> r \<in> set (rooms d) \<and> ro_id r = i"
  unfolding room_row_def opt_err_iff by (rule find_Some_mem)

lemma set_member_roster:
  assumes wf: "roster_wf d" and F: "\<And>m. rm_room_id (F m) = rm_room_id m" "\<And>m. rm_ordinal (F m) = rm_ordinal m"
      "\<And>m. rm_family (F m) = rm_family m" "\<And>m. rm_member_id (F m) = rm_member_id m"
    and start: "\<And>m. rm_room_id m = room \<Longrightarrow> room_known d room (rm_start_seq (F m)) \<and> 0 \<le> rm_start_seq (F m) \<or> rm_start_seq (F m) = rm_start_seq m"
    and room: "length (filter rm_active (room_rows d room)) < maxRoomMembers \<or> (\<forall>m. \<not> rm_active (F m))"
  shows "roster_wf (set_member room ordinal F d)"
proof -
  let ?P = "\<lambda>m. rm_room_id m = room \<and> rm_ordinal m = ordinal" and ?d' = "set_member room ordinal F d"
  have t: "room_members ?d' = update_where ?P F (room_members d)" "rooms ?d' = rooms d" by (simp_all add: set_member_def)
  have rows: "room_rows ?d' i = update_where ?P F (room_rows d i)" for i
    unfolding room_rows_def t by (rule filter_update_where) (simp add: F)
  have "map member_place (update_where ?P F (room_members d)) = map member_place (room_members d)"
    "map (\<lambda>m. (rm_room_id m, rm_family m, rm_member_id m)) (update_where ?P F (room_members d))
      = map (\<lambda>m. (rm_room_id m, rm_family m, rm_member_id m)) (room_members d)"
    by (simp_all add: map_update_where F)
  moreover have "length (filter rm_active (room_rows ?d' i)) \<le> maxRoomMembers" for i
  proof (cases "i = room")
    case False
    have "update_where ?P F (room_rows d i) = room_rows d i" by (rule update_where_none) (use False in \<open>simp add: room_rows_def\<close>)
    then show ?thesis unfolding rows using wf by (simp add: roster_wf_def)
  next
    case True
    have d: "distinct (map member_place (room_rows d room))" unfolding room_rows_def by (rule distinct_map_filter) (use wf in \<open>simp add: roster_wf_def\<close>)
    have le: "length (filter rm_active (update_where ?P F (room_rows d room))) \<le> Suc (length (filter rm_active (room_rows d room)))"
      by (rule filter_update_le[OF d]) simp
    have "length (filter rm_active (update_where ?P F (room_rows d room))) \<le> length (filter rm_active (room_rows d room))"
      if "\<forall>m. \<not> rm_active (F m)" by (rule filter_update_drop) (use that in blast)
    moreover have "length (filter rm_active (room_rows d room)) \<le> maxRoomMembers" using wf by (simp add: roster_wf_def)
    ultimately show ?thesis unfolding rows True using room le by (meson le_trans less_eq_Suc_le)
  qed
  moreover have "0 \<le> rm_start_seq m \<and> room_known ?d' (rm_room_id m) (rm_start_seq m)" if m: "m \<in> set (room_members ?d')" for m
  proof -
    obtain q where q: "q \<in> set (room_members d)" "m = (if ?P q then F q else q)" using m unfolding t in_update_where by blast
    have "room_known ?d' = room_known d" by (simp add: room_known_def t fun_eq_iff)
    then show ?thesis using q wf start[of q] F(1)[of q] unfolding roster_wf_def by (cases "?P q") auto
  qed
  ultimately show ?thesis using wf rows unfolding roster_wf_def t by simp
qed

lemma place_member_inv:
  assumes r: "place_member e r member lab revision (member_row d (ro_id r) member) d = Inr d'" and inv: "room_inv d"
    and known: "room_known d (ro_id r) (ro_post_head r)" "0 \<le> ro_post_head r"
    and active_rows: "length (filter rm_active (room_rows d (ro_id r))) < maxRoomMembers"
    and all_rows: "member_row d (ro_id r) member = None \<Longrightarrow> length (room_rows d (ro_id r)) < maxRoomMemberRows"
  shows "room_inv d'"
proof -
  note w = room_invD[OF inv]
  have roster: "roster_wf d' \<and> rooms d' = rooms d \<and> room_posts d' = room_posts d \<and> room_post_ids d' = room_post_ids d
    \<and> room_deliveries d' = room_deliveries d \<and> room_replays d' = room_replays d \<and> messages d' = messages d"
  proof (cases "member_row d (ro_id r) member")
    case None
    define m where "m = \<lparr>rm_room_id = ro_id r, rm_ordinal = fold max (map rm_ordinal (room_rows d (ro_id r))) 0 + 1, rm_family = k_family member,
      rm_member_id = k_id member, rm_label = lab, rm_active = True, rm_revision = revision, rm_start_seq = ro_post_head r, rm_changed_at = rv_now e\<rparr>"
    have m: "member_ok m (room_members d)" "d' = d\<lparr>room_members := room_members d @ [m]\<rparr>"
      using r by (auto simp: place_member_def None m_def)
    have f: "rm_room_id m = ro_id r" "rm_start_seq m = ro_post_head r" by (simp_all add: m_def)
    have rows: "room_rows d' i = room_rows d i @ (if i = ro_id r then [m] else [])" for i by (simp add: room_rows_def m(2) f)
    have "room_known d' = room_known d" by (simp add: room_known_def m(2) fun_eq_iff)
    then have "roster_wf d'"
      using w(3) m(1) known f active_rows all_rows[OF None] unfolding roster_wf_def rows member_ok_def
      by (auto simp: m(2) distinct_append_fresh fresh_key_def)
    then show ?thesis by (simp add: m(2))
  next
    case (Some m)
    define F where "F = (\<lambda>m :: roomMemberRow. m\<lparr>rm_active := True, rm_revision := revision, rm_start_seq := ro_post_head r, rm_label := lab, rm_changed_at := rv_now e\<rparr>)"
    have d': "d' = set_member (ro_id r) (rm_ordinal m) F d" using r by (simp add: place_member_def Some F_def)
    have "roster_wf d'" unfolding d' by (rule set_member_roster[OF w(3)]) (use known active_rows in \<open>simp_all add: F_def\<close>)
    then show ?thesis by (simp add: d' set_member_def)
  qed
  then have "posts_wf d'" "copies_wf d'" "rooms_wf d'" "replays_wf d'"
    using posts_wf_cong w(4) copies_wf_stay[OF w(5)] letters_stay_same rooms_wf_cong w(2) replays_wf_cong w(6) by metis+
  moreover have "mail_inv d'" by (rule mail_grows_inv[OF mail_same_grows[OF place_member_same[OF r]] w(1)])
  ultimately show ?thesis using roster by (simp add: room_inv_def)
qed

lemma set_room_inv:
  assumes inv: "room_inv d" and "\<And>r. ro_id (f r) = ro_id r" "\<And>r. ro_post_head (f r) = ro_post_head r"
  shows "room_inv (set_room i f d)"
proof -
  note w = room_invD[OF inv]
  have h: "heads_stay d (set_room i f d)" by (rule set_room_wf(1)) (simp_all add: assms(2,3))
  have "rooms_wf (set_room i f d)" by (rule set_room_wf(2)[OF _ _ w(2)]) (simp_all add: assms(2,3))
  moreover have "copies_wf (set_room i f d)" by (rule copies_wf_stay[OF w(5)]) (simp_all add: letters_stay_same)
  moreover have "mail_inv (set_room i f d)" by (rule mail_grows_inv[OF mail_same_grows w(1)]) simp
  ultimately show ?thesis
    using roster_wf_stay[OF w(3) h] posts_wf_stay[OF w(4) h] replays_wf_cong[of "set_room i f d" d] w(6) by (simp add: room_inv_def)
qed

lemma same_room_copy: "room_copy now k f d = Inr (i, d') \<Longrightarrow> room_same d d'"
  unfolding room_copy_def Let_def
  by (auto split: option.splits dest!: same_next_seq same_insert_message intro: room_same_trans)

lemma same_member_inbox: "member_inbox now k d = Inr d' \<Longrightarrow> room_same d d'"
  by (auto simp: member_inbox_def split: if_split_asm dest: same_ensure)

lemma roomNotice_inv:
  assumes r: "roomNotice e r k revision ev d = Inr d'" and inv: "room_inv d"
  shows "room_inv d'"
proof (rule room_inv_same[OF inv])
  show "room_same d d'"
    using r unfolding roomNotice_def
    by (auto split: if_split_asm dest!: same_member_inbox same_room_copy intro: room_same_trans)
  show "mail_le d d'" by (rule mail_grows_le[OF roomNotice_grows[OF r room_invD(1)[OF inv]]])
qed

lemma add_member_inv:
  assumes "add_member e room peer d = Inr (b, d')" and inv: "room_inv d"
  shows "room_inv d'"
proof -
  obtain r member lab where m: "room_row d room = Inr r" "room_member_of d (rv_now e) peer = Inr (member, lab)"
    using assms(1) unfolding add_member_def rbind_Inr_iff by (auto split: prod.splits)
  let ?f = "\<lambda>q :: roomRow. q\<lparr>ro_revision := ro_revision r + 1\<rparr>"
  let ?d0 = "set_room room ?f d"
  note row = room_row_Inr[OF m(1)]
  have rows: "room_rows ?d0 = room_rows d" "member_row ?d0 = member_row d" by (simp_all add: room_rows_def member_row_def fun_eq_iff)
  show ?thesis
  proof (cases "d' = d")
    case False
    obtain d1 where d1: "place_member e r member lab (ro_revision r + 1) (member_row d room member) ?d0 = Inr d1"
      "roomNotice e r member (ro_revision r + 1) ''added'' d1 = Inr d'"
      "length (filter rm_active (room_rows d room)) < maxRoomMembers"
      "\<not> (member_row d room member = None \<and> length (room_rows d room) \<ge> maxRoomMemberRows)"
      using assms(1) False unfolding add_member_def m rbind_simps prod.case Let_def by (auto split: if_split_asm)
    have inv0: "room_inv ?d0" by (rule set_room_inv[OF inv]) simp_all
    have "room_known d room (ro_post_head r)" using row by (auto simp: room_known_def)
    then have known: "room_known ?d0 (ro_id r) (ro_post_head r)" using set_room_wf(1)[of ?f d room] row by (auto simp: heads_stay_def)
    have "0 \<le> ro_post_head r" using row room_invD(2)[OF inv] by (simp add: rooms_wf_def)
    then have "room_inv d1"
      using place_member_inv[of e r member lab "ro_revision r + 1" ?d0 d1] d1 row inv0 known rows by auto
    then show ?thesis by (rule roomNotice_inv[OF d1(2)])
  qed (use inv in simp)
qed

lemma remove_member_inv:
  assumes "remove_member e room ordinal d = Inr (u, d')" and inv: "room_inv d"
  shows "room_inv d'"
proof -
  obtain r k where n: "roomNotice e r k (ro_revision r + 1) ''removed''
      (set_member room ordinal (\<lambda>m. m\<lparr>rm_active := False, rm_revision := ro_revision r + 1, rm_changed_at := rv_now e\<rparr>)
        (set_room room (\<lambda>q. q\<lparr>ro_revision := ro_revision r + 1\<rparr>) d)) = Inr d'" (is "roomNotice _ _ _ _ _ (set_member _ _ ?F ?d0) = _")
    using assms(1) unfolding remove_member_def Let_def by auto
  have inv0: "room_inv ?d0" by (rule set_room_inv[OF inv]) simp_all
  note w = room_invD[OF inv0]
  let ?d1 = "set_member room ordinal ?F ?d0"
  have t: "rooms ?d1 = rooms ?d0" "room_posts ?d1 = room_posts ?d0" "room_post_ids ?d1 = room_post_ids ?d0"
    "room_deliveries ?d1 = room_deliveries ?d0" "room_replays ?d1 = room_replays ?d0" "messages ?d1 = messages ?d0"
    by (simp_all add: set_member_def)
  have "roster_wf ?d1" by (rule set_member_roster[OF w(3)]) simp_all
  moreover have "mail_inv ?d1" by (rule mail_grows_inv[OF mail_same_grows w(1)]) simp
  moreover have "copies_wf ?d1" by (rule copies_wf_stay[OF w(5) t(4,2,3) letters_stay_same[OF t(6)]])
  ultimately have "room_inv ?d1"
    using rooms_wf_cong[OF t(1)] posts_wf_cong[OF t(1-3)] replays_wf_cong[OF t(5)] w unfolding room_inv_def by blast
  then show ?thesis by (rule roomNotice_inv[OF n])
qed


section \<open>Posts\<close>

lemma participantState_nonempty: "participantState d now a \<noteq> []"
  by (simp add: participantState_def split: option.splits)

lemma post_message_copy: "copy_of p k i (post_message now k p i seq)"
  by (simp add: copy_of_def post_message_def plain_message_def)

text \<open>One recipient: it got its copy, or a reason is given.\<close>

lemma deliver_post_Inr:
  assumes "deliver_post now p m d = Inr (reason, i, d')"
  shows "room_same d d' \<and> delivered d' p (delivery_row p m reason i)"
proof -
  let ?k = "key (rm_family m) (rm_member_id m)"
  consider (skip) "reason \<noteq> []" "i = None" "d' = d"
    | (given) d1 j where "member_inbox now ?k d = Inr d1" "room_copy now ?k (post_message now ?k p) d1 = Inr (j, d')"
        "if j = None then reason = ''inactive'' \<and> i = None else reason = [] \<and> i = j"
    using assms participantState_nonempty unfolding deliver_post_def Let_def
    by (auto split: if_split_asm)
  then show ?thesis
  proof cases
    case given
    have same: "room_same d d'" using room_same_trans[OF same_member_inbox[OF given(1)] same_room_copy[OF given(2)]] .
    show ?thesis
    proof (cases j)
      case (Some n)
      obtain g where "g \<in> set (messages d')" "copy_of p ?k n g"
        using given(2) Some post_message_copy
        by (fastforce simp: room_copy_def Let_def insert_message_def split: option.splits)
      then show ?thesis using same given(3) Some by (auto simp: delivered_def delivery_row_def)
    qed (use same given(3) in \<open>simp add: delivered_def delivery_row_def\<close>)
  qed (simp add: delivered_def delivery_row_def)
qed

lemma delivery_row_place:
  "dl_post_id (delivery_row p m reason i) = po_post_id p" "dl_ordinal (delivery_row p m reason i) = rm_ordinal m"
  "dl_family (delivery_row p m reason i) = rm_family m" "dl_member_id (delivery_row p m reason i) = rm_member_id m"
  "dl_label (delivery_row p m reason i) = rm_label m" "dl_outcome (delivery_row p m reason i) = ''queued'' \<longleftrightarrow> reason = []"
  by (simp_all add: delivery_row_def)

abbreviation queued :: "roomDeliveryRow \<Rightarrow> bool" where
  "queued r \<equiv> dl_outcome r = ''queued''"

definition delivery_to :: "roomPostRow \<Rightarrow> roomMemberRow \<Rightarrow> int \<times> int \<times> string \<times> string \<times> string" where
  "delivery_to p m = (po_post_id p, rm_ordinal m, rm_family m, rm_member_id m, rm_label m)"

definition recipient_of :: "roomDeliveryRow \<Rightarrow> int \<times> int \<times> string \<times> string \<times> string" where
  "recipient_of r = (dl_post_id r, dl_ordinal r, dl_family r, dl_member_id r, dl_label r)"

text \<open>The tables that a fan-out leaves alone.\<close>

definition beside_deliveries :: "db \<Rightarrow> _" where
  "beside_deliveries d = (rooms d, room_members d, room_posts d, room_post_ids d, room_replays d, room_changes d)"

lemma fan_out_Inr:
  assumes "fan_out now p ms r d = Inr (r', d')" and "mail_inv d"
  shows "\<exists>rows. room_deliveries d' = room_deliveries d @ rows \<and> map recipient_of rows = map (delivery_to p) ms
    \<and> (\<forall>x\<in>set rows. delivered d' p x) \<and> beside_deliveries d' = beside_deliveries d
    \<and> pr_queued r' = pr_queued r + int (length (filter queued rows))
    \<and> pr_skipped r' = pr_skipped r + int (length (filter (\<lambda>x. \<not> queued x) rows))
    \<and> pr_room_id r' = pr_room_id r \<and> pr_seq r' = pr_seq r \<and> pr_duplicate r' = pr_duplicate r
    \<and> (distinct (map (\<lambda>r. (dl_post_id r, dl_ordinal r)) (room_deliveries d))
        \<longrightarrow> distinct (map (\<lambda>r. (dl_post_id r, dl_ordinal r)) (room_deliveries d')))"
  using assms
proof (induction ms arbitrary: r d)
  case (Cons m ms)
  obtain reason i d1 where d1: "deliver_post now p m d = Inr (reason, i, d1)"
    "delivery_ok (delivery_row p m reason i) (room_deliveries d1)"
    "fan_out now p ms (count_delivery reason r) (d1\<lparr>room_deliveries := room_deliveries d1 @ [delivery_row p m reason i]\<rparr>) = Inr (r', d')"
    (is "fan_out _ _ _ _ ?d2 = _")
    using Cons.prems(1) by auto
  let ?row = "delivery_row p m reason i"
  note s = deliver_post_Inr[OF d1(1)]
  have g: "mail_grows d ?d2"
    by (rule grows_trans[OF deliver_post_grows[OF d1(1) Cons.prems(2)]]) (rule mail_same_grows, simp)
  note inv2 = mail_grows_inv[OF g Cons.prems(2)]
  obtain rows where rows: "room_deliveries d' = room_deliveries ?d2 @ rows" "map recipient_of rows = map (delivery_to p) ms"
    "\<forall>x\<in>set rows. delivered d' p x" "beside_deliveries d' = beside_deliveries ?d2"
    "pr_queued r' = pr_queued (count_delivery reason r) + int (length (filter queued rows))"
    "pr_skipped r' = pr_skipped (count_delivery reason r) + int (length (filter (\<lambda>x. \<not> queued x) rows))"
    "pr_room_id r' = pr_room_id (count_delivery reason r)" "pr_seq r' = pr_seq (count_delivery reason r)"
    "pr_duplicate r' = pr_duplicate (count_delivery reason r)"
    "distinct (map (\<lambda>r. (dl_post_id r, dl_ordinal r)) (room_deliveries ?d2))
        \<longrightarrow> distinct (map (\<lambda>r. (dl_post_id r, dl_ordinal r)) (room_deliveries d'))"
    using Cons.IH[OF d1(3) inv2] by blast
  have same: "room_deliveries d1 = room_deliveries d" "beside_deliveries ?d2 = beside_deliveries d"
    using room_sameD[OF conjunct1[OF s]] by (simp_all add: beside_deliveries_def)
  have stay: "letters_stay d1 d'"
    using mail_le_letters[OF mail_grows_le[OF fan_out_grows[OF d1(3) inv2]] inv2] letters_stay_trans[OF letters_stay_same[of ?d2 d1]] by simp
  have "distinct (map (\<lambda>r. (dl_post_id r, dl_ordinal r)) (room_deliveries d))
      \<longrightarrow> distinct (map (\<lambda>r. (dl_post_id r, dl_ordinal r)) (room_deliveries d'))"
    using rows(10) d1(2) same(1) by (simp add: distinct_append_fresh delivery_ok_def fresh_key_def image_iff) metis
  moreover have "delivered d' p ?row" by (rule delivered_stay[OF conjunct2[OF s] stay])
  moreover have "recipient_of ?row = delivery_to p m" by (simp add: recipient_of_def delivery_to_def delivery_row_def)
  ultimately show ?case
    using rows(1-9) same
    by (intro exI[of _ "?row # rows"]) (auto simp: delivery_row_place(6) count_delivery_def)
qed simp

text \<open>Everything that an accepted post writes.\<close>

lemma record_post_writes:
  assumes r: "record_post e caller maintainer room body k deadline print senders d = Inr (receipt, d')" and inv: "room_inv d"
  obtains q sender p rows where "room_row d room = Inr q" "p = new_post e caller maintainer sender q body d"
    "room_posts d' = room_posts d @ [p]" "room_deliveries d' = room_deliveries d @ rows"
    "map recipient_of rows = map (delivery_to p) (post_members d room senders)" "\<forall>x\<in>set rows. delivered d' p x"
    "receipt = \<lparr>pr_room_id = room, pr_seq = po_seq p, pr_queued = int (length (filter queued rows)),
       pr_skipped = int (length (filter (\<lambda>x. \<not> queued x) rows)), pr_duplicate = False\<rparr>"
    "room_replays d' = room_replays d @ [replay_row_of caller k print deadline receipt]"
    "room_inv d'"
proof -
  note w = room_invD[OF inv]
  obtain q sender p d1 d2 where q: "room_row d room = Inr q" "p = new_post e caller maintainer sender q body d"
    and st: "store_post p d = Inr d1" and room: "length (room_posts d) < maxRoomPosts" "length (room_replays d) < maxRoomReplays"
    and f: "fanOut (rv_now e) p senders (fresh_receipt room p) d1 = Inr (receipt, d2)"
    and rp: "room_replay_ok (replay_row_of caller k print deadline receipt) (room_replays d2)"
    and d': "d' = d2\<lparr>room_replays := room_replays d2 @ [replay_row_of caller k print deadline receipt]\<rparr>"
    by (rule record_post_Inr[OF r])
  note row = room_row_Inr[OF q(1)]
  have p: "po_room_id p = room" "po_seq p = ro_post_head q + 1" "po_post_id p = room_post_ids d + 1"
    using row by (simp_all add: q(2) new_post_def)
  let ?f = "\<lambda>r :: roomRow. r\<lparr>ro_post_head := po_seq p\<rparr>"
  let ?d0 = "set_room room ?f d"
  have d1: "d1 = ?d0\<lparr>room_posts := room_posts d @ [p], room_post_ids := po_post_id p\<rparr>" "post_ok p (room_posts d)"
    using st by (auto simp: store_post_def Let_def p(1))
  have inv1: "mail_inv d1" by (rule mail_grows_inv[OF mail_same_grows[OF store_post_same[OF st]] w(1)])
  have heads: "ro_post_head t \<le> ro_post_head (?f t)" if "t \<in> set (rooms d)" "ro_id t = room" for t
  proof -
    have "t = q" using that row w(2) distinct_key_eq[of ro_id "rooms d" t q] by (simp add: rooms_wf_def)
    then show ?thesis by (simp add: p(2))
  qed
  have stay0: "heads_stay d ?d0" by (rule set_room_wf(1)) (use heads in simp_all)
  have wf0: "rooms_wf ?d0" by (rule set_room_wf(2)[OF _ _ w(2)]) (use heads in simp_all)
  have members: "post_members d1 room senders = post_members d room senders" by (simp add: post_members_def room_rows_def d1(1))
  obtain rows where rows: "room_deliveries d2 = room_deliveries d1 @ rows"
    "map recipient_of rows = map (delivery_to p) (post_members d room senders)" "\<forall>x\<in>set rows. delivered d2 p x"
    "beside_deliveries d2 = beside_deliveries d1" "pr_queued receipt = int (length (filter queued rows))"
    "pr_skipped receipt = int (length (filter (\<lambda>x. \<not> queued x) rows))" "pr_room_id receipt = room" "pr_seq receipt = po_seq p"
    "pr_duplicate receipt = False"
    "distinct (map (\<lambda>r. (dl_post_id r, dl_ordinal r)) (room_deliveries d1))
        \<longrightarrow> distinct (map (\<lambda>r. (dl_post_id r, dl_ordinal r)) (room_deliveries d2))"
    using fan_out_Inr[OF f[unfolded fanOut_def p(1) members] inv1] by (auto simp: fresh_receipt_def)
  have t: "rooms d' = rooms ?d0" "room_members d' = room_members d" "room_posts d' = room_posts d @ [p]"
    "room_post_ids d' = po_post_id p" "room_deliveries d' = room_deliveries d @ rows"
    "room_replays d' = room_replays d @ [replay_row_of caller k print deadline receipt]" "messages d' = messages d2"
    using rows(1,4) by (simp_all add: d' beside_deliveries_def d1(1))
  have known: "heads_stay d d'" using stay0 t(1) by (simp add: heads_stay_def room_known_def)
  have new_known: "room_known d' room (po_seq p)"
    unfolding room_known_def t(1) set_room_sel using row by (intro bexI[of _ "?f q"]) (auto simp: in_update_where)
  have new: "delivered d' p x" if "x \<in> set rows" for x
    by (rule delivered_stay[OF bspec[OF rows(3) that] letters_stay_same]) (simp add: t(7))
  have "letters_stay d d'"
    by (rule mail_le_letters[OF mail_grows_le[OF record_post_grows[OF r w(1)]] w(1)])
  note old = delivered_stay[OF _ this]
  have ids: "dl_post_id x = po_post_id p" if "x \<in> set rows" for x
  proof -
    have "recipient_of x \<in> set (map (delivery_to p) (post_members d room senders))" using that rows(2) by (metis image_eqI set_map)
    then show ?thesis by (auto simp: recipient_of_def delivery_to_def)
  qed
  have "rooms_wf d'" using wf0 by (simp add: rooms_wf_def t(1) del: set_room_sel)
  moreover have "roster_wf d'" by (rule roster_wf_stay[OF w(3) known t(2)])
  moreover have "posts_wf d'"
    using w(4) d1(2) room(1) known new_known p unfolding posts_wf_def t post_ok_def heads_stay_def
    by (auto simp: distinct_append_fresh fresh_key_def)
  moreover have "copies_wf d'"
  proof -
    have "delivered d' a x" if a: "a \<in> set (room_posts d')" and x: "x \<in> set (room_deliveries d')" and eq: "dl_post_id x = po_post_id a" for a x
    proof (cases "x \<in> set rows")
      case True
      have "a = p"
      proof (rule ccontr)
        assume "a \<noteq> p"
        then have "a \<in> set (room_posts d)" using a t(3) by simp
        then have "po_post_id a \<le> room_post_ids d" using w(4) by (simp add: posts_wf_def)
        then show False using ids[OF True] eq p(3) by simp
      qed
      then show ?thesis using new[OF True] by simp
    next
      case False
      then have x': "x \<in> set (room_deliveries d)" using x t(5) by simp
      then have "dl_post_id x \<le> room_post_ids d" using w(5) by (simp add: copies_wf_def)
      then have "a \<in> set (room_posts d)" using a t(3) eq p(3) by auto
      then show ?thesis using old x' eq w(5) by (simp add: copies_wf_def)
    qed
    moreover have "dl_post_id x \<le> room_post_ids d'" if "x \<in> set (room_deliveries d')" for x
      using that ids w(5) unfolding copies_wf_def t p(3) by fastforce
    moreover have "distinct (map (\<lambda>r. (dl_post_id r, dl_ordinal r)) (room_deliveries d'))"
      using rows(1,10) w(5) by (simp add: copies_wf_def t(5) d1(1))
    ultimately show ?thesis by (simp add: copies_wf_def)
  qed
  moreover have "replays_wf d'"
    using w(6) rp room(2) rows(4) unfolding replays_wf_def t(6) room_replay_ok_def
    by (auto simp: fresh_key_def beside_deliveries_def d1(1))
  moreover have "mail_inv d'" by (rule mail_grows_inv[OF record_post_grows[OF r w(1)] w(1)])
  ultimately have "room_inv d'" by (simp add: room_inv_def)
  moreover have "receipt = \<lparr>pr_room_id = room, pr_seq = po_seq p, pr_queued = int (length (filter queued rows)),
       pr_skipped = int (length (filter (\<lambda>x. \<not> queued x) rows)), pr_duplicate = False\<rparr>"
    using rows(5-9) by (cases receipt) simp
  ultimately show thesis using new by (intro that[OF q t(3,5) rows(2) _ _ t(6)]) simp_all
qed

section \<open>Retention\<close>

lemma fold_bump_sel [simp]:
  "rooms (fold bumpChange ts d) = rooms d" "room_members (fold bumpChange ts d) = room_members d"
  "room_posts (fold bumpChange ts d) = room_posts d" "room_post_ids (fold bumpChange ts d) = room_post_ids d"
  "room_deliveries (fold bumpChange ts d) = room_deliveries d" "room_replays (fold bumpChange ts d) = room_replays d"
  "messages (fold bumpChange ts d) = messages d"
  by (induction ts arbitrary: d) (simp_all add: bumpChange_def)

lemma cull_batch_inv:
  assumes r: "cull_batch cutoff n d = Inr (k, d')" and inv: "room_inv d"
  shows "room_inv d'"
proof -
  note w = room_invD[OF inv]
  define gone where "gone = set (map po_post_id (culled_posts cutoff n d))"
  have t: "rooms d' = rooms d" "room_members d' = room_members d" "room_posts d' = filter (\<lambda>p. po_post_id p \<notin> gone) (room_posts d)"
    "room_post_ids d' = room_post_ids d" "room_deliveries d' = filter (\<lambda>r. dl_post_id r \<notin> gone) (room_deliveries d)"
    "room_replays d' = room_replays d" "messages d' = messages d"
    using r by (auto simp: cull_batch_def Let_def gone_def)
  have "room_known d' = room_known d" by (simp add: room_known_def t(1) fun_eq_iff)
  then have "posts_wf d'"
    using w(4) unfolding posts_wf_def t(3,4)
    by (auto simp: distinct_map_filter intro: le_trans[OF length_filter_le])
  moreover have "delivered d' p x" if "delivered d p x" for p x using that t(7) by (simp add: delivered_def split: option.splits)
  then have "copies_wf d'" using w(5) unfolding copies_wf_def t(3-5) by (simp add: distinct_map_filter)
  moreover have "mail_inv d'" by (rule mail_grows_inv[OF mail_same_grows[OF cull_batch_same[OF r]] w(1)])
  ultimately show ?thesis
    using w rooms_wf_cong[OF t(1)] roster_wf_cong[OF t(1,2)] replays_wf_cong[OF t(6)] by (simp add: room_inv_def)
qed

lemma cull_replays_inv:
  assumes r: "cull_replays now d = Inr (u, d')" and inv: "room_inv d"
  shows "room_inv d'"
proof -
  note w = room_invD[OF inv]
  obtain P where d': "d' = d\<lparr>room_replays := filter P (room_replays d)\<rparr>" using r by (auto simp: cull_replays_def Let_def)
  have "replays_wf d'" using w(6) by (auto simp: replays_wf_def d' distinct_map_filter intro: le_trans[OF length_filter_le])
  moreover have "mail_inv d'" unfolding d' by (rule mail_grows_inv[OF mail_same_grows w(1)]) simp
  moreover have "copies_wf d'" by (rule copies_wf_stay[OF w(5)]) (simp_all add: d' letters_stay_same)
  ultimately show ?thesis
    using w rooms_wf_cong[of d' d] roster_wf_cong[of d' d] posts_wf_cong[of d' d] by (simp add: room_inv_def d')
qed

section \<open>Runs\<close>

text \<open>What every transaction of a room request keeps, the request keeps.\<close>

lemma room_step_kept:
  assumes st: "room_step e q d = Inr d'" and P: "P d"
    and create: "\<And>k name i d1. create_room e k name d = Inr (i, d1) \<Longrightarrow> P d1"
    and add: "\<And>room peer b d1. add_member e room peer d = Inr (b, d1) \<Longrightarrow> P d1"
    and remove: "\<And>room n u d1. remove_member e room n d = Inr (u, d1) \<Longrightarrow> P d1"
    and post: "\<And>caller m room body k t print y d1. post_body e caller m room body k t print d = Inr (y, d1) \<Longrightarrow> P d1"
    and batch: "\<And>n k d0 d1. P d0 \<Longrightarrow> cull_batch (cull_cutoff e) n d0 = Inr (k, d1) \<Longrightarrow> P d1"
    and replays: "\<And>b u d0 d1. q = CullOp b \<Longrightarrow> P d0 \<Longrightarrow> cull_replays (rv_clock e) d0 = Inr (u, d1) \<Longrightarrow> P d1"
  shows "P d'"
proof (cases q)
  case (CreateRoomOp k name)
  then have "(\<exists>y. write_tx (rv_wenv e) None ordinary (create_room e k name) d = (y, d')) \<or> d' = d"
    using st by (cases "CreateRoom e k name d") (auto simp: changed_def CreateRoom_def split: if_split_asm)
  then show ?thesis using P create by (auto elim: write_tx_keeps[where P = P])
next
  case (AddMemberOp room peer)
  then have "(\<exists>y. write_tx (rv_wenv e) None ordinary (add_member e room peer) d = (y, d')) \<or> d' = d"
    using st by (cases "AddRoomMember e room peer d") (auto simp: changed_def AddRoomMember_def split: if_split_asm)
  then show ?thesis using P add by (auto elim: write_tx_keeps[where P = P])
next
  case (RemoveMemberOp room ordinal)
  then have "(\<exists>y. write_tx (rv_wenv e) None ordinary (remove_member e room ordinal) d = (y, d')) \<or> d' = d"
    using st by (cases "RemoveRoomMember e room ordinal d") (auto simp: changed_def RemoveRoomMember_def split: if_split_asm)
  then show ?thesis using P remove by (auto elim: write_tx_keeps[where P = P])
next
  case (PostOp caller maintainer room body k deadline)
  then obtain y c where "roomPost e c maintainer room body k deadline d = (y, d')"
    using st by (auto simp: changed_def DashboardRoomPost_def RoomPost_def prod_eq_iff split: if_split_asm)
  then have "(\<exists>print y. write_tx (rv_wenv e) None ordinary (post_body e c maintainer room body k deadline print) d = (y, d')) \<or> d' = d"
    unfolding roomPost_def Let_def by (auto split: sum.splits prod.splits option.splits)
  then show ?thesis using P post by (auto elim: write_tx_keeps[where P = P])
next
  case (CullOp budget)
  then obtain y where "cullRoomPosts e budget d = (y, d')" using st by (auto simp: changed_def prod_eq_iff)
  then show ?thesis using P batch replays[OF CullOp] by (rule cullRoomPosts_kept)
qed

lemma post_body_inv: "post_body e caller maintainer room body k deadline print d = Inr (r, d') \<Longrightarrow> room_inv d \<Longrightarrow> room_inv d'"
  unfolding post_body_def rbind_Inr_iff by (auto split: prod.splits option.splits elim!: record_post_writes)

lemma room_step_inv:
  assumes "room_step e q d = Inr d'" and inv: "room_inv d"
  shows "room_inv d'"
  by (rule room_step_kept[where P = room_inv, OF assms])
    (auto intro: create_room_inv[OF _ inv] add_member_inv[OF _ inv] remove_member_inv[OF _ inv] post_body_inv[OF _ inv]
      cull_batch_inv cull_replays_inv)

lemma mail_step_room_inv:
  assumes "mail_step x q now d = Inr d'" and inv: "room_inv d"
  shows "room_inv d'"
proof (cases "\<exists>e r. q = RoomOp e r")
  case True
  then show ?thesis using assms room_step_inv by auto
next
  case False
  then show ?thesis using room_inv_same[OF inv same_message_step[OF assms(1)] mail_step_le[OF assms(1)]] by blast
qed

interpretation rooming: guarded_machine "mail_step x" room_inv "\<lambda>_. True" for x
  by unfold_locales (rule mail_step_room_inv)

end
