(* ===== verification/Room_Runs.thy ===== *)
theory Room_Runs
  imports Room_Ops
begin

text \<open>
  The properties of rooms: what an accepted post writes and that it stays delivered, the replay of a
  keyed post, and transcripts that account for every sequence of a room.
\<close>

section \<open>Replays\<close>

definition post_key :: "roomReplayRow \<Rightarrow> string \<times> string \<times> string" where
  "post_key x = (rx_family x, rx_caller_id x, rx_key x)"

lemma replay_of_key_mem:
  assumes "room_inv d" "x \<in> set (room_replays d)" "post_key x = (k_family c, k_id c, k)"
  shows "replay_of_key d c k = Some x"
proof -
  have "distinct (map post_key (room_replays d))" using room_invD(6)[OF assms(1)] by (simp add: replays_wf_def post_key_def[abs_def])
  moreover have "(\<lambda>x. rx_family x = k_family c \<and> rx_caller_id x = k_id c \<and> rx_key x = k) = (\<lambda>y. post_key y = post_key x)"
    using assms(3) by (auto simp: post_key_def fun_eq_iff)
  ultimately show ?thesis unfolding replay_of_key_def using assms(2) find_key_unique[of post_key "room_replays d" x] by simp
qed

text \<open>The memberships that a post is checked against and that its fan-out leaves out.\<close>

definition poster_keys :: "db \<Rightarrow> int \<Rightarrow> Key \<Rightarrow> bool \<Rightarrow> string \<Rightarrow> kerror + Key list" where
  "poster_keys d now c maintainer room =
     (if maintainer then Inr []
      else rbind (activeCaller d now c False) (\<lambda>_.
        rbind (currentMembershipStart d room (callerMemberships d now c)) (\<lambda>_. Inr (callerMemberships d now c))))"

lemma roomPostRepeat_keys:
  "roomPostRepeat d now c maintainer room k print = rbind (poster_keys d now c maintainer room) (\<lambda>senders.
     case replay_of_key d c k of
       None \<Rightarrow> Inr (senders, None)
     | Some x \<Rightarrow> if rx_fingerprint x \<noteq> print then Inl ErrRoomPostRepeat
                 else Inr (senders, Some ((rx_result x)\<lparr>pr_duplicate := True\<rparr>)))"
  by (simp add: roomPostRepeat_def poster_keys_def Let_def)

text \<open>An accepted post that is not a repeat was recorded.\<close>

lemma roomPost_new:
  assumes r: "roomPost e c maintainer room body k t d = (Inr r, d')" and new: "\<not> pr_duplicate r"
  shows "\<exists>senders. poster_keys d (rv_now e) c maintainer room = Inr senders
    \<and> record_post e c maintainer room body k t (roomPostFingerprint e room body t) senders d = Inr (r, d')"
proof -
  let ?print = "roomPostFingerprint e room body t"
  let ?rep = "roomPostRepeat d (rv_now e) c maintainer room k ?print"
  obtain senders where rep: "?rep = Inr (senders, None)"
    and tx: "write_tx (rv_wenv e) None ordinary (post_body e c maintainer room body k t ?print) d = (Inr r, d')"
  proof -
    obtain y where y: "rbind (check_post e c maintainer room body k t) (\<lambda>_. ?rep) = Inr y"
      using r by (cases "rbind (check_post e c maintainer room body k t) (\<lambda>_. ?rep)") (simp_all add: roomPost_def Let_def)
    then have rep: "?rep = Inr y" unfolding rbind_Inr_iff by blast
    have "snd y = None"
      using r new rep y unfolding roomPost_def Let_def y sum.case roomPostRepeat_keys
      by (cases y) (auto split: option.splits if_split_asm)
    then obtain senders where ys: "y = (senders, None)" by (cases y) simp
    show thesis
      by (rule that[OF rep[unfolded ys]]) (use r in \<open>simp add: roomPost_def Let_def y[unfolded ys] del: rbind_Inr_iff\<close>)
  qed
  have "post_body e c maintainer room body k t ?print d = Inr (r, d')" using write_tx_cases(1)[OF tx] by simp
  then have "record_post e c maintainer room body k t ?print senders d = Inr (r, d')" by (simp add: post_body_def rep)
  moreover have "poster_keys d (rv_now e) c maintainer room = Inr senders"
    using rep unfolding roomPostRepeat_keys by (auto split: option.splits if_split_asm)
  ultimately show ?thesis by blast
qed

text \<open>A retry record stays until a sweep passes its deadline.\<close>

definition in_time :: "time \<Rightarrow> mail_op \<Rightarrow> bool" where
  "in_time t q \<longleftrightarrow> (case q of RoomOp e (CullOp _) \<Rightarrow> rv_clock e \<le> t | _ \<Rightarrow> True)"

definition remembers :: "roomReplayRow \<Rightarrow> db \<Rightarrow> bool" where
  "remembers x d \<longleftrightarrow> room_inv d \<and> x \<in> set (room_replays d)"

lemma same_notice: "roomNotice e r k revision ev d = Inr d' \<Longrightarrow> room_same d d'"
  unfolding roomNotice_def
  by (auto split: if_split_asm dest!: same_member_inbox same_room_copy intro: room_same_trans)

lemma add_member_replays: "add_member e room peer d = Inr (b, d') \<Longrightarrow> room_replays d' = room_replays d"
  unfolding add_member_def Let_def
  by (auto simp: place_member_def set_member_def split: if_split_asm option.splits dest!: same_notice room_sameD(6))

lemma remove_member_replays: "remove_member e room n d = Inr (u, d') \<Longrightarrow> room_replays d' = room_replays d"
  unfolding remove_member_def Let_def by (auto simp: set_member_def dest!: same_notice room_sameD(6))

lemma post_body_replays:
  assumes "post_body e c m room body k t print d = Inr (y, d')" "room_inv d"
  shows "set (room_replays d) \<subseteq> set (room_replays d')"
proof -
  obtain senders orig where s: "roomPostRepeat d (rv_now e) c m room k print = Inr (senders, orig)"
    using assms(1) unfolding post_body_def rbind_Inr_iff by auto
  show ?thesis
  proof (cases orig)
    case None
    then have "record_post e c m room body k t print senders d = Inr (y, d')" using assms(1) by (simp add: post_body_def s)
    then show ?thesis using assms(2) by (rule record_post_writes) auto
  qed (use assms(1) s in \<open>simp add: post_body_def\<close>)
qed

lemma remembers_step:
  assumes rem: "remembers x d" and w: "in_time (rx_deadline x) q" and st: "mail_step y q now d = Inr d'"
  shows "remembers x d'"
proof -
  note inv = rem[unfolded remembers_def]
  have inv': "room_inv d'" by (rule mail_step_room_inv[OF st conjunct1[OF inv]])
  have "x \<in> set (room_replays d')"
  proof (cases "\<exists>e r. q = RoomOp e r")
    case False
    then have "room_same d d'" using same_message_step[OF st] by blast
    then show ?thesis using inv room_sameD(6) by simp
  next
    case True
    then obtain e r where q: "q = RoomOp e r" by blast
    then have step: "room_step e r d = Inr d'" using st by simp
    have "remembers x d'"
    proof (rule room_step_kept[where P = "remembers x", OF step rem])
      fix n k d0 d1 assume b: "remembers x d0" "cull_batch (cull_cutoff e) n d0 = Inr (k, d1)"
      then show "remembers x d1" using cull_batch_inv[OF b(2)] by (auto simp: remembers_def cull_batch_def Let_def)
    next
      fix bu u d0 d1 assume b: "r = CullOp bu" "remembers x d0" "cull_replays (rv_clock e) d0 = Inr (u, d1)"
      let ?due = "replays_due (rv_clock e) d0"
      have d1: "d1 = d0\<lparr>room_replays := filter (\<lambda>y. post_key y \<notin> set (map post_key ?due)) (room_replays d0)\<rparr>"
        using b(3) by (simp add: cull_replays_def Let_def post_key_def)
      have "rv_clock e \<le> rx_deadline x" using w b(1) by (simp add: in_time_def q)
      moreover have "distinct (map post_key (room_replays d0))"
        using b(2) room_invD(6)[of d0] by (simp add: remembers_def replays_wf_def post_key_def[abs_def])
      moreover have "\<forall>y\<in>set ?due. y \<in> set (room_replays d0) \<and> rx_deadline y < rv_clock e"
        by (auto simp: replays_due_def dest!: in_set_takeD)
      ultimately have "post_key x \<notin> set (map post_key ?due)"
        using b(2) distinct_key_eq[of post_key "room_replays d0" x] unfolding remembers_def by fastforce
      then show "remembers x d1" using b cull_replays_inv[OF b(3)] by (simp add: remembers_def d1)
    next
      fix k name i d1 assume b: "create_room e k name d = Inr (i, d1)"
      have "room_replays d1 = room_replays d"
        using b by (auto simp: create_room_def Let_def split: option.splits if_split_asm)
      then show "remembers x d1" using rem create_room_inv[OF b] by (simp add: remembers_def)
    next
      fix room peer b d1 assume b: "add_member e room peer d = Inr (b, d1)"
      then show "remembers x d1" using rem add_member_inv[OF b] add_member_replays[OF b] by (simp add: remembers_def)
    next
      fix room n u d1 assume b: "remove_member e room n d = Inr (u, d1)"
      then show "remembers x d1" using rem remove_member_inv[OF b] remove_member_replays[OF b] by (simp add: remembers_def)
    next
      fix c m room body k t print z d1 assume b: "post_body e c m room body k t print d = Inr (z, d1)"
      then show "remembers x d1" using rem post_body_inv[OF b] post_body_replays[OF b] by (auto simp: remembers_def)
    qed
    then show ?thesis by (simp add: remembers_def)
  qed
  then show ?thesis using inv' by (simp add: remembers_def)
qed

interpretation memory_of_posts: guarded_machine "mail_step y" "remembers x" "in_time (rx_deadline x)" for y x
  by unfold_locales (rule remembers_step)

section \<open>Posts\<close>

definition demo_room_id :: string where "demo_room_id = replicate 32 CHR ''a''"

definition demo_room_env :: room_env where
  "demo_room_env = \<lparr>rv_wenv = \<lparr>wk_ext = demo_ext, wk_limits = defaultMemoryLimits, wk_admit = (\<lambda>_ _. Inr ()), wk_commit = (\<lambda>_ _. Inr ()),
       wk_now_ms = 1000, wk_expiry_now = 1, wk_store_id = (\<lambda>_. ''s''), wk_process_start = (\<lambda>_. None)\<rparr>,
     rv_clock = 1, rv_room_id = demo_room_id, rv_quote = id, rv_float_text = (\<lambda>_. ''2''), rv_retention_ms = 5000\<rparr>"

text \<open>A room with the holder of an address and a retired session as members.\<close>

definition demo_member :: "int \<Rightarrow> string \<Rightarrow> roomMemberRow" where
  "demo_member n i = \<lparr>rm_room_id = demo_room_id, rm_ordinal = n, rm_family = ''deepseek'', rm_member_id = i, rm_label = ''m'',
     rm_active = True, rm_revision = 2, rm_start_seq = 0, rm_changed_at = 900\<rparr>"

definition demo_room :: db where
  "demo_room = demo_registry\<lparr>rooms := [\<lparr>ro_id = demo_room_id, ro_name = ''team'', ro_revision = 3, ro_post_head = 0, ro_created_at = 800,
       ro_create_key = ''k''\<rparr>],
     room_members := [demo_member 1 ''participant:deepseek-app'', demo_member 2 ''s1''], room_changes := [(demo_room_id, 3)]\<rparr>"

lemma demo_room_inv: "room_inv demo_room"
proof -
  have "mail_inv demo_room" by (rule mail_grows_inv[OF mail_same_grows demo_mail_inv]) (simp add: mail_same_def demo_room_def)
  moreover have "rooms_wf demo_room" "posts_wf demo_room" "copies_wf demo_room" "replays_wf demo_room"
    by (simp_all add: rooms_wf_def posts_wf_def copies_wf_def replays_wf_def demo_room_def demo_registry_def empty_db_def maxRooms_def)
  moreover have "roster_wf demo_room"
    by (simp add: roster_wf_def demo_room_def room_rows_def room_known_def demo_member_def maxRoomMembers_def maxRoomMemberRows_def)
  ultimately show ?thesis by (simp add: room_inv_def)
qed

definition demo_receipt :: RoomPostResult where
  "demo_receipt = \<lparr>pr_room_id = demo_room_id, pr_seq = 1, pr_queued = 1, pr_skipped = 1, pr_duplicate = False\<rparr>"

lemma demo_posted: "fst (roomPost demo_room_env maintainerKey True demo_room_id ''hi'' ''p'' 2 demo_room) = Inr demo_receipt"
  by code_simp

text \<open>
  C6. A post reaches every member: an accepted post that is not a repeat adds one post with the next
  sequence of its room, its body and its poster, and one delivery row for each current member but the
  poster's own memberships, in roster order; each row names the copy that lies in the member's inbox
  or the reason there is none, and the receipt counts both kinds.
\<close>

theorem post_reaches_every_member:
  assumes "room_inv d" and "roomPost e c maintainer room body k t d = (Inr r, d')" and "\<not> pr_duplicate r"
  shows "\<exists>q p keys rows. room_row d room = Inr q \<and> room_posts d' = room_posts d @ [p] \<and> po_room_id p = room
    \<and> po_seq p = ro_post_head q + 1 \<and> po_body p = body \<and> key (po_sender_family p) (po_sender_id p) = c
    \<and> po_origin p = (if maintainer then ''maintainer'' else ''member'')
    \<and> poster_keys d (rv_now e) c maintainer room = Inr keys
    \<and> room_deliveries d' = room_deliveries d @ rows \<and> map recipient_of rows = map (delivery_to p) (post_members d room keys)
    \<and> list_all (delivered d' p) rows
    \<and> r = \<lparr>pr_room_id = room, pr_seq = po_seq p, pr_queued = int (length (filter queued rows)),
           pr_skipped = int (length (filter (\<lambda>x. \<not> queued x) rows)), pr_duplicate = False\<rparr>"
proof -
  obtain keys where keys: "poster_keys d (rv_now e) c maintainer room = Inr keys"
    and w: "record_post e c maintainer room body k t (roomPostFingerprint e room body t) keys d = Inr (r, d')"
    using roomPost_new[OF assms(2,3)] by blast
  obtain q sender p rows where q: "room_row d room = Inr q" and p: "p = new_post e c maintainer sender q body d"
    and w1: "room_posts d' = room_posts d @ [p]" "room_deliveries d' = room_deliveries d @ rows"
      "map recipient_of rows = map (delivery_to p) (post_members d room keys)" "\<forall>x\<in>set rows. delivered d' p x"
      "r = \<lparr>pr_room_id = room, pr_seq = po_seq p, pr_queued = int (length (filter queued rows)),
       pr_skipped = int (length (filter (\<lambda>x. \<not> queued x) rows)), pr_duplicate = False\<rparr>"
    by (rule record_post_writes[OF w assms(1)])
  have "po_room_id p = room" using room_row_Inr[OF q] by (simp add: p new_post_def)
  moreover have "po_seq p = ro_post_head q + 1" "po_body p = body" "key (po_sender_family p) (po_sender_id p) = c"
    "po_origin p = (if maintainer then ''maintainer'' else ''member'')" by (simp_all add: p new_post_def)
  moreover have "list_all (delivered d' p) rows" using w1(4) by (simp add: list_all_iff)
  ultimately show ?thesis using q w1(1-3,5) keys by (intro exI[of _ q] exI[of _ p] exI[of _ keys] exI[of _ rows]) simp
qed

theorem post_reaches_every_member_witness:
  "\<exists>p rows. list_all (delivered (snd (roomPost demo_room_env maintainerKey True demo_room_id ''hi'' ''p'' 2 demo_room)) p) rows
     \<and> map recipient_of rows = map (delivery_to p) [demo_member 1 ''participant:deepseek-app'', demo_member 2 ''s1'']"
proof -
  obtain d' where r: "roomPost demo_room_env maintainerKey True demo_room_id ''hi'' ''p'' 2 demo_room = (Inr demo_receipt, d')"
    using demo_posted by (metis prod.collapse)
  have "post_members demo_room demo_room_id [] = [demo_member 1 ''participant:deepseek-app'', demo_member 2 ''s1'']" by code_simp
  moreover have "poster_keys demo_room 1000 maintainerKey True demo_room_id = Inr []" by (simp add: poster_keys_def)
  ultimately have m: "post_members demo_room demo_room_id keys = [demo_member 1 ''participant:deepseek-app'', demo_member 2 ''s1'']"
    if "poster_keys demo_room (rv_now demo_room_env) maintainerKey True demo_room_id = Inr keys" for keys
    using that by (simp add: poster_keys_def)
  have new: "\<not> pr_duplicate demo_receipt" by (simp add: demo_receipt_def)
  obtain q p keys rows where w: "poster_keys demo_room (rv_now demo_room_env) maintainerKey True demo_room_id = Inr keys"
      "map recipient_of rows = map (delivery_to p) (post_members demo_room demo_room_id keys)" "list_all (delivered d' p) rows"
    using post_reaches_every_member[OF demo_room_inv r new] by blast
  then show ?thesis unfolding r snd_conv m[OF w(1)] by blast
qed

text \<open>
  C26. A keyed post is replayed: after an accepted post and any run of messages, registry writes and room
  requests in which no retention sweep passes its deadline, the same request answers the original
  receipt as a duplicate to a poster that is still a member, or that membership's refusal, and writes
  nothing, whatever the storage admits.
\<close>

theorem keyed_post_replays:
  assumes "room_inv d" and "roomPost e c maintainer room body k t d = (Inr r, d1)" and "\<not> pr_duplicate r"
    and "list_all (in_time t) (map fst reqs)" and "d2 = run_log (mail_step x) reqs d1"
    and "check_post e' c maintainer room body k t = Inr ()" and "roomPostFingerprint e' room body t = roomPostFingerprint e room body t"
  shows "roomPost e' c maintainer room body k t d2
    = (rbind (poster_keys d2 (rv_now e') c maintainer room) (\<lambda>_. Inr (r\<lparr>pr_duplicate := True\<rparr>)), d2)"
proof -
  let ?print = "roomPostFingerprint e room body t"
  define y where "y = replay_row_of c k ?print t r"
  obtain keys where w: "record_post e c maintainer room body k t ?print keys d = Inr (r, d1)"
    using roomPost_new[OF assms(2,3)] by blast
  have "remembers y d1" by (rule record_post_writes[OF w assms(1)]) (simp add: remembers_def y_def)
  then have "remembers y d2"
    unfolding assms(5) by (rule memory_of_posts.run_guarded) (use assms(4) in \<open>auto simp: list_all_iff y_def replay_row_of_def\<close>)
  then have "replay_of_key d2 c k = Some y"
    by (intro replay_of_key_mem) (auto simp: remembers_def y_def replay_row_of_def post_key_def)
  then have rep: "roomPostRepeat d2 (rv_now e') c maintainer room k ?print
      = rbind (poster_keys d2 (rv_now e') c maintainer room) (\<lambda>senders. Inr (senders, Some (r\<lparr>pr_duplicate := True\<rparr>)))"
    by (simp add: roomPostRepeat_keys y_def replay_row_of_def)
  show ?thesis
    by (cases "poster_keys d2 (rv_now e') c maintainer room") (simp_all add: roomPost_def Let_def assms(6,7) rep)
qed

theorem keyed_post_replays_witness:
  "\<exists>d1. roomPost demo_room_env maintainerKey True demo_room_id ''hi'' ''p'' 2 d1 = (Inr (demo_receipt\<lparr>pr_duplicate := True\<rparr>), d1)"
proof -
  obtain d1 where r: "roomPost demo_room_env maintainerKey True demo_room_id ''hi'' ''p'' 2 demo_room = (Inr demo_receipt, d1)"
    using demo_posted by (metis prod.collapse)
  let ?log = "[(RoomOp demo_room_env (CullOp 10), 1000)]"
  have "check_post demo_room_env maintainerKey True demo_room_id ''hi'' ''p'' 2 = Inr ()" by code_simp
  moreover have "list_all (in_time 2) (map fst ?log)" by (simp add: in_time_def demo_room_env_def)
  moreover have new: "\<not> pr_duplicate demo_receipt" by (simp add: demo_receipt_def)
  ultimately have "roomPost demo_room_env maintainerKey True demo_room_id ''hi'' ''p'' 2 (run_log (mail_step demo_ext) ?log d1)
    = (rbind (poster_keys (run_log (mail_step demo_ext) ?log d1) (rv_now demo_room_env) maintainerKey True demo_room_id)
        (\<lambda>_. Inr (demo_receipt\<lparr>pr_duplicate := True\<rparr>)), run_log (mail_step demo_ext) ?log d1)"
    using keyed_post_replays[where reqs = ?log and x = demo_ext and e' = demo_room_env, OF demo_room_inv r new _ refl _ refl] by blast
  then show ?thesis unfolding poster_keys_def if_True rbind_simps by blast
qed

section \<open>Transcripts\<close>

lemma post_page_split:
  assumes "post_page limit count bytes ps = (page, m)"
  shows "\<exists>rest. ps = page @ rest \<and> (m \<longleftrightarrow> rest \<noteq> []) \<and> (count \<le> limit \<longrightarrow> count + length page \<le> limit)
    \<and> (count < limit \<and> count = 0 \<and> ps \<noteq> [] \<longrightarrow> page \<noteq> [])"
  using assms
proof (induction ps arbitrary: count bytes page m)
  case (Cons p ps)
  show ?case
  proof (cases "count = limit \<or> (count > 0 \<and> bytes + length (po_body p) > page_bytes)")
    case True
    then have "page = []" "m" using Cons.prems by simp_all
    then show ?thesis using True by auto
  next
    case False
    obtain page' m' where rec: "post_page limit (count + 1) (bytes + length (po_body p)) ps = (page', m')" by fastforce
    then have p: "page = p # page'" "m = m'" using Cons.prems False by simp_all
    obtain rest where "ps = page' @ rest" "m' \<longleftrightarrow> rest \<noteq> []" "count + 1 \<le> limit \<longrightarrow> count + 1 + length page' \<le> limit"
      using Cons.IH[OF rec] by blast
    then show ?thesis using p False by (intro exI[of _ rest]) auto
  qed
qed simp

text \<open>The gaps of ascending posts and the posts cover what lies between, each sequence once.\<close>

abbreviation ranges :: "(int \<times> int) list \<Rightarrow> int set" where
  "ranges gaps \<equiv> (\<Union>(a, b)\<in>set gaps. {a..b})"

lemma post_gaps_cover:
  assumes "sorted_wrt (<) (previous # map po_seq ps)" and "\<forall>p\<in>set ps. po_seq p \<le> end_at"
  shows "ranges (post_gaps previous end_at ps) \<union> po_seq ` set ps = {previous<..end_at}
    \<and> ranges (post_gaps previous end_at ps) \<inter> po_seq ` set ps = {}
    \<and> (\<forall>(a, b)\<in>set (post_gaps previous end_at ps). previous < a \<and> a \<le> b)"
  using assms
proof (induction ps arbitrary: previous)
  case (Cons p ps)
  let ?R = "ranges (post_gaps (po_seq p) end_at ps)" and ?Q = "po_seq ` set ps" and ?s = "po_seq p"
  have IH: "?R \<union> ?Q = {?s<..end_at}" "?R \<inter> ?Q = {}" "\<forall>(a, b)\<in>set (post_gaps ?s end_at ps). ?s < a \<and> a \<le> b"
    using Cons.IH[of ?s] Cons.prems by auto
  have lt: "previous < ?s" "?s \<le> end_at" using Cons.prems by auto
  have R: "ranges (post_gaps previous end_at (p # ps)) = {previous<..<?s} \<union> ?R"
  proof -
    have "{previous + 1..?s - 1} = {previous<..<?s}" by auto
    moreover have "{previous<..<?s} = {}" if "\<not> ?s > previous + 1" using that by auto
    ultimately show ?thesis by simp
  qed
  have "{previous<..<?s} \<union> ?R \<union> insert ?s ?Q = {previous<..<?s} \<union> {?s} \<union> (?R \<union> ?Q)" by blast
  also have "\<dots> = {previous<..end_at}" unfolding IH(1) using lt by auto
  finally have u: "{previous<..<?s} \<union> ?R \<union> insert ?s ?Q = {previous<..end_at}" .
  have "?R \<subseteq> {?s<..end_at}" "?Q \<subseteq> {?s<..end_at}" using IH(1) by blast+
  then have "({previous<..<?s} \<union> ?R) \<inter> insert ?s ?Q = {}" using IH(2) by fastforce
  moreover have "\<forall>(a, b)\<in>set (post_gaps previous end_at (p # ps)). previous < a \<and> a \<le> b" using IH(3) lt by auto
  ultimately show ?case unfolding R using u by simp
qed auto

lemma posts_after_sorted:
  assumes "room_inv d"
  shows "sorted_wrt (<) (from_seq # map po_seq (posts_after d room from_seq))"
proof -
  let ?mine = "filter (\<lambda>p. po_room_id p = room \<and> po_seq p > from_seq) (room_posts d)"
  have "distinct (map (\<lambda>p. (po_room_id p, po_seq p)) ?mine)"
    by (rule distinct_map_filter) (use room_invD(4)[OF assms] in \<open>simp add: posts_wf_def\<close>)
  then have "inj_on po_seq (set ?mine)" "distinct ?mine" by (auto simp: distinct_map inj_on_def)
  then have "distinct (map po_seq (posts_after d room from_seq))" by (simp add: posts_after_def distinct_map)
  moreover have "sorted (map po_seq (posts_after d room from_seq))" by (simp add: posts_after_def)
  ultimately show ?thesis by (auto simp: strict_sorted_iff posts_after_def)
qed

lemma posts_after_head:
  assumes "room_inv d" "room_row d room = Inr r" "p \<in> set (posts_after d room from_seq)"
  shows "po_seq p \<le> ro_post_head r"
proof -
  note r = room_row_Inr[OF assms(2)]
  have "room_known d room (po_seq p)" using assms(3) room_invD(4)[OF assms(1)] by (auto simp: posts_after_def posts_wf_def)
  then obtain q where q: "q \<in> set (rooms d)" "ro_id q = room" "po_seq p \<le> ro_post_head q" by (auto simp: room_known_def)
  have "distinct (map ro_id (rooms d))" using room_invD(2)[OF assms(1)] by (simp add: rooms_wf_def)
  then have "q = r" using distinct_key_eq[of ro_id "rooms d" q r] q r by simp
  then show ?thesis using q(3) by simp
qed

lemma take_split_more:
  assumes "take (n + 1) xs = p @ q" "length p \<le> n"
  shows "\<exists>rest. xs = p @ rest \<and> (rest = [] \<longleftrightarrow> q = [])"
proof -
  have x: "xs = p @ (q @ drop (n + 1) xs)" using assms(1) by (metis append.assoc append_take_drop_id)
  have "drop (n + 1) xs = []" if "q = []"
  proof -
    have "length (take (n + 1) xs) \<le> n" using assms that by simp
    then show ?thesis by (simp add: min_def split: if_split_asm)
  qed
  then show ?thesis using x by (intro exI[of _ "q @ drop (n + 1) xs"]) auto
qed

text \<open>
  C8. A transcript accounts for every sequence: the posts of a page and its gaps are disjoint and
  together cover exactly the sequences after the requested one up to the end of the page, the posts are
  the retained posts of that range in ascending order, and the end is the last post when more follow and
  the head of the room otherwise, so that nothing beyond the page is left out or repeated.
\<close>

theorem transcript_accounts:
  assumes "room_inv d" and "roomTranscript d room start from_seq limit = Inr t" and "1 \<le> limit" and "from_seq \<le> rt_head t"
  shows "\<exists>end_at. end_at = (case rt_next_after t of None \<Rightarrow> rt_head t | Some n \<Rightarrow> n)
    \<and> ranges (rt_gaps t) \<union> po_seq ` set (rt_posts t) = {from_seq<..end_at}
    \<and> ranges (rt_gaps t) \<inter> po_seq ` set (rt_posts t) = {}
    \<and> rt_posts t = filter (\<lambda>p. po_seq p \<le> end_at) (posts_after d room from_seq)
    \<and> sorted_wrt (<) (map po_seq (rt_posts t)) \<and> length (rt_posts t) \<le> limit
    \<and> from_seq \<le> end_at \<and> (rt_more t \<longleftrightarrow> posts_after d room end_at \<noteq> []) \<and> (rt_more t \<longleftrightarrow> from_seq < end_at \<and> rt_next_after t \<noteq> None)"
proof -
  let ?rows = "posts_after d room from_seq"
  obtain page m where page: "post_page limit 0 0 (take (limit + 1) ?rows) = (page, m)" by fastforce
  obtain r where r: "room_row d room = Inr r" using assms(2) unfolding roomTranscript_def by auto
  define end_at where "end_at = (if m then po_seq (last page) else ro_post_head r)"
  have t: "rt_head t = ro_post_head r" "rt_posts t = page" "rt_gaps t = post_gaps from_seq end_at page" "rt_more t = m"
    "rt_next_after t = (if m then Some (po_seq (last page)) else None)"
    using assms(2) unfolding roomTranscript_def r rbind_simps page prod.case Let_def end_at_def[symmetric] by auto
  obtain q where q: "take (limit + 1) ?rows = page @ q" "m \<longleftrightarrow> q \<noteq> []" "length page \<le> limit"
    "take (limit + 1) ?rows \<noteq> [] \<longrightarrow> page \<noteq> []"
    using post_page_split[OF page] assms(3) by auto
  obtain rest where rest: "?rows = page @ rest" "rest = [] \<longleftrightarrow> q = []" using take_split_more[OF q(1,3)] by blast
  have sorted: "sorted_wrt (<) (from_seq # map po_seq page)" "\<forall>p\<in>set page. \<forall>p'\<in>set rest. po_seq p < po_seq p'"
    using posts_after_sorted[OF assms(1), of from_seq room] unfolding rest(1) by (auto simp: sorted_wrt_append)
  have some: "page \<noteq> []" if m using that q by auto
  have past: "from_seq < end_at" if m using that some sorted(1) last_in_set[of page] by (auto simp: end_at_def)
  have le: "\<forall>p\<in>set page. po_seq p \<le> end_at"
  proof (cases m)
    case True
    then obtain ps p where ps: "page = ps @ [p]" using some by (metis rev_exhaust)
    then show ?thesis using sorted(1) True by (auto simp: end_at_def sorted_wrt_append)
  next
    case False
    then show ?thesis using posts_after_head[OF assms(1) r, of _ from_seq] rest(1) by (simp add: end_at_def)
  qed
  have beyond: "\<forall>p\<in>set rest. end_at < po_seq p" using sorted(2) some rest(2) q(2) by (cases m) (auto simp: end_at_def)
  have "rest = filter (\<lambda>p. po_seq p > end_at) ?rows" using le beyond unfolding rest(1) by (auto simp: filter_id_conv not_less intro: sym)
  moreover have from_le: "from_seq \<le> end_at" using assms(4) past t(1) by (cases m) (auto simp: end_at_def)
  moreover have "filter (\<lambda>p. po_seq p > end_at) ?rows = posts_after d room end_at"
    using from_le unfolding posts_after_def filter_sort[symmetric] filter_filter by (intro arg_cong[where f = "sort_key po_seq"] filter_cong) auto
  ultimately have "m \<longleftrightarrow> posts_after d room end_at \<noteq> []" using rest(2) q(2) by simp
  moreover have "page = filter (\<lambda>p. po_seq p \<le> end_at) ?rows" unfolding rest(1) using le beyond by (auto simp: filter_id_conv not_le intro: sym)
  moreover have "m \<longleftrightarrow> from_seq < end_at \<and> m" using past by blast
  moreover have "sorted_wrt (<) (map po_seq page)" using sorted(1) by simp
  moreover have "end_at = (case rt_next_after t of None \<Rightarrow> rt_head t | Some n \<Rightarrow> n)" "(rt_next_after t \<noteq> None) = m"
    by (simp_all add: t(1,5) end_at_def)
  moreover note post_gaps_cover[OF sorted(1) le, THEN conjunct1] post_gaps_cover[OF sorted(1) le, THEN conjunct2, THEN conjunct1]
  ultimately show ?thesis unfolding t(2-4) using from_le q(3) by metis
qed

definition demo_post :: "int \<Rightarrow> int \<Rightarrow> roomPostRow" where
  "demo_post i n = \<lparr>po_post_id = i, po_room_id = demo_room_id, po_seq = n, po_sender_family = [], po_sender_id = [],
     po_sender_name = [], po_origin = ''maintainer'', po_body = ''hi'', po_created_at = 900\<rparr>"

text \<open>Posts 2 and 4 of six are retained.\<close>

definition demo_culled :: db where
  "demo_culled = demo_room\<lparr>rooms := map (\<lambda>r. r\<lparr>ro_post_head := 6\<rparr>) (rooms demo_room), room_post_ids := 6,
     room_posts := [demo_post 2 2, demo_post 4 4]\<rparr>"

lemma demo_culled_inv: "room_inv demo_culled"
proof -
  have "mail_inv demo_culled"
    by (rule mail_grows_inv[OF mail_same_grows demo_mail_inv]) (simp add: mail_same_def demo_culled_def demo_room_def)
  moreover have "rooms_wf demo_culled" "posts_wf demo_culled" "copies_wf demo_culled" "replays_wf demo_culled"
    by (simp_all add: rooms_wf_def posts_wf_def copies_wf_def replays_wf_def room_known_def demo_post_def demo_culled_def demo_room_def
        demo_registry_def empty_db_def maxRooms_def maxRoomPosts_def)
  moreover have "roster_wf demo_culled"
    by (simp add: roster_wf_def demo_culled_def demo_room_def room_rows_def room_known_def demo_member_def maxRoomMembers_def maxRoomMemberRows_def)
  ultimately show ?thesis by (simp add: room_inv_def)
qed

theorem transcript_accounts_witness:
  "\<exists>t. roomTranscript demo_culled demo_room_id 0 0 1 = Inr t
     \<and> ranges (rt_gaps t) \<union> po_seq ` set (rt_posts t) = {0<..2} \<and> ranges (rt_gaps t) \<inter> po_seq ` set (rt_posts t) = {}"
proof -
  obtain t where t: "roomTranscript demo_culled demo_room_id 0 0 1 = Inr t" "rt_head t = 6" "rt_next_after t = Some 2"
    by (simp add: roomTranscript_def room_row_def demo_culled_def demo_room_def posts_after_def demo_post_def page_bytes_def)
  have "(1::nat) \<le> 1" "0 \<le> rt_head t" using t(2) by simp_all
  from transcript_accounts[OF demo_culled_inv t(1) this] show ?thesis using t by auto
qed

text \<open>
  C19. Rooms stay within their limits and delivery rows stay true: after any run of room requests,
  messages and registry writes there are at most 64 rooms, 32 members and 128 roster rows of a room,
  10000 posts and 10000 retry records, no two posts share a room and a sequence, and every delivery row
  of a retained post names a copy in the member's inbox that repeats the post, or gives a reason.
\<close>

theorem room_posts_stay_delivered:
  assumes "room_inv d" and "d' = run_log (mail_step x) reqs d"
  shows "length (rooms d') \<le> 64 \<and> length (filter rm_active (room_rows d' i)) \<le> 32 \<and> length (room_rows d' i) \<le> 128
    \<and> length (room_posts d') \<le> 10000 \<and> length (room_replays d') \<le> 10000
    \<and> distinct (map (\<lambda>p. (po_room_id p, po_seq p)) (room_posts d'))
    \<and> (\<forall>p\<in>set (room_posts d'). \<forall>r\<in>set (room_deliveries d'). dl_post_id r = po_post_id p \<longrightarrow> delivered d' p r)"
proof -
  have inv: "room_inv d'" unfolding assms(2) by (rule rooming.run_guarded[OF assms(1)]) simp
  note w = room_invD[OF inv]
  show ?thesis
    using w(2)[unfolded rooms_wf_def maxRooms_def] w(3)[unfolded roster_wf_def maxRoomMembers_def maxRoomMemberRows_def]
      w(4)[unfolded posts_wf_def maxRoomPosts_def] w(5)[unfolded copies_wf_def] w(6)[unfolded replays_wf_def maxRoomReplays_def]
    by (intro conjI) simp_all
qed

theorem room_posts_stay_delivered_witness:
  "\<exists>d'. d' = run_log (mail_step demo_ext) [(RoomOp demo_room_env (PostOp maintainerKey True demo_room_id ''hi'' ''p'' 2), 1000)] demo_room
     \<and> length (room_posts d') \<le> 10000 \<and> distinct (map (\<lambda>p. (po_room_id p, po_seq p)) (room_posts d'))"
  using room_posts_stay_delivered[OF demo_room_inv refl, of demo_ext] by blast

end
