(* ===== verification/Work_Request.thy ===== *)
theory Work_Request
  imports Memory Launch
begin

text \<open>
  Work requests (\<^verbatim>\<open>internal/core/work.go\<close>, \<open>parseWork\<close> to \<open>fingerprint\<close>): the fields of each operation,
  decoding with strict JSON types, the checks of \<open>validate\<close>, and the fingerprint that binds a replay key
  to the request's content.

  The members of a request arrive as a list, in the order in which Go's map iteration visits them; a
  number is the value the decoder gives. \<open>validate\<close> visits the text limits in the order of
  \<open>workTextLimits\<close> here, where Go's map has none: only the message of a refusal can differ.
\<close>

section \<open>Operations and fields\<close>

definition workRetention :: time where "workRetention = 30 * 86400"
definition maxWorkRecord :: int where "maxWorkRecord = 16 * 1024"
definition viewHeadroom :: int where "viewHeadroom = 1024"
definition maxWorkScope :: int where "maxWorkScope = 8 * 1024"
definition maxWorkResult :: int where "maxWorkResult = 2 * 1024"
definition maxWorkRowCost :: int where "maxWorkRowCost = 16857"
definition maxWorkList :: int where "maxWorkList = 48 * 1024"
definition workSweepLimit :: nat where "workSweepLimit = 32"

definition workTextLimits :: "(string \<times> nat) list" where
  "workTextLimits = [(''title'', 256), (''criteria'', 4096), (''non_goals'', 2048), (''progress'', 2048),
     (''checkpoint'', 1024), (''next_artifact'', 1024), (''blocker'', 1024), (''reason'', 1024), (''summary'', 2048)]"

definition workFields :: "(string \<times> string list) list" where
  "workFields = [
     (''work-create'', [''title'', ''criteria'', ''non_goals'', ''proposed_assignee'', ''proposed_role'', ''references'']),
     (''work-get'', [''work_id'', ''revision'']),
     (''work-list'', [''lifecycle'', ''owner'', ''proposed_assignee'', ''assigned_to_me'', ''created_by_me'', ''after'', ''stale'', ''blocked'', ''limit'']),
     (''work-propose'', [''work_id'', ''if_revision'', ''proposed_assignee'', ''proposed_role'']),
     (''work-edit'', [''work_id'', ''if_revision'', ''claim_generation'', ''title'', ''criteria'', ''non_goals'']),
     (''work-start'', [''work_id'', ''if_revision'', ''checkpoint'', ''next_artifact'', ''progress_deadline'', ''lease_seconds'', ''resources'']),
     (''work-update'', [''work_id'', ''if_revision'', ''claim_generation'', ''progress'', ''checkpoint'', ''next_artifact'',
       ''progress_deadline'', ''lifecycle'', ''blocker'', ''references'', ''renew_for'']),
     (''work-release'', [''work_id'', ''if_revision'', ''claim_generation'', ''checkpoint'', ''handoff_to'', ''checkout_resource'']),
     (''work-finish'', [''work_id'', ''if_revision'', ''claim_generation'', ''outcome'', ''reason'', ''references'']),
     (''claim-renew'', [''work_id'', ''claim_generation'', ''if_claim_revision'', ''lease_seconds'']),
     (''work-report'', [''work_id'', ''if_revision'', ''claim_generation'', ''summary'', ''references'']),
     (''work-accept'', [''work_id'', ''if_revision'', ''report_seq'', ''references'']),
     (''work-reject'', [''work_id'', ''if_revision'', ''report_seq'', ''references'', ''title'', ''criteria'', ''non_goals''])]"

definition WorkRequired :: "(string \<times> string list) list" where
  "WorkRequired = [
     (''work-create'', [''title'', ''criteria'', ''non_goals'', ''key'', ''deadline'']),
     (''work-get'', [''work_id'']),
     (''work-propose'', [''work_id'', ''if_revision'']),
     (''work-edit'', [''work_id'', ''if_revision'']),
     (''work-start'', [''work_id'', ''if_revision'', ''checkpoint'', ''next_artifact'', ''progress_deadline'', ''key'', ''deadline'']),
     (''work-update'', [''work_id'', ''if_revision'', ''claim_generation'', ''progress'', ''checkpoint'', ''next_artifact'', ''progress_deadline'']),
     (''work-release'', [''work_id'', ''if_revision'', ''claim_generation'', ''checkpoint'']),
     (''work-finish'', [''work_id'', ''if_revision'', ''claim_generation'', ''outcome'']),
     (''claim-renew'', [''work_id'', ''claim_generation'', ''if_claim_revision'']),
     (''work-report'', [''work_id'', ''if_revision'', ''claim_generation'', ''summary'', ''references'', ''key'', ''deadline'']),
     (''work-accept'', [''work_id'', ''if_revision'', ''report_seq'', ''references'', ''key'', ''deadline'']),
     (''work-reject'', [''work_id'', ''if_revision'', ''report_seq'', ''references'', ''criteria'', ''non_goals'', ''key'', ''deadline''])]"

definition fields_of :: "(string \<times> string list) list \<Rightarrow> string \<Rightarrow> string list" where
  "fields_of t op = (case map_of t op of None \<Rightarrow> [] | Some fs \<Rightarrow> fs)"

definition WorkOperations :: "string list" where
  "WorkOperations = [''work-create'', ''work-get'', ''work-list'', ''work-propose'', ''work-edit'', ''work-start'', ''work-update'',
     ''work-release'', ''work-finish'', ''claim-renew'', ''work-report'', ''work-accept'', ''work-reject'']"

definition workVerdict :: "string \<Rightarrow> bool" where
  "workVerdict op \<longleftrightarrow> op = ''work-accept'' \<or> op = ''work-reject''"

definition workRead :: "string \<Rightarrow> bool" where
  "workRead op \<longleftrightarrow> op = ''work-get'' \<or> op = ''work-list''"

section \<open>Requests\<close>

record workRequest =
  q_op :: string
  q_present :: "string list"
  q_text :: "string \<rightharpoonup> string"
  q_nulls :: "string list"
  q_ints :: "string \<rightharpoonup> int"
  q_numbers :: "string \<rightharpoonup> time"
  q_bools :: "string \<rightharpoonup> bool"
  q_refs :: "string list"
  q_res :: "claimResource list"
  q_role :: "WorkRole option"
  q_actor :: string

definition has :: "workRequest \<Rightarrow> string \<Rightarrow> bool" where
  "has r name \<longleftrightarrow> name \<in> set (q_present r)"

text \<open>Reading a Go map gives the zero value for an absent key.\<close>

definition text_of :: "workRequest \<Rightarrow> string \<Rightarrow> string" where
  "text_of r name = (case q_text r name of None \<Rightarrow> [] | Some v \<Rightarrow> v)"

definition int_of :: "workRequest \<Rightarrow> string \<Rightarrow> int" where
  "int_of r name = (case q_ints r name of None \<Rightarrow> 0 | Some v \<Rightarrow> v)"

definition number_of :: "workRequest \<Rightarrow> string \<Rightarrow> time" where
  "number_of r name = (case q_numbers r name of None \<Rightarrow> 0 | Some v \<Rightarrow> v)"

definition bool_of :: "workRequest \<Rightarrow> string \<Rightarrow> bool" where
  "bool_of r name = (case q_bools r name of None \<Rightarrow> False | Some v \<Rightarrow> v)"

definition new_request :: "string \<Rightarrow> workRequest" where
  "new_request op = \<lparr>q_op = op, q_present = [], q_text = Map.empty, q_nulls = [], q_ints = Map.empty, q_numbers = Map.empty,
     q_bools = Map.empty, q_refs = [], q_res = [], q_role = None, q_actor = []\<rparr>"

section \<open>Decoding\<close>

definition nullable_names :: "string list" where
  "nullable_names = [''proposed_assignee'', ''owner'', ''author'']"

definition text_names :: "string list" where
  "text_names = [''work_id'', ''title'', ''criteria'', ''non_goals'', ''progress'', ''checkpoint'', ''next_artifact'', ''blocker'',
     ''reason'', ''outcome'', ''lifecycle'', ''key'', ''handoff_to'', ''checkout_resource'', ''after'', ''summary'']"

definition int_names :: "string list" where
  "int_names = [''revision'', ''if_revision'', ''claim_generation'', ''if_claim_revision'', ''limit'', ''lease_seconds'', ''renew_for'', ''report_seq'']"

definition number_names :: "string list" where
  "number_names = [''progress_deadline'', ''deadline'']"

definition bool_names :: "string list" where
  "bool_names = [''stale'', ''blocked'', ''assigned_to_me'', ''created_by_me'']"

text \<open>A \<open>[]string\<close>: a null element decodes to the empty text.\<close>

fun json_string :: "json \<Rightarrow> string option" where
  "json_string (JStr s) = Some s"
| "json_string JNull = Some []"
| "json_string _ = None"

fun json_strings :: "json list \<Rightarrow> string list option" where
  "json_strings [] = Some []"
| "json_strings (j # js) = (case (json_string j, json_strings js) of (Some s, Some ss) \<Rightarrow> Some (s # ss) | _ \<Rightarrow> None)"

fun json_pairs :: "json list \<Rightarrow> string list list option" where
  "json_pairs [] = Some []"
| "json_pairs (j # js) =
     (case (case j of JArr es \<Rightarrow> json_strings es | JNull \<Rightarrow> Some [] | _ \<Rightarrow> None, json_pairs js) of
        (Some p, Some ps) \<Rightarrow> Some (p # ps) | _ \<Rightarrow> None)"

definition decode_role :: "json \<Rightarrow> kerror + WorkRole" where
  "decode_role raw =
     (case raw of JObj ms \<Rightarrow>
        if length ms \<noteq> 2 then Inl (invalid ''proposed_role is an object with family and role'')
        else (case (map_of ms ''family'', map_of ms ''role'') of
            (Some f, Some g) \<Rightarrow>
              (case (f, g) of
                 (JStr family, JStr role) \<Rightarrow>
                   if \<not> validKey family ''synthetic'' \<or> (role \<noteq> [] \<and> \<not> ValidRole role)
                   then Inl (invalid ''proposed_role uses a supported family and the launcher role grammar; empty role means default'')
                   else Inr \<lparr>wr_family = family, wr_role = role\<rparr>
               | _ \<Rightarrow> Inl (invalid ''proposed_role uses a supported family and the launcher role grammar; empty role means default''))
          | _ \<Rightarrow> Inl (invalid ''proposed_role is an object with family and role''))
      | _ \<Rightarrow> Inl (invalid ''proposed_role is an object with family and role''))"

fun check_refs :: "string list \<Rightarrow> kerror + unit" where
  "check_refs [] = Inr ()"
| "check_refs (v # vs) = rbind (checkText v ''reference'' 512) (\<lambda>_. check_refs vs)"

fun resource_pairs :: "string list list \<Rightarrow> kerror + claimResource list" where
  "resource_pairs [] = Inr []"
| "resource_pairs (p # ps) =
     (case p of [k, v] \<Rightarrow> rbind (resource_pairs ps) (\<lambda>rs. Inr (res k v # rs))
      | _ \<Rightarrow> Inl (invalid ''resources are [kind, key] pairs''))"

text \<open>One member of the request: the body of the loop of \<open>parseWork\<close>.\<close>

definition parse_text :: "string \<Rightarrow> json \<Rightarrow> workRequest \<Rightarrow> kerror + workRequest" where
  "parse_text name raw r = (case raw of JStr v \<Rightarrow> Inr (r\<lparr>q_text := (q_text r)(name \<mapsto> v)\<rparr>) | _ \<Rightarrow> Inl (invalid (name @ '' must be text'')))"

definition parse_int :: "string \<Rightarrow> json \<Rightarrow> workRequest \<Rightarrow> kerror + workRequest" where
  "parse_int name raw r = (case raw of
      JInt v \<Rightarrow> if - maxInt64 - 1 \<le> v \<and> v \<le> maxInt64 then Inr (r\<lparr>q_ints := (q_ints r)(name \<mapsto> v)\<rparr>)
                else Inl (invalid (name @ '' must be an integer''))
    | _ \<Rightarrow> Inl (invalid (name @ '' must be an integer'')))"

definition parse_number :: "string \<Rightarrow> json \<Rightarrow> workRequest \<Rightarrow> kerror + workRequest" where
  "parse_number name raw r =
     (case (case raw of JInt v \<Rightarrow> Some (of_int v) | JFloat v \<Rightarrow> Some v | _ \<Rightarrow> None) of
        Some v \<Rightarrow> if v < 0 \<or> v > of_int (maxInt64 + 1) then Inl (invalid (name @ '' must be a finite nonnegative time''))
                  else Inr (r\<lparr>q_numbers := (q_numbers r)(name \<mapsto> v)\<rparr>)
      | None \<Rightarrow> Inl (invalid (name @ '' must be a finite nonnegative time'')))"

definition parse_bool :: "string \<Rightarrow> json \<Rightarrow> workRequest \<Rightarrow> kerror + workRequest" where
  "parse_bool name raw r = (case raw of JBool v \<Rightarrow> Inr (r\<lparr>q_bools := (q_bools r)(name \<mapsto> v)\<rparr>) | _ \<Rightarrow> Inl (invalid (name @ '' must be a boolean'')))"

definition parse_references :: "json \<Rightarrow> workRequest \<Rightarrow> kerror + workRequest" where
  "parse_references raw r =
     (case (case raw of JArr js \<Rightarrow> json_strings js | _ \<Rightarrow> None) of
        Some v \<Rightarrow> if length v > 8 then Inl (invalid ''at most eight inert references are allowed'')
                  else rbind (check_refs v) (\<lambda>_. Inr (r\<lparr>q_refs := v\<rparr>))
      | None \<Rightarrow> Inl (invalid ''at most eight inert references are allowed''))"

definition parse_resources :: "json \<Rightarrow> workRequest \<Rightarrow> kerror + workRequest" where
  "parse_resources raw r =
     (case (case raw of JArr js \<Rightarrow> json_pairs js | _ \<Rightarrow> None) of
        Some v \<Rightarrow> rbind (resource_pairs v) (\<lambda>rs. Inr (r\<lparr>q_res := q_res r @ rs\<rparr>))
      | None \<Rightarrow> Inl (invalid ''resources are [kind, key] pairs''))"

definition parse_field :: "string list \<Rightarrow> string \<times> json \<Rightarrow> workRequest \<Rightarrow> kerror + workRequest" where
  "parse_field allowed member r =
     (case member of (name, raw) \<Rightarrow>
        if name \<notin> set allowed then Inl (invalid (''unknown request field '' @ name))
        else let r1 = r\<lparr>q_present := q_present r @ [name]\<rparr> in
          if name = ''proposed_role'' then
            (if raw = JNull then Inr (r1\<lparr>q_nulls := q_nulls r1 @ [name]\<rparr>)
             else rbind (decode_role raw) (\<lambda>g. Inr (r1\<lparr>q_role := Some g\<rparr>)))
          else if name \<in> set nullable_names \<and> raw = JNull then Inr (r1\<lparr>q_nulls := q_nulls r1 @ [name]\<rparr>)
          else if name \<in> set nullable_names \<or> name \<in> set text_names then parse_text name raw r1
          else if name \<in> set int_names then parse_int name raw r1
          else if name \<in> set number_names then parse_number name raw r1
          else if name \<in> set bool_names then parse_bool name raw r1
          else if name = ''references'' then parse_references raw r1
          else if name = ''resources'' then parse_resources raw r1
          else Inr r1)"

fun parse_fields :: "string list \<Rightarrow> (string \<times> json) list \<Rightarrow> workRequest \<Rightarrow> kerror + workRequest" where
  "parse_fields allowed [] r = Inr r"
| "parse_fields allowed (x # xs) r = rbind (parse_field allowed x r) (parse_fields allowed xs)"

section \<open>Validation\<close>

definition keyed :: "workRequest \<Rightarrow> bool" where
  "keyed r \<longleftrightarrow> \<not> workRead (q_op r) \<and> has r ''key''"

definition checkCheckoutKey :: "string \<Rightarrow> kerror + unit" where
  "checkCheckoutKey v =
     guard (has_prefix v ''checkout:v1:'' \<and> length v = 12 + 64 \<and> only_bytes ''0123456789abcdef'' (drop 12 v))
       (invalid ''checkout_resource must be a derived checkout:v1 resource'')"

text \<open>The required fields that the request lacks, each once, in their order.\<close>

definition missing_fields :: "workRequest \<Rightarrow> string list" where
  "missing_fields r =
     (let required = fields_of WorkRequired (q_op r)
            @ (if \<not> workRead (q_op r) \<and> (has r ''key'' \<or> has r ''deadline'') then [''key'', ''deadline''] else [])
      in rev (remdups (rev (filter (\<lambda>n. \<not> has r n) required))))"

definition scope_names :: "string list" where
  "scope_names = [''title'', ''criteria'', ''non_goals'']"

definition nonempty_fields :: "workRequest \<Rightarrow> string list" where
  "nonempty_fields r =
     (if q_op r = ''work-edit'' then filter (has r) scope_names
      else if q_op r = ''work-create'' then scope_names
      else if q_op r = ''work-start'' then [''checkpoint'', ''next_artifact'']
      else if q_op r = ''work-update'' then [''progress'', ''checkpoint'', ''next_artifact'']
      else if q_op r = ''work-release'' then [''checkpoint'']
      else if q_op r = ''work-report'' then [''summary'']
      else if q_op r = ''work-reject'' then [''criteria'', ''non_goals''] @ (if has r ''title'' then [''title''] else [])
      else [])"

definition check_identity :: "workRequest \<Rightarrow> kerror + unit" where
  "check_identity r =
     rbind (each (\<lambda>n. case q_text r n of None \<Rightarrow> Inr () | Some v \<Rightarrow> checkConsumer v n)
              [''author'', ''proposed_assignee'', ''owner'']) (\<lambda>_.
     rbind (if has r ''work_id'' then checkWorkID (text_of r ''work_id'') else Inr ()) (\<lambda>_.
     each (\<lambda>n. case q_ints r n of None \<Rightarrow> Inr ()
             | Some v \<Rightarrow> guard (\<not> v < 1) (invalid (n @ '' must be a positive integer'')))
       [''revision'', ''if_revision'', ''claim_generation'', ''if_claim_revision'', ''report_seq'']))"

definition check_texts :: "workRequest \<Rightarrow> kerror + unit" where
  "check_texts r =
     rbind (each (\<lambda>(n, limit). case q_text r n of None \<Rightarrow> Inr ()
              | Some v \<Rightarrow> if v \<noteq> [] then checkText v n limit else Inr ()) workTextLimits) (\<lambda>_.
     rbind (guard (\<not> (q_op r = ''work-edit'' \<and> nonempty_fields r = []))
              (invalid ''an edit changes at least one of title, criteria and non_goals'')) (\<lambda>_.
     each (\<lambda>n. guard (\<not> blank (text_of r n)) (invalid (n @ '' must not be empty''))) (nonempty_fields r)))"

definition check_lease :: "workRequest \<Rightarrow> kerror + unit" where
  "check_lease r =
     rbind (each (\<lambda>n. case q_ints r n of None \<Rightarrow> Inr ()
              | Some v \<Rightarrow> guard (\<not> (v < minLease \<or> v > maxLease))
                  (invalid (n @ '' is '' @ show_int minLease @ '' to '' @ show_int maxLease @ '' seconds'')))
              [''lease_seconds'', ''renew_for'']) (\<lambda>_.
     rbind (if has r ''resources'' then rbind (claimBundle (text_of r ''work_id'') (q_res r)) (\<lambda>_. Inr ()) else Inr ()) (\<lambda>_.
     rbind (guard (has r ''handoff_to'' = has r ''checkout_resource'')
              (invalid ''handoff_to and checkout_resource must be supplied together'')) (\<lambda>_.
     if has r ''handoff_to''
     then rbind (checkText (text_of r ''handoff_to'') ''handoff_to'' 256) (\<lambda>_. checkCheckoutKey (text_of r ''checkout_resource''))
     else Inr ())))"

definition check_outcome :: "workRequest \<Rightarrow> kerror + unit" where
  "check_outcome r =
     (let op = q_op r in
      rbind (guard (\<not> ((op = ''work-report'' \<or> workVerdict op) \<and> q_refs r = []))
               (invalid ''a report or verdict needs evidence references'')) (\<lambda>_.
      if op = ''work-finish'' then
        (if text_of r ''outcome'' = ''completed''
         then guard (q_refs r \<noteq> []) (invalid ''completion needs evidence references'')
         else if text_of r ''outcome'' = ''withdrawn''
         then guard (\<not> blank (text_of r ''reason'')) (invalid ''withdrawal needs a reason'')
         else Inl (invalid ''the outcome is completed or withdrawn''))
      else Inr ()))"

definition check_lifecycle :: "workRequest \<Rightarrow> kerror + unit" where
  "check_lifecycle r =
     (let op = q_op r in
      rbind (case q_text r ''lifecycle'' of None \<Rightarrow> Inr ()
             | Some v \<Rightarrow> guard (v = ''active'' \<or> v = ''blocked''
                 \<or> (op = ''work-list'' \<and> (v = ''open'' \<or> v = ''reported'' \<or> v = ''finished'')))
                 (invalid ''invalid lifecycle filter or transition'')) (\<lambda>_.
      rbind (guard (\<not> (op = ''work-update'' \<and> text_of r ''lifecycle'' = ''blocked'' \<and> blank (text_of r ''blocker'')))
               (invalid ''blocked progress needs a blocker'')) (\<lambda>_.
      rbind (case q_ints r ''limit'' of None \<Rightarrow> Inr () | Some v \<Rightarrow> guard (\<not> (v < 1 \<or> v > 100)) (invalid ''limit is 1 to 100'')) (\<lambda>_.
      if keyed r then checkText (text_of r ''key'') ''key'' 128 else Inr ()))))"

definition validate :: "workRequest \<Rightarrow> kerror + unit" where
  "validate r =
     rbind (guard (\<not> (has r ''proposed_assignee'' \<and> has r ''proposed_role''))
              (invalid ''proposed_assignee and proposed_role are mutually exclusive'')) (\<lambda>_.
     rbind (guard (\<not> (q_op r = ''work-propose'' \<and> \<not> has r ''proposed_assignee'' \<and> \<not> has r ''proposed_role''))
              (invalid ''a proposal supplies proposed_assignee or proposed_role'')) (\<lambda>_.
     rbind (if has r ''after'' then checkWorkID (text_of r ''after'') else Inr ()) (\<lambda>_.
     rbind (guard (missing_fields r = [])
              (invalid (''missing required fields: '' @ join_with '', '' (missing_fields r)))) (\<lambda>_.
     rbind (check_identity r) (\<lambda>_.
     rbind (check_texts r) (\<lambda>_.
     rbind (check_lease r) (\<lambda>_.
     rbind (check_outcome r) (\<lambda>_. check_lifecycle r))))))))"

definition allowed_fields :: "string \<Rightarrow> string list" where
  "allowed_fields op = fields_of workFields op @ (if workRead op then [] else [''author'', ''key'', ''deadline''])"

definition parseWork :: "string \<Rightarrow> (string \<times> json) list \<Rightarrow> kerror + workRequest" where
  "parseWork op members =
     (if map_of workFields op = None then Inl (invalid ''unknown work operation'')
      else rbind (parse_fields (allowed_fields op) members (new_request op)) (\<lambda>r.
           rbind (validate r) (\<lambda>_. Inr r)))"

section \<open>The fingerprint\<close>

definition field_json :: "workRequest \<Rightarrow> string \<Rightarrow> (string \<times> json) option" where
  "field_json r n =
     (if n \<in> set (q_nulls r) then Some (n, JNull)
      else if n = ''references'' then Some (n, JArr (map JStr (q_refs r)))
      else if n = ''resources'' then Some (n, JArr (map (\<lambda>c. JArr [JStr (r_kind c), JStr (r_key c)]) (q_res r)))
      else if n = ''proposed_role'' then Some (n, case q_role r of None \<Rightarrow> JNull | Some g \<Rightarrow> role_json g)
      else case q_text r n of Some v \<Rightarrow> Some (n, JStr v)
      | None \<Rightarrow> (case q_ints r n of Some v \<Rightarrow> Some (n, JInt v)
      | None \<Rightarrow> (case q_numbers r n of Some v \<Rightarrow> Some (n, JFloat v)
      | None \<Rightarrow> map_option (\<lambda>v. (n, JBool v)) (q_bools r n))))"

definition request_content :: "workRequest \<Rightarrow> string \<Rightarrow> json" where
  "request_content r consumer =
     JObj (sort_key fst ((''op'', JStr (q_op r)) # (''consumer'', JStr consumer) # List.map_filter (field_json r) (remdups (q_present r))))"

definition fingerprint :: "ext \<Rightarrow> workRequest \<Rightarrow> string \<Rightarrow> string" where
  "fingerprint x r consumer = hex_encode (sha256 x (json_encode x (request_content r consumer)))"

end
