(* ===== verification/Work.thy ===== *)
theory Work
  imports Work_Request
begin

text \<open>
  Work items (\<^verbatim>\<open>internal/core/work.go\<close>, \<^verbatim>\<open>work_role.go\<close>, \<^verbatim>\<open>work_verdict.go\<close>,
  \<^verbatim>\<open>work_maintenance.go\<close> and the handoff message of \<^verbatim>\<open>checkout_role.go\<close>): the retained record of an
  item, its view and list, the event stream with its immutable payloads, replay of keyed retries,
  the operations of \<open>apply\<close>, the due transitions of \<open>reconcile\<close>, and the maintenance sweep.

  An item moves between the lifecycles open, active, blocked, reported and finished. A start takes a
  claim of the lease engine and raises the item's progress epoch; an update raises both again; a
  release, finish or report ends the claim. A report waits for the verdict of another worker.
\<close>

section \<open>Native callers and roles\<close>

definition ms_of :: "time \<Rightarrow> int" where
  "ms_of now = \<lfloor>now * 1000\<rfloor>"

definition nativeWorkActorForKey :: "ext \<Rightarrow> Key \<Rightarrow> string" where
  "nativeWorkActorForKey x k =
     (if \<not> validKey (k_family k) (k_id k) then [] else hex_encode (sha256 x (json_text x [k_family k, k_id k])))"

definition nativeWorkActor :: "ext \<Rightarrow> MemoryCaller \<Rightarrow> string" where
  "nativeWorkActor x m = (if k_family (m_native m) \<noteq> m_family m then [] else nativeWorkActorForKey x (m_native m))"

definition nativeWorkConsumer :: "ext \<Rightarrow> MemoryCaller \<Rightarrow> string" where
  "nativeWorkConsumer x m = ''native-work:'' @ nativeWorkActor x m"

text \<open>The registered SQL function of the two session columns.\<close>

definition koinon_native_work_actor :: "ext \<Rightarrow> string \<Rightarrow> string \<Rightarrow> string" where
  "koinon_native_work_actor x family i = nativeWorkActorForKey x (key family i)"

definition roleResolution :: "db \<Rightarrow> string \<Rightarrow> WorkRole \<Rightarrow> time \<Rightarrow> WorkRoleResolution" where
  "roleResolution d repo role now =
     (case alias_row d (wr_family role) repo (wr_role role) of
        None \<Rightarrow> \<lparr>rr_state = ''unheld'', rr_address = [], rr_holder = []\<rparr>
      | Some n \<Rightarrow>
          if holds d (ms_of now) (wr_family role) (n_holder_id n) repo (wr_role role)
          then \<lparr>rr_state = ''held'', rr_address = n_name n, rr_holder = peerOf d (wr_family role) (n_holder_id n)\<rparr>
          else \<lparr>rr_state = (case n_conflict n of None \<Rightarrow> ''unheld'' | Some [] \<Rightarrow> ''unheld'' | Some _ \<Rightarrow> ''conflict''),
                rr_address = n_name n, rr_holder = []\<rparr>)"

definition requireNativeWorkCaller :: "ext \<Rightarrow> db \<Rightarrow> MemoryCaller \<Rightarrow> string \<Rightarrow> time \<Rightarrow> kerror + unit" where
  "requireNativeWorkCaller x d m actor now =
     (if actor = [] \<or> m_family m = k_family maintainerKey then Inr ()
      else if actor \<noteq> nativeWorkActor x m
      then Inl (workError ''stale_claim'' ''this ownership belongs to another native session'')
      else rbind (activeCaller d (ms_of now) (m_native m) False) (\<lambda>_.
           rbind (opt_err ErrNoRows (session_row d (k_family (m_native m)) (k_id (m_native m)))) (\<lambda>s.
           guard (s_repository s = m_repository m)
             (workError ''role_not_held'' ''the native session belongs to another repository''))))"

definition ownerOperation :: "string \<Rightarrow> bool" where
  "ownerOperation op \<longleftrightarrow> op \<in> set [''work-update'', ''work-edit'', ''work-release'', ''work-finish'', ''claim-renew'', ''work-report'']"

definition requireWorkRole :: "ext \<Rightarrow> db \<Rightarrow> MemoryCaller \<Rightarrow> WorkRole \<Rightarrow> time \<Rightarrow> kerror + unit" where
  "requireWorkRole x d m role now =
     (let resolved = roleResolution d (m_repository m) role now;
          refused = workError ''role_not_held'' ''this native session does not hold the proposed role''
      in if rr_state resolved \<noteq> ''held''
         then Inl (WorkRefusal (''role_'' @ rr_state resolved) ''the proposed role has no current holder''
                     [(''role_resolution'', DTexts [rr_state resolved, rr_address resolved, rr_holder resolved])])
         else if wr_family role \<noteq> k_family (m_native m) \<or> nativeWorkActor x m = [] then Inl refused
         else case requireHolder d (ms_of now) (m_native m) (rr_address resolved) of
             Inl _ \<Rightarrow> Inl refused | Inr _ \<Rightarrow> Inr ())"

definition ResolveWorkCaller :: "int \<Rightarrow> Key \<Rightarrow> string option \<Rightarrow> db \<Rightarrow> kerror + MemoryCaller" where
  "ResolveWorkCaller now caller consumer d =
     rbind (ResolveMemoryCaller now caller consumer d) (\<lambda>m.
     let m1 = (if consumer = None \<and> \<not> isParticipantID (m_consumer m)
               then m\<lparr>m_consumer := k_family caller @ '':'' @ k_id caller\<rparr> else m)
     in case checkConsumer (m_consumer m1) ''consumer'' of
          Inl _ \<Rightarrow> Inl (workError ''invalid_request'' ''the session key is too long for a consumer key; pass a consumer of 1 to 128 characters'')
        | Inr _ \<Rightarrow> Inr (m1\<lparr>m_consumer_explicit := (consumer \<noteq> None)\<rparr>))"

section \<open>Reading items\<close>

definition item_row :: "db \<Rightarrow> string \<Rightarrow> string \<Rightarrow> workItem option" where
  "item_row d store workID = List.find (\<lambda>w. w_store w = store \<and> w_work_id w = workID) (work_items d)"

definition retained :: "time \<Rightarrow> workItem \<Rightarrow> bool" where
  "retained now w \<longleftrightarrow> (case w_expires_at w of None \<Rightarrow> True | Some t \<Rightarrow> t > now)"

definition current :: "db \<Rightarrow> string \<Rightarrow> string \<Rightarrow> time \<Rightarrow> kerror + workItem" where
  "current d store workID now =
     (case item_row d store workID of
        None \<Rightarrow> Inl (workError ''work_not_found'' ''the work item is absent or no longer retained'')
      | Some w \<Rightarrow> if \<not> retained now w
          then Inl (workError ''work_not_found'' ''the work item is absent or no longer retained'') else Inr w)"

definition ongoing :: "string \<Rightarrow> bool" where
  "ongoing lifecycle \<longleftrightarrow> lifecycle = ''active'' \<or> lifecycle = ''blocked''"

definition freshness :: "string \<Rightarrow> time option \<Rightarrow> bool \<Rightarrow> time \<Rightarrow> time \<Rightarrow> bool \<times> bool \<times> bool" where
  "freshness lifecycle deadline active leaseExpires now =
     (let alive = active \<and> leaseExpires > now;
          late = ongoing lifecycle \<and> (case deadline of None \<Rightarrow> False | Some t \<Rightarrow> t \<le> now)
      in (alive, late, ongoing lifecycle \<and> (\<not> alive \<or> late)))"

definition scopes_of :: "db \<Rightarrow> string \<Rightarrow> string \<Rightarrow> scopeRow list" where
  "scopes_of d store workID =
     sort_key sc_revision (filter (\<lambda>r. sc_store r = store \<and> sc_work_id r = workID) (work_scope_revisions d))"

text \<open>A scope revision after the first start whose criteria or non-goals differ from the one before it.\<close>

fun scope_changed :: "int option \<Rightarrow> scopeRow list \<Rightarrow> bool" where
  "scope_changed first (a # b # rest) =
     ((case first of None \<Rightarrow> False | Some f \<Rightarrow> sc_revision b > f)
        \<and> (sc_criteria b, sc_non_goals b) \<noteq> (sc_criteria a, sc_non_goals a)
      \<or> scope_changed first (b # rest))"
| "scope_changed first _ = False"

definition claim_view :: "db \<Rightarrow> string \<Rightarrow> heldBundle \<Rightarrow> workClaimView" where
  "claim_view d store b = \<lparr>cv_consumer = b_consumer b, cv_generation = b_generation b, cv_revision = b_revision b,
     cv_expires_at = b_expires_at b, cv_resources = bundleResources d store (b_generation b),
     cv_ownership = (if b_native_actor b \<noteq> [] then ''native'' else ''legacy'')\<rparr>"

definition view :: "db \<Rightarrow> string \<Rightarrow> workItem \<Rightarrow> time \<Rightarrow> kerror + WorkView" where
  "view d store w now =
     rbind (case w_proposed_role w of
              None \<Rightarrow> Inr None
            | Some role \<Rightarrow> rbind (opt_err ErrNoRows (List.find (\<lambda>m. ms_store_id m = store) (memory_stores d))) (\<lambda>m.
                Inr (Some (roleResolution d (ms_repository m) role now)))) (\<lambda>resolved.
     let held = bundleFor d store (w_work_id w);
         active = (case held of None \<Rightarrow> False | Some b \<Rightarrow> b_active b);
         expires = (case held of None \<Rightarrow> 0 | Some b \<Rightarrow> b_expires_at b)
     in case freshness (w_lifecycle w) (w_progress_deadline w) active expires now of (alive, late, unverified) \<Rightarrow>
        Inr \<lparr>v_item = w, v_seq = w_latest_seq w, v_observed_at = now,
             v_observed_lease_expires = map_option b_expires_at held,
             v_current_claim = (if alive then map_option (claim_view d store) held else None),
             v_lease_valid = alive, v_progress_overdue = late, v_progress_unverified = unverified,
             v_progress_unverified_reasons = (if ongoing (w_lifecycle w) \<and> \<not> alive then [''lease_expired''] else [])
               @ (if late then [''progress_deadline_missed''] else []),
             v_scope_revisions = map sc_revision (scopes_of d store (w_work_id w)),
             v_criteria_changed_after_start = scope_changed (w_first_start_revision w) (scopes_of d store (w_work_id w)),
             v_role_resolution = resolved, v_report = None, v_verdict_evidence = None\<rparr>)"

definition workViews :: "db \<Rightarrow> string \<Rightarrow> time \<Rightarrow> kerror + WorkView list" where
  "workViews d repo now =
     (let store = storeOf d repo in
      if store = [] then Inr []
      else foldr (\<lambda>w rest. rbind (view d store w now) (\<lambda>v. rbind rest (\<lambda>vs. Inr (v # vs))))
             (sort_key w_work_id (filter (\<lambda>w. w_store w = store \<and> retained now w) (work_items d))) (Inr []))"

definition frozenReport :: "db \<Rightarrow> string \<Rightarrow> int \<Rightarrow> kerror + workReport" where
  "frozenReport d store seq =
     (case List.find (\<lambda>v. we_store v = store \<and> we_seq v = seq \<and> we_kind v = ''reported'') (work_events d) of
        None \<Rightarrow> Inl (workError ''incompatible_store'' ''a reported event is missing'')
      | Some v \<Rightarrow> (case v_report (we_payload v) of
          None \<Rightarrow> Inl (workError ''incompatible_store'' ''a reported event has no report'')
        | Some p \<Rightarrow> Inr (p\<lparr>rp_references := w_references (v_item (we_payload v))\<rparr>)))"

text \<open>\<open>rowCost\<close>: the charge of the stored row, as Go sums it.\<close>

definition rowCost :: "ext \<Rightarrow> string \<Rightarrow> workItem \<Rightarrow> int" where
  "rowCost x store w =
     workRowOverhead + int (length store + length (w_work_id w) + length (w_lifecycle w) + length (w_title w) + length (w_criteria w)
       + length (w_non_goals w) + length (w_created_consumer w) + length (w_progress w) + length (w_checkpoint w)
       + length (w_next_artifact w) + length (w_blocker w) + length (w_reason w) + length (json_text x (w_references w))
       + length (encoded x (w_proposed_role w)) + length (w_report_actor w))
     + sum_list (map (\<lambda>v. case v of None \<Rightarrow> 0 | Some t \<Rightarrow> int (length t))
         [w_proposed_assignee w, w_last_writer w, w_outcome w, w_report_consumer w, w_verdict w])"

section \<open>Events and scope revisions\<close>

definition lifecycles :: "string list" where
  "lifecycles = [''open'', ''active'', ''blocked'', ''reported'', ''finished'']"

definition event_kinds :: "string list" where
  "event_kinds = [''created'', ''proposed'', ''edited'', ''started'', ''updated'', ''released'', ''finished'',
     ''progress-overdue'', ''lease-expired'', ''reported'', ''accepted'', ''rejected'']"

text \<open>The CHECK constraints of \<open>work_items\<close>.\<close>

definition item_checks :: "workItem \<Rightarrow> bool" where
  "item_checks w \<longleftrightarrow> length (w_work_id w) = 32 \<and> w_revision w > 0 \<and> w_lifecycle w \<in> set lifecycles
     \<and> (case w_verdict w of None \<Rightarrow> True | Some v \<Rightarrow> v = ''accepted'' \<or> v = ''rejected'')
     \<and> w_scope_revision w > 0 \<and> w_progress_epoch w \<ge> 0
     \<and> (case w_outcome w of None \<Rightarrow> True | Some v \<Rightarrow> v = ''completed'' \<or> v = ''withdrawn'')
     \<and> w_latest_seq w > 0
     \<and> (if w_lifecycle w = ''finished'' then w_outcome w \<noteq> None \<and> w_finished_at w \<noteq> None \<and> w_expires_at w \<noteq> None
        else w_outcome w = None \<and> w_finished_at w = None \<and> w_expires_at w = None)
     \<and> (w_lifecycle w = ''reported'') = w_verdict_credit w
     \<and> (w_lifecycle w = ''reported'' \<longrightarrow> w_report_seq w \<noteq> None)"

text \<open>
  What an UPDATE stores of the item and \<open>scanWork\<close> reads back: the columns it does not name stay, the
  private fields have no column, and an empty report consumer reads as NULL.
\<close>

definition stored :: "workItem \<Rightarrow> workItem \<Rightarrow> workItem" where
  "stored old w = w\<lparr>w_store := w_store old, w_created_at := w_created_at old, w_created_consumer := w_created_consumer old,
     w_report_consumer := (if w_report_consumer w = Some [] then None else w_report_consumer w),
     w_report := None, w_evidence := None\<rparr>"

definition update_item :: "string \<Rightarrow> workItem \<Rightarrow> db \<Rightarrow> kerror + db" where
  "update_item store w d =
     (if item_row d store (w_work_id w) \<noteq> None \<and> \<not> item_checks w then Inl ErrConstraint
      else Inr (d\<lparr>work_items := update_where (\<lambda>q. w_store q = store \<and> w_work_id q = w_work_id w) (\<lambda>q. stored q w) (work_items d)\<rparr>))"

definition item_ok :: "workItem \<Rightarrow> workItem list \<Rightarrow> bool" where
  "item_ok w t \<longleftrightarrow> item_checks w \<and> fresh_key (\<lambda>q. (w_store q, w_work_id q)) w t"

definition scope_ok :: "scopeRow \<Rightarrow> scopeRow list \<Rightarrow> bool" where
  "scope_ok r t \<longleftrightarrow> sc_revision r > 0 \<and> fresh_key (\<lambda>q. (sc_store q, sc_work_id q, sc_revision q)) r t"

definition event_ok :: "workEventRow \<Rightarrow> workEventRow list \<Rightarrow> bool" where
  "event_ok v t \<longleftrightarrow> we_seq v > 0 \<and> we_revision v > 0 \<and> we_kind v \<in> set event_kinds \<and> fresh_key (\<lambda>q. (we_store q, we_seq q)) v t"

definition entry_ok :: "entryRow \<Rightarrow> entryRow list \<Rightarrow> bool" where
  "entry_ok n t \<longleftrightarrow> fresh_key (\<lambda>q. (e_repository q, e_seq q)) n t"

definition replay_ok :: "replayRow \<Rightarrow> replayRow list \<Rightarrow> bool" where
  "replay_ok p t \<longleftrightarrow> fresh_key (\<lambda>q. (wp_store q, wp_consumer q, wp_key q)) p t"

text \<open>\<open>head=head+1 RETURNING head\<close>: past the last integer SQLite returns a real, which does not scan.\<close>

definition advance_head :: "string \<Rightarrow> db \<Rightarrow> kerror + (int \<times> db)" where
  "advance_head store d =
     rbind (opt_err ErrNoRows (List.find (\<lambda>m. ms_store_id m = store) (memory_stores d))) (\<lambda>m.
       if ms_head m \<ge> maxInt64 then Inl (ErrText ''converting a head to int64'')
       else Inr (ms_head m + 1, d\<lparr>memory_stores := update_where (\<lambda>q. ms_store_id q = store)
              (\<lambda>q. q\<lparr>ms_head := ms_head q + 1\<rparr>) (memory_stores d)\<rparr>))"

definition numbered :: "string \<Rightarrow> int \<Rightarrow> workItem \<Rightarrow> workItem" where
  "numbered kind seq w =
     (let w1 = w\<lparr>w_latest_seq := seq\<rparr> in
      if kind = ''reported'' then w1\<lparr>w_report_seq := Some seq\<rparr>
      else if kind = ''accepted'' \<or> kind = ''rejected'' then w1\<lparr>w_verdict_seq := Some seq\<rparr> else w1)"

definition event_entry :: "MemoryCaller \<Rightarrow> int \<Rightarrow> time \<Rightarrow> workItem \<Rightarrow> string \<Rightarrow> string option \<Rightarrow> entryRow" where
  "event_entry m seq now w consumer author =
     \<lparr>e_repository = m_repository m, e_seq = seq, e_ts = now, e_type = ''work-event'', e_scope = ''repo'',
      e_scope_target = Some (w_work_id w), e_path = None, e_body = [], e_author = author,
      e_writer_family = (if m_family m = [] then ''daemon'' else m_family m), e_writer_name = m_name m, e_consumer = consumer,
      e_revision = w_revision w, e_supersedes = None, e_revokes = None, e_superseded_by = None, e_revoked_by = None,
      e_conflicts_with = None, e_expires = None\<rparr>"

text \<open>
  \<open>event\<close>. The payload's item keeps the fields that the JSON leaves out (the report actor, the verdict
  credit and the two private fields); nothing reads them from a payload.
\<close>

definition event ::
  "ext \<Rightarrow> string \<Rightarrow> MemoryCaller \<Rightarrow> workItem \<Rightarrow> string \<Rightarrow> string \<Rightarrow> string option \<Rightarrow> time \<Rightarrow> db \<Rightarrow> kerror + (workItem \<times> db)" where
  "event x store m w kind consumer author now d =
     rbind (guard (\<not> rowCost x store w > maxWorkRowCost)
              (workError ''record_too_large'' ''the stored work record exceeds the physical proof bound'')) (\<lambda>_.
     rbind (advance_head store d) (\<lambda>(seq, d1).
     let w1 = numbered kind seq w in
     rbind (update_item store w1 d1) (\<lambda>d2.
     rbind (view d2 store w1 now) (\<lambda>v.
     let payload = v\<lparr>v_report := w_report w1, v_verdict_evidence := w_evidence w1\<rparr>;
         limit = (if kind = ''progress-overdue'' \<or> kind = ''lease-expired'' then maxWorkRecord else maxWorkRecord - viewHeadroom)
     in
     rbind (guard (\<not> int (json_bytes_view x payload) > limit)
              (workError ''record_too_large'' ''the encoded work view exceeds its byte bound'')) (\<lambda>_.
     rbind (insert_row ErrConstraint entry_ok (event_entry m seq now w1 consumer author) (memory_entries d2)) (\<lambda>entries.
     rbind (insert_row ErrConstraint event_ok
              \<lparr>we_store = store, we_seq = seq, we_work_id = w_work_id w1, we_revision = w_revision w1, we_kind = kind,
               we_payload = payload, we_actor = nativeActor m\<rparr> (work_events d2)) (\<lambda>events.
       Inr (w1, d2\<lparr>memory_entries := entries, work_events := events\<rparr>))))))))"

definition scope :: "ext \<Rightarrow> string \<Rightarrow> workItem \<Rightarrow> string \<Rightarrow> string option \<Rightarrow> time \<Rightarrow> db \<Rightarrow> kerror + db" where
  "scope x store w consumer author now d =
     (let row = \<lparr>sc_store = store, sc_work_id = w_work_id w, sc_revision = w_revision w, sc_ts = now, sc_consumer = consumer,
                 sc_author = author, sc_title = w_title w, sc_criteria = w_criteria w, sc_non_goals = w_non_goals w\<rparr>
      in rbind (guard (\<not> int (json_bytes_scope x row) > maxWorkScope)
                  (workError ''record_too_large'' ''the encoded scope revision exceeds its byte bound'')) (\<lambda>_.
         rbind (insert_row ErrConstraint scope_ok row (work_scope_revisions d)) (\<lambda>t.
           Inr (d\<lparr>work_scope_revisions := t\<rparr>))))"

section \<open>Verdicts\<close>

definition maxStoreVerdicts :: int where "maxStoreVerdicts = 16"
definition maxDaemonVerdicts :: int where "maxDaemonVerdicts = 32"

definition requireVerdictCaller :: "ext \<Rightarrow> MemoryCaller \<Rightarrow> workItem \<Rightarrow> kerror + unit" where
  "requireVerdictCaller x m w =
     guard (\<not> (w_report_consumer w = Some (m_consumer m)
              \<or> (w_report_actor w \<noteq> [] \<and> nativeWorkActor x m = w_report_actor w)))
       (workError ''own_report'' ''the reporting worker cannot record the verdict on its own report'')"

definition reserveVerdict :: "db \<Rightarrow> string \<Rightarrow> string \<Rightarrow> memoryLimits \<Rightarrow> kerror + unit" where
  "reserveVerdict d store workID l =
     (if sum_flags w_verdict_credit (filter (\<lambda>w. w_store w = store) (work_items d)) \<ge> maxStoreVerdicts
      then Inl (workError ''capacity'' ''this store's pending verdict limit is reached; the claim is kept'')
      else if sum_flags w_verdict_credit (work_items d) \<ge> maxDaemonVerdicts
      then Inl (workError ''capacity'' ''the daemon's pending verdict limit is reached; the claim is kept'')
      else if int (length (scopes_of d store workID)) \<ge> lm_work_scopes_per_item l
      then Inl (workError ''capacity'' ''this item has no scope revision left for a rejection; the claim is kept'')
      else Inr ())"

section \<open>Replay\<close>

definition replay :: "wenv \<Rightarrow> MemoryCaller \<Rightarrow> workRequest \<Rightarrow> time \<Rightarrow> db \<Rightarrow> kerror + (string \<times> workResult option)" where
  "replay e m r now d =
     (if \<not> keyed r then Inr ([], None)
      else
        rbind (requireParticipantCaller d (wk_now_ms e) m) (\<lambda>_.
        let ttl = lm_idem_ttl (wk_limits e); deadline = number_of r ''deadline'' in
        rbind (guard (\<not> deadline \<le> now)
                 (workError ''retry_deadline_expired'' ''the retry deadline has passed; query the item to reconcile'')) (\<lambda>_.
        rbind (guard (\<not> deadline > now + ttl)
                 (invalid (''the retry deadline must be a Unix time in seconds at most '' @ show_int \<lfloor>ttl\<rfloor> @ '' s ahead''))) (\<lambda>_.
        let print = fingerprint (wk_ext e) r (m_consumer m); store = storeOf d (m_repository m) in
        if store = [] then Inr (print, None)
        else case List.find (\<lambda>p. wp_store p = store \<and> wp_consumer p = m_consumer m \<and> wp_key p = text_of r ''key'') (work_replays d) of
            None \<Rightarrow> Inr (print, None)
          | Some p \<Rightarrow>
              rbind (requireNativeWorkCaller (wk_ext e) d m (wp_native_actor p) now) (\<lambda>_.
              if wp_scheme p \<noteq> fingerprintScheme \<or> wp_fingerprint p \<noteq> print \<or> wp_operation p \<noteq> q_op r
              then Inl (workError ''idempotency_conflict'' ''this work replay key is bound to a different request'')
              else Inr (print, Some ((wp_result p)\<lparr>x_duplicate := True\<rparr>)))))))"

definition storeReplay ::
  "ext \<Rightarrow> string \<Rightarrow> MemoryCaller \<Rightarrow> workRequest \<Rightarrow> string \<Rightarrow> string \<Rightarrow> workResult \<Rightarrow> time \<Rightarrow> db \<Rightarrow> kerror + (workResult \<times> db)" where
  "storeReplay x store m r actor print result now d =
     rbind (guard (\<not> int (json_bytes_result x result) > maxWorkResult)
              (workError ''record_too_large'' ''the encoded work result exceeds its byte bound'')) (\<lambda>_.
     if \<not> keyed r then Inr (result, d)
     else rbind (insert_row ErrConstraint replay_ok
            \<lparr>wp_store = store, wp_consumer = m_consumer m, wp_key = text_of r ''key'', wp_operation = q_op r,
             wp_scheme = fingerprintScheme, wp_fingerprint = print, wp_seq = x_seq result, wp_ts = now,
             wp_deadline = number_of r ''deadline'', wp_result = result, wp_native_actor = actor\<rparr> (work_replays d)) (\<lambda>t.
          Inr (result, d\<lparr>work_replays := t\<rparr>)))"

section \<open>The operations of apply\<close>

definition optional :: "workRequest \<Rightarrow> string \<Rightarrow> string option" where
  "optional r name = q_text r name"

definition work_counter :: "db \<Rightarrow> string \<Rightarrow> kerror + (int \<times> db)" where
  "work_counter = counter ms_work_counter (\<lambda>v s. s\<lparr>ms_work_counter := v\<rparr>)"

definition new_item :: "string \<Rightarrow> int \<Rightarrow> int \<Rightarrow> MemoryCaller \<Rightarrow> workRequest \<Rightarrow> time \<Rightarrow> workItem" where
  "new_item store n head m r now =
     \<lparr>w_store = store, w_work_id = hex_padded 32 (nat n), w_revision = 1, w_lifecycle = ''open'', w_title = text_of r ''title'',
      w_criteria = text_of r ''criteria'', w_non_goals = text_of r ''non_goals'', w_proposed_assignee = optional r ''proposed_assignee'',
      w_proposed_role = q_role r, w_created_at = now, w_created_consumer = m_consumer m, w_first_start_revision = None,
      w_scope_revision = 1, w_progress_epoch = 0, w_last_progress_at = None, w_progress_deadline = None, w_progress = [],
      w_checkpoint = [], w_next_artifact = [], w_blocker = [], w_last_writer = None, w_last_generation = None,
      w_last_lease_expires = None, w_lease_expired = False, w_outcome = None, w_reason = [], w_references = q_refs r,
      w_finished_at = None, w_expires_at = None, w_latest_seq = head + 1, w_report_seq = None, w_report_consumer = None,
      w_verdict = None, w_verdict_seq = None, w_report_actor = [], w_verdict_credit = False, w_report = None, w_evidence = None\<rparr>"

text \<open>A transition: the event's kind, the changed item and the database before the event is written.\<close>

type_synonym transition = "kerror + (string \<times> workItem \<times> db)"

definition apply_create :: "ext \<Rightarrow> string \<Rightarrow> MemoryCaller \<Rightarrow> workRequest \<Rightarrow> time \<Rightarrow> db \<Rightarrow> transition" where
  "apply_create x store m r now d =
     rbind (work_counter d store) (\<lambda>(n, d1).
     rbind (opt_err ErrNoRows (List.find (\<lambda>s. ms_store_id s = store) (memory_stores d1))) (\<lambda>s.
     let w = new_item store n (ms_head s) m r now in
     rbind (insert_row ErrConstraint item_ok (w\<lparr>w_proposed_role := None\<rparr>) (work_items d1)) (\<lambda>items.
     rbind (scope x store w (m_consumer m) (optional r ''author'') now (d1\<lparr>work_items := items\<rparr>)) (\<lambda>d2.
       Inr (''created'', w, d2)))))"

text \<open>The lifecycle guards on an existing item.\<close>

definition lifecycle_guard :: "ext \<Rightarrow> MemoryCaller \<Rightarrow> workRequest \<Rightarrow> workItem \<Rightarrow> kerror + unit" where
  "lifecycle_guard x m r w =
     rbind (guard (w_lifecycle w \<noteq> ''finished'') (workError ''invalid_transition'' ''finished work is terminal'')) (\<lambda>_.
     rbind (guard (\<not> (w_lifecycle w = ''reported'' \<and> q_op r \<noteq> ''work-propose'' \<and> \<not> workVerdict (q_op r)))
              (workError ''invalid_transition'' ''reported work awaits accept or reject'')) (\<lambda>_.
     if workVerdict (q_op r) then
       rbind (guard (w_lifecycle w = ''reported'') (workError ''invalid_transition'' ''only reported work takes a verdict'')) (\<lambda>_.
       rbind (requireVerdictCaller x m w) (\<lambda>_.
       guard (w_report_seq w = Some (int_of r ''report_seq''))
         (WorkRefusal ''stale_report'' ''the report sequence is not this item's current report; read the item again''
            [(''current_report_seq'', DOptInt (w_report_seq w))])))
     else Inr ()))"

definition owned :: "workRequest \<Rightarrow> heldBundle option \<Rightarrow> time \<Rightarrow> bool" where
  "owned r held now \<longleftrightarrow> q_op r \<in> set [''work-update'', ''work-release'', ''work-finish'', ''claim-renew'', ''work-report'']
     \<or> (q_op r = ''work-edit'' \<and> (case held of None \<Rightarrow> False | Some b \<Rightarrow> b_active b \<and> b_expires_at b > now))"

text \<open>The ownership guard; it answers the native actor that the request's replay is bound to.\<close>

definition owner_guard :: "ext \<Rightarrow> string \<Rightarrow> MemoryCaller \<Rightarrow> workRequest \<Rightarrow> string \<Rightarrow> workItem \<Rightarrow> time \<Rightarrow> db \<Rightarrow> kerror + string" where
  "owner_guard x store m r actor w now d =
     (let held = bundleFor d store (w_work_id w) in
      if \<not> owned r held now then Inr actor
      else
        rbind (guard (\<not> (case held of None \<Rightarrow> False | Some b \<Rightarrow> b_native_actor b \<noteq> [] \<and> m_family m \<noteq> k_family maintainerKey
                          \<and> b_native_actor b \<noteq> nativeWorkActor x m))
                 (workError ''stale_claim'' ''this claim belongs to another native session'')) (\<lambda>_.
        rbind (guard (has r ''claim_generation'')
                 (invalid ''a live claim exists; its owner's claim_generation is required'')) (\<lambda>_.
        rbind (owner d store (w_work_id w) (m_consumer m) (int_of r ''claim_generation'') now) (\<lambda>b.
        rbind (guard (b_progress_epoch b = w_progress_epoch w)
                 (workError ''incompatible_store'' ''work and claim progress epochs disagree'')) (\<lambda>_.
          Inr (if b_native_actor b \<noteq> [] then b_native_actor b else actor))))))"

definition lease_seconds :: "workRequest \<Rightarrow> int" where
  "lease_seconds r = (case q_ints r ''lease_seconds'' of None \<Rightarrow> defaultLease | Some v \<Rightarrow> v)"

definition apply_propose :: "workRequest \<Rightarrow> workItem \<Rightarrow> db \<Rightarrow> transition" where
  "apply_propose r w d = Inr (''proposed'', w\<lparr>w_proposed_assignee := optional r ''proposed_assignee'', w_proposed_role := q_role r\<rparr>, d)"

definition edited :: "workRequest \<Rightarrow> string \<Rightarrow> string \<Rightarrow> string" where
  "edited r name old = (if has r name then text_of r name else old)"

definition apply_edit :: "ext \<Rightarrow> string \<Rightarrow> MemoryCaller \<Rightarrow> workRequest \<Rightarrow> time \<Rightarrow> workItem \<Rightarrow> db \<Rightarrow> transition" where
  "apply_edit x store m r now w d =
     (let w1 = w\<lparr>w_title := edited r ''title'' (w_title w), w_criteria := edited r ''criteria'' (w_criteria w),
                w_non_goals := edited r ''non_goals'' (w_non_goals w), w_scope_revision := w_revision w\<rparr>
      in rbind (scope x store w1 (m_consumer m) (optional r ''author'') now d) (\<lambda>d1. Inr (''edited'', w1, d1)))"

text \<open>The progress fields that a start and an update set.\<close>

definition progressed :: "workRequest \<Rightarrow> time \<Rightarrow> workItem \<Rightarrow> workItem" where
  "progressed r now w =
     (let lifecycle = (case q_text r ''lifecycle'' of None \<Rightarrow> ''active'' | Some v \<Rightarrow> v);
          w1 = w\<lparr>w_lifecycle := lifecycle, w_last_progress_at := Some now, w_progress_deadline := Some (number_of r ''progress_deadline''),
                 w_checkpoint := text_of r ''checkpoint'', w_next_artifact := text_of r ''next_artifact'',
                 w_progress := text_of r ''progress'', w_blocker := (if lifecycle = ''blocked'' then text_of r ''blocker'' else [])\<rparr>
      in if has r ''references'' then w1\<lparr>w_references := q_refs r\<rparr> else w1)"

definition apply_start :: "ext \<Rightarrow> string \<Rightarrow> MemoryCaller \<Rightarrow> workRequest \<Rightarrow> string \<Rightarrow> time \<Rightarrow> workItem \<Rightarrow> db \<Rightarrow> transition" where
  "apply_start x store m r actor now w d =
     (let w1 = w\<lparr>w_progress_epoch := w_progress_epoch w + 1\<rparr> in
      rbind (case w_proposed_role w of
               None \<Rightarrow> Inr ()
             | Some role \<Rightarrow>
                 if m_family m = k_family maintainerKey then Inr ()
                 else if actor = []
                 then Inl (WorkRefusal ''revision_conflict'' ''the proposal changed to a role while this start waited; read the item and retry''
                        [(''current_revision'', DInt (w_revision w - 1))])
                 else requireWorkRole x d m role now) (\<lambda>_.
      rbind (acquire store (w_work_id w) (m_consumer m) (w_progress_epoch w1) (q_res r) now (lease_seconds r) d) (\<lambda>(got, d1).
      let d2 = (if actor \<noteq> [] then set_bundle store (l_generation got) (\<lambda>b. b\<lparr>b_native_actor := actor\<rparr>) d1 else d1);
          w2 = w1\<lparr>w_last_writer := Some (m_consumer m), w_last_generation := Some (l_generation got),
                  w_last_lease_expires := Some (l_expires_at got), w_lease_expired := False,
                  w_first_start_revision := (case w_first_start_revision w of None \<Rightarrow> Some (w_revision w) | Some f \<Rightarrow> Some f)\<rparr>
      in Inr (''started'', progressed r now w2, d2))))"

definition apply_update :: "ext \<Rightarrow> string \<Rightarrow> MemoryCaller \<Rightarrow> workRequest \<Rightarrow> time \<Rightarrow> workItem \<Rightarrow> db \<Rightarrow> transition" where
  "apply_update x store m r now w d =
     (let w1 = w\<lparr>w_progress_epoch := w_progress_epoch w + 1\<rparr>; generation = int_of r ''claim_generation'' in
      rbind (progress_claim store (w_work_id w) (m_consumer m) generation (w_progress_epoch w1) now d) (\<lambda>d1.
      rbind (case q_ints r ''renew_for'' of
               None \<Rightarrow> Inr d1
             | Some duration \<Rightarrow>
                 rbind (owner d1 store (w_work_id w) (m_consumer m) generation now) (\<lambda>b.
                 rbind (renew (koinon_native_work_actor x) store (w_work_id w) (m_consumer m) generation (b_revision b) now duration d1) (\<lambda>(_, d2).
                   Inr d2))) (\<lambda>d2.
        Inr (''updated'', progressed r now w1, d2))))"

definition finished :: "string \<Rightarrow> time \<Rightarrow> workItem \<Rightarrow> workItem" where
  "finished outcome now w = w\<lparr>w_lifecycle := ''finished'', w_outcome := Some outcome, w_finished_at := Some now,
     w_expires_at := Some (now + workRetention)\<rparr>"

definition apply_ending :: "string \<Rightarrow> MemoryCaller \<Rightarrow> workRequest \<Rightarrow> time \<Rightarrow> workItem \<Rightarrow> db \<Rightarrow> transition" where
  "apply_ending store m r now w d =
     rbind (guard (\<not> (has r ''handoff_to''
                 \<and> res ''exact'' (text_of r ''checkout_resource'') \<notin> set (bundleResources d store (int_of r ''claim_generation''))))
              (workError ''checkout_not_held'' ''this claim does not hold the named checkout resource'')) (\<lambda>_.
     rbind (release store (w_work_id w) (m_consumer m) (int_of r ''claim_generation'') now d) (\<lambda>d1.
     let w1 = w\<lparr>w_progress_deadline := None\<rparr> in
     if q_op r = ''work-release''
     then Inr (''released'', w1\<lparr>w_lifecycle := ''open'', w_checkpoint := text_of r ''checkpoint'', w_blocker := []\<rparr>, d1)
     else Inr (''finished'', (finished (text_of r ''outcome'') now w1)\<lparr>w_reason := text_of r ''reason'', w_references := q_refs r\<rparr>, d1)))"

definition apply_report :: "ext \<Rightarrow> memoryLimits \<Rightarrow> string \<Rightarrow> MemoryCaller \<Rightarrow> workRequest \<Rightarrow> time \<Rightarrow> workItem \<Rightarrow> db \<Rightarrow> transition" where
  "apply_report x l store m r now w d =
     (let generation = int_of r ''claim_generation'' in
      rbind (reserveVerdict d store (w_work_id w) l) (\<lambda>_.
      rbind (release store (w_work_id w) (m_consumer m) generation now d) (\<lambda>d1.
      rbind (if validKey (k_family (m_native m)) (k_id (m_native m))
             then rbind (scanSession d1 (ms_of now) (m_native m)) (\<lambda>s.
               Inr (if sv_address s \<noteq> [] then Some \<lparr>wr_family = s_family (sv_row s), wr_role = s_role (sv_row s)\<rparr> else None))
             else Inr None) (\<lambda>role.
        Inr (''reported'', w\<lparr>w_lifecycle := ''reported'', w_verdict_credit := True, w_progress_deadline := None, w_blocker := [],
               w_references := q_refs r, w_report_consumer := Some (m_consumer m), w_report_actor := nativeWorkActor x m,
               w_verdict := None, w_verdict_seq := None,
               w_report := Some \<lparr>rp_summary = text_of r ''summary'', rp_references = [], rp_scope_revision = w_scope_revision w,
                                rp_claim_generation = generation, rp_participant_role = role\<rparr>\<rparr>, d1)))))"

definition judged :: "workRequest \<Rightarrow> workItem \<Rightarrow> workItem" where
  "judged r w = w\<lparr>w_progress := [], w_checkpoint := [], w_next_artifact := [], w_blocker := [], w_references := q_refs r,
     w_verdict_credit := False, w_evidence := w_report_seq w\<rparr>"

definition apply_verdict :: "ext \<Rightarrow> string \<Rightarrow> MemoryCaller \<Rightarrow> workRequest \<Rightarrow> time \<Rightarrow> workItem \<Rightarrow> db \<Rightarrow> transition" where
  "apply_verdict x store m r now w d =
     (let w1 = judged r w in
      if q_op r = ''work-accept''
      then Inr (''accepted'', (finished ''completed'' now w1)\<lparr>w_verdict := Some ''accepted''\<rparr>, d)
      else
        let w2 = w1\<lparr>w_lifecycle := ''open'', w_verdict := Some ''rejected'', w_title := edited r ''title'' (w_title w),
                    w_criteria := text_of r ''criteria'', w_non_goals := text_of r ''non_goals'', w_scope_revision := w_revision w\<rparr>
        in rbind (scope x store w2 (m_consumer m) (optional r ''author'') now d) (\<lambda>d1. Inr (''rejected'', w2, d1)))"

definition transition_of ::
  "ext \<Rightarrow> memoryLimits \<Rightarrow> string \<Rightarrow> MemoryCaller \<Rightarrow> workRequest \<Rightarrow> string \<Rightarrow> time \<Rightarrow> workItem \<Rightarrow> db \<Rightarrow> transition" where
  "transition_of x l store m r actor now w d =
     (if q_op r = ''work-propose'' then apply_propose r w d
      else if q_op r = ''work-edit'' then apply_edit x store m r now w d
      else if q_op r = ''work-start'' then apply_start x store m r actor now w d
      else if q_op r = ''work-update'' then apply_update x store m r now w d
      else if q_op r = ''work-release'' \<or> q_op r = ''work-finish'' then apply_ending store m r now w d
      else if q_op r = ''work-report'' then apply_report x l store m r now w d
      else if workVerdict (q_op r) then apply_verdict x store m r now w d
      else Inr ([], w, d))"

definition revise :: "workRequest \<Rightarrow> workItem \<Rightarrow> kerror + workItem" where
  "revise r w =
     (if int_of r ''if_revision'' \<noteq> w_revision w
      then Inl (WorkRefusal ''revision_conflict'' ''the work revision changed; a due transition or cleanup may already have committed, so read the item again''
             [(''current_revision'', DInt (w_revision w))])
      else if w_revision w = maxInt64 then Inl (workError ''capacity'' ''the work revision is exhausted'')
      else Inr (w\<lparr>w_revision := w_revision w + 1\<rparr>))"

definition handoff_body :: "ext \<Rightarrow> workRequest \<Rightarrow> string" where
  "handoff_body x r = json_encode x (JObj [(''checkpoint'', JStr (text_of r ''checkpoint'')),
     (''claim_generation'', JInt (int_of r ''claim_generation'')),
     (''meaning'', JStr ''Writer role released to you. Read the checkpoint and the checkout status, then call work_start with this resource to take the role.''),
     (''resource'', JArr [JStr ''exact'', JStr (text_of r ''checkout_resource'')]),
     (''type'', JStr ''checkout_writer_handoff''), (''work_id'', JStr (text_of r ''work_id''))])"

definition peer_named :: "db \<Rightarrow> string \<Rightarrow> string \<Rightarrow> nameRow option" where
  "peer_named d name repo = List.find (\<lambda>n. n_kind n = ''peer'' \<and> n_name n = name \<and> n_repository n = repo) (names d)"

definition notifyCheckoutHandoff :: "wenv \<Rightarrow> MemoryCaller \<Rightarrow> workRequest \<Rightarrow> db \<Rightarrow> kerror + (Outcome \<times> db)" where
  "notifyCheckoutHandoff e m r d =
     (case List.find (\<lambda>n. n_kind n = ''peer'' \<and> n_name n = m_name m \<and> n_family n = m_family m \<and> n_repository n = m_repository m) (names d) of
        None \<Rightarrow> Inl ErrCallerInactive
      | Some c \<Rightarrow>
          (case peer_named d (text_of r ''handoff_to'') (m_repository m) of
             None \<Rightarrow> Inl (workError ''invalid_recipient'' ''handoff_to must name an exact peer in the same repository'')
           | Some n \<Rightarrow>
               if n_family n = n_family c \<and> n_session_id n = n_session_id c
               then Inl (invalid ''handoff_to must name another session'')
               else sendTx (wk_process_start e) (wk_now_ms e) (key (n_family c) (n_session_id c)) (text_of r ''handoff_to'')
                      (handoff_body (wk_ext e) r) False d))"

text \<open>The event of a transition, the handoff message, the claim in the answer and the replay row.\<close>

definition work_result :: "workItem \<Rightarrow> int option \<Rightarrow> lease option \<Rightarrow> Outcome option \<Rightarrow> workResult" where
  "work_result w seq claim message = \<lparr>x_work_id = w_work_id w, x_revision = w_revision w, x_seq = seq, x_claim = claim,
     x_message = message, x_role_released = (message \<noteq> None), x_duplicate = False\<rparr>"

definition commit_transition ::
  "wenv \<Rightarrow> string \<Rightarrow> MemoryCaller \<Rightarrow> workRequest \<Rightarrow> string \<Rightarrow> time \<Rightarrow> string \<Rightarrow> string \<times> workItem \<times> db \<Rightarrow> kerror + (workResult \<times> db)" where
  "commit_transition e store m r actor now print t =
     (case t of (kind, w, d) \<Rightarrow>
        rbind (event (wk_ext e) store m w kind (m_consumer m) (optional r ''author'') now d) (\<lambda>(w1, d1).
        rbind (if has r ''handoff_to''
               then rbind (notifyCheckoutHandoff e m r d1) (\<lambda>(o1, d2). Inr (Some o1, d2)) else Inr (None, d1)) (\<lambda>(message, d2).
        let claim = (if q_op r = ''work-start'' \<or> q_op r = ''work-update''
                     then map_option (\<lambda>b. \<lparr>l_generation = b_generation b, l_revision = b_revision b, l_expires_at = b_expires_at b\<rparr>)
                            (bundleFor d2 store (w_work_id w1)) else None)
        in storeReplay (wk_ext e) store m r actor print (work_result w1 (Some (w_latest_seq w1)) claim message) now d2)))"

definition apply_work ::
  "wenv \<Rightarrow> string \<Rightarrow> MemoryCaller \<Rightarrow> workRequest \<Rightarrow> time \<Rightarrow> string \<Rightarrow> db \<Rightarrow> kerror + (workResult \<times> db)" where
  "apply_work e store m r now print d =
     (let x = wk_ext e in
      rbind (requireNativeWorkCaller x d m (q_actor r) now) (\<lambda>_.
      if q_op r = ''work-create'' then
        rbind (apply_create x store m r now d) (commit_transition e store m r (q_actor r) now print)
      else
        rbind (current d store (text_of r ''work_id'') now) (\<lambda>w.
        rbind (lifecycle_guard x m r w) (\<lambda>_.
        rbind (owner_guard x store m r (q_actor r) w now d) (\<lambda>actor.
        if q_op r = ''claim-renew'' then
          rbind (renew (koinon_native_work_actor x) store (w_work_id w) (m_consumer m) (int_of r ''claim_generation'')
                   (int_of r ''if_claim_revision'') now (lease_seconds r) d) (\<lambda>(renewed, d1).
            storeReplay x store m r actor print (work_result w None (Some renewed) None) now d1)
        else
          rbind (revise r w) (\<lambda>w1.
          rbind (transition_of x (wk_limits e) store m r actor now w1 d) (commit_transition e store m r actor now print)))))))"

section \<open>Due transitions and cleanup\<close>

definition reconcile_due :: "time \<Rightarrow> workItem \<Rightarrow> heldBundle \<Rightarrow> bool" where
  "reconcile_due now w b \<longleftrightarrow> b_expires_at b \<le> now
     \<or> ((case w_progress_deadline w of None \<Rightarrow> False | Some t \<Rightarrow> t \<le> now) \<and> \<not> b_overdue_recorded b)"

definition reconcile_tx :: "ext \<Rightarrow> string \<Rightarrow> time \<Rightarrow> workItem \<Rightarrow> heldBundle \<Rightarrow> string \<Rightarrow> db \<Rightarrow> kerror + (unit \<times> db)" where
  "reconcile_tx x repo now w b store d =
     (let w1 = w\<lparr>w_revision := w_revision w + 1\<rparr>;
          daemon = \<lparr>m_repository = repo, m_family = [], m_name = [], m_consumer = [], m_native = key [] [], m_consumer_explicit = False\<rparr>
      in if b_expires_at b \<le> now
         then rbind (event x store daemon (w1\<lparr>w_lease_expired := True\<rparr>) ''lease-expired'' (b_consumer b) None now
                       (snd (expire store (b_generation b) now d))) (\<lambda>(_, d2). Inr ((), d2))
         else rbind (overdue store (b_generation b) (w_progress_epoch w) d) (\<lambda>(_, d1).
              rbind (event x store daemon w1 ''progress-overdue'' (b_consumer b) None now d1) (\<lambda>(_, d2). Inr ((), d2))))"

definition reconcile :: "wenv \<Rightarrow> MemoryCaller option \<Rightarrow> string \<Rightarrow> string \<Rightarrow> time \<Rightarrow> db \<Rightarrow> unit answer" where
  "reconcile e g repo workID now d =
     (let store = storeOf d repo in
      if store = [] then (Inr (), d)
      else case current d store workID now of
          Inl err \<Rightarrow> (Inl err, d)
        | Inr w \<Rightarrow> (case bundleFor d store workID of
            None \<Rightarrow> (Inr (), d)
          | Some b \<Rightarrow>
              if \<not> b_active b then (Inr (), d)
              else if b_progress_epoch b \<noteq> w_progress_epoch w
              then (Inl (workError ''incompatible_store'' ''work and claim progress epochs disagree''), d)
              else if \<not> reconcile_due now w b then (Inr (), d)
              else workWrite e g repo control (reconcile_tx (wk_ext e) repo now w b) d))"

definition delete_inactive :: "string \<Rightarrow> heldBundle \<Rightarrow> db \<Rightarrow> db" where
  "delete_inactive store q d = d\<lparr>
     claim_resources := filter (\<lambda>c. \<not> (cr_store c = store \<and> cr_generation c = b_generation q)) (claim_resources d),
     claim_bundles := filter (\<lambda>c. \<not> (b_store c = store \<and> b_generation c = b_generation q \<and> \<not> b_active c)) (claim_bundles d)\<rparr>"

definition reclaimInactive :: "wenv \<Rightarrow> MemoryCaller option \<Rightarrow> string \<Rightarrow> string \<Rightarrow> db \<Rightarrow> unit answer" where
  "reclaimInactive e g repo workID d =
     (case bundleFor d (storeOf d repo) workID of
        None \<Rightarrow> (Inr (), d)
      | Some b \<Rightarrow>
          if b_active b then (Inr (), d)
          else workWrite e g repo ordinary (\<lambda>store d1.
            (case bundleFor d1 store workID of
               None \<Rightarrow> Inr ((), d1)
             | Some q \<Rightarrow> if b_active q then Inr ((), d1) else Inr ((), delete_inactive store q d1))) d)"

text \<open>A bound of \<open>None\<close> is \<open>math.MaxFloat64\<close>.\<close>

definition finished_by :: "time option \<Rightarrow> workItem \<Rightarrow> bool" where
  "finished_by bound w \<longleftrightarrow> w_lifecycle w = ''finished''
     \<and> (case w_expires_at w of None \<Rightarrow> False | Some t \<Rightarrow> (case bound of None \<Rightarrow> True | Some b \<Rightarrow> t \<le> b))"

definition oldest_finished :: "db \<Rightarrow> string \<Rightarrow> time option \<Rightarrow> string option" where
  "oldest_finished d store bound =
     (case sort_key (\<lambda>w. (case w_expires_at w of None \<Rightarrow> 0 | Some t \<Rightarrow> t)) (sort_key w_work_id
             (filter (\<lambda>w. w_store w = store \<and> finished_by bound w) (work_items d))) of
        [] \<Rightarrow> None | w # _ \<Rightarrow> Some (w_work_id w))"

definition events_of :: "db \<Rightarrow> string \<Rightarrow> string \<Rightarrow> workEventRow list" where
  "events_of d store workID = filter (\<lambda>v. we_store v = store \<and> we_work_id v = workID) (work_events d)"

text \<open>The stream rows of an item that disagree with its events.\<close>

definition inconsistent_rows :: "db \<Rightarrow> string \<Rightarrow> string \<Rightarrow> string \<Rightarrow> nat" where
  "inconsistent_rows d store workID repo =
     length (filter (\<lambda>v. case List.find (\<lambda>n. e_repository n = repo \<and> e_seq n = we_seq v) (memory_entries d) of
         None \<Rightarrow> True
       | Some n \<Rightarrow> e_type n \<noteq> ''work-event'' \<or> e_scope_target n \<noteq> Some (we_work_id v) \<or> e_revision n \<noteq> we_revision v
           \<or> e_body n \<noteq> [] \<or> e_expires n \<noteq> None \<or> e_supersedes n \<noteq> None \<or> e_revokes n \<noteq> None) (events_of d store workID))
     + length (filter (\<lambda>n. e_repository n = repo \<and> e_type n = ''work-event'' \<and> e_scope_target n = Some workID
         \<and> \<not> (\<exists>v\<in>set (events_of d store workID). we_seq v = e_seq n)) (memory_entries d))"

definition delete_item :: "string \<Rightarrow> string \<Rightarrow> string \<Rightarrow> db \<Rightarrow> db" where
  "delete_item repo store workID d =
     d\<lparr>memory_entries := filter (\<lambda>n. \<not> (e_repository n = repo \<and> e_seq n \<in> set (map we_seq (events_of d store workID)))) (memory_entries d),
       work_events := filter (\<lambda>v. \<not> (we_store v = store \<and> we_work_id v = workID)) (work_events d),
       work_scope_revisions := filter (\<lambda>r. \<not> (sc_store r = store \<and> sc_work_id r = workID)) (work_scope_revisions d),
       work_items := filter (\<lambda>w. \<not> (w_store w = store \<and> w_work_id w = workID)) (work_items d)\<rparr>"

definition reclaim_item :: "memoryLimits \<Rightarrow> string \<Rightarrow> string \<Rightarrow> time option \<Rightarrow> string \<Rightarrow> db \<Rightarrow> kerror + (bool \<times> db)" where
  "reclaim_item l repo workID bound store d =
     (case List.find (\<lambda>w. w_store w = store \<and> w_work_id w = workID \<and> finished_by bound w) (work_items d) of
        None \<Rightarrow> Inr (False, d)
      | Some w \<Rightarrow> (case bundleFor d store workID of
          Some b \<Rightarrow> if b_active b then Inl (workError ''incompatible_store'' ''finished work still has an active claim'')
                     else Inr (False, d)
        | None \<Rightarrow>
            let scopes = int (length (scopes_of d store workID)); events = events_of d store workID;
                highest = foldr max (map we_seq events) 0
            in if scopes < 1 \<or> scopes > lm_work_scopes_per_item l \<or> events = [] \<or> int (length events) > lm_work_events l
                  \<or> highest \<noteq> w_latest_seq w
               then Inl (workError ''incompatible_store'' ''the expired item's history exceeds its retained bounds or disagrees with its record'')
               else if inconsistent_rows d store workID repo > 0
               then Inl (workError ''incompatible_store'' ''the expired item has inconsistent stream rows'')
               else let d1 = delete_item repo store workID d in
                 Inr (True, d1\<lparr>memory_stores := update_where (\<lambda>m. ms_store_id m = store)
                   (\<lambda>m. m\<lparr>ms_floor := max (ms_floor m) highest\<rparr>) (memory_stores d1)\<rparr>)))"

definition reclaimFinished :: "wenv \<Rightarrow> MemoryCaller option \<Rightarrow> string \<Rightarrow> string \<Rightarrow> time option \<Rightarrow> db \<Rightarrow> bool answer" where
  "reclaimFinished e g repo store bound d =
     (case oldest_finished d store bound of
        None \<Rightarrow> (Inr False, d)
      | Some workID \<Rightarrow> workWrite e g repo control (reclaim_item (wk_limits e) repo workID bound) d)"

definition makeRoom :: "wenv \<Rightarrow> MemoryCaller option \<Rightarrow> string \<Rightarrow> db \<Rightarrow> unit answer" where
  "makeRoom e g repo d =
     (let store = storeOf d repo in
      if store = [] then (Inr (), d)
      else if int (length (filter (\<lambda>w. w_store w = store) (work_items d))) < lm_work_items (wk_limits e) then (Inr (), d)
      else case oldest_finished d store None of
          None \<Rightarrow> (Inr (), d)
        | Some oldest \<Rightarrow>
            and_then (reclaimInactive e g repo oldest d) (\<lambda>_ d1.
            and_then (reclaimFinished e g repo store None d1) (\<lambda>_ d2. (Inr (), d2))))"

section \<open>Mutations\<close>

definition write_class :: "workRequest \<Rightarrow> writeClass" where
  "write_class r = (if (q_op r = ''work-release'' \<and> \<not> has r ''handoff_to'') \<or> q_op r = ''work-finish'' \<or> workVerdict (q_op r)
                    then control else ordinary)"

text \<open>What precedes the mutation's own transaction: expiry, the due transition, room and reclamation.\<close>

definition prepare :: "wenv \<Rightarrow> MemoryCaller option \<Rightarrow> MemoryCaller \<Rightarrow> workRequest \<Rightarrow> time \<Rightarrow> db \<Rightarrow> unit answer" where
  "prepare e g m r now d =
     and_then (if q_op r \<noteq> ''work-create'' then reconcile e g (m_repository m) (text_of r ''work_id'') now d
               else makeRoom e g (m_repository m) d) (\<lambda>_ d1.
       if q_op r = ''work-start'' then reclaimInactive e g (m_repository m) (text_of r ''work_id'') d1 else (Inr (), d1))"

text \<open>The refusals and the replay that precede every write.\<close>

definition own_report_check :: "wenv \<Rightarrow> MemoryCaller \<Rightarrow> workRequest \<Rightarrow> time \<Rightarrow> db \<Rightarrow> kerror + unit" where
  "own_report_check e m r now d =
     (let store = storeOf d (m_repository m) in
      if \<not> workVerdict (q_op r) \<or> store = [] then Inr ()
      else case current d store (text_of r ''work_id'') now of
          Inl _ \<Rightarrow> Inr () | Inr w \<Rightarrow> requireVerdictCaller (wk_ext e) m w)"

definition target_check :: "MemoryCaller \<Rightarrow> workRequest \<Rightarrow> time \<Rightarrow> db \<Rightarrow> kerror + unit" where
  "target_check m r now d =
     rbind (guard (\<not> (has r ''progress_deadline''
               \<and> \<not> (now < number_of r ''progress_deadline'' \<and> number_of r ''progress_deadline'' \<le> now + 86400)))
              (invalid ''the progress deadline is after now and within one day'')) (\<lambda>_.
     if q_op r \<noteq> ''work-create''
     then rbind (current d (storeOf d (m_repository m)) (text_of r ''work_id'') now) (\<lambda>_. Inr ()) else Inr ())"

definition workMutation ::
  "wenv \<Rightarrow> MemoryCaller option \<Rightarrow> MemoryCaller \<Rightarrow> workRequest \<Rightarrow> time \<Rightarrow> (string \<Rightarrow> time) \<Rightarrow> db \<Rightarrow> (string \<Rightarrow> time) \<times> workResult answer" where
  "workMutation e g m r now expired_at d =
     (case rbind (own_report_check e m r now d) (\<lambda>_. replay e m r now d) of
        Inl err \<Rightarrow> (expired_at, Inl err, d)
      | Inr (print, Some original) \<Rightarrow> (expired_at, Inr original, d)
      | Inr (print, None) \<Rightarrow>
          (case target_check m r now d of
             Inl err \<Rightarrow> (expired_at, Inl err, d)
           | Inr _ \<Rightarrow>
               (case maybeExpire e g (m_repository m) expired_at d of
                  (expired_at', a) \<Rightarrow>
                    (expired_at',
                     and_then a (\<lambda>_ d1.
                     and_then (prepare e g m r now d1) (\<lambda>_ d2.
                       workWrite e g (m_repository m) (write_class r) (\<lambda>store. apply_work e store m r now print) d2))))))"

section \<open>Reads\<close>

definition matches :: "workRequest \<Rightarrow> string \<Rightarrow> string option \<Rightarrow> bool" where
  "matches r name v =
     (if \<not> has r name then True else if name \<in> set (q_nulls r) then v = None else v = Some (text_of r name))"

record workListing =
  li_items :: "workSummary list"
  li_truncated :: bool
  li_more :: bool
  li_next_after :: "string option"
  li_observed_at :: time

text \<open>One row of the list: its summary, and whether the filters keep it.\<close>

definition summary :: "db \<Rightarrow> string \<Rightarrow> string \<Rightarrow> workItem \<Rightarrow> time \<Rightarrow> workSummary" where
  "summary d store repo w now =
     (let held = bundleFor d store (w_work_id w) in
      case freshness (w_lifecycle w) (w_progress_deadline w) (case held of None \<Rightarrow> False | Some b \<Rightarrow> b_active b)
             (case held of None \<Rightarrow> 0 | Some b \<Rightarrow> b_expires_at b) now of (alive, late, stale) \<Rightarrow>
      \<lparr>y_work_id = w_work_id w, y_revision = w_revision w, y_title = w_title w, y_lifecycle = w_lifecycle w,
       y_proposed_assignee = w_proposed_assignee w, y_proposed_role = w_proposed_role w, y_progress_unverified = stale,
       y_progress_deadline = w_progress_deadline w, y_lease_valid = alive,
       y_owner = (if alive then map_option b_consumer held else None), y_observed_at = now, y_checkpoint = w_checkpoint w,
       y_report_seq = w_report_seq w, y_verdict = w_verdict w, y_verdict_seq = w_verdict_seq w,
       y_role_resolution = map_option (\<lambda>role. roleResolution d repo role now) (w_proposed_role w)\<rparr>)"

definition listed :: "MemoryCaller \<Rightarrow> workRequest \<Rightarrow> WorkRole option \<Rightarrow> workItem \<Rightarrow> workSummary \<Rightarrow> bool" where
  "listed m r assignedRole w y \<longleftrightarrow>
     (has r ''assigned_to_me'' \<longrightarrow>
        (w_proposed_assignee w = Some (m_consumer m) \<or> (w_proposed_role w \<noteq> None \<and> w_proposed_role w = assignedRole))
          = bool_of r ''assigned_to_me'')
     \<and> (has r ''created_by_me'' \<longrightarrow> (w_created_consumer w = m_consumer m) = bool_of r ''created_by_me'')
     \<and> matches r ''owner'' (y_owner y) \<and> matches r ''proposed_assignee'' (w_proposed_assignee w)
     \<and> \<not> (has r ''lifecycle'' \<and> text_of r ''lifecycle'' \<noteq> w_lifecycle w)
     \<and> \<not> (has r ''stale'' \<and> bool_of r ''stale'' \<noteq> y_progress_unverified y)
     \<and> \<not> (has r ''blocked'' \<and> bool_of r ''blocked'' \<noteq> (w_lifecycle w = ''blocked''))"

text \<open>The loop of \<open>listing\<close> over the kept summaries: the page, and whether another page exists.\<close>

fun list_page :: "ext \<Rightarrow> int \<Rightarrow> int \<Rightarrow> workSummary list \<Rightarrow> workSummary list \<Rightarrow> workSummary list \<times> bool" where
  "list_page x limit used items [] = (items, False)"
| "list_page x limit used items (y # ys) =
     (let n = int (json_bytes_summary x y) + 1 in
      if int (length items) \<ge> limit \<or> used + n > maxWorkList then (items, True)
      else list_page x limit (used + n) (items @ [y]) ys)"

definition assigned_role :: "db \<Rightarrow> MemoryCaller \<Rightarrow> workRequest \<Rightarrow> time \<Rightarrow> kerror + WorkRole option" where
  "assigned_role d m r now =
     (if has r ''assigned_to_me'' \<and> validKey (k_family (m_native m)) (k_id (m_native m)) then
        (let address = heldAddress d (ms_of now) (m_native m) in
         if address = [] then Inr None
         else rbind (opt_err ErrNoRows (List.find (\<lambda>n. n_kind n = ''alias'' \<and> n_name n = address \<and> n_repository n = m_repository m) (names d)))
                (\<lambda>n. Inr (Some \<lparr>wr_family = n_family n, wr_role = n_role n\<rparr>)))
      else Inr None)"

definition listing :: "ext \<Rightarrow> db \<Rightarrow> string \<Rightarrow> MemoryCaller \<Rightarrow> workRequest \<Rightarrow> time \<Rightarrow> kerror + workListing" where
  "listing x d store m r now =
     (if store = [] then Inr \<lparr>li_items = [], li_truncated = False, li_more = False, li_next_after = None, li_observed_at = now\<rparr>
      else rbind (assigned_role d m r now) (\<lambda>assignedRole.
        let rows = sort_key w_work_id (filter (\<lambda>w. w_store w = store \<and> retained now w \<and> w_work_id w > text_of r ''after'') (work_items d));
            kept = map (\<lambda>w. summary d store (m_repository m) w now)
                     (filter (\<lambda>w. listed m r assignedRole w (summary d store (m_repository m) w now)) rows);
            limit = (case q_ints r ''limit'' of None \<Rightarrow> 100 | Some v \<Rightarrow> v)
        in case list_page x limit (int (json_bytes_listing x now) + 32) [] kept of (items, another) \<Rightarrow>
             Inr \<lparr>li_items = items, li_truncated = another, li_more = another,
                  li_next_after = (if another \<and> items \<noteq> [] then Some (y_work_id (last items)) else None), li_observed_at = now\<rparr>))"

datatype workAnswer = Mutated workResult | Viewed WorkView | Scoped scopeRow | Listed workListing

definition read_work :: "wenv \<Rightarrow> MemoryCaller \<Rightarrow> workRequest \<Rightarrow> time \<Rightarrow> db \<Rightarrow> kerror + workAnswer" where
  "read_work e m r now d =
     rbind (requireParticipantCaller d (wk_now_ms e) m) (\<lambda>_.
     let store = storeOf d (m_repository m) in
     if q_op r = ''work-list'' then rbind (listing (wk_ext e) d store m r now) (\<lambda>v. Inr (Listed v))
     else rbind (current d store (text_of r ''work_id'') now) (\<lambda>w.
       if \<not> has r ''revision'' then
         rbind (view d store w now) (\<lambda>v.
         case w_report_seq w of
           None \<Rightarrow> Inr (Viewed v)
         | Some seq \<Rightarrow> rbind (frozenReport d store seq) (\<lambda>p. Inr (Viewed (v\<lparr>v_report := Some p\<rparr>))))
       else case List.find (\<lambda>s. sc_store s = store \<and> sc_work_id s = w_work_id w \<and> sc_revision s = int_of r ''revision'') (work_scope_revisions d) of
           None \<Rightarrow> Inl (workError ''work_not_found'' ''that scope revision is not retained'')
         | Some s \<Rightarrow> Inr (Scoped s)))"

section \<open>The request boundary\<close>

text \<open>\<open>roleWorkCaller\<close>: the caller and the native actor a request runs as.\<close>

definition native_replay :: "ext \<Rightarrow> MemoryCaller \<Rightarrow> workRequest \<Rightarrow> string \<Rightarrow> db \<Rightarrow> bool" where
  "native_replay x m r store d \<longleftrightarrow> keyed r \<and> nativeWorkActor x m \<noteq> [] \<and> \<not> m_consumer_explicit m
     \<and> (case List.find (\<lambda>p. wp_store p = store \<and> wp_consumer p = nativeWorkConsumer x m \<and> wp_key p = text_of r ''key'') (work_replays d) of
          None \<Rightarrow> False | Some p \<Rightarrow> wp_native_actor p \<noteq> [])"

definition native_claim :: "workRequest \<Rightarrow> time \<Rightarrow> heldBundle option \<Rightarrow> string option" where
  "native_claim r now held =
     (case held of None \<Rightarrow> None
      | Some b \<Rightarrow> if ownerOperation (q_op r) \<and> b_native_actor b \<noteq> []
            \<and> (q_op r \<noteq> ''work-edit'' \<or> (b_active b \<and> b_expires_at b > now) \<or> has r ''claim_generation'')
          then Some (b_native_actor b) else None)"

definition roleWorkCaller :: "ext \<Rightarrow> MemoryCaller \<Rightarrow> workRequest \<Rightarrow> time \<Rightarrow> db \<Rightarrow> kerror + (MemoryCaller \<times> string)" where
  "roleWorkCaller x m r now d =
     (let store = storeOf d (m_repository m); actor = nativeWorkActor x m; workID = text_of r ''work_id'' in
      if store = [] \<or> q_op r = ''work-create'' \<or> workRead (q_op r) \<or> q_op r = ''work-propose'' then Inr (m, q_actor r)
      else
        rbind (case native_claim r now (bundleFor d store workID) of
                 None \<Rightarrow> Inr (native_replay x m r store d)
               | Some a \<Rightarrow> if a \<noteq> actor then Inl (workError ''stale_claim'' ''this claim belongs to another native session'') else Inr True) (\<lambda>bound.
        rbind (if q_op r = ''work-start'' \<and> \<not> bound
               then rbind (current d store workID now) (\<lambda>w. Inr (w_proposed_role w \<noteq> None)) else Inr bound) (\<lambda>bound.
        if \<not> bound then Inr (m, q_actor r)
        else if actor = [] then Inl (workError ''role_not_held'' ''a role claim requires a verified native participant holder'')
        else
          rbind (requireNativeWorkCaller x d m actor now) (\<lambda>_.
          if m_consumer_explicit m \<and> m_consumer m \<noteq> nativeWorkConsumer x m
          then Inl (invalid ''a role claim's explicit consumer must match its derived native-work key'')
          else Inr (m\<lparr>m_consumer := nativeWorkConsumer x m\<rparr>, actor)))))"

definition Work ::
  "wenv \<Rightarrow> MemoryCaller \<Rightarrow> string \<Rightarrow> (string \<times> json) list \<Rightarrow> time \<Rightarrow> time \<Rightarrow> (string \<Rightarrow> time) \<Rightarrow> db \<Rightarrow> (string \<Rightarrow> time) \<times> workAnswer answer" where
  "Work e m op members arrived now expired_at d =
     (case parseWork op members of
        Inl err \<Rightarrow> (expired_at, rbind (requireParticipantCaller d (wk_now_ms e) m) (\<lambda>_. Inl err), d)
      | Inr r \<Rightarrow>
          (case rbind (if validKey (k_family (m_native m)) (k_id (m_native m)) then roleWorkCaller (wk_ext e) m r arrived d
                       else Inr (m, q_actor r)) (\<lambda>(m1, actor).
                rbind (requireParticipantCaller d (wk_now_ms e) m1) (\<lambda>_. Inr (m1, actor))) of
             Inl err \<Rightarrow> (expired_at, Inl err, d)
           | Inr (m1, actor) \<Rightarrow>
               let r1 = r\<lparr>q_actor := actor\<rparr> in
               if workRead op then (expired_at, read_work e m1 r1 now d, d)
               else (case workMutation e (Some m1) m1 r1 now expired_at d of
                       (expired_at', Inl err, d') \<Rightarrow> (expired_at', Inl err, d')
                     | (expired_at', Inr y, d') \<Rightarrow> (expired_at', Inr (Mutated y), d'))))"

section \<open>Maintenance\<close>

definition due_items :: "db \<Rightarrow> string \<Rightarrow> time \<Rightarrow> string list" where
  "due_items d store now =
     (let rows = filter (\<lambda>(w, b). w_store w = store \<and> b_store b = store \<and> b_work_id b = w_work_id w \<and> b_active b \<and> reconcile_due now w b)
                   (List.product (work_items d) (claim_bundles d))
      in take workSweepLimit (map (\<lambda>(w, b). w_work_id w)
           (sort_key (\<lambda>(w, b). b_expires_at b) (sort_key (\<lambda>(w, b). w_work_id w) rows))))"

fun reconcile_all :: "wenv \<Rightarrow> string \<Rightarrow> time \<Rightarrow> string list \<Rightarrow> db \<Rightarrow> unit answer" where
  "reconcile_all e repo now [] d = (Inr (), d)"
| "reconcile_all e repo now (i # ids) d = and_then (reconcile e None repo i now d) (\<lambda>_. reconcile_all e repo now ids)"

definition maintainStore :: "wenv \<Rightarrow> string \<Rightarrow> string \<Rightarrow> time \<Rightarrow> db \<Rightarrow> unit answer" where
  "maintainStore e repo store now d =
     and_then (reconcile_all e repo now (due_items d store now) d) (\<lambda>_ d1.
     and_then (if \<exists>b\<in>set (claim_bundles d1). b_store b = store \<and> \<not> b_active b
               then and_then (workWrite e None repo control reclaimOne d1) (\<lambda>_ d2. (Inr (), d2)) else (Inr (), d1)) (\<lambda>_ d2.
     and_then (reclaimFinished e None repo store (Some now) d2) (\<lambda>_ d3. (Inr (), d3))))"

record workState =
  wt_last_success :: "time option"
  wt_fault :: "string option"
  wt_fault_at :: "time option"

definition recordSweep :: "kerror + unit \<Rightarrow> time \<Rightarrow> workState \<Rightarrow> workState" where
  "recordSweep fault now s =
     (case fault of
        Inr _ \<Rightarrow> s\<lparr>wt_last_success := Some now, wt_fault := None, wt_fault_at := None\<rparr>
      | Inl err \<Rightarrow> s\<lparr>wt_fault := Some (case err of WorkRefusal code _ _ \<Rightarrow> code | Refusal code _ \<Rightarrow> code | _ \<Rightarrow> ''storage_error''),
                     wt_fault_at := Some now\<rparr>)"

fun maintain_stores :: "wenv \<Rightarrow> time \<Rightarrow> (string \<times> string) list \<Rightarrow> db \<Rightarrow> unit answer" where
  "maintain_stores e now [] d = (Inr (), d)"
| "maintain_stores e now ((repo, store) # rest) d = and_then (maintainStore e repo store now d) (\<lambda>_. maintain_stores e now rest)"

definition sweep_targets :: "db \<Rightarrow> (string \<times> string) list" where
  "sweep_targets d = map (\<lambda>m. (ms_repository m, ms_store_id m)) (sort_key ms_store_id
     (filter (\<lambda>m. (\<exists>w\<in>set (work_items d). w_store w = ms_store_id m) \<or> (\<exists>b\<in>set (claim_bundles d). b_store b = ms_store_id m)) (memory_stores d)))"

definition MaintainWork :: "wenv \<Rightarrow> time \<Rightarrow> workState \<times> db \<Rightarrow> (kerror + unit) \<times> workState \<times> db" where
  "MaintainWork e now t =
     (case t of (s, d) \<Rightarrow> (case maintain_stores e now (sweep_targets d) d of
        (a, d1) \<Rightarrow> (a, recordSweep a now s, d1)))"

definition workMaintenanceStatus :: "db \<Rightarrow> string \<Rightarrow> time \<Rightarrow> int \<times> int \<times> int" where
  "workMaintenanceStatus d repo now =
     (let store = storeOf d repo in
      (int (length (filter (\<lambda>(w, b). w_store w = store \<and> b_store b = store \<and> b_work_id b = w_work_id w \<and> b_active b \<and> reconcile_due now w b)
              (List.product (work_items d) (claim_bundles d)))),
       int (length (filter (\<lambda>w. w_store w = store \<and> finished_by (Some now) w) (work_items d))),
       int (length (filter (\<lambda>b. b_store b = store \<and> \<not> b_active b) (claim_bundles d)))))"

end
