(* ===== verification/Work_Types.thy ===== *)
theory Work_Types
  imports Work_Request
begin

text \<open>
  What an accepted request is: the invariant \<open>typed\<close> of the loop of \<open>parseWork\<close> and the checks that
  \<open>validate\<close> leaves behind.
\<close>

definition sent_as :: "workRequest \<Rightarrow> string list \<Rightarrow> string set" where
  "sent_as r ns = set (q_present r) \<inter> set ns"

definition typed :: "string list \<Rightarrow> workRequest \<Rightarrow> bool" where
  "typed allowed r \<longleftrightarrow> set (q_present r) \<subseteq> set allowed
     \<and> dom (q_text r) \<subseteq> sent_as r (nullable_names @ text_names)
     \<and> dom (q_ints r) \<subseteq> sent_as r int_names \<and> ran (q_ints r) \<subseteq> {- maxInt64 - 1..maxInt64}
     \<and> dom (q_numbers r) \<subseteq> sent_as r number_names \<and> ran (q_numbers r) \<subseteq> {0..of_int (maxInt64 + 1)}
     \<and> dom (q_bools r) \<subseteq> sent_as r bool_names
     \<and> length (q_refs r) \<le> 8 \<and> (\<forall>v\<in>set (q_refs r). checkText v ''reference'' 512 = Inr ())"

lemma typed_present:
  assumes "typed allowed r" "n \<in> set allowed"
  shows "typed allowed (r\<lparr>q_present := q_present r @ [n]\<rparr>)"
proof -
  have "sent_as r ns \<subseteq> sent_as (r\<lparr>q_present := q_present r @ [n]\<rparr>) ns" for ns by (auto simp: sent_as_def)
  then show ?thesis using assms unfolding typed_def by (auto; blast)
qed

lemma check_refs_iff: "check_refs vs = Inr u \<longleftrightarrow> (\<forall>v\<in>set vs. checkText v ''reference'' 512 = Inr ())"
  by (induction vs) auto

lemma sent_as_map [simp]:
  "sent_as (r\<lparr>q_text := a\<rparr>) = sent_as r" "sent_as (r\<lparr>q_ints := b\<rparr>) = sent_as r" "sent_as (r\<lparr>q_numbers := c\<rparr>) = sent_as r"
  "sent_as (r\<lparr>q_bools := e\<rparr>) = sent_as r" "sent_as (r\<lparr>q_refs := f\<rparr>) = sent_as r" "sent_as (r\<lparr>q_res := g\<rparr>) = sent_as r"
  "sent_as (r\<lparr>q_role := h\<rparr>) = sent_as r" "sent_as (r\<lparr>q_nulls := k\<rparr>) = sent_as r" "sent_as (r\<lparr>q_actor := l\<rparr>) = sent_as r"
  by (simp_all add: fun_eq_iff sent_as_def)

lemma parse_text_typed:
  assumes "parse_text n raw r = Inr r'" "typed al r" "n \<in> sent_as r (nullable_names @ text_names)"
  shows "typed al r'"
proof -
  obtain v where v: "r' = r\<lparr>q_text := (q_text r)(n \<mapsto> v)\<rparr>"
    using assms(1) by (cases raw) (auto simp: parse_text_def)
  show ?thesis using assms(2,3) unfolding v typed_def by simp
qed

lemma ran_upd: "ran (f(k \<mapsto> v)) \<subseteq> insert v (ran f)"
  by (auto simp: ran_def)

lemma parse_int_typed:
  assumes "parse_int n raw r = Inr r'" "typed al r" "n \<in> sent_as r int_names"
  shows "typed al r'"
proof -
  obtain v where v: "- maxInt64 - 1 \<le> v" "v \<le> maxInt64" "r' = r\<lparr>q_ints := (q_ints r)(n \<mapsto> v)\<rparr>"
    using assms(1) by (auto simp: parse_int_def split: json.splits if_splits)
  then show ?thesis using assms(2,3) ran_upd[of "q_ints r" n v] by (auto simp: typed_def)
qed

lemma parse_number_typed:
  assumes "parse_number n raw r = Inr r'" "typed al r" "n \<in> sent_as r number_names"
  shows "typed al r'"
proof -
  obtain v where v: "0 \<le> v" "v \<le> of_int (maxInt64 + 1)" "r' = r\<lparr>q_numbers := (q_numbers r)(n \<mapsto> v)\<rparr>"
    using assms(1) by (auto simp: parse_number_def not_less split: option.splits if_splits)
  then show ?thesis using assms(2,3) ran_upd[of "q_numbers r" n v] by (auto simp: typed_def)
qed

lemma parse_bool_typed:
  assumes "parse_bool n raw r = Inr r'" "typed al r" "n \<in> sent_as r bool_names"
  shows "typed al r'"
proof -
  obtain v where v: "r' = r\<lparr>q_bools := (q_bools r)(n \<mapsto> v)\<rparr>"
    using assms(1) by (cases raw) (auto simp: parse_bool_def)
  show ?thesis using assms(2,3) unfolding v typed_def by simp
qed

lemma parse_references_typed:
  assumes "parse_references raw r = Inr r'" "typed al r"
  shows "typed al r'"
proof -
  obtain v where v: "length v \<le> 8" "\<forall>t\<in>set v. checkText t ''reference'' 512 = Inr ()" "r' = r\<lparr>q_refs := v\<rparr>"
    using assms(1) by (auto simp: parse_references_def check_refs_iff not_less split: option.splits if_splits)
  show ?thesis using assms(2) v(1,2) unfolding v(3) typed_def by simp
qed

lemma parse_resources_typed:
  assumes "parse_resources raw r = Inr r'" "typed al r"
  shows "typed al r'"
proof -
  obtain v where v: "r' = r\<lparr>q_res := v\<rparr>"
    using assms(1) by (auto simp: parse_resources_def split: option.splits)
  show ?thesis using assms(2) unfolding v typed_def by simp
qed

lemma typed_null: "typed al (r\<lparr>q_nulls := k\<rparr>) = typed al r" "typed al (r\<lparr>q_role := g\<rparr>) = typed al r"
  "typed al (r\<lparr>q_actor := a\<rparr>) = typed al r"
  by (simp_all add: typed_def)

lemma parse_field_typed:
  assumes "parse_field al x r = Inr r'" "typed al r"
  shows "typed al r'"
proof -
  obtain n raw where x: "x = (n, raw)" by (cases x)
  let ?r = "r\<lparr>q_present := q_present r @ [n]\<rparr>"
  have al: "n \<in> set al" using assms(1) by (auto simp: parse_field_def x split: if_splits)
  have t: "typed al ?r" by (rule typed_present[OF assms(2) al])
  have here: "n \<in> set ns \<Longrightarrow> n \<in> sent_as ?r ns" for ns by (simp add: sent_as_def)
  show ?thesis
    using assms(1) al t unfolding parse_field_def x prod.case Let_def
    by (auto simp: typed_null split: if_splits
        intro: parse_text_typed[OF _ t here] parse_int_typed[OF _ t here] parse_number_typed[OF _ t here]
          parse_bool_typed[OF _ t here] parse_references_typed[OF _ t] parse_resources_typed[OF _ t])
qed

lemma parse_field_op: "parse_field al x r = Inr r' \<Longrightarrow> q_op r' = q_op r \<and> set (q_present r') = insert (fst x) (set (q_present r))"
  by (cases x) (auto simp: parse_field_def Let_def parse_text_def parse_int_def parse_number_def parse_bool_def parse_references_def
      parse_resources_def split: if_splits json.splits option.splits)

lemma parse_fields_typed:
  "parse_fields al xs r = Inr r' \<Longrightarrow> typed al r \<Longrightarrow>
     typed al r' \<and> q_op r' = q_op r \<and> set (q_present r') = set (q_present r) \<union> fst ` set xs"
proof (induction xs arbitrary: r)
  case (Cons x xs)
  then obtain r1 where r1: "parse_field al x r = Inr r1" "parse_fields al xs r1 = Inr r'" by auto
  show ?case using Cons.IH[OF r1(2) parse_field_typed[OF r1(1) Cons.prems(2)]] parse_field_op[OF r1(1)] by auto
qed simp

lemma new_request_typed: "typed al (new_request op)"
  by (simp add: typed_def new_request_def)

lemma parseWork_Inr:
  assumes "parseWork op members = Inr r"
  shows "typed (allowed_fields op) r" "q_op r = op" "set (q_present r) = fst ` set members" "validate r = Inr ()"
proof -
  have p: "parse_fields (allowed_fields op) members (new_request op) = Inr r" "validate r = Inr ()"
    using assms by (auto simp: parseWork_def split: if_splits)
  show "typed (allowed_fields op) r" "q_op r = op" "set (q_present r) = fst ` set members"
    using parse_fields_typed[OF p(1) new_request_typed] by (auto simp: new_request_def)
  show "validate r = Inr ()" by (rule p(2))
qed

text \<open>What the checks of \<open>validate\<close> leave of a request.\<close>

lemma validate_parts:
  assumes "validate r = Inr ()"
  shows "missing_fields r = []" "check_identity r = Inr ()" "check_texts r = Inr ()" "check_lease r = Inr ()"
    "check_outcome r = Inr ()" "check_lifecycle r = Inr ()"
    "\<not> (has r ''proposed_assignee'' \<and> has r ''proposed_role'')"
  using assms by (simp_all add: validate_def)

lemma missing_fields_iff:
  "missing_fields r = [] \<Longrightarrow> set (fields_of WorkRequired (q_op r)) \<subseteq> set (q_present r)"
  by (auto simp: missing_fields_def Let_def filter_empty_conv has_def)

lemma request_lifecycle_text:
  assumes "parseWork op members = Inr r" "\<not> workRead op" "q_text r ''lifecycle'' = Some v"
  shows "v = ''active'' \<or> v = ''blocked''"
  using validate_parts(6)[OF parseWork_Inr(4)[OF assms(1)]] parseWork_Inr(2)[OF assms(1)] assms(2,3)
  by (auto simp: check_lifecycle_def Let_def workRead_def)

end
