(* ===== verification/Work_Interface.thy ===== *)
theory Work_Interface
  imports Work Work_Types
begin

text \<open>
  What a property of the database has to be kept by so that every work request and every maintenance
  sweep keeps it: the locale \<open>work_interface\<close> lists the transaction bodies of the work component, and
  its lemmas carry a property through the composition of \<open>Work\<close> and \<open>MaintainWork\<close>, with their rollbacks
  and early returns. Properties that depend on the clock are stated at the time of the request.
\<close>

section \<open>Transactions keep what their bodies keep\<close>

lemma and_then_kept:
  assumes "P (snd r)" "\<And>a d. r = (Inr a, d) \<Longrightarrow> P d \<Longrightarrow> P (snd (f a d))"
  shows "P (snd (and_then r f))"
  using assms by (cases r) (auto simp: and_then_def split: sum.splits)

lemma write_tx_kept:
  assumes "P d" "\<And>a d'. body d = Inr (a, d') \<Longrightarrow> P d'"
  shows "P (snd (write_tx e g cls body d))"
  using assms by (auto simp: write_tx_def split: sum.splits prod.splits option.splits)

definition repo_store :: "db \<Rightarrow> string \<Rightarrow> string \<Rightarrow> bool" where
  "repo_store d repo store \<longleftrightarrow>
     (\<exists>m. List.find (\<lambda>m. ms_repository m = repo) (memory_stores d) = Some m \<and> ms_store_id m = store)"

lemma repo_store_ensured: "repo_store (ensure_store repo i d) repo (storeOf (ensure_store repo i d) repo)"
proof -
  have "\<exists>m\<in>set (memory_stores (ensure_store repo i d)). ms_repository m = repo"
    by (auto simp: ensure_store_def)
  then have "List.find (\<lambda>m. ms_repository m = repo) (memory_stores (ensure_store repo i d)) \<noteq> None"
    by (auto simp: find_None_iff)
  then show ?thesis by (auto simp: repo_store_def storeOf_def)
qed

lemma storeOf_known:
  assumes "storeOf d repo \<noteq> []"
  shows "ensure_store repo i d = d" "repo_store d repo (storeOf d repo)"
proof -
  obtain m where m: "List.find (\<lambda>m. ms_repository m = repo) (memory_stores d) = Some m"
    using assms by (auto simp: storeOf_def split: option.splits)
  then show "repo_store d repo (storeOf d repo)" by (simp add: repo_store_def storeOf_def)
  from m have "m \<in> set (memory_stores d) \<and> ms_repository m = repo" by (rule find_Some_mem)
  then show "ensure_store repo i d = d" by (auto simp: ensure_store_def)
qed

text \<open>A committed \<open>workWrite\<close>: its body ran on the ensured store and the ceilings hold after it.\<close>

lemma workWrite_kept:
  assumes "P d"
    and "\<And>a d' store. repo_store (ensure_store repo (wk_store_id e d) d) repo store \<Longrightarrow> store = storeOf (ensure_store repo (wk_store_id e d) d) repo
      \<Longrightarrow> body store (ensure_store repo (wk_store_id e d) d) = Inr (a, d')
      \<Longrightarrow> enforce (wk_ext e) (wk_limits e) cls repo d' = Inr () \<Longrightarrow> P d'"
  shows "P (snd (workWrite e g repo cls body d))"
  unfolding workWrite_def
proof (rule write_tx_kept)
  fix a d'
  let ?d = "ensure_store repo (wk_store_id e d) d"
  assume "(let d1 = ?d in rbind (body (storeOf d1 repo) d1) (\<lambda>(a, d2).
       rbind (enforce (wk_ext e) (wk_limits e) cls repo d2) (\<lambda>_. Inr (a, d2)))) = Inr (a, d')"
  then have "body (storeOf ?d repo) ?d = Inr (a, d')" "enforce (wk_ext e) (wk_limits e) cls repo d' = Inr ()"
    by (auto simp: Let_def split: prod.splits)
  then show "P d'" by (rule assms(2)[OF repo_store_ensured refl])
qed (rule assms(1))

section \<open>The interface\<close>

text \<open>A mutation that \<open>parseWork\<close> accepted, with the native actor the routing set.\<close>

definition request_ok :: "workRequest \<Rightarrow> bool" where
  "request_ok r \<longleftrightarrow> (\<exists>op members r0 actor. parseWork op members = Inr r0 \<and> \<not> workRead op \<and> r = r0\<lparr>q_actor := actor\<rparr>)"

text \<open>The part of the interface that every request on a memory store relies on: a new store and the expiry.\<close>

locale store_interface =
  fixes P :: "time \<Rightarrow> db \<Rightarrow> bool"
    and envok :: "wenv \<Rightarrow> bool"
  assumes keeps_store: "P now d \<Longrightarrow> envok e \<Longrightarrow> P now (ensure_store repo (wk_store_id e d) d)"
    and keeps_expire: "P now d \<Longrightarrow> expire_entries x repo t d = Inr (n, d') \<Longrightarrow> P now d'"
    and keeps_windows: "P now d \<Longrightarrow> expire_windows l repo t d = Inr ((), d') \<Longrightarrow> P now d'"
begin

lemmas tx_keeps = write_tx_kept[where P = "P now" for now]
lemmas seq_keeps = and_then_kept[where P = "P now" for now]

lemma expire_loop_keeps: "P now d \<Longrightarrow> P now (snd (expire_loop e g repo t d))"
proof (induction e g repo t d rule: expire_loop.induct)
  case (1 e g repo t d)
  have tx: "P now (snd (write_tx e g control (expire_entries (wk_ext e) repo t) d))"
    by (rule tx_keeps[OF "1.prems"]) (rule keeps_expire[OF "1.prems"])
  show ?case
  proof (cases "write_tx e g control (expire_entries (wk_ext e) repo t) d")
    case (Pair a d1)
    then show ?thesis using tx "1.IH"[OF Pair[symmetric]]
      by (cases a) (auto simp: expire_loop.simps[of e g repo t d])
  qed
qed

lemma expireMemory_keeps: "P now d \<Longrightarrow> P now (snd (expireMemory e g repo d))"
  unfolding expireMemory_def
proof (rule seq_keeps[OF expire_loop_keeps])
  fix a d1 assume d1: "P now d1"
  show "P now (snd (write_tx e g control (expire_windows (wk_limits e) repo (wk_expiry_now e)) d1))"
    by (rule tx_keeps[OF d1]) (rule keeps_windows[OF d1], simp)
qed

lemma maybeExpire_keeps: "P now d \<Longrightarrow> P now (snd (snd (maybeExpire e g repo t d)))"
  by (simp add: maybeExpire_def expireMemory_keeps)

end

locale work_interface = store_interface +
  assumes keeps_apply: "P now d \<Longrightarrow> envok e \<Longrightarrow> request_ok r \<Longrightarrow> repo_store d (m_repository m) store \<Longrightarrow>
      apply_work e store m r now print d = Inr (y, d') \<Longrightarrow>
      enforce (wk_ext e) (wk_limits e) cls (m_repository m) d' = Inr () \<Longrightarrow> P now d'"
    and keeps_reconcile: "P now d \<Longrightarrow> envok e \<Longrightarrow> repo_store d repo store \<Longrightarrow> current d store i now = Inr w \<Longrightarrow>
      bundleFor d store i = Some b \<Longrightarrow> b_active b \<Longrightarrow> b_progress_epoch b = w_progress_epoch w \<Longrightarrow> reconcile_due now w b \<Longrightarrow>
      reconcile_tx (wk_ext e) repo now w b store d = Inr ((), d') \<Longrightarrow>
      enforce (wk_ext e) (wk_limits e) control repo d' = Inr () \<Longrightarrow> P now d'"
    and keeps_inactive: "P now d \<Longrightarrow> bundleFor d store i = Some q \<Longrightarrow> \<not> b_active q \<Longrightarrow> P now (delete_inactive store q d)"
    and keeps_reclaimOne: "P now d \<Longrightarrow> reclaimOne store d = Inr (y', d') \<Longrightarrow> P now d'"
    and keeps_reclaim: "P now d \<Longrightarrow> repo_store d repo store \<Longrightarrow> reclaim_item l repo i bound store d = Inr (y', d') \<Longrightarrow> P now d'"
begin

lemmas ww_keeps = workWrite_kept[where P = "P now" for now]

lemma reconcile_keeps: "P now d \<Longrightarrow> envok e \<Longrightarrow> P now (snd (reconcile e g repo i now d))"
proof -
  assume P: "P now d" and e: "envok e"
  show ?thesis
  proof (cases "\<exists>w b. storeOf d repo \<noteq> [] \<and> current d (storeOf d repo) i now = Inr w \<and> bundleFor d (storeOf d repo) i = Some b
      \<and> b_active b \<and> b_progress_epoch b = w_progress_epoch w \<and> reconcile_due now w b")
    case True
    then obtain w b where c: "storeOf d repo \<noteq> []" "current d (storeOf d repo) i now = Inr w" "bundleFor d (storeOf d repo) i = Some b"
      "b_active b" "b_progress_epoch b = w_progress_epoch w" "reconcile_due now w b" by blast
    have "P now (snd (workWrite e g repo control (reconcile_tx (wk_ext e) repo now w b) d))"
    proof (rule ww_keeps[OF P])
      fix a d' store
      assume s: "store = storeOf (ensure_store repo (wk_store_id e d) d) repo"
        and b: "reconcile_tx (wk_ext e) repo now w b store (ensure_store repo (wk_store_id e d) d) = Inr (a, d')"
        and f: "enforce (wk_ext e) (wk_limits e) control repo d' = Inr ()"
      show "P now d'"
        using keeps_reconcile[OF P e storeOf_known(2)[OF c(1)] c(2-6) _ f] s b storeOf_known(1)[OF c(1)] by simp
    qed
    then show ?thesis using c by (simp add: reconcile_def Let_def)
  next
    case False
    then show ?thesis using P by (auto simp: reconcile_def Let_def split: sum.splits option.splits)
  qed
qed

lemma reclaimInactive_keeps:
  assumes "P now d" "envok e"
  shows "P now (snd (reclaimInactive e g repo i d))"
proof -
  have body: "P now d'" if "(case bundleFor d1 store i of None \<Rightarrow> Inr ((), d1)
      | Some q \<Rightarrow> if b_active q then Inr ((), d1) else Inr ((), delete_inactive store q d1)) = Inr (u, d')" "P now d1" for d1 d' store u
    using that keeps_inactive[OF that(2)] by (cases "bundleFor d1 store i") (auto split: if_splits)
  have "P now (snd (workWrite e g repo ordinary (\<lambda>store d1.
      case bundleFor d1 store i of None \<Rightarrow> Inr ((), d1)
      | Some q \<Rightarrow> if b_active q then Inr ((), d1) else Inr ((), delete_inactive store q d1)) d))"
    by (rule ww_keeps[OF assms(1)]) (rule body, assumption, rule keeps_store[OF assms])
  then show ?thesis
    using assms(1) by (simp add: reclaimInactive_def split: option.splits)
qed

lemma reclaimFinished_keeps:
  assumes "P now d" "envok e"
  shows "P now (snd (reclaimFinished e g repo store bound d))"
proof (cases "oldest_finished d store bound")
  case (Some i)
  have "P now (snd (workWrite e g repo control (reclaim_item (wk_limits e) repo i bound) d))"
    by (rule ww_keeps[OF assms(1)]) (rule keeps_reclaim[OF keeps_store[OF assms]])
  then show ?thesis using Some by (simp add: reclaimFinished_def)
qed (simp add: reclaimFinished_def assms)

lemma makeRoom_keeps:
  assumes "P now d" "envok e"
  shows "P now (snd (makeRoom e g repo d))"
proof -
  have "P now (snd (and_then (reclaimInactive e g repo i d) (\<lambda>_ d1.
      and_then (reclaimFinished e g repo store None d1) (\<lambda>_ d2. (Inr (), d2)))))" for i store
    by (rule seq_keeps[OF reclaimInactive_keeps[OF assms]], rule seq_keeps[OF reclaimFinished_keeps[OF _ assms(2)]]) simp_all
  then show ?thesis using assms(1) by (simp add: makeRoom_def Let_def split: option.splits)
qed

lemma prepare_keeps:
  assumes "P now d" "envok e"
  shows "P now (snd (prepare e g m r now d))"
  unfolding prepare_def
  by (rule seq_keeps) (simp_all add: reconcile_keeps makeRoom_keeps reclaimInactive_keeps assms)

lemma workMutation_keeps:
  assumes "P now d" "envok e" "request_ok r"
  shows "P now (snd (snd (workMutation e g m r now expired_at d)))"
proof -
  have tx: "P now (snd (workWrite e g (m_repository m) cls (\<lambda>store. apply_work e store m r now print) d2))"
    if "P now d2" for d2 print cls
    by (rule ww_keeps[OF that]) (rule keeps_apply[OF keeps_store[OF that assms(2)] assms(2,3)])
  have main: "P now (snd (and_then (snd (maybeExpire e g (m_repository m) expired_at d)) (\<lambda>_ d1.
      and_then (prepare e g m r now d1) (\<lambda>_ d2.
        workWrite e g (m_repository m) (write_class r) (\<lambda>store. apply_work e store m r now print) d2))))" for print
    by (rule seq_keeps[OF maybeExpire_keeps[OF assms(1)]], rule seq_keeps[OF prepare_keeps[OF _ assms(2)]]) (auto intro: tx)
  obtain t a b where me: "maybeExpire e g (m_repository m) expired_at d = (t, a, b)"
    by (cases "maybeExpire e g (m_repository m) expired_at d")
  show ?thesis
    unfolding workMutation_def me
    using main[unfolded me] assms(1) by (simp split: sum.splits prod.splits option.splits)
qed

lemma Work_keeps:
  assumes "P now d" "envok e"
  shows "P now (snd (snd (Work e m op members arrived now expired_at d)))"
proof (cases "parseWork op members")
  case (Inr r)
  have ok: "request_ok (r\<lparr>q_actor := actor\<rparr>)" if "\<not> workRead op" for actor
    using that Inr by (auto simp: request_ok_def)
  have mut: "P now (snd (snd (workMutation e (Some m1) m1 (r\<lparr>q_actor := actor\<rparr>) now expired_at d)))" if "\<not> workRead op" for m1 actor
    by (rule workMutation_keeps[OF assms ok[OF that]])
  let ?route = "rbind (if validKey (k_family (m_native m)) (k_id (m_native m)) then roleWorkCaller (wk_ext e) m r arrived d
      else Inr (m, q_actor r)) (\<lambda>(m1, actor). rbind (requireParticipantCaller d (wk_now_ms e) m1) (\<lambda>_. Inr (m1, actor)))"
  show ?thesis
  proof (cases ?route)
    case (Inl err)
    then show ?thesis unfolding Work_def \<open>parseWork op members = Inr r\<close> sum.case by (simp add: assms(1))
  next
    case route: (Inr x)
    obtain m1 actor where x: "x = (m1, actor)" by (cases x)
    show ?thesis
    proof (cases "workRead op")
      case True
      then show ?thesis unfolding Work_def Inr route x sum.case by (simp add: Let_def assms(1))
    next
      case False
      obtain t a d' where w: "workMutation e (Some m1) m1 (r\<lparr>q_actor := actor\<rparr>) now expired_at d = (t, a, d')"
        by (cases "workMutation e (Some m1) m1 (r\<lparr>q_actor := actor\<rparr>) now expired_at d")
      have "P now d'" using mut[OF False, of m1 actor] w by simp
      then show ?thesis unfolding Work_def Inr route x sum.case using False w by (cases a) (simp_all add: Let_def)
    qed
  qed
qed (use assms in \<open>simp add: Work_def\<close>)

lemma reconcile_all_keeps: "P now d \<Longrightarrow> envok e \<Longrightarrow> P now (snd (reconcile_all e repo now ids d))"
proof (induction ids arbitrary: d)
  case (Cons i ids)
  show ?case
    unfolding reconcile_all.simps by (rule seq_keeps[OF reconcile_keeps[OF Cons.prems]]) (rule Cons.IH[OF _ Cons.prems(2)])
qed simp

lemma maintainStore_keeps:
  assumes "P now d" "envok e"
  shows "P now (snd (maintainStore e repo store now d))"
proof -
  have one: "P now (snd (and_then (workWrite e None repo control reclaimOne d1) (\<lambda>_ d2. (Inr (), d2))))" if "P now d1" for d1
    by (rule seq_keeps[OF ww_keeps[OF that]]) (rule keeps_reclaimOne[OF keeps_store[OF that assms(2)]], assumption, simp)
  have fin: "P now (snd (and_then (reclaimFinished e None repo store (Some now) d1) (\<lambda>_ d2. (Inr (), d2))))" if "P now d1" for d1
    by (rule seq_keeps[OF reclaimFinished_keeps[OF that assms(2)]]) simp
  show ?thesis
    unfolding maintainStore_def
    by (rule seq_keeps[OF reconcile_all_keeps[OF assms]], rule seq_keeps) (auto intro: one fin)
qed

lemma maintain_stores_keeps: "P now d \<Longrightarrow> envok e \<Longrightarrow> P now (snd (maintain_stores e now ts d))"
proof (induction ts arbitrary: d)
  case (Cons t ts)
  obtain repo store where t: "t = (repo, store)" by (cases t)
  show ?case
    unfolding t maintain_stores.simps
    by (rule seq_keeps[OF maintainStore_keeps[OF Cons.prems]]) (rule Cons.IH[OF _ Cons.prems(2)])
qed simp

lemma MaintainWork_keeps: "P now d \<Longrightarrow> envok e \<Longrightarrow> P now (snd (snd (MaintainWork e now (s, d))))"
  using maintain_stores_keeps[of now d e "sweep_targets d"]
  by (cases "maintain_stores e now (sweep_targets d) d") (simp add: MaintainWork_def)

end

end
