(* ===== verification/Work_Safety.thy ===== *)
theory Work_Safety
  imports Work_Interface
begin

text \<open>
  The invariant of the work tables (\<open>work_inv\<close>) and that every transaction body of the work component
  keeps it: items and events agree on a gapless history, every event has its stream entry, every active
  claim belongs to an ongoing item of the same progress epoch, and the pending verdicts stay within
  their limits. The interpretation \<open>keeping\<close> of \<open>work_interface\<close> carries it to \<open>Work\<close> and \<open>MaintainWork\<close>.
\<close>

section \<open>The invariant\<close>

definition heads :: "db \<Rightarrow> (string \<times> string \<times> int) list" where
  "heads d = map (\<lambda>m. (ms_repository m, ms_store_id m, ms_head m)) (memory_stores d)"

definition head_of :: "db \<Rightarrow> string \<Rightarrow> int" where
  "head_of d store = (case List.find (\<lambda>h. fst (snd h) = store) (heads d) of None \<Rightarrow> 0 | Some h \<Rightarrow> snd (snd h))"

definition stores_wf :: "db \<Rightarrow> bool" where
  "stores_wf d \<longleftrightarrow> distinct (map fst (heads d)) \<and> distinct (map (fst \<circ> snd) (heads d))
     \<and> (\<forall>h\<in>set (heads d). fst (snd h) \<noteq> [] \<and> 0 \<le> snd (snd h))"

definition item_key :: "workItem \<Rightarrow> string \<times> string" where
  "item_key w = (w_store w, w_work_id w)"

definition items_wf :: "db \<Rightarrow> bool" where
  "items_wf d \<longleftrightarrow> distinct (map item_key (work_items d))
     \<and> (\<forall>w\<in>set (work_items d). item_checks w \<and> w_report w = None \<and> w_evidence w = None)"

definition events_wf :: "db \<Rightarrow> bool" where
  "events_wf d \<longleftrightarrow> (\<forall>v\<in>set (work_events d). we_seq v \<le> head_of d (we_store v)
     \<and> (\<exists>w\<in>set (work_items d). item_key w = (we_store v, we_work_id v)))"

definition pretraced :: "db \<Rightarrow> string \<Rightarrow> string \<Rightarrow> int \<Rightarrow> bool" where
  "pretraced d store i n \<longleftrightarrow> map we_revision (events_of d store i) = [1..n]
     \<and> sorted_wrt (<) (map we_seq (events_of d store i))"

text \<open>The events of an item are its revisions from 1, in order; the last one is its latest sequence.\<close>

definition traced :: "db \<Rightarrow> workItem \<Rightarrow> bool" where
  "traced d w \<longleftrightarrow> pretraced d (w_store w) (w_work_id w) (w_revision w)
     \<and> last (map we_seq (events_of d (w_store w) (w_work_id w))) = w_latest_seq w"

definition history_ok :: "db \<Rightarrow> bool" where
  "history_ok d \<longleftrightarrow> (\<forall>w\<in>set (work_items d). traced d w)"

text \<open>A stream entry of an event, as \<open>reclaimFinished\<close> compares it.\<close>

definition stream_row :: "entryRow \<Rightarrow> workEventRow \<Rightarrow> bool" where
  "stream_row n v \<longleftrightarrow> e_seq n = we_seq v \<and> e_type n = ''work-event'' \<and> e_scope_target n = Some (we_work_id v)
     \<and> e_revision n = we_revision v \<and> e_body n = [] \<and> e_expires n = None \<and> e_supersedes n = None \<and> e_revokes n = None"

definition stream_ok :: "db \<Rightarrow> bool" where
  "stream_ok d \<longleftrightarrow> distinct (map (\<lambda>n. (e_repository n, e_seq n)) (memory_entries d))
     \<and> (\<forall>v\<in>set (work_events d). \<forall>h\<in>set (heads d). fst (snd h) = we_store v \<longrightarrow>
          (\<exists>n\<in>set (memory_entries d). e_repository n = fst h \<and> stream_row n v))
     \<and> (\<forall>n\<in>set (memory_entries d). e_type n = ''work-event'' \<longrightarrow>
          (\<exists>h\<in>set (heads d). \<exists>v\<in>set (work_events d). fst h = e_repository n \<and> fst (snd h) = we_store v \<and> stream_row n v))"

definition scopes_ok :: "db \<Rightarrow> bool" where
  "scopes_ok d \<longleftrightarrow> (\<forall>w\<in>set (work_items d). \<exists>r\<in>set (work_scope_revisions d). sc_store r = w_store w \<and> sc_work_id r = w_work_id w)"

definition claims_ok :: "db \<Rightarrow> bool" where
  "claims_ok d \<longleftrightarrow> (\<forall>b\<in>set (claim_bundles d). b_active b \<longrightarrow>
     (\<exists>w\<in>set (work_items d). item_key w = (b_store b, b_work_id b) \<and> ongoing (w_lifecycle w)
        \<and> w_progress_epoch w = b_progress_epoch b))"

definition credits_in :: "string \<Rightarrow> db \<Rightarrow> int" where
  "credits_in store d = sum_flags w_verdict_credit (filter (\<lambda>w. w_store w = store) (work_items d))"

definition credits_ok :: "db \<Rightarrow> bool" where
  "credits_ok d \<longleftrightarrow> (\<forall>store. credits_in store d \<le> maxStoreVerdicts)
     \<and> sum_flags w_verdict_credit (work_items d) \<le> maxDaemonVerdicts"

definition work_inv :: "time \<Rightarrow> db \<Rightarrow> bool" where
  "work_inv now d \<longleftrightarrow> stores_wf d \<and> items_wf d \<and> events_wf d \<and> history_ok d \<and> stream_ok d \<and> scopes_ok d
     \<and> claims_ok d \<and> lease_inv now d \<and> credits_ok d"

lemma work_invI:
  "stores_wf d \<Longrightarrow> items_wf d \<Longrightarrow> events_wf d \<Longrightarrow> history_ok d \<Longrightarrow> stream_ok d \<Longrightarrow> scopes_ok d \<Longrightarrow>
     claims_ok d \<Longrightarrow> lease_inv now d \<Longrightarrow> credits_ok d \<Longrightarrow> work_inv now d"
  by (simp add: work_inv_def)

lemma work_invD:
  assumes "work_inv now d"
  shows "stores_wf d" "items_wf d" "events_wf d" "history_ok d" "stream_ok d" "scopes_ok d"
    "claims_ok d" "lease_inv now d" "credits_ok d"
  using assms by (simp_all add: work_inv_def)

section \<open>Frames\<close>

lemma map_update_where_if:
  assumes "\<And>r. P r \<Longrightarrow> g (f r) = g r"
  shows "map g (update_where P f t) = map g t"
  using assms by (auto simp: update_where_def)

text \<open>Two databases with the same work tables, apart from claims and replays.\<close>

definition same_work :: "db \<Rightarrow> db \<Rightarrow> bool" where
  "same_work d d' \<longleftrightarrow> heads d' = heads d \<and> work_items d' = work_items d \<and> work_events d' = work_events d
     \<and> memory_entries d' = memory_entries d \<and> work_scope_revisions d' = work_scope_revisions d"

lemma same_work_refl [simp]: "same_work d d"
  by (simp add: same_work_def)

lemma same_work_trans: "same_work a b \<Longrightarrow> same_work b c \<Longrightarrow> same_work a c"
  by (simp add: same_work_def)

lemma same_workD:
  assumes "same_work d d'"
  shows "stores_wf d' = stores_wf d" "items_wf d' = items_wf d" "events_wf d' = events_wf d" "history_ok d' = history_ok d"
    "stream_ok d' = stream_ok d" "scopes_ok d' = scopes_ok d" "credits_ok d' = credits_ok d" "pretraced d' = pretraced d"
    "head_of d' = head_of d"
  using assms
  by (simp_all add: same_work_def stores_wf_def items_wf_def events_wf_def history_ok_def traced_def pretraced_def
      events_of_def stream_ok_def scopes_ok_def credits_ok_def credits_in_def head_of_def fun_eq_iff)

lemma heads_update:
  assumes "\<And>m. ms_repository (f m) = ms_repository m \<and> ms_store_id (f m) = ms_store_id m \<and> ms_head (f m) = ms_head m"
  shows "map (\<lambda>m. (ms_repository m, ms_store_id m, ms_head m)) (update_where P f t)
    = map (\<lambda>m. (ms_repository m, ms_store_id m, ms_head m)) t"
  using assms by (intro map_update_where) auto

lemma acquire_same: "acquire store i c epoch opts now dur d = Inr (l, d') \<Longrightarrow> same_work d d'"
  by (erule acquire_Inr) (simp add: same_work_def heads_def heads_update)

lemma set_bundle_same [simp]: "same_work d (set_bundle store g f d)"
  by (simp add: same_work_def heads_def set_bundle_def)

lemma renew_same: "renew actor store i c g rv now dur d = Inr (l, d') \<Longrightarrow> same_work d d'"
  by (auto simp: renew_def Let_def split: if_splits)

lemma progress_same: "progress_claim store i c g epoch now d = Inr d' \<Longrightarrow> same_work d d'"
  by (auto simp: progress_claim_def)

lemma release_same: "release store i c g now d = Inr d' \<Longrightarrow> same_work d d'"
  by (auto simp: release_def end_claim_def)

lemma overdue_same: "overdue store g epoch d = Inr (y, d') \<Longrightarrow> same_work d d'"
  by (auto simp: overdue_def split: option.splits if_splits)

lemma expire_same [simp]: "same_work d (snd (expire store g now d))"
  by (auto simp: expire_def end_claim_def split: option.splits)

section \<open>Heads\<close>

lemma find_store_head:
  "map_option (\<lambda>m. (ms_repository m, ms_store_id m, ms_head m)) (List.find (\<lambda>m. ms_store_id m = store) t)
     = List.find (\<lambda>h. fst (snd h) = store) (map (\<lambda>m. (ms_repository m, ms_store_id m, ms_head m)) t)"
  by (induction t) auto

lemma head_of_store:
  "List.find (\<lambda>m. ms_store_id m = store) (memory_stores d) = Some s \<Longrightarrow> head_of d store = ms_head s"
  using find_store_head[of store "memory_stores d", symmetric] by (simp add: head_of_def heads_def)

text \<open>The heads after one store's head advanced.\<close>

definition raised :: "string \<Rightarrow> (string \<times> string \<times> int) list \<Rightarrow> (string \<times> string \<times> int) list" where
  "raised store hs = map (\<lambda>(r, s, n). (r, s, if s = store then n + 1 else n)) hs"

lemma heads_raised:
  "map (\<lambda>m. (ms_repository m, ms_store_id m, ms_head m)) (update_where (\<lambda>q. ms_store_id q = store) (\<lambda>q. q\<lparr>ms_head := ms_head q + 1\<rparr>) t)
     = raised store (map (\<lambda>m. (ms_repository m, ms_store_id m, ms_head m)) t)"
  by (induction t) (auto simp: raised_def update_where_def)

lemma find_raised:
  "List.find (\<lambda>h. fst (snd h) = s) (raised store hs)
     = map_option (\<lambda>(r, s, n). (r, s, if s = store then n + 1 else n)) (List.find (\<lambda>h. fst (snd h) = s) hs)"
  by (induction hs) (auto simp: raised_def)

lemma raised_wf:
  "map fst (raised store hs) = map fst hs" "map (fst \<circ> snd) (raised store hs) = map (fst \<circ> snd) hs"
  by (induction hs) (auto simp: raised_def)

lemma raised_mem:
  assumes "h \<in> set (raised store hs)"
  shows "\<exists>h0\<in>set hs. fst h = fst h0 \<and> fst (snd h) = fst (snd h0) \<and> snd (snd h0) \<le> snd (snd h)"
proof -
  obtain r s n where h0: "(r, s, n) \<in> set hs" "h = (r, s, if s = store then n + 1 else n)"
    using assms by (auto simp: raised_def)
  show ?thesis by (rule bexI[OF _ h0(1)]) (simp add: h0(2))
qed

lemma raised_mem2: "h0 \<in> set hs \<Longrightarrow> \<exists>h\<in>set (raised store hs). fst h = fst h0 \<and> fst (snd h) = fst (snd h0)"
  by (induction hs) (auto simp: raised_def)

section \<open>What an event writes\<close>

definition event_row :: "string \<Rightarrow> MemoryCaller \<Rightarrow> workItem \<Rightarrow> string \<Rightarrow> WorkView \<Rightarrow> workEventRow" where
  "event_row store m w kind v = \<lparr>we_store = store, we_seq = w_latest_seq w, we_work_id = w_work_id w, we_revision = w_revision w,
     we_kind = kind, we_payload = v\<lparr>v_report := w_report w, v_verdict_evidence := w_evidence w\<rparr>, we_actor = nativeActor m\<rparr>"

lemma numbered_simps [simp]:
  "w_latest_seq (numbered kind seq w) = seq" "w_work_id (numbered kind seq w) = w_work_id w"
  "w_revision (numbered kind seq w) = w_revision w" "w_lifecycle (numbered kind seq w) = w_lifecycle w"
  "w_progress_epoch (numbered kind seq w) = w_progress_epoch w" "w_verdict_credit (numbered kind seq w) = w_verdict_credit w"
  "w_report (numbered kind seq w) = w_report w" "w_evidence (numbered kind seq w) = w_evidence w"
  by (simp_all add: numbered_def Let_def)

lemma stored_simps [simp]:
  "w_store (stored q w) = w_store q" "w_work_id (stored q w) = w_work_id w" "w_revision (stored q w) = w_revision w"
  "w_lifecycle (stored q w) = w_lifecycle w" "w_progress_epoch (stored q w) = w_progress_epoch w"
  "w_verdict_credit (stored q w) = w_verdict_credit w" "w_latest_seq (stored q w) = w_latest_seq w"
  "w_report (stored q w) = None" "w_evidence (stored q w) = None"
  by (simp_all add: stored_def)

lemma item_checks_stored [simp]: "item_checks (stored q w) = item_checks w"
  by (simp add: item_checks_def stored_def)

lemma event_Inr:
  assumes "event x store m w kind c a now d = Inr (w1, d')"
  obtains s v where
    "List.find (\<lambda>m. ms_store_id m = store) (memory_stores d) = Some s"
    "w1 = numbered kind (ms_head s + 1) w"
    "item_row d store (w_work_id w) = None \<or> item_checks w1"
    "entry_ok (event_entry m (ms_head s + 1) now w1 c a) (memory_entries d)"
    "event_ok (event_row store m w1 kind v) (work_events d)"
    "d' = d\<lparr>memory_stores := update_where (\<lambda>q. ms_store_id q = store) (\<lambda>q. q\<lparr>ms_head := ms_head q + 1\<rparr>) (memory_stores d),
       work_items := update_where (\<lambda>q. w_store q = store \<and> w_work_id q = w_work_id w) (\<lambda>q. stored q w1) (work_items d),
       memory_entries := memory_entries d @ [event_entry m (ms_head s + 1) now w1 c a],
       work_events := work_events d @ [event_row store m w1 kind v]\<rparr>"
proof -
  from assms obtain s where s: "List.find (\<lambda>m. ms_store_id m = store) (memory_stores d) = Some s"
    by (auto simp: event_def advance_head_def split: option.splits)
  let ?w1 = "numbered kind (ms_head s + 1) w"
  let ?d1 = "d\<lparr>memory_stores := update_where (\<lambda>q. ms_store_id q = store) (\<lambda>q. q\<lparr>ms_head := ms_head q + 1\<rparr>) (memory_stores d)\<rparr>"
  let ?d2 = "?d1\<lparr>work_items := update_where (\<lambda>q. w_store q = store \<and> w_work_id q = w_work_id w) (\<lambda>q. stored q ?w1) (work_items d)\<rparr>"
  have row: "item_row ?d1 store (w_work_id w) = item_row d store (w_work_id w)" by (simp add: item_row_def)
  from assms s obtain v where v: "view ?d2 store ?w1 now = Inr v"
    "item_row d store (w_work_id w) = None \<or> item_checks ?w1"
    "entry_ok (event_entry m (ms_head s + 1) now ?w1 c a) (memory_entries d)"
    "event_ok (event_row store m ?w1 kind v) (work_events d)"
    "w1 = ?w1" "d' = ?d2\<lparr>memory_entries := memory_entries d @ [event_entry m (ms_head s + 1) now ?w1 c a],
       work_events := work_events d @ [event_row store m ?w1 kind v]\<rparr>"
    by (auto simp: event_def advance_head_def update_item_def Let_def event_row_def row split: if_splits)
  show thesis
    by (rule that[OF s v(5) v(2)[folded v(5)] v(3)[folded v(5)] v(4)[folded v(5)]]) (use v(5,6) in auto)
qed

section \<open>A transition and its event\<close>

text \<open>
  What every transition prepares for its event: the item keeps its key and its revision grows by one;
  only scope rows are added; claims of other items stay and a claim of this one fits the item; a new
  verdict credit was reserved.
\<close>

definition prepared :: "time \<Rightarrow> string \<Rightarrow> workItem \<Rightarrow> workItem \<Rightarrow> db \<Rightarrow> db \<Rightarrow> bool" where
  "prepared now store q w d d1 \<longleftrightarrow>
     w_work_id w = w_work_id q \<and> w_revision w = w_revision q + 1
     \<and> heads d1 = heads d \<and> work_items d1 = work_items d \<and> work_events d1 = work_events d \<and> memory_entries d1 = memory_entries d
     \<and> set (work_scope_revisions d) \<subseteq> set (work_scope_revisions d1)
     \<and> lease_inv now d1
     \<and> (\<forall>b\<in>set (claim_bundles d1). b_active b \<longrightarrow>
          (if b_store b = store \<and> b_work_id b = w_work_id q
           then ongoing (w_lifecycle w) \<and> w_progress_epoch w = b_progress_epoch b else b \<in> set (claim_bundles d)))
     \<and> (w_verdict_credit w \<longrightarrow> w_verdict_credit q
          \<or> (credits_in store d < maxStoreVerdicts \<and> sum_flags w_verdict_credit (work_items d) < maxDaemonVerdicts))"

definition claim_count :: "storeRow \<Rightarrow> string \<times> int" where
  "claim_count m = (ms_store_id m, ms_claim_counter m)"

text \<open>The work tables around one event, by the values they have before it.\<close>

definition eventful :: "string \<Rightarrow> workItem \<Rightarrow> entryRow \<Rightarrow> workEventRow \<Rightarrow> db \<Rightarrow> db \<Rightarrow> bool" where
  "eventful store w n v d d' \<longleftrightarrow>
     heads d' = raised store (heads d)
     \<and> work_items d' = update_where (\<lambda>q. w_store q = store \<and> w_work_id q = w_work_id w) (\<lambda>q. stored q w) (work_items d)
     \<and> memory_entries d' = memory_entries d @ [n] \<and> work_events d' = work_events d @ [v]
     \<and> work_scope_revisions d' = work_scope_revisions d \<and> claim_bundles d' = claim_bundles d \<and> claim_resources d' = claim_resources d
     \<and> map claim_count (memory_stores d') = map claim_count (memory_stores d)
     \<and> (\<exists>h\<in>set (heads d). fst (snd h) = store)
     \<and> we_store v = store \<and> we_work_id v = w_work_id w \<and> we_revision v = w_revision w \<and> we_seq v = w_latest_seq w
     \<and> w_latest_seq w = head_of d store + 1
     \<and> stream_row n v \<and> entry_ok n (memory_entries d)"

lemma event_eventful:
  assumes "event x store m w kind c a now d = Inr (w1, d')"
  obtains n v where "eventful store w1 n v d d'" "e_repository n = m_repository m" "w_work_id w1 = w_work_id w"
    "w1 = numbered kind (head_of d store + 1) w" "we_kind v = kind"
    "item_row d store (w_work_id w) = None \<or> item_checks w1" "e_consumer n = c"
proof -
  from assms obtain s v where s: "List.find (\<lambda>m. ms_store_id m = store) (memory_stores d) = Some s"
    and w1: "w1 = numbered kind (ms_head s + 1) w" and chk: "item_row d store (w_work_id w) = None \<or> item_checks w1"
    and ok: "entry_ok (event_entry m (ms_head s + 1) now w1 c a) (memory_entries d)"
    and eok: "event_ok (event_row store m w1 kind v) (work_events d)"
    and d': "d' = d\<lparr>memory_stores := update_where (\<lambda>q. ms_store_id q = store) (\<lambda>q. q\<lparr>ms_head := ms_head q + 1\<rparr>) (memory_stores d),
       work_items := update_where (\<lambda>q. w_store q = store \<and> w_work_id q = w_work_id w) (\<lambda>q. stored q w1) (work_items d),
       memory_entries := memory_entries d @ [event_entry m (ms_head s + 1) now w1 c a],
       work_events := work_events d @ [event_row store m w1 kind v]\<rparr>"
    by (rule event_Inr)
  have hd: "head_of d store = ms_head s" using s by (rule head_of_store)
  have sm: "s \<in> set (memory_stores d) \<and> ms_store_id s = store" using s by (rule find_Some_mem)
  then have mem: "\<exists>h\<in>set (heads d). fst (snd h) = store" by (auto simp: heads_def)
  have cnt: "map claim_count (update_where (\<lambda>q. ms_store_id q = store) (\<lambda>q. q\<lparr>ms_head := ms_head q + 1\<rparr>) (memory_stores d))
      = map claim_count (memory_stores d)"
    by (rule map_update_where) (simp add: claim_count_def)
  show thesis
  proof (rule that[of "event_entry m (ms_head s + 1) now w1 c a" "event_row store m w1 kind v"])
    show "eventful store w1 (event_entry m (ms_head s + 1) now w1 c a) (event_row store m w1 kind v) d d'"
      unfolding eventful_def d'
      using mem cnt ok by (simp add: heads_def heads_raised w1 hd stream_row_def event_entry_def event_row_def)
  qed (simp_all add: w1 hd event_entry_def event_row_def, use chk w1 in simp)
qed

section \<open>An event keeps the tables in step\<close>

lemma eventfulD:
  assumes "eventful store w n v d d'"
  shows "heads d' = raised store (heads d)"
    "work_items d' = update_where (\<lambda>q. w_store q = store \<and> w_work_id q = w_work_id w) (\<lambda>q. stored q w) (work_items d)"
    "memory_entries d' = memory_entries d @ [n]" "work_events d' = work_events d @ [v]"
    "work_scope_revisions d' = work_scope_revisions d" "claim_bundles d' = claim_bundles d" "claim_resources d' = claim_resources d"
    "map claim_count (memory_stores d') = map claim_count (memory_stores d)"
    "\<exists>h\<in>set (heads d). fst (snd h) = store"
    "we_store v = store" "we_work_id v = w_work_id w" "we_revision v = w_revision w" "we_seq v = w_latest_seq w"
    "w_latest_seq w = head_of d store + 1" "stream_row n v" "entry_ok n (memory_entries d)"
  using assms by (simp_all only: eventful_def)

lemma eventful_stores: "eventful store w n v d d' \<Longrightarrow> stores_wf d \<Longrightarrow> stores_wf d'"
proof -
  assume ev: "eventful store w n v d d'" and wf: "stores_wf d"
  have "fst (snd h) \<noteq> [] \<and> 0 \<le> snd (snd h)" if "h \<in> set (raised store (heads d))" for h
    using raised_mem[OF that] wf by (auto simp: stores_wf_def)
  then show ?thesis using wf by (simp add: stores_wf_def eventfulD(1)[OF ev] raised_wf)
qed

lemma eventful_head:
  assumes "eventful store w n v d d'"
  shows "head_of d' s = head_of d s + (if s = store then 1 else 0)"
proof (cases "List.find (\<lambda>h. fst (snd h) = s) (heads d)")
  case None
  then have "\<not> (\<exists>h\<in>set (heads d). fst (snd h) = s)" unfolding find_None_iff by blast
  then have "s \<noteq> store" using eventfulD(9)[OF assms] by auto
  then show ?thesis using None by (simp add: head_of_def eventfulD(1)[OF assms] find_raised)
next
  case (Some h)
  then show ?thesis using find_Some_mem[OF Some] by (cases h) (auto simp: head_of_def eventfulD(1)[OF assms] find_raised)
qed

lemma eventful_events_of:
  "eventful store w n v d d' \<Longrightarrow>
     events_of d' s i = events_of d s i @ (if s = store \<and> i = w_work_id w then [v] else [])"
  by (auto simp: events_of_def eventfulD(4,10,11))

lemma eventful_items:
  assumes ev: "eventful store w n v d d'" and wf: "items_wf d" and ok: "item_checks w"
  shows "items_wf d'"
  unfolding items_wf_def
proof (intro conjI ballI)
  have "map item_key (work_items d') = map item_key (work_items d)"
    unfolding eventfulD(2)[OF ev] by (rule map_update_where_if) (simp add: item_key_def)
  then show "distinct (map item_key (work_items d'))" using wf by (simp add: items_wf_def)
  fix q assume "q \<in> set (work_items d')"
  then show "item_checks q" "w_report q = None" "w_evidence q = None"
    using wf ok by (auto simp: eventfulD(2)[OF ev] in_update_where items_wf_def)
qed

lemma eventful_item_mem:
  assumes "eventful store w n v d d'" "q \<in> set (work_items d)"
  shows "\<exists>q'\<in>set (work_items d'). item_key q' = item_key q"
proof -
  let ?q = "if w_store q = store \<and> w_work_id q = w_work_id w then stored q w else q"
  have "?q \<in> set (work_items d')" using assms(2) by (auto simp: eventfulD(2)[OF assms(1)] set_update_where)
  moreover have "item_key ?q = item_key q" by (simp add: item_key_def)
  ultimately show ?thesis by blast
qed

lemma eventful_events:
  assumes ev: "eventful store w n v d d'" and wf: "events_wf d"
    and q: "q \<in> set (work_items d)" "item_key q = (store, w_work_id w)"
  shows "events_wf d'"
  unfolding events_wf_def
proof (intro ballI conjI)
  fix u assume "u \<in> set (work_events d')"
  then consider "u \<in> set (work_events d)" | "u = v" by (auto simp: eventfulD(4)[OF ev])
  then show "we_seq u \<le> head_of d' (we_store u)"
  proof cases
    case 1
    then have "we_seq u \<le> head_of d (we_store u)" using wf by (simp add: events_wf_def)
    then show ?thesis using eventful_head[OF ev, of "we_store u"] by (simp split: if_splits)
  next
    case 2
    then show ?thesis using eventful_head[OF ev, of store] eventfulD(10,13,14)[OF ev] by simp
  qed
next
  fix u assume "u \<in> set (work_events d')"
  then consider "u \<in> set (work_events d)" | "u = v" by (auto simp: eventfulD(4)[OF ev])
  then show "\<exists>w\<in>set (work_items d'). item_key w = (we_store u, we_work_id u)"
  proof cases
    case 1
    then obtain p where "p \<in> set (work_items d)" "item_key p = (we_store u, we_work_id u)"
      using wf by (auto simp: events_wf_def)
    then show ?thesis using eventful_item_mem[OF ev] by metis
  next
    case 2
    then show ?thesis using eventful_item_mem[OF ev q(1)] q(2) eventfulD(10,11)[OF ev] by simp
  qed
qed

lemma upto_snoc: "1 \<le> n \<Longrightarrow> [1..n] = [1..n - 1] @ [n :: int]"
  by (rule upto_rec2)

lemma sorted_wrt_snoc: "sorted_wrt (<) xs \<Longrightarrow> (\<forall>x\<in>set xs. x < (y :: int)) \<Longrightarrow> sorted_wrt (<) (xs @ [y])"
  by (simp add: sorted_wrt_append)

lemma eventful_history:
  assumes ev: "eventful store w n v d d'" and wf: "events_wf d"
    and others: "\<And>q. q \<in> set (work_items d) \<Longrightarrow> item_key q \<noteq> (store, w_work_id w) \<Longrightarrow> traced d q"
    and pre: "pretraced d store (w_work_id w) (w_revision w - 1)" "1 \<le> w_revision w"
  shows "history_ok d'"
  unfolding history_ok_def
proof
  fix q assume "q \<in> set (work_items d')"
  then obtain p where p: "p \<in> set (work_items d)" "q = (if w_store p = store \<and> w_work_id p = w_work_id w then stored p w else p)"
    by (auto simp: eventfulD(2)[OF ev] in_update_where)
  show "traced d' q"
  proof (cases "w_store p = store \<and> w_work_id p = w_work_id w")
    case True
    let ?t = "events_of d store (w_work_id w)"
    have "\<forall>x\<in>set (map we_seq ?t). x < we_seq v"
      using wf eventfulD(13,14)[OF ev] by (force simp: events_wf_def events_of_def)
    moreover have "events_of d' store (w_work_id w) = ?t @ [v]" using eventful_events_of[OF ev] by simp
    ultimately show ?thesis
      using pre True p(2) eventfulD(12,13)[OF ev] upto_snoc[OF pre(2)]
      by (simp add: traced_def pretraced_def sorted_wrt_append)
  next
    case False
    then have "traced d p" using others[OF p(1)] by (simp add: item_key_def)
    moreover have "events_of d' (w_store p) (w_work_id p) = events_of d (w_store p) (w_work_id p)"
      using eventful_events_of[OF ev, of "w_store p" "w_work_id p"] False by simp
    moreover have "q = p" using False p(2) by (auto split: if_splits)
    ultimately show ?thesis by (simp add: traced_def pretraced_def)
  qed
qed

lemma eventful_stream:
  assumes ev: "eventful store w n v d d'" and wf: "stores_wf d" "stream_ok d"
    and h: "h \<in> set (heads d)" "fst h = e_repository n" "fst (snd h) = store"
  shows "stream_ok d'"
  unfolding stream_ok_def
proof (intro conjI ballI impI)
  show "distinct (map (\<lambda>n. (e_repository n, e_seq n)) (memory_entries d'))"
    unfolding eventfulD(3)[OF ev] distinct_append_fresh
    using wf(2) eventfulD(16)[OF ev] by (simp add: stream_ok_def entry_ok_def)
next
  fix u k assume u: "u \<in> set (work_events d')" and k: "k \<in> set (heads d')" "fst (snd k) = we_store u"
  obtain k0 where k0: "k0 \<in> set (heads d)" "fst k = fst k0" "fst (snd k) = fst (snd k0)"
    using raised_mem k(1) unfolding eventfulD(1)[OF ev] by metis
  from u consider "u \<in> set (work_events d)" | "u = v" by (auto simp: eventfulD(4)[OF ev])
  then show "\<exists>n\<in>set (memory_entries d'). e_repository n = fst k \<and> stream_row n u"
  proof cases
    case 1
    then show ?thesis using wf(2) k0 k(2) by (simp add: stream_ok_def eventfulD(3)[OF ev])
  next
    case 2
    have "distinct (map (fst \<circ> snd) (heads d))" using wf(1) by (simp add: stores_wf_def)
    then have "k0 = h"
      using distinct_key_eq[of "fst \<circ> snd" "heads d" k0 h] k0 h k(2) 2 eventfulD(10)[OF ev] by simp
    then show ?thesis using 2 h(2) k0(2) eventfulD(3,15)[OF ev] by simp
  qed
next
  fix y assume y: "y \<in> set (memory_entries d')" "e_type y = ''work-event''"
  then consider "y \<in> set (memory_entries d)" | "y = n" by (auto simp: eventfulD(3)[OF ev])
  then have "\<exists>h0\<in>set (heads d). \<exists>u\<in>set (work_events d'). fst h0 = e_repository y \<and> fst (snd h0) = we_store u \<and> stream_row y u"
  proof cases
    case 1
    then obtain h0 u where "h0 \<in> set (heads d)" "u \<in> set (work_events d)" "fst h0 = e_repository y" "fst (snd h0) = we_store u" "stream_row y u"
      using wf(2) y(2) unfolding stream_ok_def by blast
    then show ?thesis unfolding eventfulD(4)[OF ev] by (intro bexI[of _ h0] bexI[of _ u]) auto
  next
    case 2
    then show ?thesis unfolding eventfulD(4)[OF ev]
      using h eventfulD(10,15)[OF ev] by (intro bexI[of _ h] bexI[of _ v]) auto
  qed
  then obtain h0 u where hu: "h0 \<in> set (heads d)" "u \<in> set (work_events d')" "fst h0 = e_repository y" "fst (snd h0) = we_store u" "stream_row y u"
    by blast
  obtain h1 where "h1 \<in> set (heads d')" "fst h1 = fst h0" "fst (snd h1) = fst (snd h0)"
    using raised_mem2[OF hu(1), of store] unfolding eventfulD(1)[OF ev] by blast
  then show "\<exists>h\<in>set (heads d'). \<exists>v\<in>set (work_events d'). fst h = e_repository y \<and> fst (snd h) = we_store v \<and> stream_row y v"
    using hu by (intro bexI[of _ h1] bexI[of _ u]) auto
qed

lemma eventful_scopes:
  assumes ev: "eventful store w n v d d'" and ok: "scopes_ok d"
  shows "scopes_ok d'"
  unfolding scopes_ok_def
proof
  fix q assume "q \<in> set (work_items d')"
  then obtain p where p: "p \<in> set (work_items d)" "q = (if w_store p = store \<and> w_work_id p = w_work_id w then stored p w else p)"
    by (auto simp: eventfulD(2)[OF ev] in_update_where)
  then have "w_store q = w_store p" "w_work_id q = w_work_id p" by auto
  then show "\<exists>r\<in>set (work_scope_revisions d'). sc_store r = w_store q \<and> sc_work_id r = w_work_id q"
    using ok p(1) by (simp add: scopes_ok_def eventfulD(5)[OF ev])
qed

lemma lease_wf_counters:
  "(\<forall>m\<in>set (memory_stores d). ms_store_id m = s \<longrightarrow> g \<le> ms_claim_counter m)
     \<longleftrightarrow> (\<forall>c\<in>set (map claim_count (memory_stores d)). fst c = s \<longrightarrow> g \<le> snd c)"
  by (simp add: claim_count_def)

lemma lease_inv_cong:
  assumes "claim_bundles d' = claim_bundles d" "claim_resources d' = claim_resources d"
    "map claim_count (memory_stores d') = map claim_count (memory_stores d)"
  shows "lease_inv now d' = lease_inv now d"
  unfolding lease_inv_def lease_wf_def exclusive_def lease_wf_counters assms bundleResources_cong[OF assms(2)] ..

lemma sum_flags_update:
  assumes "distinct (map k t)" "q \<in> set t" "\<And>r. r \<in> set t \<Longrightarrow> Q r \<longleftrightarrow> k r = k q"
  shows "sum_flags F (update_where Q f t) = sum_flags F t - (if F q then 1 else 0) + (if F (f q) then 1 else 0)"
  using assms
proof (induction t)
  case (Cons r t)
  show ?case
  proof (cases "k r = k q")
    case True
    then have rq: "r = q" using distinct_key_eq[OF Cons.prems(1), of r q] Cons.prems(2) by simp
    have "\<forall>p\<in>set t. \<not> Q p"
    proof
      fix p assume p: "p \<in> set t"
      have "k p \<noteq> k q" using Cons.prems(1) p True by (auto simp: image_iff)
      then show "\<not> Q p" using Cons.prems(3)[of p] p by simp
    qed
    then have "update_where Q f t = t" by (simp add: update_where_def map_idI)
    moreover have "update_where Q f (r # t) = f r # update_where Q f t"
      using Cons.prems(3)[of r] True by (simp add: update_where_def)
    ultimately show ?thesis using rq by (simp add: sum_flags_def)
  next
    case False
    then have "q \<in> set t" using Cons.prems(2) by auto
    then have "sum_flags F (update_where Q f t) = sum_flags F t - (if F q then 1 else 0) + (if F (f q) then 1 else 0)"
      using Cons.IH Cons.prems by simp
    moreover have "update_where Q f (r # t) = r # update_where Q f t"
      using Cons.prems(3)[of r] False by (simp add: update_where_def)
    ultimately show ?thesis unfolding sum_flags_def by (simp split: if_splits)
  qed
qed simp

lemma eventful_credits:
  assumes ev: "eventful store w n v d d'" and wf: "items_wf d" and ok: "credits_ok d"
    and q: "q \<in> set (work_items d)" "item_key q = (store, w_work_id w)"
    and new: "w_verdict_credit w \<Longrightarrow> w_verdict_credit q
      \<or> (credits_in store d < maxStoreVerdicts \<and> sum_flags w_verdict_credit (work_items d) < maxDaemonVerdicts)"
  shows "credits_ok d'"
  unfolding credits_ok_def
proof (intro conjI allI)
  let ?Q = "\<lambda>q. w_store q = store \<and> w_work_id q = w_work_id w"
  have dist: "distinct (map item_key (work_items d))" using wf by (simp add: items_wf_def)
  have key: "?Q r \<longleftrightarrow> item_key r = item_key q" for r using q(2) by (simp add: item_key_def)
  have "sum_flags w_verdict_credit (work_items d')
      = sum_flags w_verdict_credit (work_items d) - (if w_verdict_credit q then 1 else 0) + (if w_verdict_credit w then 1 else 0)"
    unfolding eventfulD(2)[OF ev] by (subst sum_flags_update[OF dist q(1) key]) simp
  then show "sum_flags w_verdict_credit (work_items d') \<le> maxDaemonVerdicts"
    using ok new by (auto simp: credits_ok_def split: if_splits)
  fix s
  have filt: "filter (\<lambda>w. w_store w = s) (work_items d') = update_where ?Q (\<lambda>q. stored q w) (filter (\<lambda>w. w_store w = s) (work_items d))"
    unfolding eventfulD(2)[OF ev] by (rule filter_update_where) simp
  show "credits_in s d' \<le> maxStoreVerdicts"
  proof (cases "s = store")
    case True
    have "credits_in s d' = credits_in s d - (if w_verdict_credit q then 1 else 0) + (if w_verdict_credit w then 1 else 0)"
      unfolding credits_in_def filt
      by (subst sum_flags_update[OF distinct_map_filter_key[OF dist] _ key]) (use q True in \<open>auto simp: item_key_def\<close>)
    moreover have "credits_in s d \<le> maxStoreVerdicts" using ok by (simp add: credits_ok_def)
    ultimately show ?thesis using new True by (auto split: if_splits)
  next
    case False
    then have "update_where ?Q (\<lambda>q. stored q w) (filter (\<lambda>w. w_store w = s) (work_items d)) = filter (\<lambda>w. w_store w = s) (work_items d)"
      by (auto simp: update_where_def intro!: map_idI)
    then show ?thesis using ok unfolding credits_in_def filt by (simp add: credits_ok_def credits_in_def)
  qed
qed

lemma repo_store_head: "repo_store d repo store \<Longrightarrow> \<exists>h\<in>set (heads d). fst h = repo \<and> fst (snd h) = store"
  by (auto simp: repo_store_def heads_def dest!: find_Some_mem)

lemma item_row_Some: "item_row d store i = Some q \<Longrightarrow> q \<in> set (work_items d) \<and> item_key q = (store, i)"
  by (auto simp: item_row_def item_key_def dest!: find_Some_mem)

lemma item_row_mem:
  assumes "items_wf d" "q \<in> set (work_items d)"
  shows "item_row d (w_store q) (w_work_id q) = Some q"
  using find_key_unique[of item_key "work_items d" q] assms by (simp add: items_wf_def item_row_def item_key_def)

text \<open>The claims after an event: those of its own item fit the new row, the others are as before.\<close>

lemma eventful_claims:
  assumes ev: "eventful store w n v d1 d'" and items: "work_items d1 = work_items d" and wf: "items_wf d" "claims_ok d"
    and q: "q \<in> set (work_items d)" "item_key q = (store, w_work_id w)"
    and own: "\<And>b. b \<in> set (claim_bundles d1) \<Longrightarrow> b_active b \<Longrightarrow>
      (if b_store b = store \<and> b_work_id b = w_work_id w
       then ongoing (w_lifecycle w) \<and> w_progress_epoch w = b_progress_epoch b else b \<in> set (claim_bundles d))"
  shows "claims_ok d'"
  unfolding claims_ok_def
proof (intro ballI impI)
  fix b assume "b \<in> set (claim_bundles d')" and act: "b_active b"
  then have b: "b \<in> set (claim_bundles d1)" by (simp add: eventfulD(6)[OF ev])
  let ?f = "\<lambda>q. if w_store q = store \<and> w_work_id q = w_work_id w then stored q w else q"
  have mem: "p \<in> set (work_items d) \<Longrightarrow> ?f p \<in> set (work_items d')" for p
    unfolding eventfulD(2)[OF ev] items set_update_where by blast
  show "\<exists>w\<in>set (work_items d'). item_key w = (b_store b, b_work_id b) \<and> ongoing (w_lifecycle w) \<and> w_progress_epoch w = b_progress_epoch b"
  proof (cases "b_store b = store \<and> b_work_id b = w_work_id w")
    case True
    then have "ongoing (w_lifecycle w) \<and> w_progress_epoch w = b_progress_epoch b" using own[OF b act] by simp
    then show ?thesis using mem[OF q(1)] q(2) True by (intro bexI[of _ "?f q"]) (auto simp: item_key_def)
  next
    case False
    then have "b \<in> set (claim_bundles d)" using own[OF b act] by (simp split: if_splits)
    then obtain p where p: "p \<in> set (work_items d)" "item_key p = (b_store b, b_work_id b)" "ongoing (w_lifecycle p)" "w_progress_epoch p = b_progress_epoch b"
      using wf(2) act unfolding claims_ok_def by blast
    then have "?f p = p" using False by (auto simp: item_key_def)
    then show ?thesis using mem[OF p(1)] p by (intro bexI[of _ p]) auto
  qed
qed

lemma pretraced_cong: "work_events d' = work_events d \<Longrightarrow> pretraced d' = pretraced d"
  by (simp add: fun_eq_iff pretraced_def events_of_def)

lemma traced_cong: "work_events d' = work_events d \<Longrightarrow> traced d' = traced d"
  by (simp add: fun_eq_iff traced_def pretraced_def events_of_def)

lemma preparedD:
  assumes "prepared now store q w d d1"
  shows "w_work_id w = w_work_id q" "w_revision w = w_revision q + 1"
    "heads d1 = heads d" "work_items d1 = work_items d" "work_events d1 = work_events d" "memory_entries d1 = memory_entries d"
    "set (work_scope_revisions d) \<subseteq> set (work_scope_revisions d1)" "lease_inv now d1"
    "\<forall>b\<in>set (claim_bundles d1). b_active b \<longrightarrow>
          (if b_store b = store \<and> b_work_id b = w_work_id q
           then ongoing (w_lifecycle w) \<and> w_progress_epoch w = b_progress_epoch b else b \<in> set (claim_bundles d))"
    "w_verdict_credit w \<longrightarrow> w_verdict_credit q
          \<or> (credits_in store d < maxStoreVerdicts \<and> sum_flags w_verdict_credit (work_items d) < maxDaemonVerdicts)"
  using assms unfolding prepared_def by - (elim conjE; assumption)+

lemma prepared_event_inv:
  assumes inv: "work_inv now d" and q: "q \<in> set (work_items d)" "w_store q = store"
    and p: "prepared now store q w d d1" and repo: "repo_store d (m_repository m) store"
    and e: "event x store m w kind c a now d1 = Inr (w1, d2)"
  shows "work_inv now d2"
proof -
  note iv = work_invD[OF inv] and pd = preparedD[OF p]
  from e obtain n v where ev: "eventful store w1 n v d1 d2" and n: "e_repository n = m_repository m"
    and w1: "w1 = numbered kind (head_of d1 store + 1) w" and chk: "item_row d1 store (w_work_id w) = None \<or> item_checks w1"
    by (rule event_eventful)
  have id: "w_work_id w1 = w_work_id q" "w_revision w1 = w_revision q + 1" "w_lifecycle w1 = w_lifecycle w"
    "w_progress_epoch w1 = w_progress_epoch w" "w_verdict_credit w1 = w_verdict_credit w"
    using w1 pd(1,2) by simp_all
  have key: "item_key q = (store, w_work_id w1)" using q(2) id by (simp add: item_key_def)
  have q1: "q \<in> set (work_items d1)" using q(1) pd(4) by simp
  have items1: "items_wf d1" using iv(2) pd(4) by (simp add: items_wf_def)
  have "item_row d1 store (w_work_id w) \<noteq> None"
    using item_row_mem[OF items1 q1] q(2) pd(1) by simp
  then have chk1: "item_checks w1" using chk by auto
  have st1: "stores_wf d1" using iv(1) pd(3) by (simp add: stores_wf_def)
  have ev1: "events_wf d1" using iv(3) pd(3-5) by (simp add: events_wf_def head_of_def)
  have sr1: "stream_ok d1" using iv(5) pd(3,5,6) by (simp add: stream_ok_def)
  have tr: "traced d q" using iv(4) q(1) by (simp add: history_ok_def)
  have "item_checks q" using iv(2) q(1) by (simp add: items_wf_def)
  then have rev: "1 \<le> w_revision q" by (simp add: item_checks_def)
  obtain h where h: "h \<in> set (heads d1)" "fst h = e_repository n" "fst (snd h) = store"
    using repo_store_head[OF repo] pd(3) n by auto
  show ?thesis
  proof (rule work_invI)
    show "stores_wf d2" by (rule eventful_stores[OF ev st1])
    show "items_wf d2" by (rule eventful_items[OF ev items1 chk1])
    show "events_wf d2" by (rule eventful_events[OF ev ev1 q1 key])
    show "history_ok d2"
    proof (rule eventful_history[OF ev ev1])
      show "traced d1 p" if "p \<in> set (work_items d1)" for p
        using that iv(4) pd(4) traced_cong[OF pd(5)] by (simp add: history_ok_def)
      show "pretraced d1 store (w_work_id w1) (w_revision w1 - 1)"
        using tr q(2) id pretraced_cong[OF pd(5)] by (simp add: traced_def)
      show "1 \<le> w_revision w1" using rev id by simp
    qed
    show "stream_ok d2" by (rule eventful_stream[OF ev st1 sr1 h])
    show "scopes_ok d2"
      by (rule eventful_scopes[OF ev]) (use iv(6) pd(4,7) in \<open>auto simp: scopes_ok_def\<close>)
    show "claims_ok d2"
      by (rule eventful_claims[OF ev pd(4) iv(2,7) q(1) key]) (use pd(9) id in auto)
    show "lease_inv now d2"
      using pd(8) lease_inv_cong[OF eventfulD(6-8)[OF ev]] by simp
    show "credits_ok d2"
      by (rule eventful_credits[OF ev items1 _ q1 key])
        (use iv(9) pd(4,10) id in \<open>auto simp: credits_ok_def credits_in_def\<close>)
  qed
qed

section \<open>Every transition is prepared\<close>

lemma scope_row:
  assumes "scope x store w c a now d = Inr d'"
  shows "\<exists>r. sc_store r = store \<and> sc_work_id r = w_work_id w \<and> d' = d\<lparr>work_scope_revisions := work_scope_revisions d @ [r]\<rparr>"
proof -
  let ?r = "\<lparr>sc_store = store, sc_work_id = w_work_id w, sc_revision = w_revision w, sc_ts = now, sc_consumer = c,
             sc_author = a, sc_title = w_title w, sc_criteria = w_criteria w, sc_non_goals = w_non_goals w\<rparr>"
  have "d' = d\<lparr>work_scope_revisions := work_scope_revisions d @ [?r]\<rparr>"
    using assms by (auto simp: scope_def Let_def)
  then show ?thesis by (intro exI[of _ ?r]) simp
qed

lemma scope_frame:
  "scope x store w c a now d = Inr d' \<Longrightarrow> \<exists>r. d' = d\<lparr>work_scope_revisions := work_scope_revisions d @ [r]\<rparr>"
  using scope_row by blast

text \<open>A claim of the item in the tables: the only bundle with its key.\<close>

lemma bundle_unique:
  assumes "lease_inv now d" "b \<in> set (claim_bundles d)" "c \<in> set (claim_bundles d)"
    "b_store b = b_store c" "b_work_id b = b_work_id c"
  shows "b = c"
  using assms distinct_key_eq[of "\<lambda>b. (b_store b, b_work_id b)" "claim_bundles d" b c]
  by (simp add: lease_inv_def lease_wf_def)

lemma bundleFor_Some: "bundleFor d store i = Some b \<Longrightarrow> b \<in> set (claim_bundles d) \<and> b_store b = store \<and> b_work_id b = i"
  by (auto simp: bundleFor_def dest!: find_Some_mem)

text \<open>An active claim of an item is of an ongoing item with its progress epoch.\<close>

lemma claim_fits:
  assumes inv: "work_inv now d" and q: "q \<in> set (work_items d)"
    and b: "b \<in> set (claim_bundles d)" "b_active b" "b_store b = w_store q" "b_work_id b = w_work_id q"
  shows "ongoing (w_lifecycle q) \<and> w_progress_epoch q = b_progress_epoch b"
proof -
  obtain p where p: "p \<in> set (work_items d)" "item_key p = (b_store b, b_work_id b)" "ongoing (w_lifecycle p)" "w_progress_epoch p = b_progress_epoch b"
    using work_invD(7)[OF inv] b(1,2) unfolding claims_ok_def by blast
  have "distinct (map item_key (work_items d))" using work_invD(2)[OF inv] by (simp add: items_wf_def)
  then have "p = q" using distinct_key_eq[of item_key "work_items d" p q] p q b(3,4) by (simp add: item_key_def)
  then show ?thesis using p by simp
qed

text \<open>A transition that leaves the claims alone.\<close>

lemma prepared_quiet:
  assumes inv: "work_inv now d" and q: "q \<in> set (work_items d)" "w_store q = store"
    and w: "w_work_id w = w_work_id q" "w_revision w = w_revision q + 1"
    and fits: "ongoing (w_lifecycle q) \<Longrightarrow> w_lifecycle w = w_lifecycle q \<and> w_progress_epoch w = w_progress_epoch q"
    and credit: "w_verdict_credit w \<Longrightarrow> w_verdict_credit q"
    and d1: "d1 = d\<lparr>work_scope_revisions := work_scope_revisions d @ rs\<rparr>"
  shows "prepared now store q w d d1"
proof -
  have "lease_inv now d1 = lease_inv now d" by (rule lease_inv_cong) (simp_all add: d1)
  moreover have "(if b_store b = store \<and> b_work_id b = w_work_id q
        then ongoing (w_lifecycle w) \<and> w_progress_epoch w = b_progress_epoch b else b \<in> set (claim_bundles d))"
    if "b \<in> set (claim_bundles d)" "b_active b" for b
    using claim_fits[OF inv q(1) that] that q(2) fits by auto
  ultimately show ?thesis
    unfolding prepared_def using w credit work_invD(8)[OF inv] by (auto simp: d1 heads_def)
qed

text \<open>A transition that changes only the item's own claim, by the lease engine.\<close>

lemma prepared_claim:
  assumes lease: "lease_inv now d1" and same: "same_work d d1"
    and w: "w_work_id w = w_work_id q" "w_revision w = w_revision q + 1"
    and claims: "\<And>b. b \<in> set (claim_bundles d1) \<Longrightarrow> b_active b \<Longrightarrow>
      (if b_store b = store \<and> b_work_id b = w_work_id q
       then ongoing (w_lifecycle w) \<and> w_progress_epoch w = b_progress_epoch b else b \<in> set (claim_bundles d))"
    and credit: "w_verdict_credit w \<Longrightarrow> w_verdict_credit q
          \<or> (credits_in store d < maxStoreVerdicts \<and> sum_flags w_verdict_credit (work_items d) < maxDaemonVerdicts)"
  shows "prepared now store q w d d1"
  unfolding prepared_def using assms by (simp add: same_work_def)

lemma request_lifecycle:
  assumes "request_ok r"
  shows "ongoing (case q_text r ''lifecycle'' of None \<Rightarrow> ''active'' | Some v \<Rightarrow> v)"
proof -
  obtain op members r0 actor where p: "parseWork op members = Inr r0" "\<not> workRead op" "r = r0\<lparr>q_actor := actor\<rparr>"
    using assms by (auto simp: request_ok_def)
  show ?thesis
    using request_lifecycle_text[OF p(1,2)] p(3) by (auto simp: ongoing_def split: option.splits)
qed

lemma progressed_simps [simp]:
  "w_work_id (progressed r now w) = w_work_id w" "w_revision (progressed r now w) = w_revision w"
  "w_progress_epoch (progressed r now w) = w_progress_epoch w" "w_verdict_credit (progressed r now w) = w_verdict_credit w"
  "w_lifecycle (progressed r now w) = (case q_text r ''lifecycle'' of None \<Rightarrow> ''active'' | Some v \<Rightarrow> v)"
  by (simp_all add: progressed_def Let_def)

lemma revise_Inr: "revise r q = Inr w \<Longrightarrow> w = q\<lparr>w_revision := w_revision q + 1\<rparr>"
  by (simp add: revise_def split: if_splits)

lemma propose_prepared:
  assumes inv: "work_inv now d" and q: "q \<in> set (work_items d)" "w_store q = store"
    and t: "apply_propose r (q\<lparr>w_revision := w_revision q + 1\<rparr>) d = Inr (kind, w, d1)"
  shows "prepared now store q w d d1"
  using t by (intro prepared_quiet[OF inv q, where rs = "[]"]) (auto simp: apply_propose_def)

lemma edit_prepared:
  assumes inv: "work_inv now d" and q: "q \<in> set (work_items d)" "w_store q = store"
    and t: "apply_edit x store m r now (q\<lparr>w_revision := w_revision q + 1\<rparr>) d = Inr (kind, w, d1)"
  shows "prepared now store q w d d1"
proof -
  from t obtain row where "d1 = d\<lparr>work_scope_revisions := work_scope_revisions d @ [row]\<rparr>"
    by (auto simp: apply_edit_def Let_def dest!: scope_frame)
  then show ?thesis using t by (intro prepared_quiet[OF inv q, where rs = "[row]"]) (auto simp: apply_edit_def Let_def)
qed

lemma verdict_prepared:
  assumes inv: "work_inv now d" and q: "q \<in> set (work_items d)" "w_store q = store" "w_lifecycle q = ''reported''"
    and t: "apply_verdict x store m r now (q\<lparr>w_revision := w_revision q + 1\<rparr>) d = Inr (kind, w, d1)"
  shows "prepared now store q w d d1"
proof -
  let ?q = "q\<lparr>w_revision := w_revision q + 1\<rparr>"
  show ?thesis
  proof (cases "q_op r = ''work-accept''")
    case True
    then have "w = (finished ''completed'' now (judged r ?q))\<lparr>w_verdict := Some ''accepted''\<rparr>" "d1 = d"
      using t by (auto simp: apply_verdict_def Let_def)
    then show ?thesis using q(3)
      by (intro prepared_quiet[OF inv q(1,2), where rs = "[]"]) (simp_all add: judged_def finished_def ongoing_def)
  next
    case False
    then obtain w2 where w2: "w = w2" "w_work_id w2 = w_work_id q" "w_revision w2 = w_revision q + 1" "\<not> w_verdict_credit w2"
      and sc: "scope x store w2 (m_consumer m) (optional r ''author'') now d = Inr d1"
      using t by (auto simp: apply_verdict_def Let_def judged_def)
    obtain row where "d1 = d\<lparr>work_scope_revisions := work_scope_revisions d @ [row]\<rparr>" using scope_frame[OF sc] by blast
    then show ?thesis using w2 q(3)
      by (intro prepared_quiet[OF inv q(1,2), where rs = "[row]"]) (simp_all add: ongoing_def)
  qed
qed

text \<open>The mark of a native claim is an update of one bundle.\<close>

interpretation marking: bundle_update "\<lambda>b. b\<lparr>b_native_actor := a\<rparr>" for a
  by unfold_locales (simp_all add: credit_ok_def)

lemma mark_inv:
  assumes "lease_inv now d" "b \<in> set (claim_bundles d)" "b_active b"
  shows "lease_inv now (set_bundle (b_store b) (b_generation b) (\<lambda>b. b\<lparr>b_native_actor := a\<rparr>) d)"
  using assms marking.set_bundle_wf[of d b] marking.set_bundle_exclusive[of d now now b]
  by (simp add: lease_inv_def live_def)

text \<open>An update of one claim leaves the claims of other items as they are.\<close>

lemma set_bundle_claims:
  assumes lease: "lease_inv now d" and b: "b \<in> set (claim_bundles d)"
    and c: "c \<in> set (claim_bundles (set_bundle (b_store b) (b_generation b) f d))"
    and keep: "\<And>q. b_store (f q) = b_store q \<and> b_work_id (f q) = b_work_id q"
  shows "if b_store c = b_store b \<and> b_work_id c = b_work_id b then c = f b else c \<in> set (claim_bundles d)"
proof -
  obtain p where p: "p \<in> set (claim_bundles d)" "c = (if b_store p = b_store b \<and> b_generation p = b_generation b then f p else p)"
    using c by (auto simp: set_bundle_def in_update_where)
  have wf: "lease_wf d" using lease by (simp add: lease_inv_def)
  show ?thesis
  proof (cases "b_store p = b_store b \<and> b_generation p = b_generation b")
    case True
    then have "p = b" using lease_wf_unique[OF wf b p(1)] by simp
    then show ?thesis using p(2) keep[of b] by simp
  next
    case False
    then have cp: "c = p" using p(2) by auto
    have "b_store c = b_store b \<and> b_work_id c = b_work_id b \<Longrightarrow> p = b"
      using bundle_unique[OF lease p(1) b] cp by simp
    then show ?thesis using False cp p(1) by auto
  qed
qed

lemma start_prepared:
  assumes inv: "work_inv now d" and q: "q \<in> set (work_items d)" "w_store q = store" and r: "request_ok r"
    and t: "apply_start x store m r actor now (q\<lparr>w_revision := w_revision q + 1\<rparr>) d = Inr (kind, w, d2)"
  shows "prepared now store q w d d2"
proof -
  let ?epoch = "w_progress_epoch q + 1"
  from t obtain l d1 where acq: "acquire store (w_work_id q) (m_consumer m) ?epoch (q_res r) now (lease_seconds r) d = Inr (l, d1)"
    and d2: "d2 = (if actor \<noteq> [] then set_bundle store (l_generation l) (\<lambda>b. b\<lparr>b_native_actor := actor\<rparr>) d1 else d1)"
    and w: "w_work_id w = w_work_id q" "w_revision w = w_revision q + 1" "w_progress_epoch w = ?epoch"
      "w_verdict_credit w = w_verdict_credit q" "w_lifecycle w = (case q_text r ''lifecycle'' of None \<Rightarrow> ''active'' | Some v \<Rightarrow> v)"
    by (auto simp: apply_start_def Let_def)
  have lease1: "lease_inv now d1" by (rule acquire_inv[OF work_invD(8)[OF inv] order_refl acq])
  from acq obtain b where b1: "claim_bundles d1 = claim_bundles d @ [b]"
    and bf: "b_store b = store" "b_generation b = l_generation l" "b_work_id b = w_work_id q" "b_active b" "b_progress_epoch b = ?epoch"
    by (rule acquire_Inr) (auto simp: new_bundle_def)
  have mem: "b \<in> set (claim_bundles d1)" using b1 by simp
  have lease2: "lease_inv now d2"
    using lease1 mark_inv[OF lease1 mem bf(4), of actor] bf by (simp add: d2)
  have one: "if b_store c = store \<and> b_work_id c = w_work_id q then b_progress_epoch c = ?epoch else c \<in> set (claim_bundles d)"
    if c: "c \<in> set (claim_bundles d2)" for c
  proof -
    have alt: "if b_store c = store \<and> b_work_id c = w_work_id q then b_progress_epoch c = b_progress_epoch b else c \<in> set (claim_bundles d1)"
    proof (cases "actor \<noteq> []")
      case True
      then have "c \<in> set (claim_bundles (set_bundle (b_store b) (b_generation b) (\<lambda>b. b\<lparr>b_native_actor := actor\<rparr>) d1))"
        using c bf by (simp add: d2)
      from set_bundle_claims[OF lease1 mem this]
      have "if b_store c = store \<and> b_work_id c = w_work_id q then c = b\<lparr>b_native_actor := actor\<rparr> else c \<in> set (claim_bundles d1)"
        using bf(1,3) by simp
      then show ?thesis by (auto split: if_splits dest: arg_cong[where f = b_progress_epoch])
    next
      case False
      then have "c \<in> set (claim_bundles d1)" using c by (simp add: d2)
      then show ?thesis using bundle_unique[OF lease1 mem, of c] bf(1,3) by auto
    qed
    have "c \<noteq> b" if "\<not> (b_store c = store \<and> b_work_id c = w_work_id q)" using that bf(1,3) by auto
    then show ?thesis using alt b1 bf(5) by (auto split: if_splits)
  qed
  have "same_work d d2" using same_work_trans[OF acquire_same[OF acq] set_bundle_same] acquire_same[OF acq] by (simp add: d2)
  then show ?thesis
    using one request_lifecycle[OF r] w by (intro prepared_claim[OF lease2]) auto
qed

lemma owner_bundle:
  assumes "owner d store i c g now = Inr b"
  shows "b \<in> set (claim_bundles d)" "b_store b = store" "b_work_id b = i" "b_generation b = g" "b_active b" "b_expires_at b > now"
  using owner_Inr[OF assms] by (simp_all add: live_def)

lemma progress_claims:
  assumes lease: "lease_inv now d" and t: "progress_claim store i c g epoch now d = Inr d1" and b: "b \<in> set (claim_bundles d1)"
  shows "if b_store b = store \<and> b_work_id b = i then b_progress_epoch b = epoch else b \<in> set (claim_bundles d)"
proof -
  let ?f = "\<lambda>q. q\<lparr>b_progress_epoch := epoch, b_overdue_recorded := False, b_overdue_credit := True\<rparr>"
  obtain p where p: "owner d store i c g now = Inr p" and d1: "d1 = set_bundle store g ?f d"
    using t by (auto simp: progress_claim_def)
  note o = owner_bundle[OF p]
  have "b \<in> set (claim_bundles (set_bundle (b_store p) (b_generation p) ?f d))" using b o by (simp add: d1)
  from set_bundle_claims[OF lease o(1) this] show ?thesis
    using o(2,3) by (auto split: if_splits dest: arg_cong[where f = b_progress_epoch])
qed

lemma renew_claims:
  assumes lease: "lease_inv now d" and t: "renew actor store i c g rv now dur d = Inr (l, d1)" and b: "b \<in> set (claim_bundles d1)"
  shows "\<exists>p\<in>set (claim_bundles d). b_store p = b_store b \<and> b_work_id p = b_work_id b \<and> b_progress_epoch p = b_progress_epoch b
    \<and> b_active p = b_active b \<and> (b_store b = store \<and> b_work_id b = i \<or> p = b)"
proof -
  obtain p ex where p: "owner d store i c g now = Inr p"
    and d1: "d1 = set_bundle store g (\<lambda>q. q\<lparr>b_revision := rv + 1, b_renewed_at := now, b_expires_at := ex\<rparr>) d"
    using t by (auto simp: renew_def Let_def split: if_splits)
  let ?f = "\<lambda>q. q\<lparr>b_revision := rv + 1, b_renewed_at := now, b_expires_at := ex\<rparr>"
  note o = owner_bundle[OF p]
  have "b \<in> set (claim_bundles (set_bundle (b_store p) (b_generation p) ?f d))" using b o by (simp add: d1)
  note alt = set_bundle_claims[OF lease o(1) this]
  show ?thesis
  proof (cases "b_store b = b_store p \<and> b_work_id b = b_work_id p")
    case True
    then have "b = ?f p" using alt by simp
    then show ?thesis using o True by (intro bexI[of _ p]) auto
  next
    case False
    have "b \<in> set (claim_bundles d)" using alt False by auto
    then show ?thesis by (intro bexI[of _ b]) auto
  qed
qed

lemma update_prepared:
  assumes inv: "work_inv now d" and q: "q \<in> set (work_items d)" "w_store q = store" and r: "request_ok r"
    and t: "apply_update x store m r now (q\<lparr>w_revision := w_revision q + 1\<rparr>) d = Inr (kind, w, d2)"
  shows "prepared now store q w d d2"
proof -
  let ?epoch = "w_progress_epoch q + 1"
  let ?g = "int_of r ''claim_generation''"
  from t obtain d1 where p: "progress_claim store (w_work_id q) (m_consumer m) ?g ?epoch now d = Inr d1"
    and rn: "d2 = d1 \<or> (\<exists>rv dur l. renew (koinon_native_work_actor x) store (w_work_id q) (m_consumer m) ?g rv now dur d1 = Inr (l, d2))"
    and w: "w_work_id w = w_work_id q" "w_revision w = w_revision q + 1" "w_progress_epoch w = ?epoch"
      "w_verdict_credit w = w_verdict_credit q" "w_lifecycle w = (case q_text r ''lifecycle'' of None \<Rightarrow> ''active'' | Some v \<Rightarrow> v)"
    by (auto simp: apply_update_def Let_def split: option.splits) blast
  have lease1: "lease_inv now d1" by (rule progress_inv[OF work_invD(8)[OF inv] order_refl p])
  have lease2: "lease_inv now d2" using rn lease1 renew_inv[OF lease1 order_refl] by auto
  have same: "same_work d d2" using rn progress_same[OF p] same_work_trans[OF progress_same[OF p] renew_same] by blast
  have one: "if b_store b = store \<and> b_work_id b = w_work_id q then b_progress_epoch b = ?epoch else b \<in> set (claim_bundles d)"
    if b: "b \<in> set (claim_bundles d2)" for b
  proof -
    have "\<exists>p\<in>set (claim_bundles d1). b_store p = b_store b \<and> b_work_id p = b_work_id b \<and> b_progress_epoch p = b_progress_epoch b
        \<and> (b_store b = store \<and> b_work_id b = w_work_id q \<or> p = b)"
      using rn b renew_claims[OF lease1] by blast
    then show ?thesis using progress_claims[OF work_invD(8)[OF inv] p] by fastforce
  qed
  show ?thesis
    using one request_lifecycle[OF r] w by (intro prepared_claim[OF lease2 same]) auto
qed

text \<open>After a release of its claim an item has no active claim.\<close>

lemma release_claims:
  assumes lease: "lease_inv now d" and t: "release store i c g now d = Inr d1" and b: "b \<in> set (claim_bundles d1)" "b_active b"
  shows "\<not> (b_store b = store \<and> b_work_id b = i) \<and> b \<in> set (claim_bundles d)"
proof -
  let ?f = "\<lambda>q. q\<lparr>b_active := False, b_overdue_credit := False, b_end_credit := False\<rparr>"
  obtain p where p: "owner d store i c g now = Inr p" and d1: "d1 = set_bundle store g ?f d"
    using t by (auto simp: release_def end_claim_def)
  note o = owner_bundle[OF p]
  have "b \<in> set (claim_bundles (set_bundle (b_store p) (b_generation p) ?f d))" using b o by (simp add: d1)
  note alt = set_bundle_claims[OF lease o(1) this]
  have "b \<noteq> ?f p" using b(2) by auto
  then show ?thesis using alt o(2,3) by (auto split: if_splits)
qed

lemma ending_prepared:
  assumes inv: "work_inv now d" and q: "q \<in> set (work_items d)" "w_store q = store"
    and t: "apply_ending store m r now (q\<lparr>w_revision := w_revision q + 1\<rparr>) d = Inr (kind, w, d1)"
  shows "prepared now store q w d d1"
proof -
  from t have rel: "release store (w_work_id q) (m_consumer m) (int_of r ''claim_generation'') now d = Inr d1"
    and w: "w_work_id w = w_work_id q" "w_revision w = w_revision q + 1" "w_verdict_credit w = w_verdict_credit q"
    by (auto simp: apply_ending_def Let_def finished_def split: if_splits)
  show ?thesis
    using release_claims[OF work_invD(8)[OF inv] rel] w
    by (intro prepared_claim[OF release_inv[OF work_invD(8)[OF inv] order_refl rel] release_same[OF rel]]) auto
qed

lemma report_prepared:
  assumes inv: "work_inv now d" and q: "q \<in> set (work_items d)" "w_store q = store"
    and t: "apply_report x l store m r now (q\<lparr>w_revision := w_revision q + 1\<rparr>) d = Inr (kind, w, d1)"
  shows "prepared now store q w d d1"
proof -
  from t have rel: "release store (w_work_id q) (m_consumer m) (int_of r ''claim_generation'') now d = Inr d1"
    and res: "reserveVerdict d store (w_work_id q) l = Inr ()"
    and w: "w_work_id w = w_work_id q" "w_revision w = w_revision q + 1"
    by (auto simp: apply_report_def Let_def)
  from res have "credits_in store d < maxStoreVerdicts \<and> sum_flags w_verdict_credit (work_items d) < maxDaemonVerdicts"
    by (auto simp: reserveVerdict_def credits_in_def split: if_splits)
  then show ?thesis
    using release_claims[OF work_invD(8)[OF inv] rel] w
    by (intro prepared_claim[OF release_inv[OF work_invD(8)[OF inv] order_refl rel] release_same[OF rel]]) auto
qed

lemma transition_prepared:
  assumes inv: "work_inv now d" and q: "q \<in> set (work_items d)" "w_store q = store" and r: "request_ok r"
    and lg: "lifecycle_guard x m r q = Inr ()"
    and op: "q_op r \<in> set WorkOperations" "q_op r \<noteq> ''work-create''" "q_op r \<noteq> ''claim-renew''" "\<not> workRead (q_op r)"
    and t: "transition_of x l store m r actor now (q\<lparr>w_revision := w_revision q + 1\<rparr>) d = Inr (kind, w, d1)"
  shows "prepared now store q w d d1"
proof -
  consider "q_op r = ''work-propose''" | "q_op r = ''work-edit''" | "q_op r = ''work-start''" | "q_op r = ''work-update''"
    | "q_op r = ''work-release'' \<or> q_op r = ''work-finish''" | "q_op r = ''work-report''" | "workVerdict (q_op r)"
    using op by (auto simp: WorkOperations_def workVerdict_def workRead_def)
  then show ?thesis
  proof cases
    case 1 then show ?thesis using t propose_prepared[OF inv q, of r] by (simp add: transition_of_def)
  next
    case 2 then show ?thesis using t edit_prepared[OF inv q, of x m r] by (simp add: transition_of_def)
  next
    case 3 then show ?thesis using t start_prepared[OF inv q r, of x m actor] by (simp add: transition_of_def)
  next
    case 4 then show ?thesis using t update_prepared[OF inv q r, of x m] by (simp add: transition_of_def)
  next
    case 5 then show ?thesis using t ending_prepared[OF inv q, of m r] by (auto simp: transition_of_def)
  next
    case 6 then show ?thesis using t report_prepared[OF inv q, of x l m r] by (simp add: transition_of_def)
  next
    case 7
    then have "w_lifecycle q = ''reported''" using lg by (auto simp: lifecycle_guard_def)
    moreover have "apply_verdict x store m r now (q\<lparr>w_revision := w_revision q + 1\<rparr>) d = Inr (kind, w, d1)"
      using 7 t by (auto simp: transition_of_def workVerdict_def)
    ultimately show ?thesis using verdict_prepared[OF inv q, of x m r] by simp
  qed
qed

section \<open>Committing a transition\<close>

text \<open>A handoff message and a replay row leave the work tables and the claims as they are.\<close>

definition work_frame :: "db \<Rightarrow> db \<Rightarrow> bool" where
  "work_frame d d' \<longleftrightarrow> memory_stores d' = memory_stores d \<and> memory_entries d' = memory_entries d \<and> claim_bundles d' = claim_bundles d
     \<and> claim_resources d' = claim_resources d \<and> work_items d' = work_items d \<and> work_scope_revisions d' = work_scope_revisions d
     \<and> work_events d' = work_events d"

lemma work_frame_refl [simp]: "work_frame d d"
  by (simp add: work_frame_def)

lemma work_frame_trans: "work_frame a b \<Longrightarrow> work_frame b c \<Longrightarrow> work_frame a c"
  by (simp add: work_frame_def)

lemma work_frame_inv: "work_frame d d' \<Longrightarrow> work_inv now d' = work_inv now d"
proof -
  assume f: "work_frame d d'"
  then have s: "same_work d d'" by (simp add: work_frame_def same_work_def heads_def)
  have "claims_ok d' = claims_ok d" using f by (simp add: work_frame_def claims_ok_def)
  moreover have "lease_inv now d' = lease_inv now d" by (rule lease_inv_cong) (use f in \<open>simp_all add: work_frame_def\<close>)
  ultimately show ?thesis by (simp only: work_inv_def same_workD[OF s])
qed

lemma sendTx_frame: "sendTx ps now caller to body dash d = Inr (y, d') \<Longrightarrow> work_frame d d'"
  by (auto simp: sendTx_def resolve_recipient_def ensureParticipantInbox_def next_seq_def insert_message_def bumpInbox_def
      Let_def work_frame_def split: option.splits if_splits prod.splits)

lemma handoff_frame: "notifyCheckoutHandoff e m r d = Inr (y, d') \<Longrightarrow> work_frame d d'"
  by (auto simp: notifyCheckoutHandoff_def split: option.splits if_splits dest: sendTx_frame)

lemma storeReplay_frame: "storeReplay x store m r actor print y now d = Inr (z, d') \<Longrightarrow> work_frame d d' \<and> z = y"
  by (auto simp: storeReplay_def work_frame_def split: if_splits)

lemma commit_transition_Inr:
  assumes "commit_transition e store m r actor now print (kind, w, d) = Inr (y, d')"
  obtains w1 d1 where "event (wk_ext e) store m w kind (m_consumer m) (optional r ''author'') now d = Inr (w1, d1)"
    "work_frame d1 d'" "x_work_id y = w_work_id w1" "x_revision y = w_revision w1" "x_seq y = Some (w_latest_seq w1)"
proof -
  from assms obtain w1 d1 d2 message claim where
    e: "event (wk_ext e) store m w kind (m_consumer m) (optional r ''author'') now d = Inr (w1, d1)"
    and h: "(if has r ''handoff_to'' then rbind (notifyCheckoutHandoff e m r d1) (\<lambda>(o1, d2). Inr (Some o1, d2)) else Inr (None, d1)) = Inr (message, d2)"
    and s: "storeReplay (wk_ext e) store m r actor print (work_result w1 (Some (w_latest_seq w1)) claim message) now d2 = Inr (y, d')"
    by (auto simp: commit_transition_def Let_def split: prod.splits)
  have "work_frame d1 d2" using h handoff_frame by (auto split: if_splits prod.splits)
  then show thesis
    using that[OF e] storeReplay_frame[OF s] work_frame_trans by (auto simp: work_result_def)
qed

section \<open>Creation\<close>

text \<open>The tables with a new row, before its event: every other item is traced, the new one has no event.\<close>

lemma apply_create_Inr:
  assumes "apply_create x store m r now d = Inr (kind, w, d2)"
  obtains w0 row where "kind = ''created''" "item_ok w0 (work_items d)" "item_key w0 = (store, w_work_id w)" "w_revision w = 1"
    "w_verdict_credit w = False" "w_verdict_credit w0 = False" "w_report w0 = None" "w_evidence w0 = None" "w_lifecycle w = ''open''"
    "work_items d2 = work_items d @ [w0]" "work_scope_revisions d2 = work_scope_revisions d @ [row]"
    "sc_store row = store" "sc_work_id row = w_work_id w"
    "heads d2 = heads d" "work_events d2 = work_events d" "memory_entries d2 = memory_entries d"
    "claim_bundles d2 = claim_bundles d" "claim_resources d2 = claim_resources d"
    "map claim_count (memory_stores d2) = map claim_count (memory_stores d)"
proof -
  obtain n d1 where c: "work_counter d store = Inr (n, d1)"
    using assms by (auto simp: apply_create_def split: prod.splits)
  obtain s where s: "List.find (\<lambda>s. ms_store_id s = store) (memory_stores d1) = Some s"
    using assms c by (auto simp: apply_create_def split: prod.splits)
  have i: "item_ok ((new_item store n (ms_head s) m r now)\<lparr>w_proposed_role := None\<rparr>) (work_items d1)"
    and w: "kind = ''created''" "w = new_item store n (ms_head s) m r now"
    and sc: "scope x store w (m_consumer m) (optional r ''author'') now
        (d1\<lparr>work_items := work_items d1 @ [(new_item store n (ms_head s) m r now)\<lparr>w_proposed_role := None\<rparr>]\<rparr>) = Inr d2"
    using assms by (auto simp: apply_create_def c s Let_def)
  obtain v where d1: "d1 = d\<lparr>memory_stores := update_where (\<lambda>q. ms_store_id q = store) (\<lambda>s. s\<lparr>ms_work_counter := v\<rparr>) (memory_stores d)\<rparr>"
    using c by (auto simp: work_counter_def counter_def split: if_splits)
  obtain row where row: "sc_store row = store" "sc_work_id row = w_work_id w"
    "d2 = d1\<lparr>work_items := work_items d1 @ [(new_item store n (ms_head s) m r now)\<lparr>w_proposed_role := None\<rparr>],
       work_scope_revisions := work_scope_revisions d1 @ [row]\<rparr>"
    using scope_row[OF sc] by auto
  have "heads d2 = heads d" unfolding row(3) d1 heads_def by (simp add: heads_update)
  moreover have "map claim_count (memory_stores d2) = map claim_count (memory_stores d)"
    unfolding row(3) d1 by (simp add: map_update_where claim_count_def)
  ultimately show thesis
    using that[of "(new_item store n (ms_head s) m r now)\<lparr>w_proposed_role := None\<rparr>" row] w i row d1
    by (simp add: item_key_def new_item_def)
qed

lemma create_event_inv:
  assumes inv: "work_inv now d" and repo: "repo_store d (m_repository m) store"
    and t: "apply_create x store m r now d = Inr (kind, w, d2)"
    and e: "event x store m w kind c a now d2 = Inr (w1, d3)"
  shows "work_inv now d3"
proof -
  note iv = work_invD[OF inv]
  from t obtain w0 row where i: "item_ok w0 (work_items d)" "item_key w0 = (store, w_work_id w)" "w_revision w = 1"
    "w_verdict_credit w = False" "w_verdict_credit w0 = False" "w_report w0 = None" "w_evidence w0 = None"
    and d2: "work_items d2 = work_items d @ [w0]" "work_scope_revisions d2 = work_scope_revisions d @ [row]"
      "sc_store row = store" "sc_work_id row = w_work_id w"
      "heads d2 = heads d" "work_events d2 = work_events d" "memory_entries d2 = memory_entries d"
      "claim_bundles d2 = claim_bundles d" "claim_resources d2 = claim_resources d"
      "map claim_count (memory_stores d2) = map claim_count (memory_stores d)"
    by (rule apply_create_Inr)
  from e obtain n v where ev: "eventful store w1 n v d2 d3" and n: "e_repository n = m_repository m"
    and w1: "w1 = numbered kind (head_of d2 store + 1) w" and chk: "item_row d2 store (w_work_id w) = None \<or> item_checks w1"
    by (rule event_eventful)
  have id: "w_work_id w1 = w_work_id w" "w_revision w1 = 1" "\<not> w_verdict_credit w1" using w1 i(3,4) by simp_all
  have key: "item_key w0 = (store, w_work_id w1)" using i(2) id by simp
  have fresh: "item_key p \<noteq> (store, w_work_id w)" if "p \<in> set (work_items d)" for p
    using i(1,2) that by (auto simp: item_ok_def fresh_key_def item_key_def)
  have items2: "items_wf d2"
    unfolding items_wf_def d2(1)
  proof (intro conjI ballI)
    show "distinct (map item_key (work_items d @ [w0]))"
      unfolding distinct_append_fresh using iv(2) fresh i(2) by (simp add: items_wf_def fresh_key_def)
    fix p assume "p \<in> set (work_items d @ [w0])"
    then have "item_checks p \<and> w_report p = None \<and> w_evidence p = None"
      using iv(2) i(1,6,7) by (auto simp: items_wf_def item_ok_def)
    then show "item_checks p" "w_report p = None" "w_evidence p = None" by simp_all
  qed
  have w02: "w0 \<in> set (work_items d2)" using d2(1) by simp
  have chk1: "item_checks w1" using chk item_row_mem[OF items2 w02] i(2) by (auto simp: item_key_def)
  have ev2: "events_wf d2" using iv(3) d2 by (auto simp: events_wf_def head_of_def)
  have none: "events_of d2 store (w_work_id w) = []"
  proof -
    have "\<not> (we_store u = store \<and> we_work_id u = w_work_id w)" if u: "u \<in> set (work_events d)" for u
    proof -
      obtain p where "p \<in> set (work_items d)" "item_key p = (we_store u, we_work_id u)" using iv(3) u by (auto simp: events_wf_def)
      then show ?thesis using fresh[of p] by auto
    qed
    then show ?thesis by (auto simp: events_of_def d2(6) filter_empty_conv)
  qed
  have st2: "stores_wf d2" using iv(1) d2(5) by (simp add: stores_wf_def)
  have sr2: "stream_ok d2" using iv(5) d2(5-7) by (simp add: stream_ok_def)
  have sc2: "scopes_ok d2" using iv(6) d2(1-4) i(2) by (auto simp: scopes_ok_def item_key_def)
  have cl2: "claims_ok d2" using iv(7) unfolding claims_ok_def d2(1,8) by (metis UnI1 set_append)
  have own: "\<not> (b_store b = store \<and> b_work_id b = w_work_id w)" if b: "b \<in> set (claim_bundles d)" "b_active b" for b
  proof -
    obtain p where "p \<in> set (work_items d)" "item_key p = (b_store b, b_work_id b)"
      using iv(7) b unfolding claims_ok_def by blast
    then show ?thesis using fresh[of p] by auto
  qed
  have cr2: "credits_ok d2" using iv(9) i(5) d2(1) by (simp add: credits_ok_def credits_in_def sum_flags_def)
  obtain h where h: "h \<in> set (heads d2)" "fst h = e_repository n" "fst (snd h) = store"
    using repo_store_head[OF repo] d2(5) n by auto
  show ?thesis
  proof (rule work_invI)
    show "stores_wf d3" by (rule eventful_stores[OF ev st2])
    show "items_wf d3" by (rule eventful_items[OF ev items2 chk1])
    show "events_wf d3" by (rule eventful_events[OF ev ev2 w02 key])
    show "history_ok d3"
    proof (rule eventful_history[OF ev ev2])
      show "traced d2 p" if "p \<in> set (work_items d2)" "item_key p \<noteq> (store, w_work_id w1)" for p
        using that iv(4) d2(1) i(2) id traced_cong[OF d2(6)] by (auto simp: history_ok_def)
      show "pretraced d2 store (w_work_id w1) (w_revision w1 - 1)" using none id by (simp add: pretraced_def)
      show "1 \<le> w_revision w1" using id by simp
    qed
    show "stream_ok d3" by (rule eventful_stream[OF ev st2 sr2 h])
    show "scopes_ok d3" by (rule eventful_scopes[OF ev sc2])
    show "claims_ok d3" by (rule eventful_claims[OF ev refl items2 cl2 w02 key]) (use own id d2(8) in auto)
    show "lease_inv now d3" using iv(8) lease_inv_cong[OF d2(8-10)] lease_inv_cong[OF eventfulD(6-8)[OF ev]] by simp
    show "credits_ok d3" by (rule eventful_credits[OF ev items2 cr2 w02 key]) (use id in simp)
  qed
qed

section \<open>The operations keep the invariant\<close>

lemma request_op:
  assumes "request_ok r"
  shows "q_op r \<in> set WorkOperations" "\<not> workRead (q_op r)"
proof -
  obtain op members r0 a where p: "parseWork op members = Inr r0" "\<not> workRead op" "r = r0\<lparr>q_actor := a\<rparr>"
    using assms by (auto simp: request_ok_def)
  have "map_of workFields op \<noteq> None" using p(1) by (auto simp: parseWork_def split: if_splits)
  then have "op \<in> fst ` set workFields" by (simp add: map_of_eq_None_iff)
  also have "fst ` set workFields = set WorkOperations" by (simp add: workFields_def WorkOperations_def)
  finally have "op \<in> set WorkOperations" .
  then show "q_op r \<in> set WorkOperations" "\<not> workRead (q_op r)" using parseWork_Inr(2)[OF p(1)] p(2,3) by simp_all
qed

lemma current_Inr: "current d store i now = Inr q \<Longrightarrow> q \<in> set (work_items d) \<and> w_store q = store \<and> w_work_id q = i \<and> retained now q"
  by (auto simp: current_def item_key_def split: option.splits if_splits dest!: item_row_Some)

text \<open>A change of claims that keeps every active claim's key and epoch.\<close>

lemma claims_change:
  assumes inv: "work_inv now d" and same: "same_work d d'" and lease: "lease_inv now d'"
    and claims: "\<And>b. b \<in> set (claim_bundles d') \<Longrightarrow> b_active b \<Longrightarrow>
      \<exists>p\<in>set (claim_bundles d). b_active p \<and> b_store p = b_store b \<and> b_work_id p = b_work_id b \<and> b_progress_epoch p = b_progress_epoch b"
  shows "work_inv now d'"
proof -
  have "claims_ok d'"
    unfolding claims_ok_def
  proof (intro ballI impI)
    fix b assume "b \<in> set (claim_bundles d')" "b_active b"
    then obtain p where p: "p \<in> set (claim_bundles d)" "b_active p" "b_store p = b_store b" "b_work_id p = b_work_id b" "b_progress_epoch p = b_progress_epoch b"
      using claims by blast
    then show "\<exists>w\<in>set (work_items d'). item_key w = (b_store b, b_work_id b) \<and> ongoing (w_lifecycle w) \<and> w_progress_epoch w = b_progress_epoch b"
      using work_invD(7)[OF inv] same unfolding claims_ok_def same_work_def by metis
  qed
  then show ?thesis using work_invD[OF inv] lease by (simp add: work_inv_def same_workD[OF same])
qed

lemma apply_work_inv:
  assumes inv: "work_inv now d" and r: "request_ok r" and repo: "repo_store d (m_repository m) store"
    and a: "apply_work e store m r now print d = Inr (y, d')"
  shows "work_inv now d'"
proof (cases "q_op r = ''work-create''")
  case True
  then obtain kind w d1 where c: "apply_create (wk_ext e) store m r now d = Inr (kind, w, d1)"
    "commit_transition e store m r (q_actor r) now print (kind, w, d1) = Inr (y, d')"
    using a by (auto simp: apply_work_def Let_def)
  from c(2) obtain w1 d2 where "event (wk_ext e) store m w kind (m_consumer m) (optional r ''author'') now d1 = Inr (w1, d2)" "work_frame d2 d'"
    by (rule commit_transition_Inr)
  then show ?thesis using create_event_inv[OF inv repo c(1)] work_frame_inv by blast
next
  case False
  then obtain q actor where q: "current d store (text_of r ''work_id'') now = Inr q" "lifecycle_guard (wk_ext e) m r q = Inr ()"
    and rest: "(if q_op r = ''claim-renew'' then
          rbind (renew (koinon_native_work_actor (wk_ext e)) store (w_work_id q) (m_consumer m) (int_of r ''claim_generation'')
                   (int_of r ''if_claim_revision'') now (lease_seconds r) d) (\<lambda>(renewed, d1).
            storeReplay (wk_ext e) store m r actor print (work_result q None (Some renewed) None) now d1)
        else
          rbind (revise r q) (\<lambda>w1.
          rbind (transition_of (wk_ext e) (wk_limits e) store m r actor now w1 d) (commit_transition e store m r actor now print))) = Inr (y, d')"
    using a by (auto simp: apply_work_def Let_def)
  have qm: "q \<in> set (work_items d)" "w_store q = store" using current_Inr[OF q(1)] by auto
  show ?thesis
  proof (cases "q_op r = ''claim-renew''")
    case True
    then obtain l d1 where rn: "renew (koinon_native_work_actor (wk_ext e)) store (w_work_id q) (m_consumer m) (int_of r ''claim_generation'')
        (int_of r ''if_claim_revision'') now (lease_seconds r) d = Inr (l, d1)" and fr: "work_frame d1 d'"
      using rest storeReplay_frame by auto
    have "work_inv now d1"
      by (rule claims_change[OF inv renew_same[OF rn] renew_inv[OF work_invD(8)[OF inv] order_refl rn]])
        (use renew_claims[OF work_invD(8)[OF inv] rn] in metis)
    then show ?thesis using work_frame_inv[OF fr] by simp
  next
    case renew: False
    then obtain w kind w2 d1 where rv: "revise r q = Inr w" and t: "transition_of (wk_ext e) (wk_limits e) store m r actor now w d = Inr (kind, w2, d1)"
      and c: "commit_transition e store m r actor now print (kind, w2, d1) = Inr (y, d')"
      using rest by auto
    have p: "prepared now store q w2 d d1"
      using t transition_prepared[OF inv qm r q(2) request_op(1)[OF r] False renew request_op(2)[OF r]] revise_Inr[OF rv] by simp
    from c obtain w3 d2 where "event (wk_ext e) store m w2 kind (m_consumer m) (optional r ''author'') now d1 = Inr (w3, d2)" "work_frame d2 d'"
      by (rule commit_transition_Inr)
    then show ?thesis using prepared_event_inv[OF inv qm p repo] work_frame_inv by blast
  qed
qed

lemma overdue_claims:
  assumes lease: "lease_inv now d" and t: "overdue store g epoch d = Inr (y, d1)" and b: "b \<in> set (claim_bundles d1)"
  shows "\<exists>p\<in>set (claim_bundles d). b_store p = b_store b \<and> b_work_id p = b_work_id b \<and> b_progress_epoch p = b_progress_epoch b \<and> b_active p = b_active b
    \<and> (b_generation p = g \<and> b_store p = store \<or> p = b)"
proof -
  have "d1 = d \<or> d1 = set_bundle store g (\<lambda>q. q\<lparr>b_overdue_credit := False, b_overdue_recorded := True\<rparr>) d"
    using t by (auto simp: overdue_def split: option.splits if_splits)
  then obtain p where "p \<in> set (claim_bundles d)" "b = p \<or> b_store p = store \<and> b_generation p = g
      \<and> b = p\<lparr>b_overdue_credit := False, b_overdue_recorded := True\<rparr>"
    using b by (auto simp: set_bundle_def in_update_where split: if_splits)
  then show ?thesis by (intro bexI[of _ p]) auto
qed

lemma expire_claims:
  assumes lease: "lease_inv now d" and p: "p \<in> set (claim_bundles d)" "b_expires_at p \<le> now"
    and b: "b \<in> set (claim_bundles (snd (expire (b_store p) (b_generation p) now d)))" "b_active b"
  shows "\<not> (b_store b = b_store p \<and> b_work_id b = b_work_id p) \<and> b \<in> set (claim_bundles d)"
proof -
  let ?f = "\<lambda>q. q\<lparr>b_active := False, b_overdue_credit := False, b_end_credit := False\<rparr>"
  have wf: "lease_wf d" using lease by (simp add: lease_inv_def)
  have row: "bundle_row d (b_store p) (b_generation p) = Some p"
    using find_key_unique[of "\<lambda>b. (b_store b, b_generation b)" "claim_bundles d" p] wf p(1) by (simp add: bundle_row_def lease_wf_def)
  show ?thesis
  proof (cases "b_active p")
    case True
    then have "snd (expire (b_store p) (b_generation p) now d) = set_bundle (b_store p) (b_generation p) ?f d"
      using row p(2) by (simp add: expire_def end_claim_def)
    then have "b \<in> set (claim_bundles (set_bundle (b_store p) (b_generation p) ?f d))" using b(1) by simp
    note alt = set_bundle_claims[OF lease p(1) this]
    have "b \<noteq> ?f p" using b(2) by auto
    then show ?thesis using alt by (auto split: if_splits)
  next
    case False
    then have "b \<in> set (claim_bundles d)" using b(1) row by (simp add: expire_def)
    moreover have "b \<noteq> p" using b(2) False by auto
    ultimately show ?thesis using bundle_unique[OF lease _ p(1), of b] by auto
  qed
qed

lemma reconcile_inv:
  assumes inv: "work_inv now d" and repo: "repo_store d repo store" and q: "current d store i now = Inr q"
    and b: "bundleFor d store i = Some b" "b_active b" "b_progress_epoch b = w_progress_epoch q"
    and t: "reconcile_tx x repo now q b store d = Inr (u, d')"
  shows "work_inv now d'"
proof -
  let ?m = "\<lparr>m_repository = repo, m_family = [], m_name = [], m_consumer = [], m_native = key [] [], m_consumer_explicit = False\<rparr>"
  have qm: "q \<in> set (work_items d)" "w_store q = store" "w_work_id q = i" using current_Inr[OF q] by auto
  have bm: "b \<in> set (claim_bundles d)" "b_store b = store" "b_work_id b = i" using bundleFor_Some[OF b(1)] by auto
  have rm: "repo_store d (m_repository ?m) store" using repo by simp
  note lease = work_invD(8)[OF inv]
  have fit: "ongoing (w_lifecycle q)" using claim_fits[OF inv qm(1) bm(1) b(2)] bm qm by simp
  show ?thesis
  proof (cases "b_expires_at b \<le> now")
    case True
    let ?d1 = "snd (expire store (b_generation b) now d)"
    let ?w = "q\<lparr>w_revision := w_revision q + 1, w_lease_expired := True\<rparr>"
    obtain w2 where e: "event x store ?m ?w ''lease-expired'' (b_consumer b) None now ?d1 = Inr (w2, d')"
      using t True by (auto simp: reconcile_tx_def Let_def)
    have "prepared now store q ?w d ?d1"
      by (rule prepared_claim[OF expire_inv[OF lease order_refl] expire_same])
        (use expire_claims[OF lease bm(1) True] bm qm in auto)
    then show ?thesis by (rule prepared_event_inv[OF inv qm(1,2) _ rm e])
  next
    case False
    then obtain y d1 w2 where o: "overdue store (b_generation b) (w_progress_epoch q) d = Inr (y, d1)"
      and e: "event x store ?m (q\<lparr>w_revision := w_revision q + 1\<rparr>) ''progress-overdue'' (b_consumer b) None now d1 = Inr (w2, d')"
      using t by (auto simp: reconcile_tx_def Let_def)
    have own: "if b_store c = store \<and> b_work_id c = w_work_id q
        then ongoing (w_lifecycle q) \<and> w_progress_epoch q = b_progress_epoch c else c \<in> set (claim_bundles d)"
      if c: "c \<in> set (claim_bundles d1)" "b_active c" for c
    proof -
      obtain p where p: "p \<in> set (claim_bundles d)" "b_store p = b_store c" "b_work_id p = b_work_id c" "b_progress_epoch p = b_progress_epoch c"
        "b_active p = b_active c" "b_generation p = b_generation b \<and> b_store p = store \<or> p = c"
        using overdue_claims[OF lease o c(1)] by blast
      show ?thesis
      proof (cases "b_store c = store \<and> b_work_id c = w_work_id q")
        case True
        then show ?thesis using claim_fits[OF inv qm(1) p(1)] p c qm by simp
      next
        case False
        have "b_generation p = b_generation b \<and> b_store p = store \<Longrightarrow> p = b"
          using lease_wf_unique[of d b p] lease bm p(1) by (simp add: lease_inv_def)
        then have "p = c" using p False bm qm by auto
        then show ?thesis using p(1) False by auto
      qed
    qed
    have "prepared now store q (q\<lparr>w_revision := w_revision q + 1\<rparr>) d d1"
      by (rule prepared_claim[OF overdue_inv[OF lease order_refl o] overdue_same[OF o]]) (use own in auto)
    then show ?thesis by (rule prepared_event_inv[OF inv qm(1,2) _ rm e])
  qed
qed

section \<open>Cleanup keeps the invariant\<close>

lemma delete_bundle_work_inv:
  assumes inv: "work_inv now d"
  shows "work_inv now (delete_bundle store g d)"
proof (rule claims_change[OF inv])
  show "same_work d (delete_bundle store g d)" by (simp add: same_work_def heads_def delete_bundle_def)
  show "lease_inv now (delete_bundle store g d)" by (rule delete_bundle_inv[OF work_invD(8)[OF inv]])
  fix b assume "b \<in> set (claim_bundles (delete_bundle store g d))" "b_active b"
  then show "\<exists>p\<in>set (claim_bundles d). b_active p \<and> b_store p = b_store b \<and> b_work_id p = b_work_id b \<and> b_progress_epoch p = b_progress_epoch b"
    by (auto simp: delete_bundle_def)
qed

lemma delete_inactive_work_inv:
  assumes inv: "work_inv now d" and q: "bundleFor d store i = Some q" "\<not> b_active q"
  shows "work_inv now (delete_inactive store q d)"
proof -
  have qm: "q \<in> set (claim_bundles d)" "b_store q = store" using bundleFor_Some[OF q(1)] by auto
  have wf: "lease_wf d" using work_invD(8)[OF inv] by (simp add: lease_inv_def)
  have "b_store c = store \<and> b_generation c = b_generation q \<longleftrightarrow> b_store c = store \<and> b_generation c = b_generation q \<and> \<not> b_active c"
    if "c \<in> set (claim_bundles d)" for c
    using lease_wf_unique[OF wf qm(1) that] qm(2) q(2) by auto
  then have "delete_inactive store q d = delete_bundle store (b_generation q) d"
    unfolding delete_inactive_def delete_bundle_def by (simp cong: filter_cong)
  then show ?thesis using delete_bundle_work_inv[OF inv] by simp
qed

lemma reclaimOne_work_inv: "work_inv now d \<Longrightarrow> reclaimOne store d = Inr (y, d') \<Longrightarrow> work_inv now d'"
  by (auto simp: reclaimOne_def split: list.splits if_splits intro: delete_bundle_work_inv)

lemma expire_windows_inv: "work_inv now d \<Longrightarrow> expire_windows l repo t d = Inr ((), d') \<Longrightarrow> work_inv now d'"
proof -
  assume inv: "work_inv now d" and e: "expire_windows l repo t d = Inr ((), d')"
  have "work_frame d d'" using e by (auto simp: expire_windows_def Let_def work_frame_def)
  then show ?thesis using inv work_frame_inv by simp
qed

text \<open>Entries with an expiry are no work entries, so expiring them leaves the stream of events complete.\<close>

lemma expire_entries_inv:
  assumes inv: "work_inv now d" and e: "expire_entries x repo t d = Inr (n, d')"
  shows "work_inv now d'"
proof (cases "d' = d")
  case False
  note iv = work_invD[OF inv]
  let ?gone = "expired_entries repo t d"
  obtain seq lib where d': "d' = raise_floor (\<lambda>m. ms_repository m = repo) seq lib
      (d\<lparr>memory_entries := filter (\<lambda>n. \<not> (e_repository n = repo \<and> e_seq n \<in> set (map e_seq ?gone))) (memory_entries d)\<rparr>)"
    using e False by (auto simp: expire_entries_def Let_def split: if_splits)
  have heads: "heads d' = heads d" by (simp add: d' raise_floor_def heads_def heads_update)
  have counts: "map claim_count (memory_stores d') = map claim_count (memory_stores d)"
    by (simp add: d' raise_floor_def map_update_where claim_count_def)
  have tabs: "work_items d' = work_items d" "work_events d' = work_events d" "work_scope_revisions d' = work_scope_revisions d"
    "claim_bundles d' = claim_bundles d" "claim_resources d' = claim_resources d"
    by (simp_all add: d' raise_floor_def)
  have entries: "memory_entries d' = filter (\<lambda>n. \<not> (e_repository n = repo \<and> e_seq n \<in> set (map e_seq ?gone))) (memory_entries d)"
    by (simp add: d' raise_floor_def)
  have dist: "distinct (map (\<lambda>n. (e_repository n, e_seq n)) (memory_entries d))" using iv(5) by (simp add: stream_ok_def)
  have keep: "y \<in> set (memory_entries d')" if y: "y \<in> set (memory_entries d)" "e_expires y = None" for y
  proof -
    have gone: "g \<in> set (memory_entries d)" "e_repository g = repo" "e_expires g \<noteq> None" if "g \<in> set ?gone" for g
      using that by (auto simp: expired_entries_def split: option.splits dest!: in_set_takeD)
    have no: "\<not> (e_repository y = repo \<and> e_seq y = e_seq g)" if g: "g \<in> set ?gone" for g
    proof
      assume "e_repository y = repo \<and> e_seq y = e_seq g"
      then have "y = g" by (intro distinct_key_eq[OF dist y(1) gone(1)[OF g]]) (simp add: gone(2)[OF g])
      then show False using y(2) gone(3)[OF g] by simp
    qed
    have "\<not> (e_repository y = repo \<and> e_seq y \<in> set (map e_seq ?gone))"
    proof
      assume a: "e_repository y = repo \<and> e_seq y \<in> set (map e_seq ?gone)"
      then obtain g where "g \<in> set ?gone" "e_seq y = e_seq g" unfolding set_map by blast
      then show False using no[of g] a by simp
    qed
    then show ?thesis unfolding entries using y(1) by simp
  qed
  have "stream_ok d'"
    unfolding stream_ok_def heads tabs
  proof (intro conjI ballI impI)
    show "distinct (map (\<lambda>n. (e_repository n, e_seq n)) (memory_entries d'))"
      unfolding entries by (rule distinct_map_filter_key[OF dist])
  next
    fix v h assume v: "v \<in> set (work_events d)" "h \<in> set (heads d)" "fst (snd h) = we_store v"
    then obtain y where y: "y \<in> set (memory_entries d)" "e_repository y = fst h" "stream_row y v"
      using iv(5) unfolding stream_ok_def by blast
    then show "\<exists>n\<in>set (memory_entries d'). e_repository n = fst h \<and> stream_row n v"
      using keep[OF y(1)] by (intro bexI[of _ y]) (auto simp: stream_row_def)
  next
    fix y assume y: "y \<in> set (memory_entries d')" "e_type y = ''work-event''"
    then have "y \<in> set (memory_entries d)" by (simp add: entries)
    then show "\<exists>h\<in>set (heads d). \<exists>v\<in>set (work_events d). fst h = e_repository y \<and> fst (snd h) = we_store v \<and> stream_row y v"
      using iv(5) y(2) unfolding stream_ok_def by blast
  qed
  moreover have "lease_inv now d'" using iv(8) lease_inv_cong[OF tabs(4,5) counts] by simp
  ultimately show ?thesis
  proof (intro work_invI)
    show "stores_wf d'" using iv(1) heads by (simp add: stores_wf_def)
    show "items_wf d'" using iv(2) tabs by (simp add: items_wf_def)
    show "events_wf d'" using iv(3) tabs heads by (simp add: events_wf_def head_of_def)
    show "history_ok d'" using iv(4) tabs by (simp add: history_ok_def traced_def pretraced_def events_of_def)
    show "scopes_ok d'" using iv(6) tabs by (simp add: scopes_ok_def)
    show "claims_ok d'" using iv(7) tabs by (simp add: claims_ok_def)
    show "credits_ok d'" using iv(9) tabs by (simp add: credits_ok_def credits_in_def)
  qed
qed (use inv in simp)

text \<open>A new store: its identifier is fresh, so no row of the work tables belongs to it.\<close>

definition fresh_ids :: "wenv \<Rightarrow> bool" where
  "fresh_ids e \<longleftrightarrow> (\<forall>d. wk_store_id e d \<noteq> [] \<and> wk_store_id e d \<notin> ms_store_id ` set (memory_stores d)
     \<and> wk_store_id e d \<notin> we_store ` set (work_events d) \<and> wk_store_id e d \<notin> b_store ` set (claim_bundles d))"

lemma ensure_store_inv:
  assumes inv: "work_inv now d" and e: "fresh_ids e"
  shows "work_inv now (ensure_store repo (wk_store_id e d) d)"
proof (cases "\<exists>m\<in>set (memory_stores d). ms_repository m = repo")
  case False
  note iv = work_invD[OF inv]
  let ?i = "wk_store_id e d" and ?d = "ensure_store repo (wk_store_id e d) d"
  let ?m = "\<lparr>ms_repository = repo, ms_store_id = ?i, ms_head = 0, ms_floor = 0, ms_work_counter = 0, ms_claim_counter = 0, ms_library_floor = 0\<rparr>"
  have d: "?d = d\<lparr>memory_stores := memory_stores d @ [?m]\<rparr>" using False by (simp add: ensure_store_def)
  have heads: "heads ?d = heads d @ [(repo, ?i, 0)]" by (simp add: d heads_def)
  have fresh: "?i \<noteq> []" "?i \<notin> ms_store_id ` set (memory_stores d)" "?i \<notin> we_store ` set (work_events d)" "?i \<notin> b_store ` set (claim_bundles d)"
    using e by (simp_all add: fresh_ids_def)
  have new: "repo \<notin> fst ` set (heads d)" "?i \<notin> (fst \<circ> snd) ` set (heads d)"
    using False fresh(2) by (auto simp: heads_def)
  have "head_of ?d s = head_of d s" if "s \<noteq> ?i" for s
    using that by (simp add: head_of_def heads find_append split: option.splits)
  moreover have "we_store v \<noteq> ?i" if "v \<in> set (work_events d)" for v using that fresh(3) by (metis imageI)
  ultimately have hd: "head_of ?d (we_store v) = head_of d (we_store v)" if "v \<in> set (work_events d)" for v using that by blast
  show ?thesis
  proof (rule work_invI)
    show "stores_wf ?d" using iv(1) new fresh(1) by (auto simp: stores_wf_def heads)
    show "items_wf ?d" using iv(2) by (simp add: items_wf_def d)
    show "events_wf ?d" using iv(3) hd unfolding events_wf_def by (simp add: d)
    show "history_ok ?d" using iv(4) by (simp add: history_ok_def traced_def pretraced_def events_of_def d)
    show "stream_ok ?d"
      unfolding stream_ok_def heads
    proof (intro conjI ballI impI)
      show "distinct (map (\<lambda>n. (e_repository n, e_seq n)) (memory_entries ?d))" using iv(5) by (simp add: stream_ok_def d)
    next
      fix v h assume v: "v \<in> set (work_events ?d)" "h \<in> set (heads d @ [(repo, ?i, 0)])" "fst (snd h) = we_store v"
      then have "v \<in> set (work_events d)" "h \<in> set (heads d)" using fresh(3) by (auto simp: d)
      then show "\<exists>n\<in>set (memory_entries ?d). e_repository n = fst h \<and> stream_row n v"
        using iv(5) v(3) by (simp add: stream_ok_def d)
    next
      fix y assume "y \<in> set (memory_entries ?d)" "e_type y = ''work-event''"
      then obtain h v where "h \<in> set (heads d)" "v \<in> set (work_events d)" "fst h = e_repository y" "fst (snd h) = we_store v" "stream_row y v"
        using iv(5) unfolding stream_ok_def by (auto simp: d)
      then show "\<exists>h\<in>set (heads d @ [(repo, ?i, 0)]). \<exists>v\<in>set (work_events ?d). fst h = e_repository y \<and> fst (snd h) = we_store v \<and> stream_row y v"
        by (intro bexI[of _ h] bexI[of _ v]) (auto simp: d)
    qed
    show "scopes_ok ?d" using iv(6) by (simp add: scopes_ok_def d)
    show "claims_ok ?d" using iv(7) by (simp add: claims_ok_def d)
    show "credits_ok ?d" using iv(9) by (simp add: credits_ok_def credits_in_def d)
    have "exclusive now ?d" using iv(8) bundleResources_cong[of ?d d] by (simp add: lease_inv_def exclusive_def d)
    moreover have "lease_wf ?d" using iv(8) fresh(4) by (auto simp: lease_inv_def lease_wf_def d)
    ultimately show "lease_inv now ?d" by (simp add: lease_inv_def)
  qed
qed (use inv in \<open>simp add: ensure_store_def\<close>)

lemma stream_entry:
  assumes inv: "work_inv now d" and v: "v \<in> set (work_events d)" and repo: "repo_store d repo (we_store v)"
  obtains n where "n \<in> set (memory_entries d)" "e_repository n = repo" "stream_row n v"
proof -
  obtain h where "h \<in> set (heads d)" "fst h = repo" "fst (snd h) = we_store v" using repo_store_head[OF repo] by blast
  then show thesis using work_invD(5)[OF inv] v that unfolding stream_ok_def by blast
qed

lemma entry_unique:
  assumes inv: "work_inv now d" and n: "n \<in> set (memory_entries d)" and k: "k \<in> set (memory_entries d)"
    and eq: "e_repository n = e_repository k" "e_seq n = e_seq k"
  shows "n = k"
proof -
  have dist: "distinct (map (\<lambda>n. (e_repository n, e_seq n)) (memory_entries d))" using work_invD(5)[OF inv] by (simp add: stream_ok_def)
  show ?thesis by (rule distinct_key_eq[OF dist n k]) (simp add: eq)
qed

lemma head_unique:
  assumes inv: "work_inv now d" and h: "h \<in> set (heads d)" and k: "k \<in> set (heads d)"
    and eq: "fst h = fst k \<or> fst (snd h) = fst (snd k)"
  shows "h = k"
  using work_invD(1)[OF inv] eq distinct_key_eq[of fst "heads d" h k] distinct_key_eq[of "fst \<circ> snd" "heads d" h k] h k
  by (auto simp: stores_wf_def)

text \<open>Two events of a store with one sequence number belong to one item.\<close>

lemma event_seq_item:
  assumes inv: "work_inv now d" and uv: "u \<in> set (work_events d)" "v \<in> set (work_events d)"
    and repo: "repo_store d repo store" and eq: "we_store u = store" "we_store v = store" "we_seq u = we_seq v"
  shows "we_work_id u = we_work_id v"
proof -
  obtain n where n: "n \<in> set (memory_entries d)" "e_repository n = repo" "stream_row n u"
    using stream_entry[OF inv uv(1)] repo eq(1) by metis
  obtain k where k: "k \<in> set (memory_entries d)" "e_repository k = repo" "stream_row k v"
    using stream_entry[OF inv uv(2)] repo eq(2) by metis
  have "n = k" using entry_unique[OF inv n(1) k(1)] n k eq(3) by (simp add: stream_row_def)
  then show ?thesis using n(3) k(3) by (simp add: stream_row_def)
qed

lemma delete_item_inv:
  assumes inv: "work_inv now d" and repo: "repo_store d repo store" and none: "bundleFor d store i = None"
    and d': "work_items d' = work_items (delete_item repo store i d)" "work_events d' = work_events (delete_item repo store i d)"
      "memory_entries d' = memory_entries (delete_item repo store i d)" "work_scope_revisions d' = work_scope_revisions (delete_item repo store i d)"
      "heads d' = heads d" "claim_bundles d' = claim_bundles d" "claim_resources d' = claim_resources d"
      "map claim_count (memory_stores d') = map claim_count (memory_stores d)"
  shows "work_inv now d'"
proof -
  note iv = work_invD[OF inv]
  obtain hr where hr: "hr \<in> set (heads d)" "fst hr = repo" "fst (snd hr) = store" using repo_store_head[OF repo] by blast
  have items: "work_items d' = filter (\<lambda>w. item_key w \<noteq> (store, i)) (work_items d)"
    by (simp add: d'(1) delete_item_def item_key_def)
  have events: "work_events d' = filter (\<lambda>v. (we_store v, we_work_id v) \<noteq> (store, i)) (work_events d)"
    by (simp add: d'(2) delete_item_def)
  have entries: "memory_entries d' = filter (\<lambda>n. \<not> (e_repository n = repo \<and> e_seq n \<in> set (map we_seq (events_of d store i)))) (memory_entries d)"
    by (simp add: d'(3) delete_item_def)
  have scopes: "work_scope_revisions d' = filter (\<lambda>r. \<not> (sc_store r = store \<and> sc_work_id r = i)) (work_scope_revisions d)"
    by (simp add: d'(4) delete_item_def)
  have hist: "events_of d' s j = events_of d s j" if "(s, j) \<noteq> (store, i)" for s j
    using that by (auto simp: events_of_def events filter_filter intro!: filter_cong)
  show ?thesis
  proof (rule work_invI)
    show "stores_wf d'" using iv(1) d'(5) by (simp add: stores_wf_def)
    show "items_wf d'" using iv(2) by (simp add: items_wf_def items distinct_map_filter)
    show "events_wf d'"
      unfolding events_wf_def
    proof (intro ballI conjI)
      fix v assume "v \<in> set (work_events d')"
      then have v: "v \<in> set (work_events d)" "(we_store v, we_work_id v) \<noteq> (store, i)" by (simp_all add: events)
      show "we_seq v \<le> head_of d' (we_store v)" using iv(3) v(1) d'(5) by (simp add: events_wf_def head_of_def)
      obtain w where "w \<in> set (work_items d)" "item_key w = (we_store v, we_work_id v)" using iv(3) v(1) unfolding events_wf_def by blast
      then show "\<exists>w\<in>set (work_items d'). item_key w = (we_store v, we_work_id v)"
        using v(2) by (intro bexI[of _ w]) (simp_all add: items)
    qed
    show "history_ok d'"
      unfolding history_ok_def
    proof
      fix w assume "w \<in> set (work_items d')"
      then have w: "w \<in> set (work_items d)" "(w_store w, w_work_id w) \<noteq> (store, i)" by (simp_all add: items item_key_def)
      have "traced d w" using iv(4) w(1) by (simp add: history_ok_def)
      then show "traced d' w" using hist[OF w(2)] by (simp add: traced_def pretraced_def)
    qed
    show "stream_ok d'"
      unfolding stream_ok_def d'(5)
    proof (intro conjI ballI impI)
      show "distinct (map (\<lambda>n. (e_repository n, e_seq n)) (memory_entries d'))"
        unfolding entries using iv(5) by (intro distinct_map_filter_key) (simp add: stream_ok_def)
    next
      fix v h assume v: "v \<in> set (work_events d')" and h: "h \<in> set (heads d)" "fst (snd h) = we_store v"
      have v0: "v \<in> set (work_events d)" "(we_store v, we_work_id v) \<noteq> (store, i)" using v by (simp_all add: events)
      obtain n where n: "n \<in> set (memory_entries d)" "e_repository n = fst h" "stream_row n v"
        using iv(5) v0(1) h unfolding stream_ok_def by blast
      have "\<not> (e_repository n = repo \<and> e_seq n \<in> set (map we_seq (events_of d store i)))"
      proof
        assume a: "e_repository n = repo \<and> e_seq n \<in> set (map we_seq (events_of d store i))"
        then obtain u where u: "u \<in> set (events_of d store i)" "we_seq u = e_seq n" unfolding set_map by (elim conjE imageE) simp
        have "fst h = fst hr" using n(2) conjunct1[OF a] hr(2) by (rule trans[OF sym, OF _ trans[OF _ sym]])
        then have "h = hr" by (intro head_unique[OF inv h(1) hr(1)] disjI1)
        then have "we_store v = store" using h(2) hr(3) by simp
        moreover have "we_work_id u = we_work_id v"
          using event_seq_item[OF inv _ v0(1) repo, of u] u n(3) calculation by (simp add: events_of_def stream_row_def)
        ultimately show False using v0(2) u(1) by (simp add: events_of_def)
      qed
      then show "\<exists>n\<in>set (memory_entries d'). e_repository n = fst h \<and> stream_row n v"
        using n by (intro bexI[of _ n]) (simp_all add: entries)
    next
      fix y assume y: "y \<in> set (memory_entries d')" "e_type y = ''work-event''"
      then have y0: "y \<in> set (memory_entries d)" "\<not> (e_repository y = repo \<and> e_seq y \<in> set (map we_seq (events_of d store i)))"
        by (simp_all add: entries)
      obtain h v where hv: "h \<in> set (heads d)" "v \<in> set (work_events d)" "fst h = e_repository y" "fst (snd h) = we_store v" "stream_row y v"
        using iv(5) y0(1) y(2) unfolding stream_ok_def by blast
      have "(we_store v, we_work_id v) \<noteq> (store, i)"
      proof
        assume k: "(we_store v, we_work_id v) = (store, i)"
        then have "h = hr" using head_unique[OF inv hv(1) hr(1)] hv(4) hr(3) by simp
        then have "e_repository y = repo" using hv(3) hr(2) by simp
        moreover have "we_seq v \<in> set (map we_seq (events_of d store i))" using hv(2) k by (simp add: events_of_def)
        ultimately show False using y0(2) hv(5) by (simp add: stream_row_def)
      qed
      then show "\<exists>h\<in>set (heads d). \<exists>v\<in>set (work_events d'). fst h = e_repository y \<and> fst (snd h) = we_store v \<and> stream_row y v"
        using hv by (intro bexI[of _ h] bexI[of _ v]) (simp_all add: events)
    qed
    show "scopes_ok d'"
      unfolding scopes_ok_def
    proof
      fix w assume "w \<in> set (work_items d')"
      then have w: "w \<in> set (work_items d)" "(w_store w, w_work_id w) \<noteq> (store, i)" by (simp_all add: items item_key_def)
      then obtain r where "r \<in> set (work_scope_revisions d)" "sc_store r = w_store w" "sc_work_id r = w_work_id w"
        using iv(6) unfolding scopes_ok_def by blast
      then show "\<exists>r\<in>set (work_scope_revisions d'). sc_store r = w_store w \<and> sc_work_id r = w_work_id w"
        using w(2) by (intro bexI[of _ r]) (simp_all add: scopes)
    qed
    show "claims_ok d'"
      unfolding claims_ok_def
    proof (intro ballI impI)
      fix b assume "b \<in> set (claim_bundles d')" and act: "b_active b"
      then have b: "b \<in> set (claim_bundles d)" by (simp add: d'(6))
      have "(b_store b, b_work_id b) \<noteq> (store, i)" using none b by (auto simp: bundleFor_def find_None_all)
      then show "\<exists>w\<in>set (work_items d'). item_key w = (b_store b, b_work_id b) \<and> ongoing (w_lifecycle w) \<and> w_progress_epoch w = b_progress_epoch b"
        using iv(7) b act unfolding claims_ok_def items by fastforce
    qed
    show "lease_inv now d'" using iv(8) lease_inv_cong[OF d'(6-8)] by simp
    have sub: "sum_flags F (filter P t) \<le> sum_flags F t" for F P and t :: "workItem list"
      unfolding sum_flags_def by (induction t) auto
    have "credits_in s d' \<le> credits_in s d" for s
      unfolding credits_in_def items
      using sub[of w_verdict_credit "\<lambda>w. item_key w \<noteq> (store, i)" "filter (\<lambda>w. w_store w = s) (work_items d)"]
      by (simp add: conj_commute)
    then show "credits_ok d'"
      using iv(9) sub[of w_verdict_credit "\<lambda>w. item_key w \<noteq> (store, i)" "work_items d"]
      unfolding credits_ok_def items by (metis order_trans)
  qed
qed

lemma reclaim_item_Inr:
  assumes "reclaim_item l repo i bound store d = Inr (y, d')"
  shows "\<not> y \<and> d' = d \<or> y \<and> bundleFor d store i = None \<and> d' = (delete_item repo store i d)\<lparr>memory_stores :=
    update_where (\<lambda>m. ms_store_id m = store) (\<lambda>m. m\<lparr>ms_floor := max (ms_floor m) (foldr max (map we_seq (events_of d store i)) 0)\<rparr>) (memory_stores d)\<rparr>"
  using assms unfolding reclaim_item_def Let_def
  by (auto simp: delete_item_def split: option.splits if_splits)

lemma reclaim_work_inv:
  assumes inv: "work_inv now d" and repo: "repo_store d repo store" and r: "reclaim_item l repo i bound store d = Inr (y, d')"
  shows "work_inv now d'"
proof (cases y)
  case True
  then have none: "bundleFor d store i = None" and d': "d' = (delete_item repo store i d)\<lparr>memory_stores :=
      update_where (\<lambda>m. ms_store_id m = store) (\<lambda>m. m\<lparr>ms_floor := max (ms_floor m) (foldr max (map we_seq (events_of d store i)) 0)\<rparr>) (memory_stores d)\<rparr>"
    using reclaim_item_Inr[OF r] by simp_all
  show ?thesis
    by (rule delete_item_inv[OF inv repo none])
      (simp_all add: d' delete_item_def heads_def heads_update map_update_where claim_count_def)
next
  case False
  then show ?thesis using reclaim_item_Inr[OF r] inv by simp
qed

interpretation keeping: work_interface work_inv fresh_ids
proof (unfold_locales, goal_cases)
  case 1 then show ?case by (rule ensure_store_inv)
next
  case 2 then show ?case by (rule expire_entries_inv)
next
  case 3 then show ?case by (rule expire_windows_inv)
next
  case 4 show ?case by (rule apply_work_inv[OF 4(1,3,4,5)])
next
  case 5 show ?case by (rule reconcile_inv[OF 5(1,3,4,5,6,7,9)])
next
  case 6 then show ?case by (rule delete_inactive_work_inv)
next
  case 7 then show ?case by (rule reclaimOne_work_inv)
next
  case 8 then show ?case by (rule reclaim_work_inv)
qed

end
