(* ===== verification/Work_Replay.thy ===== *)
theory Work_Replay
  imports Work_Safety Registry_Runs
begin

text \<open>
  Keyed retries of work requests: a committed mutation leaves one replay row of its key, its store and
  its caller, and every later request under that key meets that row before any write.
\<close>

section \<open>What an operation leaves of the replays\<close>

definition store_names :: "db \<Rightarrow> (string \<times> string) list" where
  "store_names d = map (\<lambda>m. (ms_repository m, ms_store_id m)) (memory_stores d)"

definition aside :: "db \<Rightarrow> db \<Rightarrow> bool" where
  "aside d d' \<longleftrightarrow> store_names d' = store_names d \<and> work_replays d' = work_replays d"

lemma aside_refl [simp]: "aside d d"
  by (simp add: aside_def)

lemma aside_trans: "aside a b \<Longrightarrow> aside b c \<Longrightarrow> aside a c"
  by (simp add: aside_def)

lemma storeOf_names: "storeOf d repo = (case List.find (\<lambda>h. fst h = repo) (store_names d) of None \<Rightarrow> [] | Some h \<Rightarrow> snd h)"
proof -
  have "map_option ms_store_id (List.find (\<lambda>m. ms_repository m = repo) t)
      = map_option snd (List.find (\<lambda>h. fst h = repo) (map (\<lambda>m. (ms_repository m, ms_store_id m)) t))" for t
    by (induction t) auto
  from this[of "memory_stores d"] show ?thesis by (auto simp: storeOf_def store_names_def split: option.splits)
qed

lemma aside_store: "aside d d' \<Longrightarrow> storeOf d' repo = storeOf d repo"
  by (simp add: storeOf_names aside_def)

lemma names_update:
  assumes "\<And>m. ms_repository (f m) = ms_repository m \<and> ms_store_id (f m) = ms_store_id m"
  shows "map (\<lambda>m. (ms_repository m, ms_store_id m)) (update_where P f t) = map (\<lambda>m. (ms_repository m, ms_store_id m)) t"
  using assms by (intro map_update_where) auto

lemma acquire_aside: "acquire store i c epoch opts now dur d = Inr (l, d') \<Longrightarrow> aside d d'"
  by (erule acquire_Inr) (simp add: aside_def store_names_def names_update)

lemma set_bundle_aside [simp]: "aside d (set_bundle store g f d)"
  by (simp add: aside_def store_names_def set_bundle_def)

lemma renew_aside: "renew actor store i c g rv now dur d = Inr (l, d') \<Longrightarrow> aside d d'"
  by (auto simp: renew_def Let_def split: if_splits)

lemma progress_aside: "progress_claim store i c g epoch now d = Inr d' \<Longrightarrow> aside d d'"
  by (auto simp: progress_claim_def)

lemma release_aside: "release store i c g now d = Inr d' \<Longrightarrow> aside d d'"
  by (auto simp: release_def end_claim_def)

lemma scope_aside: "scope x store w c a now d = Inr d' \<Longrightarrow> aside d d'"
  by (auto simp: scope_def Let_def aside_def store_names_def)

lemma event_aside:
  assumes "event x store m w kind c a now d = Inr (w1, d')"
  shows "aside d d'"
proof -
  from assms obtain s :: storeRow and v where "d' = d\<lparr>memory_stores := update_where (\<lambda>q. ms_store_id q = store) (\<lambda>q. q\<lparr>ms_head := ms_head q + 1\<rparr>) (memory_stores d),
       work_items := update_where (\<lambda>q. w_store q = store \<and> w_work_id q = w_work_id w) (\<lambda>q. stored q w1) (work_items d),
       memory_entries := memory_entries d @ [event_entry m (ms_head s + 1) now w1 c a],
       work_events := work_events d @ [event_row store m w1 kind v]\<rparr>"
    by (rule event_Inr)
  then show ?thesis by (simp add: aside_def store_names_def names_update)
qed

lemma handoff_aside: "notifyCheckoutHandoff e m r d = Inr (y, d') \<Longrightarrow> aside d d'"
  by (auto simp: notifyCheckoutHandoff_def sendTx_def resolve_recipient_def ensureParticipantInbox_def next_seq_def insert_message_def
      bumpInbox_def Let_def aside_def store_names_def split: option.splits if_splits prod.splits)

lemma create_aside: "apply_create x store m r now d = Inr (kind, w, d') \<Longrightarrow> aside d d'"
  by (auto simp: apply_create_def work_counter_def counter_def scope_def Let_def aside_def store_names_def names_update
      split: if_splits prod.splits)

lemma start_aside: "apply_start x store m r actor now w d = Inr (kind, w', d') \<Longrightarrow> aside d d'"
proof -
  assume "apply_start x store m r actor now w d = Inr (kind, w', d')"
  then obtain got d1 where a: "acquire store (w_work_id w) (m_consumer m) (w_progress_epoch w + 1) (q_res r) now (lease_seconds r) d = Inr (got, d1)"
    and d': "d' = (if actor \<noteq> [] then set_bundle store (l_generation got) (\<lambda>b. b\<lparr>b_native_actor := actor\<rparr>) d1 else d1)"
    by (auto simp: apply_start_def Let_def)
  show ?thesis unfolding d' using aside_trans[OF acquire_aside[OF a]] acquire_aside[OF a] by simp
qed

lemma update_aside: "apply_update x store m r now w d = Inr (kind, w', d') \<Longrightarrow> aside d d'"
proof -
  assume u: "apply_update x store m r now w d = Inr (kind, w', d')"
  then obtain d1 where p: "progress_claim store (w_work_id w) (m_consumer m) (int_of r ''claim_generation'') (w_progress_epoch w + 1) now d = Inr d1"
    by (auto simp: apply_update_def Let_def)
  have "aside d1 d'" using u p by (auto simp: apply_update_def Let_def split: option.splits intro: renew_aside)
  then show ?thesis by (rule aside_trans[OF progress_aside[OF p]])
qed

lemma transition_aside: "transition_of x l store m r actor now w d = Inr (kind, w', d') \<Longrightarrow> aside d d'"
  by (auto simp: transition_of_def apply_propose_def apply_edit_def apply_ending_def apply_report_def apply_verdict_def Let_def
      split: if_splits dest: start_aside update_aside intro: scope_aside release_aside)

text \<open>A committed operation under a key adds the row of that key, which no other row has.\<close>

definition replay_of :: "replayRow \<Rightarrow> string \<times> string \<times> string" where
  "replay_of p = (wp_store p, wp_consumer p, wp_key p)"

lemma storeReplay_row:
  assumes "storeReplay x store m r actor print result now d = Inr (y, d')" "keyed r"
  obtains p where "y = result" "store_names d' = store_names d" "work_replays d' = work_replays d @ [p]"
    "fresh_key replay_of p (work_replays d)" "replay_of p = (store, m_consumer m, text_of r ''key'')"
    "wp_scheme p = fingerprintScheme" "wp_fingerprint p = print" "wp_operation p = q_op r" "wp_result p = result" "wp_native_actor p = actor"
proof -
  let ?p = "\<lparr>wp_store = store, wp_consumer = m_consumer m, wp_key = text_of r ''key'', wp_operation = q_op r,
             wp_scheme = fingerprintScheme, wp_fingerprint = print, wp_seq = x_seq result, wp_ts = now,
             wp_deadline = number_of r ''deadline'', wp_result = result, wp_native_actor = actor\<rparr>"
  have "replay_ok ?p (work_replays d)" "y = result" "d' = d\<lparr>work_replays := work_replays d @ [?p]\<rparr>"
    using assms by (auto simp: storeReplay_def)
  then show thesis using that[of ?p] by (simp add: replay_ok_def fresh_key_def replay_of_def store_names_def)
qed

definition bound_to :: "string \<Rightarrow> MemoryCaller \<Rightarrow> workRequest \<Rightarrow> string \<Rightarrow> workResult \<Rightarrow> db \<Rightarrow> bool" where
  "bound_to store m r print y d \<longleftrightarrow> (\<exists>p. List.find (\<lambda>p. replay_of p = (store, m_consumer m, text_of r ''key'')) (work_replays d) = Some p
     \<and> wp_scheme p = fingerprintScheme \<and> wp_fingerprint p = print \<and> wp_operation p = q_op r \<and> wp_result p = y)"

lemma storeReplay_bound:
  assumes a: "aside d d1" and s: "storeReplay x store m r actor print result now d1 = Inr (y, d')" and k: "keyed r"
  shows "store_names d' = store_names d \<and> bound_to store m r print y d'"
proof -
  from s k obtain p where p: "y = result" "store_names d' = store_names d1" "work_replays d' = work_replays d1 @ [p]"
    "fresh_key replay_of p (work_replays d1)" "replay_of p = (store, m_consumer m, text_of r ''key'')"
    "wp_scheme p = fingerprintScheme" "wp_fingerprint p = print" "wp_operation p = q_op r" "wp_result p = result"
    by (rule storeReplay_row)
  have "List.find (\<lambda>p. replay_of p = (store, m_consumer m, text_of r ''key'')) (work_replays d1) = None"
    using p(4,5) by (simp add: find_None_all fresh_key_def)
  then show ?thesis using p a by (simp add: bound_to_def find_append aside_def)
qed

lemma commit_bound:
  assumes a: "aside d d1" and c: "commit_transition e store m r actor now print (kind, w, d1) = Inr (y, d')" and k: "keyed r"
  shows "store_names d' = store_names d \<and> bound_to store m r print y d'"
proof -
  from c obtain w1 d2 d3 message claim where
    e: "event (wk_ext e) store m w kind (m_consumer m) (optional r ''author'') now d1 = Inr (w1, d2)"
    and h: "(if has r ''handoff_to'' then rbind (notifyCheckoutHandoff e m r d2) (\<lambda>(o1, d2). Inr (Some o1, d2)) else Inr (None, d2)) = Inr (message, d3)"
    and s: "storeReplay (wk_ext e) store m r actor print (work_result w1 (Some (w_latest_seq w1)) claim message) now d3 = Inr (y, d')"
    by (auto simp: commit_transition_def Let_def split: prod.splits)
  have "aside d2 d3" using h handoff_aside by (auto split: if_splits prod.splits)
  then have "aside d d3" using aside_trans[OF aside_trans[OF a event_aside[OF e]]] by simp
  then show ?thesis by (rule storeReplay_bound[OF _ s k])
qed

lemma apply_work_bound:
  assumes a: "apply_work e store m r now print d = Inr (y, d')" and k: "keyed r"
  shows "store_names d' = store_names d \<and> bound_to store m r print y d'"
proof (cases "q_op r = ''work-create''")
  case True
  then obtain kind w d1 where c: "apply_create (wk_ext e) store m r now d = Inr (kind, w, d1)"
    "commit_transition e store m r (q_actor r) now print (kind, w, d1) = Inr (y, d')"
    using a by (auto simp: apply_work_def Let_def)
  show ?thesis by (rule commit_bound[OF create_aside[OF c(1)] c(2) k])
next
  case False
  then obtain q actor where rest: "(if q_op r = ''claim-renew'' then
          rbind (renew (koinon_native_work_actor (wk_ext e)) store (w_work_id q) (m_consumer m) (int_of r ''claim_generation'')
                   (int_of r ''if_claim_revision'') now (lease_seconds r) d) (\<lambda>(renewed, d1).
            storeReplay (wk_ext e) store m r actor print (work_result q None (Some renewed) None) now d1)
        else
          rbind (revise r q) (\<lambda>w1.
          rbind (transition_of (wk_ext e) (wk_limits e) store m r actor now w1 d) (commit_transition e store m r actor now print))) = Inr (y, d')"
    using a by (auto simp: apply_work_def Let_def)
  show ?thesis
  proof (cases "q_op r = ''claim-renew''")
    case True
    then obtain l d1 where "renew (koinon_native_work_actor (wk_ext e)) store (w_work_id q) (m_consumer m) (int_of r ''claim_generation'')
        (int_of r ''if_claim_revision'') now (lease_seconds r) d = Inr (l, d1)"
        "storeReplay (wk_ext e) store m r actor print (work_result q None (Some l) None) now d1 = Inr (y, d')"
      using rest by auto
    then show ?thesis using storeReplay_bound[OF renew_aside _ k] by blast
  next
    case renew: False
    then obtain w kind w2 d1 where t: "transition_of (wk_ext e) (wk_limits e) store m r actor now w d = Inr (kind, w2, d1)"
      and c: "commit_transition e store m r actor now print (kind, w2, d1) = Inr (y, d')"
      using rest by auto
    show ?thesis by (rule commit_bound[OF transition_aside[OF t] c k])
  qed
qed

section \<open>A later request under the key\<close>

lemma replay_found:
  assumes k: "keyed r" and b: "bound_to (storeOf d (m_repository m)) m r1 (fingerprint (wk_ext e) r1 (m_consumer m)) y d"
    and same: "text_of r ''key'' = text_of r1 ''key''" and st: "storeOf d (m_repository m) \<noteq> []"
    and caller: "requireParticipantCaller d (wk_now_ms e) m = Inr ()"
    and time: "now < number_of r ''deadline''" "number_of r ''deadline'' \<le> now + lm_idem_ttl (wk_limits e)"
  shows "\<exists>actor. replay e m r now d = rbind (requireNativeWorkCaller (wk_ext e) d m actor now) (\<lambda>_.
    if fingerprint (wk_ext e) r1 (m_consumer m) \<noteq> fingerprint (wk_ext e) r (m_consumer m) \<or> q_op r1 \<noteq> q_op r
    then Inl (workError ''idempotency_conflict'' ''this work replay key is bound to a different request'')
    else Inr (fingerprint (wk_ext e) r (m_consumer m), Some (y\<lparr>x_duplicate := True\<rparr>)))"
proof -
  obtain p where p: "List.find (\<lambda>p. wp_store p = storeOf d (m_repository m) \<and> wp_consumer p = m_consumer m \<and> wp_key p = text_of r ''key'') (work_replays d) = Some p"
    "wp_scheme p = fingerprintScheme" "wp_fingerprint p = fingerprint (wk_ext e) r1 (m_consumer m)" "wp_operation p = q_op r1" "wp_result p = y"
    using b same by (auto simp: bound_to_def replay_of_def)
  show ?thesis
    by (rule exI[of _ "wp_native_actor p"]) (use k st caller time p in \<open>simp add: replay_def Let_def not_le not_less\<close>)
qed

lemma ensured_store:
  assumes "\<And>d. wk_store_id e d \<noteq> []" "\<And>m. m \<in> set (memory_stores d) \<Longrightarrow> ms_store_id m \<noteq> []"
  shows "storeOf (ensure_store repo (wk_store_id e d) d) repo \<noteq> []"
  using assms by (auto simp: storeOf_def ensure_store_def find_append find_None_all split: option.splits dest!: find_Some_mem)

text \<open>The answer of a mutation that is not itself a replay comes from \<open>apply_work\<close>.\<close>

lemma workMutation_Inr:
  assumes "workMutation e g m r now t d = (t1, Inr y, d1)"
  obtains (replayed) print where "own_report_check e m r now d = Inr ()" "replay e m r now d = Inr (print, Some y)" "d1 = d"
  | (applied) print d2 where "own_report_check e m r now d = Inr ()" "replay e m r now d = Inr (print, None)"
      "apply_work e (storeOf (ensure_store (m_repository m) (wk_store_id e d2) d2) (m_repository m)) m r now print
         (ensure_store (m_repository m) (wk_store_id e d2) d2) = Inr (y, d1)"
proof -
  obtain print o1 where s: "own_report_check e m r now d = Inr ()" "replay e m r now d = Inr (print, o1)"
    using assms by (cases "rbind (own_report_check e m r now d) (\<lambda>_. replay e m r now d)") (auto simp: workMutation_def)
  show thesis
  proof (cases o1)
    case (Some y1)
    then have "y1 = y \<and> d1 = d" using assms s by (simp add: workMutation_def)
    then show ?thesis using replayed s Some by blast
  next
    case None
    have "\<exists>d2. workWrite e g (m_repository m) (write_class r) (\<lambda>store. apply_work e store m r now print) d2 = (Inr y, d1)"
      using assms s None
      by (auto simp: workMutation_def and_then_def split: sum.splits prod.splits)
    then obtain d2 where "workWrite e g (m_repository m) (write_class r) (\<lambda>store. apply_work e store m r now print) d2 = (Inr y, d1)"
      by blast
    from write_tx_cases(1)[OF this[unfolded workWrite_def]]
    have "apply_work e (storeOf (ensure_store (m_repository m) (wk_store_id e d2) d2) (m_repository m)) m r now print
         (ensure_store (m_repository m) (wk_store_id e d2) d2) = Inr (y, d1)"
      by (auto simp: Let_def split: prod.splits)
    then show ?thesis using applied s None by blast
  qed
qed

section \<open>Verdicts\<close>

lemma find_update_where_if:
  assumes "\<And>r. P r \<Longrightarrow> Q (f r) = Q r"
  shows "List.find Q (update_where P f t) = map_option (\<lambda>r. if P r then f r else r) (List.find Q t)"
  using assms by (induction t) (auto simp: update_where_def)

text \<open>What an applied verdict found and what it stored.\<close>

lemma verdict_applied:
  assumes a: "apply_work e store m r now print d = Inr (y, d')" and v: "workVerdict (q_op r)"
  obtains q w seq where "current d store (text_of r ''work_id'') now = Inr q" "lifecycle_guard (wk_ext e) m r q = Inr ()"
    "work_items d' = update_where (\<lambda>p. w_store p = store \<and> w_work_id p = text_of r ''work_id'') (\<lambda>p. stored p w) (work_items d)"
    "w_report_consumer w = w_report_consumer q" "w_report_actor w = w_report_actor q" "w_report_seq w = w_report_seq q"
    "w_lifecycle w = (if q_op r = ''work-accept'' then ''finished'' else ''open'')" "\<not> w_verdict_credit w"
    "w_verdict w = Some (if q_op r = ''work-accept'' then ''accepted'' else ''rejected'')" "w_verdict_seq w = Some seq" "w_latest_seq w = seq"
    "w_revision w = w_revision q + 1" "w_work_id w = text_of r ''work_id''" "int_of r ''if_revision'' = w_revision q"
proof -
  have op: "q_op r \<noteq> ''work-create''" "q_op r \<noteq> ''claim-renew''" using v by (auto simp: workVerdict_def)
  obtain q actor w1 kind w2 d1 where q: "current d store (text_of r ''work_id'') now = Inr q" "lifecycle_guard (wk_ext e) m r q = Inr ()"
    and rv: "revise r q = Inr w1" and t: "transition_of (wk_ext e) (wk_limits e) store m r actor now w1 d = Inr (kind, w2, d1)"
    and c: "commit_transition e store m r actor now print (kind, w2, d1) = Inr (y, d')"
    using a op by (auto simp: apply_work_def Let_def)
  have w1: "w1 = q\<lparr>w_revision := w_revision q + 1\<rparr>" by (rule revise_Inr[OF rv])
  have ifr: "int_of r ''if_revision'' = w_revision q" using rv by (auto simp: revise_def split: if_splits)
  have av: "apply_verdict (wk_ext e) store m r now w1 d = Inr (kind, w2, d1)"
    using t v by (auto simp: transition_of_def workVerdict_def)
  have w2: "w_report_consumer w2 = w_report_consumer q" "w_report_actor w2 = w_report_actor q" "w_report_seq w2 = w_report_seq q"
    "w_lifecycle w2 = (if q_op r = ''work-accept'' then ''finished'' else ''open'')" "\<not> w_verdict_credit w2" "w_work_id w2 = w_work_id q"
    "w_verdict w2 = Some (if q_op r = ''work-accept'' then ''accepted'' else ''rejected'')" "w_revision w2 = w_revision q + 1"
    "kind = ''accepted'' \<or> kind = ''rejected''" "work_items d1 = work_items d"
    using av scope_frame unfolding w1 by (auto simp: apply_verdict_def judged_def finished_def scope_def Let_def split: if_splits)
  from c obtain w3 d2 where e: "event (wk_ext e) store m w2 kind (m_consumer m) (optional r ''author'') now d1 = Inr (w3, d2)" and f: "work_frame d2 d'"
    by (rule commit_transition_Inr)
  obtain n u where ev: "eventful store w3 n u d1 d2" and w3: "w3 = numbered kind (head_of d1 store + 1) w2"
    using event_eventful[OF e] by metis
  have items: "work_items d' = update_where (\<lambda>p. w_store p = store \<and> w_work_id p = text_of r ''work_id'') (\<lambda>p. stored p w3) (work_items d)"
    using eventfulD(2)[OF ev] f w2(6,10) w3 current_Inr[OF q(1)] by (simp add: work_frame_def)
  show thesis
    by (rule that[OF q items, of "head_of d1 store + 1"]) (use w2 ifr current_Inr[OF q(1)] in \<open>auto simp: w3 numbered_def Let_def\<close>)
qed

lemma other_after_verdict:
  assumes a: "apply_work e store m r now print d = Inr (y, d')" and v: "workVerdict (q_op r)"
    and w: "current d' store (text_of r ''work_id'') now2 = Inr w"
  shows "requireVerdictCaller (wk_ext e) m w = Inr ()"
proof -
  from a v obtain q w1 where q: "lifecycle_guard (wk_ext e) m r q = Inr ()"
    and items: "work_items d' = update_where (\<lambda>p. w_store p = store \<and> w_work_id p = text_of r ''work_id'') (\<lambda>p. stored p w1) (work_items d)"
    and w1: "w_report_consumer w1 = w_report_consumer q" "w_report_actor w1 = w_report_actor q"
    by (rule verdict_applied)
  have "requireVerdictCaller (wk_ext e) m q = Inr ()" using q v by (simp add: lifecycle_guard_def)
  moreover have "\<exists>p. w = stored p w1"
    using current_Inr[OF w] unfolding items by (auto simp: in_update_where split: if_splits)
  ultimately show ?thesis using w1 by (auto simp: requireVerdictCaller_def stored_def split: if_splits)
qed

lemma own_check_later:
  assumes "own_report_check e m r now d = Inr ()" "wk_ext e2 = wk_ext e" "now \<le> now2"
  shows "own_report_check e2 m r now2 d = Inr ()"
proof -
  have "current d store i now = Inr w" if "current d store i now2 = Inr w" for store i w
    using that assms(3) by (auto simp: current_def retained_def split: option.splits if_splits)
  then show ?thesis
    using assms(1,2) by (auto simp: own_report_check_def Let_def split: sum.splits if_splits)
qed

lemma mutation_binds:
  assumes inv: "work_inv now d" and e: "fresh_ids e" and r: "request_ok r"
    and first: "workMutation e g m r now t d = (t1, Inr y, d1)" and k: "keyed r"
  shows "storeOf d1 (m_repository m) \<noteq> []"
    "\<exists>y0. y\<lparr>x_duplicate := True\<rparr> = y0\<lparr>x_duplicate := True\<rparr>
       \<and> bound_to (storeOf d1 (m_repository m)) m r (fingerprint (wk_ext e) r (m_consumer m)) y0 d1"
    "now \<le> now2 \<Longrightarrow> wk_ext e2 = wk_ext e \<Longrightarrow> own_report_check e2 m r now2 d1 = Inr ()"
    "number_of r ''deadline'' \<le> now + lm_idem_ttl (wk_limits e)"
proof -
  show "number_of r ''deadline'' \<le> now + lm_idem_ttl (wk_limits e)"
    using first k by (cases rule: workMutation_Inr) (auto simp: replay_def Let_def not_less)
  from first show "storeOf d1 (m_repository m) \<noteq> []"
  proof (cases rule: workMutation_Inr)
    case (replayed print)
    then show ?thesis using k by (auto simp: replay_def Let_def split: if_splits)
  next
    case (applied print d2)
    let ?d = "ensure_store (m_repository m) (wk_store_id e d2) d2"
    have "work_inv now d1" using keeping.workMutation_keeps[OF inv e r, of g m t] first by simp
    then have wf: "stores_wf d1" by (rule work_invD)
    have s: "storeOf d1 (m_repository m) = storeOf ?d (m_repository m)"
      using apply_work_bound[OF applied(3) k] by (simp add: storeOf_names)
    have "List.find (\<lambda>h. fst h = m_repository m) (store_names ?d) \<noteq> None"
      using repo_store_ensured[of "m_repository m" "wk_store_id e d2" d2]
      by (auto simp: repo_store_def store_names_def find_None_iff dest!: find_Some_mem)
    then obtain h where h: "List.find (\<lambda>h. fst h = m_repository m) (store_names ?d) = Some h" by blast
    have "h \<in> set (store_names d1)" using find_Some_mem[OF h] apply_work_bound[OF applied(3) k] by simp
    then have "snd h \<noteq> []" using wf by (auto simp: stores_wf_def heads_def store_names_def)
    then show ?thesis using s h by (simp add: storeOf_names)
  qed
  from first show "\<exists>y0. y\<lparr>x_duplicate := True\<rparr> = y0\<lparr>x_duplicate := True\<rparr>
       \<and> bound_to (storeOf d1 (m_repository m)) m r (fingerprint (wk_ext e) r (m_consumer m)) y0 d1"
  proof (cases rule: workMutation_Inr)
    case (replayed print)
    then obtain p where "List.find (\<lambda>p. replay_of p = (storeOf d (m_repository m), m_consumer m, text_of r ''key'')) (work_replays d) = Some p"
      "wp_scheme p = fingerprintScheme" "wp_fingerprint p = fingerprint (wk_ext e) r (m_consumer m)" "wp_operation p = q_op r"
      "y = (wp_result p)\<lparr>x_duplicate := True\<rparr>"
      using k by (auto simp: replay_def Let_def replay_of_def split: if_splits option.splits)
    then show ?thesis using replayed(3) by (intro exI[of _ "wp_result p"]) (simp add: bound_to_def)
  next
    case (applied print d2)
    have "print = fingerprint (wk_ext e) r (m_consumer m)"
      using applied(2) k by (auto simp: replay_def Let_def split: if_splits option.splits)
    then show ?thesis using apply_work_bound[OF applied(3) k] by (intro exI[of _ y]) (simp add: storeOf_names)
  qed
  assume later: "now \<le> now2" "wk_ext e2 = wk_ext e"
  from first show "own_report_check e2 m r now2 d1 = Inr ()"
  proof (cases rule: workMutation_Inr)
    case (replayed print)
    then show ?thesis using own_check_later later by simp
  next
    case (applied print d2)
    have "storeOf d1 (m_repository m) = storeOf (ensure_store (m_repository m) (wk_store_id e d2) d2) (m_repository m)"
      using apply_work_bound[OF applied(3) k] by (simp add: storeOf_names)
    then show ?thesis
      using other_after_verdict[OF applied(3)] later(2) by (auto simp: own_report_check_def Let_def split: sum.splits)
  qed
qed

section \<open>A concrete request\<close>

definition demo_members :: "(string \<times> json) list" where
  "demo_members = [(''title'', JStr ''a''), (''criteria'', JStr ''a''), (''non_goals'', JStr ''a''), (''key'', JStr ''a''), (''deadline'', JInt 100)]"

definition demo_request :: workRequest where
  "demo_request = (new_request ''work-create'')\<lparr>q_present := [''title'', ''criteria'', ''non_goals'', ''key'', ''deadline''],
     q_text := [''title'' \<mapsto> ''a'', ''criteria'' \<mapsto> ''a'', ''non_goals'' \<mapsto> ''a'', ''key'' \<mapsto> ''a''], q_numbers := [''deadline'' \<mapsto> 100]\<rparr>"

lemma demo_fields: "parse_fields (allowed_fields ''work-create'') demo_members (new_request ''work-create'') = Inr demo_request"
  by (simp add: demo_members_def demo_request_def allowed_fields_def fields_of_def workFields_def workRead_def parse_field_def
    nullable_names_def text_names_def int_names_def number_names_def parse_text_def parse_number_def new_request_def maxInt64_def Let_def)

lemma demo_text: "checkText ''a'' f (numeral n) = Inr ()" "blank ''a'' = False"
proof -
  have "valid_utf8 ''a''" by code_simp
  then show "checkText ''a'' f (numeral n) = Inr ()" by (simp add: checkText_def)
  show "blank ''a'' = False" by code_simp
qed

lemma demo_valid: "validate demo_request = Inr ()"
  by (simp add: validate_def demo_request_def new_request_def has_def missing_fields_def fields_of_def WorkRequired_def workRead_def
    check_identity_def check_texts_def check_lease_def check_outcome_def check_lifecycle_def workTextLimits_def nonempty_fields_def
    scope_names_def keyed_def text_of_def workVerdict_def Let_def demo_text guard_def)

lemma demo_parses: "parseWork ''work-create'' demo_members = Inr demo_request"
  using demo_fields demo_valid by (simp add: parseWork_def workFields_def)

lemma demo_request_ok: "request_ok demo_request"
proof -
  have "demo_request = demo_request\<lparr>q_actor := []\<rparr>" by (simp add: demo_request_def new_request_def)
  moreover have "\<not> workRead ''work-create''" by (simp add: workRead_def)
  ultimately show ?thesis using demo_parses unfolding request_ok_def by blast
qed

text \<open>An identifier longer than every one in use.\<close>

definition longer_id :: "db \<Rightarrow> string" where
  "longer_id d = concat (map ms_store_id (memory_stores d)) @ concat (map we_store (work_events d)) @ concat (map b_store (claim_bundles d)) @ ''x''"

lemma length_concat_ge: "r \<in> set t \<Longrightarrow> length (f r) \<le> length (concat (map f t))"
  by (induction t) auto

lemma longer_id_fresh: "longer_id d \<noteq> []" "longer_id d \<notin> ms_store_id ` set (memory_stores d)"
  "longer_id d \<notin> we_store ` set (work_events d)" "longer_id d \<notin> b_store ` set (claim_bundles d)"
proof -
  show "longer_id d \<noteq> []" by (simp add: longer_id_def)
  show "longer_id d \<notin> ms_store_id ` set (memory_stores d)"
    by (auto simp: longer_id_def dest!: arg_cong[where f = length] dest: length_concat_ge[of _ _ ms_store_id])
  show "longer_id d \<notin> we_store ` set (work_events d)"
    by (auto simp: longer_id_def dest!: arg_cong[where f = length] dest: length_concat_ge[of _ _ we_store])
  show "longer_id d \<notin> b_store ` set (claim_bundles d)"
    by (auto simp: longer_id_def dest!: arg_cong[where f = length] dest: length_concat_ge[of _ _ b_store])
qed

definition demo_env :: wenv where
  "demo_env = \<lparr>wk_ext = demo_ext, wk_limits = defaultMemoryLimits, wk_admit = (\<lambda>_ _. Inr ()), wk_commit = (\<lambda>_ _. Inr ()),
     wk_now_ms = 1000, wk_expiry_now = 1, wk_store_id = longer_id, wk_process_start = (\<lambda>_. None)\<rparr>"

lemma demo_env_fresh: "fresh_ids demo_env"
  by (simp add: fresh_ids_def demo_env_def longer_id_fresh)

definition demo_worker :: "string \<Rightarrow> MemoryCaller" where
  "demo_worker c = \<lparr>m_repository = ''/w/app/.git'', m_family = ''deepseek'', m_name = ''deepseek-app-08'', m_consumer = c,
     m_native = key [] [], m_consumer_explicit = False\<rparr>"

lemma demo_worker_caller: "requireParticipantCaller d now (demo_worker ''alice'') = Inr ()"
  by (simp add: requireParticipantCaller_def demo_worker_def isParticipantID_def participantPrefix_def)

text \<open>The database of the first run: no work, no claims and no memory.\<close>

definition no_work :: "db \<Rightarrow> bool" where
  "no_work d \<longleftrightarrow> memory_stores d = [] \<and> memory_entries d = [] \<and> claim_bundles d = [] \<and> claim_resources d = []
     \<and> work_items d = [] \<and> work_scope_revisions d = [] \<and> work_events d = []"

lemma no_work_inv: "no_work d \<Longrightarrow> work_inv t d"
  by (simp add: no_work_def work_inv_def stores_wf_def heads_def items_wf_def events_wf_def history_ok_def stream_ok_def scopes_ok_def
      claims_ok_def lease_inv_def lease_wf_def exclusive_def credits_ok_def credits_in_def sum_flags_def maxStoreVerdicts_def
      maxDaemonVerdicts_def)

lemma empty_no_work: "no_work empty_db"
  by (simp add: no_work_def empty_db_def)

lemma demo_keyed: "keyed demo_request" "number_of demo_request ''deadline'' = 100"
  by (simp_all add: demo_request_def new_request_def keyed_def workRead_def has_def number_of_def)

lemma demo_applied:
  "\<not> isl (fst (workWrite demo_env None ''/w/app/.git'' (write_class demo_request)
     (\<lambda>store. apply_work demo_env store (demo_worker ''alice'') demo_request 10 print) empty_db))"
  by code_simp

lemma demo_created:
  obtains t1 y d1 where "workMutation demo_env None (demo_worker ''alice'') demo_request 10 (\<lambda>_. 0) empty_db = (t1, Inr y, d1)"
proof -
  have st: "storeOf empty_db repo = []" for repo by (simp add: storeOf_def empty_db_def)
  have "replay demo_env (demo_worker ''alice'') demo_request 10 empty_db
      = Inr (fingerprint (wk_ext demo_env) demo_request (m_consumer (demo_worker ''alice'')), None)"
    using demo_keyed by (simp add: replay_def demo_worker_caller st Let_def demo_env_def defaultMemoryLimits_def)
  moreover have "own_report_check demo_env (demo_worker ''alice'') demo_request 10 empty_db = Inr ()" by (simp add: own_report_check_def st)
  moreover have "target_check (demo_worker ''alice'') demo_request 10 empty_db = Inr ()"
    by (simp add: target_check_def demo_request_def new_request_def has_def)
  moreover have "maybeExpire demo_env None repo (\<lambda>_. 0) empty_db = (\<lambda>_. 0, Inr (), empty_db)" for repo
    by (simp add: maybeExpire_def demo_env_def defaultMemoryLimits_def)
  moreover have "prepare demo_env None (demo_worker ''alice'') demo_request 10 empty_db = (Inr (), empty_db)"
    by (simp add: prepare_def makeRoom_def st and_then_def demo_request_def new_request_def)
  moreover have "m_repository (demo_worker ''alice'') = ''/w/app/.git''" by (simp add: demo_worker_def)
  ultimately have "workMutation demo_env None (demo_worker ''alice'') demo_request 10 (\<lambda>_. 0) empty_db = (\<lambda>_. 0,
      workWrite demo_env None ''/w/app/.git'' (write_class demo_request)
        (\<lambda>store. apply_work demo_env store (demo_worker ''alice'') demo_request 10
           (fingerprint (wk_ext demo_env) demo_request (m_consumer (demo_worker ''alice'')))) empty_db)"
    by (simp add: workMutation_def and_then_def)
  then show thesis
    using that demo_applied by (metis isl_def prod.collapse sum.exhaust_sel)
qed

lemma each_iff: "each f xs = Inr u \<longleftrightarrow> (\<forall>x\<in>set xs. f x = Inr ())"
  by (induction xs) auto

section \<open>Properties\<close>



text \<open>
  A key stays bound to its request: after a keyed mutation answered, a request of the same caller
  under the same key whose operation or content (by its fingerprint) differs changes nothing and is
  refused, with \<open>idempotency_conflict\<close> unless an earlier check refuses it.
\<close>

theorem key_bound_to_request:
  assumes "work_inv now d" and "fresh_ids e" and "request_ok r" and "keyed r"
    and "workMutation e g m r now t d = (t1, Inr y, d1)"
    and "keyed r2" and "text_of r2 ''key'' = text_of r ''key''"
    and "q_op r \<noteq> q_op r2 \<or> fingerprint (wk_ext e) r (m_consumer m) \<noteq> fingerprint (wk_ext e) r2 (m_consumer m)"
    and "now2 < number_of r2 ''deadline''" and "number_of r2 ''deadline'' \<le> now2 + lm_idem_ttl (wk_limits e2)"
    and "wk_ext e2 = wk_ext e" and "requireParticipantCaller d1 (wk_now_ms e2) m = Inr ()"
  shows "\<exists>err. workMutation e2 g2 m r2 now2 t2 d1 = (t2, Inl err, d1)
    \<and> (err = workError ''idempotency_conflict'' ''this work replay key is bound to a different request''
       \<or> own_report_check e2 m r2 now2 d1 = Inl err \<or> (\<exists>actor. requireNativeWorkCaller (wk_ext e) d1 m actor now2 = Inl err))"
proof -
  note b = mutation_binds[OF assms(1,2,3,5,4)]
  obtain y0 where y0: "bound_to (storeOf d1 (m_repository m)) m r (fingerprint (wk_ext e2) r (m_consumer m)) y0 d1"
    using b(2) assms(11) by auto
  obtain actor where "replay e2 m r2 now2 d1 = rbind (requireNativeWorkCaller (wk_ext e) d1 m actor now2) (\<lambda>_.
      Inl (workError ''idempotency_conflict'' ''this work replay key is bound to a different request''))"
    using replay_found[OF assms(6) y0 assms(7) b(1) assms(12,9,10)] assms(8,11) by auto
  then show ?thesis
    by (cases "own_report_check e2 m r2 now2 d1"; cases "requireNativeWorkCaller (wk_ext e) d1 m actor now2") (auto simp: workMutation_def)
qed

theorem key_bound_to_request_witness:
  "\<exists>t1 y d1 err. workMutation demo_env None (demo_worker ''alice'') demo_request 10 (\<lambda>_. 0) empty_db = (t1, Inr y, d1)
     \<and> workMutation demo_env None (demo_worker ''alice'') (demo_request\<lparr>q_op := ''work-propose''\<rparr>) 20 (\<lambda>_. 0) d1 = (\<lambda>_. 0, Inl err, d1)"
proof -
  obtain t1 y d1 where w: "workMutation demo_env None (demo_worker ''alice'') demo_request 10 (\<lambda>_. 0) empty_db = (t1, Inr y, d1)"
    by (rule demo_created)
  let ?r = "demo_request\<lparr>q_op := ''work-propose''\<rparr>"
  have r: "keyed ?r" "text_of ?r ''key'' = text_of demo_request ''key''" "q_op demo_request \<noteq> q_op ?r" "number_of ?r ''deadline'' = 100"
    by (simp_all add: demo_request_def new_request_def keyed_def workRead_def has_def number_of_def text_of_def)
  have "lm_idem_ttl (wk_limits demo_env) = 86400" by (simp add: demo_env_def defaultMemoryLimits_def)
  then show ?thesis
    using key_bound_to_request[OF no_work_inv[OF empty_no_work] demo_env_fresh demo_request_ok demo_keyed(1) w r(1,2) _ _ _ refl demo_worker_caller,
        of 20 None "\<lambda>_. 0"] w r(3,4) by auto
qed

text \<open>
  C37. An accepted request is well typed: its fields are the ones that were sent, all of them known to the
  operation and all required ones among them; integers fit 64 bits, times are not negative, texts are
  UTF-8 within their limits, there are at most eight references, and an assignee and a role are never
  both proposed.
\<close>

theorem parsed_request_typed:
  assumes "parseWork op members = Inr r"
  shows "set (q_present r) = fst ` set members \<and> set (q_present r) \<subseteq> set (allowed_fields op)
    \<and> set (fields_of WorkRequired op) \<subseteq> set (q_present r)
    \<and> ran (q_ints r) \<subseteq> {- (2 ^ 63)..2 ^ 63 - 1} \<and> ran (q_numbers r) \<subseteq> {0..2 ^ 63} \<and> length (q_refs r) \<le> 8
    \<and> \<not> (has r ''proposed_assignee'' \<and> has r ''proposed_role'')
    \<and> (\<forall>n limit v. (n, limit) \<in> set workTextLimits \<longrightarrow> q_text r n = Some v \<longrightarrow> length v \<le> limit \<and> valid_utf8 v)"
proof -
  note p = parseWork_Inr[OF assms]
  note v = validate_parts[OF p(4)]
  have ranges: "{- maxInt64 - 1..maxInt64} = {- (2 ^ 63)..2 ^ 63 - 1}" "{0..of_int (maxInt64 + 1)} = {0..2 ^ 63 :: time}"
    by (simp_all add: maxInt64_def)
  have texts: "length t \<le> limit \<and> valid_utf8 t" if l: "(n, limit) \<in> set workTextLimits" "q_text r n = Some t" for n limit t
  proof (cases "t = []")
    case True
    have "valid_utf8 []" by code_simp
    then show ?thesis using True by simp
  next
    case False
    have "each (\<lambda>(n, limit). case q_text r n of None \<Rightarrow> Inr ()
              | Some v \<Rightarrow> if v \<noteq> [] then checkText v n limit else Inr ()) workTextLimits = Inr ()"
      using v(3) by (simp add: check_texts_def)
    then have "checkText t n limit = Inr ()" using l False unfolding each_iff by fastforce
    then show ?thesis by (simp add: checkText_def)
  qed
  have t: "set (q_present r) \<subseteq> set (allowed_fields op)" "ran (q_ints r) \<subseteq> {- (2 ^ 63)..2 ^ 63 - 1}" "ran (q_numbers r) \<subseteq> {0..2 ^ 63}"
    "length (q_refs r) \<le> 8"
    using p(1) unfolding typed_def ranges by simp_all
  show ?thesis using p(2,3) t v(7) missing_fields_iff[OF v(1)] texts by blast
qed

theorem parsed_request_typed_witness:
  "parseWork ''work-create'' demo_members = Inr demo_request \<and> length (q_refs demo_request) \<le> 8
    \<and> set (fields_of WorkRequired ''work-create'') \<subseteq> set (q_present demo_request)"
  using demo_parses parsed_request_typed[OF demo_parses] by blast

end
