(* ===== verification/Work_Runs.thy ===== *)
theory Work_Runs
  imports Work_Replay
begin

text \<open>
  Runs of the work component over a log of requests and maintenance sweeps with a monotone clock, and
  the properties of work items. A failed request keeps what its earlier transactions committed, so every
  event of the log moves the state. The lifecycle of the items refines an abstract state machine
  (\<open>life_step\<close>); the interpretations \<open>work_machine\<close> and \<open>lives_through\<close> carry the invariant and the
  refinement along a run.
\<close>

section \<open>The machine\<close>

datatype work_op =
    Request wenv MemoryCaller string "(string \<times> json) list" time
  | Sweep wenv

type_synonym work_state = "(string \<Rightarrow> time) \<times> workState \<times> db"

definition database :: "work_state \<Rightarrow> db" where
  "database s = snd (snd s)"

text \<open>\<open>ids\<close> is the source of new store identifiers (\<open>randomID\<close>).\<close>

fun work_step :: "(db \<Rightarrow> string) \<Rightarrow> work_op \<Rightarrow> time \<Rightarrow> work_state \<Rightarrow> kerror + work_state" where
  "work_step ids (Request e m op members arrived) now (t, s, d) =
     (case Work (e\<lparr>wk_store_id := ids\<rparr>) m op members arrived now t d of (t', _, d') \<Rightarrow> Inr (t', s, d'))"
| "work_step ids (Sweep e) now (t, s, d) =
     (case MaintainWork (e\<lparr>wk_store_id := ids\<rparr>) now (s, d) of (_, s', d') \<Rightarrow> Inr (t, s', d'))"

text \<open>
  Identifiers as the 128-bit random numbers of the code: never empty, and never one that a row of the
  database already carries.
\<close>

definition fresh_source :: "(db \<Rightarrow> string) \<Rightarrow> bool" where
  "fresh_source ids \<longleftrightarrow> (\<forall>d. ids d \<noteq> [] \<and> ids d \<notin> ms_store_id ` set (memory_stores d)
     \<and> ids d \<notin> we_store ` set (work_events d) \<and> ids d \<notin> b_store ` set (claim_bundles d))"

lemma fresh_source_env: "fresh_source ids \<Longrightarrow> fresh_ids (e\<lparr>wk_store_id := ids\<rparr>)"
  by (simp add: fresh_source_def fresh_ids_def)

lemma work_inv_later: "work_inv t d \<Longrightarrow> t \<le> now \<Longrightarrow> work_inv now d"
  using lease_inv_later by (auto simp: work_inv_def)

context work_interface
begin

lemma step_keeps:
  assumes P: "P now (database s)" and e: "\<And>e. envok (e\<lparr>wk_store_id := ids\<rparr>)" and st: "work_step ids ev now s = Inr s'"
  shows "P now (database s')"
proof -
  obtain t ws d where s: "s = (t, ws, d)" by (cases s)
  have d: "P now d" using P s by (simp add: database_def)
  show ?thesis
  proof (cases ev)
    case (Request e0 m op members arrived)
    then show ?thesis
      using st s Work_keeps[OF d e[of e0], of m op members arrived t] by (auto simp: database_def split: prod.splits)
  next
    case (Sweep e0)
    then show ?thesis
      using st s MaintainWork_keeps[OF d e[of e0], of ws] by (auto simp: database_def split: prod.splits)
  qed
qed

end

interpretation work_machine: timed_machine "work_step ids" "\<lambda>now s. fresh_source ids \<and> work_inv now (database s)" for ids
proof (unfold_locales, goal_cases)
  case (1 t s now ev s')
  have "work_inv now (database s)" using 1(1,2) work_inv_later by blast
  then show ?case using keeping.step_keeps[OF _ fresh_source_env 1(3)] 1(1) by blast
next
  case (2 t s now)
  then show ?case using work_inv_later by blast
qed

lemma run_work_inv:
  assumes "work_inv t (database s)" "fresh_source ids" "sorted (t # map snd reqs)"
  shows "work_inv (last_time t reqs) (database (run_log (work_step ids) reqs s))"
  using work_machine.run_inv[of ids t s reqs] assms by blast

section \<open>The lifecycle refines an abstract machine\<close>

definition lives :: "db \<Rightarrow> (string \<times> string) \<Rightarrow> string option" where
  "lives d k = map_option w_lifecycle (List.find (\<lambda>w. item_key w = k) (work_items d))"

definition life_moves :: "(string \<times> string) set" where
  "life_moves = {(''open'', ''active''), (''active'', ''blocked''), (''blocked'', ''active''),
     (''active'', ''open''), (''blocked'', ''open''), (''active'', ''reported''), (''blocked'', ''reported''),
     (''active'', ''finished''), (''blocked'', ''finished''), (''reported'', ''finished''), (''reported'', ''open'')}"

inductive life_step :: "((string \<times> string) \<Rightarrow> string option) \<Rightarrow> ((string \<times> string) \<Rightarrow> string option) \<Rightarrow> bool" where
  opened: "m k = None \<Longrightarrow> life_step m (m(k \<mapsto> ''open''))"
| moved: "m k = Some a \<Longrightarrow> (a, b) \<in> life_moves \<Longrightarrow> life_step m (m(k \<mapsto> b))"
| dropped: "m k = Some ''finished'' \<Longrightarrow> life_step m (m(k := None))"

inductive_simps life_step_iff: "life_step m m'"

lemma find_filter: "List.find P (filter Q t) = List.find (\<lambda>r. P r \<and> Q r) t"
  by (induction t) auto

lemma find_other_key: "List.find (\<lambda>r. f r = k \<and> f r \<noteq> a) t = (if k = a then None else List.find (\<lambda>r. f r = k) t)"
  by (induction t) auto

lemma lives_item: "items_wf d \<Longrightarrow> q \<in> set (work_items d) \<Longrightarrow> lives d (item_key q) = Some (w_lifecycle q)"
  using find_key_unique[of item_key "work_items d" q] by (simp add: lives_def items_wf_def)

lemma lives_cong: "work_items d' = work_items d \<Longrightarrow> lives d' = lives d"
  by (simp add: fun_eq_iff lives_def)

lemma eventful_lives:
  assumes ev: "eventful store w n v d d'" and wf: "items_wf d" and q: "q \<in> set (work_items d)" "item_key q = (store, w_work_id w)"
  shows "lives d' = (lives d)(item_key q \<mapsto> w_lifecycle w)"
proof
  fix k
  have f: "List.find (\<lambda>w. item_key w = k) (work_items d')
      = map_option (\<lambda>r. if w_store r = store \<and> w_work_id r = w_work_id w then stored r w else r) (List.find (\<lambda>w. item_key w = k) (work_items d))"
    unfolding eventfulD(2)[OF ev] by (rule find_update_where_if) (auto simp: item_key_def)
  show "lives d' k = ((lives d)(item_key q \<mapsto> w_lifecycle w)) k"
  proof (cases "List.find (\<lambda>w. item_key w = k) (work_items d)")
    case None
    then have "k \<noteq> item_key q" using q(1) by (auto simp: find_None_all)
    then show ?thesis using f None by (simp add: lives_def)
  next
    case (Some r)
    then have rk: "item_key r = k" using find_Some_mem[OF Some] by simp
    have "(w_store r = store \<and> w_work_id r = w_work_id w) = (k = item_key q)" using rk q(2) by (auto simp: item_key_def)
    then show ?thesis using f Some by (simp add: lives_def)
  qed
qed

lemma start_no_lifecycle:
  assumes r: "request_ok r" and op: "q_op r = ''work-start''"
  shows "q_text r ''lifecycle'' = None"
proof -
  obtain op' members r0 a where p: "parseWork op' members = Inr r0" "r = r0\<lparr>q_actor := a\<rparr>"
    using r by (auto simp: request_ok_def)
  have t: "typed (allowed_fields ''work-start'') r0" using parseWork_Inr(1,2)[OF p(1)] op p(2) by simp
  have "''lifecycle'' \<notin> set (allowed_fields ''work-start'')"
    by (simp add: allowed_fields_def fields_of_def workFields_def workRead_def)
  then have "''lifecycle'' \<notin> dom (q_text r0)" using t by (auto simp: typed_def sent_as_def)
  then show ?thesis using p(2) by auto
qed

text \<open>Along which edge each operation moves its item.\<close>

lemma transition_moves:
  assumes inv: "work_inv now d" and q: "q \<in> set (work_items d)" "w_store q = store" and r: "request_ok r"
    and lg: "lifecycle_guard x m r q = Inr ()" and og: "owner_guard x store m r actor0 q now d = Inr actor"
    and op: "q_op r \<noteq> ''work-create''" "q_op r \<noteq> ''claim-renew''"
    and t: "transition_of x l store m r actor now (q\<lparr>w_revision := w_revision q + 1\<rparr>) d = Inr (kind, w, d1)"
  shows "w_lifecycle w = w_lifecycle q \<or> (w_lifecycle q, w_lifecycle w) \<in> life_moves"
proof -
  have chk: "w_lifecycle q \<in> set lifecycles"
    using work_invD(2)[OF inv] q(1) by (simp add: items_wf_def item_checks_def)
  have notfin: "w_lifecycle q \<noteq> ''finished''" using lg by (simp add: lifecycle_guard_def)
  have claimed: "ongoing (w_lifecycle q)" if o: "q_op r \<in> set [''work-update'', ''work-release'', ''work-finish'', ''work-report'']"
  proof -
    have "owned r (bundleFor d store (w_work_id q)) now" using o by (auto simp: owned_def)
    then obtain b where "owner d store (w_work_id q) (m_consumer m) (int_of r ''claim_generation'') now = Inr b"
      using og by (auto simp: owner_guard_def Let_def)
    note b = owner_bundle[OF this]
    show ?thesis using claim_fits[OF inv q(1) b(1,5)] b q(2) by simp
  qed
  have life: "ongoing (case q_text r ''lifecycle'' of None \<Rightarrow> ''active'' | Some v \<Rightarrow> v)" by (rule request_lifecycle[OF r])
  consider "q_op r = ''work-propose''" | "q_op r = ''work-edit''" | "q_op r = ''work-start''" | "q_op r = ''work-update''"
    | "q_op r = ''work-release'' \<or> q_op r = ''work-finish''" | "q_op r = ''work-report''" | "workVerdict (q_op r)"
    using op request_op[OF r] by (auto simp: WorkOperations_def workVerdict_def workRead_def)
  then show ?thesis
  proof cases
    case 1 then show ?thesis using t by (auto simp: transition_of_def apply_propose_def)
  next
    case 2 then show ?thesis using t by (auto simp: transition_of_def apply_edit_def Let_def)
  next
    case 3
    then have "w_lifecycle w = ''active''"
      using t start_no_lifecycle[OF r 3] by (auto simp: transition_of_def apply_start_def Let_def)
    moreover have "w_lifecycle q \<noteq> ''reported''" using lg 3 by (auto simp: lifecycle_guard_def workVerdict_def)
    ultimately show ?thesis using chk notfin by (auto simp: lifecycles_def life_moves_def)
  next
    case 4
    then have "w_lifecycle w = (case q_text r ''lifecycle'' of None \<Rightarrow> ''active'' | Some v \<Rightarrow> v)"
      using t by (auto simp: transition_of_def apply_update_def Let_def)
    then have "ongoing (w_lifecycle w)" using life by simp
    then show ?thesis using claimed 4 by (auto simp: ongoing_def life_moves_def)
  next
    case 5
    then have "w_lifecycle w = ''open'' \<or> w_lifecycle w = ''finished''"
      using t by (auto simp: transition_of_def apply_ending_def finished_def Let_def split: if_splits)
    moreover have "ongoing (w_lifecycle q)" using claimed 5 by auto
    ultimately show ?thesis by (auto simp: ongoing_def life_moves_def)
  next
    case 6
    then have "w_lifecycle w = ''reported''" using t by (auto simp: transition_of_def apply_report_def Let_def)
    moreover have "ongoing (w_lifecycle q)" using claimed 6 by auto
    ultimately show ?thesis by (auto simp: ongoing_def life_moves_def)
  next
    case 7
    then have "apply_verdict x store m r now (q\<lparr>w_revision := w_revision q + 1\<rparr>) d = Inr (kind, w, d1)"
      using t by (auto simp: transition_of_def workVerdict_def)
    then have "w_lifecycle w = ''open'' \<or> w_lifecycle w = ''finished''"
      by (auto simp: apply_verdict_def finished_def Let_def split: if_splits)
    moreover have "w_lifecycle q = ''reported''" using lg 7 by (simp add: lifecycle_guard_def)
    ultimately show ?thesis by (auto simp: life_moves_def)
  qed
qed

lemma work_frame_lives: "work_frame d d' \<Longrightarrow> lives d' = lives d"
  by (rule lives_cong) (simp add: work_frame_def)

lemma same_work_lives: "same_work d d' \<Longrightarrow> lives d' = lives d"
  by (rule lives_cong) (simp add: same_work_def)

text \<open>An event moves the abstract state of its item and of no other.\<close>

lemma event_lives:
  assumes wf: "items_wf d" and items: "work_items d1 = work_items d" and q: "q \<in> set (work_items d)" "w_store q = store"
    and w: "w_work_id w = w_work_id q" and e: "event x store m w kind c a now d1 = Inr (w1, d')"
  shows "lives d' = (lives d)(item_key q \<mapsto> w_lifecycle w)"
proof -
  obtain n v where ev: "eventful store w1 n v d1 d'" and w1: "w1 = numbered kind (head_of d1 store + 1) w"
    using event_eventful[OF e] by metis
  have "lives d' = (lives d1)(item_key q \<mapsto> w_lifecycle w1)"
    by (rule eventful_lives[OF ev]) (use wf items q w w1 in \<open>simp_all add: items_wf_def item_key_def\<close>)
  then show ?thesis using w1 lives_cong[OF items] by simp
qed

lemma create_lives:
  assumes inv: "work_inv now d" and t: "apply_create x store m r now d = Inr (kind, w, d1)"
    and e: "event x store m w kind c a now d1 = Inr (w1, d')"
  shows "life_step (lives d) (lives d')"
proof -
  from t obtain w0 where w0: "item_ok w0 (work_items d)" "item_key w0 = (store, w_work_id w)" "w_report w0 = None" "w_evidence w0 = None"
    "w_lifecycle w = ''open''" "work_items d1 = work_items d @ [w0]"
    by (rule apply_create_Inr)
  have fresh: "item_key p \<noteq> item_key w0" if "p \<in> set (work_items d)" for p
    using w0(1) that by (auto simp: item_ok_def fresh_key_def item_key_def)
  then have none: "List.find (\<lambda>p. item_key p = item_key w0) (work_items d) = None" by (simp add: find_None_all)
  then have "item_key w0 \<notin> item_key ` set (work_items d)" by (auto simp: find_None_all)
  then have wf: "items_wf d1"
    using work_invD(2)[OF inv] w0(1,3,4) unfolding items_wf_def w0(6) by (simp add: item_ok_def ball_Un)
  have "lives d' = (lives d1)(item_key w0 \<mapsto> w_lifecycle w)"
    by (rule event_lives[OF wf refl _ _ _ e]) (use w0(2,6) in \<open>simp_all add: item_key_def\<close>)
  also have "\<dots> = (lives d)(item_key w0 \<mapsto> ''open'')"
    by (auto simp: fun_eq_iff lives_def w0(5,6) find_append split: option.splits)
  finally show ?thesis using none by (simp add: life_step.opened lives_def)
qed

lemma apply_work_lives:
  assumes inv: "work_inv now d" and r: "request_ok r" and a: "apply_work e store m r now print d = Inr (y, d')"
  shows "life_step\<^sup>*\<^sup>* (lives d) (lives d')"
proof (cases "q_op r = ''work-create''")
  case True
  then obtain kind w d1 where c: "apply_create (wk_ext e) store m r now d = Inr (kind, w, d1)"
    "commit_transition e store m r (q_actor r) now print (kind, w, d1) = Inr (y, d')"
    using a by (auto simp: apply_work_def Let_def)
  from c(2) obtain w1 d2 where "event (wk_ext e) store m w kind (m_consumer m) (optional r ''author'') now d1 = Inr (w1, d2)" "work_frame d2 d'"
    by (rule commit_transition_Inr)
  then show ?thesis using create_lives[OF inv c(1)] work_frame_lives by (metis r_into_rtranclp)
next
  case False
  then obtain q actor where q: "current d store (text_of r ''work_id'') now = Inr q" "lifecycle_guard (wk_ext e) m r q = Inr ()"
      "owner_guard (wk_ext e) store m r (q_actor r) q now d = Inr actor"
    and rest: "(if q_op r = ''claim-renew'' then
          rbind (renew (koinon_native_work_actor (wk_ext e)) store (w_work_id q) (m_consumer m) (int_of r ''claim_generation'')
                   (int_of r ''if_claim_revision'') now (lease_seconds r) d) (\<lambda>(renewed, d1).
            storeReplay (wk_ext e) store m r actor print (work_result q None (Some renewed) None) now d1)
        else
          rbind (revise r q) (\<lambda>w1.
          rbind (transition_of (wk_ext e) (wk_limits e) store m r actor now w1 d) (commit_transition e store m r actor now print))) = Inr (y, d')"
    using a by (auto simp: apply_work_def Let_def)
  have qm: "q \<in> set (work_items d)" "w_store q = store" using current_Inr[OF q(1)] by auto
  show ?thesis
  proof (cases "q_op r = ''claim-renew''")
    case True
    then obtain l d1 where "renew (koinon_native_work_actor (wk_ext e)) store (w_work_id q) (m_consumer m) (int_of r ''claim_generation'')
        (int_of r ''if_claim_revision'') now (lease_seconds r) d = Inr (l, d1)" "work_frame d1 d'"
      using rest storeReplay_frame by auto
    then show ?thesis using same_work_lives[OF renew_same] work_frame_lives by simp
  next
    case renew: False
    then obtain w kind w2 d1 where rv: "revise r q = Inr w" and t: "transition_of (wk_ext e) (wk_limits e) store m r actor now w d = Inr (kind, w2, d1)"
      and c: "commit_transition e store m r actor now print (kind, w2, d1) = Inr (y, d')"
      using rest by auto
    note t' = t[unfolded revise_Inr[OF rv]]
    have p: "prepared now store q w2 d d1"
      by (rule transition_prepared[OF inv qm r q(2) request_op(1)[OF r] False renew request_op(2)[OF r] t'])
    from c obtain w3 d2 where ev: "event (wk_ext e) store m w2 kind (m_consumer m) (optional r ''author'') now d1 = Inr (w3, d2)" "work_frame d2 d'"
      by (rule commit_transition_Inr)
    have "lives d2 = (lives d)(item_key q \<mapsto> w_lifecycle w2)"
      by (rule event_lives[OF work_invD(2)[OF inv] _ qm _ ev(1)]) (use p in \<open>simp_all add: prepared_def\<close>)
    then have l: "lives d' = (lives d)(item_key q \<mapsto> w_lifecycle w2)" using work_frame_lives[OF ev(2)] by simp
    have here: "lives d (item_key q) = Some (w_lifecycle q)" by (rule lives_item[OF work_invD(2)[OF inv] qm(1)])
    from transition_moves[OF inv qm r q(2,3) False renew t'] show ?thesis
    proof
      assume "w_lifecycle w2 = w_lifecycle q"
      then have "lives d' = lives d" using l here by (auto simp: fun_eq_iff)
      then show ?thesis by simp
    next
      assume "(w_lifecycle q, w_lifecycle w2) \<in> life_moves"
      then have "life_step (lives d) (lives d')" unfolding l using life_step.moved[where k = "item_key q" and m = "lives d"] here by blast
      then show ?thesis by (simp add: r_into_rtranclp)
    qed
  qed
qed

lemma reconcile_lives:
  assumes inv: "work_inv now d" and q: "current d store i now = Inr q" and t: "reconcile_tx x repo now q b store d = Inr (u, d')"
  shows "lives d' = lives d"
proof -
  let ?m = "\<lparr>m_repository = repo, m_family = [], m_name = [], m_consumer = [], m_native = key [] [], m_consumer_explicit = False\<rparr>"
  have qm: "q \<in> set (work_items d)" "w_store q = store" using current_Inr[OF q] by auto
  have "\<exists>w kind d1 w2. same_work d d1 \<and> w_work_id w = w_work_id q \<and> w_lifecycle w = w_lifecycle q
      \<and> event x store ?m w kind (b_consumer b) None now d1 = Inr (w2, d')"
  proof (cases "b_expires_at b \<le> now")
    case True
    then obtain w2 where "event x store ?m (q\<lparr>w_revision := w_revision q + 1, w_lease_expired := True\<rparr>) ''lease-expired'' (b_consumer b) None now
        (snd (expire store (b_generation b) now d)) = Inr (w2, d')"
      using t by (auto simp: reconcile_tx_def Let_def)
    then show ?thesis by (intro exI conjI) (rule expire_same, simp_all)
  next
    case False
    then obtain z d1 w2 where o: "overdue store (b_generation b) (w_progress_epoch q) d = Inr (z, d1)"
      and e: "event x store ?m (q\<lparr>w_revision := w_revision q + 1\<rparr>) ''progress-overdue'' (b_consumer b) None now d1 = Inr (w2, d')"
      using t by (auto simp: reconcile_tx_def Let_def)
    show ?thesis by (intro exI conjI) (rule overdue_same[OF o], use e in simp_all)
  qed
  then obtain w kind d1 w2 where s: "same_work d d1" "w_work_id w = w_work_id q" "w_lifecycle w = w_lifecycle q"
    and e: "event x store ?m w kind (b_consumer b) None now d1 = Inr (w2, d')" by blast
  have "lives d' = (lives d)(item_key q \<mapsto> w_lifecycle q)"
    using event_lives[OF work_invD(2)[OF inv] _ qm s(2) e] s by (simp add: same_work_def)
  then show ?thesis using lives_item[OF work_invD(2)[OF inv] qm(1)] by (auto simp: fun_eq_iff)
qed

lemma reclaim_lives:
  assumes inv: "work_inv now d" and r: "reclaim_item l repo i bound store d = Inr (y, d')"
  shows "life_step\<^sup>*\<^sup>* (lives d) (lives d')"
proof (cases y)
  case True
  then obtain w where w: "List.find (\<lambda>w. w_store w = store \<and> w_work_id w = i \<and> finished_by bound w) (work_items d) = Some w"
    using r by (auto simp: reclaim_item_def split: option.splits)
  have wm: "w \<in> set (work_items d)" "item_key w = (store, i)" "w_lifecycle w = ''finished''"
    using find_Some_mem[OF w] by (simp_all add: item_key_def finished_by_def)
  have "work_items d' = filter (\<lambda>w. item_key w \<noteq> (store, i)) (work_items d)"
    using reclaim_item_Inr[OF r] True by (simp add: delete_item_def item_key_def)
  then have "lives d' = (lives d)((store, i) := None)"
    by (simp add: fun_eq_iff lives_def find_filter find_other_key)
  moreover have "lives d (store, i) = Some ''finished''" using lives_item[OF work_invD(2)[OF inv] wm(1)] wm(2,3) by simp
  ultimately show ?thesis using life_step.dropped by (metis r_into_rtranclp)
qed (use reclaim_item_Inr[OF r] in simp)


text \<open>The databases that the abstract machine reaches from the items of \<open>d0\<close>.\<close>

definition lives_on :: "db \<Rightarrow> time \<Rightarrow> db \<Rightarrow> bool" where
  "lives_on d0 now d \<longleftrightarrow> work_inv now d \<and> life_step\<^sup>*\<^sup>* (lives d0) (lives d)"

lemma lives_on_step:
  "lives_on d0 now d \<Longrightarrow> work_inv now d' \<Longrightarrow> life_step\<^sup>*\<^sup>* (lives d) (lives d') \<Longrightarrow> lives_on d0 now d'"
  unfolding lives_on_def by (meson rtranclp_trans)

lemma lives_on_same:
  "lives_on d0 now d \<Longrightarrow> work_inv now d' \<Longrightarrow> work_items d' = work_items d \<Longrightarrow> lives_on d0 now d'"
  using lives_cong[of d' d] by (simp add: lives_on_def)

lemma lives_on_inv: "lives_on d0 now d \<Longrightarrow> work_inv now d"
  by (simp add: lives_on_def)

interpretation living: work_interface "lives_on d0" fresh_ids for d0
proof (unfold_locales, goal_cases)
  case (1 now d e repo)
  show ?case by (rule lives_on_same[OF 1(1) ensure_store_inv[OF lives_on_inv[OF 1(1)] 1(2)]]) (simp add: ensure_store_def)
next
  case (2 now d x repo t n d')
  show ?case
    by (rule lives_on_same[OF 2(1) expire_entries_inv[OF lives_on_inv[OF 2(1)] 2(2)]])
      (use 2(2) in \<open>auto simp: expire_entries_def raise_floor_def Let_def split: if_splits\<close>)
next
  case (3 now d l repo t d')
  show ?case
    by (rule lives_on_same[OF 3(1) expire_windows_inv[OF lives_on_inv[OF 3(1)] 3(2)]])
      (use 3(2) in \<open>auto simp: expire_windows_def Let_def\<close>)
next
  case (4 now d e r m store print y d' cls)
  note inv = lives_on_inv[OF 4(1)]
  show ?case by (rule lives_on_step[OF 4(1) apply_work_inv[OF inv 4(3,4,5)] apply_work_lives[OF inv 4(3,5)]])
next
  case (5 now d e repo store i w b d')
  note inv = lives_on_inv[OF 5(1)]
  have "lives d' = lives d" by (rule reconcile_lives[OF inv 5(4,9)])
  then show ?case using lives_on_step[OF 5(1) reconcile_inv[OF inv 5(3-7,9)]] by simp
next
  case (6 now d store i q)
  show ?case by (rule lives_on_same[OF 6(1) delete_inactive_work_inv[OF lives_on_inv[OF 6(1)] 6(2,3)]]) (simp add: delete_inactive_def)
next
  case (7 now d store y d')
  show ?case
    by (rule lives_on_same[OF 7(1) reclaimOne_work_inv[OF lives_on_inv[OF 7(1)] 7(2)]])
      (use 7(2) in \<open>auto simp: reclaimOne_def delete_bundle_def split: list.splits if_splits\<close>)
next
  case (8 now d repo store l i bound y d')
  note inv = lives_on_inv[OF 8(1)]
  show ?case by (rule lives_on_step[OF 8(1) reclaim_work_inv[OF inv 8(2,3)] reclaim_lives[OF inv 8(3)]])
qed

interpretation living_machine: timed_machine "work_step ids" "\<lambda>now s. fresh_source ids \<and> lives_on d0 now (database s)" for ids d0
proof (unfold_locales, goal_cases)
  case (1 t s now ev s')
  have "lives_on d0 now (database s)" using 1(1,2) work_inv_later by (auto simp: lives_on_def)
  then show ?case using living.step_keeps[OF _ fresh_source_env 1(3)] 1(1) by blast
next
  case (2 t s now)
  then show ?case using work_inv_later by (auto simp: lives_on_def)
qed

section \<open>Properties of runs\<close>

definition demo_log :: "(work_op \<times> time) list" where
  "demo_log = [(Request demo_env (demo_worker ''alice'') ''work-create'' demo_members 10, 10), (Sweep demo_env, 20)]"

definition demo_state :: work_state where
  "demo_state = (\<lambda>_. 0, \<lparr>wt_last_success = None, wt_fault = None, wt_fault_at = None\<rparr>, empty_db)"

lemma demo_run:
  "work_inv 0 (database demo_state)" "fresh_source longer_id" "sorted (0 # map snd demo_log)"
  using no_work_inv[OF empty_no_work]
  by (simp_all add: demo_state_def database_def demo_log_def fresh_source_def longer_id_fresh)



text \<open>
  C28. The history of work is complete: after any run, the events of every item are its revisions from 1
  to the current one, without a gap and with growing sequence numbers up to the item's latest one,
  every event has exactly its stream entry and no other work entry exists, and no event is ahead of
  its store's head.
\<close>

theorem work_history_gapless:
  assumes "work_inv t (database s)" and "fresh_source ids" and "sorted (t # map snd reqs)"
  shows "history_ok (database (run_log (work_step ids) reqs s)) \<and> stream_ok (database (run_log (work_step ids) reqs s))
    \<and> events_wf (database (run_log (work_step ids) reqs s))"
  using work_invD[OF run_work_inv[OF assms]] by blast

theorem work_history_gapless_witness:
  "history_ok (database (run_log (work_step longer_id) demo_log demo_state))"
  using work_history_gapless[OF demo_run] by (rule conjunct1)

text \<open>
  C29. Claims follow the work: after any run, every active claim belongs to an active or blocked item of
  the same progress epoch, and two live claims of a store hold no overlapping resources. So the checks
  for disagreeing epochs in updates and in the sweep never find one.
\<close>

theorem claims_follow_work:
  assumes "work_inv t (database s)" and "fresh_source ids" and "sorted (t # map snd reqs)"
  shows "claims_ok (database (run_log (work_step ids) reqs s)) \<and> exclusive (last_time t reqs) (database (run_log (work_step ids) reqs s))"
  using work_invD(7,8)[OF run_work_inv[OF assms]] by (simp add: lease_inv_def)

theorem claims_follow_work_witness:
  "claims_ok (database (run_log (work_step longer_id) demo_log demo_state))"
  using claims_follow_work[OF demo_run] by (rule conjunct1)

text \<open>
  C30. Pending verdicts are bounded: after any run, at most 16 reports of a store and at most 32 of the
  daemon wait for a verdict, so their reserved capacity is bounded.
\<close>

theorem pending_verdicts_bounded:
  assumes "work_inv t (database s)" and "fresh_source ids" and "sorted (t # map snd reqs)"
  shows "credits_in store (database (run_log (work_step ids) reqs s)) \<le> 16
    \<and> sum_flags w_verdict_credit (work_items (database (run_log (work_step ids) reqs s))) \<le> 32"
  using work_invD(9)[OF run_work_inv[OF assms]] by (simp add: credits_ok_def maxStoreVerdicts_def maxDaemonVerdicts_def)

theorem pending_verdicts_bounded_witness:
  "sum_flags w_verdict_credit (work_items (database (run_log (work_step longer_id) demo_log demo_state))) \<le> 32"
  using pending_verdicts_bounded[OF demo_run] by (rule conjunct2)

end
