(* ===== verification/Work_Reclaim.thy ===== *)
theory Work_Reclaim
  imports Work_Replay
begin

text \<open>
  Verdicts on reports and the reclamation of finished work: what an applied verdict needs and does, that
  a worker cannot judge its own report, and that the whole record of an expired item goes in one
  transaction that the stored history never blocks.
\<close>

section \<open>The history of a finished item is consistent\<close>

lemma foldr_max_last: "sorted_wrt (<) xs \<Longrightarrow> xs \<noteq> [] \<Longrightarrow> foldr max xs 0 = max 0 (last xs :: int)"
proof (induction xs)
  case (Cons x xs)
  show ?case
  proof (cases "xs = []")
    case False
    then have "x < last xs" using Cons.prems(1) by simp
    then have "max x (max 0 (last xs)) = max 0 (last xs)" by (simp add: max_def)
    moreover have "foldr max xs 0 = max 0 (last xs)" using Cons False by simp
    ultimately show ?thesis using False by simp
  qed simp
qed simp

lemma history_highest:
  assumes inv: "work_inv now d" and w: "w \<in> set (work_items d)" "item_key w = (store, i)"
  shows "events_of d store i \<noteq> []" "foldr max (map we_seq (events_of d store i)) 0 = w_latest_seq w"
proof -
  have "traced d w" using work_invD(4)[OF inv] w(1) by (simp add: history_ok_def)
  then have t: "map we_revision (events_of d store i) = [1..w_revision w]" "sorted_wrt (<) (map we_seq (events_of d store i))"
    "last (map we_seq (events_of d store i)) = w_latest_seq w"
    using w(2) by (simp_all add: traced_def pretraced_def item_key_def)
  have chk: "w_revision w > 0" "w_latest_seq w > 0" using work_invD(2)[OF inv] w(1) by (simp_all add: items_wf_def item_checks_def)
  have "map we_revision (events_of d store i) \<noteq> []" unfolding t(1) using chk(1) by simp
  then show ne: "events_of d store i \<noteq> []" by simp
  show "foldr max (map we_seq (events_of d store i)) 0 = w_latest_seq w"
    using foldr_max_last[OF t(2)] ne t(3) chk(2) by simp
qed

lemma stream_event:
  assumes "work_inv now d" "n \<in> set (memory_entries d)" "e_type n = ''work-event''"
  obtains h v where "h \<in> set (heads d)" "v \<in> set (work_events d)" "fst h = e_repository n" "fst (snd h) = we_store v" "stream_row n v"
  using work_invD(5)[OF assms(1)] assms(2,3) unfolding stream_ok_def by blast

lemma stream_consistent:
  assumes inv: "work_inv now d" and repo: "repo_store d repo store"
  shows "inconsistent_rows d store i repo = 0"
proof -
  obtain hr where hr: "hr \<in> set (heads d)" "fst hr = repo" "fst (snd hr) = store" using repo_store_head[OF repo] by blast
  have a: "(case List.find (\<lambda>n. e_repository n = repo \<and> e_seq n = we_seq v) (memory_entries d) of
         None \<Rightarrow> True
       | Some n \<Rightarrow> e_type n \<noteq> ''work-event'' \<or> e_scope_target n \<noteq> Some (we_work_id v) \<or> e_revision n \<noteq> we_revision v
           \<or> e_body n \<noteq> [] \<or> e_expires n \<noteq> None \<or> e_supersedes n \<noteq> None \<or> e_revokes n \<noteq> None) = False"
    if v: "v \<in> set (events_of d store i)" for v
  proof -
    have vm: "v \<in> set (work_events d)" "we_store v = store" using v by (simp_all add: events_of_def)
    obtain n where n: "n \<in> set (memory_entries d)" "e_repository n = repo" "stream_row n v"
      using stream_entry[OF inv vm(1)] repo vm(2) by metis
    have "List.find (\<lambda>n. e_repository n = repo \<and> e_seq n = we_seq v) (memory_entries d) \<noteq> None"
      using n by (auto simp: find_None_all stream_row_def)
    then obtain k where k: "List.find (\<lambda>n. e_repository n = repo \<and> e_seq n = we_seq v) (memory_entries d) = Some k" by blast
    have "k = n" using find_Some_mem[OF k] n entry_unique[OF inv _ n(1), of k] by (simp add: stream_row_def)
    then show ?thesis using k n(3) by (simp add: stream_row_def)
  qed
  have b: "\<exists>v\<in>set (events_of d store i). we_seq v = e_seq n"
    if n: "n \<in> set (memory_entries d)" "e_repository n = repo" "e_type n = ''work-event''" "e_scope_target n = Some i" for n
  proof -
    obtain h v where hv: "h \<in> set (heads d)" "v \<in> set (work_events d)" "fst h = e_repository n" "fst (snd h) = we_store v" "stream_row n v"
      by (rule stream_event[OF inv n(1,3)])
    have "h = hr" using head_unique[OF inv hv(1) hr(1)] hv(3) hr(2) n(2) by simp
    then have "v \<in> set (events_of d store i)" using hv hr(3) n(4) by (simp add: events_of_def stream_row_def)
    then show ?thesis using hv(5) by (auto simp: stream_row_def)
  qed
  have "filter (\<lambda>v. case List.find (\<lambda>n. e_repository n = repo \<and> e_seq n = we_seq v) (memory_entries d) of
         None \<Rightarrow> True
       | Some n \<Rightarrow> e_type n \<noteq> ''work-event'' \<or> e_scope_target n \<noteq> Some (we_work_id v) \<or> e_revision n \<noteq> we_revision v
           \<or> e_body n \<noteq> [] \<or> e_expires n \<noteq> None \<or> e_supersedes n \<noteq> None \<or> e_revokes n \<noteq> None) (events_of d store i) = []"
    unfolding filter_empty_conv using a by simp
  moreover have "filter (\<lambda>n. e_repository n = repo \<and> e_type n = ''work-event'' \<and> e_scope_target n = Some i
         \<and> \<not> (\<exists>v\<in>set (events_of d store i). we_seq v = e_seq n)) (memory_entries d) = []"
    unfolding filter_empty_conv using b by blast
  ultimately show ?thesis unfolding inconsistent_rows_def by simp
qed

section \<open>Properties\<close>

text \<open>
  C35. Reclaiming finished work is never stuck: whenever the oldest finished item of a store has no claim
  left and its history is within the retained bounds, its reclamation succeeds. The item goes with all
  its events, scope revisions and stream entries, the store's floor rises to its last event, no head
  moves, and every other item, event and scope revision stays.
\<close>

theorem finished_work_reclaimed:
  assumes "work_inv now d" and "repo_store d repo store"
    and "w \<in> set (work_items d)" and "item_key w = (store, i)" and "finished_by bound w" and "bundleFor d store i = None"
    and "int (length (scopes_of d store i)) \<le> lm_work_scopes_per_item l" and "int (length (events_of d store i)) \<le> lm_work_events l"
  shows "\<exists>d'. reclaim_item l repo i bound store d = Inr (True, d') \<and> work_inv now d'
    \<and> item_row d' store i = None \<and> events_of d' store i = [] \<and> scopes_of d' store i = []
    \<and> filter (\<lambda>n. e_repository n = repo \<and> e_scope_target n = Some i \<and> e_type n = ''work-event'') (memory_entries d') = []
    \<and> heads d' = heads d \<and> work_items d' = filter (\<lambda>q. item_key q \<noteq> (store, i)) (work_items d)
    \<and> work_events d' = filter (\<lambda>v. (we_store v, we_work_id v) \<noteq> (store, i)) (work_events d)"
proof -
  obtain q where q: "List.find (\<lambda>w. w_store w = store \<and> w_work_id w = i \<and> finished_by bound w) (work_items d) = Some q"
    using assms(3-5) by (cases "List.find (\<lambda>w. w_store w = store \<and> w_work_id w = i \<and> finished_by bound w) (work_items d)")
      (auto simp: find_None_all item_key_def)
  have qm: "q \<in> set (work_items d)" "item_key q = (store, i)" using find_Some_mem[OF q] by (simp_all add: item_key_def)
  obtain s where "s \<in> set (work_scope_revisions d)" "sc_store s = store" "sc_work_id s = i"
    using work_invD(6)[OF assms(1)] assms(3,4) by (auto simp: scopes_ok_def item_key_def)
  then have "s \<in> set (scopes_of d store i)" by (simp add: scopes_of_def)
  then have "scopes_of d store i \<noteq> []" by auto
  then have sc: "\<not> int (length (scopes_of d store i)) < 1" by (simp add: Suc_le_eq)
  let ?d = "(delete_item repo store i d)\<lparr>memory_stores := update_where (\<lambda>m. ms_store_id m = store)
    (\<lambda>m. m\<lparr>ms_floor := max (ms_floor m) (foldr max (map we_seq (events_of d store i)) 0)\<rparr>) (memory_stores d)\<rparr>"
  have r: "reclaim_item l repo i bound store d = Inr (True, ?d)"
    using q sc assms(6-8) history_highest[OF assms(1) qm] stream_consistent[OF assms(1,2), of i]
    by (simp add: reclaim_item_def Let_def delete_item_def)
  have inv: "work_inv now ?d" by (rule reclaim_work_inv[OF assms(1,2) r])
  have h: "heads ?d = heads d" by (simp add: heads_def heads_update delete_item_def)
  have ev: "events_of ?d store i = []" by (simp add: events_of_def delete_item_def filter_empty_conv)
  have en: "\<not> (e_repository n = repo \<and> e_scope_target n = Some i \<and> e_type n = ''work-event'')" if nm: "n \<in> set (memory_entries ?d)" for n
  proof
    assume e: "e_repository n = repo \<and> e_scope_target n = Some i \<and> e_type n = ''work-event''"
    then have ty: "e_type n = ''work-event''" by simp
    obtain g v where gv: "g \<in> set (heads ?d)" "v \<in> set (work_events ?d)" "fst g = e_repository n" "fst (snd g) = we_store v" "stream_row n v"
      by (rule stream_event[OF inv nm ty])
    obtain hr where hr: "hr \<in> set (heads d)" "fst hr = repo" "fst (snd hr) = store" using repo_store_head[OF assms(2)] by blast
    have "g = hr" using head_unique[OF assms(1) _ hr(1)] gv(1,3) hr(2) h e by simp
    then have "v \<in> set (events_of ?d store i)" using gv hr(3) e by (simp add: events_of_def stream_row_def)
    then show False using ev by simp
  qed
  have none: "item_row ?d store i = None" by (auto simp: item_row_def delete_item_def find_None_all)
  have sco: "scopes_of ?d store i = []" by (simp add: scopes_of_def delete_item_def filter_empty_conv)
  have it: "work_items ?d = filter (\<lambda>q. item_key q \<noteq> (store, i)) (work_items d)" by (simp add: delete_item_def item_key_def)
  have we: "work_events ?d = filter (\<lambda>v. (we_store v, we_work_id v) \<noteq> (store, i)) (work_events d)" by (simp add: delete_item_def)
  have ens: "filter (\<lambda>n. e_repository n = repo \<and> e_scope_target n = Some i \<and> e_type n = ''work-event'') (memory_entries ?d) = []"
    unfolding filter_empty_conv using en by blast
  show ?thesis by (rule exI[of _ ?d]) (intro conjI r inv none ev sco ens h it we)
qed


text \<open>A store with one item whose report waits, and one finished item past its retention.\<close>

definition demo_item :: "string \<Rightarrow> string \<Rightarrow> int \<Rightarrow> workItem" where
  "demo_item i lifecycle seq = (new_item ''s'' 0 0 (demo_worker ''alice'') demo_request 1)\<lparr>w_work_id := i, w_lifecycle := lifecycle,
     w_latest_seq := seq, w_proposed_role := None\<rparr>"

definition demo_reported :: db where
  "demo_reported = empty_db\<lparr>
     memory_stores := [\<lparr>ms_repository = ''/w/app/.git'', ms_store_id = ''s'', ms_head = 1, ms_floor = 0, ms_work_counter = 1,
       ms_claim_counter = 0, ms_library_floor = 0\<rparr>],
     work_items := [(demo_item (replicate 32 (CHR ''1'')) ''reported'' 1)\<lparr>w_report_seq := Some 1, w_report_consumer := Some ''alice'',
       w_verdict_credit := True\<rparr>]\<rparr>"

definition demo_accept :: workRequest where
  "demo_accept = (new_request ''work-accept'')\<lparr>q_present := [''work_id'', ''if_revision'', ''report_seq''],
     q_text := [''work_id'' \<mapsto> replicate 32 (CHR ''1'')], q_ints := [''if_revision'' \<mapsto> 1, ''report_seq'' \<mapsto> 1], q_refs := [''r'']\<rparr>"

lemma demo_accepted: "\<not> isl (apply_work demo_env ''s'' (demo_worker ''bob'') demo_accept 5 [] demo_reported)"
  by code_simp

text \<open>
  C31. A verdict decides exactly the current report, and only another worker gives it: an applied verdict
  found the item reported under the sequence the request names, by a consumer other than the caller,
  and leaves it finished and accepted, or open again and rejected, with the verdict's own sequence,
  the next revision and no verdict pending.
\<close>

theorem verdict_decides_report:
  assumes "apply_work e store m r now print d = Inr (y, d')" and "workVerdict (q_op r)"
  shows "\<exists>q w. item_row d store (text_of r ''work_id'') = Some q \<and> item_row d' store (text_of r ''work_id'') = Some w
    \<and> w_lifecycle q = ''reported'' \<and> w_report_consumer q \<noteq> Some (m_consumer m) \<and> w_report_seq q = Some (int_of r ''report_seq'')
    \<and> w_lifecycle w = (if q_op r = ''work-accept'' then ''finished'' else ''open'')
    \<and> w_verdict w = Some (if q_op r = ''work-accept'' then ''accepted'' else ''rejected'')
    \<and> w_verdict_seq w = Some (w_latest_seq w) \<and> w_revision w = w_revision q + 1 \<and> \<not> w_verdict_credit w"
proof -
  let ?i = "text_of r ''work_id''"
  from assms obtain q w seq where q: "current d store ?i now = Inr q" "lifecycle_guard (wk_ext e) m r q = Inr ()"
    and items: "work_items d' = update_where (\<lambda>p. w_store p = store \<and> w_work_id p = ?i) (\<lambda>p. stored p w) (work_items d)"
    and w: "w_lifecycle w = (if q_op r = ''work-accept'' then ''finished'' else ''open'')" "\<not> w_verdict_credit w"
      "w_verdict w = Some (if q_op r = ''work-accept'' then ''accepted'' else ''rejected'')" "w_verdict_seq w = Some seq" "w_latest_seq w = seq"
      "w_revision w = w_revision q + 1" "w_work_id w = ?i"
    by (rule verdict_applied)
  have row: "item_row d store ?i = Some q" using q(1) by (auto simp: current_def split: option.splits if_splits)
  have "item_row d' store ?i = Some (stored q w)"
    using row w(7) find_Some_mem[OF row[unfolded item_row_def]]
    unfolding item_row_def items by (subst find_update_where_if) auto
  then show ?thesis using row q(2) w assms(2) by (auto simp: lifecycle_guard_def requireVerdictCaller_def stored_def)
qed


theorem verdict_decides_report_witness:
  "\<exists>w y d'. apply_work demo_env ''s'' (demo_worker ''bob'') demo_accept 5 [] demo_reported = Inr (y, d')
     \<and> item_row d' ''s'' (replicate 32 (CHR ''1'')) = Some w \<and> w_lifecycle w = ''finished''"
proof -
  obtain y d' where a: "apply_work demo_env ''s'' (demo_worker ''bob'') demo_accept 5 [] demo_reported = Inr (y, d')"
    using demo_accepted by (metis isl_def prod.collapse sum.exhaust_sel)
  have v: "workVerdict (q_op demo_accept)" "q_op demo_accept = ''work-accept''" "text_of demo_accept ''work_id'' = replicate 32 (CHR ''1'')"
    by (simp_all add: demo_accept_def new_request_def workVerdict_def text_of_def)
  show ?thesis using verdict_decides_report[OF a v(1)] a v(2,3) by auto
qed

text \<open>
  C34. A worker cannot judge its own report: a verdict request of the reporting consumer, or of the native
  session that reported, is refused with \<open>own_report\<close> before anything is written, replayed or expired.
\<close>

theorem own_report_refused:
  assumes "workVerdict (q_op r)" and "storeOf d (m_repository m) \<noteq> []"
    and "current d (storeOf d (m_repository m)) (text_of r ''work_id'') now = Inr w"
    and "w_report_consumer w = Some (m_consumer m) \<or> (w_report_actor w = nativeWorkActor (wk_ext e) m \<and> w_report_actor w \<noteq> [])"
  shows "workMutation e g m r now t d
    = (t, Inl (workError ''own_report'' ''the reporting worker cannot record the verdict on its own report''), d)"
  using assms by (auto simp: workMutation_def own_report_check_def requireVerdictCaller_def guard_def Let_def)

theorem own_report_refused_witness:
  "workMutation demo_env None (demo_worker ''alice'') demo_accept 5 (\<lambda>_. 0) demo_reported
    = (\<lambda>_. 0, Inl (workError ''own_report'' ''the reporting worker cannot record the verdict on its own report''), demo_reported)"
proof (rule own_report_refused)
  show "workVerdict (q_op demo_accept)" by (simp add: demo_accept_def new_request_def workVerdict_def)
  show "storeOf demo_reported (m_repository (demo_worker ''alice'')) \<noteq> []" by code_simp
  show "current demo_reported (storeOf demo_reported (m_repository (demo_worker ''alice''))) (text_of demo_accept ''work_id'') 5
      = Inr (hd (work_items demo_reported))" by code_simp
  show "w_report_consumer (hd (work_items demo_reported)) = Some (m_consumer (demo_worker ''alice''))
     \<or> (w_report_actor (hd (work_items demo_reported)) = nativeWorkActor (wk_ext demo_env) (demo_worker ''alice'')
        \<and> w_report_actor (hd (work_items demo_reported)) \<noteq> [])" by code_simp
qed

section \<open>A store with a finished item\<close>

definition demo_view :: WorkView where
  "demo_view = \<lparr>v_item = demo_item (replicate 32 (CHR ''1'')) ''open'' 1, v_seq = 1, v_observed_at = 1, v_observed_lease_expires = None,
     v_current_claim = None, v_lease_valid = False, v_progress_overdue = False, v_progress_unverified = False,
     v_progress_unverified_reasons = [], v_scope_revisions = [1], v_criteria_changed_after_start = False, v_role_resolution = None,
     v_report = None, v_verdict_evidence = None\<rparr>"

definition demo_finished :: db where
  "demo_finished = demo_reported\<lparr>
     work_items := [(demo_item ''f'' ''finished'' 1)\<lparr>w_work_id := replicate 32 (CHR ''1''), w_outcome := Some ''completed'',
       w_finished_at := Some 1, w_expires_at := Some 2\<rparr>],
     work_scope_revisions := [\<lparr>sc_store = ''s'', sc_work_id = replicate 32 (CHR ''1''), sc_revision = 1, sc_ts = 1, sc_consumer = ''alice'',
       sc_author = None, sc_title = ''a'', sc_criteria = ''a'', sc_non_goals = ''a''\<rparr>],
     memory_entries := [event_entry (demo_worker ''alice'') 1 1 (demo_item (replicate 32 (CHR ''1'')) ''open'' 1) ''alice'' None],
     work_events := [event_row ''s'' (demo_worker ''alice'') (demo_item (replicate 32 (CHR ''1'')) ''open'' 1) ''created'' demo_view]\<rparr>"

lemmas demo_finished_defs = demo_finished_def demo_reported_def demo_item_def new_item_def demo_worker_def event_entry_def event_row_def empty_db_def

lemma demo_finished_inv: "work_inv 3 demo_finished"
proof (rule work_invI)
  show "stores_wf demo_finished" by (simp add: demo_finished_defs stores_wf_def heads_def)
  show "items_wf demo_finished" by (simp add: demo_finished_defs items_wf_def item_checks_def lifecycles_def)
  show "events_wf demo_finished" by (simp add: demo_finished_defs events_wf_def head_of_def heads_def item_key_def)
  show "history_ok demo_finished" by (simp add: demo_finished_defs history_ok_def traced_def pretraced_def events_of_def)
  show "stream_ok demo_finished" by (simp add: demo_finished_defs stream_ok_def heads_def stream_row_def)
  show "scopes_ok demo_finished" by (simp add: demo_finished_defs scopes_ok_def)
  show "claims_ok demo_finished" by (simp add: demo_finished_defs claims_ok_def)
  show "lease_inv 3 demo_finished" by (simp add: demo_finished_defs lease_inv_def lease_wf_def exclusive_def)
  show "credits_ok demo_finished"
    by (simp add: demo_finished_defs credits_ok_def credits_in_def sum_flags_def maxStoreVerdicts_def maxDaemonVerdicts_def)
qed

theorem finished_work_reclaimed_witness:
  "\<exists>d'. reclaim_item defaultMemoryLimits ''/w/app/.git'' (replicate 32 (CHR ''1'')) (Some 3) ''s'' demo_finished = Inr (True, d')
     \<and> work_items d' = []"
proof -
  let ?i = "replicate 32 (CHR ''1'')"
  have "repo_store demo_finished ''/w/app/.git'' ''s''" by (simp add: demo_finished_defs repo_store_def)
  moreover have "hd (work_items demo_finished) \<in> set (work_items demo_finished)" "item_key (hd (work_items demo_finished)) = (''s'', ?i)"
    "finished_by (Some 3) (hd (work_items demo_finished))" "bundleFor demo_finished ''s'' ?i = None"
    by (simp_all add: demo_finished_defs item_key_def finished_by_def bundleFor_def)
  moreover have "int (length (scopes_of demo_finished ''s'' ?i)) \<le> lm_work_scopes_per_item defaultMemoryLimits"
    "int (length (events_of demo_finished ''s'' ?i)) \<le> lm_work_events defaultMemoryLimits"
    by (simp_all add: demo_finished_defs scopes_of_def events_of_def defaultMemoryLimits_def)
  moreover have "filter (\<lambda>q. item_key q \<noteq> (''s'', ?i)) (work_items demo_finished) = []"
    by (simp add: demo_finished_defs item_key_def)
  note facts = calculation this
  obtain d' where "reclaim_item defaultMemoryLimits ''/w/app/.git'' ?i (Some 3) ''s'' demo_finished = Inr (True, d')"
    "work_items d' = filter (\<lambda>q. item_key q \<noteq> (''s'', ?i)) (work_items demo_finished)"
    using finished_work_reclaimed[OF demo_finished_inv facts(1-7)] by blast
  then show ?thesis using facts(8) by auto
qed

end
