(* ===== verification/Memory_Expiry.thy ===== *)
theory Memory_Expiry
  imports Memory Registry_Runs
begin

text \<open>
  The expiry loop of the memory store: it ends, and when every transaction commits it has removed exactly
  the entries of the repository whose time has passed.
\<close>

definition outlived :: "string \<Rightarrow> time \<Rightarrow> entryRow \<Rightarrow> bool" where
  "outlived repo now n \<longleftrightarrow> e_repository n = repo \<and> (case e_expires n of None \<Rightarrow> False | Some t \<Rightarrow> t < now)"

definition entry_key :: "entryRow \<Rightarrow> string \<times> int" where
  "entry_key n = (e_repository n, e_seq n)"

lemma expired_entries_alt: "expired_entries repo now d = take (nat expiry_batch) (sort_key e_seq (filter (outlived repo now) (memory_entries d)))"
  by (simp add: expired_entries_def outlived_def[abs_def])

text \<open>One batch: it removes outlived entries only, and all of them when it is not full.\<close>

lemma expire_entries_batch:
  assumes dist: "distinct (map entry_key (memory_entries d))" and e: "expire_entries x repo now d = Inr (n, d')"
  shows "filter (\<lambda>r. \<not> outlived repo now r) (memory_entries d') = filter (\<lambda>r. \<not> outlived repo now r) (memory_entries d)"
    "n < expiry_batch \<Longrightarrow> filter (outlived repo now) (memory_entries d') = []"
    "distinct (map entry_key (memory_entries d'))" "sessions d' = sessions d" "names d' = names d"
proof -
  let ?gone = "expired_entries repo now d"
  have d': "memory_entries d' = filter (\<lambda>r. \<not> (e_repository r = repo \<and> e_seq r \<in> set (map e_seq ?gone))) (memory_entries d)"
    and n: "n = int (length ?gone)"
    and frame: "sessions d' = sessions d" "names d' = names d"
    using e by (auto simp: expire_entries_def Let_def raise_floor_def split: if_splits)
  show "sessions d' = sessions d" "names d' = names d" by (rule frame)+
  show "distinct (map entry_key (memory_entries d'))" unfolding d' by (rule distinct_map_filter[OF dist])
  have gone: "g \<in> set (memory_entries d) \<and> outlived repo now g" if "g \<in> set ?gone" for g
    using in_set_takeD[OF that[unfolded expired_entries_alt]] by simp
  have hit: "r = g" if "r \<in> set (memory_entries d)" "g \<in> set ?gone" "e_repository r = repo" "e_seq r = e_seq g" for r g
    by (rule distinct_key_eq[OF dist that(1)]) (use gone[OF that(2)] that in \<open>simp_all add: entry_key_def outlived_def\<close>)
  have keep: "e_seq r \<notin> e_seq ` set ?gone" if "r \<in> set (memory_entries d)" "\<not> outlived repo now r" "e_repository r = repo" for r
  proof
    assume "e_seq r \<in> e_seq ` set ?gone"
    then obtain g where g: "g \<in> set ?gone" "e_seq r = e_seq g" by blast
    show False using hit[OF that(1) g(1) that(3) g(2)] gone[OF g(1)] that(2) by simp
  qed
  show "filter (\<lambda>r. \<not> outlived repo now r) (memory_entries d') = filter (\<lambda>r. \<not> outlived repo now r) (memory_entries d)"
    unfolding d' filter_filter by (rule filter_cong[OF refl]) (use keep in auto)
  assume small: "n < expiry_batch"
  have "length ?gone = min (nat expiry_batch) (length (filter (outlived repo now) (memory_entries d)))"
    by (simp add: expired_entries_alt min.commute)
  then have "?gone = sort_key e_seq (filter (outlived repo now) (memory_entries d))"
    using small n unfolding expired_entries_alt by (simp add: min_def split: if_splits)
  then have all: "set ?gone = {r \<in> set (memory_entries d). outlived repo now r}" by auto
  show "filter (outlived repo now) (memory_entries d') = []"
    unfolding filter_empty_conv
  proof
    fix r assume "r \<in> set (memory_entries d')"
    then have r: "r \<in> set (memory_entries d)" "\<not> (e_repository r = repo \<and> e_seq r \<in> e_seq ` set ?gone)" by (simp_all add: d')
    show "\<not> outlived repo now r"
    proof
      assume o: "outlived repo now r"
      then have "r \<in> set ?gone" using all r(1) by simp
      then show False using r(2) o by (simp add: outlived_def)
    qed
  qed
qed

lemma expire_entries_total: "\<exists>n d'. expire_entries x repo now d = Inr (n, d')"
  by (simp add: expire_entries_def Let_def)

text \<open>The environment in which the storage boundary admits every control write of the request.\<close>

definition admitted :: "wenv \<Rightarrow> MemoryCaller option \<Rightarrow> db \<Rightarrow> bool" where
  "admitted e g d \<longleftrightarrow> (\<forall>d. wk_admit e control d = Inr () \<and> wk_commit e control d = Inr ())
     \<and> (case g of None \<Rightarrow> True | Some m \<Rightarrow> requireParticipantCaller d (wk_now_ms e) m = Inr ())"

lemma caller_cong:
  assumes "sessions d' = sessions d" "names d' = names d"
  shows "requireParticipantCaller d' now m = requireParticipantCaller d now m"
proof -
  have "held_names d' now k = held_names d now k" for k using assms by (simp add: held_names_def holds_def)
  moreover have "staleHolder d' now k = staleHolder d now k" for k using assms by (simp add: staleHolder_def session_row_def)
  ultimately have "requireHolder d' now k a = requireHolder d now k a" for k a by (simp add: requireHolder_def heldAddress_def Let_def)
  then show ?thesis using assms(2) by (auto simp: requireParticipantCaller_def Let_def)
qed

lemma admitted_tx:
  assumes a: "admitted e g d" and b: "body d = Inr (n, d')"
  shows "write_tx e g control body d = (Inr n, d')"
  using a b by (auto simp: admitted_def write_tx_def split: option.splits)

lemma expire_loop_clean:
  assumes "admitted e g d" "distinct (map entry_key (memory_entries d))"
  shows "\<exists>d'. expire_loop e g repo now d = (Inr (), d') \<and> filter (outlived repo now) (memory_entries d') = []
    \<and> filter (\<lambda>r. \<not> outlived repo now r) (memory_entries d') = filter (\<lambda>r. \<not> outlived repo now r) (memory_entries d)"
  using assms
proof (induction e g repo now d rule: expire_loop.induct)
  case (1 e g repo now d)
  obtain n d1 where x: "expire_entries (wk_ext e) repo now d = Inr (n, d1)" using expire_entries_total by blast
  have tx: "write_tx e g control (expire_entries (wk_ext e) repo now) d = (Inr n, d1)" by (rule admitted_tx[OF "1.prems"(1)]) (rule x)
  note b = expire_entries_batch[OF "1.prems"(2) x]
  show ?case
  proof (cases "n < expiry_batch")
    case True
    then show ?thesis using b(1,2) tx by (simp add: expire_loop.simps[of e g repo now d])
  next
    case False
    have "admitted e g d1" using "1.prems"(1) caller_cong[OF b(4,5)] by (simp add: admitted_def split: option.splits)
    then show ?thesis
      using "1.IH"[OF tx[symmetric] refl False _ b(3)] b(1) tx False by (simp add: expire_loop.simps[of e g repo now d])
  qed
qed

text \<open>
  C36. Expiry ends with nothing left over: when the storage boundary admits the control writes and the
  caller keeps its role, the loop of batches terminates without an error, no entry of the repository
  whose time has passed remains, and every other entry stays, in order.
\<close>

theorem expiry_removes_exactly_outlived:
  assumes "admitted e g d" and "distinct (map entry_key (memory_entries d))"
  shows "\<exists>d'. expire_loop e g repo now d = (Inr (), d')
    \<and> memory_entries d' = filter (\<lambda>r. \<not> outlived repo now r) (memory_entries d)"
proof -
  obtain d' where d': "expire_loop e g repo now d = (Inr (), d')" "filter (outlived repo now) (memory_entries d') = []"
    "filter (\<lambda>r. \<not> outlived repo now r) (memory_entries d') = filter (\<lambda>r. \<not> outlived repo now r) (memory_entries d)"
    using expire_loop_clean[OF assms] by blast
  have "filter (\<lambda>r. \<not> outlived repo now r) (memory_entries d') = memory_entries d'"
    using d'(2) by (auto simp: filter_empty_conv filter_id_conv)
  then show ?thesis using d'(1,3) by auto
qed


definition demo_entry :: "int \<Rightarrow> time option \<Rightarrow> entryRow" where
  "demo_entry seq expires = \<lparr>e_repository = ''r'', e_seq = seq, e_ts = 1, e_type = ''note'', e_scope = ''repo'', e_scope_target = None,
     e_path = None, e_body = ''b'', e_author = None, e_writer_family = ''claude'', e_writer_name = ''n'', e_consumer = ''c'', e_revision = 1,
     e_supersedes = None, e_revokes = None, e_superseded_by = None, e_revoked_by = None, e_conflicts_with = None, e_expires = expires\<rparr>"

definition open_env :: wenv where
  "open_env = \<lparr>wk_ext = demo_ext, wk_limits = defaultMemoryLimits, wk_admit = (\<lambda>_ _. Inr ()), wk_commit = (\<lambda>_ _. Inr ()),
     wk_now_ms = 1000, wk_expiry_now = 1, wk_store_id = (\<lambda>_. ''s''), wk_process_start = (\<lambda>_. None)\<rparr>"

theorem expiry_removes_exactly_outlived_witness:
  "\<exists>d'. expire_loop open_env None ''r'' 10 (empty_db\<lparr>memory_entries := [demo_entry 1 (Some 5), demo_entry 2 None]\<rparr>) = (Inr (), d')
     \<and> memory_entries d' = [demo_entry 2 None]"
proof -
  let ?d = "empty_db\<lparr>memory_entries := [demo_entry 1 (Some 5), demo_entry 2 None]\<rparr>"
  have "admitted open_env None ?d" by (simp add: admitted_def open_env_def)
  moreover have "distinct (map entry_key (memory_entries ?d))" by (simp add: entry_key_def demo_entry_def)
  moreover have "filter (\<lambda>r. \<not> outlived ''r'' 10 r) (memory_entries ?d) = [demo_entry 2 None]"
    by (simp add: outlived_def demo_entry_def)
  ultimately show ?thesis using expiry_removes_exactly_outlived[of open_env None ?d "''r''" 10] by simp
qed

end
