(* ===== verification/Library.thy ===== *)
theory Library
  imports Work Launch
begin

text \<open>
  The adoption library: the catalog of \<^verbatim>\<open>internal/library\<close> as the daemon and the inspecting client read
  it (\<^verbatim>\<open>query.go\<close>, \<^verbatim>\<open>targets.go\<close>, \<^verbatim>\<open>decision.go\<close>, \<^verbatim>\<open>decision_current.go\<close>, \<^verbatim>\<open>facts.go\<close>), the machine decisions of
  \<^verbatim>\<open>internal/core/library_decision.go\<close> and the project receipts of \<^verbatim>\<open>internal/core/library_project.go\<close>.

  A machine decision is one row per family, root and item, replaced under a compared revision. A
  project receipt is a memory note; \<open>validateProjectDecision\<close> is the check that admits it. The catalog
  itself is built from embedded files (\<open>Build\<close>) and is an argument here. The encoder and the strict
  decoders of \<^verbatim>\<open>encoding/json\<close> for the library's types are the parameters of \<open>lib_ext\<close>.
\<close>

section \<open>The catalog\<close>

definition MaxItems :: nat where "MaxItems = 32"
definition MaxItemBytes :: int where "MaxItemBytes = 64 * 1024"
definition DefaultPageSize :: nat where "DefaultPageSize = 16"
definition MaxPageBytes :: int where "MaxPageBytes = 1024 * 1024"
definition MaxDecisionBytes :: int where "MaxDecisionBytes = 8192"
definition MaxTargets :: nat where "MaxTargets = 32"
definition DecisionMarker :: string where "DecisionMarker = ''koinon-library-decision''"
definition DecisionVersion :: int where "DecisionVersion = 1"

definition Families :: "string list" where
  "Families = [''agy'', ''claude'', ''codex'', ''deepseek'', ''grok'', ''opencode'']"

definition Features :: "string list" where
  "Features = [''peer-messaging'', ''work-claims'']"

record FactField =
  ff_heading :: string
  ff_required :: bool
  ff_default :: "string option"

record Facts =
  fa_version :: int
  fa_filename :: string
  fa_fields :: "FactField list"

record Destination =
  de_family :: string
  de_scope :: string
  de_root :: string
  de_path :: string
  de_discovery :: string
  de_evidence :: string

record Item =
  it_id :: string
  it_kind :: string
  it_name :: string
  it_description :: string
  it_purpose :: string
  it_requiring_release :: string
  it_feature_requirements :: "string list"
  it_destinations :: "Destination list"
  it_facts :: "Facts option"
  it_content :: string
  it_content_digest :: string

record Catalog =
  ca_version :: int
  ca_items :: "Item list"
  ca_digest :: string

record Link =
  li_path :: string
  li_target :: string

record Command =
  cm_path :: string
  cm_content :: string

record Target =
  ta_id :: string
  ta_path :: string
  ta_kind :: string
  ta_expected :: string

record TargetDigest =
  td_id :: string
  td_digest :: string

record Decision =
  dn_marker :: string
  dn_version :: int
  dn_item_id :: string
  dn_family :: string
  dn_scope :: string
  dn_scope_digest :: string
  dn_catalog_digest :: string
  dn_item_digest :: string
  dn_kind :: string
  dn_choice :: string
  dn_evidence :: string
  dn_before :: "TargetDigest list"
  dn_result :: "TargetDigest list"
  dn_adopted :: "TargetDigest list"
  dn_schema_digest :: string

record lib_ext =
  lx_ext :: ext
  lx_encode :: "Decision \<Rightarrow> string"
  lx_decode :: "string \<Rightarrow> Decision option"
  lx_facts_text :: "Facts \<Rightarrow> string"
  lx_links :: "string \<Rightarrow> Link list option"
  lx_commands :: "string \<Rightarrow> Command list option"
  lx_item_bytes :: "Item \<Rightarrow> nat"

definition ErrInvalidQuery :: kerror where "ErrInvalidQuery = ErrText ''invalid library query''"
definition ErrItemNotFound :: kerror where "ErrItemNotFound = ErrText ''library item not found''"
definition ErrUnsupportedScope :: kerror where "ErrUnsupportedScope = ErrText ''catalog item does not support this scope''"
definition ErrInvalidDecision :: kerror where "ErrInvalidDecision = ErrText ''invalid library decision''"

text \<open>The patterns \<open>itemID\<close>, \<open>digestPattern\<close> and \<open>targetPattern\<close>.\<close>

definition lower :: "char \<Rightarrow> bool" where "lower c \<longleftrightarrow> 97 \<le> byte c \<and> byte c \<le> 122"
definition decimal :: "char \<Rightarrow> bool" where "decimal c \<longleftrightarrow> 48 \<le> byte c \<and> byte c \<le> 57"
definition word_byte :: "char \<Rightarrow> bool" where "word_byte c \<longleftrightarrow> lower c \<or> decimal c \<or> c = CHR ''-''"

definition itemID :: "string \<Rightarrow> bool" where
  "itemID s \<longleftrightarrow> (\<exists>p\<in>set [''skill.'', ''setup.'']. has_prefix s p \<and>
     (let n = drop (length p) s in 1 \<le> length n \<and> length n \<le> 64 \<and> list_all word_byte n))"

definition ValidDigest :: "string \<Rightarrow> bool" where
  "ValidDigest v \<longleftrightarrow> length v = 64 \<and> list_all (\<lambda>c. decimal c \<or> (97 \<le> byte c \<and> byte c \<le> 102)) v"

definition target_part :: "string \<Rightarrow> bool" where
  "target_part s \<longleftrightarrow> s \<noteq> [] \<and> lower (hd s) \<and> length s \<le> 64 \<and> list_all word_byte (tl s)"

definition targetPattern :: "string \<Rightarrow> bool" where
  "targetPattern s \<longleftrightarrow> (let parts = split_byte CHR ''.'' s in length parts \<le> 2 \<and> list_all target_part parts)"

section \<open>Queries\<close>

definition forFamily :: "Item \<Rightarrow> string \<Rightarrow> Item" where
  "forFamily i family = i\<lparr>it_destinations := filter (\<lambda>t. de_family t = family) (it_destinations i)\<rparr>"

record Page =
  pg_version :: int
  pg_digest :: string
  pg_recommended_scope :: string
  pg_features :: "string list"
  pg_items :: "Item list"
  pg_more :: bool
  pg_next_after :: string

text \<open>The loop of \<open>List\<close> over the requested items: \<open>used\<close> bytes are taken.\<close>

fun list_items :: "lib_ext \<Rightarrow> string \<Rightarrow> int \<Rightarrow> Item list \<Rightarrow> kerror + Item list" where
  "list_items x family used [] = Inr []"
| "list_items x family used (i # is) =
     (let item = (forFamily i family)\<lparr>it_content := []\<rparr>; n = int (lx_item_bytes x item) in
      if n > MaxPageBytes - 4096 then Inl ErrInvalidQuery
      else if used + n + 1 > MaxPageBytes - 4096 then Inr []
      else rbind (list_items x family (used + n + 1) is) (\<lambda>rest. Inr (item # rest)))"

fun index_of :: "('a \<Rightarrow> bool) \<Rightarrow> 'a list \<Rightarrow> nat option" where
  "index_of P [] = None"
| "index_of P (a # as) = (if P a then Some 0 else map_option Suc (index_of P as))"

definition List_page :: "lib_ext \<Rightarrow> Catalog \<Rightarrow> string \<Rightarrow> string \<Rightarrow> int \<Rightarrow> kerror + Page" where
  "List_page x c family after limit =
     rbind (guard (family \<in> set Families \<and> 0 \<le> limit \<and> limit \<le> int MaxItems) ErrInvalidQuery) (\<lambda>_.
     let count = (if limit = 0 then DefaultPageSize else nat limit) in
     rbind (if after = [] then Inr 0
            else rbind (guard (itemID after) ErrInvalidQuery) (\<lambda>_.
              rbind (opt_err ErrInvalidQuery (index_of (\<lambda>i. it_id i = after) (ca_items c))) (\<lambda>n. Inr (n + 1)))) (\<lambda>start.
     let stop = min (start + count) (length (ca_items c)) in
     rbind (list_items x family 0 (take (stop - start) (drop start (ca_items c)))) (\<lambda>items.
     let end_at = start + length items; rest = end_at < length (ca_items c) in
     if rest \<and> end_at = 0 then Inl (ErrText ''runtime error: index out of range [-1]'')
     else Inr \<lparr>pg_version = ca_version c, pg_digest = ca_digest c, pg_recommended_scope = ''machine'', pg_features = Features,
          pg_items = items, pg_more = rest, pg_next_after = (if rest then it_id (ca_items c ! (end_at - 1)) else [])\<rparr>)))"

definition Read_item :: "Catalog \<Rightarrow> string \<Rightarrow> string \<Rightarrow> kerror + Item" where
  "Read_item c family i =
     rbind (guard (family \<in> set Families \<and> itemID i) ErrInvalidQuery) (\<lambda>_.
     rbind (opt_err ErrItemNotFound (List.find (\<lambda>t. it_id t = i) (ca_items c))) (\<lambda>t. Inr (forFamily t family)))"

section \<open>Targets\<close>

definition contains_any :: "string \<Rightarrow> string \<Rightarrow> bool" where
  "contains_any s bytes \<longleftrightarrow> (\<exists>c\<in>set s. c \<in> set bytes)"

definition safeCatalogPath :: "string \<Rightarrow> bool" where
  "safeCatalogPath name \<longleftrightarrow> name \<noteq> [] \<and> name \<noteq> ''.'' \<and> \<not> is_abs name \<and> path_clean name = name \<and> name \<noteq> ''..''
     \<and> \<not> has_prefix name ''../'' \<and> \<not> contains_any name [CHR 0x5C, CHR 0x00, CHR 0x0D, CHR 0x0A]"

definition link_names :: "(string \<times> string) list" where
  "link_names = [(''.agents/skills'', ''link.agents''), (''.codex/skills'', ''link.codex''), (''.claude/skills'', ''link.claude'')]"

fun link_targets :: "Link list \<Rightarrow> kerror + Target list" where
  "link_targets [] = Inr []"
| "link_targets (l # ls) =
     rbind (opt_err ErrInvalidQuery (map_of link_names (li_path l))) (\<lambda>name.
     rbind (guard (li_target l = ''../agents/skills'') ErrInvalidQuery) (\<lambda>_.
     rbind (link_targets ls) (\<lambda>rest. Inr (\<lparr>ta_id = name, ta_path = li_path l, ta_kind = ''link'', ta_expected = li_target l\<rparr> # rest))))"

fun command_targets :: "string list \<Rightarrow> Command list \<Rightarrow> kerror + Target list" where
  "command_targets seen [] = Inr []"
| "command_targets seen (c # cs) =
     (let name = trim_suffix (path_base (cm_path c)) ''.md''; i = ''command.'' @ name in
      if \<not> targetPattern i \<or> cm_path c \<noteq> ''.opencode/commands/'' @ name @ ''.md'' \<or> i \<in> set seen \<or> cm_content c = []
         \<or> int (length (cm_content c)) > MaxItemBytes then Inl ErrInvalidQuery
      else rbind (command_targets (i # seen) cs) (\<lambda>rest.
        Inr (\<lparr>ta_id = i, ta_path = cm_path c, ta_kind = ''file'', ta_expected = cm_content c\<rparr> # rest)))"

definition bounded_list :: "'a list option \<Rightarrow> kerror + 'a list" where
  "bounded_list r = (case r of None \<Rightarrow> Inl ErrInvalidQuery
     | Some xs \<Rightarrow> if xs = [] \<or> length xs > MaxTargets then Inl ErrInvalidQuery else Inr xs)"

definition item_targets :: "lib_ext \<Rightarrow> Item \<Rightarrow> string \<Rightarrow> kerror + Target list" where
  "item_targets x item path =
     (let whole = (\<lambda>i kind. Inr [\<lparr>ta_id = i, ta_path = path, ta_kind = kind, ta_expected = it_content item\<rparr>]) in
      if it_kind item = ''skill'' then whole ''skill'' ''file''
      else if it_id item = ''setup.discovery-links'' then rbind (bounded_list (lx_links x (it_content item))) link_targets
      else if it_id item = ''setup.opencode-commands'' then
        rbind (bounded_list (lx_commands x (it_content item))) (command_targets [])
      else if it_id item = ''setup.guidance'' then whole ''fragment'' ''fragment''
      else if it_id item \<in> {''setup.shared-instructions'', ''setup.permissions''} then whole ''file'' ''file''
      else Inl ErrInvalidQuery)"

definition Targets :: "lib_ext \<Rightarrow> Catalog \<Rightarrow> string \<Rightarrow> string \<Rightarrow> string \<Rightarrow> kerror + Target list" where
  "Targets x c family sc i =
     rbind (Read_item c family i) (\<lambda>item.
     rbind (opt_err ErrUnsupportedScope
              (List.find (\<lambda>t. de_scope t = sc \<and> de_discovery t \<noteq> ''collision-only'') (it_destinations item))) (\<lambda>t.
     rbind (guard (\<not> (sc = ''machine'' \<and> (de_discovery t \<noteq> ''verified'' \<or> de_root t \<noteq> ''codex-home''))) ErrUnsupportedScope) (\<lambda>_.
     rbind (guard (safeCatalogPath (de_path t)) ErrInvalidQuery) (\<lambda>_. item_targets x item (de_path t)))))"

fun collisions :: "string \<Rightarrow> Destination list \<Rightarrow> kerror + (string \<times> Target) list" where
  "collisions content [] = Inr []"
| "collisions content (t # ts) =
     (if de_scope t = ''machine'' \<and> de_discovery t \<noteq> ''verified'' \<and> de_discovery t \<noteq> ''collision-only'' then Inl ErrUnsupportedScope
      else if \<not> safeCatalogPath (de_path t) \<or> de_root t \<notin> {''worktree'', ''codex-home'', ''user-home''} then Inl ErrInvalidQuery
      else rbind (collisions content ts) (\<lambda>rest.
        Inr ((de_root t, \<lparr>ta_id = ''skill'', ta_path = de_path t, ta_kind = ''file'', ta_expected = content\<rparr>) # rest)))"

definition CollisionTargets :: "Catalog \<Rightarrow> string \<Rightarrow> string \<Rightarrow> kerror + (string \<times> Target) list" where
  "CollisionTargets c family i =
     rbind (Read_item c family i) (\<lambda>item.
     if it_kind item \<noteq> ''skill'' then Inr []
     else rbind (collisions (it_content item) (it_destinations item)) (\<lambda>r.
       if length r > MaxTargets then Inl ErrInvalidQuery else Inr r))"

definition CheckTargets :: "Target list \<Rightarrow> TargetDigest list \<Rightarrow> bool" where
  "CheckTargets declared recorded \<longleftrightarrow> list_all (\<lambda>t. td_id t \<in> set (map ta_id declared)) recorded"

section \<open>Decisions\<close>

fun valid_from :: "string list \<Rightarrow> TargetDigest list \<Rightarrow> bool" where
  "valid_from seen [] \<longleftrightarrow> True"
| "valid_from seen (t # ts) \<longleftrightarrow> targetPattern (td_id t) \<and> td_id t \<notin> set seen \<and> (td_digest t = [] \<or> ValidDigest (td_digest t))
     \<and> valid_from (td_id t # seen) ts"

definition validTargets :: "TargetDigest list \<Rightarrow> bool" where
  "validTargets ts \<longleftrightarrow> length ts \<le> MaxTargets \<and> valid_from [] ts"

definition Validate :: "Decision \<Rightarrow> bool" where
  "Validate d \<longleftrightarrow> dn_marker d = DecisionMarker \<and> dn_version d = DecisionVersion \<and> itemID (dn_item_id d)
     \<and> dn_family d \<in> set Families \<and> (dn_scope d = ''machine'' \<or> dn_scope d = ''project'')
     \<and> ValidDigest (dn_scope_digest d) \<and> ValidDigest (dn_catalog_digest d) \<and> ValidDigest (dn_item_digest d)
     \<and> (dn_choice d = ''adopted'' \<or> dn_choice d = ''declined'') \<and> (dn_kind d = ''item'' \<or> dn_kind d = ''repository-facts'')
     \<and> \<not> (dn_kind d = ''repository-facts'' \<and> (dn_scope d \<noteq> ''project'' \<or> \<not> ValidDigest (dn_schema_digest d)))
     \<and> \<not> (dn_kind d = ''item'' \<and> dn_schema_digest d \<noteq> []) \<and> valid_utf8 (dn_evidence d) \<and> trim_space (dn_evidence d) \<noteq> []
     \<and> length (dn_evidence d) \<le> 512 \<and> \<not> has_control (dn_evidence d)
     \<and> validTargets (dn_before d) \<and> validTargets (dn_result d) \<and> validTargets (dn_adopted d)
     \<and> \<not> (dn_choice d = ''adopted'' \<and> dn_result d = [])"

definition ParseDecision :: "lib_ext \<Rightarrow> string \<Rightarrow> Decision option" where
  "ParseDecision x data =
     (if data = [] \<or> int (length data) > MaxItemBytes \<or> \<not> valid_utf8 data then None
      else case lx_decode x data of None \<Rightarrow> None
        | Some d \<Rightarrow> if \<not> Validate d \<or> (dn_scope d = ''machine'' \<and> int (length data) > MaxDecisionBytes) then None else Some d)"

definition OrderedTargets :: "TargetDigest list \<Rightarrow> TargetDigest list" where
  "OrderedTargets ts = sort_key td_id ts"

definition canonical :: "Decision \<Rightarrow> Decision" where
  "canonical d = d\<lparr>dn_before := OrderedTargets (dn_before d), dn_result := OrderedTargets (dn_result d),
     dn_adopted := OrderedTargets (dn_adopted d)\<rparr>"

definition Encode :: "lib_ext \<Rightarrow> Decision \<Rightarrow> string option" where
  "Encode x d =
     (if \<not> Validate d then None
      else let data = lx_encode x (canonical d) in
        if int (length data) > MaxItemBytes \<or> (dn_scope d = ''machine'' \<and> int (length data) > MaxDecisionBytes) then None
        else Some data)"

definition library_digest :: "lib_ext \<Rightarrow> string \<Rightarrow> string" where
  "library_digest x data = hex_encode (sha256 (lx_ext x) data)"

definition FactsDigest :: "lib_ext \<Rightarrow> Facts option \<Rightarrow> string" where
  "FactsDigest x facts = (case facts of None \<Rightarrow> [] | Some f \<Rightarrow> library_digest x (lx_facts_text x f))"

definition facts_target :: Target where
  "facts_target = \<lparr>ta_id = ''facts'', ta_path = [], ta_kind = [], ta_expected = []\<rparr>"

definition within_targets :: "Target list \<Rightarrow> Decision \<Rightarrow> bool" where
  "within_targets ts d \<longleftrightarrow> CheckTargets ts (dn_before d) \<and> CheckTargets ts (dn_result d) \<and> CheckTargets ts (dn_adopted d)"

definition ValidateCurrent :: "lib_ext \<Rightarrow> Catalog \<Rightarrow> Decision \<Rightarrow> string \<Rightarrow> string \<Rightarrow> string \<Rightarrow> bool" where
  "ValidateCurrent x c d family sc scopeDigest \<longleftrightarrow>
     Validate d \<and> dn_family d = family \<and> dn_scope d = sc \<and> dn_scope_digest d = scopeDigest \<and> dn_catalog_digest d = ca_digest c
     \<and> (case Read_item c family (dn_item_id d) of Inl _ \<Rightarrow> False
        | Inr item \<Rightarrow> dn_item_digest d = it_content_digest item \<and>
            (if dn_kind d = ''repository-facts''
             then it_facts item \<noteq> None \<and> dn_schema_digest d = FactsDigest x (it_facts item) \<and> within_targets [facts_target] d
             else (case Targets x c family sc (dn_item_id d) of Inl _ \<Rightarrow> False
               | Inr ts \<Rightarrow> within_targets ts d \<and> \<not> (dn_choice d = ''adopted'' \<and> length (dn_result d) \<noteq> length ts))))"

definition PreserveBaseline :: "Decision \<Rightarrow> Decision option \<Rightarrow> Decision" where
  "PreserveBaseline d previous =
     d\<lparr>dn_adopted := (if dn_choice d = ''adopted'' then dn_result d
                       else case previous of Some p \<Rightarrow> dn_adopted p | None \<Rightarrow> [])\<rparr>"

section \<open>Machine decisions\<close>

definition maxMachineDecisions :: nat where "maxMachineDecisions = 256"
definition maxMachineDecisionBodies :: int where "maxMachineDecisionBodies = 2 * 1024 * 1024"

record LibraryDecisionRecord =
  lr_revision :: int
  lr_decision :: Decision
  lr_unchanged :: bool

definition library_key :: "libraryRow \<Rightarrow> string \<times> string \<times> string" where
  "library_key r = (ld_family r, ld_root_digest r, ld_item_id r)"

definition library_row :: "db \<Rightarrow> string \<times> string \<times> string \<Rightarrow> libraryRow option" where
  "library_row d k = List.find (\<lambda>r. library_key r = k) (library_decisions d)"

definition machineDecision :: "lib_ext \<Rightarrow> db \<Rightarrow> string \<Rightarrow> string \<Rightarrow> string \<Rightarrow> kerror + LibraryDecisionRecord option" where
  "machineDecision x d family rt item =
     (case library_row d (family, rt, item) of None \<Rightarrow> Inr None
      | Some r \<Rightarrow> (case ParseDecision x (ld_body r) of
          None \<Rightarrow> Inl (memoryError ''decision_unavailable'' ''the retained machine decision is invalid'')
        | Some n \<Rightarrow> Inr (Some \<lparr>lr_revision = ld_revision r, lr_decision = n, lr_unchanged = False\<rparr>)))"

definition LibraryDecisionRead :: "lib_ext \<Rightarrow> int \<Rightarrow> Key \<Rightarrow> string \<Rightarrow> string \<Rightarrow> db \<Rightarrow> kerror + LibraryDecisionRecord option" where
  "LibraryDecisionRead x now caller rt item d =
     (if \<not> ValidDigest rt \<or> item = [] \<or> length item > 128 then Inl ErrInvalid
      else rbind (activeCaller d now caller False) (\<lambda>_. machineDecision x d (k_family caller) rt item))"

text \<open>The table constraints and the upsert of \<open>library_decisions\<close>.\<close>

definition library_ok :: "libraryRow \<Rightarrow> bool" where
  "library_ok r \<longleftrightarrow> length (ld_root_digest r) = 64 \<and> ld_revision r > 0 \<and> length (ld_body r) \<le> 8192"

definition upsert_decision :: "libraryRow \<Rightarrow> db \<Rightarrow> kerror + db" where
  "upsert_decision r d =
     (if \<not> library_ok r then Inl ErrConstraint
      else Inr (d\<lparr>library_decisions := (case library_row d (library_key r) of
          None \<Rightarrow> library_decisions d @ [r]
        | Some _ \<Rightarrow> update_where (\<lambda>q. library_key q = library_key r) (\<lambda>_. r) (library_decisions d))\<rparr>))"

definition write_decision ::
  "lib_ext \<Rightarrow> wenv \<Rightarrow> time \<Rightarrow> Key \<Rightarrow> string \<Rightarrow> LibraryDecisionRecord option \<Rightarrow> Decision \<Rightarrow> string \<Rightarrow> db
     \<Rightarrow> kerror + (LibraryDecisionRecord \<times> db)" where
  "write_decision x e now caller rt held n body d =
     rbind (activeCaller d (wk_now_ms e) caller False) (\<lambda>_.
     let bytes = total (\<lambda>r. int (length (ld_body r))) (library_decisions d);
         actual = (case held of None \<Rightarrow> 0 | Some c \<Rightarrow> lr_revision c);
         freed = (case held of None \<Rightarrow> 0
                  | Some c \<Rightarrow> (case Encode x (lr_decision c) of None \<Rightarrow> 0 | Some old \<Rightarrow> int (length old)))
     in
     rbind (guard (\<not> (held = None \<and> length (library_decisions d) \<ge> maxMachineDecisions))
              (memoryError ''decision_capacity'' ''machine decision row capacity reached'')) (\<lambda>_.
     rbind (guard (\<not> bytes - freed + int (length body) > maxMachineDecisionBodies)
              (memoryError ''decision_capacity'' ''machine decision body capacity reached'')) (\<lambda>_.
     rbind (upsert_decision \<lparr>ld_family = k_family caller, ld_root_digest = rt, ld_item_id = dn_item_id n,
              ld_revision = actual + 1, ld_body = body, ld_writer = nativeWorkActorForKey (lx_ext x) caller, ld_updated_at = now\<rparr> d) (\<lambda>d1.
     Inr (\<lparr>lr_revision = actual + 1, lr_decision = n, lr_unchanged = False\<rparr>, d1)))))"

definition LibraryDecision ::
  "lib_ext \<Rightarrow> wenv \<Rightarrow> time \<Rightarrow> Key \<Rightarrow> Catalog \<Rightarrow> string \<Rightarrow> int \<Rightarrow> Decision \<Rightarrow> db \<Rightarrow> LibraryDecisionRecord answer" where
  "LibraryDecision x e now caller catalog rt compared n d =
     (if compared < 0 \<or> \<not> ValidDigest rt \<or> \<not> ValidateCurrent x catalog n (k_family caller) ''machine'' rt
      then (Inl (memoryError ''invalid_library_decision'' ''the decision must match this native family, scope and installed catalog''), d)
      else case rbind (activeCaller d (wk_now_ms e) caller False) (\<lambda>_.
                machineDecision x d (k_family caller) rt (dn_item_id n)) of
        Inl err \<Rightarrow> (Inl err, d)
      | Inr held \<Rightarrow>
          let n1 = PreserveBaseline n (map_option lr_decision held) in
          (case Encode x n1 of
             None \<Rightarrow> (Inl (memoryError ''invalid_library_decision'' ''invalid or oversized machine decision''), d)
           | Some body \<Rightarrow>
               (case held of
                  None \<Rightarrow> if compared \<noteq> 0 then (Inl (workError ''decision_conflict'' ''the machine decision changed; read current state''), d)
                          else write_tx e None ordinary (write_decision x e now caller rt None n1 body) d
                | Some c \<Rightarrow>
                    (case Encode x (lr_decision c) of
                       None \<Rightarrow> (Inl ErrInvalidDecision, d)
                     | Some old \<Rightarrow>
                         if old = body then (Inr (c\<lparr>lr_unchanged := True\<rparr>), d)
                         else if lr_revision c \<noteq> compared
                         then (Inl (workError ''decision_conflict'' ''the machine decision changed; read current state''), d)
                         else write_tx e None ordinary (write_decision x e now caller rt (Some c) n1 body) d))))"

section \<open>Project receipts\<close>

record MemoryRecordRequest =
  mr_type :: string
  mr_body :: string
  mr_scope :: string
  mr_scope_target :: "string option"
  mr_path :: "string option"
  mr_author :: "string option"
  mr_supersedes :: "int option"
  mr_revokes :: "int option"
  mr_expires :: "time option"
  mr_key :: "string option"
  mr_deadline :: "time option"

definition entry_row :: "db \<Rightarrow> string \<Rightarrow> int \<Rightarrow> entryRow option" where
  "entry_row d repo seq = List.find (\<lambda>n. e_repository n = repo \<and> e_seq n = seq) (memory_entries d)"

definition ScopeDigest :: "lib_ext \<Rightarrow> string \<Rightarrow> string \<Rightarrow> string" where
  "ScopeDigest x sc rt = library_digest x (json_text (lx_ext x) [sc, rt])"

definition validateProjectDecision :: "lib_ext \<Rightarrow> kerror + Catalog \<Rightarrow> MemoryCaller \<Rightarrow> MemoryRecordRequest \<Rightarrow> db \<Rightarrow> kerror + unit" where
  "validateProjectDecision x catalog m r d =
     (if \<not> libraryDecisionMarked (lx_ext x) (mr_body r) then Inr ()
      else case ParseDecision x (mr_body r) of
        None \<Rightarrow> Inl (memoryError ''invalid_library_decision'' ''a library receipt must be a project decision from its native family'')
      | Some n \<Rightarrow>
          rbind (guard (mr_type r = ''decision'' \<and> mr_scope r = ''repo'' \<and> m_family m = dn_family n \<and> dn_scope n = ''project'')
                   (memoryError ''invalid_library_decision'' ''a library receipt must be a project decision from its native family'')) (\<lambda>_.
          rbind catalog (\<lambda>c.
          rbind (guard (ValidateCurrent x c n (m_family m) ''project'' (ScopeDigest x ''project'' (m_repository m)))
                   (memoryError ''invalid_library_decision'' ''the receipt must match this repository and installed catalog'')) (\<lambda>_.
          rbind (case mr_supersedes r of None \<Rightarrow> Inr None
                 | Some seq \<Rightarrow>
                     rbind (opt_err (memoryError ''decision_unavailable'' ''the replaced receipt is unavailable'')
                              (entry_row d (m_repository m) seq)) (\<lambda>row.
                     case ParseDecision x (e_body row) of
                       None \<Rightarrow> Inl (memoryError ''invalid_library_decision'' ''the replaced entry must be this item and scope's receipt'')
                     | Some old \<Rightarrow>
                         rbind (guard (e_writer_family row = m_family m \<and> dn_family old = e_writer_family row
                                  \<and> dn_scope_digest old = dn_scope_digest n \<and> dn_item_id old = dn_item_id n \<and> dn_kind old = dn_kind n)
                             (memoryError ''invalid_library_decision'' ''the replaced entry must be this item and scope's receipt'')) (\<lambda>_.
                         Inr (Some old)))) (\<lambda>previous.
          guard (OrderedTargets (dn_adopted n) = OrderedTargets (dn_adopted (PreserveBaseline n previous)))
            (memoryError ''invalid_library_decision''
               ''a decline retains the replaced receipt's adopted digests; adoption records its result digests''))))))"

text \<open>\<open>body LIKE '%' || query || '%'\<close> with the query escaped: SQLite folds the case of ASCII letters.\<close>

definition fold_case :: "char \<Rightarrow> char" where
  "fold_case c = (if 65 \<le> byte c \<and> byte c \<le> 90 then char_of (byte c + 32) else c)"

definition like_contains :: "string \<Rightarrow> string \<Rightarrow> bool" where
  "like_contains query body \<longleftrightarrow>
     (let q = map fold_case query; b = map fold_case body in \<exists>n\<in>set [0..<length b + 1]. has_prefix (drop n b) q)"

text \<open>One unavailable receipt: item, family, sc digest, kind and reason.\<close>

type_synonym libraryUnavailableReceipt = "string \<times> string \<times> string \<times> string \<times> string"

fun receipts :: "lib_ext \<Rightarrow> (string \<times> string \<times> string \<times> string) list \<Rightarrow> libraryUnavailableReceipt list \<Rightarrow> entryRow list
    \<Rightarrow> libraryUnavailableReceipt list \<times> bool" where
  "receipts x seen out [] = (out, False)"
| "receipts x seen out (row # rows) =
     (case ParseDecision x (e_body row) of None \<Rightarrow> receipts x seen out rows
      | Some n \<Rightarrow>
          let k = (dn_item_id n, e_writer_family row, dn_scope_digest n, dn_kind n) in
          if dn_family n \<noteq> e_writer_family row \<or> dn_scope n \<noteq> ''project'' \<or> k \<in> set seen then receipts x seen out rows
          else if length out \<ge> MaxItems * 2 then (out, True)
          else receipts x (k # seen) (out @ [(dn_item_id n, e_writer_family row, dn_scope_digest n, dn_kind n,
                 if e_revoked_by row \<noteq> None then ''decision_revoked'' else ''decision_expired'')]) rows)"

definition libraryReceiptHistory :: "lib_ext \<Rightarrow> time \<Rightarrow> MemoryCaller \<Rightarrow> db
    \<Rightarrow> int \<times> libraryUnavailableReceipt list \<times> bool" where
  "libraryReceiptHistory x now m d =
     (let library_low = foldr max (map ms_library_floor (filter (\<lambda>s. ms_repository s = m_repository m) (memory_stores d))) 0;
          inactive = filter (\<lambda>n. e_repository n = m_repository m \<and> e_type n = ''decision'' \<and> e_superseded_by n = None
            \<and> (e_revoked_by n \<noteq> None \<or> (case e_expires n of None \<Rightarrow> False | Some t \<Rightarrow> t \<le> now)) \<and> like_contains DecisionMarker (e_body n))
            (memory_entries d)
      in (library_low, receipts x [] [] (rev (sort_key e_seq inactive))))"

end
