(* ===== verification/Memory_Notes.thy ===== *)
theory Memory_Notes
  imports Library
begin

text \<open>
  Notes of the memory store (\<^verbatim>\<open>internal/core/memory.go\<close>): recording a note, the cursors and snapshots of
  its consumers, delivery by snapshot pages and delta batches, acknowledgement, literal recall and
  the status of a store.

  A consumer's cursor holds the last sequence it acknowledged and the last one issued to it. A new
  consumer, one whose cursor fell behind the floor, or one whose snapshot lapsed is given a snapshot:
  a frozen copy that it reads in pages and acknowledges as a whole. After that it reads deltas, the
  entries after its cursor, and acknowledges any issued prefix of them. Reading moves no cursor.

  A request runs several transactions in the daemon's \<open>op\<close> lock, so its transactions are not
  interleaved with those of other note requests. The clock is read once per request here. The text of
  an entry and of a work view is \<^verbatim>\<open>encoding/json.Marshal\<close> of it (\<open>nv_entry_text\<close>, \<open>nv_view_text\<close>), and
  \<open>nv_snapshot_id\<close> is the drawn \<open>randomID\<close> of a snapshot. \<open>nv_reclaim\<close> is the answer of \<open>reclaim\<close>, the
  vacuum and log reset that change no row.
\<close>

section \<open>Types and environment\<close>

definition memoryTypes :: "(string \<times> int) list" where
  "memoryTypes = [(''directive'', 0), (''decision'', 1), (''gotcha'', 2), (''handoff'', 3), (''finding'', 4), (''status'', 5)]"

definition memoryTails :: "(string \<times> nat) list" where
  "memoryTails = [(''finding'', 25), (''handoff'', 25), (''status'', 10)]"

definition type_rank :: "string \<Rightarrow> int" where
  "type_rank t = (case map_of memoryTypes t of None \<Rightarrow> 0 | Some r \<Rightarrow> r)"

text \<open>An entry as it is delivered: the row, and the immutable payload of a work event.\<close>

record MemoryEntry =
  me_row :: entryRow
  me_event_kind :: string
  me_work_id :: string
  me_payload :: "WorkView option"
  me_actor :: string

record MemoryRecordResult =
  mq_seq :: int
  mq_duplicate :: bool
  mq_conflicts_with :: "int option"
  mq_deadline :: "time option"
  mq_horizon :: "time option"

record note_env =
  nv_wenv :: wenv
  nv_lib :: lib_ext
  nv_catalog :: "kerror + Catalog"
  nv_clock :: time
  nv_entry_text :: "MemoryEntry \<Rightarrow> string"
  nv_view_text :: "WorkView \<Rightarrow> string"
  nv_consumer_bytes :: "int \<Rightarrow> cursorRow \<Rightarrow> nat"
  nv_snapshot_id :: "db \<Rightarrow> string"
  nv_reclaim :: "db \<Rightarrow> kerror + unit"

abbreviation nv_ext :: "note_env \<Rightarrow> ext" where
  "nv_ext e \<equiv> wk_ext (nv_wenv e)"

abbreviation nv_limits :: "note_env \<Rightarrow> memoryLimits" where
  "nv_limits e \<equiv> wk_limits (nv_wenv e)"

definition plain_entry :: "entryRow \<Rightarrow> MemoryEntry" where
  "plain_entry n = \<lparr>me_row = n, me_event_kind = [], me_work_id = [], me_payload = None, me_actor = []\<rparr>"

section \<open>Writes\<close>

text \<open>\<open>participantCall\<close>: the request's context carries a participant's caller, checked at once.\<close>

definition participant_guard :: "MemoryCaller \<Rightarrow> MemoryCaller option" where
  "participant_guard m = (if \<not> isParticipantID (m_consumer m) \<or> m_family m = k_family maintainerKey then None else Some m)"

definition participantCall :: "note_env \<Rightarrow> MemoryCaller \<Rightarrow> db \<Rightarrow> kerror + unit" where
  "participantCall e m d = (case participant_guard m of None \<Rightarrow> Inr () | Some g \<Rightarrow> requireParticipantCaller d (wk_now_ms (nv_wenv e)) g)"

definition refusal_of :: "note_env \<Rightarrow> string \<Rightarrow> writeClass \<Rightarrow> int \<Rightarrow> int \<Rightarrow> db \<Rightarrow> kerror + unit" where
  "refusal_of e repo cls need slots d =
     exceeded (nv_limits e) (usage (nv_ext e) d repo) (caps (nv_limits e) cls (storeDebt d repo)) need slots"

text \<open>The admission loop of \<open>memoryWrite\<close>: a refused write expires and reclaims once.\<close>

definition admit_note :: "note_env \<Rightarrow> MemoryCaller option \<Rightarrow> string \<Rightarrow> writeClass \<Rightarrow> int \<Rightarrow> int \<Rightarrow> db \<Rightarrow> unit answer" where
  "admit_note e g repo cls need slots d =
     (case refusal_of e repo cls need slots d of
        Inr _ \<Rightarrow> (Inr (), d)
      | Inl _ \<Rightarrow> and_then (expireMemory (nv_wenv e) g repo d) (\<lambda>_ d1.
          and_then (nv_reclaim e d1, d1) (\<lambda>_ d2. (refusal_of e repo cls need slots d2, d2))))"

definition own_cursor :: "string \<Rightarrow> string \<Rightarrow> cursorRow \<Rightarrow> bool" where
  "own_cursor repo consumer c \<longleftrightarrow> cu_repository c = repo \<and> cu_consumer c = consumer"

definition set_cursor :: "string \<Rightarrow> string \<Rightarrow> (cursorRow \<Rightarrow> cursorRow) \<Rightarrow> db \<Rightarrow> db" where
  "set_cursor repo consumer f d = d\<lparr>memory_cursors := update_where (own_cursor repo consumer) f (memory_cursors d)\<rparr>"

definition note_actor :: "MemoryCaller option \<Rightarrow> string \<Rightarrow> db \<Rightarrow> db" where
  "note_actor g repo d = (case g of None \<Rightarrow> d
     | Some m \<Rightarrow> set_cursor repo (m_consumer m) (\<lambda>c. c\<lparr>cu_actor := nativeActor m\<rparr>) d)"

definition memoryWrite ::
  "note_env \<Rightarrow> MemoryCaller option \<Rightarrow> string \<Rightarrow> writeClass \<Rightarrow> int \<Rightarrow> int \<Rightarrow> (db \<Rightarrow> kerror + ('a \<times> db)) \<Rightarrow> db \<Rightarrow> 'a answer" where
  "memoryWrite e g repo cls need slots body d =
     and_then (admit_note e g repo cls need slots d) (\<lambda>_.
       write_tx (nv_wenv e) g cls (\<lambda>d0.
         rbind (body (ensure_store repo (wk_store_id (nv_wenv e) d0) d0)) (\<lambda>(a, d1).
         let d2 = note_actor g repo d1 in
         rbind (enforce (nv_ext e) (nv_limits e) cls repo d2) (\<lambda>_. Inr (a, d2)))))"

definition memoryProgress ::
  "note_env \<Rightarrow> MemoryCaller option \<Rightarrow> string \<Rightarrow> (db \<Rightarrow> db) \<Rightarrow> db \<Rightarrow> unit answer" where
  "memoryProgress e g repo f d = memoryWrite e g repo control 0 0 (\<lambda>d0. Inr ((), f d0)) d"

section \<open>Recording\<close>

definition nonzero :: "int option \<Rightarrow> int option" where
  "nonzero v = (if v = Some 0 then None else v)"

definition probe_entry :: "MemoryCaller \<Rightarrow> MemoryRecordRequest \<Rightarrow> MemoryEntry" where
  "probe_entry m r = plain_entry
     \<lparr>e_repository = [], e_seq = 0, e_ts = 0, e_type = mr_type r, e_scope = mr_scope r, e_scope_target = mr_scope_target r,
      e_path = mr_path r, e_body = mr_body r, e_author = mr_author r, e_writer_family = m_family m, e_writer_name = m_name m,
      e_consumer = m_consumer m, e_revision = 1, e_supersedes = mr_supersedes r, e_revokes = mr_revokes r,
      e_superseded_by = None, e_revoked_by = None, e_conflicts_with = None, e_expires = mr_expires r\<rparr>"

text \<open>The checks of \<open>MemoryRecord\<close> before it reads the database, and the request it goes on with.\<close>

definition check_content :: "note_env \<Rightarrow> MemoryRecordRequest \<Rightarrow> kerror + unit" where
  "check_content e r =
     (if map_of memoryTypes (mr_type r) = None then Inl (memoryError ''invalid_request'' ''unknown entry type'')
      else if mr_scope r \<notin> {''repo'', ''task'', ''session''} then Inl (memoryError ''invalid_request'' ''unknown scope'')
      else if mr_scope r \<noteq> ''repo'' \<and> (mr_scope_target r = None \<or> mr_scope_target r = Some [])
        then Inl (memoryError ''invalid_request'' (''scope '' @ mr_scope r @ '' requires a scope target''))
      else if trim_space (mr_body r) = [] then Inl (memoryError ''invalid_request'' ''the body is empty'')
      else if int (length (mr_body r)) > lm_body (nv_limits e)
        then Inl (memoryError ''entry_too_large'' (''the body exceeds '' @ show_int (lm_body (nv_limits e)) @ '' bytes''))
      else Inr ())"

definition check_retry :: "note_env \<Rightarrow> MemoryRecordRequest \<Rightarrow> kerror + unit" where
  "check_retry e r =
     (case mr_key r of None \<Rightarrow> Inr ()
      | Some k \<Rightarrow>
          if k = [] \<or> length k > 256 then Inl (memoryError ''invalid_request'' ''an idempotency key is 1 to 256 bytes'')
          else case mr_deadline r of
            None \<Rightarrow> Inl (memoryError ''invalid_request'' ''a keyed write needs a finite deadline fixed before the first send'')
          | Some t \<Rightarrow>
              if t > nv_clock e + lm_idem_ttl (nv_limits e)
              then Inl (memoryError ''invalid_request'' (''the deadline must be a Unix time in seconds at most ''
                          @ show_int \<lfloor>lm_idem_ttl (nv_limits e)\<rfloor> @ '' s ahead''))
              else if t \<le> nv_clock e
              then Inl (memoryError ''retry_deadline_expired'' ''the retry deadline has passed; the first attempt's outcome is unknown'')
              else Inr ())"

definition check_note :: "note_env \<Rightarrow> MemoryCaller \<Rightarrow> MemoryRecordRequest \<Rightarrow> kerror + MemoryRecordRequest" where
  "check_note e m r0 =
     (let r1 = (if mr_scope r0 = [] then r0\<lparr>mr_scope := ''repo''\<rparr> else r0);
          r = r1\<lparr>mr_supersedes := nonzero (mr_supersedes r1), mr_revokes := nonzero (mr_revokes r1)\<rparr> in
      rbind (check_content e r1) (\<lambda>_.
      rbind (guard (\<not> (mr_supersedes r \<noteq> None \<and> mr_revokes r \<noteq> None))
               (memoryError ''invalid_request'' ''an entry supersedes or revokes, not both'')) (\<lambda>_.
      rbind (guard (\<not> int (length (nv_entry_text e (probe_entry m r))) + 1 > lm_frame_budget (nv_limits e))
               (memoryError ''entry_too_large'' ''this entry could never be delivered in one page'')) (\<lambda>_.
      rbind (check_retry e r) (\<lambda>_. Inr r)))))"

definition opt_json :: "('a \<Rightarrow> json) \<Rightarrow> 'a option \<Rightarrow> json" where
  "opt_json f v = (case v of None \<Rightarrow> JNull | Some a \<Rightarrow> f a)"

definition note_fingerprint :: "ext \<Rightarrow> MemoryRecordRequest \<Rightarrow> string" where
  "note_fingerprint x r = hex_encode (sha256 x (json_encode x (JObj
     [(''author'', opt_json JStr (mr_author r)), (''body'', JStr (mr_body r)), (''expires'', opt_json JFloat (mr_expires r)),
      (''path'', opt_json JStr (mr_path r)), (''revokes'', opt_json JInt (mr_revokes r)), (''scope'', JStr (mr_scope r)),
      (''scope_target'', opt_json JStr (mr_scope_target r)), (''supersedes'', opt_json JInt (mr_supersedes r)),
      (''type'', JStr (mr_type r))])))"

definition idem_row :: "db \<Rightarrow> string \<Rightarrow> string \<Rightarrow> string \<Rightarrow> idemRow option" where
  "idem_row d repo consumer k = List.find (\<lambda>i. id_repository i = repo \<and> id_consumer i = consumer \<and> id_key i = k) (memory_idem d)"

definition duplicate :: "db \<Rightarrow> MemoryCaller \<Rightarrow> MemoryRecordRequest \<Rightarrow> string \<Rightarrow> kerror + MemoryRecordResult option" where
  "duplicate d m r print =
     (case mr_key r of None \<Rightarrow> Inr None
      | Some k \<Rightarrow> (case idem_row d (m_repository m) (m_consumer m) k of
          None \<Rightarrow> Inr None
        | Some i \<Rightarrow>
            if id_scheme i \<noteq> fingerprintScheme \<or> id_fingerprint i \<noteq> print
            then Inl (memoryError ''idempotency_conflict'' ''this key was used with different content'')
            else if Some (id_deadline i) \<noteq> mr_deadline r
            then Inl (memoryError ''idempotency_conflict'' ''this key was used with a different retry deadline'')
            else Inr (Some \<lparr>mq_seq = id_seq i, mq_duplicate = True, mq_conflicts_with = None, mq_deadline = mr_deadline r, mq_horizon = None\<rparr>)))"

definition note_target :: "MemoryRecordRequest \<Rightarrow> int option" where
  "note_target r = (if mr_revokes r \<noteq> None then mr_revokes r else mr_supersedes r)"

text \<open>The target's revision, and the earlier replacement a competing one conflicts with.\<close>

definition target_state :: "db \<Rightarrow> string \<Rightarrow> int option \<Rightarrow> kerror + (int \<times> int option)" where
  "target_state d repo target =
     (case target of None \<Rightarrow> Inr (1, None)
      | Some seq \<Rightarrow> (case entry_row d repo seq of
          None \<Rightarrow> Inl (memoryError ''no_such_entry'' (''entry '' @ show_int seq @ '' does not exist''))
        | Some n \<Rightarrow>
            if e_type n = ''work-event'' then Inl (memoryError ''invalid_request'' ''notes cannot replace work events'')
            else Inr (e_revision n + 1, if e_superseded_by n \<noteq> None then e_superseded_by n else e_revoked_by n)))"

definition advance_repo :: "string \<Rightarrow> db \<Rightarrow> kerror + (int \<times> db)" where
  "advance_repo repo d =
     rbind (opt_err ErrNoRows (List.find (\<lambda>m. ms_repository m = repo) (memory_stores d))) (\<lambda>m.
       if ms_head m \<ge> maxInt64 then Inl (ErrText ''converting a head to int64'')
       else Inr (ms_head m + 1, d\<lparr>memory_stores := update_where (\<lambda>q. ms_repository q = repo)
              (\<lambda>q. q\<lparr>ms_head := ms_head q + 1\<rparr>) (memory_stores d)\<rparr>))"

definition note_row :: "note_env \<Rightarrow> MemoryCaller \<Rightarrow> MemoryRecordRequest \<Rightarrow> int \<Rightarrow> int \<Rightarrow> int option \<Rightarrow> entryRow" where
  "note_row e m r seq revision conflict =
     (me_row (probe_entry m r))\<lparr>e_repository := m_repository m, e_seq := seq, e_ts := nv_clock e, e_revision := revision,
        e_conflicts_with := conflict\<rparr>"

definition mark_target :: "string \<Rightarrow> MemoryRecordRequest \<Rightarrow> int \<Rightarrow> int option \<Rightarrow> db \<Rightarrow> db" where
  "mark_target repo r seq conflict d =
     (case note_target r of None \<Rightarrow> d
      | Some t \<Rightarrow> if conflict \<noteq> None then d
          else d\<lparr>memory_entries := update_where (\<lambda>n. e_repository n = repo \<and> e_seq n = t)
                 (\<lambda>n. if mr_revokes r \<noteq> None then n\<lparr>e_revoked_by := Some seq\<rparr> else n\<lparr>e_superseded_by := Some seq\<rparr>) (memory_entries d)\<rparr>)"

definition idem_ok :: "idemRow \<Rightarrow> idemRow list \<Rightarrow> bool" where
  "idem_ok i t \<longleftrightarrow> fresh_key (\<lambda>q. (id_repository q, id_consumer q, id_key q)) i t"

definition remember_key :: "note_env \<Rightarrow> MemoryCaller \<Rightarrow> MemoryRecordRequest \<Rightarrow> string \<Rightarrow> int \<Rightarrow> db \<Rightarrow> kerror + db" where
  "remember_key e m r print seq d =
     (case (mr_key r, mr_deadline r) of
        (Some k, Some t) \<Rightarrow>
          rbind (insert_row ErrConstraint idem_ok
                   \<lparr>id_repository = m_repository m, id_consumer = m_consumer m, id_key = k, id_scheme = fingerprintScheme,
                    id_fingerprint = print, id_seq = seq, id_ts = nv_clock e, id_deadline = t\<rparr> (memory_idem d)) (\<lambda>idem.
          Inr (d\<lparr>memory_idem := idem\<rparr>))
      | _ \<Rightarrow> Inr d)"

definition record_body ::
  "note_env \<Rightarrow> MemoryCaller \<Rightarrow> MemoryRecordRequest \<Rightarrow> string \<Rightarrow> db \<Rightarrow> kerror + (MemoryRecordResult \<times> db)" where
  "record_body e m r print d =
     rbind (duplicate d m r print) (\<lambda>found.
     case found of Some y \<Rightarrow> Inr (y, d)
     | None \<Rightarrow>
         rbind (target_state d (m_repository m) (note_target r)) (\<lambda>(revision, conflict).
         rbind (advance_repo (m_repository m) d) (\<lambda>(seq, d1).
         rbind (insert_row ErrConstraint entry_ok (note_row e m r seq revision conflict) (memory_entries d1)) (\<lambda>entries.
         rbind (remember_key e m r print seq (mark_target (m_repository m) r seq conflict (d1\<lparr>memory_entries := entries\<rparr>))) (\<lambda>d2.
         Inr (\<lparr>mq_seq = seq, mq_duplicate = False, mq_conflicts_with = conflict, mq_deadline = mr_deadline r,
               mq_horizon = Some (lm_idem_ttl (nv_limits e))\<rparr>, d2))))))"

definition note_need :: "MemoryCaller \<Rightarrow> MemoryRecordRequest \<Rightarrow> int" where
  "note_need m r = int (length (mr_body r)) + int (length (m_consumer m)) + entryOverhead
     + textBytes [mr_path r, mr_author r, mr_scope_target r]
     + (case mr_key r of None \<Rightarrow> 0 | Some k \<Rightarrow> int (length k + length (m_consumer m)) + 64)"

definition MemoryRecord ::
  "note_env \<Rightarrow> MemoryCaller \<Rightarrow> MemoryRecordRequest \<Rightarrow> (string \<Rightarrow> time) \<Rightarrow> db \<Rightarrow> (string \<Rightarrow> time) \<times> MemoryRecordResult answer" where
  "MemoryRecord e m r0 expired_at d =
     (case rbind (participantCall e m d) (\<lambda>_.
           rbind (check_note e m r0) (\<lambda>r.
           let print = note_fingerprint (nv_ext e) r in
           rbind (duplicate d m r print) (\<lambda>found. Inr (r, print, found)))) of
        Inl err \<Rightarrow> (expired_at, Inl err, d)
      | Inr (r, print, Some y) \<Rightarrow> (expired_at, Inr y, d)
      | Inr (r, print, None) \<Rightarrow>
          (case validateProjectDecision (nv_lib e) (nv_catalog e) m r d of
             Inl err \<Rightarrow> (expired_at, Inl err, d)
           | Inr _ \<Rightarrow>
               (case maybeExpire (nv_wenv e) (participant_guard m) (m_repository m) expired_at d of
                  (expired_at', r1) \<Rightarrow> (expired_at', and_then r1 (\<lambda>_.
                    memoryWrite e (participant_guard m) (m_repository m) (if note_target r = None then ordinary else control)
                      (note_need m r) 1 (record_body e m r print))))))"

section \<open>Cursors\<close>

record memoryCursor =
  mc_seq :: int
  mc_issued :: int
  mc_snapshot :: "string option"
  mc_bootstrapped :: bool
  mc_resnapshot :: bool

definition read_cursor :: "db \<Rightarrow> MemoryCaller \<Rightarrow> memoryCursor option" where
  "read_cursor d m = map_option (\<lambda>c. \<lparr>mc_seq = cu_seq c, mc_issued = cu_issued c, mc_snapshot = cu_snapshot c,
       mc_bootstrapped = cu_bootstrapped c, mc_resnapshot = cu_resnapshot c\<rparr>)
     (List.find (own_cursor (m_repository m) (m_consumer m)) (memory_cursors d))"

definition new_cursor :: "note_env \<Rightarrow> MemoryCaller \<Rightarrow> cursorRow" where
  "new_cursor e m = \<lparr>cu_repository = m_repository m, cu_consumer = m_consumer m, cu_seq = 0, cu_issued = 0, cu_snapshot = None,
     cu_bootstrapped = False, cu_resnapshot = False, cu_updated = nv_clock e, cu_actor = []\<rparr>"

definition insert_cursor :: "cursorRow \<Rightarrow> db \<Rightarrow> db" where
  "insert_cursor c d = (if \<exists>q\<in>set (memory_cursors d). own_cursor (cu_repository c) (cu_consumer c) q then d
     else d\<lparr>memory_cursors := memory_cursors d @ [c]\<rparr>)"

definition no_cursor :: memoryCursor where
  "no_cursor = \<lparr>mc_seq = 0, mc_issued = 0, mc_snapshot = None, mc_bootstrapped = False, mc_resnapshot = False\<rparr>"

definition cursor_or_zero :: "db \<Rightarrow> MemoryCaller \<Rightarrow> memoryCursor" where
  "cursor_or_zero d m = (case read_cursor d m of None \<Rightarrow> no_cursor | Some c \<Rightarrow> c)"

definition register :: "note_env \<Rightarrow> MemoryCaller \<Rightarrow> db \<Rightarrow> memoryCursor answer" where
  "register e m d =
     (case read_cursor d m of Some c \<Rightarrow> (Inr c, d)
      | None \<Rightarrow>
          if \<exists>t\<in>set (memory_retired d). rt_repository t = m_repository m \<and> rt_consumer t = m_consumer m
          then (Inl (memoryError ''consumer_retired'' ''this consumer was retired after inactivity; re-register under a new consumer key, which will resync from a snapshot''), d)
          else let u = usage (nv_ext e) d (m_repository m); l = nv_limits e in
            if u_consumers u \<ge> lm_consumers l \<or> u_consumers u + u_retired u \<ge> lm_consumers l + lm_retired l
            then (Inl (memoryError ''capacity'' ''this store's consumer capacity is reached''), d)
            else and_then (memoryWrite e (participant_guard m) (m_repository m) ordinary
                             (2 * (int (length (m_consumer m)) + 64) + int (length (nativeActor m))) 0
                             (\<lambda>d0. Inr ((), insert_cursor (new_cursor e m) d0)) d)
                   (\<lambda>_ d1. (Inr (cursor_or_zero d1 m), d1)))"

text \<open>\<open>touch\<close> renews the cursor's activity and records the session that uses it.\<close>

definition touch_body :: "note_env \<Rightarrow> MemoryCaller \<Rightarrow> db \<Rightarrow> db" where
  "touch_body e m d =
     (let d1 = set_cursor (m_repository m) (m_consumer m) (\<lambda>c. c\<lparr>cu_updated := nv_clock e\<rparr>) d; k = m_native m in
      if validKey (k_family k) (k_id k) \<and> k_family k = m_family m
         \<and> (\<exists>s\<in>set (sessions d1). s_family s = k_family k \<and> s_id s = k_id k \<and> s_repository s = m_repository m
              \<and> row_active (wk_now_ms (nv_wenv e)) s)
      then set_cursor (m_repository m) (m_consumer m) (\<lambda>c. c\<lparr>cu_actor := nativeActor m\<rparr>) d1 else d1)"

definition touch :: "note_env \<Rightarrow> MemoryCaller \<Rightarrow> db \<Rightarrow> unit answer" where
  "touch e m d = memoryProgress e (participant_guard m) (m_repository m) (touch_body e m) d"

section \<open>Snapshots\<close>

definition snapshotState :: "db \<Rightarrow> MemoryCaller \<Rightarrow> string \<Rightarrow> snapshotRow option" where
  "snapshotState d m i = List.find (\<lambda>s. sn_id s = i \<and> sn_repository s = m_repository m) (memory_snapshots d)"

definition owned :: "MemoryCaller \<Rightarrow> snapshotRow option \<Rightarrow> bool" where
  "owned m st \<longleftrightarrow> (case st of None \<Rightarrow> False | Some s \<Rightarrow> sn_consumer s = m_consumer m)"

definition lapsed :: "note_env \<Rightarrow> snapshotRow \<Rightarrow> bool" where
  "lapsed e s \<longleftrightarrow> nv_clock e - sn_created s > lm_snapshot_ttl (nv_limits e)"

definition store_head :: "db \<Rightarrow> string \<Rightarrow> int" where
  "store_head d repo = (case List.find (\<lambda>m. ms_repository m = repo) (memory_stores d) of None \<Rightarrow> 0 | Some m \<Rightarrow> ms_head m)"

definition store_floor :: "db \<Rightarrow> string \<Rightarrow> int" where
  "store_floor d repo = (case List.find (\<lambda>m. ms_repository m = repo) (memory_stores d) of None \<Rightarrow> 0 | Some m \<Rightarrow> ms_floor m)"

definition after_or_none :: "int \<Rightarrow> int option \<Rightarrow> bool" where
  "after_or_none head v \<longleftrightarrow> (case v of None \<Rightarrow> True | Some s \<Rightarrow> s > head)"

definition live_at :: "string \<Rightarrow> int \<Rightarrow> time \<Rightarrow> entryRow \<Rightarrow> bool" where
  "live_at repo head now n \<longleftrightarrow> e_repository n = repo \<and> e_seq n \<le> head \<and> e_type n \<noteq> ''work-event''
     \<and> after_or_none head (e_superseded_by n) \<and> after_or_none head (e_revoked_by n)
     \<and> (case e_expires n of None \<Rightarrow> True | Some t \<Rightarrow> t > now)"

text \<open>The order of a snapshot: by type, then newest first. Sequence numbers are unique, so the two stable sorts fix it.\<close>

definition snapshot_order :: "entryRow list \<Rightarrow> entryRow list" where
  "snapshot_order members = sort_key (\<lambda>n. type_rank (e_type n)) (rev (sort_key e_seq members))"

fun keep_tails :: "string list \<Rightarrow> entryRow list \<Rightarrow> entryRow list" where
  "keep_tails seen [] = []"
| "keep_tails seen (n # ns) =
     (let seen' = e_type n # seen in
      case map_of memoryTails (e_type n) of
        Some tail_size \<Rightarrow> if count_list seen' (e_type n) > tail_size then keep_tails seen' ns else n # keep_tails seen' ns
      | None \<Rightarrow> n # keep_tails seen' ns)"

fun snapshot_items :: "string \<Rightarrow> int \<Rightarrow> (int \<times> string) list \<Rightarrow> snapshotItemRow list" where
  "snapshot_items i position [] = []"
| "snapshot_items i position ((seq, payload) # rest) =
     \<lparr>si_id = i, si_position = position, si_seq = seq, si_payload = payload, si_bytes = int (length payload) + 1\<rparr>
       # snapshot_items i (position + 1) rest"

definition freeze_body :: "note_env \<Rightarrow> MemoryCaller \<Rightarrow> string \<Rightarrow> int \<Rightarrow> (int \<times> string) list \<Rightarrow> db \<Rightarrow> kerror + (unit \<times> db)" where
  "freeze_body e m i head payloads d =
     rbind (insert_row ErrConstraint (\<lambda>s t. fresh_key sn_id s t)
              \<lparr>sn_id = i, sn_repository = m_repository m, sn_consumer = m_consumer m, sn_head = head, sn_created = nv_clock e,
               sn_items = int (length payloads), sn_issued = 0, sn_acked = False, sn_acked_at = None\<rparr> (memory_snapshots d)) (\<lambda>snapshots.
     rbind (guard (\<forall>q\<in>set (memory_snapshot_items d). \<not> (si_id q = i \<and> 0 \<le> si_position q \<and> si_position q < int (length payloads))) ErrConstraint) (\<lambda>_.
     Inr ((), set_cursor (m_repository m) (m_consumer m) (\<lambda>c. c\<lparr>cu_snapshot := Some i\<rparr>)
       (d\<lparr>memory_snapshots := snapshots, memory_snapshot_items := memory_snapshot_items d @ snapshot_items i 0 payloads\<rparr>))))"

definition frozen_payloads :: "note_env \<Rightarrow> MemoryCaller \<Rightarrow> db \<Rightarrow> kerror + (int \<times> string) list" where
  "frozen_payloads e m d =
     (let head = store_head d (m_repository m);
          kept = keep_tails [] (snapshot_order (filter (live_at (m_repository m) head (nv_clock e)) (memory_entries d)))
      in rbind (workViews d (m_repository m) (nv_clock e)) (\<lambda>views.
         Inr (map (\<lambda>n. (e_seq n, nv_entry_text e (plain_entry n))) kept @ map (\<lambda>v. (v_seq v, nv_view_text e v)) views)))"

definition retained_snapshot :: "note_env \<Rightarrow> MemoryCaller \<Rightarrow> snapshotRow \<Rightarrow> bool" where
  "retained_snapshot e m s \<longleftrightarrow> sn_repository s = m_repository m \<and> sn_consumer s = m_consumer m
     \<and> (if sn_acked s then (case sn_acked_at s of None \<Rightarrow> False | Some t \<Rightarrow> t \<ge> nv_clock e - lm_ack_retention (nv_limits e))
        else sn_created s \<ge> nv_clock e - lm_snapshot_ttl (nv_limits e))"

definition freeze :: "note_env \<Rightarrow> MemoryCaller \<Rightarrow> db \<Rightarrow> string answer" where
  "freeze e m d =
     (let held = int (length (filter (retained_snapshot e m) (memory_snapshots d)));
          i = nv_snapshot_id e d; head = store_head d (m_repository m) in
      if held \<ge> lm_snapshots_per_consumer (nv_limits e)
      then (Inl (memoryError ''snapshot_capacity'' (show_int held @ '' snapshots of this consumer are still retained'')), d)
      else case frozen_payloads e m d of
        Inl err \<Rightarrow> (Inl err, d)
      | Inr payloads \<Rightarrow>
          and_then (memoryWrite e (participant_guard m) (m_repository m) ordinary
              (int (length i + length (m_consumer m)) + 96 + total (\<lambda>(_, p). int (length p) + 1) payloads) 0
              (freeze_body e m i head payloads) d) (\<lambda>_ d1. (Inr i, d1)))"

section \<open>Delivery\<close>

text \<open>\<open>bounded\<close>: how many of the items fit one page; a first item that does not fit is refused.\<close>

fun bounded_from :: "int \<Rightarrow> int \<Rightarrow> int list \<Rightarrow> nat" where
  "bounded_from budget used [] = 0"
| "bounded_from budget used (s # ss) = (if used + s > budget then 0 else Suc (bounded_from budget (used + s) ss))"

definition bounded :: "int list \<Rightarrow> int \<Rightarrow> kerror + nat" where
  "bounded sizes budget = (case sizes of [] \<Rightarrow> Inr 0
     | s # _ \<Rightarrow> if s > budget then Inl (memoryError ''entry_too_large'' ''an entry exceeds one page and cannot be delivered'')
         else Inr (bounded_from budget 0 sizes))"

datatype delivery =
    SnapshotPage string int "string list" int int bool   (* snapshot_id, head, entries, page_token, total, more *)
  | DeltaPage "string list" int int int bool             (* entries, cursor, next_cursor, head, more *)

record MemorySyncRequest =
  sr_snapshot_id :: string
  sr_page_token :: int

definition ErrSnapshotExpired :: kerror where
  "ErrSnapshotExpired = memoryError ''snapshot_expired'' ''the snapshot expired; sync again without a page token''"
definition ErrForeignSnapshot :: kerror where
  "ErrForeignSnapshot = memoryError ''foreign_snapshot'' ''the snapshot belongs to another consumer''"

definition check_page :: "note_env \<Rightarrow> MemoryCaller \<Rightarrow> string \<Rightarrow> MemorySyncRequest \<Rightarrow> db \<Rightarrow> kerror + snapshotRow" where
  "check_page e m i r d =
     rbind (opt_err ErrSnapshotExpired (snapshotState d m i)) (\<lambda>st.
     if \<not> owned m (Some st) then Inl ErrForeignSnapshot
     else if \<not> sn_acked st \<and> lapsed e st then Inl ErrSnapshotExpired
     else if sr_page_token r < 0 \<or> (sr_page_token r \<noteq> 0 \<and> sr_snapshot_id r = [])
     then Inl (memoryError ''stale_page_token'' ''a page token continues the snapshot that its snapshot_id names'')
     else if sr_snapshot_id r \<noteq> [] \<and> sr_snapshot_id r \<noteq> i
     then (let other = snapshotState d m (sr_snapshot_id r) in
           if other \<noteq> None \<and> \<not> owned m other then Inl ErrForeignSnapshot
           else Inl (memoryError ''stale_page_token'' ''that snapshot is not this consumer's current snapshot''))
     else if sr_page_token r > sn_issued st then Inl (memoryError ''stale_page_token'' ''pages are issued in order'')
     else Inr st)"

definition items_from :: "db \<Rightarrow> string \<Rightarrow> int \<Rightarrow> snapshotItemRow list" where
  "items_from d i token = sort_key si_position (filter (\<lambda>q. si_id q = i \<and> si_position q \<ge> token) (memory_snapshot_items d))"

definition raise_issued :: "string \<Rightarrow> int \<Rightarrow> db \<Rightarrow> db" where
  "raise_issued i edge d = d\<lparr>memory_snapshots := update_where (\<lambda>s. sn_id s = i \<and> sn_issued s < edge)
     (\<lambda>s. s\<lparr>sn_issued := edge\<rparr>) (memory_snapshots d)\<rparr>"

definition snapshotPage :: "note_env \<Rightarrow> MemoryCaller \<Rightarrow> string \<Rightarrow> MemorySyncRequest \<Rightarrow> db \<Rightarrow> delivery answer" where
  "snapshotPage e m i r d =
     (case rbind (check_page e m i r d) (\<lambda>st.
           let items = items_from d i (sr_page_token r) in
           rbind (bounded (map si_bytes items) (lm_frame_budget (nv_limits e))) (\<lambda>n. Inr (st, items, n))) of
        Inl err \<Rightarrow> (Inl err, d)
      | Inr (st, items, n) \<Rightarrow>
          let edge = sr_page_token r + int n in
          and_then (if edge > sn_issued st then memoryProgress e (participant_guard m) (m_repository m) (raise_issued i edge) d else (Inr (), d))
            (\<lambda>_ d1. (Inr (SnapshotPage i (sn_head st) (map si_payload (take n items)) edge (sn_items st)
                            (n < length items \<or> edge < sn_items st)), d1)))"

definition with_payload :: "db \<Rightarrow> string \<Rightarrow> entryRow \<Rightarrow> kerror + MemoryEntry" where
  "with_payload d repo n =
     (if e_type n \<noteq> ''work-event'' then Inr (plain_entry n)
      else rbind (opt_err (workError ''incompatible_store'' ''a work stream payload is missing'')
                    (List.find (\<lambda>v. we_store v = storeOf d repo \<and> we_seq v = e_seq n) (work_events d))) (\<lambda>v.
        Inr \<lparr>me_row = n, me_event_kind = we_kind v, me_work_id = (case e_scope_target n of None \<Rightarrow> [] | Some i \<Rightarrow> i),
             me_payload = Some (we_payload v), me_actor = we_actor v\<rparr>))"

fun workPayloads :: "db \<Rightarrow> string \<Rightarrow> entryRow list \<Rightarrow> kerror + MemoryEntry list" where
  "workPayloads d repo [] = Inr []"
| "workPayloads d repo (n # ns) = rbind (with_payload d repo n) (\<lambda>y. rbind (workPayloads d repo ns) (\<lambda>ys. Inr (y # ys)))"

definition entries_after :: "db \<Rightarrow> string \<Rightarrow> int \<Rightarrow> entryRow list" where
  "entries_after d repo seq = sort_key e_seq (filter (\<lambda>n. e_repository n = repo \<and> e_seq n > seq) (memory_entries d))"

definition issue_delta :: "MemoryCaller \<Rightarrow> int \<Rightarrow> db \<Rightarrow> db" where
  "issue_delta m edge d = d\<lparr>memory_cursors := update_where (\<lambda>c. own_cursor (m_repository m) (m_consumer m) c \<and> cu_issued c < edge)
     (\<lambda>c. c\<lparr>cu_issued := edge\<rparr>) (memory_cursors d)\<rparr>"

definition delta :: "note_env \<Rightarrow> MemoryCaller \<Rightarrow> memoryCursor \<Rightarrow> db \<Rightarrow> delivery answer" where
  "delta e m c d =
     (let batch = take (nat (lm_row_window (nv_limits e))) (entries_after d (m_repository m) (mc_seq c)) in
      case rbind (workPayloads d (m_repository m) batch) (\<lambda>full.
           let texts = map (nv_entry_text e) full in
           rbind (bounded (map (\<lambda>t. int (length t) + 1) texts) (lm_frame_budget (nv_limits e))) (\<lambda>n. Inr (texts, n))) of
        Inl err \<Rightarrow> (Inl err, d)
      | Inr (texts, n) \<Rightarrow>
          let edge = (if n > 0 then e_seq (batch ! (n - 1)) else mc_seq c) in
          and_then (if edge > mc_issued c then memoryProgress e (participant_guard m) (m_repository m) (issue_delta m edge) d else (Inr (), d))
            (\<lambda>_ d1. let head = store_head d1 (m_repository m) in
              (Inr (DeltaPage (take n texts) (mc_seq c) edge head (n < length texts \<or> edge < head)), d1)))"

definition drop_snapshot :: "MemoryCaller \<Rightarrow> db \<Rightarrow> db" where
  "drop_snapshot m = set_cursor (m_repository m) (m_consumer m) (\<lambda>c. c\<lparr>cu_snapshot := None, cu_resnapshot := True\<rparr>)"

text \<open>An open snapshot that is gone, foreign or lapsed: the obligation to finish one stays.\<close>

definition renew_obligation :: "note_env \<Rightarrow> MemoryCaller \<Rightarrow> memoryCursor \<Rightarrow> db \<Rightarrow> memoryCursor answer" where
  "renew_obligation e m c d =
     (case mc_snapshot c of None \<Rightarrow> (Inr c, d)
      | Some i \<Rightarrow>
          let st = snapshotState d m i in
          if \<not> owned m st \<or> (case st of None \<Rightarrow> False | Some s \<Rightarrow> \<not> sn_acked s \<and> lapsed e s)
          then and_then (memoryProgress e (participant_guard m) (m_repository m) (drop_snapshot m) d)
                 (\<lambda>_ d1. (Inr (c\<lparr>mc_snapshot := None, mc_resnapshot := True\<rparr>), d1))
          else (Inr c, d))"

definition open_cursor :: "note_env \<Rightarrow> MemoryCaller \<Rightarrow> db \<Rightarrow> memoryCursor answer" where
  "open_cursor e m d = and_then (register e m d) (\<lambda>c d1. and_then (touch e m d1) (\<lambda>_ d2. (Inr c, d2)))"

definition sync_body :: "note_env \<Rightarrow> MemoryCaller \<Rightarrow> MemorySyncRequest \<Rightarrow> db \<Rightarrow> delivery answer" where
  "sync_body e m r d =
     and_then (open_cursor e m d) (\<lambda>c0 d1.
     and_then (renew_obligation e m c0 d1) (\<lambda>c d2.
     if mc_snapshot c \<noteq> None \<or> mc_resnapshot c \<or> \<not> mc_bootstrapped c \<or> mc_seq c < store_floor d2 (m_repository m)
     then and_then (case mc_snapshot c of Some i \<Rightarrow> (Inr i, d2) | None \<Rightarrow> freeze e m d2) (\<lambda>i d3. snapshotPage e m i r d3)
     else delta e m c d2))"

definition MemorySync ::
  "note_env \<Rightarrow> MemoryCaller \<Rightarrow> MemorySyncRequest \<Rightarrow> (string \<Rightarrow> time) \<Rightarrow> db \<Rightarrow> (string \<Rightarrow> time) \<times> delivery answer" where
  "MemorySync e m r expired_at d =
     (case participantCall e m d of
        Inl err \<Rightarrow> (expired_at, Inl err, d)
      | Inr _ \<Rightarrow> (case maybeExpire (nv_wenv e) (participant_guard m) (m_repository m) expired_at d of
          (expired_at', r1) \<Rightarrow> (expired_at', and_then r1 (\<lambda>_. sync_body e m r))))"

section \<open>Acknowledgement\<close>

record MemoryAckRequest =
  ar_snapshot_id :: string
  ar_through :: "int option"

datatype ackAnswer =
    SnapshotAcked int string bool   (* cursor, snapshot, replayed *)
  | DeltaAcked int
  | AckIgnored int

definition ack_snapshot_body :: "note_env \<Rightarrow> MemoryCaller \<Rightarrow> string \<Rightarrow> int \<Rightarrow> db \<Rightarrow> db" where
  "ack_snapshot_body e m i head d =
     set_cursor (m_repository m) (m_consumer m) (\<lambda>c. c\<lparr>cu_seq := head, cu_issued := max (cu_issued c) head, cu_snapshot := None,
         cu_bootstrapped := True, cu_resnapshot := False\<rparr>)
       (d\<lparr>memory_snapshots := update_where (\<lambda>s. sn_id s = i) (\<lambda>s. s\<lparr>sn_acked := True, sn_acked_at := Some (nv_clock e)\<rparr>) (memory_snapshots d)\<rparr>)"

definition ack_snapshot :: "note_env \<Rightarrow> MemoryCaller \<Rightarrow> memoryCursor \<Rightarrow> string \<Rightarrow> db \<Rightarrow> ackAnswer answer" where
  "ack_snapshot e m c i d =
     (case snapshotState d m i of None \<Rightarrow> (Inl ErrSnapshotExpired, d)
      | Some st \<Rightarrow>
          if \<not> owned m (Some st) then (Inl ErrForeignSnapshot, d)
          else if sn_acked st then (Inr (SnapshotAcked (sn_head st) i True), d)
          else if mc_snapshot c \<noteq> Some i then (Inl (memoryError ''stale_snapshot'' ''that snapshot is not this consumer's open snapshot''), d)
          else if lapsed e st then (Inl ErrSnapshotExpired, d)
          else if sn_issued st < sn_items st
          then (Inl (memoryError ''snapshot_incomplete'' (show_int (sn_issued st) @ '' of '' @ show_int (sn_items st)
                       @ '' pages were issued; page to the end before acknowledging'')), d)
          else and_then (memoryProgress e (participant_guard m) (m_repository m) (ack_snapshot_body e m i (sn_head st)) d)
                 (\<lambda>_ d1. (Inr (SnapshotAcked (sn_head st) i False), d1)))"

definition ack_delta :: "note_env \<Rightarrow> MemoryCaller \<Rightarrow> memoryCursor \<Rightarrow> int \<Rightarrow> db \<Rightarrow> ackAnswer answer" where
  "ack_delta e m c through d =
     (if mc_snapshot c \<noteq> None \<or> mc_resnapshot c then (Inl (memoryError ''snapshot_open'' ''finish and acknowledge the open snapshot first''), d)
      else if \<not> mc_bootstrapped c then (Inl (memoryError ''not_bootstrapped'' ''acknowledge a complete snapshot first''), d)
      else if through < mc_seq c then (Inr (AckIgnored (mc_seq c)), d)
      else if through > mc_issued c
      then (Inl (memoryError ''not_issued'' (''cannot acknowledge '' @ show_int through @ ''; '' @ show_int (mc_issued c) @ '' was issued'')), d)
      else and_then (memoryProgress e (participant_guard m) (m_repository m)
                       (set_cursor (m_repository m) (m_consumer m) (\<lambda>c. c\<lparr>cu_seq := through\<rparr>)) d)
             (\<lambda>_ d1. (Inr (DeltaAcked through), d1)))"

definition ack_body :: "note_env \<Rightarrow> MemoryCaller \<Rightarrow> MemoryAckRequest \<Rightarrow> db \<Rightarrow> ackAnswer answer" where
  "ack_body e m r d =
     and_then (open_cursor e m d) (\<lambda>c d1.
       if ar_snapshot_id r \<noteq> [] then ack_snapshot e m c (ar_snapshot_id r) d1
       else ack_delta e m c (case ar_through r of None \<Rightarrow> 0 | Some t \<Rightarrow> t) d1)"

definition MemoryAck ::
  "note_env \<Rightarrow> MemoryCaller \<Rightarrow> MemoryAckRequest \<Rightarrow> (string \<Rightarrow> time) \<Rightarrow> db \<Rightarrow> (string \<Rightarrow> time) \<times> ackAnswer answer" where
  "MemoryAck e m r expired_at d =
     (case participantCall e m d of
        Inl err \<Rightarrow> (expired_at, Inl err, d)
      | Inr _ \<Rightarrow> (case maybeExpire (nv_wenv e) (participant_guard m) (m_repository m) expired_at d of
          (expired_at', r1) \<Rightarrow> (expired_at', and_then r1 (\<lambda>_. ack_body e m r))))"

section \<open>Recall and status\<close>

record recallPage =
  rc_entries :: "string list"
  rc_more :: bool
  rc_next_before :: "int option"
  rc_library_history :: "(int \<times> libraryUnavailableReceipt list \<times> bool) option"

definition recall_rows :: "note_env \<Rightarrow> MemoryCaller \<Rightarrow> string \<Rightarrow> int \<Rightarrow> db \<Rightarrow> entryRow list" where
  "recall_rows e m query before d =
     rev (sort_key e_seq (filter (\<lambda>n. e_repository n = m_repository m \<and> e_type n \<noteq> ''work-event'' \<and> e_superseded_by n = None
       \<and> e_revoked_by n = None \<and> (case e_expires n of None \<Rightarrow> True | Some t \<Rightarrow> t > nv_clock e) \<and> e_seq n < before
       \<and> like_contains query (e_body n)) (memory_entries d)))"

definition MemoryRecall :: "note_env \<Rightarrow> MemoryCaller \<Rightarrow> string \<Rightarrow> int \<Rightarrow> db \<Rightarrow> kerror + recallPage" where
  "MemoryRecall e m query before d =
     rbind (participantCall e m d) (\<lambda>_.
     rbind (guard (trim_space query \<noteq> []) (memoryError ''invalid_request'' ''the query is empty'')) (\<lambda>_.
     let found = recall_rows e m query (if before \<le> 0 then 2 ^ 62 else before) d;
         window = nat (lm_row_window (nv_limits e));
         beyond = length found > window;
         rows = take window found;
         texts = map (\<lambda>n. nv_entry_text e (plain_entry n)) rows
     in rbind (bounded (map (\<lambda>t. int (length t) + 1) texts) (lm_frame_budget (nv_limits e))) (\<lambda>n.
        let rest = (n < length texts \<or> beyond) in
        Inr \<lparr>rc_entries = take n texts, rc_more = rest,
             rc_next_before = (if rest \<and> n > 0 then Some (e_seq (rows ! (n - 1))) else None),
             rc_library_history = (if query = DecisionMarker then Some (libraryReceiptHistory (nv_lib e) (nv_clock e) m d) else None)\<rparr>)))"

record memoryStatus =
  mt_store_id :: string
  mt_head :: int
  mt_floor :: int
  mt_usage :: memoryUsage
  mt_debt :: workDebt
  mt_maintenance :: "int \<times> int \<times> int"
  mt_consumers :: "cursorRow list"
  mt_more :: bool
  mt_next_after :: "string option"

definition MemoryStatus :: "note_env \<Rightarrow> MemoryCaller \<Rightarrow> string \<Rightarrow> db \<Rightarrow> kerror + memoryStatus" where
  "MemoryStatus e m after d =
     rbind (participantCall e m d) (\<lambda>_.
     let repo = m_repository m; head = store_head d repo;
         found = sort_key cu_consumer (filter (\<lambda>c. cu_repository c = repo \<and> cu_consumer c > after) (memory_cursors d));
         window = nat (lm_row_window (nv_limits e));
         beyond = length found > window;
         rows = take window found
     in rbind (bounded (map (\<lambda>c. int (nv_consumer_bytes e head c) + 1) rows) (lm_frame_budget (nv_limits e))) (\<lambda>n.
        let rest = (n < length rows \<or> beyond) in
        Inr \<lparr>mt_store_id = storeOf d repo, mt_head = head, mt_floor = store_floor d repo, mt_usage = usage (nv_ext e) d repo,
             mt_debt = storeDebt d repo, mt_maintenance = workMaintenanceStatus d repo (nv_clock e),
             mt_consumers = take n rows, mt_more = rest,
             mt_next_after = (if rest \<and> n > 0 then Some (cu_consumer (rows ! (n - 1))) else None)\<rparr>))"

end
