(* ===== verification/Memory_Stream.thy ===== *)
theory Memory_Stream
  imports Memory_Notes Work_Runs Memory_Expiry
begin

text \<open>
  Delivery of the memory stream. Recording, reading and acknowledging notes, and every work request and
  sweep beside them, move the heads of the stores and the cursors of their consumers only as an abstract
  machine of subscriptions does (\<open>feed_step\<close>): a head grows by one, a consumer joins at zero, is issued
  sequences up to the head, acknowledges what was issued or a whole snapshot, and never moves back
  until it is retired. The locale \<open>note_interface\<close> carries a property through the transactions of a note
  request; \<open>feed_machine\<close> carries the refinement along a run.
\<close>

section \<open>The abstract machine\<close>

type_synonym feed = "(string \<Rightarrow> int) \<times> (string \<times> string \<Rightarrow> (int \<times> int) option)"

inductive feed_step :: "feed \<Rightarrow> feed \<Rightarrow> bool" where
  publish: "feed_step (h, c) (h(r := h r + 1), c)"
| join: "c k = None \<Longrightarrow> feed_step (h, c) (h, c(k \<mapsto> (0, 0)))"
| issue: "c k = Some (a, i) \<Longrightarrow> i < j \<Longrightarrow> j \<le> h (fst k) \<Longrightarrow> feed_step (h, c) (h, c(k \<mapsto> (a, j)))"
| acknowledge: "c k = Some (a, i) \<Longrightarrow> a \<le> b \<Longrightarrow> b \<le> i \<Longrightarrow> feed_step (h, c) (h, c(k \<mapsto> (b, i)))"
| resync: "c k = Some (a, i) \<Longrightarrow> a \<le> b \<Longrightarrow> b \<le> h (fst k) \<Longrightarrow> feed_step (h, c) (h, c(k \<mapsto> (b, max i b)))"
| retire: "feed_step (h, c) (h, c(k := None))"

inductive_cases feed_step_cases: "feed_step (h, c) f"

definition cursor_key :: "cursorRow \<Rightarrow> string \<times> string" where
  "cursor_key c = (cu_repository c, cu_consumer c)"

definition cursors_at :: "cursorRow list \<Rightarrow> string \<times> string \<Rightarrow> (int \<times> int) option" where
  "cursors_at t k = map_option (\<lambda>c. (cu_seq c, cu_issued c)) (List.find (\<lambda>c. cursor_key c = k) t)"

definition feed :: "db \<Rightarrow> feed" where
  "feed d = (store_head d, cursors_at (memory_cursors d))"

lemma own_cursor_key: "own_cursor repo consumer c \<longleftrightarrow> cursor_key c = (repo, consumer)"
  by (auto simp: own_cursor_def cursor_key_def)

lemma retire_all: "feed_step\<^sup>*\<^sup>* (h, c) (h, \<lambda>k. if k \<in> set ks then None else c k)"
proof (induction ks arbitrary: c)
  case (Cons k ks)
  have "feed_step\<^sup>*\<^sup>* (h, c(k := None)) (h, \<lambda>j. if j \<in> set ks then None else (c(k := None)) j)" by (rule Cons.IH)
  moreover have "(\<lambda>j. if j \<in> set ks then None else (c(k := None)) j) = (\<lambda>j. if j \<in> set (k # ks) then None else c j)" by auto
  ultimately show ?case using feed_step.retire by (metis (no_types, lifting) converse_rtranclp_into_rtranclp)
qed simp

lemma cursors_at_Some:
  "distinct (map cursor_key t) \<Longrightarrow> c \<in> set t \<Longrightarrow> cursors_at t (cursor_key c) = Some (cu_seq c, cu_issued c)"
  using find_key_unique[of cursor_key t c] by (simp add: cursors_at_def)

lemma cursors_at_None: "k \<notin> set (map cursor_key t) \<Longrightarrow> cursors_at t k = None"
  by (auto simp: cursors_at_def find_None_iff)

lemma cursors_at_filter:
  assumes "distinct (map cursor_key t)"
  shows "cursors_at (filter P t) = (\<lambda>k. if k \<in> set (map cursor_key (filter (\<lambda>c. \<not> P c) t)) then None else cursors_at t k)"
proof
  fix k
  show "cursors_at (filter P t) k = (if k \<in> set (map cursor_key (filter (\<lambda>c. \<not> P c) t)) then None else cursors_at t k)"
  proof (cases "k \<in> set (map cursor_key (filter P t))")
    case True
    then obtain c where c: "c \<in> set t" "P c" "k = cursor_key c" by auto
    have "k \<notin> set (map cursor_key (filter (\<lambda>c. \<not> P c) t))"
      using distinct_key_eq[OF assms c(1)] c(2,3) by auto
    moreover have "cursors_at (filter P t) k = Some (cu_seq c, cu_issued c)"
      unfolding c(3) by (rule cursors_at_Some[OF distinct_map_filter[OF assms]]) (simp add: c)
    ultimately show ?thesis using cursors_at_Some[OF assms c(1)] c(3) by simp
  next
    case False
    have "cursors_at t k = None" if "k \<notin> set (map cursor_key (filter (\<lambda>c. \<not> P c) t))"
      by (rule cursors_at_None) (use False that in auto)
    then show ?thesis using cursors_at_None[OF False] by auto
  qed
qed

lemma cursors_at_update:
  assumes "distinct (map cursor_key t)" "c \<in> set t" "\<And>q. cursor_key (f q) = cursor_key q"
  shows "cursors_at (update_where (\<lambda>q. cursor_key q = cursor_key c) f t) = (cursors_at t)(cursor_key c \<mapsto> (cu_seq (f c), cu_issued (f c)))"
proof
  fix k
  let ?u = "update_where (\<lambda>q. cursor_key q = cursor_key c) f t"
  have find: "List.find (\<lambda>q. cursor_key q = k) ?u
      = map_option (\<lambda>r. if cursor_key r = cursor_key c then f r else r) (List.find (\<lambda>q. cursor_key q = k) t)"
    by (rule find_update_where) (simp add: assms(3))
  show "cursors_at ?u k = ((cursors_at t)(cursor_key c \<mapsto> (cu_seq (f c), cu_issued (f c)))) k"
  proof (cases "List.find (\<lambda>q. cursor_key q = k) t")
    case None
    then have "k \<noteq> cursor_key c" using find_key_unique[OF assms(1,2)] by auto
    then show ?thesis using None by (simp add: cursors_at_def find)
  next
    case (Some r)
    have r: "cursor_key r = k" "r \<in> set t" using find_Some_mem[OF Some] by simp_all
    show ?thesis
    proof (cases "k = cursor_key c")
      case True
      then have "r = c" using distinct_key_eq[OF assms(1) r(2) assms(2)] r(1) by simp
      then show ?thesis unfolding cursors_at_def find Some by (simp add: True)
    qed (use r Some in \<open>simp add: cursors_at_def find\<close>)
  qed
qed

section \<open>The invariant\<close>

definition cursor_fits :: "db \<Rightarrow> cursorRow \<Rightarrow> bool" where
  "cursor_fits d c \<longleftrightarrow> 0 \<le> cu_seq c \<and> cu_seq c \<le> cu_issued c \<and> cu_issued c \<le> store_head d (cu_repository c)"

definition open_for :: "snapshotRow \<Rightarrow> cursorRow \<Rightarrow> bool" where
  "open_for s c \<longleftrightarrow> cu_snapshot c = Some (sn_id s) \<and> sn_repository s = cu_repository c \<and> sn_consumer s = cu_consumer c \<and> \<not> sn_acked s"

definition feed_ok :: "db \<Rightarrow> bool" where
  "feed_ok d \<longleftrightarrow> (\<forall>n\<in>set (memory_entries d). 0 < e_seq n \<and> e_seq n \<le> store_head d (e_repository n))
     \<and> distinct (map cursor_key (memory_cursors d)) \<and> (\<forall>c\<in>set (memory_cursors d). cursor_fits d c)
     \<and> (\<forall>s\<in>set (memory_snapshots d). 0 \<le> sn_head s \<and> sn_head s \<le> store_head d (sn_repository s))
     \<and> (\<forall>c\<in>set (memory_cursors d). \<forall>s\<in>set (memory_snapshots d). open_for s c \<longrightarrow> cu_seq c \<le> sn_head s)"

lemma feed_okD:
  assumes "feed_ok d"
  shows "\<And>n. n \<in> set (memory_entries d) \<Longrightarrow> 0 < e_seq n \<and> e_seq n \<le> store_head d (e_repository n)"
    "distinct (map cursor_key (memory_cursors d))" "\<And>c. c \<in> set (memory_cursors d) \<Longrightarrow> cursor_fits d c"
    "\<And>s. s \<in> set (memory_snapshots d) \<Longrightarrow> 0 \<le> sn_head s \<and> sn_head s \<le> store_head d (sn_repository s)"
    "\<And>c s. c \<in> set (memory_cursors d) \<Longrightarrow> s \<in> set (memory_snapshots d) \<Longrightarrow> open_for s c \<Longrightarrow> cu_seq c \<le> sn_head s"
  using assms unfolding feed_ok_def by blast+

lemma feed_okI:
  assumes "\<And>n. n \<in> set (memory_entries d) \<Longrightarrow> 0 < e_seq n \<and> e_seq n \<le> store_head d (e_repository n)"
    "distinct (map cursor_key (memory_cursors d))" "\<And>c. c \<in> set (memory_cursors d) \<Longrightarrow> cursor_fits d c"
    "\<And>s. s \<in> set (memory_snapshots d) \<Longrightarrow> 0 \<le> sn_head s \<and> sn_head s \<le> store_head d (sn_repository s)"
    "\<And>c s. c \<in> set (memory_cursors d) \<Longrightarrow> s \<in> set (memory_snapshots d) \<Longrightarrow> open_for s c \<Longrightarrow> cu_seq c \<le> sn_head s"
  shows "feed_ok d"
  using assms unfolding feed_ok_def by blast

text \<open>What the invariant and the abstraction read of the database.\<close>

definition feed_same :: "db \<Rightarrow> db \<Rightarrow> bool" where
  "feed_same d d' \<longleftrightarrow> heads d' = heads d \<and> memory_entries d' = memory_entries d \<and> memory_cursors d' = memory_cursors d
     \<and> memory_snapshots d' = memory_snapshots d"

lemma store_head_heads: "store_head d repo = (case List.find (\<lambda>h. fst h = repo) (heads d) of None \<Rightarrow> 0 | Some h \<Rightarrow> snd (snd h))"
proof -
  have "map_option ms_head (List.find (\<lambda>m. ms_repository m = repo) t)
      = map_option (\<lambda>h. snd (snd h)) (List.find (\<lambda>h. fst h = repo) (map (\<lambda>m. (ms_repository m, ms_store_id m, ms_head m)) t))" for t
    by (induction t) auto
  from this[of "memory_stores d"] show ?thesis by (auto simp: store_head_def heads_def split: option.splits)
qed

lemma store_head_cong: "heads d' = heads d \<Longrightarrow> store_head d' = store_head d"
  by (simp add: fun_eq_iff store_head_heads)

lemma store_head_nonneg: "stores_wf d \<Longrightarrow> 0 \<le> store_head d repo"
  by (auto simp: store_head_heads stores_wf_def split: option.splits dest!: find_Some_mem)

lemma feed_same_refl [simp]: "feed_same d d"
  by (simp add: feed_same_def)

lemma feed_same_trans: "feed_same a b \<Longrightarrow> feed_same b c \<Longrightarrow> feed_same a c"
  by (simp add: feed_same_def)

lemma feed_sameD: "feed_same d d' \<Longrightarrow> feed d' = feed d" "feed_same d d' \<Longrightarrow> feed_ok d' = feed_ok d"
proof -
  assume s: "feed_same d d'"
  have h: "store_head d' = store_head d" by (rule store_head_cong) (use s in \<open>simp add: feed_same_def\<close>)
  show "feed d' = feed d" using s h by (simp add: feed_def feed_same_def)
  have "cursor_fits d' = cursor_fits d" by (simp add: fun_eq_iff cursor_fits_def h)
  then show "feed_ok d' = feed_ok d" using s h by (simp add: feed_ok_def feed_same_def)
qed

text \<open>The databases that the abstract machine reaches from \<open>d0\<close>.\<close>

definition feed_on :: "db \<Rightarrow> time \<Rightarrow> db \<Rightarrow> bool" where
  "feed_on d0 now d \<longleftrightarrow> work_inv now d \<and> feed_ok d \<and> feed_step\<^sup>*\<^sup>* (feed d0) (feed d)"

lemma feed_onD: "feed_on d0 now d \<Longrightarrow> work_inv now d" "feed_on d0 now d \<Longrightarrow> feed_ok d"
  by (simp_all add: feed_on_def)

lemma feed_on_steps:
  "feed_on d0 now d \<Longrightarrow> work_inv now d' \<Longrightarrow> feed_ok d' \<Longrightarrow> feed_step\<^sup>*\<^sup>* (feed d) (feed d') \<Longrightarrow> feed_on d0 now d'"
  unfolding feed_on_def by (meson rtranclp_trans)

lemma feed_on_step:
  "feed_on d0 now d \<Longrightarrow> work_inv now d' \<Longrightarrow> feed_ok d' \<Longrightarrow> feed_step (feed d) (feed d') \<Longrightarrow> feed_on d0 now d'"
  using feed_on_steps[of d0 now d d'] by blast

lemma feed_on_same: "feed_on d0 now d \<Longrightarrow> work_inv now d' \<Longrightarrow> feed_same d d' \<Longrightarrow> feed_on d0 now d'"
  using feed_sameD[of d d'] by (simp add: feed_on_def)

section \<open>Work requests move the feed by their events\<close>

lemma raised_head:
  assumes "stores_wf d" "heads d' = raised store (heads d)" "h \<in> set (heads d)" "fst (snd h) = store"
  shows "store_head d' = (store_head d)(fst h := store_head d (fst h) + 1)" "store_head d (fst h) = head_of d store"
proof -
  have hs: "distinct (map fst (heads d))" "distinct (map (fst \<circ> snd) (heads d))" using assms(1) by (simp_all add: stores_wf_def)
  have f1: "List.find (\<lambda>q. fst q = fst h) (heads d) = Some h" by (rule find_key_unique[OF hs(1) assms(3)])
  have f2: "List.find (\<lambda>q. fst (snd q) = store) (heads d) = Some h"
    using find_key_unique[OF hs(2) assms(3)] assms(4) by simp
  show "store_head d (fst h) = head_of d store" by (simp add: store_head_heads f1 head_of_def f2)
  have fr: "List.find (\<lambda>q. fst q = r) (raised store t) = map_option (\<lambda>(r, s, n). (r, s, if s = store then n + 1 else n)) (List.find (\<lambda>q. fst q = r) t)" for r t
    by (induction t) (auto simp: raised_def)
  have only: "q = h" if "q \<in> set (heads d)" "fst (snd q) = store" for q
    by (rule distinct_key_eq[OF hs(2) that(1) assms(3)]) (simp add: that(2) assms(4))
  show "store_head d' = (store_head d)(fst h := store_head d (fst h) + 1)"
  proof
    fix r
    show "store_head d' r = ((store_head d)(fst h := store_head d (fst h) + 1)) r"
    proof (cases "List.find (\<lambda>q. fst q = r) (heads d)")
      case None
      then have "r \<noteq> fst h" using f1 by auto
      then show ?thesis using None by (simp add: store_head_heads assms(2) fr)
    next
      case (Some q)
      have q: "q \<in> set (heads d)" "fst q = r" using find_Some_mem[OF Some] by simp_all
      show ?thesis
      proof (cases "r = fst h")
        case True
        then have "q = h" using Some f1 by simp
        then show ?thesis using True Some f1 assms(4) by (cases h) (simp add: store_head_heads assms(2) fr)
      next
        case False
        then have "fst (snd q) \<noteq> store" using only[OF q(1)] q(2) by auto
        then show ?thesis using False Some f1 by (cases q) (simp add: store_head_heads assms(2) fr)
      qed
    qed
  qed
qed

text \<open>A new entry at the next sequence of one store.\<close>

lemma feed_publish:
  assumes ok: "feed_ok d" and h: "store_head d' = (store_head d)(r := store_head d r + 1)"
    and e: "set (memory_entries d') \<subseteq> insert n (set (memory_entries d))" "e_repository n = r" "e_seq n = store_head d r + 1" "0 \<le> store_head d r"
    and c: "memory_cursors d' = memory_cursors d" "memory_snapshots d' = memory_snapshots d"
  shows "feed_ok d'" "feed_step (feed d) (feed d')"
proof -
  note o = feed_okD[OF ok]
  have le: "store_head d q \<le> store_head d' q" for q by (simp add: h)
  show "feed_ok d'"
  proof (rule feed_okI)
    fix m assume "m \<in> set (memory_entries d')"
    then consider "m = n" | "m \<in> set (memory_entries d)" using e(1) by blast
    then show "0 < e_seq m \<and> e_seq m \<le> store_head d' (e_repository m)"
      using o(1)[of m] le[of "e_repository m"] e(2,3,4) by cases (simp_all add: h)
  next
    fix q assume "q \<in> set (memory_cursors d')"
    then have "cursor_fits d q" using o(3) c(1) by simp
    then show "cursor_fits d' q" using le[of "cu_repository q"] by (simp add: cursor_fits_def)
  next
    fix s assume "s \<in> set (memory_snapshots d')"
    then show "0 \<le> sn_head s \<and> sn_head s \<le> store_head d' (sn_repository s)" using o(4)[of s] c(2) le[of "sn_repository s"] by simp
  qed (use o(2,5) c in simp_all)
  show "feed_step (feed d) (feed d')" by (simp add: feed_def h c(1) feed_step.publish)
qed

lemma acquire_feed: "acquire store i c epoch opts now dur d = Inr (l, d') \<Longrightarrow> feed_same d d'"
  by (erule acquire_Inr) (simp add: feed_same_def heads_def heads_update)

lemma set_bundle_feed [simp]: "feed_same d (set_bundle store g f d)"
  by (simp add: feed_same_def heads_def set_bundle_def)

lemma renew_feed: "renew actor store i c g rv now dur d = Inr (l, d') \<Longrightarrow> feed_same d d'"
  by (auto simp: renew_def Let_def split: if_splits)

lemma progress_feed: "progress_claim store i c g epoch now d = Inr d' \<Longrightarrow> feed_same d d'"
  by (auto simp: progress_claim_def)

lemma release_feed: "release store i c g now d = Inr d' \<Longrightarrow> feed_same d d'"
  by (auto simp: release_def end_claim_def)

lemma scope_feed: "scope x store w c a now d = Inr d' \<Longrightarrow> feed_same d d'"
  by (auto simp: scope_def Let_def feed_same_def heads_def)

lemma overdue_feed: "overdue store g epoch d = Inr (y, d') \<Longrightarrow> feed_same d d'"
  by (auto simp: overdue_def split: if_splits option.splits)

lemma expire_feed: "feed_same d (snd (expire store g now d))"
  by (auto simp: expire_def end_claim_def split: if_splits option.splits)

lemma sendTx_feed: "sendTx ps now caller to body dash d = Inr (y, d') \<Longrightarrow> feed_same d d'"
  by (auto simp: sendTx_def resolve_recipient_def ensureParticipantInbox_def next_seq_def insert_message_def bumpInbox_def
      Let_def feed_same_def heads_def split: option.splits if_splits prod.splits)

lemma handoff_feed: "notifyCheckoutHandoff e m r d = Inr (y, d') \<Longrightarrow> feed_same d d'"
  by (auto simp: notifyCheckoutHandoff_def split: option.splits if_splits dest: sendTx_feed)

lemma storeReplay_feed: "storeReplay x store m r actor print y now d = Inr (z, d') \<Longrightarrow> feed_same d d'"
  by (auto simp: storeReplay_def feed_same_def heads_def split: if_splits)

lemma create_feed: "apply_create x store m r now d = Inr (kind, w, d') \<Longrightarrow> feed_same d d'"
  by (auto simp: apply_create_def work_counter_def counter_def scope_def Let_def feed_same_def heads_def heads_update
      split: if_splits prod.splits)

lemma start_feed: "apply_start x store m r actor now w d = Inr (kind, w', d') \<Longrightarrow> feed_same d d'"
proof -
  assume "apply_start x store m r actor now w d = Inr (kind, w', d')"
  then obtain got d1 where a: "acquire store (w_work_id w) (m_consumer m) (w_progress_epoch w + 1) (q_res r) now (lease_seconds r) d = Inr (got, d1)"
    and d': "d' = (if actor \<noteq> [] then set_bundle store (l_generation got) (\<lambda>b. b\<lparr>b_native_actor := actor\<rparr>) d1 else d1)"
    by (auto simp: apply_start_def Let_def)
  show ?thesis unfolding d' using feed_same_trans[OF acquire_feed[OF a]] acquire_feed[OF a] by simp
qed

lemma update_feed: "apply_update x store m r now w d = Inr (kind, w', d') \<Longrightarrow> feed_same d d'"
proof -
  assume u: "apply_update x store m r now w d = Inr (kind, w', d')"
  then obtain d1 where p: "progress_claim store (w_work_id w) (m_consumer m) (int_of r ''claim_generation'') (w_progress_epoch w + 1) now d = Inr d1"
    by (auto simp: apply_update_def Let_def)
  have "feed_same d1 d'" using u p by (auto simp: apply_update_def Let_def split: option.splits intro: renew_feed)
  then show ?thesis by (rule feed_same_trans[OF progress_feed[OF p]])
qed

lemma transition_feed: "transition_of x l store m r actor now w d = Inr (kind, w', d') \<Longrightarrow> feed_same d d'"
  by (auto simp: transition_of_def apply_propose_def apply_edit_def apply_ending_def apply_report_def apply_verdict_def Let_def
      split: if_splits dest: start_feed update_feed intro: scope_feed release_feed)

lemma event_feed:
  assumes e: "event x store m w kind c a now d = Inr (w1, d')" and wf: "stores_wf d" and ok: "feed_ok d"
    and repo: "repo_store d (m_repository m) store"
  shows "feed_ok d' \<and> feed_step (feed d) (feed d')"
proof -
  obtain s :: storeRow and v where s: "List.find (\<lambda>m. ms_store_id m = store) (memory_stores d) = Some s"
    and d': "d' = d\<lparr>memory_stores := update_where (\<lambda>q. ms_store_id q = store) (\<lambda>q. q\<lparr>ms_head := ms_head q + 1\<rparr>) (memory_stores d),
       work_items := update_where (\<lambda>q. w_store q = store \<and> w_work_id q = w_work_id w) (\<lambda>q. stored q w1) (work_items d),
       memory_entries := memory_entries d @ [event_entry m (ms_head s + 1) now w1 c a],
       work_events := work_events d @ [event_row store m w1 kind v]\<rparr>"
    by (rule event_Inr[OF e])
  obtain h where h: "h \<in> set (heads d)" "fst h = m_repository m" "fst (snd h) = store" using repo_store_head[OF repo] by blast
  have hd: "heads d' = raised store (heads d)" by (simp add: d' heads_def heads_raised)
  note up = raised_head[OF wf hd h(1,3)]
  have pos: "store_head d (m_repository m) = ms_head s" "0 \<le> store_head d (m_repository m)"
    using up(2) h(2) head_of_store[OF s] store_head_nonneg[OF wf, of "m_repository m"] by simp_all
  have "feed_ok d'" "feed_step (feed d) (feed d')"
    using feed_publish[OF ok up(1)[unfolded h(2)], of "event_entry m (ms_head s + 1) now w1 c a"] pos
    by (simp_all add: d' event_entry_def)
  then show ?thesis by simp
qed

lemma commit_transition_feed:
  assumes "commit_transition e store m r actor now print (kind, w, d) = Inr (y, d')"
  obtains w1 d1 where "event (wk_ext e) store m w kind (m_consumer m) (optional r ''author'') now d = Inr (w1, d1)" "feed_same d1 d'"
proof -
  from assms obtain w1 d1 d2 message claim where
    e: "event (wk_ext e) store m w kind (m_consumer m) (optional r ''author'') now d = Inr (w1, d1)"
    and h: "(if has r ''handoff_to'' then rbind (notifyCheckoutHandoff e m r d1) (\<lambda>(o1, d2). Inr (Some o1, d2)) else Inr (None, d1)) = Inr (message, d2)"
    and s: "storeReplay (wk_ext e) store m r actor print (work_result w1 (Some (w_latest_seq w1)) claim message) now d2 = Inr (y, d')"
    by (auto simp: commit_transition_def Let_def split: prod.splits)
  have "feed_same d1 d2" using h handoff_feed by (auto split: if_splits prod.splits)
  then show thesis using that[OF e] storeReplay_feed[OF s] feed_same_trans by blast
qed

lemma prepared_event_feed:
  assumes "feed_same d d1" "event x store m w kind c a now d1 = Inr (w1, d2)" "stores_wf d" "feed_ok d" "repo_store d (m_repository m) store"
  shows "feed_ok d2 \<and> feed_step (feed d) (feed d2)"
proof -
  have h: "heads d1 = heads d" using assms(1) by (simp add: feed_same_def)
  have "stores_wf d1" using assms(3) by (simp add: stores_wf_def h)
  moreover have "repo_store d1 (m_repository m) store"
  proof -
    have m: "map_option ms_store_id (List.find (\<lambda>m. ms_repository m = r) t)
        = map_option (\<lambda>h. fst (snd h)) (List.find (\<lambda>h. fst h = r) (map (\<lambda>m. (ms_repository m, ms_store_id m, ms_head m)) t))" for r t
      by (induction t) auto
    have "repo_store q r s \<longleftrightarrow> map_option ms_store_id (List.find (\<lambda>m. ms_repository m = r) (memory_stores q)) = Some s" for q r s
      by (auto simp: repo_store_def)
    then show ?thesis using assms(5) h by (simp add: m heads_def)
  qed
  ultimately show ?thesis using event_feed[OF assms(2)] feed_sameD[OF assms(1)] assms(4) by simp
qed

lemma apply_work_feed:
  assumes inv: "work_inv now d" and ok: "feed_ok d" and repo: "repo_store d (m_repository m) store"
    and a: "apply_work e store m r now print d = Inr (y, d')"
  shows "feed_ok d' \<and> feed_step\<^sup>*\<^sup>* (feed d) (feed d')"
proof -
  have committed: ?thesis
    if t: "feed_same d d1" and c: "commit_transition e store m r actor now print (kind, w, d1) = Inr (y, d')" for actor kind w d1
  proof -
    obtain w1 d2 where ev: "event (wk_ext e) store m w kind (m_consumer m) (optional r ''author'') now d1 = Inr (w1, d2)" "feed_same d2 d'"
      by (rule commit_transition_feed[OF c])
    show ?thesis
      using prepared_event_feed[OF t ev(1) work_invD(1)[OF inv] ok repo] feed_sameD[OF ev(2)] by (simp add: r_into_rtranclp)
  qed
  show ?thesis
  proof (cases "q_op r = ''work-create''")
    case True
    then obtain kind w d1 where "apply_create (wk_ext e) store m r now d = Inr (kind, w, d1)"
      "commit_transition e store m r (q_actor r) now print (kind, w, d1) = Inr (y, d')"
      using a by (auto simp: apply_work_def Let_def)
    then show ?thesis using committed create_feed by blast
  next
    case False
    then obtain q actor where q: "current d store (text_of r ''work_id'') now = Inr q"
      and rest: "(if q_op r = ''claim-renew'' then
          rbind (renew (koinon_native_work_actor (wk_ext e)) store (w_work_id q) (m_consumer m) (int_of r ''claim_generation'')
                   (int_of r ''if_claim_revision'') now (lease_seconds r) d) (\<lambda>(renewed, d1).
            storeReplay (wk_ext e) store m r actor print (work_result q None (Some renewed) None) now d1)
        else
          rbind (revise r q) (\<lambda>w1.
          rbind (transition_of (wk_ext e) (wk_limits e) store m r actor now w1 d) (commit_transition e store m r actor now print))) = Inr (y, d')"
      using a by (auto simp: apply_work_def Let_def)
    show ?thesis
    proof (cases "q_op r = ''claim-renew''")
      case True
      then have "feed_same d d'" using rest by (auto split: prod.splits intro: feed_same_trans[OF renew_feed storeReplay_feed])
      then show ?thesis using feed_sameD[of d d'] ok by simp
    next
      case renew: False
      then obtain w kind w2 d1 where "transition_of (wk_ext e) (wk_limits e) store m r actor now w d = Inr (kind, w2, d1)"
        "commit_transition e store m r actor now print (kind, w2, d1) = Inr (y, d')"
        using rest by auto
      then show ?thesis using committed transition_feed by blast
    qed
  qed
qed

lemma reconcile_feed:
  assumes inv: "work_inv now d" and ok: "feed_ok d" and repo: "repo_store d repo store"
    and t: "reconcile_tx x repo now q b store d = Inr (u, d')"
  shows "feed_ok d' \<and> feed_step\<^sup>*\<^sup>* (feed d) (feed d')"
proof -
  let ?m = "\<lparr>m_repository = repo, m_family = [], m_name = [], m_consumer = [], m_native = key [] [], m_consumer_explicit = False\<rparr>"
  have rm: "repo_store d (m_repository ?m) store" using repo by simp
  have closing: ?thesis if "feed_same d d1" "event x store ?m w kind c None now d1 = Inr (w2, d')" for d1 w kind c w2
    using prepared_event_feed[OF that work_invD(1)[OF inv] ok rm] by blast
  show ?thesis
  proof (cases "b_expires_at b \<le> now")
    case True
    then show ?thesis using t closing[OF expire_feed] by (auto simp: reconcile_tx_def Let_def)
  next
    case False
    then show ?thesis using t closing[OF overdue_feed] by (auto simp: reconcile_tx_def Let_def)
  qed
qed

section \<open>Cleanup only retires\<close>

lemma feed_shrinks:
  assumes ok: "feed_ok d" and h: "store_head d' = store_head d" and e: "set (memory_entries d') \<subseteq> set (memory_entries d)"
    and c: "memory_cursors d' = filter P (memory_cursors d)" and s: "set (memory_snapshots d') \<subseteq> set (memory_snapshots d)"
  shows "feed_ok d' \<and> feed_step\<^sup>*\<^sup>* (feed d) (feed d')"
proof
  note o = feed_okD[OF ok]
  have fit: "cursor_fits d' = cursor_fits d" by (simp add: fun_eq_iff cursor_fits_def h)
  show "feed_ok d'"
  proof (rule feed_okI)
    show "distinct (map cursor_key (memory_cursors d'))" unfolding c by (rule distinct_map_filter[OF o(2)])
  qed (use o(1,3,4,5) e s in \<open>auto simp: h fit c\<close>)
  show "feed_step\<^sup>*\<^sup>* (feed d) (feed d')"
    unfolding feed_def h c cursors_at_filter[OF o(2)] by (rule retire_all)
qed

lemma raise_floor_heads [simp]: "heads (raise_floor P n l d) = heads d"
  by (simp add: raise_floor_def heads_def map_update_where)

lemma expire_entries_feed:
  assumes ok: "feed_ok d" and x: "expire_entries x repo t d = Inr (n, d')"
  shows "feed_ok d' \<and> feed_step\<^sup>*\<^sup>* (feed d) (feed d')"
proof (rule feed_shrinks[OF ok, where P = "\<lambda>_. True"])
  have "heads d' = heads d" using x by (auto simp: expire_entries_def Let_def split: if_splits) (simp add: heads_def)
  then show "store_head d' = store_head d" by (rule store_head_cong)
qed (use x in \<open>auto simp: expire_entries_def Let_def raise_floor_def split: if_splits\<close>)

lemma expire_windows_feed:
  assumes ok: "feed_ok d" and x: "expire_windows l repo t d = Inr (u, d')"
  shows "feed_ok d' \<and> feed_step\<^sup>*\<^sup>* (feed d) (feed d')"
proof (rule feed_shrinks[OF ok])
  show "store_head d' = store_head d" by (rule store_head_cong) (use x in \<open>auto simp: expire_windows_def Let_def heads_def\<close>)
  show "memory_cursors d' = filter (\<lambda>c. \<not> (cu_repository c = repo \<and> cu_updated c < t - lm_consumer_ttl l)) (memory_cursors d)"
    using x by (auto simp: expire_windows_def Let_def)
qed (use x in \<open>auto simp: expire_windows_def Let_def\<close>)

lemma ensure_store_head: "store_head (ensure_store repo i d) = store_head d"
proof
  fix r
  show "store_head (ensure_store repo i d) r = store_head d r"
    by (cases "List.find (\<lambda>m. ms_repository m = r) (memory_stores d)") (auto simp: store_head_def ensure_store_def find_append)
qed

lemma ensure_store_feed: "feed_ok d \<Longrightarrow> feed_ok (ensure_store repo i d) \<and> feed_step\<^sup>*\<^sup>* (feed d) (feed (ensure_store repo i d))"
  by (rule feed_shrinks[OF _ ensure_store_head, where P = "\<lambda>_. True"]) (auto simp: ensure_store_def)

lemma delete_inactive_feed: "feed_same d (delete_inactive store q d)"
  by (simp add: delete_inactive_def delete_bundle_def feed_same_def heads_def)

lemma reclaimOne_feed: "reclaimOne store d = Inr (y, d') \<Longrightarrow> feed_same d d'"
  by (auto simp: reclaimOne_def delete_bundle_def feed_same_def heads_def split: list.splits if_splits)

lemma reclaim_item_feed:
  assumes ok: "feed_ok d" and x: "reclaim_item l repo i bound store d = Inr (y, d')"
  shows "feed_ok d' \<and> feed_step\<^sup>*\<^sup>* (feed d) (feed d')"
proof (cases y)
  case True
  have d': "d' = (delete_item repo store i d)\<lparr>memory_stores :=
      update_where (\<lambda>m. ms_store_id m = store) (\<lambda>m. m\<lparr>ms_floor := max (ms_floor m) (foldr max (map we_seq (events_of d store i)) 0)\<rparr>) (memory_stores d)\<rparr>"
    using reclaim_item_Inr[OF x] True by simp
  show ?thesis
  proof (rule feed_shrinks[OF ok, where P = "\<lambda>_. True"])
    show "store_head d' = store_head d"
      by (rule store_head_cong) (simp add: d' heads_def map_update_where)
  qed (auto simp: d' delete_item_def)
qed (use reclaim_item_Inr[OF x] ok in simp)

interpretation feeding: work_interface "feed_on d0" fresh_ids for d0
proof (unfold_locales, goal_cases)
  case (1 now d e repo)
  then show ?case using feed_on_steps[OF 1(1) ensure_store_inv[OF feed_onD(1)[OF 1(1)] 1(2)]] ensure_store_feed[OF feed_onD(2)[OF 1(1)]] by blast
next
  case (2 now d x repo t n d')
  note inv = feed_onD[OF 2(1)]
  show ?case using feed_on_steps[OF 2(1) expire_entries_inv[OF inv(1) 2(2)]] expire_entries_feed[OF inv(2) 2(2)] by blast
next
  case (3 now d l repo t d')
  note inv = feed_onD[OF 3(1)]
  show ?case using feed_on_steps[OF 3(1) expire_windows_inv[OF inv(1) 3(2)]] expire_windows_feed[OF inv(2) 3(2)] by blast
next
  case (4 now d e r m store print y d' cls)
  note inv = feed_onD[OF 4(1)]
  show ?case using feed_on_steps[OF 4(1) apply_work_inv[OF inv(1) 4(3,4,5)]] apply_work_feed[OF inv 4(4,5)] by blast
next
  case (5 now d e repo store i w b d')
  note inv = feed_onD[OF 5(1)]
  show ?case using feed_on_steps[OF 5(1) reconcile_inv[OF inv(1) 5(3-7,9)]] reconcile_feed[OF inv 5(3,9)] by blast
next
  case (6 now d store i q)
  show ?case by (rule feed_on_same[OF 6(1) delete_inactive_work_inv[OF feed_onD(1)[OF 6(1)] 6(2,3)] delete_inactive_feed])
next
  case (7 now d store y d')
  show ?case by (rule feed_on_same[OF 7(1) reclaimOne_work_inv[OF feed_onD(1)[OF 7(1)] 7(2)] reclaimOne_feed[OF 7(2)]])
next
  case (8 now d repo store l i bound y d')
  note inv = feed_onD[OF 8(1)]
  show ?case using feed_on_steps[OF 8(1) reclaim_work_inv[OF inv(1) 8(2,3)]] reclaim_item_feed[OF inv(2) 8(3)] by blast
qed

section \<open>Moving a cursor\<close>

definition cursor_view :: "cursorRow \<Rightarrow> memoryCursor" where
  "cursor_view c = \<lparr>mc_seq = cu_seq c, mc_issued = cu_issued c, mc_snapshot = cu_snapshot c, mc_bootstrapped = cu_bootstrapped c,
     mc_resnapshot = cu_resnapshot c\<rparr>"

lemma feed_on_move:
  assumes on: "feed_on d0 now d" and frame: "work_frame d d'"
    and cs: "memory_cursors d' = update_where (\<lambda>q. cursor_key q = k) f (memory_cursors d)" and key: "\<And>c. cursor_key (f c) = cursor_key c"
    and fit: "\<And>c. c \<in> set (memory_cursors d) \<Longrightarrow> cursor_key c = k \<Longrightarrow> cursor_fits d (f c)"
    and step: "\<And>c. c \<in> set (memory_cursors d) \<Longrightarrow> cursor_key c = k \<Longrightarrow>
      feed_step\<^sup>*\<^sup>* (feed d) (store_head d, (cursors_at (memory_cursors d))(k \<mapsto> (cu_seq (f c), cu_issued (f c))))"
    and snaps: "\<And>s. s \<in> set (memory_snapshots d') \<Longrightarrow> 0 \<le> sn_head s \<and> sn_head s \<le> store_head d (sn_repository s)"
    and links: "\<And>c s. c \<in> set (memory_cursors d') \<Longrightarrow> s \<in> set (memory_snapshots d') \<Longrightarrow> open_for s c \<Longrightarrow> cu_seq c \<le> sn_head s"
  shows "feed_on d0 now d'"
proof -
  note o = feed_okD[OF feed_onD(2)[OF on]]
  have h: "store_head d' = store_head d" by (rule store_head_cong) (use frame in \<open>simp add: work_frame_def heads_def\<close>)
  have inv: "work_inv now d'" using work_frame_inv[OF frame] feed_onD(1)[OF on] by simp
  have ok: "feed_ok d'"
  proof (rule feed_okI)
    show "distinct (map cursor_key (memory_cursors d'))" unfolding cs by (simp add: map_update_where key o(2))
    fix c assume "c \<in> set (memory_cursors d')"
    then obtain q where "q \<in> set (memory_cursors d)" "c = (if cursor_key q = k then f q else q)" by (auto simp: cs in_update_where)
    then show "cursor_fits d' c" using fit[of q] o(3)[of q] by (auto simp: cursor_fits_def h)
  qed (use o(1) frame snaps links in \<open>simp_all add: work_frame_def h\<close>)
  have "feed_step\<^sup>*\<^sup>* (feed d) (feed d')"
  proof (cases "\<exists>c\<in>set (memory_cursors d). cursor_key c = k")
    case True
    then obtain c where c: "c \<in> set (memory_cursors d)" "cursor_key c = k" by blast
    have "cursors_at (memory_cursors d') = (cursors_at (memory_cursors d))(k \<mapsto> (cu_seq (f c), cu_issued (f c)))"
      using cursors_at_update[OF o(2) c(1) key] unfolding cs c(2) .
    then show ?thesis using step[OF c] by (simp add: feed_def h)
  next
    case False
    then have "memory_cursors d' = memory_cursors d" unfolding cs update_where_def by (intro map_idI) auto
    then show ?thesis by (simp add: feed_def h)
  qed
  then show ?thesis using feed_on_steps[OF on inv ok] by blast
qed

lemma cursor_same_step:
  assumes "feed_ok d" "c \<in> set (memory_cursors d)" "cu_seq c' = cu_seq c" "cu_issued c' = cu_issued c"
  shows "feed_step\<^sup>*\<^sup>* (feed d) (store_head d, (cursors_at (memory_cursors d))(cursor_key c \<mapsto> (cu_seq c', cu_issued c')))"
proof -
  have "(cursors_at (memory_cursors d))(cursor_key c \<mapsto> (cu_seq c', cu_issued c')) = cursors_at (memory_cursors d)"
    using cursors_at_Some[OF feed_okD(2)[OF assms(1)] assms(2)] assms(3,4) by auto
  then show ?thesis by (simp add: feed_def)
qed

text \<open>An update that moves no cursor and opens no snapshot.\<close>

lemma set_cursor_quiet:
  assumes on: "feed_on d0 now d" and f: "\<And>c. cursor_key (f c) = cursor_key c" "\<And>c. cu_seq (f c) = cu_seq c" "\<And>c. cu_issued (f c) = cu_issued c"
    "\<And>c. cu_snapshot (f c) = cu_snapshot c \<or> cu_snapshot (f c) = None"
  shows "feed_on d0 now (set_cursor repo consumer f d)"
proof (rule feed_on_move[OF on])
  note ok = feed_onD(2)[OF on]
  note o = feed_okD[OF ok]
  have own: "own_cursor repo consumer = (\<lambda>q. cursor_key q = (repo, consumer))" by (simp add: fun_eq_iff own_cursor_key)
  show "memory_cursors (set_cursor repo consumer f d) = update_where (\<lambda>q. cursor_key q = (repo, consumer)) f (memory_cursors d)"
    by (simp add: set_cursor_def own)
  fix c assume c: "c \<in> set (memory_cursors d)" "cursor_key c = (repo, consumer)"
  have "cu_repository (f c) = cu_repository c" using f(1)[of c] by (simp add: cursor_key_def)
  then show "cursor_fits d (f c)" using o(3)[OF c(1)] f(2,3) by (simp add: cursor_fits_def)
  show "feed_step\<^sup>*\<^sup>* (feed d) (store_head d, (cursors_at (memory_cursors d))((repo, consumer) \<mapsto> (cu_seq (f c), cu_issued (f c))))"
    using cursor_same_step[OF ok c(1), of "f c"] f(2,3) c(2) by simp
next
  note o = feed_okD[OF feed_onD(2)[OF on]]
  fix c s assume "c \<in> set (memory_cursors (set_cursor repo consumer f d))" and s: "s \<in> set (memory_snapshots (set_cursor repo consumer f d))" "open_for s c"
  then obtain q where q: "q \<in> set (memory_cursors d)" "c = q \<or> c = f q" by (auto simp: set_cursor_def in_update_where split: if_splits)
  have "cu_repository (f q) = cu_repository q" "cu_consumer (f q) = cu_consumer q" using f(1)[of q] by (simp_all add: cursor_key_def)
  then have "open_for s q" "cu_seq c = cu_seq q" using s(2) q(2) f(2,4)[of q] by (auto simp: open_for_def)
  then show "cu_seq c \<le> sn_head s" using o(5)[OF q(1)] s(1) by (simp add: set_cursor_def)
qed (use feed_okD(4)[OF feed_onD(2)[OF on]] f(1) in \<open>simp_all add: set_cursor_def work_frame_def\<close>)

lemma note_actor_on: "feed_on d0 now d \<Longrightarrow> feed_on d0 now (note_actor g repo d)"
  by (cases g) (auto simp: note_actor_def cursor_key_def intro!: set_cursor_quiet)

lemma touch_body_on: "feed_on d0 now d \<Longrightarrow> feed_on d0 now (touch_body e m d)"
  by (auto simp: touch_body_def Let_def cursor_key_def intro!: set_cursor_quiet)

lemma drop_snapshot_on: "feed_on d0 now d \<Longrightarrow> feed_on d0 now (drop_snapshot m d)"
  by (auto simp: drop_snapshot_def cursor_key_def intro!: set_cursor_quiet)

lemma insert_cursor_on:
  assumes on: "feed_on d0 now d"
  shows "feed_on d0 now (insert_cursor (new_cursor e m) d)"
proof (cases "\<exists>q\<in>set (memory_cursors d). own_cursor (m_repository m) (m_consumer m) q")
  case False
  let ?d = "insert_cursor (new_cursor e m) d" and ?k = "(m_repository m, m_consumer m)"
  note inv = feed_onD[OF on]
  note o = feed_okD[OF inv(2)]
  have cs: "memory_cursors ?d = memory_cursors d @ [new_cursor e m]" and fr: "work_frame d ?d" "memory_snapshots ?d = memory_snapshots d"
    using False by (simp_all add: insert_cursor_def new_cursor_def work_frame_def)
  have h: "store_head ?d = store_head d" by (rule store_head_cong) (use fr in \<open>simp add: work_frame_def heads_def\<close>)
  have new: "cursor_key (new_cursor e m) = ?k" "cursor_fits d (new_cursor e m)" "\<not> open_for s (new_cursor e m)" for s
    using store_head_nonneg[OF work_invD(1)[OF inv(1)]] by (simp_all add: new_cursor_def cursor_key_def cursor_fits_def open_for_def)
  have fresh: "?k \<notin> set (map cursor_key (memory_cursors d))" using False by (auto simp: own_cursor_key)
  have zero: "cu_seq (new_cursor e m) = 0" "cu_issued (new_cursor e m) = 0" by (simp_all add: new_cursor_def)
  have "feed_ok ?d"
  proof (rule feed_okI)
    show "distinct (map cursor_key (memory_cursors ?d))" using o(2) fresh by (simp add: cs new(1))
    fix c assume "c \<in> set (memory_cursors ?d)"
    then show "cursor_fits ?d c" using o(3)[of c] new(2) by (auto simp: cs cursor_fits_def h)
  qed (use o(1,4,5) fr new(3) in \<open>auto simp: work_frame_def cs h\<close>)
  moreover have "feed_step (feed d) (feed ?d)"
  proof -
    have "cursors_at (memory_cursors ?d) = (cursors_at (memory_cursors d))(?k \<mapsto> (0, 0))"
    proof
      fix k
      show "cursors_at (memory_cursors ?d) k = ((cursors_at (memory_cursors d))(?k \<mapsto> (0, 0))) k"
        using cursors_at_None[OF fresh] zero unfolding cs cursors_at_def find_append
        by (cases "List.find (\<lambda>c. cursor_key c = k) (memory_cursors d)") (auto simp: new(1))
    qed
    then show ?thesis using feed_step.join[of "cursors_at (memory_cursors d)" ?k] cursors_at_None[OF fresh] by (simp add: feed_def h)
  qed
  ultimately show ?thesis using feed_on_step[OF on] work_frame_inv[OF fr(1)] inv(1) by simp
next
  case True
  then have "insert_cursor (new_cursor e m) d = d" by (simp add: insert_cursor_def new_cursor_def)
  then show ?thesis using on by simp
qed

lemma issue_delta_on:
  assumes on: "feed_on d0 now d" and j: "j \<le> store_head d (m_repository m)"
  shows "feed_on d0 now (issue_delta m j d)"
proof (rule feed_on_move[OF on])
  let ?f = "\<lambda>c. if cu_issued c < j then c\<lparr>cu_issued := j\<rparr> else c" and ?k = "(m_repository m, m_consumer m)"
  note ok = feed_onD(2)[OF on]
  note o = feed_okD[OF ok]
  show "memory_cursors (issue_delta m j d) = update_where (\<lambda>q. cursor_key q = ?k) ?f (memory_cursors d)"
    by (auto simp: issue_delta_def update_where_def own_cursor_key)
  fix c assume c: "c \<in> set (memory_cursors d)" "cursor_key c = ?k"
  have r: "cu_repository c = m_repository m" using c(2) by (simp add: cursor_key_def)
  show "cursor_fits d (?f c)" using o(3)[OF c(1)] j by (simp add: cursor_fits_def r)
  show "feed_step\<^sup>*\<^sup>* (feed d) (store_head d, (cursors_at (memory_cursors d))(?k \<mapsto> (cu_seq (?f c), cu_issued (?f c))))"
  proof (cases "cu_issued c < j")
    case True
    have "feed_step (feed d) (store_head d, (cursors_at (memory_cursors d))(?k \<mapsto> (cu_seq c, j)))"
      unfolding feed_def by (rule feed_step.issue[OF _ True]) (use cursors_at_Some[OF o(2) c(1)] c(2) j in simp_all)
    then show ?thesis using True by simp
  next
    case False
    then show ?thesis using cursor_same_step[OF ok c(1), of c] c(2) by simp
  qed
next
  note o = feed_okD[OF feed_onD(2)[OF on]]
  fix c s assume "c \<in> set (memory_cursors (issue_delta m j d))" and s: "s \<in> set (memory_snapshots (issue_delta m j d))" "open_for s c"
  then obtain q where q: "q \<in> set (memory_cursors d)" "c = q \<or> c = q\<lparr>cu_issued := j\<rparr>"
    by (auto simp: issue_delta_def in_update_where split: if_splits)
  then show "cu_seq c \<le> sn_head s" using o(5)[OF q(1), of s] s by (auto simp: issue_delta_def open_for_def)
qed (use feed_okD(4)[OF feed_onD(2)[OF on]] in \<open>simp_all add: issue_delta_def work_frame_def cursor_key_def\<close>)

lemma freeze_body_on:
  assumes on: "feed_on d0 now d" and b: "freeze_body e m i head payloads d = Inr (u, d')"
    and below: "\<And>c. c \<in> set (memory_cursors d) \<Longrightarrow> own_cursor (m_repository m) (m_consumer m) c \<Longrightarrow> cu_seq c \<le> head"
    and head: "0 \<le> head" "head \<le> store_head d (m_repository m)"
  shows "feed_on d0 now d'"
proof (rule feed_on_move[OF on])
  let ?f = "\<lambda>c. c\<lparr>cu_snapshot := Some i\<rparr>" and ?k = "(m_repository m, m_consumer m)"
  define s where "s = \<lparr>sn_id = i, sn_repository = m_repository m, sn_consumer = m_consumer m, sn_head = head, sn_created = nv_clock e,
      sn_items = int (length payloads), sn_issued = 0, sn_acked = False, sn_acked_at = None\<rparr>"
  note ok = feed_onD(2)[OF on]
  note o = feed_okD[OF ok]
  have fresh: "fresh_key sn_id s (memory_snapshots d)" and d': "memory_cursors d' = update_where (own_cursor (m_repository m) (m_consumer m)) ?f (memory_cursors d)"
    "memory_snapshots d' = memory_snapshots d @ [s]" and fr: "work_frame d d'"
    using b by (auto simp: freeze_body_def s_def set_cursor_def work_frame_def)
  have own: "own_cursor (m_repository m) (m_consumer m) = (\<lambda>q. cursor_key q = ?k)" by (simp add: fun_eq_iff own_cursor_key)
  show "memory_cursors d' = update_where (\<lambda>q. cursor_key q = ?k) ?f (memory_cursors d)" by (simp add: d'(1) own)
  show "work_frame d d'" by (rule fr)
  fix q assume q: "q \<in> set (memory_snapshots d')"
  then show "0 \<le> sn_head q \<and> sn_head q \<le> store_head d (sn_repository q)" using o(4)[of q] head by (auto simp: d'(2) s_def)
  fix c assume c: "c \<in> set (memory_cursors d')" "open_for q c"
  obtain c0 where c0: "c0 \<in> set (memory_cursors d)" "c = (if own_cursor (m_repository m) (m_consumer m) c0 then ?f c0 else c0)"
    using c(1) by (auto simp: d'(1) in_update_where)
  show "cu_seq c \<le> sn_head q"
  proof (cases "own_cursor (m_repository m) (m_consumer m) c0")
    case True
    then have "sn_id q = i" using c(2) c0(2) by (simp add: open_for_def)
    then have "q = s" using q fresh by (auto simp: d'(2) fresh_key_def s_def)
    then show ?thesis using below[OF c0(1) True] c0(2) True by (simp add: s_def)
  next
    case False
    then have "c = c0" using c0(2) by simp
    moreover have "q \<noteq> s" using c(2) False \<open>c = c0\<close> by (auto simp: open_for_def s_def own_cursor_def)
    ultimately show ?thesis using o(5)[OF c0(1)] q c(2) by (auto simp: d'(2))
  qed
next
  note ok = feed_onD(2)[OF on]
  fix c assume c: "c \<in> set (memory_cursors d)" "cursor_key c = (m_repository m, m_consumer m)"
  show "cursor_fits d (c\<lparr>cu_snapshot := Some i\<rparr>)" using feed_okD(3)[OF ok c(1)] by (simp add: cursor_fits_def)
  show "feed_step\<^sup>*\<^sup>* (feed d) (store_head d, (cursors_at (memory_cursors d))((m_repository m, m_consumer m) \<mapsto>
      (cu_seq (c\<lparr>cu_snapshot := Some i\<rparr>), cu_issued (c\<lparr>cu_snapshot := Some i\<rparr>))))"
    using cursor_same_step[OF ok c(1), of c] c(2) by simp
qed (simp add: cursor_key_def)

lemma raise_issued_on:
  assumes on: "feed_on d0 now d"
  shows "feed_on d0 now (raise_issued i j d)"
proof -
  note o = feed_okD[OF feed_onD(2)[OF on]]
  let ?d = "raise_issued i j d"
  have fr: "work_frame d ?d" "memory_cursors ?d = memory_cursors d" by (simp_all add: raise_issued_def work_frame_def)
  have h: "store_head ?d = store_head d" by (rule store_head_cong) (simp add: raise_issued_def heads_def)
  have prior: "\<exists>q\<in>set (memory_snapshots d). sn_head s = sn_head q \<and> sn_repository s = sn_repository q \<and> sn_consumer s = sn_consumer q
      \<and> sn_id s = sn_id q \<and> sn_acked s = sn_acked q" if "s \<in> set (memory_snapshots ?d)" for s
    using that by (auto simp: raise_issued_def in_update_where)
  have "feed_ok ?d"
  proof (rule feed_okI)
    fix s assume "s \<in> set (memory_snapshots ?d)"
    then show "0 \<le> sn_head s \<and> sn_head s \<le> store_head ?d (sn_repository s)" using prior[of s] o(4) by (auto simp: h)
  next
    fix c s assume "c \<in> set (memory_cursors ?d)" "s \<in> set (memory_snapshots ?d)" "open_for s c"
    then show "cu_seq c \<le> sn_head s" using prior[of s] o(5)[of c] fr(2) by (auto simp: open_for_def)
  qed (use o(1,2,3) fr in \<open>auto simp: work_frame_def h cursor_fits_def\<close>)
  then show ?thesis using feed_on_steps[OF on] work_frame_inv[OF fr(1)] feed_onD(1)[OF on] by (simp add: feed_def h fr(2))
qed

lemma ack_delta_on:
  assumes on: "feed_on d0 now d"
    and w: "\<And>c. c \<in> set (memory_cursors d) \<Longrightarrow> own_cursor (m_repository m) (m_consumer m) c \<Longrightarrow> cu_seq c \<le> t \<and> t \<le> cu_issued c
      \<and> cu_snapshot c = None"
  shows "feed_on d0 now (set_cursor (m_repository m) (m_consumer m) (\<lambda>c. c\<lparr>cu_seq := t\<rparr>) d)"
proof (rule feed_on_move[OF on])
  let ?d = "set_cursor (m_repository m) (m_consumer m) (\<lambda>c. c\<lparr>cu_seq := t\<rparr>) d" and ?k = "(m_repository m, m_consumer m)"
  note o = feed_okD[OF feed_onD(2)[OF on]]
  have own: "own_cursor (m_repository m) (m_consumer m) = (\<lambda>q. cursor_key q = ?k)" by (simp add: fun_eq_iff own_cursor_key)
  show "memory_cursors ?d = update_where (\<lambda>q. cursor_key q = ?k) (\<lambda>c. c\<lparr>cu_seq := t\<rparr>) (memory_cursors d)"
    by (simp add: set_cursor_def own)
  fix c assume c: "c \<in> set (memory_cursors d)" "cursor_key c = ?k"
  have b: "cu_seq c \<le> t" "t \<le> cu_issued c" using w[OF c(1)] c(2) by (simp_all add: own)
  show "cursor_fits d (c\<lparr>cu_seq := t\<rparr>)" using o(3)[OF c(1)] b by (simp add: cursor_fits_def)
  have "feed_step (feed d) (store_head d, (cursors_at (memory_cursors d))(?k \<mapsto> (t, cu_issued c)))"
    unfolding feed_def by (rule feed_step.acknowledge[OF _ b]) (use cursors_at_Some[OF o(2) c(1)] c(2) in simp)
  then show "feed_step\<^sup>*\<^sup>* (feed d) (store_head d, (cursors_at (memory_cursors d))(?k \<mapsto> (cu_seq (c\<lparr>cu_seq := t\<rparr>), cu_issued (c\<lparr>cu_seq := t\<rparr>))))"
    by simp
next
  note o = feed_okD[OF feed_onD(2)[OF on]]
  let ?d = "set_cursor (m_repository m) (m_consumer m) (\<lambda>c. c\<lparr>cu_seq := t\<rparr>) d"
  fix c s assume "c \<in> set (memory_cursors ?d)" and s: "s \<in> set (memory_snapshots ?d)" "open_for s c"
  then obtain q where q: "q \<in> set (memory_cursors d)" "c = (if own_cursor (m_repository m) (m_consumer m) q then q\<lparr>cu_seq := t\<rparr> else q)"
    by (auto simp: set_cursor_def in_update_where)
  have "c = q" using q(2) w[OF q(1)] s(2) by (auto simp: open_for_def split: if_splits)
  then show "cu_seq c \<le> sn_head s" using o(5)[OF q(1)] s by (simp add: set_cursor_def)
qed (use feed_okD(4)[OF feed_onD(2)[OF on]] in \<open>simp_all add: set_cursor_def work_frame_def cursor_key_def\<close>)

lemma ack_snapshot_on:
  assumes on: "feed_on d0 now d" and head: "j \<le> store_head d (m_repository m)"
    and w: "\<And>c. c \<in> set (memory_cursors d) \<Longrightarrow> own_cursor (m_repository m) (m_consumer m) c \<Longrightarrow> cu_seq c \<le> j"
  shows "feed_on d0 now (ack_snapshot_body e m i j d)"
proof (rule feed_on_move[OF on])
  let ?f = "\<lambda>c. c\<lparr>cu_seq := j, cu_issued := max (cu_issued c) j, cu_snapshot := None, cu_bootstrapped := True, cu_resnapshot := False\<rparr>"
  let ?d = "ack_snapshot_body e m i j d" and ?k = "(m_repository m, m_consumer m)"
  note o = feed_okD[OF feed_onD(2)[OF on]]
  have own: "own_cursor (m_repository m) (m_consumer m) = (\<lambda>q. cursor_key q = ?k)" by (simp add: fun_eq_iff own_cursor_key)
  show "memory_cursors ?d = update_where (\<lambda>q. cursor_key q = ?k) ?f (memory_cursors d)"
    by (simp add: ack_snapshot_body_def set_cursor_def own)
  fix c assume c: "c \<in> set (memory_cursors d)" "cursor_key c = ?k"
  have b: "cu_seq c \<le> j" "cu_repository c = m_repository m" using w[OF c(1)] c(2) by (simp_all add: own cursor_key_def)
  show "cursor_fits d (?f c)" using o(3)[OF c(1)] b head by (simp add: cursor_fits_def)
  have "feed_step (feed d) (store_head d, (cursors_at (memory_cursors d))(?k \<mapsto> (j, max (cu_issued c) j)))"
    unfolding feed_def by (rule feed_step.resync[OF _ b(1)]) (use cursors_at_Some[OF o(2) c(1)] c(2) head in simp_all)
  then show "feed_step\<^sup>*\<^sup>* (feed d) (store_head d, (cursors_at (memory_cursors d))(?k \<mapsto> (cu_seq (?f c), cu_issued (?f c))))"
    by simp
next
  note o = feed_okD[OF feed_onD(2)[OF on]]
  let ?d = "ack_snapshot_body e m i j d"
  fix s assume s: "s \<in> set (memory_snapshots ?d)"
  then obtain p where p: "p \<in> set (memory_snapshots d)" "s = p \<or> s = p\<lparr>sn_acked := True, sn_acked_at := Some (nv_clock e)\<rparr>"
    by (auto simp: ack_snapshot_body_def set_cursor_def in_update_where split: if_splits)
  then show "0 \<le> sn_head s \<and> sn_head s \<le> store_head d (sn_repository s)" using o(4)[OF p(1)] by auto
  fix c assume c: "c \<in> set (memory_cursors ?d)" "open_for s c"
  have "s = p" using p(2) c(2) by (auto simp: open_for_def)
  moreover have "c \<in> set (memory_cursors d)" using c by (auto simp: ack_snapshot_body_def set_cursor_def in_update_where open_for_def split: if_splits)
  ultimately show "cu_seq c \<le> sn_head s" using o(5)[of c p] p(1) c(2) by simp
qed (simp_all add: ack_snapshot_body_def set_cursor_def work_frame_def cursor_key_def)

section \<open>Recording a note\<close>

text \<open>An entry that differs only in its replacement marks.\<close>

definition remarked :: "entryRow \<Rightarrow> entryRow \<Rightarrow> bool" where
  "remarked n n' \<longleftrightarrow> (\<exists>a b. n' = n\<lparr>e_superseded_by := a, e_revoked_by := b\<rparr>)"

lemma remarkedD:
  assumes "remarked n n'"
  shows "e_repository n' = e_repository n" "e_seq n' = e_seq n" "e_type n' = e_type n" "stream_row n' v = stream_row n v"
  using assms by (auto simp: remarked_def stream_row_def)

lemma note_work_inv:
  assumes inv: "work_inv now d" and h: "heads d' = raised store (heads d)"
    and e: "memory_entries d' = map f (memory_entries d @ [n])" "\<And>x. remarked x (f x)" "entry_ok n (memory_entries d)" "e_type n \<noteq> ''work-event''"
    and w: "work_items d' = work_items d" "work_events d' = work_events d" "work_scope_revisions d' = work_scope_revisions d"
      "claim_bundles d' = claim_bundles d" "claim_resources d' = claim_resources d" "map claim_count (memory_stores d') = map claim_count (memory_stores d)"
  shows "work_inv now d'"
proof (rule work_invI)
  note i = work_invD[OF inv]
  show st: "stores_wf d'"
    unfolding stores_wf_def h raised_wf
  proof (intro conjI ballI)
    fix q assume "q \<in> set (raised store (heads d))"
    then obtain q0 where "q0 \<in> set (heads d)" "fst (snd q) = fst (snd q0)" "snd (snd q0) \<le> snd (snd q)" using raised_mem by blast
    then show "fst (snd q) \<noteq> []" "0 \<le> snd (snd q)" using i(1) by (auto simp: stores_wf_def)
  qed (use i(1) in \<open>simp_all add: stores_wf_def\<close>)
  show "items_wf d'" using i(2) by (simp add: items_wf_def w)
  have grow: "head_of d s \<le> head_of d' s" for s
    by (cases "List.find (\<lambda>h. fst (snd h) = s) (heads d)") (auto simp: head_of_def h find_raised)
  show "events_wf d'" unfolding events_wf_def w using i(3) grow order_trans unfolding events_wf_def by blast
  show "history_ok d'" using i(4) traced_cong[OF w(2)] by (simp add: history_ok_def w)
  show "scopes_ok d'" using i(6) by (simp add: scopes_ok_def w)
  show "claims_ok d'" using i(7) by (simp add: claims_ok_def w)
  show "credits_ok d'" using i(9) by (simp add: credits_ok_def credits_in_def w)
  show "lease_inv now d'" using i(8) lease_inv_cong[OF w(4,5,6)] by simp
  have keys: "map (\<lambda>n. (e_repository n, e_seq n)) (map f t) = map (\<lambda>n. (e_repository n, e_seq n)) t" for t
    using remarkedD(1,2)[OF e(2)] by simp
  show "stream_ok d'"
    unfolding stream_ok_def w
  proof (intro conjI ballI impI)
    show "distinct (map (\<lambda>n. (e_repository n, e_seq n)) (memory_entries d'))"
      unfolding e(1) keys using i(5) e(3) by (simp only: distinct_append_fresh stream_ok_def entry_ok_def)
  next
    fix v q assume v: "v \<in> set (work_events d)" "q \<in> set (heads d')" "fst (snd q) = we_store v"
    obtain q0 where q0: "q0 \<in> set (heads d)" "fst q = fst q0" "fst (snd q) = fst (snd q0)"
      using raised_mem v(2) unfolding h by blast
    have "\<exists>r\<in>set (memory_entries d). e_repository r = fst q0 \<and> stream_row r v"
      by (rule i(5)[unfolded stream_ok_def, THEN conjunct2, THEN conjunct1, rule_format, OF v(1) q0(1)]) (use q0(3) v(3) in simp)
    then obtain r where "r \<in> set (memory_entries d)" "e_repository r = fst q" "stream_row r v" using q0(2) by auto
    then show "\<exists>n\<in>set (memory_entries d'). e_repository n = fst q \<and> stream_row n v"
      using remarkedD(1,4)[OF e(2)[of r]] by (intro bexI[of _ "f r"]) (simp_all add: e(1))
  next
    fix r assume r: "r \<in> set (memory_entries d')" "e_type r = ''work-event''"
    then obtain r0 where r0: "r0 \<in> set (memory_entries d)" "r = f r0" using remarkedD(3)[OF e(2)] e(4) by (auto simp: e(1))
    then obtain q v where "q \<in> set (heads d)" "v \<in> set (work_events d)" "fst q = e_repository r0" "fst (snd q) = we_store v" "stream_row r0 v"
      using i(5) r(2) remarkedD(3)[OF e(2)[of r0]] by (auto simp: stream_ok_def)
    moreover obtain q' where "q' \<in> set (heads d')" "fst q' = fst q" "fst (snd q') = fst (snd q)"
      using raised_mem2[OF \<open>q \<in> set (heads d)\<close>] unfolding h by blast
    ultimately show "\<exists>h\<in>set (heads d'). \<exists>v\<in>set (work_events d). fst h = e_repository r \<and> fst (snd h) = we_store v \<and> stream_row r v"
      using remarkedD(1,4)[OF e(2)[of r0]] r0(2) by (intro bexI[of _ q'] bexI[of _ v]) simp_all
  qed
qed

lemma heads_raised_repo:
  assumes "stores_wf d" "s \<in> set (memory_stores d)"
  shows "map (\<lambda>m. (ms_repository m, ms_store_id m, ms_head m)) (update_where (\<lambda>q. ms_repository q = ms_repository s) (\<lambda>q. q\<lparr>ms_head := ms_head q + 1\<rparr>) (memory_stores d))
    = raised (ms_store_id s) (heads d)"
proof -
  have "distinct (map ms_repository (memory_stores d))" "distinct (map ms_store_id (memory_stores d))"
    using assms(1) by (simp_all add: stores_wf_def heads_def comp_def)
  then have "ms_repository q = ms_repository s \<longleftrightarrow> ms_store_id q = ms_store_id s" if "q \<in> set (memory_stores d)" for q
    using that assms(2) by (metis distinct_key_eq)
  then have "update_where (\<lambda>q. ms_repository q = ms_repository s) (\<lambda>q. q\<lparr>ms_head := ms_head q + 1\<rparr>) (memory_stores d)
      = update_where (\<lambda>q. ms_store_id q = ms_store_id s) (\<lambda>q. q\<lparr>ms_head := ms_head q + 1\<rparr>) (memory_stores d)"
    by (auto simp: update_where_def)
  then show ?thesis by (simp add: heads_raised heads_def)
qed

text \<open>What a committed note writes: one entry at the next sequence, and at most one replacement mark.\<close>

lemma record_body_Inr:
  assumes "record_body e m r print d = Inr (y, d')" "\<not> mq_duplicate y"
  obtains s revision conflict f where
    "List.find (\<lambda>q. ms_repository q = m_repository m) (memory_stores d) = Some s"
    "target_state d (m_repository m) (note_target r) = Inr (revision, conflict)"
    "mq_seq y = ms_head s + 1" "mq_conflicts_with y = conflict"
    "entry_ok (note_row e m r (ms_head s + 1) revision conflict) (memory_entries d)"
    "memory_entries d' = map f (memory_entries d @ [note_row e m r (ms_head s + 1) revision conflict])"
    "f = (\<lambda>n. if e_repository n = m_repository m \<and> Some (e_seq n) = note_target r \<and> conflict = None
       then if mr_revokes r \<noteq> None then n\<lparr>e_revoked_by := Some (ms_head s + 1)\<rparr> else n\<lparr>e_superseded_by := Some (ms_head s + 1)\<rparr> else n)"
    "remember_key e m r print (ms_head s + 1) (d\<lparr>memory_stores := update_where (\<lambda>q. ms_repository q = m_repository m) (\<lambda>q. q\<lparr>ms_head := ms_head q + 1\<rparr>) (memory_stores d),
       memory_entries := memory_entries d'\<rparr>) = Inr d'"
proof -
  from assms obtain s revision conflict where s: "List.find (\<lambda>q. ms_repository q = m_repository m) (memory_stores d) = Some s"
    and t: "target_state d (m_repository m) (note_target r) = Inr (revision, conflict)"
    and y: "mq_seq y = ms_head s + 1" "mq_conflicts_with y = conflict"
    and ok: "entry_ok (note_row e m r (ms_head s + 1) revision conflict) (memory_entries d)"
    and k: "remember_key e m r print (ms_head s + 1) (mark_target (m_repository m) r (ms_head s + 1) conflict
        (d\<lparr>memory_stores := update_where (\<lambda>q. ms_repository q = m_repository m) (\<lambda>q. q\<lparr>ms_head := ms_head q + 1\<rparr>) (memory_stores d),
           memory_entries := memory_entries d @ [note_row e m r (ms_head s + 1) revision conflict]\<rparr>)) = Inr d'"
    by (auto simp: record_body_def advance_repo_def duplicate_def split: option.splits if_splits prod.splits)
  let ?f = "\<lambda>n. if e_repository n = m_repository m \<and> Some (e_seq n) = note_target r \<and> conflict = None
      then if mr_revokes r \<noteq> None then n\<lparr>e_revoked_by := Some (ms_head s + 1)\<rparr> else n\<lparr>e_superseded_by := Some (ms_head s + 1)\<rparr> else n"
  let ?t = "memory_entries d @ [note_row e m r (ms_head s + 1) revision conflict]"
  have mk: "mark_target (m_repository m) r (ms_head s + 1) conflict (q\<lparr>memory_entries := ?t\<rparr>) = q\<lparr>memory_entries := map ?f ?t\<rparr>" for q
  proof (cases "note_target r")
    case (Some t)
    then show ?thesis by (cases conflict) (simp_all add: mark_target_def update_where_def)
  qed (simp add: mark_target_def)
  have e': "memory_entries d' = map ?f ?t" using k unfolding mk by (auto simp: remember_key_def split: option.splits)
  show thesis by (rule that[OF s t y ok e' refl]) (use k[unfolded mk] e' in simp)
qed

lemma remember_key_frame: "remember_key e m r print seq d = Inr d' \<Longrightarrow> \<exists>idem. d' = d\<lparr>memory_idem := idem\<rparr>"
  by (auto simp: remember_key_def split: option.splits intro: exI[of _ "memory_idem d"])

lemma record_body_duplicate: "record_body e m r print d = Inr (y, d') \<Longrightarrow> mq_duplicate y \<Longrightarrow> d' = d"
  by (auto simp: record_body_def split: option.splits prod.splits)

lemma record_body_on:
  assumes on: "feed_on d0 now d" and b: "record_body e m r print d = Inr (y, d')" and ty: "mr_type r \<noteq> ''work-event''"
  shows "feed_on d0 now d'"
proof (cases "mq_duplicate y")
  case False
  note inv = feed_onD[OF on]
  obtain s revision conflict f where
    s: "List.find (\<lambda>q. ms_repository q = m_repository m) (memory_stores d) = Some s"
    and ok: "entry_ok (note_row e m r (ms_head s + 1) revision conflict) (memory_entries d)"
    and e': "memory_entries d' = map f (memory_entries d @ [note_row e m r (ms_head s + 1) revision conflict])"
    and f: "f = (\<lambda>n. if e_repository n = m_repository m \<and> Some (e_seq n) = note_target r \<and> conflict = None
       then if mr_revokes r \<noteq> None then n\<lparr>e_revoked_by := Some (ms_head s + 1)\<rparr> else n\<lparr>e_superseded_by := Some (ms_head s + 1)\<rparr> else n)"
    and k: "remember_key e m r print (ms_head s + 1) (d\<lparr>memory_stores := update_where (\<lambda>q. ms_repository q = m_repository m) (\<lambda>q. q\<lparr>ms_head := ms_head q + 1\<rparr>) (memory_stores d),
       memory_entries := memory_entries d'\<rparr>) = Inr d'"
    by (rule record_body_Inr[OF b False])
  let ?n = "note_row e m r (ms_head s + 1) revision conflict"
  have sm: "s \<in> set (memory_stores d)" "ms_repository s = m_repository m" using find_Some_mem[OF s] by simp_all
  obtain idem where d': "d' = d\<lparr>memory_stores := update_where (\<lambda>q. ms_repository q = m_repository m) (\<lambda>q. q\<lparr>ms_head := ms_head q + 1\<rparr>) (memory_stores d),
      memory_entries := memory_entries d', memory_idem := idem\<rparr>"
    using remember_key_frame[OF k] by blast
  have rem: "remarked x (f x)" for x
    by (cases x) (auto simp: remarked_def f entryRow.defs)
  have st: "memory_stores d' = update_where (\<lambda>q. ms_repository q = m_repository m) (\<lambda>q. q\<lparr>ms_head := ms_head q + 1\<rparr>) (memory_stores d)"
    by (subst d') simp
  have hd: "heads d' = raised (ms_store_id s) (heads d)"
    using heads_raised_repo[OF work_invD(1)[OF inv(1)] sm(1)] sm(2) by (simp add: heads_def st)
  have same: "work_items d' = work_items d" "work_events d' = work_events d" "work_scope_revisions d' = work_scope_revisions d"
      "claim_bundles d' = claim_bundles d" "claim_resources d' = claim_resources d" "memory_cursors d' = memory_cursors d" "memory_snapshots d' = memory_snapshots d"
    by (subst d', simp)+
  have cnt: "map claim_count (memory_stores d') = map claim_count (memory_stores d)" unfolding st by (rule map_update_where) (simp add: claim_count_def)
  have nt: "e_type ?n \<noteq> ''work-event''" "e_repository ?n = m_repository m" "e_seq ?n = ms_head s + 1"
    using ty by (simp_all add: note_row_def probe_entry_def plain_entry_def)
  have w: "work_inv now d'" by (rule note_work_inv[OF inv(1) hd e' rem ok nt(1) same(1-5) cnt])
  have hm: "(m_repository m, ms_store_id s, ms_head s) \<in> set (heads d)" using imageI[OF sm(1), of "\<lambda>m. (ms_repository m, ms_store_id m, ms_head m)"] sm(2) by (simp add: heads_def)
  note up = raised_head[OF work_invD(1)[OF inv(1)] hd hm]
  have sh: "store_head d (m_repository m) = ms_head s" by (simp add: store_head_def s)
  have e2: "set (memory_entries d') \<subseteq> insert (f ?n) (f ` set (memory_entries d))" by (auto simp: e')
  have "feed_ok d' \<and> feed_step (feed d) (feed d')"
  proof -
    let ?d1 = "d\<lparr>memory_entries := map f (memory_entries d)\<rparr>"
    have sd: "store_head ?d1 = store_head d" by (rule store_head_cong) (simp add: heads_def)
    have "feed_ok ?d1"
    proof (rule feed_okI)
      fix q assume "q \<in> set (memory_entries ?d1)"
      then obtain q0 where "q0 \<in> set (memory_entries d)" "q = f q0" by auto
      then show "0 < e_seq q \<and> e_seq q \<le> store_head ?d1 (e_repository q)"
        using feed_okD(1)[OF inv(2), of q0] remarkedD(1,2)[OF rem, of q0] by (simp add: sd)
    qed (use feed_okD(2-5)[OF inv(2)] in \<open>simp_all add: cursor_fits_def sd\<close>)
    moreover have "feed ?d1 = feed d" by (simp add: feed_def sd)
    moreover have "store_head d' = (store_head ?d1)(m_repository m := store_head ?d1 (m_repository m) + 1)" using up(1) by (simp add: sd)
    ultimately show ?thesis
      using feed_publish[of ?d1 d' "m_repository m" "f ?n"] e2 same(6,7) remarkedD(1,2)[OF rem, of ?n] nt(2,3) sh
        store_head_nonneg[OF work_invD(1)[OF inv(1)], of "m_repository m"] by (simp add: sd)
  qed
  then show ?thesis using feed_on_step[OF on w] by blast
qed (use record_body_duplicate[OF b] on in simp)

section \<open>The transactions of a note request\<close>

context store_interface
begin

lemma admit_keeps: "P now d \<Longrightarrow> P now (snd (admit_note e g repo cls need slots d))"
proof -
  assume d: "P now d"
  have "P now (snd (and_then (expireMemory (nv_wenv e) g repo d) (\<lambda>_ d1. and_then (nv_reclaim e d1, d1) (\<lambda>_ d2. (refusal_of e repo cls need slots d2, d2)))))"
    by (rule seq_keeps[OF expireMemory_keeps[OF d]], rule seq_keeps) simp_all
  then show ?thesis using d by (simp add: admit_note_def split: sum.splits)
qed

text \<open>A refused write leaves the property; a committed one ran its body on a database that has it.\<close>

lemma memoryWrite_cases:
  assumes d: "P now d" and e: "envok (nv_wenv e)" and w: "memoryWrite e g repo cls need slots body d = (r, d')"
  obtains (refused) err where "r = Inl err" "P now d'"
  | (committed) a d1 d2 where "r = Inr a" "P now d1" "body d1 = Inr (a, d2)" "d' = note_actor g repo d2"
proof -
  obtain ra d1 where ad: "admit_note e g repo cls need slots d = (ra, d1)" by (cases "admit_note e g repo cls need slots d")
  have d1: "P now d1" using admit_keeps[OF d, of e g repo cls need slots] ad by simp
  let ?body = "\<lambda>d0. rbind (body (ensure_store repo (wk_store_id (nv_wenv e) d0) d0)) (\<lambda>(a, d1).
      let d2 = note_actor g repo d1 in rbind (enforce (nv_ext e) (nv_limits e) cls repo d2) (\<lambda>_. Inr (a, d2)))"
  show thesis
  proof (cases ra)
    case (Inl err)
    then show thesis using refused[of err] w ad d1 by (auto simp: memoryWrite_def and_then_def)
  next
    case (Inr u)
    have tx: "write_tx (nv_wenv e) g cls ?body d1 = (r, d')" using w ad Inr by (simp add: memoryWrite_def and_then_def)
    show thesis
    proof (cases r)
      case (Inl err)
      then show thesis using refused write_tx_cases(2)[OF tx[unfolded Inl]] d1 by simp
    next
      case (Inr a)
      have "?body d1 = Inr (a, d')" using write_tx_cases(1)[OF tx[unfolded Inr]] by simp
      then obtain d2 where "body (ensure_store repo (wk_store_id (nv_wenv e) d1) d1) = Inr (a, d2)" "d' = note_actor g repo d2"
        by (auto simp: Let_def split: prod.splits)
      then show thesis using committed[OF Inr keeps_store[OF d1 e]] by simp
    qed
  qed
qed

lemma memoryWrite_keeps:
  assumes "P now d" "envok (nv_wenv e)" "\<And>d. P now d \<Longrightarrow> R d" "\<And>d1 a d2. P now d1 \<Longrightarrow> body d1 = Inr (a, d2) \<Longrightarrow> R (note_actor g repo d2)"
  shows "R (snd (memoryWrite e g repo cls need slots body d))"
proof -
  obtain r d' where w: "memoryWrite e g repo cls need slots body d = (r, d')" by (cases "memoryWrite e g repo cls need slots body d")
  show ?thesis
    by (rule memoryWrite_cases[OF assms(1,2) w]) (use assms(3,4) w in auto)
qed

lemma memoryProgress_keeps:
  assumes "P now d" "envok (nv_wenv e)" "\<And>d. P now d \<Longrightarrow> R d" "\<And>d1. P now d1 \<Longrightarrow> R (note_actor g repo (f d1))"
  shows "R (snd (memoryProgress e g repo f d))"
  unfolding memoryProgress_def by (rule memoryWrite_keeps[OF assms(1-3)]) (use assms(4) in auto)

end

text \<open>
  A property of the consumer's own cursor and a bound on the head stay while a request expires and
  waits for admission: the cursor is only ever removed, and the head does not move.
\<close>

definition tracked :: "db \<Rightarrow> MemoryCaller \<Rightarrow> (cursorRow \<Rightarrow> bool) \<Rightarrow> int \<Rightarrow> time \<Rightarrow> db \<Rightarrow> bool" where
  "tracked d0 m Q j now d \<longleftrightarrow> feed_on d0 now d \<and> j \<le> store_head d (m_repository m)
     \<and> (\<forall>c\<in>set (memory_cursors d). own_cursor (m_repository m) (m_consumer m) c \<longrightarrow> Q c)"

lemma trackedD:
  assumes "tracked d0 m Q j now d"
  shows "feed_on d0 now d" "j \<le> store_head d (m_repository m)"
    "\<And>c. c \<in> set (memory_cursors d) \<Longrightarrow> own_cursor (m_repository m) (m_consumer m) c \<Longrightarrow> Q c"
  using assms unfolding tracked_def by blast+

interpretation tracking: store_interface "tracked d0 m Q j" fresh_ids for d0 m Q j
proof (unfold_locales, goal_cases)
  case (1 now d e repo)
  show ?case
    using feeding.keeps_store[OF trackedD(1)[OF 1(1)] 1(2)] trackedD(2,3)[OF 1(1)]
    by (simp add: tracked_def ensure_store_head) (simp add: ensure_store_def)
next
  case (2 now d x repo t n d')
  have h: "heads d' = heads d" using 2(2) by (auto simp: expire_entries_def Let_def split: if_splits) (simp add: heads_def)
  have "memory_cursors d' = memory_cursors d" using 2(2) by (auto simp: expire_entries_def Let_def raise_floor_def split: if_splits)
  then show ?case using feeding.keeps_expire[OF trackedD(1)[OF 2(1)] 2(2)] trackedD(2,3)[OF 2(1)] store_head_cong[OF h] by (simp add: tracked_def)
next
  case (3 now d l repo t d')
  have h: "heads d' = heads d" using 3(2) by (auto simp: expire_windows_def Let_def heads_def)
  have "set (memory_cursors d') \<subseteq> set (memory_cursors d)" using 3(2) by (auto simp: expire_windows_def Let_def)
  then show ?case
    using feeding.keeps_windows[OF trackedD(1)[OF 3(1)] 3(2)] trackedD(2,3)[OF 3(1)] store_head_cong[OF h] by (auto simp: tracked_def)
qed

lemma tracked_intro: "feed_on d0 now d \<Longrightarrow> tracked d0 m (\<lambda>_. True) 0 now d"
  using store_head_nonneg[OF work_invD(1)[OF feed_onD(1)]] by (auto simp: tracked_def)

text \<open>\<open>open_cursor\<close>: the cursor it returns is the one the database holds, unless it has none.\<close>

abbreviation follows :: "db \<Rightarrow> MemoryCaller \<Rightarrow> memoryCursor \<Rightarrow> time \<Rightarrow> db \<Rightarrow> bool" where
  "follows d0 m c now d \<equiv> tracked d0 m (\<lambda>q. cursor_view q = c) 0 now d"

lemma read_cursor_view: "read_cursor d m = map_option cursor_view (List.find (own_cursor (m_repository m) (m_consumer m)) (memory_cursors d))"
  by (simp add: read_cursor_def cursor_view_def[abs_def])

lemma followsI:
  assumes on: "feed_on d0 now d" and c: "read_cursor d m = Some c \<or> (read_cursor d m = None)"
  shows "follows d0 m c now d"
proof -
  have "cursor_view q = c" if q: "q \<in> set (memory_cursors d)" "own_cursor (m_repository m) (m_consumer m) q" for q
  proof -
    have own: "own_cursor (m_repository m) (m_consumer m) = (\<lambda>p. cursor_key p = cursor_key q)"
      using q(2) by (simp add: fun_eq_iff own_cursor_key)
    have "List.find (own_cursor (m_repository m) (m_consumer m)) (memory_cursors d) = Some q"
      unfolding own by (rule find_key_unique[OF feed_okD(2)[OF feed_onD(2)[OF on]] q(1)])
    then show ?thesis using c by (simp add: read_cursor_view)
  qed
  then show ?thesis using tracked_intro[OF on, of m] by (simp add: tracked_def)
qed

lemma follows_quiet:
  assumes f: "follows d0 m c now d" and g: "\<And>q. cursor_view (g q) = cursor_view q" "\<And>q. cursor_key (g q) = cursor_key q"
  shows "follows d0 m c now (set_cursor repo consumer g d)"
proof -
  have v: "cu_seq (g q) = cu_seq q" "cu_issued (g q) = cu_issued q" "cu_snapshot (g q) = cu_snapshot q" for q
    using g(1)[of q] by (simp_all add: cursor_view_def)
  have on: "feed_on d0 now (set_cursor repo consumer g d)"
    by (rule set_cursor_quiet[OF trackedD(1)[OF f]]) (simp_all add: v g(2))
  have "cursor_view q = c" if q: "q \<in> set (memory_cursors (set_cursor repo consumer g d))" "own_cursor (m_repository m) (m_consumer m) q" for q
  proof -
    obtain p where "p \<in> set (memory_cursors d)" "q = p \<or> q = g p" using q(1) by (auto simp: set_cursor_def in_update_where split: if_splits)
    then show ?thesis using trackedD(3)[OF f, of p] q(2) g by (auto simp: own_cursor_key)
  qed
  then show ?thesis using tracked_intro[OF on, of m] by (simp add: tracked_def)
qed

lemma cursor_view_simps [simp]:
  "cursor_view (c\<lparr>cu_actor := a\<rparr>) = cursor_view c" "cursor_view (c\<lparr>cu_updated := t\<rparr>) = cursor_view c"
  "cursor_key (c\<lparr>cu_actor := a\<rparr>) = cursor_key c" "cursor_key (c\<lparr>cu_updated := t\<rparr>) = cursor_key c"
  by (simp_all add: cursor_view_def cursor_key_def)

lemma note_actor_follows: "follows d0 m c now d \<Longrightarrow> follows d0 m c now (note_actor g repo d)"
  by (cases g) (auto simp: note_actor_def intro!: follows_quiet)

lemma touch_body_follows: "follows d0 m c now d \<Longrightarrow> follows d0 m c now (touch_body e m d)"
  by (auto simp: touch_body_def Let_def intro!: follows_quiet)

lemma read_cursor_fits: "feed_on d0 now d \<Longrightarrow> read_cursor d m = Some c \<Longrightarrow> mc_seq c \<le> mc_issued c"
  using feed_okD(3)[OF feed_onD(2)] by (auto simp: read_cursor_view cursor_view_def cursor_fits_def dest!: find_Some_mem)

lemma guarded_write:
  "(if A then (Inl x, d) else if B then (Inl z, d) else and_then (wr, wd) (\<lambda>_ d1. (Inr (k d1), d1))) = (y, d') \<Longrightarrow>
     (d' = d \<and> (\<exists>err. y = Inl err)) \<or> (d' = wd \<and> (y = Inr (k wd) \<or> (\<exists>err. y = Inl err)))"
  by (auto simp: and_then_def split: if_splits sum.splits)

lemma register_follows:
  assumes on: "feed_on d0 now d" and e: "fresh_ids (nv_wenv e)" and r: "register e m d = (y, d')"
  shows "feed_on d0 now d'" "\<And>c. y = Inr c \<Longrightarrow> follows d0 m c now d' \<and> mc_seq c \<le> mc_issued c"
proof -
  let ?wrote = "memoryWrite e (participant_guard m) (m_repository m) ordinary (2 * (int (length (m_consumer m)) + 64) + int (length (nativeActor m))) 0
      (\<lambda>d0. Inr ((), insert_cursor (new_cursor e m) d0)) d"
  have w: "feed_on d0 now (snd ?wrote)"
    by (rule feeding.memoryWrite_keeps[OF on e]) (auto intro: note_actor_on insert_cursor_on)
  have "feed_on d0 now d' \<and> (\<forall>c. y = Inr c \<longrightarrow> follows d0 m c now d' \<and> mc_seq c \<le> mc_issued c)"
  proof (cases "read_cursor d m")
    case (Some c)
    then show ?thesis using r followsI[OF on, of m c] on read_cursor_fits[OF on Some] by (auto simp: register_def)
  next
    case None
    obtain wr wd where wr: "?wrote = (wr, wd)" by (cases ?wrote)
    have "(d' = d \<and> (\<exists>err. y = Inl err)) \<or> (d' = wd \<and> (y = Inr (cursor_or_zero wd m) \<or> (\<exists>err. y = Inl err)))"
      by (rule guarded_write) (rule r[unfolded register_def None option.case Let_def wr])
    then consider "d' = d" "\<exists>err. y = Inl err" | "y = Inr (cursor_or_zero d' m)" "d' = snd ?wrote" | "\<exists>err. y = Inl err" "d' = snd ?wrote"
      unfolding wr by fastforce
    then show ?thesis
    proof cases
      case 2
      have "feed_on d0 now d'" using w 2(2) by simp
      moreover have "follows d0 m (cursor_or_zero d' m) now d'"
        by (rule followsI[OF \<open>feed_on d0 now d'\<close>]) (simp add: cursor_or_zero_def split: option.splits)
      moreover have "mc_seq (cursor_or_zero d' m) \<le> mc_issued (cursor_or_zero d' m)"
        using read_cursor_fits[OF \<open>feed_on d0 now d'\<close>] by (simp add: cursor_or_zero_def no_cursor_def split: option.splits)
      ultimately show ?thesis using 2(1) by auto
    qed (use on w in auto)
  qed
  then show "feed_on d0 now d'" "\<And>c. y = Inr c \<Longrightarrow> follows d0 m c now d' \<and> mc_seq c \<le> mc_issued c" by blast+
qed

lemma open_cursor_follows:
  assumes on: "feed_on d0 now d" and e: "fresh_ids (nv_wenv e)" and r: "open_cursor e m d = (y, d')"
  shows "feed_on d0 now d'" "\<And>c. y = Inr c \<Longrightarrow> follows d0 m c now d' \<and> mc_seq c \<le> mc_issued c"
proof -
  obtain y1 d1 where reg: "register e m d = (y1, d1)" by (cases "register e m d")
  note rf = register_follows[OF on e reg]
  have "feed_on d0 now d' \<and> (\<forall>c. y = Inr c \<longrightarrow> follows d0 m c now d' \<and> mc_seq c \<le> mc_issued c)"
  proof (cases y1)
    case (Inl err)
    then show ?thesis using r reg rf by (auto simp: open_cursor_def and_then_def)
  next
    case (Inr c)
    have "follows d0 m c now (snd (touch e m d1))"
      unfolding touch_def by (rule tracking.memoryProgress_keeps[OF rf(2)[OF Inr, THEN conjunct1] e]) (auto intro: note_actor_follows touch_body_follows)
    then show ?thesis using r reg Inr trackedD(1) rf(2)[OF Inr] by (cases "touch e m d1") (auto simp: open_cursor_def and_then_def split: sum.splits)
  qed
  then show "feed_on d0 now d'" "\<And>c. y = Inr c \<Longrightarrow> follows d0 m c now d' \<and> mc_seq c \<le> mc_issued c" by blast+
qed

lemma renew_obligation_on:
  assumes on: "feed_on d0 now d" and e: "fresh_ids (nv_wenv e)" and r: "renew_obligation e m c d = (y, d')"
  shows "feed_on d0 now d'" "\<And>c'. y = Inr c' \<Longrightarrow> mc_seq c' = mc_seq c \<and> mc_issued c' = mc_issued c"
proof -
  have w: "feed_on d0 now (snd (memoryProgress e (participant_guard m) (m_repository m) (drop_snapshot m) d))"
    by (rule feeding.memoryProgress_keeps[OF on e]) (auto intro: note_actor_on drop_snapshot_on)
  obtain wr wd where wr: "memoryProgress e (participant_guard m) (m_repository m) (drop_snapshot m) d = (wr, wd)"
    by (cases "memoryProgress e (participant_guard m) (m_repository m) (drop_snapshot m) d")
  show "feed_on d0 now d'" "\<And>c'. y = Inr c' \<Longrightarrow> mc_seq c' = mc_seq c \<and> mc_issued c' = mc_issued c"
    using r on w unfolding renew_obligation_def Let_def wr by (auto simp: and_then_def split: option.splits if_splits sum.splits)
qed

lemma freeze_on:
  assumes on: "feed_on d0 now d" and e: "fresh_ids (nv_wenv e)"
  shows "feed_on d0 now (snd (freeze e m d))"
proof -
  let ?h = "store_head d (m_repository m)"
  have "cu_seq q \<le> ?h" if q: "q \<in> set (memory_cursors d)" "own_cursor (m_repository m) (m_consumer m) q" for q
    using feed_okD(3)[OF feed_onD(2)[OF on] q(1)] q(2) by (simp add: cursor_fits_def own_cursor_def)
  then have tr: "tracked d0 m (\<lambda>q. cu_seq q \<le> ?h) ?h now d" using on by (simp add: tracked_def)
  have h0: "0 \<le> ?h" by (rule store_head_nonneg[OF work_invD(1)[OF feed_onD(1)[OF on]]])
  have w: "feed_on d0 now (snd (memoryWrite e (participant_guard m) (m_repository m) ordinary need slots (freeze_body e m i ?h payloads) d))" for i payloads need slots
  proof (rule tracking.memoryWrite_keeps[OF tr e])
    fix d1 a d2 assume t: "tracked d0 m (\<lambda>q. cu_seq q \<le> ?h) ?h now d1" and b: "freeze_body e m i ?h payloads d1 = Inr (a, d2)"
    show "feed_on d0 now (note_actor (participant_guard m) (m_repository m) d2)"
      by (rule note_actor_on[OF freeze_body_on[OF trackedD(1)[OF t] b trackedD(3)[OF t] h0 trackedD(2)[OF t]]])
  qed (rule trackedD(1))
  have "feed_on d0 now (snd (and_then (memoryWrite e (participant_guard m) (m_repository m) ordinary need slots (freeze_body e m i ?h payloads) d)
      (\<lambda>_ d1. (Inr i, d1))))" for i payloads need slots
    by (rule feeding.seq_keeps[OF w]) simp
  then show ?thesis using on by (simp add: freeze_def Let_def split: sum.splits)
qed

lemma snapshotPage_on:
  assumes on: "feed_on d0 now d" and e: "fresh_ids (nv_wenv e)"
  shows "feed_on d0 now (snd (snapshotPage e m i r d))"
proof -
  have w: "feed_on d0 now (snd (memoryProgress e (participant_guard m) (m_repository m) (raise_issued i j) d))" for j
    by (rule feeding.memoryProgress_keeps[OF on e]) (auto intro: note_actor_on raise_issued_on)
  have step: "feed_on d0 now (snd (and_then (if b then memoryProgress e (participant_guard m) (m_repository m) (raise_issued i j) d else (Inr (), d))
      (\<lambda>_ d1. (Inr y, d1))))" for b j y
    by (rule feeding.seq_keeps) (simp_all add: w on)
  show ?thesis
  proof (cases "rbind (check_page e m i r d) (\<lambda>st. let items = items_from d i (sr_page_token r) in
      rbind (bounded (map si_bytes items) (lm_frame_budget (nv_limits e))) (\<lambda>n. Inr (st, items, n)))")
    case (Inl err)
    then show ?thesis using on by (simp add: snapshotPage_def)
  next
    case (Inr z)
    obtain st items n where z: "z = (st, items, n)" by (cases z)
    show ?thesis unfolding snapshotPage_def Let_def Inr[unfolded Let_def] z sum.case prod.case by (rule step)
  qed
qed

lemma entries_after_mem: "n \<in> set (entries_after d repo seq) \<Longrightarrow> n \<in> set (memory_entries d) \<and> e_repository n = repo \<and> seq < e_seq n"
  by (simp add: entries_after_def)

lemma workPayloads_length: "workPayloads d repo ns = Inr ys \<Longrightarrow> length ys = length ns"
  by (induction ns arbitrary: ys) auto

lemma bounded_from_le: "bounded_from budget used sizes \<le> length sizes"
  by (induction sizes arbitrary: used) auto

lemma bounded_le: "bounded sizes budget = Inr n \<Longrightarrow> n \<le> length sizes"
  using bounded_from_le[of budget 0 sizes] by (auto simp: bounded_def split: list.splits if_splits)

lemma delta_on:
  assumes on: "feed_on d0 now d" and e: "fresh_ids (nv_wenv e)" and c: "mc_seq c \<le> mc_issued c"
  shows "feed_on d0 now (snd (delta e m c d))"
proof -
  let ?batch = "take (nat (lm_row_window (nv_limits e))) (entries_after d (m_repository m) (mc_seq c))"
  have w: "feed_on d0 now (snd (memoryProgress e (participant_guard m) (m_repository m) (issue_delta m j) d))" if j: "j \<le> store_head d (m_repository m)" for j
  proof (rule tracking.memoryProgress_keeps[where Q = "\<lambda>_. True" and j = j and m = m, OF _ e])
    show "tracked d0 m (\<lambda>_. True) j now d" using on j by (simp add: tracked_def)
    fix d1 assume t: "tracked d0 m (\<lambda>_. True) j now d1"
    show "feed_on d0 now (note_actor (participant_guard m) (m_repository m) (issue_delta m j d1))"
      by (rule note_actor_on[OF issue_delta_on[OF trackedD(1)[OF t] trackedD(2)[OF t]]])
  qed (rule trackedD(1))
  have step: "feed_on d0 now (snd (and_then (if j > mc_issued c then memoryProgress e (participant_guard m) (m_repository m) (issue_delta m j) d else (Inr (), d))
      (\<lambda>_ d1. (Inr (y d1), d1))))" if "j > mc_issued c \<Longrightarrow> j \<le> store_head d (m_repository m)" for j y
    by (rule feeding.seq_keeps) (use that w on in simp_all)
  have edge: "(if n > 0 then e_seq (?batch ! (n - 1)) else mc_seq c) \<le> store_head d (m_repository m)"
    if "n \<le> length ?batch" "(if n > 0 then e_seq (?batch ! (n - 1)) else mc_seq c) > mc_issued c" for n
  proof (cases "n > 0")
    case True
    then have "n - 1 < length ?batch" using that(1) by linarith
    then have "?batch ! (n - 1) \<in> set ?batch" by (rule nth_mem)
    then have "?batch ! (n - 1) \<in> set (entries_after d (m_repository m) (mc_seq c))" by (rule in_set_takeD)
    then show ?thesis using feed_okD(1)[OF feed_onD(2)[OF on]] entries_after_mem True by fastforce
  qed (use that(2) c in simp)
  show ?thesis
  proof (cases "rbind (workPayloads d (m_repository m) ?batch) (\<lambda>full. let texts = map (nv_entry_text e) full in
      rbind (bounded (map (\<lambda>t. int (length t) + 1) texts) (lm_frame_budget (nv_limits e))) (\<lambda>n. Inr (texts, n)))")
    case (Inl err)
    then show ?thesis using on by (simp add: delta_def Let_def)
  next
    case (Inr z)
    obtain texts n where z: "z = (texts, n)" by (cases z)
    have "n \<le> length ?batch" using Inr z by (auto simp: Let_def dest!: workPayloads_length bounded_le)
    then show ?thesis unfolding delta_def Let_def Inr[unfolded Let_def] z sum.case prod.case by (intro step edge)
  qed
qed

lemma sync_body_on:
  assumes on: "feed_on d0 now d" and e: "fresh_ids (nv_wenv e)"
  shows "feed_on d0 now (snd (sync_body e m r d))"
  unfolding sync_body_def
proof (rule feeding.seq_keeps)
  show "feed_on d0 now (snd (open_cursor e m d))" using open_cursor_follows(1)[OF on e] by (cases "open_cursor e m d") auto
  fix c0 d1 assume o: "open_cursor e m d = (Inr c0, d1)" and d1: "feed_on d0 now d1"
  have c0: "mc_seq c0 \<le> mc_issued c0" using open_cursor_follows(2)[OF on e o] by blast
  show "feed_on d0 now (snd (and_then (renew_obligation e m c0 d1) (\<lambda>c d2.
     if mc_snapshot c \<noteq> None \<or> mc_resnapshot c \<or> \<not> mc_bootstrapped c \<or> mc_seq c < store_floor d2 (m_repository m)
     then and_then (case mc_snapshot c of Some i \<Rightarrow> (Inr i, d2) | None \<Rightarrow> freeze e m d2) (\<lambda>i d3. snapshotPage e m i r d3)
     else delta e m c d2)))"
  proof (rule feeding.seq_keeps)
    show "feed_on d0 now (snd (renew_obligation e m c0 d1))" using renew_obligation_on(1)[OF d1 e] by (cases "renew_obligation e m c0 d1") auto
    fix c d2 assume r2: "renew_obligation e m c0 d1 = (Inr c, d2)" and d2: "feed_on d0 now d2"
    have c: "mc_seq c \<le> mc_issued c" using renew_obligation_on(2)[OF d1 e r2] c0 by simp
    have "feed_on d0 now (snd (and_then (case mc_snapshot c of Some i \<Rightarrow> (Inr i, d2) | None \<Rightarrow> freeze e m d2) (\<lambda>i d3. snapshotPage e m i r d3)))"
      by (rule feeding.seq_keeps) (use d2 freeze_on[OF d2 e] snapshotPage_on[OF _ e] in \<open>auto split: option.splits\<close>)
    then show "feed_on d0 now (snd (if mc_snapshot c \<noteq> None \<or> mc_resnapshot c \<or> \<not> mc_bootstrapped c \<or> mc_seq c < store_floor d2 (m_repository m)
     then and_then (case mc_snapshot c of Some i \<Rightarrow> (Inr i, d2) | None \<Rightarrow> freeze e m d2) (\<lambda>i d3. snapshotPage e m i r d3)
     else delta e m c d2))"
      using delta_on[OF d2 e c] by simp
  qed
qed

lemma ack_snapshot_keeps:
  assumes f: "follows d0 m c now d" and e: "fresh_ids (nv_wenv e)"
  shows "feed_on d0 now (snd (ack_snapshot e m c i d))"
proof (cases "snapshotState d m i")
  case (Some st)
  note on = trackedD(1)[OF f]
  have st: "st \<in> set (memory_snapshots d)" "sn_id st = i" "sn_repository st = m_repository m" using find_Some_mem[OF Some[unfolded snapshotState_def]] by simp_all
  have w: "feed_on d0 now (snd (memoryProgress e (participant_guard m) (m_repository m) (ack_snapshot_body e m i (sn_head st)) d))"
    if a: "owned m (Some st)" "\<not> sn_acked st" "mc_snapshot c = Some i"
  proof (rule tracking.memoryProgress_keeps[where Q = "\<lambda>q. cu_seq q \<le> sn_head st" and j = "sn_head st" and m = m, OF _ e])
    have "cu_seq q \<le> sn_head st" if q: "q \<in> set (memory_cursors d)" "own_cursor (m_repository m) (m_consumer m) q" for q
    proof -
      have "cu_snapshot q = Some i" using trackedD(3)[OF f q] a(3) by (auto simp: cursor_view_def)
      then have "open_for st q" using q(2) st a(1,2) by (simp add: open_for_def owned_def own_cursor_def)
      then show ?thesis using feed_okD(5)[OF feed_onD(2)[OF on] q(1) st(1)] by blast
    qed
    then show "tracked d0 m (\<lambda>q. cu_seq q \<le> sn_head st) (sn_head st) now d"
      using on feed_okD(4)[OF feed_onD(2)[OF on] st(1)] st(3) by (simp add: tracked_def)
    fix d1 assume t: "tracked d0 m (\<lambda>q. cu_seq q \<le> sn_head st) (sn_head st) now d1"
    show "feed_on d0 now (note_actor (participant_guard m) (m_repository m) (ack_snapshot_body e m i (sn_head st) d1))"
      by (rule note_actor_on[OF ack_snapshot_on[OF trackedD(1)[OF t] trackedD(2)[OF t] trackedD(3)[OF t]]])
  qed (rule trackedD(1))
  have "feed_on d0 now (snd (and_then (memoryProgress e (participant_guard m) (m_repository m) (ack_snapshot_body e m i (sn_head st)) d)
      (\<lambda>_ d1. (Inr y, d1))))" if "owned m (Some st)" "\<not> sn_acked st" "mc_snapshot c = Some i" for y :: ackAnswer
    by (rule feeding.seq_keeps[OF w[OF that]]) simp
  then show ?thesis using Some on by (simp add: ack_snapshot_def)
qed (use trackedD(1)[OF f] in \<open>simp add: ack_snapshot_def\<close>)

lemma ack_delta_keeps:
  assumes f: "follows d0 m c now d" and e: "fresh_ids (nv_wenv e)"
  shows "feed_on d0 now (snd (ack_delta e m c t d))"
proof -
  note on = trackedD(1)[OF f]
  have w: "feed_on d0 now (snd (memoryProgress e (participant_guard m) (m_repository m) (set_cursor (m_repository m) (m_consumer m) (\<lambda>c. c\<lparr>cu_seq := t\<rparr>)) d))"
    if a: "mc_snapshot c = None" "mc_seq c \<le> t" "t \<le> mc_issued c"
  proof (rule tracking.memoryProgress_keeps[OF f e])
    fix d1 assume g: "follows d0 m c now d1"
    show "feed_on d0 now (note_actor (participant_guard m) (m_repository m) (set_cursor (m_repository m) (m_consumer m) (\<lambda>c. c\<lparr>cu_seq := t\<rparr>) d1))"
    proof (rule note_actor_on[OF ack_delta_on[OF trackedD(1)[OF g]]])
      fix q assume "q \<in> set (memory_cursors d1)" "own_cursor (m_repository m) (m_consumer m) q"
      then have "cursor_view q = c" by (rule trackedD(3)[OF g])
      then show "cu_seq q \<le> t \<and> t \<le> cu_issued q \<and> cu_snapshot q = None" using a by (auto simp: cursor_view_def)
    qed
  qed (rule trackedD(1))
  have "feed_on d0 now (snd (and_then (memoryProgress e (participant_guard m) (m_repository m) (set_cursor (m_repository m) (m_consumer m) (\<lambda>c. c\<lparr>cu_seq := t\<rparr>)) d)
      (\<lambda>_ d1. (Inr y, d1))))" if "mc_snapshot c = None" "mc_seq c \<le> t" "t \<le> mc_issued c" for y :: ackAnswer
    by (rule feeding.seq_keeps[OF w[OF that]]) simp
  then show ?thesis using on unfolding ack_delta_def by (auto simp: not_less)
qed

lemma ack_body_on:
  assumes on: "feed_on d0 now d" and e: "fresh_ids (nv_wenv e)"
  shows "feed_on d0 now (snd (ack_body e m r d))"
  unfolding ack_body_def
proof (rule feeding.seq_keeps)
  show "feed_on d0 now (snd (open_cursor e m d))" using open_cursor_follows(1)[OF on e] by (cases "open_cursor e m d") auto
  fix c d1 assume "open_cursor e m d = (Inr c, d1)"
  then have "follows d0 m c now d1" using open_cursor_follows(2)[OF on e] by blast
  then show "feed_on d0 now (snd (if ar_snapshot_id r \<noteq> [] then ack_snapshot e m c (ar_snapshot_id r) d1
       else ack_delta e m c (case ar_through r of None \<Rightarrow> 0 | Some t \<Rightarrow> t) d1))"
    using ack_snapshot_keeps[OF _ e] ack_delta_keeps[OF _ e] by simp
qed

section \<open>The machine\<close>

datatype stream_op =
    WorkOp work_op
  | Record note_env MemoryCaller MemoryRecordRequest
  | Sync note_env MemoryCaller MemorySyncRequest
  | Ack note_env MemoryCaller MemoryAckRequest

definition at_time :: "(db \<Rightarrow> string) \<Rightarrow> time \<Rightarrow> note_env \<Rightarrow> note_env" where
  "at_time ids now e = e\<lparr>nv_wenv := (nv_wenv e)\<lparr>wk_store_id := ids\<rparr>, nv_clock := now\<rparr>"

fun stream_step :: "(db \<Rightarrow> string) \<Rightarrow> stream_op \<Rightarrow> time \<Rightarrow> work_state \<Rightarrow> kerror + work_state" where
  "stream_step ids (WorkOp op) now s = work_step ids op now s"
| "stream_step ids (Record e m r) now (t, s, d) = (case MemoryRecord (at_time ids now e) m r t d of (t', _, d') \<Rightarrow> Inr (t', s, d'))"
| "stream_step ids (Sync e m r) now (t, s, d) = (case MemorySync (at_time ids now e) m r t d of (t', _, d') \<Rightarrow> Inr (t', s, d'))"
| "stream_step ids (Ack e m r) now (t, s, d) = (case MemoryAck (at_time ids now e) m r t d of (t', _, d') \<Rightarrow> Inr (t', s, d'))"

lemma check_note_type: "check_note e m r0 = Inr r \<Longrightarrow> mr_type r \<noteq> ''work-event''"
  by (auto simp: check_note_def check_content_def Let_def memoryTypes_def split: if_splits)

lemma after_expiry:
  assumes "feed_on d0 now d" "\<And>d1. feed_on d0 now d1 \<Longrightarrow> feed_on d0 now (snd (f () d1))"
  shows "feed_on d0 now (snd (and_then (snd (maybeExpire e g repo t d)) f))"
  by (rule feeding.seq_keeps[OF feeding.maybeExpire_keeps[OF assms(1)]]) (use assms(2) in simp)

lemma MemoryRecord_on:
  assumes on: "feed_on d0 now d" and e: "fresh_ids (nv_wenv e)"
  shows "feed_on d0 now (snd (snd (MemoryRecord e m r0 t d)))"
proof -
  have w: "feed_on d0 now (snd (memoryWrite e (participant_guard m) (m_repository m) cls need 1 (record_body e m r print) d1))"
    if "mr_type r \<noteq> ''work-event''" "feed_on d0 now d1" for r d1 cls need print
    by (rule feeding.memoryWrite_keeps[OF that(2) e]) (auto intro: note_actor_on record_body_on[OF _ _ that(1)])
  let ?pre = "rbind (participantCall e m d) (\<lambda>_. rbind (check_note e m r0) (\<lambda>r. let print = note_fingerprint (nv_ext e) r in
      rbind (duplicate d m r print) (\<lambda>found. Inr (r, print, found))))"
  show ?thesis
  proof (cases ?pre)
    case (Inl err)
    then show ?thesis using on by (simp add: MemoryRecord_def)
  next
    case (Inr z)
    obtain r print found where z: "z = (r, print, found)" by (cases z)
    have ty: "mr_type r \<noteq> ''work-event''" using Inr check_note_type by (auto simp: z Let_def)
    show ?thesis
    proof (cases found)
      case (Some y)
      then show ?thesis unfolding MemoryRecord_def Inr z by (simp add: on)
    next
      case None
      obtain t' r1 where me: "maybeExpire (nv_wenv e) (participant_guard m) (m_repository m) t d = (t', r1)"
        by (cases "maybeExpire (nv_wenv e) (participant_guard m) (m_repository m) t d")
      have "feed_on d0 now (snd (and_then r1 (\<lambda>_. memoryWrite e (participant_guard m) (m_repository m) cls (note_need m r) 1 (record_body e m r print))))" for cls
        using after_expiry[OF on, of "\<lambda>_. memoryWrite e (participant_guard m) (m_repository m) cls (note_need m r) 1 (record_body e m r print)"
            "nv_wenv e" "participant_guard m" "m_repository m" t] w[OF ty] me by simp
      then show ?thesis unfolding MemoryRecord_def Inr z None by (simp add: on me split: sum.splits)
    qed
  qed
qed

lemma MemorySync_on: "feed_on d0 now d \<Longrightarrow> fresh_ids (nv_wenv e) \<Longrightarrow> feed_on d0 now (snd (snd (MemorySync e m r t d)))"
  using after_expiry[of d0 now d "\<lambda>_. sync_body e m r" "nv_wenv e" "participant_guard m" "m_repository m" t] sync_body_on
  by (auto simp: MemorySync_def split: sum.splits prod.splits)

lemma MemoryAck_on: "feed_on d0 now d \<Longrightarrow> fresh_ids (nv_wenv e) \<Longrightarrow> feed_on d0 now (snd (snd (MemoryAck e m r t d)))"
  using after_expiry[of d0 now d "\<lambda>_. ack_body e m r" "nv_wenv e" "participant_guard m" "m_repository m" t] ack_body_on
  by (auto simp: MemoryAck_def split: sum.splits prod.splits)

lemma stream_step_on:
  assumes on: "feed_on d0 now (database s)" and ids: "fresh_source ids" and st: "stream_step ids op now s = Inr s'"
  shows "feed_on d0 now (database s')"
proof -
  obtain t ws d where s: "s = (t, ws, d)" by (cases s)
  have d: "feed_on d0 now d" using on s by (simp add: database_def)
  have e: "fresh_ids (nv_wenv (at_time ids now e))" for e using fresh_source_env[OF ids] by (simp add: at_time_def)
  show ?thesis
  proof (cases op)
    case (WorkOp w)
    then show ?thesis using feeding.step_keeps[OF on fresh_source_env[OF ids]] st by simp
  next
    case (Record e0 m r)
    then show ?thesis using st s MemoryRecord_on[OF d e, of e0 m r t] by (auto simp: database_def split: prod.splits)
  next
    case (Sync e0 m r)
    then show ?thesis using st s MemorySync_on[OF d e, of e0 m r t] by (auto simp: database_def split: prod.splits)
  next
    case (Ack e0 m r)
    then show ?thesis using st s MemoryAck_on[OF d e, of e0 m r t] by (auto simp: database_def split: prod.splits)
  qed
qed

interpretation stream_machine: timed_machine "stream_step ids" "\<lambda>now s. fresh_source ids \<and> feed_on d0 now (database s)" for ids d0
proof (unfold_locales, goal_cases)
  case (1 t s now ev s')
  have "feed_on d0 now (database s)" using 1(1,2) work_inv_later by (auto simp: feed_on_def)
  then show ?case using stream_step_on 1(1,3) by blast
next
  case (2 t s now)
  then show ?case using work_inv_later by (auto simp: feed_on_def)
qed

end
