(* ===== verification/Memory_Delivery.thy ===== *)
theory Memory_Delivery
  imports Memory_Stream
begin

text \<open>
  Properties of the memory stream: the refinement of subscriptions and the bounds of cursors over runs,
  complete delivery of deltas, and the retry and replacement rules of notes.
\<close>

section \<open>Runs\<close>

definition demo_notes :: note_env where
  "demo_notes = \<lparr>nv_wenv = demo_env, nv_lib = \<lparr>lx_ext = demo_ext, lx_encode = (\<lambda>_. []), lx_decode = (\<lambda>_. None), lx_facts_text = (\<lambda>_. []),
       lx_links = (\<lambda>_. None), lx_commands = (\<lambda>_. None), lx_item_bytes = (\<lambda>_. 2)\<rparr>,
     nv_catalog = Inr \<lparr>ca_version = 1, ca_items = [], ca_digest = []\<rparr>, nv_clock = 1, nv_entry_text = (\<lambda>n. e_body (me_row n)),
     nv_view_text = (\<lambda>v. w_title (v_item v)), nv_consumer_bytes = (\<lambda>_ _. 2), nv_snapshot_id = (\<lambda>d. concat (map sn_id (memory_snapshots d)) @ ''s''),
     nv_reclaim = (\<lambda>_. Inr ())\<rparr>"

definition demo_note :: MemoryRecordRequest where
  "demo_note = \<lparr>mr_type = ''finding'', mr_body = ''b'', mr_scope = [], mr_scope_target = None, mr_path = None, mr_author = None,
     mr_supersedes = None, mr_revokes = None, mr_expires = None, mr_key = None, mr_deadline = None\<rparr>"

definition demo_stream :: "(stream_op \<times> time) list" where
  "demo_stream = [(Record demo_notes (demo_worker ''alice'') demo_note, 10),
     (Sync demo_notes (demo_worker ''bob'') \<lparr>sr_snapshot_id = [], sr_page_token = 0\<rparr>, 11),
     (Ack demo_notes (demo_worker ''bob'') \<lparr>ar_snapshot_id = ''s'', ar_through = None\<rparr>, 12),
     (WorkOp (Sweep demo_env), 20)]"

lemma no_feed_ok: "no_work d \<Longrightarrow> memory_cursors d = [] \<Longrightarrow> memory_snapshots d = [] \<Longrightarrow> feed_ok d"
  by (simp add: feed_ok_def no_work_def)

lemma demo_stream_run:
  "work_inv 0 (database demo_state)" "feed_ok (database demo_state)" "fresh_source longer_id" "sorted (0 # map snd demo_stream)"
proof -
  show "feed_ok (database demo_state)"
    using no_feed_ok[OF empty_no_work] by (simp add: demo_state_def database_def empty_db_def)
qed (simp_all add: demo_run demo_stream_def)

lemma run_feed:
  assumes "work_inv t (database s)" "feed_ok (database s)" "fresh_source ids" "sorted (t # map snd reqs)"
  shows "feed_on (database s) (last_time t reqs) (database (run_log (stream_step ids) reqs s))"
  using stream_machine.run_inv[of ids "database s" t s reqs] assms by (simp add: feed_on_def)



text \<open>
  No cursor is ahead of what was issued: after any run, every consumer's acknowledged sequence is at
  most the sequence issued to it, which is at most the head of its store, every entry has a positive
  sequence up to that head, and there is one cursor per repository and consumer.
\<close>

theorem cursors_within_stream:
  assumes "work_inv t (database s)" and "feed_ok (database s)" and "fresh_source ids" and "sorted (t # map snd reqs)"
    and "d' = database (run_log (stream_step ids) reqs s)"
  shows "list_all (\<lambda>c. 0 \<le> cu_seq c \<and> cu_seq c \<le> cu_issued c \<and> cu_issued c \<le> store_head d' (cu_repository c)) (memory_cursors d')
    \<and> list_all (\<lambda>n. 0 < e_seq n \<and> e_seq n \<le> store_head d' (e_repository n)) (memory_entries d')
    \<and> distinct (map cursor_key (memory_cursors d'))"
proof -
  have "feed_ok d'" using feed_onD(2)[OF run_feed[OF assms(1-4)]] assms(5) by simp
  from feed_okD(1-3)[OF this] show ?thesis by (simp add: list_all_iff cursor_fits_def)
qed

theorem cursors_within_stream_witness:
  "distinct (map cursor_key (memory_cursors (database (run_log (stream_step longer_id) demo_stream demo_state))))"
  using cursors_within_stream[OF demo_stream_run refl] by blast

section \<open>Deltas\<close>

lemma bounded_pos: "bounded sizes budget = Inr n \<Longrightarrow> sizes \<noteq> [] \<Longrightarrow> 0 < n"
  by (cases sizes) (auto simp: bounded_def split: if_splits)

lemma workPayloads_take: "workPayloads d repo ns = Inr ys \<Longrightarrow> workPayloads d repo (take n ns) = Inr (take n ys)"
proof (induction ns arbitrary: ys n)
  case (Cons a ns)
  then show ?case by (cases n) auto
qed simp

text \<open>A prefix of a strictly sorted list is what lies up to its last element.\<close>

lemma filter_le_prefix:
  fixes f :: "'a \<Rightarrow> 'b::linorder"
  assumes "sorted_wrt (\<lambda>a b. f a < f b) xs" "0 < n" "n \<le> length xs"
  shows "filter (\<lambda>a. f a \<le> f (xs ! (n - 1))) xs = take n xs" "filter (\<lambda>a. f (xs ! (n - 1)) < f a) xs = drop n xs"
proof -
  have s: "sorted_wrt (\<lambda>a b. f a < f b) (take n xs @ drop n xs)" using assms(1) by simp
  have ne: "take n xs \<noteq> []" using assms(2,3) by auto
  have lst: "xs ! (n - 1) = last (take n xs)" using assms(2,3) last_conv_nth[OF ne] by (simp add: min_absorb2)
  have le: "f a \<le> f (last (take n xs))" if "a \<in> set (take n xs)" for a
  proof -
    have split: "butlast (take n xs) @ [last (take n xs)] = take n xs" using ne by simp
    have "sorted_wrt (\<lambda>a b. f a < f b) (butlast (take n xs) @ [last (take n xs)])"
      using s unfolding sorted_wrt_append split by simp
    moreover have "a \<in> set (butlast (take n xs)) \<or> a = last (take n xs)" using that split by (metis Un_iff empty_iff empty_set set_ConsD set_append)
    ultimately show ?thesis by (auto simp: sorted_wrt_append less_imp_le)
  qed
  have gt: "f (last (take n xs)) < f a" if "a \<in> set (drop n xs)" for a
    using s that last_in_set[OF ne] unfolding sorted_wrt_append by blast
  show "filter (\<lambda>a. f a \<le> f (xs ! (n - 1))) xs = take n xs"
    unfolding lst by (subst append_take_drop_id[of n xs, symmetric], unfold filter_append) (use le gt in \<open>simp add: filter_empty_conv filter_id_conv not_le\<close>)
  show "filter (\<lambda>a. f (xs ! (n - 1)) < f a) xs = drop n xs"
    unfolding lst by (subst append_take_drop_id[of n xs, symmetric], unfold filter_append) (use le gt in \<open>simp add: filter_empty_conv filter_id_conv not_less\<close>)
qed

lemma entries_after_sorted:
  assumes "stream_ok d"
  shows "sorted_wrt (\<lambda>a b. e_seq a < e_seq b) (entries_after d repo seq)"
proof -
  let ?t = "filter (\<lambda>n. e_repository n = repo \<and> e_seq n > seq) (memory_entries d)"
  have "distinct (map (\<lambda>n. (e_repository n, e_seq n)) ?t)" using assms by (intro distinct_map_filter) (simp add: stream_ok_def)
  then have "distinct (map e_seq ?t)" by (auto simp: distinct_map inj_on_def)
  then have "distinct (map e_seq (entries_after d repo seq))" by (simp add: entries_after_def distinct_map)
  moreover have "sorted (map e_seq (entries_after d repo seq))" by (simp add: entries_after_def)
  ultimately have "sorted_wrt (<) (map e_seq (entries_after d repo seq))" by (simp add: strict_sorted_iff)
  then show ?thesis by (simp add: sorted_wrt_map)
qed

lemma entries_after_later:
  assumes "seq \<le> j"
  shows "entries_after d repo j = filter (\<lambda>n. j < e_seq n) (entries_after d repo seq)"
proof -
  have "filter (\<lambda>n. e_repository n = repo \<and> e_seq n > j) (memory_entries d)
      = filter (\<lambda>n. j < e_seq n) (filter (\<lambda>n. e_repository n = repo \<and> e_seq n > seq) (memory_entries d))"
    using assms by (auto simp: filter_filter intro!: filter_cong)
  then show ?thesis by (simp add: entries_after_def filter_sort)
qed

text \<open>The head a delta reports is at least the head at its reading.\<close>

lemma delta_head:
  assumes on: "feed_on d0 now d" and e: "fresh_ids (nv_wenv e)" and j: "j \<le> store_head d (m_repository m)"
    and r: "memoryProgress e (participant_guard m) (m_repository m) (issue_delta m j) d = (y, d1)"
  shows "store_head d (m_repository m) \<le> store_head d1 (m_repository m)"
proof -
  let ?h = "store_head d (m_repository m)"
  have "?h \<le> store_head (snd (memoryProgress e (participant_guard m) (m_repository m) (issue_delta m j) d)) (m_repository m)"
  proof (rule tracking.memoryProgress_keeps[where Q = "\<lambda>_. True" and j = ?h and m = m, OF _ e])
    show "tracked d0 m (\<lambda>_. True) ?h now d" using on by (simp add: tracked_def)
    fix d1 assume t: "tracked d0 m (\<lambda>_. True) ?h now d1"
    have "store_head (note_actor g repo (issue_delta m j d1)) = store_head d1" for g repo
      by (rule store_head_cong) (simp add: note_actor_def issue_delta_def set_cursor_def heads_def split: option.splits)
    then show "?h \<le> store_head (note_actor (participant_guard m) (m_repository m) (issue_delta m j d1)) (m_repository m)"
      using trackedD(2)[OF t] by simp
  qed (rule trackedD(2))
  then show ?thesis using r by simp
qed

lemma delta_Inr:
  assumes "delta e m c d = (Inr (DeltaPage texts cursor edge head rest), d')"
  obtains full n where
    "workPayloads d (m_repository m) (take (nat (lm_row_window (nv_limits e))) (entries_after d (m_repository m) (mc_seq c))) = Inr full"
    "bounded (map (\<lambda>t. int (length t) + 1) (map (nv_entry_text e) full)) (lm_frame_budget (nv_limits e)) = Inr n"
    "texts = take n (map (nv_entry_text e) full)" "cursor = mc_seq c"
    "edge = (if n > 0 then e_seq (take (nat (lm_row_window (nv_limits e))) (entries_after d (m_repository m) (mc_seq c)) ! (n - 1)) else mc_seq c)"
    "head = store_head d' (m_repository m)" "rest = (n < length full \<or> edge < head)"
    "d' = d \<or> (\<exists>y. edge > mc_issued c \<and> memoryProgress e (participant_guard m) (m_repository m) (issue_delta m edge) d = (y, d'))"
proof -
  let ?batch = "take (nat (lm_row_window (nv_limits e))) (entries_after d (m_repository m) (mc_seq c))"
  let ?r = "rbind (workPayloads d (m_repository m) ?batch) (\<lambda>full. let texts = map (nv_entry_text e) full in
      rbind (bounded (map (\<lambda>t. int (length t) + 1) texts) (lm_frame_budget (nv_limits e))) (\<lambda>n. Inr (texts, n)))"
  obtain z where z: "?r = Inr z" using assms by (cases ?r) (auto simp: delta_def Let_def)
  obtain full n where f: "workPayloads d (m_repository m) ?batch = Inr full"
    "bounded (map (\<lambda>t. int (length t) + 1) (map (nv_entry_text e) full)) (lm_frame_budget (nv_limits e)) = Inr n" "z = (map (nv_entry_text e) full, n)"
    using z by (auto simp: Let_def)
  define j where "j = (if n > 0 then e_seq (?batch ! (n - 1)) else mc_seq c)"
  let ?w = "if j > mc_issued c then memoryProgress e (participant_guard m) (m_repository m) (issue_delta m j) d else (Inr (), d)"
  obtain wr wd where w: "?w = (wr, wd)" by (cases ?w)
  have "and_then (wr, wd) (\<lambda>_ d1. let head = store_head d1 (m_repository m) in
      (Inr (DeltaPage (take n (map (nv_entry_text e) full)) (mc_seq c) j head (n < length (map (nv_entry_text e) full) \<or> j < head)), d1))
    = (Inr (DeltaPage texts cursor edge head rest), d')"
    using assms unfolding delta_def Let_def z[unfolded Let_def] f(3) sum.case prod.case j_def[symmetric] w .
  then have "texts = take n (map (nv_entry_text e) full)" "cursor = mc_seq c" "edge = j" "head = store_head d' (m_repository m)"
    "rest = (n < length full \<or> edge < head)" "d' = wd"
    by (auto simp: and_then_def Let_def split: sum.splits)
  moreover have "wd = d \<or> (\<exists>y. j > mc_issued c \<and> memoryProgress e (participant_guard m) (m_repository m) (issue_delta m j) d = (y, wd))"
    using w by (auto split: if_splits)
  ultimately show thesis using that[OF f(1,2)] by (simp add: j_def)
qed

text \<open>
  C40. A delta loses nothing: its page holds, in order, exactly the entries after the cursor up to the
  sequence it names as the next cursor, each with its immutable work payload; it is empty only when no
  entry follows the cursor; and when it reports nothing more, no entry follows the next cursor either.
\<close>

theorem delta_delivers_every_entry:
  assumes inv: "work_inv now d" "feed_ok d" and ids: "fresh_ids (nv_wenv e)" and c: "mc_seq c \<le> mc_issued c"
    and window: "0 < lm_row_window (nv_limits e)"
    and r: "delta e m c d = (Inr (DeltaPage texts cursor edge head rest), d')"
  shows "cursor = mc_seq c
    \<and> (\<exists>full. workPayloads d (m_repository m) (filter (\<lambda>n. e_seq n \<le> edge) (entries_after d (m_repository m) cursor)) = Inr full
         \<and> texts = map (nv_entry_text e) full)
    \<and> (texts = [] \<longrightarrow> entries_after d (m_repository m) cursor = [])
    \<and> (\<not> rest \<longrightarrow> entries_after d (m_repository m) edge = [])"
proof -
  let ?all = "entries_after d (m_repository m) (mc_seq c)" and ?w = "nat (lm_row_window (nv_limits e))"
  obtain full n where f: "workPayloads d (m_repository m) (take ?w ?all) = Inr full"
    "bounded (map (\<lambda>t. int (length t) + 1) (map (nv_entry_text e) full)) (lm_frame_budget (nv_limits e)) = Inr n"
    "texts = take n (map (nv_entry_text e) full)" "cursor = mc_seq c"
    and j: "edge = (if n > 0 then e_seq (take ?w ?all ! (n - 1)) else mc_seq c)" "head = store_head d' (m_repository m)" "rest = (n < length full \<or> edge < head)"
    and w: "d' = d \<or> (\<exists>y. edge > mc_issued c \<and> memoryProgress e (participant_guard m) (m_repository m) (issue_delta m edge) d = (y, d'))"
    by (rule delta_Inr[OF r])
  have len: "length full = length (take ?w ?all)" by (rule workPayloads_length[OF f(1)])
  have n: "n \<le> length (take ?w ?all)" using bounded_le[OF f(2)] len by simp
  have on: "feed_on d now d" using inv by (simp add: feed_on_def)
  have srt: "sorted_wrt (\<lambda>a b. e_seq a < e_seq b) ?all" by (rule entries_after_sorted[OF work_invD(5)[OF inv(1)]])
  have pre: "filter (\<lambda>n. e_seq n \<le> edge) ?all = take n (take ?w ?all) \<and> edge \<le> store_head d (m_repository m) \<or> n = 0 \<and> edge = mc_seq c"
  proof (cases "n > 0")
    case True
    have lt: "n \<le> length ?all" "n \<le> ?w" using n by simp_all
    have "n - 1 < ?w" using lt(2) True by linarith
    have e1: "edge = e_seq (?all ! (n - 1))" using j(1) True \<open>n - 1 < ?w\<close> by simp
    have "?all ! (n - 1) \<in> set ?all" using lt(1) True by (intro nth_mem) linarith
    then have "edge \<le> store_head d (m_repository m)" using e1 feed_okD(1)[OF inv(2)] entries_after_mem by fastforce
    then show ?thesis using filter_le_prefix(1)[OF srt True lt(1)] e1 lt(2) by (simp add: min_absorb1)
  qed (use j(1) in simp)
  have none: "filter (\<lambda>n. e_seq n \<le> mc_seq c) ?all = []" using entries_after_mem by (fastforce simp: filter_empty_conv)
  have page: "workPayloads d (m_repository m) (filter (\<lambda>n. e_seq n \<le> edge) ?all) = Inr (take n full)"
    using pre workPayloads_take[OF f(1), of n] none by auto
  have empty: "?all = []" if "texts = []"
  proof (rule ccontr)
    assume "?all \<noteq> []"
    moreover have "0 < ?w" using window by simp
    ultimately have "0 < length (take ?w ?all)" by simp
    then have "full \<noteq> []" using len by (metis length_greater_0_conv)
    then show False using bounded_pos[OF f(2)] f(3) that by simp
  qed
  have fin: "entries_after d (m_repository m) edge = []" if "\<not> rest"
  proof (rule ccontr)
    assume ne: "entries_after d (m_repository m) edge \<noteq> []"
    then obtain q where q: "q \<in> set (entries_after d (m_repository m) edge)" by (meson last_in_set)
    have qh: "edge < e_seq q" "e_seq q \<le> store_head d (m_repository m)" using entries_after_mem[OF q] feed_okD(1)[OF inv(2), of q] by auto
    have "store_head d (m_repository m) \<le> store_head d' (m_repository m)"
      using w
    proof (elim disjE exE conjE)
      fix y assume "memoryProgress e (participant_guard m) (m_repository m) (issue_delta m edge) d = (y, d')"
      then show ?thesis by (rule delta_head[OF on ids, rotated]) (use qh in linarith)
    qed simp
    then show False using that qh j(2,3) by simp
  qed
  show ?thesis using f(3,4) page empty fin by (auto simp: take_map)
qed


definition demo_store :: db where
  "demo_store = empty_db\<lparr>memory_stores := [\<lparr>ms_repository = ''/w/app/.git'', ms_store_id = ''s'', ms_head = 1, ms_floor = 0, ms_work_counter = 0,
       ms_claim_counter = 0, ms_library_floor = 0\<rparr>],
     memory_entries := [(demo_entry 1 None)\<lparr>e_repository := ''/w/app/.git''\<rparr>],
     memory_cursors := [(new_cursor demo_notes (demo_worker ''alice''))\<lparr>cu_bootstrapped := True\<rparr>]\<rparr>"

lemma demo_feed_store_inv: "work_inv 0 demo_store" "feed_ok demo_store"
proof -
  show "work_inv 0 demo_store"
    by (simp add: demo_store_def empty_db_def demo_entry_def work_inv_def stores_wf_def heads_def items_wf_def events_wf_def history_ok_def
        stream_ok_def scopes_ok_def claims_ok_def lease_inv_def lease_wf_def exclusive_def credits_ok_def credits_in_def sum_flags_def
        maxStoreVerdicts_def maxDaemonVerdicts_def)
  show "feed_ok demo_store"
    by (simp add: demo_store_def empty_db_def demo_entry_def feed_ok_def store_head_def cursor_fits_def new_cursor_def demo_worker_def)
qed

lemma demo_delta: "fst (delta demo_notes (demo_worker ''alice'') \<lparr>mc_seq = 0, mc_issued = 0, mc_snapshot = None, mc_bootstrapped = True, mc_resnapshot = False\<rparr> demo_store)
    = Inr (DeltaPage [''b''] 0 1 1 False)"
  by code_simp

theorem delta_delivers_every_entry_witness:
  "entries_after demo_store ''/w/app/.git'' 1 = []"
proof -
  let ?c = "\<lparr>mc_seq = 0, mc_issued = 0, mc_snapshot = None, mc_bootstrapped = True, mc_resnapshot = False\<rparr>"
  obtain d' where r: "delta demo_notes (demo_worker ''alice'') ?c demo_store = (Inr (DeltaPage [''b''] 0 1 1 False), d')"
    using demo_delta by (metis prod.collapse)
  have m: "m_repository (demo_worker ''alice'') = ''/w/app/.git''" by (simp add: demo_worker_def)
  have "fresh_ids (nv_wenv demo_notes)" "mc_seq ?c \<le> mc_issued ?c" "0 < lm_row_window (nv_limits demo_notes)"
    by (simp_all add: demo_notes_def demo_env_fresh) (simp add: demo_env_def defaultMemoryLimits_def)
  from delta_delivers_every_entry[OF demo_feed_store_inv this r] show ?thesis by (simp add: m)
qed

end
