(* ===== verification/Decisions.thy ===== *)
theory Decisions
  imports Rooms
begin

text \<open>
  The decision board (\<^verbatim>\<open>internal/core/decisions.go\<close>, \<^verbatim>\<open>internal/core/decision_record.go\<close>): the tables, the
  checks of agent-written fields, creation and edit of items, and the reads. Verdicts, closes and
  withdrawals are in \<^verbatim>\<open>Verdicts\<close>, the deep archive in \<^verbatim>\<open>Deep_Archive\<close>.

  The tables of the board are the record \<open>board\<close>, with the monthly log files and the sweep's cursor
  beside them; a store is the state database and the board, and one transaction covers the tables of
  both. Text columns that hold JSON written by the daemon (\<open>commands\<close>, \<open>snapshot\<close>, the receipt of a
  retry record) hold the decoded value, so the branches for an unreadable column are absent. A receipt
  is decoded into the type the reader asks for, by the JSON names the two types share. Parameters of
  \<open>board_env\<close>: admission and commit of the storage boundary, the two clocks, \<^verbatim>\<open>strconv.FormatFloat\<close>,
  \<^verbatim>\<open>strconv.Quote\<close>, the time text and the sizes of encoded rows.
\<close>

section \<open>Tables\<close>

record DecisionSnapshot =
  ds_title :: string
  ds_where :: string
  ds_context :: string
  ds_recommendation :: string
  ds_commands :: "string list"

record itemRow =
  di_id :: int
  di_reference :: string
  di_order :: int
  di_title :: string
  di_location :: string
  di_agent_text :: string
  di_context :: string
  di_recommendation :: string
  di_kind :: string
  di_state :: string
  di_commands :: "string list"
  di_revision :: int
  di_author_family :: string
  di_author_name :: string
  di_author_participant :: string
  di_created_at :: int
  di_updated_at :: int
  di_archived_at :: int
  di_closed_by :: string
  di_closed_at :: int
  di_outcome_note :: string
  di_mark_revision :: int
  di_mark_file :: string
  di_mark_offset :: int
  di_verdict_count :: int

record recipientRow =
  dr_item_id :: int
  dr_ordinal :: int
  dr_name :: string
  dr_kind :: string
  dr_reason :: string

record verdictRow =
  vd_id :: int
  vd_item_id :: int
  vd_revision :: int
  vd_verdict :: string
  vd_note :: string
  vd_created_at :: int
  vd_snapshot :: DecisionSnapshot
  vd_superseded_at :: int
  vd_via :: string

record deliveryRow =
  dd_verdict_id :: int
  dd_ordinal :: int
  dd_kind :: string
  dd_name :: string
  dd_outcome :: string
  dd_reason :: string
  dd_message_id :: int
  dd_acknowledged_at :: int

record withdrawalRow =
  dw_id :: int
  dw_item_id :: int
  dw_revision :: int
  dw_family :: string
  dw_name :: string
  dw_reason :: string
  dw_at :: int
  dw_reopened_at :: int
  dw_reopened_by :: string

record locatorRow =
  dp_reference :: string
  dp_file :: string
  dp_offset :: int
  dp_length :: int
  dp_moved_at :: int

section \<open>Values\<close>

record DecisionRecipient =
  rc_name :: string
  rc_kind :: string
  rc_resolved :: bool
  rc_reason :: string

record DecisionDelivery =
  dy_name :: string
  dy_kind :: string
  dy_outcome :: string
  dy_reason :: string
  dy_acknowledged_at :: int

record DecisionVerdict =
  dv_id :: int
  dv_revision :: int
  dv_verdict :: string
  dv_note :: string
  dv_at :: int
  dv_superseded_at :: int
  dv_snapshot :: DecisionSnapshot
  dv_deliveries :: "DecisionDelivery list"
  dv_via :: string

record DecisionRecord =
  re_instruction :: string
  re_entry :: string

record DecisionItem =
  it_reference :: string
  it_order :: int
  it_title :: string
  it_where :: string
  it_agent_text :: string
  it_context :: string
  it_recommendation :: string
  it_kind :: string
  it_state :: string
  it_revision :: int
  it_commands :: "string list"
  it_hidden_commands :: nat
  it_recipients :: "DecisionRecipient list"
  it_author_family :: string
  it_author_name :: string
  it_author_repository :: string
  it_created_at :: int
  it_updated_at :: int
  it_archived_at :: int
  it_closed_by :: string
  it_closed_at :: int
  it_outcome_note :: string
  it_verdict :: "DecisionVerdict option"
  it_verdicts :: int
  it_withdrawals :: "withdrawalRow list"
  it_withdrawal_count :: nat
  it_record :: "DecisionRecord option"
  it_withdrawn :: bool

record DecisionSummary =
  sm_id :: int
  sm_reference :: string
  sm_title :: string
  sm_kind :: string
  sm_state :: string
  sm_revision :: int
  sm_order :: int
  sm_verdict :: string
  sm_withdrawn :: bool
  sm_author_repository :: string

record DecisionPage =
  dg_items :: "DecisionSummary list"
  dg_more :: bool
  dg_next_after :: "int option"

record DecisionFields =
  fd_order :: "int option"
  fd_title :: "string option"
  fd_where :: "string option"
  fd_agent_text :: "string option"
  fd_context :: "string option"
  fd_recommendation :: "string option"
  fd_kind :: "string option"
  fd_commands :: "string list option"
  fd_recipients :: "string list option"

definition no_fields :: DecisionFields where
  "no_fields = \<lparr>fd_order = None, fd_title = None, fd_where = None, fd_agent_text = None, fd_context = None, fd_recommendation = None,
     fd_kind = None, fd_commands = None, fd_recipients = None\<rparr>"

record DecisionCreated =
  dc_reference :: string
  dc_revision :: int
  dc_state :: string
  dc_recipients :: "DecisionRecipient list"
  dc_duplicate :: bool

text \<open>The result column of a retry record.\<close>

datatype receipt = Created DecisionCreated | Item DecisionItem

record decisionReplayRow =
  dx_family :: string
  dx_caller_id :: string
  dx_key :: string
  dx_fingerprint :: string
  dx_deadline :: time
  dx_result :: receipt

record board =
  bd_items :: "itemRow list"
  bd_item_ids :: int
  bd_recipients :: "recipientRow list"
  bd_verdicts :: "verdictRow list"
  bd_verdict_ids :: int
  bd_deliveries :: "deliveryRow list"
  bd_withdrawals :: "withdrawalRow list"
  bd_withdrawal_ids :: int
  bd_archive :: "locatorRow list"
  bd_replays :: "decisionReplayRow list"
  bd_changes :: int
  bd_logs :: "string \<Rightarrow> string option"
  bd_after_at :: int
  bd_after_id :: int

type_synonym store = "db \<times> board"
type_synonym 'a outcome = "(kerror + 'a) \<times> store"

record board_env =
  bv_ext :: ext
  bv_limits :: memoryLimits
  bv_admit :: "writeClass \<Rightarrow> store \<Rightarrow> kerror + unit"
  bv_commit :: "writeClass \<Rightarrow> store \<Rightarrow> kerror + unit"
  bv_now :: int
  bv_clock :: time
  bv_float_text :: "time \<Rightarrow> string"
  bv_quote :: "string \<Rightarrow> string"
  bv_time_text :: "int \<Rightarrow> string"
  bv_request_json :: "string \<Rightarrow> DecisionFields \<Rightarrow> string \<Rightarrow> string"
  bv_summary_bytes :: "DecisionSummary \<Rightarrow> nat"
  bv_origin :: string

definition board_tx :: "board_env \<Rightarrow> writeClass \<Rightarrow> (store \<Rightarrow> kerror + ('a \<times> store)) \<Rightarrow> store \<Rightarrow> 'a outcome" where
  "board_tx e cls body s =
     (case rbind (bv_admit e cls s) (\<lambda>_. rbind (body s) (\<lambda>(a, s'). rbind (bv_commit e cls s') (\<lambda>_. Inr (a, s')))) of
        Inl err \<Rightarrow> (Inl err, s)
      | Inr (a, s') \<Rightarrow> (Inr a, s'))"

definition bump_board :: "board \<Rightarrow> board" where
  "bump_board b = b\<lparr>bd_changes := bd_changes b + 1\<rparr>"

section \<open>Checks\<close>

definition decisionRefLimit :: nat where "decisionRefLimit = 32"
definition decisionTitleLimit :: nat where "decisionTitleLimit = 256"
definition decisionWhereLimit :: nat where "decisionWhereLimit = 256"
definition decisionAgentTextLimit :: nat where "decisionAgentTextLimit = 8192"
definition decisionContextLimit :: nat where "decisionContextLimit = 16384"
definition decisionRecommendationLimit :: nat where "decisionRecommendationLimit = 8192"
definition decisionCommandLimit :: nat where "decisionCommandLimit = 512"
definition decisionCommandCount :: nat where "decisionCommandCount = 8"
definition decisionRecipientLimit :: nat where "decisionRecipientLimit = 256"
definition decisionRecipientCount :: nat where "decisionRecipientCount = 32"
definition decisionKeyLimit :: nat where "decisionKeyLimit = 256"
definition decisionPageItems :: nat where "decisionPageItems = 100"
definition decisionPageBytes :: nat where "decisionPageBytes = 65536"

definition decisionInvalid :: "string \<Rightarrow> string \<Rightarrow> kerror" where
  "decisionInvalid fld rule = workError ''invalid_request'' (fld @ '' '' @ rule)"

definition checkLine :: "string \<Rightarrow> string \<Rightarrow> nat \<Rightarrow> bool \<Rightarrow> kerror + unit" where
  "checkLine v fld limit required =
     (if required \<and> v = [] then Inl (decisionInvalid fld ''is required'')
      else if length v > limit \<or> \<not> valid_utf8 v
      then Inl (decisionInvalid fld (''must be at most '' @ show_nat limit @ '' bytes of UTF-8 text''))
      else guard (\<not> has_control v) (decisionInvalid fld ''must not contain control characters''))"

definition checkMarkdown :: "string \<Rightarrow> string \<Rightarrow> nat \<Rightarrow> kerror + unit" where
  "checkMarkdown v fld limit =
     (if length v > limit \<or> \<not> valid_utf8 v
      then Inl (decisionInvalid fld (''must be at most '' @ show_nat limit @ '' bytes of UTF-8 text''))
      else guard (\<forall>x\<in>set (decode_runes v). \<not> (is_control (fst x) \<and> fst x \<noteq> 10 \<and> fst x \<noteq> 9))
        (decisionInvalid fld ''must not contain control characters other than newline and tab''))"

definition printableCommand :: "string \<Rightarrow> bool" where
  "printableCommand c \<longleftrightarrow> c \<noteq> [] \<and> length c \<le> decisionCommandLimit \<and> (\<forall>b\<in>set c. 32 \<le> byte b \<and> byte b \<le> 126)"

text \<open>
  The regular expressions of the credential formats: the end positions of the matches that start at a
  position. The texts are valid UTF-8 and every class is ASCII, so matching bytes is matching runes.
\<close>

datatype rx =
    Lit string
  | Rep "char \<Rightarrow> bool" nat
  | Exactly "char \<Rightarrow> bool" nat
  | Bound
  | Seq rx rx
  | Alt rx rx

definition rx_digit :: "char \<Rightarrow> bool" where "rx_digit c \<longleftrightarrow> 48 \<le> byte c \<and> byte c \<le> 57"
definition rx_upper :: "char \<Rightarrow> bool" where "rx_upper c \<longleftrightarrow> 65 \<le> byte c \<and> byte c \<le> 90"
definition rx_lower :: "char \<Rightarrow> bool" where "rx_lower c \<longleftrightarrow> 97 \<le> byte c \<and> byte c \<le> 122"
definition rx_alnum :: "char \<Rightarrow> bool" where "rx_alnum c \<longleftrightarrow> rx_digit c \<or> rx_upper c \<or> rx_lower c"
definition rx_word :: "char \<Rightarrow> bool" where "rx_word c \<longleftrightarrow> rx_alnum c \<or> c = CHR ''_''"

definition rx_at :: "string \<Rightarrow> nat \<Rightarrow> bool" where
  "rx_at s i \<longleftrightarrow> i < length s \<and> rx_word (s ! i)"

fun rx_ends :: "rx \<Rightarrow> string \<Rightarrow> nat \<Rightarrow> nat list" where
  "rx_ends (Lit p) s i = (if has_prefix (drop i s) p then [i + length p] else [])"
| "rx_ends (Rep P n) s i = map ((+) i) [n..<Suc (length (takeWhile P (drop i s)))]"
| "rx_ends (Exactly P n) s i = (if length (takeWhile P (take n (drop i s))) = n then [i + n] else [])"
| "rx_ends Bound s i = (if (0 < i \<and> rx_at s (i - 1)) \<noteq> rx_at s i then [i] else [])"
| "rx_ends (Seq a b) s i = concat (map (rx_ends b s) (rx_ends a s i))"
| "rx_ends (Alt a b) s i = rx_ends a s i @ rx_ends b s i"

definition rx_match :: "rx \<Rightarrow> string \<Rightarrow> bool" where
  "rx_match r s \<longleftrightarrow> list_ex (\<lambda>i. rx_ends r s i \<noteq> []) [0..<Suc (length s)]"

definition credentialFormats :: "(string \<times> rx) list" where
  "credentialFormats =
     [(''private key block'', Seq (Lit ''-----BEGIN '') (Seq (Rep (\<lambda>c. rx_upper c \<or> rx_digit c \<or> c = CHR '' '') 0) (Lit ''PRIVATE KEY-----''))),
      (''GitHub token'', Alt
         (Seq Bound (Seq (Lit ''gh'') (Seq (Exactly (\<lambda>c. c \<in> set ''pousr'') 1) (Seq (Lit ''_'') (Rep rx_alnum 36)))))
         (Seq Bound (Seq (Lit ''github_pat_'') (Rep rx_word 22)))),
      (''AWS access key'', Seq Bound (Seq (Alt (Lit ''AKIA'') (Lit ''ASIA'')) (Seq (Exactly (\<lambda>c. rx_digit c \<or> rx_upper c) 16) Bound))),
      (''Slack token'', Alt
         (Seq Bound (Seq (Lit ''xox'') (Seq (Exactly (\<lambda>c. c \<in> set ''abposr'') 1) (Seq (Lit ''-'') (Rep (\<lambda>c. rx_alnum c \<or> c = CHR ''-'') 10)))))
         (Seq Bound (Seq (Lit ''xapp-'') (Rep (\<lambda>c. rx_alnum c \<or> c = CHR ''-'') 10)))),
      (''Anthropic-style API key'', Seq Bound (Seq (Lit ''sk-ant-'') (Rep (\<lambda>c. rx_word c \<or> c = CHR ''-'') 20))),
      (''OpenAI-style API key'', Seq Bound (Seq (Lit ''sk-'') (Rep (\<lambda>c. rx_word c \<or> c = CHR ''-'') 20)))]"

definition checkCredentials :: "string \<Rightarrow> string \<Rightarrow> kerror + unit" where
  "checkCredentials v fld =
     (case List.find (\<lambda>(_, r). rx_match r v) credentialFormats of
        None \<Rightarrow> Inr ()
      | Some (name, _) \<Rightarrow> Inl (workError ''credential_refused'' (fld @ '' holds a '' @ name @ ''; remove it'')))"

definition present :: "('a \<Rightarrow> kerror + unit) \<Rightarrow> 'a option \<Rightarrow> kerror + unit" where
  "present f x = (case x of None \<Rightarrow> Inr () | Some v \<Rightarrow> f v)"

definition named_text :: "string \<Rightarrow> string option \<Rightarrow> (string \<times> string) list" where
  "named_text fld x = (case x of None \<Rightarrow> [] | Some v \<Rightarrow> [(fld, v)])"

definition field_texts :: "DecisionFields \<Rightarrow> (string \<times> string) list" where
  "field_texts f =
     named_text ''title'' (fd_title f) @ named_text ''where'' (fd_where f) @ named_text ''agent_text'' (fd_agent_text f)
     @ named_text ''context'' (fd_context f) @ named_text ''recommendation'' (fd_recommendation f)
     @ (case fd_commands f of None \<Rightarrow> [] | Some cs \<Rightarrow> map (\<lambda>c. (''commands'', c)) cs)
     @ (case fd_recipients f of None \<Rightarrow> [] | Some rs \<Rightarrow> map (\<lambda>r. (''recipients'', r)) rs)"

definition validate_fields :: "DecisionFields \<Rightarrow> bool \<Rightarrow> kerror + unit" where
  "validate_fields f create =
     rbind (guard (\<not> (create \<and> (fd_title f = None \<or> fd_kind f = None))) (decisionInvalid ''title and kind'' ''are required'')) (\<lambda>_.
     rbind (present (\<lambda>v. checkLine v ''title'' decisionTitleLimit True) (fd_title f)) (\<lambda>_.
     rbind (present (\<lambda>v. checkLine v ''where'' decisionWhereLimit False) (fd_where f)) (\<lambda>_.
     rbind (present (\<lambda>v. checkMarkdown v ''agent_text'' decisionAgentTextLimit) (fd_agent_text f)) (\<lambda>_.
     rbind (present (\<lambda>v. checkMarkdown v ''context'' decisionContextLimit) (fd_context f)) (\<lambda>_.
     rbind (present (\<lambda>v. checkMarkdown v ''recommendation'' decisionRecommendationLimit) (fd_recommendation f)) (\<lambda>_.
     rbind (present (\<lambda>v. guard (v \<in> {''decision'', ''task'', ''fyi''}) (decisionInvalid ''kind'' ''must be decision, task or fyi'')) (fd_kind f)) (\<lambda>_.
     rbind (present (\<lambda>cs. rbind (guard (length cs \<le> decisionCommandCount)
                (decisionInvalid ''commands'' (''holds at most '' @ show_nat decisionCommandCount @ '' entries''))) (\<lambda>_.
              each (\<lambda>c. guard (printableCommand c) (decisionInvalid ''commands'' ''entries must be 1 to 512 bytes of printable ASCII (0x20-0x7E)'')) cs))
              (fd_commands f)) (\<lambda>_.
     rbind (present (\<lambda>rs. rbind (guard (length rs \<le> decisionRecipientCount)
                (decisionInvalid ''recipients'' (''holds at most '' @ show_nat decisionRecipientCount @ '' names''))) (\<lambda>_.
              each (\<lambda>r. checkLine r ''recipients'' decisionRecipientLimit True) rs)) (fd_recipients f)) (\<lambda>_.
     each (\<lambda>(name, v). checkCredentials v name) (field_texts f))))))))))"

definition decisionReference :: "string \<Rightarrow> bool" where
  "decisionReference r \<longleftrightarrow> 1 \<le> length r \<and> length r \<le> decisionRefLimit \<and> list_all (\<lambda>c. rx_alnum c \<or> c = CHR ''-'') r"

definition checkReference :: "string \<Rightarrow> kerror + unit" where
  "checkReference r =
     rbind (guard (decisionReference r) (decisionInvalid ''reference'' ''must be 1 to 32 characters of A-Z, a-z, 0-9 and -'')) (\<lambda>_.
     checkCredentials r ''reference'')"

text \<open>The retry deadline of a keyed request.\<close>

definition check_deadline :: "board_env \<Rightarrow> time \<Rightarrow> kerror + unit" where
  "check_deadline e t =
     (if t > bv_clock e + lm_idem_ttl (bv_limits e)
      then Inl (decisionInvalid ''deadline'' (''must be a Unix time in seconds at most '' @ show_int \<lfloor>lm_idem_ttl (bv_limits e)\<rfloor> @ '' s ahead''))
      else guard (t > bv_clock e) (workError ''retry_deadline_expired'' ''the retry deadline has passed''))"

section \<open>Recipients\<close>

definition resolveRecipient :: "db \<Rightarrow> string \<Rightarrow> string \<times> string" where
  "resolveRecipient d name =
     (case List.find (\<lambda>n. n_name n = name) (names d) of
        None \<Rightarrow> ([], ''unknown_name'')
      | Some n \<Rightarrow> if n_kind n = ''alias'' then (''participant'', []) else (''peer'', []))"

definition decisionRecipients :: "db \<Rightarrow> string list \<Rightarrow> DecisionRecipient list" where
  "decisionRecipients d ns = map (\<lambda>name. case resolveRecipient d name of (kind, reason) \<Rightarrow>
     \<lparr>rc_name = name, rc_kind = kind, rc_resolved = (kind \<noteq> []), rc_reason = reason\<rparr>) ns"

definition recipient_rows :: "int \<Rightarrow> DecisionRecipient list \<Rightarrow> recipientRow list" where
  "recipient_rows i rs = map (\<lambda>(n, r). \<lparr>dr_item_id = i, dr_ordinal = int n, dr_name = rc_name r, dr_kind = rc_kind r, dr_reason = rc_reason r\<rparr>)
     (enumerate 0 rs)"

definition storeRecipients :: "int \<Rightarrow> DecisionRecipient list \<Rightarrow> board \<Rightarrow> board" where
  "storeRecipients i rs b = b\<lparr>bd_recipients := filter (\<lambda>r. dr_item_id r \<noteq> i) (bd_recipients b) @ recipient_rows i rs\<rparr>"

definition recipientNames :: "board \<Rightarrow> int \<Rightarrow> string list" where
  "recipientNames b i = map dr_name (sort_key dr_ordinal (filter (\<lambda>r. dr_item_id r = i) (bd_recipients b)))"

text \<open>The participant of a session: the family, repository and role of one that qualifies.\<close>

definition unit_sep :: char where "unit_sep = CHR 0x1F"

definition authorParticipantOf :: "db \<Rightarrow> Key \<Rightarrow> string" where
  "authorParticipantOf d caller =
     (case List.find (\<lambda>s. s_family s = k_family caller \<and> s_id s = k_id caller \<and> \<not> s_subagent s \<and> s_repository s \<noteq> [] \<and> participantQualifier s)
             (sessions d) of
        None \<Rightarrow> []
      | Some s \<Rightarrow> s_family s @ [unit_sep] @ s_repository s @ [unit_sep] @ s_role s)"

definition participantRepository :: "string \<Rightarrow> string" where
  "participantRepository p = (case split_byte unit_sep p of [_, repository, _] \<Rightarrow> repository | _ \<Rightarrow> [])"

text \<open>The names that name the caller now: its peer name and the address it holds.\<close>

definition callerNames :: "db \<Rightarrow> int \<Rightarrow> Key \<Rightarrow> string list" where
  "callerNames d now caller = filter (\<lambda>n. n \<noteq> []) [peerOf d (k_family caller) (k_id caller), heldAddress d now caller]"

section \<open>The record of a verdict\<close>

definition decisionRecordInstruction :: string where
  "decisionRecordInstruction =
     ''When this verdict decides how the project works, record the decision in the repository that the item was created in, ''
     @ ''in the pull request that does the work: in the ADR, PDR, WDR or sprint document that holds the rule. Koinon writes no record file. ''
     @ ''Write it succinctly, with these parts: Decided by (the person's name, not a role), Date, Context (the question and the options), Decision, ''
     @ ''Reason and scope, and Review when (a known condition that calls for a review of the decision; leave it out when there is none). ''
     @ ''Correct the spelling and typing errors in quoted words and keep their meaning. Put a declined decision into the record's Alternatives Considered. ''
     @ ''Name the decision by its card reference, never by its verdict ID, which exists only in this machine's store.''"

text \<open>\<open>strings.Fields\<close>: the runs of runes that are not white space.\<close>

function word_length :: "string \<Rightarrow> nat" where
  "word_length s = (if s = [] then 0 else
     (case decode_rune s of (r, w, ok) \<Rightarrow> if is_space r then 0 else max 1 w + word_length (drop (max 1 w) s)))"
  by pat_completeness auto
termination
  by (relation "measure length") auto

declare word_length.simps [simp del]

lemma skip_space_length: "length (skip_space s) \<le> length s"
proof (induction s rule: skip_space.induct)
  case (1 s)
  show ?case
  proof (cases "s = []")
    case False
    obtain r w ok where d: "decode_rune s = (r, w, ok)" by (cases "decode_rune s")
    show ?thesis using "1"[OF False d[symmetric] refl] False d by (auto simp: skip_space.simps[of s])
  qed (simp add: skip_space.simps)
qed

function split_space :: "string \<Rightarrow> string list" where
  "split_space s = (let t = skip_space s in
     if t = [] then [] else let w = max 1 (word_length t) in take w t # split_space (drop w t))"
  by pat_completeness auto
termination
proof (relation "measure length", simp, goal_cases)
  case (1 s t w)
  then have "0 < length t" "0 < w" by auto
  then have "length (drop w t) < length t" by simp
  also have "\<dots> \<le> length s" using skip_space_length[of s] 1 by simp
  finally show ?case by simp
qed

declare split_space.simps [simp del]

definition oneLine :: "string \<Rightarrow> string" where
  "oneLine s = join_with '' '' (split_space s)"

definition newline :: char where "newline = CHR 0x0A"

definition trim_right :: "char \<Rightarrow> string \<Rightarrow> string" where
  "trim_right c s = rev (dropWhile (\<lambda>x. x = c) (rev s))"

definition verdictWord :: "string \<Rightarrow> string" where
  "verdictWord v = (case v of [] \<Rightarrow> [] | c # cs \<Rightarrow> (if rx_lower c then char_of (byte c - 32 :: nat) else c) # cs)"

definition quoted :: "string \<Rightarrow> string \<Rightarrow> string" where
  "quoted lab s =
     (if blank s then []
      else [newline] @ lab @ '':'' @ [newline, newline] @ concat (map (\<lambda>l. let line = trim_right (CHR 0x0D) l in
             (if line = [] then ''>'' else ''> '' @ line) @ [newline]) (split_byte newline (trim_right newline s))))"

definition DecisionVerdictText :: "board_env \<Rightarrow> string \<Rightarrow> DecisionVerdict \<Rightarrow> string" where
  "DecisionVerdictText e location v =
     (let s = dv_snapshot v in
      ''**'' @ verdictWord (dv_verdict v) @ ''**, revision '' @ show_int (dv_revision v) @ '', '' @ bv_time_text e (dv_at v) @ ''.'' @ [newline, newline]
      @ ''- Title: '' @ oneLine (ds_title s) @ [newline]
      @ (if ds_where s \<noteq> [] then ''- Where: '' @ oneLine (ds_where s) @ [newline]
         else if location \<noteq> []
         then ''- Where (the item's text when recorded; the verdict's snapshot has none): '' @ oneLine location @ [newline]
         else [])
      @ quoted ''Context'' (ds_context s) @ quoted ''Recommendation'' (ds_recommendation s)
      @ (if ds_commands s = [] then []
         else [newline] @ ''Commands:'' @ [newline, newline]
           @ concat (map (\<lambda>c. ''    '' @ (if printableCommand c then c else bv_quote e c) @ [newline]) (ds_commands s)))
      @ quoted (if dv_verdict v = ''feedback'' then ''Feedback'' else ''Note'') (dv_note v))"

text \<open>An fyi item holds no decision, so its acknowledgement and an old dismissal carry no record.\<close>

definition recordedVerdict :: "string \<Rightarrow> bool" where
  "recordedVerdict v \<longleftrightarrow> v \<noteq> ''acknowledged'' \<and> v \<noteq> ''dismissed''"

section \<open>Reads\<close>

definition deepArchived :: "board \<Rightarrow> string \<Rightarrow> int option" where
  "deepArchived b reference = map_option dp_moved_at (List.find (\<lambda>l. dp_reference l = reference) (bd_archive b))"

definition decisionRow :: "board \<Rightarrow> string \<Rightarrow> kerror + itemRow" where
  "decisionRow b reference =
     (case List.find (\<lambda>i. di_reference i = reference) (bd_items b) of
        Some i \<Rightarrow> Inr i
      | None \<Rightarrow> (case deepArchived b reference of
          Some moved_at \<Rightarrow> Inl (WorkRefusal ''deep_archived'' ''the item moved to the deep archive; restore it with decision_restore''
             [(''moved_at'', DInt moved_at), (''restore'', DText ''decision_restore'')])
        | None \<Rightarrow> Inl (workError ''not_found'' ''no decision item has this reference'')))"

definition item_verdicts :: "board \<Rightarrow> int \<Rightarrow> verdictRow list" where
  "item_verdicts b i = sort_key vd_id (filter (\<lambda>v. vd_item_id v = i) (bd_verdicts b))"

definition verdictDeliveries :: "board \<Rightarrow> int \<Rightarrow> DecisionDelivery list" where
  "verdictDeliveries b v = map (\<lambda>r. \<lparr>dy_name = dd_name r, dy_kind = dd_kind r, dy_outcome = dd_outcome r, dy_reason = dd_reason r,
     dy_acknowledged_at = dd_acknowledged_at r\<rparr>) (sort_key dd_ordinal (filter (\<lambda>r. dd_verdict_id r = v) (bd_deliveries b)))"

definition verdict_view :: "verdictRow \<Rightarrow> DecisionVerdict" where
  "verdict_view v = \<lparr>dv_id = vd_id v, dv_revision = vd_revision v, dv_verdict = vd_verdict v, dv_note = vd_note v, dv_at = vd_created_at v,
     dv_superseded_at = vd_superseded_at v, dv_snapshot = vd_snapshot v, dv_deliveries = [], dv_via = []\<rparr>"

text \<open>The latest verdict, unless it is superseded: one index seek.\<close>

definition currentVerdict :: "board \<Rightarrow> int \<Rightarrow> bool \<Rightarrow> DecisionVerdict option" where
  "currentVerdict b i deliveries =
     (case item_verdicts b i of
        [] \<Rightarrow> None
      | vs \<Rightarrow> let v = last vs in
          if vd_superseded_at v \<noteq> 0 then None
          else Some ((verdict_view v)\<lparr>dv_deliveries := (if deliveries then verdictDeliveries b (vd_id v) else [])\<rparr>))"

definition decisionWithdrawalItems :: nat where "decisionWithdrawalItems = 8"

definition item_withdrawals :: "board \<Rightarrow> int \<Rightarrow> withdrawalRow list" where
  "item_withdrawals b i = sort_key dw_id (filter (\<lambda>w. dw_item_id w = i) (bd_withdrawals b))"

definition decisionWithdrawals :: "board \<Rightarrow> int \<Rightarrow> withdrawalRow list \<times> nat" where
  "decisionWithdrawals b i = (let ws = item_withdrawals b i in (take decisionWithdrawalItems (rev ws), length ws))"

definition item_view :: "board_env \<Rightarrow> store \<Rightarrow> itemRow \<Rightarrow> DecisionItem" where
  "item_view e s i = (case s of (d, b) \<Rightarrow>
     let v = currentVerdict b (di_id i) True; ws = decisionWithdrawals b (di_id i) in
     \<lparr>it_reference = di_reference i, it_order = di_order i, it_title = di_title i, it_where = di_location i, it_agent_text = di_agent_text i,
      it_context = di_context i, it_recommendation = di_recommendation i, it_kind = di_kind i, it_state = di_state i,
      it_revision = di_revision i, it_commands = filter printableCommand (di_commands i),
      it_hidden_commands = length (filter (\<lambda>c. \<not> printableCommand c) (di_commands i)),
      it_recipients = decisionRecipients d (recipientNames b (di_id i)), it_author_family = di_author_family i,
      it_author_name = di_author_name i, it_author_repository = participantRepository (di_author_participant i),
      it_created_at = di_created_at i, it_updated_at = di_updated_at i, it_archived_at = di_archived_at i, it_closed_by = di_closed_by i,
      it_closed_at = di_closed_at i, it_outcome_note = di_outcome_note i, it_verdict = v, it_verdicts = di_verdict_count i,
      it_withdrawals = fst ws, it_withdrawal_count = snd ws,
      it_record = (case v of None \<Rightarrow> None
                   | Some w \<Rightarrow> if recordedVerdict (dv_verdict w)
                       then Some \<lparr>re_instruction = decisionRecordInstruction, re_entry = DecisionVerdictText e (di_location i) w\<rparr> else None),
      it_withdrawn = (di_state i = ''archived'' \<and> fst ws \<noteq> [] \<and> dw_reopened_at (hd (fst ws)) = 0)\<rparr>)"

definition decisionItem :: "board_env \<Rightarrow> store \<Rightarrow> string \<Rightarrow> kerror + DecisionItem" where
  "decisionItem e s reference = rbind (decisionRow (snd s) reference) (\<lambda>i. Inr (item_view e s i))"

definition DecisionGet :: "board_env \<Rightarrow> Key \<Rightarrow> string \<Rightarrow> store \<Rightarrow> kerror + DecisionItem" where
  "DecisionGet e caller reference s =
     rbind (checkReference reference) (\<lambda>_. rbind (activeCaller (fst s) (bv_now e) caller False) (\<lambda>_. decisionItem e s reference))"

section \<open>Retry records\<close>

definition decisionFingerprint :: "board_env \<Rightarrow> string \<Rightarrow> DecisionFields \<Rightarrow> time \<Rightarrow> string" where
  "decisionFingerprint e reference f deadline = hex_encode (sha256 (bv_ext e) (bv_request_json e reference f (bv_float_text e deadline)))"

definition replay_row :: "board \<Rightarrow> Key \<Rightarrow> string \<Rightarrow> decisionReplayRow option" where
  "replay_row b caller k = List.find (\<lambda>x. dx_family x = k_family caller \<and> dx_caller_id x = k_id caller \<and> dx_key x = k) (bd_replays b)"

fun as_created :: "receipt \<Rightarrow> DecisionCreated" where
  "as_created (Created c) = c"
| "as_created (Item i) = \<lparr>dc_reference = it_reference i, dc_revision = it_revision i, dc_state = it_state i, dc_recipients = it_recipients i,
     dc_duplicate = False\<rparr>"

fun as_item :: "receipt \<Rightarrow> DecisionItem" where
  "as_item (Item i) = i"
| "as_item (Created c) = \<lparr>it_reference = dc_reference c, it_order = 0, it_title = [], it_where = [], it_agent_text = [], it_context = [],
     it_recommendation = [], it_kind = [], it_state = dc_state c, it_revision = dc_revision c, it_commands = [], it_hidden_commands = 0,
     it_recipients = dc_recipients c, it_author_family = [], it_author_name = [], it_author_repository = [], it_created_at = 0,
     it_updated_at = 0, it_archived_at = 0, it_closed_by = [], it_closed_at = 0, it_outcome_note = [], it_verdict = None, it_verdicts = 0,
     it_withdrawals = [], it_withdrawal_count = 0, it_record = None, it_withdrawn = False\<rparr>"

definition repeat_of :: "board \<Rightarrow> Key \<Rightarrow> string \<Rightarrow> string \<Rightarrow> kerror + receipt option" where
  "repeat_of b caller k print =
     (case replay_row b caller k of
        None \<Rightarrow> Inr None
      | Some x \<Rightarrow> if dx_fingerprint x \<noteq> print then Inl (workError ''idempotency_conflict'' ''this key was used for a different request'')
                  else Inr (Some (dx_result x)))"

definition decisionRepeat :: "board \<Rightarrow> Key \<Rightarrow> string \<Rightarrow> string \<Rightarrow> kerror + DecisionCreated option" where
  "decisionRepeat b caller k print =
     rbind (repeat_of b caller k print) (\<lambda>r. Inr (map_option (\<lambda>x. (as_created x)\<lparr>dc_duplicate := True\<rparr>) r))"

definition decision_replay_ok :: "decisionReplayRow \<Rightarrow> decisionReplayRow list \<Rightarrow> bool" where
  "decision_replay_ok x t \<longleftrightarrow> fresh_key (\<lambda>y. (dx_family y, dx_caller_id y, dx_key y)) x t"

definition store_receipt :: "Key \<Rightarrow> string \<Rightarrow> string \<Rightarrow> time \<Rightarrow> receipt \<Rightarrow> board \<Rightarrow> kerror + board" where
  "store_receipt caller k print deadline r b =
     rbind (insert_row ErrConstraint decision_replay_ok \<lparr>dx_family = k_family caller, dx_caller_id = k_id caller, dx_key = k,
              dx_fingerprint = print, dx_deadline = deadline, dx_result = r\<rparr> (bd_replays b)) (\<lambda>t. Inr (b\<lparr>bd_replays := t\<rparr>))"

text \<open>A repeat is answered from a read before the write is admitted, and checked again in the write.\<close>

definition keyed_write ::
  "board_env \<Rightarrow> Key \<Rightarrow> (board \<Rightarrow> kerror + 'a option) \<Rightarrow> (store \<Rightarrow> kerror + ('a \<times> store)) \<Rightarrow> store \<Rightarrow> 'a outcome" where
  "keyed_write e caller rep body s =
     (case rbind (activeCaller (fst s) (bv_now e) caller False) (\<lambda>_. rep (snd s)) of
        Inl err \<Rightarrow> (Inl err, s)
      | Inr (Some a) \<Rightarrow> (Inr a, s)
      | Inr None \<Rightarrow> board_tx e ordinary (\<lambda>s1.
          rbind (activeCaller (fst s1) (bv_now e) caller False) (\<lambda>_.
          rbind (rep (snd s1)) (\<lambda>orig. case orig of Some a \<Rightarrow> Inr (a, s1) | None \<Rightarrow> body s1))) s)"

section \<open>Creation and edit\<close>

definition or_empty :: "string option \<Rightarrow> string" where
  "or_empty x = (case x of None \<Rightarrow> [] | Some v \<Rightarrow> v)"

definition item_ok :: "itemRow \<Rightarrow> itemRow list \<Rightarrow> bool" where
  "item_ok i t \<longleftrightarrow> fresh_key di_id i t \<and> fresh_key di_reference i t \<and> di_kind i \<in> {''decision'', ''task'', ''fyi''}
     \<and> di_state i \<in> {''active'', ''returned'', ''in_progress'', ''archived''} \<and> di_revision i > 0"

definition new_item :: "board_env \<Rightarrow> Key \<Rightarrow> string \<Rightarrow> DecisionFields \<Rightarrow> store \<Rightarrow> itemRow" where
  "new_item e caller reference f s = (case s of (d, b) \<Rightarrow>
     \<lparr>di_id = bd_item_ids b + 1, di_reference = reference, di_order = (case fd_order f of None \<Rightarrow> 0 | Some n \<Rightarrow> n), di_title = or_empty (fd_title f),
      di_location = or_empty (fd_where f), di_agent_text = or_empty (fd_agent_text f), di_context = or_empty (fd_context f),
      di_recommendation = or_empty (fd_recommendation f), di_kind = or_empty (fd_kind f), di_state = ''active'',
      di_commands = (case fd_commands f of None \<Rightarrow> [] | Some cs \<Rightarrow> cs), di_revision = 1, di_author_family = k_family caller,
      di_author_name = peerOf d (k_family caller) (k_id caller), di_author_participant = authorParticipantOf d caller,
      di_created_at = bv_now e, di_updated_at = bv_now e, di_archived_at = 0, di_closed_by = [], di_closed_at = 0, di_outcome_note = [],
      di_mark_revision = 0, di_mark_file = [], di_mark_offset = 0, di_verdict_count = 0\<rparr>)"

definition reference_taken :: "board \<Rightarrow> string \<Rightarrow> bool" where
  "reference_taken b reference \<longleftrightarrow> (\<exists>i\<in>set (bd_items b). di_reference i = reference) \<or> (\<exists>l\<in>set (bd_archive b). dp_reference l = reference)"

definition create_item ::
  "board_env \<Rightarrow> Key \<Rightarrow> string \<Rightarrow> DecisionFields \<Rightarrow> string \<Rightarrow> string \<Rightarrow> time \<Rightarrow> store \<Rightarrow> kerror + (DecisionCreated \<times> store)" where
  "create_item e caller reference f k print deadline s = (case s of (d, b) \<Rightarrow>
     rbind (guard (\<not> reference_taken b reference) (workError ''reference_in_use'' ''another decision item uses this reference'')) (\<lambda>_.
     let i = new_item e caller reference f s;
         rs = decisionRecipients d (case fd_recipients f of None \<Rightarrow> [] | Some ns \<Rightarrow> ns);
         created = \<lparr>dc_reference = reference, dc_revision = 1, dc_state = ''active'', dc_recipients = rs, dc_duplicate = False\<rparr> in
     rbind (insert_row ErrConstraint item_ok i (bd_items b)) (\<lambda>t.
     rbind (store_receipt caller k print deadline (Created created)
              (bump_board (storeRecipients (di_id i) rs (b\<lparr>bd_items := t, bd_item_ids := di_id i\<rparr>)))) (\<lambda>b'.
     Inr (created, (d, b'))))))"

definition DecisionCreate :: "board_env \<Rightarrow> Key \<Rightarrow> string \<Rightarrow> DecisionFields \<Rightarrow> string \<Rightarrow> time \<Rightarrow> store \<Rightarrow> DecisionCreated outcome" where
  "DecisionCreate e caller reference f k deadline s =
     (let print = decisionFingerprint e reference f deadline in
      case rbind (guard (validKey (k_family caller) (k_id caller)) ErrInvalid) (\<lambda>_.
           rbind (checkReference reference) (\<lambda>_.
           rbind (validate_fields f True) (\<lambda>_.
           rbind (checkLine k ''key'' decisionKeyLimit True) (\<lambda>_. check_deadline e deadline)))) of
        Inl err \<Rightarrow> (Inl err, s)
      | Inr _ \<Rightarrow> keyed_write e caller (\<lambda>b. decisionRepeat b caller k print) (create_item e caller reference f k print deadline) s)"

definition set_item :: "int \<Rightarrow> (itemRow \<Rightarrow> itemRow) \<Rightarrow> board \<Rightarrow> board" where
  "set_item i f b = b\<lparr>bd_items := update_where (\<lambda>r. di_id r = i) f (bd_items b)\<rparr>"

definition supersede :: "int \<Rightarrow> int \<Rightarrow> board \<Rightarrow> board" where
  "supersede i now b = b\<lparr>bd_verdicts := update_where (\<lambda>v. vd_item_id v = i \<and> vd_superseded_at v = 0) (\<lambda>v. v\<lparr>vd_superseded_at := now\<rparr>) (bd_verdicts b)\<rparr>"

definition end_withdrawals :: "(withdrawalRow \<Rightarrow> bool) \<Rightarrow> int \<Rightarrow> string \<Rightarrow> board \<Rightarrow> board" where
  "end_withdrawals P now peer b = b\<lparr>bd_withdrawals := update_where P (\<lambda>w. w\<lparr>dw_reopened_at := now, dw_reopened_by := peer\<rparr>) (bd_withdrawals b)\<rparr>"

definition activated :: "itemRow \<Rightarrow> itemRow" where
  "activated i = i\<lparr>di_state := ''active'', di_archived_at := 0, di_mark_revision := 0, di_mark_file := [], di_mark_offset := 0\<rparr>"

text \<open>An edit of an item that is not active reopens it for a new verdict.\<close>

definition reopen_for_edit :: "int \<Rightarrow> string \<Rightarrow> itemRow \<Rightarrow> board \<Rightarrow> board" where
  "reopen_for_edit now editor i b =
     (if di_state i = ''active'' then b
      else end_withdrawals (\<lambda>w. dw_item_id w = di_id i \<and> dw_reopened_at w = 0) now editor
             (set_item (di_id i) activated (supersede (di_id i) now b)))"

definition over :: "'a \<Rightarrow> 'a option \<Rightarrow> 'a" where
  "over old x = (case x of None \<Rightarrow> old | Some v \<Rightarrow> v)"

definition edited :: "int \<Rightarrow> DecisionFields \<Rightarrow> itemRow \<Rightarrow> itemRow" where
  "edited now f i = i\<lparr>di_order := over (di_order i) (fd_order f), di_title := over (di_title i) (fd_title f),
     di_location := over (di_location i) (fd_where f), di_agent_text := over (di_agent_text i) (fd_agent_text f),
     di_context := over (di_context i) (fd_context f), di_recommendation := over (di_recommendation i) (fd_recommendation f),
     di_kind := over (di_kind i) (fd_kind f), di_commands := over (di_commands i) (fd_commands f),
     di_revision := di_revision i + 1, di_updated_at := now\<rparr>"

definition stale_revision :: "string \<Rightarrow> int \<Rightarrow> kerror" where
  "stale_revision message revision = WorkRefusal ''stale_revision'' message [(''current_revision'', DInt revision)]"

definition edit_item :: "board_env \<Rightarrow> Key \<Rightarrow> string \<Rightarrow> int \<Rightarrow> DecisionFields \<Rightarrow> store \<Rightarrow> kerror + (unit \<times> store)" where
  "edit_item e caller reference ifRevision f s = (case s of (d, b) \<Rightarrow>
     rbind (activeCaller d (bv_now e) caller False) (\<lambda>_.
     rbind (decisionRow b reference) (\<lambda>i.
     rbind (guard (di_revision i = ifRevision) (stale_revision ''the decision item changed; read it again'' (di_revision i))) (\<lambda>_.
     let b1 = reopen_for_edit (bv_now e) (peerOf d (k_family caller) (k_id caller)) i b;
         b2 = bump_board (set_item (di_id i) (edited (bv_now e) f) b1);
         b3 = (case fd_recipients f of None \<Rightarrow> b2 | Some ns \<Rightarrow> storeRecipients (di_id i) (decisionRecipients d ns) b2)
     in Inr ((), (d, b3))))))"

text \<open>After the commit the item is read again.\<close>

definition then_read :: "board_env \<Rightarrow> string \<Rightarrow> unit outcome \<Rightarrow> DecisionItem outcome" where
  "then_read e reference r = (case r of (Inl err, s) \<Rightarrow> (Inl err, s) | (Inr _, s) \<Rightarrow> (decisionItem e s reference, s))"

definition DecisionEdit :: "board_env \<Rightarrow> Key \<Rightarrow> string \<Rightarrow> int \<Rightarrow> DecisionFields \<Rightarrow> store \<Rightarrow> DecisionItem outcome" where
  "DecisionEdit e caller reference ifRevision f s =
     (case rbind (guard (validKey (k_family caller) (k_id caller)) ErrInvalid) (\<lambda>_.
           rbind (checkReference reference) (\<lambda>_.
           rbind (guard (f \<noteq> no_fields) (decisionInvalid ''edit'' ''names no field to change'')) (\<lambda>_. validate_fields f False))) of
        Inl err \<Rightarrow> (Inl err, s)
      | Inr _ \<Rightarrow> then_read e reference (board_tx e ordinary (edit_item e caller reference ifRevision f) s))"

section \<open>Lists\<close>

text \<open>
  The loop of the three pages: a page stops at \<open>limit\<close> rows or before the row that takes the reply past
  \<open>cap\<close> bytes, and holds at least one row.
\<close>

fun page_cut :: "nat \<Rightarrow> nat \<Rightarrow> (bool \<Rightarrow> 'a \<Rightarrow> nat) \<Rightarrow> nat \<Rightarrow> nat \<Rightarrow> 'a list \<Rightarrow> 'a list \<times> bool" where
  "page_cut cap limit bytes count used [] = ([], False)"
| "page_cut cap limit bytes count used (x # xs) =
     (let n = bytes (count > 0) x in
      if count = limit \<or> (count > 0 \<and> used + n > cap) then ([], True)
      else case page_cut cap limit bytes (count + 1) (used + n) xs of (page, rest) \<Rightarrow> (x # page, rest))"

definition summary_of :: "board \<Rightarrow> itemRow \<Rightarrow> DecisionSummary" where
  "summary_of b i =
     \<lparr>sm_id = di_id i, sm_reference = di_reference i, sm_title = di_title i, sm_kind = di_kind i, sm_state = di_state i,
      sm_revision = di_revision i, sm_order = di_order i,
      sm_verdict = (case item_verdicts b (di_id i) of [] \<Rightarrow> [] | vs \<Rightarrow> if vd_superseded_at (last vs) = 0 then vd_verdict (last vs) else []),
      sm_withdrawn = (di_state i = ''archived'' \<and> (case item_withdrawals b (di_id i) of [] \<Rightarrow> False | ws \<Rightarrow> dw_reopened_at (last ws) = 0)),
      sm_author_repository = participantRepository (di_author_participant i)\<rparr>"

definition addressed_ids :: "board \<Rightarrow> string \<Rightarrow> int \<Rightarrow> nat \<Rightarrow> int list" where
  "addressed_ids b name after n =
     take n (sort (remdups (map dr_item_id (filter (\<lambda>r. dr_name r = name \<and> dr_item_id r > after) (bd_recipients b)))))"

fun summaries :: "board \<Rightarrow> int list \<Rightarrow> kerror + DecisionSummary list" where
  "summaries b [] = Inr []"
| "summaries b (i # is) =
     rbind (opt_err ErrNoRows (List.find (\<lambda>r. di_id r = i) (bd_items b))) (\<lambda>r.
     rbind (summaries b is) (\<lambda>ss. Inr (summary_of b r # ss)))"

text \<open>The length of the reply around an empty page, written here with a dot for each quotation mark.\<close>

definition decision_envelope :: nat where
  "decision_envelope = length ''{.ok.:true,.result.:{.items.:[],.more.:true,.next_after.:9223372036854775807}}''"

definition decisionPage :: "board_env \<Rightarrow> board \<Rightarrow> string \<Rightarrow> string list \<Rightarrow> int \<Rightarrow> int \<Rightarrow> kerror + DecisionPage" where
  "decisionPage e b flt targets after limit0 =
     (let limit = (if limit0 \<le> 0 \<or> limit0 > int decisionPageItems then decisionPageItems else nat limit0);
          listed = (\<lambda>i. if flt = ''waiting'' then di_state i = ''active'' \<and> di_kind i \<noteq> ''fyi'' else di_state i = flt) in
      rbind (if flt = ''mine''
             then summaries b (take (limit + 1) (sort (remdups (concat (map (\<lambda>t. addressed_ids b t after (limit + 1)) targets)))))
             else Inr (map (summary_of b) (take (limit + 1) (sort_key di_id (filter (\<lambda>i. listed i \<and> di_id i > after) (bd_items b))))))
        (\<lambda>ss. case page_cut decisionPageBytes limit (\<lambda>later x. bv_summary_bytes e x + (if later then 1 else 0)) 0 (decision_envelope + 1) ss of
           (page, rest) \<Rightarrow> Inr \<lparr>dg_items = page, dg_more = rest, dg_next_after = (if rest then Some (sm_id (last page)) else None)\<rparr>))"

definition DecisionList :: "board_env \<Rightarrow> Key \<Rightarrow> string \<Rightarrow> int \<Rightarrow> int \<Rightarrow> store \<Rightarrow> kerror + DecisionPage" where
  "DecisionList e caller flt after limit s = (case s of (d, b) \<Rightarrow>
     rbind (guard (flt \<in> {''waiting'', ''active'', ''returned'', ''in_progress'', ''archived'', ''mine''})
              (decisionInvalid ''filter'' ''must be waiting, active, returned, in_progress, archived or mine'')) (\<lambda>_.
     rbind (guard (after \<ge> 0 \<and> limit \<ge> 0) (decisionInvalid ''after and limit'' ''must not be negative'')) (\<lambda>_.
     rbind (activeCaller d (bv_now e) caller False) (\<lambda>_.
     decisionPage e b flt (if flt = ''mine'' then callerNames d (bv_now e) caller else []) after limit))))"

definition decision_replays_due :: "time \<Rightarrow> board \<Rightarrow> decisionReplayRow list" where
  "decision_replays_due now b = take cullBatch (filter (\<lambda>x. dx_deadline x < now) (bd_replays b))"

definition cullDecisionReplays :: "board_env \<Rightarrow> store \<Rightarrow> unit outcome" where
  "cullDecisionReplays e s = board_tx e control (\<lambda>(d, b).
     let due = map (\<lambda>x. (dx_family x, dx_caller_id x, dx_key x)) (decision_replays_due (bv_clock e) b) in
     Inr ((), (d, b\<lparr>bd_replays := filter (\<lambda>x. (dx_family x, dx_caller_id x, dx_key x) \<notin> set due) (bd_replays b)\<rparr>))) s"

end
