(* ===== verification/Verdicts.thy ===== *)
theory Verdicts
  imports Decisions
begin

text \<open>
  Verdicts, their delivery, acknowledgement, close, withdrawal and history
  (\<^verbatim>\<open>internal/core/decision_verdicts.go\<close>).

  The maintainer gives a verdict on the revision that was seen; it stores the verdict with its
  snapshot, the new state of the item, and one delivery and inbox message per recipient name and for the
  author. The sizes of encoded pending deliveries and verdicts are parameters of the page reads.
\<close>

definition decisionNoteLimit :: nat where "decisionNoteLimit = 4096"
definition decisionHistoryItems :: nat where "decisionHistoryItems = 16"
definition decisionHistoryBytes :: nat where "decisionHistoryBytes = 262144"
definition decisionAckIDs :: nat where "decisionAckIDs = 32"
definition decisionNoticeIDs :: nat where "decisionNoticeIDs = 8"
definition decisionPendingBytes :: nat where "decisionPendingBytes = 524288"
definition decisionWithdrawReasonLimit :: nat where "decisionWithdrawReasonLimit = 512"

section \<open>Verdicts\<close>

definition kindVerdicts :: "string \<Rightarrow> string list" where
  "kindVerdicts kind =
     (if kind = ''decision'' then [''approved'', ''declined'', ''feedback'']
      else if kind = ''task'' then [''completed'', ''declined'', ''feedback'']
      else if kind = ''fyi'' then [''acknowledged'']
      else [])"

definition verdictState :: "string \<Rightarrow> string" where
  "verdictState v = (if v = ''approved'' then ''in_progress'' else if v = ''feedback'' then ''returned'' else ''archived'')"

definition verdictNoticeBody :: "string \<Rightarrow> string \<Rightarrow> int \<Rightarrow> string" where
  "verdictNoticeBody reference v i =
     (if v = ''acknowledged''
      then ''Fyi item '' @ reference @ '' was acknowledged ('' @ show_int i @ ''). Read it with decision_get; it holds no decision to record.''
      else if v = ''feedback''
      then ''Item '' @ reference @ '' has the maintainer's feedback ('' @ show_int i
        @ '') and is returned to its author. Read it with decision_get, then change the item into a new revision with decision_edit or withdraw it with decision_withdraw.''
      else ''Decision '' @ reference @ '' has a verdict ('' @ show_int i
        @ ''). Read it with decision_get; its record field says how to record the decision in the repository.'')"

definition verdictMessageBody :: "string \<Rightarrow> string \<Rightarrow> int \<Rightarrow> string \<Rightarrow> string" where
  "verdictMessageBody reference v i entry =
     (let notice = verdictNoticeBody reference v i in
      if entry = [] then notice
      else let told = notice @ [newline, newline] @ decisionRecordInstruction;
               body = told @ [newline, newline] @ ''Verdict and card text:'' @ [newline] @ entry
           in if int (length body) > maxBody
              then told @ [newline, newline] @ ''The verdict and card text are larger than a message; decision_get and decision_pending give them.''
              else body)"

text \<open>The author, unless a name there reaches the author now.\<close>

definition author_address :: "db \<Rightarrow> itemRow \<Rightarrow> string" where
  "author_address d i =
     (if di_author_participant i = [] then []
      else case List.find (\<lambda>n. n_kind n = ''alias''
                  \<and> n_family n @ [unit_sep] @ n_repository n @ [unit_sep] @ n_role n = di_author_participant i) (names d) of
             None \<Rightarrow> [] | Some n \<Rightarrow> n_name n)"

definition holds_now :: "db \<Rightarrow> int \<Rightarrow> string \<Rightarrow> string \<Rightarrow> bool" where
  "holds_now d now address name \<longleftrightarrow> (\<exists>p\<in>set (names d). n_kind p = ''peer'' \<and> n_name p = name
     \<and> (\<exists>a\<in>set (names d). n_kind a = ''alias'' \<and> n_name a = address \<and> n_family a = n_family p \<and> n_holder_id a = n_session_id p)
     \<and> (\<exists>s\<in>set (sessions d). s_family s = n_family p \<and> s_id s = n_session_id p \<and> row_active now s))"

definition withAuthor :: "db \<Rightarrow> int \<Rightarrow> itemRow \<Rightarrow> string list \<Rightarrow> string list" where
  "withAuthor d now i ns =
     (let address = author_address d i in
      if address = [] then (if di_author_name i \<in> set ns \<or> di_author_name i = [] then ns else ns @ [di_author_name i])
      else if \<exists>n\<in>set ns. n = address \<or> holds_now d now address n then ns else ns @ [address])"

definition decisionVerdictKind :: string where "decisionVerdictKind = ''decision_verdict''"

definition verdict_message :: "int \<Rightarrow> string \<Rightarrow> int \<Rightarrow> Key \<Rightarrow> int \<Rightarrow> int \<Rightarrow> messageRow" where
  "verdict_message now body v k i seq =
     (plain_message i now k seq maintainerKey ''maintainer'' body)\<lparr>g_system_kind := decisionVerdictKind, g_decision_verdict := v\<rparr>"

definition verdict_delivery_ok :: "deliveryRow \<Rightarrow> deliveryRow list \<Rightarrow> bool" where
  "verdict_delivery_ok r t \<longleftrightarrow> fresh_key (\<lambda>q. (dd_verdict_id q, dd_ordinal q)) r t \<and> dd_outcome r \<in> {''queued'', ''skipped'', ''acknowledged''}"

text \<open>Where a name leads now: its kind and inbox, or the reason there is none.\<close>

definition resolve_name :: "int \<Rightarrow> string \<Rightarrow> db \<Rightarrow> kerror + (string \<times> string \<times> Key \<times> db)" where
  "resolve_name now name d =
     (case List.find (\<lambda>n. n_name n = name) (names d) of
        None \<Rightarrow> Inr (''unknown_name'', [], key [] [], d)
      | Some n \<Rightarrow>
          if n_family n = k_family maintainerKey then Inr (''maintainer'', [], key [] [], d)
          else if n_kind n = ''alias'' then
            rbind (ensureParticipantInbox now name d) (\<lambda>d1. Inr ([], ''participant'', key (n_family n) (participantKey name), d1))
          else Inr ([], ''peer'', key (n_family n) (n_session_id n), d))"

text \<open>The message of one recipient: the reason there is none, or its ID.\<close>

definition send_verdict :: "int \<Rightarrow> string \<Rightarrow> int \<Rightarrow> string \<Rightarrow> db \<Rightarrow> kerror + (string \<times> string \<times> int option \<times> db)" where
  "send_verdict now body v name d =
     rbind (resolve_name now name d) (\<lambda>(reason, kind, k, d1).
     if reason \<noteq> [] then Inr (reason, kind, None, d1)
     else rbind (room_copy now k (verdict_message now body v k) d1) (\<lambda>(i, d2).
       Inr (if i = None then (''recipient_inactive'', kind, None, d2) else ([], kind, i, d2))))"

definition delivery_of :: "int \<Rightarrow> nat \<Rightarrow> string \<Rightarrow> string \<Rightarrow> string \<Rightarrow> int option \<Rightarrow> deliveryRow" where
  "delivery_of v n name reason kind i =
     \<lparr>dd_verdict_id = v, dd_ordinal = int n, dd_kind = kind, dd_name = name,
      dd_outcome = (if reason = [] then ''queued'' else ''skipped''), dd_reason = reason,
      dd_message_id = (case i of None \<Rightarrow> 0 | Some m \<Rightarrow> m), dd_acknowledged_at = 0\<rparr>"

definition deliverVerdict :: "int \<Rightarrow> int \<Rightarrow> nat \<Rightarrow> string \<Rightarrow> string \<Rightarrow> store \<Rightarrow> kerror + (DecisionDelivery \<times> store)" where
  "deliverVerdict now v n name body s = (case s of (d, b) \<Rightarrow>
     rbind (send_verdict now body v name d) (\<lambda>(reason, kind, i, d1).
     let r = delivery_of v n name reason kind i in
     rbind (insert_row ErrConstraint verdict_delivery_ok r (bd_deliveries b)) (\<lambda>t.
     Inr (\<lparr>dy_name = name, dy_kind = kind, dy_outcome = dd_outcome r, dy_reason = reason, dy_acknowledged_at = 0\<rparr>,
          (d1, b\<lparr>bd_deliveries := t\<rparr>)))))"

fun deliver_verdicts :: "int \<Rightarrow> int \<Rightarrow> nat \<Rightarrow> string list \<Rightarrow> string \<Rightarrow> store \<Rightarrow> kerror + (DecisionDelivery list \<times> store)" where
  "deliver_verdicts now v n [] body s = Inr ([], s)"
| "deliver_verdicts now v n (name # ns) body s =
     rbind (deliverVerdict now v n name body s) (\<lambda>(r, s1).
     rbind (deliver_verdicts now v (n + 1) ns body s1) (\<lambda>(rs, s2). Inr (r # rs, s2)))"

definition snapshot_of :: "itemRow \<Rightarrow> DecisionSnapshot" where
  "snapshot_of i = \<lparr>ds_title = di_title i, ds_where = di_location i, ds_context = di_context i, ds_recommendation = di_recommendation i,
     ds_commands = di_commands i\<rparr>"

definition new_verdict :: "board_env \<Rightarrow> itemRow \<Rightarrow> string \<Rightarrow> string \<Rightarrow> board \<Rightarrow> verdictRow" where
  "new_verdict e i v note b = \<lparr>vd_id = bd_verdict_ids b + 1, vd_item_id = di_id i, vd_revision = di_revision i, vd_verdict = v, vd_note = note,
     vd_created_at = bv_now e, vd_snapshot = snapshot_of i, vd_superseded_at = 0, vd_via = bv_origin e\<rparr>"

definition verdict_ok :: "verdictRow \<Rightarrow> verdictRow list \<Rightarrow> bool" where
  "verdict_ok v t \<longleftrightarrow> fresh_key vd_id v t
     \<and> vd_verdict v \<in> {''approved'', ''declined'', ''feedback'', ''completed'', ''acknowledged'', ''dismissed''}"

definition decided :: "int \<Rightarrow> string \<Rightarrow> itemRow \<Rightarrow> itemRow" where
  "decided now v i = i\<lparr>di_state := verdictState v, di_archived_at := (if verdictState v = ''archived'' then now else 0), di_updated_at := now,
     di_mark_revision := 0, di_mark_file := [], di_mark_offset := 0, di_verdict_count := di_verdict_count i + 1\<rparr>"

definition give_verdict :: "board_env \<Rightarrow> string \<Rightarrow> int \<Rightarrow> string \<Rightarrow> string \<Rightarrow> store \<Rightarrow> kerror + (DecisionVerdict \<times> store)" where
  "give_verdict e reference revision v note s = (case s of (d, b) \<Rightarrow>
     rbind (decisionRow b reference) (\<lambda>i.
     rbind (guard (di_revision i = revision) (stale_revision ''the decision item changed after the page showed it'' (di_revision i))) (\<lambda>_.
     rbind (guard (di_state i = ''active'') (workError ''decided'' ''the decision item already has a verdict'')) (\<lambda>_.
     rbind (guard (v \<in> set (kindVerdicts (di_kind i)))
       (workError ''invalid_verdict'' ''a decision item takes approved, declined or feedback; a task takes completed, declined or feedback; an fyi item takes acknowledged'')) (\<lambda>_.
     rbind (guard (\<not> (v = ''approved'' \<and> (\<exists>c\<in>set (di_commands i). \<not> printableCommand c)))
       (workError ''hidden_command'' ''a stored command is hidden; the item cannot be approved as displayed'')) (\<lambda>_.
     let row = new_verdict e i v note b in
     rbind (insert_row ErrConstraint verdict_ok row (bd_verdicts b)) (\<lambda>t.
     let b1 = bump_board (set_item (di_id i) (decided (bv_now e) v) (b\<lparr>bd_verdicts := t, bd_verdict_ids := vd_id row\<rparr>));
         entry = (if recordedVerdict v then DecisionVerdictText e (di_location i) (verdict_view row) else []) in
     rbind (deliver_verdicts (bv_now e) (vd_id row) 0 (withAuthor d (bv_now e) i (recipientNames b1 (di_id i)))
              (verdictMessageBody reference v (vd_id row) entry) (d, b1)) (\<lambda>(rs, s1).
     Inr ((verdict_view row)\<lparr>dv_deliveries := rs\<rparr>, s1)))))))))"

definition check_verdict :: "string \<Rightarrow> int \<Rightarrow> string \<Rightarrow> string \<Rightarrow> kerror + unit" where
  "check_verdict reference revision v note =
     (if (case checkReference reference of Inl _ \<Rightarrow> True | Inr _ \<Rightarrow> False) \<or> revision < 1 then Inl ErrInvalid
      else if v \<notin> set (kindVerdicts ''decision'' @ kindVerdicts ''task'' @ kindVerdicts ''fyi'') then Inl ErrInvalid
      else rbind (checkMarkdown note ''note'' decisionNoteLimit) (\<lambda>_.
        rbind (guard (\<not> (v = ''feedback'' \<and> blank note))
                 (workError ''feedback_required'' ''feedback needs the maintainer's guidance in the note'')) (\<lambda>_.
        checkCredentials note ''note'')))"

definition giveVerdict :: "board_env \<Rightarrow> string \<Rightarrow> int \<Rightarrow> string \<Rightarrow> string \<Rightarrow> store \<Rightarrow> DecisionVerdict outcome" where
  "giveVerdict e reference revision v note s =
     (case check_verdict reference revision v note of
        Inl err \<Rightarrow> (Inl err, s)
      | Inr _ \<Rightarrow> board_tx e ordinary (give_verdict e reference revision v note) s)"

section \<open>Pending deliveries\<close>

record DecisionPending =
  pn_verdict_id :: int
  pn_reference :: string
  pn_verdict :: string
  pn_revision :: int
  pn_at :: int
  pn_superseded_at :: int
  pn_entry :: string

record DecisionPendingPage =
  pp_deliveries :: "DecisionPending list"
  pp_record :: bool
  pp_more :: bool
  pp_next_after :: "int option"

definition pending_of :: "board_env \<Rightarrow> board \<Rightarrow> int \<Rightarrow> kerror + DecisionPending" where
  "pending_of e b v =
     rbind (opt_err ErrNoRows (List.find (\<lambda>x. vd_id x = v) (bd_verdicts b))) (\<lambda>x.
     rbind (opt_err ErrNoRows (List.find (\<lambda>i. di_id i = vd_item_id x) (bd_items b))) (\<lambda>i.
     Inr \<lparr>pn_verdict_id = vd_id x, pn_reference = di_reference i, pn_verdict = vd_verdict x, pn_revision = vd_revision x,
          pn_at = vd_created_at x, pn_superseded_at = vd_superseded_at x,
          pn_entry = (if recordedVerdict (vd_verdict x) then DecisionVerdictText e (di_location i) (verdict_view x) else [])\<rparr>))"

definition pending_ids :: "board \<Rightarrow> string \<Rightarrow> int \<Rightarrow> nat \<Rightarrow> int list" where
  "pending_ids b name after n =
     take n (sort (remdups (map dd_verdict_id (filter (\<lambda>r. dd_name r = name \<and> dd_outcome r = ''queued'' \<and> dd_verdict_id r > after) (bd_deliveries b)))))"

fun pending_page :: "board_env \<Rightarrow> board \<Rightarrow> (DecisionPending \<Rightarrow> nat) \<Rightarrow> nat \<Rightarrow> nat \<Rightarrow> nat \<Rightarrow> int list \<Rightarrow> kerror + (DecisionPending list \<times> bool)" where
  "pending_page e b bytes limit count used [] = Inr ([], False)"
| "pending_page e b bytes limit count used (i # is) =
     rbind (pending_of e b i) (\<lambda>p.
     let n = bytes p + 1 in
     if count = limit \<or> (count > 0 \<and> used + n > decisionPendingBytes) then Inr ([], True)
     else rbind (pending_page e b bytes limit (count + 1) (used + n) is) (\<lambda>(ps, rest). Inr (p # ps, rest)))"

text \<open>The length of the reply around an empty page, written here with a dot for each quotation mark.\<close>

definition pending_envelope :: nat where
  "pending_envelope = length (''{.ok.:true,.result.:{.deliveries.:[],.record.:{.instruction.:.'' @ decisionRecordInstruction
     @ ''.},.more.:true,.next_after.:9223372036854775807}}'')"

definition PendingDeliveries ::
  "board_env \<Rightarrow> (DecisionPending \<Rightarrow> nat) \<Rightarrow> Key \<Rightarrow> int \<Rightarrow> int \<Rightarrow> store \<Rightarrow> kerror + DecisionPendingPage" where
  "PendingDeliveries e bytes caller after limit0 s = (case s of (d, b) \<Rightarrow>
     rbind (guard (after \<ge> 0 \<and> limit0 \<ge> 0) (decisionInvalid ''after and limit'' ''must not be negative'')) (\<lambda>_.
     rbind (activeCaller d (bv_now e) caller False) (\<lambda>_.
     let limit = (if limit0 = 0 \<or> limit0 > int decisionPageItems then decisionPageItems else nat limit0);
         ids = sort (remdups (concat (map (\<lambda>n. pending_ids b n after (limit + 1)) (callerNames d (bv_now e) caller)))) in
     rbind (pending_page e b bytes limit 0 (pending_envelope + 1) ids) (\<lambda>(page, rest).
     Inr \<lparr>pp_deliveries = page, pp_record = (\<exists>p\<in>set page. recordedVerdict (pn_verdict p)), pp_more = rest,
          pp_next_after = (if rest then Some (pn_verdict_id (last page)) else None)\<rparr>))))"

section \<open>Acknowledgement\<close>

definition ack_due :: "int \<Rightarrow> string list \<Rightarrow> deliveryRow \<Rightarrow> bool" where
  "ack_due v ns r \<longleftrightarrow> dd_verdict_id r = v \<and> dd_name r \<in> set ns \<and> dd_outcome r = ''queued''"

fun ack_verdicts :: "int \<Rightarrow> string list \<Rightarrow> int list \<Rightarrow> board \<Rightarrow> int list \<times> board" where
  "ack_verdicts now ns [] b = ([], b)"
| "ack_verdicts now ns (v # vs) b =
     (let due = ack_due v ns;
          b1 = b\<lparr>bd_deliveries := update_where due (\<lambda>r. r\<lparr>dd_outcome := ''acknowledged'', dd_acknowledged_at := now\<rparr>) (bd_deliveries b)\<rparr>
      in case ack_verdicts now ns vs b1 of (rest, b2) \<Rightarrow> (if list_ex due (bd_deliveries b) then v # rest else rest, b2))"

definition DecisionAck :: "board_env \<Rightarrow> Key \<Rightarrow> int list \<Rightarrow> store \<Rightarrow> int list outcome" where
  "DecisionAck e caller vs s =
     (case rbind (guard (validKey (k_family caller) (k_id caller)) ErrInvalid) (\<lambda>_.
           guard (vs \<noteq> [] \<and> length vs \<le> decisionAckIDs)
             (decisionInvalid ''verdict_ids'' (''must name 1 to '' @ show_nat decisionAckIDs @ '' verdicts''))) of
        Inl err \<Rightarrow> (Inl err, s)
      | Inr _ \<Rightarrow> board_tx e ordinary (\<lambda>(d, b).
          rbind (activeCaller d (bv_now e) caller False) (\<lambda>_.
          case ack_verdicts (bv_now e) (callerNames d (bv_now e) caller) vs b of (acked, b1) \<Rightarrow> Inr (acked, (d, b1)))) s)"

section \<open>Close and withdrawal\<close>

definition closeRepeat :: "board \<Rightarrow> Key \<Rightarrow> string \<Rightarrow> string \<Rightarrow> kerror + DecisionItem option" where
  "closeRepeat b caller k print = rbind (repeat_of b caller k print) (\<lambda>r. Inr (map_option as_item r))"

definition closed :: "int \<Rightarrow> string \<Rightarrow> string \<Rightarrow> itemRow \<Rightarrow> itemRow" where
  "closed now closer note i = i\<lparr>di_state := ''archived'', di_archived_at := now, di_updated_at := now, di_closed_by := closer,
     di_closed_at := now, di_outcome_note := note\<rparr>"

text \<open>The changed item is the receipt.\<close>

definition item_receipt ::
  "board_env \<Rightarrow> Key \<Rightarrow> string \<Rightarrow> string \<Rightarrow> string \<Rightarrow> time \<Rightarrow> store \<Rightarrow> kerror + (DecisionItem \<times> store)" where
  "item_receipt e caller reference k print deadline s =
     rbind (decisionItem e s reference) (\<lambda>item.
     rbind (store_receipt caller k print deadline (Item item) (snd s)) (\<lambda>b. Inr (item, (fst s, b))))"

definition close_item ::
  "board_env \<Rightarrow> Key \<Rightarrow> string \<Rightarrow> int \<Rightarrow> string \<Rightarrow> string \<Rightarrow> string \<Rightarrow> time \<Rightarrow> store \<Rightarrow> kerror + (DecisionItem \<times> store)" where
  "close_item e caller reference ifRevision note k print deadline s = (case s of (d, b) \<Rightarrow>
     rbind (decisionRow b reference) (\<lambda>i.
     rbind (guard (di_revision i = ifRevision) (stale_revision ''the decision item changed; read it again'' (di_revision i))) (\<lambda>_.
     rbind (guard (di_state i = ''in_progress'') (workError ''not_in_progress'' ''only an approved item in progress can be closed'')) (\<lambda>_.
     item_receipt e caller reference k print deadline
       (d, bump_board (set_item (di_id i) (closed (bv_now e) (peerOf d (k_family caller) (k_id caller)) note) b))))))"

definition close_key :: "string \<Rightarrow> string" where "close_key k = ''close'' @ [CHR 0x00] @ k"
definition withdraw_key :: "string \<Rightarrow> string" where "withdraw_key k = ''withdraw'' @ [CHR 0x00] @ k"

definition DecisionClose :: "board_env \<Rightarrow> Key \<Rightarrow> string \<Rightarrow> int \<Rightarrow> string \<Rightarrow> string \<Rightarrow> time \<Rightarrow> store \<Rightarrow> DecisionItem outcome" where
  "DecisionClose e caller reference ifRevision note k deadline s =
     (let print = decisionFingerprint e (close_key reference) (no_fields\<lparr>fd_order := Some ifRevision, fd_context := Some note\<rparr>) deadline in
      case rbind (guard (validKey (k_family caller) (k_id caller)) ErrInvalid) (\<lambda>_.
           rbind (checkReference reference) (\<lambda>_.
           rbind (checkMarkdown note ''note'' decisionNoteLimit) (\<lambda>_.
           rbind (checkCredentials note ''note'') (\<lambda>_.
           rbind (checkLine k ''key'' decisionKeyLimit True) (\<lambda>_. check_deadline e deadline))))) of
        Inl err \<Rightarrow> (Inl err, s)
      | Inr _ \<Rightarrow> keyed_write e caller (\<lambda>b. closeRepeat b caller (close_key k) print)
                   (close_item e caller reference ifRevision note (close_key k) print deadline) s)"

definition itemParty :: "store \<Rightarrow> int \<Rightarrow> Key \<Rightarrow> itemRow \<Rightarrow> kerror + string" where
  "itemParty s now caller i = (case s of (d, b) \<Rightarrow>
     let peer = peerOf d (k_family caller) (k_id caller); participant = authorParticipantOf d caller in
     if k_family caller = di_author_family i \<and> peer \<noteq> [] \<and> peer = di_author_name i then Inr peer
     else if participant \<noteq> [] \<and> participant = di_author_participant i then Inr peer
     else if \<exists>n\<in>set (callerNames d now caller). \<exists>r\<in>set (bd_recipients b). dr_item_id r = di_id i \<and> dr_name r = n then Inr peer
     else Inl (workError ''not_item_party'' ''only the item's author, a session of its participant or a named recipient can do this''))"

definition withdrawal_of :: "board_env \<Rightarrow> Key \<Rightarrow> string \<Rightarrow> string \<Rightarrow> itemRow \<Rightarrow> board \<Rightarrow> withdrawalRow" where
  "withdrawal_of e caller peer reason i b = \<lparr>dw_id = bd_withdrawal_ids b + 1, dw_item_id = di_id i, dw_revision = di_revision i,
     dw_family = k_family caller, dw_name = peer, dw_reason = reason, dw_at = bv_now e, dw_reopened_at = 0, dw_reopened_by = []\<rparr>"

definition withdrawn :: "int \<Rightarrow> itemRow \<Rightarrow> itemRow" where
  "withdrawn now i = i\<lparr>di_state := ''archived'', di_archived_at := now, di_updated_at := now\<rparr>"

definition withdraw_item ::
  "board_env \<Rightarrow> Key \<Rightarrow> string \<Rightarrow> int \<Rightarrow> string \<Rightarrow> string \<Rightarrow> string \<Rightarrow> time \<Rightarrow> store \<Rightarrow> kerror + (DecisionItem \<times> store)" where
  "withdraw_item e caller reference ifRevision reason k print deadline s = (case s of (d, b) \<Rightarrow>
     rbind (decisionRow b reference) (\<lambda>i.
     rbind (guard (di_revision i = ifRevision) (stale_revision ''the decision item changed; read it again'' (di_revision i))) (\<lambda>_.
     rbind (guard (di_state i = ''active'' \<or> di_state i = ''returned'')
              (workError ''not_active'' ''only a waiting or returned item or an open fyi item can be withdrawn'')) (\<lambda>_.
     rbind (itemParty s (bv_now e) caller i) (\<lambda>peer.
     let b1 = set_item (di_id i) (withdrawn (bv_now e)) (supersede (di_id i) (bv_now e) b);
         w = withdrawal_of e caller peer reason i b1
     in item_receipt e caller reference k print deadline
          (d, bump_board (b1\<lparr>bd_withdrawals := bd_withdrawals b1 @ [w], bd_withdrawal_ids := dw_id w\<rparr>)))))))"

definition DecisionWithdraw :: "board_env \<Rightarrow> Key \<Rightarrow> string \<Rightarrow> int \<Rightarrow> string \<Rightarrow> string \<Rightarrow> time \<Rightarrow> store \<Rightarrow> DecisionItem outcome" where
  "DecisionWithdraw e caller reference ifRevision reason k deadline s =
     (let print = decisionFingerprint e (withdraw_key reference) (no_fields\<lparr>fd_order := Some ifRevision, fd_context := Some reason\<rparr>) deadline in
      case rbind (guard (validKey (k_family caller) (k_id caller)) ErrInvalid) (\<lambda>_.
           rbind (checkReference reference) (\<lambda>_.
           rbind (checkLine reason ''reason'' decisionWithdrawReasonLimit True) (\<lambda>_.
           rbind (guard (\<not> blank reason) (decisionInvalid ''reason'' ''must not be blank'')) (\<lambda>_.
           rbind (checkCredentials reason ''reason'') (\<lambda>_.
           rbind (checkLine k ''key'' decisionKeyLimit True) (\<lambda>_. check_deadline e deadline)))))) of
        Inl err \<Rightarrow> (Inl err, s)
      | Inr _ \<Rightarrow> keyed_write e caller (\<lambda>b. closeRepeat b caller (withdraw_key k) print)
                   (withdraw_item e caller reference ifRevision reason (withdraw_key k) print deadline) s)"

section \<open>History\<close>

record DecisionHistoryPage =
  hp_reference :: string
  hp_verdicts :: "DecisionVerdict list"
  hp_withdrawals :: "withdrawalRow list"
  hp_more :: bool
  hp_next_after :: "int option"

definition withdrawalHistory :: "board \<Rightarrow> string \<Rightarrow> int \<Rightarrow> nat \<Rightarrow> kerror + DecisionHistoryPage" where
  "withdrawalHistory b reference after limit =
     rbind (decisionRow b reference) (\<lambda>i.
     let ws = take (limit + 1) (filter (\<lambda>w. dw_id w > after) (item_withdrawals b (di_id i))); rest = length ws > limit; page = take limit ws in
     Inr \<lparr>hp_reference = reference, hp_verdicts = [], hp_withdrawals = page, hp_more = rest,
          hp_next_after = (if rest then Some (dw_id (last page)) else None)\<rparr>)"

definition history_envelope :: "string \<Rightarrow> nat" where
  "history_envelope reference = length (''{.ok.:true,.result.:{.reference.:.'' @ reference @ ''.,.verdicts.:[],.more.:true,.next_after.:9223372036854775807}}'')"

definition decisionHistory ::
  "(DecisionVerdict \<Rightarrow> nat) \<Rightarrow> board \<Rightarrow> string \<Rightarrow> int \<Rightarrow> nat \<Rightarrow> bool \<Rightarrow> kerror + DecisionHistoryPage" where
  "decisionHistory bytes b reference after limit withVia =
     rbind (decisionRow b reference) (\<lambda>i.
     let vs = map (\<lambda>v. (verdict_view v)\<lparr>dv_via := (if withVia then vd_via v else [])\<rparr>)
                (take (limit + 1) (filter (\<lambda>v. vd_id v > after) (item_verdicts b (di_id i)))) in
     case page_cut decisionHistoryBytes limit (\<lambda>_ v. bytes v + 1) 0 (history_envelope reference + 1) vs of (page, rest) \<Rightarrow>
     Inr \<lparr>hp_reference = reference, hp_verdicts = page, hp_withdrawals = [], hp_more = rest,
          hp_next_after = (if rest then Some (dv_id (last page)) else None)\<rparr>)"

definition DecisionHistory ::
  "board_env \<Rightarrow> (DecisionVerdict \<Rightarrow> nat) \<Rightarrow> Key \<Rightarrow> string \<Rightarrow> int \<Rightarrow> int \<Rightarrow> bool \<Rightarrow> store \<Rightarrow> kerror + DecisionHistoryPage" where
  "DecisionHistory e bytes caller reference after limit0 withdrawals s = (case s of (d, b) \<Rightarrow>
     rbind (checkReference reference) (\<lambda>_.
     rbind (guard (after \<ge> 0 \<and> limit0 \<ge> 0) (decisionInvalid ''after and limit'' ''must not be negative'')) (\<lambda>_.
     rbind (activeCaller d (bv_now e) caller False) (\<lambda>_.
     let limit = (if limit0 = 0 \<or> limit0 > int decisionHistoryItems then decisionHistoryItems else nat limit0) in
     if withdrawals then withdrawalHistory b reference after limit else decisionHistory bytes b reference after limit False))))"

text \<open>The verdicts of a wake batch: the messages of an inbox from \<open>first_seq\<close> to \<open>last_seq\<close>.\<close>

definition verdictNoticeSuffix :: "db \<Rightarrow> Key \<Rightarrow> int \<Rightarrow> int \<Rightarrow> string" where
  "verdictNoticeSuffix d k first_seq last_seq =
     (let ids = map g_decision_verdict (sort_key g_seq (filter (\<lambda>g. g_recipient_family g = k_family k \<and> g_recipient_id g = k_id k
                  \<and> first_seq \<le> g_seq g \<and> g_seq g \<le> last_seq \<and> g_decision_verdict g > 0) (messages d)));
          shown = take decisionNoticeIDs ids in
      if ids = [] then []
      else '' Decision verdicts '' @ join_with '', '' (map show_int shown)
        @ (if length ids > length shown then '' +'' @ show_nat (length ids - length shown) @ '' more'' else []) @ ''.'')"

end
