(* ===== verification/Deep_Archive.thy ===== *)
theory Deep_Archive
  imports Verdicts
begin

text \<open>
  The deep archive of the decision board (\<^verbatim>\<open>internal/core/decision_archive.go\<close>): an archived item whose
  deliveries are all settled moves after thirty days to a line of a monthly log, and a locator keeps its
  reference and finds the line; \<open>DecisionRestore\<close> brings the record back or reopens a withdrawn item.

  A log file is its bytes. \<open>log_env\<close> holds what the file system and \<^verbatim>\<open>encoding/json\<close> contribute: the month
  of a time, the encoded line of a record (without its newline) and the decoded record of a line, the
  error of opening a file, and the failure of a write, which leaves the first \<open>n\<close> bytes, or of its sync.
  A failed or refused step stops the move there, so the states that a crash leaves are states of the
  model; the next sweep continues from them with \<open>finishMove\<close>.
\<close>

section \<open>Records and logs\<close>

record decisionRecord =
  dn_record :: string
  dn_id :: int
  dn_reference :: string
  dn_revision :: int
  dn_item :: itemRow
  dn_recipients :: "recipientRow list"
  dn_verdicts :: "verdictRow list"
  dn_deliveries :: "deliveryRow list"
  dn_withdrawals :: "withdrawalRow list"
  dn_moved_at :: int

record log_env =
  lv_env :: board_env
  lv_root :: string
  lv_month :: "int \<Rightarrow> string"
  lv_line :: "decisionRecord \<Rightarrow> string"
  lv_parse :: "string \<Rightarrow> decisionRecord option"
  lv_open :: "string \<Rightarrow> kerror option"
  lv_write :: "string \<Rightarrow> (nat \<times> kerror) option"
  lv_sync :: "kerror option"

abbreviation lv_now :: "log_env \<Rightarrow> int" where
  "lv_now l \<equiv> bv_now (lv_env l)"

definition decisionArchiveAfter :: int where "decisionArchiveAfter = 30 * 24 * 60 * 60 * 1000"
definition decisionArchiveBatch :: nat where "decisionArchiveBatch = 64"
definition decisionArchiveWindow :: nat where "decisionArchiveWindow = 256"
definition decisionRecordMarker :: string where "decisionRecordMarker = ''koinon.decision.v1''"

definition item_deliveries :: "board \<Rightarrow> int \<Rightarrow> deliveryRow list" where
  "item_deliveries b i = filter (\<lambda>r. \<exists>v\<in>set (bd_verdicts b). vd_id v = dd_verdict_id r \<and> vd_item_id v = i) (bd_deliveries b)"

definition readDecisionRecord :: "board \<Rightarrow> int \<Rightarrow> decisionRecord option" where
  "readDecisionRecord b i =
     map_option (\<lambda>r. \<lparr>dn_record = decisionRecordMarker, dn_id = i, dn_reference = di_reference r, dn_revision = di_revision r, dn_item = r,
        dn_recipients = sort_key dr_ordinal (filter (\<lambda>q. dr_item_id q = i) (bd_recipients b)), dn_verdicts = item_verdicts b i,
        dn_deliveries = sort_key dd_verdict_id (sort_key dd_ordinal (item_deliveries b i)), dn_withdrawals = item_withdrawals b i,
        dn_moved_at = 0\<rparr>) (List.find (\<lambda>r. di_id r = i) (bd_items b))"

definition decisionLogName :: "string \<Rightarrow> bool" where
  "decisionLogName n \<longleftrightarrow> length n = 23 \<and> has_prefix n ''decisions/'' \<and> list_all rx_digit (take 4 (drop 10 n)) \<and> n ! 14 = CHR ''-''
     \<and> list_all rx_digit (take 2 (drop 15 n)) \<and> drop 17 n = ''.jsonl''"

definition log_path_ok :: "log_env \<Rightarrow> string \<Rightarrow> bool" where
  "log_path_ok l name \<longleftrightarrow> lv_root l \<noteq> [] \<and> decisionLogName name"

definition set_log :: "string \<Rightarrow> string \<Rightarrow> board \<Rightarrow> board" where
  "set_log name c b = b\<lparr>bd_logs := (bd_logs b)(name := Some c)\<rparr>"

definition log_text :: "board \<Rightarrow> string \<Rightarrow> string" where
  "log_text b name = (case bd_logs b name of None \<Rightarrow> [] | Some c \<Rightarrow> c)"

definition ended_line :: "string \<Rightarrow> string" where
  "ended_line c = (if c \<noteq> [] \<and> last c \<noteq> newline then c @ [newline] else c)"

definition openDecisionLog :: "log_env \<Rightarrow> string \<Rightarrow> board \<Rightarrow> (kerror + int) \<times> board" where
  "openDecisionLog l name b =
     (if \<not> log_path_ok l name then (Inl ErrInvalid, b)
      else case lv_open l name of Some err \<Rightarrow> (Inl err, b)
      | None \<Rightarrow> let c = ended_line (log_text b name) in (Inr (int (length c)), set_log name c b))"

definition line_at :: "string \<Rightarrow> nat \<Rightarrow> string option" where
  "line_at c n = (let r = drop n c in if newline \<in> set r then Some (takeWhile (\<lambda>x. x \<noteq> newline) r @ [newline]) else None)"

definition readDecisionLine :: "log_env \<Rightarrow> string \<Rightarrow> int \<Rightarrow> board \<Rightarrow> kerror + string option" where
  "readDecisionLine l name offset b =
     (if \<not> log_path_ok l name then Inl ErrInvalid
      else case bd_logs b name of None \<Rightarrow> Inr None
      | Some c \<Rightarrow> (case lv_open l name of Some err \<Rightarrow> Inl err | None \<Rightarrow> Inr (line_at c (nat offset))))"

definition write_line :: "log_env \<Rightarrow> string \<Rightarrow> string \<Rightarrow> board \<Rightarrow> (kerror + unit) \<times> board" where
  "write_line l name line b =
     (case lv_write l line of
        Some (n, err) \<Rightarrow> (Inl err, set_log name (log_text b name @ take n line) b)
      | None \<Rightarrow> (case lv_sync l of None \<Rightarrow> Inr () | Some err \<Rightarrow> Inl err, set_log name (log_text b name @ line) b))"

section \<open>Moves\<close>

text \<open>A transaction whose body may end with a rollback and no error.\<close>

definition board_try :: "board_env \<Rightarrow> writeClass \<Rightarrow> (store \<Rightarrow> kerror + ('a \<times> store) option) \<Rightarrow> store \<Rightarrow> 'a option outcome" where
  "board_try e cls body s =
     (case rbind (bv_admit e cls s) (\<lambda>_. body s) of
        Inl err \<Rightarrow> (Inl err, s)
      | Inr None \<Rightarrow> (Inr None, s)
      | Inr (Some (a, s')) \<Rightarrow> (case bv_commit e cls s' of Inl err \<Rightarrow> (Inl err, s) | Inr _ \<Rightarrow> (Inr (Some a), s')))"

text \<open>A move that storage refuses waits for the next sweep.\<close>

definition unless_full :: "'a option outcome \<Rightarrow> ('a \<Rightarrow> store \<Rightarrow> unit outcome) \<Rightarrow> unit outcome" where
  "unless_full r f = (case r of
       (Inl err, s) \<Rightarrow> (if err = ErrCapacity then Inr () else Inl err, s)
     | (Inr None, s) \<Rightarrow> (Inr (), s)
     | (Inr (Some a), s) \<Rightarrow> f a s)"

definition delete_rows :: "int \<Rightarrow> board \<Rightarrow> board" where
  "delete_rows i b = b\<lparr>bd_deliveries := filter (\<lambda>r. \<not> (\<exists>v\<in>set (bd_verdicts b). vd_id v = dd_verdict_id r \<and> vd_item_id v = i)) (bd_deliveries b),
     bd_verdicts := filter (\<lambda>v. vd_item_id v \<noteq> i) (bd_verdicts b), bd_recipients := filter (\<lambda>r. dr_item_id r \<noteq> i) (bd_recipients b),
     bd_withdrawals := filter (\<lambda>w. dw_item_id w \<noteq> i) (bd_withdrawals b), bd_items := filter (\<lambda>r. di_id r \<noteq> i) (bd_items b)\<rparr>"

definition marked_row :: "int \<Rightarrow> int \<Rightarrow> string \<Rightarrow> int \<Rightarrow> itemRow \<Rightarrow> bool" where
  "marked_row i revision name offset r \<longleftrightarrow> di_id r = i \<and> di_state r = ''archived'' \<and> di_revision r = revision \<and> di_mark_revision r = revision
     \<and> di_mark_file r = name \<and> di_mark_offset r = offset"

definition deleteMoved :: "log_env \<Rightarrow> int \<Rightarrow> string \<Rightarrow> int \<Rightarrow> string \<Rightarrow> int \<Rightarrow> int \<Rightarrow> int \<Rightarrow> store \<Rightarrow> unit outcome" where
  "deleteMoved l i reference revision name offset len moved_at s =
     unless_full (board_try (lv_env l) ordinary (\<lambda>(d, b).
       if \<not> list_ex (marked_row i revision name offset) (bd_items b) then Inr None
       else rbind (insert_row ErrConstraint (fresh_key dp_reference)
                \<lparr>dp_reference = reference, dp_file = name, dp_offset = offset, dp_length = len, dp_moved_at = moved_at\<rparr> (bd_archive b)) (\<lambda>t.
         Inr (Some ((), (d, bump_board ((delete_rows i b)\<lparr>bd_archive := t\<rparr>)))))) s) (\<lambda>_ s1. (Inr (), s1))"

definition appendAndDelete :: "log_env \<Rightarrow> int \<Rightarrow> decisionRecord \<Rightarrow> string \<Rightarrow> int \<Rightarrow> store \<Rightarrow> unit outcome" where
  "appendAndDelete l i r name offset s =
     (let r1 = r\<lparr>dn_moved_at := lv_now l\<rparr>; line = lv_line l r1 @ [newline] in
      case write_line l name line (snd s) of
        (Inl err, b) \<Rightarrow> (Inl err, (fst s, b))
      | (Inr _, b) \<Rightarrow> deleteMoved l i (dn_reference r1) (dn_revision r1) name offset (int (length line)) (dn_moved_at r1) (fst s, b))"

text \<open>What follows a committed mark: the line is written and the rows are deleted.\<close>

definition continue_move :: "log_env \<Rightarrow> int \<Rightarrow> string \<Rightarrow> int \<Rightarrow> store \<Rightarrow> unit outcome" where
  "continue_move l i name offset s =
     (case readDecisionRecord (snd s) i of None \<Rightarrow> (Inr (), s) | Some r \<Rightarrow> appendAndDelete l i r name offset s)"

definition log_name :: "log_env \<Rightarrow> string" where
  "log_name l = ''decisions/'' @ lv_month l (lv_now l) @ ''.jsonl''"

definition moveDecision :: "log_env \<Rightarrow> int \<Rightarrow> store \<Rightarrow> unit outcome" where
  "moveDecision l i s =
     (let name = log_name l in
      case openDecisionLog l name (snd s) of
        (Inl err, b) \<Rightarrow> (Inl err, (fst s, b))
      | (Inr offset, b) \<Rightarrow> unless_full (board_try (lv_env l) ordinary (\<lambda>(d, b1).
            let due = (\<lambda>r. di_id r = i \<and> di_state r = ''archived'' \<and> di_mark_revision r = 0) in
            Inr (if list_ex due (bd_items b1)
                 then Some ((), (d, b1\<lparr>bd_items := update_where due
                   (\<lambda>r. r\<lparr>di_mark_revision := di_revision r, di_mark_file := name, di_mark_offset := offset\<rparr>) (bd_items b1)\<rparr>))
                 else None)) (fst s, b)) (\<lambda>_. continue_move l i name offset))"

text \<open>The marked line is missing or incomplete: it is written again at the end of the file.\<close>

definition write_again :: "log_env \<Rightarrow> int \<Rightarrow> string \<Rightarrow> int \<Rightarrow> int \<Rightarrow> store \<Rightarrow> unit outcome" where
  "write_again l i name offset revision s =
     (case openDecisionLog l name (snd s) of
        (Inl err, b) \<Rightarrow> (Inl err, (fst s, b))
      | (Inr end_at, b) \<Rightarrow> unless_full (board_try (lv_env l) ordinary (\<lambda>(d, b1).
            let due = (\<lambda>r. di_id r = i \<and> di_mark_revision r = revision \<and> di_mark_file r = name \<and> di_mark_offset r = offset) in
            Inr (if list_ex due (bd_items b1)
                 then Some ((), (d, b1\<lparr>bd_items := update_where due (\<lambda>r. r\<lparr>di_mark_offset := end_at\<rparr>) (bd_items b1)\<rparr>))
                 else None)) (fst s, b)) (\<lambda>_. continue_move l i name end_at))"

definition finishMove :: "log_env \<Rightarrow> int \<Rightarrow> store \<Rightarrow> unit outcome" where
  "finishMove l i s =
     (case List.find (\<lambda>r. di_id r = i \<and> di_mark_revision r > 0) (bd_items (snd s)) of
        None \<Rightarrow> (Inr (), s)
      | Some r \<Rightarrow> let name = di_mark_file r; offset = di_mark_offset r; revision = di_mark_revision r in
          (case readDecisionLine l name offset (snd s) of
             Inl err \<Rightarrow> (Inl err, s)
           | Inr line \<Rightarrow>
               (case (case line of None \<Rightarrow> None | Some t \<Rightarrow> map_option (Pair t) (lv_parse l (trim_suffix t [newline]))) of
                  Some (t, found) \<Rightarrow>
                    if dn_record found = decisionRecordMarker \<and> dn_id found = i \<and> dn_revision found = revision
                    then deleteMoved l i (di_reference r) revision name offset (int (length t)) (dn_moved_at found) s
                    else write_again l i name offset revision s
                | None \<Rightarrow> write_again l i name offset revision s)))"

section \<open>The sweep\<close>

fun each_move :: "(int \<Rightarrow> store \<Rightarrow> unit outcome) \<Rightarrow> int list \<Rightarrow> store \<Rightarrow> unit outcome" where
  "each_move f [] s = (Inr (), s)"
| "each_move f (i # is) s = (case f i s of (Inl err, s1) \<Rightarrow> (Inl err, s1) | (Inr _, s1) \<Rightarrow> each_move f is s1)"

definition marked_ids :: "board \<Rightarrow> int list" where
  "marked_ids b = take decisionArchiveBatch (sort (map di_id (filter (\<lambda>r. di_mark_revision r > 0) (bd_items b))))"

definition archive_candidates :: "int \<Rightarrow> board \<Rightarrow> itemRow list" where
  "archive_candidates cutoff b = take decisionArchiveWindow (sort_key di_archived_at (sort_key di_id (filter (\<lambda>r. di_state r = ''archived''
     \<and> di_archived_at r < cutoff \<and> (di_archived_at r > bd_after_at b \<or> (di_archived_at r = bd_after_at b \<and> di_id r > bd_after_id b))) (bd_items b))))"

definition unsettled :: "board \<Rightarrow> int \<Rightarrow> bool" where
  "unsettled b i \<longleftrightarrow> (\<exists>r\<in>set (item_deliveries b i). dd_outcome r = ''queued'')"

fun move_candidates :: "log_env \<Rightarrow> nat \<Rightarrow> itemRow list \<Rightarrow> store \<Rightarrow> unit outcome" where
  "move_candidates l moved [] s = (Inr (), s)"
| "move_candidates l moved (c # cs) s =
     (let s0 = (fst s, (snd s)\<lparr>bd_after_at := di_archived_at c, bd_after_id := di_id c\<rparr>) in
      if unsettled (snd s0) (di_id c) then move_candidates l moved cs s0
      else case moveDecision l (di_id c) s0 of
          (Inl err, s1) \<Rightarrow> (Inl err, s1)
        | (Inr _, s1) \<Rightarrow> if moved + 1 = decisionArchiveBatch then (Inr (), s1) else move_candidates l (moved + 1) cs s1)"

definition archiveDecisions :: "log_env \<Rightarrow> store \<Rightarrow> unit outcome" where
  "archiveDecisions l s =
     (case each_move (finishMove l) (marked_ids (snd s)) s of
        (Inl err, s1) \<Rightarrow> (Inl err, s1)
      | (Inr _, s1) \<Rightarrow>
          let cs = archive_candidates (lv_now l - decisionArchiveAfter) (snd s1) in
          case move_candidates l 0 cs s1 of (r, s2) \<Rightarrow>
            (r, if length cs < decisionArchiveWindow then (fst s2, (snd s2)\<lparr>bd_after_at := 0, bd_after_id := 0\<rparr>) else s2))"

section \<open>Restore\<close>

definition recipient_ok :: "recipientRow \<Rightarrow> recipientRow list \<Rightarrow> bool" where
  "recipient_ok r t \<longleftrightarrow> fresh_key (\<lambda>q. (dr_item_id q, dr_ordinal q)) r t \<and> dr_kind r \<in> {''participant'', ''peer'', []}"

fun insert_rows :: "kerror \<Rightarrow> ('r \<Rightarrow> 'r list \<Rightarrow> bool) \<Rightarrow> 'r list \<Rightarrow> 'r list \<Rightarrow> kerror + 'r list" where
  "insert_rows err ok [] t = Inr t"
| "insert_rows err ok (r # rs) t = rbind (insert_row err ok r t) (insert_rows err ok rs)"

definition restored_item :: "int \<Rightarrow> decisionRecord \<Rightarrow> itemRow" where
  "restored_item now r = (dn_item r)\<lparr>di_state := ''archived'', di_archived_at := now, di_updated_at := now, di_mark_revision := 0,
     di_mark_file := [], di_mark_offset := 0, di_verdict_count := int (length (dn_verdicts r))\<rparr>"

definition insert_record :: "int \<Rightarrow> decisionRecord \<Rightarrow> board \<Rightarrow> kerror + board" where
  "insert_record now r b =
     (let err = workError ''reference_in_use'' ''another decision item uses this reference or ID'' in
      rbind (insert_row err item_ok (restored_item now r) (bd_items b)) (\<lambda>is.
      rbind (insert_rows err recipient_ok (dn_recipients r) (bd_recipients b)) (\<lambda>rs.
      rbind (insert_rows err verdict_ok (dn_verdicts r) (bd_verdicts b)) (\<lambda>vs.
      rbind (insert_rows err verdict_delivery_ok (dn_deliveries r) (bd_deliveries b)) (\<lambda>ds.
      rbind (insert_rows err (\<lambda>w t. fresh_key dw_id w t) (dn_withdrawals r) (bd_withdrawals b)) (\<lambda>ws.
      Inr (b\<lparr>bd_items := is, bd_item_ids := max (bd_item_ids b) (di_id (dn_item r)), bd_recipients := rs, bd_verdicts := vs,
             bd_verdict_ids := fold max (map vd_id (dn_verdicts r)) (bd_verdict_ids b), bd_deliveries := ds, bd_withdrawals := ws,
             bd_withdrawal_ids := fold max (map dw_id (dn_withdrawals r)) (bd_withdrawal_ids b)\<rparr>)))))))"

definition restore_record :: "log_env \<Rightarrow> Key \<Rightarrow> locatorRow \<Rightarrow> decisionRecord \<Rightarrow> store \<Rightarrow> kerror + (unit \<times> store)" where
  "restore_record l caller p r s = (case s of (d, b) \<Rightarrow>
     rbind (activeCaller d (lv_now l) caller False) (\<lambda>_.
     let found = (\<lambda>q. dp_reference q = dp_reference p \<and> dp_file q = dp_file p \<and> dp_offset q = dp_offset p) in
     rbind (guard (list_ex found (bd_archive b)) (workError ''not_found'' ''the item was restored or moved again'')) (\<lambda>_.
     rbind (insert_record (lv_now l) r (b\<lparr>bd_archive := filter (\<lambda>q. \<not> found q) (bd_archive b)\<rparr>)) (\<lambda>b1.
     Inr ((), (d, bump_board b1))))))"

definition archived_record :: "log_env \<Rightarrow> locatorRow \<Rightarrow> board \<Rightarrow> kerror + decisionRecord" where
  "archived_record l p b =
     rbind (readDecisionLine l (dp_file p) (dp_offset p) b) (\<lambda>line.
     opt_err (workError ''decision_unavailable'' ''the deep-archive line does not match its locator'')
       (case line of None \<Rightarrow> None
        | Some t \<Rightarrow> if int (length t) \<noteq> dp_length p then None
            else (case lv_parse l (trim_suffix t [newline]) of None \<Rightarrow> None
              | Some r \<Rightarrow> if dn_record r = decisionRecordMarker \<and> dn_reference r = dp_reference p then Some r else None)))"

text \<open>The latest withdrawal of an archived item, when nothing has reopened it.\<close>

definition open_withdrawal :: "board \<Rightarrow> itemRow \<Rightarrow> withdrawalRow option" where
  "open_withdrawal b i =
     (case item_withdrawals b (di_id i) of [] \<Rightarrow> None
      | ws \<Rightarrow> if di_state i = ''archived'' \<and> dw_reopened_at (last ws) = 0 then Some (last ws) else None)"

definition reopen_item :: "board_env \<Rightarrow> Key \<Rightarrow> string \<Rightarrow> int \<Rightarrow> store \<Rightarrow> kerror + (unit \<times> store) option" where
  "reopen_item e caller reference ifRevision s = (case s of (d, b) \<Rightarrow>
     rbind (activeCaller d (bv_now e) caller False) (\<lambda>_.
     case List.find (\<lambda>i. di_reference i = reference) (bd_items b) of
       None \<Rightarrow> Inr None
     | Some i \<Rightarrow> (case open_withdrawal b i of
         None \<Rightarrow> Inr None
       | Some w \<Rightarrow>
           rbind (guard (ifRevision \<noteq> 0) (decisionInvalid ''if_revision'' ''is required to reopen a withdrawn item'')) (\<lambda>_.
           rbind (guard (di_revision i = ifRevision) (stale_revision ''the decision item changed; read it again'' (di_revision i))) (\<lambda>_.
           rbind (itemParty s (bv_now e) caller i) (\<lambda>peer.
           Inr (Some ((), (d, bump_board (end_withdrawals (\<lambda>x. dw_id x = dw_id w) (bv_now e) peer
             (set_item (di_id i) (\<lambda>r. (activated r)\<lparr>di_revision := di_revision r + 1, di_updated_at := bv_now e\<rparr>) b)))))))))))"

definition DecisionRestore :: "log_env \<Rightarrow> Key \<Rightarrow> string \<Rightarrow> int \<Rightarrow> store \<Rightarrow> DecisionItem outcome" where
  "DecisionRestore l caller reference ifRevision s =
     (let e = lv_env l in
      case rbind (guard (validKey (k_family caller) (k_id caller) \<and> ifRevision \<ge> 0) ErrInvalid) (\<lambda>_. checkReference reference) of
        Inl err \<Rightarrow> (Inl err, s)
      | Inr _ \<Rightarrow> (case board_try e ordinary (reopen_item e caller reference ifRevision) s of
          (Inl err, s1) \<Rightarrow> (Inl err, s1)
        | (Inr (Some _), s1) \<Rightarrow> (decisionItem e s1 reference, s1)
        | (Inr None, s1) \<Rightarrow>
            (case rbind (opt_err (workError ''not_found'' ''no deep-archived item has this reference'')
                     (List.find (\<lambda>p. dp_reference p = reference) (bd_archive (snd s1)))) (\<lambda>p.
                   rbind (archived_record l p (snd s1)) (\<lambda>r. Inr (p, r))) of
               Inl err \<Rightarrow> (Inl err, s1)
             | Inr (p, r) \<Rightarrow> then_read e reference (board_tx e ordinary (restore_record l caller p r) s1))))"

end
