(* ===== verification/Board_Tables.thy ===== *)
theory Board_Tables
  imports Deep_Archive "HOL-Library.Multiset"
begin

text \<open>
  The invariant of the decision board on its five row tables, whether a row is in the database or in a
  line of the deep archive: keys, links between rows, and for each item the agreement of its state with
  its verdicts and withdrawals. The lemmas carry it through the single-table writes that the requests
  are made of; the rows of other items are what such a write shares.
\<close>

section \<open>Tables\<close>

record tables =
  tb_items :: "itemRow list"
  tb_recipients :: "recipientRow list"
  tb_verdicts :: "verdictRow list"
  tb_deliveries :: "deliveryRow list"
  tb_withdrawals :: "withdrawalRow list"

definition its_item :: "tables \<Rightarrow> int \<Rightarrow> itemRow list" where
  "its_item t j = filter (\<lambda>x. di_id x = j) (tb_items t)"

definition its_recipients :: "tables \<Rightarrow> int \<Rightarrow> recipientRow list" where
  "its_recipients t j = filter (\<lambda>q. dr_item_id q = j) (tb_recipients t)"

definition its_verdicts :: "tables \<Rightarrow> int \<Rightarrow> verdictRow list" where
  "its_verdicts t j = filter (\<lambda>v. vd_item_id v = j) (tb_verdicts t)"

definition its_deliveries :: "tables \<Rightarrow> int \<Rightarrow> deliveryRow list" where
  "its_deliveries t j = filter (\<lambda>q. \<exists>v\<in>set (tb_verdicts t). vd_id v = dd_verdict_id q \<and> vd_item_id v = j) (tb_deliveries t)"

definition its_withdrawals :: "tables \<Rightarrow> int \<Rightarrow> withdrawalRow list" where
  "its_withdrawals t j = filter (\<lambda>w. dw_item_id w = j) (tb_withdrawals t)"

text \<open>Two states of the tables have the same rows of one item.\<close>

definition share :: "int \<Rightarrow> tables \<Rightarrow> tables \<Rightarrow> bool" where
  "share j t t' \<longleftrightarrow> mset (its_item t' j) = mset (its_item t j) \<and> mset (its_recipients t' j) = mset (its_recipients t j)
     \<and> mset (its_verdicts t' j) = mset (its_verdicts t j) \<and> mset (its_deliveries t' j) = mset (its_deliveries t j)
     \<and> mset (its_withdrawals t' j) = mset (its_withdrawals t j)"

definition shares :: "int \<Rightarrow> tables \<Rightarrow> tables \<Rightarrow> bool" where
  "shares i t t' \<longleftrightarrow> (\<forall>j. j \<noteq> i \<longrightarrow> share j t t')"

lemma share_refl [simp]: "share j t t"
  by (simp add: share_def)

lemma share_trans: "share j t t1 \<Longrightarrow> share j t1 t2 \<Longrightarrow> share j t t2"
  by (simp add: share_def)

lemma shares_refl [simp]: "shares i t t"
  by (simp add: shares_def)

lemma shares_trans: "shares i t t1 \<Longrightarrow> shares i t1 t2 \<Longrightarrow> shares i t t2"
  using share_trans unfolding shares_def by blast

lemma shareD:
  assumes "share j t t'"
  shows "set (its_item t' j) = set (its_item t j)" "set (its_recipients t' j) = set (its_recipients t j)"
    "set (its_verdicts t' j) = set (its_verdicts t j)" "set (its_deliveries t' j) = set (its_deliveries t j)"
    "set (its_withdrawals t' j) = set (its_withdrawals t j)"
  using assms unfolding share_def by (metis mset_eq_setD)+

lemma sharesD: "shares i t t' \<Longrightarrow> j \<noteq> i \<Longrightarrow> share j t t'"
  by (simp add: shares_def)

section \<open>The invariant\<close>

definition keys_wf :: "int \<Rightarrow> int \<Rightarrow> int \<Rightarrow> tables \<Rightarrow> bool" where
  "keys_wf ni nv nw t \<longleftrightarrow> distinct (map di_id (tb_items t)) \<and> distinct (map di_reference (tb_items t))
     \<and> distinct (map (\<lambda>q. (dr_item_id q, dr_ordinal q)) (tb_recipients t)) \<and> distinct (map vd_id (tb_verdicts t))
     \<and> distinct (map (\<lambda>q. (dd_verdict_id q, dd_ordinal q)) (tb_deliveries t)) \<and> distinct (map dw_id (tb_withdrawals t))
     \<and> (\<forall>x\<in>set (tb_items t). di_id x \<le> ni) \<and> (\<forall>v\<in>set (tb_verdicts t). vd_id v \<le> nv) \<and> (\<forall>w\<in>set (tb_withdrawals t). dw_id w \<le> nw)"

definition known_item :: "tables \<Rightarrow> int \<Rightarrow> bool" where
  "known_item t j \<longleftrightarrow> j \<in> di_id ` set (tb_items t)"

definition known_verdict :: "tables \<Rightarrow> int \<Rightarrow> bool" where
  "known_verdict t v \<longleftrightarrow> v \<in> vd_id ` set (tb_verdicts t)"

definition links_wf :: "tables \<Rightarrow> bool" where
  "links_wf t \<longleftrightarrow> (\<forall>q\<in>set (tb_recipients t). known_item t (dr_item_id q) \<and> dr_kind q \<in> {''participant'', ''peer'', []})
     \<and> (\<forall>v\<in>set (tb_verdicts t). known_item t (vd_item_id v)
          \<and> vd_verdict v \<in> {''approved'', ''declined'', ''feedback'', ''completed'', ''acknowledged'', ''dismissed''})
     \<and> (\<forall>q\<in>set (tb_deliveries t). known_verdict t (dd_verdict_id q) \<and> dd_outcome q \<in> {''queued'', ''skipped'', ''acknowledged''})
     \<and> (\<forall>w\<in>set (tb_withdrawals t). known_item t (dw_item_id w))"

text \<open>A standing verdict is the reason for the state: its own state, or archived when the approved work was closed.\<close>

definition standing :: "string \<Rightarrow> string \<Rightarrow> bool" where
  "standing v st \<longleftrightarrow> st = verdictState v \<or> (v = ''approved'' \<and> st = ''archived'')"

definition current_in :: "verdictRow set \<Rightarrow> verdictRow \<Rightarrow> bool" where
  "current_in V v \<longleftrightarrow> v \<in> V \<and> vd_superseded_at v = 0"

definition open_in :: "withdrawalRow set \<Rightarrow> withdrawalRow \<Rightarrow> bool" where
  "open_in W w \<longleftrightarrow> w \<in> W \<and> dw_reopened_at w = 0"

definition item_checks :: "itemRow \<Rightarrow> bool" where
  "item_checks x \<longleftrightarrow> di_kind x \<in> {''decision'', ''task'', ''fyi''} \<and> di_state x \<in> {''active'', ''returned'', ''in_progress'', ''archived''}
     \<and> 0 < di_revision x \<and> (di_mark_revision x \<noteq> 0 \<longrightarrow> di_state x = ''archived'' \<and> di_mark_revision x = di_revision x)"

definition reasons_wf :: "verdictRow set \<Rightarrow> withdrawalRow set \<Rightarrow> itemRow \<Rightarrow> bool" where
  "reasons_wf V W x \<longleftrightarrow>
     (\<forall>v\<in>V. vd_revision v \<le> di_revision x) \<and> (\<forall>w\<in>W. dw_revision w \<le> di_revision x)
     \<and> (\<forall>v. current_in V v \<longrightarrow> (\<forall>v'\<in>V. vd_id v' \<le> vd_id v) \<and> vd_revision v = di_revision x \<and> standing (vd_verdict v) (di_state x))
     \<and> (\<forall>w. open_in W w \<longrightarrow> (\<forall>w'\<in>W. dw_id w' \<le> dw_id w) \<and> dw_revision w = di_revision x \<and> di_state x = ''archived'')
     \<and> (di_state x \<noteq> ''active'' \<longrightarrow> (\<exists>v. current_in V v) \<noteq> (\<exists>w. open_in W w))"

definition item_wf :: "tables \<Rightarrow> itemRow \<Rightarrow> bool" where
  "item_wf t x \<longleftrightarrow> item_checks x \<and> di_verdict_count x = int (length (its_verdicts t (di_id x)))
     \<and> reasons_wf (set (its_verdicts t (di_id x))) (set (its_withdrawals t (di_id x))) x"

definition tables_wf :: "int \<Rightarrow> int \<Rightarrow> int \<Rightarrow> tables \<Rightarrow> bool" where
  "tables_wf ni nv nw t \<longleftrightarrow> keys_wf ni nv nw t \<and> links_wf t \<and> (\<forall>x\<in>set (tb_items t). item_wf t x)"

lemma item_wf_share:
  assumes "share (di_id x) t t'" "item_wf t x"
  shows "item_wf t' x"
proof -
  have "length (its_verdicts t' (di_id x)) = length (its_verdicts t (di_id x))"
    using assms(1) unfolding share_def by (metis size_mset)
  then show ?thesis using assms(2) shareD(3,5)[OF assms(1)] by (simp add: item_wf_def)
qed

lemma share_item_mem: "share j t t' \<Longrightarrow> di_id x = j \<Longrightarrow> x \<in> set (tb_items t') \<longleftrightarrow> x \<in> set (tb_items t)"
  using shareD(1)[of j t t'] by (auto simp: its_item_def)

text \<open>A write to the rows of one item.\<close>

lemma tables_wf_change:
  assumes "tables_wf ni nv nw t" "shares i t t'" "keys_wf ni' nv' nw' t'" "links_wf t'"
    and "\<And>x. x \<in> set (tb_items t') \<Longrightarrow> di_id x = i \<Longrightarrow> item_wf t' x"
  shows "tables_wf ni' nv' nw' t'"
proof -
  have "item_wf t' x" if x: "x \<in> set (tb_items t')" for x
  proof (cases "di_id x = i")
    case False
    then have s: "share (di_id x) t t'" by (rule sharesD[OF assms(2)])
    then have "x \<in> set (tb_items t)" using share_item_mem x by blast
    then show ?thesis using item_wf_share[OF s] assms(1) by (simp add: tables_wf_def)
  qed (use assms(5) x in blast)
  then show ?thesis using assms(3,4) by (simp add: tables_wf_def)
qed

lemma tables_wfD:
  assumes "tables_wf ni nv nw t"
  shows "keys_wf ni nv nw t" "links_wf t" "x \<in> set (tb_items t) \<Longrightarrow> item_wf t x"
  using assms by (simp_all add: tables_wf_def)

lemma unique_item:
  assumes "tables_wf ni nv nw t" "x \<in> set (tb_items t)" "y \<in> set (tb_items t)" "di_id x = di_id y"
  shows "x = y"
  using assms(1) distinct_key_eq[of di_id "tb_items t" x y] assms(2-4) by (simp add: tables_wf_def keys_wf_def)

section \<open>Permuted rows\<close>

text \<open>The same rows in another order.\<close>

definition permuted :: "tables \<Rightarrow> tables \<Rightarrow> bool" where
  "permuted t t' \<longleftrightarrow> mset (tb_items t') = mset (tb_items t) \<and> mset (tb_recipients t') = mset (tb_recipients t)
     \<and> mset (tb_verdicts t') = mset (tb_verdicts t) \<and> mset (tb_deliveries t') = mset (tb_deliveries t)
     \<and> mset (tb_withdrawals t') = mset (tb_withdrawals t)"

lemma mset_filter_eq: "mset xs = mset ys \<Longrightarrow> mset (filter P xs) = mset (filter P ys)"
  by simp

lemma distinct_map_mset: "mset xs = mset ys \<Longrightarrow> distinct (map f xs) = distinct (map f ys)"
  by (metis mset_eq_imp_distinct_iff mset_map)

lemma permuted_share: "permuted t t' \<Longrightarrow> share j t t'"
proof -
  assume p: "permuted t t'"
  then have v: "set (tb_verdicts t') = set (tb_verdicts t)" unfolding permuted_def by (metis mset_eq_setD)
  show ?thesis
    using p unfolding permuted_def share_def its_item_def its_recipients_def its_verdicts_def its_deliveries_def its_withdrawals_def v
    by simp
qed

lemma permuted_wf:
  assumes "permuted t t'" "tables_wf ni nv nw t"
  shows "tables_wf ni nv nw t'"
proof (rule tables_wf_change[OF assms(2), where i = 0])
  show "shares 0 t t'" using permuted_share[OF assms(1)] by (simp add: shares_def)
  have s: "set (tb_items t') = set (tb_items t)" "set (tb_recipients t') = set (tb_recipients t)" "set (tb_verdicts t') = set (tb_verdicts t)"
    "set (tb_deliveries t') = set (tb_deliveries t)" "set (tb_withdrawals t') = set (tb_withdrawals t)"
    using assms(1) unfolding permuted_def by (metis mset_eq_setD)+
  have m: "mset (tb_items t') = mset (tb_items t)" "mset (tb_recipients t') = mset (tb_recipients t)"
    "mset (tb_verdicts t') = mset (tb_verdicts t)" "mset (tb_deliveries t') = mset (tb_deliveries t)"
    "mset (tb_withdrawals t') = mset (tb_withdrawals t)"
    using assms(1) by (simp_all add: permuted_def)
  show "keys_wf ni nv nw t'"
    using tables_wfD(1)[OF assms(2)] unfolding keys_wf_def s m[THEN distinct_map_mset] .
  show "links_wf t'" using tables_wfD(2)[OF assms(2)] unfolding links_wf_def known_item_def known_verdict_def s .
  show "item_wf t' x" if "x \<in> set (tb_items t')" for x
    using that item_wf_share[OF permuted_share[OF assms(1)]] tables_wfD(3)[OF assms(2)] unfolding s by blast
qed

section \<open>Writes of one table\<close>

lemma filter_update_key:
  assumes "\<And>r. P r \<Longrightarrow> \<not> Q r" "\<And>r. P r \<Longrightarrow> \<not> Q (f r)"
  shows "filter Q (update_where P f t) = filter Q t"
  by (induction t) (use assms in \<open>auto simp: update_where_def\<close>)

lemma its_sel [simp]:
  "its_recipients (t\<lparr>tb_items := a\<rparr>) j = its_recipients t j" "its_verdicts (t\<lparr>tb_items := a\<rparr>) j = its_verdicts t j"
  "its_deliveries (t\<lparr>tb_items := a\<rparr>) j = its_deliveries t j" "its_withdrawals (t\<lparr>tb_items := a\<rparr>) j = its_withdrawals t j"
  "its_item (t\<lparr>tb_recipients := b\<rparr>) j = its_item t j" "its_verdicts (t\<lparr>tb_recipients := b\<rparr>) j = its_verdicts t j"
  "its_deliveries (t\<lparr>tb_recipients := b\<rparr>) j = its_deliveries t j" "its_withdrawals (t\<lparr>tb_recipients := b\<rparr>) j = its_withdrawals t j"
  "its_item (t\<lparr>tb_verdicts := c\<rparr>) j = its_item t j" "its_recipients (t\<lparr>tb_verdicts := c\<rparr>) j = its_recipients t j"
  "its_withdrawals (t\<lparr>tb_verdicts := c\<rparr>) j = its_withdrawals t j"
  "its_item (t\<lparr>tb_deliveries := e\<rparr>) j = its_item t j" "its_recipients (t\<lparr>tb_deliveries := e\<rparr>) j = its_recipients t j"
  "its_verdicts (t\<lparr>tb_deliveries := e\<rparr>) j = its_verdicts t j" "its_withdrawals (t\<lparr>tb_deliveries := e\<rparr>) j = its_withdrawals t j"
  "its_item (t\<lparr>tb_withdrawals := g\<rparr>) j = its_item t j" "its_recipients (t\<lparr>tb_withdrawals := g\<rparr>) j = its_recipients t j"
  "its_verdicts (t\<lparr>tb_withdrawals := g\<rparr>) j = its_verdicts t j" "its_deliveries (t\<lparr>tb_withdrawals := g\<rparr>) j = its_deliveries t j"
  by (simp_all add: its_item_def its_recipients_def its_verdicts_def its_deliveries_def its_withdrawals_def)

definition t_item :: "int \<Rightarrow> (itemRow \<Rightarrow> itemRow) \<Rightarrow> tables \<Rightarrow> tables" where
  "t_item i f t = t\<lparr>tb_items := update_where (\<lambda>x. di_id x = i) f (tb_items t)\<rparr>"

definition t_verdicts :: "(verdictRow \<Rightarrow> bool) \<Rightarrow> (verdictRow \<Rightarrow> verdictRow) \<Rightarrow> tables \<Rightarrow> tables" where
  "t_verdicts P f t = t\<lparr>tb_verdicts := update_where P f (tb_verdicts t)\<rparr>"

definition t_withdrawals :: "(withdrawalRow \<Rightarrow> bool) \<Rightarrow> (withdrawalRow \<Rightarrow> withdrawalRow) \<Rightarrow> tables \<Rightarrow> tables" where
  "t_withdrawals P f t = t\<lparr>tb_withdrawals := update_where P f (tb_withdrawals t)\<rparr>"

text \<open>Items keep their identity, verdicts and withdrawals keep theirs and their item.\<close>

definition keeps_item :: "(itemRow \<Rightarrow> itemRow) \<Rightarrow> bool" where
  "keeps_item f \<longleftrightarrow> (\<forall>x. di_id (f x) = di_id x \<and> di_reference (f x) = di_reference x)"

definition keeps_verdict :: "(verdictRow \<Rightarrow> verdictRow) \<Rightarrow> bool" where
  "keeps_verdict f \<longleftrightarrow> (\<forall>v. vd_id (f v) = vd_id v \<and> vd_item_id (f v) = vd_item_id v \<and> vd_verdict (f v) = vd_verdict v)"

definition keeps_withdrawal :: "(withdrawalRow \<Rightarrow> withdrawalRow) \<Rightarrow> bool" where
  "keeps_withdrawal f \<longleftrightarrow> (\<forall>w. dw_id (f w) = dw_id w \<and> dw_item_id (f w) = dw_item_id w)"

lemma image_update_where: "(\<And>r. k (f r) = k r) \<Longrightarrow> k ` set (update_where P f t) = k ` set t"
  by (metis list.set_map map_update_where)

lemma ball_update_where: "(\<forall>r\<in>set (update_where P f t). Q r) \<longleftrightarrow> (\<forall>r\<in>set t. Q (if P r then f r else r))"
  by (auto simp: set_update_where)

lemma its_deliveries_alt:
  "its_deliveries t j = filter (\<lambda>q. (dd_verdict_id q, j) \<in> (\<lambda>v. (vd_id v, vd_item_id v)) ` set (tb_verdicts t)) (tb_deliveries t)"
  unfolding its_deliveries_def by (rule filter_cong[OF refl]) (simp add: image_iff, metis)

lemma t_item_frame:
  assumes "keeps_item f"
  shows "shares i t (t_item i f t)" "keys_wf ni nv nw t \<Longrightarrow> keys_wf ni nv nw (t_item i f t)" "links_wf t \<Longrightarrow> links_wf (t_item i f t)"
proof -
  have k: "\<And>x. di_id (f x) = di_id x" "\<And>x. di_reference (f x) = di_reference x" using assms by (simp_all add: keeps_item_def)
  have "its_item (t_item i f t) j = its_item t j" if "j \<noteq> i" for j
    unfolding its_item_def t_item_def using that by (auto intro: filter_update_key simp: k)
  then show "shares i t (t_item i f t)" by (simp add: shares_def share_def) (simp add: t_item_def)
  have m: "map di_id (update_where P f u) = map di_id u" "map di_reference (update_where P f u) = map di_reference u" for P u
    by (simp_all add: map_update_where k)
  show "keys_wf ni nv nw (t_item i f t)" if "keys_wf ni nv nw t"
    using that by (auto simp: keys_wf_def t_item_def m ball_update_where k if_distrib)
  have "known_item (t_item i f t) = known_item t"
    by (simp add: known_item_def t_item_def fun_eq_iff image_update_where k)
  then show "links_wf (t_item i f t)" if "links_wf t"
    using that by (simp add: links_wf_def t_item_def known_verdict_def)
qed

lemma t_verdicts_frame:
  assumes "keeps_verdict f" "\<And>v. P v \<Longrightarrow> vd_item_id v = i"
  shows "shares i t (t_verdicts P f t)" "keys_wf ni nv nw t \<Longrightarrow> keys_wf ni nv nw (t_verdicts P f t)"
    "links_wf t \<Longrightarrow> links_wf (t_verdicts P f t)"
proof -
  have k: "\<And>v. vd_id (f v) = vd_id v" "\<And>v. vd_item_id (f v) = vd_item_id v" "\<And>v. vd_verdict (f v) = vd_verdict v"
    using assms(1) by (simp_all add: keeps_verdict_def)
  have "its_verdicts (t_verdicts P f t) j = its_verdicts t j" if "j \<noteq> i" for j
    unfolding its_verdicts_def t_verdicts_def using that assms(2) by (auto intro: filter_update_key simp: k)
  moreover have "its_deliveries (t_verdicts P f t) j = its_deliveries t j" for j
    using image_update_where[of "\<lambda>v. (vd_id v, vd_item_id v)" f P "tb_verdicts t"] unfolding its_deliveries_alt t_verdicts_def by (simp add: k)
  ultimately show "shares i t (t_verdicts P f t)" by (simp add: shares_def share_def) (simp add: t_verdicts_def)
  have m: "map vd_id (update_where P f u) = map vd_id u" for u by (simp add: map_update_where k)
  show "keys_wf ni nv nw (t_verdicts P f t)" if "keys_wf ni nv nw t"
    using that by (simp add: keys_wf_def t_verdicts_def m ball_update_where k if_distrib)
  have "known_verdict (t_verdicts P f t) = known_verdict t"
    by (simp add: known_verdict_def t_verdicts_def fun_eq_iff image_update_where k)
  then show "links_wf (t_verdicts P f t)" if "links_wf t"
    using that by (simp add: links_wf_def t_verdicts_def known_item_def ball_update_where k if_distrib)
qed

lemma t_withdrawals_frame:
  assumes "keeps_withdrawal f" "\<And>w. w \<in> set (tb_withdrawals t) \<Longrightarrow> P w \<Longrightarrow> dw_item_id w = i"
  shows "shares i t (t_withdrawals P f t)" "keys_wf ni nv nw t \<Longrightarrow> keys_wf ni nv nw (t_withdrawals P f t)"
    "links_wf t \<Longrightarrow> links_wf (t_withdrawals P f t)"
proof -
  have k: "\<And>w. dw_id (f w) = dw_id w" "\<And>w. dw_item_id (f w) = dw_item_id w" using assms(1) by (simp_all add: keeps_withdrawal_def)
  have "filter (\<lambda>w. dw_item_id w = j) (update_where P f u) = filter (\<lambda>w. dw_item_id w = j) u"
    if "j \<noteq> i" "\<And>w. w \<in> set u \<Longrightarrow> P w \<Longrightarrow> dw_item_id w = i" for j u
    using that(2) by (induction u) (use that(1) in \<open>auto simp: update_where_def k\<close>)
  then have "its_withdrawals (t_withdrawals P f t) j = its_withdrawals t j" if "j \<noteq> i" for j
    unfolding its_withdrawals_def t_withdrawals_def using that assms(2) by simp
  then show "shares i t (t_withdrawals P f t)" by (simp add: shares_def share_def) (simp add: t_withdrawals_def)
  have m: "map dw_id (update_where P f u) = map dw_id u" for u by (simp add: map_update_where k)
  show "keys_wf ni nv nw (t_withdrawals P f t)" if "keys_wf ni nv nw t"
    using that by (simp add: keys_wf_def t_withdrawals_def m ball_update_where k if_distrib)
  show "links_wf (t_withdrawals P f t)" if "links_wf t"
    using that by (simp add: links_wf_def t_withdrawals_def known_item_def known_verdict_def ball_update_where k if_distrib)
qed

text \<open>A chain of single-table writes to the rows of one item.\<close>

definition frame :: "int \<Rightarrow> tables \<Rightarrow> tables \<Rightarrow> bool" where
  "frame i t t' \<longleftrightarrow> shares i t t' \<and> (\<forall>ni nv nw. keys_wf ni nv nw t \<longrightarrow> keys_wf ni nv nw t') \<and> (links_wf t \<longrightarrow> links_wf t')"

lemma frame_trans: "frame i t t1 \<Longrightarrow> frame i t1 t2 \<Longrightarrow> frame i t t2"
  using shares_trans unfolding frame_def by blast

lemma frame_item: "keeps_item f \<Longrightarrow> frame i t (t_item i f t)"
  using t_item_frame unfolding frame_def by blast

lemma frame_verdicts: "keeps_verdict f \<Longrightarrow> (\<And>v. P v \<Longrightarrow> vd_item_id v = i) \<Longrightarrow> frame i t (t_verdicts P f t)"
  using t_verdicts_frame[where f = f and t = t and P = P and i = i] unfolding frame_def by blast

lemma frame_withdrawals:
  "keeps_withdrawal f \<Longrightarrow> (\<And>w. w \<in> set (tb_withdrawals t) \<Longrightarrow> P w \<Longrightarrow> dw_item_id w = i) \<Longrightarrow> frame i t (t_withdrawals P f t)"
  using t_withdrawals_frame[where f = f and t = t and P = P and i = i] unfolding frame_def by blast

section \<open>New rows\<close>

lemma t_add_item:
  assumes "tables_wf ni nv nw t" "di_id x = ni + 1" "di_reference x \<notin> di_reference ` set (tb_items t)"
    and "item_checks x" "di_state x = ''active''" "di_verdict_count x = 0"
  shows "shares (di_id x) t (t\<lparr>tb_items := tb_items t @ [x]\<rparr>)" "tables_wf (di_id x) nv nw (t\<lparr>tb_items := tb_items t @ [x]\<rparr>)"
proof -
  let ?t' = "t\<lparr>tb_items := tb_items t @ [x]\<rparr>"
  note k = tables_wfD(1)[OF assms(1)] and lk = tables_wfD(2)[OF assms(1)]
  show sh: "shares (di_id x) t ?t'" by (simp add: shares_def share_def) (simp add: its_item_def)
  have le: "y \<in> set (tb_items t) \<Longrightarrow> di_id y \<le> ni" for y using k by (simp add: keys_wf_def)
  have new: "\<not> known_item t (di_id x)" using le assms(2) by (fastforce simp: known_item_def)
  then have none: "its_verdicts t (di_id x) = []" "its_withdrawals t (di_id x) = []"
    using lk by (auto simp: links_wf_def its_verdicts_def its_withdrawals_def filter_empty_conv)
  show "tables_wf (di_id x) nv nw ?t'"
  proof (rule tables_wf_change[OF assms(1) sh])
    show "keys_wf (di_id x) nv nw ?t'" using k new assms(2,3) le by (fastforce simp: keys_wf_def known_item_def)
    show "links_wf ?t'" using lk by (auto simp: links_wf_def known_item_def known_verdict_def)
    fix y assume "y \<in> set (tb_items ?t')" "di_id y = di_id x"
    then have "y = x" using new by (auto simp: known_item_def image_iff dest: sym)
    then show "item_wf ?t' y" using assms(4-6) none by (simp add: item_wf_def reasons_wf_def current_in_def open_in_def)
  qed
qed

lemma frame_recipients:
  assumes "known_item t i" "list_all (\<lambda>q. dr_item_id q = i \<and> dr_kind q \<in> {''participant'', ''peer'', []}) new" "distinct (map dr_ordinal new)"
  shows "frame i t (t\<lparr>tb_recipients := filter (\<lambda>q. dr_item_id q \<noteq> i) (tb_recipients t) @ new\<rparr>)"
proof -
  define t' where "t' = t\<lparr>tb_recipients := filter (\<lambda>q. dr_item_id q \<noteq> i) (tb_recipients t) @ new\<rparr>"
  have n: "\<forall>q\<in>set new. dr_item_id q = i \<and> dr_kind q \<in> {''participant'', ''peer'', []}" using assms(2) by (simp add: list_all_iff)
  have "its_recipients t' j = its_recipients t j" if "j \<noteq> i" for j
    using n that by (auto simp: its_recipients_def t'_def filter_empty_conv intro!: filter_cong)
  then have "shares i t t'" by (simp add: shares_def share_def) (simp add: t'_def)
  moreover have "keys_wf ni nv nw t'" if k: "keys_wf ni nv nw t" for ni nv nw
  proof -
    have "distinct (map (\<lambda>q. (dr_item_id q, dr_ordinal q)) new)" using n assms(3) by (auto simp: distinct_map inj_on_def)
    moreover have "distinct (map (\<lambda>q. (dr_item_id q, dr_ordinal q)) (filter (\<lambda>q. dr_item_id q \<noteq> i) (tb_recipients t)))"
      by (rule distinct_map_filter) (use k in \<open>simp add: keys_wf_def\<close>)
    ultimately have "distinct (map (\<lambda>q. (dr_item_id q, dr_ordinal q)) (tb_recipients t'))" using n by (fastforce simp: t'_def)
    then show ?thesis using k by (simp add: keys_wf_def) (simp add: t'_def)
  qed
  moreover have "links_wf t \<Longrightarrow> links_wf t'" using n assms(1) by (auto simp: links_wf_def t'_def known_item_def known_verdict_def)
  ultimately show ?thesis by (simp add: frame_def t'_def)
qed

lemma frame_wf:
  assumes "tables_wf ni nv nw t" "frame i t t'" "tb_items t' = tb_items t" "its_verdicts t' i = its_verdicts t i" "its_withdrawals t' i = its_withdrawals t i"
  shows "tables_wf ni nv nw t'"
proof (rule tables_wf_change[OF assms(1)])
  show "shares i t t'" "keys_wf ni nv nw t'" "links_wf t'" using assms(1,2) by (simp_all add: frame_def tables_wf_def)
  show "item_wf t' x" if "x \<in> set (tb_items t')" "di_id x = i" for x
    using that assms tables_wfD(3)[OF assms(1), of x] by (simp add: item_wf_def)
qed

lemma t_set_deliveries:
  assumes "tables_wf ni nv nw t" "distinct (map (\<lambda>q. (dd_verdict_id q, dd_ordinal q)) ds)"
    "\<forall>q\<in>set ds. known_verdict t (dd_verdict_id q) \<and> dd_outcome q \<in> {''queued'', ''skipped'', ''acknowledged''}"
  shows "tables_wf ni nv nw (t\<lparr>tb_deliveries := ds\<rparr>)"
  using assms by (simp add: tables_wf_def keys_wf_def links_wf_def item_wf_def known_item_def known_verdict_def)

section \<open>The rows of a record\<close>

text \<open>The record of an item: its row and exactly the rows that belong to it.\<close>

definition stands :: "tables \<Rightarrow> decisionRecord \<Rightarrow> bool" where
  "stands t r \<longleftrightarrow> dn_item r \<in> set (tb_items t) \<and> dn_id r = di_id (dn_item r) \<and> dn_reference r = di_reference (dn_item r)
     \<and> dn_revision r = di_revision (dn_item r) \<and> dn_record r = decisionRecordMarker
     \<and> mset (dn_recipients r) = mset (its_recipients t (dn_id r)) \<and> mset (dn_verdicts r) = mset (its_verdicts t (dn_id r))
     \<and> mset (dn_deliveries r) = mset (its_deliveries t (dn_id r)) \<and> mset (dn_withdrawals r) = mset (its_withdrawals t (dn_id r))"

lemma stands_share:
  assumes "stands t r" "share (dn_id r) t t'"
  shows "stands t' r"
proof -
  have "dn_item r \<in> set (tb_items t')" using assms share_item_mem[OF assms(2), of "dn_item r"] by (simp add: stands_def)
  then show ?thesis using assms by (simp add: stands_def share_def)
qed

definition settled :: "tables \<Rightarrow> int \<Rightarrow> bool" where
  "settled t j \<longleftrightarrow> (\<forall>q\<in>set (its_deliveries t j). dd_outcome q \<noteq> ''queued'')"

lemma settled_share: "settled t j \<Longrightarrow> share j t t' \<Longrightarrow> settled t' j"
  using shareD(4) by (simp add: settled_def)

lemma its_verdicts_update:
  assumes "keeps_verdict f"
  shows "its_verdicts (t_verdicts P f t) j = update_where P f (its_verdicts t j)"
  unfolding its_verdicts_def t_verdicts_def using assms by (simp add: keeps_verdict_def filter_update_where)

lemma its_withdrawals_update:
  assumes "keeps_withdrawal f"
  shows "its_withdrawals (t_withdrawals P f t) j = update_where P f (its_withdrawals t j)"
  unfolding its_withdrawals_def t_withdrawals_def using assms by (simp add: keeps_withdrawal_def filter_update_where)

section \<open>Cards\<close>

text \<open>
  The abstract board: the state and revision of each reference. A new card is active at its first
  revision; a verdict or a withdrawal takes it out of active, feedback can still be withdrawn and
  approved work be closed, and only an edit or a reopening, at the next revision, brings it back. No
  card disappears.
\<close>

type_synonym cards = "string \<Rightarrow> (string \<times> int) option"

inductive card_step :: "cards \<Rightarrow> cards \<Rightarrow> bool" where
  card_new: "m ref = None \<Longrightarrow> card_step m (m(ref \<mapsto> (''active'', 1)))"
| card_decided: "m ref = Some (''active'', n) \<Longrightarrow> st \<in> {''in_progress'', ''returned'', ''archived''} \<Longrightarrow> card_step m (m(ref \<mapsto> (st, n)))"
| card_closed: "m ref = Some (''in_progress'', n) \<Longrightarrow> card_step m (m(ref \<mapsto> (''archived'', n)))"
| card_withdrawn: "m ref = Some (''returned'', n) \<Longrightarrow> card_step m (m(ref \<mapsto> (''archived'', n)))"
| card_revised: "m ref = Some (st, n) \<Longrightarrow> card_step m (m(ref \<mapsto> (''active'', n + 1)))"

definition card_of :: "itemRow \<Rightarrow> string \<times> int" where
  "card_of x = (di_state x, di_revision x)"

definition cards_of :: "tables \<Rightarrow> cards" where
  "cards_of t ref = map_option card_of (List.find (\<lambda>x. di_reference x = ref) (tb_items t))"

lemma cards_of_mem:
  assumes "tables_wf ni nv nw t" "x \<in> set (tb_items t)"
  shows "cards_of t (di_reference x) = Some (card_of x)"
proof -
  have "distinct (map di_reference (tb_items t))" using assms(1) by (simp add: tables_wf_def keys_wf_def)
  then show ?thesis using find_key_unique[of di_reference "tb_items t" x] assms(2) by (simp add: cards_of_def)
qed

lemma cards_of_None: "cards_of t ref = None \<longleftrightarrow> ref \<notin> di_reference ` set (tb_items t)"
  by (auto simp: cards_of_def find_None_all image_iff)

text \<open>A write to the rows of one item changes its card alone.\<close>

lemma cards_of_change:
  assumes wf: "tables_wf ni nv nw t" "tables_wf ni' nv' nw' t'" and sh: "shares (di_id x') t t'" and x': "x' \<in> set (tb_items t')"
    and old: "\<And>x. x \<in> set (tb_items t) \<Longrightarrow> di_id x = di_id x' \<Longrightarrow> di_reference x = di_reference x'"
  shows "cards_of t' = (cards_of t)(di_reference x' \<mapsto> card_of x')"
proof
  fix ref
  show "cards_of t' ref = ((cards_of t)(di_reference x' \<mapsto> card_of x')) ref"
  proof (cases "ref = di_reference x'")
    case False
    have mem: "x \<in> set (tb_items t) \<longleftrightarrow> x \<in> set (tb_items t')" if "di_reference x = ref" for x
    proof (cases "di_id x = di_id x'")
      case True
      then have "x \<notin> set (tb_items t)" "x \<notin> set (tb_items t')"
        using old[of x] unique_item[OF wf(2) _ x' True] that False by auto
      then show ?thesis by blast
    next
      case ne: False
      then show ?thesis using share_item_mem[OF sharesD[OF sh ne]] by blast
    qed
    show ?thesis
    proof (cases "\<exists>x\<in>set (tb_items t). di_reference x = ref")
      case True
      then obtain x where x: "x \<in> set (tb_items t)" "di_reference x = ref" by blast
      then have "cards_of t ref = cards_of t' ref" using cards_of_mem[OF wf(1) x(1)] cards_of_mem[OF wf(2), of x] mem[OF x(2)] by simp
      then show ?thesis using False by simp
    next
      case none: False
      then have "cards_of t ref = None" "cards_of t' ref = None" using mem by (auto simp: cards_of_None image_iff)
      then show ?thesis using False by simp
    qed
  qed (use cards_of_mem[OF wf(2) x'] in simp)
qed

lemma cards_of_permuted:
  assumes "tables_wf ni nv nw t" "permuted t t'"
  shows "cards_of t' = cards_of t"
proof
  fix ref
  have s: "set (tb_items t') = set (tb_items t)" using assms(2) unfolding permuted_def by (metis mset_eq_setD)
  show "cards_of t' ref = cards_of t ref"
  proof (cases "cards_of t ref")
    case None
    then show ?thesis using cards_of_None[of t ref] cards_of_None[of t' ref] s by simp
  next
    case (Some a)
    then obtain x where x: "x \<in> set (tb_items t)" "di_reference x = ref" by (auto simp: cards_of_def dest!: find_Some_mem)
    then show ?thesis using cards_of_mem[OF assms(1) x(1)] cards_of_mem[OF permuted_wf[OF assms(2,1)], of x] s by simp
  qed
qed

section \<open>Reasons\<close>

lemma verdictState_active [simp]: "verdictState v \<noteq> ''active''"
  by (simp add: verdictState_def)

lemma reasons_wfD:
  assumes "reasons_wf V W x"
  shows "v \<in> V \<Longrightarrow> vd_revision v \<le> di_revision x" "w \<in> W \<Longrightarrow> dw_revision w \<le> di_revision x"
    "current_in V v \<Longrightarrow> v' \<in> V \<Longrightarrow> vd_id v' \<le> vd_id v" "current_in V v \<Longrightarrow> vd_revision v = di_revision x"
    "current_in V v \<Longrightarrow> standing (vd_verdict v) (di_state x)"
    "open_in W w \<Longrightarrow> w' \<in> W \<Longrightarrow> dw_id w' \<le> dw_id w" "open_in W w \<Longrightarrow> dw_revision w = di_revision x"
    "open_in W w \<Longrightarrow> di_state x = ''archived''"
    "di_state x \<noteq> ''active'' \<Longrightarrow> (\<exists>v. current_in V v) \<noteq> (\<exists>w. open_in W w)"
  using assms unfolding reasons_wf_def by blast+

lemma reasons_none:
  assumes "reasons_wf V W x"
  shows "di_state x \<noteq> ''archived'' \<Longrightarrow> \<not> open_in W w" "di_state x = ''active'' \<Longrightarrow> \<not> current_in V v"
proof -
  show "di_state x \<noteq> ''archived'' \<Longrightarrow> \<not> open_in W w" using reasons_wfD(8)[OF assms] by blast
  show "di_state x = ''active'' \<Longrightarrow> \<not> current_in V v"
    using reasons_wfD(5)[OF assms, of v] verdictState_active[of "vd_verdict v"] by (auto simp: standing_def)
qed

lemma reasons_active:
  assumes "\<forall>v\<in>V. vd_superseded_at v \<noteq> 0 \<and> vd_revision v \<le> di_revision x" "\<forall>w\<in>W. dw_reopened_at w \<noteq> 0 \<and> dw_revision w \<le> di_revision x"
    and "di_state x = ''active''"
  shows "reasons_wf V W x"
  using assms by (auto simp: reasons_wf_def current_in_def open_in_def)

end
