(* ===== verification/Board_Safety.thy ===== *)
theory Board_Safety
  imports Board_Tables
begin

text \<open>
  The invariant of the decision board with its deep archive. The rows of an item that moved to a log are
  the rows of the record that its locator finds there; together with the rows in the database they are
  the \<open>whole\<close> board, on which the invariant of \<^verbatim>\<open>Board_Tables\<close> is stated. A marked item has no queued
  delivery, and a line at its mark that answers for it holds exactly its rows.
\<close>

section \<open>Lines and logs\<close>

definition text_at :: "string \<Rightarrow> nat \<Rightarrow> string" where
  "text_at c n = takeWhile (\<lambda>x. x \<noteq> newline) (drop n c)"

lemma line_at_text: "line_at c n = (if newline \<in> set (drop n c) then Some (text_at c n @ [newline]) else None)"
  by (simp add: line_at_def text_at_def)

lemma trim_line [simp]: "trim_suffix (s @ [newline]) [newline] = s"
  by (simp add: trim_suffix_def has_suffix_def has_prefix_iff)

lemma text_at_append:
  assumes "n \<le> length c" "newline \<in> set (drop n c) \<or> x = []"
  shows "text_at (c @ x) n = text_at c n"
  using assms by (auto simp: text_at_def takeWhile_append1)

lemma takeWhile_line: "newline \<notin> set s \<Longrightarrow> takeWhile (\<lambda>y. y \<noteq> newline) (s @ x) = s @ takeWhile (\<lambda>y. y \<noteq> newline) x"
  by (rule takeWhile_append2) metis

lemma text_at_end: "newline \<notin> set s \<Longrightarrow> x = [] \<or> hd x = newline \<Longrightarrow> text_at (c @ s @ x) (length c) = s"
  using takeWhile_line[of s x] by (cases x) (auto simp: text_at_def)

lemma line_at_append:
  assumes "line_at c n = Some t"
  shows "line_at (c @ x) n = Some t"
proof -
  have nl: "newline \<in> set (drop n c)" using assms by (simp add: line_at_text split: if_split_asm)
  then have "n \<le> length c" by (cases "n \<le> length c") auto
  then show ?thesis using assms nl text_at_append[of n c x] by (auto simp: line_at_text)
qed

lemma ended_line_append: "\<exists>x. ended_line c = c @ x \<and> (x = [] \<or> x = [newline])"
  by (auto simp: ended_line_def)

lemma ended_line_end: "ended_line c = [] \<or> last (ended_line c) = newline"
  by (auto simp: ended_line_def)

lemma text_at_ended: "n \<le> length c \<Longrightarrow> text_at (ended_line c) n = text_at c n"
proof -
  assume n: "n \<le> length c"
  obtain x where x: "ended_line c = c @ x" "x = [] \<or> x = [newline]" using ended_line_append by blast
  show ?thesis
  proof (cases "newline \<in> set (drop n c)")
    case False
    have "takeWhile (\<lambda>y. y \<noteq> newline) x = []" using x(2) by auto
    moreover have "takeWhile (\<lambda>y. y \<noteq> newline) (drop n c) = drop n c" using takeWhile_line[OF False, of "[]"] unfolding append_Nil2 takeWhile.simps(1) .
    ultimately show ?thesis using n takeWhile_line[OF False, of x] by (simp add: text_at_def x(1) del: takeWhile_eq_all_conv)
  qed (use text_at_append[OF n] x in simp)
qed

section \<open>The whole board\<close>

type_synonym decoder = "string \<Rightarrow> decisionRecord option"

definition rec_at :: "decoder \<Rightarrow> board \<Rightarrow> locatorRow \<Rightarrow> decisionRecord option" where
  "rec_at parse b p =
     (case line_at (log_text b (dp_file p)) (nat (dp_offset p)) of None \<Rightarrow> None
      | Some t \<Rightarrow> if int (length t) \<noteq> dp_length p then None
          else (case parse (trim_suffix t [newline]) of None \<Rightarrow> None
            | Some r \<Rightarrow> if dn_record r = decisionRecordMarker \<and> dn_reference r = dp_reference p then Some r else None))"

definition own_rows :: "decisionRecord \<Rightarrow> bool" where
  "own_rows r \<longleftrightarrow> dn_id r = di_id (dn_item r) \<and> dn_reference r = di_reference (dn_item r) \<and> di_state (dn_item r) = ''archived''
     \<and> (\<forall>q\<in>set (dn_recipients r). dr_item_id q = dn_id r) \<and> (\<forall>v\<in>set (dn_verdicts r). vd_item_id v = dn_id r)
     \<and> (\<forall>q\<in>set (dn_deliveries r). dd_verdict_id q \<in> vd_id ` set (dn_verdicts r)) \<and> (\<forall>w\<in>set (dn_withdrawals r). dw_item_id w = dn_id r)"

definition locator_ok :: "decoder \<Rightarrow> board \<Rightarrow> locatorRow \<Rightarrow> bool" where
  "locator_ok parse b p \<longleftrightarrow> decisionLogName (dp_file p) \<and> (\<exists>r. rec_at parse b p = Some r \<and> own_rows r)"

definition archive_wf :: "decoder \<Rightarrow> board \<Rightarrow> bool" where
  "archive_wf parse b \<longleftrightarrow> (\<forall>p\<in>set (bd_archive b). locator_ok parse b p)"

definition recs :: "decoder \<Rightarrow> board \<Rightarrow> decisionRecord list" where
  "recs parse b = map (\<lambda>p. the (rec_at parse b p)) (bd_archive b)"

definition whole :: "decoder \<Rightarrow> board \<Rightarrow> tables" where
  "whole parse b =
     \<lparr>tb_items = map dn_item (recs parse b) @ bd_items b, tb_recipients = concat (map dn_recipients (recs parse b)) @ bd_recipients b,
      tb_verdicts = concat (map dn_verdicts (recs parse b)) @ bd_verdicts b,
      tb_deliveries = concat (map dn_deliveries (recs parse b)) @ bd_deliveries b,
      tb_withdrawals = concat (map dn_withdrawals (recs parse b)) @ bd_withdrawals b\<rparr>"

definition mark_ok :: "decoder \<Rightarrow> board \<Rightarrow> itemRow \<Rightarrow> bool" where
  "mark_ok parse b x \<longleftrightarrow> settled (whole parse b) (di_id x) \<and> decisionLogName (di_mark_file x) \<and> 0 \<le> di_mark_offset x
     \<and> nat (di_mark_offset x) \<le> length (log_text b (di_mark_file x))
     \<and> (\<forall>r. parse (text_at (log_text b (di_mark_file x)) (nat (di_mark_offset x))) = Some r \<longrightarrow> dn_record r = decisionRecordMarker
          \<longrightarrow> dn_id r = di_id x \<longrightarrow> dn_revision r = di_mark_revision x \<longrightarrow> stands (whole parse b) r)"

definition board_wf :: "decoder \<Rightarrow> board \<Rightarrow> bool" where
  "board_wf parse b \<longleftrightarrow> tables_wf (bd_item_ids b) (bd_verdict_ids b) (bd_withdrawal_ids b) (whole parse b)"

text \<open>The rows in the database belong to items in the database.\<close>

definition rows_home :: "board \<Rightarrow> bool" where
  "rows_home b \<longleftrightarrow> (\<forall>q\<in>set (bd_recipients b). dr_item_id q \<in> di_id ` set (bd_items b))
     \<and> (\<forall>v\<in>set (bd_verdicts b). vd_item_id v \<in> di_id ` set (bd_items b))
     \<and> (\<forall>q\<in>set (bd_deliveries b). dd_verdict_id q \<in> vd_id ` set (bd_verdicts b))
     \<and> (\<forall>w\<in>set (bd_withdrawals b). dw_item_id w \<in> di_id ` set (bd_items b))"

definition board_inv :: "decoder \<Rightarrow> board \<Rightarrow> bool" where
  "board_inv parse b \<longleftrightarrow> board_wf parse b \<and> archive_wf parse b \<and> rows_home b
     \<and> (\<forall>x\<in>set (bd_items b). di_mark_revision x \<noteq> 0 \<longrightarrow> mark_ok parse b x)"

lemma board_invD:
  assumes "board_inv parse b"
  shows "board_wf parse b" "archive_wf parse b" "x \<in> set (bd_items b) \<Longrightarrow> di_mark_revision x \<noteq> 0 \<Longrightarrow> mark_ok parse b x"
    "rows_home b"
  using assms by (simp_all add: board_inv_def)

text \<open>The archive and its logs stay.\<close>

definition archive_same :: "board \<Rightarrow> board \<Rightarrow> bool" where
  "archive_same b b' \<longleftrightarrow> bd_archive b' = bd_archive b \<and> bd_logs b' = bd_logs b"

lemma archive_sameD:
  assumes "archive_same b b'"
  shows "recs parse b' = recs parse b" "log_text b' = log_text b" "archive_wf parse b' = archive_wf parse b"
proof -
  have lt: "log_text b' = log_text b" using assms by (simp add: archive_same_def log_text_def fun_eq_iff)
  then have "rec_at parse b' = rec_at parse b" by (simp add: rec_at_def fun_eq_iff)
  then show "recs parse b' = recs parse b" "log_text b' = log_text b" "archive_wf parse b' = archive_wf parse b"
    using assms lt by (simp_all add: recs_def archive_wf_def archive_same_def locator_ok_def)
qed

lemma archive_same_refl [simp]: "archive_same b b"
  by (simp add: archive_same_def)

lemma archive_same_trans: "archive_same a b \<Longrightarrow> archive_same b c \<Longrightarrow> archive_same a c"
  by (simp add: archive_same_def)

section \<open>Live rows\<close>

lemma recs_mem:
  assumes "archive_wf parse b" "r \<in> set (recs parse b)"
  shows "own_rows r"
  using assms by (auto simp: recs_def archive_wf_def locator_ok_def)

lemma archived_not_live:
  assumes "board_wf parse b" "x \<in> set (bd_items b)" "r \<in> set (recs parse b)"
  shows "di_id (dn_item r) \<noteq> di_id x"
proof -
  have "distinct (map di_id (map dn_item (recs parse b) @ bd_items b))"
    using assms(1) by (simp add: board_wf_def tables_wf_def keys_wf_def whole_def)
  then have "(\<lambda>r. di_id (dn_item r)) ` set (recs parse b) \<inter> di_id ` set (bd_items b) = {}" by simp
  then show ?thesis using assms(2,3) by fastforce
qed

lemma update_where_id: "(\<And>x. x \<in> set t \<Longrightarrow> \<not> P x) \<Longrightarrow> update_where P f t = t"
  unfolding update_where_def by (rule map_idI) simp

text \<open>An item that no archived record holds.\<close>

definition aside :: "decoder \<Rightarrow> board \<Rightarrow> int \<Rightarrow> bool" where
  "aside parse b i \<longleftrightarrow> (\<forall>r\<in>set (recs parse b). own_rows r \<and> dn_id r \<noteq> i)"

lemma aside_live:
  assumes "board_inv parse b" "x \<in> set (bd_items b)"
  shows "aside parse b (di_id x)"
  using archived_not_live[OF board_invD(1)[OF assms(1)] assms(2)] recs_mem[OF board_invD(2)[OF assms(1)]]
  by (auto simp: aside_def own_rows_def)

lemma aside_same: "archive_same b b' \<Longrightarrow> aside parse b' i = aside parse b i"
  using archive_sameD(1) by (simp add: aside_def)

text \<open>A write to the rows of one item that is not marked afterwards.\<close>

lemma live_share:
  assumes sh: "share j (whole parse b) (whole parse b')" and same: "archive_same b b'"
  shows "set (filter (\<lambda>q. dr_item_id q = j) (bd_recipients b')) = set (filter (\<lambda>q. dr_item_id q = j) (bd_recipients b))"
    "set (filter (\<lambda>v. vd_item_id v = j) (bd_verdicts b')) = set (filter (\<lambda>v. vd_item_id v = j) (bd_verdicts b))"
    "set (filter (\<lambda>w. dw_item_id w = j) (bd_withdrawals b')) = set (filter (\<lambda>w. dw_item_id w = j) (bd_withdrawals b))"
proof -
  note r = archive_sameD(1)[OF same, of parse]
  have "mset (filter (\<lambda>q. dr_item_id q = j) (bd_recipients b')) = mset (filter (\<lambda>q. dr_item_id q = j) (bd_recipients b))"
    "mset (filter (\<lambda>v. vd_item_id v = j) (bd_verdicts b')) = mset (filter (\<lambda>v. vd_item_id v = j) (bd_verdicts b))"
    "mset (filter (\<lambda>w. dw_item_id w = j) (bd_withdrawals b')) = mset (filter (\<lambda>w. dw_item_id w = j) (bd_withdrawals b))"
    using sh unfolding share_def its_recipients_def its_verdicts_def its_withdrawals_def whole_def r by simp_all
  then show "set (filter (\<lambda>q. dr_item_id q = j) (bd_recipients b')) = set (filter (\<lambda>q. dr_item_id q = j) (bd_recipients b))"
    "set (filter (\<lambda>v. vd_item_id v = j) (bd_verdicts b')) = set (filter (\<lambda>v. vd_item_id v = j) (bd_verdicts b))"
    "set (filter (\<lambda>w. dw_item_id w = j) (bd_withdrawals b')) = set (filter (\<lambda>w. dw_item_id w = j) (bd_withdrawals b))"
    by (metis mset_eq_setD)+
qed

lemma rows_home_change:
  assumes inv: "board_inv parse b" and same: "archive_same b b'" and wf: "board_wf parse b'" and sh: "shares i (whole parse b) (whole parse b')"
    and asd: "aside parse b i" and live: "i \<in> di_id ` set (bd_items b')" "di_id ` set (bd_items b) \<subseteq> di_id ` set (bd_items b')"
  shows "rows_home b'"
proof -
  note home = board_invD(4)[OF inv]
  have ls: "set (filter (\<lambda>q. dr_item_id q = j) (bd_recipients b')) = set (filter (\<lambda>q. dr_item_id q = j) (bd_recipients b))"
    "set (filter (\<lambda>v. vd_item_id v = j) (bd_verdicts b')) = set (filter (\<lambda>v. vd_item_id v = j) (bd_verdicts b))"
    "set (filter (\<lambda>w. dw_item_id w = j) (bd_withdrawals b')) = set (filter (\<lambda>w. dw_item_id w = j) (bd_withdrawals b))" if "j \<noteq> i" for j
    using live_share[OF sharesD[OF sh that] same] by blast+
  have "dr_item_id q \<in> di_id ` set (bd_items b')" if "q \<in> set (bd_recipients b')" for q
  proof (cases "dr_item_id q = i")
    case False
    then have "q \<in> set (bd_recipients b)" using ls(1)[OF False] that by (auto simp: set_eq_iff)
    then show ?thesis using home live(2) unfolding rows_home_def by blast
  qed (use live(1) in simp)
  moreover have "vd_item_id v \<in> di_id ` set (bd_items b')" if "v \<in> set (bd_verdicts b')" for v
  proof (cases "vd_item_id v = i")
    case False
    then have "v \<in> set (bd_verdicts b)" using ls(2)[OF False] that by (auto simp: set_eq_iff)
    then show ?thesis using home live(2) unfolding rows_home_def by blast
  qed (use live(1) in simp)
  moreover have "dw_item_id w \<in> di_id ` set (bd_items b')" if "w \<in> set (bd_withdrawals b')" for w
  proof (cases "dw_item_id w = i")
    case False
    then have "w \<in> set (bd_withdrawals b)" using ls(3)[OF False] that by (auto simp: set_eq_iff)
    then show ?thesis using home live(2) unfolding rows_home_def by blast
  qed (use live(1) in simp)
  moreover have "dd_verdict_id q \<in> vd_id ` set (bd_verdicts b')" if q: "q \<in> set (bd_deliveries b')" for q
  proof -
    have r: "recs parse b' = recs parse b" by (rule archive_sameD(1)[OF same])
    have "q \<in> set (tb_deliveries (whole parse b'))" using q by (simp add: whole_def)
    then have "known_verdict (whole parse b') (dd_verdict_id q)" using wf unfolding board_wf_def tables_wf_def links_wf_def by blast
    then obtain v where v: "v \<in> set (tb_verdicts (whole parse b'))" "vd_id v = dd_verdict_id q" by (auto simp: known_verdict_def)
    show ?thesis
    proof (cases "vd_item_id v = i")
      case True
      have "v \<notin> set (dn_verdicts r)" if "r \<in> set (recs parse b)" for r using asd that True by (auto simp: aside_def own_rows_def)
      then have "v \<in> set (bd_verdicts b')" using v(1) by (auto simp: whole_def r)
      then show ?thesis using v(2) by (metis imageI)
    next
      case False
      note s = sharesD[OF sh False]
      have "mset (its_deliveries (whole parse b') (vd_item_id v)) = mset (its_deliveries (whole parse b) (vd_item_id v))" using s by (simp add: share_def)
      moreover have eq: "(\<exists>u\<in>set (tb_verdicts (whole parse b')). vd_id u = n \<and> vd_item_id u = vd_item_id v)
          = (\<exists>u\<in>set (tb_verdicts (whole parse b)). vd_id u = n \<and> vd_item_id u = vd_item_id v)" for n
        using shareD(3)[OF s] by (auto simp: its_verdicts_def set_eq_iff)
      ultimately have m: "mset (filter (\<lambda>q. \<exists>u\<in>set (tb_verdicts (whole parse b)). vd_id u = dd_verdict_id q \<and> vd_item_id u = vd_item_id v) (bd_deliveries b'))
          = mset (filter (\<lambda>q. \<exists>u\<in>set (tb_verdicts (whole parse b)). vd_id u = dd_verdict_id q \<and> vd_item_id u = vd_item_id v) (bd_deliveries b))"
        unfolding its_deliveries_def eq by (simp add: whole_def r)
      have vb: "v \<in> set (tb_verdicts (whole parse b))" using v(1) shareD(3)[OF s] by (auto simp: its_verdicts_def)
      then have "q \<in> set (bd_deliveries b)" using mset_eq_setD[OF m] q v(2) by (auto simp: set_eq_iff)
      then obtain u where u: "u \<in> set (bd_verdicts b)" "vd_id u = dd_verdict_id q" using home unfolding rows_home_def by (metis imageE)
      have "distinct (map vd_id (tb_verdicts (whole parse b)))" using board_invD(1)[OF inv] by (simp add: board_wf_def tables_wf_def keys_wf_def)
      then have "u = v" using distinct_key_eq[of vd_id "tb_verdicts (whole parse b)" u v] u v(2) vb by (simp add: whole_def)
      then have "u \<in> set (bd_verdicts b')" using ls(2)[OF False] u(1) by auto
      then show ?thesis using u(2) by (metis imageI)
    qed
  qed
  ultimately show ?thesis by (simp add: rows_home_def)
qed

lemma board_inv_change:
  assumes inv: "board_inv parse b" and same: "archive_same b b'" and wf: "board_wf parse b'" and sh: "shares i (whole parse b) (whole parse b')"
    and asd: "aside parse b i" and live: "i \<in> di_id ` set (bd_items b')" "di_id ` set (bd_items b) \<subseteq> di_id ` set (bd_items b')"
    and others: "\<And>x. x \<in> set (bd_items b') \<Longrightarrow> di_id x \<noteq> i \<Longrightarrow> x \<in> set (bd_items b)"
    and clear: "\<And>x. x \<in> set (bd_items b') \<Longrightarrow> di_id x = i \<Longrightarrow> di_mark_revision x = 0"
  shows "board_inv parse b'"
proof -
  have "mark_ok parse b' x" if x: "x \<in> set (bd_items b')" "di_mark_revision x \<noteq> 0" for x
  proof -
    have ne: "di_id x \<noteq> i" using clear x by blast
    then have ok: "mark_ok parse b x" using board_invD(3)[OF inv others[OF x(1)]] x(2) by blast
    have s: "share (di_id x) (whole parse b) (whole parse b')" by (rule sharesD[OF sh ne])
    have "stands (whole parse b) r \<Longrightarrow> dn_id r = di_id x \<Longrightarrow> stands (whole parse b') r" for r
      using stands_share s by simp
    then show ?thesis using ok settled_share[OF _ s] unfolding mark_ok_def archive_sameD(2)[OF same] by blast
  qed
  then show ?thesis using wf board_invD(2)[OF inv] archive_sameD(3)[OF same] rows_home_change[OF inv same wf sh asd live] by (simp add: board_inv_def)
qed

lemma archive_same_writes [simp]:
  "archive_same b (set_item i f b) = True" "archive_same b (supersede i now b) = True" "archive_same b (end_withdrawals P now peer b) = True"
  "archive_same b (storeRecipients i rs b) = True" "archive_same b (bump_board b) = True"
  by (simp_all add: archive_same_def set_item_def supersede_def end_withdrawals_def storeRecipients_def bump_board_def)

lemma aside_writes [simp]:
  "aside parse (set_item j f b) i = aside parse b i" "aside parse (supersede j now b) i = aside parse b i"
  "aside parse (end_withdrawals P now peer b) i = aside parse b i" "aside parse (storeRecipients j rs b) i = aside parse b i"
  "aside parse (bump_board b) i = aside parse b i"
  by (simp_all add: aside_same)

lemma recs_writes [simp]:
  "recs parse (set_item j f b) = recs parse b" "recs parse (supersede j now b) = recs parse b"
  "recs parse (end_withdrawals P now peer b) = recs parse b" "recs parse (storeRecipients j rs b) = recs parse b"
  "recs parse (bump_board b) = recs parse b"
  by (simp_all add: archive_sameD(1))

lemma whole_set_item:
  assumes "aside parse b i"
  shows "whole parse (set_item i f b) = t_item i f (whole parse b)"
proof -
  have "update_where (\<lambda>y. di_id y = i) f (map dn_item (recs parse b)) = map dn_item (recs parse b)"
    by (rule update_where_id) (use assms in \<open>auto simp: aside_def own_rows_def\<close>)
  then show ?thesis by (simp add: whole_def t_item_def) (simp add: set_item_def update_where_append)
qed

lemma whole_supersede:
  assumes "aside parse b i"
  shows "whole parse (supersede i now b)
    = t_verdicts (\<lambda>v. vd_item_id v = i \<and> vd_superseded_at v = 0) (\<lambda>v. v\<lparr>vd_superseded_at := now\<rparr>) (whole parse b)"
proof -
  have "update_where (\<lambda>v. vd_item_id v = i \<and> vd_superseded_at v = 0) f (concat (map dn_verdicts (recs parse b)))
      = concat (map dn_verdicts (recs parse b))" for f
    by (rule update_where_id) (use assms in \<open>fastforce simp: aside_def own_rows_def\<close>)
  then show ?thesis by (simp add: whole_def t_verdicts_def) (simp add: supersede_def update_where_append)
qed

lemma whole_end_withdrawals:
  assumes "aside parse b i" "\<And>w. P w \<Longrightarrow> w \<in> set (concat (map dn_withdrawals (recs parse b))) \<Longrightarrow> dw_item_id w = i"
  shows "whole parse (end_withdrawals P now peer b) = t_withdrawals P (\<lambda>w. w\<lparr>dw_reopened_at := now, dw_reopened_by := peer\<rparr>) (whole parse b)"
proof -
  have "update_where P f (concat (map dn_withdrawals (recs parse b))) = concat (map dn_withdrawals (recs parse b))" for f
    by (rule update_where_id) (use assms in \<open>fastforce simp: aside_def own_rows_def\<close>)
  then show ?thesis by (simp add: whole_def t_withdrawals_def) (simp add: end_withdrawals_def update_where_append)
qed

lemma whole_storeRecipients:
  assumes "aside parse b i"
  shows "whole parse (storeRecipients i rs b)
    = (whole parse b)\<lparr>tb_recipients := filter (\<lambda>q. dr_item_id q \<noteq> i) (tb_recipients (whole parse b)) @ recipient_rows i rs\<rparr>"
proof -
  have "filter (\<lambda>q. dr_item_id q \<noteq> i) (concat (map dn_recipients (recs parse b))) = concat (map dn_recipients (recs parse b))"
    by (rule filter_True) (use assms in \<open>fastforce simp: aside_def own_rows_def\<close>)
  then show ?thesis by (simp add: whole_def) (simp add: storeRecipients_def)
qed

lemma whole_bump [simp]: "whole parse (bump_board b) = whole parse b"
  by (simp add: whole_def) (simp add: bump_board_def)

lemma whole_replays [simp]: "whole parse (b\<lparr>bd_replays := t\<rparr>) = whole parse b"
  using archive_sameD(1)[of b "b\<lparr>bd_replays := t\<rparr>" parse] by (simp add: archive_same_def whole_def)

end
