(* ===== verification/Board_Ops.thy ===== *)
theory Board_Ops
  imports Board_Safety
begin

text \<open>
  Every request on the decision board keeps its invariant and moves the cards of the abstract board:
  creation, edit, verdict, acknowledgement, close, withdrawal and reopening.
\<close>

section \<open>Progress of the board\<close>

definition advance :: "decoder \<Rightarrow> board \<Rightarrow> board \<Rightarrow> bool" where
  "advance parse b b' \<longleftrightarrow> board_inv parse b' \<and> card_step\<^sup>*\<^sup>* (cards_of (whole parse b)) (cards_of (whole parse b'))"

lemma advance_refl [simp]: "board_inv parse b \<Longrightarrow> advance parse b b"
  by (simp add: advance_def)

lemma advance_trans: "advance parse b b1 \<Longrightarrow> advance parse b1 b2 \<Longrightarrow> advance parse b b2"
  unfolding advance_def by (meson rtranclp_trans)

lemma advanceD: "advance parse b b' \<Longrightarrow> board_inv parse b'"
  by (simp add: advance_def)

text \<open>Writes that leave the rows and the archive alone.\<close>

lemma board_inv_same:
  assumes "board_inv parse b" "archive_same b b'" "bd_items b' = bd_items b" "whole parse b' = whole parse b"
    "bd_item_ids b' = bd_item_ids b" "bd_verdict_ids b' = bd_verdict_ids b" "bd_withdrawal_ids b' = bd_withdrawal_ids b"
  shows "board_inv parse b'"
proof -
  have "bd_recipients b' = bd_recipients b" "bd_verdicts b' = bd_verdicts b" "bd_deliveries b' = bd_deliveries b" "bd_withdrawals b' = bd_withdrawals b"
    using assms(4) archive_sameD(1)[OF assms(2), of parse] by (simp_all add: whole_def)
  then have "rows_home b' = rows_home b" using assms(3) by (simp add: rows_home_def)
  then show ?thesis
    using assms by (simp add: board_inv_def board_wf_def mark_ok_def archive_sameD(2)[OF assms(2)] archive_sameD(3)[OF assms(2)])
qed

lemma board_inv_bump [simp]: "board_inv parse (bump_board b) = board_inv parse b"
proof
  have e: "bump_board b = b\<lparr>bd_changes := bd_changes b + 1\<rparr>" "archive_same b (bump_board b)" "archive_same (bump_board b) b"
    by (simp_all add: bump_board_def archive_same_def)
  show "board_inv parse b \<Longrightarrow> board_inv parse (bump_board b)" by (rule board_inv_same[OF _ e(2)]) (simp_all, simp_all add: e(1))
  show "board_inv parse (bump_board b) \<Longrightarrow> board_inv parse b" by (rule board_inv_same[OF _ e(3)]) (simp_all, simp_all add: e(1))
qed

lemma advance_bump: "advance parse b b' \<Longrightarrow> advance parse b (bump_board b')"
  by (simp add: advance_def)

lemma advance_replays: "advance parse b b' \<Longrightarrow> advance parse b (b'\<lparr>bd_replays := t\<rparr>)"
proof -
  assume a: "advance parse b b'"
  have "board_inv parse (b'\<lparr>bd_replays := t\<rparr>)"
    by (rule board_inv_same[OF advanceD[OF a]]) (simp_all add: archive_same_def)
  then show ?thesis using a by (simp add: advance_def)
qed

text \<open>One request changes one live item.\<close>

lemma live_item: "x \<in> set (bd_items b) \<Longrightarrow> x \<in> set (tb_items (whole parse b))"
  by (simp add: whole_def)

lemma known_live: "y \<in> set (bd_items b) \<Longrightarrow> known_item (whole parse b) (di_id y)"
  by (simp add: known_item_def whole_def)

lemma item_change:
  assumes inv: "board_inv parse b" and same: "archive_same b b'" and x: "x \<in> set (bd_items b)"
    and sh: "shares (di_id x) (whole parse b) (whole parse b')"
    and k: "keys_wf (bd_item_ids b') (bd_verdict_ids b') (bd_withdrawal_ids b') (whole parse b')" and lk: "links_wf (whole parse b')"
    and items: "bd_items b' = update_where (\<lambda>r. di_id r = di_id x) f (bd_items b)" and keeps: "keeps_item f"
    and ok: "item_wf (whole parse b') (f x)" and clear: "di_mark_revision (f x) = 0"
    and move: "\<And>m. m (di_reference x) = Some (card_of x) \<Longrightarrow> card_step m (m(di_reference x \<mapsto> card_of (f x)))"
  shows "advance parse b b'"
proof -
  note wf = board_invD(1)[OF inv, unfolded board_wf_def]
  have ids: "di_id (f x) = di_id x" "di_reference (f x) = di_reference x" using keeps by (simp_all add: keeps_item_def)
  have fx: "f x \<in> set (bd_items b')" using x by (auto simp: items set_update_where)
  have only: "y = f x" if y: "y \<in> set (tb_items (whole parse b'))" "di_id y = di_id x" for y
    using k distinct_key_eq[of di_id "tb_items (whole parse b')" y "f x"] y fx live_item ids by (simp add: keys_wf_def)
  have wf': "tables_wf (bd_item_ids b') (bd_verdict_ids b') (bd_withdrawal_ids b') (whole parse b')"
    by (rule tables_wf_change[OF wf sh k lk]) (use only ok in blast)
  have "board_inv parse b'"
  proof (rule board_inv_change[OF inv same _ sh aside_live[OF inv x]])
    show "board_wf parse b'" using wf' by (simp add: board_wf_def)
    show "di_id x \<in> di_id ` set (bd_items b')" using fx ids(1) by (metis imageI)
    show "di_id ` set (bd_items b) \<subseteq> di_id ` set (bd_items b')" using image_update_where[of di_id f] keeps by (simp add: items keeps_item_def)
    show "y \<in> set (bd_items b)" if "y \<in> set (bd_items b')" "di_id y \<noteq> di_id x" for y
      using that keeps by (auto simp: items set_update_where keeps_item_def split: if_split_asm)
    show "di_mark_revision y = 0" if "y \<in> set (bd_items b')" "di_id y = di_id x" for y
      using only[OF live_item[OF that(1)] that(2)] clear by simp
  qed
  moreover have "cards_of (whole parse b') = (cards_of (whole parse b))(di_reference x \<mapsto> card_of (f x))"
  proof -
    have "di_reference y = di_reference (f x)" if "y \<in> set (tb_items (whole parse b))" "di_id y = di_id (f x)" for y
      using unique_item[OF wf that(1) live_item[OF x]] that(2) by (simp add: ids)
    then show ?thesis using cards_of_change[OF wf wf' _ live_item[OF fx]] sh by (simp add: ids)
  qed
  moreover have "cards_of (whole parse b) (di_reference x) = Some (card_of x)" by (rule cards_of_mem[OF wf live_item[OF x]])
  ultimately show ?thesis using move by (simp add: advance_def r_into_rtranclp)
qed

lemma item_facts:
  assumes "board_inv parse b" "x \<in> set (bd_items b)"
  shows "item_checks x" "di_verdict_count x = int (length (its_verdicts (whole parse b) (di_id x)))"
    "reasons_wf (set (its_verdicts (whole parse b) (di_id x))) (set (its_withdrawals (whole parse b) (di_id x))) x"
    "di_state x \<noteq> ''archived'' \<Longrightarrow> di_mark_revision x = 0"
proof -
  have "item_wf (whole parse b) x"
    using tables_wfD(3)[OF board_invD(1)[OF assms(1), unfolded board_wf_def]] live_item[OF assms(2)] by blast
  then show c: "item_checks x" "di_verdict_count x = int (length (its_verdicts (whole parse b) (di_id x)))"
    "reasons_wf (set (its_verdicts (whole parse b) (di_id x))) (set (its_withdrawals (whole parse b) (di_id x))) x"
    by (simp_all add: item_wf_def)
  show "di_state x \<noteq> ''archived'' \<Longrightarrow> di_mark_revision x = 0" using c(1) by (auto simp: item_checks_def)
qed

section \<open>Transactions\<close>

lemma board_tx_cases:
  obtains "snd (board_tx e c body s) = s" | a s' where "body s = Inr (a, s')" "board_tx e c body s = (Inr a, s')"
proof (cases "rbind (bv_admit e c s) (\<lambda>_. rbind (body s) (\<lambda>(a, s'). rbind (bv_commit e c s') (\<lambda>_. Inr (a, s'))))")
  case (Inl err)
  then show thesis using that(1) by (simp add: board_tx_def)
next
  case (Inr r)
  obtain a s' where r: "r = (a, s')" by (cases r)
  then have "body s = Inr (a, s')" using Inr by (auto simp: rbind_def split: sum.splits)
  then show thesis using that(2) Inr r by (simp add: board_tx_def)
qed

lemma keyed_write_cases:
  obtains "snd (keyed_write e caller rep body s) = s" | a s' where "body s = Inr (a, s')" "snd (keyed_write e caller rep body s) = s'"
proof (cases "rbind (activeCaller (fst s) (bv_now e) caller False) (\<lambda>_. rep (snd s)) = Inr None")
  case True
  let ?body = "\<lambda>s1. rbind (activeCaller (fst s1) (bv_now e) caller False) (\<lambda>_.
          rbind (rep (snd s1)) (\<lambda>orig. case orig of Some a \<Rightarrow> Inr (a, s1) | None \<Rightarrow> body s1))"
  have k: "keyed_write e caller rep body s = board_tx e ordinary ?body s" using True by (simp add: keyed_write_def)
  have b: "?body s = body s" using True by (auto simp: rbind_def split: sum.splits)
  show thesis by (rule board_tx_cases[of e ordinary ?body s]) (use k b that in auto)
next
  case False
  then have "snd (keyed_write e caller rep body s) = s" by (auto simp: keyed_write_def split: sum.splits option.splits)
  then show thesis by (rule that(1))
qed

lemma then_read_snd [simp]: "snd (then_read e reference r) = snd r"
  by (cases r) (auto simp: then_read_def split: sum.splits)

section \<open>Edit\<close>

lemma validate_kind:
  assumes "validate_fields f c = Inr ()"
  shows "fd_kind f = Some k \<Longrightarrow> k \<in> {''decision'', ''task'', ''fyi''}" "c \<Longrightarrow> fd_kind f \<noteq> None"
proof -
  have "present (\<lambda>v. guard (v \<in> {''decision'', ''task'', ''fyi''}) (decisionInvalid ''kind'' ''must be decision, task or fyi'')) (fd_kind f) = Inr ()"
    "\<not> (c \<and> (fd_title f = None \<or> fd_kind f = None))"
    using assms unfolding validate_fields_def rbind_Inr_iff guard_iff by (elim exE conjE, simp)+
  then show "fd_kind f = Some k \<Longrightarrow> k \<in> {''decision'', ''task'', ''fyi''}" "c \<Longrightarrow> fd_kind f \<noteq> None"
    by (auto simp: present_def guard_def split: if_split_asm)
qed

lemma decisionRow_Inr:
  assumes "decisionRow b ref = Inr x"
  shows "x \<in> set (bd_items b)" "di_reference x = ref"
  using assms by (auto simp: decisionRow_def dest!: find_Some_mem split: option.splits)

text \<open>A change that makes an item active at its next revision.\<close>

lemma revised_change:
  assumes inv: "board_inv parse b" and same: "archive_same b b'" and x: "x \<in> set (bd_items b)" and fr: "frame (di_id x) (whole parse b) (whole parse b')"
    and ids: "bd_item_ids b' = bd_item_ids b" "bd_verdict_ids b' = bd_verdict_ids b" "bd_withdrawal_ids b' = bd_withdrawal_ids b"
    and items: "bd_items b' = update_where (\<lambda>r. di_id r = di_id x) g (bd_items b)" and keeps: "keeps_item g"
    and V: "\<forall>v\<in>set (its_verdicts (whole parse b') (di_id x)). vd_superseded_at v \<noteq> 0 \<and> vd_revision v \<le> di_revision x + 1"
    and W: "\<forall>w\<in>set (its_withdrawals (whole parse b') (di_id x)). dw_reopened_at w \<noteq> 0 \<and> dw_revision w \<le> di_revision x + 1"
    and n: "length (its_verdicts (whole parse b') (di_id x)) = length (its_verdicts (whole parse b) (di_id x))"
    and g: "di_state (g x) = ''active''" "di_revision (g x) = di_revision x + 1" "di_kind (g x) \<in> {''decision'', ''task'', ''fyi''}"
      "di_mark_revision (g x) = 0" "di_verdict_count (g x) = di_verdict_count x"
  shows "advance parse b b'"
proof (rule item_change[OF inv same x _ _ _ items keeps _ g(4)])
  have id: "di_id (g x) = di_id x" using keeps by (simp add: keeps_item_def)
  note wf = board_invD(1)[OF inv, unfolded board_wf_def]
  show "shares (di_id x) (whole parse b) (whole parse b')" "links_wf (whole parse b')" using fr tables_wfD(2)[OF wf] by (simp_all add: frame_def)
  show "keys_wf (bd_item_ids b') (bd_verdict_ids b') (bd_withdrawal_ids b') (whole parse b')"
    using fr tables_wfD(1)[OF wf] unfolding ids by (simp add: frame_def)
  have "item_checks (g x)" using g item_facts(1)[OF inv x] by (simp add: item_checks_def)
  moreover have "reasons_wf (set (its_verdicts (whole parse b') (di_id x))) (set (its_withdrawals (whole parse b') (di_id x))) (g x)"
    by (rule reasons_active) (use V W g in simp_all)
  ultimately show "item_wf (whole parse b') (g x)" using n g(5) item_facts(2)[OF inv x] by (simp add: item_wf_def id)
  show "card_step m (m(di_reference x \<mapsto> card_of (g x)))" if "m (di_reference x) = Some (card_of x)" for m
    using card_revised[of m "di_reference x" "di_state x" "di_revision x"] that by (simp add: card_of_def g)
qed

lemma recipients_ok:
  "list_all (\<lambda>q. dr_item_id q = i \<and> dr_kind q \<in> {''participant'', ''peer'', []}) (recipient_rows i (decisionRecipients d ns))"
  "distinct (map dr_ordinal (recipient_rows i rs))"
proof -
  have "dr_item_id q = i \<and> dr_kind q \<in> {''participant'', ''peer'', []}" if mem: "q \<in> set (recipient_rows i (decisionRecipients d ns))" for q
  proof -
    obtain n r where q: "q = \<lparr>dr_item_id = i, dr_ordinal = int n, dr_name = rc_name r, dr_kind = rc_kind r, dr_reason = rc_reason r\<rparr>"
      "r \<in> set (decisionRecipients d ns)"
    proof -
      obtain z where z: "z \<in> set (enumerate 0 (decisionRecipients d ns))" "q = (case z of (n, r) \<Rightarrow>
          \<lparr>dr_item_id = i, dr_ordinal = int n, dr_name = rc_name r, dr_kind = rc_kind r, dr_reason = rc_reason r\<rparr>)"
        using mem unfolding recipient_rows_def set_map by blast
      have "snd z \<in> set (decisionRecipients d ns)" using z(1) nth_mem by (fastforce simp: in_set_enumerate_eq)
      then show thesis using that[of "fst z" "snd z"] z(2) by (simp add: case_prod_beta)
    qed
    obtain name where "r = (case resolveRecipient d name of (kind, reason) \<Rightarrow>
       \<lparr>rc_name = name, rc_kind = kind, rc_resolved = (kind \<noteq> []), rc_reason = reason\<rparr>)"
      using q(2) by (auto simp: decisionRecipients_def)
    then show ?thesis using q(1) by (auto simp: resolveRecipient_def split: option.splits if_splits)
  qed
  then show "list_all (\<lambda>q. dr_item_id q = i \<and> dr_kind q \<in> {''participant'', ''peer'', []}) (recipient_rows i (decisionRecipients d ns))"
    by (simp add: list_all_iff)
  have "map dr_ordinal (recipient_rows i rs) = map int (map fst (enumerate 0 rs))"
    by (auto simp: recipient_rows_def simp del: map_fst_enumerate)
  then show "distinct (map dr_ordinal (recipient_rows i rs))" by (simp add: distinct_map inj_on_def)
qed

lemma keeps_simps [simp]:
  "keeps_item activated" "keeps_item (edited now f)" "keeps_item (decided now v)" "keeps_item (closed now p n)" "keeps_item (withdrawn now)"
  "keeps_verdict (\<lambda>v. v\<lparr>vd_superseded_at := now\<rparr>)" "keeps_withdrawal (\<lambda>w. w\<lparr>dw_reopened_at := now, dw_reopened_by := peer\<rparr>)"
  by (simp_all add: keeps_item_def keeps_verdict_def keeps_withdrawal_def activated_def edited_def decided_def closed_def withdrawn_def)

text \<open>The reasons of an item that is reopened for an edit are ended.\<close>

lemma reopen_for_edit_ends:
  fixes parse b x now editor
  defines "b1 \<equiv> reopen_for_edit now editor x b"
  assumes inv: "board_inv parse b" and x: "x \<in> set (bd_items b)" and now: "now \<noteq> 0"
  shows "frame (di_id x) (whole parse b) (whole parse b1)" "archive_same b b1"
    "\<forall>v\<in>set (its_verdicts (whole parse b1) (di_id x)). vd_superseded_at v \<noteq> 0 \<and> vd_revision v \<le> di_revision x"
    "\<forall>w\<in>set (its_withdrawals (whole parse b1) (di_id x)). dw_reopened_at w \<noteq> 0 \<and> dw_revision w \<le> di_revision x"
    "length (its_verdicts (whole parse b1) (di_id x)) = length (its_verdicts (whole parse b) (di_id x))"
    "bd_item_ids b1 = bd_item_ids b" "bd_verdict_ids b1 = bd_verdict_ids b" "bd_withdrawal_ids b1 = bd_withdrawal_ids b"
    "bd_items b1 = (if di_state x = ''active'' then bd_items b else update_where (\<lambda>r. di_id r = di_id x) activated (bd_items b))"
proof -
  let ?i = "di_id x" and ?t = "whole parse b"
  let ?b0 = "set_item ?i activated (supersede ?i now b)" and ?P = "\<lambda>w. dw_item_id w = ?i \<and> dw_reopened_at w = 0"
  note asd = aside_live[OF inv x] and rs = item_facts(3)[OF inv x]
  have "frame ?i ?t (whole parse b1) \<and> archive_same b b1
    \<and> (\<forall>v\<in>set (its_verdicts (whole parse b1) ?i). vd_superseded_at v \<noteq> 0 \<and> vd_revision v \<le> di_revision x)
    \<and> (\<forall>w\<in>set (its_withdrawals (whole parse b1) ?i). dw_reopened_at w \<noteq> 0 \<and> dw_revision w \<le> di_revision x)
    \<and> length (its_verdicts (whole parse b1) ?i) = length (its_verdicts ?t ?i)"
  proof (cases "di_state x = ''active''")
    case True
    then have "b1 = b" by (simp add: b1_def reopen_for_edit_def)
    then show ?thesis using reasons_none[OF rs] reasons_wfD(1,2)[OF rs] True
      by (simp add: frame_def) (auto simp: current_in_def open_in_def)
  next
    case False
    then have b1: "b1 = end_withdrawals ?P now editor ?b0" by (simp add: b1_def reopen_for_edit_def)
    let ?tv = "t_verdicts (\<lambda>v. vd_item_id v = ?i \<and> vd_superseded_at v = 0) (\<lambda>v. v\<lparr>vd_superseded_at := now\<rparr>) ?t"
    let ?ti = "t_item ?i activated ?tv"
    have w: "whole parse b1 = t_withdrawals ?P (\<lambda>w. w\<lparr>dw_reopened_at := now, dw_reopened_by := editor\<rparr>) ?ti"
      unfolding b1 using whole_end_withdrawals[of parse ?b0 ?i ?P] asd by (simp add: whole_set_item whole_supersede)
    have "frame ?i ?t ?tv" by (rule frame_verdicts) simp_all
    moreover have "frame ?i ?tv ?ti" by (rule frame_item) simp
    moreover have "frame ?i ?ti (whole parse b1)" unfolding w by (rule frame_withdrawals) simp_all
    ultimately have fr: "frame ?i ?t (whole parse b1)" by (blast intro: frame_trans)
    have v: "its_verdicts (whole parse b1) ?i = its_verdicts ?tv ?i" by (simp add: w t_withdrawals_def t_item_def)
    have wd: "its_withdrawals (whole parse b1) ?i
        = update_where ?P (\<lambda>w. w\<lparr>dw_reopened_at := now, dw_reopened_by := editor\<rparr>) (its_withdrawals ?t ?i)"
      unfolding w by (subst its_withdrawals_update) (simp_all add: t_item_def t_verdicts_def)
    have own: "v \<in> set (its_verdicts ?t ?i) \<Longrightarrow> vd_item_id v = ?i" "u \<in> set (its_withdrawals ?t ?i) \<Longrightarrow> dw_item_id u = ?i" for v u
      by (simp_all add: its_verdicts_def its_withdrawals_def)
    have "archive_same b b1" unfolding b1 by (simp add: archive_same_def set_item_def supersede_def end_withdrawals_def)
    moreover have "\<forall>v\<in>set (its_verdicts (whole parse b1) ?i). vd_superseded_at v \<noteq> 0 \<and> vd_revision v \<le> di_revision x"
      unfolding v by (subst its_verdicts_update) (use own now reasons_wfD(1)[OF rs] in \<open>auto simp: set_update_where\<close>)
    moreover have "\<forall>u\<in>set (its_withdrawals (whole parse b1) ?i). dw_reopened_at u \<noteq> 0 \<and> dw_revision u \<le> di_revision x"
      unfolding wd using own now reasons_wfD(2)[OF rs] by (auto simp: set_update_where)
    moreover have "length (its_verdicts (whole parse b1) ?i) = length (its_verdicts ?t ?i)"
      unfolding v by (subst its_verdicts_update) simp_all
    ultimately show ?thesis using fr by blast
  qed
  then show "frame ?i ?t (whole parse b1)" "archive_same b b1"
    "\<forall>v\<in>set (its_verdicts (whole parse b1) ?i). vd_superseded_at v \<noteq> 0 \<and> vd_revision v \<le> di_revision x"
    "\<forall>w\<in>set (its_withdrawals (whole parse b1) ?i). dw_reopened_at w \<noteq> 0 \<and> dw_revision w \<le> di_revision x"
    "length (its_verdicts (whole parse b1) ?i) = length (its_verdicts ?t ?i)" by blast+
  show "bd_item_ids b1 = bd_item_ids b" "bd_verdict_ids b1 = bd_verdict_ids b" "bd_withdrawal_ids b1 = bd_withdrawal_ids b"
    "bd_items b1 = (if di_state x = ''active'' then bd_items b else update_where (\<lambda>r. di_id r = ?i) activated (bd_items b))"
    by (simp_all add: b1_def reopen_for_edit_def set_item_def supersede_def end_withdrawals_def)
qed

lemma update_where_twice: "(\<And>r. P r \<Longrightarrow> P (g r)) \<Longrightarrow> update_where P f (update_where P g t) = update_where P (\<lambda>r. f (g r)) t"
  by (induction t) auto

lemma board_sels [simp]:
  "bd_items (set_item i f b) = update_where (\<lambda>r. di_id r = i) f (bd_items b)" "bd_item_ids (set_item i f b) = bd_item_ids b"
  "bd_verdict_ids (set_item i f b) = bd_verdict_ids b" "bd_withdrawal_ids (set_item i f b) = bd_withdrawal_ids b"
  "bd_items (bump_board b) = bd_items b" "bd_item_ids (bump_board b) = bd_item_ids b" "bd_verdict_ids (bump_board b) = bd_verdict_ids b"
  "bd_withdrawal_ids (bump_board b) = bd_withdrawal_ids b"
  "bd_items (storeRecipients i rs b) = bd_items b" "bd_item_ids (storeRecipients i rs b) = bd_item_ids b"
  "bd_verdict_ids (storeRecipients i rs b) = bd_verdict_ids b" "bd_withdrawal_ids (storeRecipients i rs b) = bd_withdrawal_ids b"
  "bd_items (supersede i now b) = bd_items b" "bd_item_ids (supersede i now b) = bd_item_ids b" "bd_verdict_ids (supersede i now b) = bd_verdict_ids b"
  "bd_withdrawal_ids (supersede i now b) = bd_withdrawal_ids b"
  "bd_items (end_withdrawals P now p b) = bd_items b" "bd_item_ids (end_withdrawals P now p b) = bd_item_ids b"
  "bd_verdict_ids (end_withdrawals P now p b) = bd_verdict_ids b" "bd_withdrawal_ids (end_withdrawals P now p b) = bd_withdrawal_ids b"
  by (simp_all add: set_item_def bump_board_def storeRecipients_def supersede_def end_withdrawals_def)

lemma edit_advance:
  fixes editor
  assumes inv: "board_inv parse b" and x: "x \<in> set (bd_items b)" and now: "now \<noteq> 0" and f: "validate_fields f c = Inr ()"
  defines "b2 \<equiv> bump_board (set_item (di_id x) (edited now f) (reopen_for_edit now editor x b))"
  shows "advance parse b (case fd_recipients f of None \<Rightarrow> b2 | Some ns \<Rightarrow> storeRecipients (di_id x) (decisionRecipients d ns) b2)"
proof -
  define b1 where "b1 = reopen_for_edit now editor x b"
  define b3 where "b3 = (case fd_recipients f of None \<Rightarrow> b2 | Some ns \<Rightarrow> storeRecipients (di_id x) (decisionRecipients d ns) b2)"
  note r = reopen_for_edit_ends[OF inv x now, of editor, folded b1_def] and asd = aside_live[OF inv x]
  let ?i = "di_id x" and ?g = "\<lambda>y. edited now f (if di_state x = ''active'' then y else activated y)"
  have asd1: "aside parse b1 ?i" using aside_same[OF r(2)] asd by simp
  have w2: "whole parse b2 = t_item ?i (edited now f) (whole parse b1)" unfolding b2_def b1_def[symmetric] using asd1 by (simp add: whole_set_item)
  have fr2: "frame ?i (whole parse b) (whole parse b2)" unfolding w2 by (rule frame_trans[OF r(1) frame_item]) simp
  have asd2: "aside parse b2 ?i" unfolding b2_def b1_def[symmetric] using asd1 by simp
  have keeps: "keeps_item ?g" using keeps_simps(1) keeps_simps(2)[of now f] by (simp add: keeps_item_def)
  have items2: "bd_items b2 = update_where (\<lambda>r. di_id r = ?i) ?g (bd_items b)"
    by (simp add: b2_def b1_def[symmetric] r(9) update_where_twice activated_def)
  then have "?g x \<in> set (bd_items b2)" using x by (auto simp: set_update_where)
  from known_live[OF this, of parse] have "known_item (whole parse b2) ?i" using keeps by (simp add: keeps_item_def)
  then have fr3: "frame ?i (whole parse b2) (whole parse b3)"
    unfolding b3_def using whole_storeRecipients[OF asd2] frame_recipients[OF _ recipients_ok] by (auto simp: frame_def split: option.split)
  have its: "its_verdicts (whole parse b3) ?i = its_verdicts (whole parse b1) ?i" "its_withdrawals (whole parse b3) ?i = its_withdrawals (whole parse b1) ?i"
    unfolding b3_def using whole_storeRecipients[OF asd2] w2 by (auto simp: t_item_def split: option.split)
  have s1: "archive_same b1 b2" "archive_same b2 b3"
    by (auto simp: b3_def b2_def b1_def[symmetric] archive_same_def bump_board_def set_item_def storeRecipients_def split: option.split)
  have items: "bd_items b3 = update_where (\<lambda>r. di_id r = ?i) ?g (bd_items b)" by (simp add: b3_def items2 split: option.split)
  have "advance parse b b3"
  proof (rule revised_change[OF inv _ x frame_trans[OF fr2 fr3] _ _ _ items keeps])
    show "archive_same b b3" using r(2) s1 archive_same_trans by blast
    show "bd_item_ids b3 = bd_item_ids b" "bd_verdict_ids b3 = bd_verdict_ids b" "bd_withdrawal_ids b3 = bd_withdrawal_ids b"
      using r(6-8) by (simp_all add: b3_def b2_def b1_def[symmetric] split: option.split)
    show "\<forall>v\<in>set (its_verdicts (whole parse b3) ?i). vd_superseded_at v \<noteq> 0 \<and> vd_revision v \<le> di_revision x + 1"
      "\<forall>w\<in>set (its_withdrawals (whole parse b3) ?i). dw_reopened_at w \<noteq> 0 \<and> dw_revision w \<le> di_revision x + 1"
      using r(3,4) unfolding its by fastforce+
    show "length (its_verdicts (whole parse b3) ?i) = length (its_verdicts (whole parse b) ?i)" using r(5) its by simp
    show "di_kind (?g x) \<in> {''decision'', ''task'', ''fyi''}"
      using item_facts(1)[OF inv x] validate_kind(1)[OF f] by (auto simp: edited_def activated_def item_checks_def over_def split: option.split)
    show "di_mark_revision (?g x) = 0" using item_facts(4)[OF inv x] by (simp add: edited_def activated_def)
  qed (simp_all add: edited_def activated_def)
  then show ?thesis unfolding b3_def .
qed

lemma DecisionEdit_advance:
  assumes inv: "board_inv parse (snd s)" and now: "bv_now e \<noteq> 0"
  shows "advance parse (snd s) (snd (snd (DecisionEdit e caller ref n f s)))"
proof (cases "snd (DecisionEdit e caller ref n f s) = s")
  case False
  have v: "validate_fields f False = Inr ()"
    and d: "snd (DecisionEdit e caller ref n f s) = snd (board_tx e ordinary (edit_item e caller ref n f) s)"
    using False by (auto simp: DecisionEdit_def split: sum.splits)
  obtain s' where s': "edit_item e caller ref n f s = Inr ((), s')" "snd (DecisionEdit e caller ref n f s) = s'"
    using False unfolding d by (cases rule: board_tx_cases[of e ordinary "edit_item e caller ref n f" s]) auto
  obtain d b where s: "s = (d, b)" by (cases s)
  obtain x where x: "decisionRow b ref = Inr x" and r: "s' = (d, case fd_recipients f of
        None \<Rightarrow> bump_board (set_item (di_id x) (edited (bv_now e) f) (reopen_for_edit (bv_now e) (peerOf d (k_family caller) (k_id caller)) x b))
      | Some ns \<Rightarrow> storeRecipients (di_id x) (decisionRecipients d ns)
          (bump_board (set_item (di_id x) (edited (bv_now e) f) (reopen_for_edit (bv_now e) (peerOf d (k_family caller) (k_id caller)) x b))))"
    using s'(1) unfolding edit_item_def s Let_def by auto
  show ?thesis using edit_advance[OF _ decisionRow_Inr(1)[OF x] now v, of parse] inv s'(2) unfolding s r by simp
qed (use inv in simp)

section \<open>Reopening\<close>

lemma live_rows:
  assumes "aside parse b i"
  shows "its_recipients (whole parse b) i = filter (\<lambda>q. dr_item_id q = i) (bd_recipients b)"
    "its_verdicts (whole parse b) i = filter (\<lambda>v. vd_item_id v = i) (bd_verdicts b)"
    "its_withdrawals (whole parse b) i = filter (\<lambda>w. dw_item_id w = i) (bd_withdrawals b)"
  using assms by (auto simp: its_recipients_def its_verdicts_def its_withdrawals_def whole_def filter_empty_conv aside_def own_rows_def)

lemma live_sorted:
  assumes "aside parse b i"
  shows "set (item_verdicts b i) = set (its_verdicts (whole parse b) i)" "set (item_withdrawals b i) = set (its_withdrawals (whole parse b) i)"
  using live_rows[OF assms] by (simp_all add: item_verdicts_def item_withdrawals_def)

lemma last_sorted: "xs \<noteq> [] \<Longrightarrow> v \<in> set xs \<Longrightarrow> k v \<le> k (last (sort_key k xs))" for k :: "'a \<Rightarrow> int"
proof -
  assume v: "v \<in> set xs" and ne: "xs \<noteq> []"
  let ?ys = "sort_key k xs"
  have ne': "?ys \<noteq> []" using ne by (metis length_0_conv length_sort)
  obtain j where j: "j < length ?ys" "?ys ! j = v" using v by (metis in_set_conv_nth set_sort)
  have "map k ?ys ! j \<le> map k ?ys ! (length ?ys - 1)"
    by (rule sorted_nth_mono[OF sorted_sort_key]) (use j(1) in simp_all)
  moreover have "last ?ys = ?ys ! (length ?ys - 1)" by (rule last_conv_nth[OF ne'])
  moreover have "map k ?ys ! (length ?ys - 1) = k (?ys ! (length ?ys - 1))" using ne by (intro nth_map) simp
  ultimately show ?thesis using j by (simp only: nth_map)
qed

lemma open_withdrawal_open:
  assumes inv: "board_inv parse b" and x: "x \<in> set (bd_items b)" and w: "open_withdrawal b x = Some w"
  shows "open_in (set (its_withdrawals (whole parse b) (di_id x))) w" "di_state x = ''archived''"
proof -
  have ne: "item_withdrawals b (di_id x) \<noteq> []" and o: "w = last (item_withdrawals b (di_id x))" "dw_reopened_at w = 0" "di_state x = ''archived''"
    using w by (auto simp: open_withdrawal_def split: list.splits if_split_asm)
  have "w \<in> set (item_withdrawals b (di_id x))" unfolding o(1) by (rule last_in_set[OF ne])
  then show "open_in (set (its_withdrawals (whole parse b) (di_id x))) w" "di_state x = ''archived''"
    using o(2,3) live_sorted(2)[OF aside_live[OF inv x]] by (simp_all add: open_in_def)
qed

lemma reopen_advance:
  fixes peer
  assumes inv: "board_inv parse b" and x: "x \<in> set (bd_items b)" and now: "now \<noteq> 0" and w: "open_withdrawal b x = Some w"
  shows "advance parse b (bump_board (end_withdrawals (\<lambda>y. dw_id y = dw_id w) now peer
           (set_item (di_id x) (\<lambda>r. (activated r)\<lparr>di_revision := di_revision r + 1, di_updated_at := now\<rparr>) b)))"
proof -
  let ?i = "di_id x" and ?t = "whole parse b" and ?g = "\<lambda>r. (activated r)\<lparr>di_revision := di_revision r + 1, di_updated_at := now\<rparr>"
    and ?P = "\<lambda>y. dw_id y = dw_id w" and ?h = "\<lambda>y. y\<lparr>dw_reopened_at := now, dw_reopened_by := peer\<rparr>"
  define b1 where "b1 = end_withdrawals ?P now peer (set_item ?i ?g b)"
  note o = open_withdrawal_open[OF inv x w] and rs = item_facts(3)[OF inv x] and asd = aside_live[OF inv x]
    and wf = board_invD(1)[OF inv, unfolded board_wf_def]
  have g: "keeps_item ?g" by (simp add: keeps_item_def activated_def)
  have wi: "w \<in> set (tb_withdrawals ?t)" "dw_item_id w = ?i" using o(1) by (auto simp: open_in_def its_withdrawals_def)
  have same: "y = w" if "y \<in> set (tb_withdrawals ?t)" "dw_id y = dw_id w" for y
    using tables_wfD(1)[OF wf] distinct_key_eq[of dw_id "tb_withdrawals ?t" y w] that wi(1) by (simp add: keys_wf_def)
  have "whole parse b1 = t_withdrawals ?P ?h (whole parse (set_item ?i ?g b))"
    unfolding b1_def by (rule whole_end_withdrawals[of _ _ ?i]) (use asd same wi(2) in \<open>auto simp: whole_def\<close>)
  then have wb: "whole parse b1 = t_withdrawals ?P ?h (t_item ?i ?g ?t)" using asd by (simp add: whole_set_item)
  have fr: "frame ?i ?t (whole parse b1)"
    unfolding wb by (rule frame_trans[OF frame_item[OF g] frame_withdrawals]) (use same wi in \<open>auto simp: t_item_def\<close>)
  have v: "its_verdicts (whole parse b1) ?i = its_verdicts ?t ?i" by (simp add: wb t_withdrawals_def t_item_def)
  have wd: "its_withdrawals (whole parse b1) ?i = update_where ?P ?h (its_withdrawals ?t ?i)"
    unfolding wb by (subst its_withdrawals_update) (simp_all add: t_item_def)
  have none: "\<not> current_in (set (its_verdicts ?t ?i)) u" for u using reasons_wfD(9)[OF rs] o by auto
  have "advance parse b b1"
  proof (rule revised_change[OF inv _ x fr, of ?g])
    show "archive_same b b1" by (simp add: b1_def archive_same_def end_withdrawals_def set_item_def)
    show "\<forall>v\<in>set (its_verdicts (whole parse b1) ?i). vd_superseded_at v \<noteq> 0 \<and> vd_revision v \<le> di_revision x + 1"
      unfolding v using none reasons_wfD(1)[OF rs] by (fastforce simp: current_in_def)
    have "dw_reopened_at u \<noteq> 0 \<or> dw_id u = dw_id w" if "u \<in> set (its_withdrawals ?t ?i)" for u
      using reasons_wfD(6)[OF rs, of u w] reasons_wfD(6)[OF rs o(1) that] that o(1) by (auto simp: open_in_def)
    then show "\<forall>w\<in>set (its_withdrawals (whole parse b1) ?i). dw_reopened_at w \<noteq> 0 \<and> dw_revision w \<le> di_revision x + 1"
      unfolding wd using reasons_wfD(2)[OF rs] now by (fastforce simp: set_update_where)
    show "di_kind (?g x) \<in> {''decision'', ''task'', ''fyi''}" using item_facts(1)[OF inv x] by (simp add: activated_def item_checks_def)
  qed (use g v in \<open>simp_all add: b1_def activated_def\<close>)
  then show ?thesis unfolding b1_def by (rule advance_bump)
qed

section \<open>Creation\<close>

lemma item_receipt_snd:
  assumes "item_receipt e caller ref k print dl s = Inr (a, s')"
  shows "\<exists>t. s' = (fst s, (snd s)\<lparr>bd_replays := t\<rparr>)"
  using assms by (auto simp: item_receipt_def store_receipt_def)

lemma create_advance:
  fixes b d
  assumes inv: "board_inv parse b" and ok: "item_ok x (bd_items b)" and new: "\<not> reference_taken b (di_reference x)" and id: "di_id x = bd_item_ids b + 1"
    and st: "di_state x = ''active''" "di_revision x = 1" "di_verdict_count x = 0" "di_mark_revision x = 0"
  shows "advance parse b (storeRecipients (di_id x) (decisionRecipients d ns) (b\<lparr>bd_items := bd_items b @ [x], bd_item_ids := di_id x\<rparr>))"
proof -
  let ?t = "whole parse b" and ?b1 = "b\<lparr>bd_items := bd_items b @ [x], bd_item_ids := di_id x\<rparr>" and ?i = "di_id x"
  define b2 where "b2 = storeRecipients ?i (decisionRecipients d ns) ?b1"
  note wf = board_invD(1)[OF inv, unfolded board_wf_def] and arc = board_invD(2)[OF inv]
  have s1: "archive_same b ?b1" by (simp add: archive_same_def)
  have w1: "whole parse ?b1 = ?t\<lparr>tb_items := tb_items ?t @ [x]\<rparr>" using archive_sameD(1)[OF s1, of parse] by (simp add: whole_def)
  have ref: "rec_at parse b p = Some r \<Longrightarrow> dn_reference r = dp_reference p" for p r
    by (auto simp: rec_at_def split: option.splits if_splits)
  have refs: "di_reference (dn_item r) \<in> dp_reference ` set (bd_archive b)" if mem: "r \<in> set (recs parse b)" for r
  proof -
    obtain p where p: "p \<in> set (bd_archive b)" "r = the (rec_at parse b p)" using mem by (auto simp: recs_def)
    then obtain r' where "rec_at parse b p = Some r'" "own_rows r'" using arc unfolding archive_wf_def locator_ok_def by blast
    then have "di_reference (dn_item r) = dp_reference p" using p ref[of p r'] by (simp add: own_rows_def)
    then show ?thesis using p(1) by simp
  qed
  have fresh: "di_reference x \<notin> di_reference ` set (tb_items ?t)"
  proof
    assume "di_reference x \<in> di_reference ` set (tb_items ?t)"
    then consider y where "y \<in> set (bd_items b)" "di_reference y = di_reference x"
      | r where "r \<in> set (recs parse b)" "di_reference (dn_item r) = di_reference x" by (auto simp: whole_def)
    then show False using new refs by cases (force simp: reference_taken_def)+
  qed
  have chk: "item_checks x" using ok st by (simp add: item_ok_def item_checks_def)
  note add = t_add_item[OF wf id fresh chk st(1,3), folded w1]
  have asd: "aside parse ?b1 ?i"
  proof -
    have "di_id (dn_item r) \<noteq> ?i" if "r \<in> set (recs parse b)" for r
    proof -
      have "dn_item r \<in> set (tb_items ?t)" using that by (simp add: whole_def)
      then have "di_id (dn_item r) \<le> bd_item_ids b" using tables_wfD(1)[OF wf] unfolding keys_wf_def by blast
      then show ?thesis using id by simp
    qed
    then show ?thesis using recs_mem[OF arc] unfolding aside_same[OF s1] by (auto simp: aside_def own_rows_def)
  qed
  have w2: "whole parse b2 = (whole parse ?b1)\<lparr>tb_recipients := filter (\<lambda>q. dr_item_id q \<noteq> ?i) (tb_recipients (whole parse ?b1))
      @ recipient_rows ?i (decisionRecipients d ns)\<rparr>" unfolding b2_def by (rule whole_storeRecipients[OF asd])
  have "known_item (whole parse ?b1) ?i" by (simp add: known_item_def whole_def)
  then have fr: "frame ?i (whole parse ?b1) (whole parse b2)" unfolding w2 by (rule frame_recipients[OF _ recipients_ok])
  have wf2: "tables_wf ?i (bd_verdict_ids b) (bd_withdrawal_ids b) (whole parse b2)"
    by (rule frame_wf[OF add(2) fr]) (simp_all add: w2)
  have sh: "shares ?i ?t (whole parse b2)" using shares_trans[OF add(1)] fr by (simp add: frame_def)
  have items: "bd_items b2 = bd_items b @ [x]" by (simp add: b2_def)
  have le: "y \<in> set (bd_items b) \<Longrightarrow> di_id y \<noteq> ?i" for y
    using tables_wfD(1)[OF wf] live_item[of y b parse] id unfolding keys_wf_def by fastforce
  have "board_inv parse b2"
  proof (rule board_inv_change[OF inv _ _ sh])
    show "aside parse b ?i" using asd unfolding aside_same[OF s1] .
    show "?i \<in> di_id ` set (bd_items b2)" "di_id ` set (bd_items b) \<subseteq> di_id ` set (bd_items b2)" by (auto simp: items)
    show "archive_same b b2" by (simp add: b2_def archive_same_def storeRecipients_def)
    show "board_wf parse b2" using wf2 by (simp add: board_wf_def b2_def)
    show "y \<in> set (bd_items b)" if "y \<in> set (bd_items b2)" "di_id y \<noteq> ?i" for y using that by (auto simp: items)
    show "di_mark_revision y = 0" if "y \<in> set (bd_items b2)" "di_id y = ?i" for y using that le st(4) by (auto simp: items)
  qed
  moreover have "cards_of (whole parse b2) = (cards_of ?t)(di_reference x \<mapsto> card_of x)"
  proof (rule cards_of_change[OF wf wf2 sh])
    show "x \<in> set (tb_items (whole parse b2))" by (rule live_item) (simp add: items)
    show "di_reference y = di_reference x" if "y \<in> set (tb_items ?t)" "di_id y = ?i" for y
      using tables_wfD(1)[OF wf] that id unfolding keys_wf_def by fastforce
  qed
  moreover have "card_step (cards_of ?t) ((cards_of ?t)(di_reference x \<mapsto> card_of x))"
    using card_new[of "cards_of ?t" "di_reference x"] fresh st by (simp add: cards_of_None card_of_def)
  ultimately show ?thesis by (simp add: advance_def b2_def r_into_rtranclp)
qed

lemma DecisionCreate_advance:
  assumes inv: "board_inv parse (snd s)"
  shows "advance parse (snd s) (snd (snd (DecisionCreate e caller ref f k dl s)))"
proof (cases "snd (DecisionCreate e caller ref f k dl s) = s")
  case False
  define print where "print = decisionFingerprint e ref f dl"
  have d: "snd (DecisionCreate e caller ref f k dl s)
      = snd (keyed_write e caller (\<lambda>b. decisionRepeat b caller k print) (create_item e caller ref f k print dl) s)"
    using False by (auto simp: DecisionCreate_def print_def Let_def split: sum.splits)
  obtain a s' where s': "create_item e caller ref f k print dl s = Inr (a, s')" "snd (DecisionCreate e caller ref f k dl s) = s'"
    using False unfolding d
    by (cases rule: keyed_write_cases[of e caller "\<lambda>b. decisionRepeat b caller k print" "create_item e caller ref f k print dl" s]) auto
  obtain d b where s: "s = (d, b)" by (cases s)
  define x where "x = new_item e caller ref f (d, b)"
  obtain ns t where ok: "item_ok x (bd_items b)" "\<not> reference_taken b ref"
    and r: "s' = (d, (bump_board (storeRecipients (di_id x) (decisionRecipients d ns) (b\<lparr>bd_items := bd_items b @ [x], bd_item_ids := di_id x\<rparr>)))\<lparr>bd_replays := t\<rparr>)"
    using s'(1) unfolding create_item_def s Let_def x_def[symmetric] store_receipt_def by auto
  have x: "di_reference x = ref" "di_id x = bd_item_ids b + 1" "di_state x = ''active''" "di_revision x = 1" "di_verdict_count x = 0" "di_mark_revision x = 0"
    by (simp_all add: x_def new_item_def)
  have "advance parse b (storeRecipients (di_id x) (decisionRecipients d ns) (b\<lparr>bd_items := bd_items b @ [x], bd_item_ids := di_id x\<rparr>))"
    by (rule create_advance[OF _ ok(1)]) (use inv ok(2) x s in simp_all)
  then show ?thesis using advance_replays[OF advance_bump] s'(2) unfolding s r by simp
qed (use inv in simp)

section \<open>Close and withdrawal\<close>

lemma verdictState_in_progress: "verdictState v = ''in_progress'' \<longleftrightarrow> v = ''approved''"
  by (simp add: verdictState_def)

lemma close_advance:
  assumes inv: "board_inv parse b" and x: "x \<in> set (bd_items b)" and st: "di_state x = ''in_progress''"
  shows "advance parse b (set_item (di_id x) (closed now closer note) b)"
proof (rule item_change[OF inv _ x])
  let ?i = "di_id x" and ?t = "whole parse b" and ?f = "closed now closer note"
  note rs = item_facts(3)[OF inv x] and wf = board_invD(1)[OF inv, unfolded board_wf_def]
  have w: "whole parse (set_item ?i ?f b) = t_item ?i ?f ?t" by (rule whole_set_item[OF aside_live[OF inv x]])
  have fr: "frame ?i ?t (t_item ?i ?f ?t)" by (rule frame_item) simp
  then show "shares ?i ?t (whole parse (set_item ?i ?f b))" "links_wf (whole parse (set_item ?i ?f b))"
    "keys_wf (bd_item_ids (set_item ?i ?f b)) (bd_verdict_ids (set_item ?i ?f b)) (bd_withdrawal_ids (set_item ?i ?f b)) (whole parse (set_item ?i ?f b))"
    using tables_wfD(1,2)[OF wf] by (simp_all add: w frame_def)
  let ?V = "set (its_verdicts ?t ?i)" and ?W = "set (its_withdrawals ?t ?i)"
  have noopen: "\<not> open_in ?W w" for w using reasons_none(1)[OF rs] st by simp
  have appr: "current_in ?V v \<Longrightarrow> vd_verdict v = ''approved''" for v
    using reasons_wfD(5)[OF rs, of v] st verdictState_in_progress[of "vd_verdict v"] by (simp add: standing_def)
  have ex: "\<exists>v. current_in ?V v" using reasons_wfD(9)[OF rs] noopen st by auto
  have f: "di_revision (?f x) = di_revision x" "di_state (?f x) = ''archived''" "di_id (?f x) = ?i" "di_verdict_count (?f x) = di_verdict_count x"
    "di_kind (?f x) = di_kind x" "di_mark_revision (?f x) = di_mark_revision x" by (simp_all add: closed_def)
  have "reasons_wf ?V ?W (?f x)"
    unfolding reasons_wf_def f using reasons_wfD(1,2,3,4)[OF rs] noopen appr ex by (simp add: standing_def)
  moreover have "item_checks (?f x)" using item_facts(1,4)[OF inv x] st by (simp add: item_checks_def f)
  ultimately show "item_wf (whole parse (set_item ?i ?f b)) (?f x)"
    using item_facts(2)[OF inv x] unfolding w item_wf_def f by (simp add: t_item_def)
  show "di_mark_revision (?f x) = 0" using item_facts(4)[OF inv x] st by (simp add: f)
  show "card_step m (m(di_reference x \<mapsto> card_of (?f x)))" if "m (di_reference x) = Some (card_of x)" for m
    using card_closed[of m "di_reference x" "di_revision x"] that st by (simp add: card_of_def f)
qed simp_all

lemma t_add_withdrawal:
  assumes "keys_wf ni nv nw t" "links_wf t" "known_item t (dw_item_id w)" "dw_id w = nw + 1"
  defines "t' \<equiv> t\<lparr>tb_withdrawals := tb_withdrawals t @ [w]\<rparr>"
  shows "shares (dw_item_id w) t t'" "keys_wf ni nv (dw_id w) t'" "links_wf t'"
proof -
  show "shares (dw_item_id w) t t'" by (auto simp: shares_def share_def t'_def) (simp add: its_withdrawals_def)
  have le: "\<And>u. u \<in> set (tb_withdrawals t) \<Longrightarrow> dw_id u \<le> nw" using assms(1) by (simp add: keys_wf_def)
  then have "dw_id w \<notin> dw_id ` set (tb_withdrawals t)" using assms(4) by fastforce
  then show "keys_wf ni nv (dw_id w) t'" using assms(1,4) le by (force simp: keys_wf_def t'_def)
  show "links_wf t'" using assms(2,3) by (auto simp: links_wf_def t'_def known_item_def known_verdict_def)
qed

lemma withdraw_advance:
  fixes w
  assumes inv: "board_inv parse b" and x: "x \<in> set (bd_items b)" and st: "di_state x = ''active'' \<or> di_state x = ''returned''" and now: "now \<noteq> 0"
    and w: "dw_id w = bd_withdrawal_ids b + 1" "dw_item_id w = di_id x" "dw_revision w = di_revision x" "dw_reopened_at w = 0"
  defines "b1 \<equiv> set_item (di_id x) (withdrawn now) (supersede (di_id x) now b)"
  shows "advance parse b (b1\<lparr>bd_withdrawals := bd_withdrawals b1 @ [w], bd_withdrawal_ids := dw_id w\<rparr>)"
proof (rule item_change[OF inv _ x, where f = "withdrawn now"])
  let ?i = "di_id x" and ?t = "whole parse b" and ?f = "withdrawn now" and ?b2 = "b1\<lparr>bd_withdrawals := bd_withdrawals b1 @ [w], bd_withdrawal_ids := dw_id w\<rparr>"
  note rs = item_facts(3)[OF inv x] and wf = board_invD(1)[OF inv, unfolded board_wf_def] and asd = aside_live[OF inv x]
  let ?t1 = "t_verdicts (\<lambda>v. vd_item_id v = ?i \<and> vd_superseded_at v = 0) (\<lambda>v. v\<lparr>vd_superseded_at := now\<rparr>) ?t"
  show same: "archive_same b ?b2" by (simp add: b1_def archive_same_def set_item_def supersede_def)
  have w1: "whole parse b1 = t_item ?i ?f ?t1" unfolding b1_def using asd by (simp add: whole_set_item whole_supersede)
  have fr: "frame ?i ?t (whole parse b1)"
    unfolding w1 by (rule frame_trans[OF frame_verdicts frame_item]) simp_all
  have w2: "whole parse ?b2 = (whole parse b1)\<lparr>tb_withdrawals := tb_withdrawals (whole parse b1) @ [w]\<rparr>"
    using archive_sameD(1)[of b1 ?b2 parse] by (simp add: whole_def archive_same_def)
  have fx: "?f x \<in> set (bd_items b1)" using x by (auto simp: b1_def set_update_where)
  have "known_item (whole parse b1) (dw_item_id w)" using known_live[OF fx, of parse] w(2) by (simp add: withdrawn_def)
  moreover have "keys_wf (bd_item_ids b) (bd_verdict_ids b) (bd_withdrawal_ids b) (whole parse b1)" "links_wf (whole parse b1)" "shares ?i ?t (whole parse b1)"
    using fr tables_wfD(1,2)[OF wf] by (simp_all add: frame_def)
  ultimately show "shares ?i ?t (whole parse ?b2)" "links_wf (whole parse ?b2)"
    "keys_wf (bd_item_ids ?b2) (bd_verdict_ids ?b2) (bd_withdrawal_ids ?b2) (whole parse ?b2)"
    using t_add_withdrawal[of "bd_item_ids b" "bd_verdict_ids b" "bd_withdrawal_ids b" "whole parse b1" w] w shares_trans
    unfolding w2 by (simp_all add: b1_def)
  let ?W = "set (its_withdrawals ?t ?i)"
  have V: "its_verdicts (whole parse ?b2) ?i = its_verdicts ?t1 ?i" by (simp add: w2 w1 t_item_def)
  have V1: "v \<in> set (its_verdicts ?t1 ?i) \<Longrightarrow> vd_superseded_at v \<noteq> 0 \<and> vd_revision v \<le> di_revision x" for v
    by (subst (asm) its_verdicts_update) (use now reasons_wfD(1)[OF rs] in \<open>auto simp: set_update_where its_verdicts_def\<close>)
  have W: "set (its_withdrawals (whole parse ?b2) ?i) = insert w ?W"
    by (simp add: w2 w1 t_item_def t_verdicts_def its_withdrawals_def w(2))
  have noopen: "u \<in> ?W \<Longrightarrow> dw_reopened_at u \<noteq> 0" for u using reasons_none(1)[OF rs, of u] st by (auto simp: open_in_def)
  have le: "u \<in> ?W \<Longrightarrow> dw_id u \<le> dw_id w" for u using tables_wfD(1)[OF wf] w(1) by (fastforce simp: keys_wf_def its_withdrawals_def)
  have f: "di_revision (?f x) = di_revision x" "di_state (?f x) = ''archived''" "di_id (?f x) = ?i" "di_verdict_count (?f x) = di_verdict_count x"
    "di_kind (?f x) = di_kind x" "di_mark_revision (?f x) = di_mark_revision x" by (simp_all add: withdrawn_def)
  have "open_in (insert w ?W) u \<longleftrightarrow> u = w" for u using noopen w(4) by (auto simp: open_in_def)
  then have "reasons_wf (set (its_verdicts ?t1 ?i)) (insert w ?W) (?f x)"
    unfolding reasons_wf_def f using V1 reasons_wfD(2)[OF rs] w le by (simp add: current_in_def) blast
  moreover have m: "di_mark_revision x = 0" using item_facts(4)[OF inv x] st by auto
  then have "item_checks (?f x)" using item_facts(1)[OF inv x] by (simp add: item_checks_def f)
  moreover have "length (its_verdicts ?t1 ?i) = length (its_verdicts ?t ?i)" by (subst its_verdicts_update) simp_all
  ultimately show "item_wf (whole parse ?b2) (?f x)"
    using item_facts(2)[OF inv x] unfolding item_wf_def f V W by simp
  show "di_mark_revision (?f x) = 0" using m by (simp add: f)
  show "card_step m (m(di_reference x \<mapsto> card_of (?f x)))" if "m (di_reference x) = Some (card_of x)" for m
    using card_withdrawn[of m "di_reference x" "di_revision x"] card_decided[of m "di_reference x" "di_revision x" "''archived''"] that st
    by (auto simp: card_of_def f)
qed (simp_all add: b1_def)

lemma keyed_item_advance:
  assumes "snd r = snd (keyed_write e caller rep body s)" and inv: "board_inv parse (snd s)"
    and "\<And>a s'. body s = Inr (a, s') \<Longrightarrow> advance parse (snd s) (snd s')"
  shows "advance parse (snd s) (snd (snd r))"
  using assms by (cases rule: keyed_write_cases[of e caller rep body s]) auto

lemma DecisionClose_advance:
  assumes inv: "board_inv parse (snd s)"
  shows "advance parse (snd s) (snd (snd (DecisionClose e caller ref n note k dl s)))"
proof (cases "snd (DecisionClose e caller ref n note k dl s) = s")
  case False
  define print where "print = decisionFingerprint e (close_key ref) (no_fields\<lparr>fd_order := Some n, fd_context := Some note\<rparr>) dl"
  have d: "snd (DecisionClose e caller ref n note k dl s) = snd (keyed_write e caller (\<lambda>b. closeRepeat b caller (close_key k) print)
                   (close_item e caller ref n note (close_key k) print dl) s)"
    using False by (auto simp: DecisionClose_def print_def Let_def split: sum.splits)
  obtain d0 b where s: "s = (d0, b)" by (cases s)
  show ?thesis
  proof (rule keyed_item_advance[OF d inv])
    fix a s' assume "close_item e caller ref n note (close_key k) print dl s = Inr (a, s')"
    then obtain x p where x: "decisionRow b ref = Inr x" "di_state x = ''in_progress''"
      and r: "item_receipt e caller ref (close_key k) print dl (d0, bump_board (set_item (di_id x) (closed (bv_now e) p note) b)) = Inr (a, s')"
      unfolding close_item_def s by auto
    have "advance parse b (set_item (di_id x) (closed (bv_now e) p note) b)"
      by (rule close_advance[OF _ decisionRow_Inr(1)[OF x(1)] x(2)]) (use inv s in simp)
    then show "advance parse (snd s) (snd s')" using item_receipt_snd[OF r] advance_replays[OF advance_bump] s by auto
  qed
qed (use inv in simp)

lemma DecisionWithdraw_advance:
  assumes inv: "board_inv parse (snd s)" and now: "bv_now e \<noteq> 0"
  shows "advance parse (snd s) (snd (snd (DecisionWithdraw e caller ref n reason k dl s)))"
proof (cases "snd (DecisionWithdraw e caller ref n reason k dl s) = s")
  case False
  define print where "print = decisionFingerprint e (withdraw_key ref) (no_fields\<lparr>fd_order := Some n, fd_context := Some reason\<rparr>) dl"
  have d: "snd (DecisionWithdraw e caller ref n reason k dl s) = snd (keyed_write e caller (\<lambda>b. closeRepeat b caller (withdraw_key k) print)
                   (withdraw_item e caller ref n reason (withdraw_key k) print dl) s)"
    using False by (auto simp: DecisionWithdraw_def print_def Let_def split: sum.splits)
  obtain d0 b where s: "s = (d0, b)" by (cases s)
  show ?thesis
  proof (rule keyed_item_advance[OF d inv])
    fix a s' assume "withdraw_item e caller ref n reason (withdraw_key k) print dl s = Inr (a, s')"
    then obtain x p b1 w where x: "decisionRow b ref = Inr x" "di_state x = ''active'' \<or> di_state x = ''returned''"
      and b1: "b1 = set_item (di_id x) (withdrawn (bv_now e)) (supersede (di_id x) (bv_now e) b)" and w: "w = withdrawal_of e caller p reason x b1"
      and r: "item_receipt e caller ref (withdraw_key k) print dl (d0, bump_board (b1\<lparr>bd_withdrawals := bd_withdrawals b1 @ [w], bd_withdrawal_ids := dw_id w\<rparr>)) = Inr (a, s')"
      unfolding withdraw_item_def s Let_def by auto
    have "advance parse b (b1\<lparr>bd_withdrawals := bd_withdrawals b1 @ [w], bd_withdrawal_ids := dw_id w\<rparr>)"
      unfolding b1 by (rule withdraw_advance[OF _ decisionRow_Inr(1)[OF x(1)] x(2) now]) (use inv s in \<open>simp_all add: w withdrawal_of_def b1\<close>)
    then show "advance parse (snd s) (snd s')" using item_receipt_snd[OF r] advance_replays[OF advance_bump] s by auto
  qed
qed (use inv in simp)

section \<open>Verdicts\<close>

lemma deliver_rows:
  assumes "deliver_verdicts now v n ns body (d, b) = Inr (rs, (d', b'))"
  shows "\<exists>ds. b' = b\<lparr>bd_deliveries := bd_deliveries b @ ds\<rparr> \<and> map dd_ordinal ds = map int [n..<n + length ns]
    \<and> map dd_name ds = ns \<and> (\<forall>q\<in>set ds. dd_verdict_id q = v \<and> dd_outcome q \<in> {''queued'', ''skipped''})"
  using assms
proof (induction ns arbitrary: n d b rs)
  case Nil
  then show ?case by (auto intro: exI[of _ "[]"])
next
  case (Cons name ns)
  obtain reason kind i d1 where s: "send_verdict now body v name d = Inr (reason, kind, i, d1)"
    using Cons.prems by (auto simp: deliverVerdict_def)
  define q where "q = delivery_of v n name reason kind i"
  let ?b1 = "b\<lparr>bd_deliveries := bd_deliveries b @ [q]\<rparr>"
  obtain rs' where "deliver_verdicts now v (n + 1) ns body (d1, ?b1) = Inr (rs', (d', b'))"
    using Cons.prems s by (auto simp: deliverVerdict_def Let_def q_def)
  from Cons.IH[OF this] obtain ds where ds: "b' = ?b1\<lparr>bd_deliveries := bd_deliveries ?b1 @ ds\<rparr>"
    "map dd_ordinal ds = map int [n + 1..<n + 1 + length ns]" "map dd_name ds = ns"
    "\<forall>q\<in>set ds. dd_verdict_id q = v \<and> dd_outcome q \<in> {''queued'', ''skipped''}" by blast
  have q: "dd_ordinal q = int n" "dd_name q = name" "dd_verdict_id q = v" "dd_outcome q \<in> {''queued'', ''skipped''}"
    by (simp_all add: q_def delivery_of_def)
  have "[n..<n + length (name # ns)] = n # [n + 1..<n + 1 + length ns]" by (simp add: upt_rec)
  then have "map dd_ordinal (q # ds) = map int [n..<n + length (name # ns)]" using ds(2) q(1) by simp
  moreover have "b' = b\<lparr>bd_deliveries := bd_deliveries b @ (q # ds)\<rparr>" using ds(1) by simp
  ultimately show ?case using ds(3,4) q by (intro exI[of _ "q # ds"]) simp
qed

lemma t_add_verdict:
  assumes k: "keys_wf ni nv nw t" and lk: "links_wf t" and known: "known_item t (vd_item_id v)" and v: "vd_id v = nv + 1"
      "vd_verdict v \<in> {''approved'', ''declined'', ''feedback'', ''completed'', ''acknowledged'', ''dismissed''}"
    and ds: "distinct (map dd_ordinal ds)" "\<forall>q\<in>set ds. dd_verdict_id q = vd_id v \<and> dd_outcome q \<in> {''queued'', ''skipped''}"
  defines "t' \<equiv> t\<lparr>tb_verdicts := tb_verdicts t @ [v], tb_deliveries := tb_deliveries t @ ds\<rparr>"
  shows "shares (vd_item_id v) t t'" "keys_wf ni (vd_id v) nw t'" "links_wf t'"
proof -
  have le: "\<And>u. u \<in> set (tb_verdicts t) \<Longrightarrow> vd_id u \<le> nv" using k by (simp add: keys_wf_def)
  then have new: "vd_id v \<notin> vd_id ` set (tb_verdicts t)" using v(1) by fastforce
  have old: "q \<in> set (tb_deliveries t) \<Longrightarrow> dd_verdict_id q \<noteq> vd_id v" for q
    using lk new unfolding links_wf_def known_verdict_def by metis
  have dl: "its_deliveries t' j = its_deliveries t j" if "j \<noteq> vd_item_id v" for j
  proof -
    have "filter (\<lambda>q. \<exists>u\<in>set (tb_verdicts t'). vd_id u = dd_verdict_id q \<and> vd_item_id u = j) ds = []"
      using ds(2) new that by (auto simp: filter_empty_conv t'_def image_iff)
    moreover have "filter (\<lambda>q. \<exists>u\<in>set (tb_verdicts t'). vd_id u = dd_verdict_id q \<and> vd_item_id u = j) (tb_deliveries t) = its_deliveries t j"
      unfolding its_deliveries_def by (rule filter_cong[OF refl]) (use old that in \<open>auto simp: t'_def\<close>)
    ultimately show ?thesis by (simp add: its_deliveries_def) (simp add: t'_def)
  qed
  then show "shares (vd_item_id v) t t'"
    by (auto simp: shares_def share_def) (simp_all add: t'_def its_verdicts_def its_item_def its_recipients_def its_withdrawals_def)
  have "distinct (map (\<lambda>q. (dd_verdict_id q, dd_ordinal q)) ds)" using ds by (auto simp: distinct_map inj_on_def)
  then have "distinct (map (\<lambda>q. (dd_verdict_id q, dd_ordinal q)) (tb_deliveries t @ ds))"
    using k ds(2) old by (fastforce simp: keys_wf_def)
  then show "keys_wf ni (vd_id v) nw t'" using k new le v(1) by (force simp: keys_wf_def t'_def)
  show "links_wf t'" using lk known v(2) ds(2) by (auto simp: links_wf_def t'_def known_item_def known_verdict_def)
qed

lemma verdict_advance:
  fixes v now
  assumes inv: "board_inv parse b" and x: "x \<in> set (bd_items b)" and st: "di_state x = ''active''" and ok: "verdict_ok row (bd_verdicts b)"
    and row: "vd_id row = bd_verdict_ids b + 1" "vd_item_id row = di_id x" "vd_revision row = di_revision x" "vd_superseded_at row = 0" "vd_verdict row = v"
    and ds: "distinct (map dd_ordinal ds)" "\<forall>q\<in>set ds. dd_verdict_id q = vd_id row \<and> dd_outcome q \<in> {''queued'', ''skipped''}"
  defines "b1 \<equiv> set_item (di_id x) (decided now v) (b\<lparr>bd_verdicts := bd_verdicts b @ [row], bd_verdict_ids := vd_id row\<rparr>)"
  shows "advance parse b (b1\<lparr>bd_deliveries := bd_deliveries b1 @ ds\<rparr>)"
proof (rule item_change[OF inv _ x, where f = "decided now v"])
  let ?i = "di_id x" and ?t = "whole parse b" and ?f = "decided now v" and ?b2 = "b1\<lparr>bd_deliveries := bd_deliveries b1 @ ds\<rparr>"
  let ?ti = "t_item ?i ?f ?t"
  note rs = item_facts(3)[OF inv x] and wf = board_invD(1)[OF inv, unfolded board_wf_def] and asd = aside_live[OF inv x]
  show same: "archive_same b ?b2" by (simp add: b1_def archive_same_def set_item_def)
  have w0: "whole parse (set_item ?i ?f b) = ?ti" by (rule whole_set_item[OF asd])
  have "recs parse ?b2 = recs parse (set_item ?i ?f b)" using archive_sameD(1)[OF same, of parse] by simp
  then have w: "whole parse ?b2 = ?ti\<lparr>tb_verdicts := tb_verdicts ?ti @ [row], tb_deliveries := tb_deliveries ?ti @ ds\<rparr>"
    unfolding w0[symmetric] by (simp add: whole_def) (simp add: b1_def set_item_def)
  have fr: "frame ?i ?t ?ti" by (rule frame_item) simp
  have fx: "?f x \<in> set (bd_items (set_item ?i ?f b))" using x by (auto simp: set_update_where)
  have "known_item ?ti (vd_item_id row)" using known_live[OF fx, of parse] row(2) by (simp add: w0 decided_def)
  moreover have "keys_wf (bd_item_ids b) (bd_verdict_ids b) (bd_withdrawal_ids b) ?ti" "links_wf ?ti" "shares ?i ?t ?ti"
    using fr tables_wfD(1,2)[OF wf] by (simp_all add: frame_def)
  moreover have "vd_verdict row \<in> {''approved'', ''declined'', ''feedback'', ''completed'', ''acknowledged'', ''dismissed''}"
    using ok by (simp add: verdict_ok_def)
  ultimately show "shares ?i ?t (whole parse ?b2)" "links_wf (whole parse ?b2)"
    "keys_wf (bd_item_ids ?b2) (bd_verdict_ids ?b2) (bd_withdrawal_ids ?b2) (whole parse ?b2)"
    using t_add_verdict[of "bd_item_ids b" "bd_verdict_ids b" "bd_withdrawal_ids b" ?ti row ds] row(1,2) ds shares_trans
    unfolding w by (simp_all add: b1_def)
  let ?V = "set (its_verdicts ?t ?i)" and ?W = "set (its_withdrawals ?t ?i)"
  have V: "its_verdicts (whole parse ?b2) ?i = its_verdicts ?t ?i @ [row]" by (simp add: w t_item_def its_verdicts_def row(2))
  have W: "its_withdrawals (whole parse ?b2) ?i = its_withdrawals ?t ?i" by (simp add: w t_item_def its_withdrawals_def)
  have old: "u \<in> ?V \<Longrightarrow> vd_superseded_at u \<noteq> 0" for u using reasons_none(2)[OF rs st, of u] by (simp add: current_in_def)
  have le: "u \<in> ?V \<Longrightarrow> vd_id u \<le> vd_id row" for u using tables_wfD(1)[OF wf] row(1) by (fastforce simp: keys_wf_def its_verdicts_def)
  have noopen: "\<not> open_in ?W u" for u using reasons_none(1)[OF rs, of u] st by simp
  have f: "di_revision (?f x) = di_revision x" "di_state (?f x) = verdictState v" "di_id (?f x) = ?i" "di_verdict_count (?f x) = di_verdict_count x + 1"
    "di_kind (?f x) = di_kind x" "di_mark_revision (?f x) = 0" by (simp_all add: decided_def)
  have cur: "current_in (set (its_verdicts ?t ?i @ [row])) u \<longleftrightarrow> u = row" for u using old row(4) by (auto simp: current_in_def)
  have "reasons_wf (set (its_verdicts ?t ?i @ [row])) ?W (?f x)"
    unfolding reasons_wf_def f cur using reasons_wfD(1,2)[OF rs] row le noopen by (simp add: standing_def)
  moreover have "item_checks (?f x)" using item_facts(1)[OF inv x] by (simp add: item_checks_def f verdictState_def)
  ultimately show "item_wf (whole parse ?b2) (?f x)"
    using item_facts(2)[OF inv x] unfolding item_wf_def f V W by simp
  show "di_mark_revision (?f x) = 0" by (simp add: f)
  show "card_step m (m(di_reference x \<mapsto> card_of (?f x)))" if "m (di_reference x) = Some (card_of x)" for m
    using card_decided[of m "di_reference x" "di_revision x" "verdictState v"] that st by (simp add: card_of_def f verdictState_def)
qed (simp_all add: b1_def)

text \<open>The rows that one verdict writes.\<close>

lemma give_verdict_Inr:
  assumes "give_verdict e ref n v note (d, b) = Inr (a, (d', b'))"
  obtains x row b1 ds body rs where "decisionRow b ref = Inr x" "di_revision x = n" "di_state x = ''active''" "v \<in> set (kindVerdicts (di_kind x))"
    "row = new_verdict e x v note b" "verdict_ok row (bd_verdicts b)"
    "b1 = set_item (di_id x) (decided (bv_now e) v) (b\<lparr>bd_verdicts := bd_verdicts b @ [row], bd_verdict_ids := vd_id row\<rparr>)"
    "deliver_verdicts (bv_now e) (vd_id row) 0 (withAuthor d (bv_now e) x (recipientNames b (di_id x))) body (d, bump_board b1) = Inr (rs, (d', b'))"
    "b' = (bump_board b1)\<lparr>bd_deliveries := bd_deliveries b1 @ ds\<rparr>" "distinct (map dd_ordinal ds)"
    "map dd_name ds = withAuthor d (bv_now e) x (recipientNames b (di_id x))"
    "\<forall>q\<in>set ds. dd_verdict_id q = vd_id row \<and> dd_outcome q \<in> {''queued'', ''skipped''}" "a = (verdict_view row)\<lparr>dv_deliveries := rs\<rparr>"
proof -
  obtain x where x: "decisionRow b ref = Inr x" "di_revision x = n" "di_state x = ''active''" "v \<in> set (kindVerdicts (di_kind x))"
    using assms unfolding give_verdict_def by auto
  define row b1 where "row = new_verdict e x v note b"
    and "b1 = set_item (di_id x) (decided (bv_now e) v) (b\<lparr>bd_verdicts := bd_verdicts b @ [row], bd_verdict_ids := vd_id row\<rparr>)"
  have names: "recipientNames (bump_board b1) (di_id x) = recipientNames b (di_id x)"
    by (simp add: recipientNames_def b1_def bump_board_def set_item_def)
  obtain body rs where r: "verdict_ok row (bd_verdicts b)" "a = (verdict_view row)\<lparr>dv_deliveries := rs\<rparr>"
    "deliver_verdicts (bv_now e) (vd_id row) 0 (withAuthor d (bv_now e) x (recipientNames b (di_id x))) body (d, bump_board b1) = Inr (rs, (d', b'))"
    using assms x unfolding give_verdict_def Let_def by (auto simp: row_def b1_def names[unfolded b1_def row_def])
  from deliver_rows[OF r(3)] obtain ds where ds: "b' = (bump_board b1)\<lparr>bd_deliveries := bd_deliveries (bump_board b1) @ ds\<rparr>"
    "map dd_ordinal ds = map int [0..<length (withAuthor d (bv_now e) x (recipientNames b (di_id x)))]"
    "map dd_name ds = withAuthor d (bv_now e) x (recipientNames b (di_id x))"
    "\<forall>q\<in>set ds. dd_verdict_id q = vd_id row \<and> dd_outcome q \<in> {''queued'', ''skipped''}" by auto
  have "distinct (map dd_ordinal ds)" unfolding ds(2) by (simp add: distinct_map inj_on_def)
  moreover have "b' = (bump_board b1)\<lparr>bd_deliveries := bd_deliveries b1 @ ds\<rparr>" using ds(1) by (simp add: bump_board_def)
  ultimately show thesis using that[OF x row_def r(1) b1_def r(3) _ _ ds(3,4) r(2)] by blast
qed

lemma giveVerdict_advance:
  assumes inv: "board_inv parse (snd s)"
  shows "advance parse (snd s) (snd (snd (giveVerdict e ref n v note s)))"
proof (cases "snd (giveVerdict e ref n v note s) = s")
  case False
  have d: "snd (giveVerdict e ref n v note s) = snd (board_tx e ordinary (give_verdict e ref n v note) s)"
    using False by (auto simp: giveVerdict_def split: sum.splits)
  obtain a s' where s': "give_verdict e ref n v note s = Inr (a, s')" "snd (giveVerdict e ref n v note s) = s'"
    using False unfolding d by (cases rule: board_tx_cases[of e ordinary "give_verdict e ref n v note" s]) auto
  obtain d0 b d' b' where s: "s = (d0, b)" "s' = (d', b')" by (cases s, cases s') 
  show ?thesis
  proof (rule give_verdict_Inr[OF s'(1)[unfolded s]])
    fix x row b1 ds rs body
    assume x: "decisionRow b ref = Inr x" "di_revision x = n" "di_state x = ''active''"
      and row: "row = new_verdict e x v note b" "verdict_ok row (bd_verdicts b)"
      and b1: "b1 = set_item (di_id x) (decided (bv_now e) v) (b\<lparr>bd_verdicts := bd_verdicts b @ [row], bd_verdict_ids := vd_id row\<rparr>)"
      and b': "b' = (bump_board b1)\<lparr>bd_deliveries := bd_deliveries b1 @ ds\<rparr>" and ds: "distinct (map dd_ordinal ds)"
        "\<forall>q\<in>set ds. dd_verdict_id q = vd_id row \<and> dd_outcome q \<in> {''queued'', ''skipped''}"
    have "advance parse b (b1\<lparr>bd_deliveries := bd_deliveries b1 @ ds\<rparr>)"
      unfolding b1 by (rule verdict_advance[OF _ decisionRow_Inr(1)[OF x(1)] x(3) row(2) _ _ _ _ _ ds])
        (use inv s in \<open>simp_all add: row(1) new_verdict_def\<close>)
    moreover have "b' = bump_board (b1\<lparr>bd_deliveries := bd_deliveries b1 @ ds\<rparr>)" by (simp add: b' bump_board_def)
    ultimately show ?thesis using advance_bump s'(2) by (simp add: s)
  qed
qed (use inv in simp)

section \<open>Acknowledgement and retry records\<close>

definition acked :: "int \<Rightarrow> deliveryRow \<Rightarrow> deliveryRow" where
  "acked now q = q\<lparr>dd_outcome := ''acknowledged'', dd_acknowledged_at := now\<rparr>"

lemma acked_sel [simp]: "dd_verdict_id (acked now q) = dd_verdict_id q" "dd_ordinal (acked now q) = dd_ordinal q" "dd_outcome (acked now q) = ''acknowledged''"
  by (simp_all add: acked_def)

lemma ack_one_advance:
  assumes inv: "board_inv parse b"
  shows "advance parse b (b\<lparr>bd_deliveries := update_where (ack_due v ns) (acked now) (bd_deliveries b)\<rparr>)"
proof -
  let ?b' = "b\<lparr>bd_deliveries := update_where (ack_due v ns) (acked now) (bd_deliveries b)\<rparr>" and ?t = "whole parse b"
  let ?ds = "concat (map dn_deliveries (recs parse b))"
  note wf = board_invD(1)[OF inv, unfolded board_wf_def]
  have same: "archive_same b ?b'" by (simp add: archive_same_def)
  have w: "whole parse ?b' = ?t\<lparr>tb_deliveries := ?ds @ update_where (ack_due v ns) (acked now) (bd_deliveries b)\<rparr>"
    using archive_sameD(1)[OF same, of parse] by (simp add: whole_def)
  have m: "map (\<lambda>q. (dd_verdict_id q, dd_ordinal q)) (?ds @ update_where (ack_due v ns) (acked now) (bd_deliveries b))
      = map (\<lambda>q. (dd_verdict_id q, dd_ordinal q)) (tb_deliveries ?t)"
    using map_update_where[of "\<lambda>q. (dd_verdict_id q, dd_ordinal q)" "acked now"] by (simp add: whole_def)
  have old: "known_verdict ?t (dd_verdict_id q) \<and> dd_outcome q \<in> {''queued'', ''skipped'', ''acknowledged''}" if "q \<in> set ?ds \<union> set (bd_deliveries b)" for q
  proof -
    have "q \<in> set (tb_deliveries ?t)" using that by (simp add: whole_def)
    then show ?thesis using tables_wfD(2)[OF wf] unfolding links_wf_def by blast
  qed
  have "tables_wf (bd_item_ids b) (bd_verdict_ids b) (bd_withdrawal_ids b) (whole parse ?b')"
    unfolding w
  proof (rule t_set_deliveries[OF wf])
    show "distinct (map (\<lambda>q. (dd_verdict_id q, dd_ordinal q)) (?ds @ update_where (ack_due v ns) (acked now) (bd_deliveries b)))"
      unfolding m using tables_wfD(1)[OF wf] by (simp add: keys_wf_def)
    show "\<forall>q\<in>set (?ds @ update_where (ack_due v ns) (acked now) (bd_deliveries b)). known_verdict ?t (dd_verdict_id q) \<and> dd_outcome q \<in> {''queued'', ''skipped'', ''acknowledged''}"
    proof
      fix q assume "q \<in> set (?ds @ update_where (ack_due v ns) (acked now) (bd_deliveries b))"
      then consider "q \<in> set ?ds \<union> set (bd_deliveries b)" | p where "p \<in> set (bd_deliveries b)" "q = acked now p"
        by (fastforce simp: set_update_where split: if_split_asm)
      then show "known_verdict ?t (dd_verdict_id q) \<and> dd_outcome q \<in> {''queued'', ''skipped'', ''acknowledged''}"
        using old by cases auto
    qed
  qed
  then have wf': "board_wf parse ?b'" by (simp add: board_wf_def)
  have its: "its_deliveries (whole parse ?b') j = its_deliveries ?t j" if "settled ?t j" for j
  proof -
    let ?Q = "\<lambda>q. \<exists>u\<in>set (tb_verdicts ?t). vd_id u = dd_verdict_id q \<and> vd_item_id u = j"
    have "\<not> ack_due v ns q" if "q \<in> set (bd_deliveries b)" "?Q q" for q
      using that \<open>settled ?t j\<close> by (auto simp: settled_def its_deliveries_def whole_def ack_due_def)
    then have "filter ?Q (update_where (ack_due v ns) (acked now) (bd_deliveries b)) = filter ?Q (bd_deliveries b)"
      by (induction "bd_deliveries b") (auto simp: update_where_def filter_map comp_def intro!: map_idI filter_cong)
    then show ?thesis by (simp add: its_deliveries_def w) (simp add: whole_def)
  qed
  have "mark_ok parse ?b' x" if x: "x \<in> set (bd_items ?b')" "di_mark_revision x \<noteq> 0" for x
  proof -
    have ok: "mark_ok parse b x" using board_invD(3)[OF inv] x by simp
    then have sh: "share (di_id x) ?t (whole parse ?b')" using its by (simp add: mark_ok_def share_def) (simp add: w)
    have "stands ?t r \<Longrightarrow> dn_id r = di_id x \<Longrightarrow> stands (whole parse ?b') r" for r using stands_share sh by simp
    then show ?thesis using ok settled_share[OF _ sh] unfolding mark_ok_def archive_sameD(2)[OF same] by blast
  qed
  moreover have "rows_home ?b'" using board_invD(4)[OF inv] by (simp add: rows_home_def ball_update_where)
  ultimately have "board_inv parse ?b'" using wf' board_invD(2)[OF inv] archive_sameD(3)[OF same] by (simp add: board_inv_def)
  moreover have "cards_of (whole parse ?b') = cards_of ?t" by (simp add: w cards_of_def fun_eq_iff)
  ultimately show ?thesis by (simp add: advance_def)
qed

lemma ack_advance: "board_inv parse b \<Longrightarrow> advance parse b (snd (ack_verdicts now ns vs b))"
proof (induction vs arbitrary: b)
  case (Cons v vs)
  let ?b1 = "b\<lparr>bd_deliveries := update_where (ack_due v ns) (acked now) (bd_deliveries b)\<rparr>"
  note a = ack_one_advance[OF Cons.prems, of v ns now]
  have "snd (ack_verdicts now ns (v # vs) b) = snd (ack_verdicts now ns vs ?b1)"
    by (simp add: Let_def acked_def[abs_def] split: prod.split)
  then show ?case using advance_trans[OF a Cons.IH[OF advanceD[OF a]]] by simp
qed simp

lemma board_tx_advance:
  assumes inv: "board_inv parse (snd s)" and "\<And>a s'. body s = Inr (a, s') \<Longrightarrow> advance parse (snd s) (snd s')"
  shows "advance parse (snd s) (snd (snd (board_tx e c body s)))"
  using assms by (cases rule: board_tx_cases[of e c body s]) auto

lemma DecisionAck_advance:
  assumes inv: "board_inv parse (snd s)"
  shows "advance parse (snd s) (snd (snd (DecisionAck e caller vs s)))"
proof (cases "snd (DecisionAck e caller vs s) = s")
  case False
  let ?body = "\<lambda>(d, b). rbind (activeCaller d (bv_now e) caller False) (\<lambda>_.
          case ack_verdicts (bv_now e) (callerNames d (bv_now e) caller) vs b of (ids, b1) \<Rightarrow> Inr (ids, (d, b1)))"
  have t: "snd (DecisionAck e caller vs s) = snd (board_tx e ordinary ?body s)"
    using False by (auto simp: DecisionAck_def split: sum.splits)
  show ?thesis unfolding t
  proof (rule board_tx_advance[OF inv])
    fix a s' assume "?body s = Inr (a, s')"
    then have "snd s' = snd (ack_verdicts (bv_now e) (callerNames (fst s) (bv_now e) caller) vs (snd s))"
      by (cases s) (auto split: prod.splits)
    then show "advance parse (snd s) (snd s')" using ack_advance[OF inv] by simp
  qed
qed (use inv in simp)

lemma cullDecisionReplays_advance:
  assumes inv: "board_inv parse (snd s)"
  shows "advance parse (snd s) (snd (snd (cullDecisionReplays e s)))"
  unfolding cullDecisionReplays_def
  by (rule board_tx_advance[OF inv]) (use advance_replays[OF advance_refl[OF inv]] in \<open>cases s, auto simp: Let_def\<close>)

end
