(* ===== verification/Board_Archive.thy ===== *)
theory Board_Archive
  imports Board_Ops
begin

text \<open>
  The deep archive keeps every row. A sweep may stop at any refused or failed step; whatever it leaves,
  the whole board (the database rows and the rows of the archived lines) has the same rows as before,
  up to the marks of the items. \<open>DecisionRestore\<close> brings an archived record back into the database.
\<close>

section \<open>The same rows\<close>

definition unmarked :: "itemRow \<Rightarrow> itemRow" where
  "unmarked x = x\<lparr>di_mark_revision := 0, di_mark_file := [], di_mark_offset := 0\<rparr>"

definition unmark :: "tables \<Rightarrow> tables" where
  "unmark t = t\<lparr>tb_items := map unmarked (tb_items t)\<rparr>"

definition swept :: "decoder \<Rightarrow> board \<Rightarrow> board \<Rightarrow> bool" where
  "swept parse b b' \<longleftrightarrow> board_inv parse b' \<and> permuted (unmark (whole parse b)) (unmark (whole parse b'))"

lemma permuted_refl [simp]: "permuted t t"
  by (simp add: permuted_def)

lemma permuted_trans: "permuted t t1 \<Longrightarrow> permuted t1 t2 \<Longrightarrow> permuted t t2"
  by (simp add: permuted_def)

lemma permuted_unmark: "permuted t t' \<Longrightarrow> permuted (unmark t) (unmark t')"
  by (simp add: permuted_def unmark_def)

lemma swept_refl [simp]: "board_inv parse b \<Longrightarrow> swept parse b b"
  by (simp add: swept_def)

lemma swept_trans: "swept parse b b1 \<Longrightarrow> swept parse b1 b2 \<Longrightarrow> swept parse b b2"
  unfolding swept_def using permuted_trans by blast

lemma swept_same: "board_inv parse b' \<Longrightarrow> whole parse b' = whole parse b \<Longrightarrow> swept parse b b'"
  by (simp add: swept_def)

lemma unmarked_sel [simp]: "di_id (unmarked x) = di_id x" "di_reference (unmarked x) = di_reference x" "card_of (unmarked x) = card_of x"
  by (simp_all add: unmarked_def card_of_def)

lemma find_map_same: "(\<And>x. P (f x) = P x) \<Longrightarrow> List.find P (map f xs) = map_option f (List.find P xs)"
  by (induction xs) auto

lemma cards_unmark [simp]: "cards_of (unmark t) = cards_of t"
  by (simp add: cards_of_def unmark_def fun_eq_iff find_map_same option.map_comp comp_def)

lemma cards_of_rows:
  assumes "distinct (map di_reference (tb_items t))" "mset (tb_items t') = mset (tb_items t)"
  shows "cards_of t' = cards_of t"
proof
  fix ref
  have s: "set (tb_items t') = set (tb_items t)" using assms(2) by (metis mset_eq_setD)
  have d: "distinct (map di_reference (tb_items t'))" using assms distinct_map_mset by blast
  show "cards_of t' ref = cards_of t ref"
  proof (cases "ref \<in> di_reference ` set (tb_items t)")
    case True
    then obtain x where x: "x \<in> set (tb_items t)" "di_reference x = ref" by auto
    then show ?thesis using find_key_unique[OF assms(1) x(1)] find_key_unique[OF d, of x] s by (simp add: cards_of_def)
  next
    case False
    then show ?thesis using cards_of_None[of t ref] cards_of_None[of t' ref] s by simp
  qed
qed

lemma swept_advance:
  assumes "board_inv parse b" "swept parse b b'"
  shows "advance parse b b'"
proof -
  have "distinct (map di_reference (tb_items (whole parse b)))"
    using board_invD(1)[OF assms(1)] by (simp add: board_wf_def tables_wf_def keys_wf_def)
  then have "distinct (map di_reference (tb_items (unmark (whole parse b))))" by (simp add: unmark_def comp_def)
  then have "cards_of (unmark (whole parse b')) = cards_of (unmark (whole parse b))"
    using assms(2) by (intro cards_of_rows) (simp_all add: swept_def permuted_def)
  then show ?thesis using assms(2) by (simp add: advance_def swept_def)
qed

section \<open>Coding of records\<close>

text \<open>
  What the moves need of \<^verbatim>\<open>encoding/json\<close>: a record whose rows are rows of the board is one line, its line
  is decoded to it, and an incomplete line is not decoded.
\<close>

definition codec_ok :: "log_env \<Rightarrow> decisionRecord \<Rightarrow> bool" where
  "codec_ok l r \<longleftrightarrow> newline \<notin> set (lv_line l r) \<and> lv_parse l (lv_line l r) = Some r
     \<and> (\<forall>k<length (lv_line l r). lv_parse l (take k (lv_line l r)) = None)"

definition drawn :: "tables \<Rightarrow> decisionRecord \<Rightarrow> bool" where
  "drawn t r \<longleftrightarrow> unmarked (dn_item r) \<in> set (tb_items (unmark t)) \<and> set (dn_recipients r) \<subseteq> set (tb_recipients t)
     \<and> set (dn_verdicts r) \<subseteq> set (tb_verdicts t) \<and> set (dn_deliveries r) \<subseteq> set (tb_deliveries t)
     \<and> set (dn_withdrawals r) \<subseteq> set (tb_withdrawals t)"

definition faithful :: "log_env \<Rightarrow> tables \<Rightarrow> bool" where
  "faithful l t \<longleftrightarrow> lv_parse l [] = None \<and> (\<forall>r. drawn t r \<longrightarrow> codec_ok l r)"

lemma faithful_permuted:
  assumes "permuted (unmark t) (unmark t')"
  shows "faithful l t' = faithful l t"
proof -
  have "set (tb_items (unmark t')) = set (tb_items (unmark t))" "set (tb_recipients t') = set (tb_recipients t)"
    "set (tb_verdicts t') = set (tb_verdicts t)" "set (tb_deliveries t') = set (tb_deliveries t)" "set (tb_withdrawals t') = set (tb_withdrawals t)"
    using assms unfolding permuted_def by (metis (no_types, lifting) mset_eq_setD, (simp add: unmark_def, metis mset_eq_setD)+)
  then show ?thesis by (simp add: faithful_def drawn_def)
qed

lemma sweptD:
  assumes "swept parse b b'"
  shows "board_inv parse b'" "faithful l (whole parse b) \<Longrightarrow> faithful l (whole parse b')"
  using assms faithful_permuted[of "whole parse b" "whole parse b'" l] by (simp_all add: swept_def)

lemma stands_drawn: "stands t r \<Longrightarrow> drawn t r"
proof -
  assume s: "stands t r"
  then have "set (dn_recipients r) = set (its_recipients t (dn_id r))" "set (dn_verdicts r) = set (its_verdicts t (dn_id r))"
    "set (dn_deliveries r) = set (its_deliveries t (dn_id r))" "set (dn_withdrawals r) = set (its_withdrawals t (dn_id r))"
    unfolding stands_def by (metis mset_eq_setD)+
  then show ?thesis using s by (auto simp: drawn_def stands_def unmark_def its_recipients_def its_verdicts_def its_deliveries_def its_withdrawals_def)
qed

section \<open>Logs\<close>

lemma log_text_set [simp]: "log_text (set_log name c b) m = (if m = name then c else log_text b m)"
  by (simp add: log_text_def set_log_def)

lemma set_log_sels [simp]:
  "bd_items (set_log name c b) = bd_items b" "bd_archive (set_log name c b) = bd_archive b" "bd_item_ids (set_log name c b) = bd_item_ids b"
  "bd_verdict_ids (set_log name c b) = bd_verdict_ids b" "bd_withdrawal_ids (set_log name c b) = bd_withdrawal_ids b"
  "bd_recipients (set_log name c b) = bd_recipients b" "bd_verdicts (set_log name c b) = bd_verdicts b"
  "bd_deliveries (set_log name c b) = bd_deliveries b" "bd_withdrawals (set_log name c b) = bd_withdrawals b"
  by (simp_all add: set_log_def)

lemma rec_at_grows: "rec_at parse b p = Some r \<Longrightarrow> rec_at parse (set_log name (log_text b name @ x) b) p = Some r"
  using line_at_append[of "log_text b name" "nat (dp_offset p)"]
  by (auto simp: rec_at_def split: option.splits if_split_asm)

lemma recs_grows:
  assumes "archive_wf parse b"
  shows "recs parse (set_log name (log_text b name @ x) b) = recs parse b" "archive_wf parse (set_log name (log_text b name @ x) b)"
proof -
  have s: "\<exists>r. rec_at parse b p = Some r \<and> own_rows r" if "p \<in> set (bd_archive b)" for p using assms that by (simp add: archive_wf_def locator_ok_def)
  show "recs parse (set_log name (log_text b name @ x) b) = recs parse b"
    unfolding recs_def using s rec_at_grows by (fastforce intro!: map_cong)
  show "archive_wf parse (set_log name (log_text b name @ x) b)"
    using assms rec_at_grows unfolding archive_wf_def locator_ok_def by auto
qed

text \<open>A longer log keeps the invariant when the lines at the marks stay or answer for their items.\<close>

lemma log_grows:
  assumes inv: "board_inv parse b"
    and marks: "\<And>y r n. y \<in> set (bd_items b) \<Longrightarrow> di_mark_revision y \<noteq> 0 \<Longrightarrow> di_mark_file y = name \<Longrightarrow> n = nat (di_mark_offset y)
      \<Longrightarrow> n \<le> length (log_text b name) \<Longrightarrow> text_at (log_text b name @ x) n = text_at (log_text b name) n \<or>
        (parse (text_at (log_text b name @ x) n) = Some r \<longrightarrow> dn_id r = di_id y \<longrightarrow> stands (whole parse b) r)"
  shows "swept parse b (set_log name (log_text b name @ x) b)"
proof -
  let ?b' = "set_log name (log_text b name @ x) b"
  note g = recs_grows[OF board_invD(2)[OF inv], of name x]
  have w: "whole parse ?b' = whole parse b" using g(1) by (simp add: whole_def)
  have "mark_ok parse ?b' y" if y: "y \<in> set (bd_items b)" "di_mark_revision y \<noteq> 0" for y
  proof -
    have ok: "mark_ok parse b y" by (rule board_invD(3)[OF inv y])
    show ?thesis
    proof (cases "di_mark_file y = name")
      case True
      then have "nat (di_mark_offset y) \<le> length (log_text b name)" using ok by (simp add: mark_ok_def)
      note alt = marks[OF y True refl this]
      have "stands (whole parse b) r"
        if "parse (text_at (log_text b name @ x) (nat (di_mark_offset y))) = Some r" "dn_record r = decisionRecordMarker"
          "dn_id r = di_id y" "dn_revision r = di_mark_revision y" for r
        using alt[of r] that ok True by (cases "text_at (log_text b name @ x) (nat (di_mark_offset y)) = text_at (log_text b name) (nat (di_mark_offset y))")
          (simp_all add: mark_ok_def)
      then show ?thesis using ok True unfolding mark_ok_def w by simp
    qed (use ok in \<open>simp add: mark_ok_def w\<close>)
  qed
  moreover have "rows_home ?b'" using board_invD(4)[OF inv] by (simp add: rows_home_def)
  ultimately have "board_inv parse ?b'" using board_invD(1)[OF inv] g(2) w by (simp add: board_inv_def board_wf_def)
  then show ?thesis using w by (rule swept_same)
qed

lemma open_log:
  assumes inv: "board_inv parse b" and op: "openDecisionLog l name b = (r, b')"
  shows "swept parse b b'" "r = Inr off \<Longrightarrow> decisionLogName name \<and> off = int (length (log_text b' name)) \<and> (log_text b' name = [] \<or> last (log_text b' name) = newline)"
    "bd_items b' = bd_items b" "bd_deliveries b' = bd_deliveries b" "bd_verdicts b' = bd_verdicts b"
proof -
  consider "b' = b" "\<nexists>off. r = Inr off" | "b' = set_log name (ended_line (log_text b name)) b" "r = Inr (int (length (ended_line (log_text b name))))" "decisionLogName name"
    using op by (auto simp: openDecisionLog_def log_path_ok_def Let_def split: if_split_asm option.splits)
  then have "swept parse b b' \<and> bd_items b' = bd_items b \<and> bd_deliveries b' = bd_deliveries b \<and> bd_verdicts b' = bd_verdicts b
    \<and> (\<forall>off. r = Inr off \<longrightarrow> decisionLogName name \<and> off = int (length (log_text b' name)) \<and> (log_text b' name = [] \<or> last (log_text b' name) = newline))"
  proof cases
    case 1
    then show ?thesis using inv by simp
  next
    case 2
    obtain x where x: "ended_line (log_text b name) = log_text b name @ x" using ended_line_append by blast
    have "swept parse b b'" unfolding 2 x
      by (rule log_grows[OF inv]) (use text_at_ended[of _ "log_text b name", unfolded x] in blast)
    then show ?thesis using ended_line_end 2 by auto
  qed
  then show "swept parse b b'" "r = Inr off \<Longrightarrow> decisionLogName name \<and> off = int (length (log_text b' name)) \<and> (log_text b' name = [] \<or> last (log_text b' name) = newline)"
    "bd_items b' = bd_items b" "bd_deliveries b' = bd_deliveries b" "bd_verdicts b' = bd_verdicts b" by blast+
qed

section \<open>Moves\<close>

lemma live_deliveries:
  assumes wf: "board_wf parse b" and asd: "aside parse b i"
  shows "its_deliveries (whole parse b) i = item_deliveries b i"
proof -
  let ?t = "whole parse b"
  let ?Q = "\<lambda>q. \<exists>v\<in>set (tb_verdicts ?t). vd_id v = dd_verdict_id q \<and> vd_item_id v = i"
  have d: "distinct (map vd_id (tb_verdicts ?t))" using wf by (simp add: board_wf_def tables_wf_def keys_wf_def)
  have "\<not> ?Q q" if mem: "r \<in> set (recs parse b)" "q \<in> set (dn_deliveries r)" for r q
  proof
    assume "?Q q"
    then obtain v where v: "v \<in> set (tb_verdicts ?t)" "vd_id v = dd_verdict_id q" "vd_item_id v = i" by blast
    have "own_rows r" "dn_id r \<noteq> i" using asd mem(1) by (simp_all add: aside_def)
    then obtain u where u: "u \<in> set (dn_verdicts r)" "vd_id u = dd_verdict_id q" "vd_item_id u = dn_id r"
      using mem(2) unfolding own_rows_def by (metis imageE)
    have "u \<in> set (tb_verdicts ?t)" using u(1) mem(1) by (auto simp: whole_def)
    then have "u = v" using distinct_key_eq[OF d _ v(1)] u(2) v(2) by simp
    then show False using u(3) v(3) \<open>dn_id r \<noteq> i\<close> by simp
  qed
  then have a: "filter ?Q (concat (map dn_deliveries (recs parse b))) = []" by (auto simp: filter_empty_conv)
  have "?Q q = (\<exists>v\<in>set (bd_verdicts b). vd_id v = dd_verdict_id q \<and> vd_item_id v = i)" for q
    using asd by (auto simp: whole_def aside_def own_rows_def)
  then have "filter ?Q (bd_deliveries b) = item_deliveries b i"
    unfolding item_deliveries_def by (intro filter_cong refl)
  then show ?thesis using a by (simp add: its_deliveries_def) (simp add: whole_def)
qed

text \<open>The record that a move writes stands for its item.\<close>

lemma readDecisionRecord_stands:
  assumes inv: "board_inv parse b" and r: "readDecisionRecord b i = Some r"
  shows "stands (whole parse b) (r\<lparr>dn_moved_at := m\<rparr>)" "dn_id r = i" "dn_item r \<in> set (bd_items b)" "di_id (dn_item r) = i"
    "dn_revision r = di_revision (dn_item r)" "dn_reference r = di_reference (dn_item r)" "dn_record r = decisionRecordMarker"
proof -
  obtain x where x: "x \<in> set (bd_items b)" "di_id x = i" and r: "r = \<lparr>dn_record = decisionRecordMarker, dn_id = i, dn_reference = di_reference x, dn_revision = di_revision x, dn_item = x,
        dn_recipients = sort_key dr_ordinal (filter (\<lambda>q. dr_item_id q = i) (bd_recipients b)), dn_verdicts = item_verdicts b i,
        dn_deliveries = sort_key dd_verdict_id (sort_key dd_ordinal (item_deliveries b i)), dn_withdrawals = item_withdrawals b i,
        dn_moved_at = 0\<rparr>"
    using r unfolding readDecisionRecord_def by (auto dest!: find_Some_mem)
  have asd: "aside parse b i" using aside_live[OF inv x(1)] x(2) by simp
  show "stands (whole parse b) (r\<lparr>dn_moved_at := m\<rparr>)"
    using live_rows[OF asd] live_deliveries[OF board_invD(1)[OF inv] asd] x live_item[OF x(1)]
    by (simp add: r stands_def item_verdicts_def item_withdrawals_def)
  show "dn_id r = i" "dn_item r \<in> set (bd_items b)" "di_id (dn_item r) = i" "dn_revision r = di_revision (dn_item r)" "dn_reference r = di_reference (dn_item r)"
    "dn_record r = decisionRecordMarker" using x by (simp_all add: r)
qed

text \<open>The line of a record is appended, wholly or in part, after the last complete line.\<close>

lemma write_record:
  assumes inv: "board_inv (lv_parse l) b" and st: "stands (whole (lv_parse l) b) r" and cd: "faithful l (whole (lv_parse l) b)"
    and e: "log_text b name = [] \<or> last (log_text b name) = newline" and wl: "write_line l name (lv_line l r @ [newline]) b = (out, b')"
  shows "swept (lv_parse l) b b'" "bd_items b' = bd_items b" "whole (lv_parse l) b' = whole (lv_parse l) b"
    "out = Inr () \<Longrightarrow> log_text b' name = log_text b name @ lv_line l r @ [newline]"
proof -
  let ?c = "log_text b name" and ?line = "lv_line l r"
  have c: "newline \<notin> set ?line" "lv_parse l ?line = Some r" "\<And>k. k < length ?line \<Longrightarrow> lv_parse l (take k ?line) = None"
    using cd stands_drawn[OF st] by (simp_all add: faithful_def codec_ok_def)
  obtain x where x: "b' = set_log name (?c @ x) b" "x = ?line @ [newline] \<or> (\<exists>k. x = take k (?line @ [newline]))" "out = Inr () \<longrightarrow> x = ?line @ [newline]"
    using wl by (auto simp: write_line_def split: option.splits)
  have part: "lv_parse l (text_at (?c @ x) (length ?c)) = Some r' \<Longrightarrow> r' = r" for r'
  proof -
    assume p: "lv_parse l (text_at (?c @ x) (length ?c)) = Some r'"
    obtain k where k: "x = take k (?line @ [newline])" using x(2) by (metis order_refl take_all)
    have "text_at (?c @ x) (length ?c) = take k ?line"
    proof (cases "k \<le> length ?line")
      case True
      then have "text_at (?c @ take k ?line @ []) (length ?c) = take k ?line" by (intro text_at_end) (use c(1) in \<open>auto dest: in_set_takeD\<close>)
      then show ?thesis using True k by simp
    next
      case False
      then have "x = ?line @ [newline]" using k by simp
      then show ?thesis using text_at_end[OF c(1), of "[newline]" ?c] False by simp
    qed
    then show "r' = r" using p c(2) c(3)[of k] by (cases "k < length ?line") simp_all
  qed
  show s: "swept (lv_parse l) b b'" unfolding x(1)
  proof (rule log_grows[OF inv])
    fix y r' n assume y: "y \<in> set (bd_items b)" "di_mark_revision y \<noteq> 0" "di_mark_file y = name" "n = nat (di_mark_offset y)" "n \<le> length ?c"
    show "text_at (?c @ x) n = text_at ?c n \<or> (lv_parse l (text_at (?c @ x) n) = Some r' \<longrightarrow> dn_id r' = di_id y \<longrightarrow> stands (whole (lv_parse l) b) r')"
    proof (cases "n = length ?c")
      case True
      then show ?thesis using part st by blast
    next
      case False
      then have "n < length ?c" using y(5) by simp
      then have "newline \<in> set (drop n ?c)" using e by (metis drop_eq_Nil last_drop last_in_set leD list.size(3) not_less_zero)
      then show ?thesis using text_at_append[OF y(5)] by blast
    qed
  qed
  show "bd_items b' = bd_items b" by (simp add: x(1))
  show "whole (lv_parse l) b' = whole (lv_parse l) b" using recs_grows(1)[OF board_invD(2)[OF inv], of name x] by (simp add: x(1) whole_def)
  show "out = Inr () \<Longrightarrow> log_text b' name = ?c @ ?line @ [newline]" using x by simp
qed

lemma reasons_wf_same: "di_revision y = di_revision x \<Longrightarrow> di_state y = di_state x \<Longrightarrow> reasons_wf V W x \<Longrightarrow> reasons_wf V W y"
  by (simp add: reasons_wf_def)

definition mark_at :: "string \<Rightarrow> int \<Rightarrow> itemRow \<Rightarrow> itemRow" where
  "mark_at name off x = x\<lparr>di_mark_revision := di_revision x, di_mark_file := name, di_mark_offset := off\<rparr>"

lemma mark_at_sel [simp]: "di_id (mark_at name off x) = di_id x" "di_reference (mark_at name off x) = di_reference x" "di_state (mark_at name off x) = di_state x"
  "di_revision (mark_at name off x) = di_revision x" "di_mark_revision (mark_at name off x) = di_revision x" "di_mark_file (mark_at name off x) = name"
  "di_mark_offset (mark_at name off x) = off" "di_kind (mark_at name off x) = di_kind x" "di_verdict_count (mark_at name off x) = di_verdict_count x"
  "unmarked (mark_at name off x) = unmarked x"
  by (simp_all add: mark_at_def unmarked_def)

lemma mark_swept:
  assumes inv: "board_inv parse b" and x: "x \<in> set (bd_items b)" and st: "di_state x = ''archived''" and q: "settled (whole parse b) (di_id x)"
    and name: "decisionLogName name" and off: "off = int (length (log_text b name))" and p: "parse [] = None"
  shows "swept parse b (set_item (di_id x) (mark_at name off) b)"
proof -
  let ?i = "di_id x" and ?f = "mark_at name off" and ?t = "whole parse b"
  let ?b' = "set_item ?i ?f b"
  note wf = board_invD(1)[OF inv, unfolded board_wf_def]
  have same: "archive_same b ?b'" by simp
  have w: "whole parse ?b' = t_item ?i ?f ?t" by (rule whole_set_item[OF aside_live[OF inv x]])
  have fr: "frame ?i ?t (whole parse ?b')" unfolding w by (rule frame_item) (simp add: keeps_item_def)
  have only: "y = ?f x" if "y \<in> set (tb_items (whole parse ?b'))" "di_id y = ?i" for y
    using that unique_item[OF wf _ live_item[OF x]] by (auto simp: w t_item_def set_update_where split: if_split_asm)
  have "item_wf (whole parse ?b') (?f x)"
    using item_facts[OF inv x] st reasons_wf_same[of "?f x" x] by (simp add: item_wf_def w t_item_def item_checks_def)
  then have wf': "tables_wf (bd_item_ids b) (bd_verdict_ids b) (bd_withdrawal_ids b) (whole parse ?b')"
    using fr tables_wfD(1,2)[OF wf] by (intro tables_wf_change[OF wf, where i = ?i]) (auto simp: frame_def dest: only)
  have "mark_ok parse ?b' y" if y: "y \<in> set (bd_items ?b')" "di_mark_revision y \<noteq> 0" for y
  proof (cases "di_id y = ?i")
    case True
    then have "y = ?f x" using only live_item[OF y(1)] by blast
    moreover have "settled (whole parse ?b') ?i" using q by (simp add: settled_def w t_item_def)
    ultimately show ?thesis using name off p by (simp add: mark_ok_def archive_sameD(2)[OF archive_same_writes(1)[THEN iffD2, OF TrueI]] text_at_def)
  next
    case False
    then have yb: "y \<in> set (bd_items b)" using y(1) by (auto simp: set_update_where split: if_split_asm)
    have s: "share (di_id y) ?t (whole parse ?b')" using fr sharesD[OF _ False] by (simp add: frame_def)
    have "stands ?t r \<Longrightarrow> dn_id r = di_id y \<Longrightarrow> stands (whole parse ?b') r" for r using stands_share s by simp
    then show ?thesis using board_invD(3)[OF inv yb y(2)] settled_share[OF _ s] unfolding mark_ok_def archive_sameD(2)[OF same] by blast
  qed
  moreover have "rows_home ?b'"
    using board_invD(4)[OF inv] image_update_where[of di_id ?f "\<lambda>r. di_id r = ?i" "bd_items b"] by (simp add: rows_home_def set_item_def)
  ultimately have "board_inv parse ?b'" using wf' board_invD(2)[OF inv] archive_sameD(3)[OF same] by (simp add: board_inv_def board_wf_def)
  moreover have "map unmarked (update_where (\<lambda>r. di_id r = ?i) ?f u) = map unmarked u" for u by (simp add: map_update_where)
  ultimately show ?thesis by (simp add: swept_def w unmark_def t_item_def permuted_def)
qed

lemma mset_split: "mset (filter P xs) + mset (filter (\<lambda>x. \<not> P x) xs) = mset xs"
  by (simp add: multiset_partition[symmetric])

lemma filter_key_single: "distinct (map k xs) \<Longrightarrow> x \<in> set xs \<Longrightarrow> filter (\<lambda>y. k y = k x) xs = [x]"
  by (induction xs) (auto simp: filter_empty_conv image_iff intro: sym)

lemma delete_permuted:
  assumes inv: "board_inv parse b" and x: "x \<in> set (bd_items b)" and st: "stands (whole parse b) r" "dn_id r = di_id x" and p: "rec_at parse b p = Some r"
  defines "b' \<equiv> (delete_rows (di_id x) b)\<lparr>bd_archive := bd_archive b @ [p]\<rparr>"
  shows "permuted (whole parse b) (whole parse b')" "recs parse b' = recs parse b @ [r]" "dn_item r = x"
proof -
  let ?i = "di_id x"
  note wf = board_invD(1)[OF inv] and asd = aside_live[OF inv x]
  have lt: "log_text b' = log_text b" by (simp add: b'_def delete_rows_def log_text_def fun_eq_iff)
  then have "rec_at parse b' = rec_at parse b" by (simp add: rec_at_def fun_eq_iff)
  then show recs: "recs parse b' = recs parse b @ [r]" using p by (simp add: recs_def b'_def delete_rows_def)
  show rx: "dn_item r = x"
    using st unique_item[OF wf[unfolded board_wf_def] _ live_item[OF x], of "dn_item r"] by (simp add: stands_def)
  have "distinct (map di_id (bd_items b))" using wf by (simp add: board_wf_def tables_wf_def keys_wf_def whole_def)
  then have "filter (\<lambda>y. di_id y = ?i) (bd_items b) = [x]" by (rule filter_key_single) (rule x)
  then have i: "mset (bd_items b) = {#x#} + mset (filter (\<lambda>y. di_id y \<noteq> ?i) (bd_items b))"
    using mset_split[of "\<lambda>y. di_id y = ?i" "bd_items b", symmetric] by simp
  have rows: "mset (dn_recipients r) = mset (filter (\<lambda>q. dr_item_id q = ?i) (bd_recipients b))"
    "mset (dn_verdicts r) = mset (filter (\<lambda>v. vd_item_id v = ?i) (bd_verdicts b))"
    "mset (dn_withdrawals r) = mset (filter (\<lambda>w. dw_item_id w = ?i) (bd_withdrawals b))"
    "mset (dn_deliveries r) = mset (item_deliveries b ?i)"
    using st live_rows[OF asd] live_deliveries[OF wf asd] by (simp_all add: stands_def)
  show "permuted (whole parse b) (whole parse b')"
    unfolding permuted_def
  proof (intro conjI)
    show "mset (tb_items (whole parse b')) = mset (tb_items (whole parse b))"
    proof -
      have "mset (tb_items (whole parse b')) = mset (map dn_item (recs parse b)) + ({#x#} + mset (filter (\<lambda>y. di_id y \<noteq> ?i) (bd_items b)))"
        by (simp add: whole_def recs rx) (simp add: b'_def delete_rows_def)
      then show ?thesis unfolding i[symmetric] by (simp add: whole_def)
    qed
    show "mset (tb_recipients (whole parse b')) = mset (tb_recipients (whole parse b))"
      using mset_split[of "\<lambda>q. dr_item_id q = ?i" "bd_recipients b"] by (simp add: whole_def recs rows(1)) (simp add: b'_def delete_rows_def)
    show "mset (tb_verdicts (whole parse b')) = mset (tb_verdicts (whole parse b))"
      using mset_split[of "\<lambda>q. vd_item_id q = ?i" "bd_verdicts b"] by (simp add: whole_def recs rows(2)) (simp add: b'_def delete_rows_def)
    show "mset (tb_deliveries (whole parse b')) = mset (tb_deliveries (whole parse b))"
      using mset_split[of "\<lambda>q. \<exists>v\<in>set (bd_verdicts b). vd_id v = dd_verdict_id q \<and> vd_item_id v = ?i" "bd_deliveries b"]
      by (simp add: whole_def recs rows(4) item_deliveries_def) (simp add: b'_def delete_rows_def)
    show "mset (tb_withdrawals (whole parse b')) = mset (tb_withdrawals (whole parse b))"
      using mset_split[of "\<lambda>q. dw_item_id q = ?i" "bd_withdrawals b"] by (simp add: whole_def recs rows(3)) (simp add: b'_def delete_rows_def)
  qed
qed

lemma delete_home:
  assumes "rows_home b"
  shows "rows_home (delete_rows i b)"
proof -
  have item: "j \<noteq> i \<Longrightarrow> j \<in> di_id ` set (bd_items b) \<Longrightarrow> j \<in> di_id ` set (bd_items (delete_rows i b))" for j
    by (auto simp: delete_rows_def)
  have "dd_verdict_id q \<in> vd_id ` set (bd_verdicts (delete_rows i b))" if q: "q \<in> set (bd_deliveries (delete_rows i b))" for q
  proof -
    have qb: "q \<in> set (bd_deliveries b)" "\<not> (\<exists>v\<in>set (bd_verdicts b). vd_id v = dd_verdict_id q \<and> vd_item_id v = i)" using q by (simp_all add: delete_rows_def)
    then obtain u where u: "u \<in> set (bd_verdicts b)" "vd_id u = dd_verdict_id q" using assms unfolding rows_home_def by (metis imageE)
    then have "u \<in> set (bd_verdicts (delete_rows i b))" using qb(2) by (simp add: delete_rows_def)
    then show ?thesis using u(2) by (metis imageI)
  qed
  then show ?thesis using assms item by (simp add: rows_home_def) (simp add: delete_rows_def)
qed

lemma delete_swept:
  assumes inv: "board_inv parse b" and x: "x \<in> set (bd_items b)" "di_state x = ''archived''" and st: "stands (whole parse b) r" "dn_id r = di_id x"
    and p: "rec_at parse b p = Some r" "decisionLogName (dp_file p)"
  shows "swept parse b ((delete_rows (di_id x) b)\<lparr>bd_archive := bd_archive b @ [p]\<rparr>)"
proof -
  let ?b' = "(delete_rows (di_id x) b)\<lparr>bd_archive := bd_archive b @ [p]\<rparr>"
  note wf = board_invD(1)[OF inv]
  note d = delete_permuted[OF inv x(1) st p(1)]
  have lt: "log_text ?b' = log_text b" by (simp add: delete_rows_def log_text_def fun_eq_iff)
  then have ra: "rec_at parse ?b' = rec_at parse b" by (simp add: rec_at_def fun_eq_iff)
  have "own_rows r"
  proof -
    have own: "set (dn_recipients r) = set (its_recipients (whole parse b) (dn_id r))" "set (dn_verdicts r) = set (its_verdicts (whole parse b) (dn_id r))"
      "set (dn_withdrawals r) = set (its_withdrawals (whole parse b) (dn_id r))" "set (dn_deliveries r) = set (its_deliveries (whole parse b) (dn_id r))"
      using st(1) unfolding stands_def by (metis mset_eq_setD)+
    have "q \<in> set (dn_recipients r) \<Longrightarrow> dr_item_id q = dn_id r" "w \<in> set (dn_withdrawals r) \<Longrightarrow> dw_item_id w = dn_id r"
      "v \<in> set (dn_verdicts r) \<Longrightarrow> vd_item_id v = dn_id r" for q w v
      using own by (auto simp: its_recipients_def its_withdrawals_def its_verdicts_def)
    moreover have "dd_verdict_id q \<in> vd_id ` set (dn_verdicts r)" if "q \<in> set (dn_deliveries r)" for q
    proof -
      have "q \<in> set (its_deliveries (whole parse b) (dn_id r))" using that own(4) by simp
      then obtain v where "v \<in> set (tb_verdicts (whole parse b))" "vd_id v = dd_verdict_id q" "vd_item_id v = dn_id r"
        unfolding its_deliveries_def by auto
      then have "v \<in> set (dn_verdicts r)" unfolding own(2) by (simp add: its_verdicts_def)
      then show ?thesis using \<open>vd_id v = dd_verdict_id q\<close> by (metis imageI)
    qed
    ultimately show ?thesis using st d(3) x(2) by (simp add: own_rows_def stands_def)
  qed
  then have arc: "archive_wf parse ?b'" using board_invD(2)[OF inv] p ra by (simp add: archive_wf_def locator_ok_def)
  have ids: "bd_item_ids ?b' = bd_item_ids b" "bd_verdict_ids ?b' = bd_verdict_ids b" "bd_withdrawal_ids ?b' = bd_withdrawal_ids b"
    by (simp_all add: delete_rows_def)
  have "mark_ok parse ?b' y" if y: "y \<in> set (bd_items ?b')" "di_mark_revision y \<noteq> 0" for y
  proof -
    have yb: "y \<in> set (bd_items b)" using y(1) by (simp add: delete_rows_def)
    have s: "share j (whole parse b) (whole parse ?b')" for j by (rule permuted_share[OF d(1)])
    have "stands (whole parse b) r' \<Longrightarrow> stands (whole parse ?b') r'" for r' using stands_share s by blast
    then show ?thesis using board_invD(3)[OF inv yb y(2)] settled_share[OF _ s] unfolding mark_ok_def lt by blast
  qed
  moreover have "rows_home ?b'" using delete_home[OF board_invD(4)[OF inv]] by (simp add: rows_home_def)
  ultimately have "board_inv parse ?b'" using permuted_wf[OF d(1) wf[unfolded board_wf_def]] arc by (simp add: board_inv_def board_wf_def ids)
  then show ?thesis using permuted_unmark[OF d(1)] by (simp add: swept_def)
qed

lemma board_try_cases:
  obtains r where "board_try e c body s = (r, s)" "\<nexists>a. r = Inr (Some a)"
    | a s' where "body s = Inr (Some (a, s'))" "board_try e c body s = (Inr (Some a), s')"
proof (cases "rbind (bv_admit e c s) (\<lambda>_. body s)")
  case (Inl err)
  then show thesis using that(1) by (simp add: board_try_def)
next
  case (Inr r)
  show thesis
  proof (cases r)
    case None
    then show thesis using that(1) Inr by (simp add: board_try_def)
  next
    case (Some z)
    obtain a s' where z: "z = (a, s')" by (cases z)
    have "body s = Inr (Some (a, s'))" using Inr Some z by (cases "bv_admit e c s") simp_all
    then show thesis using that Inr Some z by (cases "bv_commit e c s'") (simp_all add: board_try_def)
  qed
qed

lemma unless_full_swept:
  assumes inv: "swept parse b0 (snd s)"
    and body: "\<And>a s'. body s = Inr (Some (a, s')) \<Longrightarrow> swept parse b0 (snd (snd (f a s')))"
  shows "swept parse b0 (snd (snd (unless_full (board_try e c body s) f)))"
proof (cases rule: board_try_cases[of e c body s])
  case (1 r)
  then show ?thesis using inv by (cases r) (auto simp: unless_full_def split: option.splits)
next
  case (2 a s')
  then show ?thesis using body by (simp add: unless_full_def)
qed

lemma swept_bump: "swept parse b b' \<Longrightarrow> swept parse b (bump_board b')"
  by (simp add: swept_def)

lemma deleteMoved_swept:
  assumes inv: "board_inv parse (snd s)" and st: "stands (whole parse (snd s)) r" "dn_id r = i"
    and p: "rec_at parse (snd s) \<lparr>dp_reference = ref, dp_file = name, dp_offset = off, dp_length = len, dp_moved_at = m\<rparr> = Some r" "decisionLogName name"
  shows "swept parse (snd s) (snd (snd (deleteMoved l i ref n name off len m s)))"
  unfolding deleteMoved_def
proof (rule unless_full_swept)
  show "swept parse (snd s) (snd s)" using inv by simp
  fix u s'
  let ?p = "\<lparr>dp_reference = ref, dp_file = name, dp_offset = off, dp_length = len, dp_moved_at = m\<rparr>"
  assume "(\<lambda>(d, b). if \<not> list_ex (marked_row i n name off) (bd_items b) then Inr None
       else rbind (insert_row ErrConstraint (fresh_key dp_reference) ?p (bd_archive b)) (\<lambda>t.
         Inr (Some ((), (d, bump_board ((delete_rows i b)\<lparr>bd_archive := t\<rparr>)))))) s = Inr (Some (u, s'))"
  then obtain x where x: "x \<in> set (bd_items (snd s))" "marked_row i n name off x"
    and s': "snd s' = bump_board ((delete_rows i (snd s))\<lparr>bd_archive := bd_archive (snd s) @ [?p]\<rparr>)"
    by (cases s) (auto simp: list_ex_iff split: if_split_asm)
  have "swept parse (snd s) ((delete_rows (di_id x) (snd s))\<lparr>bd_archive := bd_archive (snd s) @ [?p]\<rparr>)"
    by (rule delete_swept[OF inv x(1) _ st(1) _ p(1)]) (use x(2) st(2) p(2) in \<open>simp_all add: marked_row_def\<close>)
  then show "swept parse (snd s) (snd (snd (Inr (), s')))" using x(2) s' swept_bump by (simp add: marked_row_def)
qed

text \<open>The state between a mark and the line: the log ends with complete lines and the mark is at its end.\<close>

lemma continue_move_swept:
  assumes inv: "board_inv (lv_parse l) (snd s)" and cd: "faithful l (whole (lv_parse l) (snd s))" and name: "decisionLogName name"
    and e: "log_text (snd s) name = [] \<or> last (log_text (snd s) name) = newline" "off = int (length (log_text (snd s) name))"
  shows "swept (lv_parse l) (snd s) (snd (snd (continue_move l i name off s)))"
proof (cases "readDecisionRecord (snd s) i")
  case (Some r)
  let ?P = "lv_parse l" and ?b = "snd s"
  define r1 where "r1 = r\<lparr>dn_moved_at := lv_now l\<rparr>"
  let ?line = "lv_line l r1 @ [newline]"
  note st = readDecisionRecord_stands[OF inv Some]
  have st1: "stands (whole ?P ?b) r1" unfolding r1_def by (rule st(1))
  have r1: "dn_id r1 = i" "dn_record r1 = decisionRecordMarker" using st by (simp_all add: r1_def)
  have c: "newline \<notin> set (lv_line l r1)" "?P (lv_line l r1) = Some r1" using cd stands_drawn[OF st1] by (simp_all add: faithful_def codec_ok_def)
  obtain w b1 where wl: "write_line l name ?line ?b = (w, b1)" by (cases "write_line l name ?line ?b")
  note wr = write_record[OF inv st1 cd e(1) wl]
  have cm: "continue_move l i name off s = (case w of Inl err \<Rightarrow> (Inl err, (fst s, b1))
      | Inr _ \<Rightarrow> deleteMoved l i (dn_reference r1) (dn_revision r1) name off (int (length ?line)) (dn_moved_at r1) (fst s, b1))"
    using wl Some by (simp add: continue_move_def appendAndDelete_def Let_def r1_def split: sum.splits)
  show ?thesis
  proof (cases w)
    case (Inr u)
    let ?p = "\<lparr>dp_reference = dn_reference r1, dp_file = name, dp_offset = off, dp_length = int (length ?line), dp_moved_at = dn_moved_at r1\<rparr>"
    have lt: "log_text b1 name = log_text ?b name @ lv_line l r1 @ [newline]" using wr(4) Inr by simp
    have ta: "text_at (log_text b1 name) (nat off) = lv_line l r1" unfolding lt e(2) using text_at_end[OF c(1), of "[newline]"] by simp
    have la: "line_at (log_text b1 name) (nat off) = Some ?line" unfolding line_at_text ta by (simp add: lt e(2))
    have p: "rec_at ?P b1 ?p = Some r1" using la c(2) r1(2) by (simp add: rec_at_def)
    have "swept ?P b1 (snd (snd (deleteMoved l i (dn_reference r1) (dn_revision r1) name off (int (length ?line)) (dn_moved_at r1) (fst s, b1))))"
      using deleteMoved_swept[of ?P "(fst s, b1)" r1 i, OF _ _ r1(1)] wr(1,3) st1 p name by (simp add: swept_def)
    then show ?thesis using swept_trans[OF wr(1)] Inr by (simp add: cm)
  qed (use wr(1) in \<open>simp add: cm\<close>)
qed (use inv in \<open>simp add: continue_move_def\<close>)

lemma marked_continue:
  assumes inv: "board_inv (lv_parse l) b" and cd: "faithful l (whole (lv_parse l) b)" and x: "x \<in> set (bd_items b)" "di_state x = ''archived''"
    and q: "settled (whole (lv_parse l) b) (di_id x)" and name: "decisionLogName name"
    and e: "log_text b name = [] \<or> last (log_text b name) = newline" "off = int (length (log_text b name))"
    and b': "b' = b\<lparr>bd_items := update_where P f (bd_items b)\<rparr>" and P: "\<And>y. y \<in> set (bd_items b) \<Longrightarrow> P y \<longleftrightarrow> y = x" and f: "f x = mark_at name off x"
  shows "swept (lv_parse l) b (snd (snd (continue_move l (di_id x) name off (d, b'))))"
proof -
  note wf = board_invD(1)[OF inv, unfolded board_wf_def]
  have "update_where P f (bd_items b) = update_where (\<lambda>r. di_id r = di_id x) (mark_at name off) (bd_items b)"
    unfolding update_where_def
  proof (rule map_cong[OF refl])
    fix y assume y: "y \<in> set (bd_items b)"
    have "di_id y = di_id x \<longleftrightarrow> y = x" using unique_item[OF wf live_item[OF y] live_item[OF x(1)]] by blast
    then show "(if P y then f y else y) = (if di_id y = di_id x then mark_at name off y else y)" using P[OF y] f by auto
  qed
  then have s: "b' = set_item (di_id x) (mark_at name off) b" unfolding b' by (simp add: set_item_def)
  have m: "swept (lv_parse l) b b'"
    unfolding s by (rule mark_swept[OF inv x q name e(2)]) (use cd in \<open>simp add: faithful_def\<close>)
  then have inv': "board_inv (lv_parse l) b'" and cd': "faithful l (whole (lv_parse l) b')" using sweptD cd by blast+
  have "log_text b' = log_text b" unfolding s by (rule archive_sameD(2)) simp
  then have "swept (lv_parse l) b' (snd (snd (continue_move l (di_id x) name off (d, b'))))"
    using continue_move_swept[of l "(d, b')" name off "di_id x"] inv' cd' name e by simp
  then show ?thesis by (rule swept_trans[OF m])
qed


lemma moveDecision_swept:
  assumes inv: "board_inv (lv_parse l) (snd s)" and cd: "faithful l (whole (lv_parse l) (snd s))" and q: "\<not> unsettled (snd s) i"
  shows "swept (lv_parse l) (snd s) (snd (snd (moveDecision l i s)))"
proof -
  let ?P = "lv_parse l" and ?name = "log_name l"
  obtain r b where o: "openDecisionLog l ?name (snd s) = (r, b)" by (cases "openDecisionLog l ?name (snd s)")
  note ol = open_log[OF inv o]
  have inv1: "board_inv ?P b" and cd1: "faithful l (whole ?P b)" using sweptD[OF ol(1)] cd by blast+
  show ?thesis
  proof (cases r)
    case (Inr off)
    note e = ol(2)[OF Inr]
    let ?due = "\<lambda>r. di_id r = i \<and> di_state r = ''archived'' \<and> di_mark_revision r = 0"
    let ?f = "\<lambda>r. r\<lparr>di_mark_revision := di_revision r, di_mark_file := ?name, di_mark_offset := off\<rparr>"
    let ?body = "\<lambda>(d, b1). Inr (if list_ex ?due (bd_items b1) then Some ((), (d, b1\<lparr>bd_items := update_where ?due ?f (bd_items b1)\<rparr>)) else None)"
    have m: "moveDecision l i s = unless_full (board_try (lv_env l) ordinary ?body (fst s, b)) (\<lambda>_. continue_move l i ?name off)"
      using o Inr by (simp add: moveDecision_def Let_def)
    show ?thesis unfolding m
    proof (rule unless_full_swept)
      show "swept ?P (snd s) (snd (fst s, b))" using ol(1) by simp
      fix u s' assume "?body (fst s, b) = Inr (Some (u, s'))"
      then obtain x where x: "x \<in> set (bd_items b)" "?due x" and s': "s' = (fst s, b\<lparr>bd_items := update_where ?due ?f (bd_items b)\<rparr>)"
        by (auto simp: list_ex_iff split: if_split_asm)
      have only: "?due y \<longleftrightarrow> y = x" if "y \<in> set (bd_items b)" for y
        using unique_item[OF board_invD(1)[OF inv1, unfolded board_wf_def] live_item[OF that] live_item[OF x(1)]] x(2) by auto
      have same: "item_deliveries b i = item_deliveries (snd s) i" by (simp add: item_deliveries_def ol(4,5))
      have "settled (whole ?P b) (di_id x)"
        using q x(2) live_deliveries[OF board_invD(1)[OF inv1] aside_live[OF inv1 x(1)]] same by (simp add: settled_def unsettled_def)
      from marked_continue[OF inv1 cd1 x(1) _ this, of ?name off "snd s'" ?due ?f "fst s"]
      have "swept ?P b (snd (snd (continue_move l i ?name off s')))" using x(2) e only s' by (simp add: mark_at_def)
      then show "swept ?P (snd s) (snd (snd (continue_move l i ?name off s')))" by (rule swept_trans[OF ol(1)])
    qed
  qed (use o ol(1) in \<open>simp add: moveDecision_def Let_def\<close>)
qed

lemma write_again_swept:
  assumes inv: "board_inv (lv_parse l) (snd s)" and cd: "faithful l (whole (lv_parse l) (snd s))" and rev: "n \<noteq> 0"
  shows "swept (lv_parse l) (snd s) (snd (snd (write_again l i name off n s)))"
proof -
  let ?P = "lv_parse l"
  obtain r b where o: "openDecisionLog l name (snd s) = (r, b)" by (cases "openDecisionLog l name (snd s)")
  note ol = open_log[OF inv o]
  have inv1: "board_inv ?P b" and cd1: "faithful l (whole ?P b)" using sweptD[OF ol(1)] cd by blast+
  show ?thesis
  proof (cases r)
    case (Inr end_at)
    note e = ol(2)[OF Inr]
    let ?due = "\<lambda>r. di_id r = i \<and> di_mark_revision r = n \<and> di_mark_file r = name \<and> di_mark_offset r = off"
    let ?f = "\<lambda>r. r\<lparr>di_mark_offset := end_at\<rparr>"
    let ?body = "\<lambda>(d, b1). Inr (if list_ex ?due (bd_items b1) then Some ((), (d, b1\<lparr>bd_items := update_where ?due ?f (bd_items b1)\<rparr>)) else None)"
    have m: "write_again l i name off n s = unless_full (board_try (lv_env l) ordinary ?body (fst s, b)) (\<lambda>_. continue_move l i name end_at)"
      using o Inr by (simp add: write_again_def Let_def)
    show ?thesis unfolding m
    proof (rule unless_full_swept)
      show "swept ?P (snd s) (snd (fst s, b))" using ol(1) by simp
      fix u s' assume "?body (fst s, b) = Inr (Some (u, s'))"
      then obtain x where x: "x \<in> set (bd_items b)" "?due x" and s': "s' = (fst s, b\<lparr>bd_items := update_where ?due ?f (bd_items b)\<rparr>)"
        by (auto simp: list_ex_iff split: if_split_asm)
      have only: "?due y \<longleftrightarrow> y = x" if "y \<in> set (bd_items b)" for y
        using unique_item[OF board_invD(1)[OF inv1, unfolded board_wf_def] live_item[OF that] live_item[OF x(1)]] x(2) by auto
      have mk: "di_mark_revision x \<noteq> 0" using x(2) rev by simp
      then have a: "di_state x = ''archived''" "di_mark_revision x = di_revision x" using item_facts(1)[OF inv1 x(1)] by (simp_all add: item_checks_def)
      have q: "settled (whole ?P b) (di_id x)" using board_invD(3)[OF inv1 x(1) mk] by (simp add: mark_ok_def)
      have fx: "?f x = mark_at name end_at x" using x(2) a(2) by (simp add: mark_at_def)
      from marked_continue[OF inv1 cd1 x(1) a(1) q, of name end_at "snd s'" ?due ?f "fst s"]
      have "swept ?P b (snd (snd (continue_move l i name end_at s')))" using x(2) e only s' fx by simp
      then show "swept ?P (snd s) (snd (snd (continue_move l i name end_at s')))" by (rule swept_trans[OF ol(1)])
    qed
  qed (use o ol(1) in \<open>simp add: write_again_def\<close>)
qed

lemma finishMove_swept:
  assumes inv: "board_inv (lv_parse l) (snd s)" and cd: "faithful l (whole (lv_parse l) (snd s))"
  shows "swept (lv_parse l) (snd s) (snd (snd (finishMove l i s)))"
proof (cases "List.find (\<lambda>r. di_id r = i \<and> di_mark_revision r > 0) (bd_items (snd s))")
  case (Some x)
  let ?P = "lv_parse l" and ?b = "snd s"
  have x: "x \<in> set (bd_items ?b)" "di_id x = i" "di_mark_revision x > 0" using Some by (auto dest!: find_Some_mem)
  have ok: "mark_ok ?P ?b x" by (rule board_invD(3)[OF inv x(1)]) (use x(3) in simp)
  note again = write_again_swept[OF inv cd, of "di_mark_revision x" i "di_mark_file x" "di_mark_offset x"]
  let ?name = "di_mark_file x" and ?off = "di_mark_offset x"
  show ?thesis
  proof (cases "snd (finishMove l i s) = s \<or> finishMove l i s = write_again l i ?name ?off (di_mark_revision x) s")
    case True
    then show ?thesis using again x(3) inv by auto
  next
    case False
    obtain t found where t: "readDecisionLine l ?name ?off ?b = Inr (Some t)" "?P (trim_suffix t [newline]) = Some found"
      "dn_record found = decisionRecordMarker" "dn_id found = i" "dn_revision found = di_mark_revision x"
      "finishMove l i s = deleteMoved l i (di_reference x) (di_mark_revision x) ?name ?off (int (length t)) (dn_moved_at found) s"
    proof (cases "readDecisionLine l ?name ?off ?b")
      case (Inl err)
      then show thesis using False Some by (simp add: finishMove_def Let_def)
    next
      case (Inr line)
      show thesis
      proof (cases line)
        case None
        then show thesis using False Some Inr by (simp add: finishMove_def Let_def)
      next
        case (Some t)
        then show thesis using that[of t] False \<open>List.find _ _ = Some x\<close> Inr
          by (cases "?P (trim_suffix t [newline])") (simp_all add: finishMove_def Let_def split: if_split_asm)
      qed
    qed
    have la: "line_at (log_text ?b ?name) (nat ?off) = Some t"
      using t(1) by (auto simp: readDecisionLine_def log_text_def split: if_split_asm option.splits)
    then have tt: "t = text_at (log_text ?b ?name) (nat ?off) @ [newline]" by (simp add: line_at_text split: if_split_asm)
    have st: "stands (whole ?P ?b) found" using ok t(2-5) x(2) by (simp add: mark_ok_def tt)
    have f: "dn_item found \<in> set (tb_items (whole ?P ?b))" "di_id (dn_item found) = di_id x" "dn_reference found = di_reference (dn_item found)"
      using st t(4) x(2) unfolding stands_def by auto
    then have "dn_reference found = di_reference x"
      using unique_item[OF board_invD(1)[OF inv, unfolded board_wf_def] f(1) live_item[OF x(1)]] by simp
    then have "rec_at ?P ?b \<lparr>dp_reference = di_reference x, dp_file = ?name, dp_offset = ?off, dp_length = int (length t), dp_moved_at = dn_moved_at found\<rparr> = Some found"
      using la t(2,3) by (simp add: rec_at_def)
    then show ?thesis unfolding t(6) using deleteMoved_swept[OF inv st t(4)] ok by (simp add: mark_ok_def)
  qed
qed (use inv in \<open>simp add: finishMove_def\<close>)

section \<open>The sweep\<close>

lemma each_move_swept:
  assumes "\<And>i s. board_inv (lv_parse l) (snd s) \<Longrightarrow> faithful l (whole (lv_parse l) (snd s)) \<Longrightarrow> swept (lv_parse l) (snd s) (snd (snd (f i s)))"
  shows "board_inv (lv_parse l) (snd s) \<Longrightarrow> faithful l (whole (lv_parse l) (snd s)) \<Longrightarrow> swept (lv_parse l) (snd s) (snd (snd (each_move f xs s)))"
proof (induction xs arbitrary: s)
  case (Cons i xs)
  note a = assms[OF Cons.prems, of i]
  obtain r s1 where r: "f i s = (r, s1)" by (cases "f i s")
  then have "swept (lv_parse l) (snd s1) (snd (snd (each_move f xs s1)))" using Cons.IH[of s1] sweptD[OF a] Cons.prems(2) by simp
  then show ?case using a r swept_trans by (cases r) auto
qed simp

lemma swept_after:
  assumes "swept parse b b'"
  shows "swept parse b (b'\<lparr>bd_after_at := t, bd_after_id := i\<rparr>)"
proof -
  let ?b2 = "b'\<lparr>bd_after_at := t, bd_after_id := i\<rparr>"
  have same: "archive_same b' ?b2" by (simp add: archive_same_def)
  have w: "whole parse ?b2 = whole parse b'" using archive_sameD(1)[OF same, of parse] by (simp add: whole_def)
  have "board_inv parse ?b2" by (rule board_inv_same[OF sweptD(1)[OF assms] same]) (simp_all add: w)
  then show ?thesis using assms w by (simp add: swept_def)
qed

lemma move_candidates_swept:
  "board_inv (lv_parse l) (snd s) \<Longrightarrow> faithful l (whole (lv_parse l) (snd s)) \<Longrightarrow> swept (lv_parse l) (snd s) (snd (snd (move_candidates l n cs s)))"
proof (induction cs arbitrary: n s)
  case (Cons c cs)
  let ?P = "lv_parse l" and ?s0 = "(fst s, (snd s)\<lparr>bd_after_at := di_archived_at c, bd_after_id := di_id c\<rparr>)"
  have a: "swept ?P (snd s) (snd ?s0)" using swept_after[OF swept_refl[OF Cons.prems(1)]] by simp
  have i0: "board_inv ?P (snd ?s0)" "faithful l (whole ?P (snd ?s0))" using sweptD[OF a] Cons.prems(2) by blast+
  show ?case
  proof (cases "unsettled (snd ?s0) (di_id c)")
    case True
    then show ?thesis using swept_trans[OF a Cons.IH[OF i0]] by simp
  next
    case False
    note m = moveDecision_swept[OF i0 False]
    obtain r s1 where r: "moveDecision l (di_id c) ?s0 = (r, s1)" by (cases "moveDecision l (di_id c) ?s0")
    have m1: "swept ?P (snd s) (snd s1)" using swept_trans[OF a m] r by simp
    have "swept ?P (snd s1) (snd (snd (move_candidates l (n + 1) cs s1)))" using Cons.IH[of s1 "n + 1"] sweptD[OF m1] Cons.prems(2) by simp
    then have "swept ?P (snd s) (snd (snd (move_candidates l (n + 1) cs s1)))" by (rule swept_trans[OF m1])
    then show ?thesis using False r m1 by (simp add: Let_def split: sum.split)
  qed
qed simp

theorem archiveDecisions_swept:
  assumes inv: "board_inv (lv_parse l) (snd s)" and cd: "faithful l (whole (lv_parse l) (snd s))"
  shows "swept (lv_parse l) (snd s) (snd (snd (archiveDecisions l s)))"
proof -
  let ?P = "lv_parse l"
  obtain r s1 where r: "each_move (finishMove l) (marked_ids (snd s)) s = (r, s1)" by (cases "each_move (finishMove l) (marked_ids (snd s)) s")
  have a: "swept ?P (snd s) (snd s1)" using each_move_swept[where f = "finishMove l" and xs = "marked_ids (snd s)", OF finishMove_swept inv cd] r by simp
  show ?thesis
  proof (cases r)
    case (Inr u)
    let ?cs = "archive_candidates (lv_now l - decisionArchiveAfter) (snd s1)"
    obtain r2 s2 where r2: "move_candidates l 0 ?cs s1 = (r2, s2)" by (cases "move_candidates l 0 ?cs s1")
    have "swept ?P (snd s1) (snd s2)" using move_candidates_swept[of l s1 0 ?cs] sweptD[OF a] cd r2 by simp
    then have "swept ?P (snd s) (snd s2)" by (rule swept_trans[OF a])
    then show ?thesis using swept_after r r2 Inr by (simp add: archiveDecisions_def Let_def)
  qed (use a r in \<open>simp add: archiveDecisions_def\<close>)
qed

end
