(* ===== verification/Board_Restore.thy ===== *)
theory Board_Restore
  imports Board_Archive
begin

text \<open>
  \<open>DecisionRestore\<close>: an archived record is inserted again without a conflict and its item is archived, as
  when it moved; a withdrawn item is reopened at its next revision.
\<close>

section \<open>The rows of an archived record\<close>

lemma rec_at_facts:
  assumes "rec_at parse b p = Some r"
  shows "dn_reference r = dp_reference p" "dn_record r = decisionRecordMarker"
  using assms by (auto simp: rec_at_def split: option.splits if_split_asm)

lemma archive_rec:
  assumes "board_inv parse b" "p \<in> set (bd_archive b)"
  obtains r where "rec_at parse b p = Some r" "own_rows r" "r \<in> set (recs parse b)" "di_reference (dn_item r) = dp_reference p" "decisionLogName (dp_file p)"
proof -
  obtain r where r: "rec_at parse b p = Some r" "own_rows r" "decisionLogName (dp_file p)"
    using board_invD(2)[OF assms(1)] assms(2) unfolding archive_wf_def locator_ok_def by blast
  have m: "r \<in> set (recs parse b)" using assms(2) r(1) by (force simp: recs_def)
  have "di_reference (dn_item r) = dp_reference p" using r rec_at_facts(1)[OF r(1)] by (simp add: own_rows_def)
  then show thesis using that r m by blast
qed

lemma locators_distinct:
  assumes inv: "board_inv parse b"
  shows "distinct (map dp_reference (bd_archive b))" "dp_reference ` set (bd_archive b) \<inter> di_reference ` set (bd_items b) = {}"
proof -
  have "map dp_reference (bd_archive b) = map (\<lambda>r. di_reference (dn_item r)) (recs parse b)"
    unfolding recs_def map_map comp_def
  proof (rule map_cong[OF refl])
    fix p assume p: "p \<in> set (bd_archive b)"
    obtain r where "rec_at parse b p = Some r" "di_reference (dn_item r) = dp_reference p" by (rule archive_rec[OF inv p])
    then show "dp_reference p = di_reference (dn_item (the (rec_at parse b p)))" by simp
  qed
  moreover have "distinct (map di_reference (map dn_item (recs parse b) @ bd_items b))"
    using board_invD(1)[OF inv] by (simp add: board_wf_def tables_wf_def keys_wf_def whole_def)
  ultimately have "distinct (map dp_reference (bd_archive b) @ map di_reference (bd_items b))" by (simp add: comp_def)
  then show "distinct (map dp_reference (bd_archive b))" "dp_reference ` set (bd_archive b) \<inter> di_reference ` set (bd_items b) = {}" by auto
qed

lemma recs_split:
  assumes inv: "board_inv parse b" and p: "p \<in> set (bd_archive b)" "rec_at parse b p = Some r"
  obtains xs ys where "recs parse b = xs @ r # ys" "filter (\<lambda>q. dp_reference q \<noteq> dp_reference p) (bd_archive b) = filter (\<lambda>q. q \<noteq> p) (bd_archive b)"
    "map (\<lambda>q. the (rec_at parse b q)) (filter (\<lambda>q. q \<noteq> p) (bd_archive b)) = xs @ ys"
    "\<And>r'. r' \<in> set xs \<union> set ys \<Longrightarrow> own_rows r' \<and> dn_id r' \<noteq> dn_id r"
proof -
  obtain as bs where ab: "bd_archive b = as @ p # bs" using p(1) by (auto simp: in_set_conv_decomp)
  let ?R = "\<lambda>q. the (rec_at parse b q)"
  note d = locators_distinct(1)[OF inv]
  have ne: "q \<noteq> p" "dp_reference q \<noteq> dp_reference p" if "q \<in> set as \<union> set bs" for q
    using d that unfolding ab by (auto, metis imageI, metis imageI)
  have f: "filter (\<lambda>q. q \<noteq> p) (bd_archive b) = as @ bs" "filter (\<lambda>q. dp_reference q \<noteq> dp_reference p) (bd_archive b) = as @ bs"
    using ne by (auto simp: ab filter_id_conv)
  have recs: "recs parse b = map ?R as @ r # map ?R bs" using p(2) by (simp add: recs_def ab)
  have "distinct (map di_id (tb_items (whole parse b)))" using board_invD(1)[OF inv] by (simp add: board_wf_def tables_wf_def keys_wf_def)
  then have dd: "distinct (map di_id (map dn_item (recs parse b)))" by (simp add: whole_def)
  have own: "r' \<in> set (recs parse b) \<Longrightarrow> own_rows r'" for r' by (rule recs_mem[OF board_invD(2)[OF inv]])
  have "own_rows r' \<and> dn_id r' \<noteq> dn_id r" if "r' \<in> set (map ?R as) \<union> set (map ?R bs)" for r'
  proof -
    have o: "own_rows r'" "own_rows r" using own that by (auto simp: recs)
    have "di_id (dn_item r') \<noteq> di_id (dn_item r)" using dd that by (force simp: recs)
    then show ?thesis using o by (simp add: own_rows_def)
  qed
  then show thesis using that[OF recs] f by simp
qed

lemma archived_rows:
  assumes inv: "board_inv parse b" and p: "p \<in> set (bd_archive b)" "rec_at parse b p = Some r"
  shows "its_recipients (whole parse b) (dn_id r) = dn_recipients r" "its_verdicts (whole parse b) (dn_id r) = dn_verdicts r"
    "its_deliveries (whole parse b) (dn_id r) = dn_deliveries r" "its_withdrawals (whole parse b) (dn_id r) = dn_withdrawals r"
    "dn_id r \<notin> di_id ` set (bd_items b)"
proof -
  obtain xs ys where s: "recs parse b = xs @ r # ys" and o: "\<And>r'. r' \<in> set xs \<union> set ys \<Longrightarrow> own_rows r' \<and> dn_id r' \<noteq> dn_id r"
    by (rule recs_split[OF assms]) blast
  note home = board_invD(4)[OF inv]
  have rr: "r \<in> set (recs parse b)" by (simp add: s)
  have own: "own_rows r" by (rule recs_mem[OF board_invD(2)[OF inv] rr])
  show nl: "dn_id r \<notin> di_id ` set (bd_items b)"
    using archived_not_live[OF board_invD(1)[OF inv] _ rr] own by (auto simp: own_rows_def)
  have live: "filter (\<lambda>q. dr_item_id q = dn_id r) (bd_recipients b) = []" "filter (\<lambda>v. vd_item_id v = dn_id r) (bd_verdicts b) = []"
    "filter (\<lambda>w. dw_item_id w = dn_id r) (bd_withdrawals b) = []"
    using home nl unfolding filter_empty_conv rows_home_def by metis+
  have arc: "filter P (concat (map f (recs parse b))) = f r"
    if "\<And>q. q \<in> set (f r) \<Longrightarrow> P q" "\<And>r' q. r' \<in> set xs \<union> set ys \<Longrightarrow> q \<in> set (f r') \<Longrightarrow> \<not> P q" for P :: "'z \<Rightarrow> bool" and f
  proof -
    have "filter P (concat (map f zs)) = []" if "set zs \<subseteq> set xs \<union> set ys" for zs using \<open>\<And>r' q. r' \<in> set xs \<union> set ys \<Longrightarrow> q \<in> set (f r') \<Longrightarrow> \<not> P q\<close> that
      by (auto simp: filter_empty_conv)
    moreover have "filter P (f r) = f r" using that(1) by (simp add: filter_id_conv)
    ultimately show ?thesis by (simp add: s)
  qed
  show "its_recipients (whole parse b) (dn_id r) = dn_recipients r"
  proof -
    have "filter (\<lambda>q. dr_item_id q = dn_id r) (concat (map dn_recipients (recs parse b))) = dn_recipients r"
      by (rule arc) (use own o in \<open>fastforce simp: own_rows_def\<close>)+
    then show ?thesis using live(1) by (simp add: its_recipients_def whole_def)
  qed
  show v: "its_verdicts (whole parse b) (dn_id r) = dn_verdicts r"
  proof -
    have "filter (\<lambda>v. vd_item_id v = dn_id r) (concat (map dn_verdicts (recs parse b))) = dn_verdicts r"
      by (rule arc) (use own o in \<open>fastforce simp: own_rows_def\<close>)+
    then show ?thesis using live(2) by (simp add: its_verdicts_def whole_def)
  qed
  show "its_withdrawals (whole parse b) (dn_id r) = dn_withdrawals r"
  proof -
    have "filter (\<lambda>w. dw_item_id w = dn_id r) (concat (map dn_withdrawals (recs parse b))) = dn_withdrawals r"
      by (rule arc) (use own o in \<open>fastforce simp: own_rows_def\<close>)+
    then show ?thesis using live(3) by (simp add: its_withdrawals_def whole_def)
  qed
  let ?Q = "\<lambda>q. \<exists>u\<in>set (tb_verdicts (whole parse b)). vd_id u = dd_verdict_id q \<and> vd_item_id u = dn_id r"
  have Q: "?Q q \<longleftrightarrow> dd_verdict_id q \<in> vd_id ` set (dn_verdicts r)" for q
    unfolding v[symmetric] by (auto simp: its_verdicts_def image_iff)
  have d: "distinct (map vd_id (tb_verdicts (whole parse b)))" using board_invD(1)[OF inv] by (simp add: board_wf_def tables_wf_def keys_wf_def)
  have other: "\<not> ?Q q" if u: "u \<in> set (tb_verdicts (whole parse b))" "vd_id u = dd_verdict_id q" "vd_item_id u \<noteq> dn_id r" for q u
    using distinct_key_eq[OF d _ u(1)] u(2,3) by (metis (no_types, lifting))
  have "\<not> ?Q q" if mem: "r' \<in> set xs \<union> set ys" "q \<in> set (dn_deliveries r')" for r' q
  proof -
    obtain u where u: "u \<in> set (dn_verdicts r')" "vd_id u = dd_verdict_id q" "vd_item_id u = dn_id r'"
      using o[OF mem(1)] mem(2) unfolding own_rows_def by (metis imageE)
    have "u \<in> set (tb_verdicts (whole parse b))" using u(1) mem(1) by (auto simp: whole_def s)
    then show ?thesis by (rule other[OF _ u(2)]) (use u(3) o[OF mem(1)] in simp)
  qed
  moreover have "?Q q" if "q \<in> set (dn_deliveries r)" for q using own that unfolding Q own_rows_def by blast
  ultimately have "filter ?Q (concat (map dn_deliveries (recs parse b))) = dn_deliveries r" by (intro arc) blast+
  moreover have "\<not> ?Q q" if mem: "q \<in> set (bd_deliveries b)" for q
  proof -
    obtain u where u: "u \<in> set (bd_verdicts b)" "vd_id u = dd_verdict_id q" using home mem unfolding rows_home_def by (metis imageE)
    moreover have "vd_item_id u \<noteq> dn_id r" using home nl u(1) unfolding rows_home_def by metis
    ultimately show ?thesis using other[of u q] by (simp add: whole_def)
  qed
  then have "filter ?Q (bd_deliveries b) = []" by (simp add: filter_empty_conv)
  ultimately show "its_deliveries (whole parse b) (dn_id r) = dn_deliveries r" by (simp add: its_deliveries_def) (simp add: whole_def)
qed

section \<open>Insertion\<close>

lemma insert_rows_Inr: "insert_rows err ok rs t = Inr t' \<Longrightarrow> t' = t @ rs"
  by (induction rs arbitrary: t) fastforce+

lemma insert_rows_fresh:
  assumes "\<And>x u. ok x u \<longleftrightarrow> fresh_key k x u \<and> C x"
  shows "distinct (map k (t @ rs)) \<Longrightarrow> \<forall>x\<in>set rs. C x \<Longrightarrow> insert_rows err ok rs t = Inr (t @ rs)"
proof (induction rs arbitrary: t)
  case (Cons x rs)
  have "fresh_key k x t" using Cons.prems(1) by (auto simp: fresh_key_def image_iff)
  then have "insert_rows err ok (x # rs) t = insert_rows err ok rs (t @ [x])" using Cons.prems(2) assms by (simp add: insert_row_def)
  also have "\<dots> = Inr ((t @ [x]) @ rs)" by (rule Cons.IH) (use Cons.prems in simp_all)
  finally show ?case by simp
qed simp

lemma fold_max_le: "(\<And>x. x \<in> set xs \<Longrightarrow> x \<le> n) \<Longrightarrow> fold max xs n = n" for n :: int
  by (induction xs) (simp_all add: max_def)

definition restored_row :: "int \<Rightarrow> nat \<Rightarrow> itemRow \<Rightarrow> itemRow" where
  "restored_row now n x = x\<lparr>di_state := ''archived'', di_archived_at := now, di_updated_at := now, di_mark_revision := 0,
     di_mark_file := [], di_mark_offset := 0, di_verdict_count := int n\<rparr>"

lemma restored_row: "restored_item now r = restored_row now (length (dn_verdicts r)) (dn_item r)"
  by (simp add: restored_item_def restored_row_def)

lemma restored_sel [simp]: "di_id (restored_row now n x) = di_id x" "di_reference (restored_row now n x) = di_reference x"
  "di_state (restored_row now n x) = ''archived''" "di_revision (restored_row now n x) = di_revision x" "di_mark_revision (restored_row now n x) = 0"
  "di_kind (restored_row now n x) = di_kind x" "di_verdict_count (restored_row now n x) = int n"
  by (simp_all add: restored_row_def)

definition restored_board :: "int \<Rightarrow> locatorRow \<Rightarrow> decisionRecord \<Rightarrow> board \<Rightarrow> board" where
  "restored_board now p r b = b\<lparr>bd_archive := filter (\<lambda>q. q \<noteq> p) (bd_archive b), bd_items := bd_items b @ [restored_item now r],
     bd_recipients := bd_recipients b @ dn_recipients r, bd_verdicts := bd_verdicts b @ dn_verdicts r,
     bd_deliveries := bd_deliveries b @ dn_deliveries r, bd_withdrawals := bd_withdrawals b @ dn_withdrawals r\<rparr>"

text \<open>The inserted rows conflict with no row, and the counters already cover them.\<close>

lemma insert_record_succeeds:
  assumes inv: "board_inv parse b" and p: "p \<in> set (bd_archive b)" "rec_at parse b p = Some r"
  shows "insert_record now r (b\<lparr>bd_archive := filter (\<lambda>q. \<not> (dp_reference q = dp_reference p \<and> dp_file q = dp_file p \<and> dp_offset q = dp_offset p)) (bd_archive b)\<rparr>)
    = Inr (restored_board now p r b)"
proof -
  let ?t = "whole parse b"
  note wf = board_invD(1)[OF inv, unfolded board_wf_def] and home = board_invD(4)[OF inv]
  note rows = archived_rows[OF inv p]
  obtain xs ys where s: "recs parse b = xs @ r # ys" by (rule recs_split[OF inv p]) blast
  have rr: "r \<in> set (recs parse b)" by (simp add: s)
  have own: "own_rows r" by (rule recs_mem[OF board_invD(2)[OF inv] rr])
  have item: "dn_item r \<in> set (tb_items ?t)" using rr by (simp add: whole_def)
  have chk: "item_checks (dn_item r)" using tables_wfD(3)[OF wf item] by (simp add: item_wf_def)
  note k = tables_wfD(1)[OF wf, unfolded keys_wf_def] and lk = tables_wfD(2)[OF wf, unfolded links_wf_def]
  have ref: "di_reference (dn_item r) \<notin> di_reference ` set (bd_items b)"
    using k by (auto simp: whole_def s)
  have i: "item_ok (restored_item now r) (bd_items b)"
    using rows(5) ref chk own by (auto simp: item_ok_def restored_row fresh_key_def own_rows_def item_checks_def image_iff)
  have sub: "set (dn_recipients r) \<subseteq> set (tb_recipients ?t)" "set (dn_verdicts r) \<subseteq> set (tb_verdicts ?t)"
    "set (dn_deliveries r) \<subseteq> set (tb_deliveries ?t)" "set (dn_withdrawals r) \<subseteq> set (tb_withdrawals ?t)"
    using rr by (auto simp: whole_def)
  have d: "distinct (map (\<lambda>q. (dr_item_id q, dr_ordinal q)) (bd_recipients b @ dn_recipients r))" "distinct (map vd_id (bd_verdicts b @ dn_verdicts r))"
    "distinct (map (\<lambda>q. (dd_verdict_id q, dd_ordinal q)) (bd_deliveries b @ dn_deliveries r))" "distinct (map dw_id (bd_withdrawals b @ dn_withdrawals r))"
  proof -
    have *: "distinct (map g (concat (map f (xs @ r # ys)) @ live)) \<Longrightarrow> distinct (map g (live @ f r))" for g :: "'z \<Rightarrow> 'y" and f live
      by (auto simp: distinct_map)
    show "distinct (map (\<lambda>q. (dr_item_id q, dr_ordinal q)) (bd_recipients b @ dn_recipients r))"
      by (rule *) (use k in \<open>simp add: whole_def s\<close>)
    show "distinct (map vd_id (bd_verdicts b @ dn_verdicts r))" by (rule *) (use k in \<open>simp add: whole_def s\<close>)
    show "distinct (map (\<lambda>q. (dd_verdict_id q, dd_ordinal q)) (bd_deliveries b @ dn_deliveries r))"
      by (rule *) (use k in \<open>simp add: whole_def s\<close>)
    show "distinct (map dw_id (bd_withdrawals b @ dn_withdrawals r))" by (rule *) (use k in \<open>simp add: whole_def s\<close>)
  qed
  have ins: "insert_rows err recipient_ok (dn_recipients r) (bd_recipients b) = Inr (bd_recipients b @ dn_recipients r)"
    "insert_rows err verdict_ok (dn_verdicts r) (bd_verdicts b) = Inr (bd_verdicts b @ dn_verdicts r)"
    "insert_rows err verdict_delivery_ok (dn_deliveries r) (bd_deliveries b) = Inr (bd_deliveries b @ dn_deliveries r)"
    "insert_rows err (\<lambda>w u. fresh_key dw_id w u) (dn_withdrawals r) (bd_withdrawals b) = Inr (bd_withdrawals b @ dn_withdrawals r)" for err
  proof -
    show "insert_rows err recipient_ok (dn_recipients r) (bd_recipients b) = Inr (bd_recipients b @ dn_recipients r)"
      by (rule insert_rows_fresh[OF recipient_ok_def d(1)]) (use lk sub(1) in blast)
    show "insert_rows err verdict_ok (dn_verdicts r) (bd_verdicts b) = Inr (bd_verdicts b @ dn_verdicts r)"
      by (rule insert_rows_fresh[OF verdict_ok_def d(2)]) (use lk sub(2) in blast)
    show "insert_rows err verdict_delivery_ok (dn_deliveries r) (bd_deliveries b) = Inr (bd_deliveries b @ dn_deliveries r)"
      by (rule insert_rows_fresh[OF verdict_delivery_ok_def d(3)]) (use lk sub(3) in blast)
    show "insert_rows err (\<lambda>w u. fresh_key dw_id w u) (dn_withdrawals r) (bd_withdrawals b) = Inr (bd_withdrawals b @ dn_withdrawals r)"
      by (rule insert_rows_fresh[OF _ d(4), where C = "\<lambda>_. True"]) simp_all
  qed
  have ids: "max (bd_item_ids b) (di_id (dn_item r)) = bd_item_ids b" "fold max (map vd_id (dn_verdicts r)) (bd_verdict_ids b) = bd_verdict_ids b"
    "fold max (map dw_id (dn_withdrawals r)) (bd_withdrawal_ids b) = bd_withdrawal_ids b"
  proof -
    have le: "\<And>v. v \<in> set (tb_verdicts ?t) \<Longrightarrow> vd_id v \<le> bd_verdict_ids b" "\<And>w. w \<in> set (tb_withdrawals ?t) \<Longrightarrow> dw_id w \<le> bd_withdrawal_ids b"
      using k by blast+
    have "di_id (dn_item r) \<le> bd_item_ids b" using k item by blast
    then show "max (bd_item_ids b) (di_id (dn_item r)) = bd_item_ids b" by simp
    show "fold max (map vd_id (dn_verdicts r)) (bd_verdict_ids b) = bd_verdict_ids b" by (rule fold_max_le) (use le(1) sub(2) in auto)
    show "fold max (map dw_id (dn_withdrawals r)) (bd_withdrawal_ids b) = bd_withdrawal_ids b" by (rule fold_max_le) (use le(2) sub(4) in auto)
  qed
  have found: "filter (\<lambda>q. \<not> (dp_reference q = dp_reference p \<and> dp_file q = dp_file p \<and> dp_offset q = dp_offset p)) (bd_archive b) = filter (\<lambda>q. q \<noteq> p) (bd_archive b)"
    by (rule filter_cong[OF refl]) (use distinct_key_eq[OF locators_distinct(1)[OF inv] _ p(1)] in blast)
  show ?thesis unfolding found insert_record_def Let_def using i ins ids by (simp add: restored_board_def insert_row_def)
qed


lemma restored_whole:
  assumes inv: "board_inv parse b" and p: "p \<in> set (bd_archive b)" "rec_at parse b p = Some r"
  shows "permuted (t_item (dn_id r) (restored_row now (length (dn_verdicts r))) (whole parse b)) (whole parse (restored_board now p r b))"
    "recs parse (restored_board now p r b) = map (\<lambda>q. the (rec_at parse b q)) (filter (\<lambda>q. q \<noteq> p) (bd_archive b))"
    "rec_at parse (restored_board now p r b) = rec_at parse b"
proof -
  let ?b' = "restored_board now p r b" and ?i = "dn_id r" and ?f = "restored_row now (length (dn_verdicts r))"
  obtain xs ys where s: "recs parse b = xs @ r # ys" "map (\<lambda>q. the (rec_at parse b q)) (filter (\<lambda>q. q \<noteq> p) (bd_archive b)) = xs @ ys"
      and o: "\<And>r'. r' \<in> set xs \<union> set ys \<Longrightarrow> own_rows r' \<and> dn_id r' \<noteq> dn_id r" by (rule recs_split[OF inv p]) blast
  have "log_text ?b' = log_text b" by (simp add: restored_board_def log_text_def fun_eq_iff)
  then show ra: "rec_at parse ?b' = rec_at parse b" by (simp add: rec_at_def fun_eq_iff)
  then show r2: "recs parse ?b' = map (\<lambda>q. the (rec_at parse b q)) (filter (\<lambda>q. q \<noteq> p) (bd_archive b))"
    by (simp add: recs_def restored_board_def)
  have recs: "recs parse ?b' = xs @ ys" using r2 s(2) by simp
  have own: "own_rows r" by (rule recs_mem[OF board_invD(2)[OF inv]]) (simp add: s)
  have same: "update_where (\<lambda>x. di_id x = ?i) ?f (map dn_item zs) = map dn_item zs" if "set zs \<subseteq> set xs \<union> set ys" for zs
    by (rule update_where_id) (use o that in \<open>force simp: own_rows_def\<close>)
  have "update_where (\<lambda>x. di_id x = ?i) ?f (bd_items b) = bd_items b"
    by (rule update_where_id) (use archived_rows(5)[OF inv p] in \<open>metis imageI\<close>)
  moreover have "di_id (dn_item r) = ?i" using own by (simp add: own_rows_def)
  ultimately have "tb_items (t_item ?i ?f (whole parse b)) = map dn_item xs @ restored_item now r # map dn_item ys @ bd_items b"
    using same[of xs] same[of ys] by (simp add: t_item_def whole_def s(1) update_where_append restored_row)
  moreover have "whole parse ?b' = \<lparr>tb_items = map dn_item (xs @ ys) @ bd_items b @ [restored_item now r],
      tb_recipients = concat (map dn_recipients (xs @ ys)) @ bd_recipients b @ dn_recipients r, tb_verdicts = concat (map dn_verdicts (xs @ ys)) @ bd_verdicts b @ dn_verdicts r,
      tb_deliveries = concat (map dn_deliveries (xs @ ys)) @ bd_deliveries b @ dn_deliveries r,
      tb_withdrawals = concat (map dn_withdrawals (xs @ ys)) @ bd_withdrawals b @ dn_withdrawals r\<rparr>"
    unfolding whole_def recs by (simp add: restored_board_def)
  ultimately show "permuted (t_item ?i ?f (whole parse b)) (whole parse ?b')"
    by (simp add: permuted_def) (simp add: t_item_def whole_def s(1))
qed

lemma restore_advance:
  assumes inv: "board_inv parse b" and p: "p \<in> set (bd_archive b)" "rec_at parse b p = Some r"
  shows "advance parse b (restored_board now p r b)"
proof -
  let ?b' = "restored_board now p r b" and ?i = "dn_id r" and ?f = "restored_row now (length (dn_verdicts r))" and ?t = "whole parse b"
  let ?t1 = "t_item ?i ?f ?t"
  note wf = board_invD(1)[OF inv, unfolded board_wf_def] and rw = restored_whole[OF inv p, of now] and rows = archived_rows[OF inv p]
    and home = board_invD(4)[OF inv]
  obtain xs ys where s: "recs parse b = xs @ r # ys" by (rule recs_split[OF inv p]) blast
  have rr: "r \<in> set (recs parse b)" by (simp add: s)
  have own: "own_rows r" by (rule recs_mem[OF board_invD(2)[OF inv] rr])
  have idr: "di_id (dn_item r) = ?i" "di_state (dn_item r) = ''archived''" using own by (simp_all add: own_rows_def)
  have item: "dn_item r \<in> set (tb_items ?t)" using rr by (simp add: whole_def)
  have keeps: "keeps_item ?f" by (simp add: keeps_item_def)
  have fr: "frame ?i ?t ?t1" by (rule frame_item[OF keeps])
  have only: "y = ?f (dn_item r)" if "y \<in> set (tb_items ?t1)" "di_id y = ?i" for y
    using that unique_item[OF wf _ item] idr(1) by (auto simp: t_item_def set_update_where split: if_split_asm)
  have "item_wf ?t1 (?f (dn_item r))"
    using tables_wfD(3)[OF wf item] rows(2) idr reasons_wf_same[of "?f (dn_item r)" "dn_item r"] by (simp add: item_wf_def t_item_def item_checks_def)
  then have wf1: "tables_wf (bd_item_ids b) (bd_verdict_ids b) (bd_withdrawal_ids b) ?t1"
    using fr tables_wfD(1,2)[OF wf] by (intro tables_wf_change[OF wf, where i = ?i]) (auto simp: frame_def dest: only)
  have wf': "board_wf parse ?b'" using permuted_wf[OF rw(1) wf1] by (simp add: board_wf_def) (simp add: restored_board_def)
  have arc: "archive_wf parse ?b'" using board_invD(2)[OF inv] rw(3) by (simp add: archive_wf_def locator_ok_def restored_board_def)
  have home': "rows_home ?b'"
  proof -
    have "di_id ` set (bd_items ?b') = insert ?i (di_id ` set (bd_items b))" by (simp add: restored_board_def restored_row idr)
    then show ?thesis using home own unfolding rows_home_def own_rows_def by (simp add: ball_Un image_Un) (simp add: restored_board_def ball_Un image_Un)
  qed
  have sh: "share j ?t (whole parse ?b')" if "j \<noteq> ?i" for j
    using fr share_trans[OF _ permuted_share[OF rw(1)]] sharesD[OF _ that] unfolding frame_def by blast
  have "mark_ok parse ?b' y" if y: "y \<in> set (bd_items ?b')" "di_mark_revision y \<noteq> 0" for y
  proof -
    have yb: "y \<in> set (bd_items b)" using y by (auto simp: restored_board_def restored_row)
    then have ne: "di_id y \<noteq> ?i" using rows(5) by (metis imageI)
    have "log_text ?b' = log_text b" by (simp add: restored_board_def log_text_def fun_eq_iff)
    moreover have "stands ?t r' \<Longrightarrow> dn_id r' = di_id y \<Longrightarrow> stands (whole parse ?b') r'" for r' using stands_share sh[OF ne] by simp
    ultimately show ?thesis using board_invD(3)[OF inv yb y(2)] settled_share[OF _ sh[OF ne]] unfolding mark_ok_def by simp
  qed
  then have "board_inv parse ?b'" using wf' arc home' by (simp add: board_inv_def)
  moreover have "cards_of (whole parse ?b') = cards_of ?t1" by (rule cards_of_permuted[OF wf1 rw(1)])
  moreover have "cards_of ?t1 = cards_of ?t"
  proof -
    have "?f (dn_item r) \<in> set (tb_items ?t1)" using item idr(1) by (auto simp: t_item_def set_update_where)
    then have "cards_of ?t1 = (cards_of ?t)(di_reference (dn_item r) \<mapsto> card_of (?f (dn_item r)))"
      using cards_of_change[OF wf wf1, of "?f (dn_item r)"] fr unique_item[OF wf _ item] by (auto simp: idr frame_def)
    moreover have "card_of (?f (dn_item r)) = card_of (dn_item r)" by (simp add: card_of_def idr)
    moreover have "cards_of ?t (di_reference (dn_item r)) = Some (card_of (dn_item r))" by (rule cards_of_mem[OF wf item])
    ultimately show ?thesis by (simp add: fun_upd_idem)
  qed
  ultimately show ?thesis by (simp add: advance_def)
qed

section \<open>Restore\<close>

lemma archived_record_rec:
  assumes "archived_record l p b = Inr r"
  shows "rec_at (lv_parse l) b p = Some r"
proof -
  obtain line where line: "readDecisionLine l (dp_file p) (dp_offset p) b = Inr line"
    and r: "(case line of None \<Rightarrow> None | Some t \<Rightarrow> if int (length t) \<noteq> dp_length p then None
            else (case lv_parse l (trim_suffix t [newline]) of None \<Rightarrow> None
              | Some r \<Rightarrow> if dn_record r = decisionRecordMarker \<and> dn_reference r = dp_reference p then Some r else None)) = Some r"
    using assms by (auto simp: archived_record_def)
  then obtain t where t: "line = Some t" by (cases line) auto
  then have "line_at (log_text b (dp_file p)) (nat (dp_offset p)) = Some t"
    using line by (auto simp: readDecisionLine_def log_text_def split: if_split_asm option.splits)
  then show ?thesis using r t by (simp add: rec_at_def)
qed

lemma restore_record_Inr:
  assumes inv: "board_inv (lv_parse l) b" and p: "p \<in> set (bd_archive b)" "rec_at (lv_parse l) b p = Some r"
  shows "restore_record l caller p r (d, b) = (case activeCaller d (lv_now l) caller False of
      Inl err \<Rightarrow> Inl err | Inr _ \<Rightarrow> Inr ((), (d, bump_board (restored_board (lv_now l) p r b))))"
  using insert_record_succeeds[OF inv p, of "lv_now l"] p(1)
  by (auto simp: restore_record_def Let_def list_ex_iff guard_def split: sum.splits)

lemma reopen_item_advance:
  assumes inv: "board_inv parse (snd s)" and now: "bv_now e \<noteq> 0" and r: "reopen_item e caller ref n s = Inr (Some (u, s'))"
  shows "advance parse (snd s) (snd s')"
proof -
  obtain d b where s: "s = (d, b)" by (cases s)
  obtain x w peer where x: "List.find (\<lambda>i. di_reference i = ref) (bd_items b) = Some x" and w: "open_withdrawal b x = Some w"
    and s': "s' = (d, bump_board (end_withdrawals (\<lambda>y. dw_id y = dw_id w) (bv_now e) peer
             (set_item (di_id x) (\<lambda>r. (activated r)\<lparr>di_revision := di_revision r + 1, di_updated_at := bv_now e\<rparr>) b)))"
    using r unfolding reopen_item_def s by (auto split: option.splits)
  have "x \<in> set (bd_items b)" using x by (auto dest!: find_Some_mem)
  then show ?thesis using reopen_advance[OF _ _ now w] inv by (simp add: s s')
qed

lemma DecisionRestore_advance:
  assumes inv: "board_inv (lv_parse l) (snd s)" and now: "lv_now l \<noteq> 0"
  shows "advance (lv_parse l) (snd s) (snd (snd (DecisionRestore l caller ref n s)))"
proof (cases "rbind (guard (validKey (k_family caller) (k_id caller) \<and> n \<ge> 0) ErrInvalid) (\<lambda>_. checkReference ref)")
  case (Inl err)
  then show ?thesis using inv by (simp add: DecisionRestore_def Let_def)
next
  case ok: (Inr u)
  let ?e = "lv_env l" and ?body = "reopen_item (lv_env l) caller ref n"
  show ?thesis
  proof (cases rule: board_try_cases[of ?e ordinary ?body s])
    case (2 a s')
    then have "snd (DecisionRestore l caller ref n s) = s'" using ok by (simp add: DecisionRestore_def Let_def)
    then show ?thesis using reopen_item_advance[OF inv now 2(1)] by simp
  next
    case (1 r)
    show ?thesis
    proof (cases "snd (DecisionRestore l caller ref n s) = s")
      case False
      have "r = Inr None" using 1 False ok by (cases r) (auto simp: DecisionRestore_def Let_def split: option.splits)
      then obtain p r' where p: "List.find (\<lambda>p. dp_reference p = ref) (bd_archive (snd s)) = Some p" "archived_record l p (snd s) = Inr r'"
        and t: "snd (DecisionRestore l caller ref n s) = snd (board_tx ?e ordinary (restore_record l caller p r') s)"
        using 1 False ok by (auto simp: DecisionRestore_def Let_def split: sum.splits option.splits)
      have mem: "p \<in> set (bd_archive (snd s))" using p(1) by (auto dest!: find_Some_mem)
      note rec = archived_record_rec[OF p(2)]
      show ?thesis unfolding t
      proof (rule board_tx_advance[OF inv])
        fix a s' assume "restore_record l caller p r' s = Inr (a, s')"
        then have "snd s' = bump_board (restored_board (lv_now l) p r' (snd s))"
          using restore_record_Inr[OF inv mem rec, of caller "fst s"] by (auto split: sum.splits)
        then show "advance (lv_parse l) (snd s) (snd s')" using advance_bump[OF restore_advance[OF inv mem rec]] by simp
      qed
    qed (use inv in simp)
  qed
qed

text \<open>
  C39. What the deep archive took can be brought back: for every locator of a board in its invariant, a
  restore by an active caller, when the log opens and the storage admits and commits, succeeds. It finds
  the record at the locator, inserts its rows without a conflict, removes the locator, sets the item
  archived with the count of its verdicts, and answers that item.
\<close>

theorem archived_record_restored:
  assumes inv: "board_inv (lv_parse l) b" and p: "p \<in> set (bd_archive b)" and ref: "checkReference (dp_reference p) = Inr ()"
    and caller: "validKey (k_family caller) (k_id caller)" "activeCaller d (lv_now l) caller False = Inr u" and n: "n \<ge> 0"
    and store: "\<And>s. bv_admit (lv_env l) ordinary s = Inr ()" "\<And>s. bv_commit (lv_env l) ordinary s = Inr ()"
    and log: "lv_root l \<noteq> []" "lv_open l (dp_file p) = None"
  shows "\<exists>r. rec_at (lv_parse l) b p = Some r \<and> (let b' = bump_board (restored_board (lv_now l) p r b) in
    DecisionRestore l caller (dp_reference p) n (d, b) = (Inr (item_view (lv_env l) (d, b') (restored_item (lv_now l) r)), (d, b')))"
proof -
  let ?ref = "dp_reference p" and ?e = "lv_env l"
  obtain r where r: "rec_at (lv_parse l) b p = Some r" "di_reference (dn_item r) = ?ref" "decisionLogName (dp_file p)" by (rule archive_rec[OF inv p])
  let ?b' = "bump_board (restored_board (lv_now l) p r b)"
  have "?ref \<notin> di_reference ` set (bd_items b)" using locators_distinct(2)[OF inv] p by blast
  then have none: "List.find (\<lambda>i. di_reference i = ?ref) (bd_items b) = None" unfolding find_None_iff by (metis imageI)
  have "reopen_item ?e caller ?ref n (d, b) = Inr None" using caller(2) none by (simp add: reopen_item_def)
  then have tried: "board_try ?e ordinary (reopen_item ?e caller ?ref n) (d, b) = (Inr None, (d, b))" using store by (simp add: board_try_def)
  have fp: "List.find (\<lambda>q. dp_reference q = ?ref) (bd_archive b) = Some p" by (rule find_key_unique[OF locators_distinct(1)[OF inv] p])
  have "archived_record l p b = Inr r"
  proof -
    obtain t where t: "line_at (log_text b (dp_file p)) (nat (dp_offset p)) = Some t" using r(1) by (auto simp: rec_at_def split: option.splits)
    then obtain c where "bd_logs b (dp_file p) = Some c" by (cases "bd_logs b (dp_file p)") (auto simp: log_text_def line_at_def)
    then have "readDecisionLine l (dp_file p) (dp_offset p) b = Inr (Some t)" using log r(3) t by (simp add: readDecisionLine_def log_path_ok_def log_text_def)
    then show ?thesis using r(1) t by (auto simp: archived_record_def rec_at_def split: option.splits if_split_asm)
  qed
  moreover have "board_tx ?e ordinary (restore_record l caller p r) (d, b) = (Inr (), (d, ?b'))"
    using restore_record_Inr[OF inv p r(1), of caller d] caller(2) store by (simp add: board_tx_def)
  moreover have "decisionRow ?b' ?ref = Inr (restored_item (lv_now l) r)"
  proof -
    have "List.find (\<lambda>i. di_reference i = ?ref) (bd_items b @ [restored_item (lv_now l) r]) = Some (restored_item (lv_now l) r)"
      using none r(2) by (auto simp: find_append restored_row)
    then show ?thesis by (simp add: decisionRow_def restored_board_def)
  qed
  ultimately have "DecisionRestore l caller ?ref n (d, b) = (Inr (item_view ?e (d, ?b') (restored_item (lv_now l) r)), (d, ?b'))"
    using ref caller(1) n tried fp by (simp add: DecisionRestore_def Let_def then_read_def decisionItem_def)
  then show ?thesis using r(1) by (auto simp: Let_def)
qed

end
