(* ===== verification/Board_Runs.thy ===== *)
theory Board_Runs
  imports Board_Restore Room_Runs "HOL-Library.Countable"
begin

text \<open>
  Runs of the decision board from an empty board: any sequence of its requests and sweeps, between which
  the rest of the database changes freely. The theorems are the agreement of an item's state with its
  verdicts and withdrawals, the refinement of the abstract cards, the sweep that keeps every row, and the
  delivery of a verdict to every name.
\<close>

section \<open>Runs\<close>

datatype board_op =
    OpCreate Key string DecisionFields string time
  | OpEdit Key string int DecisionFields
  | OpVerdict string int string string
  | OpAck Key "int list"
  | OpClose Key string int string string time
  | OpWithdraw Key string int string string time
  | OpRestore Key string int
  | OpArchive
  | OpCullReplays

fun board_step :: "log_env \<Rightarrow> board_op \<Rightarrow> store \<Rightarrow> store" where
  "board_step l (OpCreate caller ref f k dl) s = snd (DecisionCreate (lv_env l) caller ref f k dl s)"
| "board_step l (OpEdit caller ref n f) s = snd (DecisionEdit (lv_env l) caller ref n f s)"
| "board_step l (OpVerdict ref n v note) s = snd (giveVerdict (lv_env l) ref n v note s)"
| "board_step l (OpAck caller vs) s = snd (DecisionAck (lv_env l) caller vs s)"
| "board_step l (OpClose caller ref n note k dl) s = snd (DecisionClose (lv_env l) caller ref n note k dl s)"
| "board_step l (OpWithdraw caller ref n reason k dl) s = snd (DecisionWithdraw (lv_env l) caller ref n reason k dl s)"
| "board_step l (OpRestore caller ref n) s = snd (DecisionRestore l caller ref n s)"
| "board_step l OpArchive s = snd (archiveDecisions l s)"
| "board_step l OpCullReplays s = snd (cullDecisionReplays (lv_env l) s)"

text \<open>The clock is past the epoch, every request decodes lines the same way, and a sweep writes lines that decode.\<close>

inductive store_step :: "decoder \<Rightarrow> store \<Rightarrow> store \<Rightarrow> bool" for parse where
  board_request: "lv_parse l = parse \<Longrightarrow> 0 < lv_now l \<Longrightarrow> op = OpArchive \<longrightarrow> faithful l (whole parse (snd s)) \<Longrightarrow> store_step parse s (board_step l op s)"
| other_request: "store_step parse (d, b) (d', b)"

definition empty_board :: board where
  "empty_board = \<lparr>bd_items = [], bd_item_ids = 0, bd_recipients = [], bd_verdicts = [], bd_verdict_ids = 0, bd_deliveries = [],
     bd_withdrawals = [], bd_withdrawal_ids = 0, bd_archive = [], bd_replays = [], bd_changes = 0, bd_logs = (\<lambda>_. None),
     bd_after_at = 0, bd_after_id = 0\<rparr>"

lemma empty_board_inv: "board_inv parse empty_board"
  by (simp add: board_inv_def board_wf_def tables_wf_def keys_wf_def links_wf_def whole_def recs_def archive_wf_def rows_home_def empty_board_def)

lemma board_step_advance:
  assumes inv: "board_inv (lv_parse l) (snd s)" and now: "0 < lv_now l" and "op = OpArchive \<longrightarrow> faithful l (whole (lv_parse l) (snd s))"
  shows "advance (lv_parse l) (snd s) (snd (board_step l op s))"
proof (cases op)
  case OpArchive
  then show ?thesis using swept_advance[OF inv archiveDecisions_swept[OF inv]] assms(3) by simp
qed (use inv now in \<open>simp_all add: DecisionCreate_advance DecisionEdit_advance giveVerdict_advance DecisionAck_advance DecisionClose_advance
      DecisionWithdraw_advance DecisionRestore_advance cullDecisionReplays_advance\<close>)

lemma store_step_advance: "store_step parse s s' \<Longrightarrow> board_inv parse (snd s) \<Longrightarrow> advance parse (snd s) (snd s')"
  by (induction rule: store_step.induct) (use board_step_advance in auto)

lemma run_advance: "(store_step parse)\<^sup>*\<^sup>* s s' \<Longrightarrow> board_inv parse (snd s) \<Longrightarrow> advance parse (snd s) (snd s')"
proof (induction rule: rtranclp_induct)
  case (step y z)
  then have "advance parse (snd s) (snd y)" by blast
  then show ?case using advance_trans store_step_advance[OF step.hyps(2)] advanceD by blast
qed simp

lemma reachable_inv: "(store_step parse)\<^sup>*\<^sup>* (d, empty_board) s \<Longrightarrow> board_inv parse (snd s)"
  using run_advance[of parse "(d, empty_board)" s] empty_board_inv advanceD by simp

section \<open>Verdicts and states\<close>

lemma one_key: "distinct (map k xs) \<Longrightarrow> (\<And>u v. u \<in> set xs \<Longrightarrow> v \<in> set xs \<Longrightarrow> k u = k v) \<Longrightarrow> length xs \<le> 1"
proof (rule ccontr)
  assume d: "distinct (map k xs)" and eq: "\<And>u v. u \<in> set xs \<Longrightarrow> v \<in> set xs \<Longrightarrow> k u = k v" and n: "\<not> length xs \<le> 1"
  from n obtain u v ys where xs: "xs = u # v # ys" by (cases xs; cases "tl xs") auto
  have "k u = k v" by (rule eq) (simp_all add: xs)
  then show False using d by (simp add: xs)
qed

lemma last_current:
  assumes inv: "board_inv parse b" and x: "x \<in> set (bd_items b)"
  shows "currentVerdict b (di_id x) False = map_option verdict_view (List.find (\<lambda>v. vd_item_id v = di_id x \<and> vd_superseded_at v = 0) (bd_verdicts b))"
    "open_withdrawal b x \<noteq> None \<longleftrightarrow> (\<exists>w. open_in (set (its_withdrawals (whole parse b) (di_id x))) w)"
proof -
  let ?i = "di_id x" and ?V = "its_verdicts (whole parse b) (di_id x)" and ?W = "its_withdrawals (whole parse b) (di_id x)"
  note asd = aside_live[OF inv x] and rs = item_facts(3)[OF inv x] and wf = board_invD(1)[OF inv, unfolded board_wf_def]
  note live = live_rows[OF asd]
  have V: "item_verdicts b ?i = sort_key vd_id ?V" "item_withdrawals b ?i = sort_key dw_id ?W" by (simp_all add: item_verdicts_def item_withdrawals_def live)
  have dist: "distinct (map vd_id ?V)" "distinct (map dw_id ?W)"
    using tables_wfD(1)[OF wf] by (simp_all add: keys_wf_def its_verdicts_def its_withdrawals_def distinct_map_filter)
  have newest: "v = last (sort_key vd_id ?V)" if "current_in (set ?V) v" for v
  proof -
    have v: "v \<in> set ?V" and ne: "?V \<noteq> []" using that by (auto simp: current_in_def)
    have l: "last (sort_key vd_id ?V) \<in> set ?V" using ne by (metis last_in_set length_0_conv length_sort set_sort)
    have "vd_id v = vd_id (last (sort_key vd_id ?V))" using reasons_wfD(3)[OF rs that l] last_sorted[OF ne v, of vd_id] by simp
    then show ?thesis using distinct_key_eq[OF dist(1) v l] by blast
  qed
  have newest_w: "w = last (sort_key dw_id ?W)" if "open_in (set ?W) w" for w
  proof -
    have w: "w \<in> set ?W" and ne: "?W \<noteq> []" using that by (auto simp: open_in_def)
    have l: "last (sort_key dw_id ?W) \<in> set ?W" using ne by (metis last_in_set length_0_conv length_sort set_sort)
    have "dw_id w = dw_id (last (sort_key dw_id ?W))" using reasons_wfD(6)[OF rs that l] last_sorted[OF ne w, of dw_id] by simp
    then show ?thesis using distinct_key_eq[OF dist(2) w l] by blast
  qed
  have cv: "currentVerdict b ?i False = (if ?V \<noteq> [] \<and> vd_superseded_at (last (sort_key vd_id ?V)) = 0 then Some (verdict_view (last (sort_key vd_id ?V))) else None)"
  proof -
    have "sort_key vd_id ?V = [] \<longleftrightarrow> ?V = []" by (metis length_0_conv length_sort)
    then show ?thesis unfolding currentVerdict_def V by (cases "sort_key vd_id ?V") (simp_all add: verdict_view_def Let_def)
  qed
  show "currentVerdict b ?i False = map_option verdict_view (List.find (\<lambda>v. vd_item_id v = ?i \<and> vd_superseded_at v = 0) (bd_verdicts b))"
  proof (cases "List.find (\<lambda>v. vd_item_id v = ?i \<and> vd_superseded_at v = 0) (bd_verdicts b)")
    case (Some v)
    then have c: "current_in (set ?V) v" by (auto simp: current_in_def live dest!: find_Some_mem)
    then have "?V \<noteq> []" "vd_superseded_at v = 0" by (auto simp: current_in_def)
    then show ?thesis using newest[OF c] Some cv by simp
  next
    case None
    then have "\<not> current_in (set ?V) v" for v unfolding find_None_iff by (auto simp: current_in_def live)
    moreover have "?V \<noteq> [] \<Longrightarrow> last (sort_key vd_id ?V) \<in> set ?V" by (metis last_in_set length_0_conv length_sort set_sort)
    ultimately show ?thesis using cv None by (auto simp: current_in_def)
  qed
  have st: "open_in (set ?W) w \<Longrightarrow> di_state x = ''archived''" for w by (rule reasons_wfD(8)[OF rs])
  show "open_withdrawal b x \<noteq> None \<longleftrightarrow> (\<exists>w. open_in (set ?W) w)"
  proof
    assume "open_withdrawal b x \<noteq> None"
    then show "\<exists>w. open_in (set ?W) w" using open_withdrawal_open(1)[OF inv x] by blast
  next
    assume "\<exists>w. open_in (set ?W) w"
    then obtain w where w: "open_in (set ?W) w" by blast
    have "item_withdrawals b ?i \<noteq> []" using w live_sorted(2)[OF asd] by (force simp: open_in_def)
    moreover have "w = last (item_withdrawals b ?i)" using newest_w[OF w] by (simp add: V)
    ultimately show "open_withdrawal b x \<noteq> None" using st[OF w] w by (auto simp: open_withdrawal_def open_in_def split: list.split)
  qed
qed

section \<open>A code of records\<close>

text \<open>
  Rows are countable, so there is a code of records as lines: the number of the record in unary, closed
  by another character. It shows that \<open>faithful\<close> can hold for every board.
\<close>

instance DecisionSnapshot_ext :: (countable) countable
proof (rule countable_classI[of "\<lambda>z. to_nat (ds_title z, ds_where z, ds_context z, ds_recommendation z, ds_commands z, DecisionSnapshot.more z)"])
  fix x y :: "'a DecisionSnapshot_scheme"
  assume "to_nat (ds_title x, ds_where x, ds_context x, ds_recommendation x, ds_commands x, DecisionSnapshot.more x)
    = to_nat (ds_title y, ds_where y, ds_context y, ds_recommendation y, ds_commands y, DecisionSnapshot.more y)"
  then show "x = y" by (cases x, cases y) simp
qed

instance itemRow_ext :: (countable) countable
proof (rule countable_classI[of "\<lambda>z. to_nat (di_id z, di_reference z, di_order z, di_title z, di_location z, di_agent_text z, di_context z, di_recommendation z,
      di_kind z, di_state z, di_commands z, di_revision z, di_author_family z, di_author_name z, di_author_participant z,
      di_created_at z, di_updated_at z, di_archived_at z, di_closed_by z, di_closed_at z, di_outcome_note z,
      di_mark_revision z, di_mark_file z, di_mark_offset z, di_verdict_count z, itemRow.more z)"])
  fix x y :: "'a itemRow_scheme"
  assume "to_nat (di_id x, di_reference x, di_order x, di_title x, di_location x, di_agent_text x, di_context x, di_recommendation x,
      di_kind x, di_state x, di_commands x, di_revision x, di_author_family x, di_author_name x, di_author_participant x,
      di_created_at x, di_updated_at x, di_archived_at x, di_closed_by x, di_closed_at x, di_outcome_note x,
      di_mark_revision x, di_mark_file x, di_mark_offset x, di_verdict_count x, itemRow.more x)
    = to_nat (di_id y, di_reference y, di_order y, di_title y, di_location y, di_agent_text y, di_context y, di_recommendation y,
      di_kind y, di_state y, di_commands y, di_revision y, di_author_family y, di_author_name y, di_author_participant y,
      di_created_at y, di_updated_at y, di_archived_at y, di_closed_by y, di_closed_at y, di_outcome_note y,
      di_mark_revision y, di_mark_file y, di_mark_offset y, di_verdict_count y, itemRow.more y)"
  then show "x = y" by (cases x, cases y) simp
qed

instance recipientRow_ext :: (countable) countable
proof (rule countable_classI[of "\<lambda>z. to_nat (dr_item_id z, dr_ordinal z, dr_name z, dr_kind z, dr_reason z, recipientRow.more z)"])
  fix x y :: "'a recipientRow_scheme"
  assume "to_nat (dr_item_id x, dr_ordinal x, dr_name x, dr_kind x, dr_reason x, recipientRow.more x)
    = to_nat (dr_item_id y, dr_ordinal y, dr_name y, dr_kind y, dr_reason y, recipientRow.more y)"
  then show "x = y" by (cases x, cases y) simp
qed

instance verdictRow_ext :: (countable) countable
proof (rule countable_classI[of "\<lambda>z. to_nat (vd_id z, vd_item_id z, vd_revision z, vd_verdict z, vd_note z, vd_created_at z, vd_snapshot z, vd_superseded_at z,
      vd_via z, verdictRow.more z)"])
  fix x y :: "'a verdictRow_scheme"
  assume "to_nat (vd_id x, vd_item_id x, vd_revision x, vd_verdict x, vd_note x, vd_created_at x, vd_snapshot x, vd_superseded_at x,
      vd_via x, verdictRow.more x)
    = to_nat (vd_id y, vd_item_id y, vd_revision y, vd_verdict y, vd_note y, vd_created_at y, vd_snapshot y, vd_superseded_at y,
      vd_via y, verdictRow.more y)"
  then show "x = y" by (cases x, cases y) simp
qed

instance deliveryRow_ext :: (countable) countable
proof (rule countable_classI[of "\<lambda>z. to_nat (dd_verdict_id z, dd_ordinal z, dd_kind z, dd_name z, dd_outcome z, dd_reason z, dd_message_id z, dd_acknowledged_at z,
      deliveryRow.more z)"])
  fix x y :: "'a deliveryRow_scheme"
  assume "to_nat (dd_verdict_id x, dd_ordinal x, dd_kind x, dd_name x, dd_outcome x, dd_reason x, dd_message_id x, dd_acknowledged_at x,
      deliveryRow.more x)
    = to_nat (dd_verdict_id y, dd_ordinal y, dd_kind y, dd_name y, dd_outcome y, dd_reason y, dd_message_id y, dd_acknowledged_at y,
      deliveryRow.more y)"
  then show "x = y" by (cases x, cases y) simp
qed

instance withdrawalRow_ext :: (countable) countable
proof (rule countable_classI[of "\<lambda>z. to_nat (dw_id z, dw_item_id z, dw_revision z, dw_family z, dw_name z, dw_reason z, dw_at z, dw_reopened_at z, dw_reopened_by z,
      withdrawalRow.more z)"])
  fix x y :: "'a withdrawalRow_scheme"
  assume "to_nat (dw_id x, dw_item_id x, dw_revision x, dw_family x, dw_name x, dw_reason x, dw_at x, dw_reopened_at x, dw_reopened_by x,
      withdrawalRow.more x)
    = to_nat (dw_id y, dw_item_id y, dw_revision y, dw_family y, dw_name y, dw_reason y, dw_at y, dw_reopened_at y, dw_reopened_by y,
      withdrawalRow.more y)"
  then show "x = y" by (cases x, cases y) simp
qed

instance decisionRecord_ext :: (countable) countable
proof (rule countable_classI[of "\<lambda>z. to_nat (dn_record z, dn_id z, dn_reference z, dn_revision z, dn_item z, dn_recipients z, dn_verdicts z, dn_deliveries z,
      dn_withdrawals z, dn_moved_at z, decisionRecord.more z)"])
  fix x y :: "'a decisionRecord_scheme"
  assume "to_nat (dn_record x, dn_id x, dn_reference x, dn_revision x, dn_item x, dn_recipients x, dn_verdicts x, dn_deliveries x,
      dn_withdrawals x, dn_moved_at x, decisionRecord.more x)
    = to_nat (dn_record y, dn_id y, dn_reference y, dn_revision y, dn_item y, dn_recipients y, dn_verdicts y, dn_deliveries y,
      dn_withdrawals y, dn_moved_at y, decisionRecord.more y)"
  then show "x = y" by (cases x, cases y) simp
qed

definition unary_line :: "decisionRecord \<Rightarrow> string" where
  "unary_line r = replicate (to_nat r) CHR ''r'' @ ''.''"

definition unary_parse :: decoder where
  "unary_parse s = (if s \<noteq> [] \<and> last s = CHR ''.'' \<and> (\<forall>c\<in>set (butlast s). c = CHR ''r'') then Some (from_nat (length s - 1)) else None)"

lemma unary_faithful:
  assumes "lv_line l = unary_line" "lv_parse l = unary_parse"
  shows "faithful l t"
proof -
  have "codec_ok l r" for r
  proof -
    have "newline \<notin> set (unary_line r)" by (simp add: unary_line_def newline_def)
    moreover have "unary_parse (unary_line r) = Some r" by (simp add: unary_line_def unary_parse_def)
    moreover have "unary_parse (take k (unary_line r)) = None" if "k < length (unary_line r)" for k
    proof -
      have "take k (unary_line r) = replicate k CHR ''r''" using that by (simp add: unary_line_def)
      then show ?thesis by (cases k) (simp_all add: unary_parse_def del: replicate_Suc last_replicate, simp)
    qed
    ultimately show ?thesis unfolding codec_ok_def assms by blast
  qed
  moreover have "unary_parse [] = None" by (simp add: unary_parse_def)
  ultimately show ?thesis by (simp add: faithful_def assms)
qed

section \<open>Deliveries\<close>

lemma resolve_name_Inr:
  assumes "resolve_name now name d = Inr (reason, kind, k, d1)"
  shows "names d1 = names d \<and> messages d1 = messages d" and "reason = [] \<longrightarrow> (\<exists>m\<in>set (names d). n_name m = name
    \<and> k = key (n_family m) (if n_kind m = ''alias'' then participantKey name else n_session_id m))"
  using assms unfolding resolve_name_def ensureParticipantInbox_def
  by (auto split: option.splits if_split_asm dest!: find_Some_mem)

text \<open>A message in the inbox that the name leads to, about one verdict.\<close>

definition told :: "db \<Rightarrow> int \<Rightarrow> string \<Rightarrow> int \<Rightarrow> messageRow \<Rightarrow> bool" where
  "told d v name i g \<longleftrightarrow> g_id g = i \<and> g_decision_verdict g = v \<and> g_system_kind g = decisionVerdictKind
     \<and> (\<exists>m\<in>set (names d). n_name m = name \<and> g_recipient_family g = n_family m
          \<and> g_recipient_id g = (if n_kind m = ''alias'' then participantKey name else n_session_id m))"

lemma send_verdict_Inr:
  assumes "send_verdict now body v name d = Inr (reason, kind, i, d1)"
  shows "names d1 = names d \<and> (if reason = [] then \<exists>j g. i = Some j \<and> messages d1 = messages d @ [g] \<and> told d v name j g
    else i = None \<and> messages d1 = messages d)"
proof -
  obtain reason0 k d0 where r: "resolve_name now name d = Inr (reason0, kind, k, d0)" 
    "(reason, i, d1) = (reason0, None, d0) \<and> reason0 \<noteq> [] \<or> reason0 = [] \<and> (\<exists>j. room_copy now k (verdict_message now body v k) d0 = Inr (j, d1)
      \<and> (if j = None then reason = ''recipient_inactive'' \<and> i = None else reason = [] \<and> i = j))"
    using assms unfolding send_verdict_def by (auto split: if_split_asm)
  note n = resolve_name_Inr[OF r(1)]
  show ?thesis
  proof (cases "reason0 = []")
    case True
    then obtain j where j: "room_copy now k (verdict_message now body v k) d0 = Inr (j, d1)"
      "if j = None then reason = ''recipient_inactive'' \<and> i = None else reason = [] \<and> i = j" using r(2) by auto
    show ?thesis
    proof (cases "next_seq now k d0")
      case None
      then show ?thesis using j n by (simp add: room_copy_def)
    next
      case (Some p)
      obtain s d2 where p: "p = (s, d2)" by (cases p)
      have d2: "names d2 = names d" "messages d2 = messages d" using Some n(1) unfolding p by (auto simp: next_seq_def Let_def)
      let ?g = "verdict_message now body v k (message_ids d2 + 1) s"
      have c: "j = Some (message_ids d2 + 1)" "names d1 = names d" "messages d1 = messages d @ [?g]"
        using j(1) d2 unfolding room_copy_def Some p by (auto simp: Let_def insert_message_def split: if_split_asm)
      moreover have "told d v name (message_ids d2 + 1) ?g" using n(2) True by (auto simp: told_def verdict_message_def plain_message_def)
      ultimately show ?thesis using j(2) by auto
    qed
  qed (use r(2) n in auto)
qed


text \<open>What a delivery row says: its message is among the new ones, or the reason there is none.\<close>

definition reported :: "db \<Rightarrow> messageRow list \<Rightarrow> deliveryRow \<Rightarrow> bool" where
  "reported d new q \<longleftrightarrow> (if dd_outcome q = ''queued'' then \<exists>g\<in>set new. told d (dd_verdict_id q) (dd_name q) (dd_message_id q) g
     else dd_outcome q = ''skipped'' \<and> dd_reason q \<noteq> [] \<and> dd_message_id q = 0)"

lemma reported_more: "reported d new q \<Longrightarrow> set new \<subseteq> set new' \<Longrightarrow> names d' = names d \<Longrightarrow> reported d' new' q"
  by (auto simp: reported_def told_def split: if_splits)

lemma deliver_reported:
  assumes "deliver_verdicts now v n ns body (d, b) = Inr (rs, (d', b'))"
  shows "\<exists>ds new. bd_deliveries b' = bd_deliveries b @ ds \<and> messages d' = messages d @ new \<and> names d' = names d
    \<and> list_all (reported d new) ds \<and> length new = length (filter (\<lambda>q. dd_outcome q = ''queued'') ds)"
  using assms
proof (induction ns arbitrary: n d b rs)
  case (Cons name ns)
  obtain reason kind i d1 where s: "send_verdict now body v name d = Inr (reason, kind, i, d1)"
    using Cons.prems by (auto simp: deliverVerdict_def)
  define q where "q = delivery_of v n name reason kind i"
  let ?b1 = "b\<lparr>bd_deliveries := bd_deliveries b @ [q]\<rparr>"
  obtain rs' where "deliver_verdicts now v (n + 1) ns body (d1, ?b1) = Inr (rs', (d', b'))"
    using Cons.prems s by (auto simp: deliverVerdict_def Let_def q_def)
  from Cons.IH[OF this] obtain ds new where ds: "bd_deliveries b' = bd_deliveries b @ q # ds" "messages d' = messages d1 @ new" "names d' = names d1"
    "list_all (reported d1 new) ds" "length new = length (filter (\<lambda>q. dd_outcome q = ''queued'') ds)" by auto
  note t = send_verdict_Inr[OF s]
  have q: "dd_verdict_id q = v" "dd_name q = name" "dd_outcome q = (if reason = [] then ''queued'' else ''skipped'')" "dd_reason q = reason"
    "dd_message_id q = (case i of None \<Rightarrow> 0 | Some m \<Rightarrow> m)" by (simp_all add: q_def delivery_of_def)
  have later: "reported d new' p" if "reported d1 new p" "set new \<subseteq> set new'" for p new' using reported_more[OF that] t by simp
  show ?case
  proof (cases "reason = []")
    case True
    then obtain j g where g: "i = Some j" "messages d1 = messages d @ [g]" "told d v name j g" using t by auto
    have "reported d (g # new) q" using g True by (simp add: reported_def q)
    moreover have "list_all (reported d (g # new)) ds" using ds(4) later[of _ "g # new"] by (auto simp: list_all_iff)
    ultimately show ?thesis using ds g t True q(3) by (intro exI[of _ "q # ds"] exI[of _ "g # new"]) simp
  next
    case False
    then have m: "i = None" "messages d1 = messages d" using t by auto
    have "reported d new q" using m False by (simp add: reported_def q)
    moreover have "list_all (reported d new) ds" using ds(4) later[of _ new] by (auto simp: list_all_iff)
    ultimately show ?thesis using ds m t False q(3) by (intro exI[of _ "q # ds"] exI[of _ new]) simp
  qed
qed simp

section \<open>Theorems\<close>

definition demo_board_env :: "int \<Rightarrow> board_env" where
  "demo_board_env now = \<lparr>bv_ext = demo_ext, bv_limits = defaultMemoryLimits, bv_admit = (\<lambda>_ _. Inr ()), bv_commit = (\<lambda>_ _. Inr ()), bv_now = now,
     bv_clock = 1, bv_float_text = (\<lambda>_. ''2''), bv_quote = id, bv_time_text = (\<lambda>_. ''t''), bv_request_json = (\<lambda>r _ _. r), bv_summary_bytes = (\<lambda>_. 10),
     bv_origin = ''dashboard''\<rparr>"

definition demo_log_env :: "decoder \<Rightarrow> int \<Rightarrow> log_env" where
  "demo_log_env parse now = \<lparr>lv_env = demo_board_env now, lv_root = ''/k'', lv_month = (\<lambda>_. ''2026-01''), lv_line = unary_line, lv_parse = parse,
     lv_open = (\<lambda>_. None), lv_write = (\<lambda>_. None), lv_sync = None\<rparr>"

definition demo_fields :: DecisionFields where
  "demo_fields = no_fields\<lparr>fd_title := Some ''t'', fd_kind := Some ''decision'', fd_recipients := Some [''deepseek-app-07'']\<rparr>"

definition demo_created :: "decoder \<Rightarrow> store" where
  "demo_created parse = board_step (demo_log_env parse 1000) (OpCreate (key ''deepseek'' ''s2'') ''A-1'' demo_fields ''k'' 2) (demo_registry, empty_board)"

definition demo_decided :: "decoder \<Rightarrow> store" where
  "demo_decided parse = board_step (demo_log_env parse 2000) (OpVerdict ''A-1'' 1 ''approved'' []) (demo_created parse)"

lemma board_demo_run: "(store_step parse)\<^sup>*\<^sup>* (demo_registry, empty_board) (demo_created parse)" "(store_step parse)\<^sup>*\<^sup>* (demo_registry, empty_board) (demo_decided parse)"
proof -
  have a: "store_step parse (demo_registry, empty_board) (demo_created parse)"
    unfolding demo_created_def by (rule board_request) (simp_all add: demo_log_env_def demo_board_env_def)
  have b: "store_step parse (demo_created parse) (demo_decided parse)"
    unfolding demo_decided_def by (rule board_request) (simp_all add: demo_log_env_def demo_board_env_def)
  show "(store_step parse)\<^sup>*\<^sup>* (demo_registry, empty_board) (demo_created parse)" using a by blast
  then show "(store_step parse)\<^sup>*\<^sup>* (demo_registry, empty_board) (demo_decided parse)" using b by (rule rtranclp.rtrancl_into_rtrancl)
qed

text \<open>
  C20. The state of an item agrees with its verdicts and withdrawals in every reachable state of the board.
  The item has at most one verdict that is not superseded and \<open>currentVerdict\<close>, which reads only the
  latest row, finds it: it was given on the item's present revision and is the reason for its state, and
  no withdrawal is open. Without one the item is active, or it is archived by an open withdrawal. The
  verdict count is the number of its verdict rows.
\<close>

theorem verdict_and_state_agree:
  assumes "(store_step parse)\<^sup>*\<^sup>* (d0, empty_board) (d, b)" and "x \<in> set (bd_items b)"
  shows "(case currentVerdict b (di_id x) False of
       Some v \<Rightarrow> dv_revision v = di_revision x \<and> standing (dv_verdict v) (di_state x) \<and> open_withdrawal b x = None
     | None \<Rightarrow> di_state x = (if open_withdrawal b x = None then ''active'' else ''archived''))
    \<and> length (filter (\<lambda>v. vd_item_id v = di_id x \<and> vd_superseded_at v = 0) (bd_verdicts b)) \<le> 1
    \<and> di_verdict_count x = int (length (filter (\<lambda>v. vd_item_id v = di_id x) (bd_verdicts b)))"
proof -
  have inv: "board_inv parse b" using reachable_inv[OF assms(1)] by simp
  note live = live_rows[OF aside_live[OF inv assms(2)]] and cur = last_current[OF inv assms(2)] and facts = item_facts[OF inv assms(2)]
  let ?V = "set (its_verdicts (whole parse b) (di_id x))" and ?W = "set (its_withdrawals (whole parse b) (di_id x))"
  let ?cur = "List.find (\<lambda>v. vd_item_id v = di_id x \<and> vd_superseded_at v = 0) (bd_verdicts b)"
  have find: "?cur = Some v \<Longrightarrow> current_in ?V v" "?cur = None \<Longrightarrow> \<not> current_in ?V v" for v
    by (auto simp: current_in_def live find_None_iff dest!: find_Some_mem)
  have "case currentVerdict b (di_id x) False of
       Some v \<Rightarrow> dv_revision v = di_revision x \<and> standing (dv_verdict v) (di_state x) \<and> open_withdrawal b x = None
     | None \<Rightarrow> di_state x = (if open_withdrawal b x = None then ''active'' else ''archived'')"
  proof (cases ?cur)
    case None
    then have "\<not> (\<exists>v. current_in ?V v)" using find(2) by blast
    then have "di_state x = (if open_withdrawal b x = None then ''active'' else ''archived'')"
      using reasons_wfD(8,9)[OF facts(3)] cur(2) by auto
    then show ?thesis using cur(1) None by simp
  next
    case (Some v)
    have c: "current_in ?V v" by (rule find(1)[OF Some])
    have "di_state x \<noteq> ''active''" using reasons_none(2)[OF facts(3)] c by blast
    then have "open_withdrawal b x = None" using reasons_wfD(9)[OF facts(3)] c cur(2) by auto
    then show ?thesis using cur(1) Some reasons_wfD(4,5)[OF facts(3) c] by (simp add: verdict_view_def)
  qed
  moreover have "length (filter (\<lambda>v. vd_item_id v = di_id x \<and> vd_superseded_at v = 0) (bd_verdicts b)) \<le> 1"
  proof -
    let ?F = "filter (\<lambda>v. vd_item_id v = di_id x \<and> vd_superseded_at v = 0) (bd_verdicts b)"
    have "distinct (map vd_id (bd_verdicts b))" using board_invD(1)[OF inv] by (simp add: board_wf_def tables_wf_def keys_wf_def whole_def)
    then have d: "distinct (map vd_id ?F)" by (rule distinct_map_filter)
    have "vd_id u = vd_id v" if "u \<in> set ?F" "v \<in> set ?F" for u v
    proof -
      have u: "current_in ?V u" "u \<in> ?V" and v: "current_in ?V v" "v \<in> ?V" using that by (simp_all add: current_in_def live)
      show ?thesis using reasons_wfD(3)[OF facts(3) u(1) v(2)] reasons_wfD(3)[OF facts(3) v(1) u(2)] by simp
    qed
    then show ?thesis by (rule one_key[OF d])
  qed
  moreover have "di_verdict_count x = int (length (filter (\<lambda>v. vd_item_id v = di_id x) (bd_verdicts b)))" using facts(2) live(2) by simp
  ultimately show ?thesis by blast
qed

lemma demo_created_size: "length (bd_items (snd (demo_created (\<lambda>_. None)))) = 1"
  by code_simp

theorem verdict_and_state_agree_witness:
  "length (bd_items (snd (demo_created (\<lambda>_. None)))) = 1 \<and> (let b = snd (demo_created (\<lambda>_. None)); x = hd (bd_items b) in
    (case currentVerdict b (di_id x) False of
       Some v \<Rightarrow> dv_revision v = di_revision x \<and> standing (dv_verdict v) (di_state x) \<and> open_withdrawal b x = None
     | None \<Rightarrow> di_state x = (if open_withdrawal b x = None then ''active'' else ''archived''))
    \<and> length (filter (\<lambda>v. vd_item_id v = di_id x \<and> vd_superseded_at v = 0) (bd_verdicts b)) \<le> 1
    \<and> di_verdict_count x = int (length (filter (\<lambda>v. vd_item_id v = di_id x) (bd_verdicts b))))"
proof -
  let ?s = "demo_created (\<lambda>_. None)"
  have run: "(store_step (\<lambda>_. None))\<^sup>*\<^sup>* (demo_registry, empty_board) (fst ?s, snd ?s)" using board_demo_run(1) by simp
  have "hd (bd_items (snd ?s)) \<in> set (bd_items (snd ?s))" using demo_created_size by (cases "bd_items (snd ?s)") auto
  from verdict_and_state_agree[OF run this] show ?thesis using demo_created_size unfolding Let_def by blast
qed

text \<open>
  C23. The board refines an abstract board of cards, each a reference with a state and a revision: over any
  run of requests and sweeps, whatever else changes in the database meanwhile, a card is only created,
  decided, closed, withdrawn or revised to the next revision. No card disappears, not by a sweep into the
  deep archive nor by a restore, and no revision goes back.
\<close>

theorem board_refines_cards:
  assumes "(store_step parse)\<^sup>*\<^sup>* (d0, empty_board) s" and "(store_step parse)\<^sup>*\<^sup>* s s'"
  shows "card_step\<^sup>*\<^sup>* (cards_of (whole parse (snd s))) (cards_of (whole parse (snd s')))"
  using run_advance[OF assms(2) reachable_inv[OF assms(1)]] by (simp add: advance_def)

theorem board_refines_cards_witness:
  "card_step\<^sup>*\<^sup>* (cards_of (whole (\<lambda>_. None) empty_board)) (cards_of (whole (\<lambda>_. None) (snd (demo_decided (\<lambda>_. None)))))"
  using board_refines_cards[OF rtranclp.rtrancl_refl board_demo_run(2)] by simp

text \<open>
  C10. A sweep of the deep archive keeps every row. From any reachable state, and wherever the sweep stops
  (a refused admission, a failed commit, write or sync), the rows in the database and the rows of the
  archived lines together are the rows from before, up to the marks of the items. Needed of
  \<open>encoding/json\<close> is that the record of rows of the board is one line which decodes to it and no proper
  prefix of which decodes.
\<close>

theorem sweep_keeps_every_row:
  assumes "(store_step parse)\<^sup>*\<^sup>* (d0, empty_board) s" and "lv_parse l = parse" and "faithful l (whole parse (snd s))"
  shows "permuted (unmark (whole parse (snd s))) (unmark (whole parse (snd (snd (archiveDecisions l s)))))"
  using archiveDecisions_swept[of l s] reachable_inv[OF assms(1)] assms(2,3) by (simp add: swept_def)

theorem sweep_keeps_every_row_witness:
  "permuted (unmark (whole unary_parse (snd (demo_created unary_parse))))
     (unmark (whole unary_parse (snd (snd (archiveDecisions (demo_log_env unary_parse 3000) (demo_created unary_parse))))))"
  using sweep_keeps_every_row[OF board_demo_run(1), of "demo_log_env unary_parse 3000"] unary_faithful by (simp add: demo_log_env_def)

text \<open>A record in a log, its locator, and a board that holds nothing else.\<close>

definition demo_record :: decisionRecord where
  "demo_record = \<lparr>dn_record = decisionRecordMarker, dn_id = 1, dn_reference = ''A-1'', dn_revision = 1,
     dn_item = \<lparr>di_id = 1, di_reference = ''A-1'', di_order = 1, di_title = ''t'', di_location = [], di_agent_text = [], di_context = [],
       di_recommendation = [], di_kind = ''decision'', di_state = ''archived'', di_commands = [], di_revision = 1, di_author_family = ''deepseek'',
       di_author_name = ''deepseek-app-08'', di_author_participant = [], di_created_at = 1, di_updated_at = 2, di_archived_at = 2, di_closed_by = [],
       di_closed_at = 0, di_outcome_note = [], di_mark_revision = 1, di_mark_file = ''decisions/2026-01.jsonl'', di_mark_offset = 0, di_verdict_count = 0\<rparr>,
     dn_recipients = [\<lparr>dr_item_id = 1, dr_ordinal = 0, dr_name = ''deepseek-app-07'', dr_kind = ''peer'', dr_reason = []\<rparr>], dn_verdicts = [],
     dn_deliveries = [], dn_withdrawals = [\<lparr>dw_id = 1, dw_item_id = 1, dw_revision = 1, dw_family = ''deepseek'', dw_name = ''deepseek-app-08'',
       dw_reason = ''x'', dw_at = 2, dw_reopened_at = 0, dw_reopened_by = []\<rparr>], dn_moved_at = 3\<rparr>"

definition demo_locator :: locatorRow where
  "demo_locator = \<lparr>dp_reference = ''A-1'', dp_file = ''decisions/2026-01.jsonl'', dp_offset = 0, dp_length = 2, dp_moved_at = 3\<rparr>"

definition demo_parse :: decoder where
  "demo_parse s = (if s = ''r'' then Some demo_record else None)"

definition demo_archived :: board where
  "demo_archived = empty_board\<lparr>bd_item_ids := 1, bd_withdrawal_ids := 1, bd_archive := [demo_locator],
     bd_logs := (\<lambda>n. if n = ''decisions/2026-01.jsonl'' then Some [CHR ''r'', newline] else None)\<rparr>"

lemma demo_rec: "rec_at demo_parse demo_archived demo_locator = Some demo_record"
proof -
  have "line_at (log_text demo_archived (dp_file demo_locator)) (nat (dp_offset demo_locator)) = Some (''r'' @ [newline])"
    by (simp add: line_at_text text_at_def log_text_def demo_archived_def demo_locator_def newline_def)
  then show ?thesis unfolding rec_at_def by (simp only: option.case trim_line) (simp add: demo_parse_def demo_locator_def demo_record_def)
qed

lemma demo_name: "decisionLogName ''decisions/2026-01.jsonl''"
  by code_simp

lemma demo_whole: "whole demo_parse demo_archived = \<lparr>tb_items = [dn_item demo_record], tb_recipients = dn_recipients demo_record, tb_verdicts = [],
    tb_deliveries = [], tb_withdrawals = dn_withdrawals demo_record\<rparr>"
proof -
  have "recs demo_parse demo_archived = [demo_record]" using demo_rec by (simp add: recs_def demo_archived_def)
  then show ?thesis by (simp add: whole_def demo_archived_def empty_board_def) (simp add: demo_record_def)
qed

lemma demo_archived_inv: "board_inv demo_parse demo_archived"
proof -
  have "own_rows demo_record" by (simp add: own_rows_def demo_record_def)
  then have "archive_wf demo_parse demo_archived" using demo_rec demo_name
    by (simp add: archive_wf_def locator_ok_def demo_archived_def) (simp add: demo_locator_def)
  moreover have "tables_wf 1 0 1 (whole demo_parse demo_archived)" unfolding demo_whole
    by (simp add: tables_wf_def keys_wf_def links_wf_def demo_record_def known_item_def known_verdict_def item_wf_def item_checks_def its_verdicts_def its_withdrawals_def
        reasons_wf_def current_in_def open_in_def)
  ultimately show ?thesis by (simp add: board_inv_def board_wf_def rows_home_def demo_archived_def empty_board_def)
qed

theorem archived_record_restored_witness:
  "\<exists>r. rec_at demo_parse demo_archived demo_locator = Some r \<and> (let b' = bump_board (restored_board 3000 demo_locator r demo_archived) in
    DecisionRestore (demo_log_env demo_parse 3000) (key ''deepseek'' ''s2'') ''A-1'' 0 (demo_registry, demo_archived)
      = (Inr (item_view (demo_board_env 3000) (demo_registry, b') (restored_item 3000 r)), (demo_registry, b')))"
proof -
  have *: "activeCaller demo_registry 3000 (key ''deepseek'' ''s2'') False = Inr ()" by code_simp
  have "checkReference ''A-1'' = Inr ()" by code_simp
  moreover have "validKey ''deepseek'' ''s2''" by code_simp
  moreover have "demo_locator \<in> set (bd_archive demo_archived)" by (simp add: demo_archived_def)
  ultimately show ?thesis
    using archived_record_restored[of "demo_log_env demo_parse 3000" demo_archived demo_locator "key ''deepseek'' ''s2''" demo_registry _ 0] demo_archived_inv *
    by (simp add: demo_log_env_def demo_board_env_def demo_locator_def)
qed

text \<open>A board with one item for information and one recipient.\<close>

definition demo_notice :: board where
  "demo_notice = empty_board\<lparr>bd_items := [(dn_item demo_record)\<lparr>di_kind := ''fyi'', di_state := ''active'', di_archived_at := 0, di_mark_revision := 0,
     di_mark_file := []\<rparr>], bd_item_ids := 1, bd_recipients := dn_recipients demo_record\<rparr>"

definition demo_given :: "DecisionVerdict outcome" where
  "demo_given = giveVerdict (demo_board_env 2000) ''A-1'' 1 ''acknowledged'' [] (demo_registry, demo_notice)"

lemma demo_told: "case fst demo_given of Inl _ \<Rightarrow> False | Inr _ \<Rightarrow> True"
  by code_simp

text \<open>
  C33. A verdict that is given reaches every name. It is on the revision that the caller saw of an active
  item and one that the kind of the item takes; it adds one verdict row with the snapshot of the item,
  moves the item to the state of the verdict, and adds for each recipient and for the author, in order,
  one delivery row: queued with a new message about this verdict in the inbox that the name leads to,
  or skipped with a reason. No other message is sent.
\<close>

theorem verdict_reaches_every_name:
  assumes "giveVerdict e ref n v note (d, b) = (Inr a, (d', b'))"
  shows "\<exists>x ds new. decisionRow b ref = Inr x \<and> di_revision x = n \<and> di_state x = ''active'' \<and> v \<in> set (kindVerdicts (di_kind x))
    \<and> bd_items b' = update_where (\<lambda>r. di_id r = di_id x) (decided (bv_now e) v) (bd_items b)
    \<and> bd_verdicts b' = bd_verdicts b @ [new_verdict e x v note b]
    \<and> bd_deliveries b' = bd_deliveries b @ ds \<and> map dd_name ds = withAuthor d (bv_now e) x (recipientNames b (di_id x))
    \<and> messages d' = messages d @ new \<and> length new = length (filter (\<lambda>q. dd_outcome q = ''queued'') ds)
    \<and> list_all (\<lambda>q. dd_verdict_id q = bd_verdict_ids b + 1 \<and> reported d new q) ds"
proof -
  have "give_verdict e ref n v note (d, b) = Inr (a, (d', b'))"
    using assms by (auto simp: giveVerdict_def board_tx_def split: sum.splits)
  then show ?thesis
  proof (rule give_verdict_Inr)
    fix x row b1 ds body rs
    assume x: "decisionRow b ref = Inr x" "di_revision x = n" "di_state x = ''active''" "v \<in> set (kindVerdicts (di_kind x))"
      and row: "row = new_verdict e x v note b"
      and b1: "b1 = set_item (di_id x) (decided (bv_now e) v) (b\<lparr>bd_verdicts := bd_verdicts b @ [row], bd_verdict_ids := vd_id row\<rparr>)"
      and dl: "deliver_verdicts (bv_now e) (vd_id row) 0 (withAuthor d (bv_now e) x (recipientNames b (di_id x))) body (d, bump_board b1) = Inr (rs, (d', b'))"
      and b': "b' = (bump_board b1)\<lparr>bd_deliveries := bd_deliveries b1 @ ds\<rparr>"
      and ds: "map dd_name ds = withAuthor d (bv_now e) x (recipientNames b (di_id x))"
        "\<forall>q\<in>set ds. dd_verdict_id q = vd_id row \<and> dd_outcome q \<in> {''queued'', ''skipped''}"
    have del: "bd_deliveries (bump_board b1) = bd_deliveries b" by (simp add: b1 bump_board_def set_item_def)
    from deliver_reported[OF dl] obtain ds' new where n: "bd_deliveries b' = bd_deliveries b @ ds'" "messages d' = messages d @ new"
      "list_all (reported d new) ds'" "length new = length (filter (\<lambda>q. dd_outcome q = ''queued'') ds')" unfolding del by auto
    have "ds' = ds" using n(1) b' del by (simp add: bump_board_def)
    moreover have "bd_items b' = update_where (\<lambda>r. di_id r = di_id x) (decided (bv_now e) v) (bd_items b)" "bd_verdicts b' = bd_verdicts b @ [row]"
      by (simp_all add: b' b1 bump_board_def set_item_def)
    moreover have "vd_id row = bd_verdict_ids b + 1" by (simp add: row new_verdict_def)
    ultimately show ?thesis using x row ds n by (intro exI[of _ x] exI[of _ ds] exI[of _ new]) (simp add: list_all_iff)
  qed
qed

theorem verdict_reaches_every_name_witness:
  "\<exists>x ds new. decisionRow demo_notice ''A-1'' = Inr x \<and> di_revision x = 1 \<and> di_state x = ''active'' \<and> ''acknowledged'' \<in> set (kindVerdicts (di_kind x))
    \<and> bd_items (snd (snd demo_given)) = update_where (\<lambda>r. di_id r = di_id x) (decided 2000 ''acknowledged'') (bd_items demo_notice)
    \<and> bd_verdicts (snd (snd demo_given)) = bd_verdicts demo_notice @ [new_verdict (demo_board_env 2000) x ''acknowledged'' [] demo_notice]
    \<and> bd_deliveries (snd (snd demo_given)) = bd_deliveries demo_notice @ ds \<and> map dd_name ds = withAuthor demo_registry 2000 x (recipientNames demo_notice (di_id x))
    \<and> messages (fst (snd demo_given)) = messages demo_registry @ new \<and> length new = length (filter (\<lambda>q. dd_outcome q = ''queued'') ds)
    \<and> list_all (\<lambda>q. dd_verdict_id q = bd_verdict_ids demo_notice + 1 \<and> reported demo_registry new q) ds"
proof -
  obtain a where "fst demo_given = Inr a" using demo_told by (cases "fst demo_given") (auto simp: demo_given_def)
  then have "giveVerdict (demo_board_env 2000) ''A-1'' 1 ''acknowledged'' [] (demo_registry, demo_notice) = (Inr a, (fst (snd demo_given), snd (snd demo_given)))"
    unfolding demo_given_def by (metis prod.collapse)
  from verdict_reaches_every_name[OF this] show ?thesis by (simp add: demo_board_env_def)
qed

end
