(* ===== verification/Spec2Isabelle.thy ===== *)
theory Spec2Isabelle
  imports Cycle_Safety Room_Runs Work_Runs Work_Reclaim Memory_Expiry Memory_Delivery Board_Runs
begin

text \<open>
  Verification of the core of Koinon, a daemon through which coding assistants on one machine register,
  exchange messages, claim files, share work items and notes, and put decisions before a maintainer. The
  program's own logic is the Go package \<^verbatim>\<open>internal/core\<close>: each request reads and writes one SQLite
  database inside one transaction and answers a result or a typed error. This development models those
  transactions as functions on a record of tables and proves what they guarantee over every run.

  \<^bold>\<open>How the model is built\<close>

  \<^item> \<open>Prelude\<close> has the result sum \<open>kerror + 'a\<close> with \<open>rbind\<close> and \<open>guard\<close> (a Go function that returns an
    error is a function into it, and every early return is a branch), updates of rows, and the locales
    of state machines: \<open>guarded_machine\<close>, \<open>timed_machine\<close>, \<open>monotone_machine\<close> and \<open>refining_machine\<close>. A
    component interprets one of them on its own step function and gets its theorems over runs.
  \<^item> \<open>Go_Strings\<close> has the parts of Go's \<^verbatim>\<open>strings\<close>, \<^verbatim>\<open>unicode/utf8\<close>, \<^verbatim>\<open>strconv\<close> and \<^verbatim>\<open>path\<close> that are
    called. A string is a list of bytes.
  \<^item> \<open>Database\<close> has the tables as records and the state \<open>db\<close>. A table is a list of rows in insertion
    order; a unique index or a CHECK of the schema is a test of the insert, whose violation is an error
    of the request. The decision board keeps its tables in a second record, \<open>board\<close>, since its deep
    archive also owns files; a \<open>store\<close> is the pair.
  \<^item> A transaction that fails leaves the state alone. A request of several transactions keeps what the
    earlier ones committed, so an operation returns its outcome beside the state it leaves.
  \<^item> A time in milliseconds is an \<open>int\<close>, a clock that the code keeps as a float of seconds is a \<open>rat\<close>.
    The counters and sequences of the code are 64-bit and are bounded by its own limits far below
    overflow; they are \<open>int\<close>.

  \<^bold>\<open>Components\<close>, each with its model and the theories of its theorems

  \<^item> Lease engine (\<^verbatim>\<open>claims.go\<close>, \<^verbatim>\<open>context_cycle_claims.go\<close>): \<open>Claims\<close>; \<open>Lease\<close>. Active claims never overlap
    between sessions, a claim that lapsed is fenced, an acquire is granted exactly when nothing
    conflicts, reclamation always ends a due claim, and the prefix test is the overlap of path
    components. One theorem records that the extension of claims by a cycle revives a claim which
    lapsed within the current millisecond.
  \<^item> Storage boundary (\<^verbatim>\<open>storage.go\<close>): \<open>Storage\<close>. Page ceilings, the debt of pages that funded ends
    reserve, blocked storage and its recovery.
  \<^item> Managed context cycle (\<^verbatim>\<open>context_cycle.go\<close>, \<^verbatim>\<open>context_cycle_retry.go\<close>): \<open>Cycle\<close>; \<open>Cycle_Safety\<close>. Exact
    event and credit accounting, ends that always commit, revisions that identify a row, and no
    unproven input that ends as failed.
  \<^item> Session registry, participants and launches (\<^verbatim>\<open>store.go\<close>, \<^verbatim>\<open>names.go\<close>, \<^verbatim>\<open>participants.go\<close>,
    \<^verbatim>\<open>succession.go\<close>, \<^verbatim>\<open>launch.go\<close>): \<open>Sessions\<close>, \<open>Launch\<close>, \<open>Registry\<close>, \<open>Participants\<close>; \<open>Registry_Interface\<close> (the
    locale \<open>registry_relation\<close>: a relation kept by each elementary write is kept by every request),
    \<open>Registry_Safety\<close>, \<open>Registry_Runs\<close>. Fences, permanent names, one holder per address.
  \<^item> Messaging (\<^verbatim>\<open>messages.go\<close>): \<open>Messaging\<close>; \<open>Mail_Safety\<close>, \<open>Mail_Runs\<close>. Gapless sequences, a refinement of
    abstract mailboxes, delivery of every message to a client that reads page after page.
  \<^item> Rooms (\<^verbatim>\<open>rooms.go\<close>, \<^verbatim>\<open>room_posts.go\<close>): \<open>Rooms\<close>; \<open>Room_Mail\<close>, \<open>Room_Safety\<close>, \<open>Room_Ops\<close>, \<open>Room_Runs\<close>. What a
    post writes and that it stays delivered, keyed retries, transcripts that account for each sequence.
  \<^item> Memory store (\<^verbatim>\<open>memory.go\<close>): \<open>Memory\<close> (limits, usage, admission, expiry) and \<open>Memory_Notes\<close> (notes,
    cursors, snapshots, deltas, recall); \<open>Memory_Expiry\<close>, \<open>Memory_Stream\<close>, \<open>Memory_Delivery\<close>. Expiry ends and
    removes exactly what is outlived; subscriptions refine an abstract feed; a delta misses nothing.
  \<^item> Work items (\<^verbatim>\<open>work.go\<close>, \<^verbatim>\<open>work_role.go\<close>, \<^verbatim>\<open>work_verdict.go\<close>, \<^verbatim>\<open>work_maintenance.go\<close>): \<open>Work_Request\<close>,
    \<open>Work\<close>; \<open>Work_Types\<close>, \<open>Work_Interface\<close> (the locales \<open>store_interface\<close> and \<open>work_interface\<close>: what each
    transaction body keeps, every request and sweep keeps), \<open>Work_Safety\<close>, \<open>Work_Replay\<close>, \<open>Work_Runs\<close>,
    \<open>Work_Reclaim\<close>. Lifecycle refinement, gapless histories, claims that follow their item, keyed
    retries, bounded verdicts, reclamation.
  \<^item> Adoption library (\<^verbatim>\<open>internal/library\<close>, \<^verbatim>\<open>library_decision.go\<close>, \<^verbatim>\<open>library_project.go\<close>): \<open>Library\<close>, the
    decisions that notes of the memory store carry.
  \<^item> Decision board (\<^verbatim>\<open>decisions.go\<close>, \<^verbatim>\<open>decision_record.go\<close>, \<^verbatim>\<open>decision_verdicts.go\<close>) and its deep archive
    (\<^verbatim>\<open>decision_archive.go\<close>): \<open>Decisions\<close>, \<open>Verdicts\<close>, \<open>Deep_Archive\<close>; \<open>Board_Tables\<close>, \<open>Board_Safety\<close>,
    \<open>Board_Ops\<close>, \<open>Board_Archive\<close>, \<open>Board_Restore\<close>, \<open>Board_Runs\<close>. State and verdicts agree, the board refines
    abstract cards, a sweep into the archive keeps every row wherever it stops, an archived record can
    be restored, and a verdict reaches every recipient and the author.

  Rooms, work items, cycles, registration and verdicts deposit messages through \<open>Messaging\<close>; work items and
  cycles hold claims of \<open>Claims\<close> and credits that \<open>Storage\<close> counts; work items live in a store of \<open>Memory\<close>,
  whose stream carries their events.

  \<^bold>\<open>What is an argument\<close>

  Code outside the repository and answers of the system are arguments, with what is relied on as named
  hypotheses: SHA-256 and base64, \<^verbatim>\<open>encoding/json\<close> text and quoting, random identifiers (fresh ones are
  assumed to be fresh), the text of times and floats, processes and their start times, the outcome of
  page counts and commits, and for the deep archive the record codec (\<open>faithful\<close>: a line decodes to its
  record and no proper prefix decodes) and the outcome of file operations. Each theorem with such a
  hypothesis has a witness on concrete functions.

  \<^bold>\<open>Loops and fuel\<close>

  Loops over rows are structural recursion. The loops that run until a batch is short (\<open>expire_loop\<close>,
  \<open>cull_posts\<close>) end by a measure on the remaining rows and have a termination proof, so no operation has
  fuel. Only \<open>drain\<close>, the client of the message theorems that reads page after page, counts its requests;
  one more than the number of messages is enough. The credential patterns of the decision board are
  matched by their possible ends, by recursion on the pattern.

  \<^bold>\<open>What is left out\<close>

  One clock reading serves a whole request where the code reads the clock again between transactions.
  The audit record of a dashboard action, change notifications to waiting readers and log output are
  not state of the model. The retention of messages and retired sessions is not a step of the runs of
  messaging, so its theorems hold between two such sweeps. The cycle controller and the adapters drive
  terminal programs by what their screens show; the dashboard, the routes, the MCP server, the launcher,
  installation, import and the platform layer are protocol, presentation or operating-system glue around
  the modelled operations.
\<close>

end
